(* ===== verification/Prelude.thy ===== *)
theory Prelude
  imports Main "HOL-Library.Word"
begin

text \<open>
  Shared vocabulary of the development: the machine types of the Go sources, the
  outcome of a call that may panic, wrap-around of signed 64-bit counters, Go's time
  values, and the generic list and map facts every component uses.

  Go's \<^verbatim>\<open>uint8\<close>, \<^verbatim>\<open>uint32\<close> and \<^verbatim>\<open>uint64\<close> are words of that width. \<^verbatim>\<open>int32\<close> and
  \<^verbatim>\<open>int64\<close> values are \<open>int\<close>; where the code does arithmetic on them that can overflow, the
  wrap-around is written out with \<open>wrap_i32\<close> and \<open>wrap_i64\<close>. A \<^verbatim>\<open>time.Time\<close> is the number
  of nanoseconds since Go's zero time, so the zero value is \<open>0\<close>; \<^verbatim>\<open>time.Now()\<close> is always
  an argument of the operation that reads it.
\<close>

type_synonym byte = "8 word"
type_synonym u32 = "32 word"
type_synonym u64 = "64 word"
type_synonym time = int
type_synonym duration = int

named_theorems model_simps \<open>characteristic equations of the operations of a component\<close>
named_theorems inv_intros \<open>preservation of component invariants\<close>

subsection \<open>Calls that may panic\<close>

datatype 'a outcome = Panic | Ret 'a

fun returns :: "'a outcome \<Rightarrow> bool" where
  "returns Panic = False"
| "returns (Ret _) = True"

lemma returns_iff: "returns r \<longleftrightarrow> r \<noteq> Panic"
  by (cases r) auto

text \<open>An index expression \<^verbatim>\<open>xs[i]\<close>, which panics out of range.\<close>

definition at_index :: "'a list \<Rightarrow> int \<Rightarrow> 'a outcome" where
  "at_index xs i = (if 0 \<le> i \<and> i < int (length xs) then Ret (xs ! nat i) else Panic)"

lemma at_index_in: "0 \<le> i \<Longrightarrow> i < int (length xs) \<Longrightarrow> at_index xs i = Ret (xs ! nat i)"
  by (simp add: at_index_def)

subsection \<open>Signed machine integers\<close>

definition wrap_i64 :: "int \<Rightarrow> int" where
  "wrap_i64 x = (x + 2 ^ 63) mod 2 ^ 64 - 2 ^ 63"

definition wrap_i32 :: "int \<Rightarrow> int" where
  "wrap_i32 x = (x + 2 ^ 31) mod 2 ^ 32 - 2 ^ 31"

lemma wrap_i64_id [simp]: "- (2 ^ 63) \<le> x \<Longrightarrow> x < 2 ^ 63 \<Longrightarrow> wrap_i64 x = x"
  by (simp add: wrap_i64_def)

lemma wrap_i64_range: "- (2 ^ 63) \<le> wrap_i64 x \<and> wrap_i64 x < 2 ^ 63"
proof -
  have "0 \<le> (x + 2 ^ 63) mod 2 ^ 64" and "(x + 2 ^ 63) mod 2 ^ 64 < (2 ^ 64 :: int)"
    by (rule pos_mod_sign, simp, rule pos_mod_bound, simp)
  then show ?thesis by (simp add: wrap_i64_def)
qed

lemma wrap_i32_id [simp]: "- (2 ^ 31) \<le> x \<Longrightarrow> x < 2 ^ 31 \<Longrightarrow> wrap_i32 x = x"
  by (simp add: wrap_i32_def)

text \<open>Go's integer division truncates towards zero.\<close>

definition go_quot :: "int \<Rightarrow> int \<Rightarrow> int" where
  "go_quot x y = sgn x * sgn y * (\<bar>x\<bar> div \<bar>y\<bar>)"

subsection \<open>Time\<close>

definition second :: duration where "second = 1000000000"
definition millisecond :: duration where "millisecond = 1000000"

definition unix_epoch :: time where
  \<comment> \<open>the Unix epoch as nanoseconds since 1 January of year 1, UTC\<close>
  "unix_epoch = 62135596800 * second"

definition time_unix :: "time \<Rightarrow> int" where
  "time_unix t = (t - unix_epoch) div second"

definition time_unix_nano :: "time \<Rightarrow> int" where
  "time_unix_nano t = wrap_i64 (t - unix_epoch)"

abbreviation (input) time_is_zero :: "time \<Rightarrow> bool" where
  "time_is_zero t \<equiv> t = 0"

lemma second_pos [simp]: "0 < second" and second_nz [simp]: "second \<noteq> 0"
  by (simp_all add: second_def)

lemma time_unix_mono: "s \<le> t \<Longrightarrow> time_unix s \<le> time_unix t"
  by (simp add: time_unix_def zdiv_mono1)

subsection \<open>Lists and maps\<close>

fun find_index :: "('a \<Rightarrow> bool) \<Rightarrow> 'a list \<Rightarrow> nat option" where
  "find_index p [] = None"
| "find_index p (x # xs) = (if p x then Some 0 else map_option Suc (find_index p xs))"

lemma find_index_Some:
  "find_index p xs = Some i \<Longrightarrow> i < length xs \<and> p (xs ! i) \<and> (\<forall>j < i. \<not> p (xs ! j))"
proof (induction xs arbitrary: i)
  case Nil
  then show ?case by simp
next
  case (Cons x xs)
  then show ?case by (auto split: if_splits simp: nth_Cons split: nat.splits)
qed

lemma find_index_None: "find_index p xs = None \<longleftrightarrow> (\<forall>x \<in> set xs. \<not> p x)"
  by (induction xs) auto

text \<open>Replacing the first element that satisfies a predicate, as an update-one does.\<close>

fun update_first :: "('a \<Rightarrow> bool) \<Rightarrow> ('a \<Rightarrow> 'a) \<Rightarrow> 'a list \<Rightarrow> 'a list" where
  "update_first p f [] = []"
| "update_first p f (x # xs) = (if p x then f x # xs else x # update_first p f xs)"

fun remove_first :: "('a \<Rightarrow> bool) \<Rightarrow> 'a list \<Rightarrow> 'a list" where
  "remove_first p [] = []"
| "remove_first p (x # xs) = (if p x then xs else x # remove_first p xs)"

lemma length_update_first [simp]: "length (update_first p f xs) = length xs"
  by (induction xs) auto

lemma update_first_none: "\<forall>x \<in> set xs. \<not> p x \<Longrightarrow> update_first p f xs = xs"
  by (induction xs) auto

lemma remove_first_none: "\<forall>x \<in> set xs. \<not> p x \<Longrightarrow> remove_first p xs = xs"
  by (induction xs) auto

lemma update_first_map:
  "(\<And>x. x \<in> set xs \<Longrightarrow> q (g x) = p x) \<Longrightarrow>
   (\<And>x. x \<in> set xs \<Longrightarrow> p x \<Longrightarrow> h (g x) = g (f x)) \<Longrightarrow>
   update_first q h (map g xs) = map g (update_first p f xs)"
  by (induction xs) auto

lemma remove_first_map:
  "(\<And>x. x \<in> set xs \<Longrightarrow> q (g x) = p x) \<Longrightarrow>
   remove_first q (map g xs) = map g (remove_first p xs)"
  by (induction xs) auto

lemma find_map:
  "(\<And>x. x \<in> set xs \<Longrightarrow> q (g x) = p x) \<Longrightarrow>
   List.find q (map g xs) = map_option g (List.find p xs)"
  by (induction xs) auto

lemma set_update_first: "set (update_first p f xs) \<subseteq> set xs \<union> f ` set xs"
  by (induction xs) auto

lemma map_update_first_same:
  "(\<And>x. x \<in> set xs \<Longrightarrow> p x \<Longrightarrow> g (f x) = g x) \<Longrightarrow> map g (update_first p f xs) = map g xs"
  by (induction xs) auto

lemma find_Some_iff_map:
  "List.find p xs = Some x \<Longrightarrow> x \<in> set xs \<and> p x"
  by (induction xs) (auto split: if_splits)

lemma list_all_update: "list_all P xs \<Longrightarrow> P y \<Longrightarrow> list_all P (xs[i := y])"
  using set_update_subset_insert [of xs i y] by (auto simp: list_all_iff)

lemma list_all_filter: "list_all P xs \<Longrightarrow> list_all P (filter Q xs)"
  by (simp add: list_all_iff)

lemma sorted_wrt_hd_le:
  "sorted_wrt (\<le>) (x # xs) \<Longrightarrow> y \<in> set (x # xs) \<Longrightarrow> (x :: int) \<le> y"
  by auto

end
