(* ===== verification/GoStd.thy ===== *)
theory GoStd
  imports Prelude
begin

unbundle bit_operations_syntax

text \<open>
  The parts of Go's standard library the sources call: decimal formatting and parsing
  (\<^verbatim>\<open>fmt %d\<close>, \<^verbatim>\<open>strconv.ParseUint/ParseInt\<close>), \<^verbatim>\<open>strings.Split/Join/HasPrefix\<close>,
  \<^verbatim>\<open>hex.EncodeToString\<close>, \<^verbatim>\<open>binary.BigEndian\<close> and \<^verbatim>\<open>io.ReadFull\<close>. The lemmas are the
  round trips the components rely on.
\<close>

subsection \<open>Decimal numbers\<close>

definition digit_char :: "nat \<Rightarrow> char" where
  "digit_char d = char_of (48 + d)"

fun fmt_nat :: "nat \<Rightarrow> string" where
  "fmt_nat n = (if n < 10 then [digit_char n] else fmt_nat (n div 10) @ [digit_char (n mod 10)])"

declare fmt_nat.simps [simp del]

definition fmt_int :: "int \<Rightarrow> string" where
  "fmt_int i = (if i < 0 then CHR ''-'' # fmt_nat (nat (- i)) else fmt_nat (nat i))"

definition digit_val :: "char \<Rightarrow> nat option" where
  "digit_val c = (let k = of_char c in if 48 \<le> k \<and> k \<le> 57 then Some (k - 48) else None)"

fun parse_digits :: "nat \<Rightarrow> string \<Rightarrow> nat option" where
  "parse_digits acc [] = Some acc"
| "parse_digits acc (c # cs) =
     (case digit_val c of None \<Rightarrow> None | Some d \<Rightarrow> parse_digits (10 * acc + d) cs)"

definition parse_nat :: "string \<Rightarrow> nat option" where
  "parse_nat s = (if s = [] then None else parse_digits 0 s)"

text \<open>\<^verbatim>\<open>strconv.ParseUint(s, 10, 64)\<close>: a syntax or a range error is \<open>None\<close>.\<close>

definition parse_uint64 :: "string \<Rightarrow> u64 option" where
  "parse_uint64 s = (case parse_nat s of None \<Rightarrow> None
     | Some n \<Rightarrow> if n < 2 ^ 64 then Some (of_nat n) else None)"

text \<open>\<^verbatim>\<open>strconv.ParseInt(s, 10, 64)\<close>: an optional sign, then an unsigned number.\<close>

definition parse_int64 :: "string \<Rightarrow> int option" where
  "parse_int64 s =
     (let neg = (s \<noteq> [] \<and> hd s = CHR ''-'');
          body = (if s \<noteq> [] \<and> (hd s = CHR ''-'' \<or> hd s = CHR ''+'') then tl s else s)
      in case parse_nat body of None \<Rightarrow> None
         | Some n \<Rightarrow>
             if n \<ge> 2 ^ 64 then None
             else if \<not> neg \<and> n \<ge> 2 ^ 63 then None
             else if neg \<and> n > 2 ^ 63 then None
             else Some (if neg then - int n else int n))"

lemma of_char_digit [simp]: "d < 10 \<Longrightarrow> (of_char (digit_char d) :: nat) = 48 + d"
  by (simp add: digit_char_def)

lemma digit_val_digit [simp]: "d < 10 \<Longrightarrow> digit_val (digit_char d) = Some d"
  by (simp add: digit_val_def)

lemma fmt_nat_nonempty [simp]: "fmt_nat n \<noteq> []"
  by (subst fmt_nat.simps) simp

lemma parse_digits_append:
  "parse_digits acc (xs @ ys) =
     (case parse_digits acc xs of None \<Rightarrow> None | Some a \<Rightarrow> parse_digits a ys)"
  by (induction acc xs rule: parse_digits.induct) (auto split: option.splits)

lemma parse_digits_fmt_nat: "parse_digits 0 (fmt_nat n) = Some n"
proof (induction n rule: fmt_nat.induct)
  case (1 n)
  show ?case
  proof (cases "n < 10")
    case True
    then show ?thesis by (subst fmt_nat.simps) simp
  next
    case False
    with 1 have "parse_digits 0 (fmt_nat (n div 10)) = Some (n div 10)" by simp
    with False show ?thesis by (subst fmt_nat.simps) (simp add: parse_digits_append)
  qed
qed

lemma parse_nat_fmt_nat [simp]: "parse_nat (fmt_nat n) = Some n"
  by (simp add: parse_nat_def parse_digits_fmt_nat)

definition is_digit :: "char \<Rightarrow> bool" where
  "is_digit c \<longleftrightarrow> 48 \<le> (of_char c :: nat) \<and> (of_char c :: nat) \<le> 57"

lemma fmt_nat_digits: "c \<in> set (fmt_nat n) \<Longrightarrow> is_digit c"
proof (induction n rule: fmt_nat.induct)
  case (1 n)
  show ?case
  proof (cases "n < 10")
    case True
    with 1 have "c = digit_char n" by (subst (asm) fmt_nat.simps) simp
    with True show ?thesis by (simp add: is_digit_def)
  next
    case False
    with 1(2) have "c \<in> set (fmt_nat (n div 10)) \<or> c = digit_char (n mod 10)"
      by (subst (asm) fmt_nat.simps) auto
    with 1(1) False show ?thesis by (auto simp: is_digit_def)
  qed
qed

lemma fmt_nat_hd_digit: "is_digit (hd (fmt_nat n))"
  by (rule fmt_nat_digits [of _ n]) simp

lemma not_digit_minus [simp]: "\<not> is_digit CHR ''-''" and not_digit_plus [simp]: "\<not> is_digit CHR ''+''"
  and not_digit_dot [simp]: "\<not> is_digit CHR ''.''"
  by (simp_all add: is_digit_def)

lemma parse_uint64_fmt [simp]: "parse_uint64 (fmt_nat (unat (u :: u64))) = Some u"
  using unsigned_less [of u] by (simp add: parse_uint64_def)

lemma parse_int64_fmt [simp]:
  assumes "- (2 ^ 63) \<le> i" and "i < 2 ^ 63"
  shows "parse_int64 (fmt_int i) = Some i"
proof (cases "i < 0")
  case True
  with assms have "nat (- i) \<le> 2 ^ 63" by simp
  with True show ?thesis by (simp add: parse_int64_def fmt_int_def)
next
  case False
  have "hd (fmt_nat (nat i)) \<noteq> CHR ''-''" "hd (fmt_nat (nat i)) \<noteq> CHR ''+''"
    using fmt_nat_hd_digit [of "nat i"] by auto
  moreover have "nat i < 2 ^ 63" using assms False by simp
  ultimately show ?thesis using False by (simp add: parse_int64_def fmt_int_def)
qed

lemma dot_notin_fmt_nat [simp]: "CHR ''.'' \<notin> set (fmt_nat n)"
  using fmt_nat_digits [of "CHR ''.''" n] by auto

lemma dot_notin_fmt_int [simp]: "CHR ''.'' \<notin> set (fmt_int i)"
  by (simp add: fmt_int_def)

subsection \<open>Splitting and joining\<close>

fun split_on :: "char \<Rightarrow> string \<Rightarrow> string list" where
  "split_on c [] = [[]]"
| "split_on c (x # xs) =
     (if x = c then [] # split_on c xs
      else (case split_on c xs of [] \<Rightarrow> [[x]] | p # ps \<Rightarrow> (x # p) # ps))"

fun join_with :: "char \<Rightarrow> string list \<Rightarrow> string" where
  "join_with c [] = []"
| "join_with c [p] = p"
| "join_with c (p # q # ps) = p @ c # join_with c (q # ps)"

definition has_prefix :: "string \<Rightarrow> string \<Rightarrow> bool" where
  "has_prefix s p \<longleftrightarrow> take (length p) s = p"

lemma split_on_nonempty [simp]: "split_on c s \<noteq> []"
  by (cases s) (auto split: list.splits)

lemma split_on_no_sep: "c \<notin> set s \<Longrightarrow> split_on c s = [s]"
  by (induction s) auto

lemma split_on_append:
  "c \<notin> set p \<Longrightarrow> split_on c (p @ c # s) = p # split_on c s"
  by (induction p) (auto split: list.splits)

lemma split_join:
  "ps \<noteq> [] \<Longrightarrow> \<forall>p \<in> set ps. c \<notin> set p \<Longrightarrow> split_on c (join_with c ps) = ps"
  by (induction c ps rule: join_with.induct) (auto simp: split_on_no_sep split_on_append)

lemma join_Cons: "ps \<noteq> [] \<Longrightarrow> join_with c (p # ps) = p @ c # join_with c ps"
  by (cases ps) auto

lemma join_split: "join_with c (split_on c s) = s"
proof (induction s)
  case Nil
  then show ?case by simp
next
  case (Cons x xs)
  obtain p ps where sp: "split_on c xs = p # ps" by (cases "split_on c xs") auto
  show ?case
  proof (cases "x = c")
    case True
    with Cons sp show ?thesis by (simp add: join_Cons)
  next
    case False
    from sp Cons have "xs = join_with c (p # ps)" by simp
    with False sp show ?thesis by (cases ps) auto
  qed
qed

subsection \<open>Hexadecimal\<close>

definition hex_char :: "nat \<Rightarrow> char" where
  "hex_char d = (if d < 10 then char_of (48 + d) else char_of (87 + d))"

definition hex_encode :: "byte list \<Rightarrow> string" where
  "hex_encode bs = concat (map (\<lambda>b. [hex_char (unat b div 16), hex_char (unat b mod 16)]) bs)"

lemma unat_byte_less: "unat (b :: byte) < 256"
  using unsigned_less [of b] by simp

lemma hex_char_not_dot: "d < 16 \<Longrightarrow> hex_char d \<noteq> CHR ''.''"
proof
  assume d: "d < 16" and eq: "hex_char d = CHR ''.''"
  from eq have "(of_char (hex_char d) :: nat) = 46" by simp
  moreover have "(of_char (hex_char d) :: nat) = (if d < 10 then 48 + d else 87 + d)"
    using d by (simp add: hex_char_def)
  ultimately show False by (simp split: if_splits)
qed

lemma dot_notin_hex [simp]: "CHR ''.'' \<notin> set (hex_encode bs)"
proof -
  have "unat (b :: byte) div 16 < 16" for b using unat_byte_less [of b] by simp
  then show ?thesis
    by (auto simp: hex_encode_def hex_char_not_dot [symmetric] dest: hex_char_not_dot [THEN notE, OF _ sym])
qed

lemma length_hex_encode [simp]: "length (hex_encode bs) = 2 * length bs"
  by (induction bs) (auto simp: hex_encode_def)

subsection \<open>Big-endian words\<close>

definition put_be32 :: "u32 \<Rightarrow> byte list" where
  "put_be32 w = [ucast (drop_bit 24 w), ucast (drop_bit 16 w), ucast (drop_bit 8 w), ucast w]"

fun get_be32 :: "byte list \<Rightarrow> u32" where
  "get_be32 (a # b # c # d # _) =
     push_bit 24 (ucast a) OR push_bit 16 (ucast b) OR push_bit 8 (ucast c) OR ucast d"
| "get_be32 _ = 0"

lemma length_put_be32 [simp]: "length (put_be32 w) = 4"
  by (simp add: put_be32_def)

lemma get_put_be32 [simp]: "get_be32 (put_be32 w @ xs) = w"
proof (rule bit_word_eqI)
  fix n
  assume "n < LENGTH(32)"
  then show "bit (get_be32 (put_be32 w @ xs)) n = bit w n"
    by (cases "n < 8"; cases "n < 16"; cases "n < 24")
      (auto simp: put_be32_def bit_simps not_le not_less)
qed

lemma get_put_be32_Nil [simp]: "get_be32 (put_be32 w) = w"
  using get_put_be32 [of w "[]"] by simp

subsection \<open>Bytes of a string\<close>

definition utf8 :: "int list \<Rightarrow> string" where "utf8 bs = map char_of bs"

definition string_bytes :: "string \<Rightarrow> byte list" where
  "string_bytes s = map (\<lambda>c. of_nat (of_char c)) s"

subsection \<open>Trimming\<close>

text \<open>\<^verbatim>\<open>strings.TrimSpace\<close>: the encodings of the Unicode white space, removed at both ends.\<close>

definition spaces :: "string list" where
  "spaces = map utf8 ([[0x20], [0x09], [0x0A], [0x0B], [0x0C], [0x0D], [0xC2, 0x85], [0xC2, 0xA0], [0xE1, 0x9A, 0x80],
     [0xE2, 0x80, 0xA8], [0xE2, 0x80, 0xA9], [0xE2, 0x80, 0xAF], [0xE2, 0x81, 0x9F], [0xE3, 0x80, 0x80]] @
     map (\<lambda>n. [0xE2, 0x80, 0x80 + int n]) [0..<11])"

function trim_left :: "string list \<Rightarrow> string \<Rightarrow> string" where
  "trim_left ps s = (case List.find (\<lambda>p. p \<noteq> [] \<and> has_prefix s p) ps of
      None \<Rightarrow> s | Some p \<Rightarrow> trim_left ps (drop (length p) s))"
  by auto
termination
proof (relation "measure (length \<circ> snd)")
  fix ps :: "string list" and s p :: string
  assume "List.find (\<lambda>p. p \<noteq> [] \<and> has_prefix s p) ps = Some p"
  then have "p \<noteq> []" "take (length p) s = p" by (auto simp: find_Some_iff has_prefix_def)
  then have "0 < length p" "s \<noteq> []" by auto
  then show "((ps, drop (length p) s), ps, s) \<in> measure (length \<circ> snd)" by (cases s) auto
qed simp

declare trim_left.simps [simp del]

definition TrimSpace :: "string \<Rightarrow> string" where
  "TrimSpace s = rev (trim_left (map rev spaces) (rev (trim_left spaces s)))"

subsection \<open>Remainder\<close>

text \<open>Go's remainder has the sign of the dividend.\<close>

definition go_rem :: "int \<Rightarrow> int \<Rightarrow> int" where
  "go_rem x y = x - y * go_quot x y"

lemma go_rem_nat: "go_rem (int a) (int b) = int (a mod b)"
proof (cases "a = 0 \<or> b = 0")
  case False
  then have "go_quot (int a) (int b) = int (a div b)" by (simp add: go_quot_def zdiv_int)
  then show ?thesis by (simp add: go_rem_def flip: of_nat_mult of_nat_diff) (simp add: minus_mult_div_eq_mod [symmetric] of_nat_diff)
qed (auto simp: go_rem_def go_quot_def)

end
