(* ===== verification/Frame.thy ===== *)
theory Frame
  imports GoStd
begin

text \<open>
  \<^verbatim>\<open>internal/network/frame.go\<close>: length-prefixed frames over a byte stream. A reader is the
  stream of bytes it will still deliver and the error it reports when they are exhausted; a
  writer is any state with a \<^verbatim>\<open>Write\<close> operation. The locale \<open>io_writer\<close> is the contract of
  \<^verbatim>\<open>io.Writer\<close> that \<^verbatim>\<open>writeFull\<close> relies on; \<open>conn_write\<close>, a TCP connection whose kernel
  takes any number of bytes per call or fails, provides it.
\<close>

subsection \<open>Options and errors\<close>

datatype io_error = IoEOF | IoUnexpectedEOF | IoShortWrite | IoClosed | IoTimeout | IoOther nat

datatype frame_error =
    FrameDeadline io_error
  | FrameReadHeader io_error
  | FrameReadBody io_error
  | FrameInvalidLength int
  | FrameWriteHeader io_error
  | FrameWriteBody io_error

definition FrameHeaderSize :: u32 where "FrameHeaderSize = 4"
definition DefaultMaxFrame :: u32 where "DefaultMaxFrame = 1024 * 1024"

record frame_options =
  fo_MaxFrameSize :: u32
  fo_ReadTimeout :: duration
  fo_WriteTimeout :: duration

definition maxFrameSize :: "frame_options \<Rightarrow> u32" where
  "maxFrameSize opts = (if fo_MaxFrameSize opts = 0 then DefaultMaxFrame else fo_MaxFrameSize opts)"

subsection \<open>Reading\<close>

record reader =
  rd_in :: "byte list"
  rd_fail :: io_error
  rd_set_deadline :: "io_error option option"
    \<comment> \<open>\<open>None\<close>: not a deadlineReader; \<open>Some r\<close>: the outcome of SetReadDeadline\<close>
  rd_deadline :: "time option"

text \<open>\<^verbatim>\<open>io.ReadFull\<close>: all \<open>n\<close> bytes, or an error; a partial read turns EOF into unexpected EOF.\<close>

definition read_full :: "reader \<Rightarrow> nat \<Rightarrow> reader \<times> (io_error + byte list)" where
  "read_full r n =
     (if n \<le> length (rd_in r) then (r\<lparr>rd_in := drop n (rd_in r)\<rparr>, Inr (take n (rd_in r)))
      else (r\<lparr>rd_in := []\<rparr>,
            Inl (if rd_fail r = IoEOF \<and> rd_in r \<noteq> [] then IoUnexpectedEOF else rd_fail r)))"

definition apply_read_deadline :: "time \<Rightarrow> frame_options \<Rightarrow> reader \<Rightarrow> reader \<times> io_error option" where
  "apply_read_deadline now opts r =
     (if fo_ReadTimeout opts > 0 then
        (case rd_set_deadline r of
           None \<Rightarrow> (r, None)
         | Some (Some e) \<Rightarrow> (r, Some e)
         | Some None \<Rightarrow> (r\<lparr>rd_deadline := Some (now + fo_ReadTimeout opts)\<rparr>, None))
      else (r, None))"

definition ReadFrameWithOptions ::
    "time \<Rightarrow> reader \<Rightarrow> frame_options \<Rightarrow> reader \<times> (frame_error + byte list)" where
  "ReadFrameWithOptions now r opts =
     (case apply_read_deadline now opts r of
        (r0, Some e) \<Rightarrow> (r0, Inl (FrameDeadline e))
      | (r0, None) \<Rightarrow>
          (case read_full r0 4 of
             (r1, Inl e) \<Rightarrow> (r1, Inl (FrameReadHeader e))
           | (r1, Inr header) \<Rightarrow>
               (let frameLen = get_be32 header in
                if frameLen = 0 \<or> frameLen > maxFrameSize opts
                then (r1, Inl (FrameInvalidLength (uint frameLen)))
                else (case read_full r1 (unat frameLen) of
                        (r2, Inl e) \<Rightarrow> (r2, Inl (FrameReadBody e))
                      | (r2, Inr frame) \<Rightarrow> (r2, Inr frame)))))"

definition ReadFrame :: "time \<Rightarrow> reader \<Rightarrow> u32 \<Rightarrow> reader \<times> (frame_error + byte list)" where
  "ReadFrame now r mx = ReadFrameWithOptions now r
     \<lparr>fo_MaxFrameSize = mx, fo_ReadTimeout = 0, fo_WriteTimeout = 0\<rparr>"

subsection \<open>Writing\<close>

record 'w writer_ops =
  wo_write :: "'w \<Rightarrow> byte list \<Rightarrow> 'w \<times> int \<times> io_error option"
  wo_set_deadline :: "('w \<Rightarrow> time \<Rightarrow> 'w \<times> io_error option) option"
    \<comment> \<open>\<open>None\<close>: the writer is not a deadlineWriter\<close>

text \<open>
  The loop of \<^verbatim>\<open>writeFull\<close>. A writer that claims more bytes than it was given makes the
  slice expression \<^verbatim>\<open>data[n:]\<close> panic.
\<close>

function writeFull ::
    "('w \<Rightarrow> byte list \<Rightarrow> 'w \<times> int \<times> io_error option) \<Rightarrow> 'w \<Rightarrow> byte list \<Rightarrow>
     'w \<times> io_error option outcome" where
  "writeFull wr w data =
     (if data = [] then (w, Ret None)
      else (case wr w data of
              (w', n, Some e) \<Rightarrow> (w', Ret (Some e))
            | (w', n, None) \<Rightarrow>
                if n \<le> 0 then (w', Ret (Some IoShortWrite))
                else if n > int (length data) then (w', Panic)
                else writeFull wr w' (drop (nat n) data)))"
  by pat_completeness auto
termination
  by (relation "measure (\<lambda>(wr, w, data). length data)") auto

declare writeFull.simps [simp del]

definition apply_write_deadline ::
    "'w writer_ops \<Rightarrow> time \<Rightarrow> frame_options \<Rightarrow> 'w \<Rightarrow> 'w \<times> io_error option" where
  "apply_write_deadline ops now opts w =
     (if fo_WriteTimeout opts > 0 then
        (case wo_set_deadline ops of
           None \<Rightarrow> (w, None)
         | Some sd \<Rightarrow> sd w (now + fo_WriteTimeout opts))
      else (w, None))"

definition WriteFrameWithOptions ::
    "'w writer_ops \<Rightarrow> time \<Rightarrow> 'w \<Rightarrow> byte list \<Rightarrow> frame_options \<Rightarrow> 'w \<times> frame_error option outcome" where
  "WriteFrameWithOptions ops now w payload opts =
     (if payload = [] \<or> (of_nat (length payload) :: u32) > maxFrameSize opts
      then (w, Ret (Some (FrameInvalidLength (int (length payload)))))
      else (case apply_write_deadline ops now opts w of
              (w0, Some e) \<Rightarrow> (w0, Ret (Some (FrameDeadline e)))
            | (w0, None) \<Rightarrow>
                (case writeFull (wo_write ops) w0 (put_be32 (of_nat (length payload))) of
                   (w1, Panic) \<Rightarrow> (w1, Panic)
                 | (w1, Ret (Some e)) \<Rightarrow> (w1, Ret (Some (FrameWriteHeader e)))
                 | (w1, Ret None) \<Rightarrow>
                     (case writeFull (wo_write ops) w1 payload of
                        (w2, Panic) \<Rightarrow> (w2, Panic)
                      | (w2, Ret (Some e)) \<Rightarrow> (w2, Ret (Some (FrameWriteBody e)))
                      | (w2, Ret None) \<Rightarrow> (w2, Ret None)))))"

definition WriteFrame ::
    "'w writer_ops \<Rightarrow> time \<Rightarrow> 'w \<Rightarrow> byte list \<Rightarrow> u32 \<Rightarrow> 'w \<times> frame_error option outcome" where
  "WriteFrame ops now w payload mx = WriteFrameWithOptions ops now w payload
     \<lparr>fo_MaxFrameSize = mx, fo_ReadTimeout = 0, fo_WriteTimeout = 0\<rparr>"

subsection \<open>The contract of io.Writer\<close>

locale io_writer =
  fixes ops :: "'w writer_ops" and out :: "'w \<Rightarrow> byte list"
  assumes write_count: "wo_write ops w d = (w', n, e) \<Longrightarrow> 0 \<le> n \<and> n \<le> int (length d)"
    and write_out: "wo_write ops w d = (w', n, e) \<Longrightarrow> out w' = out w @ take (nat n) d"
    and deadline_out: "wo_set_deadline ops = Some sd \<Longrightarrow> sd w t = (w', e) \<Longrightarrow> out w' = out w"
begin

text \<open>
  Whatever the writer does, \<open>writeFull\<close> returns without panic, has put a prefix of the data
  on the stream, and on success all of it.
\<close>

lemma writeFull_prefix:
  "writeFull (wo_write ops) w d = (w', r) \<Longrightarrow>
   r \<noteq> Panic \<and> (\<exists>k \<le> length d. out w' = out w @ take k d \<and> (r = Ret None \<longrightarrow> k = length d))"
proof (induction "wo_write ops" w d rule: writeFull.induct)
  case (1 w d)
  show ?case
  proof (cases "d = []")
    case True
    with 1(2) show ?thesis by (subst (asm) writeFull.simps) auto
  next
    case nonempty: False
    obtain w1 n e where wr: "wo_write ops w d = (w1, n, e)" by (metis prod_cases3)
    note ct = write_count [OF wr] and ot = write_out [OF wr]
    show ?thesis
    proof (cases "e = None \<and> 0 < n")
      case False
      with 1(2) nonempty wr ct have "r \<noteq> Panic \<and> r \<noteq> Ret None \<and> w' = w1"
        by (subst (asm) writeFull.simps) (auto split: option.splits if_splits)
      with ct ot show ?thesis by (intro conjI exI [of _ "nat n"]) auto
    next
      case True
      with 1(2) nonempty wr ct have rest: "writeFull (wo_write ops) w1 (drop (nat n) d) = (w', r)"
        by (subst (asm) writeFull.simps) auto
      from True ct have "\<not> n \<le> 0" "\<not> int (length d) < n" by auto
      with 1(1) [OF nonempty wr [symmetric] refl _ _ _ rest] True obtain k where
        k: "r \<noteq> Panic" "k \<le> length (drop (nat n) d)"
          "out w' = out w1 @ take k (drop (nat n) d)" "r = Ret None \<longrightarrow> k = length (drop (nat n) d)"
        by auto
      have "out w' = out w @ take (nat n + k) d"
        using k(3) ot by (simp add: take_add)
      moreover have "nat n + k \<le> length d" using k(2) ct True by auto
      moreover have "r = Ret None \<longrightarrow> nat n + k = length d" using k(4) ct True by auto
      ultimately show ?thesis using k(1) by blast
    qed
  qed
qed

lemma writeFull_ok: "writeFull (wo_write ops) w d = (w', Ret None) \<Longrightarrow> out w' = out w @ d"
  using writeFull_prefix [of w d w' "Ret None"] by auto

lemma writeFull_no_panic: "writeFull (wo_write ops) w d \<noteq> (w', Panic)"
  using writeFull_prefix [of w d w' Panic] by auto

lemma apply_deadline_out: "apply_write_deadline ops now opts w = (w', e) \<Longrightarrow> out w' = out w"
  by (auto simp: apply_write_deadline_def split: if_splits option.splits dest: deadline_out)

lemma write_frame_no_panic: "WriteFrameWithOptions ops now w p opts \<noteq> (w', Panic)"
  by (auto simp: WriteFrameWithOptions_def writeFull_no_panic split: prod.splits option.splits outcome.splits)

lemma write_frame_out:
  assumes "WriteFrameWithOptions ops now w p opts = (w', Ret None)"
  shows "p \<noteq> [] \<and> (of_nat (length p) :: u32) \<le> maxFrameSize opts \<and>
         out w' = out w @ put_be32 (of_nat (length p)) @ p"
proof -
  obtain w0 where d: "apply_write_deadline ops now opts w = (w0, None)"
    using assms by (auto simp: WriteFrameWithOptions_def split: if_splits prod.splits option.splits)
  obtain w1 where h: "writeFull (wo_write ops) w0 (put_be32 (of_nat (length p))) = (w1, Ret None)"
    and b: "writeFull (wo_write ops) w1 p = (w', Ret None)" and g: "p \<noteq> []" "(of_nat (length p) :: u32) \<le> maxFrameSize opts"
    using assms d by (auto simp: WriteFrameWithOptions_def split: if_splits prod.splits option.splits outcome.splits)
  show ?thesis
    using apply_deadline_out [OF d] writeFull_ok [OF h] writeFull_ok [OF b] g by simp
qed

text \<open>On any outcome the stream has grown by a prefix of one encoded frame.\<close>

lemma write_frame_prefix:
  assumes "WriteFrameWithOptions ops now w p opts = (w', r)"
  shows "\<exists>k. out w' = out w @ take k (put_be32 (of_nat (length p)) @ p)"
proof -
  consider (guard) "w' = w"
    | (deadline) e where "apply_write_deadline ops now opts w = (w', e)"
    | (header) w0 r0 where "apply_write_deadline ops now opts w = (w0, None)"
        "writeFull (wo_write ops) w0 (put_be32 (of_nat (length p))) = (w', r0)"
    | (body) w0 w1 r1 where "apply_write_deadline ops now opts w = (w0, None)"
        "writeFull (wo_write ops) w0 (put_be32 (of_nat (length p))) = (w1, Ret None)"
        "writeFull (wo_write ops) w1 p = (w', r1)"
    using assms by (auto simp: WriteFrameWithOptions_def split: if_splits prod.splits option.splits outcome.splits)
  then show ?thesis
  proof cases
    case guard
    then show ?thesis by (intro exI [of _ 0]) simp
  next
    case deadline
    then show ?thesis by (intro exI [of _ 0]) (simp add: apply_deadline_out)
  next
    case header
    then obtain k where "k \<le> 4" "out w' = out w @ take k (put_be32 (of_nat (length p)))"
      using writeFull_prefix [OF header(2)] apply_deadline_out [OF header(1)] by auto
    then show ?thesis by (intro exI [of _ k]) simp
  next
    case body
    then obtain k where "out w' = out w @ put_be32 (of_nat (length p)) @ take k p"
      using writeFull_prefix [OF body(3)] writeFull_ok [OF body(2)] apply_deadline_out [OF body(1)] by auto
    then show ?thesis by (intro exI [of _ "4 + k"]) simp
  qed
qed

end

subsection \<open>A TCP connection as a writer\<close>

text \<open>
  \<^verbatim>\<open>net.Conn\<close> as the sources use it for writing: the bytes that went out, and the behaviour
  of the coming \<^verbatim>\<open>Write\<close> calls, each of which takes some of the bytes it is offered and may
  fail after that; a connection with no scripted behaviour left takes everything.
\<close>

datatype write_event = Accept nat | AcceptFail nat io_error

record wconn =
  wc_sent :: "byte list"
  wc_script :: "write_event list"
  wc_deadline :: "time option"
  wc_deadline_err :: "io_error option"

definition conn_write :: "wconn \<Rightarrow> byte list \<Rightarrow> wconn \<times> int \<times> io_error option" where
  "conn_write c d =
     (case wc_script c of
        [] \<Rightarrow> (c\<lparr>wc_sent := wc_sent c @ d\<rparr>, int (length d), None)
      | Accept k # es \<Rightarrow>
          (c\<lparr>wc_sent := wc_sent c @ take k d, wc_script := es\<rparr>, int (min k (length d)), None)
      | AcceptFail k e # es \<Rightarrow>
          (c\<lparr>wc_sent := wc_sent c @ take k d, wc_script := es\<rparr>, int (min k (length d)), Some e))"

definition conn_set_write_deadline :: "wconn \<Rightarrow> time \<Rightarrow> wconn \<times> io_error option" where
  "conn_set_write_deadline c t =
     (case wc_deadline_err c of
        Some e \<Rightarrow> (c, Some e)
      | None \<Rightarrow> (c\<lparr>wc_deadline := Some t\<rparr>, None))"

definition conn_ops :: "wconn writer_ops" where
  "conn_ops = \<lparr>wo_write = conn_write, wo_set_deadline = Some conn_set_write_deadline\<rparr>"

interpretation tcp_conn: io_writer conn_ops wc_sent
proof unfold_locales
  fix c d c' n e
  assume "wo_write conn_ops c d = (c', n, e)"
  then show "0 \<le> n \<and> n \<le> int (length d)" and "wc_sent c' = wc_sent c @ take (nat n) d"
    by (auto simp: conn_ops_def conn_write_def min_def split: list.splits write_event.splits)
next
  fix sd c t c' e
  assume "wo_set_deadline conn_ops = Some sd" "sd c t = (c', e)"
  then show "wc_sent c' = wc_sent c"
    by (auto simp: conn_ops_def conn_set_write_deadline_def split: option.splits)
qed

subsection \<open>Streams of frames\<close>

text \<open>Writing frames one after the other, and reading as many frames as were written.\<close>

fun write_frames :: "time \<Rightarrow> frame_options \<Rightarrow> wconn \<Rightarrow> byte list list \<Rightarrow> wconn \<times> frame_error option outcome" where
  "write_frames now opts c [] = (c, Ret None)"
| "write_frames now opts c (p # ps) =
     (case WriteFrameWithOptions conn_ops now c p opts of
        (c', Ret None) \<Rightarrow> write_frames now opts c' ps
      | (c', r) \<Rightarrow> (c', r))"

fun read_frames :: "time \<Rightarrow> frame_options \<Rightarrow> nat \<Rightarrow> reader \<Rightarrow> reader \<times> (frame_error + byte list list)" where
  "read_frames now opts 0 r = (r, Inr [])"
| "read_frames now opts (Suc n) r =
     (case ReadFrameWithOptions now r opts of
        (r', Inl e) \<Rightarrow> (r', Inl e)
      | (r', Inr f) \<Rightarrow>
          (case read_frames now opts n r' of
             (r'', Inl e) \<Rightarrow> (r'', Inl e)
           | (r'', Inr fs) \<Rightarrow> (r'', Inr (f # fs))))"

definition encode_frame :: "byte list \<Rightarrow> byte list" where
  "encode_frame p = put_be32 (of_nat (length p)) @ p"

lemma read_full_exact: "length xs = n \<Longrightarrow> rd_in r = xs @ ys \<Longrightarrow> read_full r n = (r\<lparr>rd_in := ys\<rparr>, Inr xs)"
  by (simp add: read_full_def)

lemma read_deadline_in:
  "apply_read_deadline now opts r = (r', e) \<Longrightarrow>
   rd_in r' = rd_in r \<and> rd_fail r' = rd_fail r \<and> rd_set_deadline r' = rd_set_deadline r"
  by (auto simp: apply_read_deadline_def split: if_splits option.splits)

lemma read_frame_consumes:
  assumes "ReadFrameWithOptions now r opts = (r', Inr f)"
  shows "length (rd_in r') < length (rd_in r)"
proof -
  obtain r0 e0 where d: "apply_read_deadline now opts r = (r0, e0)" by (cases "apply_read_deadline now opts r")
  from assms d read_deadline_in [OF d] show ?thesis
    by (auto simp: ReadFrameWithOptions_def read_full_def Let_def split: option.splits if_splits)
qed

lemma read_encoded_frame:
  assumes "rd_in r = encode_frame p @ rest"
    and "p \<noteq> []" and "length p < 2 ^ 32" and "(of_nat (length p) :: u32) \<le> maxFrameSize opts"
    and nf: "\<And>e. rd_set_deadline r \<noteq> Some (Some e)"
  shows "\<exists>r'. ReadFrameWithOptions now r opts = (r', Inr p) \<and> rd_in r' = rest \<and>
              rd_set_deadline r' = rd_set_deadline r"
proof -
  have "snd (apply_read_deadline now opts r) = None"
    using nf by (auto simp: apply_read_deadline_def split: option.splits)
  then obtain r0 where d: "apply_read_deadline now opts r = (r0, None)"
    by (cases "apply_read_deadline now opts r") auto
  have ul: "unat (of_nat (length p) :: u32) = length p"
    using assms(3) by (simp add: unat_of_nat)
  have nz: "(of_nat (length p) :: u32) \<noteq> 0" using assms(2) ul by (metis length_0_conv unat_0)
  have in0: "rd_in r0 = put_be32 (of_nat (length p)) @ p @ rest"
    using read_deadline_in [OF d] assms(1) by (simp add: encode_frame_def)
  have "read_full r0 4 = (r0\<lparr>rd_in := p @ rest\<rparr>, Inr (put_be32 (of_nat (length p))))"
    by (rule read_full_exact) (simp_all add: in0)
  moreover have "read_full (r0\<lparr>rd_in := p @ rest\<rparr>) (length p) = (r0\<lparr>rd_in := rest\<rparr>, Inr p)"
    using read_full_exact [of p "length p" "r0\<lparr>rd_in := p @ rest\<rparr>" rest] by simp
  ultimately show ?thesis
    using d nz ul assms(4) read_deadline_in [OF d] by (simp add: ReadFrameWithOptions_def Let_def)
qed

lemma write_frames_out:
  assumes "write_frames now opts c ps = (c', Ret None)"
  shows "wc_sent c' = wc_sent c @ concat (map encode_frame ps) \<and>
         (\<forall>p \<in> set ps. p \<noteq> [] \<and> (of_nat (length p) :: u32) \<le> maxFrameSize opts)"
  using assms
proof (induction now opts c ps rule: write_frames.induct)
  case (1 now opts c)
  then show ?case by simp
next
  case (2 now opts c p ps)
  then obtain c1 where w: "WriteFrameWithOptions conn_ops now c p opts = (c1, Ret None)"
    and ws: "write_frames now opts c1 ps = (c', Ret None)"
    by (auto split: prod.splits outcome.splits option.splits)
  from tcp_conn.write_frame_out [OF w] 2(1) [OF w [symmetric] refl refl ws] show ?case
    by (simp add: encode_frame_def)
qed

lemma writeFull_quiet:
  "wc_script w = [] \<Longrightarrow> writeFull conn_write w d = (w\<lparr>wc_sent := wc_sent w @ d\<rparr>, Ret None)"
  by (cases "d = []") (simp_all add: writeFull.simps [of conn_write w d] conn_write_def writeFull.simps [of _ _ "[]"])

lemma write_frame_quiet:
  assumes "wc_script c = []" and "wc_deadline_err c = None"
    and "p \<noteq> []" and "(of_nat (length p) :: u32) \<le> maxFrameSize opts"
  shows "\<exists>c'. WriteFrameWithOptions conn_ops now c p opts = (c', Ret None) \<and>
              wc_sent c' = wc_sent c @ encode_frame p \<and> wc_script c' = [] \<and> wc_deadline_err c' = None"
proof -
  obtain w0 where w0: "apply_write_deadline conn_ops now opts c = (w0, None)" "wc_sent w0 = wc_sent c"
    "wc_script w0 = []" "wc_deadline_err w0 = None"
  proof (rule that [of "fst (apply_write_deadline conn_ops now opts c)"])
  qed (use assms(1,2) in \<open>simp_all add: apply_write_deadline_def conn_ops_def conn_set_write_deadline_def\<close>)
  then show ?thesis
    using assms(3,4) by (simp add: WriteFrameWithOptions_def conn_ops_def writeFull_quiet not_less encode_frame_def)
qed

lemma read_frames_encoded:
  assumes "rd_in r = concat (map encode_frame ps) @ rest"
    and "\<forall>p \<in> set ps. p \<noteq> [] \<and> length p < 2 ^ 32 \<and> (of_nat (length p) :: u32) \<le> maxFrameSize opts"
    and "\<And>e. rd_set_deadline r \<noteq> Some (Some e)"
  shows "\<exists>r'. read_frames now opts (length ps) r = (r', Inr ps) \<and> rd_in r' = rest"
  using assms
proof (induction ps arbitrary: r)
  case Nil
  then show ?case by simp
next
  case (Cons p ps)
  have "\<exists>r1. ReadFrameWithOptions now r opts = (r1, Inr p) \<and>
          rd_in r1 = concat (map encode_frame ps) @ rest \<and> rd_set_deadline r1 = rd_set_deadline r"
    using Cons.prems by (intro read_encoded_frame) auto
  then obtain r1 where r1: "ReadFrameWithOptions now r opts = (r1, Inr p)"
    and i1: "rd_in r1 = concat (map encode_frame ps) @ rest" "rd_set_deadline r1 = rd_set_deadline r" by blast
  obtain r2 where "read_frames now opts (length ps) r1 = (r2, Inr ps)" "rd_in r2 = rest"
    using Cons.IH [OF i1(1)] Cons.prems i1(2) by auto
  with r1 show ?case by simp
qed

subsection \<open>Properties\<close>

text \<open>
  C1: A stream of frames survives the wire. If writing the payloads \<open>ps\<close> one after the other
  with \<^verbatim>\<open>WriteFrameWithOptions\<close> succeeds, then, however the connection split the writes, a
  reader with at least the same limit that gets the bytes sent returns exactly these payloads, in
  order, and leaves the bytes that follow unread.
\<close>

theorem frame_stream_roundtrip:
  assumes "write_frames now opts c ps = (c', Ret None)" and "wc_sent c = []"
    and "\<forall>p \<in> set ps. length p < 2 ^ 32"
    and "maxFrameSize opts \<le> maxFrameSize ropts"
    and "rd_in r = wc_sent c' @ rest" and "\<forall>e. rd_set_deadline r \<noteq> Some (Some e)"
  shows "\<exists>r'. read_frames now' ropts (length ps) r = (r', Inr ps) \<and> rd_in r' = rest"
  using write_frames_out [OF assms(1)] assms(2-6) by (intro read_frames_encoded) auto

definition demo_conn :: wconn where
  "demo_conn = \<lparr>wc_sent = [], wc_script = [Accept 1, Accept 3, Accept 1], wc_deadline = None, wc_deadline_err = None\<rparr>"

definition demo_opts :: frame_options where
  "demo_opts = \<lparr>fo_MaxFrameSize = 16, fo_ReadTimeout = 5, fo_WriteTimeout = 7\<rparr>"

definition demo_reader :: "byte list \<Rightarrow> reader" where
  "demo_reader bs = \<lparr>rd_in = bs, rd_fail = IoEOF, rd_set_deadline = Some None, rd_deadline = None\<rparr>"

lemma demo_write:
  "write_frames 0 demo_opts demo_conn [[7, 8, 9], [10]] =
     (\<lparr>wc_sent = [0, 0, 0, 3, 7, 8, 9, 0, 0, 0, 1, 10], wc_script = [],
       wc_deadline = Some 7, wc_deadline_err = None\<rparr>, Ret None)"
  by code_simp

theorem frame_stream_roundtrip_witness:
  "\<exists>r'. read_frames 0 demo_opts (length [[7, 8, 9], [10 :: byte]])
           (demo_reader [0, 0, 0, 3, 7, 8, 9, 0, 0, 0, 1, 10, 99]) = (r', Inr [[7, 8, 9], [10]]) \<and> rd_in r' = [99]"
  by (rule frame_stream_roundtrip [OF demo_write]) (simp_all add: demo_conn_def demo_reader_def)

text \<open>
  Reading a frame never panics and never delivers more than the limit: a successful
  \<^verbatim>\<open>ReadFrameWithOptions\<close> returns a non-empty frame of at most \<^verbatim>\<open>maxFrameSize\<close> bytes and has
  consumed exactly the header and the frame; a length of zero or above the limit is refused
  before a byte of the body is read.
\<close>

theorem read_frame_bounds:
  assumes "ReadFrameWithOptions now r opts = (r', res)"
  shows "case res of
      Inr f \<Rightarrow> f \<noteq> [] \<and> length f \<le> unat (maxFrameSize opts) \<and>
               length f = unat (get_be32 (take 4 (rd_in r))) \<and>
               rd_in r = take 4 (rd_in r) @ f @ rd_in r'
    | Inl (FrameInvalidLength n) \<Rightarrow> (n = 0 \<or> n > uint (maxFrameSize opts)) \<and> rd_in r' = drop 4 (rd_in r)
    | Inl _ \<Rightarrow> True"
proof -
  obtain r0 e0 where d: "apply_read_deadline now opts r = (r0, e0)" by (cases "apply_read_deadline now opts r")
  note i0 = read_deadline_in [OF d]
  show ?thesis
  proof (cases "e0 = None \<and> 4 \<le> length (rd_in r)")
    case False
    with assms d i0 show ?thesis
      by (auto simp: ReadFrameWithOptions_def read_full_def split: option.splits if_splits)
  next
    case True
    let ?n = "get_be32 (take 4 (rd_in r))"
    show ?thesis
    proof (cases "?n = 0 \<or> ?n > maxFrameSize opts")
      case bad: True
      then have "uint ?n = 0 \<or> uint ?n > uint (maxFrameSize opts)" by (auto simp: word_less_def)
      with bad True assms d i0 show ?thesis
        by (auto simp: ReadFrameWithOptions_def read_full_def Let_def)
    next
      case ok: False
      then have nz: "unat ?n \<noteq> 0" and le: "unat ?n \<le> unat (maxFrameSize opts)"
        by (auto simp: unat_eq_0 word_le_nat_alt not_less)
      show ?thesis
      proof (cases "unat ?n \<le> length (drop 4 (rd_in r))")
        case short: False
        with ok True assms d i0 show ?thesis
          by (auto simp: ReadFrameWithOptions_def read_full_def Let_def)
      next
        case long: True
        with ok True assms d i0
        have "res = Inr (take (unat ?n) (drop 4 (rd_in r)))" "rd_in r' = drop (unat ?n) (drop 4 (rd_in r))"
          by (auto simp: ReadFrameWithOptions_def read_full_def Let_def)
        moreover have "take (unat ?n) (drop 4 (rd_in r)) \<noteq> []" using nz long by auto
        moreover have "rd_in r = take 4 (rd_in r) @ take (unat ?n) (drop 4 (rd_in r)) @ drop (unat ?n) (drop 4 (rd_in r))"
          by (metis append_take_drop_id)
        ultimately show ?thesis using le long by simp
      qed
    qed
  qed
qed

text \<open>The witness reads a frame that is too long for the limit.\<close>

theorem read_frame_bounds_witness:
  "rd_in (fst (ReadFrameWithOptions 0 (demo_reader [0, 0, 0, 17, 5]) demo_opts)) = [5]"
proof -
  have "ReadFrameWithOptions 0 (demo_reader [0, 0, 0, 17, 5]) demo_opts =
    ((demo_reader [5])\<lparr>rd_deadline := Some 5\<rparr>, Inl (FrameInvalidLength 17))" by code_simp
  from read_frame_bounds [OF this] this show ?thesis by (simp add: demo_reader_def)
qed

text \<open>
  The limit check of \<^verbatim>\<open>WriteFrameWithOptions\<close> works on the length truncated to 32 bits. On a
  connection that takes everything, a payload whose length is \<open>k\<close> modulo \<open>2 ^ 32\<close> with
  \<open>0 < k\<close> and \<open>k \<le> maxFrameSize\<close> is written in full under a header that announces \<open>k\<close> bytes,
  however long it is.
\<close>

theorem write_frame_length_wraps:
  assumes "length p = k + 2 ^ 32 * m" and "0 < k" and "k < 2 ^ 32"
    and "(of_nat k :: u32) \<le> maxFrameSize opts" and "wc_script c = []" and "wc_deadline_err c = None"
  shows "\<exists>c'. WriteFrameWithOptions conn_ops now c p opts = (c', Ret None) \<and>
              wc_sent c' = wc_sent c @ put_be32 (of_nat k) @ p"
proof -
  have len: "(of_nat (length p) :: u32) = of_nat k"
    by (rule word_unat_eq_iff [THEN iffD2]) (simp only: assms(1) unat_of_nat, simp)
  have ne: "p \<noteq> []" using assms(1,2) by auto
  from write_frame_quiet [OF assms(5,6) ne, of opts now] assms(4) show ?thesis
    by (auto simp: encode_frame_def len)
qed

theorem write_frame_length_wraps_witness:
  "\<exists>p c'. length p = 3 + 2 ^ 32 \<and>
      WriteFrameWithOptions conn_ops 0 (demo_conn\<lparr>wc_script := []\<rparr>) p demo_opts = (c', Ret None) \<and>
      wc_sent c' = put_be32 3 @ p"
proof -
  obtain p :: "byte list" where p: "length p = 3 + 2 ^ 32 * 1"
    using Ex_list_of_length by blast
  have "(of_nat 3 :: u32) \<le> maxFrameSize demo_opts" by code_simp
  with write_frame_length_wraps [OF p, of demo_opts "demo_conn\<lparr>wc_script := []\<rparr>" 0]
  have "\<exists>c'. WriteFrameWithOptions conn_ops 0 (demo_conn\<lparr>wc_script := []\<rparr>) p demo_opts = (c', Ret None) \<and>
        wc_sent c' = put_be32 (of_nat 3) @ p"
    by (simp add: demo_conn_def)
  with p show ?thesis by auto
qed

end
