(* ===== verification/ObjectPool.thy ===== *)
theory ObjectPool
  imports Prelude
begin

text \<open>
  \<^verbatim>\<open>internal/pool/object_pool.go\<close>: the generic pool behind the message, actor-message and
  connection pools, the reusable messages with their internal buffer, and the size-classed
  byte buffers. The locale \<open>object_pool\<close> is what a client of \<^verbatim>\<open>ObjectPool\<close> relies on: the pool
  keeps its invariant and hands out only objects in reset state.
\<close>

subsection \<open>GenericPool\<close>

record 'a gpool =
  gp_pool :: "'a list"
  gp_maxSize :: int
  gp_created :: int
  gp_gotten :: int
  gp_put :: int

definition NewGenericPool :: "int \<Rightarrow> 'a gpool outcome" where
  \<comment> \<open>\<^verbatim>\<open>make(chan T, n)\<close> panics on a negative capacity\<close>
  "NewGenericPool maxSize =
     (if maxSize < 0 then Panic
      else Ret \<lparr>gp_pool = [], gp_maxSize = maxSize, gp_created = 0, gp_gotten = 0, gp_put = 0\<rparr>)"

definition apply_reset :: "('a \<Rightarrow> 'a) option \<Rightarrow> 'a \<Rightarrow> 'a" where
  "apply_reset reset x = (case reset of None \<Rightarrow> x | Some f \<Rightarrow> f x)"

text \<open>
  \<^verbatim>\<open>Put\<close>: nil is ignored, otherwise the object is reset and queued, or dropped when the channel is full.
\<close>

definition Put :: "('a \<Rightarrow> 'a) option \<Rightarrow> 'a option \<Rightarrow> 'a gpool \<Rightarrow> 'a gpool" where
  "Put reset obj p =
     (case obj of
        None \<Rightarrow> p
      | Some x \<Rightarrow>
          (let p1 = p\<lparr>gp_put := wrap_i64 (gp_put p + 1)\<rparr>; y = apply_reset reset x
           in if int (length (gp_pool p1)) < gp_maxSize p1
              then p1\<lparr>gp_pool := gp_pool p1 @ [y]\<rparr> else p1))"

text \<open>
  \<^verbatim>\<open>Get\<close>: \<open>fresh\<close> is what the factory would return, \<open>arrival\<close> the object another goroutine puts
  while this one waits out its 100 ms (\<open>None\<close>: the timer fires first). The arriving object has
  gone through \<^verbatim>\<open>Put\<close> and is handed over without being queued.
\<close>

definition Get :: "('a \<Rightarrow> 'a) option \<Rightarrow> 'a \<Rightarrow> 'a option \<Rightarrow> 'a gpool \<Rightarrow> 'a gpool \<times> 'a" where
  "Get reset fresh arrival p =
     (let p1 = p\<lparr>gp_gotten := wrap_i64 (gp_gotten p + 1)\<rparr> in
      case gp_pool p1 of
        x # xs \<Rightarrow> (p1\<lparr>gp_pool := xs\<rparr>, x)
      | [] \<Rightarrow>
          if gp_created p1 < gp_maxSize p1
          then (p1\<lparr>gp_created := wrap_i64 (gp_created p1 + 1)\<rparr>, fresh)
          else (case arrival of
                  Some x \<Rightarrow> (p1\<lparr>gp_put := wrap_i64 (gp_put p1 + 1)\<rparr>, apply_reset reset x)
                | None \<Rightarrow> (p1, fresh)))"

definition Size :: "'a gpool \<Rightarrow> int" where "Size p = gp_created p"
definition Available :: "'a gpool \<Rightarrow> int" where "Available p = int (length (gp_pool p))"
definition Stats :: "'a gpool \<Rightarrow> int \<times> int \<times> int" where
  "Stats p = (gp_created p, gp_gotten p, gp_put p)"

text \<open>
  The invariant of the pool: the channel holds at most \<^verbatim>\<open>maxSize\<close> objects, all clean, and
  \<^verbatim>\<open>created\<close> never passes \<^verbatim>\<open>maxSize\<close>.
\<close>

definition pool_inv :: "('a \<Rightarrow> bool) \<Rightarrow> 'a gpool \<Rightarrow> bool" where
  "pool_inv clean p \<longleftrightarrow>
     int (length (gp_pool p)) \<le> gp_maxSize p \<and> 0 \<le> gp_created p \<and> gp_created p \<le> gp_maxSize p \<and>
     gp_maxSize p < 2 ^ 63 \<and> list_all clean (gp_pool p)"

lemma pool_inv_new:
  "NewGenericPool n = Ret p \<Longrightarrow> n < 2 ^ 63 \<Longrightarrow> pool_inv clean p"
  by (auto simp: NewGenericPool_def pool_inv_def split: if_splits)

lemma pool_inv_put:
  "pool_inv clean p \<Longrightarrow> (\<And>x. clean (apply_reset reset x)) \<Longrightarrow> pool_inv clean (Put reset obj p)"
  by (auto simp: pool_inv_def Put_def Let_def split: option.splits)

lemma pool_inv_get:
  "pool_inv clean p \<Longrightarrow> pool_inv clean (fst (Get reset fresh arrival p))"
  by (auto simp: pool_inv_def Get_def Let_def split: option.splits list.splits)

lemma get_clean:
  "pool_inv clean p \<Longrightarrow> (\<And>x. clean (apply_reset reset x)) \<Longrightarrow> clean fresh \<Longrightarrow>
   clean (snd (Get reset fresh arrival p))"
  by (auto simp: pool_inv_def Get_def Let_def split: option.splits list.splits)

subsection \<open>The interface\<close>

datatype 'a pool_op = OpGet 'a "'a option" | OpPut "'a option"

fun pool_run ::
    "('a \<Rightarrow> 'a option \<Rightarrow> 'p \<Rightarrow> 'p \<times> 'a) \<Rightarrow> ('a option \<Rightarrow> 'p \<Rightarrow> 'p) \<Rightarrow> 'a pool_op list \<Rightarrow> 'p \<Rightarrow> 'p \<times> 'a list" where
  "pool_run get put [] p = (p, [])"
| "pool_run get put (OpGet fresh arrival # ops) p =
     (case get fresh arrival p of (p1, x) \<Rightarrow>
        (case pool_run get put ops p1 of (p2, xs) \<Rightarrow> (p2, x # xs)))"
| "pool_run get put (OpPut obj # ops) p = pool_run get put ops (put obj p)"

fun fresh_clean :: "('a \<Rightarrow> bool) \<Rightarrow> 'a pool_op \<Rightarrow> bool" where
  "fresh_clean clean (OpGet fresh _) = clean fresh"
| "fresh_clean clean (OpPut _) = True"

locale object_pool =
  fixes inv :: "'p \<Rightarrow> bool" and clean :: "'a \<Rightarrow> bool"
    and get :: "'a \<Rightarrow> 'a option \<Rightarrow> 'p \<Rightarrow> 'p \<times> 'a" and put :: "'a option \<Rightarrow> 'p \<Rightarrow> 'p"
  assumes get_inv: "inv p \<Longrightarrow> clean fresh \<Longrightarrow> inv (fst (get fresh arrival p))"
    and get_hands_clean: "inv p \<Longrightarrow> clean fresh \<Longrightarrow> clean (snd (get fresh arrival p))"
    and put_inv: "inv p \<Longrightarrow> inv (put obj p)"
begin

lemma run_clean:
  "inv p \<Longrightarrow> list_all (fresh_clean clean) ops \<Longrightarrow> pool_run get put ops p = (p', xs) \<Longrightarrow>
   inv p' \<and> list_all clean xs"
proof (induction ops arbitrary: p p' xs)
  case Nil
  then show ?case by simp
next
  case (Cons op ops)
  show ?case
  proof (cases op)
    case (OpGet fresh arrival)
    obtain p1 x where g: "get fresh arrival p = (p1, x)" by (cases "get fresh arrival p")
    obtain ys where "pool_run get put ops p1 = (p', ys)" "xs = x # ys"
      using Cons.prems(3) OpGet g by (auto split: prod.splits)
    with Cons.IH [of p1 p' ys] Cons.prems OpGet g get_inv [of p fresh arrival] get_hands_clean [of p fresh arrival]
    show ?thesis by simp
  next
    case (OpPut obj)
    with Cons.IH [of "put obj p"] Cons.prems put_inv show ?thesis by simp
  qed
qed

end

subsection \<open>Slices and the reusable message\<close>

text \<open>
  A slice is the part of its backing array from its start up to its capacity, and its length.
\<close>

record slice =
  sl_arr :: "byte list"
  sl_len :: nat

definition sl_cap :: "slice \<Rightarrow> nat" where "sl_cap s = length (sl_arr s)"
definition sl_content :: "slice \<Rightarrow> byte list" where "sl_content s = take (sl_len s) (sl_arr s)"
definition make_slice :: "nat \<Rightarrow> nat \<Rightarrow> slice" where
  "make_slice n c = \<lparr>sl_arr = replicate c 0, sl_len = n\<rparr>"

text \<open>\<^verbatim>\<open>s[:n]\<close> panics for a negative bound or one above the capacity; \<^verbatim>\<open>copy\<close> overwrites in place.\<close>

definition reslice :: "slice \<Rightarrow> int \<Rightarrow> slice outcome" where
  "reslice s n = (if n < 0 \<or> n > int (sl_cap s) then Panic else Ret (s\<lparr>sl_len := nat n\<rparr>))"

definition copy_into :: "slice \<Rightarrow> byte list \<Rightarrow> slice" where
  "copy_into s d = (let n = min (sl_len s) (length d)
                    in s\<lparr>sl_arr := take n d @ drop n (sl_arr s)\<rparr>)"

record message =
  msg_Type :: string
  msg_Data :: slice
  msg_buf :: slice

definition new_message :: message where
  "new_message = \<lparr>msg_Type = [], msg_Data = make_slice 0 0, msg_buf = make_slice 0 1024\<rparr>"

definition Message_Reset :: "message \<Rightarrow> message" where
  "Message_Reset m = m\<lparr>msg_Type := [], msg_Data := (msg_Data m)\<lparr>sl_len := 0\<rparr>,
     msg_buf := (if sl_len (msg_buf m) > 4096 then make_slice 0 1024 else (msg_buf m)\<lparr>sl_len := 0\<rparr>)\<rparr>"

definition fill_buf :: "slice \<Rightarrow> byte list \<Rightarrow> slice outcome" where
  \<comment> \<open>the body shared by both \<^verbatim>\<open>SetData\<close> methods: grow if needed, reslice, copy\<close>
  "fill_buf buf d =
     (let b = (if sl_cap buf < length d then make_slice (length d) (length d) else buf)
      in case reslice b (int (length d)) of Panic \<Rightarrow> Panic | Ret b' \<Rightarrow> Ret (copy_into b' d))"

definition Message_SetData :: "byte list \<Rightarrow> message \<Rightarrow> message outcome" where
  "Message_SetData d m =
     (case fill_buf (msg_buf m) d of
        Panic \<Rightarrow> Panic
      | Ret b \<Rightarrow> Ret (m\<lparr>msg_buf := b, msg_Data := b\<rparr>))"

definition message_clean :: "message \<Rightarrow> bool" where
  "message_clean m \<longleftrightarrow> msg_Type m = [] \<and> sl_content (msg_Data m) = [] \<and> sl_content (msg_buf m) = []"

definition MessagePool_Get :: "message \<Rightarrow> message option \<Rightarrow> message gpool \<Rightarrow> message gpool \<times> message" where
  "MessagePool_Get = Get (Some Message_Reset)"

definition MessagePool_Put :: "message option \<Rightarrow> message gpool \<Rightarrow> message gpool" where
  "MessagePool_Put = Put (Some Message_Reset)"

text \<open>\<^verbatim>\<open>ActorMessage\<close>: the callback is known by a token; \<open>None\<close> is the nil function.\<close>

record actor_message =
  am_ID :: string
  am_Type :: string
  am_From :: string
  am_To :: string
  am_Data :: slice
  am_Callback :: "nat option"
  am_buf :: slice

definition new_actor_message :: actor_message where
  "new_actor_message = \<lparr>am_ID = [], am_Type = [], am_From = [], am_To = [], am_Data = make_slice 0 0,
     am_Callback = None, am_buf = make_slice 0 512\<rparr>"

definition ActorMessage_Reset :: "actor_message \<Rightarrow> actor_message" where
  "ActorMessage_Reset m = m\<lparr>am_ID := [], am_Type := [], am_From := [], am_To := [],
     am_Data := make_slice 0 0, am_Callback := None, am_buf := (am_buf m)\<lparr>sl_len := 0\<rparr>\<rparr>"

definition ActorMessage_SetData :: "byte list \<Rightarrow> actor_message \<Rightarrow> actor_message outcome" where
  "ActorMessage_SetData d m =
     (case fill_buf (am_buf m) d of
        Panic \<Rightarrow> Panic
      | Ret b \<Rightarrow> Ret (m\<lparr>am_buf := b, am_Data := b\<rparr>))"

definition actor_message_clean :: "actor_message \<Rightarrow> bool" where
  "actor_message_clean m \<longleftrightarrow> am_ID m = [] \<and> am_Type m = [] \<and> am_From m = [] \<and> am_To m = [] \<and>
     sl_content (am_Data m) = [] \<and> am_Callback m = None \<and> sl_content (am_buf m) = []"

definition ActorPool_Get ::
    "actor_message \<Rightarrow> actor_message option \<Rightarrow> actor_message gpool \<Rightarrow> actor_message gpool \<times> actor_message" where
  "ActorPool_Get = Get (Some ActorMessage_Reset)"

definition ActorPool_Put :: "actor_message option \<Rightarrow> actor_message gpool \<Rightarrow> actor_message gpool" where
  "ActorPool_Put = Put (Some ActorMessage_Reset)"

lemma sl_content_len0 [simp]: "sl_content (s\<lparr>sl_len := 0\<rparr>) = []"
  by (simp add: sl_content_def)

lemma sl_content_make0 [simp]: "sl_content (make_slice 0 c) = []"
  by (simp add: sl_content_def make_slice_def)

lemma message_reset_clean: "message_clean (Message_Reset m)"
  by (simp add: message_clean_def Message_Reset_def)

lemma actor_message_reset_clean: "actor_message_clean (ActorMessage_Reset m)"
  by (simp add: actor_message_clean_def ActorMessage_Reset_def)

interpretation message_pool: object_pool "pool_inv message_clean" message_clean MessagePool_Get MessagePool_Put
  by unfold_locales
    (auto simp: MessagePool_Get_def MessagePool_Put_def apply_reset_def message_reset_clean
      intro: pool_inv_get pool_inv_put get_clean)

interpretation actor_pool: object_pool "pool_inv actor_message_clean" actor_message_clean ActorPool_Get ActorPool_Put
  by unfold_locales
    (auto simp: ActorPool_Get_def ActorPool_Put_def apply_reset_def actor_message_reset_clean
      intro: pool_inv_get pool_inv_put get_clean)

lemma fill_buf_ok:
  "\<exists>b. fill_buf buf d = Ret b \<and> sl_content b = d \<and> sl_len b = length d \<and> sl_cap b = max (sl_cap buf) (length d)"
  by (auto simp: fill_buf_def reslice_def copy_into_def sl_cap_def sl_content_def make_slice_def Let_def min_def)

subsection \<open>Byte buffers by size class\<close>

definition buffer_sizes :: "int list" where
  "buffer_sizes = [64, 256, 1024, 4096, 16384, 65536]"

text \<open>
  The \<^verbatim>\<open>sync.Pool\<close> of a class may hand back any buffer it was given or make a new one, and may
  forget buffers at any time; \<open>reuse\<close> says which of the two happens, and a pool is the list of
  buffers it still remembers.
\<close>

type_synonym buffer_pools = "int \<Rightarrow> slice list"

fun class_for :: "int list \<Rightarrow> int \<Rightarrow> int option" where
  "class_for [] sz = None"
| "class_for (c # cs) sz = (if sz \<le> c then Some c else class_for cs sz)"

definition GetBuffer :: "bool \<Rightarrow> int \<Rightarrow> buffer_pools \<Rightarrow> buffer_pools \<times> slice outcome" where
  "GetBuffer reuse sz p =
     (case class_for buffer_sizes sz of
        Some c \<Rightarrow>
          (case (reuse, p c) of
             (True, b # bs) \<Rightarrow> (p(c := bs), reslice b sz)
           | _ \<Rightarrow> (p, reslice (make_slice (nat c) (nat c)) sz))
      | None \<Rightarrow> (p, if sz < 0 then Panic else Ret (make_slice (nat sz) (nat sz))))"

definition PutBuffer :: "slice \<Rightarrow> buffer_pools \<Rightarrow> buffer_pools" where
  "PutBuffer b p =
     (if int (sl_cap b) \<in> set buffer_sizes
      then p(int (sl_cap b) := b # p (int (sl_cap b))) else p)"

definition buffers_ok :: "buffer_pools \<Rightarrow> bool" where
  "buffers_ok p \<longleftrightarrow> (\<forall>c. \<forall>b \<in> set (p c). int (sl_cap b) = c)"

lemma class_for_Some: "class_for cs n = Some c \<Longrightarrow> n \<le> c \<and> c \<in> set cs"
  by (induction cs n rule: class_for.induct) (auto split: if_splits)

lemma class_for_least:
  "class_for cs n = Some c \<Longrightarrow> sorted cs \<Longrightarrow> c' \<in> set cs \<Longrightarrow> n \<le> c' \<Longrightarrow> c \<le> c'"
  by (induction cs n rule: class_for.induct) (auto split: if_splits)

lemma class_for_None: "class_for cs n = None \<longleftrightarrow> (\<forall>c \<in> set cs. c < n)"
  by (induction cs n rule: class_for.induct) auto

lemma sl_cap_simps [simp]: "sl_cap (make_slice n c) = c" "sl_cap (s\<lparr>sl_len := n\<rparr>) = sl_cap s"
  by (simp_all add: sl_cap_def make_slice_def)

lemma buffers_ok_put: "buffers_ok p \<Longrightarrow> buffers_ok (PutBuffer b p)"
  by (auto simp: buffers_ok_def PutBuffer_def) (metis of_nat_eq_iff)

lemma buffers_ok_get: "buffers_ok p \<Longrightarrow> buffers_ok (fst (GetBuffer reuse sz p))"
  by (auto simp: buffers_ok_def GetBuffer_def split: option.splits bool.splits list.splits)

lemma buffer_sizes_pos: "c \<in> set buffer_sizes \<Longrightarrow> 0 < c"
  by (auto simp: buffer_sizes_def)

subsection \<open>Properties\<close>

text \<open>
  A message pool never leaks one user's message to the next. In any sequence of \<^verbatim>\<open>Get\<close> and
  \<^verbatim>\<open>Put\<close> calls on a new pool, every message handed out has an empty type and no data, whether it
  was recycled from the channel, handed over by a concurrent \<^verbatim>\<open>Put\<close> or made by the factory; the
  channel never holds more than \<^verbatim>\<open>maxSize\<close> messages and \<^verbatim>\<open>created\<close> never passes \<^verbatim>\<open>maxSize\<close>.
\<close>

theorem message_pool_hands_out_clean:
  assumes "NewGenericPool n = Ret p" and "n < 2 ^ 63"
    and "list_all (fresh_clean message_clean) ops"
    and "pool_run MessagePool_Get MessagePool_Put ops p = (p', ms)"
  shows "list_all message_clean ms \<and> Available p' \<le> n \<and> 0 \<le> Size p' \<and> Size p' \<le> n"
proof -
  have n: "gp_maxSize p = n" using assms(1) by (auto simp: NewGenericPool_def split: if_splits)
  have mx: "gp_maxSize (fst (pool_run MessagePool_Get MessagePool_Put ops q)) = gp_maxSize q" for q
    by (induction MessagePool_Get MessagePool_Put ops q rule: pool_run.induct)
      (auto simp: MessagePool_Get_def MessagePool_Put_def Get_def Put_def Let_def
        split: prod.splits option.splits list.splits if_splits)
  from message_pool.run_clean [OF pool_inv_new [OF assms(1,2)] assms(3,4)] mx [of p] assms(4) n
  show ?thesis by (auto simp: pool_inv_def Available_def Size_def)
qed

theorem message_pool_hands_out_clean_witness:
  "\<exists>p p' m ms. NewGenericPool 1 = Ret p \<and> Message_SetData [1, 2] new_message = Ret m \<and>
     pool_run MessagePool_Get MessagePool_Put [OpGet new_message None, OpPut (Some m), OpGet new_message None] p = (p', ms) \<and>
     length ms = 2 \<and> list_all message_clean ms \<and> sl_content (msg_Data m) = [1, 2]"
proof -
  obtain p where p: "NewGenericPool 1 = (Ret p :: message gpool outcome)" by (simp add: NewGenericPool_def)
  obtain b where b: "fill_buf (msg_buf new_message) [1, 2] = Ret b" "sl_content b = [1, 2]"
    using fill_buf_ok [of "msg_buf new_message" "[1, 2]"] by auto
  define m where "m = new_message\<lparr>msg_buf := b, msg_Data := b\<rparr>"
  have m: "Message_SetData [1, 2] new_message = Ret m" by (simp add: Message_SetData_def b m_def)
  let ?ops = "[OpGet new_message None, OpPut (Some m), OpGet new_message None]"
  obtain p' ms where r: "pool_run MessagePool_Get MessagePool_Put ?ops p = (p', ms)"
    by (cases "pool_run MessagePool_Get MessagePool_Put ?ops p")
  have "message_clean new_message" by (simp add: message_clean_def new_message_def)
  then have "list_all (fresh_clean message_clean) ?ops" by simp
  from message_pool_hands_out_clean [OF p _ this r] have "list_all message_clean ms" by simp
  moreover have "length ms = 2" using r by (auto split: prod.splits)
  ultimately show ?thesis using p m r b by (auto simp: m_def)
qed

text \<open>
  \<^verbatim>\<open>Message.SetData\<close> never panics, makes the message's data equal to the bytes given, and
  allocates only when the internal buffer is too small: the new capacity is the larger of the old
  one and the length of the data.
\<close>

theorem message_set_data:
  "\<exists>m'. Message_SetData d m = Ret m' \<and> sl_content (msg_Data m') = d \<and> msg_Type m' = msg_Type m \<and>
        sl_cap (msg_buf m') = max (sl_cap (msg_buf m)) (length d)"
  using fill_buf_ok [of "msg_buf m" d] by (auto simp: Message_SetData_def)

text \<open>
  \<^verbatim>\<open>ByteBufferPool.GetBuffer\<close> returns, for any non-negative size, a buffer of exactly that
  length whose capacity is the smallest size class that fits, or the size itself above 64 KiB, and
  keeps every recycled buffer in the class of its capacity; a negative size panics.
\<close>

theorem get_buffer_spec:
  assumes "buffers_ok p" and "GetBuffer reuse sz p = (p', r)"
  shows "buffers_ok p' \<and>
    (if sz < 0 then r = Panic
     else \<exists>b. r = Ret b \<and> sl_len b = nat sz \<and>
       (if sz \<le> 65536
        then int (sl_cap b) \<in> set buffer_sizes \<and> sz \<le> int (sl_cap b) \<and>
             (\<forall>c \<in> set buffer_sizes. sz \<le> c \<longrightarrow> int (sl_cap b) \<le> c)
        else int (sl_cap b) = sz))"
proof (cases "class_for buffer_sizes sz")
  case None
  then have "65536 < sz" unfolding class_for_None by (auto simp: buffer_sizes_def)
  with None assms show ?thesis by (auto simp: GetBuffer_def make_slice_def sl_cap_def)
next
  case (Some c)
  note cf = class_for_Some [OF Some]
  have s: "sorted buffer_sizes" by (simp add: buffer_sizes_def)
  have least: "\<forall>c' \<in> set buffer_sizes. sz \<le> c' \<longrightarrow> c \<le> c'"
    using class_for_least [OF Some s] by blast
  have c: "0 < c" "c \<le> 65536" using cf by (auto simp: buffer_sizes_def)
  have ok: "buffers_ok p'" using buffers_ok_get [OF assms(1), of reuse sz] assms(2) by simp
  obtain b where b: "r = reslice b sz" "int (sl_cap b) = c"
  proof (cases "reuse \<and> p c \<noteq> []")
    case True
    then obtain b bs where "p c = b # bs" by (auto simp: neq_Nil_conv)
    with True Some assms show ?thesis by (intro that [of b]) (auto simp: GetBuffer_def buffers_ok_def)
  next
    case False
    with Some assms c show ?thesis
      by (intro that [of "make_slice (nat c) (nat c)"]) (auto simp: GetBuffer_def split: bool.splits list.splits)
  qed
  show ?thesis
  proof (cases "sz < 0")
    case True
    with b ok show ?thesis by (simp add: reslice_def)
  next
    case False
    with b cf c ok least show ?thesis by (auto simp: reslice_def)
  qed
qed

theorem get_buffer_spec_witness:
  "\<exists>b. snd (GetBuffer True 100 ((\<lambda>_. [])(256 := [make_slice 7 256]))) = Ret b \<and> sl_len b = 100 \<and> sl_cap b = 256"
proof -
  let ?p = "(\<lambda>_. [])(256 := [make_slice 7 256]) :: buffer_pools"
  have "buffers_ok ?p" by (simp add: buffers_ok_def)
  moreover have "GetBuffer True 100 ?p = ((\<lambda>_. []), reslice (make_slice 7 256) 100)"
    by (auto simp: GetBuffer_def buffer_sizes_def)
  ultimately have "\<exists>b. reslice (make_slice 7 256) 100 = Ret b \<and> sl_len b = nat 100"
    using get_buffer_spec [of ?p True 100] by fastforce
  then show ?thesis by (auto simp: GetBuffer_def buffer_sizes_def reslice_def)
qed

end
