(* ===== verification/Protocol.thy ===== *)
theory Protocol
  imports GoStd
begin

text \<open>
  \<^verbatim>\<open>internal/protocol/errors.go\<close> (error codes and wrapped errors) and the message structs of
  \<^verbatim>\<open>pkg/proto/common.pb.go\<close> that every service handler shares. A nil header pointer is
  \<open>None\<close>; the generated getters are safe on it, direct field access is not.
\<close>

subsection \<open>Error codes\<close>

definition CurrentVersion :: "16 word" where "CurrentVersion = 1"

datatype ErrorCode =
    CodeOK | CodeInvalidRequest | CodeUnauthorized | CodeForbidden | CodeNotFound | CodeTimeout
  | CodeUnavailable | CodeCircuitOpen | CodeInternal | CodeBusinessFailed | CodeConflict | CodeIdempotentHit

fun code_value :: "ErrorCode \<Rightarrow> int" where
  "code_value CodeOK = 0"
| "code_value CodeInvalidRequest = 1001"
| "code_value CodeUnauthorized = 1002"
| "code_value CodeForbidden = 1003"
| "code_value CodeNotFound = 1004"
| "code_value CodeTimeout = 1005"
| "code_value CodeUnavailable = 1006"
| "code_value CodeCircuitOpen = 1007"
| "code_value CodeInternal = 1008"
| "code_value CodeBusinessFailed = 2001"
| "code_value CodeConflict = 2002"
| "code_value CodeIdempotentHit = 2003"

lemma code_value_inj: "code_value a = code_value b \<Longrightarrow> a = b"
  by (cases a; cases b) simp_all

text \<open>The codes are ordered by their numbers, as the Go constants are.\<close>

instantiation ErrorCode :: linorder
begin

definition less_eq_ErrorCode :: "ErrorCode \<Rightarrow> ErrorCode \<Rightarrow> bool" where
  "less_eq_ErrorCode a b \<longleftrightarrow> code_value a \<le> code_value b"

definition less_ErrorCode :: "ErrorCode \<Rightarrow> ErrorCode \<Rightarrow> bool" where
  "less_ErrorCode a b \<longleftrightarrow> code_value a < code_value b"

instance
  by standard (auto simp: less_eq_ErrorCode_def less_ErrorCode_def dest: code_value_inj)

end

text \<open>
  A Go \<^verbatim>\<open>error\<close> as the RPC layer uses it: an error of another package, known by its text, or
  a \<^verbatim>\<open>*protocol.Error\<close> with an optional cause.
\<close>

datatype go_error = PlainError string | ProtoError (err_Code: ErrorCode) (err_Message: string) (err_Cause: "go_error option")

fun Error_text :: "go_error option \<Rightarrow> string" where
  "Error_text None = []"
| "Error_text (Some (PlainError s)) = s"
| "Error_text (Some (ProtoError c m (Some e))) =
     fmt_int (code_value c) @ '' '' @ m @ '': '' @ Error_text (Some e)"
| "Error_text (Some (ProtoError c m None)) = fmt_int (code_value c) @ '' '' @ m"

definition Wrap :: "ErrorCode \<Rightarrow> string \<Rightarrow> go_error option \<Rightarrow> go_error" where
  "Wrap code message cause = ProtoError code message cause"

definition NewError :: "ErrorCode \<Rightarrow> string \<Rightarrow> go_error" where
  "NewError code message = ProtoError code message None"

subsection \<open>Messages\<close>

record message_header =
  mh_MsgId :: u32
  mh_Seq :: u32
  mh_UserId :: u64
  mh_Timestamp :: u32
  mh_SessionId :: string

record base_request =
  br_Header :: "message_header option"
  br_Data :: "byte list"

record base_response =
  bp_Header :: "message_header option"
  bp_Code :: int
  bp_Msg :: string
  bp_Data :: "byte list"

record common_response =
  cr_Code :: int
  cr_Message :: string
  cr_Data :: "byte list"

record login_request =
  lq_Username :: string
  lq_Password :: string

record login_response =
  lr_UserId :: u64
  lr_Token :: string
  lr_Nickname :: string
  lr_Level :: int
  lr_Exp :: int
  lr_Gold :: int
  lr_Diamond :: int

definition GetUserId :: "message_header option \<Rightarrow> u64" where
  "GetUserId h = (case h of None \<Rightarrow> 0 | Some m \<Rightarrow> mh_UserId m)"

definition GetSessionId :: "message_header option \<Rightarrow> string" where
  "GetSessionId h = (case h of None \<Rightarrow> [] | Some m \<Rightarrow> mh_SessionId m)"

text \<open>A response without a body, as the handlers build it on every branch.\<close>

definition reply :: "base_request \<Rightarrow> int \<Rightarrow> string \<Rightarrow> base_response" where
  "reply req code msg = \<lparr>bp_Header = br_Header req, bp_Code = code, bp_Msg = msg, bp_Data = []\<rparr>"

lemma reply_simps [simp]:
  "bp_Code (reply req c m) = c" "bp_Msg (reply req c m) = m"
  "bp_Header (reply req c m) = br_Header req" "bp_Data (reply req c m) = []"
  by (simp_all add: reply_def)

lemma GetUserId_simps [simp]: "GetUserId None = 0" "GetUserId (Some h) = mh_UserId h"
  by (simp_all add: GetUserId_def)

lemma GetSessionId_simps [simp]: "GetSessionId None = []" "GetSessionId (Some h) = mh_SessionId h"
  by (simp_all add: GetSessionId_def)

text \<open>The value of the context under \<^verbatim>\<open>user_id\<close>, by its Go type; the RPC server stores a \<^verbatim>\<open>uint64\<close>.\<close>

datatype ctx_value = CtxUint64 u64 | CtxUint u64 | CtxInt int | CtxInt64 int | CtxString string | CtxOther

definition common :: "int \<Rightarrow> string \<Rightarrow> common_response" where
  "common code msg = \<lparr>cr_Code = code, cr_Message = msg, cr_Data = []\<rparr>"

definition common_data :: "string \<Rightarrow> string \<Rightarrow> common_response" where
  "common_data msg d = \<lparr>cr_Code = 0, cr_Message = msg, cr_Data = string_bytes d\<rparr>"

abbreviation show_id :: "u64 \<Rightarrow> string" where "show_id u \<equiv> fmt_nat (unat u)"

definition quoted :: "string \<Rightarrow> string" where "quoted x = CHR 0x22 # x @ [CHR 0x22]"

text \<open>A request of a user, for the witnesses.\<close>

definition demo_req :: "u64 \<Rightarrow> byte list \<Rightarrow> base_request" where
  "demo_req uid d = \<lparr>br_Header = Some \<lparr>mh_MsgId = 0, mh_Seq = 0, mh_UserId = uid, mh_Timestamp = 0, mh_SessionId = []\<rparr>, br_Data = d\<rparr>"

end
