(* ===== verification/Breaker.thy ===== *)
theory Breaker
  imports Protocol
begin

text \<open>
  The circuit breaker of \<^verbatim>\<open>internal/rpc/rpc.go\<close> and the retry loop \<^verbatim>\<open>CallWithOptions\<close> it guards.
  The outcomes of the single attempts (\<^verbatim>\<open>callOnce\<close>, theory \<open>RpcClient\<close>) are a script of how long
  each took and what it returned, so a statement about all scripts is one about all peers.
\<close>

subsection \<open>The breaker\<close>

datatype circuit_state = CircuitClosed | CircuitOpen | CircuitHalfOpen

record breaker =
  cb_state :: circuit_state
  cb_failures :: int
  cb_failureThreshold :: int
  cb_openUntil :: time
  cb_openTimeout :: duration

definition NewCircuitBreaker :: "int \<Rightarrow> duration \<Rightarrow> breaker" where
  "NewCircuitBreaker failureThreshold openTimeout =
     \<lparr>cb_state = CircuitClosed, cb_failures = 0,
      cb_failureThreshold = (if failureThreshold \<le> 0 then 5 else failureThreshold),
      cb_openUntil = 0,
      cb_openTimeout = (if openTimeout \<le> 0 then 30 * second else openTimeout)\<rparr>"

definition Allow :: "time \<Rightarrow> breaker \<Rightarrow> breaker \<times> bool" where
  "Allow now cb =
     (if cb_state cb = CircuitOpen \<and> now > cb_openUntil cb
      then (cb\<lparr>cb_state := CircuitHalfOpen\<rparr>, True)
      else (cb, cb_state cb \<noteq> CircuitOpen))"

definition RecordSuccess :: "breaker \<Rightarrow> breaker" where
  "RecordSuccess cb = cb\<lparr>cb_failures := 0, cb_state := CircuitClosed\<rparr>"

definition RecordFailure :: "time \<Rightarrow> breaker \<Rightarrow> breaker" where
  "RecordFailure now cb =
     (let cb1 = cb\<lparr>cb_failures := cb_failures cb + 1\<rparr>
      in if cb_failures cb1 \<ge> cb_failureThreshold cb1
         then cb1\<lparr>cb_state := CircuitOpen, cb_openUntil := now + cb_openTimeout cb1\<rparr>
         else cb1)"












subsection \<open>The retry loop\<close>

record call_options =
  co_Timeout :: duration
  co_Retries :: int
  co_RetryInterval :: duration

record wire =
  wi_now :: time
  wi_script :: "(duration \<times> (go_error + byte list)) list"
  wi_calls :: nat

text \<open>One attempt; when the script is used up the peer stays silent and the attempt times out.\<close>

definition attempt :: "duration \<Rightarrow> wire \<Rightarrow> wire \<times> (go_error + byte list)" where
  "attempt timeout w =
     (case wi_script w of
        [] \<Rightarrow> (w\<lparr>wi_now := wi_now w + timeout, wi_calls := Suc (wi_calls w)\<rparr>,
               Inl (NewError CodeTimeout ''rpc call timeout''))
      | (d, r) # rest \<Rightarrow>
          (w\<lparr>wi_now := wi_now w + d, wi_script := rest, wi_calls := Suc (wi_calls w)\<rparr>, r))"

definition sleep :: "duration \<Rightarrow> wire \<Rightarrow> wire" where
  "sleep d w = w\<lparr>wi_now := wi_now w + d\<rparr>"

fun retry_loop ::
    "call_options \<Rightarrow> nat \<Rightarrow> go_error option \<Rightarrow> breaker \<Rightarrow> wire \<Rightarrow> breaker \<times> wire \<times> byte list \<times> go_error option" where
  "retry_loop opts 0 lastErr cb w = (cb, w, [], lastErr)"
| "retry_loop opts (Suc n) lastErr cb w =
     (case Allow (wi_now w) cb of
        (cb1, False) \<Rightarrow> (cb1, w, [], Some (NewError CodeCircuitOpen ''rpc circuit breaker is open''))
      | (cb1, True) \<Rightarrow>
          (case attempt (co_Timeout opts) w of
             (w1, Inr d) \<Rightarrow> (RecordSuccess cb1, w1, d, None)
           | (w1, Inl e) \<Rightarrow>
               retry_loop opts n (Some e) (RecordFailure (wi_now w1) cb1)
                 (if n > 0 then sleep (co_RetryInterval opts) w1 else w1)))"

definition CallWithOptions ::
    "call_options \<Rightarrow> breaker \<Rightarrow> wire \<Rightarrow> breaker \<times> wire \<times> byte list \<times> go_error option" where
  "CallWithOptions options cb w =
     (let o1 = (if co_Timeout options \<le> 0 then options\<lparr>co_Timeout := 30 * second\<rparr> else options);
          o2 = (if co_RetryInterval o1 \<le> 0 then o1\<lparr>co_RetryInterval := 100 * millisecond\<rparr> else o1)
      in retry_loop o2 (nat (co_Retries o2 + 1)) None cb w)"

definition Call :: "duration \<Rightarrow> breaker \<Rightarrow> wire \<Rightarrow> breaker \<times> wire \<times> byte list \<times> go_error option" where
  "Call timeout = CallWithOptions \<lparr>co_Timeout = timeout, co_Retries = 0, co_RetryInterval = 0\<rparr>"

definition all_fail :: "wire \<Rightarrow> bool" where
  "all_fail w \<longleftrightarrow> list_all (\<lambda>(d, r). 0 \<le> d \<and> (\<exists>e. r = Inl e)) (wi_script w)"

lemma attempt_fails:
  assumes "all_fail w"
  shows "\<exists>w1 e. attempt timeout w = (w1, Inl e) \<and> all_fail w1 \<and> wi_calls w1 = Suc (wi_calls w)"
proof (cases "wi_script w")
  case Nil
  with assms show ?thesis by (simp add: attempt_def all_fail_def)
next
  case (Cons a rest)
  with assms show ?thesis by (cases a) (auto simp: attempt_def all_fail_def)
qed

lemma all_fail_sleep [simp]: "all_fail (sleep d w) = all_fail w"
  and sleep_simps [simp]: "wi_calls (sleep d w) = wi_calls w" "wi_now (sleep d w) = wi_now w + d"
  by (simp_all add: all_fail_def sleep_def)

text \<open>Once open, and with no pause longer than the open timeout, nothing more is sent.\<close>

lemma retry_loop_open:
  assumes "cb_state cb = CircuitOpen" and "wi_now w \<le> cb_openUntil cb"
  shows "retry_loop opts (Suc n) lastErr cb w =
    (cb, w, [], Some (NewError CodeCircuitOpen ''rpc circuit breaker is open''))"
  using assms by (simp add: Allow_def)

lemma retry_loop_budget:
  assumes "all_fail w" and "cb_state cb = CircuitClosed" and "0 \<le> cb_failures cb"
    and "cb_failures cb < cb_failureThreshold cb" and "co_RetryInterval opts \<le> cb_openTimeout cb"
    and "0 \<le> cb_openTimeout cb"
    and "retry_loop opts n lastErr cb w = (cb', w', d, err)"
  shows "wi_calls w' = wi_calls w + min n (nat (cb_failureThreshold cb - cb_failures cb)) \<and>
         (int n > cb_failureThreshold cb - cb_failures cb \<longrightarrow>
            err = Some (NewError CodeCircuitOpen ''rpc circuit breaker is open'') \<and> cb_state cb' = CircuitOpen)"
  using assms
proof (induction n arbitrary: lastErr cb w)
  case 0
  then show ?case by simp
next
  case (Suc n)
  obtain w1 e where a: "attempt (co_Timeout opts) w = (w1, Inl e)" "all_fail w1" "wi_calls w1 = Suc (wi_calls w)"
    using attempt_fails [OF Suc.prems(1)] by blast
  let ?cb1 = "RecordFailure (wi_now w1) cb"
  let ?w2 = "if n > 0 then sleep (co_RetryInterval opts) w1 else w1"
  have r: "retry_loop opts n (Some e) ?cb1 ?w2 = (cb', w', d, err)"
    using Suc.prems(2,7) a(1) by (simp add: Allow_def)
  show ?case
  proof (cases "cb_failures cb + 1 < cb_failureThreshold cb")
    case True
    then have "cb_state ?cb1 = CircuitClosed" "cb_failures ?cb1 = cb_failures cb + 1"
      "cb_failureThreshold ?cb1 = cb_failureThreshold cb" "cb_openTimeout ?cb1 = cb_openTimeout cb"
      using Suc.prems(2) by (simp_all add: RecordFailure_def Let_def)
    with Suc.IH [OF _ _ _ _ _ _ r] a Suc.prems True show ?thesis by auto
  next
    case False
    then have th: "cb_failureThreshold cb - cb_failures cb = 1" using Suc.prems(4) by simp
    have op: "cb_state ?cb1 = CircuitOpen" "cb_openUntil ?cb1 = wi_now w1 + cb_openTimeout cb"
      using False by (simp_all add: RecordFailure_def Let_def)
    show ?thesis
    proof (cases n)
      case 0
      with r a th show ?thesis by simp
    next
      case (Suc m)
      have "retry_loop opts (Suc m) (Some e) ?cb1 ?w2 =
          (?cb1, ?w2, [], Some (NewError CodeCircuitOpen ''rpc circuit breaker is open''))"
        using Suc op Suc.prems(5) by (intro retry_loop_open) auto
      with r Suc have "w' = ?w2" "err = Some (NewError CodeCircuitOpen ''rpc circuit breaker is open'')" "cb' = ?cb1"
        by auto
      with a th Suc op show ?thesis by simp
    qed
  qed
qed

subsection \<open>Properties\<close>


text \<open>
  Retries cannot hammer a dead peer. If the breaker is closed, every attempt fails and the
  retry interval is at most the open timeout, \<^verbatim>\<open>CallWithOptions\<close> sends exactly as many requests as
  the attempts asked for or the failures left before the threshold, whichever is smaller; when the
  budget is the limit it returns \<^verbatim>\<open>CodeCircuitOpen\<close> and leaves the breaker open.
\<close>

theorem call_budget:
  assumes "all_fail w" and "cb_state cb = CircuitClosed" and "0 \<le> cb_failures cb"
    and "cb_failures cb < cb_failureThreshold cb"
    and "0 < co_RetryInterval opts" and "co_RetryInterval opts \<le> cb_openTimeout cb"
    and "CallWithOptions opts cb w = (cb', w', d, err)"
  shows "wi_calls w' - wi_calls w = min (nat (co_Retries opts + 1)) (nat (cb_failureThreshold cb - cb_failures cb)) \<and>
    (co_Retries opts + 1 > cb_failureThreshold cb - cb_failures cb \<longrightarrow>
       err = Some (NewError CodeCircuitOpen ''rpc circuit breaker is open'') \<and> cb_state cb' = CircuitOpen)"
proof -
  let ?o = "if co_Timeout opts \<le> 0 then opts\<lparr>co_Timeout := 30 * second\<rparr> else opts"
  have r: "retry_loop ?o (nat (co_Retries opts + 1)) None cb w = (cb', w', d, err)"
    using assms(5,7) by (auto simp: CallWithOptions_def Let_def split: if_splits)
  have i: "co_RetryInterval ?o \<le> cb_openTimeout cb" "0 \<le> cb_openTimeout cb" using assms(5,6) by auto
  from retry_loop_budget [OF assms(1-4) i r] assms(4) show ?thesis by auto
qed

theorem call_budget_witness:
  "\<exists>cb' w' d. CallWithOptions \<lparr>co_Timeout = 1, co_Retries = 9, co_RetryInterval = 2\<rparr> (NewCircuitBreaker 3 100)
       \<lparr>wi_now = 5, wi_script = [(1, Inl (PlainError ''x''))], wi_calls = 0\<rparr> =
     (cb', w', d, Some (NewError CodeCircuitOpen ''rpc circuit breaker is open'')) \<and> wi_calls w' = 3"
proof -
  let ?o = "\<lparr>co_Timeout = 1, co_Retries = 9, co_RetryInterval = 2\<rparr>"
  let ?w = "\<lparr>wi_now = 5, wi_script = [(1, Inl (PlainError ''x''))], wi_calls = 0\<rparr>"
  obtain cb' w' d err where r: "CallWithOptions ?o (NewCircuitBreaker 3 100) ?w = (cb', w', d, err)"
    by (metis prod_cases4)
  have "wi_calls w' - wi_calls ?w = min (nat (9 + 1)) (nat (3 - 0)) \<and>
      err = Some (NewError CodeCircuitOpen ''rpc circuit breaker is open'')"
    using call_budget [OF _ _ _ _ _ _ r] by (simp add: all_fail_def NewCircuitBreaker_def)
  with r show ?thesis by auto
qed

text \<open>
  A call with a negative retry count never contacts the peer and reports success: the loop body
  does not run, and \<^verbatim>\<open>CallWithOptions\<close> returns no data and a nil error.
\<close>

theorem negative_retries_succeed_silently:
  assumes "co_Retries opts < 0"
  shows "CallWithOptions opts cb w = (cb, w, [], None)"
  using assms by (simp add: CallWithOptions_def Let_def)

theorem negative_retries_succeed_silently_witness:
  "CallWithOptions \<lparr>co_Timeout = 1, co_Retries = -1, co_RetryInterval = 2\<rparr> (NewCircuitBreaker 3 100)
     \<lparr>wi_now = 5, wi_script = [], wi_calls = 0\<rparr> =
   (NewCircuitBreaker 3 100, \<lparr>wi_now = 5, wi_script = [], wi_calls = 0\<rparr>, [], None)"
  by (rule negative_retries_succeed_silently) simp

end
