(* ===== verification/RpcClient.thy ===== *)
theory RpcClient
  imports Protocol
begin

text \<open>
  The request/response correlation of \<^verbatim>\<open>RPCClient\<close> in \<^verbatim>\<open>internal/rpc/rpc.go\<close>: callers
  (\<^verbatim>\<open>callOnce\<close>), the reading goroutine (\<^verbatim>\<open>responseLoop\<close>) and \<^verbatim>\<open>Disconnect\<close> share a table of
  callback channels of capacity one. Each critical section and each channel operation is one
  event, so a list of events is an interleaving. An event whose guard does not hold leaves the
  state unchanged.
\<close>

record rpc_response =
  rr_ID :: u64
  rr_Error :: string
  rr_Data :: "byte list"

datatype chan = ChEmpty | ChNil | ChResp rpc_response

datatype caller =
    NotStarted | Registered | Sent
  | Finished "go_error + byte list"

record rpc_client =
  cl_running :: bool
  cl_requestID :: u64
  cl_callbacks :: "u64 set"
  cl_chan :: "u64 \<Rightarrow> chan"
  cl_caller :: "u64 \<Rightarrow> caller"
  cl_checked :: nat
  cl_read :: "rpc_response list"

text \<open>
  \<open>cl_checked\<close> counts the callers between the running check at the head of \<^verbatim>\<open>callOnce\<close> and the
  registration of their callback; \<open>cl_read\<close> records the responses \<^verbatim>\<open>responseLoop\<close> has decoded.
\<close>

definition connected_client :: rpc_client where
  "connected_client = \<lparr>cl_running = True, cl_requestID = 0, cl_callbacks = {}, cl_chan = (\<lambda>_. ChEmpty),
     cl_caller = (\<lambda>_. NotStarted), cl_checked = 0, cl_read = []\<rparr>"

subsection \<open>callOnce\<close>

datatype client_event =
    CheckRunning
  | Register
  | WriteOk u64
  | WriteFail u64
  | Receive u64
  | TimeoutCall u64
  | Respond rpc_response
  | DisconnectClient
  | LoopExit

definition check_running :: "rpc_client \<Rightarrow> rpc_client" where
  "check_running c = (if cl_running c then c\<lparr>cl_checked := Suc (cl_checked c)\<rparr> else c)"

definition live :: "rpc_client \<Rightarrow> u64 \<Rightarrow> bool" where
  "live c i \<longleftrightarrow> cl_caller c i = Registered \<or> cl_caller c i = Sent"

text \<open>
  The request identifier is an atomic counter; the identifiers of the calls in flight are distinct
  as long as fewer than \<open>2 ^ 64\<close> of them are, which is the guard on \<open>live\<close>.
\<close>

definition register :: "rpc_client \<Rightarrow> rpc_client" where
  "register c =
     (let i = cl_requestID c + 1 in
      if cl_checked c = 0 \<or> live c i then c
      else c\<lparr>cl_checked := cl_checked c - 1, cl_requestID := i,
             cl_callbacks := insert i (cl_callbacks c),
             cl_chan := (cl_chan c)(i := ChEmpty),
             cl_caller := (cl_caller c)(i := Registered)\<rparr>)"

definition finish :: "u64 \<Rightarrow> go_error + byte list \<Rightarrow> rpc_client \<Rightarrow> rpc_client" where
  \<comment> \<open>\<^verbatim>\<open>delete(c.callbacks, requestID)\<close> and the return of the call\<close>
  "finish i r c = c\<lparr>cl_callbacks := cl_callbacks c - {i}, cl_caller := (cl_caller c)(i := Finished r)\<rparr>"

definition write_ok :: "u64 \<Rightarrow> rpc_client \<Rightarrow> rpc_client" where
  "write_ok i c = (if cl_caller c i = Registered then c\<lparr>cl_caller := (cl_caller c)(i := Sent)\<rparr> else c)"

definition write_fail :: "u64 \<Rightarrow> rpc_client \<Rightarrow> rpc_client" where
  "write_fail i c =
     (if cl_caller c i = Registered
      then finish i (Inl (Wrap CodeUnavailable ''send request error'' (Some (PlainError ''write'')))) c else c)"

definition receive :: "u64 \<Rightarrow> rpc_client \<Rightarrow> rpc_client" where
  "receive i c =
     (if cl_caller c i \<noteq> Sent then c
      else (case cl_chan c i of
              ChEmpty \<Rightarrow> c
            | ChNil \<Rightarrow> finish i (Inl (NewError CodeUnavailable ''rpc connection closed'')) (c\<lparr>cl_chan := (cl_chan c)(i := ChEmpty)\<rparr>)
            | ChResp r \<Rightarrow>
                finish i (if rr_Error r \<noteq> [] then Inl (NewError CodeInternal (rr_Error r)) else Inr (rr_Data r))
                  (c\<lparr>cl_chan := (cl_chan c)(i := ChEmpty)\<rparr>)))"

definition timeout_call :: "u64 \<Rightarrow> rpc_client \<Rightarrow> rpc_client" where
  "timeout_call i c =
     (if cl_caller c i = Sent then finish i (Inl (NewError CodeTimeout ''rpc call timeout'')) c else c)"

subsection \<open>responseLoop and Disconnect\<close>

definition respond :: "rpc_response \<Rightarrow> rpc_client \<Rightarrow> rpc_client" where
  "respond r c =
     (if \<not> cl_running c then c
      else (let c1 = c\<lparr>cl_read := cl_read c @ [r]\<rparr> in
            if rr_ID r \<in> cl_callbacks c1 \<and> cl_chan c1 (rr_ID r) = ChEmpty
            then c1\<lparr>cl_chan := (cl_chan c1)(rr_ID r := ChResp r)\<rparr> else c1))"

text \<open>\<^verbatim>\<open>Disconnect\<close> and the deferred cleanup of \<^verbatim>\<open>responseLoop\<close> do the same to the table.\<close>

definition fail_callbacks :: "rpc_client \<Rightarrow> rpc_client" where
  "fail_callbacks c =
     (if \<not> cl_running c then c
      else c\<lparr>cl_running := False,
             cl_chan := (\<lambda>i. if i \<in> cl_callbacks c \<and> cl_chan c i = ChEmpty then ChNil else cl_chan c i),
             cl_callbacks := {}\<rparr>)"

definition Disconnect :: "rpc_client \<Rightarrow> rpc_client" where "Disconnect c = fail_callbacks c"
definition loop_exit :: "rpc_client \<Rightarrow> rpc_client" where "loop_exit c = fail_callbacks c"

fun client_step :: "rpc_client \<Rightarrow> client_event \<Rightarrow> rpc_client" where
  "client_step c CheckRunning = check_running c"
| "client_step c Register = register c"
| "client_step c (WriteOk i) = write_ok i c"
| "client_step c (WriteFail i) = write_fail i c"
| "client_step c (Receive i) = receive i c"
| "client_step c (TimeoutCall i) = timeout_call i c"
| "client_step c (Respond r) = respond r c"
| "client_step c DisconnectClient = Disconnect c"
| "client_step c LoopExit = loop_exit c"

definition client_run :: "rpc_client \<Rightarrow> client_event list \<Rightarrow> rpc_client" where
  "client_run = foldl client_step"

lemmas client_defs = check_running_def register_def write_ok_def write_fail_def receive_def
  timeout_call_def respond_def Disconnect_def loop_exit_def fail_callbacks_def finish_def Let_def

subsection \<open>The invariant\<close>

text \<open>
  A response sits only in the channel of its own identifier and was read from the connection; a
  call that succeeded got the data of such a response; the table holds only calls in flight; and
  while the client runs every call in flight is in the table or has its answer waiting.
\<close>

definition answered :: "rpc_client \<Rightarrow> u64 \<Rightarrow> byte list \<Rightarrow> bool" where
  "answered c i d \<longleftrightarrow> (\<exists>r \<in> set (cl_read c). rr_ID r = i \<and> rr_Error r = [] \<and> rr_Data r = d)"

definition client_inv :: "rpc_client \<Rightarrow> bool" where
  "client_inv c \<longleftrightarrow>
     (\<forall>i r. cl_chan c i = ChResp r \<longrightarrow> rr_ID r = i \<and> r \<in> set (cl_read c)) \<and>
     (\<forall>i d. cl_caller c i = Finished (Inr d) \<longrightarrow> answered c i d) \<and>
     (\<forall>i \<in> cl_callbacks c. live c i)"

lemma client_inv_init: "client_inv connected_client"
  by (simp add: client_inv_def connected_client_def)

lemma answered_mono: "answered c i d \<Longrightarrow> set (cl_read c) \<subseteq> set (cl_read c') \<Longrightarrow> answered c' i d"
  by (auto simp: answered_def)

lemma client_inv_step: "client_inv c \<Longrightarrow> client_inv (client_step c e)"
proof (cases e)
  case (Receive i)
  assume inv: "client_inv c"
  show ?thesis
  proof (cases "cl_caller c i = Sent")
    case False
    with inv Receive show ?thesis by (simp add: receive_def)
  next
    case True
    show ?thesis
    proof (cases "cl_chan c i")
      case ChEmpty
      with True inv Receive show ?thesis by (simp add: receive_def)
    next
      case ChNil
      with True inv Receive show ?thesis
        by (auto simp: client_defs client_inv_def live_def answered_def)
    next
      case (ChResp r)
      with inv have "rr_ID r = i" "r \<in> set (cl_read c)" by (auto simp: client_inv_def)
      with ChResp True inv Receive show ?thesis
        by (auto simp: client_defs client_inv_def live_def answered_def)
    qed
  qed
qed (auto simp: client_defs client_inv_def live_def answered_def split: if_splits)

lemma client_inv_run: "client_inv c \<Longrightarrow> client_inv (client_run c es)"
  unfolding client_run_def by (induction es arbitrary: c) (simp_all add: client_inv_step)

text \<open>Nobody is forgotten: a call the table no longer holds has its channel filled, or was never there to be failed.\<close>

definition served :: "rpc_client \<Rightarrow> bool" where
  "served c \<longleftrightarrow> (\<forall>i. live c i \<longrightarrow> i \<in> cl_callbacks c \<or> cl_chan c i \<noteq> ChEmpty)"

lemma served_step: "served c \<Longrightarrow> served (client_step c e)"
  by (cases e) (auto simp: client_defs served_def live_def split: if_splits chan.splits)

lemma served_run: "served c \<Longrightarrow> served (client_run c es)"
  unfolding client_run_def by (induction es arbitrary: c) (simp_all add: served_step)

subsection \<open>Properties\<close>

text \<open>
  C3: Responses are never misrouted. In every interleaving of callers, the reading loop, timeouts and
  disconnects, a call that returns data returns the data of a response that was read from the
  connection, carries the identifier of that very call and has no error text.
\<close>

theorem response_not_misrouted:
  assumes "cl_caller (client_run connected_client es) i = Finished (Inr d)"
  shows "\<exists>r \<in> set (cl_read (client_run connected_client es)). rr_ID r = i \<and> rr_Error r = [] \<and> rr_Data r = d"
  using client_inv_run [OF client_inv_init, of es] assms by (auto simp: client_inv_def answered_def)

definition demo_events :: "client_event list" where
  "demo_events = [CheckRunning, CheckRunning, Register, Register, WriteOk 1, WriteOk 2,
     Respond \<lparr>rr_ID = 2, rr_Error = [], rr_Data = [22]\<rparr>, Respond \<lparr>rr_ID = 1, rr_Error = [], rr_Data = [11]\<rparr>,
     Receive 1, Receive 2]"

lemma demo_events_run:
  "cl_caller (client_run connected_client demo_events) 1 = Finished (Inr [11])"
  "cl_read (client_run connected_client demo_events) =
     [\<lparr>rr_ID = 2, rr_Error = [], rr_Data = [22]\<rparr>, \<lparr>rr_ID = 1, rr_Error = [], rr_Data = [11]\<rparr>]"
  by (simp_all add: demo_events_def client_run_def connected_client_def client_defs live_def)

theorem response_not_misrouted_witness:
  "\<exists>r \<in> set [\<lparr>rr_ID = 2, rr_Error = [], rr_Data = [22 :: byte]\<rparr>, \<lparr>rr_ID = 1, rr_Error = [], rr_Data = [11]\<rparr>].
     rr_ID r = 1 \<and> rr_Error r = [] \<and> rr_Data r = [11]"
  using response_not_misrouted [OF demo_events_run(1)] by (simp only: demo_events_run(2))

text \<open>
  The callback table does not leak and nobody waits in vain for it. In every reachable state the
  table holds only identifiers of calls still in flight; and a call in flight that is no
  longer in the table, because the client disconnected, finds its channel filled, so its next receive returns.
\<close>

theorem callback_table_sound:
  fixes es :: "client_event list"
  defines "c \<equiv> client_run connected_client es"
  shows "(\<forall>i \<in> cl_callbacks c. live c i) \<and>
    (\<forall>i. cl_caller c i = Sent \<longrightarrow> i \<notin> cl_callbacks c \<longrightarrow> (\<exists>r. cl_caller (receive i c) i = Finished r))"
proof -
  have inv: "client_inv c" unfolding c_def by (rule client_inv_run [OF client_inv_init])
  have "served connected_client" by (simp add: served_def connected_client_def live_def)
  then have s: "served c" unfolding c_def by (rule served_run)
  have "\<exists>r. cl_caller (receive i c) i = Finished r" if "cl_caller c i = Sent" "i \<notin> cl_callbacks c" for i
  proof -
    from s that have "cl_chan c i \<noteq> ChEmpty" by (auto simp: served_def live_def)
    with that(1) show ?thesis by (cases "cl_chan c i") (auto simp: receive_def finish_def)
  qed
  with inv show ?thesis by (auto simp: client_inv_def)
qed

definition disconnect_events :: "client_event list" where
  "disconnect_events = [CheckRunning, Register, WriteOk 1, DisconnectClient]"

theorem callback_table_sound_witness:
  "\<exists>r. cl_caller (receive 1 (client_run connected_client disconnect_events)) 1 = Finished r"
proof -
  have "cl_caller (client_run connected_client disconnect_events) 1 = Sent \<and>
        1 \<notin> cl_callbacks (client_run connected_client disconnect_events)"
    by (simp add: disconnect_events_def client_run_def connected_client_def client_defs live_def)
  with callback_table_sound [of disconnect_events] show ?thesis by blast
qed

end
