(* ===== verification/RpcPool.thy ===== *)
theory RpcPool
  imports Protocol
begin

text \<open>
  \<^verbatim>\<open>RPCConnectionPool\<close> of \<^verbatim>\<open>internal/rpc/rpc.go\<close>. Clients are numbered in the order they are
  dialled; \<open>rp_alive\<close> is what \<^verbatim>\<open>isRunning\<close> reports for each, and a connection may die at any time.
  The nil client, which a receive from the closed and drained channel yields, makes \<^verbatim>\<open>isRunning\<close>
  dereference nil.
\<close>

record rpc_pool =
  rp_maxSize :: int
  rp_pool :: "nat list"
  rp_created :: int
  rp_closed :: bool
  rp_alive :: "nat \<Rightarrow> bool"
  rp_next :: nat

definition NewRPCConnectionPool :: "int \<Rightarrow> rpc_pool outcome" where
  "NewRPCConnectionPool maxSize =
     (if maxSize < 0 then Panic
      else Ret \<lparr>rp_maxSize = maxSize, rp_pool = [], rp_created = 0, rp_closed = False,
                rp_alive = (\<lambda>_. False), rp_next = 0\<rparr>)"

datatype get_error = DialError | PoolTimeout

text \<open>
  What the environment does during one \<^verbatim>\<open>Get\<close>: whether dialling succeeds, and the clients other
  goroutines hand over while this one waits (an empty list: the five seconds pass).
\<close>

datatype arrival = Arrives nat | Nothing

fun get_wait :: "rpc_pool \<Rightarrow> arrival list \<Rightarrow> bool \<Rightarrow> rpc_pool \<times> (get_error + nat) outcome"
  and get_empty :: "rpc_pool \<Rightarrow> arrival list \<Rightarrow> bool \<Rightarrow> rpc_pool \<times> (get_error + nat) outcome" where
  "get_empty p as dial =
     (if rp_closed p then (p, Panic)
      else if rp_created p < rp_maxSize p then
        (if dial
         then (p\<lparr>rp_created := rp_created p + 1, rp_alive := (rp_alive p)(rp_next p := True), rp_next := Suc (rp_next p)\<rparr>,
               Ret (Inr (rp_next p)))
         else (p, Ret (Inl DialError)))
      else get_wait p as dial)"
| "get_wait p [] dial = (p, Ret (Inl PoolTimeout))"
| "get_wait p (Nothing # as) dial = (p, Ret (Inl PoolTimeout))"
| "get_wait p (Arrives c # as) dial =
     (if rp_alive p c then (p, Ret (Inr c))
      else get_empty (p\<lparr>rp_created := rp_created p - 1\<rparr>) as dial)"

fun get_queued :: "rpc_pool \<Rightarrow> nat list \<Rightarrow> arrival list \<Rightarrow> bool \<Rightarrow> rpc_pool \<times> (get_error + nat) outcome" where
  "get_queued p [] as dial = get_empty (p\<lparr>rp_pool := []\<rparr>) as dial"
| "get_queued p (c # cs) as dial =
     (if rp_alive p c then (p\<lparr>rp_pool := cs\<rparr>, Ret (Inr c))
      else get_queued (p\<lparr>rp_created := rp_created p - 1\<rparr>) cs as dial)"

definition Get :: "rpc_pool \<Rightarrow> arrival list \<Rightarrow> bool \<Rightarrow> rpc_pool \<times> (get_error + nat) outcome" where
  "Get p as dial = get_queued p (rp_pool p) as dial"

definition Put :: "nat option \<Rightarrow> rpc_pool \<Rightarrow> rpc_pool outcome" where
  "Put client p =
     (case client of
        None \<Rightarrow> Ret p
      | Some c \<Rightarrow>
          if \<not> rp_alive p c then Ret (p\<lparr>rp_created := rp_created p - 1\<rparr>)
          else if rp_closed p then Panic
          else if int (length (rp_pool p)) < rp_maxSize p then Ret (p\<lparr>rp_pool := rp_pool p @ [c]\<rparr>)
          else Ret (p\<lparr>rp_alive := (rp_alive p)(c := False), rp_created := rp_created p - 1\<rparr>))"

definition Close :: "rpc_pool \<Rightarrow> rpc_pool outcome" where
  "Close p =
     (if rp_closed p then Panic
      else Ret (p\<lparr>rp_closed := True, rp_pool := [],
                  rp_alive := (\<lambda>c. rp_alive p c \<and> c \<notin> set (rp_pool p))\<rparr>))"

definition PoolSize :: "rpc_pool \<Rightarrow> int" where "PoolSize p = int (length (rp_pool p))"

definition StatsAvailable :: "rpc_pool \<Rightarrow> bool" where
  "StatsAvailable p \<longleftrightarrow> rp_created p < rp_maxSize p \<or> int (length (rp_pool p)) > 0"

definition HealthCheck :: "rpc_pool \<Rightarrow> go_error option" where
  "HealthCheck p = (if \<not> StatsAvailable p
     then Some (NewError CodeUnavailable ''rpc connection pool exhausted'') else None)"

subsection \<open>Accounting\<close>

text \<open>
  The clients a caller has taken and not yet put back are \<open>lent\<close>. A connection can die (\<open>Dies\<close>)
  while it is idle or lent; callers put back what they got, once.
\<close>

datatype pool_event = Gets bool | Puts nat | Dies nat

fun pool_step :: "rpc_pool \<times> nat list \<Rightarrow> pool_event \<Rightarrow> rpc_pool \<times> nat list" where
  "pool_step (p, lent) (Gets dial) =
     (case Get p [] dial of
        (p1, Ret (Inr c)) \<Rightarrow> (p1, c # lent)
      | (p1, _) \<Rightarrow> (p1, lent))"
| "pool_step (p, lent) (Puts c) =
     (if c \<in> set lent then
        (case Put (Some c) p of Ret p1 \<Rightarrow> (p1, remove1 c lent) | Panic \<Rightarrow> (p, lent))
      else (p, lent))"
| "pool_step (p, lent) (Dies c) = (p\<lparr>rp_alive := (rp_alive p)(c := False)\<rparr>, lent)"

definition accounted :: "rpc_pool \<times> nat list \<Rightarrow> bool" where
  "accounted = (\<lambda>(p, lent).
     rp_created p = int (length (rp_pool p)) + int (length lent) \<and>
     rp_created p \<le> rp_maxSize p \<and> \<not> rp_closed p \<and>
     distinct (rp_pool p @ lent) \<and> (\<forall>c \<in> set (rp_pool p @ lent). c < rp_next p) \<and>
     (\<forall>c. rp_alive p c \<longrightarrow> c \<in> set (rp_pool p @ lent)))"

lemma accounted_empty:
  assumes "rp_created p = int (length lent)" and "rp_created p \<le> rp_maxSize p" and "\<not> rp_closed p"
    and "distinct lent" and "\<forall>c \<in> set lent. c < rp_next p" and "\<forall>c. rp_alive p c \<longrightarrow> c \<in> set lent"
    and "get_empty (p\<lparr>rp_pool := []\<rparr>) [] dial = (p1, r)"
  shows "r \<noteq> Panic \<and> accounted (p1, case r of Ret (Inr c) \<Rightarrow> c # lent | _ \<Rightarrow> lent) \<and>
         (\<forall>c. r = Ret (Inr c) \<longrightarrow> rp_alive p1 c)"
  using assms by (auto simp: accounted_def split: if_splits simp: less_Suc_eq)

lemma accounted_queued:
  assumes "rp_created p = int (length cs) + int (length lent)" and "rp_created p \<le> rp_maxSize p"
    and "\<not> rp_closed p" and "distinct (cs @ lent)" and "\<forall>c \<in> set (cs @ lent). c < rp_next p"
    and "\<forall>c. rp_alive p c \<longrightarrow> c \<in> set (cs @ lent)"
    and "get_queued p cs [] dial = (p1, r)"
  shows "r \<noteq> Panic \<and> accounted (p1, case r of Ret (Inr c) \<Rightarrow> c # lent | _ \<Rightarrow> lent) \<and>
         (\<forall>c. r = Ret (Inr c) \<longrightarrow> rp_alive p1 c)"
  using assms
proof (induction cs arbitrary: p)
  case Nil
  have r: "get_empty (p\<lparr>rp_pool := []\<rparr>) [] dial = (p1, r)"
    using Nil.prems(7) by (simp del: get_empty.simps)
  from Nil.prems show ?case by (intro accounted_empty [OF _ _ _ _ _ _ r]) simp_all
next
  case (Cons c cs)
  show ?case
  proof (cases "rp_alive p c")
    case True
    with Cons.prems show ?thesis by (auto simp: accounted_def)
  next
    case False
    let ?q = "p\<lparr>rp_created := rp_created p - 1\<rparr>"
    have r: "get_queued ?q cs [] dial = (p1, r)" using Cons.prems(7) False by simp
    show ?thesis
    proof (rule Cons.IH [OF _ _ _ _ _ _ r])
      show "\<forall>d. rp_alive ?q d \<longrightarrow> d \<in> set (cs @ lent)" using Cons.prems(6) False by auto
    qed (use Cons.prems in auto)
  qed
qed

lemma get_accounted:
  assumes "accounted (p, lent)" and "Get p [] dial = (p1, r)"
  shows "r \<noteq> Panic \<and> accounted (p1, case r of Ret (Inr c) \<Rightarrow> c # lent | _ \<Rightarrow> lent) \<and>
         (\<forall>c. r = Ret (Inr c) \<longrightarrow> rp_alive p1 c)"
  using accounted_queued [of p "rp_pool p" lent dial p1 r] assms by (auto simp: accounted_def Get_def)

lemma accounted_step: "accounted s \<Longrightarrow> accounted (pool_step s e)"
proof -
  assume inv: "accounted s"
  obtain p lent where s: "s = (p, lent)" by (cases s)
  show ?thesis
  proof (cases e)
    case (Gets dial)
    obtain p1 r where g: "Get p [] dial = (p1, r)" by (cases "Get p [] dial")
    from get_accounted [OF inv [unfolded s] g] g Gets s show ?thesis
      by (auto split: outcome.splits sum.splits)
  next
    case (Puts c)
    show ?thesis
    proof (cases "c \<in> set lent")
      case False
      with inv Puts s show ?thesis by simp
    next
      case True
      then have "Suc (length (remove1 c lent)) = length lent"
        using length_pos_if_in_set [of c lent] by (simp add: length_remove1)
      moreover have "set lent \<subseteq> insert c (set (remove1 c lent))"
      proof
        fix x
        assume "x \<in> set lent"
        then show "x \<in> insert c (set (remove1 c lent))"
          using in_set_remove1 [of x c lent] by (cases "x = c") simp_all
      qed
      moreover have "c \<notin> set (remove1 c lent)" using inv s True by (auto simp: accounted_def)
      ultimately show ?thesis using inv Puts s True
        by (auto simp: accounted_def Put_def dest: in_set_remove1 notin_set_remove1)
    qed
  next
    case (Dies c)
    with inv s show ?thesis by (auto simp: accounted_def)
  qed
qed

lemma accounted_run: "accounted s \<Longrightarrow> accounted (foldl pool_step s es)"
proof (induction es arbitrary: s)
  case Nil
  then show ?case by simp
next
  case (Cons e es)
  from Cons.IH [OF accounted_step [OF Cons.prems, of e]] show ?case by simp
qed

subsection \<open>Properties\<close>

text \<open>
  The pool's accounting is exact. As long as callers put back what they took, after any sequence
  of \<^verbatim>\<open>Get\<close>, \<^verbatim>\<open>Put\<close> and connections dying, \<^verbatim>\<open>created\<close> is the number of idle plus lent clients and
  at most \<^verbatim>\<open>maxSize\<close>, no client is idle and lent at once or idle twice, every live connection is one of
  them, and a client returned by the next \<^verbatim>\<open>Get\<close> is running.
\<close>

theorem rpc_pool_accounting:
  assumes "NewRPCConnectionPool n = Ret p0" and "foldl pool_step (p0, []) es = (p, lent)"
  shows "rp_created p = PoolSize p + int (length lent) \<and> rp_created p \<le> n \<and>
    distinct (rp_pool p @ lent) \<and> (\<forall>c. rp_alive p c \<longrightarrow> c \<in> set (rp_pool p @ lent)) \<and>
    (\<forall>dial p1 c. Get p [] dial = (p1, Ret (Inr c)) \<longrightarrow> rp_alive p1 c)"
proof -
  have "accounted (p0, [])" using assms(1) by (auto simp: NewRPCConnectionPool_def accounted_def split: if_splits)
  from accounted_run [OF this, of es] assms(2) have acc: "accounted (p, lent)" by simp
  have step_max: "rp_maxSize (fst (pool_step s e)) = rp_maxSize (fst s)" for s e
  proof -
    have e2: "rp_maxSize (fst (get_wait q as dial)) = rp_maxSize q"
      and e1: "rp_maxSize (fst (get_empty q as dial)) = rp_maxSize q" for q as dial
      by (induction q as dial and q as dial rule: get_wait_get_empty.induct) auto
    have e3: "rp_maxSize (fst (get_queued q cs as dial)) = rp_maxSize q" for q cs as dial
      by (induction q cs as dial rule: get_queued.induct) (auto simp: e1 simp del: get_empty.simps)
    have e4: "Get q [] dial = (q', r) \<Longrightarrow> rp_maxSize q' = rp_maxSize q" for q q' r dial
      using e3 [of q "rp_pool q" "[]" dial] by (simp add: Get_def)
    show ?thesis
      by (cases s; cases e) (auto simp: Put_def dest: e4 split: prod.splits outcome.splits sum.splits option.splits if_splits)
  qed
  have "rp_maxSize (fst (foldl pool_step s es)) = rp_maxSize (fst s)" for s
    by (induction es arbitrary: s) (simp_all add: step_max)
  from this [of "(p0, [])"] assms have "rp_maxSize p = n"
    by (auto simp: NewRPCConnectionPool_def split: if_splits)
  with acc get_accounted [OF acc] show ?thesis by (auto simp: accounted_def PoolSize_def)
qed

theorem rpc_pool_accounting_witness:
  "\<exists>p0 p lent. NewRPCConnectionPool 2 = Ret p0 \<and>
     foldl pool_step (p0, []) [Gets True, Gets True, Dies 0, Puts 0, Puts 1, Gets True] = (p, lent) \<and>
     rp_created p = PoolSize p + int (length lent) \<and> rp_created p \<le> 2 \<and> lent = [1]"
proof -
  obtain p0 where p0: "NewRPCConnectionPool 2 = Ret p0" by (simp add: NewRPCConnectionPool_def)
  obtain p lent where r: "foldl pool_step (p0, []) [Gets True, Gets True, Dies 0, Puts 0, Puts 1, Gets True] = (p, lent)"
    by (cases "foldl pool_step (p0, []) [Gets True, Gets True, Dies 0, Puts 0, Puts 1, Gets True]")
  have "lent = [1]"
    using r p0 by (auto simp: NewRPCConnectionPool_def Get_def Put_def)
  with rpc_pool_accounting [OF p0 r] p0 r show ?thesis by blast
qed

text \<open>
  \<^verbatim>\<open>Close\<close> does not wait for lent clients. A client that was lent when the pool was closed and is
  still connected makes \<^verbatim>\<open>Put\<close> panic (send on a closed channel), and a \<^verbatim>\<open>Get\<close> on the closed pool panics
  on the nil client the closed channel yields.
\<close>

theorem closed_pool_panics:
  assumes "Close p = Ret p'" and "rp_alive p c" and "c \<notin> set (rp_pool p)"
  shows "Put (Some c) p' = Panic \<and> snd (Get p' as dial) = Panic"
  using assms by (auto simp: Close_def Put_def Get_def split: if_splits)

theorem closed_pool_panics_witness:
  "\<exists>p p'. Close p = Ret p' \<and> Put (Some 0) p' = Panic \<and> snd (Get p' [] True) = Panic"
proof -
  let ?p = "\<lparr>rp_maxSize = 2, rp_pool = [], rp_created = 1, rp_closed = False, rp_alive = (\<lambda>c. c = 0), rp_next = 1\<rparr>"
  have c: "Close ?p = Ret (?p\<lparr>rp_closed := True\<rparr>)" by (simp add: Close_def)
  from closed_pool_panics [OF c, of 0 "[]" True] c show ?thesis by auto
qed

end
