(* ===== verification/RpcServer.thy ===== *)
theory RpcServer
  imports Frame RpcClient
begin

text \<open>
  \<^verbatim>\<open>RPCServer\<close> of \<^verbatim>\<open>internal/rpc/rpc.go\<close>: registration of services, dispatch of one request
  (\<^verbatim>\<open>handleRequest\<close>, \<^verbatim>\<open>callMethod\<close>) and the loop that serves a connection. The JSON form of the
  envelopes and the protobuf form of arguments are parameters (\<open>codec\<close>, \<open>me_unmarshal\<close>,
  \<open>me_marshal\<close>); a registered method is its reflected signature with a state transformer.
\<close>

subsection \<open>Requests, methods and the server's state\<close>

record rpc_request =
  rq_ID :: u64
  rq_Service :: string
  rq_Method :: string
  rq_Args :: "byte list"
  rq_UserID :: u64
  rq_Session :: string
  rq_Timeout :: int

datatype 'm proto_msg = ReqMsg base_request | OtherMsg 'm

record call_ctx =
  cx_timeout :: "duration option"
  cx_user_id :: "u64 option"
  cx_session_id :: "string option"

record ('s, 'm) rpc_method =
  me_NumIn :: nat
  me_NumOut :: nat
  me_new :: "'m proto_msg"
  me_unmarshal :: "byte list \<Rightarrow> string + 'm proto_msg"
  me_call :: "'s \<Rightarrow> call_ctx \<Rightarrow> 'm proto_msg \<Rightarrow> 's \<times> ('m option \<times> string option) outcome"
  me_marshal :: "'m \<Rightarrow> string + byte list"

record ('s, 'm) rpc_service =
  se_Name :: string
  se_Methods :: "(string \<times> ('s, 'm) rpc_method) list"

record ('s, 'm) rpc_server =
  sv_services :: "string list"
  sv_methods :: "string \<Rightarrow> ('s, 'm) rpc_method option"
  sv_running :: bool
  sv_connCount :: int
  sv_readTimeout :: duration
  sv_writeTimeout :: duration
  sv_maxFrameSize :: u32

record codec =
  co_request :: "byte list \<Rightarrow> string + rpc_request"
  co_response :: "rpc_response \<Rightarrow> byte list"

definition NewRPCServer :: "('s, 'm) rpc_server" where
  "NewRPCServer = \<lparr>sv_services = [], sv_methods = Map.empty, sv_running = False, sv_connCount = 0,
     sv_readTimeout = 30 * second, sv_writeTimeout = 30 * second, sv_maxFrameSize = DefaultMaxFrame\<rparr>"

definition SetFrameOptions :: "duration \<Rightarrow> duration \<Rightarrow> u32 \<Rightarrow> ('s, 'm) rpc_server \<Rightarrow> ('s, 'm) rpc_server" where
  "SetFrameOptions readTimeout writeTimeout mx s =
     s\<lparr>sv_readTimeout := if readTimeout > 0 then readTimeout else sv_readTimeout s,
       sv_writeTimeout := if writeTimeout > 0 then writeTimeout else sv_writeTimeout s,
       sv_maxFrameSize := if mx > 0 then mx else sv_maxFrameSize s\<rparr>"

definition full_name :: "string \<Rightarrow> string \<Rightarrow> string" where
  "full_name svc m = svc @ CHR ''.'' # m"

fun add_methods ::
    "string \<Rightarrow> (string \<times> ('s, 'm) rpc_method) list \<Rightarrow> (string \<Rightarrow> ('s, 'm) rpc_method option) \<Rightarrow>
     string \<Rightarrow> ('s, 'm) rpc_method option" where
  "add_methods svc [] ms = ms"
| "add_methods svc ((n, m) # rest) ms = add_methods svc rest (ms(full_name svc n \<mapsto> m))"

definition RegisterService ::
    "('s, 'm) rpc_service \<Rightarrow> ('s, 'm) rpc_server \<Rightarrow> ('s, 'm) rpc_server \<times> string option" where
  "RegisterService service s =
     (if se_Name service \<in> set (sv_services s)
      then (s, Some (''service '' @ se_Name service @ '' already registered''))
      else (s\<lparr>sv_services := se_Name service # sv_services s,
              sv_methods := add_methods (se_Name service) (se_Methods service) (sv_methods s)\<rparr>, None))"

definition GetConnectionCount :: "('s, 'm) rpc_server \<Rightarrow> int" where
  "GetConnectionCount s = sv_connCount s"

subsection \<open>Calling a method\<close>

definition rpcMetadataFromMessage :: "'m proto_msg \<Rightarrow> (u64 \<times> string) option" where
  "rpcMetadataFromMessage msg =
     (case msg of
        ReqMsg req \<Rightarrow>
          (case br_Header req of
             None \<Rightarrow> None
           | Some h \<Rightarrow> Some (GetUserId (Some h), GetSessionId (Some h)))
      | OtherMsg _ \<Rightarrow> None)"

definition call_context :: "u64 \<Rightarrow> string \<Rightarrow> duration \<Rightarrow> 'm proto_msg \<Rightarrow> call_ctx" where
  "call_context requestUserID requestSession timeout msg =
     (let c0 = \<lparr>cx_timeout = (if timeout > 0 then Some timeout else None), cx_user_id = None, cx_session_id = None\<rparr>;
          c1 = (if requestUserID > 0 then c0\<lparr>cx_user_id := Some requestUserID\<rparr> else c0);
          c2 = (if requestSession \<noteq> [] then c1\<lparr>cx_session_id := Some requestSession\<rparr> else c1)
      in case rpcMetadataFromMessage msg of
           None \<Rightarrow> c2
         | Some (uid, sid) \<Rightarrow>
             (let c3 = (if uid > 0 then c2\<lparr>cx_user_id := Some uid\<rparr> else c2)
              in if sid \<noteq> [] then c3\<lparr>cx_session_id := Some sid\<rparr> else c3))"

definition decode_args :: "('s, 'm) rpc_method \<Rightarrow> byte list \<Rightarrow> string + 'm proto_msg" where
  "decode_args method args = (if args \<noteq> [] then me_unmarshal method args else Inr (me_new method))"

definition callMethod ::
    "('s, 'm) rpc_method \<Rightarrow> byte list \<Rightarrow> u64 \<Rightarrow> string \<Rightarrow> duration \<Rightarrow> 's \<Rightarrow> 's \<times> (string + byte list) outcome" where
  "callMethod method args requestUserID requestSession timeout st =
     (if me_NumIn method \<noteq> 2 then (st, Ret (Inl ''method must have exactly 2 parameters''))
      else case decode_args method args of
        Inl e \<Rightarrow> (st, Ret (Inl (''unmarshal args error: '' @ e)))
      | Inr msg \<Rightarrow>
          (case me_call method st (call_context requestUserID requestSession timeout msg) msg of
             (st', Panic) \<Rightarrow> (st', Panic)
           | (st', Ret (result, err)) \<Rightarrow>
               (st', Ret (if me_NumOut method \<noteq> 2 then Inl ''method must return exactly 2 values''
                          else case err of
                            Some e \<Rightarrow> Inl e
                          | None \<Rightarrow> (case result of None \<Rightarrow> Inr [] | Some r \<Rightarrow> me_marshal method r)))))"

definition response :: "u64 \<Rightarrow> string + byte list \<Rightarrow> rpc_response" where
  "response i r = \<lparr>rr_ID = i, rr_Error = (case r of Inl e \<Rightarrow> e | Inr _ \<Rightarrow> []),
                   rr_Data = (case r of Inl _ \<Rightarrow> [] | Inr d \<Rightarrow> d)\<rparr>"

definition handleRequest ::
    "codec \<Rightarrow> ('s, 'm) rpc_server \<Rightarrow> byte list \<Rightarrow> 's \<Rightarrow> 's \<times> rpc_response outcome" where
  "handleRequest co s data st =
     (case co_request co data of
        Inl e \<Rightarrow> (st, Ret (response 0 (Inl (''unmarshal request error: '' @ e))))
      | Inr request \<Rightarrow>
          (case sv_methods s (full_name (rq_Service request) (rq_Method request)) of
             None \<Rightarrow> (st, Ret (response (rq_ID request)
                        (Inl (''method '' @ full_name (rq_Service request) (rq_Method request) @ '' not found''))))
           | Some method \<Rightarrow>
               (case callMethod method (rq_Args request) (rq_UserID request) (rq_Session request)
                       (wrap_i64 (rq_Timeout request * millisecond)) st of
                  (st', Panic) \<Rightarrow> (st', Panic)
                | (st', Ret r) \<Rightarrow> (st', Ret (response (rq_ID request) r)))))"

subsection \<open>Serving a connection\<close>

definition read_options :: "('s, 'm) rpc_server \<Rightarrow> frame_options" where
  "read_options s = \<lparr>fo_MaxFrameSize = sv_maxFrameSize s, fo_ReadTimeout = sv_readTimeout s, fo_WriteTimeout = 0\<rparr>"

definition write_options :: "('s, 'm) rpc_server \<Rightarrow> frame_options" where
  "write_options s = \<lparr>fo_MaxFrameSize = sv_maxFrameSize s, fo_ReadTimeout = 0, fo_WriteTimeout = sv_writeTimeout s\<rparr>"

text \<open>
  The loop of \<^verbatim>\<open>handleConnection\<close> on a running server, with \<open>clock k\<close> the time of its \<open>k\<close>-th
  round; it ends at the first read or write error, and with the whole process when a method panics.
\<close>

function serve ::
    "codec \<Rightarrow> (nat \<Rightarrow> time) \<Rightarrow> ('s, 'm) rpc_server \<Rightarrow> nat \<Rightarrow> reader \<Rightarrow> wconn \<Rightarrow> 's \<Rightarrow>
     (reader \<times> wconn \<times> 's) outcome" where
  "serve co clock s k r w st =
     (if \<not> sv_running s then Ret (r, w, st)
      else case ReadFrameWithOptions (clock k) r (read_options s) of
        (r', Inl _) \<Rightarrow> Ret (r', w, st)
      | (r', Inr f) \<Rightarrow>
          (case handleRequest co s f st of
             (st', Panic) \<Rightarrow> Panic
           | (st', Ret resp) \<Rightarrow>
               (case WriteFrameWithOptions conn_ops (clock k) w (co_response co resp) (write_options s) of
                  (w', Panic) \<Rightarrow> Panic
                | (w', Ret (Some _)) \<Rightarrow> Ret (r', w', st')
                | (w', Ret None) \<Rightarrow> serve co clock s (Suc k) r' w' st')))"
  by pat_completeness auto
termination
  by (relation "measure (\<lambda>(co, clock, s, k, r, w, st). length (rd_in r))") (auto dest: read_frame_consumes [OF sym])

declare serve.simps [simp del]

definition handleConnection ::
    "codec \<Rightarrow> (nat \<Rightarrow> time) \<Rightarrow> ('s, 'm) rpc_server \<Rightarrow> reader \<Rightarrow> wconn \<Rightarrow> 's \<Rightarrow>
     (('s, 'm) rpc_server \<times> reader \<times> wconn \<times> 's) outcome" where
  "handleConnection co clock s r w st =
     (case serve co clock s 0 r w st of
        Panic \<Rightarrow> Panic
      | Ret (r', w', st') \<Rightarrow> Ret (s\<lparr>sv_connCount := sv_connCount s - 1\<rparr>, r', w', st'))"

definition accept_connection :: "('s, 'm) rpc_server \<Rightarrow> ('s, 'm) rpc_server" where
  "accept_connection s = s\<lparr>sv_connCount := sv_connCount s + 1\<rparr>"

subsection \<open>Dispatch\<close>

lemma full_name_inj:
  assumes "CHR ''.'' \<notin> set a" and "CHR ''.'' \<notin> set b"
  shows "full_name a m = full_name b n \<longleftrightarrow> a = b \<and> m = n"
proof
  assume eq: "full_name a m = full_name b n"
  have tw: "takeWhile (\<lambda>c. c \<noteq> CHR ''.'') (full_name s x) = s" if "CHR ''.'' \<notin> set s" for s x
    using that unfolding full_name_def by (subst takeWhile_append2) auto
  have "a = b" using tw [OF assms(1), of m] tw [OF assms(2), of n] eq by simp
  with eq show "a = b \<and> m = n" by (simp add: full_name_def)
qed simp

lemma add_methods_lookup:
  assumes "CHR ''.'' \<notin> set svc" and "CHR ''.'' \<notin> set svc'" and "distinct (map fst xs)"
  shows "add_methods svc xs ms (full_name svc' m) =
    (case (if svc' = svc then map_of xs m else None) of None \<Rightarrow> ms (full_name svc' m) | Some x \<Rightarrow> Some x)"
  using assms(3)
proof (induction xs arbitrary: ms)
  case Nil
  then show ?case by simp
next
  case (Cons x xs)
  obtain n y where x: "x = (n, y)" by (cases x)
  have IH: "add_methods svc xs ms' (full_name svc' m) =
    (case (if svc' = svc then map_of xs m else None) of None \<Rightarrow> ms' (full_name svc' m) | Some x \<Rightarrow> Some x)" for ms'
    using Cons.IH Cons.prems by simp
  have "m = n \<Longrightarrow> map_of xs m = None" using Cons.prems x by (simp add: map_of_eq_None_iff)
  then show ?case using x by (simp add: IH full_name_inj [OF assms(2,1)] full_name_inj [OF assms(1) assms(1)] split: option.splits)
qed

fun register_all :: "('s, 'm) rpc_server \<Rightarrow> ('s, 'm) rpc_service list \<Rightarrow> ('s, 'm) rpc_server" where
  "register_all s [] = s"
| "register_all s (x # xs) = register_all (fst (RegisterService x s)) xs"

lemma register_all_lookup:
  assumes "\<forall>se \<in> set ses. CHR ''.'' \<notin> set (se_Name se) \<and> distinct (map fst (se_Methods se))"
    and "CHR ''.'' \<notin> set svc" and "\<forall>n. svc \<notin> set (sv_services s) \<longrightarrow> sv_methods s (full_name svc n) = None"
  shows "sv_methods (register_all s ses) (full_name svc m) =
    (if svc \<in> set (sv_services s) then sv_methods s (full_name svc m)
     else case List.find (\<lambda>se. se_Name se = svc) ses of
       None \<Rightarrow> None | Some se \<Rightarrow> map_of (se_Methods se) m)"
  using assms(1,3)
proof (induction ses arbitrary: s)
  case Nil
  then show ?case by simp
next
  case (Cons x xs)
  let ?s = "fst (RegisterService x s)"
  have look: "sv_methods ?s (full_name svc n) =
      (if se_Name x = svc \<and> svc \<notin> set (sv_services s)
       then map_of (se_Methods x) n else sv_methods s (full_name svc n))" for n
    using Cons.prems assms(2)
    by (auto simp: RegisterService_def add_methods_lookup split: option.splits)
  have svcs: "svc \<in> set (sv_services ?s) \<longleftrightarrow> svc = se_Name x \<or> svc \<in> set (sv_services s)"
    by (auto simp: RegisterService_def)
  have "sv_methods (register_all ?s xs) (full_name svc m) =
    (if svc \<in> set (sv_services ?s) then sv_methods ?s (full_name svc m)
     else case List.find (\<lambda>se. se_Name se = svc) xs of None \<Rightarrow> None | Some se \<Rightarrow> map_of (se_Methods se) m)"
    by (rule Cons.IH) (use Cons.prems look svcs in auto)
  with look [of m] svcs show ?case by auto
qed

subsection \<open>Properties\<close>

text \<open>
  C4: Dispatch reaches the right method. When services whose names have no dot are registered, a
  decodable request is answered with the result of the method of that name in the first service
  registered under that name, and with ``not found'' when there is none; a second registration of
  a name changes nothing, and the answer always carries the request's identifier.
\<close>

theorem dispatch_correct:
  assumes "\<forall>se \<in> set ses. CHR ''.'' \<notin> set (se_Name se) \<and> distinct (map fst (se_Methods se))"
    and "co_request co data = Inr rq" and "CHR ''.'' \<notin> set (rq_Service rq)"
  shows "handleRequest co (register_all NewRPCServer ses) data st =
    (case (case List.find (\<lambda>se. se_Name se = rq_Service rq) ses of
             None \<Rightarrow> None | Some se \<Rightarrow> map_of (se_Methods se) (rq_Method rq)) of
       None \<Rightarrow> (st, Ret \<lparr>rr_ID = rq_ID rq,
                 rr_Error = ''method '' @ rq_Service rq @ ''.'' @ rq_Method rq @ '' not found'', rr_Data = []\<rparr>)
     | Some meth \<Rightarrow>
         (case callMethod meth (rq_Args rq) (rq_UserID rq) (rq_Session rq) (wrap_i64 (rq_Timeout rq * millisecond)) st of
            (st', Panic) \<Rightarrow> (st', Panic)
          | (st', Ret (Inl e)) \<Rightarrow> (st', Ret \<lparr>rr_ID = rq_ID rq, rr_Error = e, rr_Data = []\<rparr>)
          | (st', Ret (Inr d)) \<Rightarrow> (st', Ret \<lparr>rr_ID = rq_ID rq, rr_Error = [], rr_Data = d\<rparr>)))"
proof -
  have "sv_methods (register_all NewRPCServer ses) (full_name (rq_Service rq) (rq_Method rq)) =
    (case List.find (\<lambda>se. se_Name se = rq_Service rq) ses of
       None \<Rightarrow> None | Some se \<Rightarrow> map_of (se_Methods se) (rq_Method rq))"
    using register_all_lookup [OF assms(1,3), of NewRPCServer "rq_Method rq"] by (simp add: NewRPCServer_def)
  then show ?thesis using assms(2)
    by (auto simp: handleRequest_def response_def full_name_def split: option.splits prod.splits outcome.splits sum.splits)
qed

definition echo_method :: "(nat, nat) rpc_method" where
  "echo_method = \<lparr>me_NumIn = 2, me_NumOut = 2, me_new = OtherMsg 0, me_unmarshal = (\<lambda>bs. Inr (OtherMsg (length bs))),
     me_call = (\<lambda>s ctx m. (Suc s, Ret (case m of OtherMsg n \<Rightarrow> Some n | ReqMsg _ \<Rightarrow> None, None))),
     me_marshal = (\<lambda>n. Inr [of_nat n])\<rparr>"

definition echo_services :: "(nat, nat) rpc_service list" where
  "echo_services = [\<lparr>se_Name = ''Echo'', se_Methods = [(''Call'', echo_method)]\<rparr>,
                    \<lparr>se_Name = ''Echo'', se_Methods = []\<rparr>]"

definition demo_request :: "byte list \<Rightarrow> rpc_request" where
  "demo_request d = \<lparr>rq_ID = (case d of [] \<Rightarrow> 0 | b # _ \<Rightarrow> ucast b), rq_Service = ''Echo'', rq_Method = ''Call'',
     rq_Args = d, rq_UserID = 0, rq_Session = [], rq_Timeout = 1000\<rparr>"

definition demo_codec :: codec where
  "demo_codec = \<lparr>co_request = (\<lambda>d. if d = [] then Inl ''EOF'' else Inr (demo_request d)),
                 co_response = (\<lambda>r. ucast (rr_ID r) # rr_Data r)\<rparr>"

theorem dispatch_correct_witness:
  "handleRequest demo_codec (register_all NewRPCServer echo_services) [9, 8] 5 =
     (6, Ret \<lparr>rr_ID = 9, rr_Error = [], rr_Data = [2]\<rparr>)"
proof -
  have "\<forall>se \<in> set echo_services. CHR ''.'' \<notin> set (se_Name se) \<and> distinct (map fst (se_Methods se))"
    by (simp add: echo_services_def)
  moreover have "co_request demo_codec [9, 8] = Inr (demo_request [9, 8])" by (simp add: demo_codec_def)
  moreover have "CHR ''.'' \<notin> set (rq_Service (demo_request [9, 8]))" by (simp add: demo_request_def)
  ultimately show ?thesis
    using dispatch_correct [of echo_services demo_codec "[9, 8]" "demo_request [9, 8]" 5]
    by (simp add: echo_services_def demo_request_def echo_method_def callMethod_def decode_args_def)
qed

text \<open>The responses to a list of requests, handled one after the other.\<close>

fun answers ::
    "codec \<Rightarrow> ('s, 'm) rpc_server \<Rightarrow> byte list list \<Rightarrow> 's \<Rightarrow> (rpc_response list \<times> 's) option" where
  "answers co s [] st = Some ([], st)"
| "answers co s (d # ds) st =
     (case handleRequest co s d st of
        (st', Panic) \<Rightarrow> None
      | (st', Ret resp) \<Rightarrow> map_option (\<lambda>(rs, st''). (resp # rs, st'')) (answers co s ds st'))"

lemma handle_request_id:
  "handleRequest co s d st = (st', Ret resp) \<Longrightarrow> co_request co d = Inr rq \<Longrightarrow> rr_ID resp = rq_ID rq"
  by (auto simp: handleRequest_def response_def split: option.splits prod.splits outcome.splits)

lemma answers_ids:
  "answers co s ds st = Some (rs, st') \<Longrightarrow> list_all2 (\<lambda>d q. co_request co d = Inr q) ds qs \<Longrightarrow>
   map rr_ID rs = map rq_ID qs"
proof (induction ds arbitrary: st rs qs)
  case Nil
  then show ?case by simp
next
  case (Cons d ds)
  obtain q qs' where qs: "qs = q # qs'" "co_request co d = Inr q" "list_all2 (\<lambda>d q. co_request co d = Inr q) ds qs'"
    using Cons.prems(2) by (auto simp: list_all2_Cons1)
  obtain st1 resp rs' where r: "handleRequest co s d st = (st1, Ret resp)" "answers co s ds st1 = Some (rs', st')"
    "rs = resp # rs'"
    using Cons.prems(1) by (auto split: prod.splits outcome.splits)
  from Cons.IH [OF r(2) qs(3)] handle_request_id [OF r(1) qs(2)] qs(1) r(3) show ?case by simp
qed

lemma read_frame_eof:
  assumes "rd_in r = []" and "\<And>e. rd_set_deadline r \<noteq> Some (Some e)"
  shows "\<exists>r' e. ReadFrameWithOptions now r opts = (r', Inl e) \<and> rd_in r' = []"
proof -
  obtain r0 e0 where d: "apply_read_deadline now opts r = (r0, e0)" by (cases "apply_read_deadline now opts r")
  from d read_deadline_in [OF d] assms show ?thesis
    by (cases e0) (auto simp: ReadFrameWithOptions_def read_full_def)
qed

lemma serve_answers:
  assumes "answers co s ds st = Some (rs, st')" and run: "sv_running s"
    and "rd_in r = concat (map encode_frame ds)" and "\<And>e. rd_set_deadline r \<noteq> Some (Some e)"
    and "\<forall>d \<in> set ds. d \<noteq> [] \<and> length d < 2 ^ 32 \<and> (of_nat (length d) :: u32) \<le> maxFrameSize (read_options s)"
    and "\<forall>resp \<in> set rs. co_response co resp \<noteq> [] \<and>
           (of_nat (length (co_response co resp)) :: u32) \<le> maxFrameSize (write_options s)"
    and "wc_script w = []" and "wc_deadline_err w = None"
  shows "\<exists>r' w'. serve co clock s k r w st = Ret (r', w', st') \<and> rd_in r' = [] \<and>
           wc_sent w' = wc_sent w @ concat (map (\<lambda>resp. encode_frame (co_response co resp)) rs)"
  using assms(1,3-)
proof (induction ds arbitrary: st rs r w k)
  case Nil
  obtain r' e where "ReadFrameWithOptions (clock k) r (read_options s) = (r', Inl e)" "rd_in r' = []"
    using read_frame_eof [of r "clock k" "read_options s"] Nil.prems by auto
  with Nil.prems run show ?case by (simp add: serve.simps [of _ _ _ _ r])
next
  case (Cons d ds)
  obtain st1 resp rs' where a: "handleRequest co s d st = (st1, Ret resp)" "answers co s ds st1 = Some (rs', st')"
    "rs = resp # rs'"
    using Cons.prems(1) by (auto split: prod.splits outcome.splits)
  have "\<exists>r1. ReadFrameWithOptions (clock k) r (read_options s) = (r1, Inr d) \<and>
      rd_in r1 = concat (map encode_frame ds) \<and> rd_set_deadline r1 = rd_set_deadline r"
    using Cons.prems by (intro read_encoded_frame) auto
  then obtain r1 where r1: "ReadFrameWithOptions (clock k) r (read_options s) = (r1, Inr d)"
    "rd_in r1 = concat (map encode_frame ds)" "rd_set_deadline r1 = rd_set_deadline r" by blast
  obtain w1 where w1: "WriteFrameWithOptions conn_ops (clock k) w (co_response co resp) (write_options s) = (w1, Ret None)"
    "wc_sent w1 = wc_sent w @ encode_frame (co_response co resp)" "wc_script w1 = []" "wc_deadline_err w1 = None"
    using write_frame_quiet [of w "co_response co resp" "write_options s" "clock k"] Cons.prems(5-) a(3) by auto
  have "\<exists>r' w'. serve co clock s (Suc k) r1 w1 st1 = Ret (r', w', st') \<and> rd_in r' = [] \<and>
      wc_sent w' = wc_sent w1 @ concat (map (\<lambda>resp. encode_frame (co_response co resp)) rs')"
    using Cons.IH [OF a(2) r1(2) _ _ _ w1(3,4), of "Suc k"] Cons.prems r1(3) a(3) by simp
  then show ?case using run r1(1) a(1,3) w1(1,2) by (auto simp: serve.simps [of _ _ _ _ r])
qed

text \<open>
  C2: One connection is served in order and completely. If a client sends the encoded requests
  \<open>qs\<close> as frames within the limit and no method panics, the server answers every one of them,
  writes exactly one response frame per request in the order of the requests, each carrying the
  identifier of its request, ends when the stream ends, and leaves its connection count one lower.
\<close>

theorem rpc_serves_in_order:
  assumes "list_all2 (\<lambda>d q. co_request co d = Inr q) ds qs"
    and "answers co s ds st = Some (rs, st')" and "sv_running s"
    and "rd_in r = concat (map encode_frame ds)" and "\<forall>e. rd_set_deadline r \<noteq> Some (Some e)"
    and "\<forall>d \<in> set ds. d \<noteq> [] \<and> length d < 2 ^ 32 \<and> (of_nat (length d) :: u32) \<le> maxFrameSize (read_options s)"
    and "\<forall>resp \<in> set rs. co_response co resp \<noteq> [] \<and>
           (of_nat (length (co_response co resp)) :: u32) \<le> maxFrameSize (write_options s)"
    and "wc_script w = []" and "wc_deadline_err w = None"
  shows "\<exists>s' r' w'. handleConnection co clock s r w st = Ret (s', r', w', st') \<and>
           wc_sent w' = wc_sent w @ concat (map (\<lambda>resp. encode_frame (co_response co resp)) rs) \<and>
           map rr_ID rs = map rq_ID qs \<and> rd_in r' = [] \<and>
           GetConnectionCount s' = GetConnectionCount s - 1"
  using serve_answers [OF assms(2,3,4) _ assms(6-9), of clock 0] assms(5) answers_ids [OF assms(2,1)]
  by (auto simp: handleConnection_def GetConnectionCount_def)

definition demo_server :: "(nat, nat) rpc_server" where
  "demo_server = (accept_connection (register_all NewRPCServer echo_services))\<lparr>sv_running := True\<rparr>"

theorem rpc_serves_in_order_witness:
  "\<exists>s' r' w'. handleConnection demo_codec (\<lambda>k. int k) demo_server
       (demo_reader [0, 0, 0, 2, 9, 8, 0, 0, 0, 1, 4]) (demo_conn\<lparr>wc_script := []\<rparr>) 5 = Ret (s', r', w', 7) \<and>
     wc_sent w' = [0, 0, 0, 2, 9, 2, 0, 0, 0, 2, 4, 1] \<and> GetConnectionCount s' = 0"
proof -
  have ok: "list_all2 (\<lambda>d q. co_request demo_codec d = Inr q) [[9, 8], [4]] [demo_request [9, 8], demo_request [4]]"
    by (simp add: demo_codec_def)
  have an: "answers demo_codec demo_server [[9, 8], [4]] 5 =
      Some ([\<lparr>rr_ID = 9, rr_Error = [], rr_Data = [2]\<rparr>, \<lparr>rr_ID = 4, rr_Error = [], rr_Data = [1]\<rparr>], 7)"
    by code_simp
  have en: "encode_frame [9, 2] = [0, 0, 0, 2, 9, 2]" "encode_frame [4, 1] = [0, 0, 0, 2, 4, 1]"
    "encode_frame [9, 8] = [0, 0, 0, 2, 9, 8]" "encode_frame [4] = [0, 0, 0, 1, 4]" by code_simp+
  have lim: "maxFrameSize (read_options demo_server) = 1048576" "maxFrameSize (write_options demo_server) = 1048576"
    by code_simp+
  have cnt: "GetConnectionCount demo_server = 1" by code_simp
  have run: "sv_running demo_server" by (simp add: demo_server_def)
  from rpc_serves_in_order [OF ok an, of "demo_reader [0, 0, 0, 2, 9, 8, 0, 0, 0, 1, 4]" "demo_conn\<lparr>wc_script := []\<rparr>" "\<lambda>k. int k"]
  show ?thesis
    by (force simp: en lim cnt run demo_reader_def demo_conn_def demo_codec_def)
qed

text \<open>
  Identity in the call context. A method called with a \<^verbatim>\<open>BaseRequest\<close> sees the user and session
  of its header whenever the header carries a non-zero user or a non-empty session, whatever the
  envelope says; the envelope's values are used only for what the header leaves out, and with
  neither the context carries no identity. A deadline is set only for a positive timeout.
\<close>

theorem context_identity:
  "cx_user_id (call_context u sid t (ReqMsg req)) =
     (if GetUserId (br_Header req) \<noteq> 0 then Some (GetUserId (br_Header req)) else if u \<noteq> 0 then Some u else None) \<and>
   cx_session_id (call_context u sid t (ReqMsg req)) =
     (if GetSessionId (br_Header req) \<noteq> [] then Some (GetSessionId (br_Header req)) else if sid \<noteq> [] then Some sid else None) \<and>
   cx_timeout (call_context u sid t (ReqMsg req)) = (if t > 0 then Some t else None)"
  by (cases "br_Header req")
    (simp_all add: call_context_def rpcMetadataFromMessage_def Let_def word_gt_0_no word_neq_0_conv)

end
