(* ===== verification/TcpServer.thy ===== *)
theory TcpServer
  imports Frame ObjectPool
begin

text \<open>
  \<^verbatim>\<open>internal/network/tcp_server.go\<close>: connections, the accept limit, the per-connection loop with
  its cleanup, the heartbeat, and delivery to users. Connections are objects shared by reference:
  \<open>ts_objs\<close> is the store of all connection objects, keyed by the identifier under which each was
  created, and \<open>ts_conns\<close> lists the identifiers now in the \<^verbatim>\<open>connections\<close> map, in the order a
  \<^verbatim>\<open>Range\<close> over it visits them (any order; nothing below depends on which).
\<close>

subsection \<open>Sockets\<close>

record sock =
  so_conn :: wconn
  so_open :: bool

definition sock_write :: "sock \<Rightarrow> byte list \<Rightarrow> sock \<times> int \<times> io_error option" where
  "sock_write s d =
     (if so_open s
      then (case conn_write (so_conn s) d of (c, n, e) \<Rightarrow> (s\<lparr>so_conn := c\<rparr>, n, e))
      else (s, 0, Some IoClosed))"

definition sock_set_deadline :: "sock \<Rightarrow> time \<Rightarrow> sock \<times> io_error option" where
  "sock_set_deadline s t =
     (if so_open s
      then (case conn_set_write_deadline (so_conn s) t of (c, e) \<Rightarrow> (s\<lparr>so_conn := c\<rparr>, e))
      else (s, Some IoClosed))"

definition sock_ops :: "sock writer_ops" where
  "sock_ops = \<lparr>wo_write = sock_write, wo_set_deadline = Some sock_set_deadline\<rparr>"

abbreviation so_sent :: "sock \<Rightarrow> byte list" where "so_sent s \<equiv> wc_sent (so_conn s)"

interpretation tcp_sock: io_writer sock_ops so_sent
proof unfold_locales
  fix s d s' n e
  assume w: "wo_write sock_ops s d = (s', n, e)"
  obtain c k f where cw: "conn_write (so_conn s) d = (c, k, f)" by (metis prod_cases3)
  have out: "wo_write conn_ops (so_conn s) d = (c, k, f)" using cw by (simp add: conn_ops_def)
  from w cw tcp_conn.write_count [OF out] show "0 \<le> n \<and> n \<le> int (length d)"
    by (auto simp: sock_ops_def sock_write_def split: if_splits)
  from w cw tcp_conn.write_out [OF out] show "so_sent s' = so_sent s @ take (nat n) d"
    by (auto simp: sock_ops_def sock_write_def split: if_splits)
next
  fix sd s t s' e
  assume "wo_set_deadline sock_ops = Some sd" "sd s t = (s', e)"
  then show "so_sent s' = so_sent s"
    by (auto simp: sock_ops_def sock_set_deadline_def conn_set_write_deadline_def split: if_splits option.splits)
qed

subsection \<open>Connection\<close>

record connection =
  cn_ID :: u64
  cn_Conn :: sock
  cn_UserID :: u64
  cn_SessionID :: string
  cn_LastActivity :: time
  cn_closed :: bool
  cn_writeTimeout :: duration
  cn_maxWriteSize :: u32

datatype conn_error = ConnectionClosed | InvalidWriteLength nat | ConnIo io_error | UserNotConnected u64

definition NewConnection :: "time \<Rightarrow> u64 \<Rightarrow> sock \<Rightarrow> connection" where
  "NewConnection now i s = \<lparr>cn_ID = i, cn_Conn = s, cn_UserID = 0, cn_SessionID = [], cn_LastActivity = now,
     cn_closed = False, cn_writeTimeout = 0, cn_maxWriteSize = 0\<rparr>"

definition WriteWithTimeout ::
    "time \<Rightarrow> byte list \<Rightarrow> duration \<Rightarrow> connection \<Rightarrow> connection \<times> conn_error option outcome" where
  "WriteWithTimeout now data timeout c =
     (if cn_closed c then (c, Ret (Some ConnectionClosed))
      else (let c1 = c\<lparr>cn_LastActivity := now\<rparr> in
        if cn_maxWriteSize c1 > 0 \<and> (of_nat (length data) :: u32) > cn_maxWriteSize c1
        then (c1, Ret (Some (InvalidWriteLength (length data))))
        else (case (if timeout > 0 then sock_set_deadline (cn_Conn c1) (now + timeout) else (cn_Conn c1, None)) of
                (s, Some e) \<Rightarrow> (c1\<lparr>cn_Conn := s\<rparr>, Ret (Some (ConnIo e)))
              | (s, None) \<Rightarrow>
                  (case writeFull sock_write s data of
                     (s', Panic) \<Rightarrow> (c1\<lparr>cn_Conn := s'\<rparr>, Panic)
                   | (s', Ret e) \<Rightarrow> (c1\<lparr>cn_Conn := s'\<rparr>, Ret (map_option ConnIo e))))))"

definition Write :: "time \<Rightarrow> byte list \<Rightarrow> connection \<Rightarrow> connection \<times> conn_error option outcome" where
  "Write now data c = WriteWithTimeout now data (cn_writeTimeout c) c"

definition CloseConn :: "connection \<Rightarrow> connection" where
  "CloseConn c = (if cn_closed c then c
                  else c\<lparr>cn_closed := True, cn_Conn := (cn_Conn c)\<lparr>so_open := False\<rparr>\<rparr>)"

definition IsClosed :: "connection \<Rightarrow> bool" where "IsClosed c = cn_closed c"

definition ResetConn :: "connection \<Rightarrow> connection" where
  "ResetConn c = c\<lparr>cn_UserID := 0, cn_SessionID := [], cn_LastActivity := 0, cn_closed := False\<rparr>"

subsection \<open>TCPServer\<close>

record tcp_server =
  ts_objs :: "u64 \<Rightarrow> connection option"
  ts_conns :: "u64 list"
  ts_connCounter :: u64
  ts_running :: bool
  ts_maxConns :: int
  ts_maxFrameSize :: u32
  ts_readTimeout :: duration
  ts_writeTimeout :: duration
  ts_connPool :: "u64 gpool"


definition update_conn :: "u64 \<Rightarrow> (connection \<Rightarrow> connection) \<Rightarrow> tcp_server \<Rightarrow> tcp_server" where
  "update_conn i f s = s\<lparr>ts_objs := (ts_objs s)(i := map_option f (ts_objs s i))\<rparr>"

definition StartServer :: "tcp_server \<Rightarrow> tcp_server" where "StartServer s = s\<lparr>ts_running := True\<rparr>"

definition Stop :: "tcp_server \<Rightarrow> tcp_server" where
  "Stop s = (if \<not> ts_running s then s
             else fold (\<lambda>i. update_conn i CloseConn) (ts_conns s) (s\<lparr>ts_running := False\<rparr>))"

definition GetConnectionCount :: "tcp_server \<Rightarrow> int" where
  "GetConnectionCount s = int (length (ts_conns s))"

text \<open>One round of \<^verbatim>\<open>acceptLoop\<close>; over the limit the new socket is closed and forgotten.\<close>

definition accept_conn :: "time \<Rightarrow> sock \<Rightarrow> tcp_server \<Rightarrow> tcp_server \<times> u64 option" where
  "accept_conn now sk s =
     (if GetConnectionCount s \<ge> ts_maxConns s then (s, None)
      else (let i = ts_connCounter s + 1 in
        (s\<lparr>ts_connCounter := i,
           ts_objs := (ts_objs s)(i \<mapsto> NewConnection now i sk),
           ts_conns := (if i \<in> set (ts_conns s) then ts_conns s else i # ts_conns s)\<rparr>, Some i)))"

definition begin_connection :: "u64 \<Rightarrow> tcp_server \<Rightarrow> tcp_server" where
  "begin_connection i s = update_conn i
     (\<lambda>c. c\<lparr>cn_writeTimeout := ts_writeTimeout s, cn_maxWriteSize := ts_maxFrameSize s + FrameHeaderSize\<rparr>) s"

text \<open>The deferred cleanup: close, remove from the map, hand the object to the pool, which resets it.\<close>

definition end_connection :: "u64 \<Rightarrow> tcp_server \<Rightarrow> tcp_server" where
  "end_connection i s =
     (let s1 = update_conn i CloseConn s;
          s2 = s1\<lparr>ts_conns := filter (\<lambda>j. j \<noteq> i) (ts_conns s1)\<rparr>
      in (update_conn i ResetConn s2)\<lparr>ts_connPool := ObjectPool.Put None (Some i) (ts_connPool s2)\<rparr>)"

definition touch :: "time \<Rightarrow> u64 \<Rightarrow> (frame_error + byte list) \<Rightarrow> tcp_server \<Rightarrow> tcp_server" where
  \<comment> \<open>every \<^verbatim>\<open>Connection.Read\<close> notes the time; none happens when setting the deadline fails\<close>
  "touch now i res s = (case res of Inl (FrameDeadline _) \<Rightarrow> s
                        | _ \<Rightarrow> update_conn i (\<lambda>c. c\<lparr>cn_LastActivity := now\<rparr>) s)"

text \<open>
  The loop of \<^verbatim>\<open>handleConnection\<close>; the message handler \<open>h\<close> may change anything in the server. Its
  error is only logged.
\<close>

function conn_loop ::
    "(tcp_server \<Rightarrow> u64 \<Rightarrow> byte list \<Rightarrow> tcp_server) \<Rightarrow> (nat \<Rightarrow> time) \<Rightarrow> nat \<Rightarrow> u64 \<Rightarrow> reader \<Rightarrow> tcp_server \<Rightarrow> tcp_server" where
  "conn_loop h clock k i r s =
     (case ts_objs s i of
        None \<Rightarrow> s
      | Some c \<Rightarrow>
          if IsClosed c \<or> \<not> ts_running s then s
          else (case ReadFrameWithOptions (clock k) r
                       \<lparr>fo_MaxFrameSize = ts_maxFrameSize s, fo_ReadTimeout = ts_readTimeout s, fo_WriteTimeout = 0\<rparr> of
                  (r', Inl e) \<Rightarrow> touch (clock k) i (Inl e) s
                | (r', Inr f) \<Rightarrow> conn_loop h clock (Suc k) i r' (h (touch (clock k) i (Inr f) s) i f)))"
  by pat_completeness auto
termination
  by (relation "measure (\<lambda>(h, clock, k, i, r, s). length (rd_in r))") (auto dest: read_frame_consumes [OF sym])

declare conn_loop.simps [simp del]

definition handleConnection ::
    "(tcp_server \<Rightarrow> u64 \<Rightarrow> byte list \<Rightarrow> tcp_server) \<Rightarrow> (nat \<Rightarrow> time) \<Rightarrow> u64 \<Rightarrow> reader \<Rightarrow> tcp_server \<Rightarrow> tcp_server" where
  "handleConnection h clock i r s = end_connection i (conn_loop h clock 0 i r (begin_connection i s))"

definition SetTimeouts :: "duration \<Rightarrow> duration \<Rightarrow> tcp_server \<Rightarrow> tcp_server" where
  "SetTimeouts readTimeout writeTimeout s =
     s\<lparr>ts_readTimeout := if readTimeout > 0 then readTimeout else ts_readTimeout s,
       ts_writeTimeout := if writeTimeout > 0 then writeTimeout else ts_writeTimeout s\<rparr>"

definition SetMaxFrameSize :: "u32 \<Rightarrow> tcp_server \<Rightarrow> tcp_server" where
  "SetMaxFrameSize mx s = (if mx > 0 then s\<lparr>ts_maxFrameSize := mx\<rparr> else s)"

subsection \<open>Heartbeat and delivery\<close>

definition conn_expired :: "time \<Rightarrow> tcp_server \<Rightarrow> u64 \<Rightarrow> bool" where
  "conn_expired now s i = (case ts_objs s i of None \<Rightarrow> False | Some c \<Rightarrow> now - cn_LastActivity c > 60 * second)"

definition heartbeat :: "time \<Rightarrow> tcp_server \<Rightarrow> tcp_server" where
  "heartbeat now s = fold (\<lambda>i. update_conn i CloseConn) (filter (conn_expired now s) (ts_conns s)) s"

definition GetConnection :: "u64 \<Rightarrow> tcp_server \<Rightarrow> u64 option" where
  "GetConnection i s = (if i \<in> set (ts_conns s) then Some i else None)"

definition has_user :: "tcp_server \<Rightarrow> u64 \<Rightarrow> u64 \<Rightarrow> bool" where
  "has_user s uid i = (case ts_objs s i of None \<Rightarrow> False | Some c \<Rightarrow> cn_UserID c = uid)"

definition GetConnectionByUserID :: "u64 \<Rightarrow> tcp_server \<Rightarrow> u64 option" where
  "GetConnectionByUserID uid s = List.find (has_user s uid) (ts_conns s)"

definition write_to :: "time \<Rightarrow> byte list \<Rightarrow> u64 \<Rightarrow> tcp_server \<Rightarrow> tcp_server \<times> conn_error option outcome" where
  "write_to now data i s =
     (case ts_objs s i of
        None \<Rightarrow> (s, Ret (Some ConnectionClosed))
      | Some c \<Rightarrow> (case Write now data c of (c', r) \<Rightarrow> (s\<lparr>ts_objs := (ts_objs s)(i \<mapsto> c')\<rparr>, r)))"

definition broadcast_one :: "time \<Rightarrow> byte list \<Rightarrow> u64 \<Rightarrow> tcp_server \<Rightarrow> tcp_server" where
  "broadcast_one now data i s =
     (case ts_objs s i of None \<Rightarrow> s | Some c \<Rightarrow> if IsClosed c then s else fst (write_to now data i s))"

definition Broadcast :: "time \<Rightarrow> byte list \<Rightarrow> tcp_server \<Rightarrow> tcp_server" where
  "Broadcast now data s = fold (broadcast_one now data) (ts_conns s) s"

definition SendToUser :: "time \<Rightarrow> u64 \<Rightarrow> byte list \<Rightarrow> tcp_server \<Rightarrow> tcp_server \<times> conn_error option outcome" where
  "SendToUser now uid data s =
     (case GetConnectionByUserID uid s of
        None \<Rightarrow> (s, Ret (Some (UserNotConnected uid)))
      | Some i \<Rightarrow> write_to now data i s)"

subsection \<open>Runs and their invariant\<close>

datatype tcp_event =
    AcceptE time sock | BeginE u64 | EndE u64 | HeartbeatE time | BroadcastE time "byte list"
  | SendE time u64 "byte list" | LoginE u64 u64 string | CloseE u64 | StopE

fun tcp_step :: "tcp_event \<Rightarrow> tcp_server \<Rightarrow> tcp_server" where
  "tcp_step (AcceptE now sk) s = fst (accept_conn now sk s)"
| "tcp_step (BeginE i) s = begin_connection i s"
| "tcp_step (EndE i) s = end_connection i s"
| "tcp_step (HeartbeatE now) s = heartbeat now s"
| "tcp_step (BroadcastE now data) s = Broadcast now data s"
| "tcp_step (SendE now uid data) s = fst (SendToUser now uid data s)"
| "tcp_step (LoginE i uid sid) s = update_conn i (\<lambda>c. c\<lparr>cn_UserID := uid, cn_SessionID := sid\<rparr>) s"
| "tcp_step (CloseE i) s = update_conn i CloseConn s"
| "tcp_step StopE s = Stop s"

definition tcp_ok :: "tcp_server \<Rightarrow> bool" where
  "tcp_ok s \<longleftrightarrow> distinct (ts_conns s) \<and> int (length (ts_conns s)) \<le> max 0 (ts_maxConns s) \<and>
     (\<forall>i \<in> set (ts_conns s). ts_objs s i \<noteq> None)"

lemma update_conn_simps [simp]:
  "ts_conns (update_conn i f s) = ts_conns s" "ts_maxConns (update_conn i f s) = ts_maxConns s"
  "ts_connPool (update_conn i f s) = ts_connPool s"
  "ts_objs (update_conn i f s) = (ts_objs s)(i := map_option f (ts_objs s i))"
  by (simp_all add: update_conn_def)

lemma write_to_simps [simp]:
  "ts_conns (fst (write_to now d i s)) = ts_conns s" "ts_maxConns (fst (write_to now d i s)) = ts_maxConns s"
  "ts_objs (fst (write_to now d i s)) = (ts_objs s)(i := map_option (\<lambda>c. fst (Write now d c)) (ts_objs s i))"
  by (auto simp: write_to_def split: option.splits prod.splits)

definition broadcast_conn :: "time \<Rightarrow> byte list \<Rightarrow> connection \<Rightarrow> connection" where
  "broadcast_conn now d c = (if IsClosed c then c else fst (Write now d c))"

lemma broadcast_one_simps [simp]:
  "ts_conns (broadcast_one now d i s) = ts_conns s" "ts_maxConns (broadcast_one now d i s) = ts_maxConns s"
  "ts_objs (broadcast_one now d i s) = (ts_objs s)(i := map_option (broadcast_conn now d) (ts_objs s i))"
  by (auto simp: broadcast_one_def broadcast_conn_def fun_eq_iff split: option.splits)

lemma fold_keeps: "(\<And>x s. g (f x s) = g s) \<Longrightarrow> g (fold f xs s) = g s"
  by (induction xs arbitrary: s) simp_all

text \<open>A pass over some connections that changes each object it visits by \<open>g\<close>.\<close>

lemma fold_objs:
  assumes "\<And>i s. ts_objs (f i s) = (ts_objs s)(i := map_option g (ts_objs s i))"
    and "distinct xs \<or> (\<forall>c. g (g c) = g c)"
  shows "ts_objs (fold f xs s) j = (if j \<in> set xs then map_option g (ts_objs s j) else ts_objs s j)"
  using assms(2)
proof (induction xs arbitrary: s)
  case Nil
  then show ?case by simp
next
  case (Cons x xs)
  then have "ts_objs (fold f xs (f x s)) j =
      (if j \<in> set xs then map_option g (ts_objs (f x s) j) else ts_objs (f x s) j)" by auto
  with Cons.prems show ?case by (auto simp: assms(1) option.map_comp o_def)
qed

lemma CloseConn_idem [simp]: "CloseConn (CloseConn c) = CloseConn c"
  by (simp add: CloseConn_def)

lemma fold_close:
  "ts_objs (fold (\<lambda>i. update_conn i CloseConn) xs s) j =
     (if j \<in> set xs then map_option CloseConn (ts_objs s j) else ts_objs s j)"
  "ts_conns (fold (\<lambda>i. update_conn i CloseConn) xs s) = ts_conns s"
  "ts_maxConns (fold (\<lambda>i. update_conn i CloseConn) xs s) = ts_maxConns s"
  by (rule fold_objs, simp, simp) (simp_all add: fold_keeps [of ts_conns] fold_keeps [of ts_maxConns])

lemma broadcast_objs:
  "distinct (ts_conns s) \<Longrightarrow>
   ts_objs (Broadcast now d s) j =
     (if j \<in> set (ts_conns s) then map_option (broadcast_conn now d) (ts_objs s j) else ts_objs s j)"
  unfolding Broadcast_def by (rule fold_objs) simp_all

lemma broadcast_conns [simp]:
  "ts_conns (Broadcast now d s) = ts_conns s" "ts_maxConns (Broadcast now d s) = ts_maxConns s"
  by (simp_all add: Broadcast_def fold_keeps [of ts_conns] fold_keeps [of ts_maxConns])

lemma send_frame:
  "ts_conns (fst (SendToUser now uid d s)) = ts_conns s" "ts_maxConns (fst (SendToUser now uid d s)) = ts_maxConns s"
  by (auto simp: SendToUser_def split: option.splits)

lemma tcp_ok_step:
  assumes "tcp_ok s" shows "tcp_ok (tcp_step e s)"
proof (cases e)
  case (SendE now uid d)
  have "ts_objs (fst (SendToUser now uid d s)) i = None \<longleftrightarrow> ts_objs s i = None" for i
    by (auto simp: SendToUser_def split: option.splits)
  with SendE assms show ?thesis by (simp add: tcp_ok_def send_frame)
next
  case (AcceptE now sk)
  with assms show ?thesis by (auto simp: tcp_ok_def accept_conn_def GetConnectionCount_def Let_def)
next
  case (EndE i)
  have "int (length (filter (\<lambda>j. j \<noteq> i) (ts_conns s))) \<le> int (length (ts_conns s))" by simp
  also have "\<dots> \<le> max 0 (ts_maxConns s)" using assms by (simp add: tcp_ok_def)
  finally show ?thesis using EndE assms by (simp add: tcp_ok_def end_connection_def Let_def)
next
  case (HeartbeatE now)
  with assms show ?thesis by (auto simp: tcp_ok_def heartbeat_def fold_close)
next
  case StopE
  with assms show ?thesis by (auto simp: tcp_ok_def Stop_def fold_close)
next
  case (BroadcastE now d)
  with assms show ?thesis by (auto simp: tcp_ok_def broadcast_objs)
qed (use assms in \<open>auto simp: tcp_ok_def begin_connection_def\<close>)


lemma tcp_ok_run: "tcp_ok s \<Longrightarrow> tcp_ok (fold tcp_step es s)"
  by (induction es arbitrary: s) (auto simp: tcp_ok_step)

subsection \<open>Properties\<close>


definition demo_sock :: sock where
  "demo_sock = \<lparr>so_conn = demo_conn\<lparr>wc_script := []\<rparr>, so_open = True\<rparr>"



text \<open>
  The heartbeat closes exactly the registered connections that have been silent for more than
  60 seconds: their sockets are closed and they count as closed, every other connection object,
  the map and the pool are left alone.
\<close>

theorem heartbeat_closes_idle:
  "ts_conns (heartbeat now s) = ts_conns s \<and>
   ts_objs (heartbeat now s) i =
     (case ts_objs s i of
        None \<Rightarrow> None
      | Some c \<Rightarrow> Some (if i \<in> set (ts_conns s) \<and> now - cn_LastActivity c > 60 * second \<and> \<not> cn_closed c
          then c\<lparr>cn_closed := True, cn_Conn := (cn_Conn c)\<lparr>so_open := False\<rparr>\<rparr> else c))"
  by (auto simp: heartbeat_def fold_close conn_expired_def CloseConn_def split: option.splits)

lemma write_quiet:
  assumes "\<not> cn_closed c" and "so_open (cn_Conn c)" and "wc_script (so_conn (cn_Conn c)) = []"
    and "wc_deadline_err (so_conn (cn_Conn c)) = None"
    and "cn_maxWriteSize c = 0 \<or> (of_nat (length d) :: u32) \<le> cn_maxWriteSize c"
  shows "\<exists>c'. Write now d c = (c', Ret None) \<and> so_sent (cn_Conn c') = so_sent (cn_Conn c) @ d"
proof -
  let ?c = "c\<lparr>cn_LastActivity := now\<rparr>"
  define sd where "sd = (if cn_writeTimeout c > 0 then sock_set_deadline (cn_Conn ?c) (now + cn_writeTimeout c) else (cn_Conn ?c, None))"
  have fits: "\<not> (cn_maxWriteSize ?c > 0 \<and> (of_nat (length d) :: u32) > cn_maxWriteSize ?c)"
    using assms(5) by auto
  obtain s where s: "sd = (s, None)" "so_sent s = so_sent (cn_Conn c)" "so_open s" "wc_script (so_conn s) = []"
    by (rule that [of "fst sd"])
      (use assms(2-4) in \<open>simp_all add: sd_def sock_set_deadline_def conn_set_write_deadline_def\<close>)
  have "\<exists>s'. writeFull sock_write s d = (s', Ret None) \<and> so_sent s' = so_sent s @ d"
    using s(3,4) by (cases "d = []")
      (simp_all add: writeFull.simps [of sock_write s d] writeFull.simps [of _ _ "[]"] sock_write_def conn_write_def)
  with s fits assms(1) show ?thesis
    by (auto simp: Write_def WriteWithTimeout_def Let_def sd_def simp flip: sd_def)
qed

text \<open>
  A broadcast reaches everybody once. On a server in a consistent state, each registered, open
  connection whose socket takes the data gets exactly the data appended to its stream; closed
  connections get nothing; objects that are no longer registered are not touched.
\<close>

theorem broadcast_delivers:
  assumes "tcp_ok s" and "ts_objs s i = Some c"
  shows "\<exists>c'. ts_objs (Broadcast now d s) i = Some c' \<and>
    (i \<in> set (ts_conns s) \<and> \<not> IsClosed c \<and> so_open (cn_Conn c) \<and> wc_script (so_conn (cn_Conn c)) = [] \<and>
       wc_deadline_err (so_conn (cn_Conn c)) = None \<and>
       (cn_maxWriteSize c = 0 \<or> (of_nat (length d) :: u32) \<le> cn_maxWriteSize c)
     \<longrightarrow> so_sent (cn_Conn c') = so_sent (cn_Conn c) @ d) \<and>
    (i \<notin> set (ts_conns s) \<or> IsClosed c \<longrightarrow> c' = c)"
proof -
  let ?c = "if i \<in> set (ts_conns s) then broadcast_conn now d c else c"
  have "ts_objs (Broadcast now d s) i = Some ?c"
    using assms by (simp add: tcp_ok_def broadcast_objs)
  moreover have "i \<in> set (ts_conns s) \<Longrightarrow> \<not> IsClosed c \<Longrightarrow> so_open (cn_Conn c) \<Longrightarrow> wc_script (so_conn (cn_Conn c)) = [] \<Longrightarrow>
      wc_deadline_err (so_conn (cn_Conn c)) = None \<Longrightarrow>
      cn_maxWriteSize c = 0 \<or> (of_nat (length d) :: u32) \<le> cn_maxWriteSize c \<Longrightarrow>
      so_sent (cn_Conn ?c) = so_sent (cn_Conn c) @ d"
    using write_quiet [of c d now] by (auto simp: broadcast_conn_def IsClosed_def)
  ultimately show ?thesis by (auto simp: broadcast_conn_def)
qed

definition demo_tcp :: tcp_server where
  "demo_tcp = fold tcp_step [AcceptE 5 demo_sock, AcceptE 6 demo_sock, BeginE 1, LoginE 1 77 ''s'']
     \<lparr>ts_objs = Map.empty, ts_conns = [], ts_connCounter = 0, ts_running = True, ts_maxConns = 2,
      ts_maxFrameSize = 16, ts_readTimeout = 3, ts_writeTimeout = 4,
      ts_connPool = \<lparr>gp_pool = [], gp_maxSize = 2, gp_created = 0, gp_gotten = 0, gp_put = 0\<rparr>\<rparr>"

definition demo_connection :: connection where
  "demo_connection = \<lparr>cn_ID = 1, cn_Conn = demo_sock, cn_UserID = 77, cn_SessionID = ''s'', cn_LastActivity = 5,
     cn_closed = False, cn_writeTimeout = 4, cn_maxWriteSize = 20\<rparr>"

lemma demo_tcp_state: "ts_conns demo_tcp = [2, 1]" "ts_objs demo_tcp 1 = Some demo_connection"
  "ts_objs demo_tcp 2 = Some (NewConnection 6 2 demo_sock)" "tcp_ok demo_tcp"
proof -
  show "ts_conns demo_tcp = [2, 1]" "ts_objs demo_tcp 1 = Some demo_connection"
    "ts_objs demo_tcp 2 = Some (NewConnection 6 2 demo_sock)"
    by (simp_all add: demo_tcp_def demo_connection_def accept_conn_def begin_connection_def NewConnection_def
      GetConnectionCount_def FrameHeaderSize_def Let_def)
  show "tcp_ok demo_tcp" unfolding demo_tcp_def by (rule tcp_ok_run) (simp add: tcp_ok_def)
qed

theorem broadcast_delivers_witness:
  "\<exists>c'. ts_objs (Broadcast 9 [1, 2] demo_tcp) 1 = Some c' \<and> so_sent (cn_Conn c') = [1, 2]"
  using broadcast_delivers [OF demo_tcp_state(4,2), of 9 "[1, 2]"]
  by (auto simp: demo_tcp_state demo_connection_def demo_sock_def demo_conn_def IsClosed_def)

text \<open>
  \<^verbatim>\<open>SendToUser\<close> delivers to that user and nobody else. When it succeeds, one registered open
  connection of the user got exactly the data, within its write limit, and no other connection
  changed; when no registered connection has the user, it reports so and changes nothing.
\<close>

theorem send_to_user_delivers:
  assumes "SendToUser now uid d s = (s', r)"
  shows "case r of
      Ret None \<Rightarrow> \<exists>i c c'. i \<in> set (ts_conns s) \<and> ts_objs s i = Some c \<and> cn_UserID c = uid \<and> \<not> IsClosed c \<and>
        (cn_maxWriteSize c = 0 \<or> (of_nat (length d) :: u32) \<le> cn_maxWriteSize c) \<and>
        ts_objs s' i = Some c' \<and> so_sent (cn_Conn c') = so_sent (cn_Conn c) @ d \<and>
        (\<forall>j. j \<noteq> i \<longrightarrow> ts_objs s' j = ts_objs s j)
    | Ret (Some (UserNotConnected u)) \<Rightarrow> u = uid \<and> s' = s \<and> (\<forall>i \<in> set (ts_conns s). \<not> has_user s uid i)
    | Ret (Some _) \<Rightarrow> True
    | Panic \<Rightarrow> False"
proof (cases "GetConnectionByUserID uid s")
  case None
  then have "\<forall>i \<in> set (ts_conns s). \<not> has_user s uid i"
    by (auto simp: GetConnectionByUserID_def find_None_iff)
  with None assms show ?thesis by (auto simp: SendToUser_def)
next
  case (Some i)
  then have i: "i \<in> set (ts_conns s)" "has_user s uid i"
    using find_Some_iff_map [of "has_user s uid" "ts_conns s" i] by (auto simp: GetConnectionByUserID_def)
  then obtain c where c: "ts_objs s i = Some c" "cn_UserID c = uid" by (auto simp: has_user_def split: option.splits)
  obtain c' q where w: "Write now d c = (c', q)" by (cases "Write now d c")
  have res: "s' = s\<lparr>ts_objs := (ts_objs s)(i \<mapsto> c')\<rparr>" "r = q"
    using assms Some c w by (auto simp: SendToUser_def write_to_def)
  have np: "writeFull sock_write x d \<noteq> (x', Panic)" for x x'
    using tcp_sock.writeFull_no_panic [of x d] by (simp add: sock_ops_def)
  have ok: "writeFull sock_write x d = (x', Ret None) \<Longrightarrow> so_sent x' = so_sent x @ d" for x x'
    using tcp_sock.writeFull_ok [of x d x'] by (simp add: sock_ops_def)
  have dl: "sock_set_deadline x t = (x', e) \<Longrightarrow> so_sent x' = so_sent x" for x x' t e
    using tcp_sock.deadline_out [of sock_set_deadline x t x' e] by (simp add: sock_ops_def)
  have "q \<noteq> Panic \<and> q \<noteq> Ret (Some (UserNotConnected u)) \<and> (q = Ret None \<longrightarrow> \<not> IsClosed c \<and>
      (cn_maxWriteSize c = 0 \<or> (of_nat (length d) :: u32) \<le> cn_maxWriteSize c) \<and>
      so_sent (cn_Conn c') = so_sent (cn_Conn c) @ d)" for u
    using w np ok dl unfolding Write_def WriteWithTimeout_def IsClosed_def Let_def
    by (auto simp: not_less split: if_splits prod.splits option.splits outcome.splits)
  with res i(1) c show ?thesis by (auto split: outcome.splits option.splits conn_error.splits)
qed

theorem send_to_user_delivers_witness:
  "\<exists>s'. SendToUser 9 77 [1, 2] demo_tcp = (s', Ret None) \<and>
     (\<exists>c'. ts_objs s' 1 = Some c' \<and> so_sent (cn_Conn c') = [1, 2])"
proof -
  have "GetConnectionByUserID 77 demo_tcp = Some 1"
    by (simp add: GetConnectionByUserID_def demo_tcp_state has_user_def NewConnection_def demo_connection_def)
  moreover obtain c' where w: "Write 9 [1, 2] demo_connection = (c', Ret None)"
    using write_quiet [of demo_connection "[1, 2]" 9] by (auto simp: demo_connection_def demo_sock_def demo_conn_def)
  ultimately obtain s' where s': "SendToUser 9 77 [1, 2] demo_tcp = (s', Ret None)"
    by (simp add: SendToUser_def write_to_def demo_tcp_state)
  from send_to_user_delivers [OF s'] have "\<exists>c'. ts_objs s' 1 = Some c' \<and> so_sent (cn_Conn c') = [1, 2]"
    by (auto simp: demo_tcp_state NewConnection_def demo_connection_def demo_sock_def demo_conn_def)
  with s' show ?thesis by blast
qed

text \<open>
  Cleanup hands back a connection that looks open. After \<^verbatim>\<open>handleConnection\<close> has ended, the object
  is out of the map, so no lookup returns it, and anonymous; but the pool's reset has cleared its
  closed flag, so whoever still holds the pointer sees an open connection, and only the closed
  socket makes its next non-empty write fail, provided the write limit lets it through.
\<close>

theorem released_connection_looks_open:
  assumes "ts_objs (conn_loop h clock 0 i r (begin_connection i s)) i = Some c"
  shows "\<exists>c'. ts_objs (handleConnection h clock i r s) i = Some c' \<and> \<not> IsClosed c' \<and> cn_UserID c' = 0 \<and>
    GetConnection i (handleConnection h clock i r s) = None \<and>
    GetConnectionByUserID uid (handleConnection h clock i r s) \<noteq> Some i \<and>
    (\<not> cn_closed c \<longrightarrow> d \<noteq> [] \<longrightarrow> (\<exists>e. snd (Write now d c') = Ret (Some e) \<and> e \<noteq> ConnectionClosed))"
proof -
  let ?s = "handleConnection h clock i r s" and ?c = "ResetConn (CloseConn c)"
  have o: "ts_objs ?s i = Some ?c" and m: "i \<notin> set (ts_conns ?s)"
    using assms by (simp_all add: handleConnection_def end_connection_def Let_def)
  have "GetConnectionByUserID uid ?s \<noteq> Some i"
    using m find_Some_iff_map [of "has_user ?s uid" "ts_conns ?s" i] by (auto simp: GetConnectionByUserID_def)
  moreover have "\<exists>e. snd (Write now d ?c) = Ret (Some e) \<and> e \<noteq> ConnectionClosed" if "\<not> cn_closed c" "d \<noteq> []"
    using that by (auto simp: Write_def WriteWithTimeout_def Let_def ResetConn_def CloseConn_def
      sock_set_deadline_def sock_write_def writeFull.simps [of sock_write _ d])
  ultimately show ?thesis using o m by (auto simp: GetConnection_def ResetConn_def IsClosed_def)
qed

theorem released_connection_looks_open_witness:
  "\<exists>c'. ts_objs (handleConnection (\<lambda>s i f. s) (\<lambda>k. 9) 1 (demo_reader []) demo_tcp) 1 = Some c' \<and> \<not> IsClosed c'"
proof -
  have eof: "ReadFrameWithOptions 9 (demo_reader []) opts \<noteq> (r', Inr f)" for opts r' f
    by (auto simp: demo_reader_def dest: read_frame_consumes)
  have "ts_objs (conn_loop (\<lambda>s i f. s) (\<lambda>k. 9) 0 1 (demo_reader []) (begin_connection 1 demo_tcp)) 1 \<noteq> None"
    by (subst conn_loop.simps)
      (simp add: begin_connection_def demo_tcp_state touch_def eof split: option.split prod.split sum.split frame_error.split)
  then obtain c where "ts_objs (conn_loop (\<lambda>s i f. s) (\<lambda>k. 9) 0 1 (demo_reader []) (begin_connection 1 demo_tcp)) 1 = Some c"
    by blast
  from released_connection_looks_open [OF this] show ?thesis by blast
qed

end
