(* ===== verification/Actors.thy ===== *)
theory Actors
  imports Prelude "HOL-Library.AList"
begin

text \<open>
  \<^verbatim>\<open>internal/actor/actor.go\<close>. \<open>actor_step\<close> is the interleaving semantics of one \<^verbatim>\<open>BaseActor\<close>: callers of
  \<^verbatim>\<open>Tell\<close>, \<^verbatim>\<open>Start\<close> and \<^verbatim>\<open>Stop\<close> that hold or wait for its read-write lock, the bounded mailbox channel,
  and the goroutine of \<^verbatim>\<open>run\<close>, one atomic action per step. The second half is \<^verbatim>\<open>ActorSystem\<close>, which
  reaches an actor only through the methods of \<^verbatim>\<open>RuntimeActor\<close> (\<open>actor_ops\<close>, with the locale
  \<open>runtime_actor\<close> for what it relies on).
\<close>

subsection \<open>BaseActor\<close>

text \<open>
  A message is \<open>None\<close> when the interface value is nil. \<open>SelfTell m n held\<close> is the goroutine inside a
  \<^verbatim>\<open>Tell\<close> of \<open>n\<close> to its own actor made by the handler of \<open>m\<close>; \<open>held\<close> says whether it has the read lock.
\<close>

datatype 'm loop_state = NoLoop | Idle | Handling 'm | SelfTell 'm "'m option" bool

record 'm base_actor =
  ba_id :: string
  ba_type :: string
  ba_mailbox :: "'m option list"
  ba_cap :: nat
  ba_running :: bool
  ba_cancelled :: bool
  ba_loop :: "'m loop_state"
  ba_stopping :: bool
  ba_tellers :: "'m option list"
  ba_enqueued :: u64
  ba_processed :: u64
  ba_failed :: u64
  ba_rejected :: u64
  ba_totalNanos :: u64
  ba_lastUnix :: int
  g_enq :: "'m option list"
  g_recv :: "'m option list"
  g_done :: "('m \<times> bool) list"

text \<open>
  \<open>ba_stopping\<close>: \<^verbatim>\<open>Stop\<close> holds the lock and waits for the goroutine. \<open>ba_tellers\<close>: callers of \<^verbatim>\<open>Tell\<close>
  that hold the read lock and wait for room. The last three fields are histories of what was put
  into the mailbox, taken out of it, and handled with which success.
\<close>

definition NewBaseActor :: "string \<Rightarrow> string \<Rightarrow> int \<Rightarrow> 'm base_actor outcome" where
  "NewBaseActor i ty mailboxSize =
     (if mailboxSize < 0 then Panic
      else Ret \<lparr>ba_id = i, ba_type = ty, ba_mailbox = [], ba_cap = nat mailboxSize, ba_running = False,
        ba_cancelled = False, ba_loop = NoLoop, ba_stopping = False, ba_tellers = [],
        ba_enqueued = 0, ba_processed = 0, ba_failed = 0, ba_rejected = 0, ba_totalNanos = 0, ba_lastUnix = 0,
        g_enq = [], g_recv = [], g_done = []\<rparr>)"


fun holds_read :: "'m loop_state \<Rightarrow> bool" where
  "holds_read (SelfTell _ _ h) = h"
| "holds_read _ = False"

definition write_lock_free :: "'m base_actor \<Rightarrow> bool" where
  "write_lock_free a \<longleftrightarrow> \<not> ba_stopping a \<and> ba_tellers a = [] \<and> \<not> holds_read (ba_loop a)"

definition enqueue :: "'m option \<Rightarrow> 'm base_actor \<Rightarrow> 'm base_actor" where
  "enqueue m a = a\<lparr>ba_mailbox := ba_mailbox a @ [m], ba_enqueued := ba_enqueued a + 1, g_enq := g_enq a @ [m]\<rparr>"

definition reject :: "'m base_actor \<Rightarrow> 'm base_actor" where
  "reject a = a\<lparr>ba_rejected := ba_rejected a + 1\<rparr>"

definition start_loop :: "'m base_actor \<Rightarrow> 'm base_actor" where
  "start_loop a = a\<lparr>ba_cancelled := False, ba_running := True, ba_loop := Idle\<rparr>"

definition begin_stop :: "'m base_actor \<Rightarrow> 'm base_actor" where
  "begin_stop a = a\<lparr>ba_running := False, ba_cancelled := True, ba_stopping := True\<rparr>"

fun loop_after :: "'m option \<Rightarrow> 'm loop_state" where
  \<comment> \<open>a nil message is skipped by \<^verbatim>\<open>continue\<close>\<close>
  "loop_after None = Idle"
| "loop_after (Some x) = Handling x"

definition receive_message :: "'m option \<Rightarrow> 'm option list \<Rightarrow> 'm base_actor \<Rightarrow> 'm base_actor" where
  "receive_message m rest a = a\<lparr>ba_mailbox := rest, g_recv := g_recv a @ [m],
     ba_loop := loop_after m\<rparr>"

definition finish_message :: "'m \<Rightarrow> bool \<Rightarrow> duration \<Rightarrow> time \<Rightarrow> 'm base_actor \<Rightarrow> 'm base_actor" where
  "finish_message x ok took now a = a\<lparr>ba_loop := Idle,
     ba_failed := ba_failed a + (if ok then 0 else 1), ba_processed := ba_processed a + 1,
     ba_totalNanos := ba_totalNanos a + of_int took, ba_lastUnix := time_unix now,
     g_done := g_done a @ [(x, ok)]\<rparr>"

inductive actor_step :: "'m base_actor \<Rightarrow> 'm base_actor \<Rightarrow> bool" where
  start_ok: "write_lock_free a \<Longrightarrow> \<not> ba_running a \<Longrightarrow> actor_step a (start_loop a)"
| start_fail: "write_lock_free a \<Longrightarrow> \<not> ba_running a \<Longrightarrow> actor_step a (a\<lparr>ba_cancelled := True\<rparr>)"
| tell_begin: "\<not> ba_stopping a \<Longrightarrow> ba_running a \<Longrightarrow> actor_step a (a\<lparr>ba_tellers := m # ba_tellers a\<rparr>)"
| tell_deliver: "m \<in> set (ba_tellers a) \<Longrightarrow> length (ba_mailbox a) < ba_cap a \<Longrightarrow>
    actor_step a (enqueue m (a\<lparr>ba_tellers := remove1 m (ba_tellers a)\<rparr>))"
| tell_handoff: "m \<in> set (ba_tellers a) \<Longrightarrow> ba_mailbox a = [] \<Longrightarrow> ba_loop a = Idle \<Longrightarrow>
    actor_step a (receive_message m [] (enqueue m (a\<lparr>ba_tellers := remove1 m (ba_tellers a)\<rparr>)))"
| tell_timeout: "m \<in> set (ba_tellers a) \<Longrightarrow> actor_step a (reject (a\<lparr>ba_tellers := remove1 m (ba_tellers a)\<rparr>))"
| stop_begin: "write_lock_free a \<Longrightarrow> ba_running a \<Longrightarrow> actor_step a (begin_stop a)"
| stop_done: "ba_stopping a \<Longrightarrow> ba_loop a = NoLoop \<Longrightarrow> actor_step a (a\<lparr>ba_stopping := False\<rparr>)"
| loop_receive: "ba_loop a = Idle \<Longrightarrow> ba_mailbox a = m # rest \<Longrightarrow> actor_step a (receive_message m rest a)"
| loop_exit: "ba_loop a = Idle \<Longrightarrow> ba_cancelled a \<Longrightarrow> actor_step a (a\<lparr>ba_loop := NoLoop\<rparr>)"
| handled: "ba_loop a = Handling x \<Longrightarrow> actor_step a (finish_message x ok took now a)"
| self_call: "ba_loop a = Handling x \<Longrightarrow> actor_step a (a\<lparr>ba_loop := SelfTell x m False\<rparr>)"
| self_lock: "ba_loop a = SelfTell x m False \<Longrightarrow> \<not> ba_stopping a \<Longrightarrow>
    actor_step a (a\<lparr>ba_loop := if ba_running a then SelfTell x m True else Handling x\<rparr>)"
| self_deliver: "ba_loop a = SelfTell x m True \<Longrightarrow> length (ba_mailbox a) < ba_cap a \<Longrightarrow>
    actor_step a (enqueue m (a\<lparr>ba_loop := Handling x\<rparr>))"
| self_timeout: "ba_loop a = SelfTell x m True \<Longrightarrow> actor_step a (reject (a\<lparr>ba_loop := Handling x\<rparr>))"

inductive_cases actor_stepE: "actor_step a b"

lemmas actor_defs = start_loop_def begin_stop_def enqueue_def reject_def receive_message_def
  finish_message_def write_lock_free_def

text \<open>What the goroutine has taken out and not finished.\<close>

fun in_flight :: "'m loop_state \<Rightarrow> 'm list" where
  "in_flight (Handling x) = [x]"
| "in_flight (SelfTell x _ _) = [x]"
| "in_flight _ = []"

lemma loop_after_simps [simp]:
  "in_flight (loop_after m) = (case m of None \<Rightarrow> [] | Some x \<Rightarrow> [x])"
  "loop_after m \<noteq> NoLoop" "\<not> holds_read (loop_after m)"
  by (cases m, simp_all)+

definition actor_inv :: "'m base_actor \<Rightarrow> bool" where
  "actor_inv a \<longleftrightarrow>
     length (ba_mailbox a) \<le> ba_cap a \<and>
     g_enq a = g_recv a @ ba_mailbox a \<and>
     map fst (g_done a) @ in_flight (ba_loop a) = List.map_filter id (g_recv a) \<and>
     ba_enqueued a = of_nat (length (g_enq a)) \<and>
     ba_processed a = of_nat (length (g_done a)) \<and>
     ba_failed a = of_nat (length (filter (\<lambda>(x, ok). \<not> ok) (g_done a))) \<and>
     (ba_running a \<longrightarrow> ba_loop a \<noteq> NoLoop \<and> \<not> ba_cancelled a \<and> \<not> ba_stopping a) \<and>
     (ba_stopping a \<longrightarrow> ba_cancelled a \<and> ba_tellers a = [] \<and> \<not> holds_read (ba_loop a)) \<and>
     (\<not> ba_running a \<and> \<not> ba_stopping a \<longrightarrow> ba_loop a = NoLoop \<and> ba_tellers a = [])"

lemma map_filter_snoc [simp]:
  "List.map_filter id (xs @ [m]) = List.map_filter id xs @ (case m of None \<Rightarrow> [] | Some x \<Rightarrow> [x])"
  by (induction xs) (auto simp: List.map_filter_simps split: option.splits)

lemma actor_inv_new: "NewBaseActor i ty n = Ret a \<Longrightarrow> actor_inv a"
  by (auto simp: NewBaseActor_def actor_inv_def List.map_filter_simps split: if_splits)

lemma actor_inv_step: "actor_step a b \<Longrightarrow> actor_inv a \<Longrightarrow> actor_inv b"
  by (induction rule: actor_step.induct) (auto simp: actor_inv_def actor_defs)

lemma actor_inv_steps: "actor_step\<^sup>*\<^sup>* a b \<Longrightarrow> actor_inv a \<Longrightarrow> actor_inv b"
  by (induction rule: rtranclp_induct) (auto intro: actor_inv_step)

subsection \<open>The methods of BaseActor, each run to its end\<close>

text \<open>
  \<^verbatim>\<open>Start\<close>, \<^verbatim>\<open>Tell\<close> and \<^verbatim>\<open>Stop\<close> as one caller sees them when no other call is under way; the
  lemmas \<open>*_steps\<close> show each to be a run of \<open>actor_step\<close>. \<^verbatim>\<open>Stop\<close> waits for a message being
  handled, whose outcome is \<open>(ok, took, now)\<close>; \<open>None\<close> says that it does not return.
\<close>

definition Start :: "string option \<Rightarrow> 'm base_actor \<Rightarrow> 'm base_actor \<times> string option" where
  "Start onstart a =
     (if ba_running a then (a, Some (''actor '' @ ba_id a @ '' already running''))
      else (case onstart of
              None \<Rightarrow> (start_loop a, None)
            | Some e \<Rightarrow> (a\<lparr>ba_cancelled := True\<rparr>, Some e)))"

definition Tell :: "'m option \<Rightarrow> 'm base_actor \<Rightarrow> 'm base_actor \<times> string option" where
  "Tell m a =
     (if \<not> ba_running a then (a, Some (''actor '' @ ba_id a @ '' is not running''))
      else if length (ba_mailbox a) < ba_cap a then (enqueue m a, None)
      else if ba_mailbox a = [] \<and> ba_loop a = Idle then (receive_message m [] (enqueue m a), None)
      else (reject a, Some (''mailbox full for actor '' @ ba_id a)))"

definition Stop :: "bool \<times> duration \<times> time \<Rightarrow> string option \<Rightarrow> 'm base_actor \<Rightarrow> ('m base_actor \<times> string option) option" where
  "Stop outcome onstop a =
     (if \<not> ba_running a then Some (a, None)
      else (case ba_loop (begin_stop a) of
              SelfTell x m h \<Rightarrow> None
            | Handling x \<Rightarrow> (case outcome of (ok, took, now) \<Rightarrow>
                Some ((finish_message x ok took now (begin_stop a))\<lparr>ba_loop := NoLoop, ba_stopping := False\<rparr>, onstop))
            | _ \<Rightarrow> Some ((begin_stop a)\<lparr>ba_loop := NoLoop, ba_stopping := False\<rparr>, onstop)))"

definition quiet :: "'m base_actor \<Rightarrow> bool" where
  "quiet a \<longleftrightarrow> actor_inv a \<and> write_lock_free a"

lemma two_steps: "actor_step a b \<Longrightarrow> actor_step b c \<Longrightarrow> actor_step\<^sup>*\<^sup>* a c"
  by (meson converse_rtranclp_into_rtranclp r_into_rtranclp)

lemma Start_steps: "quiet a \<Longrightarrow> Start onstart a = (b, e) \<Longrightarrow> actor_step\<^sup>*\<^sup>* a b"
  by (auto simp: Start_def quiet_def intro: start_ok start_fail split: if_splits option.splits)

lemma Tell_steps:
  assumes "quiet a" and "Tell m a = (b, e)"
  shows "actor_step\<^sup>*\<^sup>* a b"
proof (cases "ba_running a")
  case False
  with assms(2) show ?thesis by (simp add: Tell_def)
next
  case True
  let ?a = "a\<lparr>ba_tellers := [m]\<rparr>"
  have t: "ba_tellers a = []" using assms(1) by (simp add: quiet_def write_lock_free_def)
  have b: "actor_step a ?a" using tell_begin [of a m] True assms(1) t by (simp add: quiet_def write_lock_free_def)
  have "?a\<lparr>ba_tellers := remove1 m (ba_tellers ?a)\<rparr> = a" using t by simp
  then have "length (ba_mailbox a) < ba_cap a \<Longrightarrow> actor_step ?a (enqueue m a)"
    and "ba_mailbox a = [] \<Longrightarrow> ba_loop a = Idle \<Longrightarrow> actor_step ?a (receive_message m [] (enqueue m a))"
    and "actor_step ?a (reject a)"
    using tell_deliver [of m ?a] tell_handoff [of m ?a] tell_timeout [of m ?a] by simp_all
  with two_steps [OF b] True assms(2) show ?thesis by (auto simp: Tell_def split: if_splits)
qed

lemma Stop_steps:
  assumes "quiet a" and "Stop oc onstop a = Some (b, e)"
  shows "actor_step\<^sup>*\<^sup>* a b"
proof (cases "ba_running a")
  case False
  with assms(2) show ?thesis by (simp add: Stop_def)
next
  case True
  obtain ok took now where oc: "oc = (ok, took, now)" by (cases oc)
  have s: "actor_step a (begin_stop a)" using True assms(1) by (auto simp: quiet_def intro: stop_begin)
  have nl: "ba_loop a \<noteq> NoLoop" using True assms(1) by (simp add: quiet_def actor_inv_def)
  have e: "actor_step\<^sup>*\<^sup>* c (c\<lparr>ba_loop := NoLoop, ba_stopping := False\<rparr>)"
    if "ba_loop c = Idle" "ba_cancelled c" "ba_stopping c" for c :: "'a base_actor"
    using two_steps [OF loop_exit [of c] stop_done [of "c\<lparr>ba_loop := NoLoop\<rparr>"]] that by simp
  show ?thesis
  proof (cases "ba_loop a")
    case Idle
    with True assms(2) have "b = (begin_stop a)\<lparr>ba_loop := NoLoop, ba_stopping := False\<rparr>"
      by (simp add: Stop_def begin_stop_def)
    with e [of "begin_stop a"] Idle s show ?thesis by (auto simp: begin_stop_def)
  next
    case (Handling x)
    let ?c = "finish_message x ok took now (begin_stop a)"
    have "actor_step (begin_stop a) ?c" using Handling by (intro handled) (simp add: begin_stop_def)
    moreover have "b = ?c\<lparr>ba_loop := NoLoop, ba_stopping := False\<rparr>"
      using Handling True assms(2) oc by (auto simp: Stop_def begin_stop_def)
    moreover have "ba_loop ?c = Idle" "ba_cancelled ?c" "ba_stopping ?c"
      by (simp_all add: finish_message_def begin_stop_def)
    ultimately show ?thesis using rtranclp_trans [OF two_steps [OF s] e [of ?c]] by simp
  qed (use True assms(2) nl in \<open>auto simp: Stop_def begin_stop_def\<close>)
qed

subsection \<open>ActorSystem\<close>

record actor_stats =
  st_Running :: bool
  st_MailboxSize :: nat
  st_MailboxCapacity :: nat
  st_Enqueued :: u64
  st_Processed :: u64
  st_Failed :: u64
  st_Rejected :: u64
  st_LastMessageUnix :: int
  st_AverageProcessTime :: int

definition GetStats :: "'m base_actor \<Rightarrow> actor_stats" where
  "GetStats a = \<lparr>st_Running = ba_running a, st_MailboxSize = length (ba_mailbox a),
     st_MailboxCapacity = ba_cap a, st_Enqueued = ba_enqueued a, st_Processed = ba_processed a,
     st_Failed = ba_failed a, st_Rejected = ba_rejected a, st_LastMessageUnix = ba_lastUnix a,
     st_AverageProcessTime = (if ba_processed a > 0 then sint (ba_totalNanos a div ba_processed a) else 0)\<rparr>"

text \<open>
  The method table behind a \<^verbatim>\<open>RuntimeActor\<close> value; a registered actor may also be one that does not
  implement that interface.
\<close>

record ('a, 'm) actor_ops =
  ao_GetID :: "'a \<Rightarrow> string"
  ao_Start :: "string option \<Rightarrow> 'a \<Rightarrow> 'a \<times> string option"
  ao_Stop :: "'a \<Rightarrow> ('a \<times> string option) option"
  ao_Tell :: "'m option \<Rightarrow> 'a \<Rightarrow> 'a \<times> string option"
  ao_GetStats :: "'a \<Rightarrow> actor_stats"

datatype 'a any_actor = PlainActor string | Runtime 'a

record 'a actor_system =
  as_actors :: "(string \<times> 'a any_actor) list"
  as_name :: string
  as_cancelled :: bool

definition NewActorSystem :: "string \<Rightarrow> 'a actor_system" where
  "NewActorSystem name = \<lparr>as_actors = [], as_name = name, as_cancelled = False\<rparr>"

definition SpawnActor ::
    "('a, 'm) actor_ops \<Rightarrow> string option \<Rightarrow> 'a any_actor \<Rightarrow> 'a actor_system \<Rightarrow> 'a actor_system \<times> string option" where
  "SpawnActor ops onstart actor sys =
     (let i = (case actor of PlainActor n \<Rightarrow> n | Runtime a \<Rightarrow> ao_GetID ops a) in
      if i \<in> fst ` set (as_actors sys) then (sys, Some (''actor '' @ i @ '' already exists''))
      else case actor of
        PlainActor n \<Rightarrow> (sys, Some (''actor '' @ n @ '' does not implement RuntimeActor''))
      | Runtime a \<Rightarrow>
          (case ao_Start ops onstart a of
             (_, Some e) \<Rightarrow> (sys, Some e)
           | (a', None) \<Rightarrow> (sys\<lparr>as_actors := (i, Runtime a') # as_actors sys\<rparr>, None)))"

definition GetActor :: "string \<Rightarrow> 'a actor_system \<Rightarrow> 'a any_actor option" where
  "GetActor i sys = map_of (as_actors sys) i"

definition SystemTell ::
    "('a, 'm) actor_ops \<Rightarrow> string \<Rightarrow> 'm option \<Rightarrow> 'a actor_system \<Rightarrow> 'a actor_system \<times> string option" where
  "SystemTell ops i m sys =
     (case GetActor i sys of
        None \<Rightarrow> (sys, Some (''actor '' @ i @ '' not found''))
      | Some (PlainActor n) \<Rightarrow> (sys, Some (''actor '' @ i @ '' does not implement RuntimeActor''))
      | Some (Runtime a) \<Rightarrow>
          (case ao_Tell ops m a of (a', e) \<Rightarrow>
             (sys\<lparr>as_actors := AList.update i (Runtime a') (as_actors sys)\<rparr>, e)))"

text \<open>\<^verbatim>\<open>Shutdown\<close> stops the actors one by one; it returns only if each of them stops.\<close>

fun stop_all :: "('a, 'm) actor_ops \<Rightarrow> (string \<times> 'a any_actor) list \<Rightarrow> 'a any_actor list option" where
  "stop_all ops [] = Some []"
| "stop_all ops ((i, PlainActor n) # rest) = map_option (Cons (PlainActor n)) (stop_all ops rest)"
| "stop_all ops ((i, Runtime a) # rest) =
     (case ao_Stop ops a of
        None \<Rightarrow> None
      | Some (a', e) \<Rightarrow> map_option (Cons (Runtime a')) (stop_all ops rest))"

definition Shutdown :: "('a, 'm) actor_ops \<Rightarrow> 'a actor_system \<Rightarrow> ('a actor_system \<times> 'a any_actor list) option" where
  "Shutdown ops sys =
     map_option (\<lambda>stopped. (sys\<lparr>as_cancelled := True, as_actors := []\<rparr>, stopped)) (stop_all ops (as_actors sys))"

definition GetActorCount :: "'a actor_system \<Rightarrow> nat" where "GetActorCount sys = length (as_actors sys)"
definition ListActors :: "'a actor_system \<Rightarrow> string list" where "ListActors sys = map fst (as_actors sys)"

record system_stats =
  ss_TotalActors :: nat
  ss_TotalMailboxSize :: nat
  ss_TotalEnqueued :: u64
  ss_TotalProcessed :: u64
  ss_TotalFailed :: u64
  ss_TotalRejected :: u64
  ss_Actors :: "actor_stats list"

definition add_stats :: "('a, 'm) actor_ops \<Rightarrow> 'a any_actor \<Rightarrow> system_stats \<Rightarrow> system_stats" where
  "add_stats ops actor ss =
     (case actor of
        PlainActor _ \<Rightarrow> ss
      | Runtime a \<Rightarrow> (let s = ao_GetStats ops a in
          ss\<lparr>ss_TotalActors := ss_TotalActors ss + 1,
             ss_TotalMailboxSize := ss_TotalMailboxSize ss + st_MailboxSize s,
             ss_TotalEnqueued := ss_TotalEnqueued ss + st_Enqueued s,
             ss_TotalProcessed := ss_TotalProcessed ss + st_Processed s,
             ss_TotalFailed := ss_TotalFailed ss + st_Failed s,
             ss_TotalRejected := ss_TotalRejected ss + st_Rejected s,
             ss_Actors := ss_Actors ss @ [s]\<rparr>))"

definition SystemStats :: "('a, 'm) actor_ops \<Rightarrow> 'a actor_system \<Rightarrow> system_stats" where
  "SystemStats ops sys = fold (\<lambda>(i, actor). add_stats ops actor) (as_actors sys)
     \<lparr>ss_TotalActors = 0, ss_TotalMailboxSize = 0, ss_TotalEnqueued = 0, ss_TotalProcessed = 0,
      ss_TotalFailed = 0, ss_TotalRejected = 0, ss_Actors = []\<rparr>"

subsection \<open>What the system relies on\<close>

lemma set_update_subset: "set (AList.update k v al) \<subseteq> insert (k, v) (set al)"
  by (induction al) auto

locale runtime_actor =
  fixes ops :: "('a, 'm) actor_ops" and inv :: "'a \<Rightarrow> bool" and running :: "'a \<Rightarrow> bool"
  assumes start_law: "inv a \<Longrightarrow> ao_Start ops onstart a = (a', e) \<Longrightarrow>
      inv a' \<and> ao_GetID ops a' = ao_GetID ops a \<and> (e = None \<longrightarrow> running a')"
    and tell_law: "inv a \<Longrightarrow> ao_Tell ops m a = (a', e) \<Longrightarrow>
      inv a' \<and> ao_GetID ops a' = ao_GetID ops a \<and> (running a' \<longleftrightarrow> running a)"
    and stop_law: "inv a \<Longrightarrow> ao_Stop ops a = Some (a', e) \<Longrightarrow> inv a' \<and> \<not> running a'"
begin

definition entry_ok :: "string \<times> 'a any_actor \<Rightarrow> bool" where
  "entry_ok e \<longleftrightarrow> (\<exists>a. snd e = Runtime a \<and> ao_GetID ops a = fst e \<and> inv a \<and> running a)"

definition sys_ok :: "'a actor_system \<Rightarrow> bool" where
  "sys_ok sys \<longleftrightarrow> distinct (map fst (as_actors sys)) \<and> (\<forall>e \<in> set (as_actors sys). entry_ok e)"

lemma spawn_keeps:
  assumes "sys_ok sys" and "\<And>a. actor = Runtime a \<Longrightarrow> inv a"
  shows "sys_ok (fst (SpawnActor ops onstart actor sys))"
proof (cases actor)
  case (PlainActor n)
  with assms show ?thesis by (simp add: SpawnActor_def Let_def)
next
  case (Runtime a)
  obtain a' e where s: "ao_Start ops onstart a = (a', e)" by (cases "ao_Start ops onstart a")
  from start_law [OF assms(2) [OF Runtime] s] assms(1) Runtime s show ?thesis
    by (cases e) (auto simp: SpawnActor_def sys_ok_def entry_ok_def Let_def)
qed

lemma tell_keeps:
  assumes "sys_ok sys" shows "sys_ok (fst (SystemTell ops i m sys))"
proof (cases "GetActor i sys")
  case None
  with assms show ?thesis by (simp add: SystemTell_def)
next
  case (Some actor)
  then have "(i, actor) \<in> set (as_actors sys)" by (auto simp: GetActor_def dest: map_of_SomeD)
  with assms obtain a where a: "actor = Runtime a" "ao_GetID ops a = i" "inv a" "running a"
    by (auto simp: sys_ok_def entry_ok_def)
  obtain a' e where t: "ao_Tell ops m a = (a', e)" by (cases "ao_Tell ops m a")
  note law = tell_law [OF a(3) t]
  have "set (AList.update i (Runtime a') (as_actors sys)) \<subseteq> insert (i, Runtime a') (set (as_actors sys))"
    by (rule set_update_subset)
  moreover have "distinct (map fst (AList.update i (Runtime a') (as_actors sys)))"
    using assms by (simp add: sys_ok_def distinct_update)
  ultimately show ?thesis using assms law a t Some by (auto simp: SystemTell_def sys_ok_def entry_ok_def)
qed

lemma shutdown_stops:
  assumes "sys_ok sys" and "Shutdown ops sys = Some (sys', stopped)"
  shows "as_actors sys' = [] \<and> length stopped = length (as_actors sys) \<and>
         (\<forall>x \<in> set stopped. \<exists>a. x = Runtime a \<and> inv a \<and> \<not> running a)"
proof -
  have "stop_all ops xs = Some ys \<Longrightarrow> \<forall>e \<in> set xs. entry_ok e \<Longrightarrow>
      length ys = length xs \<and> (\<forall>x \<in> set ys. \<exists>a. x = Runtime a \<and> inv a \<and> \<not> running a)" for xs ys
  proof (induction xs arbitrary: ys)
    case Nil
    then show ?case by simp
  next
    case (Cons x xs)
    then obtain a where x: "x = (fst x, Runtime a)" and a: "inv a" by (cases x) (auto simp: entry_ok_def)
    obtain a' e zs where s: "ao_Stop ops a = Some (a', e)" "stop_all ops xs = Some zs" "ys = Runtime a' # zs"
      using Cons.prems(1) by (subst (asm) x) (auto split: option.splits)
    from Cons.IH [OF s(2)] Cons.prems(2) stop_law [OF a s(1)] s(3) show ?case by simp
  qed
  with assms show ?thesis by (auto simp: Shutdown_def sys_ok_def)
qed

end

definition base_ops :: "bool \<times> duration \<times> time \<Rightarrow> string option \<Rightarrow> ('m base_actor, 'm) actor_ops" where
  "base_ops outcome onstop = \<lparr>ao_GetID = ba_id, ao_Start = Start, ao_Stop = Stop outcome onstop,
     ao_Tell = Tell, ao_GetStats = GetStats\<rparr>"

lemma base_ops_id: "ao_GetID (base_ops outcome onstop) = ba_id"
  by (simp add: base_ops_def)

lemma quiet_keeps:
  "quiet a \<Longrightarrow> Start onstart a = (b, e) \<Longrightarrow> quiet b"
  "quiet a \<Longrightarrow> Tell m a = (b, e) \<Longrightarrow> quiet b"
  "quiet a \<Longrightarrow> Stop oc onstop a = Some (b, e) \<Longrightarrow> quiet b \<and> \<not> ba_running b"
proof -
  assume q: "quiet a"
  then have i: "actor_inv a" by (simp add: quiet_def)
  show "quiet b" if s: "Start onstart a = (b, e)"
    using actor_inv_steps [OF Start_steps [OF q s] i] q s
    by (auto simp: quiet_def Start_def actor_defs split: if_splits option.splits)
  show "quiet b" if s: "Tell m a = (b, e)"
    using actor_inv_steps [OF Tell_steps [OF q s] i] q s
    by (auto simp: quiet_def Tell_def actor_defs split: if_splits)
  show "quiet b \<and> \<not> ba_running b" if s: "Stop oc onstop a = Some (b, e)"
    using actor_inv_steps [OF Stop_steps [OF q s] i] q s
    by (auto simp: quiet_def Stop_def actor_defs split: if_splits loop_state.splits prod.splits)
qed

interpretation base: runtime_actor "base_ops outcome onstop" quiet ba_running
proof unfold_locales
  fix a a' :: "'m base_actor" and s e
  assume q: "quiet a" and r: "ao_Start (base_ops outcome onstop) s a = (a', e)"
  then have s: "Start s a = (a', e)" by (simp add: base_ops_def)
  with quiet_keeps(1) [OF q s] show "quiet a' \<and> ao_GetID (base_ops outcome onstop) a' = ao_GetID (base_ops outcome onstop) a \<and>
      (e = None \<longrightarrow> ba_running a')"
    by (auto simp: base_ops_def Start_def actor_defs split: if_splits option.splits)
next
  fix a a' :: "'m base_actor" and m e
  assume q: "quiet a" and r: "ao_Tell (base_ops outcome onstop) m a = (a', e)"
  then have s: "Tell m a = (a', e)" by (simp add: base_ops_def)
  with quiet_keeps(2) [OF q s] show "quiet a' \<and> ao_GetID (base_ops outcome onstop) a' = ao_GetID (base_ops outcome onstop) a \<and>
      (ba_running a' \<longleftrightarrow> ba_running a)"
    by (auto simp: base_ops_def Tell_def actor_defs split: if_splits)
next
  fix a a' :: "'m base_actor" and e
  assume "quiet a" and "ao_Stop (base_ops outcome onstop) a = Some (a', e)"
  then show "quiet a' \<and> \<not> ba_running a'" using quiet_keeps(3) [of a outcome onstop a' e] by (simp add: base_ops_def)
qed


subsection \<open>Properties\<close>


definition fresh_actor :: "nat base_actor" where
  "fresh_actor = (case NewBaseActor ''a'' ''t'' 2 of Ret a \<Rightarrow> a | Panic \<Rightarrow> undefined)"

lemma fresh_actor: "NewBaseActor ''a'' ''t'' 2 = Ret fresh_actor"
  by (simp add: fresh_actor_def NewBaseActor_def)

definition told_actor :: "nat base_actor" where
  "told_actor = fst (Tell (Some 9) (fst (Tell (Some 8) (start_loop fresh_actor))))"

lemma told_actor_steps: "actor_step\<^sup>*\<^sup>* fresh_actor told_actor"
proof -
  let ?s = "start_loop fresh_actor"
  have q0: "quiet fresh_actor" using actor_inv_new [OF fresh_actor]
    by (simp add: quiet_def fresh_actor_def NewBaseActor_def write_lock_free_def)
  have s: "Start None fresh_actor = (?s, None)" by (simp add: Start_def fresh_actor_def NewBaseActor_def)
  have q1: "quiet ?s" by (rule quiet_keeps(1) [OF q0 s])
  obtain b e where b: "Tell (Some 8) ?s = (b, e)" by (cases "Tell (Some 8) ?s")
  obtain c f where c: "Tell (Some 9) b = (c, f)" by (cases "Tell (Some 9) b")
  have "actor_step\<^sup>*\<^sup>* fresh_actor c"
    using Start_steps [OF q0 s] Tell_steps [OF q1 b] Tell_steps [OF quiet_keeps(2) [OF q1 b] c] by (meson rtranclp_trans)
  then show ?thesis by (simp add: told_actor_def b c)
qed

lemma told_actor_state:
  "ba_mailbox told_actor = [Some 8, Some 9]" "ba_loop told_actor = Idle" "ba_running told_actor"
  "write_lock_free told_actor" "g_recv told_actor = []" "ba_cap told_actor = 2"
  by (simp_all add: told_actor_def Tell_def fresh_actor_def NewBaseActor_def actor_defs)


text \<open>
  \<^verbatim>\<open>Stop\<close> joins the goroutine. In every reachable state in which the actor is not running and no
  \<^verbatim>\<open>Stop\<close> is waiting, the goroutine is gone and nobody is inside \<^verbatim>\<open>Tell\<close>; no step from there handles
  or accepts a message, and messages left in the mailbox stay for the next \<^verbatim>\<open>Start\<close>.
\<close>

theorem stop_joins_goroutine:
  assumes "NewBaseActor i ty n = Ret a0" and "actor_step\<^sup>*\<^sup>* a0 a"
    and "\<not> ba_running a" and "\<not> ba_stopping a"
  shows "ba_loop a = NoLoop \<and> ba_tellers a = [] \<and>
    (\<forall>b. actor_step a b \<longrightarrow> g_done b = g_done a \<and> g_recv b = g_recv a \<and> ba_mailbox b = ba_mailbox a)"
proof -
  have "ba_loop a = NoLoop" "ba_tellers a = []"
    using actor_inv_steps [OF assms(2) actor_inv_new [OF assms(1)]] assms(3,4) by (auto simp: actor_inv_def)
  then show ?thesis by (auto simp: actor_defs elim!: actor_stepE)
qed

theorem stop_joins_goroutine_witness:
  "\<exists>a. actor_step\<^sup>*\<^sup>* fresh_actor a \<and> ba_mailbox a = [Some 8, Some 9] \<and> ba_loop a = NoLoop"
proof -
  have q: "quiet told_actor"
    using actor_inv_steps [OF told_actor_steps actor_inv_new [OF fresh_actor]] by (simp add: quiet_def told_actor_state)
  obtain a where s: "Stop (True, 0, 0) None told_actor = Some (a, None)" "\<not> ba_running a" "\<not> ba_stopping a"
      "ba_mailbox a = [Some 8, Some 9]"
    by (auto simp: Stop_def told_actor_state begin_stop_def)
  have r: "actor_step\<^sup>*\<^sup>* fresh_actor a" using told_actor_steps Stop_steps [OF q s(1)] by (rule rtranclp_trans)
  from stop_joins_goroutine [OF fresh_actor r s(2,3)] r s(4) show ?thesis by blast
qed

text \<open>
  \<^verbatim>\<open>Stop\<close> can deadlock. If the handler of a message tells its own actor something after \<^verbatim>\<open>Stop\<close> has
  taken the lock, then \<^verbatim>\<open>Stop\<close> waits for the goroutine and the goroutine waits for the lock: the
  actor can make no step any more, so \<^verbatim>\<open>Stop\<close> never returns.
\<close>

theorem stop_self_tell_deadlock:
  assumes "NewBaseActor i ty n = Ret a0" and "actor_step\<^sup>*\<^sup>* a0 a"
    and "ba_stopping a" and "ba_loop a = SelfTell x m False"
  shows "\<not> actor_step a b"
proof -
  have "ba_tellers a = []" "\<not> ba_running a"
    using actor_inv_steps [OF assms(2) actor_inv_new [OF assms(1)]] assms(3) by (auto simp: actor_inv_def)
  with assms(3,4) show ?thesis by (auto simp: write_lock_free_def elim!: actor_stepE)
qed

theorem stop_self_tell_deadlock_witness:
  "\<exists>a. actor_step\<^sup>*\<^sup>* fresh_actor a \<and> ba_stopping a \<and> \<not> (\<exists>b. actor_step a b)"
proof -
  let ?b = "receive_message (Some 8) [Some 9] told_actor"
  let ?c = "begin_stop ?b"
  let ?d = "?c\<lparr>ba_loop := SelfTell 8 (Some 3) False\<rparr>"
  have "actor_step told_actor ?b" by (rule loop_receive) (simp_all add: told_actor_state)
  moreover have "actor_step ?b ?c"
    using told_actor_state(3,4) by (intro stop_begin) (simp_all add: receive_message_def write_lock_free_def)
  moreover have "actor_step ?c ?d" by (rule self_call) (simp add: begin_stop_def receive_message_def)
  ultimately have r: "actor_step\<^sup>*\<^sup>* fresh_actor ?d"
    using told_actor_steps by (meson rtranclp.rtrancl_into_rtrancl)
  have s: "ba_stopping ?d" "ba_loop ?d = SelfTell 8 (Some 3) False" by (simp_all add: begin_stop_def)
  from stop_self_tell_deadlock [OF fresh_actor r s] r s(1) show ?thesis by blast
qed

datatype 'm system_event = SpawnE "string option" "'m base_actor any_actor" | TellE string "'m option"

fun system_step ::
    "('m base_actor, 'm) actor_ops \<Rightarrow> 'm base_actor actor_system \<Rightarrow> 'm system_event \<Rightarrow> 'm base_actor actor_system" where
  "system_step ops sys (SpawnE onstart actor) = fst (SpawnActor ops onstart actor sys)"
| "system_step ops sys (TellE i m) = fst (SystemTell ops i m sys)"

text \<open>
  The actor system keeps only running actors. After any sequence of spawns of quiescent actors
  and sends, identifiers are unique and every registered actor runs under its own identifier; a send
  to an identifier that is not registered fails; and when \<^verbatim>\<open>Shutdown\<close> returns, every one of them has
  been stopped and the system is empty.
\<close>

theorem actor_system_sound:
  assumes "\<forall>onstart a. SpawnE onstart (Runtime a) \<in> set es \<longrightarrow> quiet a"
    and "foldl (system_step (base_ops outcome onstop)) (NewActorSystem name) es = sys"
  shows "distinct (ListActors sys) \<and>
    (\<forall>i \<in> set (ListActors sys). \<exists>a. GetActor i sys = Some (Runtime a) \<and> ba_id a = i \<and> ba_running a) \<and>
    (i \<notin> set (ListActors sys) \<longrightarrow>
      SystemTell (base_ops outcome onstop) i m sys = (sys, Some (''actor '' @ i @ '' not found''))) \<and>
    (\<forall>sys' stopped. Shutdown (base_ops outcome onstop) sys = Some (sys', stopped) \<longrightarrow>
      GetActorCount sys' = 0 \<and> length stopped = GetActorCount sys \<and>
      (\<forall>x \<in> set stopped. \<exists>a. x = Runtime a \<and> \<not> ba_running a \<and> ba_loop a = NoLoop))"
proof -
  have "base.sys_ok outcome onstop (foldl (system_step (base_ops outcome onstop)) s es)"
    if "base.sys_ok outcome onstop s" for s
    using that assms(1)
  proof (induction es arbitrary: s)
    case Nil
    then show ?case by simp
  next
    case (Cons e es)
    have "base.sys_ok outcome onstop (system_step (base_ops outcome onstop) s e)"
      using Cons.prems by (cases e) (auto intro!: base.spawn_keeps base.tell_keeps)
    with Cons show ?case by simp
  qed
  from this [of "NewActorSystem name"] assms(2) have ok: "base.sys_ok outcome onstop sys"
    by (simp add: NewActorSystem_def base.sys_ok_def)
  have "\<exists>a. GetActor i sys = Some (Runtime a) \<and> ba_id a = i \<and> ba_running a" if i: "i \<in> set (ListActors sys)" for i
  proof -
    from i obtain x where x: "(i, x) \<in> set (as_actors sys)" by (auto simp: ListActors_def)
    with ok obtain a where "x = Runtime a" "ba_id a = i" "ba_running a"
      by (auto simp: base.sys_ok_def base.entry_ok_def base_ops_id)
    with x ok show ?thesis by (auto simp: GetActor_def base.sys_ok_def)
  qed
  moreover have "i \<notin> set (ListActors sys) \<Longrightarrow> GetActor i sys = None"
    by (auto simp: GetActor_def ListActors_def map_of_eq_None_iff)
  moreover have "quiet a \<Longrightarrow> \<not> ba_running a \<Longrightarrow> ba_loop a = NoLoop" for a :: "'a base_actor"
    by (auto simp: quiet_def actor_inv_def write_lock_free_def)
  ultimately show ?thesis
    using ok base.shutdown_stops [OF ok]
    by (fastforce simp: ListActors_def base.sys_ok_def SystemTell_def GetActorCount_def)
qed

theorem actor_system_sound_witness:
  "\<exists>sys. foldl (system_step (base_ops (True, 0, 0) None)) (NewActorSystem ''s'')
       [SpawnE None (Runtime fresh_actor), TellE ''a'' (Some 4), SpawnE None (PlainActor ''p'')] = sys \<and>
     (\<exists>a. GetActor ''a'' sys = Some (Runtime a) \<and> ba_running a) \<and> GetActorCount sys = 1"
proof -
  let ?es = "[SpawnE None (Runtime fresh_actor), TellE ''a'' (Some 4), SpawnE None (PlainActor ''p'')]"
  have q: "\<forall>onstart a. SpawnE onstart (Runtime a) \<in> set ?es \<longrightarrow> quiet a"
    using actor_inv_new [OF fresh_actor] by (simp add: quiet_def fresh_actor_def NewBaseActor_def write_lock_free_def)
  obtain sys where s: "foldl (system_step (base_ops (True, 0, 0) None)) (NewActorSystem ''s'') ?es = sys" by simp
  have l: "ListActors sys = [''a'']" unfolding s [symmetric]
    by (simp add: SpawnActor_def SystemTell_def NewActorSystem_def base_ops_def Start_def Tell_def fresh_actor_def
      NewBaseActor_def GetActor_def ListActors_def actor_defs Let_def)
  have "GetActorCount sys = length (ListActors sys)" by (simp add: GetActorCount_def ListActors_def)
  then have n: "GetActorCount sys = 1" using l by simp
  have "\<exists>a. GetActor ''a'' sys = Some (Runtime a) \<and> ba_running a"
    using actor_system_sound [OF q s] l by (metis list.set_intros(1))
  with s n show ?thesis by blast
qed

end
