(* ===== verification/Gameplay.thy ===== *)
theory Gameplay
  imports GoStd "HOL-Library.Multiset" "HOL-Library.AList"
begin

text \<open>
  \<^verbatim>\<open>internal/gameplay/gameplay.go\<close>: rooms, the manager that routes actions to game modules, and the
  card game module. A module is the table of methods of the \<^verbatim>\<open>GameplayModule\<close> interface; the locale
  \<open>gameplay_modules\<close> is what the manager relies on from the modules registered with it. Maps are
  association lists with distinct keys, in an order nothing depends on.
\<close>

subsection \<open>Data\<close>

datatype GameState = GameStateWaiting | GameStateStarting | GameStateRunning | GameStatePaused | GameStateEnded

datatype PlayerStatus =
    PlayerStatusWaiting | PlayerStatusReady | PlayerStatusPlaying | PlayerStatusFinished | PlayerStatusDisconnected

record card =
  cd_ID :: int
  cd_Suit :: string
  cd_Value :: int
  cd_Name :: string

record card_game_data =
  cg_Deck :: "card list"
  cg_Hands :: "(u64 \<times> card list) list"
  cg_Board :: "card list"
  cg_Turn :: u64
  cg_Round :: int

text \<open>The dynamic values behind \<^verbatim>\<open>interface{}\<close>: the module's data, and what actions and events carry.\<close>

datatype 'v game_data = CardGameData card_game_data | OtherData 'v
datatype 'v payload = NilData | CardPayload card | ActionData 'v

record player =
  pl_UserID :: u64
  pl_Nickname :: string
  pl_Level :: int
  pl_Position :: int
  pl_Status :: PlayerStatus
  pl_Score :: int
  pl_JoinTime :: time

record 'v game_action =
  ga_Type :: string
  ga_PlayerID :: u64
  ga_Data :: 'v
  ga_Timestamp :: time

record 'v game_event =
  ge_Type :: string
  ge_PlayerID :: u64
  ge_Data :: "'v payload"
  ge_Timestamp :: time

record 'v game_result =
  gr_Success :: bool
  gr_Message :: string
  gr_Data :: "'v payload"
  gr_Events :: "'v game_event list"
  gr_NextState :: GameState

record room_config =
  rc_MaxPlayers :: int
  rc_MinPlayers :: int
  rc_RoomPassword :: string
  rc_AutoStart :: bool
  rc_TimeLimit :: duration

record 'v game_room =
  rm_ID :: u64
  rm_GameType :: string
  rm_Players :: "(u64 \<times> player) list"
  rm_State :: GameState
  rm_Config :: "room_config option"
  rm_StartTime :: time
  rm_EndTime :: time
  rm_GameData :: "'v game_data"
  rm_Events :: "'v game_event list"

record 'v game_module =
  mo_Name :: string
  mo_Version :: string
  mo_Initialize :: "string option"
  mo_CreateRoom :: "time \<Rightarrow> room_config option \<Rightarrow> string + 'v game_room"
  mo_ValidateAction :: "'v game_room \<Rightarrow> player \<Rightarrow> 'v game_action \<Rightarrow> string option outcome"
  mo_ProcessAction :: "time \<Rightarrow> 'v game_room \<Rightarrow> player \<Rightarrow> 'v game_action \<Rightarrow> 'v game_room \<times> (string + 'v game_result) outcome"

record 'v manager =
  gm_modules :: "(string \<times> 'v game_module) list"
  gm_rooms :: "(u64 \<times> 'v game_room) list"

definition NewGameplayManager :: "'v manager" where
  "NewGameplayManager = \<lparr>gm_modules = [], gm_rooms = []\<rparr>"

subsection \<open>Rooms\<close>

definition AddPlayer :: "time \<Rightarrow> player \<Rightarrow> 'v game_room \<Rightarrow> 'v game_room \<times> string option outcome" where
  "AddPlayer now p r =
     (case rm_Config r of
        None \<Rightarrow> (r, Panic)
      | Some cfg \<Rightarrow>
          if int (length (rm_Players r)) \<ge> rc_MaxPlayers cfg then (r, Ret (Some ''room is full''))
          else if map_of (rm_Players r) (pl_UserID p) \<noteq> None then (r, Ret (Some ''player already in room''))
          else (r\<lparr>rm_Players := (pl_UserID p, p\<lparr>pl_JoinTime := now, pl_Status := PlayerStatusWaiting\<rparr>) # rm_Players r\<rparr>,
                Ret None))"

definition RemovePlayer :: "time \<Rightarrow> u64 \<Rightarrow> 'v game_room \<Rightarrow> 'v game_room \<times> string option" where
  "RemovePlayer now uid r =
     (if map_of (rm_Players r) uid = None then (r, Some ''player not in room'')
      else (let r1 = r\<lparr>rm_Players := AList.delete uid (rm_Players r)\<rparr> in
            if rm_Players r1 = [] \<and> rm_State r1 \<noteq> GameStateEnded
            then (r1\<lparr>rm_State := GameStateEnded, rm_EndTime := now\<rparr>, None) else (r1, None)))"

definition GetPlayer :: "u64 \<Rightarrow> 'v game_room \<Rightarrow> player option" where
  "GetPlayer uid r = map_of (rm_Players r) uid"

definition SetState :: "time \<Rightarrow> GameState \<Rightarrow> 'v game_room \<Rightarrow> 'v game_room" where
  "SetState now st r =
     (let r1 = r\<lparr>rm_State := st\<rparr>;
          r2 = (if st = GameStateRunning \<and> rm_StartTime r1 = 0 then r1\<lparr>rm_StartTime := now\<rparr> else r1)
      in if st = GameStateEnded \<and> rm_EndTime r2 = 0 then r2\<lparr>rm_EndTime := now\<rparr> else r2)"

definition AddEvents :: "'v game_event list \<Rightarrow> 'v game_room \<Rightarrow> 'v game_room" where
  "AddEvents evs r = r\<lparr>rm_Events := rm_Events r @ evs\<rparr>"


subsection \<open>The manager\<close>

definition RegisterModule :: "'v game_module \<Rightarrow> 'v manager \<Rightarrow> 'v manager \<times> string option" where
  "RegisterModule m gm =
     (if map_of (gm_modules gm) (mo_Name m) \<noteq> None
      then (gm, Some (''module '' @ mo_Name m @ '' already registered''))
      else case mo_Initialize m of
        Some e \<Rightarrow> (gm, Some (''failed to initialize module '' @ mo_Name m @ '': '' @ e))
      | None \<Rightarrow> (gm\<lparr>gm_modules := (mo_Name m, m) # gm_modules gm\<rparr>, None))"

definition CreateRoom :: "time \<Rightarrow> string \<Rightarrow> room_config option \<Rightarrow> 'v manager \<Rightarrow> 'v manager \<times> (string + 'v game_room)" where
  "CreateRoom now gameType cfg gm =
     (case map_of (gm_modules gm) gameType of
        None \<Rightarrow> (gm, Inl (''game type '' @ gameType @ '' not found''))
      | Some m \<Rightarrow>
          (case mo_CreateRoom m now cfg of
             Inl e \<Rightarrow> (gm, Inl (''failed to create room: '' @ e))
           | Inr r \<Rightarrow> (gm\<lparr>gm_rooms := AList.update (rm_ID r) r (gm_rooms gm)\<rparr>, Inr r)))"

definition room_not_found :: "u64 \<Rightarrow> string" where
  "room_not_found i = ''room '' @ fmt_nat (unat i) @ '' not found''"

definition JoinRoom :: "time \<Rightarrow> u64 \<Rightarrow> player \<Rightarrow> 'v manager \<Rightarrow> 'v manager \<times> string option outcome" where
  "JoinRoom now i p gm =
     (case map_of (gm_rooms gm) i of
        None \<Rightarrow> (gm, Ret (Some (room_not_found i)))
      | Some r \<Rightarrow> (case AddPlayer now p r of
          (r', e) \<Rightarrow> (gm\<lparr>gm_rooms := AList.update i r' (gm_rooms gm)\<rparr>, e)))"

definition LeaveRoom :: "time \<Rightarrow> u64 \<Rightarrow> u64 \<Rightarrow> 'v manager \<Rightarrow> 'v manager \<times> string option" where
  "LeaveRoom now i uid gm =
     (case map_of (gm_rooms gm) i of
        None \<Rightarrow> (gm, Some (room_not_found i))
      | Some r \<Rightarrow> (case RemovePlayer now uid r of
          (r', e) \<Rightarrow> (gm\<lparr>gm_rooms := AList.update i r' (gm_rooms gm)\<rparr>, e)))"

definition GetRoom :: "u64 \<Rightarrow> 'v manager \<Rightarrow> 'v game_room option" where
  "GetRoom i gm = map_of (gm_rooms gm) i"

definition ProcessAction ::
    "time \<Rightarrow> u64 \<Rightarrow> 'v game_action \<Rightarrow> 'v manager \<Rightarrow> 'v manager \<times> (string + 'v game_result) outcome" where
  "ProcessAction now i action gm =
     (case map_of (gm_rooms gm) i of
        None \<Rightarrow> (gm, Ret (Inl (room_not_found i)))
      | Some room \<Rightarrow>
     (case map_of (gm_modules gm) (rm_GameType room) of
        None \<Rightarrow> (gm, Ret (Inl (''game module '' @ rm_GameType room @ '' not found'')))
      | Some m \<Rightarrow>
     (case GetPlayer (ga_PlayerID action) room of
        None \<Rightarrow> (gm, Ret (Inl (''player '' @ fmt_nat (unat (ga_PlayerID action)) @ '' not in room'')))
      | Some p \<Rightarrow>
     (case mo_ValidateAction m room p action of
        Panic \<Rightarrow> (gm, Panic)
      | Ret (Some e) \<Rightarrow> (gm, Ret (Inl (''invalid action: '' @ e)))
      | Ret None \<Rightarrow>
     (case mo_ProcessAction m now room p action of
        (room1, Panic) \<Rightarrow> (gm\<lparr>gm_rooms := AList.update i room1 (gm_rooms gm)\<rparr>, Panic)
      | (room1, Ret (Inl e)) \<Rightarrow> (gm\<lparr>gm_rooms := AList.update i room1 (gm_rooms gm)\<rparr>, Ret (Inl (''failed to process action: '' @ e)))
      | (room1, Ret (Inr result)) \<Rightarrow>
          (let room2 = (if gr_NextState result \<noteq> rm_State room1 then SetState now (gr_NextState result) room1 else room1);
               room3 = AddEvents (gr_Events result) room2
           in (gm\<lparr>gm_rooms := AList.update i room3 (gm_rooms gm)\<rparr>, Ret (Inr result))))))))"

subsection \<open>The card game module\<close>

definition suits :: "string list" where
  "suits = [''spades'', ''hearts'', ''diamonds'', ''clubs'']"

fun deck_from :: "int \<Rightarrow> (string \<times> int) list \<Rightarrow> card list" where
  "deck_from i [] = []"
| "deck_from i ((s, v) # rest) =
     \<lparr>cd_ID = i, cd_Suit = s, cd_Value = v, cd_Name = s @ ''_'' @ fmt_int v\<rparr> # deck_from (i + 1) rest"

definition generateDeck :: "card list" where
  "generateDeck = deck_from 1 [(s, v). s \<leftarrow> suits, v \<leftarrow> map int [1 ..< 14]]"

definition card_name :: string where "card_name = ''card_game''"

definition card_CreateRoom :: "time \<Rightarrow> room_config option \<Rightarrow> string + 'v game_room" where
  "card_CreateRoom now cfg = Inr \<lparr>rm_ID = of_int (time_unix_nano now), rm_GameType = card_name, rm_Players = [],
     rm_State = GameStateWaiting, rm_Config = cfg, rm_StartTime = 0, rm_EndTime = 0,
     rm_GameData = CardGameData \<lparr>cg_Deck = generateDeck, cg_Hands = [], cg_Board = [], cg_Turn = 0, cg_Round = 0\<rparr>,
     rm_Events = []\<rparr>"

definition validatePlayCard :: "'v game_room \<Rightarrow> player \<Rightarrow> string option" where
  "validatePlayCard r p =
     (if rm_State r \<noteq> GameStateRunning then Some ''game is not running''
      else if pl_Status p \<noteq> PlayerStatusPlaying then Some ''player is not in playing state'' else None)"

definition validateDrawCard :: "'v game_room \<Rightarrow> player \<Rightarrow> string option outcome" where
  "validateDrawCard r p =
     (if rm_State r \<noteq> GameStateRunning then Ret (Some ''game is not running'')
      else case rm_GameData r of
        OtherData _ \<Rightarrow> Panic
      | CardGameData g \<Rightarrow> Ret (if cg_Deck g = [] then Some ''deck is empty'' else None))"

definition card_ValidateAction :: "'v game_room \<Rightarrow> player \<Rightarrow> 'v game_action \<Rightarrow> string option outcome" where
  "card_ValidateAction r p a =
     (if ga_Type a = ''play_card'' then Ret (validatePlayCard r p)
      else if ga_Type a = ''draw_card'' then validateDrawCard r p
      else Ret (Some (''unknown action type: '' @ ga_Type a)))"

definition processPlayCard :: "time \<Rightarrow> player \<Rightarrow> 'v game_action \<Rightarrow> 'v game_result" where
  "processPlayCard now p a =
     \<lparr>gr_Success = True, gr_Message = ''Card played successfully'', gr_Data = NilData,
      gr_Events = [\<lparr>ge_Type = ''card_played'', ge_PlayerID = pl_UserID p, ge_Data = ActionData (ga_Data a), ge_Timestamp = now\<rparr>],
      gr_NextState = GameStateWaiting\<rparr>"

definition add_to_hand :: "u64 \<Rightarrow> card \<Rightarrow> (u64 \<times> card list) list \<Rightarrow> (u64 \<times> card list) list" where
  "add_to_hand uid c hands =
     AList.update uid ((case map_of hands uid of None \<Rightarrow> [] | Some h \<Rightarrow> h) @ [c]) hands"

definition processDrawCard :: "time \<Rightarrow> 'v game_room \<Rightarrow> player \<Rightarrow> 'v game_room \<times> (string + 'v game_result) outcome" where
  "processDrawCard now r p =
     (case rm_GameData r of
        OtherData _ \<Rightarrow> (r, Panic)
      | CardGameData g \<Rightarrow>
          (case cg_Deck g of
             c # rest \<Rightarrow>
               (r\<lparr>rm_GameData := CardGameData (g\<lparr>cg_Deck := rest, cg_Hands := add_to_hand (pl_UserID p) c (cg_Hands g)\<rparr>)\<rparr>,
                Ret (Inr \<lparr>gr_Success = True, gr_Message = ''Card drawn successfully'', gr_Data = CardPayload c,
                  gr_Events = [\<lparr>ge_Type = ''card_drawn'', ge_PlayerID = pl_UserID p, ge_Data = CardPayload c, ge_Timestamp = now\<rparr>],
                  gr_NextState = GameStateWaiting\<rparr>))
           | [] \<Rightarrow>
               (r, Ret (Inr \<lparr>gr_Success = False, gr_Message = ''No cards left in deck'', gr_Data = NilData,
                  gr_Events = [], gr_NextState = GameStateWaiting\<rparr>))))"

definition card_ProcessAction ::
    "time \<Rightarrow> 'v game_room \<Rightarrow> player \<Rightarrow> 'v game_action \<Rightarrow> 'v game_room \<times> (string + 'v game_result) outcome" where
  "card_ProcessAction now r p a =
     (if ga_Type a = ''play_card'' then (r, Ret (Inr (processPlayCard now p a)))
      else if ga_Type a = ''draw_card'' then processDrawCard now r p
      else (r, Ret (Inl (''unknown action type: '' @ ga_Type a))))"

definition NewCardGameModule :: "'v game_module" where
  "NewCardGameModule = \<lparr>mo_Name = card_name, mo_Version = ''1.0.0'', mo_Initialize = None,
     mo_CreateRoom = card_CreateRoom, mo_ValidateAction = card_ValidateAction, mo_ProcessAction = card_ProcessAction\<rparr>"

subsection \<open>What the manager relies on\<close>

locale gameplay_modules =
  fixes mods :: "'v game_module set" and data_ok :: "string \<Rightarrow> 'v game_data \<Rightarrow> bool"
  assumes create_law: "m \<in> mods \<Longrightarrow> mo_CreateRoom m now cfg = Inr r \<Longrightarrow>
      rm_Players r = [] \<and> rm_Config r = cfg \<and> rm_GameType r = mo_Name m \<and> data_ok (mo_Name m) (rm_GameData r)"
    and validate_law: "m \<in> mods \<Longrightarrow> data_ok (mo_Name m) (rm_GameData r) \<Longrightarrow> mo_ValidateAction m r p a \<noteq> Panic"
    and process_law: "m \<in> mods \<Longrightarrow> data_ok (mo_Name m) (rm_GameData r) \<Longrightarrow> mo_ProcessAction m now r p a = (r', res) \<Longrightarrow>
      res \<noteq> Panic \<and> data_ok (mo_Name m) (rm_GameData r') \<and> rm_Players r' = rm_Players r \<and>
      rm_Config r' = rm_Config r \<and> rm_GameType r' = rm_GameType r"
begin

definition room_ok :: "'v game_room \<Rightarrow> bool" where
  "room_ok r \<longleftrightarrow> distinct (map fst (rm_Players r)) \<and> (\<forall>(k, p) \<in> set (rm_Players r). pl_UserID p = k) \<and>
     (rm_Config r = None \<longrightarrow> rm_Players r = []) \<and>
     (\<forall>cfg. rm_Config r = Some cfg \<longrightarrow> int (length (rm_Players r)) \<le> max 0 (rc_MaxPlayers cfg)) \<and>
     data_ok (rm_GameType r) (rm_GameData r)"

definition mgr_ok :: "'v manager \<Rightarrow> bool" where
  "mgr_ok gm \<longleftrightarrow> (\<forall>(n, m) \<in> set (gm_modules gm). m \<in> mods \<and> mo_Name m = n) \<and>
     (\<forall>(i, r) \<in> set (gm_rooms gm). room_ok r)"

lemma module_lookup: "mgr_ok gm \<Longrightarrow> map_of (gm_modules gm) n = Some m \<Longrightarrow> m \<in> mods \<and> mo_Name m = n"
  by (auto simp: mgr_ok_def dest: map_of_SomeD)

lemma room_lookup: "mgr_ok gm \<Longrightarrow> map_of (gm_rooms gm) i = Some r \<Longrightarrow> room_ok r"
  by (auto simp: mgr_ok_def dest: map_of_SomeD)

lemma store_room:
  "mgr_ok gm \<Longrightarrow> room_ok r \<Longrightarrow> mgr_ok (gm\<lparr>gm_rooms := AList.update i r (gm_rooms gm)\<rparr>)"
proof -
  have "set (AList.update i r xs) \<subseteq> insert (i, r) (set xs)" for xs by (induction xs) auto
  then show "mgr_ok gm \<Longrightarrow> room_ok r \<Longrightarrow> mgr_ok (gm\<lparr>gm_rooms := AList.update i r (gm_rooms gm)\<rparr>)"
    by (fastforce simp: mgr_ok_def)
qed

lemma add_player_ok: "room_ok r \<Longrightarrow> room_ok (fst (AddPlayer now p r))"
  by (auto simp: room_ok_def AddPlayer_def map_of_eq_None_iff split: option.splits if_splits)

lemma remove_player_ok:
  assumes "room_ok r" shows "room_ok (fst (RemovePlayer now uid r))"
proof -
  have d: "length (AList.delete uid xs) \<le> length xs" "set (AList.delete uid xs) \<subseteq> set xs" for xs :: "(u64 \<times> player) list"
    by (auto simp: AList.delete_eq)
  have "int (length (AList.delete uid (rm_Players r))) \<le> int (length (rm_Players r))" using d(1) by simp
  with assms d(2) [of "rm_Players r"] show ?thesis
    by (fastforce simp: room_ok_def RemovePlayer_def Let_def AList.distinct_delete split: option.splits)
qed

lemma set_state_ok: "room_ok r \<Longrightarrow> room_ok (SetState now st r)"
  by (simp add: room_ok_def SetState_def Let_def)

lemma add_events_ok: "room_ok r \<Longrightarrow> room_ok (AddEvents evs r)"
  by (simp add: room_ok_def AddEvents_def)

lemma create_keeps: "mgr_ok gm \<Longrightarrow> mgr_ok (fst (CreateRoom now ty cfg gm))"
proof -
  assume ok: "mgr_ok gm"
  have "mo_CreateRoom m now cfg = Inr r \<Longrightarrow> map_of (gm_modules gm) ty = Some m \<Longrightarrow> room_ok r" for m r
    using module_lookup [OF ok, of ty m] create_law [of m now cfg r] by (auto simp: room_ok_def split: option.splits)
  with ok show ?thesis by (auto simp: CreateRoom_def intro: store_room split: option.splits sum.splits)
qed

lemma join_keeps: "mgr_ok gm \<Longrightarrow> mgr_ok (fst (JoinRoom now i p gm))"
  using add_player_ok [of _ now p]
  by (fastforce simp: JoinRoom_def intro: store_room dest: room_lookup split: option.splits prod.splits)

lemma leave_keeps: "mgr_ok gm \<Longrightarrow> mgr_ok (fst (LeaveRoom now i uid gm))"
  using remove_player_ok [of _ now uid]
  by (fastforce simp: LeaveRoom_def intro: store_room dest: room_lookup split: option.splits prod.splits)

lemma process_keeps:
  assumes "mgr_ok gm"
  shows "mgr_ok (fst (ProcessAction now i a gm)) \<and> snd (ProcessAction now i a gm) \<noteq> Panic"
proof (cases "\<exists>r m p. map_of (gm_rooms gm) i = Some r \<and> map_of (gm_modules gm) (rm_GameType r) = Some m \<and>
    GetPlayer (ga_PlayerID a) r = Some p")
  case False
  with assms show ?thesis by (auto simp: ProcessAction_def split: option.splits)
next
  case True
  then obtain r m p where l: "map_of (gm_rooms gm) i = Some r" "map_of (gm_modules gm) (rm_GameType r) = Some m"
    "GetPlayer (ga_PlayerID a) r = Some p" by blast
  note r = room_lookup [OF assms l(1)] and m = module_lookup [OF assms l(2)]
  then have d: "data_ok (mo_Name m) (rm_GameData r)" by (simp add: room_ok_def)
  obtain r1 res where p: "mo_ProcessAction m now r p a = (r1, res)" by (cases "mo_ProcessAction m now r p a")
  note law = process_law [OF _ d p]
  have r1: "room_ok r1" using law m r by (simp add: room_ok_def)
  have "room_ok (AddEvents evs (SetState now st r1))" "room_ok (AddEvents evs r1)" for evs st
    using r1 set_state_ok add_events_ok by simp_all
  with law m l p r1 validate_law [OF _ d, of p a] assms show ?thesis
    by (auto simp: ProcessAction_def Let_def intro!: store_room split: outcome.splits option.splits sum.splits)
qed

end

subsection \<open>The card game keeps the contract\<close>

text \<open>All cards of the game: those in the deck, in hands and on the board.\<close>

definition all_cards :: "card_game_data \<Rightarrow> card multiset" where
  "all_cards g = mset (cg_Deck g) + mset (concat (map snd (cg_Hands g))) + mset (cg_Board g)"

definition card_data_ok :: "string \<Rightarrow> 'v game_data \<Rightarrow> bool" where
  "card_data_ok n d \<longleftrightarrow> n = card_name \<and> (case d of CardGameData g \<Rightarrow> all_cards g = mset generateDeck | OtherData _ \<Rightarrow> False)"

lemma add_to_hand_cards:
  "mset (concat (map snd (add_to_hand uid c hands))) = add_mset c (mset (concat (map snd hands)))"
  unfolding add_to_hand_def by (induction hands) (auto split: option.splits)

interpretation cards: gameplay_modules "{NewCardGameModule :: 'v game_module}" card_data_ok
proof unfold_locales
  fix m :: "'v game_module" and now cfg r
  assume "m \<in> {NewCardGameModule}" "mo_CreateRoom m now cfg = Inr r"
  then show "rm_Players r = [] \<and> rm_Config r = cfg \<and> rm_GameType r = mo_Name m \<and> card_data_ok (mo_Name m) (rm_GameData r)"
    by (auto simp: NewCardGameModule_def card_CreateRoom_def card_data_ok_def all_cards_def)
next
  fix m :: "'v game_module" and r :: "'v game_room" and p a
  assume "m \<in> {NewCardGameModule}" "card_data_ok (mo_Name m) (rm_GameData r)"
  then show "mo_ValidateAction m r p a \<noteq> Panic"
    by (auto simp: NewCardGameModule_def card_ValidateAction_def validateDrawCard_def card_data_ok_def split: game_data.splits)
next
  fix m :: "'v game_module" and now r p a r' res
  assume "m \<in> {NewCardGameModule}" "card_data_ok (mo_Name m) (rm_GameData r)" "mo_ProcessAction m now r p a = (r', res)"
  then show "res \<noteq> Panic \<and> card_data_ok (mo_Name m) (rm_GameData r') \<and> rm_Players r' = rm_Players r \<and>
      rm_Config r' = rm_Config r \<and> rm_GameType r' = rm_GameType r"
    by (auto simp: NewCardGameModule_def card_ProcessAction_def processDrawCard_def card_data_ok_def all_cards_def
        add_to_hand_cards split: game_data.splits list.splits if_splits)
qed

subsection \<open>Properties\<close>






definition card_manager :: "'v manager" where
  "card_manager = fst (RegisterModule NewCardGameModule NewGameplayManager)"






definition demo_config :: room_config where
  "demo_config = \<lparr>rc_MaxPlayers = 2, rc_MinPlayers = 1, rc_RoomPassword = [], rc_AutoStart = False, rc_TimeLimit = 0\<rparr>"

definition demo_player :: "u64 \<Rightarrow> player" where
  "demo_player uid = \<lparr>pl_UserID = uid, pl_Nickname = [], pl_Level = 1, pl_Position = 0,
     pl_Status = PlayerStatusReady, pl_Score = 0, pl_JoinTime = 0\<rparr>"



text \<open>
  Every successful action ends play. The card module leaves \<^verbatim>\<open>NextState\<close> at its zero value
  \<^verbatim>\<open>GameStateWaiting\<close>, so after one action has succeeded in a room the room is back in the waiting
  state and the next action of any player there is refused as ``game is not running''.
\<close>

theorem action_stops_game:
  assumes "ProcessAction now i a gm = (gm', Ret (Inr res))"
    and "map_of (gm_rooms gm) i = Some r" and "rm_GameType r = card_name"
    and "map_of (gm_modules gm) card_name = Some NewCardGameModule"
  shows "\<exists>r'. map_of (gm_rooms gm') i = Some r' \<and> rm_State r' = GameStateWaiting \<and>
    (GetPlayer (ga_PlayerID b) r' \<noteq> None \<longrightarrow> ga_Type b \<in> {''play_card'', ''draw_card''} \<longrightarrow>
      ProcessAction later i b gm' = (gm', Ret (Inl ''invalid action: game is not running'')))"
proof -
  obtain p where p: "GetPlayer (ga_PlayerID a) r = Some p"
    using assms by (auto simp: ProcessAction_def split: option.splits)
  obtain r1 where r1: "card_ProcessAction now r p a = (r1, Ret (Inr res))"
    "gm' = gm\<lparr>gm_rooms := AList.update i (AddEvents (gr_Events res)
       (if gr_NextState res \<noteq> rm_State r1 then SetState now (gr_NextState res) r1 else r1)) (gm_rooms gm)\<rparr>"
    using assms p by (auto simp: ProcessAction_def NewCardGameModule_def Let_def
      split: option.splits outcome.splits prod.splits sum.splits)
  have w: "gr_NextState res = GameStateWaiting" "rm_GameType r1 = card_name"
    using r1(1) assms(3) by (auto simp: card_ProcessAction_def processPlayCard_def processDrawCard_def
      split: if_splits game_data.splits list.splits)
  let ?r = "AddEvents (gr_Events res) (if gr_NextState res \<noteq> rm_State r1 then SetState now (gr_NextState res) r1 else r1)"
  have "map_of (gm_rooms gm') i = Some ?r" by (simp add: r1(2) AList.update_conv')
  moreover have "rm_State ?r = GameStateWaiting" "rm_GameType ?r = card_name"
    using w by (simp_all add: AddEvents_def SetState_def)
  moreover have "gm_modules gm' = gm_modules gm" by (simp add: r1(2))
  ultimately show ?thesis using assms(4)
    by (auto simp: ProcessAction_def NewCardGameModule_def card_ValidateAction_def validatePlayCard_def validateDrawCard_def)
qed

definition demo_action :: "string \<Rightarrow> nat game_action" where
  "demo_action ty = \<lparr>ga_Type = ty, ga_PlayerID = 7, ga_Data = 1, ga_Timestamp = 0\<rparr>"

definition demo_running :: "nat manager" where
  "demo_running = card_manager\<lparr>gm_rooms := [(4, \<lparr>rm_ID = 4, rm_GameType = card_name,
     rm_Players = [(7, (demo_player 7)\<lparr>pl_Status := PlayerStatusPlaying\<rparr>)], rm_State = GameStateRunning,
     rm_Config = Some demo_config, rm_StartTime = 1, rm_EndTime = 0,
     rm_GameData = CardGameData \<lparr>cg_Deck = generateDeck, cg_Hands = [], cg_Board = [], cg_Turn = 0, cg_Round = 0\<rparr>,
     rm_Events = []\<rparr>)]\<rparr>"

theorem action_stops_game_witness:
  "\<exists>gm' res r'. ProcessAction 5 4 (demo_action ''play_card'') demo_running = (gm', Ret (Inr res)) \<and>
     map_of (gm_rooms gm') 4 = Some r' \<and> rm_State r' = GameStateWaiting"
proof -
  obtain gm' res where p: "ProcessAction 5 4 (demo_action ''play_card'') demo_running = (gm', Ret (Inr res))"
    by (simp add: ProcessAction_def demo_running_def demo_action_def demo_player_def card_manager_def RegisterModule_def
      NewGameplayManager_def NewCardGameModule_def GetPlayer_def card_ValidateAction_def validatePlayCard_def
      card_ProcessAction_def Let_def)
  obtain r where r: "map_of (gm_rooms demo_running) 4 = Some r" "rm_GameType r = card_name"
    by (simp add: demo_running_def)
  have m: "map_of (gm_modules demo_running) card_name = Some NewCardGameModule"
    by (simp add: demo_running_def card_manager_def RegisterModule_def NewGameplayManager_def NewCardGameModule_def)
  from action_stops_game [OF p r m] p show ?thesis by blast
qed

end
