(* ===== verification/Security.thy ===== *)
theory Security
  imports GoStd Complex_Main
begin

text \<open>
  \<^verbatim>\<open>internal/security/security.go\<close>: construction of the manager from its secrets, sessions, the
  fixed-window rate limiter, the IP blacklist, the anti-cheat detectors and input sanitising. The
  AEAD cipher, the HMAC and \<^verbatim>\<open>net.ParseIP\<close> are parameters; tokens drawn from \<^verbatim>\<open>crypto/rand\<close> are
  arguments. Scores are rationals: the code compares quotients of small integers.
\<close>

subsection \<open>Secrets\<close>

type_synonym env = "string \<Rightarrow> string"

definition readSecretEnv :: "env \<Rightarrow> string \<Rightarrow> nat \<Rightarrow> string + byte list" where
  "readSecretEnv e name minLength =
     (if name = [] then Inl ''environment variable name is empty''
      else if e name = [] then Inl (name @ '' is required'')
      else if length (string_bytes (e name)) < minLength
      then Inl (name @ '' must be at least '' @ fmt_nat minLength @ '' bytes'')
      else Inr (string_bytes (e name)))"

record session =
  se_UserID :: u64
  se_Token :: string
  se_CreatedAt :: time
  se_LastActivity :: time
  se_IP :: string
  se_UserAgent :: string
  se_Permissions :: "string list"

record auth_manager =
  am_sessions :: "string \<Rightarrow> session option"
  am_tokenSecret :: "byte list"
  am_tokenExpiry :: duration

record rate_limiter =
  rl_requests :: int
  rl_window :: duration
  rl_lastReset :: time
  rl_maxRequests :: int

type_synonym limiters = "string \<Rightarrow> rate_limiter option"
type_synonym blacklist = "string \<Rightarrow> time option"

record suspicious_action =
  sa_Type :: string
  sa_Timestamp :: time
  sa_Score :: rat

record cheat_pattern =
  cp_Name :: string
  cp_Detector :: "time \<Rightarrow> suspicious_action list \<Rightarrow> rat"
  cp_Threshold :: rat

record anti_cheat =
  ac_actions :: "u64 \<Rightarrow> suspicious_action list"
  ac_patterns :: "cheat_pattern list"

record security_manager =
  sm_key :: "byte list"
  sm_auth :: auth_manager
  sm_rateLimit :: limiters
  sm_blacklist :: blacklist
  sm_antiCheat :: anti_cheat
  sm_jwtSecret :: "byte list"

definition NewAuthManager :: "byte list \<Rightarrow> duration \<Rightarrow> auth_manager" where
  "NewAuthManager tokenSecret tokenExpiry =
     \<lparr>am_sessions = Map.empty, am_tokenSecret = tokenSecret, am_tokenExpiry = tokenExpiry\<rparr>"

subsection \<open>Anti-cheat\<close>

definition high_frequency :: "time \<Rightarrow> suspicious_action list \<Rightarrow> rat" where
  "high_frequency now acts =
     (if length acts < 10 then 0
      else (let recentActions = length (filter (\<lambda>a. now - sa_Timestamp a \<le> 10 * second) acts)
            in if recentActions > 50 then 1 else of_nat recentActions / 50))"

fun intervals :: "suspicious_action list \<Rightarrow> duration list" where
  "intervals (a # b # rest) = (sa_Timestamp b - sa_Timestamp a) # intervals (b # rest)"
| "intervals _ = []"

text \<open>
  The sums are of \<^verbatim>\<open>time.Duration\<close>, a signed 64-bit count of nanoseconds, and so is the product
  \<^verbatim>\<open>diff * diff\<close>, which wraps around.
\<close>

definition duration_sum :: "duration list \<Rightarrow> duration" where
  "duration_sum = foldl (\<lambda>s i. wrap_i64 (s + i)) 0"

definition timing_variance :: "duration list \<Rightarrow> duration" where
  "timing_variance is =
     (let n = int (length is); avg = go_quot (duration_sum is) n
      in foldl (\<lambda>v i. let d = wrap_i64 (i - avg) in wrap_i64 (v + go_quot (wrap_i64 (d * d)) n)) 0 is)"

definition timing_anomaly :: "time \<Rightarrow> suspicious_action list \<Rightarrow> rat" where
  "timing_anomaly now acts =
     (if length acts < 5 then 0
      else (let is = intervals acts
            in if is \<noteq> [] \<and> timing_variance is < millisecond * 10 then 9 / 10 else 0))"

definition NewAntiCheatSystem :: anti_cheat where
  "NewAntiCheatSystem = \<lparr>ac_actions = (\<lambda>_. []),
     ac_patterns = [\<lparr>cp_Name = ''high_frequency'', cp_Detector = high_frequency, cp_Threshold = 8 / 10\<rparr>,
                    \<lparr>cp_Name = ''timing_anomaly'', cp_Detector = timing_anomaly, cp_Threshold = 7 / 10\<rparr>]\<rparr>"

definition hour :: duration where "hour = 3600 * second"

definition RecordAction :: "time \<Rightarrow> u64 \<Rightarrow> string \<Rightarrow> rat \<Rightarrow> anti_cheat \<Rightarrow> anti_cheat" where
  "RecordAction now uid ty score ac =
     (let acts = ac_actions ac uid @ [\<lparr>sa_Type = ty, sa_Timestamp = now, sa_Score = score\<rparr>]
      in ac\<lparr>ac_actions := (ac_actions ac)(uid := filter (\<lambda>a. sa_Timestamp a > now - hour) acts)\<rparr>)"

definition CheckCheat :: "time \<Rightarrow> u64 \<Rightarrow> anti_cheat \<Rightarrow> bool \<times> string list" where
  "CheckCheat now uid ac =
     (let acts = ac_actions ac uid in
      if acts = [] then (False, [])
      else (let found = map cp_Name (filter (\<lambda>p. cp_Detector p now acts \<ge> cp_Threshold p) (ac_patterns ac))
            in (found \<noteq> [], found)))"

subsection \<open>Construction\<close>

definition NewSecurityManagerWithSecrets :: "byte list \<Rightarrow> byte list \<Rightarrow> string + security_manager" where
  \<comment> \<open>\<^verbatim>\<open>aes.NewCipher\<close> accepts every 32-byte key and \<^verbatim>\<open>cipher.NewGCM\<close> every AES block cipher\<close>
  "NewSecurityManagerWithSecrets key jwtSecret =
     (if length key \<noteq> 32 then Inl ''encryption key must be 32 bytes''
      else if length jwtSecret < 32 then Inl ''jwt secret must be at least 32 bytes''
      else Inr \<lparr>sm_key = key, sm_auth = NewAuthManager jwtSecret (24 * hour), sm_rateLimit = Map.empty,
                sm_blacklist = Map.empty, sm_antiCheat = NewAntiCheatSystem, sm_jwtSecret = jwtSecret\<rparr>)"

definition NewSecurityManagerFromEnv :: "env \<Rightarrow> string \<Rightarrow> string \<Rightarrow> string + security_manager" where
  "NewSecurityManagerFromEnv e encryptionKeyEnv jwtSecretEnv =
     (case readSecretEnv e encryptionKeyEnv 32 of
        Inl x \<Rightarrow> Inl (''encryption key: '' @ x)
      | Inr key \<Rightarrow>
          (case readSecretEnv e jwtSecretEnv 32 of
             Inl x \<Rightarrow> Inl (''jwt secret: '' @ x)
           | Inr jwt \<Rightarrow> NewSecurityManagerWithSecrets key jwt))"

subsection \<open>Encryption and signatures\<close>

text \<open>The AEAD cipher with its key fixed: \<^verbatim>\<open>Seal\<close> and \<^verbatim>\<open>Open\<close> on a nonce, and the nonce size.\<close>

record aead =
  ae_NonceSize :: nat
  ae_Seal :: "byte list \<Rightarrow> byte list \<Rightarrow> byte list"
  ae_Open :: "byte list \<Rightarrow> byte list \<Rightarrow> byte list option"

definition Encrypt :: "aead \<Rightarrow> byte list \<Rightarrow> byte list \<Rightarrow> byte list" where
  "Encrypt g nonce plaintext = nonce @ ae_Seal g nonce plaintext"

definition Decrypt :: "aead \<Rightarrow> byte list \<Rightarrow> string + byte list" where
  "Decrypt g ciphertext =
     (if length ciphertext < ae_NonceSize g then Inl ''ciphertext too short''
      else case ae_Open g (take (ae_NonceSize g) ciphertext) (drop (ae_NonceSize g) ciphertext) of
        None \<Rightarrow> Inl ''cipher: message authentication failed''
      | Some p \<Rightarrow> Inr p)"

definition GenerateSignature :: "(byte list \<Rightarrow> byte list \<Rightarrow> byte list) \<Rightarrow> byte list \<Rightarrow> security_manager \<Rightarrow> string" where
  "GenerateSignature hmac data sm = hex_encode (hmac (sm_jwtSecret sm) data)"

definition VerifySignature ::
    "(byte list \<Rightarrow> byte list \<Rightarrow> byte list) \<Rightarrow> byte list \<Rightarrow> string \<Rightarrow> security_manager \<Rightarrow> bool" where
  "VerifySignature hmac data signature sm \<longleftrightarrow> signature = GenerateSignature hmac data sm"

subsection \<open>Sessions\<close>

definition CreateSession ::
    "time \<Rightarrow> byte list \<Rightarrow> u64 \<Rightarrow> string \<Rightarrow> string \<Rightarrow> string list \<Rightarrow> auth_manager \<Rightarrow> auth_manager \<times> session" where
  "CreateSession now rnd uid ip agent perms am =
     (let tok = hex_encode rnd;
          s = \<lparr>se_UserID = uid, se_Token = tok, se_CreatedAt = now, se_LastActivity = now, se_IP = ip,
               se_UserAgent = agent, se_Permissions = perms\<rparr>
      in (am\<lparr>am_sessions := (am_sessions am)(tok \<mapsto> s)\<rparr>, s))"

definition InvalidateSession :: "string \<Rightarrow> auth_manager \<Rightarrow> auth_manager" where
  "InvalidateSession tok am = am\<lparr>am_sessions := (am_sessions am)(tok := None)\<rparr>"

definition ValidateSession :: "time \<Rightarrow> string \<Rightarrow> auth_manager \<Rightarrow> auth_manager \<times> (string + session)" where
  "ValidateSession now tok am =
     (case am_sessions am tok of
        None \<Rightarrow> (am, Inl ''session not found'')
      | Some s \<Rightarrow>
          if now - se_LastActivity s > am_tokenExpiry am then (InvalidateSession tok am, Inl ''session expired'')
          else (let s' = s\<lparr>se_LastActivity := now\<rparr>
                in (am\<lparr>am_sessions := (am_sessions am)(tok \<mapsto> s')\<rparr>, Inr s')))"

subsection \<open>Rate limits and the blacklist\<close>

definition CheckLimit :: "string \<Rightarrow> int \<Rightarrow> duration \<Rightarrow> time \<Rightarrow> limiters \<Rightarrow> limiters \<times> bool" where
  "CheckLimit key maxRequests window now m =
     (let l0 = (case m key of
                  None \<Rightarrow> \<lparr>rl_requests = 0, rl_window = window, rl_lastReset = now, rl_maxRequests = maxRequests\<rparr>
                | Some l \<Rightarrow> l);
          l1 = (if now - rl_lastReset l0 > rl_window l0 then l0\<lparr>rl_requests := 0, rl_lastReset := now\<rparr> else l0)
      in if rl_requests l1 \<ge> rl_maxRequests l1 then (m(key \<mapsto> l1), False)
         else (m(key \<mapsto> l1\<lparr>rl_requests := rl_requests l1 + 1\<rparr>), True))"

definition IsBlocked :: "time \<Rightarrow> string \<Rightarrow> blacklist \<Rightarrow> blacklist \<times> bool" where
  "IsBlocked now ip bl =
     (case bl ip of
        None \<Rightarrow> (bl, False)
      | Some blockTime \<Rightarrow> if now - blockTime > 24 * hour then (bl(ip := None), False) else (bl, True))"

definition BlockIP :: "time \<Rightarrow> string \<Rightarrow> duration \<Rightarrow> blacklist \<Rightarrow> blacklist" where
  "BlockIP now ip d bl = bl(ip \<mapsto> now + d)"

definition UnblockIP :: "string \<Rightarrow> blacklist \<Rightarrow> blacklist" where
  "UnblockIP ip bl = bl(ip := None)"

definition CheckIPSecurity :: "(string \<Rightarrow> byte list option) \<Rightarrow> time \<Rightarrow> string \<Rightarrow> blacklist \<Rightarrow> blacklist \<times> string option" where
  "CheckIPSecurity parseIP now ip bl =
     (case IsBlocked now ip bl of
        (bl', True) \<Rightarrow> (bl', Some ''IP is blocked'')
      | (bl', False) \<Rightarrow> (bl', if parseIP ip = None then Some ''invalid IP address'' else None))"

subsection \<open>Sanitising\<close>

text \<open>\<^verbatim>\<open>strings.ReplaceAll\<close> with an empty replacement: non-overlapping, from the left.\<close>

function remove_all :: "string \<Rightarrow> string \<Rightarrow> string" where
  "remove_all old s =
     (if s = [] then []
      else if old \<noteq> [] \<and> has_prefix s old then remove_all old (drop (length old) s)
      else hd s # remove_all old (tl s))"
  by pat_completeness auto
termination
  by (relation "measure (\<lambda>(old, s). length s)") (auto simp: has_prefix_def)

declare remove_all.simps [simp del]

definition upper_char :: "char \<Rightarrow> char" where
  "upper_char c = (let n = of_char c :: nat in if 97 \<le> n \<and> n \<le> 122 then char_of (n - 32) else c)"

definition is_space :: "char \<Rightarrow> bool" where
  "is_space c \<longleftrightarrow> (of_char c :: nat) \<in> {9, 10, 11, 12, 13, 32}"

definition trim_space :: "string \<Rightarrow> string" where
  "trim_space s = rev (dropWhile is_space (rev (dropWhile is_space s)))"

definition dangerous :: "string list" where
  "dangerous = [''<script'', ''</script>'', ''javascript:'', ''onload='', ''onerror='',
     ''<iframe'', ''</iframe>'', ''eval('', ''alert('', ''confirm('']"

definition SanitizeInput :: "string \<Rightarrow> string" where
  "SanitizeInput input =
     trim_space (foldl (\<lambda>s d. remove_all (map upper_char d) (remove_all d s)) input dangerous)"

subsection \<open>The rate limiter over a run of calls\<close>

text \<open>
  How many of the calls for \<open>k\<close> made in the interval from \<open>a\<close> to \<open>b\<close> are allowed. A call is its
  key, the two limits passed, and its time.
\<close>

type_synonym limit_call = "string \<times> int \<times> duration \<times> time"

fun allowed_in :: "time \<Rightarrow> time \<Rightarrow> string \<Rightarrow> limiters \<Rightarrow> limit_call list \<Rightarrow> nat" where
  "allowed_in a b k m [] = 0"
| "allowed_in a b k m ((k', mx, w, t) # cs) =
     (case CheckLimit k' mx w t m of
        (m', ok) \<Rightarrow> (if ok \<and> k' = k \<and> a \<le> t \<and> t \<le> b then 1 else 0) + allowed_in a b k m' cs)"

fun call_time :: "limit_call \<Rightarrow> time" where "call_time (k, mx, w, t) = t"
fun call_for :: "string \<Rightarrow> int \<Rightarrow> duration \<Rightarrow> limit_call \<Rightarrow> bool" where
  "call_for k mx w (k', mx', w', t) \<longleftrightarrow> (k' = k \<longrightarrow> mx' = mx \<and> w' = w)"

text \<open>The same for the one limiter that the calls for \<open>k\<close> share.\<close>

definition limiter_step :: "time \<Rightarrow> rate_limiter \<Rightarrow> rate_limiter \<times> bool" where
  "limiter_step t l =
     (let l1 = (if t - rl_lastReset l > rl_window l then l\<lparr>rl_requests := 0, rl_lastReset := t\<rparr> else l)
      in if rl_requests l1 \<ge> rl_maxRequests l1 then (l1, False) else (l1\<lparr>rl_requests := rl_requests l1 + 1\<rparr>, True))"

definition fresh_limiter :: "int \<Rightarrow> duration \<Rightarrow> time \<Rightarrow> rate_limiter" where
  "fresh_limiter mx w t = \<lparr>rl_requests = 0, rl_window = w, rl_lastReset = t, rl_maxRequests = mx\<rparr>"

lemma CheckLimit_step:
  "CheckLimit k mx w t m =
     (case limiter_step t (case m k of None \<Rightarrow> fresh_limiter mx w t | Some l \<Rightarrow> l) of (l', ok) \<Rightarrow> (m(k \<mapsto> l'), ok))"
  by (auto simp: CheckLimit_def limiter_step_def fresh_limiter_def Let_def split: option.splits)

fun limiter_count :: "time \<Rightarrow> time \<Rightarrow> rate_limiter \<Rightarrow> time list \<Rightarrow> nat" where
  "limiter_count a b l [] = 0"
| "limiter_count a b l (t # ts) =
     (case limiter_step t l of (l', ok) \<Rightarrow> (if ok \<and> a \<le> t \<and> t \<le> b then 1 else 0) + limiter_count a b l' ts)"

lemma allowed_in_own:
  "m k = Some l \<Longrightarrow> allowed_in a b k m cs = limiter_count a b l (map call_time (filter (\<lambda>c. fst c = k) cs))"
proof (induction cs arbitrary: m l)
  case Nil
  then show ?case by simp
next
  case (Cons c cs)
  obtain k' mx w t where c: "c = (k', mx, w, t)" by (cases c)
  with Cons show ?case by (cases "k' = k") (auto simp: CheckLimit_step split: prod.splits)
qed

lemma allowed_in_fresh:
  "m k = None \<Longrightarrow> \<forall>c \<in> set cs. call_for k mx w c \<Longrightarrow>
   allowed_in a b k m cs =
     (case map call_time (filter (\<lambda>c. fst c = k) cs) of [] \<Rightarrow> 0 | t # ts \<Rightarrow> limiter_count a b (fresh_limiter mx w t) (t # ts))"
proof (induction cs arbitrary: m)
  case Nil
  then show ?case by simp
next
  case (Cons c cs)
  obtain k' mx' w' t where c: "c = (k', mx', w', t)" by (cases c)
  show ?case
  proof (cases "k' = k")
    case True
    with c Cons.prems have "allowed_in a b k m (c # cs) = allowed_in a b k (m(k \<mapsto> fresh_limiter mx w t)) (c # cs)"
      by (auto simp: CheckLimit_step split: prod.splits)
    then show ?thesis using allowed_in_own [of "m(k \<mapsto> fresh_limiter mx w t)" k _ a b "c # cs"] c True
      by (simp del: allowed_in.simps limiter_count.simps)
  next
    case False
    with c Cons show ?thesis by (auto simp: CheckLimit_step split: prod.splits)
  qed
qed

definition limiter_ok :: "int \<Rightarrow> duration \<Rightarrow> rate_limiter \<Rightarrow> bool" where
  "limiter_ok mx w l \<longleftrightarrow> rl_maxRequests l = mx \<and> rl_window l = w \<and> 0 \<le> rl_requests l \<and> rl_requests l \<le> max 0 mx"

lemma limiter_step_ok:
  assumes "limiter_ok mx w l" and "limiter_step t l = (l', ok)"
  shows "limiter_ok mx w l' \<and>
    (if t - rl_lastReset l > w then rl_lastReset l' = t \<and> rl_requests l' = (if ok then 1 else 0)
     else rl_lastReset l' = rl_lastReset l \<and> rl_requests l' = rl_requests l + (if ok then 1 else 0))"
  using assms by (auto simp: limiter_step_def limiter_ok_def Let_def split: if_splits)

lemma limiter_count_late: "\<forall>t \<in> set ts. t > b \<Longrightarrow> limiter_count a b l ts = 0"
  by (induction ts arbitrary: l) (auto split: prod.splits)

text \<open>While the window lasts, only what is left of it is allowed.\<close>

lemma limiter_count_window:
  assumes "limiter_ok mx w l" and "b - rl_lastReset l \<le> w" and "sorted ts"
  shows "int (limiter_count a b l ts) \<le> max 0 mx - rl_requests l"
  using assms
proof (induction ts arbitrary: l)
  case Nil
  then show ?case by (simp add: limiter_ok_def)
next
  case (Cons t ts)
  obtain l' ok where s: "limiter_step t l = (l', ok)" by (cases "limiter_step t l")
  note upd = limiter_step_ok [OF Cons.prems(1) s]
  show ?case
  proof (cases "t - rl_lastReset l > w")
    case True
    then have "\<forall>u \<in> set (t # ts). u > b" using Cons.prems(2,3) by auto
    then show ?thesis using limiter_count_late [of "t # ts" b a l] Cons.prems(1) by (simp add: limiter_ok_def)
  next
    case False
    have "int (limiter_count a b l' ts) \<le> max 0 mx - rl_requests l'"
      using upd False Cons.prems(2,3) by (intro Cons.IH) auto
    with upd s False show ?thesis by (cases ok) auto
  qed
qed

text \<open>An interval no longer than a window meets at most two windows.\<close>

lemma limiter_count_after:
  assumes "limiter_ok mx w l" and "b - a \<le> w" and "sorted ts" and "\<forall>t \<in> set ts. a \<le> t"
  shows "int (limiter_count a b l ts) \<le> 2 * max 0 mx - rl_requests l"
  using assms
proof (induction ts arbitrary: l)
  case Nil
  then show ?case by (simp add: limiter_ok_def)
next
  case (Cons t ts)
  obtain l' ok where s: "limiter_step t l = (l', ok)" by (cases "limiter_step t l")
  note upd = limiter_step_ok [OF Cons.prems(1) s]
  show ?case
  proof (cases "t - rl_lastReset l > w")
    case True
    have "int (limiter_count a b l' ts) \<le> max 0 mx - rl_requests l'"
      using upd True Cons.prems by (intro limiter_count_window [of _ w]) auto
    with upd s True Cons.prems(1) show ?thesis by (auto simp: limiter_ok_def)
  next
    case False
    have "int (limiter_count a b l' ts) \<le> 2 * max 0 mx - rl_requests l'"
      using upd Cons.prems by (intro Cons.IH) auto
    with upd s False show ?thesis by (cases ok) auto
  qed
qed

lemma limiter_count_interval:
  assumes "limiter_ok mx w l" and "b - a \<le> w" and "sorted ts"
  shows "int (limiter_count a b l ts) \<le> 2 * max 0 mx"
  using assms
proof (induction ts arbitrary: l)
  case Nil
  then show ?case by simp
next
  case (Cons t ts)
  show ?case
  proof (cases "a \<le> t")
    case True
    then have "\<forall>u \<in> set (t # ts). a \<le> u" using Cons.prems(3) by auto
    from limiter_count_after [OF Cons.prems this] Cons.prems(1) show ?thesis by (simp add: limiter_ok_def)
  next
    case False
    obtain l' ok where s: "limiter_step t l = (l', ok)" by (cases "limiter_step t l")
    with limiter_step_ok [OF Cons.prems(1) s] Cons.IH [of l'] Cons.prems False show ?thesis by simp
  qed
qed

subsection \<open>Properties\<close>

text \<open>
  C27: The rate limiter bounds every burst. If all calls for a key pass the same limits and the
  clock does not go back, then from the start at most \<open>2 * maxRequests\<close> of its calls are allowed in any
  interval as long as the window, whatever calls for other keys come between.
\<close>

theorem rate_limit_burst:
  assumes "\<forall>c \<in> set cs. call_for k mx w c" and "sorted (map call_time cs)" and "0 \<le> w"
  shows "int (allowed_in a (a + w) k Map.empty cs) \<le> 2 * max 0 mx"
proof -
  let ?ts = "map call_time (filter (\<lambda>c. fst c = k) cs)"
  have srt: "sorted ?ts" using assms(2) by (simp add: sorted_wrt_map sorted_wrt_filter)
  show ?thesis
  proof (cases ?ts)
    case Nil
    then show ?thesis using allowed_in_fresh [OF _ assms(1), of Map.empty a "a + w"] by simp
  next
    case (Cons t ts)
    have "limiter_ok mx w (fresh_limiter mx w t)" by (simp add: limiter_ok_def fresh_limiter_def)
    from limiter_count_interval [OF this, of "a + w" a "t # ts"] srt Cons
    show ?thesis using allowed_in_fresh [OF _ assms(1), of Map.empty a "a + w"] by simp
  qed
qed

text \<open>The witness meets the bound: two requests at the end of one window and two in the next.\<close>

theorem rate_limit_burst_witness:
  "int (allowed_in 9 19 ''k'' Map.empty
     [(''k'', 2, 10, 0), (''j'', 1, 5, 3), (''k'', 2, 10, 9), (''k'', 2, 10, 11), (''k'', 2, 10, 12), (''k'', 2, 10, 19)]) \<le> 4 \<and>
   allowed_in 9 19 ''k'' Map.empty
     [(''k'', 2, 10, 0), (''j'', 1, 5, 3), (''k'', 2, 10, 9), (''k'', 2, 10, 11), (''k'', 2, 10, 12), (''k'', 2, 10, 19)] = 3"
proof -
  let ?cs = "[(''k'', 2, 10, 0), (''j'', 1, 5, 3), (''k'', 2, 10, 9), (''k'', 2, 10, 11), (''k'', 2, 10, 12), (''k'', 2, 10, 19)] :: limit_call list"
  have "allowed_in 9 19 ''k'' Map.empty ?cs = 3"
    by (simp add: CheckLimit_def Let_def)
  moreover have "int (allowed_in 9 (9 + 10) ''k'' Map.empty ?cs) \<le> 2 * max 0 2"
    by (rule rate_limit_burst) simp_all
  ultimately show ?thesis by simp
qed

text \<open>
  A blocked address stays blocked a day too long. \<^verbatim>\<open>BlockIP\<close> stores the end of the block, but
  \<^verbatim>\<open>IsBlocked\<close> treats it as its start: the address counts as blocked until 24 hours after the end of
  the requested duration, and is refused by \<^verbatim>\<open>CheckIPSecurity\<close> for as long.
\<close>

theorem block_outlasts_duration:
  "(snd (IsBlocked now ip (BlockIP t ip d bl)) \<longleftrightarrow> now \<le> t + d + 24 * hour) \<and>
   snd (CheckIPSecurity parse now ip (BlockIP t ip d bl)) =
     (if now \<le> t + d + 24 * hour then Some ''IP is blocked''
      else if parse ip = None then Some ''invalid IP address'' else None) \<and>
   (\<not> snd (IsBlocked now ip (UnblockIP ip bl)))"
  by (auto simp: IsBlocked_def BlockIP_def UnblockIP_def CheckIPSecurity_def)

text \<open>
  The sessions: a token whose validations are listed by their times.
\<close>

fun validations :: "string \<Rightarrow> auth_manager \<Rightarrow> time list \<Rightarrow> bool list" where
  "validations tok am [] = []"
| "validations tok am (t # ts) =
     (case ValidateSession t tok am of
        (am', Inl _) \<Rightarrow> False # validations tok am' ts
      | (am', Inr _) \<Rightarrow> True # validations tok am' ts)"

fun alive_chain :: "duration \<Rightarrow> time \<Rightarrow> time list \<Rightarrow> bool list" where
  "alive_chain e prev [] = []"
| "alive_chain e prev (t # ts) =
     (if t - prev > e then replicate (Suc (length ts)) False else True # alive_chain e t ts)"

lemma validations_dead: "am_sessions am tok = None \<Longrightarrow> validations tok am ts = replicate (length ts) False"
  by (induction ts) (auto simp: ValidateSession_def)

lemma validations_alive:
  "am_sessions am tok = Some s \<Longrightarrow> validations tok am ts = alive_chain (am_tokenExpiry am) (se_LastActivity s) ts"
proof (induction ts arbitrary: am s)
  case Nil
  then show ?case by simp
next
  case (Cons t ts)
  let ?live = "am\<lparr>am_sessions := (am_sessions am)(tok \<mapsto> s\<lparr>se_LastActivity := t\<rparr>)\<rparr>"
  show ?case
  proof (cases "t - se_LastActivity s > am_tokenExpiry am")
    case True
    have "validations tok (InvalidateSession tok am) ts = replicate (length ts) False"
      by (rule validations_dead) (simp add: InvalidateSession_def)
    with True Cons.prems show ?thesis by (simp add: ValidateSession_def)
  next
    case False
    have "validations tok ?live ts = alive_chain (am_tokenExpiry ?live) (se_LastActivity (s\<lparr>se_LastActivity := t\<rparr>)) ts"
      by (rule Cons.IH) simp
    with False Cons.prems show ?thesis by (simp add: ValidateSession_def Let_def)
  qed
qed

text \<open>
  Sessions expire by inactivity, once and for all. A session just created is accepted exactly as
  long as each validation comes no later than \<^verbatim>\<open>tokenExpiry\<close> after the previous one (the creation, for
  the first); from the first longer gap on every validation is refused, and one explicit
  invalidation has the same effect.
\<close>

theorem session_sliding_expiry:
  "validations (hex_encode rnd) (fst (CreateSession now rnd uid ip agent perms am)) ts =
     alive_chain (am_tokenExpiry am) now ts \<and>
   validations tok (InvalidateSession tok am) ts = replicate (length ts) False \<and>
   (let s = snd (CreateSession now rnd uid ip agent perms am)
    in se_UserID s = uid \<and> se_Permissions s = perms \<and> se_Token s = hex_encode rnd)"
  using validations_alive [of "fst (CreateSession now rnd uid ip agent perms am)" "hex_encode rnd"]
    validations_dead [of "InvalidateSession tok am" tok ts]
  by (simp add: CreateSession_def InvalidateSession_def Let_def)

text \<open>
  The frequency detector fires at 40 actions. With the patterns of \<^verbatim>\<open>NewAntiCheatSystem\<close>, a user
  is reported for \<^verbatim>\<open>high_frequency\<close> exactly when at least 40 of the recorded actions are at most ten
  seconds old.
\<close>

theorem frequency_threshold:
  "''high_frequency'' \<in> set (snd (CheckCheat now uid (NewAntiCheatSystem\<lparr>ac_actions := acts\<rparr>))) \<longleftrightarrow>
     40 \<le> length (filter (\<lambda>a. now - sa_Timestamp a \<le> 10 * second) (acts uid))"
proof -
  let ?n = "length (filter (\<lambda>a. now - sa_Timestamp a \<le> 10 * second) (acts uid))"
  have le: "?n \<le> length (acts uid)" by simp
  have "(of_nat ?n :: rat) / 50 \<ge> 8 / 10 \<longleftrightarrow> (of_nat 40 :: rat) \<le> of_nat ?n" by (simp add: field_simps)
  then have r: "(of_nat ?n :: rat) / 50 \<ge> 8 / 10 \<longleftrightarrow> 40 \<le> ?n" by (simp only: of_nat_le_iff)
  define n where "n = ?n"
  have hf: "high_frequency now (acts uid) \<ge> 8 / 10 \<longleftrightarrow> 40 \<le> ?n"
    using r le unfolding high_frequency_def Let_def n_def [symmetric] by auto
  show ?thesis
  proof (cases "acts uid = []")
    case True
    then show ?thesis by (simp add: CheckCheat_def Let_def)
  next
    case False
    with hf show ?thesis by (auto simp: CheckCheat_def NewAntiCheatSystem_def Let_def)
  qed
qed

text \<open>
  The regularity detector misfires. The square of a deviation of more than about three seconds
  does not fit into a 64-bit duration, so a user acting after 1, 1, 2 and 6 seconds, hardly a regular
  rhythm, is reported for a timing anomaly.
\<close>

definition acts_at :: "time list \<Rightarrow> suspicious_action list" where
  "acts_at ts = map (\<lambda>t. \<lparr>sa_Type = ''move'', sa_Timestamp = t * second, sa_Score = 0\<rparr>) ts"

theorem timing_overflow_misfires:
  "CheckCheat (10 * second) uid (NewAntiCheatSystem\<lparr>ac_actions := (\<lambda>_. acts_at [0, 1, 2, 4, 10])\<rparr>) =
     (True, [''timing_anomaly''])"
proof -
  have "intervals (acts_at [0, 1, 2, 4, 10]) = [1000000000, 1000000000, 2000000000, 6000000000]"
    by (simp add: acts_at_def second_def)
  moreover have "timing_variance [1000000000, 1000000000, 2000000000, 6000000000] = -361686018427387904"
    by code_simp
  ultimately have "timing_anomaly (10 * second) (acts_at [0, 1, 2, 4, 10]) = 9 / 10"
    by (simp add: timing_anomaly_def millisecond_def Let_def acts_at_def second_def)
  then show ?thesis by (simp add: CheckCheat_def NewAntiCheatSystem_def Let_def high_frequency_def acts_at_def)
qed

lemma remove_all_fits:
  assumes "length s \<le> length old" and "s \<noteq> old"
  shows "remove_all old s = s"
  using assms
proof (induction s rule: length_induct)
  case (1 s)
  show ?case
  proof (cases s)
    case Nil
    then show ?thesis by (simp add: remove_all.simps)
  next
    case (Cons c cs)
    have "\<not> has_prefix s old" using 1(2,3) by (auto simp: has_prefix_def)
    moreover have "remove_all old cs = cs" using 1 Cons by auto
    ultimately show ?thesis using Cons by (subst remove_all.simps) simp
  qed
qed

lemma remove_all_absent: "old \<noteq> [] \<Longrightarrow> hd old \<notin> set s \<Longrightarrow> remove_all old s = s"
proof (induction s)
  case Nil
  then show ?case by (simp add: remove_all.simps)
next
  case (Cons c cs)
  then have "\<not> has_prefix (c # cs) old" by (cases old) (auto simp: has_prefix_def)
  with Cons show ?case by (subst remove_all.simps) simp
qed

text \<open>
  Sanitising is not safe against nesting or mixed case. Removing a forbidden word can create one,
  so the opening tag is intact in the output, and a tag written in mixed case is never removed.
\<close>

theorem sanitize_reassembles:
  "SanitizeInput ''<scr<scriptipt'' = ''<script'' \<and> SanitizeInput ''<Script'' = ''<Script''"
proof -
  have first: "remove_all ''<script'' ''<scr<scriptipt'' = ''<script''"
    by (simp add: remove_all.simps has_prefix_def)
  have up: "map upper_char ''<script'' = ''<SCRIPT''" "map upper_char ''</script>'' = ''</SCRIPT>''"
    "map upper_char ''javascript:'' = ''JAVASCRIPT:''" "map upper_char ''onload='' = ''ONLOAD=''"
    "map upper_char ''onerror='' = ''ONERROR=''" "map upper_char ''<iframe'' = ''<IFRAME''"
    "map upper_char ''</iframe>'' = ''</IFRAME>''" "map upper_char ''eval('' = ''EVAL(''"
    "map upper_char ''alert('' = ''ALERT(''" "map upper_char ''confirm('' = ''CONFIRM(''"
    by code_simp+
  have trim: "trim_space ''<script'' = ''<script''" "trim_space ''<Script'' = ''<Script''" by code_simp+
  show ?thesis
    unfolding SanitizeInput_def dangerous_def foldl.simps first up
    by (simp add: remove_all_fits remove_all_absent trim)
qed

text \<open>Pruning after every record loses nothing of the last hour.\<close>

fun record_all :: "u64 \<Rightarrow> (time \<times> string \<times> rat) list \<Rightarrow> anti_cheat \<Rightarrow> anti_cheat" where
  "record_all uid [] ac = ac"
| "record_all uid ((t, ty, sc) # rs) ac = record_all uid rs (RecordAction t uid ty sc ac)"

lemma record_effect:
  "ac_actions (RecordAction t uid ty sc ac) uid = filter (\<lambda>a. sa_Timestamp a > t - hour)
     (ac_actions ac uid @ [\<lparr>sa_Type = ty, sa_Timestamp = t, sa_Score = sc\<rparr>])"
  by (simp add: RecordAction_def Let_def)

lemma record_all_snoc: "record_all uid (rs @ [(t, ty, sc)]) ac = RecordAction t uid ty sc (record_all uid rs ac)"
  by (induction rs arbitrary: ac) auto

text \<open>
  The record of a user is exactly its last hour. After any sequence of recorded actions with
  non-decreasing times, the actions kept for the user are all those younger than one hour at the
  time of the last one, in order, although older ones were dropped at every step.
\<close>

theorem record_keeps_last_hour:
  assumes "sorted (map fst (rs @ [(t, ty, sc)]))"
  shows "ac_actions (record_all uid (rs @ [(t, ty, sc)]) NewAntiCheatSystem) uid =
    filter (\<lambda>a. sa_Timestamp a > t - hour)
      (map (\<lambda>(t, ty, sc). \<lparr>sa_Type = ty, sa_Timestamp = t, sa_Score = sc\<rparr>) (rs @ [(t, ty, sc)]))"
  using assms
proof (induction rs arbitrary: t ty sc rule: rev_induct)
  case Nil
  then show ?case by (simp add: RecordAction_def NewAntiCheatSystem_def Let_def)
next
  case (snoc r rs)
  obtain t' ty' sc' where r: "r = (t', ty', sc')" by (cases r)
  have le: "t' \<le> t" "sorted (map fst (rs @ [(t', ty', sc')]))"
    using snoc.prems by (simp_all add: r sorted_append)
  have f: "filter (\<lambda>a. sa_Timestamp a > t - hour) (filter (\<lambda>a. sa_Timestamp a > t' - hour) xs) =
      filter (\<lambda>a. sa_Timestamp a > t - hour) xs" for xs
    using le(1) by (induction xs) auto
  let ?rs = "rs @ [(t', ty', sc')]" and ?mk = "\<lambda>(t, ty, sc). \<lparr>sa_Type = ty, sa_Timestamp = t, sa_Score = sc\<rparr>"
  have "ac_actions (record_all uid (?rs @ [(t, ty, sc)]) NewAntiCheatSystem) uid =
      filter (\<lambda>a. sa_Timestamp a > t - hour)
        (ac_actions (record_all uid ?rs NewAntiCheatSystem) uid @ [?mk (t, ty, sc)])"
    by (simp only: record_all_snoc [of uid ?rs] record_effect prod.case)
  also have "\<dots> = filter (\<lambda>a. sa_Timestamp a > t - hour) (map ?mk ?rs @ [?mk (t, ty, sc)])"
    by (simp only: snoc.IH [OF le(2)] filter_append f)
  finally show ?case by (simp add: r)
qed

theorem record_keeps_last_hour_witness:
  "map sa_Timestamp (ac_actions (record_all 7 ([(0, ''a'', 1), (5 * second, ''b'', 1)] @ [(3602 * second, ''c'', 1)])
     NewAntiCheatSystem) 7) = [5 * second, 3602 * second]"
  using record_keeps_last_hour [of "[(0, ''a'', 1), (5 * second, ''b'', 1)]" "3602 * second" "''c''" 1 7]
  by (simp add: hour_def second_def)

end
