(* ===== verification/CardPlugin.thy ===== *)
theory CardPlugin
  imports GoStd "HOL-Library.Multiset"
begin

text \<open>
  \<^verbatim>\<open>plugins/game_logic.go\<close>: the rules of the two-player card game loaded as a plugin. A game state is
  passed and returned; pointers into its slices are indices. Index expressions out of range panic.
\<close>

subsection \<open>Data\<close>

record card =
  cd_ID :: int
  cd_Name :: string
  cd_Cost :: int
  cd_Attack :: int
  cd_Health :: int
  cd_CardType :: string
  cd_Rarity :: string
  cd_Effect :: string

record player_state =
  ps_PlayerID :: u64
  ps_Health :: int
  ps_Mana :: int
  ps_MaxMana :: int
  ps_HandCards :: "card list"
  ps_DeckSize :: int

record game_state =
  gs_CurrentPlayer :: int
  gs_Turn :: int
  gs_Phase :: string
  gs_PlayerStates :: "player_state list"
  gs_Board :: "card list"
  gs_GameLog :: "string list"

record play_card_action =
  pa_CardID :: int
  pa_Position :: int
  pa_Target :: int


definition zero_card :: card where
  "zero_card = \<lparr>cd_ID = 0, cd_Name = [], cd_Cost = 0, cd_Attack = 0, cd_Health = 0, cd_CardType = [], cd_Rarity = [], cd_Effect = []\<rparr>"

definition player_name :: "u64 \<Rightarrow> string" where "player_name uid = ''Player '' @ fmt_nat (unat uid)"

definition set_player :: "int \<Rightarrow> (player_state \<Rightarrow> player_state) \<Rightarrow> game_state \<Rightarrow> game_state outcome" where
  "set_player i f gs =
     (case at_index (gs_PlayerStates gs) i of
        Panic \<Rightarrow> Panic
      | Ret p \<Rightarrow> Ret (gs\<lparr>gs_PlayerStates := (gs_PlayerStates gs)[nat i := f p]\<rparr>))"

definition add_log :: "string list \<Rightarrow> game_state \<Rightarrow> game_state" where
  "add_log evs gs = gs\<lparr>gs_GameLog := gs_GameLog gs @ evs\<rparr>"

subsection \<open>Playing a card\<close>

definition ValidatePlayCard :: "game_state \<Rightarrow> u64 \<Rightarrow> play_card_action \<Rightarrow> string option outcome" where
  "ValidatePlayCard gs uid a =
     (case at_index (gs_PlayerStates gs) (gs_CurrentPlayer gs) of
        Panic \<Rightarrow> Panic
      | Ret p \<Rightarrow>
          if ps_PlayerID p \<noteq> uid then Ret (Some ''not your turn'')
          else if gs_Phase gs \<noteq> ''main'' then Ret (Some (''cannot play cards in '' @ gs_Phase gs @ '' phase''))
          else (case List.find (\<lambda>c. cd_ID c = pa_CardID a) (ps_HandCards p) of
                  None \<Rightarrow> Ret (Some ''card not found in hand'')
                | Some c \<Rightarrow>
                    if ps_Mana p < cd_Cost c
                    then Ret (Some (''insufficient mana: have '' @ fmt_int (ps_Mana p) @ '', need '' @ fmt_int (cd_Cost c)))
                    else if pa_Position a < 0 \<or> pa_Position a > 7
                    then Ret (Some (''invalid board position: '' @ fmt_int (pa_Position a)))
                    else Ret None))"

definition damage_card :: "int \<Rightarrow> card \<Rightarrow> card" where
  "damage_card n c = c\<lparr>cd_Health := cd_Health c - n\<rparr>"

definition processCardEffect :: "card \<Rightarrow> u64 \<Rightarrow> game_state \<Rightarrow> (game_state \<times> string list) outcome" where
  "processCardEffect c uid gs =
     (if cd_Effect c = ''draw_card'' then
        (case at_index (gs_PlayerStates gs) (gs_CurrentPlayer gs) of
           Panic \<Rightarrow> Panic
         | Ret p \<Rightarrow>
             if ps_DeckSize p > 0 then
               (case set_player (gs_CurrentPlayer gs) (\<lambda>p. p\<lparr>ps_DeckSize := ps_DeckSize p - 1\<rparr>) gs of
                  Panic \<Rightarrow> Panic
                | Ret gs' \<Rightarrow> Ret (gs', [player_name uid @ '' draws a card'']))
             else Ret (gs, []))
      else if cd_Effect c = ''heal'' then
        (case at_index (gs_PlayerStates gs) (gs_CurrentPlayer gs) of
           Panic \<Rightarrow> Panic
         | Ret p \<Rightarrow>
             (let health = (if ps_Health p + 3 > 30 then 30 else ps_Health p + 3);
                  actualHeal = health - ps_Health p
              in case set_player (gs_CurrentPlayer gs) (\<lambda>p. p\<lparr>ps_Health := health\<rparr>) gs of
                   Panic \<Rightarrow> Panic
                 | Ret gs' \<Rightarrow> Ret (gs', if actualHeal > 0 then [player_name uid @ '' healed for '' @ fmt_int actualHeal] else [])))
      else if cd_Effect c = ''damage_all'' then
        Ret (gs\<lparr>gs_Board := map (damage_card 1) (gs_Board gs)\<rparr>, map (\<lambda>b. cd_Name b @ '' takes 1 damage'') (gs_Board gs))
      else Ret (gs, []))"

text \<open>
  The loop takes every card with the identifier out of the hand and remembers the last of them.
  \<^verbatim>\<open>make([]Card, 0, len-1)\<close> panics on an empty hand.
\<close>

definition played_card :: "int \<Rightarrow> card list \<Rightarrow> card" where
  "played_card i hand = foldl (\<lambda>pc c. if cd_ID c = i then c else pc) zero_card hand"

definition ProcessPlayCard :: "game_state \<Rightarrow> u64 \<Rightarrow> play_card_action \<Rightarrow> (game_state \<times> string list) outcome" where
  "ProcessPlayCard gs uid a =
     (case at_index (gs_PlayerStates gs) (gs_CurrentPlayer gs) of
        Panic \<Rightarrow> Panic
      | Ret p \<Rightarrow>
          if ps_HandCards p = [] then Panic
          else (let pc = played_card (pa_CardID a) (ps_HandCards p);
                    newHand = filter (\<lambda>c. cd_ID c \<noteq> pa_CardID a) (ps_HandCards p)
                in case set_player (gs_CurrentPlayer gs)
                          (\<lambda>p. p\<lparr>ps_HandCards := newHand, ps_Mana := ps_Mana p - cd_Cost pc\<rparr>) gs of
                     Panic \<Rightarrow> Panic
                   | Ret gs1 \<Rightarrow>
                       (case processCardEffect pc uid (gs1\<lparr>gs_Board := gs_Board gs1 @ [pc]\<rparr>) of
                          Panic \<Rightarrow> Panic
                        | Ret (gs2, effs) \<Rightarrow>
                            (let evs = (player_name uid @ '' played card '' @ cd_Name pc @ '' (Cost: '' @ fmt_int (cd_Cost pc) @ '')'') # effs
                             in Ret (add_log evs gs2, evs)))))"

subsection \<open>Attacking\<close>




subsection \<open>Turns and results\<close>


definition CalculateDamage :: "card \<Rightarrow> card \<Rightarrow> int \<Rightarrow> int" where
  "CalculateDamage attacker target bonusDamage = cd_Attack attacker + bonusDamage"

definition CheckWinCondition :: "game_state \<Rightarrow> (bool \<times> u64) outcome" where
  "CheckWinCondition gs =
     (case find_index (\<lambda>p. ps_Health p \<le> 0) (gs_PlayerStates gs) of
        None \<Rightarrow> Ret (False, 0)
      | Some i \<Rightarrow> (case at_index (gs_PlayerStates gs) (1 - int i) of
          Panic \<Rightarrow> Panic | Ret w \<Rightarrow> Ret (True, ps_PlayerID w)))"

definition GetValidActions :: "game_state \<Rightarrow> u64 \<Rightarrow> string list outcome" where
  "GetValidActions gs uid =
     (case at_index (gs_PlayerStates gs) (gs_CurrentPlayer gs) of
        Panic \<Rightarrow> Panic
      | Ret p \<Rightarrow> Ret (
          if ps_PlayerID p \<noteq> uid then []
          else if gs_Phase gs = ''main'' then
            map (\<lambda>c. ''play_card_'' @ fmt_int (cd_ID c)) (filter (\<lambda>c. cd_Cost c \<le> ps_Mana p) (ps_HandCards p)) @ [''end_turn'']
          else if gs_Phase gs = ''combat'' then
            map (\<lambda>c. ''attack_with_'' @ fmt_int (cd_ID c)) (gs_Board gs) @ [''end_combat'']
          else []))"

definition GetAIAction :: "game_state \<Rightarrow> u64 \<Rightarrow> string outcome" where
  "GetAIAction gs uid =
     (case GetValidActions gs uid of
        Panic \<Rightarrow> Panic
      | Ret acts \<Rightarrow> Ret (if acts = [] then []
          else case List.find (\<lambda>x. x \<noteq> ''end_turn'') acts of Some x \<Rightarrow> x | None \<Rightarrow> ''end_turn''))"

definition CalculateGameScore :: "game_state \<Rightarrow> u64 \<Rightarrow> int outcome" where
  "CalculateGameScore gs uid =
     (case CheckWinCondition gs of
        Panic \<Rightarrow> Panic
      | Ret (hasWinner, winnerID) \<Rightarrow> Ret (
          (if hasWinner \<and> winnerID = uid then 100 else 0) +
          (if gs_Turn gs \<le> 10 then 50 - gs_Turn gs * 2 else 0) +
          (case List.find (\<lambda>p. ps_PlayerID p = uid) (gs_PlayerStates gs) of None \<Rightarrow> 0 | Some p \<Rightarrow> ps_Health p)))"

subsection \<open>Cards and decks\<close>

fun apply_buff :: "card \<Rightarrow> string \<Rightarrow> card" where
  "apply_buff c b =
     (if b = ''+1_attack'' then c\<lparr>cd_Attack := cd_Attack c + 1\<rparr>
      else if b = ''+1_health'' then c\<lparr>cd_Health := cd_Health c + 1\<rparr> else c)"

definition ApplyBuffs :: "card \<Rightarrow> string list \<Rightarrow> card" where
  "ApplyBuffs c buffs = foldl apply_buff c buffs"

definition minion :: "int \<Rightarrow> string \<Rightarrow> int \<Rightarrow> int \<Rightarrow> int \<Rightarrow> card" where
  "minion i n cost atk hp = \<lparr>cd_ID = i, cd_Name = n, cd_Cost = cost, cd_Attack = atk, cd_Health = hp,
     cd_CardType = ''minion'', cd_Rarity = ''basic'', cd_Effect = []\<rparr>"

definition spell :: "int \<Rightarrow> string \<Rightarrow> int \<Rightarrow> int \<Rightarrow> string \<Rightarrow> card" where
  "spell i n cost atk eff = \<lparr>cd_ID = i, cd_Name = n, cd_Cost = cost, cd_Attack = atk, cd_Health = 0,
     cd_CardType = ''spell'', cd_Rarity = ''basic'', cd_Effect = eff\<rparr>"

definition GetCardDatabase :: "card list" where
  "GetCardDatabase =
     [minion 1 ''Wisp'' 0 1 1, minion 2 ''Murloc Raider'' 1 2 1, minion 3 ''River Crocolisk'' 2 2 3,
      minion 4 ''Magma Rager'' 3 5 1, minion 5 ''Chillwind Yeti'' 4 4 5, minion 6 ''Boulderfist Ogre'' 6 6 7,
      minion 7 ''Core Hound'' 7 9 5,
      spell 11 ''Fireball'' 4 6 ''damage'', spell 12 ''Healing Potion'' 1 0 ''heal'', spell 13 ''Card Draw'' 2 0 ''draw_card'',
      spell 14 ''Lightning Bolt'' 1 3 ''damage'', spell 15 ''Holy Light'' 2 0 ''heal'']"

definition card_map :: "int \<Rightarrow> card option" where
  "card_map i = map_of (map (\<lambda>c. (cd_ID c, c)) (rev GetCardDatabase)) i"

fun BuildDeck :: "int list \<Rightarrow> string + card list" where
  "BuildDeck [] = Inr []"
| "BuildDeck (i # is) =
     (case card_map i of
        None \<Rightarrow> Inl (''card not found: '' @ fmt_int i)
      | Some c \<Rightarrow> (case BuildDeck is of Inl e \<Rightarrow> Inl e | Inr cs \<Rightarrow> Inr (c # cs)))"

definition swap :: "nat \<Rightarrow> nat \<Rightarrow> 'a list \<Rightarrow> 'a list" where
  "swap i j xs = xs[i := xs ! j, j := xs ! i]"

text \<open>The loop for \<open>i\<close> down to 1; \<open>clock i\<close> is \<^verbatim>\<open>UnixNano()\<close> in the round of \<open>i\<close>.\<close>

fun shuffle_loop :: "(nat \<Rightarrow> int) \<Rightarrow> nat \<Rightarrow> card list \<Rightarrow> card list outcome" where
  "shuffle_loop clock 0 xs = Ret xs"
| "shuffle_loop clock (Suc i) xs =
     (let j = clock (Suc i) - int (Suc i + 1) * go_quot (clock (Suc i)) (int (Suc i + 1)) in
      case at_index xs j of
        Panic \<Rightarrow> Panic
      | Ret _ \<Rightarrow> shuffle_loop clock i (swap (Suc i) (nat j) xs))"

definition ShuffleDeck :: "(nat \<Rightarrow> int) \<Rightarrow> card list \<Rightarrow> card list outcome" where
  "ShuffleDeck clock deck = shuffle_loop clock (length deck - 1) deck"

subsection \<open>A match\<close>




definition card_ok :: "card \<Rightarrow> bool" where
  "card_ok c \<longleftrightarrow> 0 \<le> cd_Attack c \<and> 0 \<le> cd_Cost c"

definition hand_ok :: "card list \<Rightarrow> bool" where
  "hand_ok h \<longleftrightarrow> list_all card_ok h \<and> (\<forall>c \<in> set h. \<forall>d \<in> set h. cd_ID c = cd_ID d \<longrightarrow> cd_Cost c = cd_Cost d)"

definition player_ok :: "player_state \<Rightarrow> bool" where
  "player_ok p \<longleftrightarrow> 0 \<le> ps_Mana p \<and> ps_Mana p \<le> ps_MaxMana p \<and> ps_MaxMana p \<le> 10 \<and> ps_Health p \<le> 30 \<and>
     0 \<le> ps_DeckSize p \<and> hand_ok (ps_HandCards p)"

definition match_ok :: "game_state \<Rightarrow> bool" where
  "match_ok gs \<longleftrightarrow> length (gs_PlayerStates gs) = 2 \<and> gs_CurrentPlayer gs \<in> {0, 1} \<and>
     list_all player_ok (gs_PlayerStates gs) \<and> list_all card_ok (gs_Board gs)"

lemma match_index:
  "match_ok gs \<Longrightarrow> i \<in> {0, 1} \<Longrightarrow> \<exists>p. at_index (gs_PlayerStates gs) i = Ret p \<and> player_ok p"
  by (auto simp: match_ok_def at_index_def list_all_length)

lemma set_player_ok:
  assumes "match_ok gs" and "i \<in> {0, 1}" and "\<And>p. at_index (gs_PlayerStates gs) i = Ret p \<Longrightarrow> player_ok (f p)"
  shows "\<exists>gs'. set_player i f gs = Ret gs' \<and> match_ok gs' \<and> gs_Board gs' = gs_Board gs \<and>
    gs_CurrentPlayer gs' = gs_CurrentPlayer gs"
proof -
  obtain p where p: "at_index (gs_PlayerStates gs) i = Ret p" using match_index [OF assms(1,2)] by blast
  have "list_all player_ok ((gs_PlayerStates gs)[nat i := f p])"
    using assms(1) assms(3) [OF p] by (auto simp: match_ok_def intro: list_all_update)
  with p assms(1) show ?thesis by (simp add: set_player_def match_ok_def)
qed

lemma played_card_in:
  assumes "List.find (\<lambda>c. cd_ID c = i) h = Some c"
  shows "played_card i h \<in> set h \<and> cd_ID (played_card i h) = i"
proof -
  have "foldl (\<lambda>pc c. if cd_ID c = i then c else pc) z xs = z \<and> (\<forall>c \<in> set xs. cd_ID c \<noteq> i) \<or>
      foldl (\<lambda>pc c. if cd_ID c = i then c else pc) z xs \<in> set xs \<and>
      cd_ID (foldl (\<lambda>pc c. if cd_ID c = i then c else pc) z xs) = i" for z :: card and xs
  proof (induction xs arbitrary: z)
    case (Cons a xs)
    from Cons [of a] Cons [of z] show ?case by (cases "cd_ID a = i") auto
  qed simp
  moreover have "c \<in> set h" "cd_ID c = i" using find_Some_iff_map [OF assms] by auto
  ultimately show ?thesis unfolding played_card_def by blast
qed

lemma add_log_ok [simp]: "match_ok (add_log evs gs) = match_ok gs"
  by (simp add: add_log_def match_ok_def)

lemma effect_ok:
  assumes "match_ok gs"
  shows "\<exists>gs' evs. processCardEffect c uid gs = Ret (gs', evs) \<and> match_ok gs'"
proof -
  have cur: "gs_CurrentPlayer gs \<in> {0, 1}" using assms by (simp add: match_ok_def)
  obtain p where p: "at_index (gs_PlayerStates gs) (gs_CurrentPlayer gs) = Ret p" "player_ok p"
    using match_index [OF assms cur] by blast
  have "list_all card_ok (map (damage_card 1) xs) = list_all card_ok xs" for xs
    by (induction xs) (auto simp: damage_card_def card_ok_def)
  then have dmg: "match_ok (gs\<lparr>gs_Board := map (damage_card 1) (gs_Board gs)\<rparr>)" using assms by (simp add: match_ok_def)
  have deck: "\<exists>gs'. set_player (gs_CurrentPlayer gs) (\<lambda>p. p\<lparr>ps_DeckSize := ps_DeckSize p - 1\<rparr>) gs = Ret gs' \<and> match_ok gs'"
    if "ps_DeckSize p > 0"
    using set_player_ok [OF assms cur, of "\<lambda>p. p\<lparr>ps_DeckSize := ps_DeckSize p - 1\<rparr>"] p that
    by (auto simp: player_ok_def)
  have heal: "\<exists>gs'. set_player (gs_CurrentPlayer gs) (\<lambda>p. p\<lparr>ps_Health := h\<rparr>) gs = Ret gs' \<and> match_ok gs'"
    if "h \<le> 30" for h
    using set_player_ok [OF assms cur, of "\<lambda>p. p\<lparr>ps_Health := h\<rparr>"] p that by (auto simp: player_ok_def)
  consider "cd_Effect c = ''draw_card''" | "cd_Effect c = ''heal''" | "cd_Effect c \<notin> {''draw_card'', ''heal''}" by blast
  then show ?thesis
  proof cases
    case 1
    with p(1) deck assms show ?thesis by (cases "ps_DeckSize p > 0") (auto simp: processCardEffect_def)
  next
    case 2
    obtain gs' where "set_player (gs_CurrentPlayer gs)
        (\<lambda>q. q\<lparr>ps_Health := if ps_Health p + 3 > 30 then 30 else ps_Health p + 3\<rparr>) gs = Ret gs'" "match_ok gs'"
      using heal [of "if ps_Health p + 3 > 30 then 30 else ps_Health p + 3"] by (fastforce split: if_splits)
    with 2 p(1) show ?thesis by (simp add: processCardEffect_def Let_def)
  next
    case 3
    with dmg assms show ?thesis by (simp add: processCardEffect_def)
  qed
qed

lemma play_ok:
  assumes "match_ok gs" and "ValidatePlayCard gs uid a = Ret None"
  shows "\<exists>gs' evs. ProcessPlayCard gs uid a = Ret (gs', evs) \<and> match_ok gs'"
proof -
  have cur: "gs_CurrentPlayer gs \<in> {0, 1}" using assms(1) by (simp add: match_ok_def)
  obtain p where p: "at_index (gs_PlayerStates gs) (gs_CurrentPlayer gs) = Ret p" "player_ok p"
    using match_index [OF assms(1) cur] by blast
  obtain c where c: "List.find (\<lambda>c. cd_ID c = pa_CardID a) (ps_HandCards p) = Some c" "cd_Cost c \<le> ps_Mana p"
    using assms(2) p by (auto simp: ValidatePlayCard_def split: if_splits option.splits)
  let ?pc = "played_card (pa_CardID a) (ps_HandCards p)"
  note pc = played_card_in [OF c(1)] and cin = find_Some_iff_map [OF c(1)]
  then have cost: "cd_Cost ?pc = cd_Cost c" and pcok: "card_ok ?pc"
    using p(2) by (auto simp: player_ok_def hand_ok_def list_all_iff)
  have ne: "ps_HandCards p \<noteq> []" using pc by auto
  let ?f = "\<lambda>q. q\<lparr>ps_HandCards := filter (\<lambda>c. cd_ID c \<noteq> pa_CardID a) (ps_HandCards p), ps_Mana := ps_Mana q - cd_Cost ?pc\<rparr>"
  have "player_ok (?f p)" using p(2) c(2) cost pcok by (auto simp: player_ok_def hand_ok_def list_all_iff card_ok_def)
  with set_player_ok [OF assms(1) cur, of ?f] p(1) obtain gs1 where
    g1: "set_player (gs_CurrentPlayer gs) ?f gs = Ret gs1" "match_ok gs1" by auto
  then have "match_ok (gs1\<lparr>gs_Board := gs_Board gs1 @ [?pc]\<rparr>)" using pcok by (simp add: match_ok_def)
  from effect_ok [OF this, of ?pc uid] g1(1) p(1) ne show ?thesis
    by (auto simp: ProcessPlayCard_def Let_def)
qed





subsection \<open>Properties\<close>


definition demo_state :: game_state where
  "demo_state = \<lparr>gs_CurrentPlayer = 0, gs_Turn = 1, gs_Phase = ''main'',
     gs_PlayerStates = [\<lparr>ps_PlayerID = 7, ps_Health = 29, ps_Mana = 1, ps_MaxMana = 1,
         ps_HandCards = [spell 12 ''Healing Potion'' 1 0 ''heal'', spell 12 ''Healing Potion'' 1 0 ''heal'', minion 1 ''Wisp'' 0 1 1], ps_DeckSize = 3\<rparr>,
       \<lparr>ps_PlayerID = 8, ps_Health = 30, ps_Mana = 0, ps_MaxMana = 0, ps_HandCards = [], ps_DeckSize = 3\<rparr>],
     gs_Board = [], gs_GameLog = []\<rparr>"

lemma demo_state_ok: "match_ok demo_state"
  by (simp add: match_ok_def demo_state_def player_ok_def hand_ok_def card_ok_def spell_def minion_def)

definition heal_action :: play_card_action where
  "heal_action = \<lparr>pa_CardID = 12, pa_Position = 0, pa_Target = 0\<rparr>"


lemma effect_keeps:
  assumes "processCardEffect c uid gs = Ret (gs', evs)"
  shows "length (gs_Board gs') = length (gs_Board gs) \<and> gs_CurrentPlayer gs' = gs_CurrentPlayer gs \<and>
    map (\<lambda>p. (ps_HandCards p, ps_Mana p)) (gs_PlayerStates gs') = map (\<lambda>p. (ps_HandCards p, ps_Mana p)) (gs_PlayerStates gs)"
proof -
  have s: "set_player i f gs = Ret gs1 \<Longrightarrow> (\<And>p. ps_HandCards (f p) = ps_HandCards p \<and> ps_Mana (f p) = ps_Mana p) \<Longrightarrow>
      gs_Board gs1 = gs_Board gs \<and> gs_CurrentPlayer gs1 = gs_CurrentPlayer gs \<and>
      map (\<lambda>p. (ps_HandCards p, ps_Mana p)) (gs_PlayerStates gs1) = map (\<lambda>p. (ps_HandCards p, ps_Mana p)) (gs_PlayerStates gs)"
    for i f gs1
    by (auto simp: set_player_def at_index_def map_update list_update_same_conv split: outcome.splits if_splits)
  consider "cd_Effect c = ''draw_card''" | "cd_Effect c = ''heal''" | "cd_Effect c \<notin> {''draw_card'', ''heal''}" by blast
  then show ?thesis
  proof cases
    case 1
    with assms show ?thesis by (auto simp: processCardEffect_def dest!: s split: outcome.splits if_splits)
  next
    case 2
    with assms show ?thesis by (auto simp: processCardEffect_def Let_def dest!: s split: outcome.splits)
  next
    case 3
    with assms show ?thesis by (auto simp: processCardEffect_def split: if_splits)
  qed
qed

text \<open>
  Playing one card discards its copies. A validated play of a card of which the hand holds several
  copies takes all of them out of the hand, pays for one and puts one on the board; the others are
  lost.
\<close>

theorem play_discards_copies:
  assumes "at_index (gs_PlayerStates gs) (gs_CurrentPlayer gs) = Ret p" and "ps_HandCards p \<noteq> []"
    and "ProcessPlayCard gs uid a = Ret (gs', evs)"
  shows "\<exists>q. at_index (gs_PlayerStates gs') (gs_CurrentPlayer gs') = Ret q \<and>
    ps_HandCards q = filter (\<lambda>c. cd_ID c \<noteq> pa_CardID a) (ps_HandCards p) \<and>
    length (gs_Board gs') = Suc (length (gs_Board gs)) \<and>
    ps_Mana q = ps_Mana p - cd_Cost (played_card (pa_CardID a) (ps_HandCards p))"
proof -
  let ?i = "gs_CurrentPlayer gs" and ?pc = "played_card (pa_CardID a) (ps_HandCards p)"
  let ?hand = "filter (\<lambda>c. cd_ID c \<noteq> pa_CardID a) (ps_HandCards p)"
  let ?ps = "(gs_PlayerStates gs)[nat ?i := p\<lparr>ps_HandCards := ?hand, ps_Mana := ps_Mana p - cd_Cost ?pc\<rparr>]"
  let ?gs1 = "gs\<lparr>gs_PlayerStates := ?ps, gs_Board := gs_Board gs @ [?pc]\<rparr>"
  obtain gs2 effs where e: "processCardEffect ?pc uid ?gs1 = Ret (gs2, effs)" "gs' = add_log evs gs2"
    using assms by (auto simp: ProcessPlayCard_def set_player_def Let_def split: outcome.splits)
  have i: "0 \<le> ?i" "nat ?i < length (gs_PlayerStates gs)" using assms(1) by (auto simp: at_index_def split: if_splits)
  note k = effect_keeps [OF e(1)]
  then have len: "length (gs_PlayerStates gs2) = length (gs_PlayerStates gs)"
    using map_eq_imp_length_eq [of _ "gs_PlayerStates gs2" _ "gs_PlayerStates ?gs1"] by fastforce
  let ?q = "gs_PlayerStates gs2 ! nat ?i"
  have "(ps_HandCards ?q, ps_Mana ?q) = map (\<lambda>p. (ps_HandCards p, ps_Mana p)) (gs_PlayerStates gs2) ! nat ?i"
    using i len by simp
  also have "\<dots> = (?hand, ps_Mana p - cd_Cost ?pc)" using k i by simp
  finally show ?thesis using k e(2) i len by (simp add: add_log_def at_index_def)
qed

theorem play_discards_copies_witness:
  "\<exists>gs' evs q. ProcessPlayCard demo_state 7 heal_action = Ret (gs', evs) \<and>
     at_index (gs_PlayerStates gs') (gs_CurrentPlayer gs') = Ret q \<and> map cd_ID (ps_HandCards q) = [1] \<and> ps_Mana q = 0"
proof -
  have p: "at_index (gs_PlayerStates demo_state) (gs_CurrentPlayer demo_state) = Ret (gs_PlayerStates demo_state ! 0)"
    "ps_HandCards (gs_PlayerStates demo_state ! 0) \<noteq> []" by (simp_all add: demo_state_def at_index_def)
  have "ValidatePlayCard demo_state 7 heal_action = Ret None"
    by (simp add: ValidatePlayCard_def demo_state_def heal_action_def at_index_def spell_def)
  from play_ok [OF demo_state_ok this] obtain gs' evs where r: "ProcessPlayCard demo_state 7 heal_action = Ret (gs', evs)"
    by blast
  from play_discards_copies [OF p r] r show ?thesis
    by (auto simp: demo_state_def heal_action_def played_card_def spell_def minion_def)
qed

lemma mod_of_quot: "0 \<le> x \<Longrightarrow> 0 < m \<Longrightarrow> x - m * go_quot x m = x mod m"
  by (cases "x = 0") (simp_all add: go_quot_def minus_mult_div_eq_mod)

lemma mset_swap:
  assumes "i < length xs" and "j < length xs" shows "mset (swap i j xs) = mset xs"
  using assms by (simp add: swap_def mset_swap)

lemma shuffle_loop_perm:
  assumes "i < length xs \<or> (i = 0 \<and> xs = [])" and "\<forall>k. 0 \<le> clock k"
  shows "\<exists>ys. shuffle_loop clock i xs = Ret ys \<and> mset ys = mset xs"
  using assms(1)
proof (induction i arbitrary: xs)
  case 0
  then show ?case by simp
next
  case (Suc i)
  let ?j = "clock (Suc i) mod int (Suc i + 1)"
  have j: "0 \<le> ?j" "?j < int (length xs)"
    using Suc.prems pos_mod_bound [of "int (Suc i + 1)" "clock (Suc i)"] by (auto simp del: pos_mod_bound)
  have "mset (swap (Suc i) (nat ?j) xs) = mset xs" using Suc.prems j by (intro mset_swap) auto
  moreover have "length (swap (Suc i) (nat ?j) xs) = length xs" by (simp add: swap_def)
  moreover have "clock (Suc i) - int (Suc i + 1) * go_quot (clock (Suc i)) (int (Suc i + 1)) = ?j"
    using assms(2) by (intro mod_of_quot) auto
  moreover obtain ys where "shuffle_loop clock i (swap (Suc i) (nat ?j) xs) = Ret ys \<and>
      mset ys = mset (swap (Suc i) (nat ?j) xs)"
    using Suc.IH [of "swap (Suc i) (nat ?j) xs"] Suc.prems by (auto simp: swap_def)
  ultimately show ?case using j by (simp add: Let_def at_index_def del: of_nat_add of_nat_Suc)
qed

text \<open>
  Shuffling a built deck keeps its cards. For identifiers that are all in the card database,
  \<^verbatim>\<open>BuildDeck\<close> returns one card per identifier in the given order, and \<^verbatim>\<open>ShuffleDeck\<close> returns a
  permutation of it for every sequence of clock readings after 1970; an unknown identifier is an
  error that names the first of them.
\<close>

theorem shuffled_deck_is_permutation:
  assumes "\<forall>k. 0 \<le> clock k"
  shows "case BuildDeck is of
      Inr deck \<Rightarrow> map cd_ID deck = is \<and> set deck \<subseteq> set GetCardDatabase \<and>
        (\<exists>shuffled. ShuffleDeck clock deck = Ret shuffled \<and> mset shuffled = mset deck)
    | Inl e \<Rightarrow> (\<exists>pre i post. is = pre @ i # post \<and> card_map i = None \<and> (\<forall>j \<in> set pre. card_map j \<noteq> None) \<and>
        e = ''card not found: '' @ fmt_int i)"
proof -
  have m: "card_map i = Some c \<Longrightarrow> cd_ID c = i \<and> c \<in> set GetCardDatabase" for i c
    by (auto simp: card_map_def dest!: map_of_SomeD)
  have "case BuildDeck is of
      Inr deck \<Rightarrow> map cd_ID deck = is \<and> set deck \<subseteq> set GetCardDatabase
    | Inl e \<Rightarrow> (\<exists>pre i post. is = pre @ i # post \<and> card_map i = None \<and> (\<forall>j \<in> set pre. card_map j \<noteq> None) \<and>
        e = ''card not found: '' @ fmt_int i)"
  proof (induction "is")
    case Nil
    then show ?case by simp
  next
    case (Cons i "is")
    show ?case
    proof (cases "card_map i")
      case None
      then show ?thesis by (simp) (rule exI [of _ "[]"], auto)
    next
      case (Some c)
      show ?thesis
      proof (cases "BuildDeck is")
        case (Inl e)
        with Cons obtain pre j post where "is = pre @ j # post" "card_map j = None" "\<forall>k \<in> set pre. card_map k \<noteq> None"
          "e = ''card not found: '' @ fmt_int j" by auto
        with Inl Some show ?thesis by (simp) (rule exI [of _ "i # pre"], auto)
      next
        case (Inr deck)
        with Cons Some m [OF Some] show ?thesis by simp
      qed
    qed
  qed
  moreover have "\<exists>ys. ShuffleDeck clock deck = Ret ys \<and> mset ys = mset deck" for deck
    unfolding ShuffleDeck_def using assms by (intro shuffle_loop_perm) (cases deck, auto)
  ultimately show ?thesis by (auto split: sum.splits)
qed

theorem shuffled_deck_is_permutation_witness:
  "\<exists>deck shuffled. BuildDeck [1, 13, 1] = Inr deck \<and> ShuffleDeck (\<lambda>k. 5) deck = Ret shuffled \<and> mset shuffled = mset deck"
proof -
  have "\<exists>deck. BuildDeck [1, 13, 1] = Inr deck"
    by (simp add: card_map_def GetCardDatabase_def minion_def spell_def)
  then obtain deck where "BuildDeck [1, 13, 1] = Inr deck" by blast
  with shuffled_deck_is_permutation [of "\<lambda>k. 5" "[1, 13, 1]"] show ?thesis by auto
qed

end
