(* ===== verification/LoginTokens.thy ===== *)
theory LoginTokens
  imports GoStd
begin

text \<open>
  Tokens and passwords of \<^verbatim>\<open>internal/server/login_server.go\<close>. The HMAC, bcrypt and MD5 are parameters;
  the random bytes of the nonce (\<open>None\<close>: \<^verbatim>\<open>rand.Read\<close> failed) and the clock are arguments.
\<close>

subsection \<open>Tokens\<close>

type_synonym mac = "byte list \<Rightarrow> byte list \<Rightarrow> byte list"

record login_claims =
  lc_userID :: u64
  lc_issuedAt :: int
  lc_expiresAt :: int

definition token_nonce :: "time \<Rightarrow> byte list option \<Rightarrow> byte list" where
  "token_nonce now rnd = (case rnd of Some bs \<Rightarrow> bs | None \<Rightarrow> string_bytes (fmt_int (time_unix_nano now)))"

definition token_payload :: "u64 \<Rightarrow> time \<Rightarrow> duration \<Rightarrow> byte list option \<Rightarrow> string" where
  "token_payload uid now expiry rnd = join_with CHR ''.''
     [fmt_nat (unat uid), fmt_int (time_unix now), fmt_int (time_unix (now + expiry)), hex_encode (token_nonce now rnd)]"

definition sign_payload :: "mac \<Rightarrow> byte list \<Rightarrow> string \<Rightarrow> string" where
  "sign_payload hmac secret payload = hex_encode (hmac secret (string_bytes payload))"

definition generateToken :: "mac \<Rightarrow> byte list \<Rightarrow> duration \<Rightarrow> u64 \<Rightarrow> time \<Rightarrow> byte list option \<Rightarrow> string" where
  "generateToken hmac secret expiry uid now rnd =
     (let payload = token_payload uid now expiry rnd in payload @ CHR ''.'' # sign_payload hmac secret payload)"

definition validateToken :: "mac \<Rightarrow> byte list \<Rightarrow> time \<Rightarrow> string \<Rightarrow> string + login_claims" where
  "validateToken hmac secret now token =
     (let parts = split_on CHR ''.'' token in
      if length parts \<noteq> 5 then Inl ''invalid token format''
      else if sign_payload hmac secret (join_with CHR ''.'' (take 4 parts)) \<noteq> parts ! 4
      then Inl ''invalid token signature''
      else case parse_uint64 (parts ! 0) of
        None \<Rightarrow> Inl ''invalid token user id''
      | Some uid \<Rightarrow>
          (case parse_int64 (parts ! 1) of
             None \<Rightarrow> Inl ''invalid token issued at''
           | Some iat \<Rightarrow>
               (case parse_int64 (parts ! 2) of
                  None \<Rightarrow> Inl ''invalid token expires at''
                | Some exp \<Rightarrow>
                    if time_unix now > exp then Inl ''token expired''
                    else Inr \<lparr>lc_userID = uid, lc_issuedAt = iat, lc_expiresAt = exp\<rparr>)))"

subsection \<open>Passwords\<close>

record password_lib =
  pw_bcrypt :: "string \<Rightarrow> string option"
  pw_compare :: "string \<Rightarrow> string \<Rightarrow> bool"
  pw_md5_hex :: "string \<Rightarrow> string"

definition hashPassword :: "password_lib \<Rightarrow> string \<Rightarrow> string option" where
  "hashPassword lib password = pw_bcrypt lib password"

definition isBcryptHash :: "string \<Rightarrow> bool" where
  "isBcryptHash h \<longleftrightarrow> has_prefix h ''$2a$'' \<or> has_prefix h ''$2b$'' \<or> has_prefix h ''$2y$''"

definition legacyMD5PasswordHash :: "password_lib \<Rightarrow> string \<Rightarrow> string" where
  "legacyMD5PasswordHash lib password = pw_md5_hex lib (password @ ''tribeway_game_salt'')"

definition verifyPassword :: "password_lib \<Rightarrow> string \<Rightarrow> string \<Rightarrow> bool \<times> bool" where
  "verifyPassword lib plain hashed =
     (if isBcryptHash hashed then (pw_compare lib hashed plain, False)
      else (legacyMD5PasswordHash lib plain = hashed, True))"

subsection \<open>Lemmas\<close>

definition i64_range :: "int \<Rightarrow> bool" where "i64_range x \<longleftrightarrow> - (2 ^ 63) \<le> x \<and> x < 2 ^ 63"

lemma token_parts:
  "split_on CHR ''.'' (generateToken hmac secret expiry uid now rnd) =
     [fmt_nat (unat uid), fmt_int (time_unix now), fmt_int (time_unix (now + expiry)), hex_encode (token_nonce now rnd),
      sign_payload hmac secret (token_payload uid now expiry rnd)]"
proof -
  let ?ps = "[fmt_nat (unat uid), fmt_int (time_unix now), fmt_int (time_unix (now + expiry)), hex_encode (token_nonce now rnd),
      sign_payload hmac secret (token_payload uid now expiry rnd)]"
  have "generateToken hmac secret expiry uid now rnd = join_with CHR ''.'' ?ps"
    by (simp add: generateToken_def token_payload_def Let_def)
  moreover have "\<forall>p \<in> set ?ps. CHR ''.'' \<notin> set p" by (simp add: sign_payload_def)
  ultimately show ?thesis by (simp add: split_join del: set_simps join_with.simps)
qed

lemma validate_generated:
  assumes "i64_range (time_unix now)" and "i64_range (time_unix (now + expiry))"
  shows "validateToken hmac secret later (generateToken hmac secret expiry uid now rnd) =
    (if time_unix later > time_unix (now + expiry) then Inl ''token expired''
     else Inr \<lparr>lc_userID = uid, lc_issuedAt = time_unix now, lc_expiresAt = time_unix (now + expiry)\<rparr>)"
  using assms
  by (simp add: validateToken_def token_parts Let_def i64_range_def token_payload_def parse_int64_fmt del: join_with.simps)

subsection \<open>Properties\<close>

text \<open>
  A token comes back as it was issued. Until it expires, \<^verbatim>\<open>validateToken\<close> with the same secret
  returns for a generated token exactly the user, the time of issue and the expiry it was generated
  with, whatever the nonce; from the second after its expiry on it reports ``token expired''.
\<close>

theorem token_roundtrip:
  assumes "i64_range (time_unix now)" and "i64_range (time_unix (now + expiry))"
  shows "validateToken hmac secret later (generateToken hmac secret expiry uid now rnd) =
    (if time_unix later > time_unix (now + expiry) then Inl ''token expired''
     else Inr \<lparr>lc_userID = uid, lc_issuedAt = time_unix now, lc_expiresAt = time_unix (now + expiry)\<rparr>)"
  using assms by (rule validate_generated)

definition demo_hmac :: mac where "demo_hmac key data = take 2 (key @ data)"

theorem token_roundtrip_witness:
  "validateToken demo_hmac [1, 2, 3] (unix_epoch + 5 * second) (generateToken demo_hmac [1, 2, 3] (10 * second) 77 unix_epoch None) =
     Inr \<lparr>lc_userID = 77, lc_issuedAt = 0, lc_expiresAt = 10\<rparr>"
proof -
  have "time_unix unix_epoch = 0" "time_unix (unix_epoch + 10 * second) = 10" "time_unix (unix_epoch + 5 * second) = 5"
    by (simp_all add: time_unix_def second_def)
  with token_roundtrip [of unix_epoch "10 * second" demo_hmac "[1, 2, 3]" "unix_epoch + 5 * second" 77 None]
  show ?thesis by (simp add: i64_range_def)
qed

text \<open>
  Only signed tokens are accepted. A token that \<^verbatim>\<open>validateToken\<close> accepts is a payload of four
  fields, a dot and the hexadecimal HMAC of that payload under the server's secret, it has not
  expired, and the user it authenticates is the one named in the signed payload: changing any
  character of the payload requires the HMAC of the changed payload.
\<close>

theorem accepted_token_signed:
  assumes "validateToken hmac secret now token = Inr claims"
  shows "\<exists>u i e n. token = join_with CHR ''.'' [u, i, e, n] @ CHR ''.'' # hex_encode (hmac secret (string_bytes (join_with CHR ''.'' [u, i, e, n]))) \<and>
    parse_uint64 u = Some (lc_userID claims) \<and> parse_int64 i = Some (lc_issuedAt claims) \<and>
    parse_int64 e = Some (lc_expiresAt claims) \<and> time_unix now \<le> lc_expiresAt claims"
proof -
  have "length (split_on CHR ''.'' token) = 5"
    using assms by (auto simp: validateToken_def Let_def split: if_splits)
  then obtain u i e n s where p: "split_on CHR ''.'' token = [u, i, e, n, s]"
    by (auto simp: numeral_eq_Suc length_Suc_conv)
  have "token = join_with CHR ''.'' [u, i, e, n, s]" using join_split [of "CHR ''.''" token] p by simp
  with assms p show ?thesis
    by (intro exI [of _ u] exI [of _ i] exI [of _ e] exI [of _ n])
      (auto simp: validateToken_def Let_def sign_payload_def numeral_eq_Suc split: if_splits option.splits)
qed

theorem accepted_token_signed_witness:
  "\<exists>claims. validateToken demo_hmac [1, 2, 3] (unix_epoch + 5 * second)
       (generateToken demo_hmac [1, 2, 3] (10 * second) 77 unix_epoch None) = Inr claims \<and> 5 \<le> lc_expiresAt claims"
proof -
  have t: "time_unix unix_epoch = 0" "time_unix (unix_epoch + 10 * second) = 10" "time_unix (unix_epoch + 5 * second) = 5"
    by (simp_all add: time_unix_def second_def)
  have g: "validateToken demo_hmac [1, 2, 3] (unix_epoch + 5 * second)
      (generateToken demo_hmac [1, 2, 3] (10 * second) 77 unix_epoch None) =
      Inr \<lparr>lc_userID = 77, lc_issuedAt = 0, lc_expiresAt = 10\<rparr>"
    using t by (simp add: validate_generated i64_range_def)
  from accepted_token_signed [OF g] g t(3) show ?thesis by auto
qed

end
