(* ===== verification/Mongo.thy ===== *)
theory Mongo
  imports GoStd "HOL-Library.AList" "HOL-Library.Multiset" "HOL-Library.Product_Lexorder"
begin

text \<open>
  What the repositories of \<^verbatim>\<open>internal/database/mongodb.go\<close> use of MongoDB. The driver is a
  parameter, the record \<open>mongo_ops\<close> of its calls on a state \<open>'c\<close> of one collection, and the locale
  \<open>mongo_collection\<close> states what the code relies on: the documented effect of each call on the list
  of documents, when it succeeds and when it reports an error (after a network error the effect may
  or may not have happened). Documents, filters and updates are the BSON values the code builds. The
  locale is extended with a unique index in \<open>unique_collection\<close>, and a collection in memory
  interprets both, which shows that the laws can hold together.
\<close>

subsection \<open>Documents, filters and updates\<close>

datatype bval =
    BInt int | BStr string | BBool bool | BDate int | BOid nat
  | BArr "bval list" | BDoc "(string \<times> bval) list"

type_synonym doc = "(string \<times> bval) list"

text \<open>A \<^verbatim>\<open>time.Time\<close> is stored as a date with milliseconds.\<close>

definition bson_time :: "time \<Rightarrow> bval" where
  "bson_time t = BDate ((t - unix_epoch) div millisecond)"

definition trunc_ms :: "time \<Rightarrow> time" where
  "trunc_ms t = unix_epoch + (t - unix_epoch) div millisecond * millisecond"

text \<open>The order of numbers and of dates; values of different types are not ordered by a filter.\<close>

fun bson_less :: "bval \<Rightarrow> bval \<Rightarrow> bool" where
  "bson_less (BInt a) (BInt b) = (a < b)"
| "bson_less (BDate a) (BDate b) = (a < b)"
| "bson_less _ _ = False"

datatype query = QEq string bval | QGt string bval | QLt string bval | QAnd "query list" | QOr "query list"

fun matches :: "query \<Rightarrow> doc \<Rightarrow> bool" where
  "matches (QEq k v) d = (case map_of d k of
      Some (BArr vs) \<Rightarrow> BArr vs = v \<or> v \<in> set vs
    | w \<Rightarrow> w = Some v)"
| "matches (QGt k v) d = (case map_of d k of Some w \<Rightarrow> bson_less v w | None \<Rightarrow> False)"
| "matches (QLt k v) d = (case map_of d k of Some w \<Rightarrow> bson_less w v | None \<Rightarrow> False)"
| "matches (QAnd qs) d = (\<forall>q \<in> set qs. matches q d)"
| "matches (QOr qs) d = (\<exists>q \<in> set qs. matches q d)"

datatype update_op = USet doc | UInc string int | UPush string bval | UPull string query

fun pulled :: "query \<Rightarrow> bval \<Rightarrow> bool" where
  "pulled q (BDoc e) = matches q e"
| "pulled q _ = False"

fun apply_op :: "update_op \<Rightarrow> doc \<Rightarrow> doc" where
  "apply_op (USet kvs) d = fold (\<lambda>(k, v). AList.update k v) kvs d"
| "apply_op (UInc k n) d = (case map_of d k of
      None \<Rightarrow> AList.update k (BInt n) d
    | Some (BInt m) \<Rightarrow> AList.update k (BInt (m + n)) d
    | _ \<Rightarrow> d)"
| "apply_op (UPush k v) d = (case map_of d k of
      None \<Rightarrow> AList.update k (BArr [v]) d
    | Some (BArr vs) \<Rightarrow> AList.update k (BArr (vs @ [v])) d
    | _ \<Rightarrow> d)"
| "apply_op (UPull k q) d = (case map_of d k of
      Some (BArr vs) \<Rightarrow> AList.update k (BArr (filter (\<lambda>v. \<not> pulled q v) vs)) d
    | _ \<Rightarrow> d)"

definition apply_update :: "update_op list \<Rightarrow> doc \<Rightarrow> doc" where
  "apply_update us d = fold apply_op us d"

declare apply_op.simps [simp del]

lemma map_of_set [simp]: "map_of (apply_op (USet kvs) d) k = (case map_of (rev kvs) k of None \<Rightarrow> map_of d k | v \<Rightarrow> v)"
proof (induction kvs arbitrary: d)
  case Nil
  then show ?case by (simp add: apply_op.simps)
next
  case (Cons kv kvs)
  obtain k' v where "kv = (k', v)" by (cases kv)
  with Cons show ?case by (auto simp: apply_op.simps update_conv' map_add_def split: option.splits)
qed

text \<open>Options of \<^verbatim>\<open>Find\<close>.\<close>

record find_opts =
  fo_sort_desc :: "string option"
  fo_skip :: int
  fo_limit :: int

definition all_opts :: find_opts where
  "all_opts = \<lparr>fo_sort_desc = None, fo_skip = 0, fo_limit = 0\<rparr>"

text \<open>
  The order of \<^verbatim>\<open>Find\<close> is by type first (an absent field before every value), then by value; the code
  sorts on dates and numbers only, values of other types are left unordered.
\<close>

fun sort_val :: "bval option \<Rightarrow> nat \<times> int" where
  "sort_val None = (0, 0)"
| "sort_val (Some (BInt i)) = (1, i)"
| "sort_val (Some (BStr _)) = (2, 0)"
| "sort_val (Some (BDoc _)) = (3, 0)"
| "sort_val (Some (BArr _)) = (4, 0)"
| "sort_val (Some (BOid _)) = (5, 0)"
| "sort_val (Some (BBool b)) = (6, of_bool b)"
| "sort_val (Some (BDate t)) = (7, t)"

definition in_order :: "find_opts \<Rightarrow> doc list \<Rightarrow> bool" where
  "in_order opt ms = (case fo_sort_desc opt of
      None \<Rightarrow> True
    | Some k \<Rightarrow> sorted (map (\<lambda>d. sort_val (map_of d k)) (rev ms)))"

definition page :: "find_opts \<Rightarrow> 'a list \<Rightarrow> 'a list" where
  "page opt ms = (let rest = drop (nat (fo_skip opt)) ms
     in if fo_limit opt = 0 then rest else take (nat \<bar>fo_limit opt\<bar>) rest)"

subsection \<open>The driver's calls and their effects\<close>

record 'c mongo_ops =
  mo_InsertOne :: "doc \<Rightarrow> 'c \<Rightarrow> 'c \<times> (string + nat)"
  mo_FindOne :: "query \<Rightarrow> 'c \<Rightarrow> 'c \<times> (string + doc option)"
  mo_Find :: "query \<Rightarrow> find_opts \<Rightarrow> 'c \<Rightarrow> 'c \<times> (string + doc list)"
  mo_UpdateOne :: "query \<Rightarrow> update_op list \<Rightarrow> 'c \<Rightarrow> 'c \<times> (string + nat)"
  mo_UpdateMany :: "query \<Rightarrow> update_op list \<Rightarrow> 'c \<Rightarrow> 'c \<times> (string + nat)"
  mo_DeleteOne :: "query \<Rightarrow> 'c \<Rightarrow> 'c \<times> (string + nat)"
  mo_DeleteMany :: "query \<Rightarrow> 'c \<Rightarrow> 'c \<times> (string + nat)"
  mo_Count :: "query \<Rightarrow> 'c \<Rightarrow> 'c \<times> (string + nat)"

definition with_id :: "nat \<Rightarrow> doc \<Rightarrow> doc" where
  "with_id oid d = (if map_of d ''_id'' = None then (''_id'', BOid oid) # d else d)"

definition insert_effect :: "doc \<Rightarrow> doc list \<Rightarrow> doc list \<Rightarrow> string + nat \<Rightarrow> bool" where
  "insert_effect d ds ds' r \<longleftrightarrow> (case r of
      Inr oid \<Rightarrow> ds' = ds @ [with_id oid d] \<and> (\<forall>v. map_of d ''_id'' = Some v \<longrightarrow> v = BOid oid)
    | Inl _ \<Rightarrow> ds' = ds \<or> (\<exists>oid. ds' = ds @ [with_id oid d]))"

definition find_one_effect :: "query \<Rightarrow> doc list \<Rightarrow> string + doc option \<Rightarrow> bool" where
  "find_one_effect q ds r \<longleftrightarrow> (case r of
      Inr (Some d) \<Rightarrow> d \<in> set ds \<and> matches q d
    | Inr None \<Rightarrow> (\<forall>d \<in> set ds. \<not> matches q d)
    | Inl _ \<Rightarrow> True)"

definition find_effect :: "query \<Rightarrow> find_opts \<Rightarrow> doc list \<Rightarrow> string + doc list \<Rightarrow> bool" where
  "find_effect q opt ds r \<longleftrightarrow> (case r of
      Inr out \<Rightarrow> 0 \<le> fo_skip opt \<and>
        (\<exists>ms. mset ms = mset (filter (matches q) ds) \<and> in_order opt ms \<and> out = page opt ms)
    | Inl _ \<Rightarrow> True)"

definition one_updated :: "query \<Rightarrow> update_op list \<Rightarrow> doc list \<Rightarrow> doc list \<Rightarrow> bool" where
  "one_updated q us ds ds' \<longleftrightarrow>
     (\<exists>pre d post. ds = pre @ d # post \<and> matches q d \<and> ds' = pre @ apply_update us d # post)"

definition update_one_effect :: "query \<Rightarrow> update_op list \<Rightarrow> doc list \<Rightarrow> doc list \<Rightarrow> string + nat \<Rightarrow> bool" where
  "update_one_effect q us ds ds' r \<longleftrightarrow> (case r of
      Inr n \<Rightarrow> n = (if ds' = ds then 0 else 1) \<and>
        (one_updated q us ds ds' \<or> (\<forall>d \<in> set ds. \<not> matches q d) \<and> ds' = ds)
    | Inl _ \<Rightarrow> ds' = ds \<or> one_updated q us ds ds')"

definition update_many_effect :: "query \<Rightarrow> update_op list \<Rightarrow> doc list \<Rightarrow> doc list \<Rightarrow> string + nat \<Rightarrow> bool" where
  "update_many_effect q us ds ds' r \<longleftrightarrow> (case r of
      Inr n \<Rightarrow> ds' = map (\<lambda>d. if matches q d then apply_update us d else d) ds
    | Inl _ \<Rightarrow> list_all2 (\<lambda>d d'. d' = d \<or> matches q d \<and> d' = apply_update us d) ds ds')"

definition one_deleted :: "query \<Rightarrow> doc list \<Rightarrow> doc list \<Rightarrow> bool" where
  "one_deleted q ds ds' \<longleftrightarrow> (\<exists>pre d post. ds = pre @ d # post \<and> matches q d \<and> ds' = pre @ post)"

definition delete_one_effect :: "query \<Rightarrow> doc list \<Rightarrow> doc list \<Rightarrow> string + nat \<Rightarrow> bool" where
  "delete_one_effect q ds ds' r \<longleftrightarrow> (case r of
      Inr n \<Rightarrow> n = 1 \<and> one_deleted q ds ds' \<or> n = 0 \<and> (\<forall>d \<in> set ds. \<not> matches q d) \<and> ds' = ds
    | Inl _ \<Rightarrow> ds' = ds \<or> one_deleted q ds ds')"

definition delete_many_effect :: "query \<Rightarrow> doc list \<Rightarrow> doc list \<Rightarrow> string + nat \<Rightarrow> bool" where
  "delete_many_effect q ds ds' r \<longleftrightarrow> (case r of
      Inr n \<Rightarrow> ds' = filter (\<lambda>d. \<not> matches q d) ds
    | Inl _ \<Rightarrow> (\<exists>p. ds' = filter p ds \<and> (\<forall>d. \<not> p d \<longrightarrow> matches q d)))"

definition count_effect :: "query \<Rightarrow> doc list \<Rightarrow> string + nat \<Rightarrow> bool" where
  "count_effect q ds r \<longleftrightarrow> (case r of Inr n \<Rightarrow> n = length (filter (matches q) ds) | Inl _ \<Rightarrow> True)"

lemmas mongo_effects = insert_effect_def find_one_effect_def find_effect_def update_one_effect_def
  update_many_effect_def delete_one_effect_def delete_many_effect_def count_effect_def

locale mongo_collection =
  fixes ops :: "'c mongo_ops" and docs :: "'c \<Rightarrow> doc list" and valid :: "'c \<Rightarrow> bool"
  assumes insert_one: "valid c \<Longrightarrow> mo_InsertOne ops d c = (c', r1) \<Longrightarrow> insert_effect d (docs c) (docs c') r1 \<and> valid c'"
    and find_one: "valid c \<Longrightarrow> mo_FindOne ops q c = (c', r2) \<Longrightarrow>
      find_one_effect q (docs c) r2 \<and> docs c' = docs c \<and> valid c'"
    and find: "valid c \<Longrightarrow> mo_Find ops q opt c = (c', r3) \<Longrightarrow>
      find_effect q opt (docs c) r3 \<and> docs c' = docs c \<and> valid c'"
    and update_one: "valid c \<Longrightarrow> mo_UpdateOne ops q us c = (c', r4) \<Longrightarrow>
      update_one_effect q us (docs c) (docs c') r4 \<and> valid c'"
    and update_many: "valid c \<Longrightarrow> mo_UpdateMany ops q us c = (c', r5) \<Longrightarrow>
      update_many_effect q us (docs c) (docs c') r5 \<and> valid c'"
    and delete_one: "valid c \<Longrightarrow> mo_DeleteOne ops q c = (c', r6) \<Longrightarrow>
      delete_one_effect q (docs c) (docs c') r6 \<and> valid c'"
    and delete_many: "valid c \<Longrightarrow> mo_DeleteMany ops q c = (c', r7) \<Longrightarrow>
      delete_many_effect q (docs c) (docs c') r7 \<and> valid c'"
    and count: "valid c \<Longrightarrow> mo_Count ops q c = (c', r8) \<Longrightarrow>
      count_effect q (docs c) r8 \<and> docs c' = docs c \<and> valid c'"

text \<open>A unique index on a field: no two documents have the same value there.\<close>

definition unique_on :: "string \<Rightarrow> doc list \<Rightarrow> bool" where
  "unique_on k ds \<longleftrightarrow> distinct (map (\<lambda>d. map_of d k) ds)"

locale unique_collection = mongo_collection +
  fixes key :: string
  assumes unique: "valid c \<Longrightarrow> unique_on key (docs c)"

lemma unique_onD: "unique_on k ds \<Longrightarrow> d \<in> set ds \<Longrightarrow> e \<in> set ds \<Longrightarrow> map_of d k = map_of e k \<Longrightarrow> d = e"
  by (auto simp: unique_on_def distinct_map inj_on_def)

subsection \<open>A collection in memory\<close>

record mem_coll =
  mc_docs :: "doc list"
  mc_next :: nat

fun find_split :: "('a \<Rightarrow> bool) \<Rightarrow> 'a list \<Rightarrow> ('a list \<times> 'a \<times> 'a list) option" where
  "find_split p [] = None"
| "find_split p (x # xs) = (if p x then Some ([], x, xs)
     else map_option (\<lambda>(pre, y, post). (x # pre, y, post)) (find_split p xs))"

lemma find_split_Some: "find_split p xs = Some (pre, y, post) \<Longrightarrow> xs = pre @ y # post \<and> p y"
  by (induction xs arbitrary: pre) (auto split: if_splits)

lemma find_split_None: "find_split p xs = None \<longleftrightarrow> (\<forall>x \<in> set xs. \<not> p x)"
  by (induction xs) auto

definition mem_sorted :: "find_opts \<Rightarrow> doc list \<Rightarrow> doc list" where
  "mem_sorted opt ds = (case fo_sort_desc opt of
      None \<Rightarrow> ds
    | Some k \<Rightarrow> rev (sort_key (\<lambda>d. sort_val (map_of d k)) (rev ds)))"

definition uniques :: "string list \<Rightarrow> doc list \<Rightarrow> bool" where
  "uniques keys ds \<longleftrightarrow> (\<forall>k \<in> set keys. unique_on k ds)"

definition checked :: "string list \<Rightarrow> doc list \<Rightarrow> nat \<Rightarrow> mem_coll \<Rightarrow> mem_coll \<times> (string + nat)" where
  "checked keys ds n c =
     (if uniques keys ds then (c\<lparr>mc_docs := ds, mc_next := Suc (mc_next c)\<rparr>, Inr n)
      else (c, Inl ''duplicate key''))"

definition mem_ops :: "string list \<Rightarrow> mem_coll mongo_ops" where
  "mem_ops keys = \<lparr>
     mo_InsertOne = (\<lambda>d c. case map_of d ''_id'' of
         None \<Rightarrow> checked keys (mc_docs c @ [with_id (mc_next c) d]) (mc_next c) c
       | Some (BOid oid) \<Rightarrow> checked keys (mc_docs c @ [d]) oid c
       | Some _ \<Rightarrow> (c, Inl ''invalid id'')),
     mo_FindOne = (\<lambda>q c. (c, Inr (List.find (matches q) (mc_docs c)))),
     mo_Find = (\<lambda>q opt c. (c, if fo_skip opt < 0 then Inl ''invalid skip''
         else Inr (page opt (mem_sorted opt (filter (matches q) (mc_docs c)))))),
     mo_UpdateOne = (\<lambda>q us c. case find_split (matches q) (mc_docs c) of
         None \<Rightarrow> (c, Inr 0)
       | Some (pre, d, post) \<Rightarrow> checked keys (pre @ apply_update us d # post) (if apply_update us d = d then 0 else 1) c),
     mo_UpdateMany = (\<lambda>q us c. let ds = map (\<lambda>d. if matches q d then apply_update us d else d) (mc_docs c)
         in checked keys ds (length (filter (matches q) (mc_docs c))) c),
     mo_DeleteOne = (\<lambda>q c. case find_split (matches q) (mc_docs c) of
         None \<Rightarrow> (c, Inr 0)
       | Some (pre, d, post) \<Rightarrow> (c\<lparr>mc_docs := pre @ post\<rparr>, Inr 1)),
     mo_DeleteMany = (\<lambda>q c. (c\<lparr>mc_docs := filter (\<lambda>d. \<not> matches q d) (mc_docs c)\<rparr>,
         Inr (length (filter (matches q) (mc_docs c))))),
     mo_Count = (\<lambda>q c. (c, Inr (length (filter (matches q) (mc_docs c)))))\<rparr>"

lemma mem_sorted_ok: "mset (mem_sorted opt ds) = mset ds \<and> in_order opt (mem_sorted opt ds)"
  by (auto simp: mem_sorted_def in_order_def split: option.splits)

lemma checked_cases:
  "checked keys ds n c = (c', r) \<Longrightarrow>
   (r = Inr n \<and> mc_docs c' = ds \<and> uniques keys ds) \<or> (r = Inl ''duplicate key'' \<and> c' = c)"
  by (auto simp: checked_def split: if_splits)

lemma uniques_filter: "uniques keys ds \<Longrightarrow> uniques keys (filter p ds)"
  by (simp add: uniques_def unique_on_def distinct_map_filter)

lemma uniques_delete: "uniques keys (pre @ d # post) \<Longrightarrow> uniques keys (pre @ post)"
  by (auto simp: uniques_def unique_on_def)

lemma find_effect_List_find: "find_one_effect q ds (Inr (List.find (matches q) ds))"
  by (auto simp: find_one_effect_def find_None_iff find_Some_iff split: option.splits)

lemma one_updatedI: "matches q d \<Longrightarrow> one_updated q us (pre @ d # post) (pre @ apply_update us d # post)"
  by (auto simp: one_updated_def)

lemma one_deletedI: "matches q d \<Longrightarrow> one_deleted q (pre @ d # post) (pre @ post)"
  by (auto simp: one_deleted_def)

interpretation mem: mongo_collection "mem_ops keys" mc_docs "\<lambda>c. uniques keys (mc_docs c)"
proof unfold_locales
  fix c c' :: mem_coll and d r1
  assume "uniques keys (mc_docs c)" "mo_InsertOne (mem_ops keys) d c = (c', r1)"
  then show "insert_effect d (mc_docs c) (mc_docs c') r1 \<and> uniques keys (mc_docs c')"
    by (auto simp: mem_ops_def insert_effect_def with_id_def dest!: checked_cases split: option.splits bval.splits)
next
  fix c c' :: mem_coll and q r2
  assume "uniques keys (mc_docs c)" "mo_FindOne (mem_ops keys) q c = (c', r2)"
  then show "find_one_effect q (mc_docs c) r2 \<and> mc_docs c' = mc_docs c \<and> uniques keys (mc_docs c')"
    by (auto simp: mem_ops_def find_effect_List_find)
next
  fix c c' :: mem_coll and q opt r3
  assume "uniques keys (mc_docs c)" "mo_Find (mem_ops keys) q opt c = (c', r3)"
  then show "find_effect q opt (mc_docs c) r3 \<and> mc_docs c' = mc_docs c \<and> uniques keys (mc_docs c')"
    using mem_sorted_ok [of opt "filter (matches q) (mc_docs c)"]
    by (auto simp: mem_ops_def find_effect_def split: if_splits)
next
  fix c c' :: mem_coll and q us r4
  assume "uniques keys (mc_docs c)" "mo_UpdateOne (mem_ops keys) q us c = (c', r4)"
  then show "update_one_effect q us (mc_docs c) (mc_docs c') r4 \<and> uniques keys (mc_docs c')"
  proof (cases "find_split (matches q) (mc_docs c)")
    case None
    with \<open>mo_UpdateOne _ _ _ _ = _\<close> \<open>uniques _ _\<close> show ?thesis
      by (auto simp: mem_ops_def update_one_effect_def find_split_None)
  next
    case (Some x)
    obtain pre d post where x: "x = (pre, d, post)" by (cases x)
    with Some have ds: "mc_docs c = pre @ d # post" and m: "matches q d" by (auto dest: find_split_Some)
    then have "one_updated q us (mc_docs c) (pre @ apply_update us d # post)" by (simp add: one_updatedI)
    with Some x ds \<open>mo_UpdateOne _ _ _ _ = _\<close> \<open>uniques _ _\<close> show ?thesis
      by (auto simp: mem_ops_def update_one_effect_def dest!: checked_cases split: if_splits)
  qed
next
  fix c c' :: mem_coll and q us r5
  assume "uniques keys (mc_docs c)" "mo_UpdateMany (mem_ops keys) q us c = (c', r5)"
  then show "update_many_effect q us (mc_docs c) (mc_docs c') r5 \<and> uniques keys (mc_docs c')"
    by (auto simp: mem_ops_def update_many_effect_def Let_def list_all2_same dest!: checked_cases)
next
  fix c c' :: mem_coll and q r6
  assume "uniques keys (mc_docs c)" "mo_DeleteOne (mem_ops keys) q c = (c', r6)"
  then show "delete_one_effect q (mc_docs c) (mc_docs c') r6 \<and> uniques keys (mc_docs c')"
    by (auto simp: mem_ops_def delete_one_effect_def find_split_None one_deletedI
        dest!: find_split_Some dest: uniques_delete split: option.splits prod.splits)
next
  fix c c' :: mem_coll and q r7
  assume "uniques keys (mc_docs c)" "mo_DeleteMany (mem_ops keys) q c = (c', r7)"
  then show "delete_many_effect q (mc_docs c) (mc_docs c') r7 \<and> uniques keys (mc_docs c')"
    by (auto simp: mem_ops_def delete_many_effect_def uniques_filter)
next
  fix c c' :: mem_coll and q r8
  assume "uniques keys (mc_docs c)" "mo_Count (mem_ops keys) q c = (c', r8)"
  then show "count_effect q (mc_docs c) r8 \<and> mc_docs c' = mc_docs c \<and> uniques keys (mc_docs c')"
    by (auto simp: mem_ops_def count_effect_def)
qed

end
