(* ===== verification/Bson.thy ===== *)
theory Bson
  imports Mongo "HOL-Library.Monad_Syntax"
begin

text \<open>
  How the driver's struct codec reads and writes the fields of the models of
  \<^verbatim>\<open>internal/database/mongodb.go\<close>: each field under the name of its \<^verbatim>\<open>bson\<close> tag, an absent field as
  the zero value, a value of the wrong type or out of range as a decoding error (\<open>None\<close>), times in
  milliseconds, an \<^verbatim>\<open>omitempty\<close> string left out when empty. The lemmas say what each update operator
  does to a decoded field.
\<close>

subsection \<open>Fields\<close>

definition get_u64 :: "doc \<Rightarrow> string \<Rightarrow> u64 option" where
  "get_u64 d k = (case map_of d k of
      None \<Rightarrow> Some 0
    | Some (BInt i) \<Rightarrow> if 0 \<le> i \<and> i < 2 ^ 64 then Some (of_int i) else None
    | _ \<Rightarrow> None)"

definition get_int :: "nat \<Rightarrow> doc \<Rightarrow> string \<Rightarrow> int option" where
  "get_int w d k = (case map_of d k of
      None \<Rightarrow> Some 0
    | Some (BInt i) \<Rightarrow> if - (2 ^ (w - 1)) \<le> i \<and> i < 2 ^ (w - 1) then Some i else None
    | _ \<Rightarrow> None)"

definition get_str :: "doc \<Rightarrow> string \<Rightarrow> string option" where
  "get_str d k = (case map_of d k of None \<Rightarrow> Some [] | Some (BStr s) \<Rightarrow> Some s | _ \<Rightarrow> None)"

definition get_bool :: "doc \<Rightarrow> string \<Rightarrow> bool option" where
  "get_bool d k = (case map_of d k of None \<Rightarrow> Some False | Some (BBool b) \<Rightarrow> Some b | _ \<Rightarrow> None)"

definition get_time :: "doc \<Rightarrow> string \<Rightarrow> time option" where
  "get_time d k = (case map_of d k of
      None \<Rightarrow> Some 0 | Some (BDate ms) \<Rightarrow> Some (unix_epoch + ms * millisecond) | _ \<Rightarrow> None)"

definition get_oid :: "doc \<Rightarrow> nat option option" where
  "get_oid d = (case map_of d ''_id'' of None \<Rightarrow> Some None | Some (BOid n) \<Rightarrow> Some (Some n) | _ \<Rightarrow> None)"

definition get_item :: "(doc \<Rightarrow> 'a option) \<Rightarrow> bval \<Rightarrow> 'a option" where
  "get_item dec v = (case v of BDoc e \<Rightarrow> dec e | _ \<Rightarrow> None)"

definition get_list :: "(doc \<Rightarrow> 'a option) \<Rightarrow> doc \<Rightarrow> string \<Rightarrow> 'a list option" where
  "get_list dec d k = (case map_of d k of
      None \<Rightarrow> Some [] | Some (BArr vs) \<Rightarrow> those (map (get_item dec) vs) | _ \<Rightarrow> None)"

definition put_u64 :: "u64 \<Rightarrow> bval" where "put_u64 u = BInt (uint u)"

definition opt_str :: "string \<Rightarrow> string \<Rightarrow> doc" where
  "opt_str k s = (if s = [] then [] else [(k, BStr s)])"

definition opt_oid :: "nat option \<Rightarrow> doc" where
  "opt_oid oid = (case oid of None \<Rightarrow> [] | Some n \<Rightarrow> [(''_id'', BOid n)])"

declare map_of_append [simp del]

lemma opt_str_simps [simp]:
  "map_of (opt_str k s @ kvs) k' = (if k' = k \<and> s \<noteq> [] then Some (BStr s) else map_of kvs k')"
  "rev (opt_str k s) = opt_str k s"
  by (simp_all add: opt_str_def)

lemma opt_oid_simps [simp]:
  "map_of (opt_oid oid @ kvs) k = (if k = ''_id'' \<and> oid \<noteq> None then Some (BOid (the oid)) else map_of kvs k)"
  "map_of (opt_oid oid) k = (if k = ''_id'' \<and> oid \<noteq> None then Some (BOid (the oid)) else None)"
  "rev (opt_oid oid) = opt_oid oid"
  by (auto simp: opt_oid_def split: option.splits)

lemmas getters = get_u64_def get_int_def get_str_def get_bool_def get_time_def get_oid_def get_list_def

definition int_fits :: "nat \<Rightarrow> int \<Rightarrow> bool" where
  "int_fits w i \<longleftrightarrow> - (2 ^ (w - 1)) \<le> i \<and> i < 2 ^ (w - 1)"

subsection \<open>Reading what was written\<close>

lemma get_u64_cong [simp]: "map_of d k = Some (put_u64 u) \<Longrightarrow> get_u64 d k = Some u"
  using unsigned_less [of u] by (simp add: get_u64_def put_u64_def)

lemma get_int_cong [simp]: "map_of d k = Some (BInt i) \<Longrightarrow> int_fits w i \<Longrightarrow> get_int w d k = Some i"
  by (simp add: get_int_def int_fits_def)

lemma get_int_fits: "get_int w d k = Some i \<Longrightarrow> 0 < w \<Longrightarrow> int_fits w i"
  by (auto simp: get_int_def int_fits_def split: option.splits bval.splits if_splits)

lemma get_str_cong [simp]: "map_of d k = Some (BStr s) \<Longrightarrow> get_str d k = Some s"
  by (simp add: get_str_def)

lemma get_bool_cong [simp]: "map_of d k = Some (BBool b) \<Longrightarrow> get_bool d k = Some b"
  by (simp add: get_bool_def)

lemma get_time_cong [simp]: "map_of d k = Some (bson_time t) \<Longrightarrow> get_time d k = Some (trunc_ms t)"
  by (simp add: get_time_def bson_time_def trunc_ms_def)

lemma trunc_ms_idem [simp]: "trunc_ms (trunc_ms t) = trunc_ms t"
  by (simp add: trunc_ms_def millisecond_def)

lemma bson_time_trunc [simp]: "bson_time (trunc_ms t) = bson_time t"
  by (simp add: bson_time_def trunc_ms_def millisecond_def)

lemma get_time_trunc: "get_time d k = Some t \<Longrightarrow> map_of d k \<noteq> None \<Longrightarrow> trunc_ms t = t"
  by (auto simp: get_time_def trunc_ms_def millisecond_def split: option.splits bval.splits)

lemma those_map_Some: "(\<And>x. x \<in> set xs \<Longrightarrow> f (g x) = Some x) \<Longrightarrow> those (map (f \<circ> g) xs) = Some xs"
  by (induction xs) auto

lemma those_append: "those xs = Some as \<Longrightarrow> those (xs @ ys) = map_option ((@) as) (those ys)"
proof (induction xs arbitrary: as)
  case Nil
  then show ?case by (cases "those ys") auto
next
  case (Cons x xs)
  then show ?case by (cases "those ys") (auto split: option.splits)
qed

lemma those_filter:
  "those (map f vs) = Some xs \<Longrightarrow> (\<And>v x. v \<in> set vs \<Longrightarrow> f v = Some x \<Longrightarrow> p v = q x) \<Longrightarrow>
   those (map f (filter p vs)) = Some (filter q xs)"
proof (induction vs arbitrary: xs)
  case Nil
  then show ?case by simp
next
  case (Cons v vs)
  then obtain x ys where "f v = Some x" "those (map f vs) = Some ys" "xs = x # ys"
    by (auto split: option.splits)
  with Cons show ?case by auto
qed

lemma get_list_cong:
  "map_of d k = Some (BArr (map (\<lambda>x. BDoc (enc x)) xs)) \<Longrightarrow> (\<And>x. x \<in> set xs \<Longrightarrow> dec (enc x) = Some x) \<Longrightarrow>
   get_list dec d k = Some xs"
  using those_map_Some [of xs "get_item dec" "\<lambda>x. BDoc (enc x)"]
  by (simp add: get_list_def get_item_def comp_def)

subsection \<open>Reading after an update\<close>

text \<open>A field an operator does not name keeps its value, so every reading of it does.\<close>

fun touched :: "update_op \<Rightarrow> string set" where
  "touched (USet kvs) = fst ` set kvs"
| "touched (UInc k _) = {k}"
| "touched (UPush k _) = {k}"
| "touched (UPull k _) = {k}"

lemma untouched_op: "k \<notin> touched u \<Longrightarrow> map_of (apply_op u d) k = map_of d k"
proof (cases u)
  case (USet kvs)
  assume "k \<notin> touched u"
  with USet have "map_of (rev kvs) k = None" by (simp add: map_of_eq_None_iff)
  with USet show ?thesis by simp
qed (auto simp: apply_op.simps update_conv' split: option.splits bval.splits)

lemma getters_untouched [simp]:
  assumes "k \<notin> touched u"
  shows "get_u64 (apply_op u d) k = get_u64 d k" "get_int w (apply_op u d) k = get_int w d k"
    "get_str (apply_op u d) k = get_str d k" "get_bool (apply_op u d) k = get_bool d k"
    "get_time (apply_op u d) k = get_time d k" "get_list dec (apply_op u d) k = get_list dec d k"
  using assms by (simp_all add: getters untouched_op)

lemma get_oid_untouched [simp]: "''_id'' \<notin> touched u \<Longrightarrow> get_oid (apply_op u d) = get_oid d"
  by (simp add: get_oid_def untouched_op)

lemma set_time [simp]: "get_time (apply_op (USet [(k, bson_time t)]) d) k = Some (trunc_ms t)"
  by (rule get_time_cong) simp

lemma set_bool [simp]:
  "k \<notin> fst ` set kvs \<Longrightarrow> get_bool (apply_op (USet ((k, BBool b) # kvs)) d) k = Some b"
  by (rule get_bool_cong) (simp add: map_of_append map_add_def map_of_eq_None_iff [THEN iffD2])

lemma apply_update_Cons [simp]: "apply_update (u # us) d = apply_update us (apply_op u d)" "apply_update [] d = d"
  by (simp_all add: apply_update_def)

lemma inc_field [simp]:
  "get_int w d k = Some m \<Longrightarrow> int_fits w (m + n) \<Longrightarrow> get_int w (apply_op (UInc k n) d) k = Some (m + n)"
  by (auto simp: get_int_def int_fits_def apply_op.simps update_conv' split: option.splits bval.splits if_splits)

lemma push_field [simp]:
  "get_list dec d k = Some xs \<Longrightarrow> dec e = Some x \<Longrightarrow> get_list dec (apply_op (UPush k (BDoc e)) d) k = Some (xs @ [x])"
  by (auto simp: get_list_def apply_op.simps update_conv' get_item_def those_append split: option.splits bval.splits)

lemma pull_field:
  assumes "get_list dec d k = Some xs" and "\<And>e x. dec e = Some x \<Longrightarrow> matches q e = p x"
  shows "get_list dec (apply_op (UPull k q) d) k = Some (filter (\<lambda>x. \<not> p x) xs)"
proof -
  have "get_item dec v = Some x \<Longrightarrow> (\<not> pulled q v) = (\<not> p x)" for v x
    using assms(2) by (cases v) (auto simp: get_item_def)
  with assms(1) show ?thesis
    by (auto simp: get_list_def apply_op.simps update_conv' intro!: those_filter split: option.splits bval.splits)
qed

end
