(* ===== verification/Repository.thy ===== *)
theory Repository
  imports Bson
begin

text \<open>
  The pattern all repositories of \<^verbatim>\<open>internal/database/mongodb.go\<close> share: a collection with a unique
  index on a 64-bit identifier, whose documents decode to one model. \<open>view\<close> is the abstract state, a
  map from identifiers to models; the locale \<open>document_store\<close> extends \<open>unique_collection\<close> and derives
  what an insert, a lookup, an update and a delete by identifier do to that map.
\<close>

definition view :: "(doc \<Rightarrow> 'r option) \<Rightarrow> ('r \<Rightarrow> u64) \<Rightarrow> doc list \<Rightarrow> u64 \<Rightarrow> 'r option" where
  "view dec kf ds i = (case List.find (\<lambda>d. map_option kf (dec d) = Some i) ds of None \<Rightarrow> None | Some d \<Rightarrow> dec d)"

definition rows_ok :: "string \<Rightarrow> (doc \<Rightarrow> 'r option) \<Rightarrow> ('r \<Rightarrow> u64) \<Rightarrow> doc list \<Rightarrow> bool" where
  "rows_ok key dec kf ds \<longleftrightarrow> unique_on key ds \<and>
     (\<forall>d \<in> set ds. \<exists>r. dec d = Some r \<and> map_of d key = Some (put_u64 (kf r)))"

text \<open>
  The effect of a call on the map. After an error the effect may or may not have happened: the answer
  of the database may have been lost.
\<close>

definition created :: "u64 \<Rightarrow> (nat \<Rightarrow> 'r) \<Rightarrow> (u64 \<Rightarrow> 'r option) \<Rightarrow> (u64 \<Rightarrow> 'r option) \<Rightarrow> string + nat \<Rightarrow> bool" where
  "created i f m m' r \<longleftrightarrow> (case r of
      Inr n \<Rightarrow> m i = None \<and> m' = m(i \<mapsto> f n)
    | Inl _ \<Rightarrow> m' = m \<or> (\<exists>n. m i = None \<and> m' = m(i \<mapsto> f n)))"

definition changed :: "u64 \<Rightarrow> ('r \<Rightarrow> 'r) \<Rightarrow> (u64 \<Rightarrow> 'r option) \<Rightarrow> (u64 \<Rightarrow> 'r option) \<Rightarrow> bool \<Rightarrow> bool" where
  "changed i g m m' failed \<longleftrightarrow> m' = m(i := map_option g (m i)) \<or> failed \<and> m' = m"

definition removed :: "u64 \<Rightarrow> (u64 \<Rightarrow> 'r option) \<Rightarrow> (u64 \<Rightarrow> 'r option) \<Rightarrow> bool \<Rightarrow> bool" where
  "removed i m m' failed \<longleftrightarrow> m' = m(i := None) \<or> failed \<and> m' = m"

text \<open>The idiom \<^verbatim>\<open>if err != nil { return fmt.Errorf("...: %v", err) }; return nil\<close>.\<close>

definition errorf :: "string \<Rightarrow> string \<Rightarrow> string" where "errorf msg e = msg @ '': '' @ e"

definition wrap_err :: "string \<Rightarrow> string + 'a \<Rightarrow> string option" where
  "wrap_err msg r = (case r of Inl e \<Rightarrow> Some (errorf msg e) | Inr _ \<Rightarrow> None)"

lemma wrap_err_None [simp]: "wrap_err msg r = None \<longleftrightarrow> \<not> isl r"
  by (simp add: wrap_err_def split: sum.splits)

lemma apsnd_eq: "apsnd f p = (c, x) \<longleftrightarrow> (\<exists>y. p = (c, y) \<and> x = f y)"
  by (cases p) auto

lemma put_u64_eq [simp]: "put_u64 a = put_u64 b \<longleftrightarrow> a = b"
  by (simp add: put_u64_def word_uint_eq_iff)

lemma unique_on_split:
  "unique_on k (pre @ d # post) \<longleftrightarrow>
     unique_on k (pre @ post) \<and> (\<forall>e \<in> set pre \<union> set post. map_of e k \<noteq> map_of d k)"
proof -
  have "v \<notin> (\<lambda>d. map_of d k) ` A \<longleftrightarrow> (\<forall>e \<in> A. map_of e k \<noteq> v)" for v and A :: "doc set" by auto
  then show ?thesis by (simp add: unique_on_def) blast
qed

lemma rows_ok_snoc:
  "rows_ok key dec kf (ds @ [d]) \<longleftrightarrow> rows_ok key dec kf ds \<and>
     (\<exists>r. dec d = Some r \<and> map_of d key = Some (put_u64 (kf r)) \<and> (\<forall>e \<in> set ds. map_of e key \<noteq> map_of d key))"
  using unique_on_split [of key ds d "[]"] by (auto simp: rows_ok_def)

lemma rows_ok_keyD:
  "rows_ok key dec kf ds \<Longrightarrow> d \<in> set ds \<Longrightarrow> dec d = Some r \<Longrightarrow> map_of d key = Some (put_u64 (kf r))"
  by (auto simp: rows_ok_def)

lemma match_key:
  "rows_ok key dec kf ds \<Longrightarrow> d \<in> set ds \<Longrightarrow> matches (QEq key (put_u64 i)) d \<longleftrightarrow> map_option kf (dec d) = Some i"
proof -
  assume "rows_ok key dec kf ds" "d \<in> set ds"
  then obtain r where "dec d = Some r" "map_of d key = Some (put_u64 (kf r))" unfolding rows_ok_def by blast
  then show "matches (QEq key (put_u64 i)) d \<longleftrightarrow> map_option kf (dec d) = Some i"
    by (simp add: put_u64_def word_uint_eq_iff)
qed

lemma view_in:
  assumes "rows_ok key dec kf ds" and "d \<in> set ds" and "dec d = Some r"
  shows "view dec kf ds (kf r) = Some r"
proof -
  have "\<exists>x. List.find (\<lambda>d. map_option kf (dec d) = Some (kf r)) ds = Some x"
    using assms by (auto simp: find_None_iff not_None_eq [symmetric] simp del: not_None_eq)
  then obtain x where x: "List.find (\<lambda>d. map_option kf (dec d) = Some (kf r)) ds = Some x" by blast
  then have xs: "x \<in> set ds" "map_option kf (dec x) = Some (kf r)" by (auto dest: find_Some_iff_map)
  then have "map_of x key = map_of d key" using assms by (auto simp: rows_ok_keyD)
  then have "x = d" using assms xs unique_onD [of key ds x d] by (simp add: rows_ok_def)
  with x assms(3) show ?thesis by (simp add: view_def)
qed

lemma view_Some: "view dec kf ds i = Some r \<Longrightarrow> kf r = i \<and> (\<exists>d \<in> set ds. dec d = Some r)"
  by (auto simp: view_def dest!: find_Some_iff_map split: option.splits)

lemma view_None: "rows_ok key dec kf ds \<Longrightarrow> view dec kf ds i = None \<longleftrightarrow> (\<forall>d \<in> set ds. map_option kf (dec d) \<noteq> Some i)"
  using view_in [of key dec kf ds] view_Some [of dec kf ds i] by (cases "view dec kf ds i") fastforce+

lemma view_iff:
  "rows_ok key dec kf ds \<Longrightarrow> view dec kf ds i = Some r \<longleftrightarrow> (\<exists>d \<in> set ds. dec d = Some r \<and> kf r = i)"
  using view_in [of key dec kf ds] view_Some [of dec kf ds i r] by blast

lemma view_eqI:
  assumes "rows_ok key dec kf ds"
    and "\<And>i r. f i = Some r \<longleftrightarrow> (\<exists>d \<in> set ds. dec d = Some r \<and> kf r = i)"
  shows "view dec kf ds = f"
proof
  fix i
  have "view dec kf ds i = Some r \<longleftrightarrow> f i = Some r" for r
    using assms(2) [of i r] view_iff [OF assms(1), of i r] by simp
  then show "view dec kf ds i = f i" by (cases "f i"; cases "view dec kf ds i") auto
qed

lemma view_insert:
  assumes "rows_ok key dec kf (ds @ [d])" and "dec d = Some r"
  shows "view dec kf (ds @ [d]) = (view dec kf ds)(kf r \<mapsto> r)" and "view dec kf ds (kf r) = None"
proof -
  have ok: "rows_ok key dec kf ds" and new: "\<forall>e \<in> set ds. map_of e key \<noteq> Some (put_u64 (kf r))"
    using assms by (auto simp: rows_ok_snoc)
  then show "view dec kf ds (kf r) = None" by (auto simp: view_None rows_ok_keyD)
  then show "view dec kf (ds @ [d]) = (view dec kf ds)(kf r \<mapsto> r)"
    using assms ok by (intro view_eqI [OF assms(1)]) (auto simp: view_iff [OF ok] view_None [OF ok] split: if_splits)
qed

lemma rows_split:
  assumes "rows_ok key dec kf (pre @ d # post)" and "dec d = Some r" and "e \<in> set pre \<union> set post" and "dec e = Some x"
  shows "kf x \<noteq> kf r"
proof
  assume "kf x = kf r"
  moreover have "map_of e key = Some (put_u64 (kf x))" "map_of d key = Some (put_u64 (kf r))"
    using assms by (auto intro!: rows_ok_keyD [OF assms(1)])
  ultimately show False using assms(1,3) by (auto simp: rows_ok_def unique_on_split)
qed

lemma view_update:
  assumes ok: "rows_ok key dec kf (pre @ d # post)" and d: "dec d = Some r" "dec d' = Some r'"
    and k: "kf r' = kf r" "map_of d' key = Some (put_u64 (kf r))"
  shows "rows_ok key dec kf (pre @ d' # post)"
    and "view dec kf (pre @ d' # post) = (view dec kf (pre @ d # post))(kf r \<mapsto> r')"
proof -
  have "map_of d key = Some (put_u64 (kf r))" using ok d by (auto intro: rows_ok_keyD)
  then show ok': "rows_ok key dec kf (pre @ d' # post)" using ok d k by (auto simp: rows_ok_def unique_on_split)
  show "view dec kf (pre @ d' # post) = (view dec kf (pre @ d # post))(kf r \<mapsto> r')"
    using d k rows_split [OF ok d(1)]
    by (intro view_eqI [OF ok']) (auto simp: view_iff [OF ok] split: if_splits)
qed

lemma view_delete:
  assumes ok: "rows_ok key dec kf (pre @ d # post)" and d: "dec d = Some r"
  shows "rows_ok key dec kf (pre @ post)"
    and "view dec kf (pre @ post) = (view dec kf (pre @ d # post))(kf r := None)"
proof -
  show ok': "rows_ok key dec kf (pre @ post)" using ok by (auto simp: rows_ok_def unique_on_split)
  show "view dec kf (pre @ post) = (view dec kf (pre @ d # post))(kf r := None)"
    using d rows_split [OF ok d]
    by (intro view_eqI [OF ok']) (auto simp: view_iff [OF ok] split: if_splits)
qed

subsection \<open>The calls, seen through the view\<close>

locale document_store = unique_collection ops docs valid key
  for ops :: "'c mongo_ops" and docs valid key +
  fixes dec :: "doc \<Rightarrow> 'r option" and kf :: "'r \<Rightarrow> u64"
begin

lemma store_find_one:
  assumes "valid c" and "rows_ok key dec kf (docs c)" and "mo_FindOne ops (QEq key (put_u64 i)) c = (c', r)"
  shows "docs c' = docs c \<and> valid c' \<and> (case r of
      Inr None \<Rightarrow> view dec kf (docs c) i = None
    | Inr (Some d) \<Rightarrow> d \<in> set (docs c) \<and> dec d \<noteq> None \<and> view dec kf (docs c) i = dec d
    | Inl _ \<Rightarrow> True)"
proof -
  note e = find_one [OF assms(1,3)]
  show ?thesis
  proof (cases r)
    case (Inr x)
    show ?thesis
    proof (cases x)
      case None
      with e Inr match_key [OF assms(2)] show ?thesis
        by (auto simp: find_one_effect_def view_None [OF assms(2)])
    next
      case (Some d)
      with e Inr have d: "d \<in> set (docs c)" "map_option kf (dec d) = Some i"
        using match_key [OF assms(2)] by (auto simp: find_one_effect_def simp del: matches.simps)
      then obtain x where "dec d = Some x" "kf x = i" by auto
      with d Some Inr e view_in [OF assms(2), of d x] show ?thesis by auto
    qed
  qed (use e in auto)
qed

lemma store_insert:
  assumes "valid c" and ok: "rows_ok key dec kf (docs c)" and ins: "mo_InsertOne ops d c = (c', r)"
    and d: "\<And>n. dec (with_id n d) = Some (f n) \<and> kf (f n) = i" "map_of d key = Some (put_u64 i)" "key \<noteq> ''_id''"
  shows "rows_ok key dec kf (docs c') \<and> valid c' \<and>
    created i f (view dec kf (docs c)) (view dec kf (docs c')) r"
proof -
  have e: "insert_effect d (docs c) (docs c') r" and v: "valid c'" using insert_one [OF assms(1) ins] by auto
  have k: "map_of (with_id n d) key = Some (put_u64 i)" for n using d by (simp add: with_id_def)
  have new: "rows_ok key dec kf (docs c') \<and> view dec kf (docs c) i = None \<and>
      view dec kf (docs c') = (view dec kf (docs c))(i \<mapsto> f n)" if eq: "docs c' = docs c @ [with_id n d]" for n
  proof -
    have "rows_ok key dec kf (docs c @ [with_id n d])"
      using unique [OF v] ok d(1) [of n] k [of n] unique_on_split [of key "docs c" "with_id n d" "[]"]
      by (auto simp: eq rows_ok_snoc)
    with eq d(1) [of n] view_insert [of key dec kf "docs c" "with_id n d" "f n"] show ?thesis by simp
  qed
  from e v new ok show ?thesis by (cases r) (auto simp: insert_effect_def created_def)
qed

lemma store_update_one:
  assumes "valid c" and ok: "rows_ok key dec kf (docs c)" and up: "mo_UpdateOne ops (QEq key (put_u64 i)) us c = (c', r)"
    and g: "\<And>d x. d \<in> set (docs c) \<Longrightarrow> dec d = Some x \<Longrightarrow> kf x = i \<Longrightarrow>
        dec (apply_update us d) = Some (g x) \<and> kf (g x) = i \<and> map_of (apply_update us d) key = map_of d key"
  shows "rows_ok key dec kf (docs c') \<and> valid c' \<and>
    changed i g (view dec kf (docs c)) (view dec kf (docs c')) (isl r)"
proof -
  let ?new = "(view dec kf (docs c))(i := map_option g (view dec kf (docs c) i))"
  have e: "update_one_effect (QEq key (put_u64 i)) us (docs c) (docs c') r" and v: "valid c'"
    using update_one [OF assms(1) up] by auto
  have up1: "rows_ok key dec kf (docs c') \<and> view dec kf (docs c') = ?new"
    if u: "one_updated (QEq key (put_u64 i)) us (docs c) (docs c')"
  proof -
    from u obtain pre d post where s: "docs c = pre @ d # post" "docs c' = pre @ apply_update us d # post"
      and m: "matches (QEq key (put_u64 i)) d" unfolding one_updated_def by blast
    with match_key [OF ok, of d i] obtain x where x: "dec d = Some x" "kf x = i" by auto
    note y = g [of d x] rows_ok_keyD [OF ok, of d x]
    from s x view_in [OF ok, of d x] have "view dec kf (docs c) i = Some x" by simp
    with view_update [of key dec kf pre d post x "apply_update us d" "g x"] ok s x y show ?thesis by simp
  qed
  have none: "docs c' = docs c \<Longrightarrow> \<forall>d \<in> set (docs c). \<not> matches (QEq key (put_u64 i)) d \<Longrightarrow> view dec kf (docs c') = ?new"
    using match_key [OF ok] view_None [OF ok, of i] by (auto simp del: matches.simps)
  from e v up1 none ok show ?thesis unfolding changed_def
    by (cases r) (auto simp: update_one_effect_def simp del: matches.simps)
qed

lemma store_delete_one:
  assumes "valid c" and ok: "rows_ok key dec kf (docs c)" and del: "mo_DeleteOne ops (QEq key (put_u64 i)) c = (c', r)"
  shows "rows_ok key dec kf (docs c') \<and> valid c' \<and>
    removed i (view dec kf (docs c)) (view dec kf (docs c')) (isl r)"
proof -
  have e: "delete_one_effect (QEq key (put_u64 i)) (docs c) (docs c') r" and v: "valid c'"
    using delete_one [OF assms(1) del] by auto
  have d1: "rows_ok key dec kf (docs c') \<and> view dec kf (docs c') = (view dec kf (docs c))(i := None)"
    if u: "one_deleted (QEq key (put_u64 i)) (docs c) (docs c')"
  proof -
    from u obtain pre d post where s: "docs c = pre @ d # post" "docs c' = pre @ post"
      and m: "matches (QEq key (put_u64 i)) d" unfolding one_deleted_def by blast
    with match_key [OF ok, of d i] obtain x where x: "dec d = Some x" "kf x = i" by auto
    with view_delete [of key dec kf pre d post x] ok s show ?thesis by simp
  qed
  have none: "docs c' = docs c \<Longrightarrow> \<forall>d \<in> set (docs c). \<not> matches (QEq key (put_u64 i)) d \<Longrightarrow>
      view dec kf (docs c') = (view dec kf (docs c))(i := None)"
    using match_key [OF ok] view_None [OF ok, of i] by (auto simp del: matches.simps)
  from e v d1 none ok show ?thesis unfolding removed_def
    by (cases r) (auto simp: delete_one_effect_def simp del: matches.simps)
qed

end

end
