(* ===== verification/Rows.thy ===== *)
theory Rows
  imports Repository
begin

text \<open>
  Collections without a unique index, seen as the list of the models their documents decode to: what a
  call of the driver does to that list, for any selection \<open>p\<close> and change \<open>g\<close> of models that the filter
  and the update implement. The repositories for game records, friends, mails and chat share it.
\<close>

definition rows_all :: "(doc \<Rightarrow> 'r option) \<Rightarrow> doc list \<Rightarrow> bool" where
  "rows_all row ds \<longleftrightarrow> (\<forall>d \<in> set ds. row d \<noteq> None)"

definition rows_in :: "(doc \<Rightarrow> 'r option) \<Rightarrow> ('c \<Rightarrow> doc list) \<Rightarrow> 'c \<Rightarrow> 'r list" where
  "rows_in row docs c = map (the \<circ> row) (docs c)"

definition rows_valid :: "(doc \<Rightarrow> 'r option) \<Rightarrow> ('c \<Rightarrow> doc list) \<Rightarrow> ('c \<Rightarrow> bool) \<Rightarrow> 'c \<Rightarrow> bool" where
  "rows_valid row docs valid c \<longleftrightarrow> valid c \<and> rows_all row (docs c)"

definition one_changed :: "('r \<Rightarrow> bool) \<Rightarrow> ('r \<Rightarrow> 'r) \<Rightarrow> 'r list \<Rightarrow> 'r list \<Rightarrow> bool" where
  "one_changed p g rs rs' \<longleftrightarrow> (\<exists>pre x post. rs = pre @ x # post \<and> p x \<and> rs' = pre @ g x # post)"

definition one_removed :: "('r \<Rightarrow> bool) \<Rightarrow> 'r list \<Rightarrow> 'r list \<Rightarrow> bool" where
  "one_removed p rs rs' \<longleftrightarrow> (\<exists>pre x post. rs = pre @ x # post \<and> p x \<and> rs' = pre @ post)"

text \<open>The effect of one call that changes or removes a record that satisfies \<open>p\<close>.\<close>

definition changed_or_none :: "('r \<Rightarrow> bool) \<Rightarrow> ('r \<Rightarrow> 'r) \<Rightarrow> bool \<Rightarrow> 'r list \<Rightarrow> 'r list \<Rightarrow> bool" where
  "changed_or_none p g failed rs rs' \<longleftrightarrow> one_changed p g rs rs' \<or> (failed \<or> (\<forall>x \<in> set rs. \<not> p x)) \<and> rs' = rs"

definition removed_or_none :: "('r \<Rightarrow> bool) \<Rightarrow> bool \<Rightarrow> 'r list \<Rightarrow> 'r list \<Rightarrow> bool" where
  "removed_or_none p failed rs rs' \<longleftrightarrow> one_removed p rs rs' \<or> (failed \<or> (\<forall>x \<in> set rs. \<not> p x)) \<and> rs' = rs"

lemma one_changed_set: "one_changed p g rs rs' \<Longrightarrow> y \<in> set rs' \<Longrightarrow> y \<in> set rs \<or> (\<exists>x \<in> set rs. p x \<and> y = g x)"
  by (auto simp: one_changed_def)

lemma one_changed_keep: "one_changed p g rs rs' \<Longrightarrow> y \<in> set rs \<Longrightarrow> y \<in> set rs' \<or> p y \<and> g y \<in> set rs'"
  by (auto simp: one_changed_def)

lemma one_changed_hit: "one_changed p g rs rs' \<Longrightarrow> \<exists>x \<in> set rs. p x \<and> g x \<in> set rs'"
  by (auto simp: one_changed_def)

lemma one_removed_set: "one_removed p rs rs' \<Longrightarrow> set rs' \<subseteq> set rs"
  by (auto simp: one_removed_def)

lemma one_removed_keep: "one_removed p rs rs' \<Longrightarrow> y \<in> set rs \<Longrightarrow> \<not> p y \<Longrightarrow> y \<in> set rs'"
  by (auto simp: one_removed_def)

lemma one_changed_filter:
  "one_changed p g rs rs' \<Longrightarrow> (\<And>x. p x \<Longrightarrow> \<not> q x \<and> \<not> q (g x)) \<Longrightarrow> filter q rs' = filter q rs"
  by (auto simp: one_changed_def)

lemma one_removed_filter: "one_removed p rs rs' \<Longrightarrow> (\<And>x. p x \<Longrightarrow> \<not> q x) \<Longrightarrow> filter q rs' = filter q rs"
  by (auto simp: one_removed_def)

text \<open>A number with \<^verbatim>\<open>omitempty\<close>, an error returned as it is, and the filters on one field.\<close>

definition opt_u64 :: "string \<Rightarrow> u64 \<Rightarrow> doc" where
  "opt_u64 k u = (if u = 0 then [] else [(k, put_u64 u)])"

definition raw_err :: "string + 'a \<Rightarrow> string option" where
  "raw_err r = (case r of Inl e \<Rightarrow> Some e | Inr _ \<Rightarrow> None)"

lemma raw_err_None [simp]: "raw_err r = None \<longleftrightarrow> \<not> isl r"
  by (simp add: raw_err_def split: sum.splits)

lemma get_u64_opt: "map_of d k = (if u = 0 then None else Some (put_u64 u)) \<Longrightarrow> get_u64 d k = Some u"
  by (cases "u = 0") (simp add: get_u64_def, simp)

lemma u64_match: "get_u64 d k = Some u \<Longrightarrow> map_of d k \<noteq> None \<Longrightarrow> matches (QEq k (put_u64 i)) d \<longleftrightarrow> u = i"
  by (auto simp: get_u64_def put_u64_def word_uint_eq_iff uint_word_of_int_eq take_bit_int_eq_self
      split: option.splits bval.splits if_splits)

lemma int_match: "get_int w d k = Some n \<Longrightarrow> map_of d k \<noteq> None \<Longrightarrow> matches (QEq k (BInt i)) d \<longleftrightarrow> n = i"
  by (auto simp: get_int_def split: option.splits bval.splits if_splits)

context mongo_collection
begin

abbreviation "holds row \<equiv> rows_valid row docs valid"

abbreviation "rows row \<equiv> rows_in row docs"

lemma in_rows: "rows_all row (docs c) \<Longrightarrow> d \<in> set (docs c) \<Longrightarrow> \<exists>x \<in> set (rows row c). row d = Some x"
  by (fastforce simp: rows_in_def rows_all_def)

lemma rows_insert:
  assumes "holds row c" and "mo_InsertOne ops d c = (c', y)" and row: "\<And>n. row (with_id n d) = Some (f n)"
  shows "holds row c' \<and> ((\<exists>n. rows row c' = rows row c @ [f n]) \<or> isl y \<and> rows row c' = rows row c)"
proof -
  have v: "valid c" "rows_all row (docs c)" using assms(1) by (simp_all add: rows_valid_def)
  from insert_one [OF v(1) assms(2)] v(2) row show ?thesis
    by (cases y) (auto simp: insert_effect_def rows_valid_def rows_in_def rows_all_def)
qed

lemma rows_update_one:
  assumes "holds row c" and "mo_UpdateOne ops q us c = (c', y)"
    and q: "\<And>d x. row d = Some x \<Longrightarrow> matches q d \<longleftrightarrow> p x"
    and g: "\<And>d x. row d = Some x \<Longrightarrow> p x \<Longrightarrow> row (apply_update us d) = Some (g x)"
  shows "holds row c' \<and> (one_changed p g (rows row c) (rows row c') \<or>
    (isl y \<or> (\<forall>x \<in> set (rows row c). \<not> p x)) \<and> rows row c' = rows row c)"
proof -
  have v: "valid c" "rows_all row (docs c)" using assms(1) by (simp_all add: rows_valid_def)
  note u = update_one [OF v(1) assms(2)]
  have one: "rows_all row (docs c') \<and> one_changed p g (rows row c) (rows row c')"
    if up: "one_updated q us (docs c) (docs c')"
  proof -
    from up obtain pre d post where s: "docs c = pre @ d # post" "matches q d" "docs c' = pre @ apply_update us d # post"
      unfolding one_updated_def by (elim exE conjE) (rule that, assumption+)
    from v(2) s obtain x where x: "row d = Some x" by (auto simp: rows_all_def)
    with q [OF x] g [OF x] s v(2) show ?thesis
      by (auto simp: rows_all_def rows_in_def one_changed_def simp del: apply_update_Cons)
  qed
  have none: "\<forall>x \<in> set (rows row c). \<not> p x" if "\<forall>d \<in> set (docs c). \<not> matches q d"
    using that q v(2) by (fastforce simp: rows_in_def rows_all_def)
  from u one none v(2) show ?thesis
    by (cases y) (auto simp: update_one_effect_def rows_valid_def rows_in_def)
qed

lemma rows_delete_one:
  assumes "holds row c" and "mo_DeleteOne ops q c = (c', y)" and q: "\<And>d x. row d = Some x \<Longrightarrow> matches q d \<longleftrightarrow> p x"
  shows "holds row c' \<and> (case y of
      Inr n \<Rightarrow> n = 1 \<and> one_removed p (rows row c) (rows row c') \<or>
        n = 0 \<and> (\<forall>x \<in> set (rows row c). \<not> p x) \<and> rows row c' = rows row c
    | Inl _ \<Rightarrow> rows row c' = rows row c \<or> one_removed p (rows row c) (rows row c'))"
proof -
  have v: "valid c" "rows_all row (docs c)" using assms(1) by (simp_all add: rows_valid_def)
  note u = delete_one [OF v(1) assms(2)]
  have one: "rows_all row (docs c') \<and> one_removed p (rows row c) (rows row c')"
    if del: "one_deleted q (docs c) (docs c')"
  proof -
    from del obtain pre d post where s: "docs c = pre @ d # post" "matches q d" "docs c' = pre @ post"
      unfolding one_deleted_def by (elim exE conjE) (rule that, assumption+)
    from v(2) s obtain x where x: "row d = Some x" by (auto simp: rows_all_def)
    with q [OF x] s v(2) show ?thesis by (auto simp: rows_all_def rows_in_def one_removed_def)
  qed
  have none: "\<forall>x \<in> set (rows row c). \<not> p x" if "\<forall>d \<in> set (docs c). \<not> matches q d"
    using that q v(2) by (fastforce simp: rows_in_def rows_all_def)
  from u one none v(2) show ?thesis
    by (cases y) (auto simp: delete_one_effect_def rows_valid_def rows_in_def)
qed

lemma rows_delete_many:
  assumes "holds row c" and "mo_DeleteMany ops q c = (c', Inr n)" and q: "\<And>d x. row d = Some x \<Longrightarrow> matches q d \<longleftrightarrow> p x"
  shows "holds row c' \<and> rows row c' = filter (\<lambda>x. \<not> p x) (rows row c)"
proof -
  have v: "valid c" "rows_all row (docs c)" using assms(1) by (simp_all add: rows_valid_def)
  have d: "docs c' = filter (\<lambda>d. \<not> matches q d) (docs c)" "valid c'"
    using delete_many [OF v(1) assms(2)] by (simp_all add: delete_many_effect_def)
  have "map (the \<circ> row) (filter (\<lambda>d. \<not> matches q d) ds) = filter (\<lambda>x. \<not> p x) (map (the \<circ> row) ds)" if "rows_all row ds" for ds
    using that q by (induction ds) (auto simp: rows_all_def)
  with v d show ?thesis by (auto simp: rows_valid_def rows_in_def rows_all_def)
qed

lemma rows_delete_none:
  assumes "holds row c" and "mo_DeleteMany ops q c = (c', y)" and q: "\<And>d x. row d = Some x \<Longrightarrow> \<not> matches q d"
  shows "holds row c' \<and> rows row c' = rows row c"
proof -
  have v: "valid c" "rows_all row (docs c)" using assms(1) by (simp_all add: rows_valid_def)
  note u = delete_many [OF v(1) assms(2)]
  have "\<not> matches q d" if "d \<in> set (docs c)" for d
    using that v(2) q by (auto simp: rows_all_def)
  with u have "docs c' = docs c"
    by (cases y) (fastforce simp: delete_many_effect_def filter_id_conv)+
  with u v show ?thesis by (simp add: rows_valid_def rows_in_def)
qed

lemma rows_find_one:
  assumes "holds row c" and "mo_FindOne ops q c = (c', y)" and q: "\<And>d x. row d = Some x \<Longrightarrow> matches q d \<longleftrightarrow> p x"
  shows "holds row c' \<and> rows row c' = rows row c \<and> (case y of
      Inr None \<Rightarrow> (\<forall>x \<in> set (rows row c). \<not> p x)
    | Inr (Some d) \<Rightarrow> (\<exists>x \<in> set (rows row c). p x \<and> row d = Some x)
    | Inl _ \<Rightarrow> True)"
proof -
  have v: "valid c" "rows_all row (docs c)" using assms(1) by (simp_all add: rows_valid_def)
  note u = find_one [OF v(1) assms(2)]
  have hit: "\<exists>x \<in> set (rows row c). p x \<and> row d = Some x" if "d \<in> set (docs c)" "matches q d" for d
    using in_rows [OF v(2) that(1)] that(2) q by blast
  have none: "\<forall>x \<in> set (rows row c). \<not> p x" if "\<forall>d \<in> set (docs c). \<not> matches q d"
    using that q v(2) by (fastforce simp: rows_in_def rows_all_def)
  from u hit none v(2) show ?thesis
    by (auto simp: find_one_effect_def rows_valid_def rows_in_def split: sum.splits option.splits)
qed

lemma rows_find:
  assumes "holds row c" and "mo_Find ops q opt c = (c', y)" and q: "\<And>d x. row d = Some x \<Longrightarrow> matches q d \<longleftrightarrow> p x"
  shows "holds row c' \<and> rows row c' = rows row c \<and> (case y of
      Inr out \<Rightarrow> \<exists>ms. mset ms = mset (filter p (rows row c)) \<and> map row out = map Some (page opt ms)
    | Inl _ \<Rightarrow> True)"
proof -
  have v: "valid c" "rows_all row (docs c)" using assms(1) by (simp_all add: rows_valid_def)
  note u = find [OF v(1) assms(2)]
  have f: "map (the \<circ> row) (filter (matches q) ds) = filter p (map (the \<circ> row) ds)" if "rows_all row ds" for ds
    using that q by (induction ds) (auto simp: rows_all_def)
  have "\<exists>ms. mset ms = mset (filter p (rows row c)) \<and> map row out = map Some (page opt ms)" if "y = Inr out" for out
  proof -
    from u that obtain ds where ds: "mset ds = mset (filter (matches q) (docs c))" "out = page opt ds"
      by (auto simp: find_effect_def)
    then have "set ds \<subseteq> set (docs c)" using mset_eq_setD [OF ds(1)] by auto
    then have "\<And>d. d \<in> set ds \<Longrightarrow> row d = Some (the (row d))" using v(2) by (auto simp: rows_all_def)
    moreover have "set out \<subseteq> set ds" unfolding ds(2) page_def by (auto simp: Let_def dest: in_set_takeD in_set_dropD)
    ultimately have "map row out = map Some (page opt (map (the \<circ> row) ds))"
      unfolding ds(2) by (auto simp: page_def Let_def drop_map take_map comp_def)
    moreover have "mset (map (the \<circ> row) ds) = mset (filter p (rows row c))"
      using ds(1) f [OF v(2)] unfolding rows_in_def by (metis mset_map)
    ultimately show ?thesis by blast
  qed
  with u v(2) show ?thesis
    by (auto simp: rows_valid_def rows_in_def split: sum.splits)
qed

lemma rows_find_all:
  assumes "holds row c" and "mo_Find ops q all_opts c = (c', y)" and q: "\<And>d x. row d = Some x \<Longrightarrow> matches q d \<longleftrightarrow> p x"
  shows "holds row c' \<and> rows row c' = rows row c \<and> (case y of
      Inr out \<Rightarrow> \<exists>ms. mset ms = mset (filter p (rows row c)) \<and> map row out = map Some ms
    | Inl _ \<Rightarrow> True)"
  using rows_find [OF assms(1,2), where p = p, OF q] by (simp add: page_def all_opts_def split: sum.splits)

end

lemma those_some: "map f xs = map Some ys \<Longrightarrow> those (map f xs) = Some ys"
proof (induction xs arbitrary: ys)
  case Nil
  then show ?case by simp
next
  case (Cons x xs)
  then show ?case by (cases ys) auto
qed

end
