(* ===== verification/Rooms.thy ===== *)
theory Rooms
  imports Repository
begin

text \<open>
  The room repository of \<^verbatim>\<open>internal/database/mongodb.go\<close>: the room model with its \<^verbatim>\<open>bson\<close> tags, the
  methods of \<^verbatim>\<open>RoomRepository\<close> over the driver, and its contract, the locale \<open>room_store\<close>: a map from
  room identifiers to rooms on which each method has its effect. The contract is proved for the
  repository of every collection with a unique index on \<^verbatim>\<open>room_id\<close>.
\<close>

subsection \<open>The model and its documents\<close>

record room_player =
  rp_UserID :: u64
  rp_Nickname :: string
  rp_Level :: int
  rp_Status :: int
  rp_JoinTime :: int

record room =
  ro_ID :: "nat option"
  ro_RoomID :: u64
  ro_RoomName :: string
  ro_GameType :: int
  ro_MaxPlayers :: int
  ro_CurrentPlayers :: int
  ro_Status :: int
  ro_IsPrivate :: bool
  ro_Password :: string
  ro_OwnerID :: u64
  ro_Players :: "room_player list"
  ro_CreatedAt :: time
  ro_UpdatedAt :: time

definition encode_player :: "room_player \<Rightarrow> doc" where
  "encode_player p =
     [(''user_id'', put_u64 (rp_UserID p)), (''nickname'', BStr (rp_Nickname p)), (''level'', BInt (rp_Level p)),
      (''status'', BInt (rp_Status p)), (''join_time'', BInt (rp_JoinTime p))]"

definition decode_player :: "doc \<Rightarrow> room_player option" where
  "decode_player d = do {
     uid \<leftarrow> get_u64 d ''user_id''; nick \<leftarrow> get_str d ''nickname''; lvl \<leftarrow> get_int 32 d ''level'';
     st \<leftarrow> get_int 32 d ''status''; jt \<leftarrow> get_int 64 d ''join_time'';
     Some \<lparr>rp_UserID = uid, rp_Nickname = nick, rp_Level = lvl, rp_Status = st, rp_JoinTime = jt\<rparr> }"

definition encode_room :: "room \<Rightarrow> doc" where
  "encode_room r = opt_oid (ro_ID r) @
     [(''room_id'', put_u64 (ro_RoomID r)), (''room_name'', BStr (ro_RoomName r)), (''game_type'', BInt (ro_GameType r)),
      (''max_players'', BInt (ro_MaxPlayers r)), (''current_players'', BInt (ro_CurrentPlayers r)),
      (''status'', BInt (ro_Status r)), (''is_private'', BBool (ro_IsPrivate r))] @
     opt_str ''password'' (ro_Password r) @
     [(''owner_id'', put_u64 (ro_OwnerID r)), (''players'', BArr (map (\<lambda>p. BDoc (encode_player p)) (ro_Players r))),
      (''created_at'', bson_time (ro_CreatedAt r)), (''updated_at'', bson_time (ro_UpdatedAt r))]"

definition decode_room :: "doc \<Rightarrow> room option" where
  "decode_room d = do {
     oid \<leftarrow> get_oid d; rid \<leftarrow> get_u64 d ''room_id''; name \<leftarrow> get_str d ''room_name'';
     gt \<leftarrow> get_int 32 d ''game_type''; mx \<leftarrow> get_int 32 d ''max_players'';
     cur \<leftarrow> get_int 32 d ''current_players''; st \<leftarrow> get_int 32 d ''status''; prv \<leftarrow> get_bool d ''is_private'';
     pw \<leftarrow> get_str d ''password''; own \<leftarrow> get_u64 d ''owner_id'';
     ps \<leftarrow> get_list decode_player d ''players''; ct \<leftarrow> get_time d ''created_at''; ut \<leftarrow> get_time d ''updated_at'';
     Some \<lparr>ro_ID = oid, ro_RoomID = rid, ro_RoomName = name, ro_GameType = gt, ro_MaxPlayers = mx,
       ro_CurrentPlayers = cur, ro_Status = st, ro_IsPrivate = prv, ro_Password = pw, ro_OwnerID = own,
       ro_Players = ps, ro_CreatedAt = ct, ro_UpdatedAt = ut\<rparr> }"

subsection \<open>The methods\<close>

definition CreateRoom :: "'c mongo_ops \<Rightarrow> time \<Rightarrow> time \<Rightarrow> room \<Rightarrow> 'c \<Rightarrow> 'c \<times> (string + room)" where
  "CreateRoom ops t1 t2 room c =
     (let room' = room\<lparr>ro_CreatedAt := t1, ro_UpdatedAt := t2\<rparr> in
      apsnd (map_sum (errorf ''failed to create room'') (\<lambda>oid. room'\<lparr>ro_ID := Some oid\<rparr>))
        (mo_InsertOne ops (encode_room room') c))"

definition GetRoomByID :: "'c mongo_ops \<Rightarrow> u64 \<Rightarrow> 'c \<Rightarrow> 'c \<times> (string + room)" where
  "GetRoomByID ops i c =
     apsnd (\<lambda>r. case r of
        Inl e \<Rightarrow> Inl (errorf ''failed to get room'' e)
      | Inr None \<Rightarrow> Inl ''room not found''
      | Inr (Some d) \<Rightarrow> (case decode_room d of
            None \<Rightarrow> Inl (errorf ''failed to get room'' ''decoding error'') | Some r \<Rightarrow> Inr r))
       (mo_FindOne ops (QEq ''room_id'' (put_u64 i)) c)"

definition waiting_filter :: "int \<Rightarrow> query" where
  "waiting_filter gameType =
     QAnd ((if gameType > 0 then [QEq ''game_type'' (BInt gameType)] else []) @ [QEq ''status'' (BInt 0)])"

definition GetRoomList :: "'c mongo_ops \<Rightarrow> int \<Rightarrow> int \<Rightarrow> int \<Rightarrow> 'c \<Rightarrow> 'c \<times> (string + room list)" where
  "GetRoomList ops gameType limit offset c =
     apsnd (\<lambda>r. case r of
        Inl e \<Rightarrow> Inl (errorf ''failed to get room list'' e)
      | Inr ds \<Rightarrow> (case those (map decode_room ds) of
            None \<Rightarrow> Inl (errorf ''failed to decode rooms'' ''decoding error'') | Some rs \<Rightarrow> Inr rs))
       (mo_Find ops (waiting_filter gameType) \<lparr>fo_sort_desc = Some ''created_at'', fo_skip = offset, fo_limit = limit\<rparr> c)"

definition UpdateRoom :: "'c mongo_ops \<Rightarrow> time \<Rightarrow> room \<Rightarrow> 'c \<Rightarrow> 'c \<times> string option" where
  "UpdateRoom ops now room c =
     (let room' = room\<lparr>ro_UpdatedAt := now\<rparr> in
      apsnd (wrap_err ''failed to update room'')
        (mo_UpdateOne ops (QEq ''room_id'' (put_u64 (ro_RoomID room'))) [USet (encode_room room')] c))"

definition AddPlayerToRoom :: "'c mongo_ops \<Rightarrow> time \<Rightarrow> u64 \<Rightarrow> room_player \<Rightarrow> 'c \<Rightarrow> 'c \<times> string option" where
  "AddPlayerToRoom ops now i p c =
     apsnd (wrap_err ''failed to add player to room'')
       (mo_UpdateOne ops (QEq ''room_id'' (put_u64 i))
          [UPush ''players'' (BDoc (encode_player p)), UInc ''current_players'' 1, USet [(''updated_at'', bson_time now)]] c)"

definition RemovePlayerFromRoom :: "'c mongo_ops \<Rightarrow> time \<Rightarrow> u64 \<Rightarrow> u64 \<Rightarrow> 'c \<Rightarrow> 'c \<times> string option" where
  "RemovePlayerFromRoom ops now i uid c =
     apsnd (wrap_err ''failed to remove player from room'')
       (mo_UpdateOne ops (QEq ''room_id'' (put_u64 i))
          [UPull ''players'' (QEq ''user_id'' (put_u64 uid)), UInc ''current_players'' (- 1),
           USet [(''updated_at'', bson_time now)]] c)"

definition DeleteRoom :: "'c mongo_ops \<Rightarrow> u64 \<Rightarrow> 'c \<Rightarrow> 'c \<times> string option" where
  "DeleteRoom ops i c =
     apsnd (wrap_err ''failed to delete room'') (mo_DeleteOne ops (QEq ''room_id'' (put_u64 i)) c)"

definition CountRooms :: "'c mongo_ops \<Rightarrow> int \<Rightarrow> 'c \<Rightarrow> 'c \<times> (string + int)" where
  "CountRooms ops gameType c =
     apsnd (map_sum (errorf ''failed to count rooms'') int) (mo_Count ops (waiting_filter gameType) c)"

text \<open>The repository object \<^verbatim>\<open>NewRoomRepository\<close> returns: its methods on the collection.\<close>

record 'c room_repo =
  rr_CreateRoom :: "time \<Rightarrow> time \<Rightarrow> room \<Rightarrow> 'c \<Rightarrow> 'c \<times> (string + room)"
  rr_GetRoomByID :: "u64 \<Rightarrow> 'c \<Rightarrow> 'c \<times> (string + room)"
  rr_GetRoomList :: "int \<Rightarrow> int \<Rightarrow> int \<Rightarrow> 'c \<Rightarrow> 'c \<times> (string + room list)"
  rr_UpdateRoom :: "time \<Rightarrow> room \<Rightarrow> 'c \<Rightarrow> 'c \<times> string option"
  rr_AddPlayerToRoom :: "time \<Rightarrow> u64 \<Rightarrow> room_player \<Rightarrow> 'c \<Rightarrow> 'c \<times> string option"
  rr_RemovePlayerFromRoom :: "time \<Rightarrow> u64 \<Rightarrow> u64 \<Rightarrow> 'c \<Rightarrow> 'c \<times> string option"
  rr_DeleteRoom :: "u64 \<Rightarrow> 'c \<Rightarrow> 'c \<times> string option"
  rr_CountRooms :: "int \<Rightarrow> 'c \<Rightarrow> 'c \<times> (string + int)"

definition NewRoomRepository :: "'c mongo_ops \<Rightarrow> 'c room_repo" where
  "NewRoomRepository ops =
     \<lparr>rr_CreateRoom = CreateRoom ops, rr_GetRoomByID = GetRoomByID ops, rr_GetRoomList = GetRoomList ops,
      rr_UpdateRoom = UpdateRoom ops, rr_AddPlayerToRoom = AddPlayerToRoom ops,
      rr_RemovePlayerFromRoom = RemovePlayerFromRoom ops, rr_DeleteRoom = DeleteRoom ops, rr_CountRooms = CountRooms ops\<rparr>"

subsection \<open>Reading back\<close>

definition player_fits :: "room_player \<Rightarrow> bool" where
  "player_fits p \<longleftrightarrow> int_fits 32 (rp_Level p) \<and> int_fits 32 (rp_Status p) \<and> int_fits 64 (rp_JoinTime p)"

definition room_fits :: "room \<Rightarrow> bool" where
  "room_fits r \<longleftrightarrow> int_fits 32 (ro_GameType r) \<and> int_fits 32 (ro_MaxPlayers r) \<and> int_fits 32 (ro_CurrentPlayers r) \<and>
     int_fits 32 (ro_Status r) \<and> (\<forall>p \<in> set (ro_Players r). player_fits p)"

lemma decode_encode_player [simp]: "player_fits p \<Longrightarrow> decode_player (encode_player p) = Some p"
  by (simp add: decode_player_def encode_player_def player_fits_def)

lemma decode_player_user:
  assumes "decode_player e = Some p" and "uid \<noteq> 0"
  shows "matches (QEq ''user_id'' (put_u64 uid)) e \<longleftrightarrow> rp_UserID p = uid"
proof -
  have "get_u64 e ''user_id'' = Some (rp_UserID p)" using assms(1) by (auto simp: decode_player_def bind_eq_Some_conv)
  with assms(2) show ?thesis
    by (auto simp: get_u64_def put_u64_def word_uint_eq_iff uint_word_of_int_eq take_bit_int_eq_self
        split: option.splits bval.splits if_splits)
qed

text \<open>The documents the repository writes have all the fields its filters and sorting read.\<close>

definition room_row :: "doc \<Rightarrow> room option" where
  "room_row d = (if \<forall>k \<in> {''game_type'', ''status'', ''created_at''}. map_of d k \<noteq> None then decode_room d else None)"

definition stored_room :: "room \<Rightarrow> room" where
  "stored_room r = r\<lparr>ro_CreatedAt := trunc_ms (ro_CreatedAt r), ro_UpdatedAt := trunc_ms (ro_UpdatedAt r)\<rparr>"

lemma decode_player_fits: "decode_player e = Some p \<Longrightarrow> player_fits p"
  by (auto simp: decode_player_def player_fits_def bind_eq_Some_conv dest!: get_int_fits)

lemma those_in: "those xs = Some ys \<Longrightarrow> y \<in> set ys \<Longrightarrow> Some y \<in> set xs"
  by (induction xs arbitrary: ys) (auto split: option.splits)

lemma decoded_players_fit:
  assumes "get_list decode_player d k = Some ps" and "p \<in> set ps"
  shows "player_fits p"
proof -
  have "ps = [] \<or> (\<exists>vs. those (map (get_item decode_player) vs) = Some ps)"
    using assms(1) by (auto simp: get_list_def split: option.splits bval.splits)
  then obtain v where "get_item decode_player v = Some p" using assms(2) those_in by fastforce
  then show ?thesis by (auto simp: get_item_def decode_player_fits split: bval.splits)
qed

lemma encode_room_lookup:
  "map_of (encode_room r) ''_id'' = map_option BOid (ro_ID r)"
  "map_of (encode_room r) ''room_id'' = Some (put_u64 (ro_RoomID r))"
  "map_of (encode_room r) ''room_name'' = Some (BStr (ro_RoomName r))"
  "map_of (encode_room r) ''game_type'' = Some (BInt (ro_GameType r))"
  "map_of (encode_room r) ''max_players'' = Some (BInt (ro_MaxPlayers r))"
  "map_of (encode_room r) ''current_players'' = Some (BInt (ro_CurrentPlayers r))"
  "map_of (encode_room r) ''status'' = Some (BInt (ro_Status r))"
  "map_of (encode_room r) ''is_private'' = Some (BBool (ro_IsPrivate r))"
  "map_of (encode_room r) ''password'' = (if ro_Password r = [] then None else Some (BStr (ro_Password r)))"
  "map_of (encode_room r) ''owner_id'' = Some (put_u64 (ro_OwnerID r))"
  "map_of (encode_room r) ''players'' = Some (BArr (map (\<lambda>p. BDoc (encode_player p)) (ro_Players r)))"
  "map_of (encode_room r) ''created_at'' = Some (bson_time (ro_CreatedAt r))"
  "map_of (encode_room r) ''updated_at'' = Some (bson_time (ro_UpdatedAt r))"
  by (cases "ro_ID r") (simp_all add: encode_room_def)

lemma room_row_encode:
  "room_fits r \<Longrightarrow> ro_ID r = None \<Longrightarrow> room_row (with_id n (encode_room r)) = Some (stored_room (r\<lparr>ro_ID := Some n\<rparr>))"
proof -
  assume fits: "room_fits r" and none: "ro_ID r = None"
  let ?d = "with_id n (encode_room r)"
  have m: "map_of ?d k = (if k = ''_id'' then Some (BOid n) else map_of (encode_room r) k)" for k
    using none by (simp add: with_id_def encode_room_lookup)
  have l: "get_list decode_player ?d ''players'' = Some (ro_Players r)"
    using fits by (intro get_list_cong [where enc = encode_player]) (auto simp: m encode_room_lookup room_fits_def)
  have s: "get_str ?d ''password'' = Some (ro_Password r)"
    by (simp add: get_str_def m encode_room_lookup)
  have "get_oid ?d = Some (Some n)" by (simp add: get_oid_def m)
  then show ?thesis
    using fits l s by (simp add: room_row_def decode_room_def m encode_room_lookup room_fits_def stored_room_def)
qed

lemma encode_room_rev: "map_of (rev (encode_room r)) = map_of (encode_room r)"
proof (rule map_of_eqI)
  have "distinct (map fst (encode_room r))"
    by (simp add: encode_room_def opt_oid_def opt_str_def split: option.splits)
  then have *: "map_of (rev (encode_room r)) k = Some v \<longleftrightarrow> map_of (encode_room r) k = Some v" for k v
    by (simp add: map_of_eq_Some_iff rev_map [symmetric])
  show "set (map fst (rev (encode_room r))) = set (map fst (encode_room r))" by simp
  show "\<forall>k \<in> set (map fst (rev (encode_room r))). map_of (rev (encode_room r)) k = map_of (encode_room r) k"
    using * by (metis not_None_eq)
qed

definition add_player :: "time \<Rightarrow> room_player \<Rightarrow> room \<Rightarrow> room" where
  "add_player now p r = r\<lparr>ro_Players := ro_Players r @ [p], ro_CurrentPlayers := ro_CurrentPlayers r + 1,
     ro_UpdatedAt := trunc_ms now\<rparr>"

definition remove_player :: "time \<Rightarrow> u64 \<Rightarrow> room \<Rightarrow> room" where
  "remove_player now uid r = r\<lparr>ro_Players := filter (\<lambda>p. rp_UserID p \<noteq> uid) (ro_Players r),
     ro_CurrentPlayers := ro_CurrentPlayers r - 1, ro_UpdatedAt := trunc_ms now\<rparr>"

text \<open>\<^verbatim>\<open>$set\<close> of a whole room replaces every field, except an identifier or a password it leaves out.\<close>

definition replace_room :: "time \<Rightarrow> room \<Rightarrow> room \<Rightarrow> room" where
  "replace_room now r old = (stored_room (r\<lparr>ro_UpdatedAt := now\<rparr>))
     \<lparr>ro_ID := (case ro_ID r of None \<Rightarrow> ro_ID old | v \<Rightarrow> v),
      ro_Password := (if ro_Password r = [] then ro_Password old else ro_Password r)\<rparr>"

lemma decode_room_fields:
  "decode_room d = Some r \<longleftrightarrow>
     get_oid d = Some (ro_ID r) \<and> get_u64 d ''room_id'' = Some (ro_RoomID r) \<and> get_str d ''room_name'' = Some (ro_RoomName r) \<and>
     get_int 32 d ''game_type'' = Some (ro_GameType r) \<and> get_int 32 d ''max_players'' = Some (ro_MaxPlayers r) \<and>
     get_int 32 d ''current_players'' = Some (ro_CurrentPlayers r) \<and> get_int 32 d ''status'' = Some (ro_Status r) \<and>
     get_bool d ''is_private'' = Some (ro_IsPrivate r) \<and> get_str d ''password'' = Some (ro_Password r) \<and>
     get_u64 d ''owner_id'' = Some (ro_OwnerID r) \<and> get_list decode_player d ''players'' = Some (ro_Players r) \<and>
     get_time d ''created_at'' = Some (ro_CreatedAt r) \<and> get_time d ''updated_at'' = Some (ro_UpdatedAt r)"
  by (auto simp: decode_room_def bind_eq_Some_conv)

lemma room_row_fields: "room_row d = Some r \<longleftrightarrow> decode_room d = Some r \<and>
    map_of d ''game_type'' \<noteq> None \<and> map_of d ''status'' \<noteq> None \<and> map_of d ''created_at'' \<noteq> None"
  by (simp add: room_row_def)

lemma room_row_fits: "room_row d = Some r \<Longrightarrow> room_fits r"
proof -
  assume "room_row d = Some r"
  then have "get_int 32 d ''game_type'' = Some (ro_GameType r)" "get_int 32 d ''max_players'' = Some (ro_MaxPlayers r)"
    "get_int 32 d ''current_players'' = Some (ro_CurrentPlayers r)" "get_int 32 d ''status'' = Some (ro_Status r)"
    and ps: "get_list decode_player d ''players'' = Some (ro_Players r)"
    by (simp_all add: room_row_fields decode_room_fields)
  from this(1-4) [THEN get_int_fits] decoded_players_fit [OF ps] show ?thesis by (simp add: room_fits_def)
qed

lemma row_add_player:
  assumes "room_row d = Some r" and "player_fits p" and "int_fits 32 (ro_CurrentPlayers r + 1)"
  shows "room_row (apply_update [UPush ''players'' (BDoc (encode_player p)), UInc ''current_players'' 1,
      USet [(''updated_at'', bson_time now)]] d) = Some (add_player now p r)"
  using assms by (simp add: room_row_fields decode_room_fields untouched_op add_player_def)

lemma row_remove_player:
  assumes "room_row d = Some r" and "uid \<noteq> 0" and "int_fits 32 (ro_CurrentPlayers r - 1)"
  shows "room_row (apply_update [UPull ''players'' (QEq ''user_id'' (put_u64 uid)), UInc ''current_players'' (- 1),
      USet [(''updated_at'', bson_time now)]] d) = Some (remove_player now uid r)"
proof -
  have p: "get_list decode_player (apply_op (UPull ''players'' (QEq ''user_id'' (put_u64 uid))) d) ''players'' =
      Some (filter (\<lambda>p. rp_UserID p \<noteq> uid) (ro_Players r))"
    using decode_player_user assms(2) assms(1)
    by (intro pull_field [where p = "\<lambda>p. rp_UserID p = uid"]) (auto simp: room_row_fields decode_room_fields simp del: matches.simps)
  show ?thesis using assms(1,3) p
    by (simp add: room_row_fields decode_room_fields untouched_op remove_player_def)
qed

lemma row_replace:
  assumes "room_row d = Some old" and "room_fits r"
  shows "room_row (apply_update [USet (encode_room (r\<lparr>ro_UpdatedAt := now\<rparr>))] d) = Some (replace_room now r old)"
proof -
  note d = assms(1) [unfolded room_row_fields decode_room_fields]
  let ?d = "apply_op (USet (encode_room (r\<lparr>ro_UpdatedAt := now\<rparr>))) d"
  have m: "map_of ?d k = (case map_of (encode_room (r\<lparr>ro_UpdatedAt := now\<rparr>)) k of None \<Rightarrow> map_of d k | v \<Rightarrow> v)" for k
    by (simp add: encode_room_rev)
  have l: "get_list decode_player ?d ''players'' = Some (ro_Players r)"
    using assms(2) by (intro get_list_cong [where enc = encode_player]) (auto simp: m encode_room_lookup room_fits_def simp del: map_of_set)
  have s: "get_str ?d ''password'' = Some (if ro_Password r = [] then ro_Password old else ro_Password r)"
    using d by (simp add: get_str_def m encode_room_lookup del: map_of_set)
  have "get_oid ?d = Some (case ro_ID r of None \<Rightarrow> ro_ID old | v \<Rightarrow> v)"
    using d by (cases "ro_ID r") (auto simp: get_oid_def m encode_room_lookup simp del: map_of_set)
  then show ?thesis
    using assms(2) l s
    by (simp add: room_row_fields decode_room_fields m encode_room_lookup room_fits_def replace_room_def stored_room_def del: map_of_set)
qed

subsection \<open>The contract\<close>

definition waiting :: "int \<Rightarrow> room \<Rightarrow> bool" where
  "waiting gameType r \<longleftrightarrow> ro_Status r = 0 \<and> (gameType > 0 \<longrightarrow> ro_GameType r = gameType)"

text \<open>The row \<^verbatim>\<open>CreateRoom\<close> makes of a room, and the lists of waiting rooms.\<close>

definition new_room :: "time \<Rightarrow> time \<Rightarrow> room \<Rightarrow> nat \<Rightarrow> room" where
  "new_room t1 t2 r n = r\<lparr>ro_CreatedAt := t1, ro_UpdatedAt := t2, ro_ID := Some n\<rparr>"

definition all_waiting :: "int \<Rightarrow> (u64 \<Rightarrow> room option) \<Rightarrow> room list \<Rightarrow> bool" where
  "all_waiting gameType m all \<longleftrightarrow> distinct (map ro_RoomID all) \<and>
     (\<forall>r. r \<in> set all \<longleftrightarrow> m (ro_RoomID r) = Some r \<and> waiting gameType r)"

definition listed :: "int \<Rightarrow> int \<Rightarrow> int \<Rightarrow> (u64 \<Rightarrow> room option) \<Rightarrow> room list \<Rightarrow> bool" where
  "listed gameType limit offset m rs \<longleftrightarrow> (\<exists>all. all_waiting gameType m all \<and>
     sorted_wrt (\<lambda>a b. ro_CreatedAt b \<le> ro_CreatedAt a) all \<and>
     rs = page \<lparr>fo_sort_desc = Some ''created_at'', fo_skip = offset, fo_limit = limit\<rparr> all)"

locale room_store =
  fixes repo :: "'c room_repo" and rooms :: "'c \<Rightarrow> u64 \<Rightarrow> room option" and ok :: "'c \<Rightarrow> bool"
  assumes create: "ok c \<Longrightarrow> room_fits r \<Longrightarrow> ro_ID r = None \<Longrightarrow> rr_CreateRoom repo t1 t2 r c = (c', x1) \<Longrightarrow>
      ok c' \<and> (\<exists>y. created (ro_RoomID r) (stored_room \<circ> new_room t1 t2 r) (rooms c) (rooms c') y \<and>
        (\<forall>z. x1 = Inr z \<longrightarrow> (\<exists>n. y = Inr n \<and> z = new_room t1 t2 r n)) \<and> (isl x1 \<longrightarrow> isl y))"
    and get: "ok c \<Longrightarrow> rr_GetRoomByID repo i c = (c', x2) \<Longrightarrow> ok c' \<and> rooms c' = rooms c \<and>
      (case x2 of Inr r \<Rightarrow> rooms c i = Some r \<and> ro_RoomID r = i | Inl e \<Rightarrow> e = ''room not found'' \<longrightarrow> rooms c i = None)"
    and list: "ok c \<Longrightarrow> rr_GetRoomList repo gameType limit offset c = (c', x3) \<Longrightarrow> ok c' \<and> rooms c' = rooms c \<and>
      (\<forall>rs. x3 = Inr rs \<longrightarrow> listed gameType limit offset (rooms c) rs)"
    and update: "ok c \<Longrightarrow> room_fits r \<Longrightarrow> rr_UpdateRoom repo now r c = (c', x4) \<Longrightarrow>
      ok c' \<and> changed (ro_RoomID r) (replace_room now r) (rooms c) (rooms c') (x4 \<noteq> None)"
    and add: "ok c \<Longrightarrow> player_fits p \<Longrightarrow> (\<And>r. rooms c i = Some r \<Longrightarrow> int_fits 32 (ro_CurrentPlayers r + 1)) \<Longrightarrow>
      rr_AddPlayerToRoom repo now i p c = (c', x5) \<Longrightarrow> ok c' \<and> changed i (add_player now p) (rooms c) (rooms c') (x5 \<noteq> None)"
    and remove: "ok c \<Longrightarrow> uid \<noteq> 0 \<Longrightarrow> (\<And>r. rooms c i = Some r \<Longrightarrow> int_fits 32 (ro_CurrentPlayers r - 1)) \<Longrightarrow>
      rr_RemovePlayerFromRoom repo now i uid c = (c', x6) \<Longrightarrow> ok c' \<and> changed i (remove_player now uid) (rooms c) (rooms c') (x6 \<noteq> None)"
    and delete: "ok c \<Longrightarrow> rr_DeleteRoom repo i c = (c', x7) \<Longrightarrow> ok c' \<and> removed i (rooms c) (rooms c') (x7 \<noteq> None)"
    and fits: "ok c \<Longrightarrow> rooms c i = Some r \<Longrightarrow> room_fits r \<and> ro_RoomID r = i"
    and count: "ok c \<Longrightarrow> rr_CountRooms repo gameType c = (c', x8) \<Longrightarrow> ok c' \<and> rooms c' = rooms c \<and>
      (\<forall>n. x8 = Inr n \<longrightarrow> (\<exists>all. all_waiting gameType (rooms c) all \<and> n = int (length all)))"

subsection \<open>The repository meets its contract\<close>

definition room_rows_ok :: "doc list \<Rightarrow> bool" where
  "room_rows_ok ds \<longleftrightarrow> rows_ok ''room_id'' room_row ro_RoomID ds"

lemma waiting_matches:
  "room_row d = Some r \<Longrightarrow> matches (waiting_filter gt) d \<longleftrightarrow> waiting gt r"
  by (auto simp: room_row_fields decode_room_fields waiting_filter_def waiting_def get_int_def
      split: option.splits bval.splits if_splits)

lemma those_rows:
  "\<forall>d \<in> set ds. room_row d \<noteq> None \<Longrightarrow> those (map decode_room ds) = Some (map (the \<circ> room_row) ds)"
  by (induction ds) (auto simp: room_row_def split: if_splits)

lemma page_map: "page opt (map f xs) = map f (page opt xs)"
  by (simp add: page_def Let_def drop_map take_map)

lemma set_page: "set (page opt xs) \<subseteq> set xs"
  by (auto simp: page_def Let_def dest: in_set_dropD in_set_takeD)

lemma rows_all:
  assumes ok: "room_rows_ok ds" and ms: "mset ms = mset (filter (matches (waiting_filter gt)) ds)"
  defines "all \<equiv> map (the \<circ> room_row) ms"
  shows "all_waiting gt (view room_row ro_RoomID ds) all"
proof -
  have s: "set ms = {d \<in> set ds. matches (waiting_filter gt) d}" using mset_eq_setD [OF ms] by auto
  have rows: "\<exists>r. room_row d = Some r \<and> map_of d ''room_id'' = Some (put_u64 (ro_RoomID r))" if "d \<in> set ds" for d
    using ok that by (auto simp: room_rows_ok_def rows_ok_def)
  have "image_mset (\<lambda>d. map_of d ''room_id'') (mset ms) = mset (map (\<lambda>d. map_of d ''room_id'') (filter (matches (waiting_filter gt)) ds))"
    by (simp add: ms)
  moreover have "distinct (map (\<lambda>d. map_of d ''room_id'') (filter (matches (waiting_filter gt)) ds))"
    using ok by (simp add: room_rows_ok_def rows_ok_def unique_on_def distinct_map_filter)
  ultimately have "distinct (map (\<lambda>d. map_of d ''room_id'') ms)" by (metis mset_map mset_eq_imp_distinct_iff)
  moreover have "map (\<lambda>d. map_of d ''room_id'') ms = map (Some \<circ> put_u64) (map ro_RoomID all)"
    using rows s by (fastforce simp: all_def)
  ultimately have "distinct (map ro_RoomID all)" by (metis distinct_map)
  moreover have "r \<in> set all \<longleftrightarrow> view room_row ro_RoomID ds (ro_RoomID r) = Some r \<and> waiting gt r" for r
    using rows s ok waiting_matches unfolding room_rows_ok_def
    by (fastforce simp: all_def view_iff image_iff)
  ultimately show ?thesis by (simp add: all_waiting_def)
qed

lemma rows_sorted:
  assumes "room_rows_ok ds" and "set ms \<subseteq> set ds" and "in_order \<lparr>fo_sort_desc = Some ''created_at'', fo_skip = s, fo_limit = l\<rparr> ms"
  shows "sorted_wrt (\<lambda>a b. ro_CreatedAt b \<le> ro_CreatedAt a) (map (the \<circ> room_row) ms)"
proof -
  have v: "sort_val (map_of d ''created_at'') = (7, (ro_CreatedAt (the (room_row d)) - unix_epoch) div millisecond) \<and>
      ro_CreatedAt (the (room_row d)) = trunc_ms (ro_CreatedAt (the (room_row d)))" if "d \<in> set ms" for d
  proof -
    from assms that obtain r where "room_row d = Some r" by (fastforce simp: room_rows_ok_def rows_ok_def)
    moreover from this have "get_time d ''created_at'' = Some (ro_CreatedAt r)" "map_of d ''created_at'' \<noteq> None"
      by (simp_all add: room_row_fields decode_room_fields)
    then obtain ms where "map_of d ''created_at'' = Some (BDate ms)" "ro_CreatedAt r = unix_epoch + ms * millisecond"
      by (auto simp: get_time_def split: option.splits bval.splits)
    ultimately show ?thesis by (simp add: trunc_ms_def millisecond_def)
  qed
  have "sorted_wrt (\<lambda>a b. sort_val (map_of b ''created_at'') \<le> sort_val (map_of a ''created_at'')) ms"
    using assms(3) by (simp add: in_order_def sorted_map sorted_wrt_rev)
  then have "sorted_wrt (\<lambda>a b. ro_CreatedAt (the (room_row b)) \<le> ro_CreatedAt (the (room_row a))) ms"
  proof (rule sorted_wrt_mono_rel [rotated])
    fix a b assume "a \<in> set ms" "b \<in> set ms" "sort_val (map_of b ''created_at'') \<le> sort_val (map_of a ''created_at'')"
    with v [of a] v [of b] show "ro_CreatedAt (the (room_row b)) \<le> ro_CreatedAt (the (room_row a))"
      by (simp add: trunc_ms_def millisecond_def less_eq_prod_def)
  qed
  then show ?thesis by (simp add: sorted_wrt_map)
qed

locale room_collection = unique_collection ops docs valid "''room_id''"
  for ops :: "'c mongo_ops" and docs valid

sublocale room_collection \<subseteq> store: document_store ops docs valid "''room_id''" room_row ro_RoomID
  by unfold_locales

lemma get_error_text: "errorf ''failed to get room'' e \<noteq> ''room not found''"
  by (simp add: errorf_def)

lemma CreateRoom_row:
  "CreateRoom ops t1 t2 r c = apsnd (map_sum (errorf ''failed to create room'') (new_room t1 t2 r))
     (mo_InsertOne ops (encode_room (r\<lparr>ro_CreatedAt := t1, ro_UpdatedAt := t2\<rparr>)) c)"
  by (simp add: CreateRoom_def new_room_def [abs_def] Let_def)

context room_collection
begin

abbreviation "stored c \<equiv> view room_row ro_RoomID (docs c)"

lemma create_law:
  assumes "valid c" and ok: "room_rows_ok (docs c)" and r: "room_fits r" "ro_ID r = None"
    and ins: "mo_InsertOne ops (encode_room (r\<lparr>ro_CreatedAt := t1, ro_UpdatedAt := t2\<rparr>)) c = (c', y)"
  shows "valid c' \<and> room_rows_ok (docs c') \<and> created (ro_RoomID r) (stored_room \<circ> new_room t1 t2 r) (stored c) (stored c') y"
proof -
  let ?r = "r\<lparr>ro_CreatedAt := t1, ro_UpdatedAt := t2\<rparr>"
  have row: "room_row (with_id n (encode_room ?r)) = Some ((stored_room \<circ> new_room t1 t2 r) n) \<and>
      ro_RoomID ((stored_room \<circ> new_room t1 t2 r) n) = ro_RoomID r" for n
    using r room_row_encode [of ?r n] by (simp add: room_fits_def stored_room_def new_room_def)
  have "map_of (encode_room ?r) ''room_id'' = Some (put_u64 (ro_RoomID r))" "''room_id'' \<noteq> ''_id''"
    by (simp_all add: encode_room_lookup)
  from store.store_insert [OF assms(1) ok [unfolded room_rows_ok_def] ins row this]
  show ?thesis unfolding room_rows_ok_def by blast
qed

lemma get_law:
  assumes "valid c" and ok: "room_rows_ok (docs c)" and f: "mo_FindOne ops (QEq ''room_id'' (put_u64 i)) c = (c', y)"
  shows "valid c' \<and> docs c' = docs c \<and> (case y of
      Inr (Some d) \<Rightarrow> decode_room d \<noteq> None \<and> decode_room d = stored c i
    | Inr None \<Rightarrow> stored c i = None | Inl _ \<Rightarrow> True)"
  using store.store_find_one [OF assms(1) ok [unfolded room_rows_ok_def] f]
  by (auto simp: room_row_def split: sum.splits option.splits if_splits)

lemma update_law:
  assumes "valid c" and ok: "room_rows_ok (docs c)" and up: "mo_UpdateOne ops (QEq ''room_id'' (put_u64 i)) us c = (c', y)"
    and g: "\<And>d r. room_row d = Some r \<Longrightarrow> stored c i = Some r \<Longrightarrow> ro_RoomID r = i \<Longrightarrow>
        room_row (apply_update us d) = Some (g r) \<and> ro_RoomID (g r) = i \<and>
        (map_of d ''room_id'' = Some (put_u64 i) \<longrightarrow> map_of (apply_update us d) ''room_id'' = Some (put_u64 i))"
  shows "valid c' \<and> room_rows_ok (docs c') \<and> changed i g (stored c) (stored c') (isl y)"
proof -
  note ok' = ok [unfolded room_rows_ok_def]
  have "room_row (apply_update us d) = Some (g r) \<and> ro_RoomID (g r) = i \<and>
      map_of (apply_update us d) ''room_id'' = map_of d ''room_id''"
    if "d \<in> set (docs c)" "room_row d = Some r" "ro_RoomID r = i" for d r
    using g [of d r] that view_in [OF ok', of d r] rows_ok_keyD [OF ok', of d r] by auto
  then have "rows_ok ''room_id'' room_row ro_RoomID (docs c') \<and> valid c' \<and> changed i g (stored c) (stored c') (isl y)"
    by (rule store.store_update_one [OF assms(1) ok' up])
  then show ?thesis by (simp add: room_rows_ok_def)
qed

lemma list_law:
  assumes "valid c" and ok: "room_rows_ok (docs c)"
    and f: "mo_Find ops (waiting_filter gt) \<lparr>fo_sort_desc = Some ''created_at'', fo_skip = s, fo_limit = l\<rparr> c = (c', Inr ds)"
    and rs: "those (map decode_room ds) = Some rs"
  shows "listed gt l s (stored c) rs"
proof -
  let ?opt = "\<lparr>fo_sort_desc = Some ''created_at'', fo_skip = s, fo_limit = l\<rparr>"
  from find [OF assms(1) f] obtain ms where ms: "mset ms = mset (filter (matches (waiting_filter gt)) (docs c))"
    "in_order ?opt ms" "ds = page ?opt ms" by (auto simp: find_effect_def)
  have sub: "set ms \<subseteq> set (docs c)" using mset_eq_setD [OF ms(1)] by auto
  have "\<forall>d \<in> set (docs c). room_row d \<noteq> None" using ok by (auto simp: room_rows_ok_def rows_ok_def)
  with sub have "\<forall>d \<in> set (page ?opt ms). room_row d \<noteq> None" using set_page [of ?opt ms] by blast
  with rs those_rows ms(3) have "rs = page ?opt (map (the \<circ> room_row) ms)" by (simp add: page_map)
  with rows_all [OF ok ms(1)] rows_sorted [OF ok sub ms(2)] show ?thesis unfolding listed_def by blast
qed

lemma count_law:
  assumes "valid c" and ok: "room_rows_ok (docs c)" and f: "mo_Count ops (waiting_filter gt) c = (c', Inr n)"
  shows "\<exists>all. all_waiting gt (stored c) all \<and> n = length all"
  using count [OF assms(1) f] rows_all [OF ok refl, of gt] by (force simp: count_effect_def)

end

sublocale room_collection \<subseteq> room_store "NewRoomRepository ops" stored "\<lambda>c. valid c \<and> room_rows_ok (docs c)"
proof (unfold_locales, goal_cases)
  case (1 c r t1 t2 c' x1)
  then obtain y where y: "mo_InsertOne ops (encode_room (r\<lparr>ro_CreatedAt := t1, ro_UpdatedAt := t2\<rparr>)) c = (c', y)"
    and x: "x1 = map_sum (errorf ''failed to create room'') (new_room t1 t2 r) y"
    by (auto simp: NewRoomRepository_def CreateRoom_row apsnd_eq)
  from create_law [OF _ _ 1(2,3) y] 1(1) show ?case unfolding x by (cases y) auto
next
  case (2 c i c' x2)
  then obtain y where y: "mo_FindOne ops (QEq ''room_id'' (put_u64 i)) c = (c', y)"
    and x: "(c', x2) = GetRoomByID ops i c"
    by (auto simp: NewRoomRepository_def GetRoomByID_def apsnd_eq)
  from get_law [OF _ _ y] 2(1) y x view_Some [of room_row ro_RoomID "docs c" i] show ?case
    by (auto simp: GetRoomByID_def apsnd_eq get_error_text split: sum.splits option.splits)
next
  case (3 c gameType limit offset c' x3)
  then obtain y where y: "mo_Find ops (waiting_filter gameType)
      \<lparr>fo_sort_desc = Some ''created_at'', fo_skip = offset, fo_limit = limit\<rparr> c = (c', y)"
    and x: "(c', x3) = GetRoomList ops gameType limit offset c"
    by (auto simp: NewRoomRepository_def GetRoomList_def apsnd_eq)
  from find [OF _ y] list_law [of c gameType offset limit c'] y x 3(1) show ?case
    by (auto simp: GetRoomList_def apsnd_eq split: sum.splits option.splits)
next
  case (4 c r now c' x4)
  then obtain y where y: "mo_UpdateOne ops (QEq ''room_id'' (put_u64 (ro_RoomID r)))
      [USet (encode_room (r\<lparr>ro_UpdatedAt := now\<rparr>))] c = (c', y)" and x: "x4 = wrap_err ''failed to update room'' y"
    by (auto simp: NewRoomRepository_def UpdateRoom_def apsnd_eq)
  from update_law [OF _ _ y, of "replace_room now r"] 4(1,2) row_replace [of _ _ r now] show ?case unfolding x
    by (simp add: replace_room_def stored_room_def encode_room_rev encode_room_lookup)
next
  case (5 c p i now c' x5)
  then obtain y where y: "mo_UpdateOne ops (QEq ''room_id'' (put_u64 i))
      [UPush ''players'' (BDoc (encode_player p)), UInc ''current_players'' 1, USet [(''updated_at'', bson_time now)]] c = (c', y)"
    and x: "x5 = wrap_err ''failed to add player to room'' y"
    by (auto simp: NewRoomRepository_def AddPlayerToRoom_def apsnd_eq)
  from update_law [OF _ _ y, of "add_player now p"] 5(1-3) row_add_player [of _ _ p now] show ?case unfolding x
    by (simp add: add_player_def untouched_op)
next
  case (6 c uid i now c' x6)
  then obtain y where y: "mo_UpdateOne ops (QEq ''room_id'' (put_u64 i))
      [UPull ''players'' (QEq ''user_id'' (put_u64 uid)), UInc ''current_players'' (- 1), USet [(''updated_at'', bson_time now)]] c = (c', y)"
    and x: "x6 = wrap_err ''failed to remove player from room'' y"
    by (auto simp: NewRoomRepository_def RemovePlayerFromRoom_def apsnd_eq)
  from update_law [OF _ _ y, of "remove_player now uid"] 6(1-3) row_remove_player [of _ _ uid now] show ?case unfolding x
    by (simp add: remove_player_def untouched_op)
next
  case (7 c i c' x7)
  then obtain y where y: "mo_DeleteOne ops (QEq ''room_id'' (put_u64 i)) c = (c', y)"
    and x: "x7 = wrap_err ''failed to delete room'' y"
    by (auto simp: NewRoomRepository_def DeleteRoom_def apsnd_eq)
  from store.store_delete_one [OF _ _ y] 7(1) show ?case unfolding x by (simp add: room_rows_ok_def)
next
  case (8 c i r)
  from view_Some [OF 8(2)] obtain d where "room_row d = Some r" "ro_RoomID r = i" by auto
  then show ?case by (simp add: room_row_fits)
next
  case (9 c gameType c' x8)
  then obtain y where y: "mo_Count ops (waiting_filter gameType) c = (c', y)"
    and x: "x8 = map_sum (errorf ''failed to count rooms'') int y"
    by (auto simp: NewRoomRepository_def CountRooms_def apsnd_eq)
  from count [OF _ y] count_law [of c gameType c'] y 9(1) show ?case unfolding x by (cases y) auto
qed

definition rooms_in :: "('c \<Rightarrow> doc list) \<Rightarrow> 'c \<Rightarrow> u64 \<Rightarrow> room option" where
  "rooms_in docs c = view room_row ro_RoomID (docs c)"

definition rooms_valid :: "('c \<Rightarrow> doc list) \<Rightarrow> ('c \<Rightarrow> bool) \<Rightarrow> 'c \<Rightarrow> bool" where
  "rooms_valid docs valid c \<longleftrightarrow> valid c \<and> room_rows_ok (docs c)"

context room_collection
begin

lemma is_store: "room_store (NewRoomRepository ops) (rooms_in docs) (rooms_valid docs valid)"
proof -
  have "rooms_in docs = stored" "rooms_valid docs valid = (\<lambda>c. valid c \<and> room_rows_ok (docs c))"
    by (simp_all add: fun_eq_iff rooms_in_def rooms_valid_def)
  moreover have "room_store (NewRoomRepository ops) stored (\<lambda>c. valid c \<and> room_rows_ok (docs c))" by unfold_locales
  ultimately show ?thesis by simp
qed

end

text \<open>A room collection in memory, with the index \<^verbatim>\<open>NewRoomRepository\<close> creates.\<close>

interpretation mem_rooms: room_collection "mem_ops [''room_id'']" mc_docs "\<lambda>c. uniques [''room_id''] (mc_docs c)"
  by unfold_locales (simp add: uniques_def)

end
