(* ===== verification/Users.thy ===== *)
theory Users
  imports Repository
begin

text \<open>
  The user repository of \<^verbatim>\<open>internal/database/mongodb.go\<close>: the user model with its \<^verbatim>\<open>bson\<close> tags, the
  methods of \<^verbatim>\<open>UserRepository\<close> and their contract, the locale \<open>user_store\<close>, proved for every
  collection with the unique indexes \<^verbatim>\<open>NewUserRepository\<close> creates on \<^verbatim>\<open>user_id\<close> and \<^verbatim>\<open>username\<close>. The
  variants without a context only pass \<^verbatim>\<open>context.Background()\<close> and are the same operations.
\<close>

subsection \<open>The model and its documents\<close>

record user =
  us_ID :: "nat option"
  us_UserID :: u64
  us_Username :: string
  us_Password :: string
  us_Nickname :: string
  us_Email :: string
  us_Phone :: string
  us_Level :: int
  us_Experience :: int
  us_Gold :: int
  us_Diamond :: int
  us_Avatar :: string
  us_Status :: int
  us_LastLoginIP :: string
  us_LastLoginAt :: time
  us_CreatedAt :: time
  us_UpdatedAt :: time

definition encode_user :: "user \<Rightarrow> doc" where
  "encode_user u = opt_oid (us_ID u) @
     [(''user_id'', put_u64 (us_UserID u)), (''username'', BStr (us_Username u)), (''password'', BStr (us_Password u)),
      (''nickname'', BStr (us_Nickname u))] @ opt_str ''email'' (us_Email u) @ opt_str ''phone'' (us_Phone u) @
     [(''level'', BInt (us_Level u)), (''experience'', BInt (us_Experience u)), (''gold'', BInt (us_Gold u)),
      (''diamond'', BInt (us_Diamond u))] @ opt_str ''avatar'' (us_Avatar u) @
     [(''status'', BInt (us_Status u)), (''last_login_ip'', BStr (us_LastLoginIP u)),
      (''last_login_at'', bson_time (us_LastLoginAt u)), (''created_at'', bson_time (us_CreatedAt u)),
      (''updated_at'', bson_time (us_UpdatedAt u))]"

definition decode_user :: "doc \<Rightarrow> user option" where
  "decode_user d = do {
     oid \<leftarrow> get_oid d; uid \<leftarrow> get_u64 d ''user_id''; name \<leftarrow> get_str d ''username''; pw \<leftarrow> get_str d ''password'';
     nick \<leftarrow> get_str d ''nickname''; email \<leftarrow> get_str d ''email''; phone \<leftarrow> get_str d ''phone'';
     lvl \<leftarrow> get_int 32 d ''level''; ex \<leftarrow> get_int 64 d ''experience''; gold \<leftarrow> get_int 64 d ''gold'';
     dia \<leftarrow> get_int 64 d ''diamond''; av \<leftarrow> get_str d ''avatar''; st \<leftarrow> get_int 32 d ''status'';
     ip \<leftarrow> get_str d ''last_login_ip''; ll \<leftarrow> get_time d ''last_login_at''; ct \<leftarrow> get_time d ''created_at'';
     ut \<leftarrow> get_time d ''updated_at'';
     Some \<lparr>us_ID = oid, us_UserID = uid, us_Username = name, us_Password = pw, us_Nickname = nick, us_Email = email,
       us_Phone = phone, us_Level = lvl, us_Experience = ex, us_Gold = gold, us_Diamond = dia, us_Avatar = av,
       us_Status = st, us_LastLoginIP = ip, us_LastLoginAt = ll, us_CreatedAt = ct, us_UpdatedAt = ut\<rparr> }"

subsection \<open>The methods\<close>

definition CreateUser :: "'c mongo_ops \<Rightarrow> time \<Rightarrow> time \<Rightarrow> user \<Rightarrow> 'c \<Rightarrow> 'c \<times> (string + user)" where
  "CreateUser ops t1 t2 user c =
     (let user' = user\<lparr>us_CreatedAt := t1, us_UpdatedAt := t2\<rparr> in
      apsnd (map_sum (errorf ''failed to create user'') (\<lambda>oid. user'\<lparr>us_ID := Some oid\<rparr>))
        (mo_InsertOne ops (encode_user user') c))"

definition found_user :: "string + doc option \<Rightarrow> string + user" where
  "found_user r = (case r of
      Inl e \<Rightarrow> Inl (errorf ''failed to get user'' e)
    | Inr None \<Rightarrow> Inl ''user not found''
    | Inr (Some d) \<Rightarrow> (case decode_user d of
          None \<Rightarrow> Inl (errorf ''failed to get user'' ''decoding error'') | Some u \<Rightarrow> Inr u))"

definition GetByUserID :: "'c mongo_ops \<Rightarrow> u64 \<Rightarrow> 'c \<Rightarrow> 'c \<times> (string + user)" where
  "GetByUserID ops uid c = apsnd found_user (mo_FindOne ops (QEq ''user_id'' (put_u64 uid)) c)"

definition GetByUsername :: "'c mongo_ops \<Rightarrow> string \<Rightarrow> 'c \<Rightarrow> 'c \<times> (string + user)" where
  "GetByUsername ops name c = apsnd found_user (mo_FindOne ops (QEq ''username'' (BStr name)) c)"

definition UpdateUser :: "'c mongo_ops \<Rightarrow> time \<Rightarrow> user \<Rightarrow> 'c \<Rightarrow> 'c \<times> string option" where
  "UpdateUser ops now user c =
     (let user' = user\<lparr>us_UpdatedAt := now\<rparr> in
      apsnd (wrap_err ''failed to update user'')
        (mo_UpdateOne ops (QEq ''user_id'' (put_u64 (us_UserID user'))) [USet (encode_user user')] c))"

definition UpdateFields :: "'c mongo_ops \<Rightarrow> time \<Rightarrow> u64 \<Rightarrow> doc \<Rightarrow> 'c \<Rightarrow> 'c \<times> string option" where
  "UpdateFields ops now uid kvs c =
     apsnd (wrap_err ''failed to update user fields'')
       (mo_UpdateOne ops (QEq ''user_id'' (put_u64 uid)) [USet (AList.update ''updated_at'' (bson_time now) kvs)] c)"

definition DeleteUser :: "'c mongo_ops \<Rightarrow> u64 \<Rightarrow> 'c \<Rightarrow> 'c \<times> string option" where
  "DeleteUser ops uid c = apsnd (wrap_err ''failed to delete user'') (mo_DeleteOne ops (QEq ''user_id'' (put_u64 uid)) c)"

definition ListUsers :: "'c mongo_ops \<Rightarrow> int \<Rightarrow> int \<Rightarrow> 'c \<Rightarrow> 'c \<times> (string + user list)" where
  "ListUsers ops offset limit c =
     apsnd (\<lambda>r. case r of
        Inl e \<Rightarrow> Inl (errorf ''failed to list users'' e)
      | Inr ds \<Rightarrow> (case those (map decode_user ds) of
            None \<Rightarrow> Inl (errorf ''failed to decode users'' ''decoding error'') | Some us \<Rightarrow> Inr us))
       (mo_Find ops (QAnd []) \<lparr>fo_sort_desc = Some ''created_at'', fo_skip = offset, fo_limit = limit\<rparr> c)"

record 'c user_repo =
  ur_Create :: "time \<Rightarrow> time \<Rightarrow> user \<Rightarrow> 'c \<Rightarrow> 'c \<times> (string + user)"
  ur_GetByUserID :: "u64 \<Rightarrow> 'c \<Rightarrow> 'c \<times> (string + user)"
  ur_GetByUsername :: "string \<Rightarrow> 'c \<Rightarrow> 'c \<times> (string + user)"
  ur_Update :: "time \<Rightarrow> user \<Rightarrow> 'c \<Rightarrow> 'c \<times> string option"
  ur_UpdateFields :: "time \<Rightarrow> u64 \<Rightarrow> doc \<Rightarrow> 'c \<Rightarrow> 'c \<times> string option"
  ur_Delete :: "u64 \<Rightarrow> 'c \<Rightarrow> 'c \<times> string option"
  ur_List :: "int \<Rightarrow> int \<Rightarrow> 'c \<Rightarrow> 'c \<times> (string + user list)"

definition NewUserRepository :: "'c mongo_ops \<Rightarrow> 'c user_repo" where
  "NewUserRepository ops =
     \<lparr>ur_Create = CreateUser ops, ur_GetByUserID = GetByUserID ops, ur_GetByUsername = GetByUsername ops,
      ur_Update = UpdateUser ops, ur_UpdateFields = UpdateFields ops, ur_Delete = DeleteUser ops, ur_List = ListUsers ops\<rparr>"

subsection \<open>Reading back\<close>

definition user_fits :: "user \<Rightarrow> bool" where
  "user_fits u \<longleftrightarrow> int_fits 32 (us_Level u) \<and> int_fits 64 (us_Experience u) \<and> int_fits 64 (us_Gold u) \<and>
     int_fits 64 (us_Diamond u) \<and> int_fits 32 (us_Status u)"

lemma encode_user_lookup:
  "map_of (encode_user u) ''_id'' = map_option BOid (us_ID u)"
  "map_of (encode_user u) ''user_id'' = Some (put_u64 (us_UserID u))"
  "map_of (encode_user u) ''username'' = Some (BStr (us_Username u))"
  "map_of (encode_user u) ''password'' = Some (BStr (us_Password u))"
  "map_of (encode_user u) ''nickname'' = Some (BStr (us_Nickname u))"
  "map_of (encode_user u) ''email'' = (if us_Email u = [] then None else Some (BStr (us_Email u)))"
  "map_of (encode_user u) ''phone'' = (if us_Phone u = [] then None else Some (BStr (us_Phone u)))"
  "map_of (encode_user u) ''level'' = Some (BInt (us_Level u))"
  "map_of (encode_user u) ''experience'' = Some (BInt (us_Experience u))"
  "map_of (encode_user u) ''gold'' = Some (BInt (us_Gold u))"
  "map_of (encode_user u) ''diamond'' = Some (BInt (us_Diamond u))"
  "map_of (encode_user u) ''avatar'' = (if us_Avatar u = [] then None else Some (BStr (us_Avatar u)))"
  "map_of (encode_user u) ''status'' = Some (BInt (us_Status u))"
  "map_of (encode_user u) ''last_login_ip'' = Some (BStr (us_LastLoginIP u))"
  "map_of (encode_user u) ''last_login_at'' = Some (bson_time (us_LastLoginAt u))"
  "map_of (encode_user u) ''created_at'' = Some (bson_time (us_CreatedAt u))"
  "map_of (encode_user u) ''updated_at'' = Some (bson_time (us_UpdatedAt u))"
  by (cases "us_ID u") (simp_all add: encode_user_def)

lemma decode_user_fields:
  "decode_user d = Some u \<longleftrightarrow>
     get_oid d = Some (us_ID u) \<and> get_u64 d ''user_id'' = Some (us_UserID u) \<and> get_str d ''username'' = Some (us_Username u) \<and>
     get_str d ''password'' = Some (us_Password u) \<and> get_str d ''nickname'' = Some (us_Nickname u) \<and>
     get_str d ''email'' = Some (us_Email u) \<and> get_str d ''phone'' = Some (us_Phone u) \<and>
     get_int 32 d ''level'' = Some (us_Level u) \<and> get_int 64 d ''experience'' = Some (us_Experience u) \<and>
     get_int 64 d ''gold'' = Some (us_Gold u) \<and> get_int 64 d ''diamond'' = Some (us_Diamond u) \<and>
     get_str d ''avatar'' = Some (us_Avatar u) \<and> get_int 32 d ''status'' = Some (us_Status u) \<and>
     get_str d ''last_login_ip'' = Some (us_LastLoginIP u) \<and> get_time d ''last_login_at'' = Some (us_LastLoginAt u) \<and>
     get_time d ''created_at'' = Some (us_CreatedAt u) \<and> get_time d ''updated_at'' = Some (us_UpdatedAt u)"
  by (auto simp: decode_user_def bind_eq_Some_conv)

text \<open>The documents the repository writes have the user name its lookups read.\<close>

definition user_row :: "doc \<Rightarrow> user option" where
  "user_row d = (if map_of d ''username'' \<noteq> None then decode_user d else None)"

lemma user_row_fields: "user_row d = Some u \<longleftrightarrow> decode_user d = Some u \<and> map_of d ''username'' \<noteq> None"
  by (simp add: user_row_def)

lemma user_row_name: "user_row d = Some u \<Longrightarrow> map_of d ''username'' = Some (BStr (us_Username u))"
proof -
  assume "user_row d = Some u"
  then have "get_str d ''username'' = Some (us_Username u)" "map_of d ''username'' \<noteq> None"
    by (simp_all add: user_row_fields decode_user_fields)
  then show ?thesis by (auto simp: get_str_def split: bval.splits)
qed

lemma user_row_fits: "user_row d = Some u \<Longrightarrow> user_fits u"
proof -
  assume "user_row d = Some u"
  then have "get_int 32 d ''level'' = Some (us_Level u)" "get_int 64 d ''experience'' = Some (us_Experience u)"
    "get_int 64 d ''gold'' = Some (us_Gold u)" "get_int 64 d ''diamond'' = Some (us_Diamond u)"
    "get_int 32 d ''status'' = Some (us_Status u)"
    by (simp_all add: user_row_fields decode_user_fields)
  from this [THEN get_int_fits] show ?thesis by (simp add: user_fits_def)
qed

definition stored_user :: "user \<Rightarrow> user" where
  "stored_user u = u\<lparr>us_LastLoginAt := trunc_ms (us_LastLoginAt u), us_CreatedAt := trunc_ms (us_CreatedAt u),
     us_UpdatedAt := trunc_ms (us_UpdatedAt u)\<rparr>"

definition new_user :: "time \<Rightarrow> time \<Rightarrow> user \<Rightarrow> nat \<Rightarrow> user" where
  "new_user t1 t2 u n = u\<lparr>us_CreatedAt := t1, us_UpdatedAt := t2, us_ID := Some n\<rparr>"

lemma get_opt_str:
  "map_of d k = (if s = [] then None else Some (BStr s)) \<Longrightarrow> get_str d k = Some s"
  by (simp add: get_str_def)

lemma user_row_encode:
  "user_fits u \<Longrightarrow> us_ID u = None \<Longrightarrow> user_row (with_id n (encode_user u)) = Some (stored_user (u\<lparr>us_ID := Some n\<rparr>))"
proof -
  assume fits: "user_fits u" and none: "us_ID u = None"
  let ?d = "with_id n (encode_user u)"
  have m: "map_of ?d k = (if k = ''_id'' then Some (BOid n) else map_of (encode_user u) k)" for k
    using none by (simp add: with_id_def encode_user_lookup)
  have "get_str ?d ''email'' = Some (us_Email u)" "get_str ?d ''phone'' = Some (us_Phone u)"
    "get_str ?d ''avatar'' = Some (us_Avatar u)" "get_oid ?d = Some (Some n)"
    by (intro get_opt_str, simp add: m encode_user_lookup)+ (simp add: get_oid_def m)
  with fits show ?thesis
    by (simp add: user_row_fields decode_user_fields m encode_user_lookup user_fits_def stored_user_def)
qed

lemma CreateUser_row:
  "CreateUser ops t1 t2 u c = apsnd (map_sum (errorf ''failed to create user'') (new_user t1 t2 u))
     (mo_InsertOne ops (encode_user (u\<lparr>us_CreatedAt := t1, us_UpdatedAt := t2\<rparr>)) c)"
  by (simp add: CreateUser_def new_user_def [abs_def] Let_def)

lemma user_error_text: "errorf ''failed to get user'' e \<noteq> ''user not found''"
  by (simp add: errorf_def)

text \<open>The two field updates the login service makes.\<close>

definition set_password :: "time \<Rightarrow> string \<Rightarrow> user \<Rightarrow> user" where
  "set_password now h u = u\<lparr>us_Password := h, us_UpdatedAt := trunc_ms now\<rparr>"

definition set_last_login :: "time \<Rightarrow> time \<Rightarrow> string \<Rightarrow> user \<Rightarrow> user" where
  "set_last_login now at ip u = u\<lparr>us_LastLoginAt := trunc_ms at, us_LastLoginIP := ip, us_UpdatedAt := trunc_ms now\<rparr>"

lemma update_fields_docs:
  "AList.update ''updated_at'' v [(''password'', BStr h)] = [(''password'', BStr h), (''updated_at'', v)]"
  "AList.update ''updated_at'' v [(''last_login_at'', w), (''last_login_ip'', BStr ip)] =
     [(''last_login_at'', w), (''last_login_ip'', BStr ip), (''updated_at'', v)]"
  by simp_all

lemma row_set_password:
  assumes "user_row d = Some u"
  shows "user_row (apply_update [USet [(''password'', BStr h), (''updated_at'', bson_time now)]] d) = Some (set_password now h u)"
  using assms by (simp add: user_row_fields decode_user_fields untouched_op set_password_def)

lemma row_set_last_login:
  assumes "user_row d = Some u"
  shows "user_row (apply_update [USet [(''last_login_at'', bson_time at), (''last_login_ip'', BStr ip), (''updated_at'', bson_time now)]] d) =
    Some (set_last_login now at ip u)"
  using assms by (simp add: user_row_fields decode_user_fields untouched_op set_last_login_def)

subsection \<open>The contract\<close>

locale user_store =
  fixes repo :: "'c user_repo" and users :: "'c \<Rightarrow> u64 \<Rightarrow> user option" and ok :: "'c \<Rightarrow> bool"
  assumes create: "ok c \<Longrightarrow> user_fits u \<Longrightarrow> us_ID u = None \<Longrightarrow> ur_Create repo t1 t2 u c = (c', x1) \<Longrightarrow>
      ok c' \<and> (\<exists>y. created (us_UserID u) (stored_user \<circ> new_user t1 t2 u) (users c) (users c') y \<and>
        (\<forall>z. x1 = Inr z \<longrightarrow> (\<exists>n. y = Inr n \<and> z = new_user t1 t2 u n)) \<and> (isl x1 \<longrightarrow> isl y))"
    and get: "ok c \<Longrightarrow> ur_GetByUserID repo i c = (c', x2) \<Longrightarrow> ok c' \<and> users c' = users c \<and>
      (case x2 of Inr u \<Rightarrow> users c i = Some u \<and> us_UserID u = i | Inl e \<Rightarrow> e = ''user not found'' \<longrightarrow> users c i = None)"
    and get_name: "ok c \<Longrightarrow> ur_GetByUsername repo name c = (c', x3) \<Longrightarrow> ok c' \<and> users c' = users c \<and>
      (case x3 of Inr u \<Rightarrow> users c (us_UserID u) = Some u \<and> us_Username u = name
       | Inl e \<Rightarrow> e = ''user not found'' \<longrightarrow> (\<forall>i u. users c i = Some u \<longrightarrow> us_Username u \<noteq> name))"
    and unique_name: "ok c \<Longrightarrow> users c i = Some u \<Longrightarrow> users c j = Some v \<Longrightarrow> us_Username u = us_Username v \<Longrightarrow> i = j"
    and set_password: "ok c \<Longrightarrow> ur_UpdateFields repo now i [(''password'', BStr h)] c = (c', x4) \<Longrightarrow>
      ok c' \<and> changed i (set_password now h) (users c) (users c') (x4 \<noteq> None)"
    and set_last_login: "ok c \<Longrightarrow>
      ur_UpdateFields repo now i [(''last_login_at'', bson_time at), (''last_login_ip'', BStr ip)] c = (c', x5) \<Longrightarrow>
      ok c' \<and> changed i (set_last_login now at ip) (users c) (users c') (x5 \<noteq> None)"
    and fits: "ok c \<Longrightarrow> users c i = Some u \<Longrightarrow> user_fits u \<and> us_UserID u = i"
    and delete: "ok c \<Longrightarrow> ur_Delete repo i c = (c', x6) \<Longrightarrow> ok c' \<and> removed i (users c) (users c') (x6 \<noteq> None)"

subsection \<open>The repository meets its contract\<close>

definition user_rows_ok :: "doc list \<Rightarrow> bool" where
  "user_rows_ok ds \<longleftrightarrow> rows_ok ''user_id'' user_row us_UserID ds"

locale user_collection = unique_collection ops docs valid "''user_id''"
  for ops :: "'c mongo_ops" and docs valid +
  assumes unique_username: "valid c \<Longrightarrow> unique_on ''username'' (docs c)"

sublocale user_collection \<subseteq> store: document_store ops docs valid "''user_id''" user_row us_UserID
  by unfold_locales

context user_collection
begin

abbreviation "stored c \<equiv> view user_row us_UserID (docs c)"

lemma create_law:
  assumes "valid c" and ok: "user_rows_ok (docs c)" and u: "user_fits u" "us_ID u = None"
    and ins: "mo_InsertOne ops (encode_user (u\<lparr>us_CreatedAt := t1, us_UpdatedAt := t2\<rparr>)) c = (c', y)"
  shows "valid c' \<and> user_rows_ok (docs c') \<and> created (us_UserID u) (stored_user \<circ> new_user t1 t2 u) (stored c) (stored c') y"
proof -
  let ?u = "u\<lparr>us_CreatedAt := t1, us_UpdatedAt := t2\<rparr>"
  have row: "user_row (with_id n (encode_user ?u)) = Some ((stored_user \<circ> new_user t1 t2 u) n) \<and>
      us_UserID ((stored_user \<circ> new_user t1 t2 u) n) = us_UserID u" for n
    using u user_row_encode [of ?u n] by (simp add: user_fits_def stored_user_def new_user_def)
  have "map_of (encode_user ?u) ''user_id'' = Some (put_u64 (us_UserID u))" "''user_id'' \<noteq> ''_id''"
    by (simp_all add: encode_user_lookup)
  from store.store_insert [OF assms(1) ok [unfolded user_rows_ok_def] ins row this]
  show ?thesis unfolding user_rows_ok_def by blast
qed

lemma get_law:
  assumes "valid c" and ok: "user_rows_ok (docs c)" and f: "mo_FindOne ops (QEq ''user_id'' (put_u64 i)) c = (c', y)"
  shows "valid c' \<and> docs c' = docs c \<and> (case y of
      Inr (Some d) \<Rightarrow> decode_user d \<noteq> None \<and> decode_user d = stored c i
    | Inr None \<Rightarrow> stored c i = None | Inl _ \<Rightarrow> True)"
  using store.store_find_one [OF assms(1) ok [unfolded user_rows_ok_def] f]
  by (auto simp: user_row_def split: sum.splits option.splits if_splits)

lemma name_match: "user_row d = Some u \<Longrightarrow> matches (QEq ''username'' (BStr name)) d \<longleftrightarrow> us_Username u = name"
  by (simp add: user_row_name)

lemma get_name_law:
  assumes "valid c" and ok: "user_rows_ok (docs c)" and f: "mo_FindOne ops (QEq ''username'' (BStr name)) c = (c', y)"
  shows "valid c' \<and> docs c' = docs c \<and> (case y of
      Inr (Some d) \<Rightarrow> (\<exists>u. decode_user d = Some u \<and> stored c (us_UserID u) = Some u \<and> us_Username u = name)
    | Inr None \<Rightarrow> (\<forall>i u. stored c i = Some u \<longrightarrow> us_Username u \<noteq> name) | Inl _ \<Rightarrow> True)"
proof -
  note ok' = ok [unfolded user_rows_ok_def]
  note e = find_one [OF assms(1) f]
  have rows: "\<exists>u. user_row d = Some u" if "d \<in> set (docs c)" for d using ok' that by (auto simp: rows_ok_def)
  show ?thesis
  proof (cases y)
    case (Inr x)
    show ?thesis
    proof (cases x)
      case None
      have "us_Username u \<noteq> name" if v: "stored c i = Some u" for i u
      proof -
        from view_Some [OF v] obtain d where "d \<in> set (docs c)" "user_row d = Some u" by blast
        with e Inr None name_match [of d u name] show ?thesis by (auto simp: find_one_effect_def simp del: matches.simps)
      qed
      with e Inr None show ?thesis by simp
    next
      case (Some d)
      with e Inr rows [of d] view_in [OF ok', of d] name_match [of d] show ?thesis
        by (auto simp: find_one_effect_def user_row_fields simp del: matches.simps)
    qed
  qed (use e in auto)
qed

lemma update_law:
  assumes "valid c" and ok: "user_rows_ok (docs c)" and up: "mo_UpdateOne ops (QEq ''user_id'' (put_u64 i)) us c = (c', y)"
    and g: "\<And>d u. user_row d = Some u \<Longrightarrow> user_row (apply_update us d) = Some (g u) \<and> us_UserID (g u) = us_UserID u \<and>
        map_of (apply_update us d) ''user_id'' = map_of d ''user_id''"
  shows "valid c' \<and> user_rows_ok (docs c') \<and> changed i g (stored c) (stored c') (isl y)"
proof -
  have "user_row (apply_update us d) = Some (g x) \<and> us_UserID (g x) = i \<and> map_of (apply_update us d) ''user_id'' = map_of d ''user_id''"
    if "user_row d = Some x" "us_UserID x = i" for d x
    using g [OF that(1)] that(2) by simp
  then have "rows_ok ''user_id'' user_row us_UserID (docs c') \<and> valid c' \<and> changed i g (stored c) (stored c') (isl y)"
    by (rule store.store_update_one [OF assms(1) ok [unfolded user_rows_ok_def] up])
  then show ?thesis by (simp add: user_rows_ok_def)
qed

lemma same_name:
  assumes "valid c" and ok: "user_rows_ok (docs c)" and "stored c i = Some u" "stored c j = Some v" "us_Username u = us_Username v"
  shows "i = j"
proof -
  obtain d e where d: "d \<in> set (docs c)" "user_row d = Some u" "e \<in> set (docs c)" "user_row e = Some v" "i = us_UserID u" "j = us_UserID v"
    using view_Some [OF assms(3)] view_Some [OF assms(4)] by auto
  then have "map_of d ''username'' = map_of e ''username''"
    using assms(5) by (simp add: user_row_name)
  with d unique_onD [OF unique_username [OF assms(1)]] show ?thesis by (metis option.inject)
qed

end

sublocale user_collection \<subseteq> user_store "NewUserRepository ops" stored "\<lambda>c. valid c \<and> user_rows_ok (docs c)"
proof (unfold_locales, goal_cases)
  case (1 c u t1 t2 c' x1)
  then obtain y where y: "mo_InsertOne ops (encode_user (u\<lparr>us_CreatedAt := t1, us_UpdatedAt := t2\<rparr>)) c = (c', y)"
    and x: "x1 = map_sum (errorf ''failed to create user'') (new_user t1 t2 u) y"
    by (auto simp: NewUserRepository_def CreateUser_row apsnd_eq)
  from create_law [OF _ _ 1(2,3) y] 1(1) show ?case unfolding x by (cases y) auto
next
  case (2 c i c' x2)
  then obtain y where y: "mo_FindOne ops (QEq ''user_id'' (put_u64 i)) c = (c', y)" and x: "x2 = found_user y"
    by (auto simp: NewUserRepository_def GetByUserID_def apsnd_eq)
  from get_law [OF _ _ y] 2(1) view_Some [of user_row us_UserID "docs c" i] show ?case
    by (auto simp: x found_user_def user_error_text split: sum.splits option.splits)
next
  case (3 c name c' x3)
  then obtain y where y: "mo_FindOne ops (QEq ''username'' (BStr name)) c = (c', y)" and x: "x3 = found_user y"
    by (auto simp: NewUserRepository_def GetByUsername_def apsnd_eq)
  from get_name_law [OF _ _ y] 3(1) show ?case
    by (auto simp: x found_user_def user_error_text split: sum.splits option.splits)
next
  case (4 c i u j v)
  then show ?case using same_name [of c i u j v] by simp
next
  case (5 c now i h c' x4)
  then obtain y where y: "mo_UpdateOne ops (QEq ''user_id'' (put_u64 i)) [USet [(''password'', BStr h), (''updated_at'', bson_time now)]] c = (c', y)"
    and x: "x4 = wrap_err ''failed to update user fields'' y"
    by (auto simp: NewUserRepository_def UpdateFields_def update_fields_docs apsnd_eq)
  from update_law [OF _ _ y, of "set_password now h"] 5(1) row_set_password [of _ _ h now] show ?case unfolding x
    by (simp add: set_password_def untouched_op)
next
  case (6 c now i at ip c' x5)
  then obtain y where y: "mo_UpdateOne ops (QEq ''user_id'' (put_u64 i))
      [USet [(''last_login_at'', bson_time at), (''last_login_ip'', BStr ip), (''updated_at'', bson_time now)]] c = (c', y)"
    and x: "x5 = wrap_err ''failed to update user fields'' y"
    by (auto simp: NewUserRepository_def UpdateFields_def update_fields_docs apsnd_eq)
  from update_law [OF _ _ y, of "set_last_login now at ip"] 6(1) row_set_last_login [of _ _ at ip now] show ?case unfolding x
    by (simp add: set_last_login_def untouched_op)
next
  case (7 c i u)
  from view_Some [OF 7(2)] obtain d where "user_row d = Some u" "us_UserID u = i" by auto
  then show ?case by (simp add: user_row_fits)
next
  case (8 c i c' x6)
  then obtain y where y: "mo_DeleteOne ops (QEq ''user_id'' (put_u64 i)) c = (c', y)"
    and x: "x6 = wrap_err ''failed to delete user'' y"
    by (auto simp: NewUserRepository_def DeleteUser_def apsnd_eq)
  from store.store_delete_one [OF _ _ y] 8(1) show ?case unfolding x by (simp add: user_rows_ok_def)
qed

definition users_in :: "('c \<Rightarrow> doc list) \<Rightarrow> 'c \<Rightarrow> u64 \<Rightarrow> user option" where
  "users_in docs c = view user_row us_UserID (docs c)"

definition users_valid :: "('c \<Rightarrow> doc list) \<Rightarrow> ('c \<Rightarrow> bool) \<Rightarrow> 'c \<Rightarrow> bool" where
  "users_valid docs valid c \<longleftrightarrow> valid c \<and> user_rows_ok (docs c)"

context user_collection
begin

lemma is_store: "user_store (NewUserRepository ops) (users_in docs) (users_valid docs valid)"
proof -
  have "users_in docs = stored" "users_valid docs valid = (\<lambda>c. valid c \<and> user_rows_ok (docs c))"
    by (simp_all add: fun_eq_iff users_in_def users_valid_def)
  moreover have "user_store (NewUserRepository ops) stored (\<lambda>c. valid c \<and> user_rows_ok (docs c))" by unfold_locales
  ultimately show ?thesis by simp
qed

end

interpretation mem_users: user_collection "mem_ops [''user_id'', ''username'']" mc_docs "\<lambda>c. uniques [''user_id'', ''username''] (mc_docs c)"
  by unfold_locales (simp_all add: uniques_def)

text \<open>Three users in memory, for the witnesses.\<close>

definition demo_user :: "u64 \<Rightarrow> string \<Rightarrow> user" where
  "demo_user uid name = \<lparr>us_ID = Some (unat uid), us_UserID = uid, us_Username = name, us_Password = [], us_Nickname = name,
     us_Email = [], us_Phone = [], us_Level = 1, us_Experience = 0, us_Gold = 0, us_Diamond = 0, us_Avatar = [],
     us_Status = 0, us_LastLoginIP = [], us_LastLoginAt = unix_epoch, us_CreatedAt = unix_epoch, us_UpdatedAt = unix_epoch\<rparr>"

definition demo_users :: mem_coll where
  "demo_users = \<lparr>mc_docs = [encode_user (demo_user 7 ''ann''), encode_user (demo_user 8 ''bob''), encode_user (demo_user 9 ''cid'')], mc_next = 10\<rparr>"

lemma demo_users_ok:
  "user_rows_ok (mc_docs demo_users)" "uniques [''user_id'', ''username''] (mc_docs demo_users)"
proof -
  have "user_row (encode_user (demo_user uid name)) = Some (demo_user uid name)" for uid name
    by (simp add: user_row_fields decode_user_fields encode_user_lookup demo_user_def get_oid_def get_str_def get_time_def bson_time_def int_fits_def get_int_def)
  then show "user_rows_ok (mc_docs demo_users)"
    by (simp add: demo_users_def user_rows_ok_def rows_ok_def unique_on_def encode_user_lookup) (simp add: demo_user_def)
  show "uniques [''user_id'', ''username''] (mc_docs demo_users)"
    by (simp add: uniques_def demo_users_def unique_on_def encode_user_lookup) (simp add: demo_user_def)
qed

lemma demo_users_valid: "users_valid mc_docs (\<lambda>c. uniques [''user_id'', ''username''] (mc_docs c)) demo_users"
  using demo_users_ok by (simp add: users_valid_def)

end
