(* ===== verification/Records.thy ===== *)
theory Records
  imports Rows
begin

text \<open>
  The game record repository of \<^verbatim>\<open>internal/database/mongodb.go\<close>: the model with its \<^verbatim>\<open>bson\<close> tags, the
  methods that create and update a record, and their contract, the locale \<open>record_store\<close>: the effect of
  each on the list of stored records. The index on \<^verbatim>\<open>game_id\<close> is not unique, so an update changes one of
  the records with the identifier. \<^verbatim>\<open>GetUserGameRecords\<close>, which nothing calls, is not modelled.
\<close>

subsection \<open>The model and its documents\<close>

record ranked_player =
  rk_UserID :: u64
  rk_Nickname :: string
  rk_Level :: int
  rk_Score :: int
  rk_Rank :: int

record game_record =
  gc_ID :: "nat option"
  gc_GameID :: u64
  gc_RoomID :: u64
  gc_GameType :: int
  gc_Players :: "ranked_player list"
  gc_Winner :: u64
  gc_Duration :: int
  gc_Status :: int
  gc_GameData :: doc
  gc_CreatedAt :: time
  gc_UpdatedAt :: time

definition encode_ranked :: "ranked_player \<Rightarrow> doc" where
  "encode_ranked p =
     [(''user_id'', put_u64 (rk_UserID p)), (''nickname'', BStr (rk_Nickname p)), (''level'', BInt (rk_Level p)),
      (''score'', BInt (rk_Score p)), (''rank'', BInt (rk_Rank p))]"

definition decode_ranked :: "doc \<Rightarrow> ranked_player option" where
  "decode_ranked d = do {
     uid \<leftarrow> get_u64 d ''user_id''; nick \<leftarrow> get_str d ''nickname''; lvl \<leftarrow> get_int 32 d ''level'';
     sc \<leftarrow> get_int 64 d ''score''; rk \<leftarrow> get_int 32 d ''rank'';
     Some \<lparr>rk_UserID = uid, rk_Nickname = nick, rk_Level = lvl, rk_Score = sc, rk_Rank = rk\<rparr> }"

text \<open>An empty map is left out.\<close>

definition opt_doc :: "string \<Rightarrow> doc \<Rightarrow> doc" where
  "opt_doc k e = (if e = [] then [] else [(k, BDoc e)])"

definition get_doc :: "doc \<Rightarrow> string \<Rightarrow> doc option" where
  "get_doc d k = (case map_of d k of None \<Rightarrow> Some [] | Some (BDoc e) \<Rightarrow> Some e | _ \<Rightarrow> None)"

definition encode_record :: "game_record \<Rightarrow> doc" where
  "encode_record r = opt_oid (gc_ID r) @
     [(''game_id'', put_u64 (gc_GameID r)), (''room_id'', put_u64 (gc_RoomID r)), (''game_type'', BInt (gc_GameType r)),
      (''players'', BArr (map (\<lambda>p. BDoc (encode_ranked p)) (gc_Players r)))] @
     opt_u64 ''winner'' (gc_Winner r) @
     [(''duration'', BInt (gc_Duration r)), (''status'', BInt (gc_Status r))] @
     opt_doc ''game_data'' (gc_GameData r) @
     [(''created_at'', bson_time (gc_CreatedAt r)), (''updated_at'', bson_time (gc_UpdatedAt r))]"

definition decode_record :: "doc \<Rightarrow> game_record option" where
  "decode_record d = do {
     oid \<leftarrow> get_oid d; gid \<leftarrow> get_u64 d ''game_id''; rid \<leftarrow> get_u64 d ''room_id''; gt \<leftarrow> get_int 32 d ''game_type'';
     ps \<leftarrow> get_list decode_ranked d ''players''; win \<leftarrow> get_u64 d ''winner''; dur \<leftarrow> get_int 32 d ''duration'';
     st \<leftarrow> get_int 32 d ''status''; gd \<leftarrow> get_doc d ''game_data'';
     ct \<leftarrow> get_time d ''created_at''; ut \<leftarrow> get_time d ''updated_at'';
     Some \<lparr>gc_ID = oid, gc_GameID = gid, gc_RoomID = rid, gc_GameType = gt, gc_Players = ps, gc_Winner = win,
       gc_Duration = dur, gc_Status = st, gc_GameData = gd, gc_CreatedAt = ct, gc_UpdatedAt = ut\<rparr> }"

subsection \<open>The methods\<close>

definition CreateRecord :: "'c mongo_ops \<Rightarrow> time \<Rightarrow> time \<Rightarrow> game_record \<Rightarrow> 'c \<Rightarrow> 'c \<times> string option" where
  "CreateRecord ops t1 t2 r c =
     apsnd (wrap_err ''failed to create game record'')
       (mo_InsertOne ops (encode_record (r\<lparr>gc_CreatedAt := t1, gc_UpdatedAt := t2\<rparr>)) c)"

definition UpdateRecord :: "'c mongo_ops \<Rightarrow> time \<Rightarrow> game_record \<Rightarrow> 'c \<Rightarrow> 'c \<times> string option" where
  "UpdateRecord ops now r c =
     apsnd (wrap_err ''failed to update game record'')
       (mo_UpdateOne ops (QEq ''game_id'' (put_u64 (gc_GameID r))) [USet (encode_record (r\<lparr>gc_UpdatedAt := now\<rparr>))] c)"

record 'c record_repo =
  cr_CreateRecord :: "time \<Rightarrow> time \<Rightarrow> game_record \<Rightarrow> 'c \<Rightarrow> 'c \<times> string option"
  cr_UpdateRecord :: "time \<Rightarrow> game_record \<Rightarrow> 'c \<Rightarrow> 'c \<times> string option"

definition NewGameRecordRepository :: "'c mongo_ops \<Rightarrow> 'c record_repo" where
  "NewGameRecordRepository ops = \<lparr>cr_CreateRecord = CreateRecord ops, cr_UpdateRecord = UpdateRecord ops\<rparr>"

subsection \<open>Reading back\<close>

definition ranked_fits :: "ranked_player \<Rightarrow> bool" where
  "ranked_fits p \<longleftrightarrow> int_fits 32 (rk_Level p) \<and> int_fits 64 (rk_Score p) \<and> int_fits 32 (rk_Rank p)"

definition record_fits :: "game_record \<Rightarrow> bool" where
  "record_fits r \<longleftrightarrow> int_fits 32 (gc_GameType r) \<and> int_fits 32 (gc_Duration r) \<and> int_fits 32 (gc_Status r) \<and>
     (\<forall>p \<in> set (gc_Players r). ranked_fits p)"

lemma decode_encode_ranked [simp]: "ranked_fits p \<Longrightarrow> decode_ranked (encode_ranked p) = Some p"
  by (simp add: decode_ranked_def encode_ranked_def ranked_fits_def)

lemma encode_record_lookup:
  "map_of (encode_record r) ''_id'' = map_option BOid (gc_ID r)"
  "map_of (encode_record r) ''game_id'' = Some (put_u64 (gc_GameID r))"
  "map_of (encode_record r) ''room_id'' = Some (put_u64 (gc_RoomID r))"
  "map_of (encode_record r) ''game_type'' = Some (BInt (gc_GameType r))"
  "map_of (encode_record r) ''players'' = Some (BArr (map (\<lambda>p. BDoc (encode_ranked p)) (gc_Players r)))"
  "map_of (encode_record r) ''winner'' = (if gc_Winner r = 0 then None else Some (put_u64 (gc_Winner r)))"
  "map_of (encode_record r) ''duration'' = Some (BInt (gc_Duration r))"
  "map_of (encode_record r) ''status'' = Some (BInt (gc_Status r))"
  "map_of (encode_record r) ''game_data'' = (if gc_GameData r = [] then None else Some (BDoc (gc_GameData r)))"
  "map_of (encode_record r) ''created_at'' = Some (bson_time (gc_CreatedAt r))"
  "map_of (encode_record r) ''updated_at'' = Some (bson_time (gc_UpdatedAt r))"
  by (cases "gc_ID r"; simp add: encode_record_def opt_u64_def opt_doc_def)+

lemma encode_record_rev: "map_of (rev (encode_record r)) = map_of (encode_record r)"
proof (rule map_of_eqI)
  have "distinct (map fst (encode_record r))"
    by (simp add: encode_record_def opt_oid_def opt_u64_def opt_doc_def split: option.splits)
  then have *: "map_of (rev (encode_record r)) k = Some v \<longleftrightarrow> map_of (encode_record r) k = Some v" for k v
    by (simp add: map_of_eq_Some_iff rev_map [symmetric])
  show "set (map fst (rev (encode_record r))) = set (map fst (encode_record r))" by simp
  show "\<forall>k \<in> set (map fst (rev (encode_record r))). map_of (rev (encode_record r)) k = map_of (encode_record r) k"
    using * by (metis not_None_eq)
qed

text \<open>A stored record has the field the updates select it by.\<close>

definition record_row :: "doc \<Rightarrow> game_record option" where
  "record_row d = (if map_of d ''game_id'' = None then None else decode_record d)"

definition stored_record :: "game_record \<Rightarrow> game_record" where
  "stored_record r = r\<lparr>gc_CreatedAt := trunc_ms (gc_CreatedAt r), gc_UpdatedAt := trunc_ms (gc_UpdatedAt r)\<rparr>"

text \<open>\<^verbatim>\<open>$set\<close> of a whole record keeps only what the new one leaves out.\<close>

definition replace_record :: "time \<Rightarrow> game_record \<Rightarrow> game_record \<Rightarrow> game_record" where
  "replace_record now r old = (stored_record (r\<lparr>gc_UpdatedAt := now\<rparr>))
     \<lparr>gc_ID := gc_ID old, gc_Winner := (if gc_Winner r = 0 then gc_Winner old else gc_Winner r),
      gc_GameData := (if gc_GameData r = [] then gc_GameData old else gc_GameData r)\<rparr>"

lemma decode_record_fields:
  "decode_record d = Some r \<longleftrightarrow>
     get_oid d = Some (gc_ID r) \<and> get_u64 d ''game_id'' = Some (gc_GameID r) \<and> get_u64 d ''room_id'' = Some (gc_RoomID r) \<and>
     get_int 32 d ''game_type'' = Some (gc_GameType r) \<and> get_list decode_ranked d ''players'' = Some (gc_Players r) \<and>
     get_u64 d ''winner'' = Some (gc_Winner r) \<and> get_int 32 d ''duration'' = Some (gc_Duration r) \<and>
     get_int 32 d ''status'' = Some (gc_Status r) \<and> get_doc d ''game_data'' = Some (gc_GameData r) \<and>
     get_time d ''created_at'' = Some (gc_CreatedAt r) \<and> get_time d ''updated_at'' = Some (gc_UpdatedAt r)"
  by (auto simp: decode_record_def bind_eq_Some_conv)

lemma record_row_fields: "record_row d = Some r \<longleftrightarrow> decode_record d = Some r \<and> map_of d ''game_id'' \<noteq> None"
  by (simp add: record_row_def)

lemma record_row_match:
  assumes "record_row d = Some r"
  shows "matches (QEq ''game_id'' (put_u64 gid)) d \<longleftrightarrow> gc_GameID r = gid"
proof -
  from assms have "get_u64 d ''game_id'' = Some (gc_GameID r)" "map_of d ''game_id'' \<noteq> None"
    by (simp_all add: record_row_fields decode_record_fields)
  then show ?thesis by (rule u64_match)
qed

lemma record_row_encode:
  assumes fits: "record_fits r" and none: "gc_ID r = None"
  shows "record_row (with_id n (encode_record r)) = Some (stored_record (r\<lparr>gc_ID := Some n\<rparr>))"
proof -
  let ?d = "with_id n (encode_record r)"
  have m: "map_of ?d k = (if k = ''_id'' then Some (BOid n) else map_of (encode_record r) k)" for k
    using none by (simp add: with_id_def encode_record_lookup)
  have l: "get_list decode_ranked ?d ''players'' = Some (gc_Players r)"
    using fits by (intro get_list_cong [where enc = encode_ranked]) (auto simp: m encode_record_lookup record_fits_def)
  have w: "get_u64 ?d ''winner'' = Some (gc_Winner r)"
    by (cases "gc_Winner r = 0") (simp_all add: m encode_record_lookup, simp add: get_u64_def m encode_record_lookup)
  have g: "get_doc ?d ''game_data'' = Some (gc_GameData r)" "get_oid ?d = Some (Some n)"
    by (simp_all add: get_doc_def get_oid_def m encode_record_lookup)
  show ?thesis
    using fits l w g by (simp add: record_row_fields decode_record_fields m encode_record_lookup record_fits_def stored_record_def)
qed

lemma row_replace_record:
  assumes "record_row d = Some old" and "record_fits r" and none: "gc_ID r = None"
  shows "record_row (apply_update [USet (encode_record (r\<lparr>gc_UpdatedAt := now\<rparr>))] d) = Some (replace_record now r old)"
proof -
  note d = assms(1) [unfolded record_row_fields decode_record_fields]
  let ?d = "apply_op (USet (encode_record (r\<lparr>gc_UpdatedAt := now\<rparr>))) d"
  have m: "map_of ?d k = (case map_of (encode_record (r\<lparr>gc_UpdatedAt := now\<rparr>)) k of None \<Rightarrow> map_of d k | v \<Rightarrow> v)" for k
    by (simp add: encode_record_rev)
  have l: "get_list decode_ranked ?d ''players'' = Some (gc_Players r)"
    using assms(2) by (intro get_list_cong [where enc = encode_ranked]) (auto simp: m encode_record_lookup record_fits_def simp del: map_of_set)
  have win: "get_u64 ?d ''winner'' = Some (if gc_Winner r = 0 then gc_Winner old else gc_Winner r)"
  proof (cases "gc_Winner r = 0")
    case True
    then show ?thesis using d by (simp add: get_u64_def m encode_record_lookup del: map_of_set)
  qed (simp add: m encode_record_lookup del: map_of_set)
  have w: "get_doc ?d ''game_data'' = Some (if gc_GameData r = [] then gc_GameData old else gc_GameData r)"
    "get_oid ?d = Some (gc_ID old)"
    using d none by (simp_all add: get_doc_def get_oid_def m encode_record_lookup del: map_of_set)
  show ?thesis
    using assms(2) l win w
    by (simp add: record_row_fields decode_record_fields m encode_record_lookup record_fits_def replace_record_def stored_record_def del: map_of_set)
qed

subsection \<open>The contract\<close>

definition record_added :: "time \<Rightarrow> time \<Rightarrow> game_record \<Rightarrow> game_record list \<Rightarrow> game_record list \<Rightarrow> bool" where
  "record_added t1 t2 r rs rs' \<longleftrightarrow>
     (\<exists>n. rs' = rs @ [stored_record (r\<lparr>gc_CreatedAt := t1, gc_UpdatedAt := t2, gc_ID := Some n\<rparr>)])"

abbreviation "of_game gid r \<equiv> gc_GameID r = gid"

locale record_store =
  fixes repo :: "'c record_repo" and records :: "'c \<Rightarrow> game_record list" and ok :: "'c \<Rightarrow> bool"
  assumes create: "ok c \<Longrightarrow> record_fits r \<Longrightarrow> gc_ID r = None \<Longrightarrow> cr_CreateRecord repo t1 t2 r c = (c', e1) \<Longrightarrow>
      ok c' \<and> (record_added t1 t2 r (records c) (records c') \<or> e1 \<noteq> None \<and> records c' = records c)"
    and update: "ok c \<Longrightarrow> record_fits r \<Longrightarrow> gc_ID r = None \<Longrightarrow> cr_UpdateRecord repo now r c = (c', e2) \<Longrightarrow>
      ok c' \<and> (one_changed (of_game (gc_GameID r)) (replace_record now r) (records c) (records c') \<or>
        (e2 \<noteq> None \<or> (\<forall>x \<in> set (records c). gc_GameID x \<noteq> gc_GameID r)) \<and> records c' = records c)"

context mongo_collection
begin

lemma create_record_law:
  assumes "holds record_row c" and "record_fits r" and "gc_ID r = None" and "CreateRecord ops t1 t2 r c = (c', e)"
  shows "holds record_row c' \<and>
    (record_added t1 t2 r (rows record_row c) (rows record_row c') \<or> e \<noteq> None \<and> rows record_row c' = rows record_row c)"
proof -
  let ?r = "r\<lparr>gc_CreatedAt := t1, gc_UpdatedAt := t2\<rparr>"
  from assms(4) obtain y where y: "mo_InsertOne ops (encode_record ?r) c = (c', y)"
    and e: "e = wrap_err ''failed to create game record'' y"
    by (auto simp: CreateRecord_def apsnd_eq)
  have row: "record_row (with_id n (encode_record ?r)) = Some (stored_record (?r\<lparr>gc_ID := Some n\<rparr>))" for n
    using assms(2,3) by (intro record_row_encode) (simp_all add: record_fits_def)
  from rows_insert [OF assms(1) y row] e show ?thesis by (auto simp: record_added_def)
qed

lemma update_record_law:
  assumes "holds record_row c" and "record_fits r" and "gc_ID r = None" and "UpdateRecord ops now r c = (c', e)"
  shows "holds record_row c' \<and>
    (one_changed (of_game (gc_GameID r)) (replace_record now r) (rows record_row c) (rows record_row c') \<or>
     (e \<noteq> None \<or> (\<forall>x \<in> set (rows record_row c). gc_GameID x \<noteq> gc_GameID r)) \<and> rows record_row c' = rows record_row c)"
proof -
  from assms(4) obtain y where
    y: "mo_UpdateOne ops (QEq ''game_id'' (put_u64 (gc_GameID r))) [USet (encode_record (r\<lparr>gc_UpdatedAt := now\<rparr>))] c = (c', y)"
    and e: "e = wrap_err ''failed to update game record'' y"
    by (auto simp: UpdateRecord_def apsnd_eq)
  from rows_update_one [OF assms(1) y record_row_match row_replace_record [OF _ assms(2,3)]] e show ?thesis by simp
qed

lemma record_store_law: "record_store (NewGameRecordRepository ops) (rows record_row) (holds record_row)"
proof (unfold_locales, goal_cases)
  case 1
  then show ?case using create_record_law by (simp add: NewGameRecordRepository_def)
next
  case 2
  then show ?case using update_record_law by (simp add: NewGameRecordRepository_def)
qed

end

interpretation mem_records: record_store "NewGameRecordRepository (mem_ops [])" "rows_in record_row mc_docs"
    "rows_valid record_row mc_docs (\<lambda>c. uniques [] (mc_docs c))"
  by (rule mem.record_store_law)

end
