(* ===== verification/Friends.thy ===== *)
theory Friends
  imports Rows
begin

text \<open>
  The friend repository of \<^verbatim>\<open>internal/database/mongodb.go\<close>: the model with its \<^verbatim>\<open>bson\<close> tags, the methods,
  and their contract \<open>friend_store\<close> on the list of records, proved for every collection. No index of the
  collection is unique, so a pair of users may have several records.
\<close>

subsection \<open>The model and its documents\<close>

record friend =
  fr_ID :: "nat option"
  fr_UserID :: u64
  fr_FriendID :: u64
  fr_Status :: int
  fr_Message :: string
  fr_CreatedAt :: time
  fr_UpdatedAt :: time

definition encode_friend :: "friend \<Rightarrow> doc" where
  "encode_friend f = opt_oid (fr_ID f) @
     [(''user_id'', put_u64 (fr_UserID f)), (''friend_id'', put_u64 (fr_FriendID f)), (''status'', BInt (fr_Status f))] @
     opt_str ''message'' (fr_Message f) @
     [(''created_at'', bson_time (fr_CreatedAt f)), (''updated_at'', bson_time (fr_UpdatedAt f))]"

definition decode_friend :: "doc \<Rightarrow> friend option" where
  "decode_friend d = do {
     oid \<leftarrow> get_oid d; uid \<leftarrow> get_u64 d ''user_id''; fid \<leftarrow> get_u64 d ''friend_id''; st \<leftarrow> get_int 32 d ''status'';
     msg \<leftarrow> get_str d ''message''; ct \<leftarrow> get_time d ''created_at''; ut \<leftarrow> get_time d ''updated_at'';
     Some \<lparr>fr_ID = oid, fr_UserID = uid, fr_FriendID = fid, fr_Status = st, fr_Message = msg, fr_CreatedAt = ct, fr_UpdatedAt = ut\<rparr> }"

subsection \<open>The methods\<close>

definition new_friend :: "time \<Rightarrow> u64 \<Rightarrow> u64 \<Rightarrow> int \<Rightarrow> string \<Rightarrow> friend" where
  "new_friend now uid fid st msg = \<lparr>fr_ID = None, fr_UserID = uid, fr_FriendID = fid, fr_Status = st, fr_Message = msg,
     fr_CreatedAt = now, fr_UpdatedAt = now\<rparr>"

definition AddFriendRecord :: "'c mongo_ops \<Rightarrow> time \<Rightarrow> u64 \<Rightarrow> u64 \<Rightarrow> string \<Rightarrow> 'c \<Rightarrow> 'c \<times> string option" where
  "AddFriendRecord ops now uid fid msg c =
     apsnd (wrap_err ''failed to add friend'') (mo_InsertOne ops (encode_friend (new_friend now uid fid 0 msg)) c)"

definition pair_filter :: "u64 \<Rightarrow> u64 \<Rightarrow> query list" where
  "pair_filter uid fid = [QEq ''user_id'' (put_u64 uid), QEq ''friend_id'' (put_u64 fid)]"

definition status_update :: "time \<Rightarrow> int \<Rightarrow> update_op list" where
  "status_update now st = [USet [(''status'', BInt st), (''updated_at'', bson_time now)]]"

definition AcceptFriendRecord :: "'c mongo_ops \<Rightarrow> time \<Rightarrow> u64 \<Rightarrow> u64 \<Rightarrow> 'c \<Rightarrow> 'c \<times> string option" where
  "AcceptFriendRecord ops now uid fid c =
     (case mo_UpdateOne ops (QAnd (pair_filter fid uid @ [QEq ''status'' (BInt 0)])) (status_update now 1) c of
        (c1, Inl e) \<Rightarrow> (c1, Some (errorf ''failed to accept friend request'' e))
      | (c1, Inr _) \<Rightarrow>
          apsnd (wrap_err ''failed to add reverse friend relation'') (mo_InsertOne ops (encode_friend (new_friend now uid fid 1 [])) c1))"

text \<open>The lookups share how a cursor is decoded.\<close>

definition decoded_friends :: "string \<Rightarrow> string \<Rightarrow> string + doc list \<Rightarrow> string + friend list" where
  "decoded_friends failed undecoded r = (case r of
      Inl e \<Rightarrow> Inl (errorf failed e)
    | Inr ds \<Rightarrow> (case those (map decode_friend ds) of None \<Rightarrow> Inl (errorf undecoded ''decoding error'') | Some fs \<Rightarrow> Inr fs))"

definition GetFriends :: "'c mongo_ops \<Rightarrow> u64 \<Rightarrow> 'c \<Rightarrow> 'c \<times> (string + friend list)" where
  "GetFriends ops uid c =
     apsnd (decoded_friends ''failed to get friends'' ''failed to decode friends'')
       (mo_Find ops (QAnd [QEq ''user_id'' (put_u64 uid), QEq ''status'' (BInt 1)]) all_opts c)"

definition DeleteFriendRecord :: "'c mongo_ops \<Rightarrow> u64 \<Rightarrow> u64 \<Rightarrow> 'c \<Rightarrow> 'c \<times> string option" where
  "DeleteFriendRecord ops uid fid c =
     (case mo_DeleteOne ops (QAnd (pair_filter uid fid)) c of
        (c1, Inl e) \<Rightarrow> (c1, Some (errorf ''failed to delete friend relation (user->friend)'' e))
      | (c1, Inr _) \<Rightarrow>
          apsnd (wrap_err ''failed to delete friend relation (friend->user)'') (mo_DeleteOne ops (QAnd (pair_filter fid uid)) c1))"

definition GetPendingFriendRequests :: "'c mongo_ops \<Rightarrow> u64 \<Rightarrow> 'c \<Rightarrow> 'c \<times> (string + friend list)" where
  "GetPendingFriendRequests ops uid c =
     apsnd (decoded_friends ''failed to get pending friend requests'' ''failed to decode friend requests'')
       (mo_Find ops (QAnd [QEq ''friend_id'' (put_u64 uid), QEq ''status'' (BInt 0)]) all_opts c)"

definition RejectFriend :: "'c mongo_ops \<Rightarrow> time \<Rightarrow> u64 \<Rightarrow> u64 \<Rightarrow> 'c \<Rightarrow> 'c \<times> string option" where
  "RejectFriend ops now uid fid c =
     apsnd (wrap_err ''failed to reject friend request'')
       (mo_UpdateOne ops (QAnd (pair_filter fid uid @ [QEq ''status'' (BInt 0)])) (status_update now 2) c)"

record 'c friend_repo =
  fx_AddFriend :: "time \<Rightarrow> u64 \<Rightarrow> u64 \<Rightarrow> string \<Rightarrow> 'c \<Rightarrow> 'c \<times> string option"
  fx_AcceptFriend :: "time \<Rightarrow> u64 \<Rightarrow> u64 \<Rightarrow> 'c \<Rightarrow> 'c \<times> string option"
  fx_GetFriends :: "u64 \<Rightarrow> 'c \<Rightarrow> 'c \<times> (string + friend list)"
  fx_DeleteFriend :: "u64 \<Rightarrow> u64 \<Rightarrow> 'c \<Rightarrow> 'c \<times> string option"
  fx_GetPendingFriendRequests :: "u64 \<Rightarrow> 'c \<Rightarrow> 'c \<times> (string + friend list)"
  fx_RejectFriend :: "time \<Rightarrow> u64 \<Rightarrow> u64 \<Rightarrow> 'c \<Rightarrow> 'c \<times> string option"

definition NewFriendRepository :: "'c mongo_ops \<Rightarrow> 'c friend_repo" where
  "NewFriendRepository ops = \<lparr>fx_AddFriend = AddFriendRecord ops, fx_AcceptFriend = AcceptFriendRecord ops,
     fx_GetFriends = GetFriends ops, fx_DeleteFriend = DeleteFriendRecord ops,
     fx_GetPendingFriendRequests = GetPendingFriendRequests ops, fx_RejectFriend = RejectFriend ops\<rparr>"

subsection \<open>Reading back\<close>

lemma encode_friend_lookup:
  "map_of (encode_friend f) ''_id'' = map_option BOid (fr_ID f)"
  "map_of (encode_friend f) ''user_id'' = Some (put_u64 (fr_UserID f))"
  "map_of (encode_friend f) ''friend_id'' = Some (put_u64 (fr_FriendID f))"
  "map_of (encode_friend f) ''status'' = Some (BInt (fr_Status f))"
  "map_of (encode_friend f) ''message'' = (if fr_Message f = [] then None else Some (BStr (fr_Message f)))"
  "map_of (encode_friend f) ''created_at'' = Some (bson_time (fr_CreatedAt f))"
  "map_of (encode_friend f) ''updated_at'' = Some (bson_time (fr_UpdatedAt f))"
  by (cases "fr_ID f") (simp_all add: encode_friend_def)

lemma decode_friend_fields:
  "decode_friend d = Some f \<longleftrightarrow>
     get_oid d = Some (fr_ID f) \<and> get_u64 d ''user_id'' = Some (fr_UserID f) \<and> get_u64 d ''friend_id'' = Some (fr_FriendID f) \<and>
     get_int 32 d ''status'' = Some (fr_Status f) \<and> get_str d ''message'' = Some (fr_Message f) \<and>
     get_time d ''created_at'' = Some (fr_CreatedAt f) \<and> get_time d ''updated_at'' = Some (fr_UpdatedAt f)"
  by (auto simp: decode_friend_def bind_eq_Some_conv)

text \<open>The documents the repository writes have the fields its filters read.\<close>

definition friend_row :: "doc \<Rightarrow> friend option" where
  "friend_row d = (if \<forall>k \<in> {''user_id'', ''friend_id'', ''status''}. map_of d k \<noteq> None then decode_friend d else None)"

lemma friend_row_fields: "friend_row d = Some f \<longleftrightarrow> decode_friend d = Some f \<and>
    map_of d ''user_id'' \<noteq> None \<and> map_of d ''friend_id'' \<noteq> None \<and> map_of d ''status'' \<noteq> None"
  by (simp add: friend_row_def)

lemma friend_row_decode: "friend_row d = Some f \<Longrightarrow> decode_friend d = Some f"
  by (simp add: friend_row_fields)

definition stored_friend :: "friend \<Rightarrow> friend" where
  "stored_friend f = f\<lparr>fr_CreatedAt := trunc_ms (fr_CreatedAt f), fr_UpdatedAt := trunc_ms (fr_UpdatedAt f)\<rparr>"

definition set_status :: "time \<Rightarrow> int \<Rightarrow> friend \<Rightarrow> friend" where
  "set_status now st f = f\<lparr>fr_Status := st, fr_UpdatedAt := trunc_ms now\<rparr>"

lemma friend_row_encode:
  assumes "int_fits 32 (fr_Status f)" and none: "fr_ID f = None"
  shows "friend_row (with_id n (encode_friend f)) = Some (stored_friend (f\<lparr>fr_ID := Some n\<rparr>))"
proof -
  let ?d = "with_id n (encode_friend f)"
  have m: "map_of ?d k = (if k = ''_id'' then Some (BOid n) else map_of (encode_friend f) k)" for k
    using none by (simp add: with_id_def encode_friend_lookup)
  have g: "get_oid ?d = Some (Some n)" "get_str ?d ''message'' = Some (fr_Message f)"
    by (simp_all add: get_oid_def get_str_def m encode_friend_lookup)
  show ?thesis
    using assms g by (simp add: friend_row_fields decode_friend_fields m encode_friend_lookup stored_friend_def)
qed

lemma friend_row_status:
  assumes "friend_row d = Some f" and "int_fits 32 st"
  shows "friend_row (apply_update (status_update now st) d) = Some (set_status now st f)"
proof -
  let ?d = "apply_op (USet [(''status'', BInt st), (''updated_at'', bson_time now)]) d"
  have "get_int 32 ?d ''status'' = Some st" "get_time ?d ''updated_at'' = Some (trunc_ms now)"
    using assms(2) by simp_all
  with assms(1) show ?thesis
    by (simp add: friend_row_fields decode_friend_fields status_update_def set_status_def)
qed

definition between :: "u64 \<Rightarrow> u64 \<Rightarrow> friend \<Rightarrow> bool" where
  "between uid fid f \<longleftrightarrow> fr_UserID f = uid \<and> fr_FriendID f = fid"

lemma friend_row_matches:
  assumes "friend_row d = Some f"
  shows "matches (QEq ''user_id'' (put_u64 i)) d \<longleftrightarrow> fr_UserID f = i" "matches (QEq ''friend_id'' (put_u64 i)) d \<longleftrightarrow> fr_FriendID f = i"
    "matches (QEq ''status'' (BInt st)) d \<longleftrightarrow> fr_Status f = st"
  using assms u64_match [of d "''user_id''" "fr_UserID f"] u64_match [of d "''friend_id''" "fr_FriendID f"]
    int_match [of 32 d "''status''" "fr_Status f"]
  by (simp_all add: friend_row_fields decode_friend_fields del: matches.simps)

lemma friend_row_between:
  assumes "friend_row d = Some f"
  shows "matches (QAnd (pair_filter uid fid)) d \<longleftrightarrow> between uid fid f"
    "matches (QAnd (pair_filter uid fid @ [QEq ''status'' (BInt st)])) d \<longleftrightarrow> between uid fid f \<and> fr_Status f = st"
    "matches (QAnd [QEq ''user_id'' (put_u64 uid), QEq ''status'' (BInt st)]) d \<longleftrightarrow> fr_UserID f = uid \<and> fr_Status f = st"
    "matches (QAnd [QEq ''friend_id'' (put_u64 uid), QEq ''status'' (BInt st)]) d \<longleftrightarrow> fr_FriendID f = uid \<and> fr_Status f = st"
  using friend_row_matches [OF assms] by (simp_all add: pair_filter_def between_def del: matches.simps(1))

subsection \<open>The contract\<close>

definition friend_added :: "time \<Rightarrow> u64 \<Rightarrow> u64 \<Rightarrow> int \<Rightarrow> string \<Rightarrow> friend list \<Rightarrow> friend list \<Rightarrow> bool" where
  "friend_added now uid fid st msg fs fs' \<longleftrightarrow>
     (\<exists>n. fs' = fs @ [stored_friend ((new_friend now uid fid st msg)\<lparr>fr_ID := Some n\<rparr>)])"

definition pending :: "u64 \<Rightarrow> u64 \<Rightarrow> friend \<Rightarrow> bool" where
  "pending uid fid f \<longleftrightarrow> between uid fid f \<and> fr_Status f = 0"

locale friend_store =
  fixes repo :: "'c friend_repo" and friends :: "'c \<Rightarrow> friend list" and ok :: "'c \<Rightarrow> bool"
  assumes add: "ok c \<Longrightarrow> fx_AddFriend repo now uid fid msg c = (c', e1) \<Longrightarrow> ok c' \<and>
      (friend_added now uid fid 0 msg (friends c) (friends c') \<or> e1 \<noteq> None \<and> friends c' = friends c)"
    and accept: "ok c \<Longrightarrow> fx_AcceptFriend repo now uid fid c = (c', e2) \<Longrightarrow> ok c' \<and>
      (\<exists>mid. changed_or_none (pending fid uid) (set_status now 1) (e2 \<noteq> None) (friends c) mid \<and>
         (friend_added now uid fid 1 [] mid (friends c') \<or> e2 \<noteq> None \<and> friends c' = mid))"
    and get_friends: "ok c \<Longrightarrow> fx_GetFriends repo uid c = (c', r3) \<Longrightarrow> ok c' \<and> friends c' = friends c \<and>
      (\<forall>fs. r3 = Inr fs \<longrightarrow> mset fs = mset (filter (\<lambda>f. fr_UserID f = uid \<and> fr_Status f = 1) (friends c)))"
    and delete: "ok c \<Longrightarrow> fx_DeleteFriend repo uid fid c = (c', e4) \<Longrightarrow> ok c' \<and>
      (\<exists>mid. removed_or_none (between uid fid) (e4 \<noteq> None) (friends c) mid \<and>
         (removed_or_none (between fid uid) (e4 \<noteq> None) mid (friends c')))"
    and get_pending: "ok c \<Longrightarrow> fx_GetPendingFriendRequests repo uid c = (c', r5) \<Longrightarrow> ok c' \<and> friends c' = friends c \<and>
      (\<forall>fs. r5 = Inr fs \<longrightarrow> mset fs = mset (filter (\<lambda>f. fr_FriendID f = uid \<and> fr_Status f = 0) (friends c)))"
    and reject: "ok c \<Longrightarrow> fx_RejectFriend repo now uid fid c = (c', e6) \<Longrightarrow> ok c' \<and>
      changed_or_none (pending fid uid) (set_status now 2) (e6 \<noteq> None) (friends c) (friends c')"

context mongo_collection
begin

abbreviation "fok \<equiv> holds friend_row"

abbreviation "frs \<equiv> rows friend_row"

lemma friend_insert_law:
  assumes "fok c" and "mo_InsertOne ops (encode_friend (new_friend now uid fid st msg)) c = (c', y)" and "int_fits 32 st"
  shows "fok c' \<and> (friend_added now uid fid st msg (frs c) (frs c') \<or> isl y \<and> frs c' = frs c)"
  using rows_insert [OF assms(1,2) friend_row_encode] assms(3) by (auto simp: new_friend_def friend_added_def)

lemma friend_status_law:
  assumes "fok c" and "mo_UpdateOne ops (QAnd (pair_filter fid uid @ [QEq ''status'' (BInt 0)])) (status_update now st) c = (c', y)"
    and "int_fits 32 st"
  shows "fok c' \<and> changed_or_none (pending fid uid) (set_status now st) (isl y) (frs c) (frs c')"
  using rows_update_one [where p = "pending fid uid" and g = "set_status now st", OF assms(1,2)]
    friend_row_between(2) friend_row_status [OF _ assms(3)]
  by (simp add: changed_or_none_def pending_def)

lemma friend_delete_law:
  assumes "fok c" and "mo_DeleteOne ops (QAnd (pair_filter uid fid)) c = (c', y)"
  shows "fok c' \<and> removed_or_none (between uid fid) (isl y) (frs c) (frs c')"
  using rows_delete_one [where p = "between uid fid", OF assms friend_row_between(1)] by (cases y) (auto simp: removed_or_none_def)

lemma friend_find_law:
  assumes "fok c" and "mo_Find ops q all_opts c = (c', y)" and q: "\<And>d f. friend_row d = Some f \<Longrightarrow> matches q d \<longleftrightarrow> p f"
  shows "fok c' \<and> frs c' = frs c \<and> (\<forall>fs. decoded_friends a b y = Inr fs \<longrightarrow> mset fs = mset (filter p (frs c)))"
proof -
  note f = rows_find_all [where p = p, OF assms(1,2) q]
  have "mset fs = mset (filter p (frs c))" if "decoded_friends a b y = Inr fs" for fs
  proof -
    from that obtain out where out: "y = Inr out" "those (map decode_friend out) = Some fs"
      by (auto simp: decoded_friends_def split: sum.splits option.splits)
    with f obtain ms where ms: "mset ms = mset (filter p (frs c))" "map friend_row out = map Some ms" by auto
    then have "map decode_friend out = map Some ms"
      using friend_row_decode by (auto simp: list_eq_iff_nth_eq)
    with those_some out(2) have "ms = fs" by force
    with ms show ?thesis by simp
  qed
  with f show ?thesis by blast
qed

lemma accept_law:
  assumes "fok c" and "AcceptFriendRecord ops now uid fid c = (c', e)"
  shows "fok c' \<and> (\<exists>mid. changed_or_none (pending fid uid) (set_status now 1) (e \<noteq> None) (frs c) mid \<and>
    (friend_added now uid fid 1 [] mid (frs c') \<or> e \<noteq> None \<and> frs c' = mid))"
proof -
  obtain c1 y where u: "mo_UpdateOne ops (QAnd (pair_filter fid uid @ [QEq ''status'' (BInt 0)])) (status_update now 1) c = (c1, y)"
    by fastforce
  have "int_fits 32 1" by (simp add: int_fits_def)
  note st = friend_status_law [OF assms(1) u this]
  show ?thesis
  proof (cases y)
    case (Inl x)
    with u assms(2) have "c' = c1" "e \<noteq> None" by (auto simp: AcceptFriendRecord_def)
    with st Inl show ?thesis by auto
  next
    case (Inr n)
    with u assms(2) obtain z where i: "mo_InsertOne ops (encode_friend (new_friend now uid fid 1 [])) c1 = (c', z)"
      and e: "e = wrap_err ''failed to add reverse friend relation'' z"
      by (auto simp: AcceptFriendRecord_def apsnd_eq)
    have "changed_or_none (pending fid uid) (set_status now 1) (e \<noteq> None) (frs c) (frs c1)"
      using st Inr by (auto simp: changed_or_none_def)
    with friend_insert_law [OF conjunct1 [OF st] i \<open>int_fits 32 1\<close>] e show ?thesis by auto
  qed
qed

lemma delete_law:
  assumes "fok c" and "DeleteFriendRecord ops uid fid c = (c', e)"
  shows "fok c' \<and> (\<exists>mid. removed_or_none (between uid fid) (e \<noteq> None) (frs c) mid \<and>
    removed_or_none (between fid uid) (e \<noteq> None) mid (frs c'))"
proof -
  obtain c1 y where u: "mo_DeleteOne ops (QAnd (pair_filter uid fid)) c = (c1, y)" by fastforce
  note d1 = friend_delete_law [OF assms(1) u]
  show ?thesis
  proof (cases y)
    case (Inl x)
    with u assms(2) have "c' = c1" "e \<noteq> None" by (auto simp: DeleteFriendRecord_def)
    with d1 Inl show ?thesis by (intro conjI exI [of _ "frs c1"]) (auto simp: removed_or_none_def)
  next
    case (Inr n)
    with u assms(2) obtain z where i: "mo_DeleteOne ops (QAnd (pair_filter fid uid)) c1 = (c', z)"
      and e: "e = wrap_err ''failed to delete friend relation (friend->user)'' z"
      by (auto simp: DeleteFriendRecord_def apsnd_eq)
    from friend_delete_law [OF conjunct1 [OF d1] i] d1 Inr e show ?thesis
      by (intro conjI exI [of _ "frs c1"]) (auto simp: removed_or_none_def)
  qed
qed

lemma friend_store_law: "friend_store (NewFriendRepository ops) frs fok"
proof (unfold_locales, goal_cases)
  case (1 c now uid fid msg c' e1)
  then obtain y where i: "mo_InsertOne ops (encode_friend (new_friend now uid fid 0 msg)) c = (c', y)" "e1 = wrap_err ''failed to add friend'' y"
    by (auto simp: NewFriendRepository_def AddFriendRecord_def apsnd_eq)
  from friend_insert_law [OF 1(1) i(1)] i(2) show ?case by (simp add: int_fits_def)
next
  case (2 c now uid fid c' e2)
  then show ?case using accept_law by (simp add: NewFriendRepository_def)
next
  case (3 c uid c' r3)
  then obtain y where "mo_Find ops (QAnd [QEq ''user_id'' (put_u64 uid), QEq ''status'' (BInt 1)]) all_opts c = (c', y)"
    "r3 = decoded_friends ''failed to get friends'' ''failed to decode friends'' y"
    by (auto simp: NewFriendRepository_def GetFriends_def apsnd_eq)
  with friend_find_law [OF 3(1) this(1) friend_row_between(3)] show ?case by simp
next
  case (4 c uid fid c' e4)
  then show ?case using delete_law by (simp add: NewFriendRepository_def)
next
  case (5 c uid c' r5)
  then obtain y where "mo_Find ops (QAnd [QEq ''friend_id'' (put_u64 uid), QEq ''status'' (BInt 0)]) all_opts c = (c', y)"
    "r5 = decoded_friends ''failed to get pending friend requests'' ''failed to decode friend requests'' y"
    by (auto simp: NewFriendRepository_def GetPendingFriendRequests_def apsnd_eq)
  with friend_find_law [OF 5(1) this(1) friend_row_between(4)] show ?case by simp
next
  case (6 c now uid fid c' e6)
  then obtain y where u: "mo_UpdateOne ops (QAnd (pair_filter fid uid @ [QEq ''status'' (BInt 0)])) (status_update now 2) c = (c', y)"
    "e6 = wrap_err ''failed to reject friend request'' y"
    by (auto simp: NewFriendRepository_def RejectFriend_def apsnd_eq)
  from friend_status_law [OF 6(1) u(1)] u(2) show ?case by (simp add: int_fits_def)
qed

end

interpretation mem_friends: friend_store "NewFriendRepository (mem_ops [])" "rows_in friend_row mc_docs"
    "rows_valid friend_row mc_docs (\<lambda>c. uniques [] (mc_docs c))"
  by (rule mem.friend_store_law)

end
