(* ===== verification/Mails.thy ===== *)
theory Mails
  imports Rows
begin

text \<open>
  The mail repository of \<^verbatim>\<open>internal/database/mongodb.go\<close>: the model with its \<^verbatim>\<open>bson\<close> tags, the methods, and
  their contract \<open>mail_store\<close> on the list of mails, proved for every collection. The index on \<^verbatim>\<open>mail_id\<close>
  is not unique. Two methods filter on the field \<^verbatim>\<open>expire_time\<close>, which the model does not have (its field
  is \<^verbatim>\<open>expire_at\<close>): their filters match no document the repository has written.
\<close>

subsection \<open>Texts of the mail server and its repository\<close>

definition mt_NotLoggedIn :: string where
  "mt_NotLoggedIn = utf8
   [0xE7, 0x94, 0xA8, 0xE6, 0x88, 0xB7, 0xE6, 0x9C, 0xAA, 0xE7, 0x99, 0xBB, 0xE5, 0xBD, 0x95]"

definition mt_UserN :: string where
  "mt_UserN = utf8
   [0xE7, 0x94, 0xA8, 0xE6, 0x88, 0xB7]"

definition mt_System :: string where
  "mt_System = utf8
   [0xE7, 0xB3, 0xBB, 0xE7, 0xBB, 0x9F]"

definition mt_EmptyMailId :: string where
  "mt_EmptyMailId = utf8
   [0xE9, 0x82, 0xAE, 0xE4, 0xBB, 0xB6, 0x49, 0x44, 0xE4, 0xB8, 0x8D, 0xE8, 0x83, 0xBD, 0xE4, 0xB8, 0xBA, 0xE7, 0xA9, 0xBA]"

definition mt_NoMail :: string where
  "mt_NoMail = utf8
   [0xE9, 0x82, 0xAE, 0xE4, 0xBB, 0xB6, 0xE4, 0xB8, 0x8D, 0xE5, 0xAD, 0x98, 0xE5, 0x9C, 0xA8]"

definition mt_NoAccess :: string where
  "mt_NoAccess = utf8
   [0xE6, 0x97, 0xA0, 0xE6, 0x9D, 0x83, 0xE9, 0x99, 0x90, 0xE8, 0xAE, 0xBF, 0xE9, 0x97, 0xAE, 0xE6, 0xAD, 0xA4, 0xE9,
    0x82, 0xAE, 0xE4, 0xBB, 0xB6]"

definition mt_UpdateFailed :: string where
  "mt_UpdateFailed = utf8
   [0xE6, 0x9B, 0xB4, 0xE6, 0x96, 0xB0, 0xE9, 0x82, 0xAE, 0xE4, 0xBB, 0xB6, 0xE7, 0x8A, 0xB6, 0xE6, 0x80, 0x81, 0xE5,
    0xA4, 0xB1, 0xE8, 0xB4, 0xA5]"

definition mt_ReadDone :: string where
  "mt_ReadDone = utf8
   [0xE9, 0x82, 0xAE, 0xE4, 0xBB, 0xB6, 0xE8, 0xAF, 0xBB, 0xE5, 0x8F, 0x96, 0xE6, 0x88, 0x90, 0xE5, 0x8A, 0x9F]"

definition mt_NoRewards :: string where
  "mt_NoRewards = utf8
   [0xE6, 0xAD, 0xA4, 0xE9, 0x82, 0xAE, 0xE4, 0xBB, 0xB6, 0xE6, 0xB2, 0xA1, 0xE6, 0x9C, 0x89, 0xE5, 0xA5, 0x96, 0xE5,
    0x8A, 0xB1]"

definition mt_Claimed :: string where
  "mt_Claimed = utf8
   [0xE5, 0xA5, 0x96, 0xE5, 0x8A, 0xB1, 0xE5, 0xB7, 0xB2, 0xE9, 0xA2, 0x86, 0xE5, 0x8F, 0x96]"

definition mt_ClaimDone :: string where
  "mt_ClaimDone = utf8
   [0xE5, 0xA5, 0x96, 0xE5, 0x8A, 0xB1, 0xE9, 0xA2, 0x86, 0xE5, 0x8F, 0x96, 0xE6, 0x88, 0x90, 0xE5, 0x8A, 0x9F]"

definition mt_NoDelete :: string where
  "mt_NoDelete = utf8
   [0xE6, 0x97, 0xA0, 0xE6, 0x9D, 0x83, 0xE9, 0x99, 0x90, 0xE5, 0x88, 0xA0, 0xE9, 0x99, 0xA4, 0xE6, 0xAD, 0xA4, 0xE9,
    0x82, 0xAE, 0xE4, 0xBB, 0xB6]"

definition mt_Unclaimed :: string where
  "mt_Unclaimed = utf8
   [0xE9, 0x82, 0xAE, 0xE4, 0xBB, 0xB6, 0xE6, 0x9C, 0x89, 0xE6, 0x9C, 0xAA, 0xE9, 0xA2, 0x86, 0xE5, 0x8F, 0x96, 0xE7,
    0x9A, 0x84, 0xE5, 0xA5, 0x96, 0xE5, 0x8A, 0xB1, 0xEF, 0xBC, 0x8C, 0xE6, 0x97, 0xA0, 0xE6, 0xB3, 0x95, 0xE5, 0x88,
    0xA0, 0xE9, 0x99, 0xA4]"

definition mt_DeleteFailed :: string where
  "mt_DeleteFailed = utf8
   [0xE5, 0x88, 0xA0, 0xE9, 0x99, 0xA4, 0xE9, 0x82, 0xAE, 0xE4, 0xBB, 0xB6, 0xE5, 0xA4, 0xB1, 0xE8, 0xB4, 0xA5]"

definition mt_DeleteDone :: string where
  "mt_DeleteDone = utf8
   [0xE9, 0x82, 0xAE, 0xE4, 0xBB, 0xB6, 0xE5, 0x88, 0xA0, 0xE9, 0x99, 0xA4, 0xE6, 0x88, 0x90, 0xE5, 0x8A, 0x9F]"

definition mt_EmptyTo :: string where
  "mt_EmptyTo = utf8
   [0xE6, 0x94, 0xB6, 0xE4, 0xBB, 0xB6, 0xE4, 0xBA, 0xBA, 0x49, 0x44, 0xE4, 0xB8, 0x8D, 0xE8, 0x83, 0xBD, 0xE4, 0xB8,
    0xBA, 0xE7, 0xA9, 0xBA]"

definition mt_NoSelfMail :: string where
  "mt_NoSelfMail = utf8
   [0xE4, 0xB8, 0x8D, 0xE8, 0x83, 0xBD, 0xE7, 0xBB, 0x99, 0xE8, 0x87, 0xAA, 0xE5, 0xB7, 0xB1, 0xE5, 0x8F, 0x91, 0xE9,
    0x82, 0xAE, 0xE4, 0xBB, 0xB6]"

definition mt_EmptyTitle :: string where
  "mt_EmptyTitle = utf8
   [0xE9, 0x82, 0xAE, 0xE4, 0xBB, 0xB6, 0xE6, 0xA0, 0x87, 0xE9, 0xA2, 0x98, 0xE4, 0xB8, 0x8D, 0xE8, 0x83, 0xBD, 0xE4,
    0xB8, 0xBA, 0xE7, 0xA9, 0xBA]"

definition mt_EmptyContent :: string where
  "mt_EmptyContent = utf8
   [0xE9, 0x82, 0xAE, 0xE4, 0xBB, 0xB6, 0xE5, 0x86, 0x85, 0xE5, 0xAE, 0xB9, 0xE4, 0xB8, 0x8D, 0xE8, 0x83, 0xBD, 0xE4,
    0xB8, 0xBA, 0xE7, 0xA9, 0xBA]"

definition mt_SendFailed :: string where
  "mt_SendFailed = utf8
   [0xE5, 0x8F, 0x91, 0xE9, 0x80, 0x81, 0xE9, 0x82, 0xAE, 0xE4, 0xBB, 0xB6, 0xE5, 0xA4, 0xB1, 0xE8, 0xB4, 0xA5]"

definition mt_SendDone :: string where
  "mt_SendDone = utf8
   [0xE9, 0x82, 0xAE, 0xE4, 0xBB, 0xB6, 0xE5, 0x8F, 0x91, 0xE9, 0x80, 0x81, 0xE6, 0x88, 0x90, 0xE5, 0x8A, 0x9F]"

subsection \<open>The model and its documents\<close>

record mail_reward =
  mw_Type :: int
  mw_ItemID :: int
  mw_Count :: int
  mw_Name :: string

record mail =
  ml_ID :: "nat option"
  ml_MailID :: u64
  ml_ToUserID :: u64
  ml_FromUserID :: u64
  ml_Title :: string
  ml_Content :: string
  ml_Rewards :: "mail_reward list"
  ml_IsRead :: bool
  ml_IsClaimed :: bool
  ml_ExpireAt :: time
  ml_CreatedAt :: time
  ml_UpdatedAt :: time

definition encode_reward :: "mail_reward \<Rightarrow> doc" where
  "encode_reward w = [(''type'', BInt (mw_Type w)), (''item_id'', BInt (mw_ItemID w)), (''count'', BInt (mw_Count w))] @
     opt_str ''name'' (mw_Name w)"

definition decode_reward :: "doc \<Rightarrow> mail_reward option" where
  "decode_reward d = do {
     ty \<leftarrow> get_int 32 d ''type''; it \<leftarrow> get_int 32 d ''item_id''; n \<leftarrow> get_int 64 d ''count''; nm \<leftarrow> get_str d ''name'';
     Some \<lparr>mw_Type = ty, mw_ItemID = it, mw_Count = n, mw_Name = nm\<rparr> }"

definition encode_mail :: "mail \<Rightarrow> doc" where
  "encode_mail m = opt_oid (ml_ID m) @
     [(''mail_id'', put_u64 (ml_MailID m)), (''to_user_id'', put_u64 (ml_ToUserID m))] @
     opt_u64 ''from_user_id'' (ml_FromUserID m) @
     [(''title'', BStr (ml_Title m)), (''content'', BStr (ml_Content m))] @
     (if ml_Rewards m = [] then [] else [(''rewards'', BArr (map (\<lambda>w. BDoc (encode_reward w)) (ml_Rewards m)))]) @
     [(''is_read'', BBool (ml_IsRead m)), (''is_claimed'', BBool (ml_IsClaimed m)), (''expire_at'', bson_time (ml_ExpireAt m)),
      (''created_at'', bson_time (ml_CreatedAt m)), (''updated_at'', bson_time (ml_UpdatedAt m))]"

definition decode_mail :: "doc \<Rightarrow> mail option" where
  "decode_mail d = do {
     oid \<leftarrow> get_oid d; mid \<leftarrow> get_u64 d ''mail_id''; to \<leftarrow> get_u64 d ''to_user_id''; fr \<leftarrow> get_u64 d ''from_user_id'';
     tt \<leftarrow> get_str d ''title''; ct \<leftarrow> get_str d ''content''; ws \<leftarrow> get_list decode_reward d ''rewards'';
     rd \<leftarrow> get_bool d ''is_read''; cl \<leftarrow> get_bool d ''is_claimed''; ea \<leftarrow> get_time d ''expire_at'';
     ca \<leftarrow> get_time d ''created_at''; ua \<leftarrow> get_time d ''updated_at'';
     Some \<lparr>ml_ID = oid, ml_MailID = mid, ml_ToUserID = to, ml_FromUserID = fr, ml_Title = tt, ml_Content = ct, ml_Rewards = ws,
       ml_IsRead = rd, ml_IsClaimed = cl, ml_ExpireAt = ea, ml_CreatedAt = ca, ml_UpdatedAt = ua\<rparr> }"

subsection \<open>The methods\<close>

definition mail_filter :: "u64 \<Rightarrow> query" where
  "mail_filter mid = QEq ''mail_id'' (put_u64 mid)"

definition flag_update :: "string \<Rightarrow> time \<Rightarrow> bool \<Rightarrow> update_op list" where
  "flag_update k now b = [USet [(k, BBool b), (''updated_at'', bson_time now)]]"

definition SendMail :: "'c mongo_ops \<Rightarrow> time \<Rightarrow> mail \<Rightarrow> 'c \<Rightarrow> 'c \<times> string option" where
  "SendMail ops now m c =
     apsnd (wrap_err ''failed to send mail'') (mo_InsertOne ops (encode_mail (m\<lparr>ml_CreatedAt := now, ml_UpdatedAt := now\<rparr>)) c)"

definition GetUserMails :: "'c mongo_ops \<Rightarrow> time \<Rightarrow> u64 \<Rightarrow> int \<Rightarrow> 'c \<Rightarrow> 'c \<times> (string + mail list)" where
  "GetUserMails ops now uid limit c =
     apsnd (\<lambda>r. case r of
        Inl e \<Rightarrow> Inl (errorf ''failed to get user mails'' e)
      | Inr ds \<Rightarrow> (case those (map decode_mail ds) of None \<Rightarrow> Inl (errorf ''failed to decode mails'' ''decoding error'') | Some ms \<Rightarrow> Inr ms))
       (mo_Find ops (QAnd [QEq ''to_user_id'' (put_u64 uid), QGt ''expire_at'' (bson_time now)])
         \<lparr>fo_sort_desc = Some ''created_at'', fo_skip = 0, fo_limit = limit\<rparr> c)"

definition MarkAsRead :: "'c mongo_ops \<Rightarrow> time \<Rightarrow> u64 \<Rightarrow> 'c \<Rightarrow> 'c \<times> string option" where
  "MarkAsRead ops now mid c =
     apsnd (wrap_err ''failed to mark mail as read'') (mo_UpdateOne ops (mail_filter mid) (flag_update ''is_read'' now True) c)"

definition ClaimRewards :: "'c mongo_ops \<Rightarrow> time \<Rightarrow> u64 \<Rightarrow> 'c \<Rightarrow> 'c \<times> string option" where
  "ClaimRewards ops now mid c =
     apsnd (wrap_err ''failed to claim rewards'') (mo_UpdateOne ops (mail_filter mid) (flag_update ''is_claimed'' now True) c)"

definition CreateMail :: "'c mongo_ops \<Rightarrow> time \<Rightarrow> mail \<Rightarrow> 'c \<Rightarrow> 'c \<times> string option" where
  "CreateMail ops now m c = apsnd raw_err (mo_InsertOne ops (encode_mail (m\<lparr>ml_CreatedAt := now, ml_UpdatedAt := now\<rparr>)) c)"

text \<open>\<^verbatim>\<open>uint32(time.Now().Unix())\<close>\<close>

definition unix32 :: "time \<Rightarrow> int" where "unix32 now = time_unix now mod 2 ^ 32"

definition list_filter :: "time \<Rightarrow> u64 \<Rightarrow> int \<Rightarrow> query" where
  "list_filter now uid mailType =
     QAnd ([QEq ''to_user_id'' (put_u64 uid)] @ (if mailType > 0 then [QEq ''mail_type'' (BInt mailType)] else []) @
       [QOr [QEq ''expire_time'' (BInt 0), QGt ''expire_time'' (BInt (unix32 now))]])"

text \<open>
  The loop over the cursor skips documents that do not decode. It also ends, without an error, when the
  connection fails: \<open>got\<close> is the number of documents the cursor delivers before.
\<close>

definition GetMailsByUserID :: "'c mongo_ops \<Rightarrow> time \<Rightarrow> nat \<Rightarrow> u64 \<Rightarrow> int \<Rightarrow> int \<Rightarrow> int \<Rightarrow> 'c \<Rightarrow> 'c \<times> (string + mail list \<times> int)" where
  "GetMailsByUserID ops now got uid mailType limit offset c =
     (case mo_Count ops (list_filter now uid mailType) c of
        (c1, Inl e) \<Rightarrow> (c1, Inl e)
      | (c1, Inr n) \<Rightarrow>
          apsnd (map_sum id (\<lambda>ds. (List.map_filter decode_mail (take got ds), int n)))
            (mo_Find ops (list_filter now uid mailType) \<lparr>fo_sort_desc = Some ''send_time'', fo_skip = offset, fo_limit = limit\<rparr> c1))"

definition GetMailByID :: "'c mongo_ops \<Rightarrow> u64 \<Rightarrow> 'c \<Rightarrow> 'c \<times> (string + mail)" where
  "GetMailByID ops mid c =
     apsnd (\<lambda>r. case r of
        Inl e \<Rightarrow> Inl e
      | Inr None \<Rightarrow> Inl ''mongo: no documents in result''
      | Inr (Some d) \<Rightarrow> (case decode_mail d of None \<Rightarrow> Inl ''decoding error'' | Some m \<Rightarrow> Inr m))
       (mo_FindOne ops (mail_filter mid) c)"

definition UpdateMailReadStatus :: "'c mongo_ops \<Rightarrow> time \<Rightarrow> u64 \<Rightarrow> bool \<Rightarrow> 'c \<Rightarrow> 'c \<times> string option" where
  "UpdateMailReadStatus ops now mid b c = apsnd raw_err (mo_UpdateOne ops (mail_filter mid) (flag_update ''is_read'' now b) c)"

definition UpdateMailClaimStatus :: "'c mongo_ops \<Rightarrow> time \<Rightarrow> u64 \<Rightarrow> bool \<Rightarrow> 'c \<Rightarrow> 'c \<times> string option" where
  "UpdateMailClaimStatus ops now mid b c = apsnd raw_err (mo_UpdateOne ops (mail_filter mid) (flag_update ''is_claimed'' now b) c)"

definition DeleteMail :: "'c mongo_ops \<Rightarrow> u64 \<Rightarrow> 'c \<Rightarrow> 'c \<times> string option" where
  "DeleteMail ops mid c =
     apsnd (\<lambda>r. case r of Inl e \<Rightarrow> Some e | Inr n \<Rightarrow> if n = 0 then Some mt_NoMail else None) (mo_DeleteOne ops (mail_filter mid) c)"

definition DeleteExpiredMails :: "'c mongo_ops \<Rightarrow> time \<Rightarrow> 'c \<Rightarrow> 'c \<times> string option" where
  "DeleteExpiredMails ops now c =
     apsnd raw_err (mo_DeleteMany ops (QAnd [QGt ''expire_time'' (BInt 0), QLt ''expire_time'' (BInt (unix32 now))]) c)"

text \<open>The methods the mail server calls, and the deletion of expired mails, which nothing calls.\<close>

record 'c mail_repo =
  mx_CreateMail :: "time \<Rightarrow> mail \<Rightarrow> 'c \<Rightarrow> 'c \<times> string option"
  mx_GetMailsByUserID :: "time \<Rightarrow> nat \<Rightarrow> u64 \<Rightarrow> int \<Rightarrow> int \<Rightarrow> int \<Rightarrow> 'c \<Rightarrow> 'c \<times> (string + mail list \<times> int)"
  mx_GetMailByID :: "u64 \<Rightarrow> 'c \<Rightarrow> 'c \<times> (string + mail)"
  mx_UpdateMailReadStatus :: "time \<Rightarrow> u64 \<Rightarrow> bool \<Rightarrow> 'c \<Rightarrow> 'c \<times> string option"
  mx_UpdateMailClaimStatus :: "time \<Rightarrow> u64 \<Rightarrow> bool \<Rightarrow> 'c \<Rightarrow> 'c \<times> string option"
  mx_DeleteMail :: "u64 \<Rightarrow> 'c \<Rightarrow> 'c \<times> string option"
  mx_DeleteExpiredMails :: "time \<Rightarrow> 'c \<Rightarrow> 'c \<times> string option"

definition NewMailRepository :: "'c mongo_ops \<Rightarrow> 'c mail_repo" where
  "NewMailRepository ops = \<lparr>mx_CreateMail = CreateMail ops, mx_GetMailsByUserID = GetMailsByUserID ops,
     mx_GetMailByID = GetMailByID ops, mx_UpdateMailReadStatus = UpdateMailReadStatus ops,
     mx_UpdateMailClaimStatus = UpdateMailClaimStatus ops, mx_DeleteMail = DeleteMail ops,
     mx_DeleteExpiredMails = DeleteExpiredMails ops\<rparr>"

subsection \<open>Reading back\<close>

definition reward_fits :: "mail_reward \<Rightarrow> bool" where
  "reward_fits w \<longleftrightarrow> int_fits 32 (mw_Type w) \<and> int_fits 32 (mw_ItemID w) \<and> int_fits 64 (mw_Count w)"

lemma decode_encode_reward [simp]: "reward_fits w \<Longrightarrow> decode_reward (encode_reward w) = Some w"
proof -
  assume f: "reward_fits w"
  have "get_str (encode_reward w) ''name'' = Some (mw_Name w)"
    by (cases "mw_Name w = []") (simp_all add: encode_reward_def opt_str_def get_str_def)
  with f show ?thesis by (simp add: decode_reward_def reward_fits_def) (simp add: encode_reward_def)
qed

lemma encode_mail_lookup:
  "map_of (encode_mail m) ''_id'' = map_option BOid (ml_ID m)"
  "map_of (encode_mail m) ''mail_id'' = Some (put_u64 (ml_MailID m))"
  "map_of (encode_mail m) ''to_user_id'' = Some (put_u64 (ml_ToUserID m))"
  "map_of (encode_mail m) ''from_user_id'' = (if ml_FromUserID m = 0 then None else Some (put_u64 (ml_FromUserID m)))"
  "map_of (encode_mail m) ''title'' = Some (BStr (ml_Title m))"
  "map_of (encode_mail m) ''content'' = Some (BStr (ml_Content m))"
  "map_of (encode_mail m) ''rewards'' = (if ml_Rewards m = [] then None else Some (BArr (map (\<lambda>w. BDoc (encode_reward w)) (ml_Rewards m))))"
  "map_of (encode_mail m) ''is_read'' = Some (BBool (ml_IsRead m))"
  "map_of (encode_mail m) ''is_claimed'' = Some (BBool (ml_IsClaimed m))"
  "map_of (encode_mail m) ''expire_at'' = Some (bson_time (ml_ExpireAt m))"
  "map_of (encode_mail m) ''created_at'' = Some (bson_time (ml_CreatedAt m))"
  "map_of (encode_mail m) ''updated_at'' = Some (bson_time (ml_UpdatedAt m))"
  "map_of (encode_mail m) ''expire_time'' = None"
  by (cases "ml_ID m"; simp add: encode_mail_def opt_u64_def)+

lemma decode_mail_fields:
  "decode_mail d = Some m \<longleftrightarrow>
     get_oid d = Some (ml_ID m) \<and> get_u64 d ''mail_id'' = Some (ml_MailID m) \<and> get_u64 d ''to_user_id'' = Some (ml_ToUserID m) \<and>
     get_u64 d ''from_user_id'' = Some (ml_FromUserID m) \<and> get_str d ''title'' = Some (ml_Title m) \<and>
     get_str d ''content'' = Some (ml_Content m) \<and> get_list decode_reward d ''rewards'' = Some (ml_Rewards m) \<and>
     get_bool d ''is_read'' = Some (ml_IsRead m) \<and> get_bool d ''is_claimed'' = Some (ml_IsClaimed m) \<and>
     get_time d ''expire_at'' = Some (ml_ExpireAt m) \<and> get_time d ''created_at'' = Some (ml_CreatedAt m) \<and>
     get_time d ''updated_at'' = Some (ml_UpdatedAt m)"
  by (auto simp: decode_mail_def bind_eq_Some_conv)

text \<open>The documents the repository writes have the fields its filters read, except \<^verbatim>\<open>expire_time\<close>.\<close>

definition mail_row :: "doc \<Rightarrow> mail option" where
  "mail_row d = (if map_of d ''mail_id'' \<noteq> None \<and> map_of d ''expire_time'' = None then decode_mail d else None)"

lemma mail_row_fields:
  "mail_row d = Some m \<longleftrightarrow> decode_mail d = Some m \<and> map_of d ''mail_id'' \<noteq> None \<and> map_of d ''expire_time'' = None"
  by (simp add: mail_row_def)

definition stored_mail :: "mail \<Rightarrow> mail" where
  "stored_mail m = m\<lparr>ml_ExpireAt := trunc_ms (ml_ExpireAt m), ml_CreatedAt := trunc_ms (ml_CreatedAt m), ml_UpdatedAt := trunc_ms (ml_UpdatedAt m)\<rparr>"

definition set_read :: "time \<Rightarrow> bool \<Rightarrow> mail \<Rightarrow> mail" where
  "set_read now b m = m\<lparr>ml_IsRead := b, ml_UpdatedAt := trunc_ms now\<rparr>"

definition set_claimed :: "time \<Rightarrow> bool \<Rightarrow> mail \<Rightarrow> mail" where
  "set_claimed now b m = m\<lparr>ml_IsClaimed := b, ml_UpdatedAt := trunc_ms now\<rparr>"

lemma mail_row_encode:
  assumes fits: "\<forall>w \<in> set (ml_Rewards m). reward_fits w" and none: "ml_ID m = None"
  shows "mail_row (with_id n (encode_mail m)) = Some (stored_mail (m\<lparr>ml_ID := Some n\<rparr>))"
proof -
  let ?d = "with_id n (encode_mail m)"
  have e: "map_of ?d k = (if k = ''_id'' then Some (BOid n) else map_of (encode_mail m) k)" for k
    using none by (simp add: with_id_def encode_mail_lookup)
  have l: "get_list decode_reward ?d ''rewards'' = Some (ml_Rewards m)"
  proof (cases "ml_Rewards m = []")
    case True
    then show ?thesis by (simp add: get_list_def e encode_mail_lookup)
  next
    case False
    with fits show ?thesis by (intro get_list_cong [where enc = encode_reward]) (auto simp: e encode_mail_lookup)
  qed
  have f: "get_u64 ?d ''from_user_id'' = Some (ml_FromUserID m)" "get_oid ?d = Some (Some n)"
    by (simp_all add: get_u64_opt get_oid_def e encode_mail_lookup)
  show ?thesis using l f by (simp add: mail_row_fields decode_mail_fields e encode_mail_lookup stored_mail_def)
qed

lemma mail_row_flag:
  assumes "mail_row d = Some m"
  shows "mail_row (apply_update (flag_update ''is_read'' now b) d) = Some (set_read now b m)"
    and "mail_row (apply_update (flag_update ''is_claimed'' now b) d) = Some (set_claimed now b m)"
  using assms
  by (simp_all add: mail_row_fields decode_mail_fields flag_update_def set_read_def set_claimed_def)

abbreviation "of_mail mid m \<equiv> ml_MailID m = mid"

lemma mail_row_match: "mail_row d = Some m \<Longrightarrow> matches (mail_filter mid) d \<longleftrightarrow> of_mail mid m"
  by (auto simp: mail_filter_def mail_row_fields decode_mail_fields simp del: matches.simps intro!: u64_match)

lemma mail_row_no_expiry:
  assumes "mail_row d = Some m"
  shows "\<not> matches (list_filter now uid mt) d" and "\<not> matches (QAnd [QGt ''expire_time'' v, QLt ''expire_time'' w]) d"
  using assms by (simp_all add: mail_row_fields list_filter_def)

subsection \<open>The contract\<close>

definition mail_added :: "time \<Rightarrow> mail \<Rightarrow> mail list \<Rightarrow> mail list \<Rightarrow> bool" where
  "mail_added now m ms ms' \<longleftrightarrow> (\<exists>n. ms' = ms @ [stored_mail (m\<lparr>ml_CreatedAt := now, ml_UpdatedAt := now, ml_ID := Some n\<rparr>)])"

locale mail_store =
  fixes repo :: "'c mail_repo" and mails :: "'c \<Rightarrow> mail list" and ok :: "'c \<Rightarrow> bool"
  assumes create: "ok c \<Longrightarrow> \<forall>w \<in> set (ml_Rewards m). reward_fits w \<Longrightarrow> ml_ID m = None \<Longrightarrow> mx_CreateMail repo now m c = (c', e1) \<Longrightarrow>
      ok c' \<and> (mail_added now m (mails c) (mails c') \<or> e1 \<noteq> None \<and> mails c' = mails c)"
    and list: "ok c \<Longrightarrow> mx_GetMailsByUserID repo now got uid mt limit offset c = (c', r2) \<Longrightarrow> ok c' \<and> mails c' = mails c \<and>
      (\<forall>x. r2 = Inr x \<longrightarrow> x = ([], 0))"
    and get: "ok c \<Longrightarrow> mx_GetMailByID repo mid c = (c', r3) \<Longrightarrow> ok c' \<and> mails c' = mails c \<and>
      (\<forall>m. r3 = Inr m \<longrightarrow> m \<in> set (mails c) \<and> of_mail mid m)"
    and read: "ok c \<Longrightarrow> mx_UpdateMailReadStatus repo now mid b c = (c', e4) \<Longrightarrow> ok c' \<and>
      changed_or_none (of_mail mid) (set_read now b) (e4 \<noteq> None) (mails c) (mails c')"
    and claim: "ok c \<Longrightarrow> mx_UpdateMailClaimStatus repo now mid b c = (c', e5) \<Longrightarrow> ok c' \<and>
      changed_or_none (of_mail mid) (set_claimed now b) (e5 \<noteq> None) (mails c) (mails c')"
    and delete: "ok c \<Longrightarrow> mx_DeleteMail repo mid c = (c', e6) \<Longrightarrow> ok c' \<and>
      (one_removed (of_mail mid) (mails c) (mails c') \<or> e6 \<noteq> None \<and> mails c' = mails c)"
    and expire: "ok c \<Longrightarrow> mx_DeleteExpiredMails repo now c = (c', e7) \<Longrightarrow> ok c' \<and> mails c' = mails c"

context mongo_collection
begin

abbreviation "mok \<equiv> holds mail_row"

abbreviation "mls \<equiv> rows mail_row"

lemma mail_flag_law:
  assumes "mok c" and "mo_UpdateOne ops (mail_filter mid) us c = (c', y)"
    and "\<And>d m. mail_row d = Some m \<Longrightarrow> mail_row (apply_update us d) = Some (g m)"
  shows "mok c' \<and> changed_or_none (of_mail mid) g (isl y) (mls c) (mls c')"
  using rows_update_one [where p = "of_mail mid" and g = g, OF assms(1,2) mail_row_match assms(3)] by (simp add: changed_or_none_def)

lemma mail_list_law:
  assumes "mok c" and "GetMailsByUserID ops now got uid mt limit offset c = (c', r)"
  shows "mok c' \<and> mls c' = mls c \<and> (\<forall>x. r = Inr x \<longrightarrow> x = ([], 0))"
proof -
  let ?q = "list_filter now uid mt" and ?opt = "\<lparr>fo_sort_desc = Some ''send_time'', fo_skip = offset, fo_limit = limit\<rparr>"
  obtain c1 y where n: "mo_Count ops ?q c = (c1, y)" by fastforce
  have v: "valid c" "rows_all mail_row (docs c)" using assms(1) by (simp_all add: rows_valid_def)
  note cnt = count [OF v(1) n]
  with v have c1: "mok c1" "mls c1 = mls c" by (simp_all add: rows_valid_def rows_in_def)
  have none: "\<not> matches ?q d" if "d \<in> set (docs c)" for d
    using in_rows [OF v(2) that] mail_row_no_expiry(1) by blast
  show ?thesis
  proof (cases y)
    case (Inl e)
    with n assms(2) c1 show ?thesis by (auto simp: GetMailsByUserID_def)
  next
    case (Inr k)
    with cnt none have k: "k = 0" by (auto simp: count_effect_def filter_empty_conv)
    from n Inr assms(2) obtain z where f: "mo_Find ops ?q ?opt c1 = (c', z)"
      and r: "r = map_sum id (\<lambda>ds. (List.map_filter decode_mail (take got ds), int k)) z"
      by (auto simp: GetMailsByUserID_def apsnd_eq)
    have page_none: "page opt [] = ([] :: mail list)" for opt by (simp add: page_def Let_def)
    have "z = Inr ds \<Longrightarrow> ds = []" for ds
      using rows_find [where p = "\<lambda>_. False", OF c1(1) f] mail_row_no_expiry(1) by (auto simp: page_none)
    with r k have "\<forall>x. r = Inr x \<longrightarrow> x = ([], 0)" by (cases z) (auto simp: map_filter_def)
    with rows_find [where p = "\<lambda>_. False", OF c1(1) f] mail_row_no_expiry(1) c1 show ?thesis by auto
  qed
qed

lemma mail_get_law:
  assumes "mok c" and "GetMailByID ops mid c = (c', r)"
  shows "mok c' \<and> mls c' = mls c \<and> (\<forall>m. r = Inr m \<longrightarrow> m \<in> set (mls c) \<and> of_mail mid m)"
proof -
  from assms(2) obtain y where y: "mo_FindOne ops (mail_filter mid) c = (c', y)"
    and r: "r = (case y of Inl e \<Rightarrow> Inl e | Inr None \<Rightarrow> Inl ''mongo: no documents in result''
      | Inr (Some d) \<Rightarrow> (case decode_mail d of None \<Rightarrow> Inl ''decoding error'' | Some m \<Rightarrow> Inr m))"
    by (auto simp: GetMailByID_def apsnd_eq)
  from rows_find_one [where p = "of_mail mid", OF assms(1) y mail_row_match] r show ?thesis
    by (auto simp: mail_row_fields split: sum.splits option.splits)
qed

lemma mail_store_law: "mail_store (NewMailRepository ops) mls mok"
proof (unfold_locales, goal_cases)
  case (1 c m now c' e1)
  then obtain y where y: "mo_InsertOne ops (encode_mail (m\<lparr>ml_CreatedAt := now, ml_UpdatedAt := now\<rparr>)) c = (c', y)" "e1 = raw_err y"
    by (auto simp: NewMailRepository_def CreateMail_def apsnd_eq)
  have "mail_row (with_id n (encode_mail (m\<lparr>ml_CreatedAt := now, ml_UpdatedAt := now\<rparr>))) =
      Some (stored_mail (m\<lparr>ml_CreatedAt := now, ml_UpdatedAt := now, ml_ID := Some n\<rparr>))" for n
    using 1(2,3) mail_row_encode [of "m\<lparr>ml_CreatedAt := now, ml_UpdatedAt := now\<rparr>" n] by simp
  from rows_insert [OF 1(1) y(1) this] y(2) show ?case by (auto simp: mail_added_def)
next
  case 2
  then show ?case using mail_list_law by (simp add: NewMailRepository_def)
next
  case 3
  then show ?case using mail_get_law by (simp add: NewMailRepository_def)
next
  case (4 c now mid b c' e4)
  then obtain y where "mo_UpdateOne ops (mail_filter mid) (flag_update ''is_read'' now b) c = (c', y)" "e4 = raw_err y"
    by (auto simp: NewMailRepository_def UpdateMailReadStatus_def apsnd_eq)
  with mail_flag_law [OF 4(1) this(1) mail_row_flag(1)] show ?case by simp
next
  case (5 c now mid b c' e5)
  then obtain y where "mo_UpdateOne ops (mail_filter mid) (flag_update ''is_claimed'' now b) c = (c', y)" "e5 = raw_err y"
    by (auto simp: NewMailRepository_def UpdateMailClaimStatus_def apsnd_eq)
  with mail_flag_law [OF 5(1) this(1) mail_row_flag(2)] show ?case by simp
next
  case (6 c mid c' e6)
  then obtain y where y: "mo_DeleteOne ops (mail_filter mid) c = (c', y)"
    and e: "e6 = (case y of Inl e \<Rightarrow> Some e | Inr n \<Rightarrow> if n = 0 then Some mt_NoMail else None)"
    by (auto simp: NewMailRepository_def DeleteMail_def apsnd_eq)
  from rows_delete_one [where p = "of_mail mid", OF 6(1) y mail_row_match] e show ?case by (cases y) auto
next
  case (7 c now c' e7)
  then obtain y where "mo_DeleteMany ops (QAnd [QGt ''expire_time'' (BInt 0), QLt ''expire_time'' (BInt (unix32 now))]) c = (c', y)"
    by (auto simp: NewMailRepository_def DeleteExpiredMails_def apsnd_eq)
  from rows_delete_none [OF 7(1) this mail_row_no_expiry(2)] show ?case .
qed

end

interpretation mem_mails: mail_store "NewMailRepository (mem_ops [])" "rows_in mail_row mc_docs"
    "rows_valid mail_row mc_docs (\<lambda>c. uniques [] (mc_docs c))"
  by (rule mem.mail_store_law)

end
