(* ===== verification/Lobby.thy ===== *)
theory Lobby
  imports Rooms Users Protocol
begin

text \<open>
  \<^verbatim>\<open>internal/server/lobby_server.go\<close>: the room handlers of \<^verbatim>\<open>LobbyService\<close> over the room and the user
  repository. The state is the two collections and the counter of room identifiers; the protobuf
  forms of requests and responses are parameters. A handler returns the new state and its response
  (its Go error is always nil); the readings of the clock within one call are one argument. Logging
  is left out, with the lookup of the user \<^verbatim>\<open>LeaveRoom\<close> makes only for its log kept as a call.
\<close>

subsection \<open>Requests, responses and the state\<close>

record create_room_request =
  cq_RoomName :: string
  cq_GameType :: int
  cq_MaxPlayers :: int
  cq_IsPrivate :: bool
  cq_Password :: string

record join_room_request =
  jq_RoomId :: u64
  jq_Password :: string

record game_player_info =
  gp_UserId :: u64
  gp_Nickname :: string
  gp_Level :: int
  gp_Status :: int

record room_info =
  ri_RoomId :: u64
  ri_RoomName :: string
  ri_GameType :: int
  ri_CurrentPlayers :: int
  ri_MaxPlayers :: int
  ri_Status :: int
  ri_IsPrivate :: bool
  ri_Owner :: "game_player_info option"
  ri_Players :: "game_player_info list"
  ri_CreatedTime :: u32

record room_list_response =
  rl_Rooms :: "room_info list"
  rl_Total :: int

record lobby_codec =
  lc_create :: "byte list \<Rightarrow> string + create_room_request"
  lc_join :: "byte list \<Rightarrow> string + join_room_request"
  lc_room_info :: "room_info \<Rightarrow> string + byte list"
  lc_room_list :: "room_list_response \<Rightarrow> string + byte list"
  lc_response :: "base_response \<Rightarrow> string + byte list"

record ('c, 'd) lobby_deps =
  ld_rooms :: "'c room_repo"
  ld_users :: "'d user_repo"
  ld_codec :: lobby_codec

record ('c, 'd) lobby =
  lb_rooms :: 'c
  lb_users :: 'd
  lb_nextRoomID :: u64

definition NewLobbyServer :: "'c mongo_ops \<Rightarrow> 'd mongo_ops \<Rightarrow> lobby_codec \<Rightarrow> ('c, 'd) lobby_deps" where
  "NewLobbyServer rops uops codec =
     \<lparr>ld_rooms = NewRoomRepository rops, ld_users = NewUserRepository uops, ld_codec = codec\<rparr>"

definition initial_lobby :: "'c \<Rightarrow> 'd \<Rightarrow> ('c, 'd) lobby" where
  "initial_lobby rooms users = \<lparr>lb_rooms = rooms, lb_users = users, lb_nextRoomID = 1000\<rparr>"

definition generateRoomID :: "('c, 'd) lobby \<Rightarrow> u64 \<times> ('c, 'd) lobby" where
  "generateRoomID s = (lb_nextRoomID s, s\<lparr>lb_nextRoomID := lb_nextRoomID s + 1\<rparr>)"

definition player_info :: "room_player \<Rightarrow> game_player_info" where
  "player_info p = \<lparr>gp_UserId = rp_UserID p, gp_Nickname = rp_Nickname p, gp_Level = rp_Level p, gp_Status = rp_Status p\<rparr>"

definition user_info :: "int \<Rightarrow> user \<Rightarrow> game_player_info" where
  "user_info status u = \<lparr>gp_UserId = us_UserID u, gp_Nickname = us_Nickname u, gp_Level = us_Level u, gp_Status = status\<rparr>"

definition info_of_room :: "game_player_info option \<Rightarrow> room \<Rightarrow> room_info" where
  "info_of_room owner r =
     \<lparr>ri_RoomId = ro_RoomID r, ri_RoomName = ro_RoomName r, ri_GameType = ro_GameType r,
      ri_CurrentPlayers = ro_CurrentPlayers r, ri_MaxPlayers = ro_MaxPlayers r, ri_Status = ro_Status r,
      ri_IsPrivate = ro_IsPrivate r, ri_Owner = owner, ri_Players = map player_info (ro_Players r),
      ri_CreatedTime = of_int (time_unix (ro_CreatedAt r))\<rparr>"

definition with_data :: "base_request \<Rightarrow> string \<Rightarrow> byte list \<Rightarrow> base_response" where
  "with_data req msg d = \<lparr>bp_Header = br_Header req, bp_Code = 0, bp_Msg = msg, bp_Data = d\<rparr>"

subsection \<open>GetRoomList\<close>

fun room_infos :: "('c, 'd) lobby_deps \<Rightarrow> room list \<Rightarrow> 'd \<Rightarrow> 'd \<times> room_info list" where
  "room_infos deps [] u = (u, [])"
| "room_infos deps (r # rs) u =
     (case ur_GetByUserID (ld_users deps) (ro_OwnerID r) u of
        (u1, Inl _) \<Rightarrow> room_infos deps rs u1
      | (u1, Inr owner) \<Rightarrow>
          (let (u2, infos) = room_infos deps rs u1
           in (u2, info_of_room (Some (user_info 0 owner)) r # infos)))"

definition GetRoomList :: "('c, 'd) lobby_deps \<Rightarrow> base_request \<Rightarrow> ('c, 'd) lobby \<Rightarrow> ('c, 'd) lobby \<times> base_response" where
  "GetRoomList deps req s =
     (if GetUserId (br_Header req) = 0 then (s, reply req (- 1) ''invalid user id'')
      else case rr_GetRoomList (ld_rooms deps) 0 20 0 (lb_rooms s) of
        (c1, Inl _) \<Rightarrow> (s\<lparr>lb_rooms := c1\<rparr>, reply req (- 2) ''failed to get room list'')
      | (c1, Inr rooms) \<Rightarrow>
          (let (u1, infos) = room_infos deps rooms (lb_users s);
               (c2, n) = rr_CountRooms (ld_rooms deps) 0 c1;
               total = (case n of Inl _ \<Rightarrow> int (length infos) | Inr k \<Rightarrow> k);
               s' = s\<lparr>lb_rooms := c2, lb_users := u1\<rparr>
           in case lc_room_list (ld_codec deps) \<lparr>rl_Rooms = infos, rl_Total = wrap_i32 total\<rparr> of
                Inl _ \<Rightarrow> (s', reply req (- 3) ''failed to create response'')
              | Inr d \<Rightarrow> (s', with_data req ''success'' d)))"

subsection \<open>CreateRoom\<close>

definition first_player :: "time \<Rightarrow> user \<Rightarrow> u64 \<Rightarrow> int \<Rightarrow> room_player" where
  "first_player now user uid status =
     \<lparr>rp_UserID = uid, rp_Nickname = us_Nickname user, rp_Level = us_Level user, rp_Status = status, rp_JoinTime = time_unix now\<rparr>"

definition fresh_room :: "time \<Rightarrow> create_room_request \<Rightarrow> user \<Rightarrow> u64 \<Rightarrow> u64 \<Rightarrow> room" where
  "fresh_room now rq user uid rid =
     \<lparr>ro_ID = None, ro_RoomID = rid, ro_RoomName = cq_RoomName rq, ro_GameType = cq_GameType rq,
      ro_MaxPlayers = cq_MaxPlayers rq, ro_CurrentPlayers = 1, ro_Status = 0, ro_IsPrivate = cq_IsPrivate rq,
      ro_Password = cq_Password rq, ro_OwnerID = uid, ro_Players = [first_player now user uid 1],
      ro_CreatedAt = 0, ro_UpdatedAt = 0\<rparr>"

definition CreateRoom :: "('c, 'd) lobby_deps \<Rightarrow> time \<Rightarrow> base_request \<Rightarrow> ('c, 'd) lobby \<Rightarrow> ('c, 'd) lobby \<times> base_response" where
  "CreateRoom deps now req s =
     (let uid = GetUserId (br_Header req) in
      if uid = 0 then (s, reply req (- 1) ''invalid user id'')
      else case lc_create (ld_codec deps) (br_Data req) of
        Inl _ \<Rightarrow> (s, reply req (- 2) ''invalid request data'')
      | Inr rq \<Rightarrow>
          if cq_RoomName rq = [] then (s, reply req (- 3) ''room name cannot be empty'')
          else if cq_MaxPlayers rq < 2 \<or> cq_MaxPlayers rq > 8 then (s, reply req (- 4) ''max players must be between 2 and 8'')
          else if cq_IsPrivate rq \<and> cq_Password rq = [] then (s, reply req (- 5) ''private room requires password'')
          else case ur_GetByUserID (ld_users deps) uid (lb_users s) of
            (u1, Inl _) \<Rightarrow> (s\<lparr>lb_users := u1\<rparr>, reply req (- 6) ''user not found'')
          | (u1, Inr user) \<Rightarrow>
              (let (rid, s1) = generateRoomID (s\<lparr>lb_users := u1\<rparr>)
               in case rr_CreateRoom (ld_rooms deps) now now (fresh_room now rq user uid rid) (lb_rooms s1) of
                    (c1, Inl _) \<Rightarrow> (s1\<lparr>lb_rooms := c1\<rparr>, reply req (- 7) ''failed to create room'')
                  | (c1, Inr room) \<Rightarrow>
                      (let owner = user_info 1 user;
                           info = (info_of_room (Some owner) room)\<lparr>ri_Players := [owner]\<rparr>;
                           s2 = s1\<lparr>lb_rooms := c1\<rparr>
                       in case lc_room_info (ld_codec deps) info of
                            Inl _ \<Rightarrow> (s2, reply req (- 8) ''failed to create response'')
                          | Inr d \<Rightarrow> (s2, with_data req ''room created successfully'' d))))"

subsection \<open>JoinRoom\<close>

text \<open>
  The checks of the handler up to the lookup of the user (\<open>Inl\<close>: it has answered), and the rest. The
  two parts run one after the other, but not as one step of the database: other handlers can come
  between.
\<close>

record join_ticket =
  jt_roomID :: u64
  jt_room :: room
  jt_user :: user

definition join_check :: "('c, 'd) lobby_deps \<Rightarrow> base_request \<Rightarrow> ('c, 'd) lobby \<Rightarrow> ('c, 'd) lobby \<times> (base_response + join_ticket)" where
  "join_check deps req s =
     (let uid = GetUserId (br_Header req) in
      if uid = 0 then (s, Inl (reply req (- 1) ''invalid user id''))
      else case lc_join (ld_codec deps) (br_Data req) of
        Inl _ \<Rightarrow> (s, Inl (reply req (- 2) ''invalid request data''))
      | Inr rq \<Rightarrow>
          if jq_RoomId rq = 0 then (s, Inl (reply req (- 3) ''invalid room id''))
          else case rr_GetRoomByID (ld_rooms deps) (jq_RoomId rq) (lb_rooms s) of
            (c1, Inl _) \<Rightarrow> (s\<lparr>lb_rooms := c1\<rparr>, Inl (reply req (- 4) ''room not found''))
          | (c1, Inr room) \<Rightarrow>
              (let s1 = s\<lparr>lb_rooms := c1\<rparr> in
               if ro_Status room \<noteq> 0 then (s1, Inl (reply req (- 5) ''room is not available''))
               else if ro_CurrentPlayers room \<ge> ro_MaxPlayers room then (s1, Inl (reply req (- 6) ''room is full''))
               else if \<exists>p \<in> set (ro_Players room). rp_UserID p = uid then (s1, Inl (reply req (- 7) ''already in room''))
               else if ro_IsPrivate room \<and> ro_Password room \<noteq> jq_Password rq then (s1, Inl (reply req (- 8) ''wrong password''))
               else case ur_GetByUserID (ld_users deps) uid (lb_users s1) of
                 (u1, Inl _) \<Rightarrow> (s1\<lparr>lb_users := u1\<rparr>, Inl (reply req (- 9) ''user not found''))
               | (u1, Inr user) \<Rightarrow> (s1\<lparr>lb_users := u1\<rparr>, Inr \<lparr>jt_roomID = jq_RoomId rq, jt_room = room, jt_user = user\<rparr>)))"

definition join_commit :: "('c, 'd) lobby_deps \<Rightarrow> time \<Rightarrow> base_request \<Rightarrow> join_ticket \<Rightarrow> ('c, 'd) lobby \<Rightarrow> ('c, 'd) lobby \<times> base_response" where
  "join_commit deps now req t s =
     (let uid = GetUserId (br_Header req); rid = jt_roomID t
      in case rr_AddPlayerToRoom (ld_rooms deps) now rid (first_player now (jt_user t) uid 0) (lb_rooms s) of
           (c1, Some _) \<Rightarrow> (s\<lparr>lb_rooms := c1\<rparr>, reply req (- 10) ''failed to join room'')
         | (c1, None) \<Rightarrow>
             (let (c2, r) = rr_GetRoomByID (ld_rooms deps) rid c1;
                  room = (case r of Inl _ \<Rightarrow> jt_room t | Inr x \<Rightarrow> x);
                  (u1, own) = ur_GetByUserID (ld_users deps) (ro_OwnerID room) (lb_users s);
                  owner = (case own of Inl _ \<Rightarrow> None | Inr x \<Rightarrow> Some (user_info 1 x));
                  s' = s\<lparr>lb_rooms := c2, lb_users := u1\<rparr>
              in case lc_room_info (ld_codec deps) (info_of_room owner room) of
                   Inl _ \<Rightarrow> (s', reply req (- 11) ''failed to create response'')
                 | Inr d \<Rightarrow> (s', with_data req ''joined room successfully'' d)))"

definition JoinRoom :: "('c, 'd) lobby_deps \<Rightarrow> time \<Rightarrow> base_request \<Rightarrow> ('c, 'd) lobby \<Rightarrow> ('c, 'd) lobby \<times> base_response" where
  "JoinRoom deps now req s =
     (case join_check deps req s of (s1, Inl resp) \<Rightarrow> (s1, resp) | (s1, Inr t) \<Rightarrow> join_commit deps now req t s1)"

subsection \<open>LeaveRoom\<close>

definition other_player :: "u64 \<Rightarrow> room \<Rightarrow> u64" where
  "other_player uid room = (case List.find (\<lambda>p. rp_UserID p \<noteq> uid) (ro_Players room) of None \<Rightarrow> 0 | Some p \<Rightarrow> rp_UserID p)"

definition leave_reply :: "('c, 'd) lobby_deps \<Rightarrow> base_request \<Rightarrow> base_response" where
  "leave_reply deps req =
     (case lc_response (ld_codec deps) (reply req 0 ''left room successfully'') of
        Inl _ \<Rightarrow> reply req (- 9) ''failed to create response''
      | Inr _ \<Rightarrow> reply req 0 ''left room successfully'')"

definition leave_owner :: "('c, 'd) lobby_deps \<Rightarrow> time \<Rightarrow> base_request \<Rightarrow> u64 \<Rightarrow> u64 \<Rightarrow> room \<Rightarrow> 'c \<Rightarrow> 'c \<times> base_response" where
  "leave_owner deps now req uid rid room c =
     (if ro_CurrentPlayers room \<le> 1 then
        (case rr_DeleteRoom (ld_rooms deps) rid c of
           (c1, Some _) \<Rightarrow> (c1, reply req (- 6) ''failed to leave room'')
         | (c1, None) \<Rightarrow> (c1, leave_reply deps req))
      else if other_player uid room = 0 then (c, leave_reply deps req)
      else
        (case rr_RemovePlayerFromRoom (ld_rooms deps) now rid uid c of
           (c1, Some _) \<Rightarrow> (c1, reply req (- 7) ''failed to leave room'')
         | (c1, None) \<Rightarrow>
             (let (c2, _) = rr_UpdateRoom (ld_rooms deps) now (room\<lparr>ro_OwnerID := other_player uid room\<rparr>) c1
              in (c2, leave_reply deps req))))"

definition LeaveRoom :: "('c, 'd) lobby_deps \<Rightarrow> time \<Rightarrow> base_request \<Rightarrow> ('c, 'd) lobby \<Rightarrow> ('c, 'd) lobby \<times> base_response" where
  "LeaveRoom deps now req s =
     (let uid = GetUserId (br_Header req) in
      if uid = 0 then (s, reply req (- 1) ''invalid user id'')
      else case lc_join (ld_codec deps) (br_Data req) of
        Inl _ \<Rightarrow> (s, reply req (- 2) ''invalid request data'')
      | Inr rq \<Rightarrow>
          if jq_RoomId rq = 0 then (s, reply req (- 3) ''invalid room id'')
          else case rr_GetRoomByID (ld_rooms deps) (jq_RoomId rq) (lb_rooms s) of
            (c1, Inl _) \<Rightarrow> (s\<lparr>lb_rooms := c1\<rparr>, reply req (- 4) ''room not found'')
          | (c1, Inr room) \<Rightarrow>
              if \<not> (\<exists>p \<in> set (ro_Players room). rp_UserID p = uid) then (s\<lparr>lb_rooms := c1\<rparr>, reply req (- 5) ''not in room'')
              else
                (let (u1, _) = ur_GetByUserID (ld_users deps) uid (lb_users s);
                     (c2, resp) =
                       (if ro_OwnerID room = uid then leave_owner deps now req uid (jq_RoomId rq) room c1
                        else case rr_RemovePlayerFromRoom (ld_rooms deps) now (jq_RoomId rq) uid c1 of
                            (c2, Some _) \<Rightarrow> (c2, reply req (- 8) ''failed to leave room'')
                          | (c2, None) \<Rightarrow> (c2, leave_reply deps req))
                 in (s\<lparr>lb_rooms := c2, lb_users := u1\<rparr>, resp)))"

subsection \<open>The service on its repositories\<close>

text \<open>
  What the handlers rely on: the contracts of the two repositories, and that a decoded request holds
  32-bit numbers.
\<close>

locale lobby_service =
  rooms: room_store "ld_rooms deps" rooms rok + users: user_store "ld_users deps" users uok
  for deps :: "('c, 'd) lobby_deps" and rooms rok users uok +
  assumes decoded: "lc_create (ld_codec deps) data = Inr rq \<Longrightarrow> int_fits 32 (cq_GameType rq) \<and> int_fits 32 (cq_MaxPlayers rq)"

text \<open>A consistent room: the count is the number of players, within the limit, everybody once.\<close>

definition room_wf :: "room \<Rightarrow> bool" where
  "room_wf r \<longleftrightarrow> ro_CurrentPlayers r = int (length (ro_Players r)) \<and> ro_CurrentPlayers r \<le> ro_MaxPlayers r \<and>
     2 \<le> ro_MaxPlayers r \<and> ro_MaxPlayers r \<le> 8 \<and> distinct (map rp_UserID (ro_Players r)) \<and>
     0 \<notin> rp_UserID ` set (ro_Players r) \<and> (\<forall>p \<in> set (ro_Players r). player_fits p)"

definition lobby_ok :: "('c \<Rightarrow> u64 \<Rightarrow> room option) \<Rightarrow> ('c \<Rightarrow> bool) \<Rightarrow> ('d \<Rightarrow> bool) \<Rightarrow> ('c, 'd) lobby \<Rightarrow> bool" where
  "lobby_ok rooms rok uok s \<longleftrightarrow> rok (lb_rooms s) \<and> uok (lb_users s) \<and> (\<forall>i r. rooms (lb_rooms s) i = Some r \<longrightarrow> room_wf r)"

lemma wf_small: "room_wf r \<Longrightarrow> int_fits 32 (ro_CurrentPlayers r + 1) \<and> int_fits 32 (ro_CurrentPlayers r - 1)"
  by (auto simp: room_wf_def int_fits_def)

lemma wf_add:
  assumes "room_wf r" and "ro_CurrentPlayers r < ro_MaxPlayers r" and "rp_UserID p \<notin> rp_UserID ` set (ro_Players r)"
    and "rp_UserID p \<noteq> 0" and "player_fits p"
  shows "room_wf (add_player now p r)"
  using assms by (auto simp: room_wf_def add_player_def)

lemma length_filter_distinct:
  assumes "distinct (map f xs)" and "v \<in> f ` set xs"
  shows "length (filter (\<lambda>x. f x \<noteq> v) xs) = length xs - 1"
proof -
  from assms(2) obtain ys x zs where xs: "xs = ys @ x # zs" "f x = v" by (auto simp: in_set_conv_decomp)
  with assms(1) have "\<forall>y \<in> set ys \<union> set zs. f y \<noteq> v" by (auto simp: rev_image_eqI)
  with xs show ?thesis by (simp add: filter_id_conv [THEN iffD2])
qed

lemma wf_remove:
  assumes "room_wf r" and "uid \<in> rp_UserID ` set (ro_Players r)"
  shows "room_wf (remove_player now uid r)"
proof -
  have "0 < length (ro_Players r)" using assms(2) by auto
  with assms length_filter_distinct [of rp_UserID "ro_Players r" uid] show ?thesis
    by (auto simp: room_wf_def remove_player_def distinct_map_filter of_nat_diff Suc_leI)
qed

lemma wf_replace: "room_wf r \<Longrightarrow> room_wf (replace_room now (r\<lparr>ro_OwnerID := w\<rparr>) old)"
  by (simp add: room_wf_def replace_room_def stored_room_def)

lemma wf_fresh:
  "2 \<le> cq_MaxPlayers rq \<Longrightarrow> cq_MaxPlayers rq \<le> 8 \<Longrightarrow> uid \<noteq> 0 \<Longrightarrow> int_fits 64 (time_unix now) \<Longrightarrow> user_fits user \<Longrightarrow>
   room_wf (stored_room (new_room t1 t2 (fresh_room now rq user uid rid) n)) \<and>
   player_fits (first_player now user uid 1)"
  by (simp add: room_wf_def stored_room_def new_room_def fresh_room_def first_player_def player_fits_def user_fits_def int_fits_def)

context lobby_service
begin

abbreviation "ok \<equiv> lobby_ok rooms rok uok"

lemma ok_users: "ok s \<Longrightarrow> uok u \<Longrightarrow> ok (s\<lparr>lb_users := u\<rparr>)"
  by (simp add: lobby_ok_def)

lemma ok_rooms_same: "ok s \<Longrightarrow> rok c \<Longrightarrow> rooms c = rooms (lb_rooms s) \<Longrightarrow> ok (s\<lparr>lb_rooms := c\<rparr>)"
  by (simp add: lobby_ok_def)

lemma room_infos_users:
  "uok u \<Longrightarrow> room_infos deps rs u = (u', infos) \<Longrightarrow> uok u' \<and> users u' = users u"
proof (induction rs arbitrary: u u' infos)
  case Nil
  then show ?case by simp
next
  case (Cons r rs)
  obtain u1 x where g: "ur_GetByUserID (ld_users deps) (ro_OwnerID r) u = (u1, x)" by fastforce
  from users.get [OF Cons.prems(1) g] Cons g show ?case
    by (auto split: sum.splits prod.splits)
qed

lemma get_room: "rok c \<Longrightarrow> rr_GetRoomByID (ld_rooms deps) i c = (c', x) \<Longrightarrow> rok c' \<and> rooms c' = rooms c"
  using rooms.get by blast

lemma get_user: "uok u \<Longrightarrow> ur_GetByUserID (ld_users deps) i u = (u', x) \<Longrightarrow> uok u' \<and> users u' = users u"
  using users.get by blast

lemma list_rooms: "rok c \<Longrightarrow> rr_GetRoomList (ld_rooms deps) g l n c = (c', x) \<Longrightarrow> rok c' \<and> rooms c' = rooms c"
  using rooms.list by blast

lemma count_rooms: "rok c \<Longrightarrow> rr_CountRooms (ld_rooms deps) g c = (c', x) \<Longrightarrow> rok c' \<and> rooms c' = rooms c"
  using rooms.count by blast

lemmas reads = get_room get_user list_rooms count_rooms room_infos_users

lemma list_keeps:
  assumes "ok s" and "GetRoomList deps req s = (s', resp)"
  shows "ok s' \<and> rooms (lb_rooms s') = rooms (lb_rooms s) \<and> users (lb_users s') = users (lb_users s)"
proof -
  obtain c1 x where l: "rr_GetRoomList (ld_rooms deps) 0 20 0 (lb_rooms s) = (c1, x)" by fastforce
  obtain c2 n where n: "rr_CountRooms (ld_rooms deps) 0 c1 = (c2, n)" by fastforce
  have "rok (lb_rooms s)" "uok (lb_users s)" using assms(1) by (simp_all add: lobby_ok_def)
  note k = list_rooms [OF this(1) l] count_rooms [OF _ n] and u = \<open>uok (lb_users s)\<close>
  show ?thesis
  proof (cases x)
    case (Inl e)
    with assms l k show ?thesis by (auto simp: GetRoomList_def lobby_ok_def split: if_splits)
  next
    case (Inr rs)
    obtain u1 infos where i: "room_infos deps rs (lb_users s) = (u1, infos)" by fastforce
    from room_infos_users [OF u i] Inr assms l n k show ?thesis
      by (auto simp: GetRoomList_def lobby_ok_def Let_def i split: if_splits sum.splits)
  qed
qed

lemma create_effect:
  assumes "ok s" and now: "int_fits 64 (time_unix now)" and "CreateRoom deps now req s = (s', resp)"
  shows "ok s' \<and> (bp_Code resp \<notin> {0, - 7, - 8} \<longrightarrow> rooms (lb_rooms s') = rooms (lb_rooms s)) \<and>
    (bp_Code resp = 0 \<longrightarrow> (\<exists>r. rooms (lb_rooms s) (lb_nextRoomID s) = None \<and>
       rooms (lb_rooms s') = (rooms (lb_rooms s))(lb_nextRoomID s \<mapsto> r) \<and>
       ro_OwnerID r = GetUserId (br_Header req) \<and> map rp_UserID (ro_Players r) = [GetUserId (br_Header req)]))"
proof -
  let ?uid = "GetUserId (br_Header req)"
  have s: "rok (lb_rooms s)" "uok (lb_users s)" using assms(1) by (simp_all add: lobby_ok_def)
  consider (early) "s' = s" "bp_Code resp \<notin> {0, - 7, - 8}"
    | (go) rq u1 x where "?uid \<noteq> 0" "lc_create (ld_codec deps) (br_Data req) = Inr rq" "2 \<le> cq_MaxPlayers rq" "cq_MaxPlayers rq \<le> 8"
      "ur_GetByUserID (ld_users deps) ?uid (lb_users s) = (u1, x)"
      "(s', resp) = (case x of Inl _ \<Rightarrow> (s\<lparr>lb_users := u1\<rparr>, reply req (- 6) ''user not found'')
        | Inr user \<Rightarrow> (case rr_CreateRoom (ld_rooms deps) now now (fresh_room now rq user ?uid (lb_nextRoomID s)) (lb_rooms s) of
            (c1, Inl _) \<Rightarrow> (s\<lparr>lb_users := u1, lb_nextRoomID := lb_nextRoomID s + 1, lb_rooms := c1\<rparr>, reply req (- 7) ''failed to create room'')
          | (c1, Inr room) \<Rightarrow> (s\<lparr>lb_users := u1, lb_nextRoomID := lb_nextRoomID s + 1, lb_rooms := c1\<rparr>,
              case lc_room_info (ld_codec deps) ((info_of_room (Some (user_info 1 user)) room)\<lparr>ri_Players := [user_info 1 user]\<rparr>) of
                Inl _ \<Rightarrow> reply req (- 8) ''failed to create response'' | Inr d \<Rightarrow> with_data req ''room created successfully'' d)))"
    using assms(3) by (cases "ur_GetByUserID (ld_users deps) ?uid (lb_users s)")
      (auto simp: CreateRoom_def Let_def generateRoomID_def split: if_splits sum.splits prod.splits)
  then show ?thesis
  proof cases
    case early
    with assms(1) show ?thesis by simp
  next
    case go
    note u = users.get [OF s(2) go(5)]
    show ?thesis
    proof (cases x)
      case (Inl e)
      with go(6) u assms(1) show ?thesis by (simp add: lobby_ok_def)
    next
      case (Inr user)
      let ?room = "fresh_room now rq user ?uid (lb_nextRoomID s)"
      have uf: "user_fits user" using u Inr users.fits [OF s(2)] by auto
      obtain c1 z where c: "rr_CreateRoom (ld_rooms deps) now now ?room (lb_rooms s) = (c1, z)" by fastforce
      have "room_fits ?room" "ro_ID ?room = None"
        using wf_fresh [OF go(3,4,1) now uf] decoded [OF go(2)] by (simp_all add: fresh_room_def room_fits_def int_fits_def)
      have rid: "ro_RoomID ?room = lb_nextRoomID s" by (simp add: fresh_room_def)
      from rooms.create [OF s(1) \<open>room_fits ?room\<close> \<open>ro_ID ?room = None\<close> c, unfolded rid] obtain y where y: "rok c1"
        "created (lb_nextRoomID s) (stored_room \<circ> new_room now now ?room) (rooms (lb_rooms s)) (rooms c1) y"
        "\<And>r. z = Inr r \<Longrightarrow> \<exists>n. y = Inr n"
        by (elim conjE exE) (rule that, assumption+, blast)
      have wf: "\<And>n. room_wf ((stored_room \<circ> new_room now now ?room) n)"
        using wf_fresh [OF go(3,4,1) now uf] by simp
      have new: "ro_OwnerID ((stored_room \<circ> new_room now now ?room) n) = ?uid \<and>
          map rp_UserID (ro_Players ((stored_room \<circ> new_room now now ?room) n)) = [?uid]" for n
        by (simp add: stored_room_def new_room_def fresh_room_def first_player_def)
      have ok1: "\<forall>i r. rooms c1 i = Some r \<longrightarrow> room_wf r"
        using y(2) wf assms(1) by (auto simp: created_def lobby_ok_def split: sum.splits if_splits)
      show ?thesis
      proof (cases z)
        case (Inl e)
        with go(6) Inr c ok1 y(1) u show ?thesis by (simp add: lobby_ok_def)
      next
        case (Inr r)
        with y obtain n where "y = Inr n" by auto
        with y(2) have "rooms (lb_rooms s) (lb_nextRoomID s) = None"
          "rooms c1 = (rooms (lb_rooms s))(lb_nextRoomID s \<mapsto> (stored_room \<circ> new_room now now ?room) n)"
          by (simp_all add: created_def)
        with new [of n] show ?thesis
          using go(6) \<open>x = Inr user\<close> Inr c ok1 y(1) u by (auto simp: lobby_ok_def with_data_def split: sum.splits)
      qed
    qed
  qed
qed

lemma join_check_effect:
  assumes "ok s" and "join_check deps req s = (s', x)"
  shows "ok s' \<and> rooms (lb_rooms s') = rooms (lb_rooms s) \<and> users (lb_users s') = users (lb_users s) \<and>
    lb_nextRoomID s' = lb_nextRoomID s \<and> (case x of
      Inl resp \<Rightarrow> bp_Code resp \<in> {- 9 .. - 1}
    | Inr t \<Rightarrow> rooms (lb_rooms s) (jt_roomID t) = Some (jt_room t) \<and> GetUserId (br_Header req) \<noteq> 0 \<and>
        ro_Status (jt_room t) = 0 \<and> ro_CurrentPlayers (jt_room t) < ro_MaxPlayers (jt_room t) \<and>
        GetUserId (br_Header req) \<notin> rp_UserID ` set (ro_Players (jt_room t)) \<and> user_fits (jt_user t) \<and>
        (ro_IsPrivate (jt_room t) \<longrightarrow>
           (\<exists>rq. lc_join (ld_codec deps) (br_Data req) = Inr rq \<and> jq_Password rq = ro_Password (jt_room t))))"
proof -
  let ?uid = "GetUserId (br_Header req)"
  have s: "rok (lb_rooms s)" "uok (lb_users s)" using assms(1) by (simp_all add: lobby_ok_def)
  show ?thesis
  proof (cases "?uid = 0 \<or> isl (lc_join (ld_codec deps) (br_Data req)) \<or> jq_RoomId (projr (lc_join (ld_codec deps) (br_Data req))) = 0")
    case True
    with assms show ?thesis by (auto simp: join_check_def Let_def split: if_splits sum.splits)
  next
    case False
    then obtain rq where rq: "lc_join (ld_codec deps) (br_Data req) = Inr rq" "jq_RoomId rq \<noteq> 0" "?uid \<noteq> 0"
      by (cases "lc_join (ld_codec deps) (br_Data req)") auto
    obtain c1 y where g: "rr_GetRoomByID (ld_rooms deps) (jq_RoomId rq) (lb_rooms s) = (c1, y)" by fastforce
    obtain u1 z where u: "ur_GetByUserID (ld_users deps) ?uid (lb_users s) = (u1, z)" by fastforce
    note r = rooms.get [OF s(1) g] and us = users.get [OF s(2) u]
    have fits: "z = Inr user \<Longrightarrow> user_fits user" for user using us users.fits [OF s(2)] by auto
    show ?thesis
    proof (cases y)
      case (Inl e)
      with assms rq g r show ?thesis by (auto simp: join_check_def lobby_ok_def)
    next
      case (Inr room)
      with assms rq g r us fits show ?thesis
        by (auto simp: join_check_def lobby_ok_def Let_def u image_iff split: if_splits sum.splits)
    qed
  qed
qed

lemma join_commit_effect:
  assumes "rok (lb_rooms s)" "uok (lb_users s)" and now: "int_fits 64 (time_unix now)" and "user_fits (jt_user t)"
    and "\<And>r. rooms (lb_rooms s) (jt_roomID t) = Some r \<Longrightarrow> int_fits 32 (ro_CurrentPlayers r + 1)"
    and "join_commit deps now req t s = (s', resp)"
  shows "rok (lb_rooms s') \<and> uok (lb_users s') \<and> users (lb_users s') = users (lb_users s) \<and>
    lb_nextRoomID s' = lb_nextRoomID s \<and> bp_Code resp \<in> {0, - 10, - 11} \<and>
    changed (jt_roomID t) (add_player now (first_player now (jt_user t) (GetUserId (br_Header req)) 0))
      (rooms (lb_rooms s)) (rooms (lb_rooms s')) (bp_Code resp = - 10)"
proof -
  let ?p = "first_player now (jt_user t) (GetUserId (br_Header req)) 0"
  have p: "player_fits ?p" using now assms(4) by (simp add: first_player_def player_fits_def user_fits_def int_fits_def)
  obtain c1 e where a: "rr_AddPlayerToRoom (ld_rooms deps) now (jt_roomID t) ?p (lb_rooms s) = (c1, e)" by fastforce
  note ad = rooms.add [OF assms(1) p assms(5) a]
  obtain c2 y where g: "rr_GetRoomByID (ld_rooms deps) (jt_roomID t) c1 = (c2, y)" by fastforce
  note r = get_room [OF _ g]
  show ?thesis
  proof (cases e)
    case (Some m)
    with assms ad a show ?thesis by (auto simp: join_commit_def Let_def)
  next
    case None
    obtain u1 z where u: "ur_GetByUserID (ld_users deps) (ro_OwnerID (case y of Inl _ \<Rightarrow> jt_room t | Inr x \<Rightarrow> x)) (lb_users s) = (u1, z)"
      by fastforce
    note us = get_user [OF assms(2) u]
    from None assms(6) have "lb_rooms s' = c2 \<and> lb_users s' = u1 \<and> lb_nextRoomID s' = lb_nextRoomID s \<and> bp_Code resp \<in> {0, - 11}"
      by (auto simp: join_commit_def Let_def a g u with_data_def split: sum.splits)
    with None ad r us show ?thesis by (auto simp: changed_def)
  qed
qed

lemma join_keeps:
  assumes "ok s" and now: "int_fits 64 (time_unix now)" and "JoinRoom deps now req s = (s', resp)"
  shows "ok s'"
proof -
  obtain s1 x where c: "join_check deps req s = (s1, x)" by fastforce
  note ch = join_check_effect [OF assms(1) c]
  show ?thesis
  proof (cases x)
    case (Inl e)
    with assms(3) c ch show ?thesis by (simp add: JoinRoom_def)
  next
    case (Inr t)
    with ch have t: "rooms (lb_rooms s1) (jt_roomID t) = Some (jt_room t)" "ro_CurrentPlayers (jt_room t) < ro_MaxPlayers (jt_room t)"
      "GetUserId (br_Header req) \<notin> rp_UserID ` set (ro_Players (jt_room t))" "GetUserId (br_Header req) \<noteq> 0" "user_fits (jt_user t)"
      and s1: "rok (lb_rooms s1)" "uok (lb_users s1)" and wf: "\<And>i r. rooms (lb_rooms s1) i = Some r \<Longrightarrow> room_wf r"
      by (auto simp: lobby_ok_def)
    from assms(3) c Inr have m: "join_commit deps now req t s1 = (s', resp)" by (simp add: JoinRoom_def)
    have e: "rok (lb_rooms s') \<and> uok (lb_users s') \<and>
        changed (jt_roomID t) (add_player now (first_player now (jt_user t) (GetUserId (br_Header req)) 0))
          (rooms (lb_rooms s1)) (rooms (lb_rooms s')) (bp_Code resp = - 10)"
      using join_commit_effect [OF s1 now t(5) _ m] wf wf_small by blast
    have "room_wf (add_player now (first_player now (jt_user t) (GetUserId (br_Header req)) 0) (jt_room t))"
      using now t wf by (intro wf_add) (auto simp: first_player_def player_fits_def user_fits_def int_fits_def)
    with e t(1) wf show ?thesis by (auto simp: changed_def lobby_ok_def split: if_splits)
  qed
qed

lemma leave_owner_effect:
  assumes "rok c" and wf: "\<And>j r. rooms c j = Some r \<Longrightarrow> room_wf r" and "rooms c i = Some room"
    and uid: "uid \<in> rp_UserID ` set (ro_Players room)" "uid \<noteq> 0"
    and "leave_owner deps now req uid i room c = (c', resp)"
  shows "rok c' \<and> (\<forall>j r. rooms c' j = Some r \<longrightarrow> room_wf r)"
proof -
  have small: "\<And>r. rooms c i = Some r \<Longrightarrow> int_fits 32 (ro_CurrentPlayers r - 1)" using wf wf_small by blast
  obtain c1 e1 where d: "rr_DeleteRoom (ld_rooms deps) i c = (c1, e1)" by fastforce
  obtain c2 e2 where m: "rr_RemovePlayerFromRoom (ld_rooms deps) now i uid c = (c2, e2)" by fastforce
  obtain c3 e3 where w: "rr_UpdateRoom (ld_rooms deps) now (room\<lparr>ro_OwnerID := other_player uid room\<rparr>) c2 = (c3, e3)" by fastforce
  note dl = rooms.delete [OF assms(1) d] and rm = rooms.remove [OF assms(1) uid(2) small m]
  have "room_wf room" using wf assms(3) by blast
  then have rw: "room_wf (remove_player now uid room)" using uid(1) by (rule wf_remove)
  have m_wf: "rooms c2 j = Some r \<Longrightarrow> room_wf r" for j r
    using rm wf rw assms(3) by (auto simp: changed_def split: if_splits)
  have rf: "room_fits (room\<lparr>ro_OwnerID := other_player uid room\<rparr>)" "ro_RoomID room = i"
    using rooms.fits [OF assms(1,3)] by (simp_all add: room_fits_def)
  from rm have "rok c2" by simp
  note up = rooms.update [OF \<open>rok c2\<close> rf(1) w]
  have u_wf: "rooms c3 j = Some r \<Longrightarrow> room_wf r" for j r
    using up m_wf wf_replace [OF \<open>room_wf room\<close>] by (auto simp: changed_def split: if_splits)
  consider "c' = c" | "c' = c1" | "c' = c2" | "c' = c3"
    using assms(6) by (auto simp: leave_owner_def d m w split: if_splits option.splits)
  then show ?thesis
  proof cases
    case 2
    with dl wf show ?thesis by (auto simp: removed_def split: if_splits)
  qed (use assms(1) wf rm m_wf up u_wf in auto)
qed

lemma leave_keeps:
  assumes "ok s" and "LeaveRoom deps now req s = (s', resp)"
  shows "ok s'"
proof -
  let ?uid = "GetUserId (br_Header req)"
  have s: "rok (lb_rooms s)" "uok (lb_users s)" and wf: "\<And>j r. rooms (lb_rooms s) j = Some r \<Longrightarrow> room_wf r"
    using assms(1) by (simp_all add: lobby_ok_def)
  show ?thesis
  proof (cases "?uid = 0 \<or> isl (lc_join (ld_codec deps) (br_Data req)) \<or> jq_RoomId (projr (lc_join (ld_codec deps) (br_Data req))) = 0")
    case True
    with assms show ?thesis by (auto simp: LeaveRoom_def Let_def split: if_splits sum.splits)
  next
    case False
    then obtain rq where rq: "lc_join (ld_codec deps) (br_Data req) = Inr rq" "jq_RoomId rq \<noteq> 0" "?uid \<noteq> 0"
      by (cases "lc_join (ld_codec deps) (br_Data req)") auto
    let ?i = "jq_RoomId rq"
    obtain c1 y where g: "rr_GetRoomByID (ld_rooms deps) ?i (lb_rooms s) = (c1, y)" by fastforce
    obtain u1 z where u: "ur_GetByUserID (ld_users deps) ?uid (lb_users s) = (u1, z)" by fastforce
    note r = rooms.get [OF s(1) g] and us = users.get [OF s(2) u]
    show ?thesis
    proof (cases "\<exists>room. y = Inr room \<and> ?uid \<in> rp_UserID ` set (ro_Players room)")
      case False
      with assms rq g r show ?thesis
        by (auto simp: LeaveRoom_def lobby_ok_def Let_def image_iff split: if_splits sum.splits)
    next
      case True
      then obtain room where room: "y = Inr room" "?uid \<in> rp_UserID ` set (ro_Players room)" by blast
      have r1: "rok c1" "rooms c1 ?i = Some room" and wf1: "\<And>j r. rooms c1 j = Some r \<Longrightarrow> room_wf r"
        using r room wf by auto
      have small: "\<And>r. rooms c1 ?i = Some r \<Longrightarrow> int_fits 32 (ro_CurrentPlayers r - 1)" using wf1 wf_small by blast
      obtain c2 e2 where m: "rr_RemovePlayerFromRoom (ld_rooms deps) now ?i ?uid c1 = (c2, e2)" by fastforce
      obtain c3 resp3 where l: "leave_owner deps now req ?uid ?i room c1 = (c3, resp3)" by fastforce
      have "lb_users s' = u1 \<and> (lb_rooms s' = c2 \<or> lb_rooms s' = c3)"
        using assms(2) rq g room u by (auto simp: LeaveRoom_def Let_def m l image_iff split: if_splits option.splits)
      moreover have "rok c2 \<and> (\<forall>j r. rooms c2 j = Some r \<longrightarrow> room_wf r)"
        using rooms.remove [OF r1(1) rq(3) small m] wf1 wf_remove [OF wf1 [OF r1(2)] room(2)] r1(2)
        by (auto simp: changed_def split: if_splits)
      moreover note leave_owner_effect [OF r1(1) wf1 r1(2) room(2) rq(3) l]
      ultimately show ?thesis using us by (auto simp: lobby_ok_def)
    qed
  qed
qed

end

subsection \<open>Runs\<close>

datatype lobby_call =
    CallList base_request | CallCreate time base_request | CallJoin time base_request | CallLeave time base_request

fun lobby_step :: "('c, 'd) lobby_deps \<Rightarrow> lobby_call \<Rightarrow> ('c, 'd) lobby \<Rightarrow> ('c, 'd) lobby" where
  "lobby_step deps (CallList req) s = fst (GetRoomList deps req s)"
| "lobby_step deps (CallCreate now req) s = fst (CreateRoom deps now req s)"
| "lobby_step deps (CallJoin now req) s = fst (JoinRoom deps now req s)"
| "lobby_step deps (CallLeave now req) s = fst (LeaveRoom deps now req s)"

fun call_time_ok :: "lobby_call \<Rightarrow> bool" where
  "call_time_ok (CallList _) = True"
| "call_time_ok (CallCreate now _) = int_fits 64 (time_unix now)"
| "call_time_ok (CallJoin now _) = int_fits 64 (time_unix now)"
| "call_time_ok (CallLeave now _) = int_fits 64 (time_unix now)"

context lobby_service
begin

lemma step_keeps:
  assumes "ok s" and "call_time_ok call"
  shows "ok (lobby_step deps call s)"
proof (cases call)
  case (CallList req)
  with assms list_keeps [of s req] show ?thesis by (cases "GetRoomList deps req s") simp
next
  case (CallCreate now req)
  with assms create_effect [of s now req] show ?thesis by (cases "CreateRoom deps now req s") simp
next
  case (CallJoin now req)
  with assms join_keeps [of s now req] show ?thesis by (cases "JoinRoom deps now req s") simp
next
  case (CallLeave now req)
  with assms leave_keeps [of s now req] show ?thesis by (cases "LeaveRoom deps now req s") simp
qed

lemma run_keeps: "ok s \<Longrightarrow> \<forall>call \<in> set calls. call_time_ok call \<Longrightarrow> ok (fold (lobby_step deps) calls s)"
  by (induction calls arbitrary: s) (simp_all add: step_keeps)

end


context lobby_service
begin

lemma join_effect:
  assumes "ok s" and now: "int_fits 64 (time_unix now)" and "JoinRoom deps now req s = (s', resp)"
  shows "users (lb_users s') = users (lb_users s) \<and>
    (bp_Code resp \<notin> {0, - 10, - 11} \<longrightarrow> rooms (lb_rooms s') = rooms (lb_rooms s)) \<and>
    (bp_Code resp \<in> {0, - 11} \<longrightarrow> (\<exists>i r p. rooms (lb_rooms s) i = Some r \<and> ro_Status r = 0 \<and>
       ro_CurrentPlayers r < ro_MaxPlayers r \<and> GetUserId (br_Header req) \<notin> rp_UserID ` set (ro_Players r) \<and>
       rp_UserID p = GetUserId (br_Header req) \<and> rooms (lb_rooms s') = (rooms (lb_rooms s))(i \<mapsto> add_player now p r)))"
proof -
  obtain s1 x where c: "join_check deps req s = (s1, x)" by fastforce
  note ch = join_check_effect [OF assms(1) c]
  show ?thesis
  proof (cases x)
    case (Inl e)
    with assms(3) c ch show ?thesis by (auto simp: JoinRoom_def)
  next
    case (Inr t)
    with ch have s1: "rok (lb_rooms s1)" "uok (lb_users s1)" "user_fits (jt_user t)"
      and wf: "\<And>i r. rooms (lb_rooms s1) i = Some r \<Longrightarrow> room_wf r" by (auto simp: lobby_ok_def)
    from assms(3) c Inr have m: "join_commit deps now req t s1 = (s', resp)" by (simp add: JoinRoom_def)
    have "users (lb_users s') = users (lb_users s1) \<and> bp_Code resp \<in> {0, - 10, - 11} \<and>
        changed (jt_roomID t) (add_player now (first_player now (jt_user t) (GetUserId (br_Header req)) 0))
          (rooms (lb_rooms s1)) (rooms (lb_rooms s')) (bp_Code resp = - 10)"
      using join_commit_effect [OF s1(1,2) now s1(3) _ m] wf wf_small by blast
    moreover have "rp_UserID (first_player now (jt_user t) (GetUserId (br_Header req)) 0) = GetUserId (br_Header req)"
      by (simp add: first_player_def)
    ultimately show ?thesis using ch Inr unfolding changed_def by auto
  qed
qed

text \<open>Two joins whose checks both ran before either wrote.\<close>

lemma joins_overfill:
  assumes "ok s" and now: "int_fits 64 (time_unix now1)" "int_fits 64 (time_unix now2)"
    and c1: "join_check deps req1 s = (s1, Inr t1)" and c2: "join_check deps req2 s1 = (s2, Inr t2)"
    and same: "jt_roomID t2 = jt_roomID t1" and last: "ro_CurrentPlayers (jt_room t1) + 1 = ro_MaxPlayers (jt_room t1)"
    and m1: "join_commit deps now1 req1 t1 s2 = (s3, resp1)" and m2: "join_commit deps now2 req2 t2 s3 = (s4, resp2)"
    and fin: "bp_Code resp1 \<noteq> - 10" "bp_Code resp2 \<noteq> - 10"
  shows "\<exists>r. rooms (lb_rooms s4) (jt_roomID t1) = Some r \<and> ro_CurrentPlayers r = ro_MaxPlayers r + 1"
proof -
  note e1 = join_check_effect [OF assms(1) c1, simplified]
  then have "ok s1" by simp
  note e2 = join_check_effect [OF \<open>ok s1\<close> c2, simplified]
  let ?a = "\<lambda>now t req. add_player now (first_player now (jt_user t) (GetUserId (br_Header req)) 0)"
  have r: "rooms (lb_rooms s2) (jt_roomID t1) = Some (jt_room t1)" using e1 e2 by simp
  have s2: "rok (lb_rooms s2)" "uok (lb_users s2)" using e2 by (simp_all add: lobby_ok_def)
  have wf: "room_wf (jt_room t1)" using e1 assms(1) by (auto simp: lobby_ok_def)
  have m: "rok (lb_rooms s3) \<and> uok (lb_users s3) \<and>
      changed (jt_roomID t1) (?a now1 t1 req1) (rooms (lb_rooms s2)) (rooms (lb_rooms s3)) (bp_Code resp1 = - 10)"
    using join_commit_effect [OF s2 now(1) _ _ m1] e1 r wf_small [OF wf] by auto
  then have r3: "rooms (lb_rooms s3) (jt_roomID t1) = Some (?a now1 t1 req1 (jt_room t1))"
    using r fin by (simp add: changed_def)
  have "int_fits 32 (ro_CurrentPlayers (?a now1 t1 req1 (jt_room t1)) + 1)"
    using wf by (simp add: room_wf_def add_player_def int_fits_def)
  then have "changed (jt_roomID t1) (?a now2 t2 req2) (rooms (lb_rooms s3)) (rooms (lb_rooms s4)) (bp_Code resp2 = - 10)"
    using join_commit_effect [OF _ _ now(2) _ _ m2] m e2 r3 same by auto
  with r3 fin last show ?thesis by (simp add: changed_def add_player_def)
qed

text \<open>The owner of a room with other players leaves it, and the handler reports success.\<close>

lemma owner_leaves:
  assumes "ok s" and "LeaveRoom deps now req s = (s', resp)" and "bp_Code resp = 0"
    and rq: "lc_join (ld_codec deps) (br_Data req) = Inr rq" and r: "rooms (lb_rooms s) (jq_RoomId rq) = Some room"
    and own: "ro_OwnerID room = GetUserId (br_Header req)" and more: "1 < ro_CurrentPlayers room"
  shows "\<exists>r. rooms (lb_rooms s') (jq_RoomId rq) = Some r \<and>
    (ro_Players r = ro_Players room \<and> ro_OwnerID r \<noteq> ro_OwnerID room \<or>
     ro_OwnerID r = ro_OwnerID room \<and> ro_OwnerID room \<notin> rp_UserID ` set (ro_Players r))"
proof -
  let ?uid = "GetUserId (br_Header req)" and ?i = "jq_RoomId rq"
  have s: "rok (lb_rooms s)" "uok (lb_users s)" and wf: "room_wf room"
    using assms(1) r by (auto simp: lobby_ok_def)
  obtain c1 y where g: "rr_GetRoomByID (ld_rooms deps) ?i (lb_rooms s) = (c1, y)" by fastforce
  obtain u1 z where u: "ur_GetByUserID (ld_users deps) ?uid (lb_users s) = (u1, z)" by fastforce
  obtain c2 resp2 where l: "leave_owner deps now req ?uid ?i room c1 = (c2, resp2)" by fastforce
  have y: "?uid \<noteq> 0 \<and> y = Inr room \<and> (\<exists>p \<in> set (ro_Players room). rp_UserID p = ?uid) \<and> lb_rooms s' = c2 \<and> resp2 = resp"
    using assms(2,3) rooms.get [OF s(1) g] rq r own
    by (auto simp: LeaveRoom_def Let_def g u l split: if_splits sum.splits)
  have c1: "rok c1" "rooms c1 ?i = Some room" using rooms.get [OF s(1) g] y r by auto
  have other: "other_player ?uid room \<noteq> 0 \<and> other_player ?uid room \<noteq> ?uid"
  proof -
    have "\<exists>p \<in> set (ro_Players room). rp_UserID p \<noteq> ?uid"
    proof (rule ccontr)
      assume "\<not> ?thesis"
      then have "rp_UserID ` set (ro_Players room) \<subseteq> {?uid}" by auto
      then have "card (rp_UserID ` set (ro_Players room)) \<le> 1" by (metis card_mono card.empty card_insert_if finite.intros empty_iff One_nat_def)
      moreover have "length (ro_Players room) = card (rp_UserID ` set (ro_Players room))"
        using wf distinct_card [of "map rp_UserID (ro_Players room)"] by (simp add: room_wf_def)
      ultimately show False using more wf by (simp add: room_wf_def)
    qed
    then obtain p where "List.find (\<lambda>p. rp_UserID p \<noteq> ?uid) (ro_Players room) = Some p"
      by (cases "List.find (\<lambda>p. rp_UserID p \<noteq> ?uid) (ro_Players room)") (auto simp: find_None_iff)
    moreover from this have "p \<in> set (ro_Players room) \<and> rp_UserID p \<noteq> ?uid" by (auto simp: find_Some_iff)
    ultimately show ?thesis using wf by (auto simp: other_player_def room_wf_def)
  qed
  obtain c3 e3 where m: "rr_RemovePlayerFromRoom (ld_rooms deps) now ?i ?uid c1 = (c3, e3)" by fastforce
  obtain c4 e4 where w: "rr_UpdateRoom (ld_rooms deps) now (room\<lparr>ro_OwnerID := other_player ?uid room\<rparr>) c3 = (c4, e4)" by fastforce
  have e3: "e3 = None \<and> c2 = c4" using l more other assms(3) y by (auto simp: leave_owner_def m w Let_def split: option.splits)
  have small: "\<And>r. rooms c1 ?i = Some r \<Longrightarrow> int_fits 32 (ro_CurrentPlayers r - 1)" using c1 wf wf_small by auto
  have c3: "rok c3" "rooms c3 ?i = Some (remove_player now ?uid room)"
    using rooms.remove [OF c1(1) _ small m] y e3 c1(2) by (auto simp: changed_def)
  have rf: "room_fits (room\<lparr>ro_OwnerID := other_player ?uid room\<rparr>)" "ro_RoomID room = ?i"
    using rooms.fits [OF s(1) r] by (simp_all add: room_fits_def)
  from rooms.update [OF c3(1) rf(1) w] c3(2) rf(2)
  have "rooms c4 ?i \<in> {Some (replace_room now (room\<lparr>ro_OwnerID := other_player ?uid room\<rparr>) (remove_player now ?uid room)),
      Some (remove_player now ?uid room)}" by (auto simp: changed_def)
  with y e3 other own show ?thesis
    by (auto simp: replace_room_def stored_room_def remove_player_def)
qed

end

subsection \<open>The service on MongoDB\<close>

definition codec_ok :: "lobby_codec \<Rightarrow> bool" where
  "codec_ok codec \<longleftrightarrow> (\<forall>data rq. lc_create codec data = Inr rq \<longrightarrow> int_fits 32 (cq_GameType rq) \<and> int_fits 32 (cq_MaxPlayers rq))"

lemma lobby_on_mongo:
  assumes "room_collection rops rdocs rvalid" and "user_collection uops udocs uvalid" and "codec_ok codec"
  shows "lobby_service (NewLobbyServer rops uops codec) (rooms_in rdocs) (rooms_valid rdocs rvalid) (users_in udocs) (users_valid udocs uvalid)"
  using room_collection.is_store [OF assms(1)] user_collection.is_store [OF assms(2)] assms(3)
  by (auto simp: lobby_service_def lobby_service_axioms_def NewLobbyServer_def codec_ok_def)

text \<open>A consistent state of the service: valid collections whose rooms are all consistent.\<close>

definition lobby_state_ok ::
  "('c \<Rightarrow> doc list) \<Rightarrow> ('c \<Rightarrow> bool) \<Rightarrow> ('d \<Rightarrow> doc list) \<Rightarrow> ('d \<Rightarrow> bool) \<Rightarrow> ('c, 'd) lobby \<Rightarrow> bool" where
  "lobby_state_ok rdocs rvalid udocs uvalid s \<longleftrightarrow>
     lobby_ok (rooms_in rdocs) (rooms_valid rdocs rvalid) (users_valid udocs uvalid) s"

lemma initial_ok:
  "rvalid c \<Longrightarrow> rdocs c = [] \<Longrightarrow> uvalid d \<Longrightarrow> user_rows_ok (udocs d) \<Longrightarrow> lobby_state_ok rdocs rvalid udocs uvalid (initial_lobby c d)"
  by (simp add: lobby_state_ok_def lobby_ok_def initial_lobby_def rooms_valid_def users_valid_def room_rows_ok_def rows_ok_def
      unique_on_def rooms_in_def view_def)

text \<open>A lobby on two collections in memory, with a codec for the witnesses.\<close>

text \<open>Requests are written with one byte for the room number; a creation asks for two players.\<close>

definition demo_codec :: lobby_codec where
  "demo_codec = \<lparr>
     lc_create = (\<lambda>_. Inr \<lparr>cq_RoomName = ''den'', cq_GameType = 1, cq_MaxPlayers = 2, cq_IsPrivate = False, cq_Password = []\<rparr>),
     lc_join = (\<lambda>d. case d of [] \<Rightarrow> Inl ''short'' | b # _ \<Rightarrow> Inr \<lparr>jq_RoomId = 1000 + ucast b, jq_Password = []\<rparr>),
     lc_room_info = (\<lambda>_. Inr []), lc_room_list = (\<lambda>_. Inr []), lc_response = (\<lambda>_. Inr [])\<rparr>"

abbreviation "demo_deps \<equiv> NewLobbyServer (mem_ops [''room_id'']) (mem_ops [''user_id'', ''username'']) demo_codec"

definition demo_lobby :: "(mem_coll, mem_coll) lobby" where
  "demo_lobby = initial_lobby \<lparr>mc_docs = [], mc_next = 0\<rparr> demo_users"

lemma demo_codec_ok: "codec_ok demo_codec"
  by (simp add: codec_ok_def demo_codec_def int_fits_def)

interpretation mem_lobby: lobby_service demo_deps "rooms_in mc_docs" "rooms_valid mc_docs (\<lambda>c. uniques [''room_id''] (mc_docs c))"
  "users_in mc_docs" "users_valid mc_docs (\<lambda>c. uniques [''user_id'', ''username''] (mc_docs c))"
  by (rule lobby_on_mongo) (unfold_locales, rule demo_codec_ok)

lemma demo_lobby_ok:
  "lobby_state_ok mc_docs (\<lambda>c. uniques [''room_id''] (mc_docs c)) mc_docs (\<lambda>c. uniques [''user_id'', ''username''] (mc_docs c)) demo_lobby"
  unfolding demo_lobby_def
  by (rule initial_ok) (use demo_users_ok in \<open>simp_all add: uniques_def unique_on_def\<close>)

definition "demo_calls = [CallCreate unix_epoch (demo_req 7 []), CallJoin unix_epoch (demo_req 8 [0])]"

subsection \<open>Properties\<close>

text \<open>
  C8: Whatever the sequence of list, create, join and leave calls on a lobby that starts with no
  room, on any MongoDB collections, every room it stores has between 2 and 8 seats, counts exactly
  the players it lists, never more than its seats, and lists nobody twice.
\<close>

theorem lobby_rooms_consistent:
  assumes "room_collection rops rdocs rvalid" and "user_collection uops udocs uvalid" and "codec_ok codec"
    and "rvalid c" and "rdocs c = []" and "uvalid d" and "user_rows_ok (udocs d)"
    and "\<forall>call \<in> set calls. call_time_ok call"
    and "rooms_in rdocs (lb_rooms (fold (lobby_step (NewLobbyServer rops uops codec)) calls (initial_lobby c d))) i = Some r"
  shows "ro_CurrentPlayers r = int (length (ro_Players r)) \<and> ro_CurrentPlayers r \<le> ro_MaxPlayers r \<and>
    2 \<le> ro_MaxPlayers r \<and> ro_MaxPlayers r \<le> 8 \<and> distinct (map rp_UserID (ro_Players r))"
proof -
  have "room_wf r"
    using lobby_service.run_keeps [OF lobby_on_mongo [OF assms(1-3)]
        initial_ok [of rvalid c rdocs uvalid d udocs, OF assms(4-7), unfolded lobby_state_ok_def] assms(8)] assms(9)
    unfolding lobby_ok_def by blast
  then show ?thesis by (simp add: room_wf_def)
qed

lemma lobby_rooms_consistent_witness:
  "\<exists>r. rooms_in mc_docs (lb_rooms (fold (lobby_step demo_deps) demo_calls demo_lobby)) 1000 = Some r \<and>
     ro_CurrentPlayers r = 2 \<and> length (ro_Players r) = 2 \<and> ro_CurrentPlayers r \<le> ro_MaxPlayers r"
proof -
  have "rooms_in mc_docs (lb_rooms (fold (lobby_step demo_deps) demo_calls demo_lobby)) 1000 \<noteq> None \<and>
      ro_CurrentPlayers (the (rooms_in mc_docs (lb_rooms (fold (lobby_step demo_deps) demo_calls demo_lobby)) 1000)) = 2" by code_simp
  then obtain r where r: "rooms_in mc_docs (lb_rooms (fold (lobby_step demo_deps) demo_calls demo_lobby)) 1000 = Some r"
    "ro_CurrentPlayers r = 2" by auto
  have "\<forall>call \<in> set demo_calls. call_time_ok call" by (simp add: demo_calls_def int_fits_def time_unix_def unix_epoch_def)
  from lobby_rooms_consistent [OF mem_rooms.room_collection_axioms mem_users.user_collection_axioms demo_codec_ok _ _ demo_users_ok(2,1) this
      r(1) [unfolded demo_lobby_def]] r
  show ?thesis by (simp add: uniques_def unique_on_def)
qed


definition "demo_waiting = fst (CreateRoom demo_deps unix_epoch (demo_req 7 []) demo_lobby)"

lemma demo_waiting_ok:
  "lobby_state_ok mc_docs (\<lambda>c. uniques [''room_id''] (mc_docs c)) mc_docs (\<lambda>c. uniques [''user_id'', ''username''] (mc_docs c)) demo_waiting"
  using mem_lobby.step_keeps [OF demo_lobby_ok [unfolded lobby_state_ok_def], of "CallCreate unix_epoch (demo_req 7 [])"]
  by (simp add: lobby_state_ok_def demo_waiting_def int_fits_def time_unix_def unix_epoch_def)

lemma epoch_fits [simp]: "int_fits 64 (time_unix unix_epoch)"
  by (simp add: int_fits_def time_unix_def unix_epoch_def)


text \<open>
  The seat check and the write of \<^verbatim>\<open>JoinRoom\<close> are two database calls: when the checks of two joins
  run before either writes, a room with one free seat takes both players and ends with one more than
  its seats.
\<close>

theorem concurrent_joins_overfill:
  assumes "room_collection rops rdocs rvalid" and "user_collection uops udocs uvalid" and "codec_ok codec"
    and "lobby_state_ok rdocs rvalid udocs uvalid s" and "int_fits 64 (time_unix now1)" and "int_fits 64 (time_unix now2)"
    and "join_check (NewLobbyServer rops uops codec) req1 s = (s1, Inr t1)"
    and "join_check (NewLobbyServer rops uops codec) req2 s1 = (s2, Inr t2)"
    and "jt_roomID t2 = jt_roomID t1" and "ro_CurrentPlayers (jt_room t1) + 1 = ro_MaxPlayers (jt_room t1)"
    and "join_commit (NewLobbyServer rops uops codec) now1 req1 t1 s2 = (s3, resp1)"
    and "join_commit (NewLobbyServer rops uops codec) now2 req2 t2 s3 = (s4, resp2)"
    and "bp_Code resp1 \<noteq> - 10" and "bp_Code resp2 \<noteq> - 10"
  shows "\<exists>r. rooms_in rdocs (lb_rooms s4) (jt_roomID t1) = Some r \<and> ro_CurrentPlayers r = ro_MaxPlayers r + 1"
  by (rule lobby_service.joins_overfill [OF lobby_on_mongo [OF assms(1-3)] assms(4) [unfolded lobby_state_ok_def] assms(5-14)])

definition "demo_check1 = join_check demo_deps (demo_req 8 [0]) demo_waiting"
definition "demo_check2 = join_check demo_deps (demo_req 9 [0]) (fst demo_check1)"
definition "demo_ticket1 = projr (snd demo_check1)"
definition "demo_ticket2 = projr (snd demo_check2)"
definition "demo_join1 = join_commit demo_deps unix_epoch (demo_req 8 [0]) demo_ticket1 (fst demo_check2)"
definition "demo_join2 = join_commit demo_deps unix_epoch (demo_req 9 [0]) demo_ticket2 (fst demo_join1)"

lemma concurrent_joins_overfill_witness:
  "\<exists>r. rooms_in mc_docs (lb_rooms (fst demo_join2)) 1000 = Some r \<and> ro_CurrentPlayers r = ro_MaxPlayers r + 1"
proof -
  have chk: "\<not> isl (snd demo_check1)" "\<not> isl (snd demo_check2)" by (code_simp, code_simp)
  have id: "jt_roomID demo_ticket1 = 1000" "jt_roomID demo_ticket2 = 1000" by (code_simp, code_simp)
  have seat: "ro_CurrentPlayers (jt_room demo_ticket1) + 1 = ro_MaxPlayers (jt_room demo_ticket1)" by code_simp
  have codes: "bp_Code (snd demo_join1) \<noteq> - 10" "bp_Code (snd demo_join2) \<noteq> - 10" by (code_simp, code_simp)
  have c1: "join_check demo_deps (demo_req 8 [0]) demo_waiting = (fst demo_check1, Inr demo_ticket1)"
    using chk(1) by (simp add: demo_ticket1_def demo_check1_def [symmetric] prod_eq_iff)
  have c2: "join_check demo_deps (demo_req 9 [0]) (fst demo_check1) = (fst demo_check2, Inr demo_ticket2)"
    using chk(2) by (simp add: demo_ticket2_def demo_check2_def [symmetric] prod_eq_iff)
  have m1: "join_commit demo_deps unix_epoch (demo_req 8 [0]) demo_ticket1 (fst demo_check2) = (fst demo_join1, snd demo_join1)"
    and m2: "join_commit demo_deps unix_epoch (demo_req 9 [0]) demo_ticket2 (fst demo_join1) = (fst demo_join2, snd demo_join2)"
    by (simp_all add: demo_join1_def demo_join2_def)
  from concurrent_joins_overfill [OF mem_rooms.room_collection_axioms mem_users.user_collection_axioms demo_codec_ok demo_waiting_ok
      epoch_fits epoch_fits c1 c2 _ seat m1 m2 codes] id
  show ?thesis by simp
qed

text \<open>
  When the owner of a room with other players leaves and the handler reports success, the owner is
  still listed as a player (the room is written back as it was read, with a new owner), or, when that
  write fails, has gone but still owns the room.
\<close>

theorem owner_leave_stays:
  assumes "room_collection rops rdocs rvalid" and "user_collection uops udocs uvalid" and "codec_ok codec"
    and "lobby_state_ok rdocs rvalid udocs uvalid s"
    and "LeaveRoom (NewLobbyServer rops uops codec) now req s = (s', resp)" and "bp_Code resp = 0"
    and "lc_join codec (br_Data req) = Inr rq" and "rooms_in rdocs (lb_rooms s) (jq_RoomId rq) = Some room"
    and "ro_OwnerID room = GetUserId (br_Header req)" and "1 < ro_CurrentPlayers room"
  shows "\<exists>r. rooms_in rdocs (lb_rooms s') (jq_RoomId rq) = Some r \<and>
    (ro_Players r = ro_Players room \<and> ro_OwnerID r \<noteq> ro_OwnerID room \<or>
     ro_OwnerID r = ro_OwnerID room \<and> ro_OwnerID room \<notin> rp_UserID ` set (ro_Players r))"
  using lobby_service.owner_leaves [OF lobby_on_mongo [OF assms(1-3)] assms(4) [unfolded lobby_state_ok_def] assms(5,6) _ assms(8-10)] assms(7)
  by (simp add: NewLobbyServer_def)

definition "demo_joined = fst (JoinRoom demo_deps unix_epoch (demo_req 8 [0]) demo_waiting)"
definition "demo_left = LeaveRoom demo_deps unix_epoch (demo_req 7 [0]) demo_joined"

lemma owner_leave_stays_witness:
  "\<exists>r. rooms_in mc_docs (lb_rooms (fst demo_left)) 1000 = Some r \<and>
     (7 \<in> rp_UserID ` set (ro_Players r) \<and> ro_OwnerID r \<noteq> 7 \<or> ro_OwnerID r = 7 \<and> 7 \<notin> rp_UserID ` set (ro_Players r))"
proof -
  let ?m = "rooms_in mc_docs (lb_rooms demo_joined) 1000"
  have code: "bp_Code (snd demo_left) = 0" by code_simp
  have "?m \<noteq> None \<and> ro_OwnerID (the ?m) = 7 \<and> 1 < ro_CurrentPlayers (the ?m) \<and>
      7 \<in> rp_UserID ` set (ro_Players (the ?m))" by code_simp
  then obtain r where r: "?m = Some r" "ro_OwnerID r = 7" "1 < ro_CurrentPlayers r" "7 \<in> rp_UserID ` set (ro_Players r)" by auto
  have ok: "lobby_state_ok mc_docs (\<lambda>c. uniques [''room_id''] (mc_docs c)) mc_docs (\<lambda>c. uniques [''user_id'', ''username''] (mc_docs c)) demo_joined"
    using mem_lobby.step_keeps [OF demo_waiting_ok [unfolded lobby_state_ok_def], of "CallJoin unix_epoch (demo_req 8 [0])"]
    by (simp add: lobby_state_ok_def demo_joined_def)
  have rq: "lc_join demo_codec (br_Data (demo_req 7 [0])) = Inr \<lparr>jq_RoomId = 1000, jq_Password = []\<rparr>"
    by (simp add: demo_codec_def demo_req_def)
  have uid: "GetUserId (br_Header (demo_req 7 [0])) = 7" by (simp add: demo_req_def GetUserId_def)
  have l: "LeaveRoom demo_deps unix_epoch (demo_req 7 [0]) demo_joined = (fst demo_left, snd demo_left)" by (simp add: demo_left_def)
  from owner_leave_stays [OF mem_rooms.room_collection_axioms mem_users.user_collection_axioms demo_codec_ok ok l code rq, of r]
    r uid show ?thesis by force
qed

end
