(* ===== verification/Games.thy ===== *)
theory Games
  imports Records Users Protocol
begin

text \<open>
  \<^verbatim>\<open>internal/server/game_server.go\<close>: the games in memory, the four handlers of \<^verbatim>\<open>GameService\<close> over the user
  and the game record repository, and the helpers that run an action. The order in which Go ranges over
  the players of a game is not fixed, so every such loop takes it as an argument. Protobuf and JSON
  codecs are parameters. The maps of free data of a game and of a player are created empty and nothing
  writes to them. The locks make a handler one step on its game; logging is left out.
\<close>

subsection \<open>Games, requests and the state\<close>

text \<open>Values of \<^verbatim>\<open>map[string]interface{}\<close>: a number, a text, an object, or another value by its JSON text.\<close>

datatype json_value = JInt int | JStr string | JMap "(string \<times> json_value) list" | JOther string

record game_player =
  gy_UserID :: u64
  gy_Nickname :: string
  gy_Level :: int
  gy_Score :: int
  gy_Status :: int
  gy_Data :: json_value

record game_instance =
  gi_GameID :: u64
  gi_RoomID :: u64
  gi_GameType :: int
  gi_Status :: int
  gi_Players :: "u64 \<Rightarrow> game_player option"
  gi_CurrentPlayer :: u64
  gi_StartTime :: time
  gi_EndTime :: time
  gi_Winner :: u64
  gi_GameData :: json_value

record start_request =
  sq_RoomId :: u64
  sq_GameType :: int

record end_request =
  eq_GameId :: u64
  eq_Winner :: u64

record action_request =
  aq_GameId :: u64
  aq_ActionType :: int
  aq_ActionData :: "byte list"

record player_state_info =
  pi_UserId :: u64
  pi_Nickname :: string
  pi_Level :: int
  pi_Score :: int
  pi_Status :: int

record game_state_response =
  gp_GameId :: u64
  gp_Status :: int
  gp_CurrentPlayer :: u64
  gp_Players :: "player_state_info list"
  gp_GameData :: "byte list"

record game_codec =
  gk_start :: "byte list \<Rightarrow> string + start_request"
  gk_end :: "byte list \<Rightarrow> string + end_request"
  gk_action :: "byte list \<Rightarrow> string + action_request"
  gk_state :: "byte list \<Rightarrow> string + u64"
  gk_json_map :: "byte list \<Rightarrow> string + json_value"
  gk_json :: "json_value \<Rightarrow> string + byte list"
  gk_state_response :: "game_state_response \<Rightarrow> string + byte list"

record ('c, 'd) game_deps =
  gd_records :: "'c record_repo"
  gd_users :: "'d user_repo"
  gd_codec :: game_codec

record ('c, 'd) game_server =
  gv_records :: 'c
  gv_users :: 'd
  gv_games :: "u64 \<Rightarrow> game_instance option"
  gv_nextGameID :: u64

definition NewGameServer :: "'c mongo_ops \<Rightarrow> 'd mongo_ops \<Rightarrow> game_codec \<Rightarrow> ('c, 'd) game_deps" where
  "NewGameServer rops uops codec =
     \<lparr>gd_records = NewGameRecordRepository rops, gd_users = NewUserRepository uops, gd_codec = codec\<rparr>"

definition initial_games :: "'c \<Rightarrow> 'd \<Rightarrow> ('c, 'd) game_server" where
  "initial_games records users = \<lparr>gv_records = records, gv_users = users, gv_games = Map.empty, gv_nextGameID = 1\<rparr>"

definition generateGameID :: "('c, 'd) game_server \<Rightarrow> u64 \<times> ('c, 'd) game_server" where
  "generateGameID s = (gv_nextGameID s, s\<lparr>gv_nextGameID := gv_nextGameID s + 1\<rparr>)"

definition getGame :: "u64 \<Rightarrow> ('c, 'd) game_server \<Rightarrow> game_instance option" where
  "getGame gid s = gv_games s gid"

definition addGame :: "game_instance \<Rightarrow> ('c, 'd) game_server \<Rightarrow> ('c, 'd) game_server" where
  "addGame g s = s\<lparr>gv_games := (gv_games s)(gi_GameID g \<mapsto> g)\<rparr>"

definition removeGame :: "u64 \<Rightarrow> ('c, 'd) game_server \<Rightarrow> ('c, 'd) game_server" where
  "removeGame gid s = s\<lparr>gv_games := (gv_games s)(gid := None)\<rparr>"

text \<open>A handler that got a game by pointer writes to the game in the map.\<close>

definition put_game :: "u64 \<Rightarrow> game_instance \<Rightarrow> ('c, 'd) game_server \<Rightarrow> ('c, 'd) game_server" where
  "put_game gid g s = s\<lparr>gv_games := (gv_games s)(gid \<mapsto> g)\<rparr>"

definition ranged :: "u64 list \<Rightarrow> (u64 \<Rightarrow> 'a option) \<Rightarrow> 'a list" where
  "ranged order m = List.map_filter m order"

definition ok_data :: "base_request \<Rightarrow> string \<Rightarrow> byte list \<Rightarrow> base_response" where
  "ok_data req msg d = \<lparr>bp_Header = br_Header req, bp_Code = 0, bp_Msg = msg, bp_Data = d\<rparr>"

abbreviation "json_u64 u \<equiv> JInt (uint (u :: u64))"

subsection \<open>StartGame\<close>

definition first_game_player :: "u64 \<Rightarrow> user \<Rightarrow> game_player" where
  "first_game_player uid user = \<lparr>gy_UserID = uid, gy_Nickname = us_Nickname user, gy_Level = us_Level user, gy_Score = 0,
     gy_Status = 1, gy_Data = JMap []\<rparr>"

definition new_game :: "time \<Rightarrow> u64 \<Rightarrow> start_request \<Rightarrow> u64 \<Rightarrow> user \<Rightarrow> game_instance" where
  "new_game now gid rq uid user = \<lparr>gi_GameID = gid, gi_RoomID = sq_RoomId rq, gi_GameType = sq_GameType rq, gi_Status = 0,
     gi_Players = [uid \<mapsto> first_game_player uid user], gi_CurrentPlayer = uid, gi_StartTime = now, gi_EndTime = 0,
     gi_Winner = 0, gi_GameData = JMap []\<rparr>"

definition start_record :: "u64 \<Rightarrow> start_request \<Rightarrow> u64 \<Rightarrow> user \<Rightarrow> game_record" where
  "start_record gid rq uid user = \<lparr>gc_ID = None, gc_GameID = gid, gc_RoomID = sq_RoomId rq, gc_GameType = sq_GameType rq,
     gc_Players = [\<lparr>rk_UserID = uid, rk_Nickname = us_Nickname user, rk_Level = us_Level user, rk_Score = 0, rk_Rank = 0\<rparr>],
     gc_Winner = 0, gc_Duration = 0, gc_Status = 0, gc_GameData = [], gc_CreatedAt = 0, gc_UpdatedAt = 0\<rparr>"

definition StartGame :: "('c, 'd) game_deps \<Rightarrow> time \<Rightarrow> base_request \<Rightarrow> ('c, 'd) game_server \<Rightarrow> ('c, 'd) game_server \<times> base_response" where
  "StartGame deps now req s =
     (let uid = GetUserId (br_Header req) in
      if uid = 0 then (s, reply req (- 1) ''invalid user id'')
      else case gk_start (gd_codec deps) (br_Data req) of
        Inl _ \<Rightarrow> (s, reply req (- 2) ''invalid request data'')
      | Inr rq \<Rightarrow>
          if sq_RoomId rq = 0 then (s, reply req (- 3) ''invalid room id'')
          else case ur_GetByUserID (gd_users deps) uid (gv_users s) of
            (u1, Inl _) \<Rightarrow> (s\<lparr>gv_users := u1\<rparr>, reply req (- 4) ''user not found'')
          | (u1, Inr user) \<Rightarrow>
              (let (gid, s1) = generateGameID (s\<lparr>gv_users := u1\<rparr>);
                   s2 = addGame (new_game now gid rq uid user) s1;
                   (c1, _) = cr_CreateRecord (gd_records deps) now now (start_record gid rq uid user) (gv_records s2);
                   s3 = s2\<lparr>gv_records := c1\<rparr>
               in case gk_json (gd_codec deps) (JMap [(''game_id'', json_u64 gid), (''game_type'', JInt (sq_GameType rq)),
                      (''room_id'', json_u64 (sq_RoomId rq)), (''status'', JInt 0)]) of
                    Inl _ \<Rightarrow> (s3, reply req (- 5) ''failed to create response'')
                  | Inr d \<Rightarrow> (s3, ok_data req ''game started successfully'' d)))"

subsection \<open>EndGame\<close>

text \<open>
  \<^verbatim>\<open>int32(d.Seconds())\<close>: whole seconds towards zero (exact below half a year, where the float64 still has
  nanoseconds), and the smallest \<^verbatim>\<open>int32\<close> out of range, as amd64 converts.
\<close>

definition seconds32 :: "duration \<Rightarrow> int" where
  "seconds32 d = (let n = go_quot d second in if int_fits 32 n then n else - (2 ^ 31))"

definition ranked :: "u64 \<Rightarrow> game_player \<Rightarrow> ranked_player" where
  "ranked winner p = \<lparr>rk_UserID = gy_UserID p, rk_Nickname = gy_Nickname p, rk_Level = gy_Level p, rk_Score = gy_Score p,
     rk_Rank = (if gy_UserID p = winner then 1 else 2)\<rparr>"

definition end_record :: "u64 list \<Rightarrow> u64 \<Rightarrow> u64 \<Rightarrow> int \<Rightarrow> game_instance \<Rightarrow> game_record" where
  "end_record order gid winner dur g = \<lparr>gc_ID = None, gc_GameID = gid, gc_RoomID = gi_RoomID g, gc_GameType = gi_GameType g,
     gc_Players = map (ranked winner) (ranged order (gi_Players g)), gc_Winner = winner, gc_Duration = dur, gc_Status = 1,
     gc_GameData = [], gc_CreatedAt = 0, gc_UpdatedAt = 0\<rparr>"

definition EndGame :: "('c, 'd) game_deps \<Rightarrow> time \<Rightarrow> u64 list \<Rightarrow> base_request \<Rightarrow> ('c, 'd) game_server \<Rightarrow>
    ('c, 'd) game_server \<times> base_response" where
  "EndGame deps now order req s =
     (let uid = GetUserId (br_Header req) in
      if uid = 0 then (s, reply req (- 1) ''invalid user id'')
      else case gk_end (gd_codec deps) (br_Data req) of
        Inl _ \<Rightarrow> (s, reply req (- 2) ''invalid request data'')
      | Inr rq \<Rightarrow>
          if eq_GameId rq = 0 then (s, reply req (- 3) ''invalid game id'')
          else case getGame (eq_GameId rq) s of
            None \<Rightarrow> (s, reply req (- 4) ''game not found'')
          | Some g \<Rightarrow>
              if gi_Players g uid = None then (s, reply req (- 5) ''user not in game'')
              else if gi_Status g = 2 then (s, reply req (- 6) ''game already ended'')
              else
                (let g' = g\<lparr>gi_Status := 2, gi_EndTime := now, gi_Winner := eq_Winner rq\<rparr>;
                     dur = seconds32 (now - gi_StartTime g);
                     (c1, _) = cr_UpdateRecord (gd_records deps) now (end_record order (eq_GameId rq) (eq_Winner rq) dur g') (gv_records s);
                     s' = put_game (eq_GameId rq) g' (s\<lparr>gv_records := c1\<rparr>)
                 in case gk_json (gd_codec deps) (JMap [(''duration'', JInt dur), (''end_time'', JInt (time_unix now)),
                        (''game_id'', json_u64 (eq_GameId rq)), (''winner'', json_u64 (eq_Winner rq))]) of
                      Inl _ \<Rightarrow> (s', reply req (- 7) ''failed to create response'')
                    | Inr d \<Rightarrow> (s', ok_data req ''game ended successfully'' d)))"

subsection \<open>PlayerAction\<close>

definition active_ids :: "u64 list \<Rightarrow> game_instance \<Rightarrow> u64 list" where
  "active_ids order g = map gy_UserID (filter (\<lambda>p. gy_Status p \<noteq> 3) (ranged order (gi_Players g)))"

definition switchToNextPlayer :: "u64 list \<Rightarrow> game_instance \<Rightarrow> game_instance" where
  "switchToNextPlayer order g =
     (let ids = active_ids order g in
      if length ids \<le> 1 then g
      else case find_index (\<lambda>i. i = gi_CurrentPlayer g) ids of
          None \<Rightarrow> g
        | Some k \<Rightarrow> g\<lparr>gi_CurrentPlayer := ids ! ((k + 1) mod length ids)\<rparr>)"

definition put_player :: "u64 \<Rightarrow> game_player \<Rightarrow> game_instance \<Rightarrow> game_instance" where
  "put_player uid p g = g\<lparr>gi_Players := (gi_Players g)(uid \<mapsto> p)\<rparr>"

definition add_score :: "int \<Rightarrow> game_player \<Rightarrow> game_player" where
  "add_score n p = p\<lparr>gy_Score := wrap_i64 (gy_Score p + n)\<rparr>"

definition handlePlayCard :: "game_codec \<Rightarrow> u64 list \<Rightarrow> u64 \<Rightarrow> game_player \<Rightarrow> byte list \<Rightarrow> game_instance \<Rightarrow>
    game_instance \<times> (string + json_value)" where
  "handlePlayCard codec order uid p data g =
     (case gk_json_map codec data of
        Inl e \<Rightarrow> (g, Inl (errorf ''invalid card data'' e))
      | Inr v \<Rightarrow>
          (let p' = add_score 10 p
           in (switchToNextPlayer order (put_player uid p' g),
               Inr (JMap [(''action'', JStr ''play_card''), (''card'', v), (''score'', JInt (gy_Score p'))]))))"

definition handleUseSkill :: "game_codec \<Rightarrow> u64 \<Rightarrow> game_player \<Rightarrow> byte list \<Rightarrow> game_instance \<Rightarrow>
    game_instance \<times> (string + json_value)" where
  "handleUseSkill codec uid p data g =
     (case gk_json_map codec data of
        Inl e \<Rightarrow> (g, Inl (errorf ''invalid skill data'' e))
      | Inr v \<Rightarrow>
          (let p' = add_score 20 p
           in (put_player uid p' g, Inr (JMap [(''action'', JStr ''use_skill''), (''score'', JInt (gy_Score p')), (''skill'', v)]))))"

definition handleEndTurn :: "u64 list \<Rightarrow> game_instance \<Rightarrow> game_instance \<times> (string + json_value)" where
  "handleEndTurn order g =
     (let g' = switchToNextPlayer order g
      in (g', Inr (JMap [(''action'', JStr ''end_turn''), (''current_player'', json_u64 (gi_CurrentPlayer g'))])))"

definition handleSurrender :: "time \<Rightarrow> u64 list \<Rightarrow> u64 \<Rightarrow> game_player \<Rightarrow> game_instance \<Rightarrow> game_instance \<times> (string + json_value)" where
  "handleSurrender now order uid p g =
     (let g1 = put_player uid (p\<lparr>gy_Status := 3\<rparr>) g;
          ids = active_ids order g1;
          g2 = (if length ids \<le> 1 then g1\<lparr>gi_Status := 2, gi_Winner := (if ids = [] then 0 else last ids), gi_EndTime := now\<rparr> else g1)
      in (g2, Inr (JMap [(''action'', JStr ''surrender''), (''game_status'', JInt (gi_Status g2)), (''winner'', json_u64 (gi_Winner g2))])))"

text \<open>The dispatch on the type; \<open>None\<close> is the default case.\<close>

definition run_action :: "game_codec \<Rightarrow> time \<Rightarrow> u64 list \<Rightarrow> u64 \<Rightarrow> game_player \<Rightarrow> action_request \<Rightarrow> game_instance \<Rightarrow>
    (game_instance \<times> (string + json_value)) option" where
  "run_action codec now order uid p rq g =
     (if aq_ActionType rq = 1 then Some (handlePlayCard codec order uid p (aq_ActionData rq) g)
      else if aq_ActionType rq = 2 then Some (handleUseSkill codec uid p (aq_ActionData rq) g)
      else if aq_ActionType rq = 3 then Some (handleEndTurn order g)
      else if aq_ActionType rq = 4 then Some (handleSurrender now order uid p g)
      else None)"

definition PlayerAction :: "('c, 'd) game_deps \<Rightarrow> time \<Rightarrow> u64 list \<Rightarrow> base_request \<Rightarrow> ('c, 'd) game_server \<Rightarrow>
    ('c, 'd) game_server \<times> base_response" where
  "PlayerAction deps now order req s =
     (let uid = GetUserId (br_Header req) in
      if uid = 0 then (s, reply req (- 1) ''invalid user id'')
      else case gk_action (gd_codec deps) (br_Data req) of
        Inl _ \<Rightarrow> (s, reply req (- 2) ''invalid request data'')
      | Inr rq \<Rightarrow>
          if aq_GameId rq = 0 then (s, reply req (- 3) ''invalid game id'')
          else case getGame (aq_GameId rq) s of
            None \<Rightarrow> (s, reply req (- 4) ''game not found'')
          | Some g \<Rightarrow>
              (case gi_Players g uid of
                 None \<Rightarrow> (s, reply req (- 5) ''user not in game'')
               | Some p \<Rightarrow>
                   if gi_Status g \<noteq> 1 then (s, reply req (- 6) ''game not in progress'')
                   else if gi_CurrentPlayer g \<noteq> uid then (s, reply req (- 7) ''not your turn'')
                   else case run_action (gd_codec deps) now order uid p rq g of
                     None \<Rightarrow> (s, reply req (- 8) ''unknown action type'')
                   | Some (g', Inl e) \<Rightarrow> (put_game (aq_GameId rq) g' s, reply req (- 9) (errorf ''action failed'' e))
                   | Some (g', Inr result) \<Rightarrow>
                       (case gk_json (gd_codec deps) (JMap [(''action_result'', result), (''action_type'', JInt (aq_ActionType rq)),
                            (''current_player'', json_u64 (gi_CurrentPlayer g')), (''game_id'', json_u64 (aq_GameId rq)),
                            (''game_status'', JInt (gi_Status g'))]) of
                          Inl _ \<Rightarrow> (put_game (aq_GameId rq) g' s, reply req (- 10) ''failed to create response'')
                        | Inr d \<Rightarrow> (put_game (aq_GameId rq) g' s, ok_data req ''action processed successfully'' d))))"

subsection \<open>GetGameState\<close>

definition player_state :: "game_player \<Rightarrow> player_state_info" where
  "player_state p = \<lparr>pi_UserId = gy_UserID p, pi_Nickname = gy_Nickname p, pi_Level = gy_Level p, pi_Score = gy_Score p,
     pi_Status = gy_Status p\<rparr>"

definition GetGameState :: "('c, 'd) game_deps \<Rightarrow> u64 list \<Rightarrow> base_request \<Rightarrow> ('c, 'd) game_server \<Rightarrow> base_response" where
  "GetGameState deps order req s =
     (let uid = GetUserId (br_Header req) in
      if uid = 0 then reply req (- 1) ''invalid user id''
      else case gk_state (gd_codec deps) (br_Data req) of
        Inl _ \<Rightarrow> reply req (- 2) ''invalid request data''
      | Inr gid \<Rightarrow>
          if gid = 0 then reply req (- 3) ''invalid game id''
          else case getGame gid s of
            None \<Rightarrow> reply req (- 4) ''game not found''
          | Some g \<Rightarrow>
              if gi_Players g uid = None then reply req (- 5) ''user not in game''
              else
                (let d = (case gk_json (gd_codec deps) (gi_GameData g) of Inl _ \<Rightarrow> string_bytes ''{}'' | Inr d \<Rightarrow> d);
                     resp = \<lparr>gp_GameId = gid, gp_Status = gi_Status g, gp_CurrentPlayer = gi_CurrentPlayer g,
                       gp_Players = map player_state (ranged order (gi_Players g)), gp_GameData = d\<rparr>
                 in case gk_state_response (gd_codec deps) resp of
                      Inl _ \<Rightarrow> reply req (- 6) ''failed to create response''
                    | Inr b \<Rightarrow> ok_data req ''success'' b))"

subsection \<open>The turn\<close>

definition players_keyed :: "game_instance \<Rightarrow> bool" where
  "players_keyed g \<longleftrightarrow> (\<forall>u p. gi_Players g u = Some p \<longrightarrow> gy_UserID p = u)"

text \<open>A range over a map visits every key once, in some order.\<close>

definition range_of :: "u64 list \<Rightarrow> (u64 \<Rightarrow> 'a option) \<Rightarrow> bool" where
  "range_of order m \<longleftrightarrow> distinct order \<and> set order = dom m"

definition active_players :: "game_instance \<Rightarrow> u64 set" where
  "active_players g = {u. \<exists>p. gi_Players g u = Some p \<and> gy_Status p \<noteq> 3}"

definition turn_passed :: "game_instance \<Rightarrow> u64 \<Rightarrow> bool" where
  "turn_passed g c \<longleftrightarrow>
     (if gi_CurrentPlayer g \<in> active_players g \<and> active_players g \<noteq> {gi_CurrentPlayer g}
      then c \<in> active_players g - {gi_CurrentPlayer g} else c = gi_CurrentPlayer g)"

lemma ranged_set: "set (ranged order m) = {x. \<exists>k \<in> set order. m k = Some x}"
  by (induction order) (auto simp: ranged_def map_filter_def split: option.splits)

lemma ranged_ids:
  "players_keyed g \<Longrightarrow> map gy_UserID (filter q (ranged order (gi_Players g))) =
     filter (\<lambda>u. \<exists>p. gi_Players g u = Some p \<and> q p) order"
  by (induction order) (auto simp: ranged_def map_filter_def players_keyed_def split: option.splits)

lemma active_ids_set:
  assumes "players_keyed g" and "range_of order (gi_Players g)"
  shows "distinct (active_ids order g) \<and> set (active_ids order g) = active_players g"
  using assms ranged_ids [OF assms(1), of "\<lambda>p. gy_Status p \<noteq> 3" order]
  by (auto simp: active_ids_def range_of_def active_players_def)

lemma active_ids_unchanged:
  "gi_Players g' = gi_Players g \<Longrightarrow> active_ids order g' = active_ids order g"
  by (simp add: active_ids_def)

lemma switch_keeps: "switchToNextPlayer order g = g\<lparr>gi_CurrentPlayer := gi_CurrentPlayer (switchToNextPlayer order g)\<rparr>"
  by (simp add: switchToNextPlayer_def Let_def split: option.splits)

lemma next_index:
  assumes "distinct xs" and "k < length xs" and "1 < length xs"
  shows "xs ! ((k + 1) mod length xs) \<in> set xs - {xs ! k}"
proof -
  have l: "(k + 1) mod length xs < length xs" by (rule mod_less_divisor) (use assms in auto)
  have "(k + 1) mod length xs \<noteq> k" using assms by (cases "k + 1 = length xs") auto
  then have "xs ! ((k + 1) mod length xs) \<noteq> xs ! k" using assms l by (simp add: nth_eq_iff_index_eq)
  with l show ?thesis by simp
qed

lemma switch_turn:
  assumes "players_keyed g" and "range_of order (gi_Players g)"
  shows "turn_passed g (gi_CurrentPlayer (switchToNextPlayer order g))"
proof -
  let ?ids = "active_ids order g"
  note ids = active_ids_set [OF assms]
  show ?thesis
  proof (cases "find_index (\<lambda>i. i = gi_CurrentPlayer g) ?ids")
    case None
    then have "gi_CurrentPlayer g \<notin> active_players g" using ids by (auto simp: find_index_None)
    with None show ?thesis by (simp add: turn_passed_def switchToNextPlayer_def Let_def)
  next
    case (Some k)
    note k = find_index_Some [OF Some]
    show ?thesis
    proof (cases "length ?ids \<le> 1")
      case True
      with k have "?ids = [gi_CurrentPlayer g]" by (cases ?ids) auto
      with ids have "active_players g = {gi_CurrentPlayer g}" by auto
      with True show ?thesis by (simp add: turn_passed_def switchToNextPlayer_def Let_def)
    next
      case False
      with k ids have n: "?ids ! ((k + 1) mod length ?ids) \<in> active_players g - {gi_CurrentPlayer g}"
        using next_index [of ?ids k] by auto
      have "gi_CurrentPlayer g \<in> active_players g" using k ids nth_mem by metis
      with n False Some show ?thesis by (auto simp: turn_passed_def switchToNextPlayer_def Let_def)
    qed
  qed
qed

subsection \<open>What a handler does\<close>

lemma put_game_games [simp]: "gv_games (put_game gid g s) = (gv_games s)(gid \<mapsto> g)"
  by (simp add: put_game_def)

text \<open>What a successful action does to the game, per type.\<close>

definition action_done :: "int \<Rightarrow> time \<Rightarrow> u64 \<Rightarrow> game_player \<Rightarrow> game_instance \<Rightarrow> game_instance \<Rightarrow> bool" where
  "action_done ty now uid p g g' \<longleftrightarrow>
     (if ty = 1 then turn_passed g (gi_CurrentPlayer g') \<and>
        g' = (put_player uid (add_score 10 p) g)\<lparr>gi_CurrentPlayer := gi_CurrentPlayer g'\<rparr>
      else if ty = 2 then g' = put_player uid (add_score 20 p) g
      else if ty = 3 then turn_passed g (gi_CurrentPlayer g') \<and> g' = g\<lparr>gi_CurrentPlayer := gi_CurrentPlayer g'\<rparr>
      else
        (let g1 = put_player uid (p\<lparr>gy_Status := 3\<rparr>) g in
         if \<exists>u v. u \<in> active_players g1 \<and> v \<in> active_players g1 \<and> u \<noteq> v then g' = g1
         else active_players g1 \<subseteq> {gi_Winner g'} \<and> (active_players g1 = {} \<longrightarrow> gi_Winner g' = 0) \<and>
           g' = g1\<lparr>gi_Status := 2, gi_Winner := gi_Winner g', gi_EndTime := now\<rparr>))"

lemma put_player_keyed:
  "players_keyed g \<Longrightarrow> gi_Players g uid = Some p \<Longrightarrow> gy_UserID q = gy_UserID p \<Longrightarrow> players_keyed (put_player uid q g)"
  by (auto simp: players_keyed_def put_player_def)

lemma put_player_range:
  "range_of order (gi_Players g) \<Longrightarrow> gi_Players g uid = Some p \<Longrightarrow> range_of order (gi_Players (put_player uid q g))"
  by (auto simp: range_of_def put_player_def)

lemma put_player_active:
  "gi_Players g uid = Some p \<Longrightarrow> gy_Status q = gy_Status p \<Longrightarrow> active_players (put_player uid q g) = active_players g"
  by (auto simp: active_players_def put_player_def)

lemma put_player_current [simp]: "gi_CurrentPlayer (put_player uid q g) = gi_CurrentPlayer g"
  by (simp add: put_player_def)

lemma turn_passed_put:
  "gi_Players g uid = Some p \<Longrightarrow> gy_Status q = gy_Status p \<Longrightarrow> turn_passed (put_player uid q g) c = turn_passed g c"
  by (simp add: turn_passed_def put_player_active)

lemma surrender_ids:
  assumes "players_keyed g" and "range_of order (gi_Players g)"
  shows "(length (active_ids order g) \<le> 1) = (\<not> (\<exists>u v. u \<in> active_players g \<and> v \<in> active_players g \<and> u \<noteq> v))"
    and "length (active_ids order g) \<le> 1 \<Longrightarrow>
      active_players g \<subseteq> {if active_ids order g = [] then 0 else last (active_ids order g)}"
proof -
  note ids = active_ids_set [OF assms]
  have "length (active_ids order g) = card (active_players g)" "finite (active_players g)"
    using ids by (auto simp: distinct_card [symmetric])
  then have "(length (active_ids order g) \<le> 1) = (\<forall>u \<in> active_players g. \<forall>v \<in> active_players g. u = v)"
    using card_le_Suc0_iff_eq [of "active_players g"] by simp
  then show "(length (active_ids order g) \<le> 1) = (\<not> (\<exists>u v. u \<in> active_players g \<and> v \<in> active_players g \<and> u \<noteq> v))"
    by blast
  show "active_players g \<subseteq> {if active_ids order g = [] then 0 else last (active_ids order g)}"
    if "length (active_ids order g) \<le> 1"
    using ids that by (cases "active_ids order g") auto
qed

lemma run_action_done:
  assumes "players_keyed g" and "range_of order (gi_Players g)" and "gi_Players g uid = Some p"
    and "run_action codec now order uid p rq g = Some (g', Inr result)"
  shows "action_done (aq_ActionType rq) now uid p g g' \<and> aq_ActionType rq \<in> {1, 2, 3, 4}"
proof -
  let ?s = "put_player uid (p\<lparr>gy_Status := 3\<rparr>) g" and ?c = "put_player uid (add_score 10 p) g"
  have k: "players_keyed ?s" "range_of order (gi_Players ?s)" "players_keyed ?c" "range_of order (gi_Players ?c)"
    using assms(1-3) by (auto intro!: put_player_keyed put_player_range simp: add_score_def)
  have c: "turn_passed g (gi_CurrentPlayer (switchToNextPlayer order ?c))"
    using switch_turn [OF k(3,4)] turn_passed_put [OF assms(3)] by (simp add: add_score_def)
  note s = surrender_ids [OF k(1,2)] and ids = active_ids_set [OF k(1,2)]
  consider "aq_ActionType rq = 1" | "aq_ActionType rq = 2" | "aq_ActionType rq = 3" | "aq_ActionType rq = 4"
    using assms(4) by (auto simp: run_action_def split: if_splits)
  then show ?thesis
  proof cases
    case 1
    with assms(4) have "g' = switchToNextPlayer order ?c"
      by (auto simp: run_action_def handlePlayCard_def Let_def split: sum.splits)
    with 1 c switch_keeps [of order ?c] show ?thesis by (simp add: action_done_def)
  next
    case 2
    with assms(4) show ?thesis
      by (auto simp: run_action_def handleUseSkill_def Let_def action_done_def split: sum.splits)
  next
    case 3
    with assms(4) switch_turn [OF assms(1,2)] switch_keeps [of order g] show ?thesis
      by (auto simp: run_action_def handleEndTurn_def Let_def action_done_def)
  next
    case 4
    let ?ids = "active_ids order ?s"
    from 4 assms(4) have g': "g' = (if length ?ids \<le> 1
        then ?s\<lparr>gi_Status := 2, gi_Winner := (if ?ids = [] then 0 else last ?ids), gi_EndTime := now\<rparr> else ?s)"
      by (auto simp: run_action_def handleSurrender_def Let_def)
    have "active_players ?s = {} \<Longrightarrow> ?ids = []" using ids by auto
    with 4 g' s show ?thesis by (auto simp: action_done_def Let_def)
  qed
qed

lemma action_effect:
  assumes "gk_action (gd_codec deps) (br_Data req) = Inr rq" and "getGame (aq_GameId rq) s = Some g"
    and "players_keyed g" and "range_of order (gi_Players g)" and "PlayerAction deps now order req s = (s', resp)"
  shows "if bp_Code resp \<in> {0, - 10}
    then gi_Status g = 1 \<and> gi_CurrentPlayer g = GetUserId (br_Header req) \<and>
      (\<exists>p g'. gi_Players g (gi_CurrentPlayer g) = Some p \<and> aq_ActionType rq \<in> {1, 2, 3, 4} \<and>
         action_done (aq_ActionType rq) now (gi_CurrentPlayer g) p g g' \<and> gv_games s' = (gv_games s)(aq_GameId rq \<mapsto> g'))
    else gv_games s' = gv_games s"
proof (cases "GetUserId (br_Header req) = 0 \<or> aq_GameId rq = 0 \<or> gi_Players g (GetUserId (br_Header req)) = None \<or>
    gi_Status g \<noteq> 1 \<or> gi_CurrentPlayer g \<noteq> GetUserId (br_Header req)")
  case True
  with assms show ?thesis by (auto simp: PlayerAction_def Let_def split: if_splits option.splits)
next
  case False
  let ?uid = "GetUserId (br_Header req)"
  from False obtain p where p: "gi_Players g ?uid = Some p" by auto
  have run: "run_action (gd_codec deps) now order ?uid p rq g = Some (g, Inl e)" if
    "run_action (gd_codec deps) now order ?uid p rq g = Some (g', Inl e)" for g' e
    using that by (auto simp: run_action_def handlePlayCard_def handleUseSkill_def handleEndTurn_def handleSurrender_def Let_def
        split: if_splits sum.splits)
  have same: "(gv_games s)(aq_GameId rq \<mapsto> g) = gv_games s" using assms(2) by (simp add: getGame_def fun_upd_idem)
  show ?thesis
  proof (cases "run_action (gd_codec deps) now order ?uid p rq g")
    case None
    with False assms p show ?thesis by (auto simp: PlayerAction_def Let_def)
  next
    case (Some r)
    obtain g' x where r: "r = (g', x)" by (cases r)
    show ?thesis
    proof (cases x)
      case (Inl e)
      with Some r run [of g' e] same False assms p show ?thesis by (auto simp: PlayerAction_def Let_def)
    next
      case (Inr result)
      note act = run_action_done [OF assms(3,4) p, of "gd_codec deps" now rq g' result]
      from Inr Some r False assms(1,2,5) p have "gv_games s' = (gv_games s)(aq_GameId rq \<mapsto> g')" "bp_Code resp \<in> {0, - 10}"
        by (auto simp: PlayerAction_def Let_def ok_data_def split: sum.splits)
      with act Inr Some r False p show ?thesis by auto
    qed
  qed
qed

lemma action_other_game:
  assumes "PlayerAction deps now order req s = (s', resp)" and "gk_action (gd_codec deps) (br_Data req) = Inr rq" and "aq_GameId rq \<noteq> gid"
  shows "gv_games s' gid = gv_games s gid"
  using assms by (auto simp: PlayerAction_def Let_def split: if_splits option.splits sum.splits)

lemma action_undecoded:
  "PlayerAction deps now order req s = (s', resp) \<Longrightarrow> gk_action (gd_codec deps) (br_Data req) = Inl e \<Longrightarrow> gv_games s' = gv_games s"
  by (auto simp: PlayerAction_def Let_def split: if_splits)

lemma action_no_game:
  "PlayerAction deps now order req s = (s', resp) \<Longrightarrow> gk_action (gd_codec deps) (br_Data req) = Inr rq \<Longrightarrow>
   getGame (aq_GameId rq) s = None \<Longrightarrow> gv_games s' = gv_games s"
  by (auto simp: PlayerAction_def Let_def split: if_splits)

subsection \<open>After a surrender\<close>

definition stalled :: "u64 \<Rightarrow> (u64 \<Rightarrow> bool) \<Rightarrow> game_instance \<Rightarrow> bool" where
  "stalled c isplayer g \<longleftrightarrow> gi_Status g = 1 \<and> gi_CurrentPlayer g = c \<and> players_keyed g \<and> c \<notin> active_players g \<and>
     (\<exists>u v. u \<in> active_players g \<and> v \<in> active_players g \<and> u \<noteq> v) \<and> (\<forall>u. isplayer u \<longleftrightarrow> gi_Players g u \<noteq> None)"

lemma stalled_done:
  assumes "stalled c isplayer g" and "action_done ty now c p g g'" and "gi_Players g c = Some p"
  shows "stalled c isplayer g'"
proof -
  have out: "gy_Status p = 3" using assms by (auto simp: stalled_def active_players_def)
  have keep: "stalled c isplayer (put_player c q g)" if "gy_Status q = 3" "gy_UserID q = gy_UserID p" for q
    using assms(1,3) that put_player_active [OF assms(3), of q] put_player_keyed [OF _ assms(3), of q] out
    unfolding stalled_def by (auto simp: put_player_def)
  have pass: "turn_passed g d \<Longrightarrow> d = c" for d using assms(1) by (simp add: turn_passed_def stalled_def)
  have cur: "stalled c isplayer h \<Longrightarrow> stalled c isplayer (h\<lparr>gi_CurrentPlayer := c\<rparr>)" for h
    by (simp add: stalled_def players_keyed_def active_players_def)
  have s3: "stalled c isplayer (put_player c (p\<lparr>gy_Status := 3\<rparr>) g)" by (rule keep) simp_all
  consider "ty = 1" | "ty = 2" | "ty = 3" | "ty \<notin> {1, 2, 3}" by auto
  then show ?thesis
  proof cases
    case 1
    with assms(2) pass have "g' = (put_player c (add_score 10 p) g)\<lparr>gi_CurrentPlayer := c\<rparr>" by (auto simp: action_done_def)
    with keep [of "add_score 10 p"] cur out show ?thesis by (simp add: add_score_def)
  next
    case 2
    with assms(2) keep [of "add_score 20 p"] out show ?thesis by (simp add: action_done_def add_score_def)
  next
    case 3
    with assms(2) pass have "g' = g\<lparr>gi_CurrentPlayer := c\<rparr>" by (auto simp: action_done_def)
    with cur assms(1) show ?thesis by simp
  next
    case 4
    with assms(2) s3 have "g' = put_player c (p\<lparr>gy_Status := 3\<rparr>) g"
      by (auto simp: action_done_def Let_def stalled_def split: if_splits)
    with s3 show ?thesis by simp
  qed
qed

definition action_step :: "('c, 'd) game_deps \<Rightarrow> time \<times> u64 list \<times> base_request \<Rightarrow> ('c, 'd) game_server \<Rightarrow> ('c, 'd) game_server" where
  "action_step deps call s = (case call of (now, order, req) \<Rightarrow> fst (PlayerAction deps now order req s))"

lemma stalled_step:
  assumes "gv_games s gid = Some g" and "stalled c isplayer g" and "distinct order" and "set order = Collect isplayer"
    and "PlayerAction deps now order req s = (s', resp)"
  shows "(\<exists>g'. gv_games s' gid = Some g' \<and> stalled c isplayer g')"
proof (cases "gk_action (gd_codec deps) (br_Data req)")
  case (Inl e)
  with action_undecoded [OF assms(5)] assms(1,2) show ?thesis by simp
next
  case (Inr rq)
  show ?thesis
  proof (cases "aq_GameId rq = gid")
    case True
    have "players_keyed g" "range_of order (gi_Players g)" using assms(2-4) by (auto simp: stalled_def range_of_def)
    note e = action_effect [of deps req, OF Inr _ this assms(5), unfolded getGame_def True, OF assms(1)]
    from assms(2) have "gi_CurrentPlayer g = c" by (simp add: stalled_def)
    with e assms(1,2) stalled_done [OF assms(2)] show ?thesis by (auto split: if_splits)
  qed (use action_other_game [OF assms(5) Inr] assms(1,2) in auto)
qed

lemma stalled_run:
  "gv_games s gid = Some g \<Longrightarrow> stalled c isplayer g \<Longrightarrow>
   \<forall>(now, order, req) \<in> set calls. distinct order \<and> set order = Collect isplayer \<Longrightarrow>
   \<exists>g'. gv_games (fold (action_step deps) calls s) gid = Some g' \<and> stalled c isplayer g'"
proof (induction calls arbitrary: s g)
  case Nil
  then show ?case by auto
next
  case (Cons call calls)
  obtain now order req where call: "call = (now, order, req)" by (cases call)
  obtain s1 resp where a: "PlayerAction deps now order req s = (s1, resp)" by fastforce
  from Cons.prems(3) call have o: "distinct order" "set order = Collect isplayer" by auto
  from stalled_step [OF Cons.prems(1,2) o a] obtain g1 where g1: "gv_games s1 gid = Some g1" "stalled c isplayer g1" by blast
  have "\<forall>(now, order, req) \<in> set calls. distinct order \<and> set order = Collect isplayer" using Cons.prems(3) by simp
  from Cons.IH [OF g1 this] show ?case by (simp add: call action_step_def a)
qed

subsection \<open>The service on its repositories\<close>

datatype game_call =
    CallStart time base_request | CallEnd time "u64 list" base_request
  | CallAction time "u64 list" base_request | CallState "u64 list" base_request | CallRemoved u64

text \<open>\<open>CallRemoved\<close> is the goroutine of an ended game that wakes up after its five minutes.\<close>

fun game_step :: "('c, 'd) game_deps \<Rightarrow> game_call \<Rightarrow> ('c, 'd) game_server \<Rightarrow> ('c, 'd) game_server" where
  "game_step deps (CallStart now req) s = fst (StartGame deps now req s)"
| "game_step deps (CallEnd now order req) s = fst (EndGame deps now order req s)"
| "game_step deps (CallAction now order req) s = fst (PlayerAction deps now order req s)"
| "game_step deps (CallState order req) s = s"
| "game_step deps (CallRemoved gid) s = removeGame gid s"

definition game_codec_ok :: "game_codec \<Rightarrow> bool" where
  "game_codec_ok codec \<longleftrightarrow> (\<forall>data rq. gk_start codec data = Inr rq \<longrightarrow> int_fits 32 (sq_GameType rq))"

text \<open>A game as the server makes it: its creator is the only player, and nothing starts it.\<close>

definition lone_game :: "u64 \<Rightarrow> game_instance \<Rightarrow> bool" where
  "lone_game gid g \<longleftrightarrow> gi_GameID g = gid \<and> int_fits 32 (gi_GameType g) \<and> gi_Status g \<in> {0, 2} \<and>
     (\<exists>p. gi_Players g = [gi_CurrentPlayer g \<mapsto> p] \<and> gy_UserID p = gi_CurrentPlayer g \<and> int_fits 32 (gy_Level p) \<and> gy_Score p = 0)"

lemma player_action_refused:
  assumes "\<forall>gid g. gv_games s gid = Some g \<longrightarrow> lone_game gid g" and "PlayerAction deps now order req s = (s', resp)"
  shows "s' = s \<and> bp_Code resp < 0"
proof -
  have "gi_Status g \<noteq> 1" if "gv_games s gid = Some g" for gid g
  proof -
    from assms(1) that have "lone_game gid g" by blast
    then show ?thesis by (auto simp: lone_game_def)
  qed
  with assms(2) show ?thesis
    by (auto simp: PlayerAction_def Let_def getGame_def split: sum.splits option.splits if_splits)
qed

lemma lone_range:
  assumes "lone_game gid g"
  shows "p \<in> set (ranged order (gi_Players g)) \<Longrightarrow> ranked_fits (ranked w p)"
  using assms by (auto simp: ranged_set lone_game_def ranked_def ranked_fits_def int_fits_def split: if_splits)

lemma seconds32_fits: "int_fits 32 (seconds32 d)"
  by (simp add: seconds32_def Let_def int_fits_def)

lemma end_record_fits: "lone_game gid g \<Longrightarrow> record_fits (end_record order gid w (seconds32 d) g)"
  using lone_range [of gid g] seconds32_fits by (auto simp: record_fits_def end_record_def lone_game_def int_fits_def)

text \<open>The handler is the check that finds the game, then the end of it.\<close>

definition end_check :: "('c, 'd) game_deps \<Rightarrow> base_request \<Rightarrow> ('c, 'd) game_server \<Rightarrow> (end_request \<times> game_instance) option" where
  "end_check deps req s =
     (case gk_end (gd_codec deps) (br_Data req) of
        Inl _ \<Rightarrow> None
      | Inr rq \<Rightarrow> (case getGame (eq_GameId rq) s of
          None \<Rightarrow> None
        | Some g \<Rightarrow>
            if GetUserId (br_Header req) = 0 \<or> eq_GameId rq = 0 \<or> gi_Players g (GetUserId (br_Header req)) = None \<or> gi_Status g = 2
            then None else Some (rq, g)))"

definition ended :: "time \<Rightarrow> u64 \<Rightarrow> game_instance \<Rightarrow> game_instance" where
  "ended now winner g = g\<lparr>gi_Status := 2, gi_EndTime := now, gi_Winner := winner\<rparr>"

lemma end_game_cases:
  assumes "EndGame deps now order req s = (s', resp)"
  shows "case end_check deps req s of
      None \<Rightarrow> s' = s \<and> bp_Code resp \<in> {- 1, - 2, - 3, - 4, - 5, - 6}
    | Some (rq, g) \<Rightarrow> bp_Code resp \<in> {0, - 7} \<and>
        (\<exists>c1 e. cr_UpdateRecord (gd_records deps) now (end_record order (eq_GameId rq) (eq_Winner rq)
            (seconds32 (now - gi_StartTime g)) (ended now (eq_Winner rq) g)) (gv_records s) = (c1, e) \<and>
          s' = put_game (eq_GameId rq) (ended now (eq_Winner rq) g) (s\<lparr>gv_records := c1\<rparr>))"
  using assms
  by (auto simp: EndGame_def end_check_def Let_def ended_def ok_data_def split: sum.splits option.splits if_splits prod.splits)

definition games_ok :: "('c \<Rightarrow> bool) \<Rightarrow> ('d \<Rightarrow> bool) \<Rightarrow> ('c, 'd) game_server \<Rightarrow> bool" where
  "games_ok rok uok s \<longleftrightarrow> rok (gv_records s) \<and> uok (gv_users s) \<and> (\<forall>gid g. gv_games s gid = Some g \<longrightarrow> lone_game gid g)"

definition ids_below :: "('c, 'd) game_server \<Rightarrow> bool" where
  "ids_below s \<longleftrightarrow> gv_nextGameID s \<noteq> 0 \<and> (\<forall>gid \<in> dom (gv_games s). gid \<noteq> 0 \<and> gid < gv_nextGameID s)"

locale game_service =
  records: record_store "gd_records deps" records rok + users: user_store "gd_users deps" users uok
  for deps :: "('c, 'd) game_deps" and records rok users uok +
  assumes codec: "game_codec_ok (gd_codec deps)"
begin

abbreviation "ok \<equiv> games_ok rok uok"

lemma okD: "ok s \<Longrightarrow> gv_games s gid = Some g \<Longrightarrow> lone_game gid g"
  by (simp add: games_ok_def)

lemma start_ok:
  assumes "ok s" and "StartGame deps now req s = (s', resp)"
  shows "ok s' \<and> (gv_games s' = gv_games s \<and> gv_nextGameID s' = gv_nextGameID s \<or>
    dom (gv_games s') = insert (gv_nextGameID s) (dom (gv_games s)) \<and> gv_nextGameID s' = gv_nextGameID s + 1)"
proof -
  let ?uid = "GetUserId (br_Header req)"
  have s: "rok (gv_records s)" "uok (gv_users s)" using assms(1) by (simp_all add: games_ok_def)
  show ?thesis
  proof (cases "?uid = 0 \<or> (\<forall>rq. gk_start (gd_codec deps) (br_Data req) = Inr rq \<longrightarrow> sq_RoomId rq = 0)")
    case True
    with assms show ?thesis by (auto simp: StartGame_def Let_def split: sum.splits if_splits)
  next
    case False
    then obtain rq where rq: "gk_start (gd_codec deps) (br_Data req) = Inr rq" "sq_RoomId rq \<noteq> 0" by auto
    obtain u1 x where g: "ur_GetByUserID (gd_users deps) ?uid (gv_users s) = (u1, x)" by fastforce
    note get = users.get [OF s(2) g]
    show ?thesis
    proof (cases x)
      case (Inl e)
      with False rq g assms get show ?thesis by (auto simp: StartGame_def Let_def games_ok_def)
    next
      case (Inr user)
      let ?gid = "gv_nextGameID s"
      obtain c1 e where c: "cr_CreateRecord (gd_records deps) now now (start_record ?gid rq ?uid user) (gv_records s) = (c1, e)" by fastforce
      have fits: "int_fits 32 (us_Level user)" "int_fits 32 (sq_GameType rq)"
        using get Inr users.fits [of "gv_users s"] s(2) codec rq by (auto simp: user_fits_def game_codec_ok_def)
      then have "record_fits (start_record ?gid rq ?uid user)" by (simp add: record_fits_def start_record_def ranked_fits_def int_fits_def)
      from records.create [OF s(1) this _ c] have rok: "rok c1" by (simp add: start_record_def)
      from False rq g Inr c assms(2) have s': "s' = s\<lparr>gv_users := u1, gv_nextGameID := ?gid + 1,
          gv_games := (gv_games s)(?gid \<mapsto> new_game now ?gid rq ?uid user), gv_records := c1\<rparr>"
        by (auto simp: StartGame_def Let_def generateGameID_def addGame_def new_game_def split: sum.splits)
      have "lone_game ?gid (new_game now ?gid rq ?uid user)"
        using fits by (simp add: lone_game_def new_game_def)
          (intro exI [of _ "first_game_player ?uid user"], simp add: first_game_player_def)
      with s' rok get Inr assms(1) show ?thesis by (auto simp: games_ok_def)
    qed
  qed
qed

lemma end_ok:
  assumes "ok s" and "EndGame deps now order req s = (s', resp)"
  shows "ok s' \<and> dom (gv_games s') = dom (gv_games s) \<and> gv_nextGameID s' = gv_nextGameID s"
proof (cases "end_check deps req s")
  case None
  with end_game_cases [OF assms(2)] assms(1) show ?thesis by simp
next
  case (Some x)
  obtain rq g where x: "x = (rq, g)" by (cases x)
  let ?g = "ended now (eq_Winner rq) g"
  from Some x have g: "gv_games s (eq_GameId rq) = Some g"
    by (auto simp: end_check_def getGame_def split: sum.splits option.splits if_splits)
  note lone = okD [OF assms(1) this]
  then have lone': "lone_game (eq_GameId rq) ?g" by (simp add: lone_game_def ended_def)
  from end_game_cases [OF assms(2)] Some x obtain c1 e where
    c: "cr_UpdateRecord (gd_records deps) now (end_record order (eq_GameId rq) (eq_Winner rq) (seconds32 (now - gi_StartTime g)) ?g)
        (gv_records s) = (c1, e)" and s': "s' = put_game (eq_GameId rq) ?g (s\<lparr>gv_records := c1\<rparr>)" by auto
  have "rok (gv_records s)" using assms(1) by (simp add: games_ok_def)
  from records.update [OF this end_record_fits [OF lone'] _ c] have "rok c1" by (simp add: end_record_def)
  with s' lone' assms(1) g show ?thesis by (auto simp: games_ok_def put_game_def)
qed

lemma game_step_ok: "ok s \<Longrightarrow> ok (game_step deps call s)"
proof (cases call)
  case (CallStart now req)
  assume "ok s"
  from start_ok [OF this surjective_pairing] CallStart show ?thesis by simp
next
  case (CallEnd now order req)
  assume "ok s"
  from end_ok [OF this surjective_pairing] CallEnd show ?thesis by simp
next
  case (CallAction now order req)
  assume "ok s"
  then have "\<forall>gid g. gv_games s gid = Some g \<longrightarrow> lone_game gid g" by (simp add: games_ok_def)
  from player_action_refused [OF this surjective_pairing] CallAction \<open>ok s\<close> show ?thesis by simp
next
  case (CallRemoved gid)
  assume "ok s"
  with CallRemoved show ?thesis by (auto simp: games_ok_def removeGame_def)
qed simp

lemma step_ids:
  assumes "ok s" and "ids_below s" and "unat (gv_nextGameID s) < 2 ^ 64 - 1"
  shows "ids_below (game_step deps call s) \<and> unat (gv_nextGameID (game_step deps call s)) \<le> unat (gv_nextGameID s) + 1"
proof -
  let ?n = "gv_nextGameID s"
  have n: "unat (?n + 1) = unat ?n + 1" using assms(3) unat_add_lem [of ?n 1] by simp
  then have less: "gid < ?n \<Longrightarrow> gid < ?n + 1" "?n < ?n + 1" "?n + 1 \<noteq> 0" for gid
    by (auto simp: word_less_nat_alt simp flip: unat_eq_zero)
  show ?thesis
  proof (cases call)
    case (CallStart now req)
    note st = start_ok [OF assms(1) surjective_pairing, of now req, THEN conjunct2]
    show ?thesis
      by (rule disjE [OF st]) (use CallStart assms(2) n less in \<open>simp_all add: ids_below_def\<close>)
  next
    case (CallEnd now order req)
    from end_ok [OF assms(1) surjective_pairing] CallEnd assms(2) show ?thesis by (simp add: ids_below_def)
  next
    case (CallAction now order req)
    from assms(1) have "\<forall>gid g. gv_games s gid = Some g \<longrightarrow> lone_game gid g" by (simp add: games_ok_def)
    from player_action_refused [OF this surjective_pairing] CallAction assms(2) show ?thesis by simp
  qed (use assms(2) in \<open>auto simp: ids_below_def removeGame_def\<close>)
qed

lemma run_ok: "ok s \<Longrightarrow> ok (fold (game_step deps) calls s)"
  by (induction calls arbitrary: s) (simp_all add: game_step_ok)

lemma run_ids:
  "ok s \<Longrightarrow> ids_below s \<Longrightarrow> unat (gv_nextGameID s) + length calls < 2 ^ 64 \<Longrightarrow> ids_below (fold (game_step deps) calls s)"
proof (induction calls arbitrary: s)
  case Nil
  then show ?case by simp
next
  case (Cons call calls)
  have "unat (gv_nextGameID s) < 2 ^ 64 - 1" using Cons.prems(3) by simp
  from step_ids [OF Cons.prems(1,2) this, of call] Cons.IH [OF game_step_ok [OF Cons.prems(1)], of call] Cons.prems(3)
  show ?case by simp
qed

end

definition games_start_ok :: "('c \<Rightarrow> doc list) \<Rightarrow> ('c \<Rightarrow> bool) \<Rightarrow> ('d \<Rightarrow> doc list) \<Rightarrow> ('d \<Rightarrow> bool) \<Rightarrow> 'c \<Rightarrow> 'd \<Rightarrow> bool" where
  "games_start_ok rdocs rvalid udocs uvalid c d \<longleftrightarrow> rows_valid record_row rdocs rvalid c \<and> users_valid udocs uvalid d"

lemma games_on_mongo:
  assumes "mongo_collection rops rdocs rvalid" and "user_collection uops udocs uvalid" and "game_codec_ok codec"
  shows "game_service (NewGameServer rops uops codec) (rows_in record_row rdocs) (rows_valid record_row rdocs rvalid)
    (users_in udocs) (users_valid udocs uvalid)"
  using mongo_collection.record_store_law [OF assms(1)] user_collection.is_store [OF assms(2)] assms(3)
  by (simp add: game_service_def game_service_axioms_def NewGameServer_def)

text \<open>A server on collections in memory, with a codec for the witnesses: one byte is the game.\<close>

definition demo_game_codec :: game_codec where
  "demo_game_codec = \<lparr>gk_start = (\<lambda>_. Inr \<lparr>sq_RoomId = 1, sq_GameType = 1\<rparr>),
     gk_end = (\<lambda>d. case d of [] \<Rightarrow> Inl ''short'' | b # _ \<Rightarrow> Inr \<lparr>eq_GameId = ucast b, eq_Winner = 7\<rparr>),
     gk_action = (\<lambda>d. case d of [] \<Rightarrow> Inl ''short'' | b # ds \<Rightarrow> Inr \<lparr>aq_GameId = ucast b, aq_ActionType = int (length ds), aq_ActionData = []\<rparr>),
     gk_state = (\<lambda>d. case d of [] \<Rightarrow> Inl ''short'' | b # _ \<Rightarrow> Inr (ucast b)),
     gk_json_map = (\<lambda>_. Inr (JMap [])), gk_json = (\<lambda>_. Inr []), gk_state_response = (\<lambda>_. Inr [])\<rparr>"

abbreviation "demo_games \<equiv> NewGameServer (mem_ops []) (mem_ops [''user_id'', ''username'']) demo_game_codec"

definition games_start :: "(mem_coll, mem_coll) game_server" where
  "games_start = initial_games \<lparr>mc_docs = [], mc_next = 1\<rparr> demo_users"

lemma demo_game_codec_ok: "game_codec_ok demo_game_codec"
  by (simp add: game_codec_ok_def demo_game_codec_def int_fits_def)

interpretation mem_games: game_service demo_games "rows_in record_row mc_docs" "rows_valid record_row mc_docs (\<lambda>c. uniques [] (mc_docs c))"
    "users_in mc_docs" "users_valid mc_docs (\<lambda>c. uniques [''user_id'', ''username''] (mc_docs c))"
  by (rule games_on_mongo [OF mem.mongo_collection_axioms mem_users.user_collection_axioms demo_game_codec_ok])

lemma games_start_valid:
  "games_start_ok mc_docs (\<lambda>c. uniques [] (mc_docs c)) mc_docs (\<lambda>c. uniques [''user_id'', ''username''] (mc_docs c))
     \<lparr>mc_docs = [], mc_next = 1\<rparr> demo_users"
  using demo_users_valid by (simp add: games_start_ok_def rows_valid_def rows_all_def uniques_def)

lemma initial_games_ok:
  assumes "games_start_ok rdocs rvalid udocs uvalid c d"
  shows "games_ok (rows_valid record_row rdocs rvalid) (users_valid udocs uvalid) (initial_games c d)"
    and "ids_below (initial_games c d)"
  using assms by (simp_all add: games_ok_def ids_below_def games_start_ok_def initial_games_def)

subsection \<open>Properties\<close>


definition "games_calls = [CallStart unix_epoch (demo_req 7 []), CallEnd (unix_epoch + second) [7] (demo_req 7 [1])]"


text \<open>
  C28: No action is ever run. Nothing in the server gives a game the status 1 (in progress) or a second
  player, so in every run \<^verbatim>\<open>PlayerAction\<close> refuses every request and changes nothing.
\<close>

theorem no_action_ever_runs:
  assumes "mongo_collection rops rdocs rvalid" and "user_collection uops udocs uvalid" and "game_codec_ok codec"
    and "games_start_ok rdocs rvalid udocs uvalid c d"
    and "PlayerAction (NewGameServer rops uops codec) now order req
      (fold (game_step (NewGameServer rops uops codec)) calls (initial_games c d)) = (s', resp)"
  shows "s' = fold (game_step (NewGameServer rops uops codec)) calls (initial_games c d) \<and> bp_Code resp < 0"
proof (rule player_action_refused [OF _ assms(5)])
  note svc = games_on_mongo [OF assms(1-3)]
  show "\<forall>gid g. gv_games (fold (game_step (NewGameServer rops uops codec)) calls (initial_games c d)) gid = Some g \<longrightarrow> lone_game gid g"
    using game_service.run_ok [OF svc initial_games_ok(1) [OF assms(4)], of calls] by (simp add: games_ok_def)
qed

lemma no_action_ever_runs_witness:
  "let s = fold (game_step demo_games) games_calls games_start; r = PlayerAction demo_games unix_epoch [7] (demo_req 7 [1, 1]) s
   in getGame 1 s \<noteq> None \<and> fst r = s \<and> bp_Code (snd r) < 0"
proof -
  have "getGame 1 (fold (game_step demo_games) games_calls games_start) \<noteq> None" by code_simp
  moreover note no_action_ever_runs [OF mem.mongo_collection_axioms mem_users.user_collection_axioms demo_game_codec_ok games_start_valid
      surjective_pairing, of unix_epoch "[7]" "demo_req 7 [1, 1]" games_calls, folded games_start_def]
  ultimately show ?thesis by (simp add: Let_def)
qed


text \<open>A game of three in progress, which the server itself never makes.\<close>

definition demo_three :: game_instance where
  "demo_three = (new_game unix_epoch 1 \<lparr>sq_RoomId = 1, sq_GameType = 1\<rparr> 7 (demo_user 7 ''ann''))
     \<lparr>gi_Status := 1, gi_Players := [7 \<mapsto> first_game_player 7 (demo_user 7 ''ann''), 8 \<mapsto> first_game_player 8 (demo_user 8 ''bob''),
        9 \<mapsto> first_game_player 9 (demo_user 9 ''cid'')]\<rparr>"

definition three_state :: "(mem_coll, mem_coll) game_server" where
  "three_state = addGame demo_three games_start"

lemma demo_three_ok:
  "players_keyed demo_three" "range_of [7, 8, 9] (gi_Players demo_three)" "getGame 1 three_state = Some demo_three"
  by (auto simp: players_keyed_def range_of_def demo_three_def three_state_def addGame_def getGame_def new_game_def first_game_player_def
      split: if_splits)


text \<open>
  A surrender stalls the game. When the player whose turn it is surrenders and at least two others
  are active, the turn stays with the one who left, and after any sequence of actions of anybody it
  still does: every action of the players who are left is refused.
\<close>

theorem surrender_stalls:
  assumes "gk_action (gd_codec deps) (br_Data req) = Inr rq" and "aq_ActionType rq = 4" and "getGame (aq_GameId rq) s = Some g"
    and "players_keyed g" and "range_of order (gi_Players g)" and "PlayerAction deps now order req s = (s1, resp)"
    and "bp_Code resp = 0" and "{u, v} \<subseteq> active_players g - {gi_CurrentPlayer g}" and "u \<noteq> v"
    and "\<forall>(now, order, req) \<in> set calls. range_of order (gi_Players g)"
  shows "\<exists>g'. getGame (aq_GameId rq) (fold (action_step deps) calls s1) = Some g' \<and> gi_Status g' = 1 \<and>
    gi_CurrentPlayer g' = gi_CurrentPlayer g \<and> gi_CurrentPlayer g' \<notin> active_players g' \<and>
    (\<forall>now order' req' rq' s2 resp'. GetUserId (br_Header req') \<noteq> gi_CurrentPlayer g \<longrightarrow>
       gk_action (gd_codec deps) (br_Data req') = Inr rq' \<longrightarrow> aq_GameId rq' = aq_GameId rq \<longrightarrow>
       PlayerAction deps now order' req' (fold (action_step deps) calls s1) = (s2, resp') \<longrightarrow> bp_Code resp' < 0)"
proof -
  let ?c = "gi_CurrentPlayer g" and ?in = "\<lambda>w. gi_Players g w \<noteq> None"
  from action_effect [OF assms(1,3-6)] assms(7) obtain p g1 where st: "gi_Status g = 1" and p: "gi_Players g ?c = Some p"
    and a: "action_done 4 now ?c p g g1" and g1: "gv_games s1 (aq_GameId rq) = Some g1" using assms(2) by auto
  let ?s = "put_player ?c (p\<lparr>gy_Status := 3\<rparr>) g"
  have uv: "u \<in> active_players ?s" "v \<in> active_players ?s" "?c \<notin> active_players ?s"
    using assms(8) by (auto simp: active_players_def put_player_def)
  with a assms(9) have "g1 = ?s" by (auto simp: action_done_def Let_def split: if_splits)
  then have st1: "stalled ?c ?in g1"
    using st uv assms(9) put_player_keyed [OF assms(4) p] p by (auto simp: stalled_def) (auto simp: put_player_def split: if_splits)
  have o: "\<forall>(now, order, req) \<in> set calls. distinct order \<and> set order = Collect ?in"
    using assms(10) by (auto simp: range_of_def dom_def)
  from stalled_run [OF g1 st1 o, of deps] obtain g' where
    g': "gv_games (fold (action_step deps) calls s1) (aq_GameId rq) = Some g'" "stalled ?c ?in g'" by blast
  have "bp_Code resp' < 0" if "GetUserId (br_Header req') \<noteq> ?c" "gk_action (gd_codec deps) (br_Data req') = Inr rq'"
    "aq_GameId rq' = aq_GameId rq" "PlayerAction deps now order' req' (fold (action_step deps) calls s1) = (s2, resp')"
    for now order' req' rq' s2 resp'
    using that g' by (auto simp: PlayerAction_def Let_def getGame_def stalled_def split: if_splits option.splits)
  with g' show ?thesis by (auto simp: stalled_def getGame_def)
qed

lemma surrender_stalls_witness:
  "\<exists>g'. getGame 1 (fold (action_step demo_games) [(unix_epoch, [9, 8, 7], demo_req 8 [1, 0])]
      (fst (PlayerAction demo_games unix_epoch [7, 8, 9] (demo_req 7 [1, 0, 0, 0, 0]) three_state))) = Some g' \<and>
     gi_CurrentPlayer g' = 7 \<and> gi_CurrentPlayer g' \<notin> active_players g'"
proof -
  let ?r = "PlayerAction demo_games unix_epoch [7, 8, 9] (demo_req 7 [1, 0, 0, 0, 0]) three_state"
  have code: "bp_Code (snd ?r) = 0" by code_simp
  have d: "gk_action (gd_codec demo_games) (br_Data (demo_req 7 [1, 0, 0, 0, 0])) = Inr \<lparr>aq_GameId = 1, aq_ActionType = 4, aq_ActionData = []\<rparr>"
    by code_simp
  have active: "{8, 9} \<subseteq> active_players demo_three - {gi_CurrentPlayer demo_three}" "gi_CurrentPlayer demo_three = 7"
    by (auto simp: active_players_def demo_three_def first_game_player_def new_game_def)
  have o: "range_of [9, 8, 7] (gi_Players demo_three)" using demo_three_ok(2) by (auto simp: range_of_def)
  from surrender_stalls [OF d _ _ demo_three_ok(1,2) surjective_pairing code active(1), of "[(unix_epoch, [9, 8, 7], demo_req 8 [1, 0])]"]
    demo_three_ok(3) o active(2) show ?thesis by auto
qed

text \<open>
  \<^verbatim>\<open>EndGame\<close> succeeds once, for a player of the game: it then has ended with the winner named and the
  end is refused from then on. If the collection had a record of the game, one such record now lists
  the players, the winner with rank 1 and the others with rank 2, but its creation time is the zero time:
  the handler sets the whole record and leaves that field empty.
\<close>

theorem end_game_effect:
  assumes "mongo_collection rops rdocs rvalid" and "user_collection uops udocs uvalid" and "game_codec_ok codec"
    and "games_ok (rows_valid record_row rdocs rvalid) (users_valid udocs uvalid) s"
    and "EndGame (NewGameServer rops uops codec) now order req s = (s', resp)" and "bp_Code resp = 0"
    and "gk_end codec (br_Data req) = Inr rq"
  shows "\<exists>g. getGame (eq_GameId rq) s = Some g \<and> gi_Status g \<noteq> 2 \<and> gi_Players g (GetUserId (br_Header req)) \<noteq> None \<and>
    getGame (eq_GameId rq) s' = Some (ended now (eq_Winner rq) g) \<and>
    bp_Code (snd (EndGame (NewGameServer rops uops codec) later order' req s')) = - 6 \<and>
    (rows_in record_row rdocs (gv_records s') = rows_in record_row rdocs (gv_records s) \<or>
     (\<exists>r \<in> set (rows_in record_row rdocs (gv_records s')). gc_GameID r = eq_GameId rq \<and> gc_Status r = 1 \<and>
        gc_Players r = map (ranked (eq_Winner rq)) (ranged order (gi_Players g)) \<and> gc_CreatedAt r = 0))"
proof -
  note svc = games_on_mongo [OF assms(1-3)]
  let ?deps = "NewGameServer rops uops codec"
  note cases = end_game_cases [OF assms(5)]
  from assms(6) cases obtain g where chk: "end_check ?deps req s = Some (rq, g)"
    using assms(7) by (auto simp: end_check_def NewGameServer_def split: option.splits if_splits)
  then have g: "gv_games s (eq_GameId rq) = Some g" "gi_Status g \<noteq> 2" "gi_Players g (GetUserId (br_Header req)) \<noteq> None"
    "GetUserId (br_Header req) \<noteq> 0" "eq_GameId rq \<noteq> 0"
    using assms(7) by (auto simp: end_check_def getGame_def NewGameServer_def split: option.splits if_splits)
  let ?g = "ended now (eq_Winner rq) g" and ?r = "end_record order (eq_GameId rq) (eq_Winner rq) (seconds32 (now - gi_StartTime g)) (ended now (eq_Winner rq) g)"
  from cases chk obtain c1 e where c: "cr_UpdateRecord (gd_records ?deps) now ?r (gv_records s) = (c1, e)"
    and s': "s' = put_game (eq_GameId rq) ?g (s\<lparr>gv_records := c1\<rparr>)" by auto
  from assms(4) g have lone: "lone_game (eq_GameId rq) ?g" and rok: "rows_valid record_row rdocs rvalid (gv_records s)"
    by (auto simp: games_ok_def lone_game_def ended_def)
  have store: "record_store (gd_records ?deps) (rows_in record_row rdocs) (rows_valid record_row rdocs rvalid)"
    using svc by (simp add: game_service_def)
  have "one_changed (of_game (eq_GameId rq)) (replace_record now ?r) (rows_in record_row rdocs (gv_records s)) (rows_in record_row rdocs c1) \<or>
      rows_in record_row rdocs c1 = rows_in record_row rdocs (gv_records s)"
    using record_store.update [OF store rok end_record_fits [OF lone] _ c] by (auto simp: end_record_def)
  then have rec: "rows_in record_row rdocs c1 = rows_in record_row rdocs (gv_records s) \<or>
     (\<exists>r \<in> set (rows_in record_row rdocs c1). gc_GameID r = eq_GameId rq \<and> gc_Status r = 1 \<and>
        gc_Players r = map (ranked (eq_Winner rq)) (ranged order (gi_Players g)) \<and> gc_CreatedAt r = 0)"
    using one_changed_hit by (fastforce simp: replace_record_def stored_record_def end_record_def ended_def trunc_ms_def unix_epoch_def second_def millisecond_def)
  have "bp_Code (snd (EndGame ?deps later order' req s')) = - 6"
    using assms(7) g s' by (simp add: EndGame_def Let_def NewGameServer_def getGame_def ended_def)
  with g s' rec show ?thesis by (auto simp: getGame_def put_game_def)
qed

definition "started = fst (StartGame demo_games unix_epoch (demo_req 7 []) games_start)"

lemma end_game_effect_witness:
  "\<exists>g. getGame 1 (fst (EndGame demo_games (unix_epoch + second) [7] (demo_req 7 [1]) started)) = Some g \<and> gi_Status g = 2 \<and>
     gi_Winner g = 7"
proof -
  let ?r = "EndGame demo_games (unix_epoch + second) [7] (demo_req 7 [1]) started"
  have code: "bp_Code (snd ?r) = 0" by code_simp
  have d: "gk_end demo_game_codec (br_Data (demo_req 7 [1])) = Inr \<lparr>eq_GameId = 1, eq_Winner = 7\<rparr>" by code_simp
  have "games_ok (rows_valid record_row mc_docs (\<lambda>c. uniques [] (mc_docs c)))
      (users_valid mc_docs (\<lambda>c. uniques [''user_id'', ''username''] (mc_docs c))) games_start"
    using initial_games_ok(1) [OF games_start_valid] by (simp add: games_start_def)
  from mem_games.start_ok [OF this surjective_pairing] have ok: "games_ok (rows_valid record_row mc_docs (\<lambda>c. uniques [] (mc_docs c)))
      (users_valid mc_docs (\<lambda>c. uniques [''user_id'', ''username''] (mc_docs c))) started"
    by (simp add: started_def)
  from end_game_effect [OF mem.mongo_collection_axioms mem_users.user_collection_axioms demo_game_codec_ok ok surjective_pairing code d,
      of unix_epoch "[]"] obtain g where "getGame 1 (fst ?r) = Some (ended (unix_epoch + second) 7 g)" by auto
  then show ?thesis by (simp add: ended_def)
qed

end
