(* ===== verification/FriendServer.thy ===== *)
theory FriendServer
  imports Friends Users Protocol
begin

text \<open>
  \<^verbatim>\<open>internal/server/friend_server.go\<close>: the four handlers of \<^verbatim>\<open>FriendService\<close> over the friend and the user
  repository. The state is the two collections; protobuf codecs are parameters, logging is left out, and
  the readings of the clock within one call are one argument. The properties say where a friendship can
  come from, what an acceptance and a deletion do, and what they do not check.
\<close>

subsection \<open>The handlers\<close>

record friend_info =
  fi_UserId :: u64
  fi_Nickname :: string
  fi_Level :: int
  fi_Avatar :: string
  fi_Online :: bool
  fi_LastLoginTime :: u32

record friend_codec =
  fk_add :: "byte list \<Rightarrow> string + u64 \<times> string"
  fk_accept :: "byte list \<Rightarrow> string + u64"
  fk_list :: "friend_info list \<Rightarrow> string + byte list"

record ('c, 'd) friend_deps =
  fd_friends :: "'c friend_repo"
  fd_users :: "'d user_repo"
  fd_codec :: friend_codec

record ('c, 'd) friend_server =
  fs_friends :: 'c
  fs_users :: 'd

definition NewFriendServer :: "'c mongo_ops \<Rightarrow> 'd mongo_ops \<Rightarrow> friend_codec \<Rightarrow> ('c, 'd) friend_deps" where
  "NewFriendServer fops uops codec =
     \<lparr>fd_friends = NewFriendRepository fops, fd_users = NewUserRepository uops, fd_codec = codec\<rparr>"

definition AddFriend :: "('c, 'd) friend_deps \<Rightarrow> time \<Rightarrow> base_request \<Rightarrow> ('c, 'd) friend_server \<Rightarrow> ('c, 'd) friend_server \<times> base_response" where
  "AddFriend deps now req s =
     (let uid = GetUserId (br_Header req) in
      if uid = 0 then (s, reply req (- 1) ''invalid user id'')
      else case fk_add (fd_codec deps) (br_Data req) of
        Inl _ \<Rightarrow> (s, reply req (- 2) ''invalid request data'')
      | Inr (fid, msg) \<Rightarrow>
          if fid = 0 \<or> fid = uid then (s, reply req (- 3) ''invalid friend id'')
          else
            (let (c1, r) = fx_GetFriends (fd_friends deps) uid (fs_friends s); s1 = s\<lparr>fs_friends := c1\<rparr> in
             if \<not> isl r \<and> (\<exists>f \<in> set (projr r). fr_FriendID f = fid) then (s1, reply req (- 4) ''already friends or request pending'')
             else case ur_GetByUserID (fd_users deps) fid (fs_users s1) of
               (u1, Inl _) \<Rightarrow> (s1\<lparr>fs_users := u1\<rparr>, reply req (- 5) ''target user not found'')
             | (u1, Inr _) \<Rightarrow>
                 (case fx_AddFriend (fd_friends deps) now uid fid msg c1 of
                    (c2, Some _) \<Rightarrow> (s\<lparr>fs_friends := c2, fs_users := u1\<rparr>, reply req (- 6) ''failed to send friend request'')
                  | (c2, None) \<Rightarrow> (s\<lparr>fs_friends := c2, fs_users := u1\<rparr>, reply req 0 ''friend request sent successfully''))))"

text \<open>The checks \<^verbatim>\<open>AcceptFriend\<close> and \<^verbatim>\<open>DeleteFriend\<close> share, line for line, and what each does then.\<close>

definition with_friend :: "('c, 'd) friend_deps \<Rightarrow> base_request \<Rightarrow> string \<Rightarrow> (u64 \<Rightarrow> u64 \<Rightarrow> 'c \<Rightarrow> 'c \<times> string option) \<Rightarrow> string \<Rightarrow> string \<Rightarrow>
    ('c, 'd) friend_server \<Rightarrow> ('c, 'd) friend_server \<times> base_response" where
  "with_friend deps req unknown act failed succeeded s =
     (let uid = GetUserId (br_Header req) in
      if uid = 0 then (s, reply req (- 1) ''invalid user id'')
      else case fk_accept (fd_codec deps) (br_Data req) of
        Inl _ \<Rightarrow> (s, reply req (- 2) ''invalid request data'')
      | Inr fid \<Rightarrow>
          if fid = 0 \<or> fid = uid then (s, reply req (- 3) ''invalid friend id'')
          else case ur_GetByUserID (fd_users deps) fid (fs_users s) of
            (u1, Inl _) \<Rightarrow> (s\<lparr>fs_users := u1\<rparr>, reply req (- 4) unknown)
          | (u1, Inr _) \<Rightarrow>
              (case act uid fid (fs_friends s) of
                 (c1, Some _) \<Rightarrow> (s\<lparr>fs_friends := c1, fs_users := u1\<rparr>, reply req (- 5) failed)
               | (c1, None) \<Rightarrow> (s\<lparr>fs_friends := c1, fs_users := u1\<rparr>, reply req 0 succeeded)))"

definition AcceptFriend :: "('c, 'd) friend_deps \<Rightarrow> time \<Rightarrow> base_request \<Rightarrow> ('c, 'd) friend_server \<Rightarrow> ('c, 'd) friend_server \<times> base_response" where
  "AcceptFriend deps now req s =
     with_friend deps req ''requester user not found'' (fx_AcceptFriend (fd_friends deps) now)
       ''failed to accept friend request'' ''friend request accepted successfully'' s"

definition DeleteFriend :: "('c, 'd) friend_deps \<Rightarrow> base_request \<Rightarrow> ('c, 'd) friend_server \<Rightarrow> ('c, 'd) friend_server \<times> base_response" where
  "DeleteFriend deps req s =
     with_friend deps req ''target user not found'' (fx_DeleteFriend (fd_friends deps))
       ''failed to delete friend'' ''friend deleted successfully'' s"

text \<open>Online is a login less than 30 minutes ago.\<close>

definition friend_of_user :: "time \<Rightarrow> user \<Rightarrow> friend_info" where
  "friend_of_user now u = \<lparr>fi_UserId = us_UserID u, fi_Nickname = us_Nickname u, fi_Level = us_Level u, fi_Avatar = us_Avatar u,
     fi_Online = (now - us_LastLoginAt u < 1800 * second), fi_LastLoginTime = of_int (time_unix (us_LastLoginAt u))\<rparr>"

fun friend_infos :: "('c, 'd) friend_deps \<Rightarrow> time \<Rightarrow> friend list \<Rightarrow> 'd \<Rightarrow> 'd \<times> friend_info list" where
  "friend_infos deps now [] u = (u, [])"
| "friend_infos deps now (f # fs) u =
     (case ur_GetByUserID (fd_users deps) (fr_FriendID f) u of
        (u1, Inl _) \<Rightarrow> friend_infos deps now fs u1
      | (u1, Inr x) \<Rightarrow> (let (u2, infos) = friend_infos deps now fs u1 in (u2, friend_of_user now x # infos)))"

definition GetFriendList :: "('c, 'd) friend_deps \<Rightarrow> time \<Rightarrow> base_request \<Rightarrow> ('c, 'd) friend_server \<Rightarrow> ('c, 'd) friend_server \<times> base_response" where
  "GetFriendList deps now req s =
     (let uid = GetUserId (br_Header req) in
      if uid = 0 then (s, reply req (- 1) ''invalid user id'')
      else case fx_GetFriends (fd_friends deps) uid (fs_friends s) of
        (c1, Inl _) \<Rightarrow> (s\<lparr>fs_friends := c1\<rparr>, reply req (- 2) ''failed to get friend list'')
      | (c1, Inr fs) \<Rightarrow>
          (let (u1, infos) = friend_infos deps now fs (fs_users s); s1 = s\<lparr>fs_friends := c1, fs_users := u1\<rparr>
           in case fk_list (fd_codec deps) infos of
                Inl _ \<Rightarrow> (s1, reply req (- 3) ''failed to marshal response'')
              | Inr d \<Rightarrow> (s1, \<lparr>bp_Header = br_Header req, bp_Code = 0, bp_Msg = ''success'', bp_Data = d\<rparr>)))"

datatype friend_call = CallAdd time base_request | CallAccept time base_request | CallDelete base_request | CallList time base_request

fun friend_step :: "('c, 'd) friend_deps \<Rightarrow> friend_call \<Rightarrow> ('c, 'd) friend_server \<Rightarrow> ('c, 'd) friend_server \<times> base_response" where
  "friend_step deps (CallAdd now req) s = AddFriend deps now req s"
| "friend_step deps (CallAccept now req) s = AcceptFriend deps now req s"
| "friend_step deps (CallDelete req) s = DeleteFriend deps req s"
| "friend_step deps (CallList now req) s = GetFriendList deps now req s"

definition friend_run :: "('c, 'd) friend_deps \<Rightarrow> friend_call list \<Rightarrow> ('c, 'd) friend_server \<Rightarrow> ('c, 'd) friend_server" where
  "friend_run deps calls s = fold (\<lambda>call s. fst (friend_step deps call s)) calls s"

subsection \<open>The service on its repositories\<close>

text \<open>\<open>accepted calls u f\<close>: the run has a call of \<open>u\<close> that accepts \<open>f\<close>.\<close>

definition accepted :: "friend_codec \<Rightarrow> friend_call list \<Rightarrow> u64 \<Rightarrow> u64 \<Rightarrow> bool" where
  "accepted codec calls u f \<longleftrightarrow> (\<exists>now req. CallAccept now req \<in> set calls \<and> GetUserId (br_Header req) = u \<and> fk_accept codec (br_Data req) = Inr f)"

text \<open>Every record is a request or a confirmed friendship between two different users, and stems from an acceptance.\<close>

definition friend_wf :: "(u64 \<Rightarrow> u64 \<Rightarrow> bool) \<Rightarrow> friend \<Rightarrow> bool" where
  "friend_wf acc f \<longleftrightarrow> fr_UserID f \<noteq> 0 \<and> fr_FriendID f \<noteq> 0 \<and> fr_UserID f \<noteq> fr_FriendID f \<and>
     (fr_Status f = 0 \<or> fr_Status f = 1 \<and> (acc (fr_UserID f) (fr_FriendID f) \<or> acc (fr_FriendID f) (fr_UserID f)))"

definition friends_wf :: "(u64 \<Rightarrow> u64 \<Rightarrow> bool) \<Rightarrow> friend list \<Rightarrow> bool" where
  "friends_wf acc fs \<longleftrightarrow> (\<forall>f \<in> set fs. friend_wf acc f)"

lemma wf_added: "friends_wf acc fs \<Longrightarrow> friend_added now u f st msg fs fs' \<Longrightarrow> u \<noteq> 0 \<Longrightarrow> f \<noteq> 0 \<Longrightarrow> u \<noteq> f \<Longrightarrow>
    st = 0 \<or> st = 1 \<and> acc u f \<Longrightarrow> friends_wf acc fs'"
  by (auto simp: friends_wf_def friend_added_def friend_wf_def stored_friend_def new_friend_def)

lemma wf_accepted:
  "friends_wf acc fs \<Longrightarrow> changed_or_none (pending f u) (set_status now 1) failed fs fs' \<Longrightarrow> acc u f \<Longrightarrow> friends_wf acc fs'"
  unfolding friends_wf_def changed_or_none_def
  by (auto dest!: one_changed_set simp: friend_wf_def set_status_def pending_def between_def)

lemma wf_removed: "friends_wf acc fs \<Longrightarrow> removed_or_none p failed fs fs' \<Longrightarrow> friends_wf acc fs'"
  unfolding friends_wf_def removed_or_none_def by (auto dest: one_removed_set)

lemma wf_mono: "friends_wf acc fs \<Longrightarrow> (\<And>u f. acc u f \<Longrightarrow> acc' u f) \<Longrightarrow> friends_wf acc' fs"
  by (auto simp: friends_wf_def friend_wf_def)

definition friend_server_ok :: "('c \<Rightarrow> bool) \<Rightarrow> ('d \<Rightarrow> bool) \<Rightarrow> ('c, 'd) friend_server \<Rightarrow> bool" where
  "friend_server_ok fok uok s \<longleftrightarrow> fok (fs_friends s) \<and> uok (fs_users s)"

locale friend_service =
  store: friend_store "fd_friends deps" friends fok + users: user_store "fd_users deps" users uok
  for deps :: "('c, 'd) friend_deps" and friends fok users uok
begin

abbreviation "ok \<equiv> friend_server_ok fok uok"

abbreviation "list s \<equiv> friends (fs_friends s)"

abbreviation "user s \<equiv> users (fs_users s)"

lemma friend_infos_users: "uok u \<Longrightarrow> friend_infos deps now fs u = (u', infos) \<Longrightarrow> uok u' \<and> users u' = users u"
proof (induction fs arbitrary: u u' infos)
  case Nil
  then show ?case by simp
next
  case (Cons f fs)
  obtain u1 x where g: "ur_GetByUserID (fd_users deps) (fr_FriendID f) u = (u1, x)" by fastforce
  from users.get [OF Cons.prems(1) g] Cons g show ?case by (auto split: sum.splits prod.splits)
qed

lemma list_handler: "ok s \<Longrightarrow> GetFriendList deps now req s = (s', resp) \<Longrightarrow> ok s' \<and> list s' = list s \<and> user s' = user s"
proof -
  assume s: "ok s" and h: "GetFriendList deps now req s = (s', resp)"
  obtain c1 r where g: "fx_GetFriends (fd_friends deps) (GetUserId (br_Header req)) (fs_friends s) = (c1, r)" by fastforce
  obtain u1 infos where i: "friend_infos deps now (projr r) (fs_users s) = (u1, infos)" by fastforce
  from s have "fok (fs_friends s)" "uok (fs_users s)" by (simp_all add: friend_server_ok_def)
  from store.get_friends [OF this(1) g] friend_infos_users [OF this(2) i] g i h s show ?thesis
    by (auto simp: GetFriendList_def Let_def friend_server_ok_def split: if_splits sum.splits)
qed

lemma add_handler:
  assumes "ok s" and "AddFriend deps now req s = (s', resp)"
  shows "ok s' \<and> user s' = user s \<and> (list s' = list s \<and> bp_Code resp \<noteq> 0 \<or>
    (\<exists>fid msg. fk_add (fd_codec deps) (br_Data req) = Inr (fid, msg) \<and> GetUserId (br_Header req) \<notin> {0, fid} \<and> fid \<noteq> 0 \<and>
       friend_added now (GetUserId (br_Header req)) fid 0 msg (list s) (list s')))"
proof -
  let ?uid = "GetUserId (br_Header req)"
  have s: "fok (fs_friends s)" "uok (fs_users s)" using assms(1) by (simp_all add: friend_server_ok_def)
  show ?thesis
  proof (cases "fk_add (fd_codec deps) (br_Data req)")
    case (Inl e)
    with assms show ?thesis by (auto simp: AddFriend_def Let_def split: if_splits)
  next
    case (Inr x)
    obtain fid msg where x: "x = (fid, msg)" by (cases x)
    obtain c1 r where g: "fx_GetFriends (fd_friends deps) ?uid (fs_friends s) = (c1, r)" by fastforce
    obtain u1 y where u: "ur_GetByUserID (fd_users deps) fid (fs_users s) = (u1, y)" by fastforce
    obtain c2 e where a: "fx_AddFriend (fd_friends deps) now ?uid fid msg c1 = (c2, e)" by fastforce
    note gl = store.get_friends [OF s(1) g] and ul = users.get [OF s(2) u]
    from gl have "fok c1" by simp
    note al = store.add [OF this a]
    consider "?uid = 0 \<or> fid = 0 \<or> fid = ?uid"
      | "?uid \<noteq> 0" "fid \<noteq> ?uid" "fid \<noteq> 0" "\<not> isl r \<and> (\<exists>f \<in> set (projr r). fr_FriendID f = fid)"
      | "?uid \<noteq> 0" "fid \<noteq> ?uid" "fid \<noteq> 0" "\<not> (\<not> isl r \<and> (\<exists>f \<in> set (projr r). fr_FriendID f = fid))" by blast
    then show ?thesis
    proof cases
      case 1
      with assms Inr x show ?thesis by (auto simp: AddFriend_def Let_def split: if_splits)
    next
      case 2
      with assms(2) Inr x g have "(s', resp) = (s\<lparr>fs_friends := c1\<rparr>, reply req (- 4) ''already friends or request pending'')"
        by (simp add: AddFriend_def Let_def)
      with gl s show ?thesis by (simp add: friend_server_ok_def)
    next
      case 3
      show ?thesis
      proof (cases y)
        case (Inl m)
        with 3 assms(2) Inr x g u have "s' = s\<lparr>fs_friends := c1, fs_users := u1\<rparr>" "bp_Code resp = - 5"
          by (auto simp: AddFriend_def Let_def)
        with gl ul show ?thesis by (simp add: friend_server_ok_def)
      next
        case inr: (Inr v)
        with 3 assms(2) Inr x g u a have "s' = s\<lparr>fs_friends := c2, fs_users := u1\<rparr>" "bp_Code resp = (if e = None then 0 else - 6)"
          by (auto simp: AddFriend_def Let_def split: option.splits)
        with al gl ul x Inr 3 show ?thesis by (auto simp: friend_server_ok_def)
      qed
    qed
  qed
qed

text \<open>What is common to the two handlers that act on a friend.\<close>

lemma with_friend_cases:
  assumes "ok s" and "with_friend deps req unknown act failed succeeded s = (s', resp)"
  shows "ok s' \<and> user s' = user s \<and> fs_friends s' = fs_friends s \<and> bp_Code resp \<noteq> 0 \<or>
    (\<exists>fid c e. fk_accept (fd_codec deps) (br_Data req) = Inr fid \<and> GetUserId (br_Header req) \<notin> {0, fid} \<and> fid \<noteq> 0 \<and>
       act (GetUserId (br_Header req)) fid (fs_friends s) = (c, e) \<and> fs_friends s' = c \<and> uok (fs_users s') \<and> user s' = user s \<and>
       bp_Code resp = (if e = None then 0 else - 5))"
proof (cases "fk_accept (fd_codec deps) (br_Data req)")
  case (Inl e)
  with assms show ?thesis by (auto simp: with_friend_def Let_def split: if_splits)
next
  case (Inr fid)
  obtain u1 y where u: "ur_GetByUserID (fd_users deps) fid (fs_users s) = (u1, y)" by fastforce
  obtain c e where a: "act (GetUserId (br_Header req)) fid (fs_friends s) = (c, e)" by fastforce
  have s: "fok (fs_friends s)" "uok (fs_users s)" using assms(1) by (simp_all add: friend_server_ok_def)
  note ul = users.get [OF s(2) u]
  show ?thesis
  proof (cases "GetUserId (br_Header req) = 0 \<or> fid = 0 \<or> fid = GetUserId (br_Header req)")
    case True
    with assms Inr show ?thesis by (auto simp: with_friend_def Let_def split: if_splits)
  next
    case False
    show ?thesis
    proof (cases y)
      case (Inl m)
      with False assms(2) Inr u have "s' = s\<lparr>fs_users := u1\<rparr>" "bp_Code resp = - 4" by (auto simp: with_friend_def Let_def)
      with ul s show ?thesis by (simp add: friend_server_ok_def)
    next
      case inr: (Inr v)
      with False assms(2) Inr u a have "s' = s\<lparr>fs_friends := c, fs_users := u1\<rparr>" "bp_Code resp = (if e = None then 0 else - 5)"
        by (auto simp: with_friend_def Let_def split: option.splits)
      with ul False Inr a show ?thesis by auto
    qed
  qed
qed

lemma accept_handler:
  assumes "ok s" and "AcceptFriend deps now req s = (s', resp)"
  shows "ok s' \<and> user s' = user s \<and> (list s' = list s \<and> bp_Code resp \<noteq> 0 \<or>
    (\<exists>fid mid. fk_accept (fd_codec deps) (br_Data req) = Inr fid \<and> GetUserId (br_Header req) \<notin> {0, fid} \<and> fid \<noteq> 0 \<and>
       changed_or_none (pending fid (GetUserId (br_Header req))) (set_status now 1) (bp_Code resp \<noteq> 0) (list s) mid \<and>
       (friend_added now (GetUserId (br_Header req)) fid 1 [] mid (list s') \<or> bp_Code resp \<noteq> 0 \<and> list s' = mid)))"
proof -
  have f: "fok (fs_friends s)" using assms(1) by (simp add: friend_server_ok_def)
  from with_friend_cases [OF assms(1) assms(2) [unfolded AcceptFriend_def]] show ?thesis
  proof (elim disjE exE conjE)
    fix fid c e
    assume *: "fk_accept (fd_codec deps) (br_Data req) = Inr fid" "GetUserId (br_Header req) \<notin> {0, fid}" "fid \<noteq> 0"
      "fx_AcceptFriend (fd_friends deps) now (GetUserId (br_Header req)) fid (fs_friends s) = (c, e)" "fs_friends s' = c"
      "uok (fs_users s')" "user s' = user s" "bp_Code resp = (if e = None then 0 else - 5)"
    then have "(bp_Code resp \<noteq> 0) = (e \<noteq> None)" by simp
    with store.accept [OF f *(4)] * show ?thesis by (simp add: friend_server_ok_def)
  qed auto
qed

lemma delete_handler:
  assumes "ok s" and "DeleteFriend deps req s = (s', resp)"
  shows "ok s' \<and> user s' = user s \<and> (list s' = list s \<and> bp_Code resp \<noteq> 0 \<or>
    (\<exists>fid mid. fk_accept (fd_codec deps) (br_Data req) = Inr fid \<and>
       removed_or_none (between (GetUserId (br_Header req)) fid) (bp_Code resp \<noteq> 0) (list s) mid \<and>
       removed_or_none (between fid (GetUserId (br_Header req))) (bp_Code resp \<noteq> 0) mid (list s')))"
proof -
  have f: "fok (fs_friends s)" using assms(1) by (simp add: friend_server_ok_def)
  from with_friend_cases [OF assms(1) assms(2) [unfolded DeleteFriend_def]] show ?thesis
  proof (elim disjE exE conjE)
    fix fid c e
    assume *: "fk_accept (fd_codec deps) (br_Data req) = Inr fid"
      "fx_DeleteFriend (fd_friends deps) (GetUserId (br_Header req)) fid (fs_friends s) = (c, e)" "fs_friends s' = c"
      "uok (fs_users s')" "user s' = user s" "bp_Code resp = (if e = None then 0 else - 5)"
    then have "(bp_Code resp \<noteq> 0) = (e \<noteq> None)" by simp
    with store.delete [OF f *(2)] * show ?thesis by (simp add: friend_server_ok_def)
  qed auto
qed

lemma step_keeps:
  assumes "ok s" and "friends_wf (accepted (fd_codec deps) calls) (list s)" and "friend_step deps call s = (s', resp)"
  shows "ok s' \<and> user s' = user s \<and> friends_wf (accepted (fd_codec deps) (calls @ [call])) (list s')"
proof -
  let ?acc = "accepted (fd_codec deps) (calls @ [call])"
  have wf: "friends_wf ?acc (list s)" by (rule wf_mono [OF assms(2)]) (auto simp: accepted_def)
  show ?thesis
  proof (cases call)
    case (CallAdd now req)
    from add_handler [OF assms(1), of now req s' resp] assms(3) CallAdd wf show ?thesis
      by (auto intro: wf_added)
  next
    case (CallAccept now req)
    with assms(3) have h: "AcceptFriend deps now req s = (s', resp)" by simp
    have acc: "fk_accept (fd_codec deps) (br_Data req) = Inr fid \<Longrightarrow> ?acc (GetUserId (br_Header req)) fid" for fid
      unfolding accepted_def CallAccept by auto
    from accept_handler [OF assms(1) h] wf acc show ?thesis
      by (auto dest: wf_accepted intro: wf_added)
  next
    case (CallDelete req)
    from delete_handler [OF assms(1), of req s' resp] assms(3) CallDelete wf show ?thesis
      by (auto dest: wf_removed)
  next
    case (CallList now req)
    from list_handler [OF assms(1), of now req s' resp] assms(3) CallList wf show ?thesis by simp
  qed
qed

lemma run_keeps:
  "ok s \<Longrightarrow> friends_wf (accepted (fd_codec deps) done_calls) (list s) \<Longrightarrow>
   ok (friend_run deps calls s) \<and> user (friend_run deps calls s) = user s \<and>
   friends_wf (accepted (fd_codec deps) (done_calls @ calls)) (list (friend_run deps calls s))"
proof (induction calls arbitrary: s done_calls)
  case Nil
  then show ?case by (simp add: friend_run_def)
next
  case (Cons call calls)
  from step_keeps [OF Cons.prems surjective_pairing] Cons.IH [of "fst (friend_step deps call s)" "done_calls @ [call]"]
  show ?case by (simp add: friend_run_def)
qed

end

lemma friends_on_mongo:
  assumes "mongo_collection fops fdocs fvalid" and "user_collection uops udocs uvalid"
  shows "friend_service (NewFriendServer fops uops codec) (rows_in friend_row fdocs) (rows_valid friend_row fdocs fvalid)
    (users_in udocs) (users_valid udocs uvalid)"
  using mongo_collection.friend_store_law [OF assms(1)] user_collection.is_store [OF assms(2)]
  by (simp add: friend_service_def NewFriendServer_def)

lemma friend_added_new:
  "friend_added now uid fid st msg rs rs' \<Longrightarrow> \<exists>b. rs' = rs @ [b] \<and> fr_Status b = st \<and> between uid fid b"
  by (auto simp: friend_added_def stored_friend_def new_friend_def between_def)

lemma removed_counts:
  assumes "removed_or_none p False rs rs'"
  shows "length (filter p rs') = length (filter p rs) - 1" and "(\<And>x. p x \<Longrightarrow> \<not> q x) \<Longrightarrow> filter q rs' = filter q rs"
proof -
  show "length (filter p rs') = length (filter p rs) - 1"
    using assms by (auto simp: removed_or_none_def one_removed_def filter_empty_conv)
  show "filter q rs' = filter q rs" if "\<And>x. p x \<Longrightarrow> \<not> q x"
    using assms one_removed_filter [of p rs rs' q, OF _ that] by (auto simp: removed_or_none_def)
qed

text \<open>Collections in memory with three users, and a codec that writes a user as one byte.\<close>

definition demo_friend_codec :: friend_codec where
  "demo_friend_codec = \<lparr>fk_add = (\<lambda>d. case d of [] \<Rightarrow> Inl ''short'' | b # _ \<Rightarrow> Inr (ucast b, [])),
     fk_accept = (\<lambda>d. case d of [] \<Rightarrow> Inl ''short'' | b # _ \<Rightarrow> Inr (ucast b)), fk_list = (\<lambda>_. Inr [])\<rparr>"

abbreviation "demo_friends \<equiv> NewFriendServer (mem_ops []) (mem_ops [''user_id'', ''username'']) demo_friend_codec"

definition friends_start :: "(mem_coll, mem_coll) friend_server" where
  "friends_start = \<lparr>fs_friends = \<lparr>mc_docs = [], mc_next = 1\<rparr>, fs_users = demo_users\<rparr>"

interpretation mem_friend_service: friend_service demo_friends "rows_in friend_row mc_docs"
    "rows_valid friend_row mc_docs (\<lambda>c. uniques [] (mc_docs c))" "users_in mc_docs"
    "users_valid mc_docs (\<lambda>c. uniques [''user_id'', ''username''] (mc_docs c))"
  by (rule friends_on_mongo [OF mem.mongo_collection_axioms mem_users.user_collection_axioms])

abbreviation "mem_friend_ok \<equiv> friend_server_ok (rows_valid friend_row mc_docs (\<lambda>c. uniques [] (mc_docs c)))
    (users_valid mc_docs (\<lambda>c. uniques [''user_id'', ''username''] (mc_docs c)))"

lemma friends_start_ok: "mem_friend_ok friends_start" and friends_start_none: "mc_docs (fs_friends friends_start) = []"
  using demo_users_valid by (simp_all add: friend_server_ok_def friends_start_def rows_valid_def rows_all_def uniques_def)

lemma mem_friend_run: "mem_friend_ok s \<Longrightarrow> friends_wf (accepted demo_friend_codec []) (rows_in friend_row mc_docs (fs_friends s)) \<Longrightarrow>
    mem_friend_ok (friend_run demo_friends calls s)"
  using mem_friend_service.run_keeps [of s "[]" calls] by (simp add: NewFriendServer_def)

lemma mem_friend_run_start: "mem_friend_ok (friend_run demo_friends calls friends_start)"
  by (rule mem_friend_run [OF friends_start_ok]) (simp add: rows_in_def friends_start_none friends_wf_def)

subsection \<open>Properties\<close>

text \<open>
  C22: Nobody gets a friend without an acceptance. After any run of the four handlers that starts without
  friend records, whoever is listed as a friend of a user is another user, and one of the two has
  accepted the other in that run.
\<close>

theorem friendship_traceback:
  assumes "mongo_collection fops fdocs fvalid" and "user_collection uops udocs uvalid"
    and "friend_server_ok (rows_valid friend_row fdocs fvalid) (users_valid udocs uvalid) s" and "fdocs (fs_friends s) = []"
    and "GetFriends fops u (fs_friends (friend_run (NewFriendServer fops uops codec) calls s)) = (c', Inr fs)" and "f \<in> set fs"
  shows "fr_UserID f = u \<and> fr_FriendID f \<notin> {0, u} \<and>
    (accepted codec calls u (fr_FriendID f) \<or> accepted codec calls (fr_FriendID f) u)"
proof -
  note svc = friends_on_mongo [OF assms(1,2), of codec]
  have "friends_wf (accepted (fd_codec (NewFriendServer fops uops codec)) []) (rows_in friend_row fdocs (fs_friends s))"
    using assms(4) by (simp add: rows_in_def friends_wf_def)
  note run = friend_service.run_keeps [OF svc assms(3) this, of calls]
  let ?last = "fs_friends (friend_run (NewFriendServer fops uops codec) calls s)"
  have "friend_store (NewFriendRepository fops) (rows_in friend_row fdocs) (rows_valid friend_row fdocs fvalid)"
    by (rule mongo_collection.friend_store_law [OF assms(1)])
  from friend_store.get_friends [OF this, of ?last u c' "Inr fs"] run assms(5)
  have "mset fs = mset (filter (\<lambda>x. fr_UserID x = u \<and> fr_Status x = 1) (rows_in friend_row fdocs ?last))"
    by (auto simp: friend_server_ok_def NewFriendRepository_def)
  from mset_eq_setD [OF this] assms(6) run show ?thesis
    by (auto simp: friends_wf_def friend_wf_def NewFriendServer_def)
qed

definition "friends_calls = [CallAdd unix_epoch (demo_req 7 [8]), CallAccept unix_epoch (demo_req 8 [7])]"

definition "befriended = friend_run demo_friends friends_calls friends_start"

lemma friendship_traceback_witness:
  "\<exists>c' f. GetFriends (mem_ops []) 7 (fs_friends befriended) = (c', Inr [f]) \<and> fr_FriendID f = 8 \<and>
     (accepted demo_friend_codec friends_calls 7 8 \<or> accepted demo_friend_codec friends_calls 8 7)"
proof -
  let ?r = "GetFriends (mem_ops []) 7 (fs_friends befriended)"
  have "(case snd ?r of Inr [f] \<Rightarrow> fr_FriendID f = 8 | _ \<Rightarrow> False)" by code_simp
  then obtain c' f where r: "?r = (c', Inr [f])" "fr_FriendID f = 8"
    by (cases ?r) (auto split: sum.splits list.splits)
  from friendship_traceback [OF mem.mongo_collection_axioms mem_users.user_collection_axioms friends_start_ok friends_start_none
      r(1) [unfolded befriended_def], of f] r show ?thesis by auto
qed

text \<open>
  A successful acceptance of a pending request makes the two users friends of each other: both have a
  confirmed record of the other.
\<close>

theorem accept_makes_friends:
  assumes "mongo_collection fops fdocs fvalid" and "user_collection uops udocs uvalid"
    and "friend_server_ok (rows_valid friend_row fdocs fvalid) (users_valid udocs uvalid) s"
    and "fk_accept codec (br_Data req) = Inr fid" and "x \<in> set (rows_in friend_row fdocs (fs_friends s))"
    and "pending fid (GetUserId (br_Header req)) x"
    and "AcceptFriend (NewFriendServer fops uops codec) now req s = (s', resp)" and "bp_Code resp = 0"
  shows "\<exists>a b. {a, b} \<subseteq> set (rows_in friend_row fdocs (fs_friends s')) \<and> fr_Status a = 1 \<and> fr_Status b = 1 \<and>
    between fid (GetUserId (br_Header req)) a \<and> between (GetUserId (br_Header req)) fid b"
proof -
  let ?u = "GetUserId (br_Header req)" and ?L = "\<lambda>s. rows_in friend_row fdocs (fs_friends s)"
  from friend_service.accept_handler [OF friends_on_mongo [OF assms(1,2)] assms(3,7)] assms(4,8) obtain mid where
    m: "changed_or_none (pending fid ?u) (set_status now 1) False (?L s) mid" "friend_added now ?u fid 1 [] mid (?L s')"
    by (auto simp: NewFriendServer_def)
  from m(1) assms(5,6) have "one_changed (pending fid ?u) (set_status now 1) (?L s) mid" by (auto simp: changed_or_none_def)
  from one_changed_hit [OF this] obtain y where "pending fid ?u y" "set_status now 1 y \<in> set mid" by blast
  with m(2) have "set_status now 1 y \<in> set (?L s')" "between fid ?u (set_status now 1 y)"
    by (auto simp: friend_added_def pending_def between_def set_status_def)
  moreover from friend_added_new [OF m(2)] obtain b where "?L s' = mid @ [b]" "fr_Status b = 1" "between ?u fid b" by blast
  ultimately show ?thesis by (intro exI [of _ "set_status now 1 y"] exI [of _ b]) (auto simp: set_status_def)
qed

definition "requested = friend_run demo_friends [CallAdd unix_epoch (demo_req 7 [8])] friends_start"

lemma accept_makes_friends_witness:
  "\<exists>a b. {a, b} \<subseteq> set (rows_in friend_row mc_docs (fs_friends (fst (AcceptFriend demo_friends unix_epoch (demo_req 8 [7]) requested)))) \<and>
     fr_Status a = 1 \<and> fr_Status b = 1 \<and> between 7 8 a \<and> between 8 7 b"
proof -
  have ok: "mem_friend_ok requested" unfolding requested_def by (rule mem_friend_run_start)
  have "\<exists>x \<in> set (rows_in friend_row mc_docs (fs_friends requested)). pending 7 8 x" by code_simp
  then obtain x where x: "x \<in> set (rows_in friend_row mc_docs (fs_friends requested))" "pending 7 8 x" by blast
  have code: "bp_Code (snd (AcceptFriend demo_friends unix_epoch (demo_req 8 [7]) requested)) = 0" by code_simp
  have d: "fk_accept demo_friend_codec (br_Data (demo_req 8 [7])) = Inr 7" "GetUserId (br_Header (demo_req 8 [7])) = 8" by code_simp+
  from accept_makes_friends [OF mem.mongo_collection_axioms mem_users.user_collection_axioms ok d(1) x(1) _ surjective_pairing code] x(2) d(2)
  show ?thesis by simp
qed

text \<open>
  An acceptance does not need a request. \<^verbatim>\<open>AcceptFriend\<close> ignores whether its update found one: naming any
  other user of the database, who never asked, the caller gets a confirmed record of that user, who has
  none of the caller.
\<close>

theorem accept_without_request:
  assumes "mongo_collection fops fdocs fvalid" and "user_collection uops udocs uvalid"
    and "friend_server_ok (rows_valid friend_row fdocs fvalid) (users_valid udocs uvalid) s"
    and "fk_accept codec (br_Data req) = Inr fid"
    and "\<forall>x \<in> set (rows_in friend_row fdocs (fs_friends s)). \<not> between fid (GetUserId (br_Header req)) x"
    and "AcceptFriend (NewFriendServer fops uops codec) now req s = (s', resp)" and "bp_Code resp = 0"
  shows "(\<exists>b \<in> set (rows_in friend_row fdocs (fs_friends s')). fr_Status b = 1 \<and> between (GetUserId (br_Header req)) fid b) \<and>
    \<not> (\<exists>b \<in> set (rows_in friend_row fdocs (fs_friends s')). between fid (GetUserId (br_Header req)) b)"
proof -
  let ?u = "GetUserId (br_Header req)" and ?L = "\<lambda>s. rows_in friend_row fdocs (fs_friends s)"
  from friend_service.accept_handler [OF friends_on_mongo [OF assms(1,2)] assms(3,6)] assms(4,7) obtain mid where
    m: "changed_or_none (pending fid ?u) (set_status now 1) False (?L s) mid" "friend_added now ?u fid 1 [] mid (?L s')" "?u \<noteq> fid"
    by (auto simp: NewFriendServer_def)
  from m(1) assms(5) have "mid = ?L s" by (auto simp: changed_or_none_def one_changed_def pending_def)
  with friend_added_new [OF m(2)] m(3) assms(5) show ?thesis by (auto simp: between_def)
qed

lemma accept_without_request_witness:
  "\<exists>b \<in> set (rows_in friend_row mc_docs (fs_friends (fst (AcceptFriend demo_friends unix_epoch (demo_req 8 [7]) friends_start)))).
     fr_Status b = 1 \<and> between 8 7 b"
proof -
  have code: "bp_Code (snd (AcceptFriend demo_friends unix_epoch (demo_req 8 [7]) friends_start)) = 0" by code_simp
  have d: "fk_accept demo_friend_codec (br_Data (demo_req 8 [7])) = Inr 7" "GetUserId (br_Header (demo_req 8 [7])) = 8" by code_simp+
  have "\<forall>x \<in> set (rows_in friend_row mc_docs (fs_friends friends_start)). \<not> between 7 (GetUserId (br_Header (demo_req 8 [7]))) x"
    by (simp add: rows_in_def friends_start_none)
  from accept_without_request [OF mem.mongo_collection_axioms mem_users.user_collection_axioms friends_start_ok d(1) this surjective_pairing code] d(2)
  show ?thesis by simp
qed

text \<open>
  A successful deletion removes one record in each direction, where there is one, and no other record.
  So it ends a friendship of two records, but of several records for a pair, which repeated acceptances
  leave, all but one stay.
\<close>

theorem delete_removes_one:
  assumes "mongo_collection fops fdocs fvalid" and "user_collection uops udocs uvalid"
    and "friend_server_ok (rows_valid friend_row fdocs fvalid) (users_valid udocs uvalid) s"
    and "fk_accept codec (br_Data req) = Inr fid" and "fid \<noteq> GetUserId (br_Header req)"
    and "DeleteFriend (NewFriendServer fops uops codec) req s = (s', resp)" and "bp_Code resp = 0"
  shows "length (filter (between (GetUserId (br_Header req)) fid) (rows_in friend_row fdocs (fs_friends s'))) =
      length (filter (between (GetUserId (br_Header req)) fid) (rows_in friend_row fdocs (fs_friends s))) - 1 \<and>
    length (filter (between fid (GetUserId (br_Header req))) (rows_in friend_row fdocs (fs_friends s'))) =
      length (filter (between fid (GetUserId (br_Header req))) (rows_in friend_row fdocs (fs_friends s))) - 1 \<and>
    filter (\<lambda>x. {fr_UserID x, fr_FriendID x} \<noteq> {GetUserId (br_Header req), fid}) (rows_in friend_row fdocs (fs_friends s')) =
      filter (\<lambda>x. {fr_UserID x, fr_FriendID x} \<noteq> {GetUserId (br_Header req), fid}) (rows_in friend_row fdocs (fs_friends s))"
proof -
  let ?u = "GetUserId (br_Header req)" and ?L = "\<lambda>s. rows_in friend_row fdocs (fs_friends s)"
    and ?q = "\<lambda>x. {fr_UserID x, fr_FriendID x} \<noteq> {GetUserId (br_Header req), fid}"
  from friend_service.delete_handler [OF friends_on_mongo [OF assms(1,2)] assms(3,6)] assms(4,7) obtain mid where
    m: "removed_or_none (between ?u fid) False (?L s) mid" "removed_or_none (between fid ?u) False mid (?L s')"
    by (auto simp: NewFriendServer_def)
  have apart: "between ?u fid x \<Longrightarrow> \<not> between fid ?u x" "between fid ?u x \<Longrightarrow> \<not> between ?u fid x"
    "between ?u fid x \<Longrightarrow> \<not> ?q x" "between fid ?u x \<Longrightarrow> \<not> ?q x" for x
    using assms(5) by (auto simp: between_def)
  show ?thesis
    using removed_counts(1) [OF m(1)] removed_counts(2) [OF m(1) apart(1)] removed_counts(2) [OF m(1) apart(3)]
      removed_counts(1) [OF m(2)] removed_counts(2) [OF m(2) apart(2)] removed_counts(2) [OF m(2) apart(4)] by simp
qed

definition "twice_accepted = friend_run demo_friends (friends_calls @ [CallAccept unix_epoch (demo_req 8 [7])]) friends_start"

lemma delete_removes_one_witness:
  "length (filter (between 8 7) (rows_in friend_row mc_docs (fs_friends (fst (DeleteFriend demo_friends (demo_req 8 [7]) twice_accepted))))) = 1"
proof -
  have ok: "mem_friend_ok twice_accepted" unfolding twice_accepted_def by (rule mem_friend_run_start)
  have code: "bp_Code (snd (DeleteFriend demo_friends (demo_req 8 [7]) twice_accepted)) = 0" by code_simp
  have two: "length (filter (between 8 7) (rows_in friend_row mc_docs (fs_friends twice_accepted))) = 2" by code_simp
  have d: "fk_accept demo_friend_codec (br_Data (demo_req 8 [7])) = Inr 7" "GetUserId (br_Header (demo_req 8 [7])) = 8" by code_simp+
  have ne: "(7 :: u64) \<noteq> GetUserId (br_Header (demo_req 8 [7]))" by (simp add: d)
  from delete_removes_one [OF mem.mongo_collection_axioms mem_users.user_collection_axioms ok d(1) ne surjective_pairing code] two d(2)
  show ?thesis by simp
qed

end
