(* ===== verification/MailServer.thy ===== *)
theory MailServer
  imports Mails Protocol
begin

text \<open>
  \<^verbatim>\<open>internal/server/mail_server.go\<close>: the five handlers of \<^verbatim>\<open>MailService\<close> over the mail repository. The state
  is the collection of mails and the counter of mail identifiers, which starts at 1 in every process. A
  handler that asserts the type of the context value panics when the value is not a \<^verbatim>\<open>uint64\<close>; the
  branches under \<^verbatim>\<open>if false\<close> are left out, as is logging. The readings of the clock within one call are one
  argument.
\<close>

subsection \<open>Messages and the state\<close>

record mail_reward_info =
  rd_ItemId :: u32
  rd_ItemType :: int
  rd_Quantity :: u32

record mail_info =
  mi_MailId :: u64
  mi_FromUserId :: u64
  mi_FromNickname :: string
  mi_ToUserId :: u64
  mi_MailType :: int
  mi_Title :: string
  mi_Content :: string
  mi_Rewards :: "mail_reward_info list"
  mi_IsRead :: bool
  mi_IsClaimed :: bool
  mi_SendTime :: u32
  mi_ExpireTime :: u32

record mail_list_request =
  mq_Limit :: int
  mq_Offset :: int
  mq_MailType :: int

record mail_list_response =
  mr_Mails :: "mail_info list"
  mr_Total :: int

record send_mail_request =
  sm_ToUserId :: u64
  sm_MailType :: int
  sm_Title :: string
  sm_Content :: string
  sm_Rewards :: "mail_reward_info list"
  sm_ExpireTime :: u32

record 'c mail_server =
  ms_mails :: 'c
  ms_nextMailID :: u64

definition NewMailServer :: "'c \<Rightarrow> 'c mail_server" where
  "NewMailServer c = \<lparr>ms_mails = c, ms_nextMailID = 1\<rparr>"

definition generateMailID :: "'c mail_server \<Rightarrow> u64 \<times> 'c mail_server" where
  "generateMailID s = (ms_nextMailID s, s\<lparr>ms_nextMailID := ms_nextMailID s + 1\<rparr>)"

subsection \<open>GetMailList\<close>

definition proto_reward :: "mail_reward \<Rightarrow> mail_reward_info" where
  "proto_reward w = \<lparr>rd_ItemId = of_int (mw_ItemID w), rd_ItemType = 1, rd_Quantity = 1\<rparr>"

definition proto_mail :: "time \<Rightarrow> mail \<Rightarrow> mail_info" where
  "proto_mail now m = \<lparr>mi_MailId = ml_MailID m, mi_FromUserId = ml_FromUserID m,
     mi_FromNickname = (if ml_FromUserID m > 0 then mt_UserN @ show_id (ml_FromUserID m) else mt_System),
     mi_ToUserId = ml_ToUserID m, mi_MailType = 1, mi_Title = ml_Title m, mi_Content = ml_Content m,
     mi_Rewards = map proto_reward (ml_Rewards m), mi_IsRead = ml_IsRead m, mi_IsClaimed = ml_IsClaimed m,
     mi_SendTime = of_int (time_unix now), mi_ExpireTime = 0\<rparr>"

definition GetMailList :: "'c mail_repo \<Rightarrow> time \<Rightarrow> nat \<Rightarrow> ctx_value option \<Rightarrow> mail_list_request \<Rightarrow> 'c mail_server \<Rightarrow>
    ('c mail_server \<times> mail_list_response \<times> string option) outcome" where
  "GetMailList repo now got ctx req s =
     (case ctx of
        None \<Rightarrow> Ret (s, \<lparr>mr_Mails = [], mr_Total = 0\<rparr>, Some mt_NotLoggedIn)
      | Some (CtxUint64 uid) \<Rightarrow>
          (let limit = (if mq_Limit req \<le> 0 \<or> mq_Limit req > 100 then 20 else mq_Limit req);
               offset = (if mq_Offset req < 0 then 0 else mq_Offset req)
           in case mx_GetMailsByUserID repo now got uid (mq_MailType req) limit offset (ms_mails s) of
                (c, Inl e) \<Rightarrow> Ret (s\<lparr>ms_mails := c\<rparr>, \<lparr>mr_Mails = [], mr_Total = 0\<rparr>, Some e)
              | (c, Inr (ms, n)) \<Rightarrow> Ret (s\<lparr>ms_mails := c\<rparr>, \<lparr>mr_Mails = map (proto_mail now) ms, mr_Total = wrap_i32 n\<rparr>, None))
      | Some _ \<Rightarrow> Panic)"

subsection \<open>The handlers that act on a mail\<close>

definition as_user :: "ctx_value option \<Rightarrow> 'c mail_server \<Rightarrow> (u64 \<Rightarrow> 'c mail_server \<times> common_response) \<Rightarrow> ('c mail_server \<times> common_response) outcome" where
  "as_user ctx s body =
     (case ctx of None \<Rightarrow> Ret (s, common 1001 mt_NotLoggedIn) | Some (CtxUint64 uid) \<Rightarrow> Ret (body uid) | Some _ \<Rightarrow> Panic)"

text \<open>The checks the three handlers share, line for line, but for the text of the denial.\<close>

definition with_mail :: "'c mail_repo \<Rightarrow> u64 \<Rightarrow> u64 \<Rightarrow> string \<Rightarrow> 'c mail_server \<Rightarrow> (mail \<Rightarrow> 'c mail_server \<Rightarrow> 'c mail_server \<times> common_response) \<Rightarrow>
    'c mail_server \<times> common_response" where
  "with_mail repo uid mid denied s body =
     (if mid = 0 then (s, common 1002 mt_EmptyMailId)
      else case mx_GetMailByID repo mid (ms_mails s) of
        (c, Inl _) \<Rightarrow> (s\<lparr>ms_mails := c\<rparr>, common 1003 mt_NoMail)
      | (c, Inr m) \<Rightarrow>
          if ml_ToUserID m \<noteq> uid then (s\<lparr>ms_mails := c\<rparr>, common 1004 denied)
          else body m (s\<lparr>ms_mails := c\<rparr>))"

definition ReadMail :: "'c mail_repo \<Rightarrow> time \<Rightarrow> ctx_value option \<Rightarrow> u64 \<Rightarrow> 'c mail_server \<Rightarrow> ('c mail_server \<times> common_response) outcome" where
  "ReadMail repo now ctx mid s = as_user ctx s (\<lambda>uid. with_mail repo uid mid mt_NoAccess s (\<lambda>m s1.
     if ml_IsRead m then (s1, common 0 mt_ReadDone)
     else case mx_UpdateMailReadStatus repo now mid True (ms_mails s1) of
       (c, Some _) \<Rightarrow> (s1\<lparr>ms_mails := c\<rparr>, common 1006 mt_UpdateFailed)
     | (c, None) \<Rightarrow> (s1\<lparr>ms_mails := c\<rparr>, common 0 mt_ReadDone)))"

text \<open>\<^verbatim>\<open>ClaimRewards\<close> is a check of the mail it has read and then the updates.\<close>

definition claim_check :: "mail \<Rightarrow> common_response option" where
  "claim_check m =
     (if ml_Rewards m = [] then Some (common 1006 mt_NoRewards)
      else if ml_IsClaimed m then Some (common 1007 mt_Claimed)
      else None)"

definition claim_commit :: "'c mail_repo \<Rightarrow> time \<Rightarrow> u64 \<Rightarrow> mail \<Rightarrow> 'c mail_server \<Rightarrow> 'c mail_server \<times> common_response" where
  "claim_commit repo now mid m s =
     (case mx_UpdateMailClaimStatus repo now mid True (ms_mails s) of
        (c, Some _) \<Rightarrow> (s\<lparr>ms_mails := c\<rparr>, common 1008 mt_UpdateFailed)
      | (c, None) \<Rightarrow>
          (s\<lparr>ms_mails := if ml_IsRead m then c else fst (mx_UpdateMailReadStatus repo now mid True c)\<rparr>,
           common_data mt_ClaimDone (''{'' @ quoted ''rewards_count'' @ '':'' @ fmt_nat (length (ml_Rewards m)) @ ''}'')))"

definition ClaimRewards :: "'c mail_repo \<Rightarrow> time \<Rightarrow> ctx_value option \<Rightarrow> u64 \<Rightarrow> 'c mail_server \<Rightarrow> ('c mail_server \<times> common_response) outcome" where
  "ClaimRewards repo now ctx mid s = as_user ctx s (\<lambda>uid. with_mail repo uid mid mt_NoAccess s (\<lambda>m s1.
     case claim_check m of Some resp \<Rightarrow> (s1, resp) | None \<Rightarrow> claim_commit repo now mid m s1))"

definition DeleteMail :: "'c mail_repo \<Rightarrow> ctx_value option \<Rightarrow> u64 \<Rightarrow> 'c mail_server \<Rightarrow> ('c mail_server \<times> common_response) outcome" where
  "DeleteMail repo ctx mid s = as_user ctx s (\<lambda>uid. with_mail repo uid mid mt_NoDelete s (\<lambda>m s1.
     if ml_Rewards m \<noteq> [] \<and> \<not> ml_IsClaimed m then (s1, common 1005 mt_Unclaimed)
     else case mx_DeleteMail repo mid (ms_mails s1) of
       (c, Some e) \<Rightarrow> (s1\<lparr>ms_mails := c\<rparr>, if e = mt_NoMail then common 1003 mt_NoMail else common 1006 mt_DeleteFailed)
     | (c, None) \<Rightarrow> (s1\<lparr>ms_mails := c\<rparr>, common 0 mt_DeleteDone)))"

subsection \<open>SendMail\<close>

definition stored_reward :: "mail_reward_info \<Rightarrow> mail_reward" where
  "stored_reward w = \<lparr>mw_Type = 0, mw_ItemID = sint (rd_ItemId w), mw_Count = 0, mw_Name = []\<rparr>"

definition new_mail :: "u64 \<Rightarrow> u64 \<Rightarrow> send_mail_request \<Rightarrow> mail" where
  "new_mail mid from req = \<lparr>ml_ID = None, ml_MailID = mid, ml_ToUserID = sm_ToUserId req, ml_FromUserID = from,
     ml_Title = sm_Title req, ml_Content = sm_Content req, ml_Rewards = map stored_reward (sm_Rewards req),
     ml_IsRead = False, ml_IsClaimed = False, ml_ExpireAt = 0, ml_CreatedAt = 0, ml_UpdatedAt = 0\<rparr>"

definition SendMail :: "'c mail_repo \<Rightarrow> time \<Rightarrow> ctx_value option \<Rightarrow> send_mail_request \<Rightarrow> 'c mail_server \<Rightarrow> ('c mail_server \<times> common_response) outcome" where
  "SendMail repo now ctx req s = as_user ctx s (\<lambda>from.
     if sm_ToUserId req = 0 then (s, common 1002 mt_EmptyTo)
     else if sm_ToUserId req = from then (s, common 1003 mt_NoSelfMail)
     else if sm_Title req = [] then (s, common 1004 mt_EmptyTitle)
     else if sm_Content req = [] then (s, common 1005 mt_EmptyContent)
     else
       (let (mid, s1) = generateMailID s
        in case mx_CreateMail repo now (new_mail mid from req) (ms_mails s1) of
             (c, Some _) \<Rightarrow> (s1\<lparr>ms_mails := c\<rparr>, common 1007 mt_SendFailed)
           | (c, None) \<Rightarrow> (s1\<lparr>ms_mails := c\<rparr>,
               common_data mt_SendDone (''{'' @ quoted ''mail_id'' @ '':'' @ show_id mid @ ''}''))))"

subsection \<open>Calls of the service\<close>

datatype mail_call =
    CallList time nat "ctx_value option" mail_list_request | CallRead time "ctx_value option" u64
  | CallClaim time "ctx_value option" u64 | CallDelete "ctx_value option" u64 | CallSend time "ctx_value option" send_mail_request

fun mail_step :: "'c mail_repo \<Rightarrow> mail_call \<Rightarrow> 'c mail_server \<Rightarrow> ('c mail_server \<times> int) outcome" where
  "mail_step repo (CallList now got ctx req) s =
     map_outcome (apsnd (\<lambda>(resp, err). if err = None then 0 else - 1)) (GetMailList repo now got ctx req s)"
| "mail_step repo (CallRead now ctx mid) s = map_outcome (apsnd cr_Code) (ReadMail repo now ctx mid s)"
| "mail_step repo (CallClaim now ctx mid) s = map_outcome (apsnd cr_Code) (ClaimRewards repo now ctx mid s)"
| "mail_step repo (CallDelete ctx mid) s = map_outcome (apsnd cr_Code) (DeleteMail repo ctx mid s)"
| "mail_step repo (CallSend now ctx req) s = map_outcome (apsnd cr_Code) (SendMail repo now ctx req s)"

text \<open>A run with the code of each call, up to a panic.\<close>

fun mail_run :: "'c mail_repo \<Rightarrow> mail_call list \<Rightarrow> 'c mail_server \<Rightarrow> (mail_call \<times> int) list \<times> 'c mail_server" where
  "mail_run repo [] s = ([], s)"
| "mail_run repo (call # calls) s = (case mail_step repo call s of
      Panic \<Rightarrow> ([], s)
    | Ret (s1, code) \<Rightarrow> (let (log, s2) = mail_run repo calls s1 in ((call, code) # log, s2)))"

subsection \<open>The identifiers of mails and what has been spent\<close>

definition mails_wf :: "mail list \<Rightarrow> u64 \<Rightarrow> bool" where
  "mails_wf ms n \<longleftrightarrow> distinct (map ml_MailID ms) \<and> (\<forall>m \<in> set ms. ml_MailID m < n)"

text \<open>No mail of the identifier has rewards left, now or later.\<close>

definition spent :: "u64 \<Rightarrow> mail list \<Rightarrow> u64 \<Rightarrow> bool" where
  "spent mid ms n \<longleftrightarrow> mid < n \<and> (\<forall>m \<in> set ms. of_mail mid m \<longrightarrow> ml_IsClaimed m)"

text \<open>The text of a mail and its rewards: all but the flags and the time of the last change.\<close>

definition same_letter :: "mail \<Rightarrow> mail \<Rightarrow> bool" where
  "same_letter m m' \<longleftrightarrow> ml_MailID m' = ml_MailID m \<and> ml_ToUserID m' = ml_ToUserID m \<and> ml_FromUserID m' = ml_FromUserID m \<and>
     ml_Title m' = ml_Title m \<and> ml_Content m' = ml_Content m \<and> ml_Rewards m' = ml_Rewards m"

definition waiting :: "mail \<Rightarrow> mail list \<Rightarrow> bool" where
  "waiting m ms \<longleftrightarrow> (\<exists>m' \<in> set ms. same_letter m m' \<and> \<not> ml_IsClaimed m')"

text \<open>The ways in which a handler changes the mails and the counter.\<close>

inductive mail_move :: "(u64 \<times> u64) option \<Rightarrow> mail list \<Rightarrow> u64 \<Rightarrow> mail list \<Rightarrow> u64 \<Rightarrow> bool" where
  stay: "mail_move None ms n ms n"
| read: "changed_or_none (of_mail mid) (set_read now True) failed ms ms' \<Longrightarrow> mail_move None ms n ms' n"
| claim: "m \<in> set ms \<Longrightarrow> of_mail mid m \<Longrightarrow> ml_Rewards m \<noteq> [] \<Longrightarrow> \<not> ml_IsClaimed m \<Longrightarrow>
    changed_or_none (of_mail mid) (set_claimed now True) failed ms mid_ms \<Longrightarrow>
    changed_or_none (of_mail mid) (set_read now True) failed' mid_ms ms' \<Longrightarrow> mail_move (Some (ml_ToUserID m, mid)) ms n ms' n"
| delete: "m \<in> set ms \<Longrightarrow> of_mail mid m \<Longrightarrow> ml_Rewards m = [] \<or> ml_IsClaimed m \<Longrightarrow> one_removed (of_mail mid) ms ms' \<Longrightarrow>
    mail_move None ms n ms' n"
| send: "mail_added now (new_mail n from req) ms ms' \<or> ms' = ms \<Longrightarrow> mail_move None ms n ms' (n + 1)"

lemma changed_ids: "changed_or_none p g failed ms ms' \<Longrightarrow> (\<And>m. ml_MailID (g m) = ml_MailID m) \<Longrightarrow> map ml_MailID ms' = map ml_MailID ms"
  by (auto simp: changed_or_none_def one_changed_def)

lemma wf_ids: "map ml_MailID ms' = map ml_MailID ms \<Longrightarrow> mails_wf ms' n = mails_wf ms n"
proof -
  assume eq: "map ml_MailID ms' = map ml_MailID ms"
  have "mails_wf x n \<longleftrightarrow> distinct (map ml_MailID x) \<and> (\<forall>i \<in> set (map ml_MailID x). i < n)" for x
    by (simp add: mails_wf_def)
  with eq show ?thesis by metis
qed

lemma set_ids [simp]: "ml_MailID (set_read now b m) = ml_MailID m" "ml_MailID (set_claimed now b m) = ml_MailID m"
  "ml_IsClaimed (set_read now b m) = ml_IsClaimed m" "ml_IsClaimed (set_claimed now b m) = b"
  by (simp_all add: set_read_def set_claimed_def)

lemma set_letter [simp]: "same_letter m (set_read now b m') = same_letter m m'" "same_letter m (set_claimed now b m') = same_letter m m'"
  by (simp_all add: set_read_def set_claimed_def same_letter_def)

lemma wf_mail_ids: "mails_wf ms n \<Longrightarrow> m \<in> set ms \<Longrightarrow> m' \<in> set ms \<Longrightarrow> ml_MailID m' = ml_MailID m \<Longrightarrow> m' = m"
  by (auto simp: mails_wf_def distinct_map dest: inj_onD)

lemma mail_added_set:
  "mail_added now (new_mail n from req) ms ms' \<Longrightarrow>
   \<exists>x. ms' = ms @ [x] \<and> ml_MailID x = n \<and> ml_ToUserID x = sm_ToUserId req \<and> ml_FromUserID x = from \<and> ml_Title x = sm_Title req \<and>
     ml_Content x = sm_Content req \<and> ml_Rewards x = map stored_reward (sm_Rewards req) \<and> \<not> ml_IsRead x \<and> \<not> ml_IsClaimed x"
  by (auto simp: mail_added_def stored_mail_def new_mail_def)

lemma next_above: "unat (n :: u64) < 2 ^ 64 - 1 \<Longrightarrow> i < n \<Longrightarrow> i < n + 1" "unat (n :: u64) < 2 ^ 64 - 1 \<Longrightarrow> n < n + 1"
  using unat_add_lem [of n 1] by (auto simp: word_less_nat_alt)

lemma move_wf:
  assumes "mail_move who ms n ms' n'" and "mails_wf ms n" and "unat n < 2 ^ 64 - 1"
  shows "mails_wf ms' n' \<and> unat n' \<le> unat n + 1"
  using assms
proof (induction rule: mail_move.induct)
  case (read mid now failed ms ms' n)
  from wf_ids [OF changed_ids [OF read(1) set_ids(1)]] read(2) show ?case by simp
next
  case (claim m ms mid now failed mid_ms failed' ms' n)
  from wf_ids [OF changed_ids [OF claim(5) set_ids(2)]] wf_ids [OF changed_ids [OF claim(6) set_ids(1)]] claim(7) show ?case by simp
next
  case (delete m ms mid ms' n)
  then show ?case by (auto simp: mails_wf_def one_removed_def)
next
  case (send now n "from" req ms ms')
  have succ: "unat (n + 1) = unat n + 1" using send(3) unat_add_lem [of n 1] by simp
  have below: "i < n \<Longrightarrow> i < n + 1" "n < n + 1" for i using next_above [OF send(3)] by blast+
  have same: "mails_wf ms (n + 1)" using send(2) below(1) by (simp add: mails_wf_def)
  have more: "mails_wf (ms @ [x]) (n + 1)" if "ml_MailID x = n" for x
    using that send(2) below by (auto simp: mails_wf_def)
  from send(1) have "mails_wf ms' (n + 1)"
  proof
    assume "mail_added now (new_mail n from req) ms ms'"
    from mail_added_set [OF this] obtain x where "ms' = ms @ [x]" "ml_MailID x = n" by blast
    with more show ?thesis by simp
  qed (simp add: same)
  with succ show ?case by simp
qed simp

lemma changed_claimed:
  "changed_or_none p g failed ms ms' \<Longrightarrow> (\<And>m. ml_MailID (g m) = ml_MailID m) \<Longrightarrow> (\<And>m. ml_IsClaimed m \<Longrightarrow> ml_IsClaimed (g m)) \<Longrightarrow>
   \<forall>m \<in> set ms. of_mail mid m \<longrightarrow> ml_IsClaimed m \<Longrightarrow> \<forall>m \<in> set ms'. of_mail mid m \<longrightarrow> ml_IsClaimed m"
  by (auto simp: changed_or_none_def one_changed_def)

lemma move_spent:
  assumes "mail_move who ms n ms' n'" and "spent mid ms n" and "unat n < 2 ^ 64 - 1"
  shows "spent mid ms' n'"
  using assms
proof (induction rule: mail_move.induct)
  case (read i now failed ms ms' n)
  from changed_claimed [OF read(1) set_ids(1)] read(2) show ?case by (simp add: spent_def) blast
next
  case (claim m ms i now failed mid_ms failed' ms' n)
  have "\<forall>m \<in> set mid_ms. of_mail mid m \<longrightarrow> ml_IsClaimed m"
    by (rule changed_claimed [OF claim(5) set_ids(2)]) (use claim(7) in \<open>simp_all add: spent_def\<close>)
  from changed_claimed [OF claim(6) set_ids(1) _ this] claim(7) show ?case unfolding spent_def by simp
next
  case (delete m ms i ms' n)
  then show ?case by (auto simp: spent_def dest: one_removed_set)
next
  case (send now n "from" req ms ms')
  have n: "mid < n" and old: "\<forall>m \<in> set ms. of_mail mid m \<longrightarrow> ml_IsClaimed m" using send(2) by (simp_all add: spent_def)
  from next_above(1) [OF send(3) n] have less: "mid < n + 1" .
  from send(1) show ?case
  proof
    assume "mail_added now (new_mail n from req) ms ms'"
    from mail_added_set [OF this] obtain x where "ms' = ms @ [x]" "ml_MailID x = n" by blast
    with less old n show ?thesis by (auto simp: spent_def)
  qed (simp add: spent_def less old)
qed simp

lemma changed_waiting:
  assumes "changed_or_none (of_mail mid) g failed ms ms'" and "waiting m ms"
    and "\<And>m'. same_letter m (g m') = same_letter m m'" and "\<And>m'. ml_IsClaimed (g m') = ml_IsClaimed m' \<or> ml_MailID m \<noteq> mid"
  shows "waiting m ms'"
proof -
  from assms(2) obtain x where x: "x \<in> set ms" "same_letter m x" "\<not> ml_IsClaimed x" by (auto simp: waiting_def)
  show ?thesis
  proof (cases "one_changed (of_mail mid) g ms ms'")
    case True
    from one_changed_keep [OF this x(1)] x assms(3,4) show ?thesis by (fastforce simp: waiting_def same_letter_def)
  qed (use assms(1,2) in \<open>simp add: changed_or_none_def\<close>)
qed

lemma move_waiting:
  assumes "mail_move who ms n ms' n'" and "waiting m ms" and "mails_wf ms n" and "ml_Rewards m \<noteq> []"
    and "who \<noteq> Some (ml_ToUserID m, ml_MailID m)"
  shows "waiting m ms'"
  using assms
proof (induction rule: mail_move.induct)
  case (read i now failed ms ms' n)
  from changed_waiting [OF read(1,2)] show ?case by simp
next
  case (claim x ms i now failed mid_ms failed' ms' n)
  from claim(7) obtain y where y: "y \<in> set ms" "same_letter m y" by (auto simp: waiting_def)
  have "ml_MailID m \<noteq> i"
  proof
    assume i: "ml_MailID m = i"
    with y claim(2) have "x = y" using wf_mail_ids [OF claim(8) y(1) claim(1)] by (simp add: same_letter_def)
    with y claim(10) i show False by (simp add: same_letter_def)
  qed
  with changed_waiting [OF claim(5,7)] have "waiting m mid_ms" by simp
  from changed_waiting [OF claim(6) this] show ?case by simp
next
  case (delete x ms i ms' n)
  from delete(5) obtain y where y: "y \<in> set ms" "same_letter m y" "\<not> ml_IsClaimed y" by (auto simp: waiting_def)
  have "ml_MailID y \<noteq> i"
  proof
    assume "ml_MailID y = i"
    with wf_mail_ids [OF delete(6) y(1) delete(1)] delete(2) have "x = y" by simp
    with y delete(3,7) show False by (simp add: same_letter_def)
  qed
  from one_removed_keep [OF delete(4) y(1) this] y show ?case by (auto simp: waiting_def)
next
  case (send now n "from" req ms ms')
  then show ?case by (auto simp: waiting_def dest!: mail_added_set)
qed simp

subsection \<open>The service on its repository\<close>

fun claim_key :: "mail_call \<Rightarrow> (u64 \<times> u64) option" where
  "claim_key (CallClaim now (Some (CtxUint64 uid)) mid) = Some (uid, mid)"
| "claim_key _ = None"

lemma map_outcome_ret: "map_outcome f x = Ret y \<longleftrightarrow> (\<exists>z. x = Ret z \<and> y = f z)"
  by (cases x) auto

lemma stored_reward_fits: "reward_fits (stored_reward w)"
  using sint_greater_eq [of "rd_ItemId w"] sint_less [of "rd_ItemId w"] by (simp add: stored_reward_def reward_fits_def int_fits_def)

locale mail_service = mail_store repo mails mok for repo :: "'c mail_repo" and mails mok
begin

abbreviation "list s \<equiv> mails (ms_mails s)"

lemma as_user_cases:
  assumes "as_user ctx s body = Ret (s', resp)"
  obtains "s' = s" "cr_Code resp \<noteq> 0" | uid where "ctx = Some (CtxUint64 uid)" "body uid = (s', resp)"
  using assms by (auto simp: as_user_def common_def split: option.splits ctx_value.splits)

text \<open>The handler stops at one of the checks, with the mails as they are, or goes on with a mail of the caller.\<close>

lemma with_mail_cases:
  assumes "mok (ms_mails s)" and "with_mail repo uid mid denied s body = (s', resp)"
  obtains "mok (ms_mails s')" "list s' = list s" "ms_nextMailID s' = ms_nextMailID s" "cr_Code resp \<noteq> 0"
    | m s1 where "mok (ms_mails s1)" "list s1 = list s" "ms_nextMailID s1 = ms_nextMailID s" "m \<in> set (list s)" "of_mail mid m"
        "ml_ToUserID m = uid" "body m s1 = (s', resp)"
proof -
  obtain c r where g: "mx_GetMailByID repo mid (ms_mails s) = (c, r)" by fastforce
  note got = get [OF assms(1) g]
  consider "mid = 0" | e where "mid \<noteq> 0" "r = Inl e" | m where "mid \<noteq> 0" "r = Inr m" "ml_ToUserID m \<noteq> uid"
    | m where "mid \<noteq> 0" "r = Inr m" "ml_ToUserID m = uid" by (cases r) auto
  then show thesis
  proof cases
    case 1
    with assms show thesis by (intro that(1)) (auto simp: with_mail_def common_def)
  next
    case 2
    with g assms(2) got show thesis by (intro that(1)) (auto simp: with_mail_def common_def)
  next
    case 3
    with g assms(2) got show thesis by (intro that(1)) (auto simp: with_mail_def common_def)
  next
    case (4 m)
    with g assms(2) have "body m (s\<lparr>ms_mails := c\<rparr>) = (s', resp)" by (simp add: with_mail_def)
    with 4 got show thesis by (intro that(2) [of "s\<lparr>ms_mails := c\<rparr>" m]) auto
  qed
qed

lemma list_step:
  assumes "mok (ms_mails s)" and "GetMailList repo now got ctx req s = Ret (s', resp, err)"
  shows "mok (ms_mails s') \<and> list s' = list s \<and> ms_nextMailID s' = ms_nextMailID s \<and> resp = \<lparr>mr_Mails = [], mr_Total = 0\<rparr>"
proof -
  consider "ctx = None" | uid where "ctx = Some (CtxUint64 uid)"
    using assms(2) by (auto simp: GetMailList_def split: option.splits ctx_value.splits)
  then show ?thesis
  proof cases
    case 1
    with assms show ?thesis by (simp add: GetMailList_def)
  next
    case (2 uid)
    let ?limit = "if mq_Limit req \<le> 0 \<or> mq_Limit req > 100 then 20 else mq_Limit req"
      and ?offset = "if mq_Offset req < 0 then 0 else mq_Offset req"
    obtain c r where g: "mx_GetMailsByUserID repo now got uid (mq_MailType req) ?limit ?offset (ms_mails s) = (c, r)" by fastforce
    from list [OF assms(1) g] g 2 assms(2) show ?thesis
      by (cases r) (auto simp: GetMailList_def Let_def wrap_i32_def)
  qed
qed

lemma read_step:
  assumes "mok (ms_mails s)" and "ReadMail repo now ctx mid s = Ret (s', resp)"
  shows "mok (ms_mails s') \<and> ms_nextMailID s' = ms_nextMailID s \<and>
    (list s' = list s \<or> changed_or_none (of_mail mid) (set_read now True) (cr_Code resp \<noteq> 0) (list s) (list s'))"
  using assms(2) [unfolded ReadMail_def]
proof (cases rule: as_user_cases)
  case 1
  with assms(1) show ?thesis by simp
next
  case (2 uid)
  from assms(1) 2(2) show ?thesis
  proof (cases rule: with_mail_cases)
    case (2 m s1)
    obtain c e where u: "mx_UpdateMailReadStatus repo now mid True (ms_mails s1) = (c, e)" by fastforce
    from read [OF 2(1) u] u 2 show ?thesis by (cases e) (auto simp: common_def split: if_splits)
  qed simp
qed

lemma claim_step:
  assumes "mok (ms_mails s)" and "ClaimRewards repo now ctx mid s = Ret (s', resp)"
  shows "mok (ms_mails s') \<and> ms_nextMailID s' = ms_nextMailID s \<and> (cr_Code resp \<noteq> 0 \<and> list s' = list s \<or>
    (\<exists>uid m ms. ctx = Some (CtxUint64 uid) \<and> m \<in> set (list s) \<and> of_mail mid m \<and> ml_ToUserID m = uid \<and> ml_Rewards m \<noteq> [] \<and>
       \<not> ml_IsClaimed m \<and> changed_or_none (of_mail mid) (set_claimed now True) (cr_Code resp \<noteq> 0) (list s) ms \<and>
       changed_or_none (of_mail mid) (set_read now True) True ms (list s')))"
  using assms(2) [unfolded ClaimRewards_def]
proof (cases rule: as_user_cases)
  case 1
  with assms(1) show ?thesis by simp
next
  case (2 uid)
  note ctx = 2(1)
  from assms(1) 2(2) show ?thesis
  proof (cases rule: with_mail_cases)
    case (2 m s1)
    show ?thesis
    proof (cases "claim_check m")
      case (Some r)
      with 2 show ?thesis by (auto simp: claim_check_def common_def split: if_splits)
    next
      case None
      then have m: "ml_Rewards m \<noteq> []" "\<not> ml_IsClaimed m" by (auto simp: claim_check_def split: if_splits)
      obtain c e where u: "mx_UpdateMailClaimStatus repo now mid True (ms_mails s1) = (c, e)" by fastforce
      obtain c2 e2 where v: "mx_UpdateMailReadStatus repo now mid True c = (c2, e2)" by fastforce
      note cl = claim [OF 2(1) u]
      note rd = read [OF conjunct1 [OF cl] v]
      have fin: "ms_nextMailID s' = ms_nextMailID s \<and> (cr_Code resp \<noteq> 0) = (e \<noteq> None) \<and>
          ms_mails s' = (if e = None \<and> \<not> ml_IsRead m then c2 else c)"
        using 2 None u v by (cases e) (auto simp: claim_commit_def common_def common_data_def)
      have "changed_or_none (of_mail mid) (set_read now True) True (mails c) (list s')"
        using fin rd by (auto simp: changed_or_none_def)
      with m cl rd fin 2 ctx show ?thesis by (intro conjI disjI2 exI [of _ uid] exI [of _ m] exI [of _ "mails c"]) auto
    qed
  qed simp
qed

lemma delete_step:
  assumes "mok (ms_mails s)" and "DeleteMail repo ctx mid s = Ret (s', resp)"
  shows "mok (ms_mails s') \<and> ms_nextMailID s' = ms_nextMailID s \<and> (cr_Code resp \<noteq> 0 \<and> list s' = list s \<or>
    (\<exists>m \<in> set (list s). of_mail mid m \<and> (ml_Rewards m = [] \<or> ml_IsClaimed m) \<and> one_removed (of_mail mid) (list s) (list s')))"
  using assms(2) [unfolded DeleteMail_def]
proof (cases rule: as_user_cases)
  case 1
  with assms(1) show ?thesis by simp
next
  case (2 uid)
  from assms(1) 2(2) show ?thesis
  proof (cases rule: with_mail_cases)
    case (2 m s1)
    obtain c e where u: "mx_DeleteMail repo mid (ms_mails s1) = (c, e)" by fastforce
    from delete [OF 2(1) u] u 2 show ?thesis by (cases e) (auto simp: common_def split: if_splits)
  qed simp
qed

lemma send_step:
  assumes "mok (ms_mails s)" and "SendMail repo now ctx req s = Ret (s', resp)"
  shows "mok (ms_mails s') \<and> (cr_Code resp \<noteq> 0 \<and> list s' = list s \<and> ms_nextMailID s' = ms_nextMailID s \<or>
    (\<exists>uid. ctx = Some (CtxUint64 uid) \<and> sm_ToUserId req \<notin> {0, uid} \<and> ms_nextMailID s' = ms_nextMailID s + 1 \<and>
       (mail_added now (new_mail (ms_nextMailID s) uid req) (list s) (list s') \<or> cr_Code resp \<noteq> 0 \<and> list s' = list s)))"
  using assms(2) [unfolded SendMail_def]
proof (cases rule: as_user_cases)
  case 1
  with assms(1) show ?thesis by simp
next
  case (2 uid)
  show ?thesis
  proof (cases "sm_ToUserId req = 0 \<or> sm_ToUserId req = uid \<or> sm_Title req = [] \<or> sm_Content req = []")
    case True
    with 2 assms(1) show ?thesis by (auto simp: common_def split: if_splits)
  next
    case False
    obtain c e where u: "mx_CreateMail repo now (new_mail (ms_nextMailID s) uid req) (ms_mails s) = (c, e)" by fastforce
    have "\<forall>w \<in> set (ml_Rewards (new_mail (ms_nextMailID s) uid req)). reward_fits w"
      by (simp add: new_mail_def stored_reward_fits)
    from create [OF assms(1) this _ u] have cr: "mok c \<and> (mail_added now (new_mail (ms_nextMailID s) uid req) (list s) (mails c) \<or> e \<noteq> None \<and> mails c = list s)"
      by (simp add: new_mail_def)
    have "s' = s\<lparr>ms_mails := c, ms_nextMailID := ms_nextMailID s + 1\<rparr> \<and> (cr_Code resp \<noteq> 0) = (e \<noteq> None)"
      using False 2 u by (cases e) (auto simp: generateMailID_def common_def common_data_def)
    with cr 2 False show ?thesis by auto
  qed
qed

lemma step_moves:
  assumes "mok (ms_mails s)" and "mail_step repo call s = Ret (s', code)"
  shows "mok (ms_mails s') \<and> (mail_move None (list s) (ms_nextMailID s) (list s') (ms_nextMailID s') \<or>
    (\<exists>k. claim_key call = Some k \<and> mail_move (Some k) (list s) (ms_nextMailID s) (list s') (ms_nextMailID s')))"
proof (cases call)
  case (CallList now got ctx req)
  with assms(2) obtain resp err where "GetMailList repo now got ctx req s = Ret (s', resp, err)"
    by (auto simp: map_outcome_ret)
  from list_step [OF assms(1) this] show ?thesis by (simp add: mail_move.stay)
next
  case (CallRead now ctx mid)
  with assms(2) obtain resp where "ReadMail repo now ctx mid s = Ret (s', resp)" by (auto simp: map_outcome_ret)
  from read_step [OF assms(1) this] show ?thesis by (auto intro: mail_move.stay mail_move.read)
next
  case (CallClaim now ctx mid)
  with assms(2) obtain resp where "ClaimRewards repo now ctx mid s = Ret (s', resp)" by (auto simp: map_outcome_ret)
  from claim_step [OF assms(1) this] CallClaim show ?thesis by (auto intro: mail_move.stay mail_move.claim)
next
  case (CallDelete ctx mid)
  with assms(2) obtain resp where "DeleteMail repo ctx mid s = Ret (s', resp)" by (auto simp: map_outcome_ret)
  from delete_step [OF assms(1) this] show ?thesis by (auto intro: mail_move.stay mail_move.delete)
next
  case (CallSend now ctx req)
  with assms(2) obtain resp where "SendMail repo now ctx req s = Ret (s', resp)" by (auto simp: map_outcome_ret)
  from send_step [OF assms(1) this] show ?thesis by (auto intro: mail_move.stay mail_move.send)
qed

lemma claim_spends:
  assumes "mok (ms_mails s)" and "mails_wf (list s) (ms_nextMailID s)" and "mail_step repo (CallClaim now ctx mid) s = Ret (s', 0)"
  shows "spent mid (list s') (ms_nextMailID s') \<and> \<not> spent mid (list s) (ms_nextMailID s)"
proof -
  from assms(3) obtain resp where c: "ClaimRewards repo now ctx mid s = Ret (s', resp)" "cr_Code resp = 0"
    by (auto simp: map_outcome_ret)
  from claim_step [OF assms(1) c(1)] c(2) obtain m ms where *: "m \<in> set (list s)" "of_mail mid m" "\<not> ml_IsClaimed m"
    "changed_or_none (of_mail mid) (set_claimed now True) False (list s) ms"
    "changed_or_none (of_mail mid) (set_read now True) True ms (list s')" "ms_nextMailID s' = ms_nextMailID s" by auto
  from *(1,2,4) have "one_changed (of_mail mid) (set_claimed now True) (list s) ms" by (auto simp: changed_or_none_def)
  then obtain pre x post where s: "list s = pre @ x # post" "of_mail mid x" "ms = pre @ set_claimed now True x # post"
    by (auto simp: one_changed_def)
  with assms(2) have all: "\<forall>m \<in> set ms. of_mail mid m \<longrightarrow> ml_IsClaimed m"
    by (auto simp: mails_wf_def image_iff)
  have "\<forall>m \<in> set (list s'). of_mail mid m \<longrightarrow> ml_IsClaimed m"
    by (rule changed_claimed [OF *(5) set_ids(1) _ all]) simp
  moreover have "mid < ms_nextMailID s" using assms(2) *(1,2) by (auto simp: mails_wf_def)
  moreover have "\<not> spent mid (list s) (ms_nextMailID s)" using *(1-3) unfolding spent_def by blast
  ultimately show ?thesis using *(6) by (simp add: spent_def)
qed

lemma step_wf:
  assumes "mok (ms_mails s)" and "mails_wf (list s) (ms_nextMailID s)" and "mail_step repo call s = Ret (s', code)"
    and "unat (ms_nextMailID s) < 2 ^ 64 - 1"
  shows "mok (ms_mails s') \<and> mails_wf (list s') (ms_nextMailID s') \<and> unat (ms_nextMailID s') \<le> unat (ms_nextMailID s) + 1"
  using step_moves [OF assms(1,3)] move_wf [OF _ assms(2,4)] by blast

end

fun claimed :: "u64 \<Rightarrow> mail_call \<times> int \<Rightarrow> bool" where
  "claimed mid (CallClaim now ctx i, code) \<longleftrightarrow> i = mid \<and> code = 0"
| "claimed mid _ \<longleftrightarrow> False"

context mail_service
begin

lemma run_claims:
  "mok (ms_mails s) \<Longrightarrow> mails_wf (list s) (ms_nextMailID s) \<Longrightarrow> unat (ms_nextMailID s) + length calls < 2 ^ 64 \<Longrightarrow>
   length (filter (claimed mid) (fst (mail_run repo calls s))) \<le> (if spent mid (list s) (ms_nextMailID s) then 0 else 1)"
proof (induction calls arbitrary: s)
  case Nil
  then show ?case by simp
next
  case (Cons call calls)
  have n: "unat (ms_nextMailID s) < 2 ^ 64 - 1" using Cons.prems(3) by simp
  show ?case
  proof (cases "mail_step repo call s")
    case Panic
    then show ?thesis by simp
  next
    case (Ret x)
    obtain s1 code where x: "mail_step repo call s = Ret (s1, code)" using Ret by (cases x) auto
    from step_wf [OF Cons.prems(1,2) x n] Cons.prems(3)
    have w: "mok (ms_mails s1)" "mails_wf (list s1) (ms_nextMailID s1)" "unat (ms_nextMailID s1) + length calls < 2 ^ 64" by auto
    note IH = Cons.IH [OF w]
    have keep: "spent mid (list s) (ms_nextMailID s) \<Longrightarrow> spent mid (list s1) (ms_nextMailID s1)"
      using step_moves [OF Cons.prems(1) x] move_spent [OF _ _ n] by blast
    show ?thesis
    proof (cases "claimed mid (call, code)")
      case True
      then obtain now ctx where "call = CallClaim now ctx mid" "code = 0" by (cases call) auto
      with claim_spends [OF Cons.prems(1,2)] x have "spent mid (list s1) (ms_nextMailID s1)" "\<not> spent mid (list s) (ms_nextMailID s)" by auto
      with IH x True show ?thesis by (simp add: split_beta)
    next
      case False
      with IH keep x show ?thesis by (auto simp: split_beta split: if_splits)
    qed
  qed
qed

lemma run_waiting:
  "mok (ms_mails s) \<Longrightarrow> mails_wf (list s) (ms_nextMailID s) \<Longrightarrow> unat (ms_nextMailID s) + length calls < 2 ^ 64 \<Longrightarrow>
   waiting m (list s) \<Longrightarrow> ml_Rewards m \<noteq> [] \<Longrightarrow> Some (ml_ToUserID m, ml_MailID m) \<notin> claim_key ` set calls \<Longrightarrow>
   waiting m (list (snd (mail_run repo calls s)))"
proof (induction calls arbitrary: s)
  case Nil
  then show ?case by simp
next
  case (Cons call calls)
  have n: "unat (ms_nextMailID s) < 2 ^ 64 - 1" using Cons.prems(3) by simp
  show ?case
  proof (cases "mail_step repo call s")
    case Panic
    with Cons.prems(4) show ?thesis by simp
  next
    case (Ret x)
    obtain s1 code where x: "mail_step repo call s = Ret (s1, code)" using Ret by (cases x) auto
    from step_wf [OF Cons.prems(1,2) x n] Cons.prems(3)
    have w: "mok (ms_mails s1)" "mails_wf (list s1) (ms_nextMailID s1)" "unat (ms_nextMailID s1) + length calls < 2 ^ 64" by auto
    have "waiting m (list s1)"
      using step_moves [OF Cons.prems(1) x] move_waiting [OF _ Cons.prems(4,2,5)] Cons.prems(6) by force
    from Cons.IH [OF w this Cons.prems(5)] Cons.prems(6) x show ?thesis by (simp add: split_beta)
  qed
qed

end

lemma mails_on_mongo:
  "mongo_collection ops docs valid \<Longrightarrow> mail_service (NewMailRepository ops) (rows_in mail_row docs) (rows_valid mail_row docs valid)"
  by (simp add: mail_service_def mongo_collection.mail_store_law)

interpretation mem_mail_service: mail_service "NewMailRepository (mem_ops [])" "rows_in mail_row mc_docs"
    "rows_valid mail_row mc_docs (\<lambda>c. uniques [] (mc_docs c))"
  by (rule mails_on_mongo [OF mem.mongo_collection_axioms])

subsection \<open>Properties\<close>

text \<open>
  C23: The rewards of a mail are paid at most once. In any run of the handlers, one after the other, at most
  one claim of a mail identifier succeeds, whoever makes it, if the mails at the start have different
  identifiers below the counter and the counter does not wrap.
\<close>

theorem rewards_claimed_once:
  assumes "mongo_collection ops docs valid" and "rows_valid mail_row docs valid (ms_mails s)"
    and "mails_wf (rows_in mail_row docs (ms_mails s)) (ms_nextMailID s)" and "unat (ms_nextMailID s) + length calls < 2 ^ 64"
  shows "length (filter (claimed mid) (fst (mail_run (NewMailRepository ops) calls s))) \<le> 1"
  using mail_service.run_claims [OF mails_on_mongo [OF assms(1)] assms(2-4), of mid] by (simp split: if_splits)

text \<open>A mail with a reward from user 7 to user 8, which 8 claims twice and then deletes.\<close>

definition demo_mail :: send_mail_request where
  "demo_mail = \<lparr>sm_ToUserId = 8, sm_MailType = 1, sm_Title = ''hi'', sm_Content = ''a gift'',
     sm_Rewards = [\<lparr>rd_ItemId = 5, rd_ItemType = 1, rd_Quantity = 2\<rparr>], sm_ExpireTime = 0\<rparr>"

definition mails_start :: "mem_coll mail_server" where
  "mails_start = NewMailServer \<lparr>mc_docs = [], mc_next = 1\<rparr>"

definition "mail_sent = [CallSend unix_epoch (Some (CtxUint64 7)) demo_mail]"

definition "mail_claims = [CallClaim unix_epoch (Some (CtxUint64 8)) 1, CallClaim unix_epoch (Some (CtxUint64 8)) 1, CallDelete (Some (CtxUint64 8)) 1]"

abbreviation "mem_mail_repo \<equiv> NewMailRepository (mem_ops [])"

definition "mailbox = snd (mail_run mem_mail_repo mail_sent mails_start)"

lemma mails_start_ok: "rows_valid mail_row mc_docs (\<lambda>c. uniques [] (mc_docs c)) (ms_mails mails_start)"
  by (simp add: mails_start_def NewMailServer_def rows_valid_def rows_all_def uniques_def)

lemma mailbox_ok: "rows_valid mail_row mc_docs (\<lambda>c. uniques [] (mc_docs c)) (ms_mails mailbox)"
proof -
  obtain s1 code where x: "mail_step mem_mail_repo (CallSend unix_epoch (Some (CtxUint64 7)) demo_mail) mails_start = Ret (s1, code)"
    by (cases "SendMail mem_mail_repo unix_epoch (Some (CtxUint64 7)) demo_mail mails_start") (auto simp: SendMail_def as_user_def)
  from mem_mail_service.step_moves [OF mails_start_ok x] x show ?thesis by (simp add: mailbox_def mail_sent_def)
qed

lemma mailbox_one:
  "map ml_MailID (rows_in mail_row mc_docs (ms_mails mailbox)) = [1] \<and> map ml_ToUserID (rows_in mail_row mc_docs (ms_mails mailbox)) = [8] \<and>
   map ml_IsClaimed (rows_in mail_row mc_docs (ms_mails mailbox)) = [False] \<and>
   map (length \<circ> ml_Rewards) (rows_in mail_row mc_docs (ms_mails mailbox)) = [1]"
  by code_simp

lemma mailbox_next: "ms_nextMailID mailbox = 2" "unat (ms_nextMailID mailbox) = 2"
proof -
  show n: "ms_nextMailID mailbox = 2" by code_simp
  show "unat (ms_nextMailID mailbox) = 2" unfolding n by simp
qed

lemma mailbox_wf: "mails_wf (rows_in mail_row mc_docs (ms_mails mailbox)) (ms_nextMailID mailbox)"
proof -
  from mailbox_one have ids: "map ml_MailID (rows_in mail_row mc_docs (ms_mails mailbox)) = [1]" by blast
  then obtain m where "rows_in mail_row mc_docs (ms_mails mailbox) = [m]" "ml_MailID m = 1" by auto
  then show ?thesis by (simp add: mails_wf_def mailbox_next)
qed

lemma rewards_claimed_once_witness:
  "length (filter (claimed 1) (fst (mail_run mem_mail_repo mail_claims mailbox))) = 1"
proof -
  have n: "unat (ms_nextMailID mailbox) + length mail_claims < 2 ^ 64" by (simp add: mailbox_next mail_claims_def)
  have "filter (claimed 1) (fst (mail_run mem_mail_repo mail_claims mailbox)) \<noteq> []" by code_simp
  then have "1 \<le> length (filter (claimed 1) (fst (mail_run mem_mail_repo mail_claims mailbox)))"
    by (cases "filter (claimed 1) (fst (mail_run mem_mail_repo mail_claims mailbox))") simp_all
  with rewards_claimed_once [OF mem.mongo_collection_axioms mailbox_ok mailbox_wf n, of 1] show ?thesis by simp
qed

text \<open>
  Rewards are not lost. A mail with rewards that have not been claimed stays in the collection with its
  text, recipient and rewards through any run in which the recipient does not claim it, whatever anybody,
  the recipient included, reads, deletes or sends.
\<close>

theorem unclaimed_rewards_kept:
  assumes "mongo_collection ops docs valid" and "rows_valid mail_row docs valid (ms_mails s)"
    and "mails_wf (rows_in mail_row docs (ms_mails s)) (ms_nextMailID s)" and "unat (ms_nextMailID s) + length calls < 2 ^ 64"
    and "m \<in> set (rows_in mail_row docs (ms_mails s))" and "ml_Rewards m \<noteq> []" and "\<not> ml_IsClaimed m"
    and "Some (ml_ToUserID m, ml_MailID m) \<notin> claim_key ` set calls"
  shows "\<exists>m' \<in> set (rows_in mail_row docs (ms_mails (snd (mail_run (NewMailRepository ops) calls s)))). same_letter m m' \<and> \<not> ml_IsClaimed m'"
proof -
  have "waiting m (rows_in mail_row docs (ms_mails s))" using assms(5,7) by (auto simp: waiting_def same_letter_def)
  from mail_service.run_waiting [OF mails_on_mongo [OF assms(1)] assms(2-4) this assms(6,8)] show ?thesis by (simp add: waiting_def)
qed

definition "idle_calls = [CallRead unix_epoch (Some (CtxUint64 8)) 1, CallDelete (Some (CtxUint64 8)) 1, CallClaim unix_epoch (Some (CtxUint64 9)) 1]"

lemma unclaimed_rewards_kept_witness:
  "\<exists>m' \<in> set (rows_in mail_row mc_docs (ms_mails (snd (mail_run mem_mail_repo idle_calls mailbox)))).
     ml_MailID m' = 1 \<and> length (ml_Rewards m') = 1 \<and> \<not> ml_IsClaimed m'"
proof -
  have n: "unat (ms_nextMailID mailbox) + length idle_calls < 2 ^ 64" by (simp add: mailbox_next idle_calls_def)
  from mailbox_one obtain m where m: "rows_in mail_row mc_docs (ms_mails mailbox) = [m]" "ml_MailID m = 1" "ml_ToUserID m = 8"
    "\<not> ml_IsClaimed m" "length (ml_Rewards m) = 1"
    by (cases "rows_in mail_row mc_docs (ms_mails mailbox)") auto
  have other: "Some (ml_ToUserID m, ml_MailID m) \<notin> claim_key ` set idle_calls" using m by (simp add: idle_calls_def)
  have "m \<in> set (rows_in mail_row mc_docs (ms_mails mailbox))" "ml_Rewards m \<noteq> []" using m by auto
  from unclaimed_rewards_kept [OF mem.mongo_collection_axioms mailbox_ok mailbox_wf n this m(4) other] m show ?thesis
    by (auto simp: same_letter_def)
qed

text \<open>
  The mail list is always empty. The stored mails have no field \<^verbatim>\<open>expire_time\<close> (the model calls it
  \<^verbatim>\<open>expire_at\<close>), and the filter requires that field to be 0 or in the future, so whatever mails a user has,
  \<^verbatim>\<open>GetMailList\<close> answers with none and the total 0.
\<close>

theorem mail_list_always_empty:
  assumes "mongo_collection ops docs valid" and "rows_valid mail_row docs valid (ms_mails s)"
    and "GetMailList (NewMailRepository ops) now got ctx req s = Ret (s', resp, err)"
  shows "mr_Mails resp = [] \<and> mr_Total resp = 0"
  using mail_service.list_step [OF mails_on_mongo [OF assms(1)] assms(2,3)] by simp

lemma mail_list_always_empty_witness:
  "map ml_ToUserID (rows_in mail_row mc_docs (ms_mails mailbox)) = [8] \<and>
   (\<exists>s' resp. GetMailList mem_mail_repo unix_epoch 20 (Some (CtxUint64 8)) \<lparr>mq_Limit = 20, mq_Offset = 0, mq_MailType = 0\<rparr> mailbox =
      Ret (s', resp, None) \<and> mr_Mails resp = [])"
proof -
  let ?r = "GetMailList mem_mail_repo unix_epoch 20 (Some (CtxUint64 8)) \<lparr>mq_Limit = 20, mq_Offset = 0, mq_MailType = 0\<rparr> mailbox"
  have "(case ?r of Ret (s', resp, None) \<Rightarrow> True | _ \<Rightarrow> False)" by code_simp
  then obtain s' resp where r: "?r = Ret (s', resp, None)"
    by (cases ?r) (auto split: option.splits)
  from mail_list_always_empty [OF mem.mongo_collection_axioms mailbox_ok r] r mailbox_one show ?thesis by auto
qed

text \<open>
  A mail is delivered as it was sent. When \<^verbatim>\<open>SendMail\<close> succeeds the caller is a user other than the
  recipient, and exactly one mail is added, unread and unclaimed, with the next identifier, the caller as
  its sender, and the recipient, title, content and items of the request.
\<close>

theorem mail_delivered:
  assumes "mongo_collection ops docs valid" and "rows_valid mail_row docs valid (ms_mails s)"
    and "SendMail (NewMailRepository ops) now ctx req s = Ret (s', resp)" and "cr_Code resp = 0"
  shows "\<exists>uid x. ctx = Some (CtxUint64 uid) \<and> sm_ToUserId req \<notin> {0, uid} \<and>
    rows_in mail_row docs (ms_mails s') = rows_in mail_row docs (ms_mails s) @ [x] \<and> ms_nextMailID s' = ms_nextMailID s + 1 \<and>
    ml_MailID x = ms_nextMailID s \<and> ml_FromUserID x = uid \<and> ml_ToUserID x = sm_ToUserId req \<and> ml_Title x = sm_Title req \<and>
    ml_Content x = sm_Content req \<and> ml_Rewards x = map stored_reward (sm_Rewards req) \<and> \<not> ml_IsRead x \<and> \<not> ml_IsClaimed x"
proof -
  from mail_service.send_step [OF mails_on_mongo [OF assms(1)] assms(2,3)] assms(4) obtain uid where
    u: "ctx = Some (CtxUint64 uid)" "sm_ToUserId req \<notin> {0, uid}" "ms_nextMailID s' = ms_nextMailID s + 1"
    and a: "mail_added now (new_mail (ms_nextMailID s) uid req) (rows_in mail_row docs (ms_mails s)) (rows_in mail_row docs (ms_mails s'))"
    by auto
  from mail_added_set [OF a] u show ?thesis by blast
qed

lemma mail_delivered_witness:
  "\<exists>x. rows_in mail_row mc_docs (ms_mails mailbox) = [x] \<and> ml_MailID x = 1 \<and> ml_FromUserID x = 7 \<and> ml_Content x = ''a gift''"
proof -
  let ?r = "SendMail mem_mail_repo unix_epoch (Some (CtxUint64 7)) demo_mail mails_start"
  have "(case ?r of Ret (s', resp) \<Rightarrow> cr_Code resp = 0 | _ \<Rightarrow> False)" by code_simp
  then obtain s' resp where r: "?r = Ret (s', resp)" "cr_Code resp = 0" by (cases ?r) auto
  then have "mailbox = s'" by (simp add: mailbox_def mail_sent_def)
  with mail_delivered [OF mem.mongo_collection_axioms mails_start_ok r] show ?thesis
    by (auto simp: mails_start_def NewMailServer_def rows_in_def demo_mail_def)
qed

text \<open>
  The counter of mail identifiers starts at 1 in every process and the index on \<^verbatim>\<open>mail_id\<close> is not unique:
  where the collection already has a mail with the identifier the counter stands at, as after a restart,
  the next mail sent is a second one with it.
\<close>

lemma mail_ids_collide:
  assumes "mongo_collection ops docs valid" and "rows_valid mail_row docs valid (ms_mails s)"
    and "m \<in> set (rows_in mail_row docs (ms_mails s))" and "ml_MailID m = ms_nextMailID s"
    and "SendMail (NewMailRepository ops) now ctx req s = Ret (s', resp)" and "cr_Code resp = 0"
  shows "\<not> distinct (map ml_MailID (rows_in mail_row docs (ms_mails s')))"
proof -
  from mail_service.send_step [OF mails_on_mongo [OF assms(1)] assms(2,5)] assms(6) obtain uid where
    a: "mail_added now (new_mail (ms_nextMailID s) uid req) (rows_in mail_row docs (ms_mails s)) (rows_in mail_row docs (ms_mails s'))"
    by auto
  from mail_added_set [OF a] assms(3,4) show ?thesis by force
qed

text \<open>Two claims that both read the mail before either has marked it are both paid.\<close>

lemma concurrent_claims_both_paid:
  "let m = projr (snd (mx_GetMailByID mem_mail_repo 1 (ms_mails mailbox)));
       (s1, r1) = claim_commit mem_mail_repo unix_epoch 1 m mailbox; (s2, r2) = claim_commit mem_mail_repo unix_epoch 1 m s1
   in claim_check m = None \<and> cr_Code r1 = 0 \<and> cr_Code r2 = 0"
  by code_simp

end
