(* ===== verification/Redis.thy ===== *)
theory Redis
  imports GoStd "HOL-Library.AList"
begin

text \<open>
  \<^verbatim>\<open>internal/database/redis.go\<close>: the commands of \<^verbatim>\<open>RedisManager\<close> the servers use, the user, room and
  session caches and the distributed lock. The client library is a parameter, the record
  \<open>redis_ops\<close>; the locale \<open>redis_store\<close> states the documented effect of its commands on the entries
  of the database, each a value with an optional time at which it expires. An entry is kept in that
  map after it has expired and is only no longer read. A database in memory interprets the locale.
\<close>

subsection \<open>Entries and commands\<close>

datatype redis_val = RStr string | RSet "string list"

type_synonym entries = "string \<Rightarrow> (redis_val \<times> time option) option"

fun alive :: "time \<Rightarrow> time option \<Rightarrow> bool" where
  "alive now None = True"
| "alive now (Some t) = (now \<le> t)"

definition live :: "time \<Rightarrow> entries \<Rightarrow> string \<Rightarrow> redis_val option" where
  "live now m k = (case m k of None \<Rightarrow> None | Some (v, t) \<Rightarrow> if alive now t then Some v else None)"

record 'c redis_ops =
  rd_Set :: "string \<Rightarrow> string \<Rightarrow> duration \<Rightarrow> time \<Rightarrow> 'c \<Rightarrow> 'c \<times> string option"
  rd_SetNX :: "string \<Rightarrow> string \<Rightarrow> duration \<Rightarrow> time \<Rightarrow> 'c \<Rightarrow> 'c \<times> (string + bool)"
  rd_Get :: "string \<Rightarrow> time \<Rightarrow> 'c \<Rightarrow> 'c \<times> (string + string option)"
  rd_Del :: "string \<Rightarrow> time \<Rightarrow> 'c \<Rightarrow> 'c \<times> string option"
  rd_Expire :: "string \<Rightarrow> duration \<Rightarrow> time \<Rightarrow> 'c \<Rightarrow> 'c \<times> string option"
  rd_SAdd :: "string \<Rightarrow> string \<Rightarrow> time \<Rightarrow> 'c \<Rightarrow> 'c \<times> string option"
  rd_SRem :: "string \<Rightarrow> string \<Rightarrow> time \<Rightarrow> 'c \<Rightarrow> 'c \<times> string option"
  rd_SMembers :: "string \<Rightarrow> time \<Rightarrow> 'c \<Rightarrow> 'c \<times> (string + string list)"

definition deadline :: "time \<Rightarrow> duration \<Rightarrow> time option" where
  "deadline now d = (if d = 0 then None else Some (now + d))"

definition expiring :: "time \<Rightarrow> duration \<Rightarrow> string \<Rightarrow> entries \<Rightarrow> entries" where
  "expiring now d k m = (case live now m k of None \<Rightarrow> m | Some v \<Rightarrow> m(k \<mapsto> (v, Some (now + d))))"

definition members :: "time \<Rightarrow> entries \<Rightarrow> string \<Rightarrow> string list option" where
  "members now m k = (case live now m k of None \<Rightarrow> Some [] | Some (RSet xs) \<Rightarrow> Some xs | Some (RStr _) \<Rightarrow> None)"

definition kept_deadline :: "time \<Rightarrow> entries \<Rightarrow> string \<Rightarrow> time option" where
  "kept_deadline now m k = (case m k of None \<Rightarrow> None | Some (_, t) \<Rightarrow> if alive now t then t else None)"

text \<open>After an error the command may or may not have been executed.\<close>

definition done_or_failed :: "'m \<Rightarrow> 'm \<Rightarrow> 'm \<Rightarrow> bool \<Rightarrow> bool" where
  "done_or_failed m m' new failed \<longleftrightarrow> m' = new \<or> failed \<and> m' = m"

locale redis_store =
  fixes ops :: "'c redis_ops" and entries :: "'c \<Rightarrow> entries" and valid :: "'c \<Rightarrow> bool"
  assumes set_key: "valid c \<Longrightarrow> 0 \<le> d \<Longrightarrow> rd_Set ops k v d now c = (c', e1) \<Longrightarrow>
      valid c' \<and> done_or_failed (entries c) (entries c') ((entries c)(k \<mapsto> (RStr v, deadline now d))) (e1 \<noteq> None)"
    and set_nx: "valid c \<Longrightarrow> 0 \<le> d \<Longrightarrow> rd_SetNX ops k v d now c = (c', r2) \<Longrightarrow> valid c' \<and>
      (if r2 = Inr False then entries c' = entries c \<and> live now (entries c) k \<noteq> None
       else done_or_failed (entries c) (entries c') ((entries c)(k \<mapsto> (RStr v, deadline now d))) (isl r2) \<and>
         (r2 = Inr True \<or> entries c' \<noteq> entries c \<longrightarrow> live now (entries c) k = None))"
    and get_key: "valid c \<Longrightarrow> rd_Get ops k now c = (c', r3) \<Longrightarrow> valid c' \<and> entries c' = entries c \<and>
      (\<forall>v. r3 = Inr v \<longrightarrow> live now (entries c) k = map_option RStr v)"
    and del_key: "valid c \<Longrightarrow> rd_Del ops k now c = (c', e4) \<Longrightarrow>
      valid c' \<and> done_or_failed (entries c) (entries c') ((entries c)(k := None)) (e4 \<noteq> None)"
    and expire_key: "valid c \<Longrightarrow> 0 < d \<Longrightarrow> rd_Expire ops k d now c = (c', e5) \<Longrightarrow>
      valid c' \<and> done_or_failed (entries c) (entries c') (expiring now d k (entries c)) (e5 \<noteq> None)"
    and set_add: "valid c \<Longrightarrow> rd_SAdd ops k x now c = (c', e6) \<Longrightarrow> valid c' \<and> (case members now (entries c) k of
        None \<Rightarrow> e6 \<noteq> None \<and> entries c' = entries c
      | Some xs \<Rightarrow> done_or_failed (entries c) (entries c')
          ((entries c)(k \<mapsto> (RSet (List.insert x xs), kept_deadline now (entries c) k))) (e6 \<noteq> None))"
    and set_rem: "valid c \<Longrightarrow> rd_SRem ops k x now c = (c', e7) \<Longrightarrow> valid c' \<and> (case members now (entries c) k of
        None \<Rightarrow> e7 \<noteq> None \<and> entries c' = entries c
      | Some xs \<Rightarrow> done_or_failed (entries c) (entries c')
          ((entries c)(k := if removeAll x xs = [] then None
             else Some (RSet (removeAll x xs), kept_deadline now (entries c) k))) (e7 \<noteq> None))"
    and set_members: "valid c \<Longrightarrow> rd_SMembers ops k now c = (c', r8) \<Longrightarrow> valid c' \<and> entries c' = entries c \<and>
      (\<forall>xs. r8 = Inr xs \<longrightarrow> members now (entries c) k = Some xs)"

subsection \<open>JSON numbers\<close>

text \<open>
  \<^verbatim>\<open>json.Unmarshal\<close> into a \<^verbatim>\<open>uint64\<close>: white space around the value is skipped, \<^verbatim>\<open>null\<close> leaves
  the zero, a number must be an integer literal without a leading zero that fits. \<^verbatim>\<open>json.Marshal\<close> of
  a \<^verbatim>\<open>uint64\<close> writes its decimal digits.
\<close>

definition json_space :: "char \<Rightarrow> bool" where
  "json_space c \<longleftrightarrow> c \<in> {CHR '' '', CHR 0x09, CHR 0x0A, CHR 0x0D}"

definition json_trim :: "string \<Rightarrow> string" where
  "json_trim s = rev (dropWhile json_space (rev (dropWhile json_space s)))"

definition json_u64 :: "string \<Rightarrow> u64 option" where
  "json_u64 s = (let t = json_trim s in
     if t = ''null'' then Some 0
     else if t \<noteq> [] \<and> hd t = CHR ''0'' \<and> length t \<noteq> 1 then None
     else parse_uint64 t)"

definition json_of_u64 :: "u64 \<Rightarrow> string" where
  "json_of_u64 u = fmt_nat (unat u)"

lemma fmt_nat_small: "n < 10 \<Longrightarrow> fmt_nat n = [digit_char n]"
  by (subst fmt_nat.simps) simp

lemma fmt_nat_no_zero: "0 < n \<Longrightarrow> hd (fmt_nat n) \<noteq> CHR ''0''"
proof (induction n rule: fmt_nat.induct)
  case (1 n)
  show ?case
  proof (cases "n < 10")
    case True
    have "digit_char n \<noteq> CHR ''0''"
    proof
      assume "digit_char n = CHR ''0''"
      then have "(of_char (digit_char n) :: nat) = 48" by simp
      with True 1(2) show False by simp
    qed
    with True show ?thesis by (simp add: fmt_nat_small)
  next
    case False
    with 1 show ?thesis by (subst fmt_nat.simps) (simp add: hd_append)
  qed
qed

lemma not_digit_space: "json_space c \<Longrightarrow> \<not> is_digit c"
  by (auto simp: json_space_def is_digit_def)

lemma dropWhile_id: "\<forall>c \<in> set s. \<not> P c \<Longrightarrow> dropWhile P s = s"
  by (cases s) auto

lemma json_trim_digits: "json_trim (fmt_nat n) = fmt_nat n"
proof -
  have "\<forall>c \<in> set (fmt_nat n). \<not> json_space c" using not_digit_space fmt_nat_digits by blast
  then show ?thesis by (simp add: json_trim_def dropWhile_id)
qed

lemma json_u64_of [simp]: "json_u64 (json_of_u64 u) = Some u"
proof -
  let ?s = "fmt_nat (unat u)"
  have "?s \<noteq> ''null''"
    using fmt_nat_hd_digit [of "unat u"] by (auto simp: is_digit_def)
  moreover have "hd ?s \<noteq> CHR ''0'' \<or> length ?s = 1"
    using fmt_nat_no_zero [of "unat u"] by (cases "unat u = 0") (simp_all add: fmt_nat_small)
  ultimately show ?thesis by (auto simp: json_u64_def json_of_u64_def json_trim_digits Let_def)
qed

subsection \<open>RedisManager\<close>

text \<open>The Go value given to \<^verbatim>\<open>Set\<close>: a string, bytes, or another value with what \<^verbatim>\<open>json.Marshal\<close> makes of it.\<close>

datatype redis_arg = ArgString string | ArgBytes string | ArgJson "string + string"

definition SetContext :: "'c redis_ops \<Rightarrow> string \<Rightarrow> redis_arg \<Rightarrow> duration \<Rightarrow> time \<Rightarrow> 'c \<Rightarrow> 'c \<times> string option" where
  "SetContext ops k v d now c =
     (case (case v of ArgString s \<Rightarrow> Inr s | ArgBytes s \<Rightarrow> Inr s | ArgJson r \<Rightarrow> r) of
        Inl e \<Rightarrow> (c, Some (''failed to marshal value: '' @ e))
      | Inr s \<Rightarrow> rd_Set ops k s d now c)"

definition Get :: "'c redis_ops \<Rightarrow> string \<Rightarrow> time \<Rightarrow> 'c \<Rightarrow> 'c \<times> (string + string)" where
  "Get ops k now c =
     apsnd (\<lambda>r. case r of Inl e \<Rightarrow> Inl e | Inr None \<Rightarrow> Inl ''key not found'' | Inr (Some s) \<Rightarrow> Inr s) (rd_Get ops k now c)"

definition GetStringContext :: "'c redis_ops \<Rightarrow> string \<Rightarrow> time \<Rightarrow> 'c \<Rightarrow> 'c \<times> (string + string)" where
  "GetStringContext ops k now c =
     apsnd (\<lambda>r. case r of Inl e \<Rightarrow> Inl e | Inr None \<Rightarrow> Inl ''redis: nil'' | Inr (Some s) \<Rightarrow> Inr s) (rd_Get ops k now c)"

definition GetObject :: "'c redis_ops \<Rightarrow> (string \<Rightarrow> string + 'o) \<Rightarrow> string \<Rightarrow> time \<Rightarrow> 'c \<Rightarrow> 'c \<times> (string + 'o)" where
  "GetObject ops unmarshal k now c =
     apsnd (\<lambda>r. case r of Inl e \<Rightarrow> Inl e | Inr s \<Rightarrow> unmarshal s) (Get ops k now c)"

definition DeleteContext :: "'c redis_ops \<Rightarrow> string \<Rightarrow> time \<Rightarrow> 'c \<Rightarrow> 'c \<times> string option" where
  "DeleteContext ops k now c = rd_Del ops k now c"

definition ExpireContext :: "'c redis_ops \<Rightarrow> string \<Rightarrow> duration \<Rightarrow> time \<Rightarrow> 'c \<Rightarrow> 'c \<times> string option" where
  "ExpireContext ops k d now c = rd_Expire ops k d now c"

definition Lock :: "'c redis_ops \<Rightarrow> string \<Rightarrow> duration \<Rightarrow> time \<Rightarrow> 'c \<Rightarrow> 'c \<times> (string + bool)" where
  "Lock ops k d now c = rd_SetNX ops (''lock:'' @ k) ''1'' d now c"

definition Unlock :: "'c redis_ops \<Rightarrow> string \<Rightarrow> time \<Rightarrow> 'c \<Rightarrow> 'c \<times> string option" where
  "Unlock ops k now c = rd_Del ops (''lock:'' @ k) now c"

subsection \<open>The caches\<close>

definition hour :: duration where "hour = 3600 * second"

definition user_key :: "u64 \<Rightarrow> string" where "user_key uid = ''user:'' @ fmt_nat (unat uid)"
definition online_key :: "u64 \<Rightarrow> string" where "online_key uid = ''online:'' @ fmt_nat (unat uid)"
definition room_key :: "u64 \<Rightarrow> string" where "room_key rid = ''room:'' @ fmt_nat (unat rid)"
definition room_players_key :: "u64 \<Rightarrow> string" where "room_players_key rid = ''room:players:'' @ fmt_nat (unat rid)"
definition session_key :: "string \<Rightarrow> string" where "session_key sid = ''session:'' @ sid"

definition SetUserInfoContext :: "'c redis_ops \<Rightarrow> u64 \<Rightarrow> redis_arg \<Rightarrow> time \<Rightarrow> 'c \<Rightarrow> 'c \<times> string option" where
  "SetUserInfoContext ops uid info now c = SetContext ops (user_key uid) info (24 * hour) now c"

definition GetUserInfo :: "'c redis_ops \<Rightarrow> (string \<Rightarrow> string + 'o) \<Rightarrow> u64 \<Rightarrow> time \<Rightarrow> 'c \<Rightarrow> 'c \<times> (string + 'o)" where
  "GetUserInfo ops unmarshal uid now c = GetObject ops unmarshal (user_key uid) now c"

definition DeleteUserInfo :: "'c redis_ops \<Rightarrow> u64 \<Rightarrow> time \<Rightarrow> 'c \<Rightarrow> 'c \<times> string option" where
  "DeleteUserInfo ops uid now c = DeleteContext ops (user_key uid) now c"

definition SetUserOnlineContext :: "'c redis_ops \<Rightarrow> u64 \<Rightarrow> string \<Rightarrow> time \<Rightarrow> 'c \<Rightarrow> 'c \<times> string option" where
  "SetUserOnlineContext ops uid node now c = SetContext ops (online_key uid) (ArgString node) (1800 * second) now c"

definition GetUserOnline :: "'c redis_ops \<Rightarrow> u64 \<Rightarrow> time \<Rightarrow> 'c \<Rightarrow> 'c \<times> (string + string)" where
  "GetUserOnline ops uid now c = GetStringContext ops (online_key uid) now c"

definition SetUserOffline :: "'c redis_ops \<Rightarrow> u64 \<Rightarrow> time \<Rightarrow> 'c \<Rightarrow> 'c \<times> string option" where
  "SetUserOffline ops uid now c = DeleteContext ops (online_key uid) now c"

definition SetRoomInfo :: "'c redis_ops \<Rightarrow> u64 \<Rightarrow> redis_arg \<Rightarrow> time \<Rightarrow> 'c \<Rightarrow> 'c \<times> string option" where
  "SetRoomInfo ops rid info now c = SetContext ops (room_key rid) info (2 * hour) now c"

definition GetRoomInfo :: "'c redis_ops \<Rightarrow> (string \<Rightarrow> string + 'o) \<Rightarrow> u64 \<Rightarrow> time \<Rightarrow> 'c \<Rightarrow> 'c \<times> (string + 'o)" where
  "GetRoomInfo ops unmarshal rid now c = GetObject ops unmarshal (room_key rid) now c"

definition DeleteRoomInfo :: "'c redis_ops \<Rightarrow> u64 \<Rightarrow> time \<Rightarrow> 'c \<Rightarrow> 'c \<times> string option" where
  "DeleteRoomInfo ops rid now c = DeleteContext ops (room_key rid) now c"

definition AddPlayerToRoom :: "'c redis_ops \<Rightarrow> u64 \<Rightarrow> u64 \<Rightarrow> time \<Rightarrow> 'c \<Rightarrow> 'c \<times> string option" where
  "AddPlayerToRoom ops rid uid now c = rd_SAdd ops (room_players_key rid) (fmt_nat (unat uid)) now c"

definition RemovePlayerFromRoom :: "'c redis_ops \<Rightarrow> u64 \<Rightarrow> u64 \<Rightarrow> time \<Rightarrow> 'c \<Rightarrow> 'c \<times> string option" where
  "RemovePlayerFromRoom ops rid uid now c = rd_SRem ops (room_players_key rid) (fmt_nat (unat uid)) now c"

definition GetRoomPlayers :: "'c redis_ops \<Rightarrow> u64 \<Rightarrow> time \<Rightarrow> 'c \<Rightarrow> 'c \<times> (string + string list)" where
  "GetRoomPlayers ops rid now c = rd_SMembers ops (room_players_key rid) now c"

definition session_expiry :: duration where "session_expiry = 2 * hour"

definition SetSessionContext :: "'c redis_ops \<Rightarrow> string \<Rightarrow> u64 \<Rightarrow> time \<Rightarrow> 'c \<Rightarrow> 'c \<times> string option" where
  "SetSessionContext ops sid uid now c =
     SetContext ops (session_key sid) (ArgJson (Inr (json_of_u64 uid))) session_expiry now c"

definition GetSessionContext :: "'c redis_ops \<Rightarrow> string \<Rightarrow> time \<Rightarrow> 'c \<Rightarrow> 'c \<times> (string + u64)" where
  "GetSessionContext ops sid now c =
     apsnd (\<lambda>r. case r of Inl e \<Rightarrow> Inl e
       | Inr s \<Rightarrow> (case json_u64 s of None \<Rightarrow> Inl ''json: cannot unmarshal'' | Some u \<Rightarrow> Inr u))
       (GetStringContext ops (session_key sid) now c)"

definition DeleteSessionContext :: "'c redis_ops \<Rightarrow> string \<Rightarrow> time \<Rightarrow> 'c \<Rightarrow> 'c \<times> string option" where
  "DeleteSessionContext ops sid now c = DeleteContext ops (session_key sid) now c"

definition RefreshSessionContext :: "'c redis_ops \<Rightarrow> string \<Rightarrow> time \<Rightarrow> 'c \<Rightarrow> 'c \<times> string option" where
  "RefreshSessionContext ops sid now c = ExpireContext ops (session_key sid) session_expiry now c"

subsection \<open>The session store\<close>

text \<open>
  The contract the login service relies on: a map from session identifiers to a user and the time
  the session ends. The other keys of the caches never touch it.
\<close>

definition session_entry :: "(redis_val \<times> time option) option \<Rightarrow> (u64 \<times> time) option" where
  "session_entry e = (case e of
      Some (RStr s, Some t) \<Rightarrow> map_option (\<lambda>u. (u, t)) (json_u64 s) | _ \<Rightarrow> None)"

definition sessions :: "entries \<Rightarrow> string \<Rightarrow> (u64 \<times> time) option" where
  "sessions m sid = session_entry (m (session_key sid))"

definition extended :: "time \<Rightarrow> string \<Rightarrow> (string \<Rightarrow> (u64 \<times> time) option) \<Rightarrow> string \<Rightarrow> (u64 \<times> time) option" where
  "extended now sid s = (case s sid of
      Some (u, t) \<Rightarrow> if now \<le> t then s(sid \<mapsto> (u, now + session_expiry)) else s | None \<Rightarrow> s)"

text \<open>What \<^verbatim>\<open>SetSessionContext\<close> writes is always such an entry.\<close>

definition sessions_wf :: "entries \<Rightarrow> bool" where
  "sessions_wf m \<longleftrightarrow> (\<forall>sid e. m (session_key sid) = Some e \<longrightarrow> session_entry (Some e) \<noteq> None)"

lemma session_entry_iff:
  "session_entry e = Some (u, t) \<longleftrightarrow> (\<exists>s. e = Some (RStr s, Some t) \<and> json_u64 s = Some u)"
  by (auto simp: session_entry_def split: option.splits redis_val.splits prod.splits)

lemma sessions_wfD:
  "sessions_wf m \<Longrightarrow> m (session_key sid) = Some e \<Longrightarrow> \<exists>s t u. e = (RStr s, Some t) \<and> json_u64 s = Some u"
proof -
  assume "sessions_wf m" "m (session_key sid) = Some e"
  then have "session_entry (Some e) \<noteq> None" unfolding sessions_wf_def by blast
  then obtain u t where "session_entry (Some e) = Some (u, t)" by (cases "session_entry (Some e)") auto
  then show "\<exists>s t u. e = (RStr s, Some t) \<and> json_u64 s = Some u" by (auto simp: session_entry_iff)
qed

lemma session_key_inj [simp]: "session_key a = session_key b \<longleftrightarrow> a = b"
  by (simp add: session_key_def)

lemma other_keys [simp]:
  "session_key sid \<noteq> user_key u" "session_key sid \<noteq> online_key u" "session_key sid \<noteq> room_key u"
  "session_key sid \<noteq> room_players_key u" "session_key sid \<noteq> ''lock:'' @ k"
  by (simp_all add: session_key_def user_key_def online_key_def room_key_def room_players_key_def)

lemma expiry_pos [simp]: "0 < session_expiry" "0 < hour" "session_expiry \<noteq> 0" "hour \<noteq> 0"
  by (simp_all add: session_expiry_def hour_def second_def)

lemma sessions_upd:
  "sessions (m(session_key sid := e)) = (sessions m)(sid := session_entry e)"
  by (auto simp: sessions_def)

lemma sessions_other: "(\<And>sid. k \<noteq> session_key sid) \<Longrightarrow> sessions (m(k := e)) = sessions m"
  by (simp add: sessions_def fun_eq_iff) metis

lemma sessions_expiring:
  assumes "sessions_wf m"
  shows "sessions (expiring now session_expiry (session_key sid) m) = extended now sid (sessions m)"
proof (cases "m (session_key sid)")
  case None
  then show ?thesis by (simp add: expiring_def live_def extended_def sessions_def session_entry_def)
next
  case (Some e)
  with assms obtain s t u where e: "e = (RStr s, Some t)" "json_u64 s = Some u"
    using sessions_wfD by blast
  with Some have "sessions m sid = Some (u, t)" by (simp add: sessions_def session_entry_def)
  with Some e show ?thesis
    by (auto simp: expiring_def live_def extended_def sessions_upd session_entry_def)
qed

lemma wf_upd: "sessions_wf m \<Longrightarrow> e \<noteq> None \<longrightarrow> session_entry e \<noteq> None \<Longrightarrow> sessions_wf (m(session_key sid := e))"
  by (auto simp: sessions_wf_def)

lemma wf_other: "sessions_wf m \<Longrightarrow> (\<And>sid. k \<noteq> session_key sid) \<Longrightarrow> sessions_wf (m(k := e))"
  by (auto simp: sessions_wf_def) metis

lemma wf_expiring: "sessions_wf m \<Longrightarrow> sessions_wf (expiring now d (session_key sid) m)"
proof -
  assume wf: "sessions_wf m"
  show "sessions_wf (expiring now d (session_key sid) m)"
  proof (cases "live now m (session_key sid)")
    case (Some v)
    then obtain t where "m (session_key sid) = Some (v, t)" by (auto simp: live_def split: option.splits if_splits)
    from sessions_wfD [OF wf this] wf Some show ?thesis
      by (auto simp: expiring_def session_entry_def intro!: wf_upd)
  qed (use wf in \<open>simp add: expiring_def\<close>)
qed

record 'c session_api =
  sn_set :: "string \<Rightarrow> u64 \<Rightarrow> time \<Rightarrow> 'c \<Rightarrow> 'c \<times> string option"
  sn_get :: "string \<Rightarrow> time \<Rightarrow> 'c \<Rightarrow> 'c \<times> (string + u64)"
  sn_delete :: "string \<Rightarrow> time \<Rightarrow> 'c \<Rightarrow> 'c \<times> string option"
  sn_refresh :: "string \<Rightarrow> time \<Rightarrow> 'c \<Rightarrow> 'c \<times> string option"
  sn_user_info :: "u64 \<Rightarrow> redis_arg \<Rightarrow> time \<Rightarrow> 'c \<Rightarrow> 'c \<times> string option"
  sn_offline :: "u64 \<Rightarrow> time \<Rightarrow> 'c \<Rightarrow> 'c \<times> string option"

definition caches :: "'c redis_ops \<Rightarrow> 'c session_api" where
  "caches ops = \<lparr>sn_set = SetSessionContext ops, sn_get = GetSessionContext ops, sn_delete = DeleteSessionContext ops,
     sn_refresh = RefreshSessionContext ops, sn_user_info = SetUserInfoContext ops, sn_offline = SetUserOffline ops\<rparr>"

locale session_store =
  fixes api :: "'c session_api" and sess :: "'c \<Rightarrow> string \<Rightarrow> (u64 \<times> time) option" and ok :: "'c \<Rightarrow> bool"
  assumes set_session: "ok c \<Longrightarrow> sn_set api sid u now c = (c', e1) \<Longrightarrow>
      ok c' \<and> done_or_failed (sess c) (sess c') ((sess c)(sid \<mapsto> (u, now + session_expiry))) (e1 \<noteq> None)"
    and get_session: "ok c \<Longrightarrow> sn_get api sid now c = (c', r2) \<Longrightarrow> ok c' \<and> sess c' = sess c \<and> 
      (\<forall>u. r2 = Inr u \<longrightarrow> (\<exists>t. sess c sid = Some (u, t) \<and> now \<le> t))"
    and delete_session: "ok c \<Longrightarrow> sn_delete api sid now c = (c', e3) \<Longrightarrow>
      ok c' \<and> done_or_failed (sess c) (sess c') ((sess c)(sid := None)) (e3 \<noteq> None)"
    and refresh_session: "ok c \<Longrightarrow> sn_refresh api sid now c = (c', e4) \<Longrightarrow>
      ok c' \<and> done_or_failed (sess c) (sess c') (extended now sid (sess c)) (e4 \<noteq> None)"
    and user_info: "ok c \<Longrightarrow> sn_user_info api uid info now c = (c', e5) \<Longrightarrow> ok c' \<and> sess c' = sess c"
    and offline: "ok c \<Longrightarrow> sn_offline api uid now c = (c', e6) \<Longrightarrow> ok c' \<and> sess c' = sess c"

subsection \<open>The caches meet the contract\<close>

lemma set_context_json: "SetContext ops k (ArgJson (Inr s)) d now c = rd_Set ops k s d now c"
  by (simp add: SetContext_def)

context redis_store
begin

abbreviation "sess_ok c \<equiv> valid c \<and> sessions_wf (entries c)"

lemma new_session_entry: "session_entry (Some (RStr (json_of_u64 u), deadline now session_expiry)) = Some (u, now + session_expiry)"
  by (simp add: session_entry_def deadline_def)

lemma set_other:
  assumes "sess_ok c" and "0 \<le> d" and "\<And>sid. k \<noteq> session_key sid" and "SetContext ops k v d now c = (c', e)"
  shows "sess_ok c' \<and> sessions (entries c') = sessions (entries c)"
proof -
  consider "c' = c" | s where "rd_Set ops k s d now c = (c', e)"
    using assms(4) by (auto simp: SetContext_def split: sum.splits)
  then show ?thesis
  proof cases
    case 2
    with set_key [of c d k s now c' e] assms show ?thesis
      by (auto simp: done_or_failed_def sessions_other wf_other)
  qed (use assms in simp)
qed

end

sublocale redis_store \<subseteq> session_store "caches ops" "\<lambda>c. sessions (entries c)" "\<lambda>c. valid c \<and> sessions_wf (entries c)"
proof (unfold_locales, goal_cases)
  case (1 c sid u now c' e1)
  then have "rd_Set ops (session_key sid) (json_of_u64 u) session_expiry now c = (c', e1)"
    by (simp add: caches_def SetSessionContext_def set_context_json)
  from set_key [OF _ _ this] less_imp_le [OF expiry_pos(1)] 1(1) show ?case
    by (auto simp: done_or_failed_def sessions_upd new_session_entry intro!: wf_upd)
next
  case (2 c sid now c' r2)
  then obtain y where y: "rd_Get ops (session_key sid) now c = (c', y)"
    and r: "\<And>u. r2 = Inr u \<Longrightarrow> \<exists>s. y = Inr (Some s) \<and> json_u64 s = Some u"
    by (cases "rd_Get ops (session_key sid) now c")
      (auto simp: caches_def GetSessionContext_def GetStringContext_def split: sum.splits option.splits)
  have wf: "sessions_wf (entries c)" using 2(1) by simp
  from get_key [OF _ y] 2(1) have g: "valid c' \<and> entries c' = entries c \<and>
      (\<forall>v. y = Inr v \<longrightarrow> live now (entries c) (session_key sid) = map_option RStr v)" by simp
  have "\<exists>t. sessions (entries c) sid = Some (u, t) \<and> now \<le> t" if u: "r2 = Inr u" for u
  proof -
    from r [OF u] g obtain s where s: "live now (entries c) (session_key sid) = Some (RStr s)" "json_u64 s = Some u" by auto
    then obtain t where t: "entries c (session_key sid) = Some (RStr s, t)" "alive now t"
      by (auto simp: live_def split: option.splits if_splits)
    from sessions_wfD [OF wf t(1)] t s(2) show ?thesis by (auto simp: sessions_def session_entry_def)
  qed
  with g wf show ?case by auto
next
  case (3 c sid now c' e3)
  then have "rd_Del ops (session_key sid) now c = (c', e3)"
    by (simp add: caches_def DeleteSessionContext_def DeleteContext_def)
  from del_key [OF _ this] 3(1) show ?case
    by (auto simp: done_or_failed_def sessions_upd session_entry_def intro!: wf_upd)
next
  case (4 c sid now c' e4)
  then have "rd_Expire ops (session_key sid) session_expiry now c = (c', e4)"
    by (simp add: caches_def RefreshSessionContext_def ExpireContext_def)
  from expire_key [OF _ _ this] 4(1) show ?case
    by (auto simp: done_or_failed_def sessions_expiring wf_expiring)
next
  case (5 c uid info now c' e5)
  then have "SetContext ops (user_key uid) info (24 * hour) now c = (c', e5)"
    by (simp add: caches_def SetUserInfoContext_def)
  moreover have "0 \<le> 24 * hour" by (simp add: hour_def second_def)
  ultimately show ?case using set_other [of c "24 * hour" "user_key uid"] 5(1) other_keys(1) by metis
next
  case (6 c uid now c' e6)
  then have "rd_Del ops (online_key uid) now c = (c', e6)"
    by (simp add: caches_def SetUserOffline_def DeleteContext_def)
  moreover have "online_key uid \<noteq> session_key sid" for sid by (rule other_keys(2) [symmetric])
  ultimately show ?case using del_key [of c "online_key uid" now c' e6] 6(1)
    by (auto simp: done_or_failed_def sessions_other wf_other)
qed

context redis_store
begin

lemma is_session_store:
  "session_store (caches ops) (\<lambda>c. sessions (entries c)) (\<lambda>c. valid c \<and> sessions_wf (entries c))"
  by unfold_locales

end

subsection \<open>A database in memory\<close>

type_synonym mem_redis = "(string \<times> (redis_val \<times> time option)) list"

definition mem_put :: "string \<Rightarrow> redis_val \<Rightarrow> time option \<Rightarrow> mem_redis \<Rightarrow> mem_redis" where
  "mem_put k v t c = AList.update k (v, t) c"

definition mem_redis_ops :: "mem_redis redis_ops" where
  "mem_redis_ops = \<lparr>
     rd_Set = (\<lambda>k v d now c. (mem_put k (RStr v) (deadline now d) c, None)),
     rd_SetNX = (\<lambda>k v d now c. if live now (map_of c) k = None then (mem_put k (RStr v) (deadline now d) c, Inr True) else (c, Inr False)),
     rd_Get = (\<lambda>k now c. (c, case live now (map_of c) k of None \<Rightarrow> Inr None | Some (RStr s) \<Rightarrow> Inr (Some s)
        | Some (RSet _) \<Rightarrow> Inl ''WRONGTYPE'')),
     rd_Del = (\<lambda>k now c. (AList.delete k c, None)),
     rd_Expire = (\<lambda>k d now c. (case live now (map_of c) k of None \<Rightarrow> c | Some v \<Rightarrow> mem_put k v (Some (now + d)) c, None)),
     rd_SAdd = (\<lambda>k x now c. case members now (map_of c) k of None \<Rightarrow> (c, Some ''WRONGTYPE'')
        | Some xs \<Rightarrow> (mem_put k (RSet (List.insert x xs)) (kept_deadline now (map_of c) k) c, None)),
     rd_SRem = (\<lambda>k x now c. case members now (map_of c) k of None \<Rightarrow> (c, Some ''WRONGTYPE'')
        | Some xs \<Rightarrow> (if removeAll x xs = [] then AList.delete k c
             else mem_put k (RSet (removeAll x xs)) (kept_deadline now (map_of c) k) c, None)),
     rd_SMembers = (\<lambda>k now c. (c, case members now (map_of c) k of None \<Rightarrow> Inl ''WRONGTYPE'' | Some xs \<Rightarrow> Inr xs))\<rparr>"

lemma map_of_put [simp]: "map_of (mem_put k v t c) = (map_of c)(k \<mapsto> (v, t))"
  by (simp add: mem_put_def update_conv')

lemma map_of_delete [simp]: "map_of (AList.delete k c) = (map_of c)(k := None)"
  by (simp add: delete_conv')

interpretation mem_redis: redis_store mem_redis_ops map_of "\<lambda>_. True"
  by unfold_locales
    (auto simp: mem_redis_ops_def done_or_failed_def expiring_def split: option.splits redis_val.splits if_splits)

subsection \<open>Properties of the lock\<close>

fun lock_run :: "'c redis_ops \<Rightarrow> string \<Rightarrow> duration \<Rightarrow> time list \<Rightarrow> 'c \<Rightarrow> (time \<times> (string + bool)) list" where
  "lock_run ops k d [] c = []"
| "lock_run ops k d (t # ts) c = (case Lock ops k d t c of (c', r) \<Rightarrow> (t, r) # lock_run ops k d ts c')"

context redis_store
begin

text \<open>While an entry that ends at \<open>e\<close> or later is there, no attempt up to \<open>e\<close> succeeds.\<close>

lemma no_grant:
  "valid c \<Longrightarrow> 0 < d \<Longrightarrow> entries c (''lock:'' @ k) = Some (v, Some e) \<Longrightarrow> (t, Inr True) \<in> set (lock_run ops k d ts c) \<Longrightarrow> e < t"
proof (induction ts arbitrary: c v e)
  case Nil
  then show ?case by simp
next
  case (Cons s ts)
  obtain c1 r where l: "rd_SetNX ops (''lock:'' @ k) ''1'' d s c = (c1, r)" by fastforce
  note n = set_nx [OF Cons.prems(1) less_imp_le [OF Cons.prems(2)] l]
  have dead: "live s (entries c) (''lock:'' @ k) = None \<longleftrightarrow> e < s" using Cons.prems(3) by (auto simp: live_def)
  have "e < t" if r: "r = Inr True" "t = s" using n dead r by auto
  moreover have "e < t" if m: "(t, Inr True) \<in> set (lock_run ops k d ts c1)"
  proof -
    have "entries c1 = entries c \<or> e < s \<and> entries c1 (''lock:'' @ k) = Some (RStr ''1'', Some (s + d))"
      using n dead Cons.prems(2) by (auto simp: done_or_failed_def deadline_def split: if_splits)
    with Cons.IH [OF _ Cons.prems(2) _ m] n Cons.prems(2,3) show ?thesis by fastforce
  qed
  ultimately show ?case using Cons.prems(4) l by (auto simp: Lock_def)
qed

lemma grants_apart:
  "valid c \<Longrightarrow> 0 < d \<Longrightarrow> lock_run ops k d ts c = xs @ (t, Inr True) # ys \<Longrightarrow> (t', Inr True) \<in> set ys \<Longrightarrow> t + d < t'"
proof (induction ts arbitrary: c xs)
  case Nil
  then show ?case by simp
next
  case (Cons s ts)
  obtain c1 r where l: "rd_SetNX ops (''lock:'' @ k) ''1'' d s c = (c1, r)" by fastforce
  note n = set_nx [OF Cons.prems(1) less_imp_le [OF Cons.prems(2)] l]
  show ?case
  proof (cases xs)
    case Nil
    with Cons.prems(3) l have "r = Inr True" "t = s" "ys = lock_run ops k d ts c1" by (auto simp: Lock_def)
    moreover with n Cons.prems(2) have "entries c1 (''lock:'' @ k) = Some (RStr ''1'', Some (t + d))" "valid c1"
      by (auto simp: done_or_failed_def deadline_def)
    ultimately show ?thesis using no_grant [of c1 d k _ "t + d"] Cons.prems(2,4) by blast
  next
    case (Cons x xs')
    with Cons.prems(3) l have "lock_run ops k d ts c1 = xs' @ (t, Inr True) # ys" by (auto simp: Lock_def)
    with Cons.IH [of c1 xs'] n Cons.prems(2,4) show ?thesis by blast
  qed
qed

end

text \<open>
  C26: The distributed lock excludes: among any attempts to take one lock with the same duration, on
  any Redis and with arbitrary network errors, a later attempt succeeds only after the lock granted
  before it has expired.
\<close>

theorem lock_grants_apart:
  assumes "redis_store ops entries valid" and "valid c" and "0 < d"
    and "lock_run ops k d ts c = xs @ (t, Inr True) # ys" and "(t', Inr True) \<in> set ys"
  shows "t + d < t'"
  using redis_store.grants_apart [OF assms] .

lemma lock_grants_apart_witness:
  "\<exists>xs ys. lock_run mem_redis_ops ''m'' 5 [1, 3, 7] [] = xs @ (1, Inr True) # ys \<and> (7, Inr True) \<in> set ys \<and> 1 + 5 < (7 :: int)"
proof -
  have r: "lock_run mem_redis_ops ''m'' 5 [1, 3, 7] [] = [] @ (1, Inr True) # [(3, Inr False), (7, Inr True)]" by code_simp
  have "1 + 5 < (7 :: int)"
    by (rule lock_grants_apart [OF mem_redis.redis_store_axioms TrueI _ r]) simp_all
  with r show ?thesis by (intro exI conjI) (assumption, simp_all)
qed

text \<open>
  \<^verbatim>\<open>Unlock\<close> does not check who holds the lock. A holder whose lock has expired and been granted to
  another one releases the other one's lock: afterwards the lock is free although that grant has not
  expired.
\<close>

theorem unlock_releases_foreign:
  assumes "redis_store ops entries valid" and "valid c" and "0 < d"
    and "Lock ops k d now c = (c1, Inr True)" and "Unlock ops k later c1 = (c2, None)"
  shows "live later (entries c1) (''lock:'' @ k) = (if later \<le> now + d then Some (RStr ''1'') else None) \<and>
    live later (entries c2) (''lock:'' @ k) = None"
proof -
  note set = redis_store.set_nx [OF assms(1,2) less_imp_le [OF assms(3)] assms(4) [unfolded Lock_def]]
  with assms(3) have "entries c1 (''lock:'' @ k) = Some (RStr ''1'', Some (now + d))" "valid c1"
    by (auto simp: done_or_failed_def deadline_def)
  with redis_store.del_key [OF assms(1) _ assms(5) [unfolded Unlock_def]] show ?thesis
    by (simp add: done_or_failed_def live_def)
qed

lemma unlock_releases_foreign_witness:
  "live 8 (map_of (fst (Lock mem_redis_ops ''m'' 5 7 []))) ''lock:m'' = Some (RStr ''1'') \<and>
   live 8 (map_of (fst (Unlock mem_redis_ops ''m'' 8 (fst (Lock mem_redis_ops ''m'' 5 7 []))))) ''lock:m'' = None"
proof -
  have l: "Lock mem_redis_ops ''m'' 5 7 [] = (fst (Lock mem_redis_ops ''m'' 5 7 []), Inr True)"
    and u: "Unlock mem_redis_ops ''m'' 8 (fst (Lock mem_redis_ops ''m'' 5 7 [])) =
      (fst (Unlock mem_redis_ops ''m'' 8 (fst (Lock mem_redis_ops ''m'' 5 7 []))), None)" by (code_simp, code_simp)
  from unlock_releases_foreign [OF mem_redis.redis_store_axioms TrueI _ l u] show ?thesis by simp
qed

end
