(* ===== verification/Login.thy ===== *)
theory Login
  imports LoginTokens Users Redis Protocol
begin

text \<open>
  \<^verbatim>\<open>internal/server/login_server.go\<close>: the five handlers of \<^verbatim>\<open>LoginService\<close> over the user repository,
  the session and user caches in Redis and the signed tokens of \<open>LoginTokens\<close>. A handler returns its
  new state and either its Go error or its response; one that reads the request header directly
  panics without one. The readings of the clock within one call are one argument, the random bytes of
  a token another (\<open>None\<close>: \<^verbatim>\<open>rand.Read\<close> failed). The JSON form of a user, kept in the cache for other
  servers, is a parameter; logging is left out.
\<close>

subsection \<open>Requests, responses and the server\<close>

record ('d, 'r) login_server =
  ln_userRepo :: "'d user_repo"
  ln_caches :: "'r session_api"
  ln_hmac :: mac
  ln_tokenSecret :: "byte list"
  ln_tokenExpiry :: duration
  ln_passwords :: password_lib
  ln_json :: "user \<Rightarrow> string + string"

record ('d, 'r) login =
  lo_users :: 'd
  lo_redis :: 'r

definition new_token :: "('d, 'r) login_server \<Rightarrow> u64 \<Rightarrow> time \<Rightarrow> byte list option \<Rightarrow> string" where
  "new_token sv uid now rnd = generateToken (ln_hmac sv) (ln_tokenSecret sv) (ln_tokenExpiry sv) uid now rnd"

definition token_claims :: "('d, 'r) login_server \<Rightarrow> time \<Rightarrow> string \<Rightarrow> string + login_claims" where
  "token_claims sv now token = validateToken (ln_hmac sv) (ln_tokenSecret sv) now token"

subsection \<open>Login and Register\<close>

definition upgrade_hash :: "('d, 'r) login_server \<Rightarrow> time \<Rightarrow> string \<Rightarrow> user \<Rightarrow> 'd \<Rightarrow> 'd \<times> user" where
  "upgrade_hash sv now password user d =
     (case hashPassword (ln_passwords sv) password of
        None \<Rightarrow> (d, user)
      | Some h \<Rightarrow> (case ur_UpdateFields (ln_userRepo sv) now (us_UserID user) [(''password'', BStr h)] d of
            (d', Some _) \<Rightarrow> (d', user)
          | (d', None) \<Rightarrow> (d', user\<lparr>us_Password := h\<rparr>)))"

text \<open>The end both handlers share: cache the user, set the session, answer.\<close>

definition open_session :: "('d, 'r) login_server \<Rightarrow> time \<Rightarrow> user \<Rightarrow> string \<Rightarrow> 'r \<Rightarrow> 'r \<times> (string + login_response)" where
  "open_session sv now user token r =
     (let (r1, _) = sn_user_info (ln_caches sv) (us_UserID user) (ArgJson (ln_json sv user)) now r
      in case sn_set (ln_caches sv) token (us_UserID user) now r1 of
           (r2, Some _) \<Rightarrow> (r2, Inl ''failed to create session'')
         | (r2, None) \<Rightarrow> (r2, Inr \<lparr>lr_UserId = us_UserID user, lr_Token = token, lr_Nickname = us_Nickname user,
               lr_Level = us_Level user, lr_Exp = us_Experience user, lr_Gold = us_Gold user, lr_Diamond = us_Diamond user\<rparr>))"

definition Login :: "('d, 'r) login_server \<Rightarrow> time \<Rightarrow> byte list option \<Rightarrow> login_request \<Rightarrow> ('d, 'r) login \<Rightarrow>
    ('d, 'r) login \<times> (string + login_response)" where
  "Login sv now rnd req s =
     (case ur_GetByUsername (ln_userRepo sv) (lq_Username req) (lo_users s) of
        (d1, Inl _) \<Rightarrow> (s\<lparr>lo_users := d1\<rparr>, Inl ''invalid username or password'')
      | (d1, Inr user) \<Rightarrow>
          (case verifyPassword (ln_passwords sv) (lq_Password req) (us_Password user) of
             (False, _) \<Rightarrow> (s\<lparr>lo_users := d1\<rparr>, Inl ''invalid username or password'')
           | (True, needsRehash) \<Rightarrow>
               (let (d2, user2) = (if needsRehash then upgrade_hash sv now (lq_Password req) user d1 else (d1, user)) in
                if us_Status user2 \<noteq> 0 then (s\<lparr>lo_users := d2\<rparr>, Inl ''user is banned'')
                else
                  (let token = new_token sv (us_UserID user2) now rnd;
                       (d3, _) = ur_UpdateFields (ln_userRepo sv) now (us_UserID user2)
                          [(''last_login_at'', bson_time now), (''last_login_ip'', BStr ''0.0.0.0'')] d2;
                       (r, res) = open_session sv now user2 token (lo_redis s)
                   in (\<lparr>lo_users = d3, lo_redis = r\<rparr>, res)))))"

definition registered_user :: "time \<Rightarrow> string \<Rightarrow> string \<Rightarrow> user" where
  "registered_user now name passwordHash =
     \<lparr>us_ID = None, us_UserID = of_int (time_unix_nano now), us_Username = name, us_Password = passwordHash, us_Nickname = name,
      us_Email = [], us_Phone = [], us_Level = 1, us_Experience = 0, us_Gold = 1000, us_Diamond = 100, us_Avatar = [],
      us_Status = 0, us_LastLoginIP = [], us_LastLoginAt = now, us_CreatedAt = now, us_UpdatedAt = now\<rparr>"

definition Register :: "('d, 'r) login_server \<Rightarrow> time \<Rightarrow> byte list option \<Rightarrow> login_request \<Rightarrow> ('d, 'r) login \<Rightarrow>
    ('d, 'r) login \<times> (string + login_response)" where
  "Register sv now rnd req s =
     (case ur_GetByUsername (ln_userRepo sv) (lq_Username req) (lo_users s) of
        (d1, Inr _) \<Rightarrow> (s\<lparr>lo_users := d1\<rparr>, Inl ''username already exists'')
      | (d1, Inl _) \<Rightarrow>
          (case hashPassword (ln_passwords sv) (lq_Password req) of
             None \<Rightarrow> (s\<lparr>lo_users := d1\<rparr>, Inl ''failed to create user'')
           | Some h \<Rightarrow>
               (case ur_Create (ln_userRepo sv) now now (registered_user now (lq_Username req) h) d1 of
                  (d2, Inl _) \<Rightarrow> (s\<lparr>lo_users := d2\<rparr>, Inl ''failed to create user'')
                | (d2, Inr newUser) \<Rightarrow>
                    (let token = new_token sv (us_UserID newUser) now rnd;
                         (r, res) = open_session sv now newUser token (lo_redis s)
                     in (\<lparr>lo_users = d2, lo_redis = r\<rparr>, res)))))"

subsection \<open>Logout, ValidateToken and RefreshToken\<close>

definition quoted :: "string \<Rightarrow> string" where "quoted x = CHR 0x22 # x @ [CHR 0x22]"

definition ok_reply :: "base_request \<Rightarrow> string \<Rightarrow> string \<Rightarrow> base_response" where
  "ok_reply req msg d = \<lparr>bp_Header = br_Header req, bp_Code = 0, bp_Msg = msg, bp_Data = string_bytes d\<rparr>"

definition Logout :: "('d, 'r) login_server \<Rightarrow> time \<Rightarrow> base_request \<Rightarrow> ('d, 'r) login \<Rightarrow>
    (('d, 'r) login \<times> base_response) outcome" where
  "Logout sv now req s =
     (case br_Header req of
        None \<Rightarrow> Panic
      | Some h \<Rightarrow>
          if mh_UserId h = 0 then Ret (s, reply req (- 1) ''invalid user id'')
          else
            (let (r1, _) = (if mh_SessionId h \<noteq> [] then sn_delete (ln_caches sv) (mh_SessionId h) now (lo_redis s) else (lo_redis s, None));
                 (r2, _) = sn_offline (ln_caches sv) (mh_UserId h) now r1
             in Ret (s\<lparr>lo_redis := r2\<rparr>, reply req 0 ''logout success'')))"

definition ValidateToken :: "('d, 'r) login_server \<Rightarrow> time \<Rightarrow> base_request \<Rightarrow> ('d, 'r) login \<Rightarrow>
    (('d, 'r) login \<times> base_response) outcome" where
  "ValidateToken sv now req s =
     (case br_Header req of
        None \<Rightarrow> Panic
      | Some h \<Rightarrow>
          if mh_SessionId h = [] then Ret (s, reply req (- 1) ''missing session id'')
          else case token_claims sv now (mh_SessionId h) of
            Inl _ \<Rightarrow> Ret (s, reply req (- 2) ''invalid token'')
          | Inr claims \<Rightarrow>
              (case sn_get (ln_caches sv) (mh_SessionId h) now (lo_redis s) of
                 (r1, Inl _) \<Rightarrow> Ret (s\<lparr>lo_redis := r1\<rparr>, reply req (- 2) ''invalid session'')
               | (r1, Inr uid) \<Rightarrow>
                   if uid \<noteq> lc_userID claims then Ret (s\<lparr>lo_redis := r1\<rparr>, reply req (- 3) ''session mismatch'')
                   else
                     (let (r2, _) = sn_refresh (ln_caches sv) (mh_SessionId h) now r1
                      in Ret (s\<lparr>lo_redis := r2\<rparr>,
                           ok_reply req ''token valid'' (''{'' @ quoted ''user_id'' @ '':'' @ fmt_nat (unat uid) @ ''}'')))))"

definition RefreshToken :: "('d, 'r) login_server \<Rightarrow> time \<Rightarrow> byte list option \<Rightarrow> base_request \<Rightarrow> ('d, 'r) login \<Rightarrow>
    (('d, 'r) login \<times> (string + base_response)) outcome" where
  "RefreshToken sv now rnd req s =
     (case br_Header req of
        None \<Rightarrow> Panic
      | Some h \<Rightarrow>
          if mh_UserId h = 0 then Ret (s, Inr (reply req (- 1) ''invalid user id''))
          else
            (let claims = token_claims sv now (mh_SessionId h) in
             if mh_SessionId h = [] \<or> isl claims \<or> lc_userID (projr claims) \<noteq> mh_UserId h
             then Ret (s, Inr (reply req (- 2) ''invalid token''))
             else
               (let token = new_token sv (mh_UserId h) now rnd;
                    (r1, _) = sn_delete (ln_caches sv) (mh_SessionId h) now (lo_redis s)
                in case sn_set (ln_caches sv) token (mh_UserId h) now r1 of
                     (r2, Some _) \<Rightarrow> Ret (s\<lparr>lo_redis := r2\<rparr>, Inl ''failed to create session'')
                   | (r2, None) \<Rightarrow> Ret (s\<lparr>lo_redis := r2\<rparr>,
                        Inr (ok_reply req ''token refreshed'' (''{'' @ quoted ''token'' @ '':'' @ quoted token @ ''}''))))))"

subsection \<open>The service on its stores\<close>

text \<open>
  A session is signed when its identifier is a token the server issued to its user. That every live
  session is signed is the invariant of the service.
\<close>

definition signed :: "('d, 'r) login_server \<Rightarrow> string \<Rightarrow> u64 \<Rightarrow> bool" where
  "signed sv sid uid \<longleftrightarrow> (\<exists>now rnd. sid = new_token sv uid now rnd \<and>
     i64_range (time_unix now) \<and> i64_range (time_unix (now + ln_tokenExpiry sv)))"

definition login_ok ::
  "('d, 'r) login_server \<Rightarrow> ('r \<Rightarrow> string \<Rightarrow> (u64 \<times> time) option) \<Rightarrow> ('d \<Rightarrow> bool) \<Rightarrow> ('r \<Rightarrow> bool) \<Rightarrow> ('d, 'r) login \<Rightarrow> bool" where
  "login_ok sv sess uok rok s \<longleftrightarrow> uok (lo_users s) \<and> rok (lo_redis s) \<and>
     (\<forall>sid uid t. sess (lo_redis s) sid = Some (uid, t) \<longrightarrow> signed sv sid uid)"

definition clock_ok :: "('d, 'r) login_server \<Rightarrow> time \<Rightarrow> bool" where
  "clock_ok sv now \<longleftrightarrow> i64_range (time_unix now) \<and> i64_range (time_unix (now + ln_tokenExpiry sv))"

lemma signed_claims: "signed sv sid uid \<Longrightarrow> token_claims sv now sid = Inr claims \<Longrightarrow> lc_userID claims = uid"
  by (auto simp: signed_def token_claims_def new_token_def validate_generated split: if_splits)

lemma signed_new: "clock_ok sv now \<Longrightarrow> signed sv (new_token sv uid now rnd) uid"
  by (auto simp: signed_def clock_ok_def)

lemma claims_new:
  "clock_ok sv now \<Longrightarrow> token_claims sv later (new_token sv uid now rnd) =
     (if time_unix later > time_unix (now + ln_tokenExpiry sv) then Inl ''token expired''
      else Inr \<lparr>lc_userID = uid, lc_issuedAt = time_unix now, lc_expiresAt = time_unix (now + ln_tokenExpiry sv)\<rparr>)"
  by (simp add: token_claims_def new_token_def validate_generated clock_ok_def)

lemma new_token_nonempty [simp]: "new_token sv uid now rnd \<noteq> []"
  by (simp add: new_token_def generateToken_def Let_def)

text \<open>Steps that keep all sessions signed.\<close>

definition stays_signed ::
  "('d, 'r) login_server \<Rightarrow> (string \<Rightarrow> (u64 \<times> time) option) \<Rightarrow> (string \<Rightarrow> (u64 \<times> time) option) \<Rightarrow> bool" where
  "stays_signed sv m m' \<longleftrightarrow> (\<forall>sid u t. m' sid = Some (u, t) \<longrightarrow> signed sv sid u \<or> (\<exists>t'. m sid = Some (u, t')))"

lemma stays_signed_refl [intro]: "stays_signed sv m m"
  by (auto simp: stays_signed_def)

lemma stays_signed_set:
  "done_or_failed m m' (m(sid \<mapsto> (u, t))) failed \<Longrightarrow> signed sv sid u \<Longrightarrow> stays_signed sv m m'"
  by (auto simp: stays_signed_def done_or_failed_def split: if_splits)

lemma stays_signed_delete: "done_or_failed m m' (m(sid := None)) failed \<Longrightarrow> stays_signed sv m m'"
  by (auto simp: stays_signed_def done_or_failed_def split: if_splits)

lemma stays_signed_trans: "stays_signed sv m m' \<Longrightarrow> stays_signed sv m' m'' \<Longrightarrow> stays_signed sv m m''"
  unfolding stays_signed_def by blast

lemma extended_keeps: "extended now sid m k = Some (u, t) \<Longrightarrow> \<exists>t'. m k = Some (u, t')"
  by (auto simp: extended_def split: option.splits if_splits prod.splits)

lemma stays_signed_extended: "done_or_failed m m' (extended now sid m) failed \<Longrightarrow> stays_signed sv m m'"
  by (auto simp: stays_signed_def done_or_failed_def dest: extended_keeps)

locale login_service =
  users: user_store "ln_userRepo sv" users uok + sessions: session_store "ln_caches sv" sess rok
  for sv :: "('d, 'r) login_server" and users uok sess rok
begin

abbreviation "ok \<equiv> login_ok sv sess uok rok"

lemma okI: "ok s \<Longrightarrow> uok d \<Longrightarrow> rok r \<Longrightarrow> stays_signed sv (sess (lo_redis s)) (sess r) \<Longrightarrow> ok \<lparr>lo_users = d, lo_redis = r\<rparr>"
  unfolding login_ok_def stays_signed_def by (simp, blast)

lemma open_session_effect:
  assumes "rok r" and "open_session sv now user token r = (r', res)"
  shows "rok r' \<and> done_or_failed (sess r) (sess r') ((sess r)(token \<mapsto> (us_UserID user, now + session_expiry))) (isl res) \<and>
    (case res of Inl e \<Rightarrow> e = ''failed to create session'' | Inr x \<Rightarrow> lr_UserId x = us_UserID user \<and> lr_Token x = token)"
proof -
  obtain r1 e1 where i: "sn_user_info (ln_caches sv) (us_UserID user) (ArgJson (ln_json sv user)) now r = (r1, e1)" by fastforce
  obtain r2 e2 where c: "sn_set (ln_caches sv) token (us_UserID user) now r1 = (r2, e2)" by fastforce
  note k = sessions.user_info [OF assms(1) i]
  with sessions.set_session [OF _ c] assms(2) show ?thesis
    by (auto simp: open_session_def i c split: option.splits)
qed

lemma upgrade_effect:
  assumes "uok d" and "upgrade_hash sv now password user d = (d', user')"
  shows "uok d' \<and> us_UserID user' = us_UserID user \<and> us_Status user' = us_Status user \<and>
    (\<forall>j. j \<noteq> us_UserID user \<longrightarrow> users d' j = users d j)"
proof (cases "hashPassword (ln_passwords sv) password")
  case None
  with assms show ?thesis by (simp add: upgrade_hash_def)
next
  case (Some h)
  obtain d1 e where u: "ur_UpdateFields (ln_userRepo sv) now (us_UserID user) [(''password'', BStr h)] d = (d1, e)" by fastforce
  from assms(2) Some u have "d' = d1" "user' = user \<or> user' = user\<lparr>us_Password := h\<rparr>"
    by (auto simp: upgrade_hash_def split: option.splits)
  with users.set_password [OF assms(1) u] show ?thesis by (auto simp: changed_def)
qed

text \<open>What \<^verbatim>\<open>Login\<close> does on its successful branch, and that the others open no session.\<close>

lemma login_effect:
  assumes "ok s" and "clock_ok sv now" and "Login sv now rnd req s = (s', res)"
  shows "ok s' \<and> (case res of
      Inr x \<Rightarrow> \<exists>u. users (lo_users s) (lr_UserId x) = Some u \<and> us_Username u = lq_Username req \<and> us_Status u = 0 \<and>
        fst (verifyPassword (ln_passwords sv) (lq_Password req) (us_Password u)) \<and>
        lr_Token x = new_token sv (lr_UserId x) now rnd \<and>
        (\<forall>j. j \<noteq> lr_UserId x \<longrightarrow> users (lo_users s') j = users (lo_users s) j) \<and>
        sess (lo_redis s') = (sess (lo_redis s))(lr_Token x \<mapsto> (lr_UserId x, now + session_expiry))
    | Inl e \<Rightarrow> e = ''failed to create session'' \<or> sess (lo_redis s') = sess (lo_redis s))"
proof -
  have s: "uok (lo_users s)" "rok (lo_redis s)" using assms(1) by (simp_all add: login_ok_def)
  obtain d1 y where g: "ur_GetByUsername (ln_userRepo sv) (lq_Username req) (lo_users s) = (d1, y)" by fastforce
  note u1 = users.get_name [OF s(1) g]
  have same: "ok (s\<lparr>lo_users := d\<rparr>)" if "uok d" for d using assms(1) that by (simp add: login_ok_def)
  show ?thesis
  proof (cases y)
    case (Inl e)
    with assms(3) g u1 same [of d1] show ?thesis by (auto simp: Login_def)
  next
    case (Inr user)
    obtain okp rehash where v: "verifyPassword (ln_passwords sv) (lq_Password req) (us_Password user) = (okp, rehash)" by fastforce
    obtain d2 user2 where p: "(if rehash then upgrade_hash sv now (lq_Password req) user d1 else (d1, user)) = (d2, user2)" by fastforce
    have u2: "uok d2 \<and> us_UserID user2 = us_UserID user \<and> us_Status user2 = us_Status user \<and> (\<forall>j. j \<noteq> us_UserID user \<longrightarrow> users d2 j = users d1 j)"
      using p upgrade_effect [of d1 now "lq_Password req" user d2 user2] u1 by (auto split: if_splits)
    show ?thesis
    proof (cases "okp \<and> us_Status user2 = 0")
      case False
      with assms(3) g Inr v p u1 u2 same [of d1] same [of d2] show ?thesis
        by (cases okp) (auto simp: Login_def Let_def)
    next
      case True
      obtain d3 e3 where l: "ur_UpdateFields (ln_userRepo sv) now (us_UserID user2)
          [(''last_login_at'', bson_time now), (''last_login_ip'', BStr ''0.0.0.0'')] d2 = (d3, e3)" by fastforce
      obtain r x where o: "open_session sv now user2 (new_token sv (us_UserID user2) now rnd) (lo_redis s) = (r, x)" by fastforce
      have res: "s' = \<lparr>lo_users = d3, lo_redis = r\<rparr>" "res = x"
        using assms(3) g Inr v p True l o by (auto simp: Login_def Let_def)
      have id: "us_UserID user2 = us_UserID user" "us_Status user2 = us_Status user" using u2 by auto
      have "uok d2" using u2 by simp
      note u3 = users.set_last_login [OF this l] and os = open_session_effect [OF s(2) o]
      from os have "done_or_failed (sess (lo_redis s)) (sess r)
          ((sess (lo_redis s))(new_token sv (us_UserID user2) now rnd \<mapsto> (us_UserID user2, now + session_expiry))) (isl x)" by simp
      note st = stays_signed_set [OF this signed_new [OF assms(2)]]
      then have "ok s'" unfolding res using u3 os by (intro okI [OF assms(1)]) simp_all
      moreover have "users d3 j = users (lo_users s) j" if "j \<noteq> us_UserID user" for j
        using u3 u2 u1 id that by (auto simp: changed_def)
      ultimately show ?thesis
        using res os u1 u3 Inr v True id by (auto simp: done_or_failed_def split: sum.splits)
    qed
  qed
qed

lemma get_user_same:
  "uok d \<Longrightarrow> ur_GetByUsername (ln_userRepo sv) name d = (d', y) \<Longrightarrow> uok d' \<and> users d' = users d"
  using users.get_name by blast

lemma register_effect:
  assumes "ok s" and "clock_ok sv now" and "Register sv now rnd req s = (s', res)"
  shows "ok s' \<and> (case res of
      Inr x \<Rightarrow> \<exists>h u. hashPassword (ln_passwords sv) (lq_Password req) = Some h \<and>
        lr_UserId x = of_int (time_unix_nano now) \<and> lr_Token x = new_token sv (lr_UserId x) now rnd \<and>
        users (lo_users s) (lr_UserId x) = None \<and> users (lo_users s') = (users (lo_users s))(lr_UserId x \<mapsto> u) \<and>
        us_Username u = lq_Username req \<and> us_Password u = h \<and> us_Status u = 0 \<and>
        us_Gold u = 1000 \<and> us_Diamond u = 100 \<and> us_Level u = 1 \<and>
        (\<forall>i v. users (lo_users s) i = Some v \<longrightarrow> us_Username v \<noteq> lq_Username req) \<and>
        sess (lo_redis s') = (sess (lo_redis s))(lr_Token x \<mapsto> (lr_UserId x, now + session_expiry))
    | Inl e \<Rightarrow> e = ''failed to create session'' \<or> sess (lo_redis s') = sess (lo_redis s))"
proof -
  have s: "uok (lo_users s)" "rok (lo_redis s)" using assms(1) by (simp_all add: login_ok_def)
  obtain d1 y where g: "ur_GetByUsername (ln_userRepo sv) (lq_Username req) (lo_users s) = (d1, y)" by fastforce
  note u1 = get_user_same [OF s(1) g]
  have same: "ok (s\<lparr>lo_users := d\<rparr>)" if "uok d" for d using assms(1) that by (simp add: login_ok_def)
  show ?thesis
  proof (cases "isl y \<and> hashPassword (ln_passwords sv) (lq_Password req) \<noteq> None")
    case False
    with assms(3) g u1 same [of d1] show ?thesis
      by (cases y) (auto simp: Register_def)
  next
    case True
    then obtain e h where y: "y = Inl e" and h: "hashPassword (ln_passwords sv) (lq_Password req) = Some h"
      by (cases y) auto
    let ?u = "registered_user now (lq_Username req) h" and ?id = "of_int (time_unix_nano now) :: u64"
    obtain d2 z where c: "ur_Create (ln_userRepo sv) now now ?u d1 = (d2, z)" by fastforce
    have f: "user_fits ?u" "us_ID ?u = None" "us_UserID ?u = ?id"
      by (simp_all add: registered_user_def user_fits_def int_fits_def)
    from users.create [OF conjunct1 [OF u1] f(1,2) c, unfolded f(3) conjunct2 [OF u1]] obtain w where w: "uok d2"
      "created ?id (stored_user \<circ> new_user now now ?u) (users (lo_users s)) (users d2) w"
      "\<And>v. z = Inr v \<Longrightarrow> \<exists>n. w = Inr n \<and> v = new_user now now ?u n"
      by (elim conjE exE) (rule that, assumption+, blast)
    show ?thesis
    proof (cases z)
      case (Inl e')
      with assms(3) g y h c w(1) same [of d2] show ?thesis by (auto simp: Register_def)
    next
      case (Inr v)
      with w obtain n where n: "w = Inr n" "v = new_user now now ?u n" by blast
      then have v: "us_UserID v = ?id" using f(3) by (simp add: new_user_def)
      obtain r x where o: "open_session sv now v (new_token sv (us_UserID v) now rnd) (lo_redis s) = (r, x)" by fastforce
      have res: "s' = \<lparr>lo_users = d2, lo_redis = r\<rparr>" "res = x"
        using assms(3) g y h c Inr o by (auto simp: Register_def Let_def)
      note os = open_session_effect [OF s(2) o]
      then have "done_or_failed (sess (lo_redis s)) (sess r)
          ((sess (lo_redis s))(new_token sv (us_UserID v) now rnd \<mapsto> (us_UserID v, now + session_expiry))) (isl x)" by simp
      note st = stays_signed_set [OF this signed_new [OF assms(2)]]
      then have ok': "ok s'" unfolding res using w(1) os by (intro okI [OF assms(1)]) simp_all
      let ?w = "(stored_user \<circ> new_user now now ?u) n"
      have new: "users (lo_users s) ?id = None" "users d2 = (users (lo_users s))(?id \<mapsto> ?w)"
        using w(2) n(1) by (simp_all add: created_def)
      have w_fields: "us_Username ?w = lq_Username req" "us_Password ?w = h" "us_Status ?w = 0" "us_Gold ?w = 1000"
          "us_Diamond ?w = 100" "us_Level ?w = 1"
        by (simp_all add: stored_user_def new_user_def registered_user_def)
      have "us_Username u \<noteq> lq_Username req" if "users (lo_users s) i = Some u" for i u
      proof -
        have i: "i \<noteq> ?id" using new(1) that by auto
        then have "users d2 i = Some u" "users d2 ?id = Some ?w" using new(2) that by simp_all
        from users.unique_name [OF w(1) this] i w_fields(1) show ?thesis by auto
      qed
      with ok' res os v h new w_fields show ?thesis
        by (cases x) (auto simp: done_or_failed_def intro!: exI [of _ ?w])
    qed
  qed
qed

text \<open>The handlers that read the header.\<close>

lemma logout_effect:
  assumes "ok s" and "br_Header req = Some h" and "mh_UserId h \<noteq> 0" and "mh_SessionId h \<noteq> []"
    and "sn_delete (ln_caches sv) (mh_SessionId h) now (lo_redis s) = (r1, e)"
  shows "\<exists>s'. Logout sv now req s = Ret (s', reply req 0 ''logout success'') \<and> ok s' \<and>
    done_or_failed (sess (lo_redis s)) (sess (lo_redis s')) ((sess (lo_redis s))(mh_SessionId h := None)) (e \<noteq> None)"
proof -
  have s: "uok (lo_users s)" "rok (lo_redis s)" using assms(1) by (simp_all add: login_ok_def)
  note d = sessions.delete_session [OF s(2) assms(5)]
  obtain r2 e2 where f: "sn_offline (ln_caches sv) (mh_UserId h) now r1 = (r2, e2)" by fastforce
  have "rok r1" using d by simp
  note o = sessions.offline [OF this f]
  from d have "stays_signed sv (sess (lo_redis s)) (sess r1)" using stays_signed_delete by blast
  then have "ok \<lparr>lo_users = lo_users s, lo_redis = r2\<rparr>" using o s by (intro okI [OF assms(1)]) simp_all
  then show ?thesis using assms(2-5) f d o
    by (intro exI [of _ "s\<lparr>lo_redis := r2\<rparr>"]) (simp add: Logout_def login_ok_def)
qed

lemma validate_effect:
  assumes "ok s" and "ValidateToken sv now req s = Ret (s', resp)"
  shows "ok s' \<and> lo_users s' = lo_users s \<and> bp_Code resp \<in> {0, - 1, - 2} \<and>
    (bp_Code resp \<noteq> 0 \<longrightarrow> sess (lo_redis s') = sess (lo_redis s)) \<and>
    (bp_Code resp = 0 \<longrightarrow> (\<exists>h uid t claims. br_Header req = Some h \<and> sess (lo_redis s) (mh_SessionId h) = Some (uid, t) \<and> now \<le> t \<and>
       token_claims sv now (mh_SessionId h) = Inr claims \<and> lc_userID claims = uid \<and>
       bp_Data resp = string_bytes (''{'' @ quoted ''user_id'' @ '':'' @ fmt_nat (unat uid) @ ''}'') \<and>
       done_or_failed (sess (lo_redis s)) (sess (lo_redis s')) (extended now (mh_SessionId h) (sess (lo_redis s))) True))"
proof -
  have s: "uok (lo_users s)" "rok (lo_redis s)" using assms(1) by (simp_all add: login_ok_def)
  from assms(2) obtain h where h: "br_Header req = Some h" by (auto simp: ValidateToken_def split: option.splits)
  show ?thesis
  proof (cases "mh_SessionId h = [] \<or> isl (token_claims sv now (mh_SessionId h))")
    case True
    with assms h show ?thesis by (auto simp: ValidateToken_def split: if_splits sum.splits)
  next
    case False
    then obtain claims where c: "token_claims sv now (mh_SessionId h) = Inr claims" "mh_SessionId h \<noteq> []"
      by (cases "token_claims sv now (mh_SessionId h)") auto
    obtain r1 y where g: "sn_get (ln_caches sv) (mh_SessionId h) now (lo_redis s) = (r1, y)" by fastforce
    note k = sessions.get_session [OF s(2) g]
    have same: "ok (s\<lparr>lo_redis := r1\<rparr>)" using assms(1) k by (simp add: login_ok_def)
    show ?thesis
    proof (cases y)
      case (Inl e)
      with assms(2) h c g k same show ?thesis by (auto simp: ValidateToken_def)
    next
      case (Inr uid)
      with k obtain t where t: "sess (lo_redis s) (mh_SessionId h) = Some (uid, t)" "now \<le> t" by blast
      with assms(1) have "signed sv (mh_SessionId h) uid" by (auto simp: login_ok_def)
      with c(1) have id: "lc_userID claims = uid" by (rule signed_claims [rotated])
      obtain r2 e2 where f: "sn_refresh (ln_caches sv) (mh_SessionId h) now r1 = (r2, e2)" by fastforce
      have "rok r1" using k by simp
      note x = sessions.refresh_session [OF this f]
      then have "stays_signed sv (sess (lo_redis s)) (sess r2)" using k stays_signed_extended by metis
      then have "ok \<lparr>lo_users = lo_users s, lo_redis = r2\<rparr>" using x s by (intro okI [OF assms(1)]) simp_all
      moreover have "s' = s\<lparr>lo_redis := r2\<rparr>" "resp = ok_reply req ''token valid'' (''{'' @ quoted ''user_id'' @ '':'' @ fmt_nat (unat uid) @ ''}'')"
        using assms(2) h c g Inr id f by (auto simp: ValidateToken_def Let_def)
      ultimately show ?thesis using h c t id x k
        by (auto simp: login_ok_def ok_reply_def done_or_failed_def)
    qed
  qed
qed

lemma refresh_effect:
  assumes "ok s" and "clock_ok sv now" and "RefreshToken sv now rnd req s = Ret (s', res)"
  shows "ok s' \<and> lo_users s' = lo_users s \<and> (case res of
      Inl e \<Rightarrow> e = ''failed to create session''
    | Inr resp \<Rightarrow> bp_Code resp \<in> {0, - 1, - 2} \<and> (bp_Code resp \<noteq> 0 \<longrightarrow> s' = s) \<and>
        (bp_Code resp = 0 \<longrightarrow> (\<exists>h claims. br_Header req = Some h \<and> token_claims sv now (mh_SessionId h) = Inr claims \<and>
           lc_userID claims = mh_UserId h \<and>
           sess (lo_redis s') (new_token sv (mh_UserId h) now rnd) = Some (mh_UserId h, now + session_expiry))))"
proof -
  have s: "uok (lo_users s)" "rok (lo_redis s)" using assms(1) by (simp_all add: login_ok_def)
  from assms(3) obtain h where h: "br_Header req = Some h" by (auto simp: RefreshToken_def split: option.splits)
  let ?c = "token_claims sv now (mh_SessionId h)"
  show ?thesis
  proof (cases "mh_UserId h = 0 \<or> mh_SessionId h = [] \<or> isl ?c \<or> lc_userID (projr ?c) \<noteq> mh_UserId h")
    case True
    with assms h show ?thesis by (auto simp: RefreshToken_def Let_def split: if_splits)
  next
    case False
    then obtain claims where c: "?c = Inr claims" "lc_userID claims = mh_UserId h" by (cases ?c) auto
    let ?tok = "new_token sv (mh_UserId h) now rnd"
    obtain r1 e1 where d: "sn_delete (ln_caches sv) (mh_SessionId h) now (lo_redis s) = (r1, e1)" by fastforce
    obtain r2 e2 where p: "sn_set (ln_caches sv) ?tok (mh_UserId h) now r1 = (r2, e2)" by fastforce
    note dl = sessions.delete_session [OF s(2) d]
    then have "rok r1" by simp
    note st = sessions.set_session [OF this p]
    have "stays_signed sv (sess (lo_redis s)) (sess r1)" using dl stays_signed_delete by blast
    moreover have "stays_signed sv (sess r1) (sess r2)" using st stays_signed_set [OF _ signed_new [OF assms(2)]] by blast
    ultimately have "stays_signed sv (sess (lo_redis s)) (sess r2)" by (rule stays_signed_trans)
    then have ok': "ok \<lparr>lo_users = lo_users s, lo_redis = r2\<rparr>" using st s by (intro okI [OF assms(1)]) simp_all
    have "s' = s\<lparr>lo_redis := r2\<rparr> \<and> (e2 \<noteq> None \<and> res = Inl ''failed to create session'' \<or>
        e2 = None \<and> res = Inr (ok_reply req ''token refreshed'' (''{'' @ quoted ''token'' @ '':'' @ quoted ?tok @ ''}'')))"
      using assms(3) h False d p by (auto simp: RefreshToken_def Let_def split: option.splits)
    with ok' h c st show ?thesis by (auto simp: login_ok_def ok_reply_def done_or_failed_def)
  qed
qed

lemma empty_claims: "token_claims sv now [] = Inl ''invalid token format''"
  by (simp add: token_claims_def validateToken_def)

lemma logout_refresh:
  assumes "ok s" and "clock_ok sv now" and h: "br_Header req = Some h" "mh_UserId h \<noteq> 0"
    and c: "token_claims sv now (mh_SessionId h) = Inr claims" "lc_userID claims = mh_UserId h"
    and d: "sn_delete (ln_caches sv) (mh_SessionId h) now (lo_redis s) = (r1, None)"
    and "Logout sv now req s = Ret (s1, resp1)" and "RefreshToken sv now rnd req s1 = Ret (s2, res)"
  shows "sess (lo_redis s1) (mh_SessionId h) = None \<and>
    (\<forall>later s' resp. ValidateToken sv later req s1 = Ret (s', resp) \<longrightarrow> bp_Code resp \<noteq> 0) \<and>
    (case res of Inl e \<Rightarrow> e = ''failed to create session''
     | Inr resp \<Rightarrow> bp_Code resp = 0 \<and> sess (lo_redis s2) (new_token sv (mh_UserId h) now rnd) = Some (mh_UserId h, now + session_expiry))"
proof -
  have ne: "mh_SessionId h \<noteq> []" using c(1) empty_claims [of now] by auto
  from logout_effect [OF assms(1) h ne d] assms(8) have s1: "ok s1" "sess (lo_redis s1) (mh_SessionId h) = None"
    by (auto simp: done_or_failed_def)
  have "bp_Code resp \<noteq> 0" if "ValidateToken sv later req s1 = Ret (s', resp)" for later s' resp
    using validate_effect [OF s1(1) that] s1(2) h(1) by auto
  moreover have "case res of Inr resp \<Rightarrow> bp_Code resp = 0 | Inl _ \<Rightarrow> True"
    using assms(9) h c ne by (auto simp: RefreshToken_def Let_def ok_reply_def split: prod.splits option.splits)
  ultimately show ?thesis
    using refresh_effect [OF s1(1) assms(2,9)] s1 h(1) by (auto split: sum.splits)
qed

text \<open>Registering and logging in with the same credentials.\<close>

lemma register_login:
  assumes "ok s" and "clock_ok sv now" and "clock_ok sv later" and bcrypt: "\<And>p h. pw_bcrypt (ln_passwords sv) p = Some h \<Longrightarrow>
      isBcryptHash h \<and> pw_compare (ln_passwords sv) h p"
    and "Register sv now rnd req s = (s1, Inr x)"
    and found: "ur_GetByUsername (ln_userRepo sv) (lq_Username req) (lo_users s1) = (d, Inr u)"
    and "Login sv later rnd' req s1 = (s2, res)"
  shows "case res of Inr y \<Rightarrow> lr_UserId y = lr_UserId x | Inl e \<Rightarrow> e = ''failed to create session''"
proof -
  from register_effect [OF assms(1,2,5)] obtain h v where ok1: "ok s1"
    and h: "pw_bcrypt (ln_passwords sv) (lq_Password req) = Some h"
    and v: "users (lo_users s1) (lr_UserId x) = Some v" "us_Username v = lq_Username req" "us_Password v = h" "us_Status v = 0"
    by (auto simp: hashPassword_def)
  have d1: "uok (lo_users s1)" using ok1 by (simp add: login_ok_def)
  from users.get_name [OF d1 found] have g: "uok d" "users d = users (lo_users s1)"
    "users (lo_users s1) (us_UserID u) = Some u" "us_Username u = lq_Username req" by auto
  have id: "us_UserID u = lr_UserId x"
    using users.unique_name [OF d1 g(3) v(1)] g(4) v(2) by simp
  with g(3) v(1) have u: "u = v" by simp
  have "verifyPassword (ln_passwords sv) (lq_Password req) (us_Password u) = (True, False)"
    using bcrypt [OF h] u v(3) by (simp add: verifyPassword_def)
  then obtain r d3 where o: "open_session sv later u (new_token sv (us_UserID u) later rnd') (lo_redis s1) = (r, res)"
    using assms(7) found u v(4) by (auto simp: Login_def Let_def split: prod.splits)
  have "rok (lo_redis s1)" using ok1 by (simp add: login_ok_def)
  from open_session_effect [OF this o] id show ?thesis by (auto split: sum.splits)
qed

end

subsection \<open>Runs\<close>

datatype login_call =
    CallLogin time "byte list option" login_request | CallRegister time "byte list option" login_request
  | CallLogout time base_request | CallValidate time base_request | CallRefresh time "byte list option" base_request

fun login_step :: "('d, 'r) login_server \<Rightarrow> login_call \<Rightarrow> ('d, 'r) login \<Rightarrow> ('d, 'r) login outcome" where
  "login_step sv (CallLogin now rnd req) s = Ret (fst (Login sv now rnd req s))"
| "login_step sv (CallRegister now rnd req) s = Ret (fst (Register sv now rnd req s))"
| "login_step sv (CallLogout now req) s = (case Logout sv now req s of Panic \<Rightarrow> Panic | Ret (s', _) \<Rightarrow> Ret s')"
| "login_step sv (CallValidate now req) s = (case ValidateToken sv now req s of Panic \<Rightarrow> Panic | Ret (s', _) \<Rightarrow> Ret s')"
| "login_step sv (CallRefresh now rnd req) s = (case RefreshToken sv now rnd req s of Panic \<Rightarrow> Panic | Ret (s', _) \<Rightarrow> Ret s')"

fun login_run :: "('d, 'r) login_server \<Rightarrow> login_call list \<Rightarrow> ('d, 'r) login \<Rightarrow> ('d, 'r) login outcome" where
  "login_run sv [] s = Ret s"
| "login_run sv (call # calls) s = (case login_step sv call s of Panic \<Rightarrow> Panic | Ret s' \<Rightarrow> login_run sv calls s')"

fun login_call_ok :: "('d, 'r) login_server \<Rightarrow> login_call \<Rightarrow> bool" where
  "login_call_ok sv (CallLogin now _ _) = clock_ok sv now"
| "login_call_ok sv (CallRegister now _ _) = clock_ok sv now"
| "login_call_ok sv (CallLogout _ _) = True"
| "login_call_ok sv (CallValidate _ _) = True"
| "login_call_ok sv (CallRefresh now _ _) = clock_ok sv now"

context login_service
begin

lemma logout_keeps:
  assumes "ok s" and "Logout sv now req s = Ret (s', resp)"
  shows "ok s'"
proof (cases "\<exists>h. br_Header req = Some h \<and> mh_UserId h \<noteq> 0")
  case False
  with assms show ?thesis by (auto simp: Logout_def split: option.splits if_splits)
next
  case True
  then obtain h where h: "br_Header req = Some h" "mh_UserId h \<noteq> 0" by blast
  show ?thesis
  proof (cases "mh_SessionId h = []")
    case True
    obtain r2 e2 where f: "sn_offline (ln_caches sv) (mh_UserId h) now (lo_redis s) = (r2, e2)" by fastforce
    have "rok (lo_redis s)" using assms(1) by (simp add: login_ok_def)
    with sessions.offline [OF this f] True assms h f show ?thesis by (auto simp: Logout_def login_ok_def)
  next
    case False
    obtain r1 e where d: "sn_delete (ln_caches sv) (mh_SessionId h) now (lo_redis s) = (r1, e)" by fastforce
    from logout_effect [OF assms(1) h False d] assms(2) show ?thesis by auto
  qed
qed

lemma login_step_keeps:
  "ok s \<Longrightarrow> login_call_ok sv call \<Longrightarrow> login_step sv call s = Ret s' \<Longrightarrow> ok s'"
  by (cases call)
    (auto split: outcome.splits dest: logout_keeps validate_effect refresh_effect
      intro: login_effect [OF _ _ surjective_pairing, THEN conjunct1] register_effect [OF _ _ surjective_pairing, THEN conjunct1])

lemma login_run_keeps: "ok s \<Longrightarrow> \<forall>call \<in> set calls. login_call_ok sv call \<Longrightarrow> login_run sv calls s = Ret s' \<Longrightarrow> ok s'"
  by (induction calls arbitrary: s) (auto split: outcome.splits dest: login_step_keeps)

end

subsection \<open>The service on MongoDB and Redis\<close>

definition NewLoginServer ::
  "'d mongo_ops \<Rightarrow> 'r redis_ops \<Rightarrow> mac \<Rightarrow> byte list \<Rightarrow> duration \<Rightarrow> password_lib \<Rightarrow> (user \<Rightarrow> string + string) \<Rightarrow> ('d, 'r) login_server" where
  "NewLoginServer uops rops hmac secret expiry lib json =
     \<lparr>ln_userRepo = NewUserRepository uops, ln_caches = caches rops, ln_hmac = hmac, ln_tokenSecret = secret,
      ln_tokenExpiry = expiry, ln_passwords = lib, ln_json = json\<rparr>"

text \<open>
  The stores below a server: the collection of users with its indexes and the Redis database, with
  the views of their contents the properties speak of.
\<close>

record ('d, 'r) backing =
  bk_uops :: "'d mongo_ops"
  bk_udocs :: "'d \<Rightarrow> doc list"
  bk_uvalid :: "'d \<Rightarrow> bool"
  bk_rops :: "'r redis_ops"
  bk_entries :: "'r \<Rightarrow> entries"
  bk_rvalid :: "'r \<Rightarrow> bool"

definition backing_ok :: "('d, 'r) backing \<Rightarrow> bool" where
  "backing_ok b \<longleftrightarrow> user_collection (bk_uops b) (bk_udocs b) (bk_uvalid b) \<and> redis_store (bk_rops b) (bk_entries b) (bk_rvalid b)"

definition session_of :: "('d, 'r) backing \<Rightarrow> ('d, 'r) login \<Rightarrow> string \<Rightarrow> (u64 \<times> time) option" where
  "session_of b s = sessions (bk_entries b (lo_redis s))"

definition user_of :: "('d, 'r) backing \<Rightarrow> ('d, 'r) login \<Rightarrow> u64 \<Rightarrow> user option" where
  "user_of b s = users_in (bk_udocs b) (lo_users s)"

definition login_server_on :: "('d, 'r) backing \<Rightarrow> ('d, 'r) login_server \<Rightarrow> bool" where
  "login_server_on b sv \<longleftrightarrow> (\<exists>hmac secret expiry lib json.
     sv = NewLoginServer (bk_uops b) (bk_rops b) hmac secret expiry lib json)"

definition login_state_ok :: "('d, 'r) backing \<Rightarrow> ('d, 'r) login_server \<Rightarrow> ('d, 'r) login \<Rightarrow> bool" where
  "login_state_ok b sv s \<longleftrightarrow> login_ok sv (\<lambda>r. sessions (bk_entries b r)) (users_valid (bk_udocs b) (bk_uvalid b))
     (\<lambda>r. bk_rvalid b r \<and> sessions_wf (bk_entries b r)) s"

definition no_sessions_yet :: "('d, 'r) backing \<Rightarrow> ('d, 'r) login \<Rightarrow> bool" where
  "no_sessions_yet b s \<longleftrightarrow> users_valid (bk_udocs b) (bk_uvalid b) (lo_users s) \<and> bk_rvalid b (lo_redis s) \<and>
     (\<forall>sid. bk_entries b (lo_redis s) (session_key sid) = None)"

lemma login_on_stores:
  assumes "backing_ok b" and "login_server_on b sv"
  shows "login_service sv (users_in (bk_udocs b)) (users_valid (bk_udocs b) (bk_uvalid b))
    (\<lambda>r. sessions (bk_entries b r)) (\<lambda>r. bk_rvalid b r \<and> sessions_wf (bk_entries b r))"
proof -
  from assms(2) have sv: "ln_userRepo sv = NewUserRepository (bk_uops b)" "ln_caches sv = caches (bk_rops b)"
    by (auto simp: login_server_on_def NewLoginServer_def)
  have "redis_store (bk_rops b) (bk_entries b) (bk_rvalid b)" using assms(1) by (simp add: backing_ok_def)
  note r = redis_store.is_session_store [OF this]
  have "user_collection (bk_uops b) (bk_udocs b) (bk_uvalid b)" using assms(1) by (simp add: backing_ok_def)
  note u = user_collection.is_store [OF this]
  from r u show ?thesis by (simp add: login_service_def sv)
qed

lemma no_sessions_ok: "no_sessions_yet b s \<Longrightarrow> login_state_ok b sv s"
  by (auto simp: no_sessions_yet_def login_state_ok_def login_ok_def sessions_def session_entry_def sessions_wf_def)

text \<open>A server on stores in memory, for the witnesses.\<close>

definition demo_passwords :: password_lib where
  "demo_passwords = \<lparr>pw_bcrypt = (\<lambda>p. Some (''$2a$'' @ p)), pw_compare = (\<lambda>h p. h = ''$2a$'' @ p), pw_md5_hex = (\<lambda>p. p)\<rparr>"

definition demo_backing :: "(mem_coll, mem_redis) backing" where
  "demo_backing = \<lparr>bk_uops = mem_ops [''user_id'', ''username''], bk_udocs = mc_docs,
     bk_uvalid = (\<lambda>c. uniques [''user_id'', ''username''] (mc_docs c)),
     bk_rops = mem_redis_ops, bk_entries = map_of, bk_rvalid = (\<lambda>_. True)\<rparr>"

definition demo_server :: "(mem_coll, mem_redis) login_server" where
  "demo_server = NewLoginServer (mem_ops [''user_id'', ''username'']) mem_redis_ops demo_hmac [1, 2, 3] (10 * second) demo_passwords (\<lambda>_. Inr ''{}'')"

definition demo_start :: "(mem_coll, mem_redis) login" where
  "demo_start = \<lparr>lo_users = \<lparr>mc_docs = [], mc_next = 1\<rparr>, lo_redis = []\<rparr>"

definition demo_credentials :: login_request where
  "demo_credentials = \<lparr>lq_Username = ''ann'', lq_Password = ''pw''\<rparr>"

abbreviation "demo_now \<equiv> unix_epoch + 5"

definition "demo_registered = Register demo_server demo_now (Some [1]) demo_credentials demo_start"

definition "demo_logged_in = Login demo_server (demo_now + second) (Some [2]) demo_credentials (fst demo_registered)"

definition "demo_token = new_token demo_server 5 (demo_now + second) (Some [2])"

definition demo_header_req :: base_request where
  "demo_header_req = \<lparr>br_Header = Some \<lparr>mh_MsgId = 0, mh_Seq = 0, mh_UserId = 5, mh_Timestamp = 0, mh_SessionId = demo_token\<rparr>, br_Data = []\<rparr>"

lemma demo_backing_ok: "backing_ok demo_backing"
  using mem_users.user_collection_axioms mem_redis.redis_store_axioms by (simp add: backing_ok_def demo_backing_def)

lemma demo_server_on: "login_server_on demo_backing demo_server"
  unfolding login_server_on_def demo_server_def demo_backing_def by (simp, intro exI, rule refl)

interpretation mem_login: login_service demo_server "users_in (bk_udocs demo_backing)"
    "users_valid (bk_udocs demo_backing) (bk_uvalid demo_backing)" "\<lambda>r. sessions (bk_entries demo_backing r)"
    "\<lambda>r. bk_rvalid demo_backing r \<and> sessions_wf (bk_entries demo_backing r)"
  by (rule login_on_stores [OF demo_backing_ok demo_server_on])

lemma demo_clock:
  "clock_ok demo_server demo_now" "clock_ok demo_server (demo_now + second)" "clock_ok demo_server (demo_now + 2 * second)"
  by (simp_all add: clock_ok_def demo_server_def NewLoginServer_def i64_range_def time_unix_def unix_epoch_def second_def hour_def)

lemma demo_no_sessions: "no_sessions_yet demo_backing demo_start"
  by (simp add: no_sessions_yet_def demo_backing_def demo_start_def users_valid_def uniques_def unique_on_def user_rows_ok_def rows_ok_def)

lemma demo_codes: "\<not> isl (snd demo_registered) \<and> \<not> isl (snd demo_logged_in) \<and> lr_Token (projr (snd demo_logged_in)) = demo_token"
  by code_simp

lemma demo_states:
  "login_state_ok demo_backing demo_server demo_start"
  "login_state_ok demo_backing demo_server (fst demo_registered)"
  "login_state_ok demo_backing demo_server (fst demo_logged_in)"
proof -
  show s: "login_state_ok demo_backing demo_server demo_start" using demo_no_sessions by (rule no_sessions_ok)
  show r: "login_state_ok demo_backing demo_server (fst demo_registered)"
    using mem_login.register_effect [OF s [unfolded login_state_ok_def] demo_clock(1) surjective_pairing]
    unfolding login_state_ok_def demo_registered_def by blast
  show "login_state_ok demo_backing demo_server (fst demo_logged_in)"
    using mem_login.login_effect [OF r [unfolded login_state_ok_def] demo_clock(2) surjective_pairing]
    unfolding login_state_ok_def demo_logged_in_def by blast
qed

abbreviation "demo_later \<equiv> demo_now + 2 * second"

lemma demo_claims: "token_claims demo_server demo_later demo_token = Inr \<lparr>lc_userID = 5,
    lc_issuedAt = time_unix (demo_now + second), lc_expiresAt = time_unix (demo_now + second + ln_tokenExpiry demo_server)\<rparr>"
proof -
  have "time_unix demo_later \<le> time_unix (demo_now + second + ln_tokenExpiry demo_server)"
    by (simp add: demo_server_def NewLoginServer_def time_unix_def second_def)
  then show ?thesis by (simp add: demo_token_def claims_new [OF demo_clock(2)])
qed

lemma demo_entry: "map_of (lo_redis (fst demo_logged_in)) (session_key demo_token) =
    Some (RStr (json_of_u64 5), Some (demo_now + second + session_expiry))"
  by code_simp

lemma demo_session: "session_of demo_backing (fst demo_logged_in) demo_token = Some (5, demo_now + second + session_expiry)"
  using demo_entry by (simp add: session_of_def sessions_def session_entry_def demo_backing_def)


subsection \<open>Properties\<close>

text \<open>
  C12: A login that succeeds authenticates: the response names a stored user with that name and status
  0 whose stored password the given one matches, exactly one session is opened, for a fresh signed
  token of that user and for two hours, and no other user's record is changed. A login that fails
  leaves the sessions alone unless the failing step was the storing of the session itself.
\<close>

theorem login_authenticates:
  assumes "backing_ok b" and "login_server_on b sv" and "login_state_ok b sv s" and "clock_ok sv now"
    and "Login sv now rnd req s = (s', res)"
  shows "case res of
      Inr x \<Rightarrow> \<exists>u. user_of b s (lr_UserId x) = Some u \<and> us_Username u = lq_Username req \<and> us_Status u = 0 \<and>
        fst (verifyPassword (ln_passwords sv) (lq_Password req) (us_Password u)) \<and>
        lr_Token x = new_token sv (lr_UserId x) now rnd \<and>
        (\<forall>j. j \<noteq> lr_UserId x \<longrightarrow> user_of b s' j = user_of b s j) \<and>
        session_of b s' = (session_of b s)(lr_Token x \<mapsto> (lr_UserId x, now + session_expiry))
    | Inl e \<Rightarrow> e = ''failed to create session'' \<or> session_of b s' = session_of b s"
  using login_service.login_effect [OF login_on_stores [OF assms(1,2)] assms(3) [unfolded login_state_ok_def] assms(4,5)]
  unfolding session_of_def user_of_def by blast

lemma login_authenticates_witness:
  "\<exists>u. user_of demo_backing (fst demo_registered) 5 = Some u \<and> us_Username u = ''ann'' \<and> us_Status u = 0"
proof -
  have c: "\<not> isl (snd demo_logged_in)" "lr_UserId (projr (snd demo_logged_in)) = 5" by (code_simp, code_simp)
  then obtain x where x: "snd demo_logged_in = Inr x" "lr_UserId x = 5" by (cases "snd demo_logged_in") auto
  have l: "Login demo_server (demo_now + second) (Some [2]) demo_credentials (fst demo_registered) = (fst demo_logged_in, Inr x)"
    using x(1) by (simp add: demo_logged_in_def prod_eq_iff)
  from login_authenticates [OF demo_backing_ok demo_server_on demo_states(2) demo_clock(2) l] x(2)
  show ?thesis by (auto simp: demo_credentials_def)
qed

text \<open>
  A registration that succeeds stores exactly one new user, with the name asked for, the bcrypt
  hash of the password, level 1, 1000 gold and 100 diamonds, under an identifier and a name nobody
  had, and opens exactly one session for it.
\<close>

theorem register_creates_user:
  assumes "backing_ok b" and "login_server_on b sv" and "login_state_ok b sv s" and "clock_ok sv now"
    and "Register sv now rnd req s = (s', res)"
  shows "case res of
      Inr x \<Rightarrow> \<exists>h u. hashPassword (ln_passwords sv) (lq_Password req) = Some h \<and>
        user_of b s (lr_UserId x) = None \<and> user_of b s' = (user_of b s)(lr_UserId x \<mapsto> u) \<and>
        us_Username u = lq_Username req \<and> us_Password u = h \<and> us_Status u = 0 \<and>
        us_Gold u = 1000 \<and> us_Diamond u = 100 \<and> us_Level u = 1 \<and>
        (\<forall>i v. user_of b s i = Some v \<longrightarrow> us_Username v \<noteq> lq_Username req) \<and>
        session_of b s' = (session_of b s)(lr_Token x \<mapsto> (lr_UserId x, now + session_expiry))
    | Inl e \<Rightarrow> e = ''failed to create session'' \<or> session_of b s' = session_of b s"
  using login_service.register_effect [OF login_on_stores [OF assms(1,2)] assms(3) [unfolded login_state_ok_def] assms(4,5)]
  unfolding session_of_def user_of_def by (cases res) (simp_all, blast)

lemma register_creates_user_witness:
  "user_of demo_backing demo_start 5 = None \<and> (\<exists>u. user_of demo_backing (fst demo_registered) 5 = Some u \<and> us_Gold u = 1000)"
proof -
  have c: "\<not> isl (snd demo_registered)" "lr_UserId (projr (snd demo_registered)) = 5" by (code_simp, code_simp)
  then obtain x where x: "snd demo_registered = Inr x" "lr_UserId x = 5" by (cases "snd demo_registered") auto
  have l: "Register demo_server demo_now (Some [1]) demo_credentials demo_start = (fst demo_registered, Inr x)"
    using x(1) by (simp add: demo_registered_def prod_eq_iff)
  from register_creates_user [OF demo_backing_ok demo_server_on demo_states(1) demo_clock(1) l] x(2)
  show ?thesis by auto
qed

text \<open>
  C15: Who has registered can log in: with the same credentials, if the database finds the user and
  Redis stores the session, \<^verbatim>\<open>Login\<close> answers with the identifier \<^verbatim>\<open>Register\<close> gave.
\<close>

theorem register_then_login:
  assumes "backing_ok b" and "login_server_on b sv" and "login_state_ok b sv s" and "clock_ok sv now" and "clock_ok sv later"
    and bcrypt: "\<And>p h. pw_bcrypt (ln_passwords sv) p = Some h \<Longrightarrow> isBcryptHash h \<and> pw_compare (ln_passwords sv) h p"
    and "Register sv now rnd req s = (s1, Inr x)"
    and "ur_GetByUsername (ln_userRepo sv) (lq_Username req) (lo_users s1) = (d, Inr u)"
    and "Login sv later rnd' req s1 = (s2, res)"
  shows "case res of Inr y \<Rightarrow> lr_UserId y = lr_UserId x | Inl e \<Rightarrow> e = ''failed to create session''"
  by (rule login_service.register_login [OF login_on_stores [OF assms(1,2)] assms(3) [unfolded login_state_ok_def] assms(4,5) bcrypt assms(7-9)])

lemma register_then_login_witness:
  "\<exists>x y. snd demo_registered = Inr x \<and> snd demo_logged_in = Inr y \<and> lr_UserId y = lr_UserId x"
proof -
  let ?g = "ur_GetByUsername (ln_userRepo demo_server) (lq_Username demo_credentials) (lo_users (fst demo_registered))"
  have c: "\<not> isl (snd demo_registered)" "\<not> isl (snd demo_logged_in)" "\<not> isl (snd ?g)" by (code_simp, code_simp, code_simp)
  then obtain x y u where x: "snd demo_registered = Inr x" "snd demo_logged_in = Inr y" "snd ?g = Inr u"
    by (cases "snd demo_registered"; cases "snd demo_logged_in"; cases "snd ?g") auto
  have r: "Register demo_server demo_now (Some [1]) demo_credentials demo_start = (fst demo_registered, Inr x)"
    and l: "Login demo_server (demo_now + second) (Some [2]) demo_credentials (fst demo_registered) = (fst demo_logged_in, Inr y)"
    and g: "?g = (fst ?g, Inr u)"
    using x by (simp_all add: demo_registered_def demo_logged_in_def prod_eq_iff)
  have "pw_bcrypt (ln_passwords demo_server) p = Some h \<Longrightarrow> isBcryptHash h \<and> pw_compare (ln_passwords demo_server) h p" for p h
    by (auto simp: demo_server_def NewLoginServer_def demo_passwords_def isBcryptHash_def has_prefix_def)
  from register_then_login [OF demo_backing_ok demo_server_on demo_states(1) demo_clock(1,2) this r g l] x(1,2)
  show ?thesis by simp
qed



text \<open>
  C14: In every run of the five handlers that starts with no session, every session belongs to the user
  its token was issued to, so \<^verbatim>\<open>ValidateToken\<close> never answers -3, session mismatch.
\<close>

theorem no_session_mismatch:
  assumes "backing_ok b" and "login_server_on b sv" and "no_sessions_yet b s"
    and "\<forall>call \<in> set calls. login_call_ok sv call" and "login_run sv calls s = Ret s1"
  shows "(\<forall>sid uid t. session_of b s1 sid = Some (uid, t) \<longrightarrow> signed sv sid uid) \<and>
    (\<forall>now req s' resp. ValidateToken sv now req s1 = Ret (s', resp) \<longrightarrow> bp_Code resp \<noteq> - 3)"
proof -
  note svc = login_on_stores [OF assms(1,2)]
  note s1 = login_service.login_run_keeps [OF svc no_sessions_ok [OF assms(3), unfolded login_state_ok_def] assms(4,5)]
  have "bp_Code resp \<noteq> - 3" if "ValidateToken sv now req s1 = Ret (s', resp)" for now req s' resp
    using login_service.validate_effect [OF svc s1 that] by auto
  then show ?thesis using s1 unfolding login_ok_def session_of_def by blast
qed

lemma no_session_mismatch_witness:
  "signed demo_server demo_token 5 \<and> (\<exists>t. session_of demo_backing (fst demo_logged_in) demo_token = Some (5, t))"
proof -
  let ?calls = "[CallRegister demo_now (Some [1]) demo_credentials, CallLogin (demo_now + second) (Some [2]) demo_credentials]"
  have run: "login_run demo_server ?calls demo_start = Ret (fst demo_logged_in)"
    by (simp add: demo_registered_def demo_logged_in_def)
  from no_session_mismatch [OF demo_backing_ok demo_server_on demo_no_sessions _ run] demo_clock demo_session
  show ?thesis by auto
qed

text \<open>
  A logout does not revoke its token. After it the session is gone and \<^verbatim>\<open>ValidateToken\<close> refuses the
  token, but \<^verbatim>\<open>RefreshToken\<close>, which looks only at the signature and the expiry, accepts it and opens a
  new session for the user.
\<close>

theorem refresh_after_logout:
  assumes "backing_ok b" and "login_server_on b sv" and "login_state_ok b sv s" and "clock_ok sv now"
    and "br_Header req = Some h" and "mh_UserId h \<noteq> 0"
    and "token_claims sv now (mh_SessionId h) = Inr claims" and "lc_userID claims = mh_UserId h"
    and "sn_delete (ln_caches sv) (mh_SessionId h) now (lo_redis s) = (r1, None)"
    and "Logout sv now req s = Ret (s1, resp1)" and "RefreshToken sv now rnd req s1 = Ret (s2, res)"
  shows "session_of b s1 (mh_SessionId h) = None \<and>
    (\<forall>later s' resp. ValidateToken sv later req s1 = Ret (s', resp) \<longrightarrow> bp_Code resp \<noteq> 0) \<and>
    (case res of Inl e \<Rightarrow> e = ''failed to create session''
     | Inr resp \<Rightarrow> bp_Code resp = 0 \<and> session_of b s2 (new_token sv (mh_UserId h) now rnd) = Some (mh_UserId h, now + session_expiry))"
  using login_service.logout_refresh [OF login_on_stores [OF assms(1,2)] assms(3) [unfolded login_state_ok_def] assms(4-11)]
  unfolding session_of_def .

definition "demo_logged_out = Logout demo_server (demo_now + 2 * second) demo_header_req (fst demo_logged_in)"

definition demo_out_state :: "(mem_coll, mem_redis) login" where
  "demo_out_state = (case demo_logged_out of Panic \<Rightarrow> demo_start | Ret (s, _) \<Rightarrow> s)"

definition "demo_refreshed = RefreshToken demo_server (demo_now + 2 * second) (Some [3]) demo_header_req demo_out_state"

lemma refresh_after_logout_witness:
  "session_of demo_backing demo_out_state demo_token = None \<and>
   (\<exists>s2 resp t. demo_refreshed = Ret (s2, Inr resp) \<and> bp_Code resp = 0 \<and>
     session_of demo_backing s2 (new_token demo_server 5 (demo_now + 2 * second) (Some [3])) = Some (5, t))"
proof -
  let ?now = demo_later and ?h = "the (br_Header demo_header_req)"
  have h: "br_Header demo_header_req = Some ?h" "mh_UserId ?h \<noteq> 0" and hs: "mh_SessionId ?h = demo_token" "mh_UserId ?h = 5"
    by (simp_all add: demo_header_req_def)
  note c = demo_claims [folded hs(1)]
  have "snd (sn_delete (ln_caches demo_server) (mh_SessionId ?h) ?now (lo_redis (fst demo_logged_in))) = None" by code_simp
  then have d: "sn_delete (ln_caches demo_server) (mh_SessionId ?h) ?now (lo_redis (fst demo_logged_in)) =
      (fst (sn_delete (ln_caches demo_server) (mh_SessionId ?h) ?now (lo_redis (fst demo_logged_in))), None)"
    by (simp add: prod_eq_iff)
  have "(case demo_logged_out of Panic \<Rightarrow> False | Ret _ \<Rightarrow> True)" by code_simp
  then obtain resp1 where o: "Logout demo_server ?now demo_header_req (fst demo_logged_in) = Ret (demo_out_state, resp1)"
    by (cases demo_logged_out) (auto simp: demo_out_state_def demo_logged_out_def split: prod.splits)
  obtain r3 e3 where d3: "sn_delete (ln_caches demo_server) demo_token demo_later (lo_redis demo_out_state) = (r3, e3)" by fastforce
  have "snd (sn_set (ln_caches demo_server) (new_token demo_server 5 demo_later (Some [3])) 5 demo_later
      (fst (sn_delete (ln_caches demo_server) demo_token demo_later (lo_redis demo_out_state)))) = None" by code_simp
  with d3 obtain r4 where p: "sn_set (ln_caches demo_server) (new_token demo_server 5 demo_later (Some [3])) 5 demo_later r3 = (r4, None)"
    by (auto simp: prod_eq_iff)
  have "demo_token \<noteq> []" by (simp add: demo_token_def)
  then obtain s2 resp where r: "demo_refreshed = Ret (s2, Inr resp)"
    using demo_claims by (auto simp: demo_refreshed_def RefreshToken_def demo_header_req_def Let_def d3 p)
  from refresh_after_logout [OF demo_backing_ok demo_server_on demo_states(3) demo_clock(3) h c _ d o r [unfolded demo_refreshed_def]] hs
  have "session_of demo_backing demo_out_state demo_token = None" "bp_Code resp = 0"
    "session_of demo_backing s2 (new_token demo_server 5 demo_later (Some [3])) = Some (5, demo_later + session_expiry)"
    by simp_all
  with r show ?thesis by blast
qed

end
