(* ===== verification/Bans.thy ===== *)
theory Bans
  imports Repository
begin

text \<open>
  The GM repository of \<^verbatim>\<open>internal/database/mongodb.go\<close>: ban records and the log of GM actions, with the
  contract \<open>ban_store\<close> of its ban methods: the effect of each on the list of ban records, a user
  being banned by an active record that has not run out. The two collections have no unique index.
  The Chinese texts of the repository and of \<^verbatim>\<open>gm_server.go\<close> are constants with their UTF-8 bytes.
\<close>

subsection \<open>Texts\<close>

definition zh_NotLoggedIn :: string where
  "zh_NotLoggedIn = utf8
   [0xE7, 0x94, 0xA8, 0xE6, 0x88, 0xB7, 0xE6, 0x9C, 0xAA, 0xE7, 0x99, 0xBB, 0xE5, 0xBD, 0x95]"

definition zh_EmptyCommand :: string where
  "zh_EmptyCommand = utf8
   [0xE5, 0x91, 0xBD, 0xE4, 0xBB, 0xA4, 0xE4, 0xB8, 0x8D, 0xE8, 0x83, 0xBD, 0xE4, 0xB8, 0xBA, 0xE7, 0xA9, 0xBA]"

definition zh_CommandFailed :: string where
  "zh_CommandFailed = utf8
   [0xE5, 0x91, 0xBD, 0xE4, 0xBB, 0xA4, 0xE6, 0x89, 0xA7, 0xE8, 0xA1, 0x8C, 0xE5, 0xA4, 0xB1, 0xE8, 0xB4, 0xA5, 0x3A, 0x20]"

definition zh_DetCommand :: string where
  "zh_DetCommand = utf8
   [0xE5, 0x91, 0xBD, 0xE4, 0xBB, 0xA4, 0x3A, 0x20]"

definition zh_DetArgs :: string where
  "zh_DetArgs = utf8
   [0x2C, 0x20, 0xE5, 0x8F, 0x82, 0xE6, 0x95, 0xB0, 0x3A, 0x20]"

definition zh_DetResult :: string where
  "zh_DetResult = utf8
   [0x2C, 0x20, 0xE7, 0xBB, 0x93, 0xE6, 0x9E, 0x9C, 0x3A, 0x20]"

definition zh_CommandDone :: string where
  "zh_CommandDone = utf8
   [0xE5, 0x91, 0xBD, 0xE4, 0xBB, 0xA4, 0xE6, 0x89, 0xA7, 0xE8, 0xA1, 0x8C, 0xE6, 0x88, 0x90, 0xE5, 0x8A, 0x9F]"

definition zh_KickNeedsId :: string where
  "zh_KickNeedsId = utf8
   [0x6B, 0x69, 0x63, 0x6B, 0xE5, 0x91, 0xBD, 0xE4, 0xBB, 0xA4, 0xE9, 0x9C, 0x80, 0xE8, 0xA6, 0x81, 0xE7, 0x94, 0xA8, 0xE6,
    0x88, 0xB7, 0x49, 0x44, 0xE5, 0x8F, 0x82, 0xE6, 0x95, 0xB0]"

definition zh_BadUserId :: string where
  "zh_BadUserId = utf8
   [0xE6, 0x97, 0xA0, 0xE6, 0x95, 0x88, 0xE7, 0x9A, 0x84, 0xE7, 0x94, 0xA8, 0xE6, 0x88, 0xB7, 0x49, 0x44, 0x3A, 0x20]"

definition zh_GmKick :: string where
  "zh_GmKick = utf8
   [0x47, 0x4D, 0xE8, 0xB8, 0xA2, 0xE5, 0x87, 0xBA]"

definition zh_UserSp :: string where
  "zh_UserSp = utf8
   [0xE7, 0x94, 0xA8, 0xE6, 0x88, 0xB7, 0x20]"

definition zh_Kicked :: string where
  "zh_Kicked = utf8
   [0x20, 0xE5, 0xB7, 0xB2, 0xE8, 0xA2, 0xAB, 0xE8, 0xB8, 0xA2, 0xE5, 0x87, 0xBA, 0xEF, 0xBC, 0x8C, 0xE5, 0x8E, 0x9F, 0xE5,
    0x9B, 0xA0, 0x3A, 0x20]"

definition zh_BanNeeds :: string where
  "zh_BanNeeds = utf8
   [0x62, 0x61, 0x6E, 0xE5, 0x91, 0xBD, 0xE4, 0xBB, 0xA4, 0xE9, 0x9C, 0x80, 0xE8, 0xA6, 0x81, 0xE7, 0x94, 0xA8, 0xE6, 0x88,
    0xB7, 0x49, 0x44, 0xE5, 0x92, 0x8C, 0xE6, 0x97, 0xB6, 0xE9, 0x95, 0xBF, 0xE5, 0x8F, 0x82, 0xE6, 0x95, 0xB0]"

definition zh_BadDuration :: string where
  "zh_BadDuration = utf8
   [0xE6, 0x97, 0xA0, 0xE6, 0x95, 0x88, 0xE7, 0x9A, 0x84, 0xE6, 0x97, 0xB6, 0xE9, 0x95, 0xBF, 0x3A, 0x20]"

definition zh_GmBan :: string where
  "zh_GmBan = utf8
   [0x47, 0x4D, 0xE5, 0xB0, 0x81, 0xE7, 0xA6, 0x81]"

definition zh_BannedFor :: string where
  "zh_BannedFor = utf8
   [0x20, 0xE5, 0xB7, 0xB2, 0xE8, 0xA2, 0xAB, 0xE5, 0xB0, 0x81, 0xE7, 0xA6, 0x81, 0x20]"

definition zh_SecondsReason :: string where
  "zh_SecondsReason = utf8
   [0x20, 0xE7, 0xA7, 0x92, 0xEF, 0xBC, 0x8C, 0xE5, 0x8E, 0x9F, 0xE5, 0x9B, 0xA0, 0x3A, 0x20]"

definition zh_UnbanNeeds :: string where
  "zh_UnbanNeeds = utf8
   [0x75, 0x6E, 0x62, 0x61, 0x6E, 0xE5, 0x91, 0xBD, 0xE4, 0xBB, 0xA4, 0xE9, 0x9C, 0x80, 0xE8, 0xA6, 0x81, 0xE7, 0x94, 0xA8,
    0xE6, 0x88, 0xB7, 0x49, 0x44, 0xE5, 0x8F, 0x82, 0xE6, 0x95, 0xB0]"

definition zh_Unbanned :: string where
  "zh_Unbanned = utf8
   [0x20, 0xE5, 0xB7, 0xB2, 0xE8, 0xA2, 0xAB, 0xE8, 0xA7, 0xA3, 0xE5, 0xB0, 0x81]"

definition zh_NoticeNeeds :: string where
  "zh_NoticeNeeds = utf8
   [0x6E, 0x6F, 0x74, 0x69, 0x63, 0x65, 0xE5, 0x91, 0xBD, 0xE4, 0xBB, 0xA4, 0xE9, 0x9C, 0x80, 0xE8, 0xA6, 0x81, 0xE5, 0x85,
    0xAC, 0xE5, 0x91, 0x8A, 0xE5, 0x86, 0x85, 0xE5, 0xAE, 0xB9, 0xE5, 0x8F, 0x82, 0xE6, 0x95, 0xB0]"

definition zh_NoticeSent :: string where
  "zh_NoticeSent = utf8
   [0xE5, 0x85, 0xA8, 0xE6, 0x9C, 0x8D, 0xE5, 0x85, 0xAC, 0xE5, 0x91, 0x8A, 0xE5, 0xB7, 0xB2, 0xE5, 0x8F, 0x91, 0xE9, 0x80,
    0x81, 0x3A, 0x20]"

definition zh_ReloadSent :: string where
  "zh_ReloadSent = utf8
   [0xE9, 0x85, 0x8D, 0xE7, 0xBD, 0xAE, 0xE9, 0x87, 0x8D, 0xE8, 0xBD, 0xBD, 0xE5, 0x91, 0xBD, 0xE4, 0xBB, 0xA4, 0xE5, 0xB7,
    0xB2, 0xE5, 0x8F, 0x91, 0xE9, 0x80, 0x81]"

definition zh_StatusOk :: string where
  "zh_StatusOk = utf8
   [0xE6, 0x9C, 0x8D, 0xE5, 0x8A, 0xA1, 0xE5, 0x99, 0xA8, 0xE8, 0xBF, 0x90, 0xE8, 0xA1, 0x8C, 0xE6, 0xAD, 0xA3, 0xE5, 0xB8,
    0xB8, 0xEF, 0xBC, 0x8C, 0xE5, 0xBD, 0x93, 0xE5, 0x89, 0x8D, 0xE6, 0x97, 0xB6, 0xE9, 0x97, 0xB4, 0x3A, 0x20]"

definition zh_UnknownCommand :: string where
  "zh_UnknownCommand = utf8
   [0xE6, 0x9C, 0xAA, 0xE7, 0x9F, 0xA5, 0xE5, 0x91, 0xBD, 0xE4, 0xBB, 0xA4, 0x3A, 0x20]"

definition zh_EmptyTarget :: string where
  "zh_EmptyTarget = utf8
   [0xE7, 0x9B, 0xAE, 0xE6, 0xA0, 0x87, 0xE7, 0x94, 0xA8, 0xE6, 0x88, 0xB7, 0x49, 0x44, 0xE4, 0xB8, 0x8D, 0xE8, 0x83, 0xBD,
    0xE4, 0xB8, 0xBA, 0xE7, 0xA9, 0xBA]"

definition zh_NoSelfKick :: string where
  "zh_NoSelfKick = utf8
   [0xE4, 0xB8, 0x8D, 0xE8, 0x83, 0xBD, 0xE8, 0xB8, 0xA2, 0xE5, 0x87, 0xBA, 0xE8, 0x87, 0xAA, 0xE5, 0xB7, 0xB1]"

definition zh_RuleViolation :: string where
  "zh_RuleViolation = utf8
   [0xE8, 0xBF, 0x9D, 0xE5, 0x8F, 0x8D, 0xE6, 0xB8, 0xB8, 0xE6, 0x88, 0x8F, 0xE8, 0xA7, 0x84, 0xE5, 0x88, 0x99]"

definition zh_DetKick :: string where
  "zh_DetKick = utf8
   [0xE8, 0xB8, 0xA2, 0xE5, 0x87, 0xBA, 0xE7, 0x94, 0xA8, 0xE6, 0x88, 0xB7, 0x20]"

definition zh_DetReason :: string where
  "zh_DetReason = utf8
   [0xEF, 0xBC, 0x8C, 0xE5, 0x8E, 0x9F, 0xE5, 0x9B, 0xA0, 0x3A, 0x20]"

definition zh_KickDone :: string where
  "zh_KickDone = utf8
   [0xE7, 0x94, 0xA8, 0xE6, 0x88, 0xB7, 0xE8, 0xB8, 0xA2, 0xE5, 0x87, 0xBA, 0xE6, 0x88, 0x90, 0xE5, 0x8A, 0x9F]"

definition zh_NoSelfBan :: string where
  "zh_NoSelfBan = utf8
   [0xE4, 0xB8, 0x8D, 0xE8, 0x83, 0xBD, 0xE5, 0xB0, 0x81, 0xE7, 0xA6, 0x81, 0xE8, 0x87, 0xAA, 0xE5, 0xB7, 0xB1]"

definition zh_CheckFailed :: string where
  "zh_CheckFailed = utf8
   [0xE6, 0xA3, 0x80, 0xE6, 0x9F, 0xA5, 0xE7, 0x94, 0xA8, 0xE6, 0x88, 0xB7, 0xE7, 0x8A, 0xB6, 0xE6, 0x80, 0x81, 0xE5, 0xA4,
    0xB1, 0xE8, 0xB4, 0xA5]"

definition zh_AlreadyBanned :: string where
  "zh_AlreadyBanned = utf8
   [0xE7, 0x94, 0xA8, 0xE6, 0x88, 0xB7, 0xE5, 0xB7, 0xB2, 0xE8, 0xA2, 0xAB, 0xE5, 0xB0, 0x81, 0xE7, 0xA6, 0x81]"

definition zh_BanFailed :: string where
  "zh_BanFailed = utf8
   [0xE5, 0xB0, 0x81, 0xE7, 0xA6, 0x81, 0xE7, 0x94, 0xA8, 0xE6, 0x88, 0xB7, 0xE5, 0xA4, 0xB1, 0xE8, 0xB4, 0xA5]"

definition zh_DetBan :: string where
  "zh_DetBan = utf8
   [0xE5, 0xB0, 0x81, 0xE7, 0xA6, 0x81, 0xE7, 0x94, 0xA8, 0xE6, 0x88, 0xB7, 0x20]"

definition zh_DetDuration :: string where
  "zh_DetDuration = utf8
   [0xEF, 0xBC, 0x8C, 0xE6, 0x97, 0xB6, 0xE9, 0x95, 0xBF, 0x3A, 0x20]"

definition zh_DetSeconds :: string where
  "zh_DetSeconds = utf8
   [0xE7, 0xA7, 0x92, 0xEF, 0xBC, 0x8C, 0xE5, 0x8E, 0x9F, 0xE5, 0x9B, 0xA0, 0x3A, 0x20]"

definition zh_BanDone :: string where
  "zh_BanDone = utf8
   [0xE7, 0x94, 0xA8, 0xE6, 0x88, 0xB7, 0xE5, 0xB0, 0x81, 0xE7, 0xA6, 0x81, 0xE6, 0x88, 0x90, 0xE5, 0x8A, 0x9F]"

definition zh_NotBanned :: string where
  "zh_NotBanned = utf8
   [0xE7, 0x94, 0xA8, 0xE6, 0x88, 0xB7, 0xE6, 0x9C, 0xAA, 0xE8, 0xA2, 0xAB, 0xE5, 0xB0, 0x81, 0xE7, 0xA6, 0x81]"

definition zh_NoBanRecord :: string where
  "zh_NoBanRecord = utf8
   [0xE7, 0x94, 0xA8, 0xE6, 0x88, 0xB7, 0xE6, 0x9C, 0xAA, 0xE8, 0xA2, 0xAB, 0xE5, 0xB0, 0x81, 0xE7, 0xA6, 0x81, 0xE6, 0x88,
    0x96, 0xE5, 0xB0, 0x81, 0xE7, 0xA6, 0x81, 0xE8, 0xAE, 0xB0, 0xE5, 0xBD, 0x95, 0xE4, 0xB8, 0x8D, 0xE5, 0xAD, 0x98, 0xE5,
    0x9C, 0xA8]"

definition zh_UnbanFailed :: string where
  "zh_UnbanFailed = utf8
   [0xE8, 0xA7, 0xA3, 0xE5, 0xB0, 0x81, 0xE7, 0x94, 0xA8, 0xE6, 0x88, 0xB7, 0xE5, 0xA4, 0xB1, 0xE8, 0xB4, 0xA5]"

definition zh_DetUnban :: string where
  "zh_DetUnban = utf8
   [0xE8, 0xA7, 0xA3, 0xE5, 0xB0, 0x81, 0xE7, 0x94, 0xA8, 0xE6, 0x88, 0xB7, 0x20]"

definition zh_DetOldReason :: string where
  "zh_DetOldReason = utf8
   [0xEF, 0xBC, 0x8C, 0xE5, 0x8E, 0x9F, 0xE5, 0xB0, 0x81, 0xE7, 0xA6, 0x81, 0xE5, 0x8E, 0x9F, 0xE5, 0x9B, 0xA0, 0x3A, 0x20]"

definition zh_UnbanDone :: string where
  "zh_UnbanDone = utf8
   [0xE7, 0x94, 0xA8, 0xE6, 0x88, 0xB7, 0xE8, 0xA7, 0xA3, 0xE5, 0xB0, 0x81, 0xE6, 0x88, 0x90, 0xE5, 0x8A, 0x9F]"

definition zh_EmptyTitle :: string where
  "zh_EmptyTitle = utf8
   [0xE5, 0x85, 0xAC, 0xE5, 0x91, 0x8A, 0xE6, 0xA0, 0x87, 0xE9, 0xA2, 0x98, 0xE4, 0xB8, 0x8D, 0xE8, 0x83, 0xBD, 0xE4, 0xB8,
    0xBA, 0xE7, 0xA9, 0xBA]"

definition zh_EmptyContent :: string where
  "zh_EmptyContent = utf8
   [0xE5, 0x85, 0xAC, 0xE5, 0x91, 0x8A, 0xE5, 0x86, 0x85, 0xE5, 0xAE, 0xB9, 0xE4, 0xB8, 0x8D, 0xE8, 0x83, 0xBD, 0xE4, 0xB8,
    0xBA, 0xE7, 0xA9, 0xBA]"

definition zh_DetNoticeAll :: string where
  "zh_DetNoticeAll = utf8
   [0xE5, 0x8F, 0x91, 0xE9, 0x80, 0x81, 0xE5, 0x85, 0xA8, 0xE6, 0x9C, 0x8D, 0xE5, 0x85, 0xAC, 0xE5, 0x91, 0x8A, 0xEF, 0xBC,
    0x8C, 0xE6, 0xA0, 0x87, 0xE9, 0xA2, 0x98, 0x3A, 0x20]"

definition zh_DetContent :: string where
  "zh_DetContent = utf8
   [0xEF, 0xBC, 0x8C, 0xE5, 0x86, 0x85, 0xE5, 0xAE, 0xB9, 0x3A, 0x20]"

definition zh_DetNoticeTo :: string where
  "zh_DetNoticeTo = utf8
   [0xE5, 0x8F, 0x91, 0xE9, 0x80, 0x81, 0xE5, 0xAE, 0x9A, 0xE5, 0x90, 0x91, 0xE5, 0x85, 0xAC, 0xE5, 0x91, 0x8A, 0xE7, 0xBB,
    0x99, 0x20]"

definition zh_DetUsersTitle :: string where
  "zh_DetUsersTitle = utf8
   [0x20, 0xE4, 0xB8, 0xAA, 0xE7, 0x94, 0xA8, 0xE6, 0x88, 0xB7, 0xEF, 0xBC, 0x8C, 0xE6, 0xA0, 0x87, 0xE9, 0xA2, 0x98, 0x3A,
    0x20]"

definition zh_NoticeAllDone :: string where
  "zh_NoticeAllDone = utf8
   [0xE5, 0x85, 0xA8, 0xE6, 0x9C, 0x8D, 0xE5, 0x85, 0xAC, 0xE5, 0x91, 0x8A, 0xE5, 0x8F, 0x91, 0xE9, 0x80, 0x81, 0xE6, 0x88,
    0x90, 0xE5, 0x8A, 0x9F]"

definition zh_NoticeDone :: string where
  "zh_NoticeDone = utf8
   [0xE5, 0x85, 0xAC, 0xE5, 0x91, 0x8A, 0xE5, 0x8F, 0x91, 0xE9, 0x80, 0x81, 0xE6, 0x88, 0x90, 0xE5, 0x8A, 0x9F, 0xEF, 0xBC,
    0x8C, 0xE7, 0x9B, 0xAE, 0xE6, 0xA0, 0x87, 0xE7, 0x94, 0xA8, 0xE6, 0x88, 0xB7, 0xE6, 0x95, 0xB0, 0x3A, 0x20]"

subsection \<open>Ban records and log entries\<close>

record ban =
  bn_ID :: "nat option"
  bn_UserID :: u64
  bn_GMUserID :: u64
  bn_Reason :: string
  bn_BanTime :: time
  bn_UnbanTime :: time
  bn_IsActive :: bool
  bn_CreatedAt :: time
  bn_UpdatedAt :: time

record gm_log =
  gl_ID :: "nat option"
  gl_GMUserID :: u64
  gl_Action :: string
  gl_TargetID :: u64
  gl_Details :: string
  gl_CreatedAt :: time

definition encode_ban :: "ban \<Rightarrow> doc" where
  "encode_ban b = opt_oid (bn_ID b) @
     [(''user_id'', put_u64 (bn_UserID b)), (''gm_user_id'', put_u64 (bn_GMUserID b)), (''reason'', BStr (bn_Reason b)),
      (''ban_time'', bson_time (bn_BanTime b)), (''unban_time'', bson_time (bn_UnbanTime b)), (''is_active'', BBool (bn_IsActive b)),
      (''created_at'', bson_time (bn_CreatedAt b)), (''updated_at'', bson_time (bn_UpdatedAt b))]"

definition decode_ban :: "doc \<Rightarrow> ban option" where
  "decode_ban d = do {
     oid \<leftarrow> get_oid d; uid \<leftarrow> get_u64 d ''user_id''; gm \<leftarrow> get_u64 d ''gm_user_id''; rs \<leftarrow> get_str d ''reason'';
     bt \<leftarrow> get_time d ''ban_time''; ut \<leftarrow> get_time d ''unban_time''; act \<leftarrow> get_bool d ''is_active'';
     ct \<leftarrow> get_time d ''created_at''; mt \<leftarrow> get_time d ''updated_at'';
     Some \<lparr>bn_ID = oid, bn_UserID = uid, bn_GMUserID = gm, bn_Reason = rs, bn_BanTime = bt, bn_UnbanTime = ut,
       bn_IsActive = act, bn_CreatedAt = ct, bn_UpdatedAt = mt\<rparr> }"

definition encode_gm_log :: "gm_log \<Rightarrow> doc" where
  "encode_gm_log l = opt_oid (gl_ID l) @
     [(''gm_user_id'', put_u64 (gl_GMUserID l)), (''action'', BStr (gl_Action l)), (''target_id'', put_u64 (gl_TargetID l)),
      (''details'', BStr (gl_Details l)), (''created_at'', bson_time (gl_CreatedAt l))]"

subsection \<open>The methods\<close>

definition active_filter :: "u64 \<Rightarrow> query list" where
  "active_filter uid = [QEq ''user_id'' (put_u64 uid), QEq ''is_active'' (BBool True)]"

text \<open>\<^verbatim>\<open>time.Date(2099, 12, 31, 23, 59, 59, 0, time.UTC)\<close>\<close>

definition forever :: time where "forever = unix_epoch + 4102444799 * second"

definition new_ban :: "time \<Rightarrow> u64 \<Rightarrow> u64 \<Rightarrow> string \<Rightarrow> u32 \<Rightarrow> ban" where
  "new_ban now uid gm reason dur =
     \<lparr>bn_ID = None, bn_UserID = uid, bn_GMUserID = gm, bn_Reason = reason, bn_BanTime = now,
      bn_UnbanTime = (if dur = 0 then forever else now + uint dur * second), bn_IsActive = True, bn_CreatedAt = now, bn_UpdatedAt = now\<rparr>"

text \<open>\<^verbatim>\<open>BanUser\<close> is a lookup and an insertion, two calls of the database.\<close>

definition ban_check :: "'c mongo_ops \<Rightarrow> u64 \<Rightarrow> 'c \<Rightarrow> 'c \<times> string option" where
  "ban_check ops uid c =
     apsnd (\<lambda>r. case r of
        Inl e \<Rightarrow> Some e
      | Inr None \<Rightarrow> None
      | Inr (Some d) \<Rightarrow> (case decode_ban d of None \<Rightarrow> Some ''decoding error'' | Some _ \<Rightarrow> Some zh_AlreadyBanned))
       (mo_FindOne ops (QAnd (active_filter uid)) c)"

definition ban_insert :: "'c mongo_ops \<Rightarrow> time \<Rightarrow> u64 \<Rightarrow> u64 \<Rightarrow> string \<Rightarrow> u32 \<Rightarrow> 'c \<Rightarrow> 'c \<times> string option" where
  "ban_insert ops now uid gm reason dur c =
     apsnd (\<lambda>r. case r of Inl e \<Rightarrow> Some e | Inr _ \<Rightarrow> None) (mo_InsertOne ops (encode_ban (new_ban now uid gm reason dur)) c)"

definition BanUser :: "'c mongo_ops \<Rightarrow> time \<Rightarrow> u64 \<Rightarrow> u64 \<Rightarrow> string \<Rightarrow> u32 \<Rightarrow> 'c \<Rightarrow> 'c \<times> string option" where
  "BanUser ops now uid gm reason dur c =
     (case ban_check ops uid c of (c1, Some e) \<Rightarrow> (c1, Some e) | (c1, None) \<Rightarrow> ban_insert ops now uid gm reason dur c1)"

definition deactivation :: "time \<Rightarrow> update_op list" where
  "deactivation now = [USet [(''is_active'', BBool False), (''updated_at'', bson_time now)]]"

definition UnbanUser :: "'c mongo_ops \<Rightarrow> time \<Rightarrow> u64 \<Rightarrow> 'c \<Rightarrow> 'c \<times> string option" where
  "UnbanUser ops now uid c =
     apsnd (\<lambda>r. case r of Inl e \<Rightarrow> Some e | Inr n \<Rightarrow> if n = 0 then Some zh_NoBanRecord else None)
       (mo_UpdateOne ops (QAnd (active_filter uid)) (deactivation now) c)"

definition IsUserBanned :: "'c mongo_ops \<Rightarrow> time \<Rightarrow> u64 \<Rightarrow> 'c \<Rightarrow> 'c \<times> (string + ban option)" where
  "IsUserBanned ops now uid c =
     apsnd (\<lambda>r. case r of
        Inl e \<Rightarrow> Inl e
      | Inr None \<Rightarrow> Inr None
      | Inr (Some d) \<Rightarrow> (case decode_ban d of None \<Rightarrow> Inl ''decoding error'' | Some b \<Rightarrow> Inr (Some b)))
       (mo_FindOne ops (QAnd (active_filter uid @ [QGt ''unban_time'' (bson_time now)])) c)"

definition CleanExpiredBans :: "'c mongo_ops \<Rightarrow> time \<Rightarrow> 'c \<Rightarrow> 'c \<times> string option" where
  "CleanExpiredBans ops now c =
     apsnd (\<lambda>r. case r of Inl e \<Rightarrow> Some e | Inr _ \<Rightarrow> None)
       (mo_UpdateMany ops (QAnd [QEq ''is_active'' (BBool True), QLt ''unban_time'' (bson_time now)]) (deactivation now) c)"

definition LogGMAction :: "'l mongo_ops \<Rightarrow> time \<Rightarrow> u64 \<Rightarrow> string \<Rightarrow> u64 \<Rightarrow> string \<Rightarrow> 'l \<Rightarrow> 'l \<times> string option" where
  "LogGMAction ops now gm action target details l =
     apsnd (\<lambda>r. case r of Inl e \<Rightarrow> Some e | Inr _ \<Rightarrow> None)
       (mo_InsertOne ops (encode_gm_log \<lparr>gl_ID = None, gl_GMUserID = gm, gl_Action = action, gl_TargetID = target,
          gl_Details = details, gl_CreatedAt = now\<rparr>) l)"

subsection \<open>Reading back\<close>

lemma encode_ban_lookup:
  "map_of (encode_ban b) ''_id'' = map_option BOid (bn_ID b)"
  "map_of (encode_ban b) ''user_id'' = Some (put_u64 (bn_UserID b))"
  "map_of (encode_ban b) ''gm_user_id'' = Some (put_u64 (bn_GMUserID b))"
  "map_of (encode_ban b) ''reason'' = Some (BStr (bn_Reason b))"
  "map_of (encode_ban b) ''ban_time'' = Some (bson_time (bn_BanTime b))"
  "map_of (encode_ban b) ''unban_time'' = Some (bson_time (bn_UnbanTime b))"
  "map_of (encode_ban b) ''is_active'' = Some (BBool (bn_IsActive b))"
  "map_of (encode_ban b) ''created_at'' = Some (bson_time (bn_CreatedAt b))"
  "map_of (encode_ban b) ''updated_at'' = Some (bson_time (bn_UpdatedAt b))"
  by (cases "bn_ID b") (simp_all add: encode_ban_def)

lemma decode_ban_fields:
  "decode_ban d = Some b \<longleftrightarrow>
     get_oid d = Some (bn_ID b) \<and> get_u64 d ''user_id'' = Some (bn_UserID b) \<and> get_u64 d ''gm_user_id'' = Some (bn_GMUserID b) \<and>
     get_str d ''reason'' = Some (bn_Reason b) \<and> get_time d ''ban_time'' = Some (bn_BanTime b) \<and>
     get_time d ''unban_time'' = Some (bn_UnbanTime b) \<and> get_bool d ''is_active'' = Some (bn_IsActive b) \<and>
     get_time d ''created_at'' = Some (bn_CreatedAt b) \<and> get_time d ''updated_at'' = Some (bn_UpdatedAt b)"
  by (auto simp: decode_ban_def bind_eq_Some_conv)

text \<open>The documents the repository writes have the fields its filters read.\<close>

definition ban_row :: "doc \<Rightarrow> ban option" where
  "ban_row d = (if \<forall>k \<in> {''user_id'', ''unban_time'', ''is_active''}. map_of d k \<noteq> None then decode_ban d else None)"

lemma ban_row_fields: "ban_row d = Some b \<longleftrightarrow> decode_ban d = Some b \<and>
    map_of d ''user_id'' \<noteq> None \<and> map_of d ''unban_time'' \<noteq> None \<and> map_of d ''is_active'' \<noteq> None"
  by (simp add: ban_row_def)

definition stored_ban :: "ban \<Rightarrow> ban" where
  "stored_ban b = b\<lparr>bn_BanTime := trunc_ms (bn_BanTime b), bn_UnbanTime := trunc_ms (bn_UnbanTime b),
     bn_CreatedAt := trunc_ms (bn_CreatedAt b), bn_UpdatedAt := trunc_ms (bn_UpdatedAt b)\<rparr>"

definition deactivate :: "time \<Rightarrow> ban \<Rightarrow> ban" where
  "deactivate now b = b\<lparr>bn_IsActive := False, bn_UpdatedAt := trunc_ms now\<rparr>"

lemma ban_row_encode:
  "bn_ID b = None \<Longrightarrow> ban_row (with_id n (encode_ban b)) = Some (stored_ban (b\<lparr>bn_ID := Some n\<rparr>))"
proof -
  assume none: "bn_ID b = None"
  let ?d = "with_id n (encode_ban b)"
  have m: "map_of ?d k = (if k = ''_id'' then Some (BOid n) else map_of (encode_ban b) k)" for k
    using none by (simp add: with_id_def encode_ban_lookup)
  have "get_oid ?d = Some (Some n)" by (simp add: get_oid_def m)
  then show ?thesis by (simp add: ban_row_fields decode_ban_fields m encode_ban_lookup stored_ban_def)
qed

lemma ban_row_deactivate: "ban_row d = Some b \<Longrightarrow> ban_row (apply_update (deactivation now) d) = Some (deactivate now b)"
  by (simp add: ban_row_fields decode_ban_fields deactivation_def deactivate_def)

lemma ban_row_user: "ban_row d = Some b \<Longrightarrow> matches (QEq ''user_id'' (put_u64 uid)) d \<longleftrightarrow> bn_UserID b = uid"
proof -
  assume "ban_row d = Some b"
  then have "get_u64 d ''user_id'' = Some (bn_UserID b)" "map_of d ''user_id'' \<noteq> None"
    by (simp_all add: ban_row_fields decode_ban_fields)
  then show ?thesis
    by (auto simp: get_u64_def put_u64_def word_uint_eq_iff uint_word_of_int_eq take_bit_int_eq_self
        split: option.splits bval.splits if_splits)
qed

lemma ban_row_active: "ban_row d = Some b \<Longrightarrow> matches (QEq ''is_active'' (BBool True)) d \<longleftrightarrow> bn_IsActive b"
proof -
  assume "ban_row d = Some b"
  then have "get_bool d ''is_active'' = Some (bn_IsActive b)" "map_of d ''is_active'' \<noteq> None"
    by (simp_all add: ban_row_fields decode_ban_fields)
  then show ?thesis by (auto simp: get_bool_def split: option.splits bval.splits)
qed

lemma ban_row_time:
  assumes "ban_row d = Some b"
  shows "matches (QGt ''unban_time'' (bson_time now)) d \<longleftrightarrow> trunc_ms now < bn_UnbanTime b"
    and "matches (QLt ''unban_time'' (bson_time now)) d \<longleftrightarrow> bn_UnbanTime b < trunc_ms now"
proof -
  from assms have "get_time d ''unban_time'' = Some (bn_UnbanTime b)" "map_of d ''unban_time'' \<noteq> None"
    by (simp_all add: ban_row_fields decode_ban_fields)
  then obtain ms where "map_of d ''unban_time'' = Some (BDate ms)" "bn_UnbanTime b = unix_epoch + ms * millisecond"
    by (auto simp: get_time_def split: option.splits bval.splits)
  then show "matches (QGt ''unban_time'' (bson_time now)) d \<longleftrightarrow> trunc_ms now < bn_UnbanTime b"
    "matches (QLt ''unban_time'' (bson_time now)) d \<longleftrightarrow> bn_UnbanTime b < trunc_ms now"
    by (simp_all add: bson_time_def trunc_ms_def millisecond_def)
qed

lemmas ban_row_matches = ban_row_user ban_row_active ban_row_time

subsection \<open>The contract\<close>

record 'c gm_repo =
  gr_BanUser :: "time \<Rightarrow> u64 \<Rightarrow> u64 \<Rightarrow> string \<Rightarrow> u32 \<Rightarrow> 'c \<Rightarrow> 'c \<times> string option"
  gr_UnbanUser :: "time \<Rightarrow> u64 \<Rightarrow> 'c \<Rightarrow> 'c \<times> string option"
  gr_IsUserBanned :: "time \<Rightarrow> u64 \<Rightarrow> 'c \<Rightarrow> 'c \<times> (string + ban option)"
  gr_CleanExpiredBans :: "time \<Rightarrow> 'c \<Rightarrow> 'c \<times> string option"

definition NewGMRepository :: "'c mongo_ops \<Rightarrow> 'c gm_repo" where
  "NewGMRepository ops = \<lparr>gr_BanUser = BanUser ops, gr_UnbanUser = UnbanUser ops, gr_IsUserBanned = IsUserBanned ops,
     gr_CleanExpiredBans = CleanExpiredBans ops\<rparr>"

definition active :: "u64 \<Rightarrow> ban \<Rightarrow> bool" where
  "active uid b \<longleftrightarrow> bn_UserID b = uid \<and> bn_IsActive b"

definition in_force :: "time \<Rightarrow> u64 \<Rightarrow> ban \<Rightarrow> bool" where
  "in_force now uid b \<longleftrightarrow> active uid b \<and> trunc_ms now < bn_UnbanTime b"

definition run_out :: "time \<Rightarrow> ban \<Rightarrow> bool" where
  "run_out now b \<longleftrightarrow> bn_IsActive b \<and> bn_UnbanTime b < trunc_ms now"

definition one_deactivated :: "time \<Rightarrow> u64 \<Rightarrow> ban list \<Rightarrow> ban list \<Rightarrow> bool" where
  "one_deactivated now uid bs bs' \<longleftrightarrow> (\<exists>pre b post. bs = pre @ b # post \<and> active uid b \<and> bs' = pre @ deactivate now b # post)"

definition ban_added :: "time \<Rightarrow> u64 \<Rightarrow> u64 \<Rightarrow> string \<Rightarrow> u32 \<Rightarrow> ban list \<Rightarrow> ban list \<Rightarrow> bool" where
  "ban_added now uid gm reason dur bs bs' \<longleftrightarrow> (\<exists>n. bs' = bs @ [stored_ban ((new_ban now uid gm reason dur)\<lparr>bn_ID := Some n\<rparr>)])"

locale ban_store =
  fixes repo :: "'c gm_repo" and bans :: "'c \<Rightarrow> ban list" and ok :: "'c \<Rightarrow> bool"
  assumes ban: "ok c \<Longrightarrow> gr_BanUser repo now uid gm reason dur c = (c', e1) \<Longrightarrow> ok c' \<and>
      (if \<exists>b \<in> set (bans c). active uid b then e1 \<noteq> None \<and> bans c' = bans c
       else ban_added now uid gm reason dur (bans c) (bans c') \<or> e1 \<noteq> None \<and> bans c' = bans c)"
    and unban: "ok c \<Longrightarrow> gr_UnbanUser repo now uid c = (c', e2) \<Longrightarrow> ok c' \<and>
      (one_deactivated now uid (bans c) (bans c') \<or> e2 \<noteq> None \<and> bans c' = bans c)"
    and is_banned: "ok c \<Longrightarrow> gr_IsUserBanned repo now uid c = (c', r3) \<Longrightarrow> ok c' \<and> bans c' = bans c \<and>
      (case r3 of
         Inr (Some b) \<Rightarrow> b \<in> set (bans c) \<and> in_force now uid b
       | Inr None \<Rightarrow> (\<forall>b \<in> set (bans c). \<not> in_force now uid b)
       | Inl _ \<Rightarrow> True)"
    and clean: "ok c \<Longrightarrow> gr_CleanExpiredBans repo now c = (c', e4) \<Longrightarrow> ok c' \<and>
      (if e4 = None then bans c' = map (\<lambda>b. if run_out now b then deactivate now b else b) (bans c)
       else list_all2 (\<lambda>b b'. b' = b \<or> run_out now b \<and> b' = deactivate now b) (bans c) (bans c'))"

subsection \<open>The repository meets its contract\<close>

definition ban_rows_ok :: "doc list \<Rightarrow> bool" where
  "ban_rows_ok ds \<longleftrightarrow> (\<forall>d \<in> set ds. ban_row d \<noteq> None)"

definition bans_in :: "('c \<Rightarrow> doc list) \<Rightarrow> 'c \<Rightarrow> ban list" where
  "bans_in docs c = map (the \<circ> ban_row) (docs c)"

definition bans_valid :: "('c \<Rightarrow> doc list) \<Rightarrow> ('c \<Rightarrow> bool) \<Rightarrow> 'c \<Rightarrow> bool" where
  "bans_valid docs valid c \<longleftrightarrow> valid c \<and> ban_rows_ok (docs c)"

lemma active_matches: "ban_row d = Some b \<Longrightarrow> matches (QAnd (active_filter uid)) d \<longleftrightarrow> active uid b"
  using ban_row_matches [of d b] by (simp add: active_filter_def active_def del: matches.simps(1-3))

lemma in_force_matches:
  "ban_row d = Some b \<Longrightarrow> matches (QAnd (active_filter uid @ [QGt ''unban_time'' (bson_time now)])) d \<longleftrightarrow> in_force now uid b"
  using ban_row_matches [of d b] by (simp add: active_filter_def active_def in_force_def del: matches.simps(1-3))

lemma run_out_matches:
  "ban_row d = Some b \<Longrightarrow> matches (QAnd [QEq ''is_active'' (BBool True), QLt ''unban_time'' (bson_time now)]) d \<longleftrightarrow> run_out now b"
  using ban_row_matches [of d b] by (simp add: run_out_def del: matches.simps(1-3))

lemma ban_rows_split:
  assumes "ban_rows_ok (pre @ d # post)" and "matches (QAnd (active_filter uid)) d"
  shows "ban_rows_ok (pre @ apply_update (deactivation now) d # post) \<and>
    one_deactivated now uid (map (the \<circ> ban_row) (pre @ d # post)) (map (the \<circ> ban_row) (pre @ apply_update (deactivation now) d # post))"
proof -
  from assms obtain b where b: "ban_row d = Some b" "active uid b"
    using active_matches [of d _ uid] by (auto simp: ban_rows_ok_def simp del: matches.simps)
  note u = ban_row_deactivate [OF b(1), of now]
  have "one_deactivated now uid (map (the \<circ> ban_row) (pre @ d # post)) (map (the \<circ> ban_row) (pre @ apply_update (deactivation now) d # post))"
    unfolding one_deactivated_def using b u
    by (intro exI [of _ "map (the \<circ> ban_row) pre"] exI [of _ b] exI [of _ "map (the \<circ> ban_row) post"]) (simp del: apply_update_Cons)
  with assms(1) u show ?thesis by (auto simp: ban_rows_ok_def)
qed

context mongo_collection
begin

abbreviation "bans c \<equiv> bans_in docs c"
abbreviation "bans_ok c \<equiv> bans_valid docs valid c"

lemma ban_row_of: "bans_ok c \<Longrightarrow> d \<in> set (docs c) \<Longrightarrow> \<exists>b. ban_row d = Some b \<and> decode_ban d = Some b \<and> b \<in> set (bans c)"
proof -
  assume "bans_ok c" and d: "d \<in> set (docs c)"
  then obtain b where "ban_row d = Some b" by (auto simp: bans_valid_def ban_rows_ok_def)
  moreover from this d have "b \<in> set (bans c)" by (auto simp: bans_in_def intro!: rev_image_eqI [of d])
  ultimately show "\<exists>b. ban_row d = Some b \<and> decode_ban d = Some b \<and> b \<in> set (bans c)" by (simp add: ban_row_fields)
qed

lemma ban_find_law:
  assumes "bans_ok c" and "mo_FindOne ops q c = (c', y)" and q: "\<And>d b. ban_row d = Some b \<Longrightarrow> matches q d \<longleftrightarrow> p b"
  shows "bans_ok c' \<and> bans c' = bans c \<and> (case y of
      Inr (Some d) \<Rightarrow> \<exists>b. decode_ban d = Some b \<and> b \<in> set (bans c) \<and> p b
    | Inr None \<Rightarrow> (\<forall>b \<in> set (bans c). \<not> p b) | Inl _ \<Rightarrow> True)"
proof -
  have v: "valid c" using assms(1) by (simp add: bans_valid_def)
  note f = find_one [OF v assms(2)]
  then have same: "bans_ok c' \<and> bans c' = bans c" using assms(1) by (simp add: bans_valid_def bans_in_def)
  show ?thesis
  proof (cases y)
    case (Inr x)
    show ?thesis
    proof (cases x)
      case None
      have "\<not> p b" if "b \<in> set (bans c)" for b
      proof -
        from that obtain d where d: "d \<in> set (docs c)" "b = the (ban_row d)" by (auto simp: bans_in_def)
        moreover from ban_row_of [OF assms(1) d(1)] d(2) have "ban_row d = Some b" by auto
        ultimately show ?thesis using f Inr None q [of d b] by (simp add: find_one_effect_def)
      qed
      with same Inr None show ?thesis by simp
    next
      case (Some d)
      with f Inr have "d \<in> set (docs c)" "matches q d" by (auto simp: find_one_effect_def)
      with ban_row_of [OF assms(1), of d] q same Inr Some show ?thesis by auto
    qed
  qed (use same in simp)
qed

lemma ban_insert_law:
  assumes "bans_ok c" and "ban_insert ops now uid gm reason dur c = (c', e)"
  shows "bans_ok c' \<and> (ban_added now uid gm reason dur (bans c) (bans c') \<or> e \<noteq> None \<and> bans c' = bans c)"
proof -
  let ?b = "new_ban now uid gm reason dur"
  obtain y where y: "mo_InsertOne ops (encode_ban ?b) c = (c', y)" and e: "e = (case y of Inl e \<Rightarrow> Some e | Inr _ \<Rightarrow> None)"
    using assms(2) by (auto simp: ban_insert_def apsnd_eq)
  have v: "valid c" using assms(1) by (simp add: bans_valid_def)
  note i = insert_one [OF v y]
  have "bn_ID ?b = None" by (simp add: new_ban_def)
  note row = ban_row_encode [OF this]
  have "bans_ok c' \<and> ban_added now uid gm reason dur (bans c) (bans c')" if "docs c' = docs c @ [with_id n (encode_ban ?b)]" for n
    using that row [of n] i assms(1) by (auto simp: bans_valid_def ban_rows_ok_def bans_in_def ban_added_def)
  moreover have "bans_ok c' \<and> bans c' = bans c" if "docs c' = docs c"
    using that i assms(1) by (simp add: bans_valid_def bans_in_def)
  ultimately show ?thesis using i e by (cases y) (auto simp: insert_effect_def)
qed

lemma ban_check_law:
  assumes "bans_ok c" and "ban_check ops uid c = (c', e)"
  shows "bans_ok c' \<and> bans c' = bans c \<and> (e = None \<longrightarrow> (\<forall>b \<in> set (bans c). \<not> active uid b))"
proof -
  obtain y where y: "mo_FindOne ops (QAnd (active_filter uid)) c = (c', y)"
    using assms(2) by (auto simp: ban_check_def apsnd_eq)
  from ban_find_law [OF assms(1) y, of "active uid", OF active_matches] y assms(2) show ?thesis
    by (auto simp: ban_check_def apsnd_eq split: sum.splits option.splits)
qed

lemma clean_law:
  assumes "bans_ok c" and "CleanExpiredBans ops now c = (c', e4)"
  shows "bans_ok c' \<and>
      (if e4 = None then bans c' = map (\<lambda>b. if run_out now b then deactivate now b else b) (bans c)
       else list_all2 (\<lambda>b b'. b' = b \<or> run_out now b \<and> b' = deactivate now b) (bans c) (bans c'))"
proof -
  let ?q = "QAnd [QEq ''is_active'' (BBool True), QLt ''unban_time'' (bson_time now)]"
  from assms(2) obtain y where y: "mo_UpdateMany ops ?q (deactivation now) c = (c', y)"
    and e: "e4 = (case y of Inl e \<Rightarrow> Some e | Inr _ \<Rightarrow> None)"
    by (auto simp: CleanExpiredBans_def apsnd_eq)
  have v: "valid c" "ban_rows_ok (docs c)" using assms(1) by (simp_all add: bans_valid_def)
  note u = update_many [OF v(1) y]
  have upd: "ban_row (apply_update (deactivation now) d) = Some (deactivate now b) \<and> (matches ?q d \<longleftrightarrow> run_out now b)" if "ban_row d = Some b" for d b
    using that ban_row_deactivate run_out_matches by blast
  show ?thesis
  proof (cases y)
    case (Inr n)
    then have "docs c' = map (\<lambda>d. if matches ?q d then apply_update (deactivation now) d else d) (docs c)"
      using u by (simp add: update_many_effect_def)
    with u v upd Inr e show ?thesis
      by (auto simp: bans_valid_def ban_rows_ok_def bans_in_def comp_def simp del: matches.simps apply_update_Cons)
  next
    case (Inl m)
    then have l: "list_all2 (\<lambda>d d'. d' = d \<or> matches ?q d \<and> d' = apply_update (deactivation now) d) (docs c) (docs c')"
      using u by (simp add: update_many_effect_def)
    have "list_all2 (\<lambda>d d'. ban_row d' \<noteq> None \<and> (the (ban_row d') = the (ban_row d) \<or>
        run_out now (the (ban_row d)) \<and> the (ban_row d') = deactivate now (the (ban_row d)))) (docs c) (docs c')"
      using l by (rule list.rel_mono_strong) (use v(2) upd in \<open>auto simp: ban_rows_ok_def simp del: matches.simps apply_update_Cons\<close>)
    then show ?thesis using u Inl e
      by (auto simp: bans_valid_def bans_in_def ban_rows_ok_def list_all2_conv_all_nth in_set_conv_nth)
  qed
qed

lemma ban_store_law: "ban_store (NewGMRepository ops) (bans_in docs) (bans_valid docs valid)"
proof (unfold_locales, goal_cases)
  case (1 c now uid gm reason dur c' e1)
  obtain c1 e where k: "ban_check ops uid c = (c1, e)" by fastforce
  note kl = ban_check_law [OF 1(1) k]
  show ?case
  proof (cases e)
    case (Some m)
    with 1 k kl show ?thesis by (auto simp: NewGMRepository_def BanUser_def)
  next
    case None
    with 1 k have i: "ban_insert ops now uid gm reason dur c1 = (c', e1)" by (simp add: NewGMRepository_def BanUser_def)
    have "bans_ok c1" using kl by simp
    from ban_insert_law [OF this i] kl None show ?thesis by auto
  qed
next
  case (2 c now uid c' e2)
  then obtain y where y: "mo_UpdateOne ops (QAnd (active_filter uid)) (deactivation now) c = (c', y)"
    and e: "e2 = (case y of Inl e \<Rightarrow> Some e | Inr n \<Rightarrow> if n = 0 then Some zh_NoBanRecord else None)"
    by (auto simp: NewGMRepository_def UnbanUser_def apsnd_eq)
  have v: "valid c" "ban_rows_ok (docs c)" using 2(1) by (simp_all add: bans_valid_def)
  note u = update_one [OF v(1) y]
  have one: "ban_rows_ok (docs c') \<and> one_deactivated now uid (bans c) (bans c')"
    if "one_updated (QAnd (active_filter uid)) (deactivation now) (docs c) (docs c')"
    using that ban_rows_split v(2) unfolding one_updated_def bans_in_def by (metis (no_types, lifting))
  from u have "docs c' = docs c \<and> e2 \<noteq> None \<or> one_updated (QAnd (active_filter uid)) (deactivation now) (docs c) (docs c')"
    by (cases y) (auto simp: update_one_effect_def e split: if_splits)
  then show ?case
  proof
    assume "docs c' = docs c \<and> e2 \<noteq> None"
    with u v show ?thesis by (simp add: bans_valid_def bans_in_def)
  next
    assume "one_updated (QAnd (active_filter uid)) (deactivation now) (docs c) (docs c')"
    from one [OF this] u show ?thesis by (simp add: bans_valid_def)
  qed
next
  case (3 c now uid c' r3)
  then obtain y where y: "mo_FindOne ops (QAnd (active_filter uid @ [QGt ''unban_time'' (bson_time now)])) c = (c', y)"
    and r: "r3 = (case y of Inl e \<Rightarrow> Inl e | Inr None \<Rightarrow> Inr None | Inr (Some d) \<Rightarrow>
        (case decode_ban d of None \<Rightarrow> Inl ''decoding error'' | Some b \<Rightarrow> Inr (Some b)))"
    by (auto simp: NewGMRepository_def IsUserBanned_def apsnd_eq)
  from ban_find_law [OF 3(1) y, of "in_force now uid", OF in_force_matches] show ?case unfolding r by (auto split: sum.splits option.splits)
next
  case (4 c now c' e4)
  from clean_law [OF this(1)] this(2) show ?case by (simp add: NewGMRepository_def)
qed

end

text \<open>The interface on the collection in memory.\<close>

interpretation mem_bans: ban_store "NewGMRepository (mem_ops [])" "bans_in mc_docs" "bans_valid mc_docs (\<lambda>c. uniques [] (mc_docs c))"
  by (rule mem.ban_store_law)

end
