(* ===== verification/Gm.thy ===== *)
theory Gm
  imports Bans Protocol
begin

text \<open>
  \<^verbatim>\<open>internal/server/gm_server.go\<close>: who may use the GM service, its command interpreter and its six
  handlers over the GM repository of \<open>Bans\<close>. The state is the two collections and the messages the
  service has broadcast; a handler that asserts the type of the context value panics when the value is
  not a \<^verbatim>\<open>uint64\<close>. The kick and notice messages the source only logs (its TODOs) have no effect.
  Formatting a time is a parameter, logging is left out.
\<close>

subsection \<open>Administrators\<close>

definition env_admins :: "string \<Rightarrow> u64 list" where
  "env_admins env = concat (map (\<lambda>raw. let s = TrimSpace raw in
      if s = [] then [] else case parse_uint64 s of None \<Rightarrow> [] | Some u \<Rightarrow> if u = 0 then [] else [u])
    (split_on CHR '','' env))"

text \<open>\<^verbatim>\<open>os.Getenv\<close> is an argument; the set of identifiers is a list.\<close>

definition loadGMAdminUserIDs :: "(string \<Rightarrow> string) \<Rightarrow> u64 list \<Rightarrow> string \<Rightarrow> u64 list" where
  "loadGMAdminUserIDs getenv configured envName =
     filter (\<lambda>u. u > 0) configured @
     env_admins (getenv (if envName = [] then ''TRIBEWAY_GM_ADMIN_USER_IDS'' else envName))"

subsection \<open>The server and its caller\<close>

record ('c, 'l) gm_server =
  gs_gmRepo :: "'c gm_repo"
  gs_logOps :: "'l mongo_ops"
  gs_adminUserIDs :: "u64 list"
  gs_formatTime :: "time \<Rightarrow> string"

record ('c, 'l) gm =
  gm_bans :: 'c
  gm_logs :: 'l
  gm_broadcasts :: "string list"

definition NewGMService :: "'c mongo_ops \<Rightarrow> 'l mongo_ops \<Rightarrow> (string \<Rightarrow> string) \<Rightarrow> u64 list \<Rightarrow> string \<Rightarrow> (time \<Rightarrow> string) \<Rightarrow> ('c, 'l) gm_server" where
  "NewGMService bops lops getenv configured envName formatTime =
     \<lparr>gs_gmRepo = NewGMRepository bops, gs_logOps = lops, gs_adminUserIDs = loadGMAdminUserIDs getenv configured envName,
      gs_formatTime = formatTime\<rparr>"

definition contextUserID :: "ctx_value option \<Rightarrow> u64 \<times> bool" where
  "contextUserID v = (case v of
      Some (CtxUint64 u) \<Rightarrow> (u, True)
    | Some (CtxUint u) \<Rightarrow> (u, True)
    | Some (CtxInt i) \<Rightarrow> if i > 0 then (of_int i, True) else (0, False)
    | Some (CtxInt64 i) \<Rightarrow> if i > 0 then (of_int i, True) else (0, False)
    | Some (CtxString s) \<Rightarrow> (case parse_uint64 s of
          Some u \<Rightarrow> (u, True) | None \<Rightarrow> (if parse_nat s = None then 0 else - 1, False))
    | _ \<Rightarrow> (0, False))"

definition authorizeGMUser :: "('c, 'l) gm_server \<Rightarrow> u64 \<Rightarrow> common_response option" where
  "authorizeGMUser sv gmID =
     (if gmID = 0 then Some (common 1001 ''user not authenticated'')
      else if gmID \<notin> set (gs_adminUserIDs sv) then Some (common 1004 ''gm permission denied'')
      else None)"

definition authorizeGM :: "('c, 'l) gm_server \<Rightarrow> ctx_value option \<Rightarrow> common_response + u64" where
  "authorizeGM sv ctx =
     (case contextUserID ctx of (gmID, ok) \<Rightarrow>
        if \<not> ok \<or> gmID = 0 then Inl (common 1001 ''user not authenticated'')
        else if gmID \<notin> set (gs_adminUserIDs sv) then Inl (common 1004 ''gm permission denied'')
        else Inr gmID)"

text \<open>The first lines of the five handlers that use \<^verbatim>\<open>gmUserID.(uint64)\<close>.\<close>

definition gm_caller :: "('c, 'l) gm_server \<Rightarrow> ctx_value option \<Rightarrow> (common_response + u64) outcome" where
  "gm_caller sv ctx =
     (case ctx of
        None \<Rightarrow> Ret (Inl (common 1001 zh_NotLoggedIn))
      | Some (CtxUint64 gmID) \<Rightarrow> Ret (case authorizeGMUser sv gmID of Some resp \<Rightarrow> Inl resp | None \<Rightarrow> Inr gmID)
      | Some _ \<Rightarrow> Panic)"

definition log_action :: "('c, 'l) gm_server \<Rightarrow> time \<Rightarrow> u64 \<Rightarrow> string \<Rightarrow> u64 \<Rightarrow> string \<Rightarrow> ('c, 'l) gm \<Rightarrow> ('c, 'l) gm" where
  "log_action sv now gmID action target details s =
     s\<lparr>gm_logs := fst (LogGMAction (gs_logOps sv) now gmID action target details (gm_logs s))\<rparr>"

abbreviation show_dur :: "u32 \<Rightarrow> string" where "show_dur d \<equiv> fmt_nat (unat d)"

subsection \<open>GM commands\<close>

text \<open>
  \<^verbatim>\<open>strings.ToLower\<close>, as far as the comparison with an ASCII word tells: two letters outside ASCII,
  the Kelvin sign and the dotted capital I, become ASCII letters.
\<close>

fun lower_word :: "string \<Rightarrow> string" where
  "lower_word [] = []"
| "lower_word (c # cs) =
     (let n = (of_char c :: int) in
      if n = 0xE2 \<and> take 2 cs = utf8 [0x84, 0xAA] then CHR ''k'' # lower_word (drop 2 cs)
      else if n = 0xC4 \<and> take 1 cs = utf8 [0xB0] then CHR ''i'' # lower_word (drop 1 cs)
      else (if 65 \<le> n \<and> n \<le> 90 then char_of (n + 32) else c) # lower_word cs)"

definition words :: "string list \<Rightarrow> string" where "words ws = join_with CHR '' '' ws"

definition parse_uint32 :: "string \<Rightarrow> u32 option" where
  "parse_uint32 s = (case parse_nat s of None \<Rightarrow> None | Some n \<Rightarrow> if n < 2 ^ 32 then Some (of_nat n) else None)"

definition cmd_kick :: "string list \<Rightarrow> string + string" where
  "cmd_kick args =
     (if args = [] then Inl zh_KickNeedsId
      else case parse_uint64 (args ! 0) of
        None \<Rightarrow> Inl (zh_BadUserId @ args ! 0)
      | Some uid \<Rightarrow> Inr (zh_UserSp @ show_id uid @ zh_Kicked @ (if length args > 1 then words (drop 1 args) else zh_GmKick)))"

definition cmd_ban :: "('c, 'l) gm_server \<Rightarrow> time \<Rightarrow> u64 \<Rightarrow> string list \<Rightarrow> 'c \<Rightarrow> 'c \<times> (string + string)" where
  "cmd_ban sv now gmID args c =
     (if length args < 2 then (c, Inl zh_BanNeeds)
      else case parse_uint64 (args ! 0) of
        None \<Rightarrow> (c, Inl (zh_BadUserId @ args ! 0))
      | Some uid \<Rightarrow>
          (case parse_uint32 (args ! 1) of
             None \<Rightarrow> (c, Inl (zh_BadDuration @ args ! 1))
           | Some dur \<Rightarrow>
               (let reason = (if length args > 2 then words (drop 2 args) else zh_GmBan) in
                case gr_BanUser (gs_gmRepo sv) now uid gmID reason dur c of
                  (c', Some e) \<Rightarrow> (c', Inl e)
                | (c', None) \<Rightarrow> (c', Inr (zh_UserSp @ show_id uid @ zh_BannedFor @ show_dur dur @ zh_SecondsReason @ reason)))))"

definition cmd_unban :: "('c, 'l) gm_server \<Rightarrow> time \<Rightarrow> string list \<Rightarrow> 'c \<Rightarrow> 'c \<times> (string + string)" where
  "cmd_unban sv now args c =
     (if args = [] then (c, Inl zh_UnbanNeeds)
      else case parse_uint64 (args ! 0) of
        None \<Rightarrow> (c, Inl (zh_BadUserId @ args ! 0))
      | Some uid \<Rightarrow> (case gr_UnbanUser (gs_gmRepo sv) now uid c of
            (c', Some e) \<Rightarrow> (c', Inl e) | (c', None) \<Rightarrow> (c', Inr (zh_UserSp @ show_id uid @ zh_Unbanned))))"

definition executeGMCommand :: "('c, 'l) gm_server \<Rightarrow> time \<Rightarrow> u64 \<Rightarrow> string \<Rightarrow> string list \<Rightarrow> 'c \<Rightarrow> 'c \<times> (string + string)" where
  "executeGMCommand sv now gmID command args c =
     (let w = lower_word command in
      if w = ''kick'' then (c, cmd_kick args)
      else if w = ''ban'' then cmd_ban sv now gmID args c
      else if w = ''unban'' then cmd_unban sv now args c
      else if w = ''notice'' then (c, if args = [] then Inl zh_NoticeNeeds else Inr (zh_NoticeSent @ words args))
      else if w = ''reload'' then (c, Inr zh_ReloadSent)
      else if w = ''status'' then (c, Inr (zh_StatusOk @ gs_formatTime sv now))
      else (c, Inl (zh_UnknownCommand @ command)))"

subsection \<open>The handlers\<close>

record command_request =
  xq_Command :: string
  xq_Args :: "string list"

record kick_request =
  kq_TargetUserId :: u64
  kq_Reason :: string

record ban_request =
  bq_TargetUserId :: u64
  bq_Reason :: string
  bq_Duration :: u32

record notice_request =
  nq_Title :: string
  nq_Content :: string
  nq_TargetUsers :: "u64 list"

type_synonym ('c, 'l) gm_result = "(('c, 'l) gm \<times> common_response) outcome"

definition as_gm ::
  "('c, 'l) gm_server \<Rightarrow> ctx_value option \<Rightarrow> ('c, 'l) gm \<Rightarrow> (u64 \<Rightarrow> ('c, 'l) gm \<times> common_response) \<Rightarrow> ('c, 'l) gm_result" where
  "as_gm sv ctx s body =
     (case gm_caller sv ctx of Panic \<Rightarrow> Panic | Ret (Inl resp) \<Rightarrow> Ret (s, resp) | Ret (Inr gmID) \<Rightarrow> Ret (body gmID))"

definition ExecuteCommand :: "('c, 'l) gm_server \<Rightarrow> time \<Rightarrow> ctx_value option \<Rightarrow> command_request \<Rightarrow> ('c, 'l) gm \<Rightarrow> ('c, 'l) gm_result" where
  "ExecuteCommand sv now ctx req s = as_gm sv ctx s (\<lambda>gmID.
     if xq_Command req = [] then (s, common 1002 zh_EmptyCommand)
     else case executeGMCommand sv now gmID (xq_Command req) (xq_Args req) (gm_bans s) of
       (c, Inl e) \<Rightarrow> (s\<lparr>gm_bans := c\<rparr>, common 1003 (zh_CommandFailed @ e))
     | (c, Inr result) \<Rightarrow>
         (log_action sv now gmID ''execute_command'' 0
            (zh_DetCommand @ xq_Command req @ zh_DetArgs @ ''['' @ words (xq_Args req) @ '']'' @ zh_DetResult @ result) (s\<lparr>gm_bans := c\<rparr>),
          common_data zh_CommandDone result))"

definition KickUser :: "('c, 'l) gm_server \<Rightarrow> time \<Rightarrow> ctx_value option \<Rightarrow> kick_request \<Rightarrow> ('c, 'l) gm \<Rightarrow> ('c, 'l) gm_result" where
  "KickUser sv now ctx req s = as_gm sv ctx s (\<lambda>gmID.
     let target = kq_TargetUserId req in
     if target = 0 then (s, common 1002 zh_EmptyTarget)
     else if target = gmID then (s, common 1003 zh_NoSelfKick)
     else
       (let reason = (if kq_Reason req = [] then zh_RuleViolation else kq_Reason req)
        in (log_action sv now gmID ''kick_user'' target (zh_DetKick @ show_id target @ zh_DetReason @ reason) s,
            common_data zh_KickDone
              (''{'' @ quoted ''target_user_id'' @ '':'' @ show_id target @ '','' @ quoted ''reason'' @ '':'' @ quoted reason @ ''}''))))"

definition ban_duration :: "u32 \<Rightarrow> u32" where
  "ban_duration d = (if d = 0 then 24 * 60 * 60 else d)"

definition BanUser :: "('c, 'l) gm_server \<Rightarrow> time \<Rightarrow> ctx_value option \<Rightarrow> ban_request \<Rightarrow> ('c, 'l) gm \<Rightarrow> ('c, 'l) gm_result" where
  "BanUser sv now ctx req s = as_gm sv ctx s (\<lambda>gmID.
     let target = bq_TargetUserId req in
     if target = 0 then (s, common 1002 zh_EmptyTarget)
     else if target = gmID then (s, common 1003 zh_NoSelfBan)
     else
       (let reason = (if bq_Reason req = [] then zh_RuleViolation else bq_Reason req); dur = ban_duration (bq_Duration req)
        in case gr_IsUserBanned (gs_gmRepo sv) now target (gm_bans s) of
             (c1, Inl _) \<Rightarrow> (s\<lparr>gm_bans := c1\<rparr>, common 1005 zh_CheckFailed)
           | (c1, Inr (Some _)) \<Rightarrow> (s\<lparr>gm_bans := c1\<rparr>, common 1006 zh_AlreadyBanned)
           | (c1, Inr None) \<Rightarrow>
               (case gr_BanUser (gs_gmRepo sv) now target gmID reason dur c1 of
                  (c2, Some _) \<Rightarrow> (s\<lparr>gm_bans := c2\<rparr>, common 1007 zh_BanFailed)
                | (c2, None) \<Rightarrow>
                    (log_action sv now gmID ''ban_user'' target
                       (zh_DetBan @ show_id target @ zh_DetDuration @ show_dur dur @ zh_DetSeconds @ reason) (s\<lparr>gm_bans := c2\<rparr>),
                     common_data zh_BanDone (''{'' @ quoted ''target_user_id'' @ '':'' @ show_id target @ '','' @
                       quoted ''duration'' @ '':'' @ show_dur dur @ '','' @ quoted ''reason'' @ '':'' @ quoted reason @ ''}'')))))"

definition UnbanUser :: "('c, 'l) gm_server \<Rightarrow> time \<Rightarrow> ctx_value option \<Rightarrow> u64 \<Rightarrow> ('c, 'l) gm \<Rightarrow> ('c, 'l) gm_result" where
  "UnbanUser sv now ctx target s = as_gm sv ctx s (\<lambda>gmID.
     if target = 0 then (s, common 1002 zh_EmptyTarget)
     else case gr_IsUserBanned (gs_gmRepo sv) now target (gm_bans s) of
       (c1, Inl _) \<Rightarrow> (s\<lparr>gm_bans := c1\<rparr>, common 1004 zh_CheckFailed)
     | (c1, Inr None) \<Rightarrow> (s\<lparr>gm_bans := c1\<rparr>, common 1005 zh_NotBanned)
     | (c1, Inr (Some rec)) \<Rightarrow>
         (case gr_UnbanUser (gs_gmRepo sv) now target c1 of
            (c2, Some _) \<Rightarrow> (s\<lparr>gm_bans := c2\<rparr>, common 1006 zh_UnbanFailed)
          | (c2, None) \<Rightarrow>
              (log_action sv now gmID ''unban_user'' target (zh_DetUnban @ show_id target @ zh_DetOldReason @ bn_Reason rec) (s\<lparr>gm_bans := c2\<rparr>),
               common_data zh_UnbanDone (''{'' @ quoted ''target_user_id'' @ '':'' @ show_id target @ ''}''))))"

definition SendNotice :: "('c, 'l) gm_server \<Rightarrow> time \<Rightarrow> ctx_value option \<Rightarrow> notice_request \<Rightarrow> ('c, 'l) gm \<Rightarrow> ('c, 'l) gm_result" where
  "SendNotice sv now ctx req s = as_gm sv ctx s (\<lambda>gmID.
     if nq_Title req = [] then (s, common 1002 zh_EmptyTitle)
     else if nq_Content req = [] then (s, common 1003 zh_EmptyContent)
     else
       (let n = length (nq_TargetUsers req);
            targetCount = (if n > 0 then int n else - 1);
            details = (if targetCount = - 1 then zh_DetNoticeAll @ nq_Title req @ zh_DetContent @ nq_Content req
              else zh_DetNoticeTo @ fmt_int targetCount @ zh_DetUsersTitle @ nq_Title req @ zh_DetContent @ nq_Content req);
            msg = (if targetCount = - 1 then zh_NoticeAllDone else zh_NoticeDone @ fmt_int targetCount)
        in (log_action sv now gmID ''send_notice'' 0 details s,
            common_data msg (''{'' @ quoted ''target_count'' @ '':'' @ fmt_int targetCount @ '','' @
              quoted ''title'' @ '':'' @ quoted (nq_Title req) @ ''}''))))"

definition ReloadConfig :: "('c, 'l) gm_server \<Rightarrow> ctx_value option \<Rightarrow> base_request \<Rightarrow> ('c, 'l) gm \<Rightarrow> ('c, 'l) gm \<times> base_response" where
  "ReloadConfig sv ctx req s =
     (case authorizeGM sv ctx of
        Inl resp \<Rightarrow> (s, reply req (cr_Code resp) (cr_Message resp))
      | Inr gmID \<Rightarrow> (s\<lparr>gm_broadcasts := gm_broadcasts s @ [''reload_config'']\<rparr>, reply req 0 ''config reload requested''))"

subsection \<open>Calls of the service\<close>

datatype gm_call =
    GmCommand command_request | GmKick kick_request | GmBan ban_request | GmUnban u64 | GmNotice notice_request
  | GmReload base_request

fun gm_step :: "('c, 'l) gm_server \<Rightarrow> time \<Rightarrow> ctx_value option \<Rightarrow> gm_call \<Rightarrow> ('c, 'l) gm \<Rightarrow> (('c, 'l) gm \<times> int) outcome" where
  "gm_step sv now ctx (GmCommand req) s = map_outcome (apsnd cr_Code) (ExecuteCommand sv now ctx req s)"
| "gm_step sv now ctx (GmKick req) s = map_outcome (apsnd cr_Code) (KickUser sv now ctx req s)"
| "gm_step sv now ctx (GmBan req) s = map_outcome (apsnd cr_Code) (BanUser sv now ctx req s)"
| "gm_step sv now ctx (GmUnban target) s = map_outcome (apsnd cr_Code) (UnbanUser sv now ctx target s)"
| "gm_step sv now ctx (GmNotice req) s = map_outcome (apsnd cr_Code) (SendNotice sv now ctx req s)"
| "gm_step sv now ctx (GmReload req) s = Ret (apsnd bp_Code (ReloadConfig sv ctx req s))"

definition is_admin :: "('c, 'l) gm_server \<Rightarrow> ctx_value option \<Rightarrow> bool" where
  "is_admin sv ctx \<longleftrightarrow> (case contextUserID ctx of (u, ok) \<Rightarrow> ok \<and> u \<noteq> 0 \<and> u \<in> set (gs_adminUserIDs sv))"

lemma as_gm_cases:
  assumes "as_gm sv ctx s body = Ret (s', resp)"
  obtains (refused) "s' = s" "cr_Code resp \<in> {1001, 1004}" "\<not> is_admin sv ctx"
  | (run) gmID where "ctx = Some (CtxUint64 gmID)" "gmID \<noteq> 0" "gmID \<in> set (gs_adminUserIDs sv)" "body gmID = (s', resp)"
  using assms
  by (auto simp: as_gm_def gm_caller_def authorizeGMUser_def is_admin_def contextUserID_def common_def
      split: option.splits ctx_value.splits if_splits)

lemma run_is_admin: "u \<noteq> 0 \<Longrightarrow> u \<in> set (gs_adminUserIDs sv) \<Longrightarrow> is_admin sv (Some (CtxUint64 u))"
  by (simp add: is_admin_def contextUserID_def)

lemma map_outcome_Ret: "map_outcome f x = Ret y \<longleftrightarrow> (\<exists>z. x = Ret z \<and> y = f z)"
  by (cases x) auto

text \<open>Every handler but \<^verbatim>\<open>ReloadConfig\<close> is guarded the same way.\<close>

lemma gm_step_guarded:
  assumes "gm_step sv now ctx call s = Ret (s', code)" and "\<forall>req. call \<noteq> GmReload req"
  obtains body resp where "as_gm sv ctx s body = Ret (s', resp)" "code = cr_Code resp"
  using assms
  by (cases call) (fastforce simp: map_outcome_Ret apsnd_eq ExecuteCommand_def KickUser_def BanUser_def UnbanUser_def SendNotice_def)+

text \<open>
  C24: Only administrators get through. Whatever handler of the GM service is called, unless the
  context carries a non-zero user identifier from the configured list the state does not change, and
  the answer, if the handler returns one, is the code 1001 or 1004.
\<close>

theorem gm_needs_admin:
  assumes "gm_step sv now ctx call s = Ret (s', code)" and "\<not> is_admin sv ctx"
  shows "s' = s \<and> code \<in> {1001, 1004}"
proof (cases "\<exists>req. call = GmReload req")
  case True
  with assms show ?thesis
    by (auto simp: ReloadConfig_def authorizeGM_def is_admin_def common_def split: if_splits prod.splits)
next
  case False
  with assms(1) obtain body resp where b: "as_gm sv ctx s body = Ret (s', resp)" "code = cr_Code resp"
    by (auto elim: gm_step_guarded)
  from b(1) show ?thesis
    by (cases rule: as_gm_cases) (use b(2) assms(2) run_is_admin in auto)
qed

subsection \<open>At most one active ban\<close>

definition one_active :: "ban list \<Rightarrow> bool" where
  "one_active bs \<longleftrightarrow> (\<forall>uid. length (filter (active uid) bs) \<le> 1)"

text \<open>What a handler can do to the ban records.\<close>

definition ban_step :: "ban list \<Rightarrow> ban list \<Rightarrow> bool" where
  "ban_step bs bs' \<longleftrightarrow> bs' = bs \<or>
     (\<exists>now uid gm reason dur. (\<forall>b \<in> set bs. \<not> active uid b) \<and> ban_added now uid gm reason dur bs bs') \<or>
     (\<exists>now uid. one_deactivated now uid bs bs')"

lemma ban_step_refl [simp]: "ban_step bs bs"
  by (simp add: ban_step_def)

lemma active_deactivate [simp]: "\<not> active uid (deactivate now b)"
  by (simp add: active_def deactivate_def)

lemma active_new [simp]: "active u (stored_ban ((new_ban now uid gm reason dur)\<lparr>bn_ID := i\<rparr>)) \<longleftrightarrow> u = uid"
  by (auto simp: active_def stored_ban_def new_ban_def)

lemma one_active_added:
  assumes "one_active bs" and none: "\<forall>b \<in> set bs. \<not> active uid b" and "ban_added now uid gm reason dur bs bs'"
  shows "one_active bs'"
proof -
  have "filter (active uid) bs = []" using none by (simp add: filter_empty_conv)
  then show ?thesis using assms(1,3) by (auto simp: one_active_def ban_added_def)
qed

lemma one_active_deactivated: "one_active bs \<Longrightarrow> one_deactivated now uid bs bs' \<Longrightarrow> one_active bs'"
proof -
  assume o: "one_active bs" and "one_deactivated now uid bs bs'"
  then obtain pre b post where s: "bs = pre @ b # post" "bs' = pre @ deactivate now b # post" unfolding one_deactivated_def by blast
  have "length (filter (active u) bs') \<le> length (filter (active u) bs)" for u by (simp add: s)
  with o show "one_active bs'" unfolding one_active_def using le_trans by blast
qed

lemma one_active_step: "one_active bs \<Longrightarrow> ban_step bs bs' \<Longrightarrow> one_active bs'"
  unfolding ban_step_def using one_active_added one_active_deactivated by blast

lemma deactivated_none:
  assumes "one_active bs" and "one_deactivated now uid bs bs'"
  shows "\<forall>b \<in> set bs'. \<not> active uid b"
proof -
  from assms(2) obtain pre b post where s: "bs = pre @ b # post" "bs' = pre @ deactivate now b # post" "active uid b"
    unfolding one_deactivated_def by blast
  have "length (filter (active uid) bs) \<le> 1" using assms(1) by (simp add: one_active_def)
  with s have "filter (active uid) pre = []" "filter (active uid) post = []" by auto
  with s(2) show ?thesis by (auto simp: filter_empty_conv)
qed

lemma log_action_bans [simp]: "gm_bans (log_action sv now g a u d s) = gm_bans s"
  by (simp add: log_action_def)

locale gm_service = store: ban_store "gs_gmRepo sv" bans ok
  for sv :: "('c, 'l) gm_server" and bans ok
begin

lemma ban_effect: "ok c \<Longrightarrow> gr_BanUser (gs_gmRepo sv) now uid gm reason dur c = (c', e) \<Longrightarrow> ok c' \<and> ban_step (bans c) (bans c')"
  using store.ban [of c now uid gm reason dur c' e] unfolding ban_step_def by (metis (no_types, lifting))

lemma unban_effect: "ok c \<Longrightarrow> gr_UnbanUser (gs_gmRepo sv) now uid c = (c', e) \<Longrightarrow> ok c' \<and> ban_step (bans c) (bans c')"
  using store.unban unfolding ban_step_def by blast

lemma check_same: "ok c \<Longrightarrow> gr_IsUserBanned (gs_gmRepo sv) now uid c = (c', r) \<Longrightarrow> ok c' \<and> bans c' = bans c"
  using store.is_banned by blast

lemma command_effect:
  assumes "ok c" and "executeGMCommand sv now gm w args c = (c', r)"
  shows "ok c' \<and> ban_step (bans c) (bans c')"
proof -
  have same: "ok c \<and> ban_step (bans c) (bans c)" using assms(1) by (simp add: ban_step_def)
  have b: "cmd_ban sv now gm args c = (c1, r1) \<Longrightarrow> ok c1 \<and> ban_step (bans c) (bans c1)" for c1 r1
    using same assms(1) by (auto simp: cmd_ban_def Let_def split: if_splits option.splits prod.splits dest!: ban_effect [OF assms(1)])
  have u: "cmd_unban sv now args c = (c1, r1) \<Longrightarrow> ok c1 \<and> ban_step (bans c) (bans c1)" for c1 r1
    using same by (auto simp: cmd_unban_def split: if_splits option.splits prod.splits dest!: unban_effect [OF assms(1)])
  show ?thesis
    using assms(2) same b u by (auto simp: executeGMCommand_def Let_def split: if_splits)
qed

lemma ban_handler:
  assumes "ok (gm_bans s)" and "BanUser sv now ctx req s = Ret (s', resp)"
  shows "ok (gm_bans s') \<and> ban_step (bans (gm_bans s)) (bans (gm_bans s')) \<and>
    (cr_Code resp = 0 \<longrightarrow> (\<exists>gm reason. (\<forall>b \<in> set (bans (gm_bans s)). \<not> active (bq_TargetUserId req) b) \<and>
       ban_added now (bq_TargetUserId req) gm reason (ban_duration (bq_Duration req)) (bans (gm_bans s)) (bans (gm_bans s'))))"
  using assms(2) unfolding BanUser_def
proof (cases rule: as_gm_cases)
  case refused
  with assms(1) show ?thesis by (auto simp: ban_step_def)
next
  case (run gmID)
  let ?t = "bq_TargetUserId req" and ?d = "ban_duration (bq_Duration req)"
  define r where "r = (if bq_Reason req = [] then zh_RuleViolation else bq_Reason req)"
  obtain c1 x where k: "gr_IsUserBanned (gs_gmRepo sv) now ?t (gm_bans s) = (c1, x)" by fastforce
  note c1 = check_same [OF assms(1) k]
  obtain c2 e where b: "gr_BanUser (gs_gmRepo sv) now ?t gmID r ?d c1 = (c2, e)" by fastforce
  have ok1: "ok c1" using c1 by simp
  note c2 = ban_effect [OF ok1 b] store.ban [OF ok1 b]
  consider "s' = s" "cr_Code resp \<noteq> 0" | "s' = s\<lparr>gm_bans := c1\<rparr>" "cr_Code resp \<noteq> 0" | "gm_bans s' = c2" "cr_Code resp = 0 \<longrightarrow> e = None"
    using run(4) [unfolded Let_def, folded r_def] by (auto simp: k b common_def split: if_splits sum.splits option.splits)
  then show ?thesis
  proof cases
    case 3
    with c1 c2 show ?thesis by (cases "\<exists>b \<in> set (bans c1). active ?t b") auto
  qed (use assms(1) c1 in \<open>auto simp: ban_step_def\<close>)
qed

lemma unban_handler:
  assumes "ok (gm_bans s)" and "UnbanUser sv now ctx target s = Ret (s', resp)"
  shows "ok (gm_bans s') \<and> ban_step (bans (gm_bans s)) (bans (gm_bans s')) \<and>
    (cr_Code resp = 0 \<longrightarrow> one_deactivated now target (bans (gm_bans s)) (bans (gm_bans s')))"
  using assms(2) unfolding UnbanUser_def
proof (cases rule: as_gm_cases)
  case refused
  with assms(1) show ?thesis by (auto simp: ban_step_def)
next
  case (run gmID)
  obtain c1 x where k: "gr_IsUserBanned (gs_gmRepo sv) now target (gm_bans s) = (c1, x)" by fastforce
  note c1 = check_same [OF assms(1) k]
  obtain c2 e where b: "gr_UnbanUser (gs_gmRepo sv) now target c1 = (c2, e)" by fastforce
  have ok1: "ok c1" using c1 by simp
  note c2 = unban_effect [OF ok1 b] store.unban [OF ok1 b]
  consider "s' = s" "cr_Code resp \<noteq> 0" | "s' = s\<lparr>gm_bans := c1\<rparr>" "cr_Code resp \<noteq> 0" | "gm_bans s' = c2" "cr_Code resp = 0 \<longrightarrow> e = None"
    using run(4) by (auto simp: Let_def k b common_def split: if_splits sum.splits option.splits)
  then show ?thesis
  proof cases
    case 3
    with c1 c2 show ?thesis by auto
  qed (use assms(1) c1 in \<open>auto simp: ban_step_def\<close>)
qed

lemma gm_step_bans:
  assumes "ok (gm_bans s)" and "gm_step sv now ctx call s = Ret (s', code)"
  shows "ok (gm_bans s') \<and> ban_step (bans (gm_bans s)) (bans (gm_bans s'))"
proof (cases call)
  case (GmCommand req)
  then obtain resp where "ExecuteCommand sv now ctx req s = Ret (s', resp)" using assms(2) by (auto simp: map_outcome_Ret apsnd_eq)
  then show ?thesis unfolding ExecuteCommand_def
  proof (cases rule: as_gm_cases)
    case (run gmID)
    obtain c r where x: "executeGMCommand sv now gmID (xq_Command req) (xq_Args req) (gm_bans s) = (c, r)" by fastforce
    from run(4) have "s' = s \<or> gm_bans s' = c" by (auto simp: x split: if_splits sum.splits)
    with command_effect [OF assms(1) x] assms(1) show ?thesis by auto
  qed (use assms(1) in \<open>auto simp: ban_step_def\<close>)
next
  case (GmKick req)
  then obtain resp where "KickUser sv now ctx req s = Ret (s', resp)" using assms(2) by (auto simp: map_outcome_Ret apsnd_eq)
  then show ?thesis unfolding KickUser_def
    by (cases rule: as_gm_cases) (use assms(1) in \<open>auto simp: ban_step_def Let_def split: if_splits\<close>)
next
  case (GmBan req)
  with assms ban_handler show ?thesis by (fastforce simp: map_outcome_Ret apsnd_eq)
next
  case (GmUnban target)
  with assms unban_handler show ?thesis by (fastforce simp: map_outcome_Ret apsnd_eq)
next
  case (GmNotice req)
  then obtain resp where "SendNotice sv now ctx req s = Ret (s', resp)" using assms(2) by (auto simp: map_outcome_Ret apsnd_eq)
  then show ?thesis unfolding SendNotice_def
    by (cases rule: as_gm_cases) (use assms(1) in \<open>auto simp: ban_step_def Let_def split: if_splits\<close>)
next
  case (GmReload req)
  with assms show ?thesis by (auto simp: ReloadConfig_def ban_step_def split: sum.splits)
qed

end

text \<open>A run of calls, each with its time and its context, up to a panic.\<close>

fun gm_run :: "('c, 'l) gm_server \<Rightarrow> (time \<times> ctx_value option \<times> gm_call) list \<Rightarrow> ('c, 'l) gm \<Rightarrow> ('c, 'l) gm outcome" where
  "gm_run sv [] s = Ret s"
| "gm_run sv ((now, ctx, call) # calls) s = (case gm_step sv now ctx call s of Panic \<Rightarrow> Panic | Ret (s', _) \<Rightarrow> gm_run sv calls s')"

context gm_service
begin

lemma gm_run_bans:
  "ok (gm_bans s) \<Longrightarrow> one_active (bans (gm_bans s)) \<Longrightarrow> gm_run sv calls s = Ret s' \<Longrightarrow>
   ok (gm_bans s') \<and> one_active (bans (gm_bans s'))"
proof (induction calls arbitrary: s)
  case Nil
  then show ?case by simp
next
  case (Cons x calls)
  obtain now ctx call where x: "x = (now, ctx, call)" by (cases x)
  with Cons.prems(3) obtain s1 code where s: "gm_step sv now ctx call s = Ret (s1, code)" "gm_run sv calls s1 = Ret s'"
    by (auto split: outcome.splits prod.splits)
  from gm_step_bans [OF Cons.prems(1) s(1)] Cons.IH [OF _ _ s(2)] one_active_step [OF Cons.prems(2)] show ?case by blast
qed

end

subsection \<open>The service on MongoDB\<close>

definition gm_on :: "'c mongo_ops \<Rightarrow> ('c, 'l) gm_server \<Rightarrow> bool" where
  "gm_on bops sv \<longleftrightarrow> gs_gmRepo sv = NewGMRepository bops"

lemma gm_on_mongo:
  "mongo_collection bops bdocs bvalid \<Longrightarrow> gm_on bops sv \<Longrightarrow> gm_service sv (bans_in bdocs) (bans_valid bdocs bvalid)"
  using mongo_collection.ban_store_law [of bops bdocs bvalid] by (simp add: gm_service_def gm_on_def)

definition ban_end :: "time \<Rightarrow> u32 \<Rightarrow> time" where
  "ban_end now dur = trunc_ms (if dur = 0 then forever else now + uint dur * second)"

lemma in_force_added:
  "ban_added now uid gm reason dur bs bs' \<Longrightarrow>
     (\<exists>b \<in> set bs'. in_force later u b) \<longleftrightarrow> (\<exists>b \<in> set bs. in_force later u b) \<or> u = uid \<and> trunc_ms later < ban_end now dur"
  by (auto simp: ban_added_def in_force_def) (auto simp: stored_ban_def new_ban_def ban_end_def)

text \<open>A service on collections in memory, with one administrator, for the witnesses.\<close>

definition demo_gm :: "(mem_coll, mem_coll) gm_server" where
  "demo_gm = NewGMService (mem_ops []) (mem_ops []) (\<lambda>_. []) [1] [] (\<lambda>_. [])"

definition gm_start :: "(mem_coll, mem_coll) gm" where
  "gm_start = \<lparr>gm_bans = \<lparr>mc_docs = [], mc_next = 0\<rparr>, gm_logs = \<lparr>mc_docs = [], mc_next = 0\<rparr>, gm_broadcasts = []\<rparr>"

definition gm_ban_req :: ban_request where
  "gm_ban_req = \<lparr>bq_TargetUserId = 7, bq_Reason = ''x'', bq_Duration = 5\<rparr>"

abbreviation "gm_ctx \<equiv> Some (CtxUint64 1)"

definition gm_state :: "(('c, 'l) gm \<times> 'a) outcome \<Rightarrow> ('c, 'l) gm \<Rightarrow> ('c, 'l) gm" where
  "gm_state x s = (case x of Panic \<Rightarrow> s | Ret (s', _) \<Rightarrow> s')"

definition gm_code :: "(('c, 'l) gm \<times> common_response) outcome \<Rightarrow> int" where
  "gm_code x = (case x of Panic \<Rightarrow> - 1 | Ret (_, r) \<Rightarrow> cr_Code r)"

lemma gm_code_Ret: "gm_code x = c \<Longrightarrow> c \<noteq> - 1 \<Longrightarrow> \<exists>r. x = Ret (gm_state x s, r) \<and> cr_Code r = c"
  by (cases x) (auto simp: gm_code_def gm_state_def split: prod.splits)

lemma run_ban:
  "BanUser sv now ctx req s = Ret (s', r) \<Longrightarrow> gm_run sv [(now, ctx, GmBan req)] s = Ret s'"
  by simp

lemma demo_gm_on: "gm_on (mem_ops []) demo_gm"
  by (simp add: gm_on_def demo_gm_def NewGMService_def)

interpretation mem_gm: gm_service demo_gm "bans_in mc_docs" "bans_valid mc_docs (\<lambda>c. uniques [] (mc_docs c))"
  by (rule gm_on_mongo [OF mem.mongo_collection_axioms demo_gm_on])

lemma gm_start_ok: "bans_valid mc_docs (\<lambda>c. uniques [] (mc_docs c)) (gm_bans gm_start)" "bans_in mc_docs (gm_bans gm_start) = []"
  by (simp_all add: bans_valid_def uniques_def ban_rows_ok_def gm_start_def bans_in_def)

definition "gm_banned = BanUser demo_gm unix_epoch gm_ctx gm_ban_req gm_start"

subsection \<open>Properties\<close>

lemma gm_needs_admin_witness:
  "gm_step demo_gm unix_epoch (Some (CtxUint64 2)) (GmBan gm_ban_req) gm_start = Ret (gm_start, 1004)"
proof -
  have n: "\<not> is_admin demo_gm (Some (CtxUint64 2))" by code_simp
  have "gm_code (BanUser demo_gm unix_epoch (Some (CtxUint64 2)) gm_ban_req gm_start) = 1004" by code_simp
  from gm_code_Ret [OF this, of gm_start] obtain s' where
    s: "gm_step demo_gm unix_epoch (Some (CtxUint64 2)) (GmBan gm_ban_req) gm_start = Ret (s', 1004)"
    by (auto simp: map_outcome_Ret)
  with gm_needs_admin [OF s n] show ?thesis by simp
qed

text \<open>
  C25: A ban lasts as long as asked. When \<^verbatim>\<open>BanUser\<close> answers 0, then from that state on a ban of the
  target is in force exactly until its end, the duration after the call in milliseconds (24 hours for
  duration 0), and nobody else's bans have changed.
\<close>

theorem ban_lasts:
  assumes "mongo_collection bops bdocs bvalid" and "gm_on bops sv" and "bans_valid bdocs bvalid (gm_bans s)"
    and "BanUser sv now ctx req s = Ret (s', resp)" and "cr_Code resp = 0"
  shows "(\<exists>b \<in> set (bans_in bdocs (gm_bans s')). in_force later uid b) \<longleftrightarrow>
    (if uid = bq_TargetUserId req then trunc_ms later < ban_end now (ban_duration (bq_Duration req))
     else \<exists>b \<in> set (bans_in bdocs (gm_bans s)). in_force later uid b)"
proof -
  from gm_service.ban_handler [OF gm_on_mongo [OF assms(1,2)] assms(3,4)] assms(5)
  obtain gm reason where none: "\<forall>b \<in> set (bans_in bdocs (gm_bans s)). \<not> active (bq_TargetUserId req) b"
    and added: "ban_added now (bq_TargetUserId req) gm reason (ban_duration (bq_Duration req)) (bans_in bdocs (gm_bans s)) (bans_in bdocs (gm_bans s'))"
    by blast
  show ?thesis unfolding in_force_added [OF added] using none by (auto simp: in_force_def)
qed

lemma ban_lasts_witness:
  "(\<exists>b \<in> set (bans_in mc_docs (gm_bans (gm_state gm_banned gm_start))). in_force unix_epoch 7 b) \<and>
   \<not> (\<exists>b \<in> set (bans_in mc_docs (gm_bans (gm_state gm_banned gm_start))). in_force (unix_epoch + 5 * second) 7 b)"
proof -
  have "gm_code gm_banned = 0" by code_simp
  from gm_code_Ret [OF this, of gm_start] obtain r where
    r: "BanUser demo_gm unix_epoch gm_ctx gm_ban_req gm_start = Ret (gm_state gm_banned gm_start, r)" "cr_Code r = 0"
    by (auto simp: gm_banned_def)
  have "trunc_ms unix_epoch < ban_end unix_epoch (ban_duration (bq_Duration gm_ban_req))"
    "\<not> trunc_ms (unix_epoch + 5 * second) < ban_end unix_epoch (ban_duration (bq_Duration gm_ban_req))"
    by (simp_all add: ban_end_def ban_duration_def gm_ban_req_def trunc_ms_def millisecond_def second_def)
  with ban_lasts [OF mem.mongo_collection_axioms demo_gm_on gm_start_ok(1) r, of _ 7] show ?thesis
    by (simp add: gm_ban_req_def)
qed

text \<open>
  In every run of the service that starts without bans each user has at most one active ban record,
  so when \<^verbatim>\<open>UnbanUser\<close> answers 0 no ban of the target is in force at any time.
\<close>

theorem unban_lifts:
  assumes "mongo_collection bops bdocs bvalid" and "gm_on bops sv" and "bans_valid bdocs bvalid (gm_bans s0)"
    and "bans_in bdocs (gm_bans s0) = []" and "gm_run sv calls s0 = Ret s"
  shows "one_active (bans_in bdocs (gm_bans s)) \<and>
    (\<forall>now ctx target s' resp later. UnbanUser sv now ctx target s = Ret (s', resp) \<longrightarrow> cr_Code resp = 0 \<longrightarrow>
       (\<forall>b \<in> set (bans_in bdocs (gm_bans s')). \<not> in_force later target b))"
proof -
  note svc = gm_on_mongo [OF assms(1,2)]
  have "one_active (bans_in bdocs (gm_bans s0))" using assms(4) by (simp add: one_active_def)
  note s = gm_service.gm_run_bans [OF svc assms(3) this assms(5)]
  have "\<forall>b \<in> set (bans_in bdocs (gm_bans s')). \<not> in_force later target b"
    if "UnbanUser sv now ctx target s = Ret (s', resp)" "cr_Code resp = 0" for now ctx target s' resp later
    using gm_service.unban_handler [OF svc conjunct1 [OF s] that(1)] that(2) deactivated_none [OF conjunct2 [OF s]]
    by (auto simp: in_force_def)
  with s show ?thesis by blast
qed

definition "gm_unbanned = UnbanUser demo_gm unix_epoch gm_ctx 7 (gm_state gm_banned gm_start)"

lemma unban_lifts_witness:
  "gm_code gm_unbanned = 0 \<and> filter (in_force unix_epoch 7) (bans_in mc_docs (gm_bans (gm_state gm_unbanned gm_start))) = []"
proof -
  have "gm_code gm_banned = 0" by code_simp
  from gm_code_Ret [OF this, of gm_start] obtain r0 where
    r0: "BanUser demo_gm unix_epoch gm_ctx gm_ban_req gm_start = Ret (gm_state gm_banned gm_start, r0)"
    by (auto simp: gm_banned_def)
  note run = run_ban [OF r0]
  have c: "gm_code gm_unbanned = 0" by code_simp
  from gm_code_Ret [OF this, of gm_start] obtain r where
    "UnbanUser demo_gm unix_epoch gm_ctx 7 (gm_state gm_banned gm_start) = Ret (gm_state gm_unbanned gm_start, r)" "cr_Code r = 0"
    by (auto simp: gm_unbanned_def)
  with unban_lifts [OF mem.mongo_collection_axioms demo_gm_on gm_start_ok run] c show ?thesis
    by (simp add: filter_empty_conv)
qed

text \<open>
  A ban that has run out stands in the way of a new one. The repository refuses to ban a user with
  an active record even after its end, and nothing in the sources calls \<^verbatim>\<open>CleanExpiredBans\<close>: so
  \<^verbatim>\<open>BanUser\<close> by an administrator fails with code 1005 or 1007 and the user stays free.
\<close>

theorem expired_ban_blocks:
  assumes "mongo_collection bops bdocs bvalid" and "gm_on bops sv" and "bans_valid bdocs bvalid (gm_bans s)"
    and "b \<in> set (bans_in bdocs (gm_bans s))" and "active (bq_TargetUserId req) b"
    and "\<forall>b \<in> set (bans_in bdocs (gm_bans s)). \<not> in_force now (bq_TargetUserId req) b"
    and "gm \<noteq> 0" and "gm \<in> set (gs_adminUserIDs sv)" and "bq_TargetUserId req \<notin> {0, gm}"
    and "BanUser sv now (Some (CtxUint64 gm)) req s = Ret (s', resp)"
  shows "cr_Code resp \<in> {1005, 1007} \<and> bans_in bdocs (gm_bans s') = bans_in bdocs (gm_bans s)"
proof -
  note store = mongo_collection.ban_store_law [OF assms(1)]
  have sv: "gs_gmRepo sv = NewGMRepository bops" using assms(2) by (simp add: gm_on_def)
  let ?t = "bq_TargetUserId req" and ?d = "ban_duration (bq_Duration req)"
  define r where "r = (if bq_Reason req = [] then zh_RuleViolation else bq_Reason req)"
  obtain c1 x where k: "gr_IsUserBanned (gs_gmRepo sv) now ?t (gm_bans s) = (c1, x)" by fastforce
  note c1 = ban_store.is_banned [OF store assms(3) k [unfolded sv]]
  obtain c2 e where b: "gr_BanUser (gs_gmRepo sv) now ?t gm r ?d c1 = (c2, e)" by fastforce
  have ok1: "bans_valid bdocs bvalid c1" using c1 by simp
  note c2 = ban_store.ban [OF store ok1 b [unfolded sv]]
  have "\<exists>b \<in> set (bans_in bdocs c1). active ?t b" using c1 assms(4,5) by auto
  with c2 have e: "e \<noteq> None" "bans_in bdocs c2 = bans_in bdocs c1" by auto
  have x: "\<forall>y. x \<noteq> Inr (Some y)" using c1 assms(6) by auto
  have body: "as_gm sv (Some (CtxUint64 gm)) s f = Ret (f gm)" for f
    using assms(7,8) by (simp add: as_gm_def gm_caller_def authorizeGMUser_def)
  from assms(10) [unfolded BanUser_def body Let_def, folded r_def] assms(9) x e(1)
  have "gm_bans s' = c1 \<and> cr_Code resp = 1005 \<or> gm_bans s' = c2 \<and> cr_Code resp = 1007"
    by (auto simp: k b common_def split: sum.splits option.splits)
  with c1 e(2) show ?thesis by auto
qed

lemma expired_ban_blocks_witness:
  "gm_code (BanUser demo_gm (unix_epoch + 6 * second) gm_ctx gm_ban_req (gm_state gm_banned gm_start)) \<in> {1005, 1007}"
proof -
  let ?s = "gm_state gm_banned gm_start" and ?now = "unix_epoch + 6 * second"
  have "gm_code gm_banned = 0" by code_simp
  from gm_code_Ret [OF this, of gm_start] obtain r0 where
    r0: "BanUser demo_gm unix_epoch gm_ctx gm_ban_req gm_start = Ret (?s, r0)"
    by (auto simp: gm_banned_def)
  have ok: "bans_valid mc_docs (\<lambda>c. uniques [] (mc_docs c)) (gm_bans ?s)"
    using mem_gm.ban_handler [OF gm_start_ok(1) r0] by simp
  have "\<exists>b \<in> set (bans_in mc_docs (gm_bans ?s)). active 7 b" by code_simp
  then obtain b where b: "b \<in> set (bans_in mc_docs (gm_bans ?s))" "active (bq_TargetUserId gm_ban_req) b"
    by (auto simp: gm_ban_req_def)
  have "\<forall>b \<in> set (bans_in mc_docs (gm_bans ?s)). \<not> in_force ?now 7 b" by code_simp
  then have free: "\<forall>b \<in> set (bans_in mc_docs (gm_bans ?s)). \<not> in_force ?now (bq_TargetUserId gm_ban_req) b"
    by (simp add: gm_ban_req_def)
  have adm: "1 \<in> set (gs_adminUserIDs demo_gm)" "bq_TargetUserId gm_ban_req \<notin> {0, 1}" by (code_simp, code_simp)
  have "BanUser demo_gm ?now (Some (CtxUint64 1)) gm_ban_req ?s \<noteq> Panic"
    using adm(1) by (simp add: BanUser_def as_gm_def gm_caller_def authorizeGMUser_def)
  then obtain s' resp where x: "BanUser demo_gm ?now (Some (CtxUint64 1)) gm_ban_req ?s = Ret (s', resp)"
    by (cases "BanUser demo_gm ?now (Some (CtxUint64 1)) gm_ban_req ?s") auto
  from expired_ban_blocks [OF mem.mongo_collection_axioms demo_gm_on ok b free _ adm x] show ?thesis
    by (auto simp: gm_code_def x)
qed

end
