(* ===== verification/Discovery.thy ===== *)
theory Discovery
  imports GoStd "HOL-Library.AList" "HOL-Library.Multiset"
begin

text \<open>
  \<^verbatim>\<open>internal/discovery/etcd.go\<close>: the service registry over etcd, the two load balancers and the cached service
  discovery. The etcd client is a parameter, the record \<open>etcd_ops\<close>; the locale \<open>etcd_store\<close> states the
  documented effect of its calls on the keys, each with a value and the lease it is attached to, and a
  store in memory interprets it. The JSON form of a service is a parameter. The lock of the registry is
  part of its state: a call that waits for it for ever has no result. A registered service belongs to the
  registry: the caller does not change it through the pointer it passed. Logging and the health check, which
  only logs, are left out.
\<close>

subsection \<open>etcd\<close>

record 'e etcd_ops =
  et_Put :: "string \<Rightarrow> string \<Rightarrow> int \<Rightarrow> 'e \<Rightarrow> 'e \<times> string option"
  et_Delete :: "string \<Rightarrow> 'e \<Rightarrow> 'e \<times> string option"
  et_Get :: "string \<Rightarrow> 'e \<Rightarrow> 'e \<times> (string + (string \<times> string) list)"
  et_Grant :: "int \<Rightarrow> 'e \<Rightarrow> 'e \<times> (string + int)"
  et_KeepAlive :: "int \<Rightarrow> 'e \<Rightarrow> 'e \<times> string option"
  et_Revoke :: "int \<Rightarrow> 'e \<Rightarrow> 'e \<times> string option"
  et_Close :: "'e \<Rightarrow> 'e \<times> string option"

type_synonym keys = "string \<Rightarrow> (string \<times> int) option"

definition listed :: "keys \<Rightarrow> string \<Rightarrow> (string \<times> string) list \<Rightarrow> bool" where
  "listed kv p xs \<longleftrightarrow> distinct (map fst xs) \<and> (\<forall>k v. (k, v) \<in> set xs \<longleftrightarrow> has_prefix k p \<and> (\<exists>l. kv k = Some (v, l)))"

text \<open>When a lease runs out or is revoked its keys are deleted.\<close>

definition lease_expired :: "int \<Rightarrow> keys \<Rightarrow> keys" where
  "lease_expired l kv = (\<lambda>k. case kv k of Some (v, l') \<Rightarrow> if l' = l then None else Some (v, l') | None \<Rightarrow> None)"

text \<open>After an error the effect of a call may or may not have happened.\<close>

locale etcd_store =
  fixes ops :: "'e etcd_ops" and kvs :: "'e \<Rightarrow> keys"
  assumes put: "et_Put ops k v l e = (e', r1) \<Longrightarrow> kvs e' = (kvs e)(k \<mapsto> (v, l)) \<or> r1 \<noteq> None \<and> kvs e' = kvs e"
    and delete: "et_Delete ops k e = (e', r2) \<Longrightarrow> kvs e' = (kvs e)(k := None) \<or> r2 \<noteq> None \<and> kvs e' = kvs e"
    and get: "et_Get ops p e = (e', r3) \<Longrightarrow> kvs e' = kvs e \<and> (\<forall>xs. r3 = Inr xs \<longrightarrow> listed (kvs e) p xs)"
    and grant: "et_Grant ops ttl e = (e', r4) \<Longrightarrow> kvs e' = kvs e \<and> (\<forall>l. r4 = Inr l \<longrightarrow> (\<forall>k v. kvs e k \<noteq> Some (v, l)))"
    and keep_alive: "et_KeepAlive ops l e = (e', r5) \<Longrightarrow> kvs e' = kvs e"
    and revoke: "et_Revoke ops l e = (e', r6) \<Longrightarrow> kvs e' = lease_expired l (kvs e) \<or> r6 \<noteq> None \<and> kvs e' = kvs e"
    and close: "et_Close ops e = (e', r7) \<Longrightarrow> kvs e' = kvs e"

subsection \<open>The registry\<close>

record service_info =
  si_NodeID :: string
  si_NodeType :: string
  si_Address :: string
  si_Port :: int
  si_Load :: int
  si_Status :: string
  si_Metadata :: "(string \<times> string) list"
  si_UpdateTime :: int

record 'e registry_deps =
  rd_etcd :: "'e etcd_ops"
  rd_marshal :: "service_info \<Rightarrow> string + string"
  rd_unmarshal :: "string \<Rightarrow> string + service_info"

record 'e registry =
  rg_etcd :: 'e
  rg_leaseID :: int
  rg_locked :: bool
  rg_services :: "string \<Rightarrow> service_info option"
  rg_watchers :: "string \<Rightarrow> nat list"
  rg_keyPrefix :: string

definition service_key :: "'e registry \<Rightarrow> string \<Rightarrow> string \<Rightarrow> string" where
  "service_key s nodeType nodeID = rg_keyPrefix s @ nodeType @ ''/'' @ nodeID"

definition createLease :: "'e registry_deps \<Rightarrow> 'e registry \<Rightarrow> 'e registry \<times> string option" where
  "createLease deps s =
     (case et_Grant (rd_etcd deps) 30 (rg_etcd s) of
        (e1, Inl err) \<Rightarrow> (s\<lparr>rg_etcd := e1\<rparr>, Some (''failed to create lease: '' @ err))
      | (e1, Inr lease) \<Rightarrow>
          (let (e2, r) = et_KeepAlive (rd_etcd deps) lease e1
           in (s\<lparr>rg_etcd := e2, rg_leaseID := lease\<rparr>, map_option (\<lambda>err. ''failed to keep lease alive: '' @ err) r)))"

text \<open>
  The configuration of the client. The environment, the key pairs and the files are parameters; so is the
  parser of certificates.
\<close>

record etcd_config =
  ec_Endpoints :: "string list"
  ec_DialTimeout :: int
  ec_Username :: string
  ec_Password :: string
  ec_PasswordEnv :: string
  ec_TLSEnabled :: bool
  ec_TLSCertFile :: string
  ec_TLSKeyFile :: string
  ec_TLSCAFile :: string
  ec_TLSInsecure :: bool
  ec_AutoSyncInterval :: int
  ec_DialKeepAliveTime :: int
  ec_DialKeepAliveTimeout :: int
  ec_MaxCallSendMsgSize :: int
  ec_MaxCallRecvMsgSize :: int

record ('cert, 'pool) tls_config =
  tc_InsecureSkipVerify :: bool
  tc_Certificates :: "'cert list"
  tc_RootCAs :: "'pool option"

record ('cert, 'pool) client_config =
  cc_Endpoints :: "string list"
  cc_DialTimeout :: int
  cc_AutoSyncInterval :: int
  cc_DialKeepAliveTime :: int
  cc_DialKeepAliveTimeout :: int
  cc_MaxCallSendMsgSize :: int
  cc_MaxCallRecvMsgSize :: int
  cc_Username :: string
  cc_Password :: string
  cc_TLS :: "('cert, 'pool) tls_config option"

record ('e, 'cert, 'pool) etcd_env =
  ev_Getenv :: "string \<Rightarrow> string"
  ev_LoadX509KeyPair :: "string \<Rightarrow> string \<Rightarrow> string + 'cert"
  ev_ReadFile :: "string \<Rightarrow> string + string"
  ev_AppendCertsFromPEM :: "string \<Rightarrow> 'pool option"
  ev_New :: "('cert, 'pool) client_config \<Rightarrow> string + 'e"

definition password :: "('e, 'cert, 'pool) etcd_env \<Rightarrow> etcd_config \<Rightarrow> string" where
  "password env c = (if ec_PasswordEnv c \<noteq> [] then ev_Getenv env (ec_PasswordEnv c) else ec_Password c)"

definition buildETCDTLSConfig :: "('e, 'cert, 'pool) etcd_env \<Rightarrow> etcd_config \<Rightarrow> string + ('cert, 'pool) tls_config" where
  "buildETCDTLSConfig env c =
     (case (if ec_TLSCertFile c \<noteq> [] \<and> ec_TLSKeyFile c \<noteq> []
            then map_sum (\<lambda>err. ''failed to load client cert: '' @ err) (\<lambda>cert. [cert]) (ev_LoadX509KeyPair env (ec_TLSCertFile c) (ec_TLSKeyFile c))
            else Inr []) of
        Inl err \<Rightarrow> Inl err
      | Inr certs \<Rightarrow>
          (let tls = \<lparr>tc_InsecureSkipVerify = ec_TLSInsecure c, tc_Certificates = certs, tc_RootCAs = None\<rparr>
           in if ec_TLSCAFile c = [] then Inr tls
              else case ev_ReadFile env (ec_TLSCAFile c) of
                Inl err \<Rightarrow> Inl (''failed to read CA cert: '' @ err)
              | Inr caCert \<Rightarrow>
                  (case ev_AppendCertsFromPEM env caCert of
                     None \<Rightarrow> Inl ''failed to parse CA cert''
                   | Some pool \<Rightarrow> Inr (tls\<lparr>tc_RootCAs := Some pool\<rparr>))))"

definition clientConfig :: "('e, 'cert, 'pool) etcd_env \<Rightarrow> etcd_config \<Rightarrow> string + ('cert, 'pool) client_config" where
  "clientConfig env c =
     (let pw = password env c; auth = (ec_Username c \<noteq> [] \<and> pw \<noteq> []);
          cc = \<lparr>cc_Endpoints = ec_Endpoints c, cc_DialTimeout = ec_DialTimeout c, cc_AutoSyncInterval = ec_AutoSyncInterval c,
            cc_DialKeepAliveTime = ec_DialKeepAliveTime c, cc_DialKeepAliveTimeout = ec_DialKeepAliveTimeout c,
            cc_MaxCallSendMsgSize = ec_MaxCallSendMsgSize c, cc_MaxCallRecvMsgSize = ec_MaxCallRecvMsgSize c,
            cc_Username = (if auth then ec_Username c else []), cc_Password = (if auth then pw else []), cc_TLS = None\<rparr>
      in if ec_TLSEnabled c
         then map_sum (\<lambda>err. ''failed to build TLS config: '' @ err) (\<lambda>tls. cc\<lparr>cc_TLS := Some tls\<rparr>) (buildETCDTLSConfig env c)
         else Inr cc)"

definition fresh_registry :: "'e \<Rightarrow> 'e registry" where
  "fresh_registry e = \<lparr>rg_etcd = e, rg_leaseID = 0, rg_locked = False, rg_services = Map.empty, rg_watchers = (\<lambda>_. []),
     rg_keyPrefix = ''/tribeway/services/''\<rparr>"

definition NewETCDRegistry :: "'e registry_deps \<Rightarrow> ('e, 'cert, 'pool) etcd_env \<Rightarrow> etcd_config \<Rightarrow> string + 'e registry" where
  "NewETCDRegistry deps env c =
     (case clientConfig env c of
        Inl err \<Rightarrow> Inl err
      | Inr cc \<Rightarrow>
          (case ev_New env cc of
             Inl err \<Rightarrow> Inl (''failed to create etcd client: '' @ err)
           | Inr e \<Rightarrow> (case createLease deps (fresh_registry e) of (s, None) \<Rightarrow> Inr s | (_, Some err) \<Rightarrow> Inl err)))"

text \<open>One turn of the loop: a message of the channel, or \<open>None\<close> when it is closed. A failed lease is tried again.\<close>

definition keepAlive_step :: "'e registry_deps \<Rightarrow> unit option \<Rightarrow> 'e registry \<Rightarrow> 'e registry" where
  "keepAlive_step deps msg s = (case msg of Some _ \<Rightarrow> s | None \<Rightarrow> fst (createLease deps s))"

text \<open>A result \<open>None\<close> is a call that waits for the lock for ever: its holder is the call itself or one that waits.\<close>

definition Register :: "'e registry_deps \<Rightarrow> time \<Rightarrow> service_info \<Rightarrow> 'e registry \<Rightarrow> 'e registry \<times> string option option" where
  "Register deps now info0 s =
     (if rg_locked s then (s, None)
      else
        let info = info0\<lparr>si_UpdateTime := time_unix now\<rparr> in
        case rd_marshal deps info of
          Inl err \<Rightarrow> (s, Some (Some (''failed to marshal service info: '' @ err)))
        | Inr data \<Rightarrow>
            (case et_Put (rd_etcd deps) (service_key s (si_NodeType info) (si_NodeID info)) data (rg_leaseID s) (rg_etcd s) of
               (e, Some err) \<Rightarrow> (s\<lparr>rg_etcd := e\<rparr>, Some (Some (''failed to register service: '' @ err)))
             | (e, None) \<Rightarrow> (s\<lparr>rg_etcd := e, rg_services := (rg_services s)(si_NodeID info \<mapsto> info)\<rparr>, Some None)))"

definition Unregister :: "'e registry_deps \<Rightarrow> string \<Rightarrow> 'e registry \<Rightarrow> 'e registry \<times> string option option" where
  "Unregister deps nodeID s =
     (if rg_locked s then (s, None)
      else case rg_services s nodeID of
        None \<Rightarrow> (s, Some (Some (''service '' @ nodeID @ '' not found'')))
      | Some info \<Rightarrow>
          (case et_Delete (rd_etcd deps) (service_key s (si_NodeType info) nodeID) (rg_etcd s) of
             (e, Some err) \<Rightarrow> (s\<lparr>rg_etcd := e\<rparr>, Some (Some (''failed to unregister service: '' @ err)))
           | (e, None) \<Rightarrow> (s\<lparr>rg_etcd := e, rg_services := (rg_services s)(nodeID := None)\<rparr>, Some None)))"

text \<open>\<^verbatim>\<open>UpdateLoad\<close> calls \<^verbatim>\<open>Register\<close> with the lock held, and gives it back when that returns.\<close>

definition UpdateLoad :: "'e registry_deps \<Rightarrow> time \<Rightarrow> string \<Rightarrow> int \<Rightarrow> 'e registry \<Rightarrow> 'e registry \<times> string option option" where
  "UpdateLoad deps now nodeID load s =
     (if rg_locked s then (s, None)
      else case rg_services s nodeID of
        None \<Rightarrow> (s, Some (Some (''service '' @ nodeID @ '' not found'')))
      | Some info0 \<Rightarrow>
          (let info = info0\<lparr>si_Load := load, si_UpdateTime := time_unix now\<rparr>
           in case Register deps now info (s\<lparr>rg_locked := True, rg_services := (rg_services s)(nodeID \<mapsto> info)\<rparr>) of
                (s1, None) \<Rightarrow> (s1, None)
              | (s1, Some r) \<Rightarrow> (s1\<lparr>rg_locked := False\<rparr>, Some r)))"

text \<open>Documents that do not decode are skipped. \<^verbatim>\<open>GetServices\<close> takes no lock.\<close>

definition decoded :: "'e registry_deps \<Rightarrow> (string \<times> string) list \<Rightarrow> service_info list" where
  "decoded deps kvs = concat (map (\<lambda>kv. case rd_unmarshal deps (snd kv) of Inl _ \<Rightarrow> [] | Inr info \<Rightarrow> [info]) kvs)"

definition GetServices :: "'e registry_deps \<Rightarrow> string \<Rightarrow> 'e registry \<Rightarrow> 'e registry \<times> (string + service_info list)" where
  "GetServices deps nodeType s =
     (case et_Get (rd_etcd deps) (rg_keyPrefix s @ nodeType @ ''/'') (rg_etcd s) of
        (e, Inl err) \<Rightarrow> (s\<lparr>rg_etcd := e\<rparr>, Inl (''failed to get services: '' @ err))
      | (e, Inr kvs) \<Rightarrow> (s\<lparr>rg_etcd := e\<rparr>, Inr (decoded deps kvs)))"

definition GetService :: "'e registry_deps \<Rightarrow> string \<Rightarrow> 'e registry \<Rightarrow> 'e registry \<times> (string + service_info) option" where
  "GetService deps nodeID s =
     (if rg_locked s then (s, None)
      else case rg_services s nodeID of
        Some info \<Rightarrow> (s, Some (Inr info))
      | None \<Rightarrow>
          (case et_Get (rd_etcd deps) (rg_keyPrefix s) (rg_etcd s) of
             (e, Inl err) \<Rightarrow> (s\<lparr>rg_etcd := e\<rparr>, Some (Inl (''failed to get service: '' @ err)))
           | (e, Inr kvs) \<Rightarrow> (s\<lparr>rg_etcd := e\<rparr>,
               Some (case List.find (\<lambda>info. si_NodeID info = nodeID) (decoded deps kvs) of
                   Some info \<Rightarrow> Inr info
                 | None \<Rightarrow> Inl (''service '' @ nodeID @ '' not found'')))))"

text \<open>
  Callbacks are numbers. Every \<^verbatim>\<open>Watch\<close> starts a goroutine of its own for the type; an event of its
  channel without an error reads the services and then, under the lock, the callbacks of the type, all of
  which it calls: the result is the callbacks with the services, or \<open>None\<close> when the lock is not given.
\<close>

definition Watch :: "string \<Rightarrow> nat \<Rightarrow> 'e registry \<Rightarrow> 'e registry option" where
  "Watch nodeType callback s =
     (if rg_locked s then None else Some (s\<lparr>rg_watchers := (rg_watchers s)(nodeType := rg_watchers s nodeType @ [callback])\<rparr>))"

definition watch_event :: "'e registry_deps \<Rightarrow> string \<Rightarrow> 'e registry \<Rightarrow> 'e registry \<times> (nat list \<times> service_info list) option" where
  "watch_event deps nodeType s =
     (case GetServices deps nodeType s of
        (s1, Inl _) \<Rightarrow> (s1, Some ([], []))
      | (s1, Inr services) \<Rightarrow> (s1, if rg_locked s1 then None else Some (rg_watchers s1 nodeType, services)))"

text \<open>An error of \<^verbatim>\<open>Revoke\<close> is only logged.\<close>

definition Close :: "'e registry_deps \<Rightarrow> 'e registry \<Rightarrow> 'e registry \<times> string option" where
  "Close deps s =
     (let e1 = (if rg_leaseID s \<noteq> 0 then fst (et_Revoke (rd_etcd deps) (rg_leaseID s) (rg_etcd s)) else rg_etcd s);
          (e2, r) = et_Close (rd_etcd deps) e1
      in (s\<lparr>rg_etcd := e2\<rparr>, r))"

subsection \<open>Load balancers\<close>

text \<open>The counters per service type; a type without one counts from 0. The index of a negative counter panics.\<close>

type_synonym round_robin = "string \<Rightarrow> int"

definition NewRoundRobinLoadBalancer :: round_robin where
  "NewRoundRobinLoadBalancer = (\<lambda>_. 0)"

definition RoundRobin_Select :: "service_info list \<Rightarrow> round_robin \<Rightarrow> (round_robin \<times> service_info option) outcome" where
  "RoundRobin_Select services lb =
     (if services = [] then Ret (lb, None)
      else
        let nodeType = si_NodeType (services ! 0); counter = lb nodeType in
        case at_index services (go_rem counter (int (length services))) of
          Panic \<Rightarrow> Panic
        | Ret selected \<Rightarrow> Ret (lb(nodeType := wrap_i64 (counter + 1)), Some selected))"

definition max_int :: int where "max_int = 2 ^ 63 - 1"

fun least_loaded :: "service_info list \<Rightarrow> int \<Rightarrow> service_info option \<Rightarrow> service_info option" where
  "least_loaded [] minLoad selected = selected"
| "least_loaded (service # services) minLoad selected =
     (if si_Status service = ''online'' \<and> si_Load service < minLoad
      then least_loaded services (si_Load service) (Some service)
      else least_loaded services minLoad selected)"

definition Weighted_Select :: "service_info list \<Rightarrow> service_info option" where
  "Weighted_Select services =
     (if services = [] then None
      else case least_loaded services max_int None of None \<Rightarrow> Some (services ! 0) | Some s \<Rightarrow> Some s)"

text \<open>The \<^verbatim>\<open>LoadBalancer\<close> interface: its state and \<^verbatim>\<open>Select\<close>.\<close>

type_synonym 'b balancer = "service_info list \<Rightarrow> 'b \<Rightarrow> ('b \<times> service_info option) outcome"

definition weighted_balancer :: "unit balancer" where
  "weighted_balancer services lb = Ret (lb, Weighted_Select services)"

subsection \<open>Service discovery\<close>

record ('e, 'b) service_discovery =
  sd_registry :: "'e registry"
  sd_lb :: 'b
  sd_cache :: "string \<Rightarrow> service_info list option"

definition cache_services :: "string \<Rightarrow> service_info list \<Rightarrow> ('e, 'b) service_discovery \<Rightarrow> ('e, 'b) service_discovery" where
  "cache_services nodeType services sd = sd\<lparr>sd_cache := (sd_cache sd)(nodeType \<mapsto> services)\<rparr>"

text \<open>
  A nil balancer, which becomes round robin, is the caller's choice of it. The callback of the watch puts
  the services into the cache; the number of the callback is 0.
\<close>

definition NewServiceDiscovery :: "string \<Rightarrow> 'b \<Rightarrow> 'e registry \<Rightarrow> ('e, 'b) service_discovery option" where
  "NewServiceDiscovery nodeType lb registry =
     map_option (\<lambda>reg. \<lparr>sd_registry = reg, sd_lb = lb, sd_cache = Map.empty\<rparr>) (Watch nodeType 0 registry)"

definition watch_notify :: "'e registry_deps \<Rightarrow> string \<Rightarrow> ('e, 'b) service_discovery \<Rightarrow> ('e, 'b) service_discovery" where
  "watch_notify deps nodeType sd =
     (case watch_event deps nodeType (sd_registry sd) of
        (reg, None) \<Rightarrow> sd\<lparr>sd_registry := reg\<rparr>
      | (reg, Some (callbacks, services)) \<Rightarrow>
          fold (\<lambda>_. cache_services nodeType services) callbacks (sd\<lparr>sd_registry := reg\<rparr>))"

definition Discovery_GetService :: "'e registry_deps \<Rightarrow> 'b balancer \<Rightarrow> string \<Rightarrow> ('e, 'b) service_discovery \<Rightarrow>
    (('e, 'b) service_discovery \<times> service_info option) outcome" where
  "Discovery_GetService deps select nodeType sd =
     (let pick = (\<lambda>services sd. case select services (sd_lb sd) of
          Panic \<Rightarrow> Panic | Ret (lb, r) \<Rightarrow> Ret (sd\<lparr>sd_lb := lb\<rparr>, r))
      in case sd_cache sd nodeType of
           Some (x # xs) \<Rightarrow> pick (x # xs) sd
         | _ \<Rightarrow>
             (case GetServices deps nodeType (sd_registry sd) of
                (reg, Inl _) \<Rightarrow> Ret (sd\<lparr>sd_registry := reg\<rparr>, None)
              | (reg, Inr fresh) \<Rightarrow> pick fresh (cache_services nodeType fresh (sd\<lparr>sd_registry := reg\<rparr>))))"

definition GetAllServices :: "'e registry_deps \<Rightarrow> string \<Rightarrow> ('e, 'b) service_discovery \<Rightarrow> ('e, 'b) service_discovery \<times> service_info list" where
  "GetAllServices deps nodeType sd =
     (case sd_cache sd nodeType of
        Some services \<Rightarrow> (sd, services)
      | None \<Rightarrow>
          (case GetServices deps nodeType (sd_registry sd) of
             (reg, Inl _) \<Rightarrow> (sd\<lparr>sd_registry := reg\<rparr>, [])
           | (reg, Inr fresh) \<Rightarrow> (cache_services nodeType fresh (sd\<lparr>sd_registry := reg\<rparr>), fresh)))"

text \<open>One entry of a tick of the update loop: an error leaves the cache.\<close>

definition refresh_type :: "'e registry_deps \<Rightarrow> string \<Rightarrow> ('e, 'b) service_discovery \<Rightarrow> ('e, 'b) service_discovery" where
  "refresh_type deps nodeType sd =
     (case GetServices deps nodeType (sd_registry sd) of
        (reg, Inl _) \<Rightarrow> sd\<lparr>sd_registry := reg\<rparr>
      | (reg, Inr services) \<Rightarrow> cache_services nodeType services (sd\<lparr>sd_registry := reg\<rparr>))"

definition update_tick :: "'e registry_deps \<Rightarrow> string list \<Rightarrow> ('e, 'b) service_discovery \<Rightarrow> ('e, 'b) service_discovery" where
  "update_tick deps order sd = fold (refresh_type deps) order sd"

definition Discovery_Close :: "'e registry_deps \<Rightarrow> ('e, 'b) service_discovery \<Rightarrow> ('e, 'b) service_discovery \<times> string option" where
  "Discovery_Close deps sd = (let (reg, r) = Close deps (sd_registry sd) in (sd\<lparr>sd_registry := reg\<rparr>, r))"

subsection \<open>A store in memory\<close>

record mem_etcd =
  me_keys :: "(string \<times> string \<times> int) list"
  me_lease :: int

definition mem_etcd_ops :: "mem_etcd etcd_ops" where
  "mem_etcd_ops = \<lparr>et_Put = (\<lambda>k v l e. (e\<lparr>me_keys := AList.update k (v, l) (me_keys e)\<rparr>, None)),
     et_Delete = (\<lambda>k e. (e\<lparr>me_keys := AList.delete k (me_keys e)\<rparr>, None)),
     et_Get = (\<lambda>p e. (e, Inr (map (\<lambda>(k, v, l). (k, v)) (filter (\<lambda>(k, v, l). has_prefix k p) (AList.clearjunk (me_keys e)))))),
     et_Grant = (\<lambda>ttl e. let l = Max (insert (me_lease e) (set (map (snd \<circ> snd) (me_keys e)))) + 1 in (e\<lparr>me_lease := l\<rparr>, Inr l)),
     et_KeepAlive = (\<lambda>l e. (e, None)),
     et_Revoke = (\<lambda>l e. (e\<lparr>me_keys := filter (\<lambda>(k, v, l'). l' \<noteq> l) (AList.clearjunk (me_keys e))\<rparr>, None)),
     et_Close = (\<lambda>e. (e, None))\<rparr>"

lemma mem_listed: "listed (map_of kvs) p (map (\<lambda>(k, v, l). (k, v)) (filter (\<lambda>(k, v, l). has_prefix k p) (AList.clearjunk kvs)))"
proof -
  have "distinct (map fst (AList.clearjunk kvs))" by (rule distinct_clearjunk)
  moreover have "fst \<circ> (\<lambda>(k, v, l). (k, v)) = (fst :: string \<times> string \<times> int \<Rightarrow> string)" by auto
  ultimately have "distinct (map fst (map (\<lambda>(k, v, l). (k, v)) (filter (\<lambda>(k, v, l). has_prefix k p) (AList.clearjunk kvs))))"
    by (simp add: distinct_map_filter)
  moreover have "(k, x) \<in> set (AList.clearjunk kvs) \<longleftrightarrow> map_of kvs k = Some x" for k x
    using map_of_eq_Some_iff [OF \<open>distinct (map fst (AList.clearjunk kvs))\<close>, of k x] by (simp add: map_of_clearjunk)
  ultimately show ?thesis unfolding listed_def by (auto simp: image_iff)
qed

lemma mem_revoked: "map_of (filter (\<lambda>(k, v, l'). l' \<noteq> l) (AList.clearjunk kvs)) = lease_expired l (map_of kvs)"
proof
  fix k
  have d: "distinct (map fst (AList.clearjunk kvs))" by (rule distinct_clearjunk)
  then have f: "distinct (map fst (filter (\<lambda>(k, v, l'). l' \<noteq> l) (AList.clearjunk kvs)))" by (rule distinct_map_filter)
  have c: "(k, y) \<in> set (AList.clearjunk kvs) \<longleftrightarrow> map_of kvs k = Some y" for y
    using map_of_eq_Some_iff [OF d, of k y] by (simp add: map_of_clearjunk)
  show "map_of (filter (\<lambda>(k, v, l'). l' \<noteq> l) (AList.clearjunk kvs)) k = lease_expired l (map_of kvs) k" (is "?lhs = ?rhs")
  proof (cases "\<exists>v l'. map_of kvs k = Some (v, l') \<and> l' \<noteq> l")
    case True
    then obtain v l' where "map_of kvs k = Some (v, l')" "l' \<noteq> l" by blast
    moreover from this have "?lhs = Some (v, l')" by (intro map_of_is_SomeI f) (simp add: c)
    ultimately show ?thesis by (simp add: lease_expired_def)
  next
    case False
    then have "?lhs = None" by (auto simp: map_of_eq_None_iff c)
    with False show ?thesis by (auto simp: lease_expired_def split: option.splits)
  qed
qed

interpretation mem_etcd: etcd_store mem_etcd_ops "map_of \<circ> me_keys"
proof (unfold_locales, goal_cases)
  case (3 p e e' r3)
  then show ?case using mem_listed by (auto simp: mem_etcd_ops_def)
next
  case (4 ttl e e' r4)
  then have r: "r4 = Inr (Max (insert (me_lease e) (set (map (snd \<circ> snd) (me_keys e)))) + 1)" and e: "me_keys e' = me_keys e"
    by (auto simp: mem_etcd_ops_def Let_def)
  have "l < Max (insert (me_lease e) (set (map (snd \<circ> snd) (me_keys e)))) + 1" if "(k, v, l) \<in> set (me_keys e)" for k v l
  proof -
    from that have "l \<in> insert (me_lease e) (set (map (snd \<circ> snd) (me_keys e)))" by force
    then have "l \<le> Max (insert (me_lease e) (set (map (snd \<circ> snd) (me_keys e))))" by (intro Max_ge) simp_all
    then show ?thesis by simp
  qed
  with r e show ?case by (force dest: map_of_SomeD)
next
  case (6 l e e' r6)
  then show ?case using mem_revoked by (auto simp: mem_etcd_ops_def)
qed (auto simp: mem_etcd_ops_def update_conv' delete_conv')

subsection \<open>The registry's keys\<close>

text \<open>Every key of the registry holds the JSON form of the service it names.\<close>

definition keys_wf :: "'e registry_deps \<Rightarrow> 'e registry \<Rightarrow> keys \<Rightarrow> bool" where
  "keys_wf deps s kv \<longleftrightarrow> (\<forall>k v l info. kv k = Some (v, l) \<longrightarrow> rd_unmarshal deps v = Inr info \<longrightarrow> k = service_key s (si_NodeType info) (si_NodeID info))"

definition codec_ok :: "'e registry_deps \<Rightarrow> bool" where
  "codec_ok deps \<longleftrightarrow> (\<forall>info data. rd_marshal deps info = Inr data \<longrightarrow> rd_unmarshal deps data = Inr info)"

lemma has_prefix_append [simp]: "has_prefix (p @ s) p"
  by (simp add: has_prefix_def)

lemma decoded_set: "info \<in> set (decoded deps kvs) \<longleftrightarrow> (\<exists>(k, v) \<in> set kvs. rd_unmarshal deps v = Inr info)"
  by (induction kvs) (auto simp: decoded_def split: sum.splits)

locale registry_on =
  etcd_store "rd_etcd deps" kvs for deps :: "'e registry_deps" and kvs +
  assumes codec: "codec_ok deps"
begin

abbreviation "keys_of s \<equiv> kvs (rg_etcd s)"

lemma get_services:
  assumes "GetServices deps t s = (s', r)"
  shows "keys_of s' = keys_of s \<and> (\<forall>xs. r = Inr xs \<longrightarrow> (\<forall>info. info \<in> set xs \<longleftrightarrow>
    (\<exists>k v l. has_prefix k (rg_keyPrefix s @ t @ ''/'') \<and> keys_of s k = Some (v, l) \<and> rd_unmarshal deps v = Inr info)))"
proof -
  obtain e y where g: "et_Get (rd_etcd deps) (rg_keyPrefix s @ t @ ''/'') (rg_etcd s) = (e, y)" by fastforce
  show ?thesis
  proof (cases y)
    case (Inr xs)
    with get [OF g] have l: "kvs e = keys_of s" "listed (keys_of s) (rg_keyPrefix s @ t @ ''/'') xs" by auto
    have "s' = s\<lparr>rg_etcd := e\<rparr>" "r = Inr (decoded deps xs)" using g assms Inr by (auto simp: GetServices_def)
    with l show ?thesis unfolding listed_def by (simp add: decoded_set) blast
  qed (use get [OF g] g assms in \<open>auto simp: GetServices_def\<close>)
qed

lemma registered:
  assumes "Register deps now info s = (s', Some None)"
  shows "\<exists>data. rd_unmarshal deps data = Inr (info\<lparr>si_UpdateTime := time_unix now\<rparr>) \<and>
    keys_of s' = (keys_of s)(service_key s (si_NodeType info) (si_NodeID info) \<mapsto> (data, rg_leaseID s)) \<and>
    rg_services s' = (rg_services s)(si_NodeID info \<mapsto> info\<lparr>si_UpdateTime := time_unix now\<rparr>) \<and>
    rg_keyPrefix s' = rg_keyPrefix s \<and> rg_leaseID s' = rg_leaseID s \<and> \<not> rg_locked s \<and> \<not> rg_locked s'"
proof -
  let ?i = "info\<lparr>si_UpdateTime := time_unix now\<rparr>"
  from assms have u: "\<not> rg_locked s" by (auto simp: Register_def)
  then obtain data where d: "rd_marshal deps ?i = Inr data"
    using assms by (cases "rd_marshal deps ?i") (auto simp: Register_def Let_def)
  obtain e r where p: "et_Put (rd_etcd deps) (service_key s (si_NodeType info) (si_NodeID info)) data (rg_leaseID s) (rg_etcd s) = (e, r)" by fastforce
  with u d assms have r: "r = None" "s' = s\<lparr>rg_etcd := e, rg_services := (rg_services s)(si_NodeID info \<mapsto> ?i)\<rparr>"
    by (cases r; auto simp: Register_def Let_def)+
  from put [OF p] r d u codec show ?thesis by (auto simp: codec_ok_def)
qed

end

context registry_on
begin

lemma registered_wf:
  assumes "keys_wf deps s (keys_of s)" and "Register deps now info s = (s', Some None)"
  shows "keys_wf deps s' (keys_of s')"
  using registered [OF assms(2)] assms(1) by (auto simp: keys_wf_def service_key_def split: if_splits)

lemma unregistered:
  assumes "Unregister deps nid s = (s', Some None)"
  shows "\<exists>info. rg_services s nid = Some info \<and> keys_of s' = (keys_of s)(service_key s (si_NodeType info) nid := None) \<and>
    rg_keyPrefix s' = rg_keyPrefix s"
proof -
  from assms obtain info where i: "\<not> rg_locked s" "rg_services s nid = Some info"
    by (auto simp: Unregister_def split: if_splits option.splits)
  obtain e r where d: "et_Delete (rd_etcd deps) (service_key s (si_NodeType info) nid) (rg_etcd s) = (e, r)" by fastforce
  with i assms have "r = None" "s' = s\<lparr>rg_etcd := e, rg_services := (rg_services s)(nid := None)\<rparr>"
    by (cases r; auto simp: Unregister_def)+
  with delete [OF d] i show ?thesis by auto
qed

lemma lease_created: "createLease deps s = (s', r) \<Longrightarrow> keys_of s' = keys_of s \<and> rg_services s' = rg_services s \<and> rg_keyPrefix s' = rg_keyPrefix s"
proof -
  assume c: "createLease deps s = (s', r)"
  obtain e1 x where g: "et_Grant (rd_etcd deps) 30 (rg_etcd s) = (e1, x)" by fastforce
  obtain e2 y where k: "et_KeepAlive (rd_etcd deps) (projr x) e1 = (e2, y)" by fastforce
  from grant [OF g] keep_alive [OF k] c g k show ?thesis by (cases x) (auto simp: createLease_def)
qed

end

subsection \<open>Rotation and load\<close>

fun rr_run :: "nat \<Rightarrow> service_info list \<Rightarrow> round_robin \<Rightarrow> (round_robin \<times> service_info option list) outcome" where
  "rr_run 0 services lb = Ret (lb, [])"
| "rr_run (Suc n) services lb = (case RoundRobin_Select services lb of
      Panic \<Rightarrow> Panic
    | Ret (lb1, r) \<Rightarrow> (case rr_run n services lb1 of Panic \<Rightarrow> Panic | Ret (lb2, rs) \<Rightarrow> Ret (lb2, r # rs)))"

lemma select_rotates:
  assumes "services \<noteq> []" and "lb (si_NodeType (services ! 0)) = int c" and "c + 1 < 2 ^ 63"
  shows "RoundRobin_Select services lb =
    Ret (lb(si_NodeType (services ! 0) := int (c + 1)), Some (services ! (c mod length services)))"
proof -
  have "at_index services (go_rem (int c) (int (length services))) = Ret (services ! (c mod length services))"
    using assms(1) by (simp add: go_rem_nat at_index_def)
  moreover have "wrap_i64 (int c + 1) = int (c + 1)" using assms(3) by simp
  ultimately show ?thesis using assms(1,2) by (simp add: RoundRobin_Select_def Let_def)
qed

lemma rr_run_rotates:
  "services \<noteq> [] \<Longrightarrow> lb (si_NodeType (services ! 0)) = int c \<Longrightarrow> c + n < 2 ^ 63 \<Longrightarrow>
   rr_run n services lb = Ret (lb(si_NodeType (services ! 0) := int (c + n)),
     map (\<lambda>i. Some (services ! (i mod length services))) [c..<c + n])"
proof (induction n arbitrary: lb c)
  case 0
  then show ?case by (simp add: fun_upd_idem)
next
  case (Suc n)
  let ?T = "si_NodeType (services ! 0)"
  have less: "c + 1 < 2 ^ 63" "(c + 1) + n < 2 ^ 63" using Suc.prems(3) by simp_all
  have "(lb(?T := int (c + 1))) ?T = int (c + 1)" by simp
  from Suc.IH [of "lb(?T := int (c + 1))" "c + 1", OF Suc.prems(1) this less(2)]
  have "rr_run n services (lb(?T := int (c + 1))) =
      Ret (lb(?T := int (c + 1 + n)), map (\<lambda>i. Some (services ! (i mod length services))) [c + 1..<c + 1 + n])"
    by (simp only: fun_upd_upd)
  moreover have "[c..<c + Suc n] = c # [c + 1..<c + 1 + n]" by (simp add: upt_conv_Cons del: upt_Suc)
  moreover have "c + Suc n = c + 1 + n" by simp
  ultimately show ?case
    using select_rotates [of services lb c, OF Suc.prems(1,2) less(1)] by (simp only: rr_run.simps outcome.case prod.case list.map)
qed

lemma mset_rotation: "mset (map (\<lambda>i. xs ! (i mod length xs)) [c..<c + length xs]) = mset xs"
proof -
  have "map (\<lambda>i. xs ! (i mod length xs)) [c..<c + length xs] = rotate c xs"
    by (rule nth_equalityI) (simp_all add: nth_rotate)
  moreover have "mset (rotate c xs) = mset (take (c mod length xs) xs @ drop (c mod length xs) xs)"
    by (simp add: rotate_drop_take union_commute del: append_take_drop_id)
  ultimately show ?thesis by simp
qed

lemma mset_rotations: "mset (map (\<lambda>i. xs ! (i mod length xs)) [c..<c + k * length xs]) = repeat_mset k (mset xs)"
proof (induction k)
  case (Suc k)
  have "[c..<c + Suc k * length xs] = [c..<c + k * length xs] @ [c + k * length xs..<c + k * length xs + length xs]"
    using upt_add_eq_append [of c "c + k * length xs" "length xs"] by (simp add: algebra_simps)
  with Suc mset_rotation [of xs "c + k * length xs"] show ?case by (simp add: mset_map del: upt.simps)
qed simp

definition eligible :: "int \<Rightarrow> service_info \<Rightarrow> bool" where
  "eligible m s \<longleftrightarrow> si_Status s = ''online'' \<and> si_Load s < m"

text \<open>The reference: the first service of least load among the online ones, or the first of all when there is none.\<close>

definition first_least :: "service_info list \<Rightarrow> service_info" where
  "first_least ss = hd (filter (\<lambda>s. si_Load s = Min (si_Load ` set ss)) ss)"

definition reference_pick :: "service_info list \<Rightarrow> service_info" where
  "reference_pick ss = (let on = filter (eligible max_int) ss in if on = [] then ss ! 0 else first_least on)"

lemma first_least_Cons:
  assumes "ss = [] \<or> (\<forall>x \<in> set ss. si_Load s \<le> si_Load x)"
  shows "first_least (s # ss) = s"
proof -
  have "Min (si_Load ` set (s # ss)) = si_Load s" using assms by (intro Min_eqI) auto
  then show ?thesis by (simp add: first_least_def)
qed

lemma first_least_less:
  assumes "filter (\<lambda>x. si_Load x < b) ss \<noteq> []"
  shows "first_least ss = first_least (filter (\<lambda>x. si_Load x < b) ss)"
proof -
  let ?l = "filter (\<lambda>x. si_Load x < b) ss"
  have ne: "si_Load ` set ?l \<noteq> {}" "finite (si_Load ` set ?l)" using assms unfolding image_is_empty set_empty by simp_all
  have m: "Min (si_Load ` set ss) = Min (si_Load ` set ?l)"
  proof (rule Min_eqI)
    show "Min (si_Load ` set ?l) \<in> si_Load ` set ss" using Min_in [OF ne(2,1)] by auto
    show "Min (si_Load ` set ?l) \<le> y" if y: "y \<in> si_Load ` set ss" for y
    proof (cases "y < b")
      case True
      with y have "y \<in> si_Load ` set ?l" by auto
      then show ?thesis using ne(2) by simp
    next
      case False
      have "Min (si_Load ` set ?l) < b" using Min_in [OF ne(2,1)] by auto
      with False show ?thesis by simp
    qed
  qed simp
  have "Min (si_Load ` set ?l) < b" using Min_in [OF ne(2,1)] by auto
  then have "filter (\<lambda>s. si_Load s = Min (si_Load ` set ?l)) ?l = filter (\<lambda>s. si_Load s = Min (si_Load ` set ?l)) ss"
    by (simp add: conj_commute cong: filter_cong) (metis (mono_tags, lifting) filter_cong)
  with m show ?thesis by (simp add: first_least_def)
qed

lemma least_loaded_spec:
  "least_loaded ss m sel = (let on = filter (eligible m) ss in if on = [] then sel else Some (first_least on))"
proof (induction ss arbitrary: m sel)
  case Nil
  then show ?case by simp
next
  case (Cons s ss)
  show ?case
  proof (cases "eligible m s")
    case True
    let ?on = "filter (eligible m) ss"
    have ll: "least_loaded (s # ss) m sel = least_loaded ss (si_Load s) (Some s)" using True by (simp add: eligible_def)
    have on: "filter (eligible (si_Load s)) ss = filter (\<lambda>x. si_Load x < si_Load s) ?on"
      using True by (auto simp: eligible_def intro!: filter_cong)
    show ?thesis
    proof (cases "filter (\<lambda>x. si_Load x < si_Load s) ?on = []")
      case none: True
      then have "first_least (s # ?on) = s" by (intro first_least_Cons) (auto simp: filter_empty_conv not_less)
      with none on True Cons [of "si_Load s" "Some s"] show ?thesis unfolding ll by (simp add: Let_def)
    next
      case some: False
      have "first_least (s # ?on) = first_least (filter (\<lambda>x. si_Load x < si_Load s) (s # ?on))"
        using some by (intro first_least_less) simp
      with some on True Cons [of "si_Load s" "Some s"] show ?thesis unfolding ll by (simp add: Let_def)
    qed
  next
    case False
    with Cons [of m sel] show ?thesis by (auto simp: eligible_def)
  qed
qed


subsection \<open>An instance of the registry\<close>

text \<open>A form of one service: its load as a row of bars. Other services do not encode.\<close>

definition demo_marshal :: "service_info \<Rightarrow> string + string" where
  "demo_marshal info = (if info = \<lparr>si_NodeID = ''g1'', si_NodeType = ''game'', si_Address = ''a'', si_Port = 1, si_Load = si_Load info,
      si_Status = ''online'', si_Metadata = [], si_UpdateTime = 0\<rparr> \<and> 0 \<le> si_Load info
    then Inr (replicate (nat (si_Load info)) CHR ''|'') else Inl ''unsupported'')"

definition demo_unmarshal :: "string \<Rightarrow> string + service_info" where
  "demo_unmarshal s = (if s = replicate (length s) CHR ''|'' then Inr \<lparr>si_NodeID = ''g1'', si_NodeType = ''game'', si_Address = ''a'', si_Port = 1,
      si_Load = int (length s), si_Status = ''online'', si_Metadata = [], si_UpdateTime = 0\<rparr> else Inl ''unsupported'')"

definition demo_deps :: "mem_etcd registry_deps" where
  "demo_deps = \<lparr>rd_etcd = mem_etcd_ops, rd_marshal = demo_marshal, rd_unmarshal = demo_unmarshal\<rparr>"

definition demo_service :: service_info where
  "demo_service = \<lparr>si_NodeID = ''g1'', si_NodeType = ''game'', si_Address = ''a'', si_Port = 1, si_Load = 0,
      si_Status = ''online'', si_Metadata = [], si_UpdateTime = 5\<rparr>"

lemma demo_codec: "codec_ok demo_deps"
  by (auto simp: codec_ok_def demo_deps_def demo_marshal_def demo_unmarshal_def split: if_splits)

lemma demo_store: "etcd_store (rd_etcd demo_deps) (map_of \<circ> me_keys)"
  using mem_etcd.etcd_store_axioms by (simp add: demo_deps_def)

interpretation demo: registry_on demo_deps "map_of \<circ> me_keys"
  by (intro registry_on.intro demo_store registry_on_axioms.intro demo_codec)


context registry_on
begin

lemma keep_alive_keeps:
  "kvs (rg_etcd (fold (keepAlive_step deps) msgs s)) = keys_of s \<and> rg_services (fold (keepAlive_step deps) msgs s) = rg_services s \<and>
   rg_keyPrefix (fold (keepAlive_step deps) msgs s) = rg_keyPrefix s"
proof (induction msgs arbitrary: s)
  case (Cons m msgs)
  have "keys_of (keepAlive_step deps m s) = keys_of s \<and> rg_services (keepAlive_step deps m s) = rg_services s \<and>
      rg_keyPrefix (keepAlive_step deps m s) = rg_keyPrefix s"
    using lease_created [of s "fst (createLease deps s)" "snd (createLease deps s)"] by (cases m) (simp_all add: keepAlive_step_def)
  with Cons [of "keepAlive_step deps m s"] show ?case by simp
qed simp

lemma not_listed:
  assumes "keys_wf deps s (keys_of s)" and "keys_of s (service_key s t nid) = None" and "GetServices deps t s = (s', Inr xs)"
  shows "\<forall>x \<in> set xs. \<not> (si_NodeType x = t \<and> si_NodeID x = nid)"
  using get_services [OF assms(3)] assms(1,2) by (fastforce simp: keys_wf_def)

lemma listed_after:
  assumes "keys_of s (service_key s (si_NodeType info) (si_NodeID info)) = Some (data, l)" and "rd_unmarshal deps data = Inr info"
    and "GetServices deps (si_NodeType info) s = (s', Inr xs)"
  shows "info \<in> set xs"
proof -
  have "service_key s (si_NodeType info) (si_NodeID info) = (rg_keyPrefix s @ si_NodeType info @ ''/'') @ si_NodeID info"
    by (simp add: service_key_def)
  then have "has_prefix (service_key s (si_NodeType info) (si_NodeID info)) (rg_keyPrefix s @ si_NodeType info @ ''/'')"
    by (simp only: has_prefix_append)
  with get_services [OF assms(3)] assms(1,2) show ?thesis by blast
qed

end

lemma registry_onI: "etcd_store (rd_etcd deps) kvs \<Longrightarrow> codec_ok deps \<Longrightarrow> registry_on deps kvs"
  by (simp add: registry_on_def registry_on_axioms_def)

subsection \<open>Properties\<close>

text \<open>
  round robin is fair: from any counter that does not reach the end of its range, as many calls of
  \<^verbatim>\<open>Select\<close> as k rounds over an unchanged list of services give every service exactly k times, without a panic.
\<close>

theorem round_robin_fair:
  assumes "services \<noteq> []" and "lb (si_NodeType (services ! 0)) = int c" and "c + k * length services < 2 ^ 63"
  shows "\<exists>lb' rs. rr_run (k * length services) services lb = Ret (lb', rs) \<and> mset rs = image_mset Some (repeat_mset k (mset services))"
proof -
  let ?is = "[c..<c + k * length services]"
  have "mset (map (\<lambda>i. Some (services ! (i mod length services))) ?is) =
      image_mset Some (mset (map (\<lambda>i. services ! (i mod length services)) ?is))"
    by (simp add: multiset.map_comp comp_def)
  then show ?thesis unfolding rr_run_rotates [of services lb c, OF assms] mset_rotations by blast
qed

lemma round_robin_fair_witness:
  "\<exists>lb' rs. rr_run (2 * 1) [demo_service] NewRoundRobinLoadBalancer = Ret (lb', rs) \<and> mset rs = image_mset Some (repeat_mset 2 {#demo_service#})"
  using round_robin_fair [of "[demo_service]" NewRoundRobinLoadBalancer 0 2] by (simp add: NewRoundRobinLoadBalancer_def)

text \<open>
  \<^verbatim>\<open>WeightedLoadBalancer.Select\<close> computes the reference choice: the first of the services with the
  least load among those that are online and below the largest \<^verbatim>\<open>int\<close>, and when there is none the first
  service of the list, whatever its status; an empty list gives none.
\<close>

theorem weighted_picks_least:
  "Weighted_Select services = (if services = [] then None else Some (reference_pick services))"
  by (simp add: Weighted_Select_def least_loaded_spec reference_pick_def Let_def)

text \<open>
  C17: a service that \<^verbatim>\<open>Register\<close> accepts is listed by \<^verbatim>\<open>GetServices\<close> of its type with the time of the
  registration, and after \<^verbatim>\<open>Unregister\<close> of its id no service of this type and id is listed, over any store
  that keeps etcd's laws and any JSON form that decodes what it encodes.
\<close>

theorem register_unregister_listed:
  assumes "etcd_store (rd_etcd deps) kvs" and "codec_ok deps" and "keys_wf deps s (kvs (rg_etcd s))"
    and "Register deps now info s = (s1, Some None)" and "GetServices deps (si_NodeType info) s1 = (s2, Inr xs)"
    and "Unregister deps (si_NodeID info) s1 = (s3, Some None)" and "GetServices deps (si_NodeType info) s3 = (s4, Inr ys)"
  shows "info\<lparr>si_UpdateTime := time_unix now\<rparr> \<in> set xs \<and>
    (\<forall>y \<in> set ys. \<not> (si_NodeType y = si_NodeType info \<and> si_NodeID y = si_NodeID info))"
proof -
  note r = registry_onI [OF assms(1,2)]
  let ?i = "info\<lparr>si_UpdateTime := time_unix now\<rparr>"
  from registry_on.registered [OF r assms(4)] obtain data where
    d: "rd_unmarshal deps data = Inr ?i" "kvs (rg_etcd s1) (service_key s1 (si_NodeType info) (si_NodeID info)) = Some (data, rg_leaseID s)"
      "rg_services s1 (si_NodeID info) = Some ?i"
    by (auto simp: service_key_def)
  have wf: "keys_wf deps s1 (kvs (rg_etcd s1))" by (rule registry_on.registered_wf [OF r assms(3,4)])
  from registry_on.unregistered [OF r assms(6)] d(3) have
    u: "kvs (rg_etcd s3) = (kvs (rg_etcd s1))(service_key s1 (si_NodeType info) (si_NodeID info) := None)" "rg_keyPrefix s3 = rg_keyPrefix s1"
    by auto
  with wf have "keys_wf deps s3 (kvs (rg_etcd s3))" by (simp add: keys_wf_def service_key_def)
  moreover have "kvs (rg_etcd s3) (service_key s3 (si_NodeType info) (si_NodeID info)) = None" using u by (simp add: service_key_def)
  ultimately show ?thesis
    using registry_on.listed_after [OF r, of s1 ?i] registry_on.not_listed [OF r _ _ assms(7)] d(1,2) assms(5) by auto
qed

definition demo_registry :: "mem_etcd registry" where
  "demo_registry = \<lparr>rg_etcd = \<lparr>me_keys = [], me_lease = 0\<rparr>, rg_leaseID = 1, rg_locked = False, rg_services = Map.empty, rg_watchers = (\<lambda>_. []), rg_keyPrefix = ''p''\<rparr>"

definition demo_registered :: "mem_etcd registry" where
  "demo_registered = fst (Register demo_deps unix_epoch demo_service demo_registry)"

lemmas demo_registry_simps = demo_registry_def demo_registered_def demo_deps_def demo_service_def Register_def Unregister_def
  GetServices_def service_key_def mem_etcd_ops_def demo_marshal_def demo_unmarshal_def decoded_def has_prefix_def time_unix_def Let_def

lemma demo_keys_wf: "keys_wf deps demo_registry ((map_of \<circ> me_keys) (rg_etcd demo_registry))"
  by (simp add: keys_wf_def demo_registry_def)

lemma demo_registers: "Register demo_deps unix_epoch demo_service demo_registry = (demo_registered, Some None)"
  by (simp add: demo_registry_simps)

lemma register_unregister_listed_witness:
  "\<exists>s2 xs s3 s4 ys. GetServices demo_deps ''game'' demo_registered = (s2, Inr xs) \<and> length xs = 1 \<and>
     Unregister demo_deps ''g1'' demo_registered = (s3, Some None) \<and> GetServices demo_deps ''game'' s3 = (s4, Inr ys) \<and>
     demo_service\<lparr>si_UpdateTime := 0\<rparr> \<in> set xs"
proof -
  define u where "u = fst (Unregister demo_deps ''g1'' demo_registered)"
  obtain s2 xs where a: "GetServices demo_deps ''game'' demo_registered = (s2, Inr xs)" "length xs = 1" by (simp add: demo_registry_simps)
  have b: "Unregister demo_deps ''g1'' demo_registered = (u, Some None)" by (simp add: u_def demo_registry_simps)
  obtain s4 ys where c: "GetServices demo_deps ''game'' u = (s4, Inr ys)" by (simp add: u_def demo_registry_simps)
  have n: "si_NodeType demo_service = ''game''" "si_NodeID demo_service = ''g1''" "time_unix unix_epoch = 0" by (simp_all add: demo_service_def time_unix_def)
  from register_unregister_listed [OF demo_store demo_codec demo_keys_wf demo_registers, unfolded n, OF a(1) b c] a b c
  show ?thesis by blast
qed

text \<open>
  \<^verbatim>\<open>UpdateLoad\<close> of a registered service never returns: it calls \<^verbatim>\<open>Register\<close> with the lock held,
  which waits for that lock. Nothing reaches the store, and every later \<^verbatim>\<open>Register\<close>, \<^verbatim>\<open>Unregister\<close>,
  \<^verbatim>\<open>UpdateLoad\<close> and \<^verbatim>\<open>GetService\<close> waits for ever as well.
\<close>

theorem update_load_deadlocks:
  assumes "\<not> rg_locked s" and "rg_services s nid = Some info" and "UpdateLoad deps now nid load s = (s', r)"
  shows "r = None \<and> rg_etcd s' = rg_etcd s \<and> snd (Register deps now' i s') = None \<and> snd (Unregister deps n s') = None \<and>
    snd (UpdateLoad deps now' n l s') = None \<and> snd (GetService deps n s') = None"
  using assms by (auto simp: UpdateLoad_def Register_def Unregister_def GetService_def)

lemma update_load_deadlocks_witness:
  "snd (UpdateLoad demo_deps 0 ''g1'' 5 demo_registered) = None"
proof -
  have "\<not> rg_locked demo_registered" "rg_services demo_registered ''g1'' = Some (demo_service\<lparr>si_UpdateTime := 0\<rparr>)"
    by (simp_all add: demo_registry_simps)
  from update_load_deadlocks [OF this prod.collapse [symmetric]] show ?thesis by blast
qed

text \<open>
  a registration is lost with its lease: after \<^verbatim>\<open>Register\<close>, whatever the keep-alive loop receives, a
  closed channel and new leases included, the key stays attached to the lease of the registration; once
  this one runs out \<^verbatim>\<open>GetServices\<close> no longer lists the service, while the registry still answers \<^verbatim>\<open>GetService\<close> with it.
\<close>

theorem registration_lost_with_lease:
  assumes "etcd_store (rd_etcd deps) kvs" and "codec_ok deps" and "keys_wf deps s (kvs (rg_etcd s))"
    and "Register deps now info s = (s1, Some None)" and "s2 = fold (keepAlive_step deps) msgs s1"
    and "kvs e = lease_expired (rg_leaseID s) (kvs (rg_etcd s2))"
    and "GetServices deps (si_NodeType info) (s2\<lparr>rg_etcd := e\<rparr>) = (s3, Inr xs)"
  shows "(\<forall>x \<in> set xs. \<not> (si_NodeType x = si_NodeType info \<and> si_NodeID x = si_NodeID info)) \<and>
    rg_services s3 (si_NodeID info) = Some (info\<lparr>si_UpdateTime := time_unix now\<rparr>)"
proof -
  note r = registry_onI [OF assms(1,2)]
  let ?s = "s2\<lparr>rg_etcd := e\<rparr>"
  from registry_on.registered [OF r assms(4)] obtain data where
    d: "kvs (rg_etcd s1) (service_key s1 (si_NodeType info) (si_NodeID info)) = Some (data, rg_leaseID s)"
      "rg_services s1 (si_NodeID info) = Some (info\<lparr>si_UpdateTime := time_unix now\<rparr>)"
    by (auto simp: service_key_def)
  have k: "kvs (rg_etcd s2) = kvs (rg_etcd s1)" "rg_services s2 = rg_services s1" "rg_keyPrefix s2 = rg_keyPrefix s1"
    using registry_on.keep_alive_keeps [OF r, of msgs s1] assms(5) by auto
  have "keys_wf deps s1 (kvs (rg_etcd s1))" by (rule registry_on.registered_wf [OF r assms(3,4)])
  then have "keys_wf deps ?s (kvs (rg_etcd ?s))"
    using k assms(6) by (auto simp: keys_wf_def service_key_def lease_expired_def split: option.splits if_splits)
  moreover have "kvs (rg_etcd ?s) (service_key ?s (si_NodeType info) (si_NodeID info)) = None"
    using k d(1) assms(6) by (simp add: service_key_def lease_expired_def)
  moreover have "rg_services s3 = rg_services s2" using assms(7) by (auto simp: GetServices_def split: prod.splits sum.splits)
  ultimately show ?thesis using registry_on.not_listed [OF r _ _ assms(7)] k(2) d(2) by auto
qed

lemma registration_lost_with_lease_witness:
  "\<exists>s3 xs. GetServices demo_deps ''game'' ((fold (keepAlive_step demo_deps) [Some (), None] demo_registered)\<lparr>rg_etcd := \<lparr>me_keys = [], me_lease = 2\<rparr>\<rparr>) = (s3, Inr xs) \<and>
     rg_services s3 ''g1'' = Some (demo_service\<lparr>si_UpdateTime := 0\<rparr>)"
proof -
  let ?s2 = "fold (keepAlive_step demo_deps) [Some (), None] demo_registered" and ?e = "\<lparr>me_keys = [], me_lease = 2\<rparr>"
  obtain s3 xs where g: "GetServices demo_deps ''game'' (?s2\<lparr>rg_etcd := ?e\<rparr>) = (s3, Inr xs)" by (simp add: demo_registry_simps)
  have n: "si_NodeType demo_service = ''game''" "si_NodeID demo_service = ''g1''" "time_unix unix_epoch = 0" by (simp_all add: demo_service_def time_unix_def)
  have "(map_of \<circ> me_keys) (rg_etcd ?s2) = (map_of \<circ> me_keys) (rg_etcd demo_registered)" by (rule conjunct1 [OF demo.keep_alive_keeps])
  then have e: "(map_of \<circ> me_keys) ?e = lease_expired (rg_leaseID demo_registry) ((map_of \<circ> me_keys) (rg_etcd ?s2))"
    by (auto simp: lease_expired_def demo_registry_simps fun_eq_iff)
  from registration_lost_with_lease [OF demo_store demo_codec demo_keys_wf demo_registers refl e, unfolded n, OF g] g show ?thesis by blast
qed

end
