(* ===== verification/Nsq.thy ===== *)
theory Nsq
  imports GoStd "HOL-Library.AList"
begin

text \<open>
  \<^verbatim>\<open>internal/mq/nsq.go\<close>: the manager of NSQ producers and consumers, the typed messages and their handlers,
  and the broker. The NSQ client is a parameter, the record \<open>nsq_ops\<close> over the state of the network, with
  producers and consumers as numbers; the locale \<open>nsq_net\<close> states the documented effect of its calls on what
  has been queued and on what is open. JSON is a parameter. Logging is left out.
\<close>

subsection \<open>Configuration\<close>

record nsq_config =
  nc_NSQDAddress :: string
  nc_NSQLookupDAddress :: string
  nc_ClusterMode :: bool
  nc_NSQDAddresses :: "string list"
  nc_NSQLookupDAddresses :: "string list"
  nc_MaxInFlight :: int
  nc_DialTimeout :: duration
  nc_ReadTimeout :: duration
  nc_WriteTimeout :: duration
  nc_MessageTimeout :: duration
  nc_LoadBalancing :: bool
  nc_FailoverEnabled :: bool
  nc_HealthCheckInterval :: duration
  nc_ProducerPoolSize :: int

definition normalize :: "nsq_config \<Rightarrow> nsq_config" where
  "normalize c = c\<lparr>
     nc_NSQDAddress := if nc_NSQDAddress c = [] then ''127.0.0.1:4150'' else nc_NSQDAddress c,
     nc_NSQLookupDAddress := if nc_NSQLookupDAddress c = [] then ''127.0.0.1:4161'' else nc_NSQLookupDAddress c,
     nc_MaxInFlight := if nc_MaxInFlight c \<le> 0 then 200 else nc_MaxInFlight c,
     nc_DialTimeout := if nc_DialTimeout c \<le> 0 then second else nc_DialTimeout c,
     nc_ReadTimeout := if nc_ReadTimeout c < 100 * millisecond then 60 * second else nc_ReadTimeout c,
     nc_WriteTimeout := if nc_WriteTimeout c < 100 * millisecond then second else nc_WriteTimeout c,
     nc_MessageTimeout := if nc_MessageTimeout c \<le> 0 then 60 * second else nc_MessageTimeout c,
     nc_HealthCheckInterval := if nc_HealthCheckInterval c \<le> 0 then 30 * second else nc_HealthCheckInterval c,
     nc_ProducerPoolSize := if nc_ProducerPoolSize c \<le> 0 then 1 else nc_ProducerPoolSize c\<rparr>"

text \<open>What of the client's configuration the manager sets; a producer's has the first three fields.\<close>

record client_config =
  nk_DialTimeout :: duration
  nk_ReadTimeout :: duration
  nk_WriteTimeout :: duration
  nk_MaxInFlight :: "int option"
  nk_MsgTimeout :: "duration option"

definition newProducerConfig :: "nsq_config \<Rightarrow> client_config" where
  "newProducerConfig c = \<lparr>nk_DialTimeout = nc_DialTimeout c, nk_ReadTimeout = nc_ReadTimeout c, nk_WriteTimeout = nc_WriteTimeout c,
     nk_MaxInFlight = None, nk_MsgTimeout = None\<rparr>"

definition newConsumerConfig :: "nsq_config \<Rightarrow> client_config" where
  "newConsumerConfig c = (newProducerConfig c)\<lparr>nk_MaxInFlight := Some (nc_MaxInFlight c), nk_MsgTimeout := Some (nc_MessageTimeout c)\<rparr>"

subsection \<open>The NSQ client\<close>

record 'n nsq_ops =
  nq_NewProducer :: "string \<Rightarrow> client_config \<Rightarrow> 'n \<Rightarrow> 'n \<times> (string + nat)"
  nq_Ping :: "nat \<Rightarrow> 'n \<Rightarrow> 'n \<times> string option"
  nq_Publish :: "nat \<Rightarrow> string \<Rightarrow> byte list \<Rightarrow> 'n \<Rightarrow> 'n \<times> string option"
  nq_DeferredPublish :: "nat \<Rightarrow> string \<Rightarrow> duration \<Rightarrow> byte list \<Rightarrow> 'n \<Rightarrow> 'n \<times> string option"
  nq_StopProducer :: "nat \<Rightarrow> 'n \<Rightarrow> 'n"
  nq_NewConsumer :: "string \<Rightarrow> string \<Rightarrow> client_config \<Rightarrow> 'n \<Rightarrow> 'n \<times> (string + nat)"
  nq_Connect :: "nat \<Rightarrow> string \<Rightarrow> 'n \<Rightarrow> 'n \<times> string option"
  nq_StopConsumer :: "nat \<Rightarrow> 'n \<Rightarrow> 'n"

text \<open>
  \<open>queued\<close> is what the daemons have accepted, by topic, \<open>producers_of\<close> and \<open>consumers_of\<close> the clients made
  and not stopped. A publication that fails may have been accepted all the same.
\<close>

locale nsq_net =
  fixes ops :: "'n nsq_ops" and queued :: "'n \<Rightarrow> (string \<times> byte list) list"
    and producers_of :: "'n \<Rightarrow> nat set" and consumers_of :: "'n \<Rightarrow> nat set"
  assumes new_producer: "nq_NewProducer ops a cc n = (n', r1) \<Longrightarrow> queued n' = queued n \<and> consumers_of n' = consumers_of n \<and>
      (case r1 of Inl e \<Rightarrow> producers_of n' = producers_of n | Inr p \<Rightarrow> p \<notin> producers_of n \<and> producers_of n' = insert p (producers_of n))"
    and ping: "nq_Ping ops p n = (n', r2) \<Longrightarrow> queued n' = queued n \<and> producers_of n' = producers_of n \<and> consumers_of n' = consumers_of n"
    and publish: "nq_Publish ops p t d n = (n', r3) \<Longrightarrow> producers_of n' = producers_of n \<and> consumers_of n' = consumers_of n \<and>
      (queued n' = queued n @ [(t, d)] \<or> r3 \<noteq> None \<and> queued n' = queued n)"
    and stop_producer: "queued (nq_StopProducer ops p n) = queued n \<and> producers_of (nq_StopProducer ops p n) = producers_of n - {p} \<and>
      consumers_of (nq_StopProducer ops p n) = consumers_of n"
    and new_consumer: "nq_NewConsumer ops t ch cc n = (n', r4) \<Longrightarrow> queued n' = queued n \<and> producers_of n' = producers_of n \<and>
      (case r4 of Inl e \<Rightarrow> consumers_of n' = consumers_of n | Inr c \<Rightarrow> c \<notin> consumers_of n \<and> consumers_of n' = insert c (consumers_of n))"
    and connect: "nq_Connect ops c a n = (n', r5) \<Longrightarrow> queued n' = queued n \<and> producers_of n' = producers_of n \<and> consumers_of n' = consumers_of n"
    and stop_consumer: "queued (nq_StopConsumer ops c n) = queued n \<and> producers_of (nq_StopConsumer ops c n) = producers_of n \<and>
      consumers_of (nq_StopConsumer ops c n) = consumers_of n - {c}"

subsection \<open>The manager\<close>

record ('n, 'h) nsq_manager =
  nm_config :: nsq_config
  nm_producers :: "nat list"
  nm_producer :: "nat option"
  nm_consumers :: "string \<Rightarrow> nat option"
  nm_handlers :: "string \<Rightarrow> 'h option"
  nm_mode :: string
  nm_currentProducer :: int
  nm_net :: 'n

definition closeProducers :: "'n nsq_ops \<Rightarrow> ('n, 'h) nsq_manager \<Rightarrow> ('n, 'h) nsq_manager" where
  "closeProducers ops m = m\<lparr>nm_net := fold (nq_StopProducer ops) (nm_producers m) (nm_net m), nm_producers := []\<rparr>"

definition initSingleMode :: "'n nsq_ops \<Rightarrow> ('n, 'h) nsq_manager \<Rightarrow> ('n, 'h) nsq_manager \<times> string option" where
  "initSingleMode ops m =
     (case nq_NewProducer ops (nc_NSQDAddress (nm_config m)) (newProducerConfig (nm_config m)) (nm_net m) of
        (n1, Inl err) \<Rightarrow> (m\<lparr>nm_net := n1\<rparr>, Some (''failed to create NSQ producer: '' @ err))
      | (n1, Inr producer) \<Rightarrow>
          (case nq_Ping ops producer n1 of
             (n2, Some err) \<Rightarrow> (m\<lparr>nm_net := nq_StopProducer ops producer n2\<rparr>, Some (''failed to ping NSQ: '' @ err))
           | (n2, None) \<Rightarrow> (m\<lparr>nm_net := n2, nm_producer := Some producer, nm_producers := nm_producers m @ [producer]\<rparr>, None)))"

text \<open>The loop over the addresses.\<close>

fun connect_cluster :: "'n nsq_ops \<Rightarrow> string list \<Rightarrow> ('n, 'h) nsq_manager \<Rightarrow> ('n, 'h) nsq_manager \<times> string option" where
  "connect_cluster ops [] m = (m, None)"
| "connect_cluster ops (addr # addrs) m =
     (case nq_NewProducer ops addr (newProducerConfig (nm_config m)) (nm_net m) of
        (n1, Inl err) \<Rightarrow> (closeProducers ops (m\<lparr>nm_net := n1\<rparr>), Some (''failed to create NSQ producer for '' @ addr @ '': '' @ err))
      | (n1, Inr producer) \<Rightarrow>
          (case nq_Ping ops producer n1 of
             (n2, Some err) \<Rightarrow>
               (let m2 = m\<lparr>nm_net := nq_StopProducer ops producer n2\<rparr> in
                if \<not> nc_FailoverEnabled (nm_config m)
                then (closeProducers ops m2, Some (''failed to ping NSQ '' @ addr @ '': '' @ err))
                else connect_cluster ops addrs m2)
           | (n2, None) \<Rightarrow> connect_cluster ops addrs (m\<lparr>nm_net := n2, nm_producers := nm_producers m @ [producer]\<rparr>)))"

definition initClusterMode :: "'n nsq_ops \<Rightarrow> ('n, 'h) nsq_manager \<Rightarrow> ('n, 'h) nsq_manager \<times> string option" where
  "initClusterMode ops m =
     (if nc_NSQDAddresses (nm_config m) = [] then (m, Some ''NSQD addresses not configured for cluster mode'')
      else case connect_cluster ops (nc_NSQDAddresses (nm_config m)) m of
        (m1, Some err) \<Rightarrow> (m1, Some err)
      | (m1, None) \<Rightarrow>
          (case nm_producers m1 of
             [] \<Rightarrow> (m1, Some ''no NSQD nodes available'')
           | p # _ \<Rightarrow> (m1\<lparr>nm_producer := Some p\<rparr>, None)))"

definition NewNSQManager :: "'n nsq_ops \<Rightarrow> nsq_config option \<Rightarrow> 'n \<Rightarrow> 'n \<times> (string + ('n, 'h) nsq_manager)" where
  "NewNSQManager ops config n =
     (case config of
        None \<Rightarrow> (n, Inl ''nsq config is required'')
      | Some c \<Rightarrow>
          (let m = \<lparr>nm_config = normalize c, nm_producers = [], nm_producer = None, nm_consumers = Map.empty, nm_handlers = Map.empty,
                 nm_mode = (if nc_ClusterMode c then ''cluster'' else ''single''), nm_currentProducer = 0, nm_net = n\<rparr>
           in case (if nc_ClusterMode c then initClusterMode ops m else initSingleMode ops m) of
                (m1, Some err) \<Rightarrow> (nm_net m1, Inl (''failed to initialize NSQ: '' @ err))
              | (m1, None) \<Rightarrow> (nm_net m1, Inr m1)))"

subsection \<open>Publishing\<close>

text \<open>A panic is a nil producer, or the index of a counter that has wrapped.\<close>

definition publish_main :: "'n nsq_ops \<Rightarrow> string \<Rightarrow> byte list \<Rightarrow> ('n, 'h) nsq_manager \<Rightarrow> ('n, 'h) nsq_manager \<times> string option outcome" where
  "publish_main ops topic data m =
     (case nm_producer m of
        None \<Rightarrow> (m, Panic)
      | Some p \<Rightarrow> (case nq_Publish ops p topic data (nm_net m) of (n, r) \<Rightarrow> (m\<lparr>nm_net := n\<rparr>, Ret r)))"

fun failover :: "'n nsq_ops \<Rightarrow> nat \<Rightarrow> nat list \<Rightarrow> string \<Rightarrow> byte list \<Rightarrow> 'n \<Rightarrow> 'n \<times> bool" where
  "failover ops failed [] topic data n = (n, False)"
| "failover ops failed (p # ps) topic data n =
     (if p = failed then failover ops failed ps topic data n
      else case nq_Publish ops p topic data n of
        (n1, None) \<Rightarrow> (n1, True)
      | (n1, Some _) \<Rightarrow> failover ops failed ps topic data n1)"

definition publishWithLoadBalancing :: "'n nsq_ops \<Rightarrow> string \<Rightarrow> byte list \<Rightarrow> ('n, 'h) nsq_manager \<Rightarrow>
    ('n, 'h) nsq_manager \<times> string option outcome" where
  "publishWithLoadBalancing ops topic data m =
     (case at_index (nm_producers m) (go_rem (nm_currentProducer m) (int (length (nm_producers m)))) of
        Panic \<Rightarrow> (m, Panic)
      | Ret producer \<Rightarrow>
          (let m1 = m\<lparr>nm_currentProducer := wrap_i64 (nm_currentProducer m + 1)\<rparr>;
               (n1, r) = nq_Publish ops producer topic data (nm_net m1)
           in case r of
                Some err \<Rightarrow>
                  if nc_FailoverEnabled (nm_config m) \<and> length (nm_producers m) > 1
                  then (case failover ops producer (nm_producers m) topic data n1 of
                          (n2, True) \<Rightarrow> (m1\<lparr>nm_net := n2\<rparr>, Ret None)
                        | (n2, False) \<Rightarrow> (m1\<lparr>nm_net := n2\<rparr>, Ret (Some (''all NSQ producers failed: '' @ err))))
                  else (m1\<lparr>nm_net := n1\<rparr>, Ret (Some err))
              | None \<Rightarrow> (m1\<lparr>nm_net := n1\<rparr>, Ret None)))"

definition Publish :: "'n nsq_ops \<Rightarrow> string \<Rightarrow> byte list \<Rightarrow> ('n, 'h) nsq_manager \<Rightarrow> ('n, 'h) nsq_manager \<times> string option outcome" where
  "Publish ops topic data m =
     (if nm_mode m = ''cluster'' \<and> nc_LoadBalancing (nm_config m) \<and> length (nm_producers m) > 1
      then publishWithLoadBalancing ops topic data m
      else publish_main ops topic data m)"

text \<open>The value is given by what \<^verbatim>\<open>json.Marshal\<close> makes of it.\<close>

definition PublishJSON :: "'n nsq_ops \<Rightarrow> string \<Rightarrow> string + byte list \<Rightarrow> ('n, 'h) nsq_manager \<Rightarrow> ('n, 'h) nsq_manager \<times> string option outcome" where
  "PublishJSON ops topic json m =
     (case json of
        Inl err \<Rightarrow> (m, Ret (Some (''failed to marshal JSON: '' @ err)))
      | Inr data \<Rightarrow> Publish ops topic data m)"

definition DeferredPublish :: "'n nsq_ops \<Rightarrow> string \<Rightarrow> duration \<Rightarrow> byte list \<Rightarrow> ('n, 'h) nsq_manager \<Rightarrow> ('n, 'h) nsq_manager \<times> string option outcome" where
  "DeferredPublish ops topic delay data m =
     (case nm_producer m of
        None \<Rightarrow> (m, Panic)
      | Some p \<Rightarrow> (case nq_DeferredPublish ops p topic delay data (nm_net m) of (n, r) \<Rightarrow> (m\<lparr>nm_net := n\<rparr>, Ret r)))"

subsection \<open>Subscriptions\<close>

definition sub_key :: "string \<Rightarrow> string \<Rightarrow> string" where
  "sub_key topic channel = topic @ ''_'' @ channel"

fun connect_lookups :: "'n nsq_ops \<Rightarrow> bool \<Rightarrow> nat \<Rightarrow> string list \<Rightarrow> 'n \<Rightarrow> 'n \<times> string option" where
  "connect_lookups ops fo c [] n = (n, None)"
| "connect_lookups ops fo c (addr # addrs) n =
     (case nq_Connect ops c addr n of
        (n1, Some err) \<Rightarrow> if \<not> fo then (n1, Some (''failed to connect to NSQLookupd '' @ addr @ '': '' @ err)) else connect_lookups ops fo c addrs n1
      | (n1, None) \<Rightarrow> connect_lookups ops fo c addrs n1)"

definition Subscribe :: "'n nsq_ops \<Rightarrow> string \<Rightarrow> string \<Rightarrow> 'h \<Rightarrow> ('n, 'h) nsq_manager \<Rightarrow> ('n, 'h) nsq_manager \<times> string option" where
  "Subscribe ops topic channel handler m =
     (let key = sub_key topic channel in
      if nm_consumers m key \<noteq> None then (m, Some (''already subscribed to '' @ topic @ ''/'' @ channel))
      else case nq_NewConsumer ops topic channel (newConsumerConfig (nm_config m)) (nm_net m) of
        (n1, Inl err) \<Rightarrow> (m\<lparr>nm_net := n1\<rparr>, Some (''failed to create consumer: '' @ err))
      | (n1, Inr consumer) \<Rightarrow>
          (case (if nm_mode m = ''cluster'' \<and> nc_NSQLookupDAddresses (nm_config m) \<noteq> []
                 then connect_lookups ops (nc_FailoverEnabled (nm_config m)) consumer (nc_NSQLookupDAddresses (nm_config m)) n1
                 else apsnd (map_option (\<lambda>err. ''failed to connect to NSQLookupd: '' @ err)) (nq_Connect ops consumer (nc_NSQLookupDAddress (nm_config m)) n1)) of
             (n2, Some err) \<Rightarrow> (m\<lparr>nm_net := n2\<rparr>, Some err)
           | (n2, None) \<Rightarrow> (m\<lparr>nm_net := n2, nm_consumers := (nm_consumers m)(key \<mapsto> consumer), nm_handlers := (nm_handlers m)(key \<mapsto> handler)\<rparr>, None)))"

definition Unsubscribe :: "'n nsq_ops \<Rightarrow> string \<Rightarrow> string \<Rightarrow> ('n, 'h) nsq_manager \<Rightarrow> ('n, 'h) nsq_manager \<times> string option" where
  "Unsubscribe ops topic channel m =
     (let key = sub_key topic channel in
      case nm_consumers m key of
        None \<Rightarrow> (m, Some (''not subscribed to '' @ topic @ ''/'' @ channel))
      | Some consumer \<Rightarrow> (m\<lparr>nm_net := nq_StopConsumer ops consumer (nm_net m), nm_consumers := (nm_consumers m)(key := None),
          nm_handlers := (nm_handlers m)(key := None)\<rparr>, None))"

fun ping_any :: "'n nsq_ops \<Rightarrow> nat list \<Rightarrow> string option \<Rightarrow> 'n \<Rightarrow> 'n \<times> string option" where
  "ping_any ops [] lastErr n = (n, Some (case lastErr of Some e \<Rightarrow> e | None \<Rightarrow> ''no nsq producers available''))"
| "ping_any ops (p # ps) lastErr n = (case nq_Ping ops p n of (n1, None) \<Rightarrow> (n1, None) | (n1, Some e) \<Rightarrow> ping_any ops ps (Some e) n1)"

definition Ping :: "'n nsq_ops \<Rightarrow> ('n, 'h) nsq_manager \<Rightarrow> ('n, 'h) nsq_manager \<times> string option" where
  "Ping ops m = (case ping_any ops (nm_producers m) None (nm_net m) of (n, r) \<Rightarrow> (m\<lparr>nm_net := n\<rparr>, r))"

text \<open>\<^verbatim>\<open>Close\<close> stops the consumers in the order in which their map is ranged over, and the main producer.\<close>

definition Close :: "'n nsq_ops \<Rightarrow> string list \<Rightarrow> ('n, 'h) nsq_manager \<Rightarrow> ('n, 'h) nsq_manager outcome" where
  "Close ops order m =
     (let n1 = fold (\<lambda>key n. case nm_consumers m key of None \<Rightarrow> n | Some c \<Rightarrow> nq_StopConsumer ops c n) order (nm_net m)
      in case nm_producer m of None \<Rightarrow> Panic | Some p \<Rightarrow> Ret (m\<lparr>nm_net := nq_StopProducer ops p n1\<rparr>))"

record cluster_stats =
  kt_mode :: string
  kt_producers :: nat
  kt_consumers :: nat
  kt_nsqd_addresses :: "string list option"
  kt_load_balancing :: "bool option"
  kt_failover_enabled :: "bool option"
  kt_producer_status :: "(nat \<times> string option) list option"

fun ping_status :: "'n nsq_ops \<Rightarrow> nat \<Rightarrow> nat list \<Rightarrow> 'n \<Rightarrow> 'n \<times> (nat \<times> string option) list" where
  "ping_status ops i [] n = (n, [])"
| "ping_status ops i (p # ps) n =
     (let (n1, r) = nq_Ping ops p n; (n2, st) = ping_status ops (Suc i) ps n1 in (n2, (i, r) # st))"

text \<open>A status without an error is a healthy producer.\<close>

definition GetClusterStats :: "'n nsq_ops \<Rightarrow> ('n, 'h) nsq_manager \<Rightarrow> ('n, 'h) nsq_manager \<times> cluster_stats" where
  "GetClusterStats ops m =
     (if nm_mode m = ''cluster''
      then (let (n, st) = ping_status ops 0 (nm_producers m) (nm_net m)
            in (m\<lparr>nm_net := n\<rparr>, \<lparr>kt_mode = nm_mode m, kt_producers = length (nm_producers m), kt_consumers = card (dom (nm_consumers m)),
                 kt_nsqd_addresses = Some (nc_NSQDAddresses (nm_config m)),
                 kt_load_balancing = Some (nc_LoadBalancing (nm_config m)), kt_failover_enabled = Some (nc_FailoverEnabled (nm_config m)),
                 kt_producer_status = Some st\<rparr>))
      else (m, \<lparr>kt_mode = nm_mode m, kt_producers = length (nm_producers m), kt_consumers = card (dom (nm_consumers m)),
                 kt_nsqd_addresses = None, kt_load_balancing = None,
             kt_failover_enabled = None, kt_producer_status = None\<rparr>))"

subsection \<open>Messages\<close>

text \<open>The values of the free-form fields are of any type \<open>'v\<close>.\<close>

record 'v game_message =
  ms_Type :: string
  ms_RoomID :: u64
  ms_UserID :: u64
  ms_Data :: "(string \<times> 'v) list"
  ms_Timestamp :: int

record chat_message =
  mc_FromUserID :: u64
  mc_ToUserID :: u64
  mc_Channel :: int
  mc_Content :: string
  mc_Timestamp :: int

record 'v system_message =
  sy_Type :: string
  sy_Target :: string
  sy_Command :: string
  sy_Args :: "(string \<times> 'v) list"
  sy_Timestamp :: int

definition NewGameMessage :: "time \<Rightarrow> string \<Rightarrow> u64 \<Rightarrow> u64 \<Rightarrow> (string \<times> 'v) list \<Rightarrow> 'v game_message" where
  "NewGameMessage now msgType roomID userID data =
     \<lparr>ms_Type = msgType, ms_RoomID = roomID, ms_UserID = userID, ms_Data = data, ms_Timestamp = time_unix now\<rparr>"

definition NewChatMessage :: "time \<Rightarrow> u64 \<Rightarrow> u64 \<Rightarrow> int \<Rightarrow> string \<Rightarrow> chat_message" where
  "NewChatMessage now fromUserID toUserID channel content =
     \<lparr>mc_FromUserID = fromUserID, mc_ToUserID = toUserID, mc_Channel = channel, mc_Content = content, mc_Timestamp = time_unix now\<rparr>"

definition NewSystemMessage :: "time \<Rightarrow> string \<Rightarrow> string \<Rightarrow> string \<Rightarrow> (string \<times> 'v) list \<Rightarrow> 'v system_message" where
  "NewSystemMessage now msgType target command args =
     \<lparr>sy_Type = msgType, sy_Target = target, sy_Command = command, sy_Args = args, sy_Timestamp = time_unix now\<rparr>"

text \<open>The JSON forms of the messages.\<close>

record 'v mq_json =
  mj_game :: "'v game_message \<Rightarrow> string + byte list"
  mj_chat :: "chat_message \<Rightarrow> string + byte list"
  mj_system :: "'v system_message \<Rightarrow> string + byte list"
  mj_un_game :: "byte list \<Rightarrow> string + 'v game_message"
  mj_un_chat :: "byte list \<Rightarrow> string + chat_message"
  mj_un_system :: "byte list \<Rightarrow> string + 'v system_message"

text \<open>A handler works on the state of its server and may fail; without a result (\<open>None\<close>) it never
  returns. A table of handlers is a map by type or command.\<close>

type_synonym ('m, 's) handler_fun = "'m \<Rightarrow> 's \<Rightarrow> 's \<times> string option option"
type_synonym ('m, 's) handlers = "string \<Rightarrow> ('m, 's) handler_fun option"

definition RegisterHandler :: "string \<Rightarrow> ('m, 's) handler_fun \<Rightarrow> ('m, 's) handlers \<Rightarrow> ('m, 's) handlers" where
  "RegisterHandler key handler hs = hs(key \<mapsto> handler)"

definition Game_HandleMessage :: "'v mq_json \<Rightarrow> ('v game_message, 's) handlers \<Rightarrow> byte list \<Rightarrow> 's \<Rightarrow> 's \<times> string option option" where
  "Game_HandleMessage js hs data s =
     (case mj_un_game js data of
        Inl err \<Rightarrow> (s, Some (Some (''failed to unmarshal game message: '' @ err)))
      | Inr gameMsg \<Rightarrow> (case hs (ms_Type gameMsg) of None \<Rightarrow> (s, Some None) | Some handler \<Rightarrow> handler gameMsg s))"

definition Chat_HandleMessage :: "'v mq_json \<Rightarrow> (chat_message, 's) handler_fun option \<Rightarrow> byte list \<Rightarrow> 's \<Rightarrow> 's \<times> string option option" where
  "Chat_HandleMessage js onMessage data s =
     (case mj_un_chat js data of
        Inl err \<Rightarrow> (s, Some (Some (''failed to unmarshal chat message: '' @ err)))
      | Inr chatMsg \<Rightarrow> (case onMessage of None \<Rightarrow> (s, Some None) | Some f \<Rightarrow> f chatMsg s))"

definition System_HandleMessage :: "'v mq_json \<Rightarrow> string \<Rightarrow> ('v system_message, 's) handlers \<Rightarrow> byte list \<Rightarrow> 's \<Rightarrow> 's \<times> string option option" where
  "System_HandleMessage js nodeID hs data s =
     (case mj_un_system js data of
        Inl err \<Rightarrow> (s, Some (Some (''failed to unmarshal system message: '' @ err)))
      | Inr sysMsg \<Rightarrow>
          if sy_Target sysMsg \<noteq> [] \<and> sy_Target sysMsg \<noteq> nodeID then (s, Some None)
          else (case hs (sy_Command sysMsg) of None \<Rightarrow> (s, Some None) | Some handler \<Rightarrow> handler sysMsg s))"

subsection \<open>The broker\<close>

record ('n, 'h) message_broker =
  mb_nsq :: "('n, 'h) nsq_manager"
  mb_nodeID :: string

definition NewMessageBroker :: "('n, 'h) nsq_manager \<Rightarrow> string \<Rightarrow> ('n, 'h) message_broker" where
  "NewMessageBroker nsq nodeID = \<lparr>mb_nsq = nsq, mb_nodeID = nodeID\<rparr>"

definition broker_publish :: "'n nsq_ops \<Rightarrow> string \<Rightarrow> string + byte list \<Rightarrow> ('n, 'h) message_broker \<Rightarrow> ('n, 'h) message_broker \<times> string option outcome" where
  "broker_publish ops topic json mb = (let (m, r) = PublishJSON ops topic json (mb_nsq mb) in (mb\<lparr>mb_nsq := m\<rparr>, r))"

definition PublishGameMessage :: "'n nsq_ops \<Rightarrow> 'v mq_json \<Rightarrow> time \<Rightarrow> string \<Rightarrow> u64 \<Rightarrow> u64 \<Rightarrow> (string \<times> 'v) list \<Rightarrow>
    ('n, 'h) message_broker \<Rightarrow> ('n, 'h) message_broker \<times> string option outcome" where
  "PublishGameMessage ops js now msgType roomID userID data mb =
     broker_publish ops ''game_events'' (mj_game js (NewGameMessage now msgType roomID userID data)) mb"

definition PublishChatMessage :: "'n nsq_ops \<Rightarrow> 'v mq_json \<Rightarrow> time \<Rightarrow> u64 \<Rightarrow> u64 \<Rightarrow> int \<Rightarrow> string \<Rightarrow>
    ('n, 'h) message_broker \<Rightarrow> ('n, 'h) message_broker \<times> string option outcome" where
  "PublishChatMessage ops js now fromUserID toUserID channel content mb =
     broker_publish ops ''chat_messages'' (mj_chat js (NewChatMessage now fromUserID toUserID channel content)) mb"

definition PublishSystemMessage :: "'n nsq_ops \<Rightarrow> 'v mq_json \<Rightarrow> time \<Rightarrow> string \<Rightarrow> string \<Rightarrow> string \<Rightarrow> (string \<times> 'v) list \<Rightarrow>
    ('n, 'h) message_broker \<Rightarrow> ('n, 'h) message_broker \<times> string option outcome" where
  "PublishSystemMessage ops js now msgType target command args mb =
     broker_publish ops ''system_messages'' (mj_system js (NewSystemMessage now msgType target command args)) mb"

definition BroadcastSystemMessage :: "'n nsq_ops \<Rightarrow> 'v mq_json \<Rightarrow> time \<Rightarrow> string \<Rightarrow> (string \<times> 'v) list \<Rightarrow>
    ('n, 'h) message_broker \<Rightarrow> ('n, 'h) message_broker \<times> string option outcome" where
  "BroadcastSystemMessage ops js now command args mb = PublishSystemMessage ops js now ''broadcast'' [] command args mb"

definition SendToNode :: "'n nsq_ops \<Rightarrow> 'v mq_json \<Rightarrow> time \<Rightarrow> string \<Rightarrow> string \<Rightarrow> (string \<times> 'v) list \<Rightarrow>
    ('n, 'h) message_broker \<Rightarrow> ('n, 'h) message_broker \<times> string option outcome" where
  "SendToNode ops js now target command args mb = PublishSystemMessage ops js now ''unicast'' target command args mb"

definition broker_subscribe :: "'n nsq_ops \<Rightarrow> string \<Rightarrow> 'h \<Rightarrow> ('n, 'h) message_broker \<Rightarrow> ('n, 'h) message_broker \<times> string option" where
  "broker_subscribe ops topic handler mb =
     (let (m, r) = Subscribe ops topic (mb_nodeID mb) handler (mb_nsq mb) in (mb\<lparr>mb_nsq := m\<rparr>, r))"

definition SubscribeGameEvents :: "'n nsq_ops \<Rightarrow> 'h \<Rightarrow> ('n, 'h) message_broker \<Rightarrow> ('n, 'h) message_broker \<times> string option" where
  "SubscribeGameEvents ops handler mb = broker_subscribe ops ''game_events'' handler mb"

definition SubscribeChatMessages :: "'n nsq_ops \<Rightarrow> 'h \<Rightarrow> ('n, 'h) message_broker \<Rightarrow> ('n, 'h) message_broker \<times> string option" where
  "SubscribeChatMessages ops handler mb = broker_subscribe ops ''chat_messages'' handler mb"

definition SubscribeSystemMessages :: "'n nsq_ops \<Rightarrow> 'h \<Rightarrow> ('n, 'h) message_broker \<Rightarrow> ('n, 'h) message_broker \<times> string option" where
  "SubscribeSystemMessages ops handler mb = broker_subscribe ops ''system_messages'' handler mb"

subsection \<open>What is queued\<close>

context nsq_net
begin

lemma failover_queued:
  "failover ops f ps t d n = (n', ok) \<Longrightarrow> producers_of n' = producers_of n \<and> consumers_of n' = consumers_of n \<and>
   (\<exists>k \<le> length (filter (\<lambda>p. p \<noteq> f) ps). queued n' = queued n @ replicate k (t, d) \<and> (ok \<longrightarrow> 0 < k))"
proof (induction ps arbitrary: n)
  case (Cons p ps)
  show ?case
  proof (cases "p = f")
    case True
    with Cons show ?thesis by simp
  next
    case False
    obtain n1 r where p: "nq_Publish ops p t d n = (n1, r)" by fastforce
    from publish [OF p] consider (once) "queued n1 = queued n @ replicate 1 (t, d)" | (lost) "r \<noteq> None" "queued n1 = queued n @ replicate 0 (t, d)" by auto
    then obtain j where j: "j \<le> 1" "queued n1 = queued n @ replicate j (t, d)" "r = None \<longrightarrow> 0 < j"
      by cases (auto intro: that [of 1] that [of 0])
    show ?thesis
    proof (cases r)
      case None
      with Cons.prems False p have "n' = n1 \<and> ok" by simp
      with j None publish [OF p] False show ?thesis by (auto intro!: exI [of _ j])
    next
      case (Some e)
      with Cons.prems False p have "failover ops f ps t d n1 = (n', ok)" by simp
      from Cons.IH [OF this] obtain k where k: "k \<le> length (filter (\<lambda>p. p \<noteq> f) ps)" "queued n' = queued n1 @ replicate k (t, d)" "ok \<longrightarrow> 0 < k"
        "producers_of n' = producers_of n1" "consumers_of n' = consumers_of n1" by blast
      then have "queued n' = queued n @ replicate (j + k) (t, d)" using j by (simp add: replicate_add)
      with k j publish [OF p] False show ?thesis by (auto intro!: exI [of _ "j + k"])
    qed
  qed
qed simp

text \<open>A publication queues the message some times; when it succeeds, at least once.\<close>

lemma publish_queued:
  assumes "Publish ops t d m = (m', r)"
  shows "producers_of (nm_net m') = producers_of (nm_net m) \<and> consumers_of (nm_net m') = consumers_of (nm_net m) \<and>
    nm_producers m' = nm_producers m \<and> nm_producer m' = nm_producer m \<and>
    (\<exists>k \<le> max 1 (length (nm_producers m)). queued (nm_net m') = queued (nm_net m) @ replicate k (t, d) \<and> (r = Ret None \<longrightarrow> 0 < k))"
proof (cases "nm_mode m = ''cluster'' \<and> nc_LoadBalancing (nm_config m) \<and> length (nm_producers m) > 1")
  case False
  then have pm: "publish_main ops t d m = (m', r)" using assms by (auto simp: Publish_def split: if_splits)
  show ?thesis
  proof (cases "nm_producer m")
    case None
    with pm show ?thesis by (auto simp: publish_main_def intro!: exI [of _ 0])
  next
    case (Some p)
    obtain n1 x where p: "nq_Publish ops p t d (nm_net m) = (n1, x)" by fastforce
    with pm Some have e: "m' = m\<lparr>nm_net := n1\<rparr>" "r = Ret x" by (auto simp: publish_main_def)
    from publish [OF p] obtain j where j: "j \<le> 1" "queued n1 = queued (nm_net m) @ replicate j (t, d)" "x = None \<longrightarrow> 0 < j"
      by (cases "queued n1 = queued (nm_net m) @ [(t, d)]") (auto intro: that [of 1] that [of 0])
    with e publish [OF p] show ?thesis by (auto intro!: exI [of _ j])
  qed
next
  case True
  then have pb: "publishWithLoadBalancing ops t d m = (m', r)" using assms by (simp add: Publish_def)
  show ?thesis
  proof (cases "at_index (nm_producers m) (go_rem (nm_currentProducer m) (int (length (nm_producers m))))")
    case Panic
    with pb show ?thesis by (auto simp: publishWithLoadBalancing_def intro!: exI [of _ 0])
  next
    case (Ret p)
    then have pin: "p \<in> set (nm_producers m)" by (auto simp: at_index_def split: if_splits)
    obtain n1 x where p: "nq_Publish ops p t d (nm_net m) = (n1, x)" by fastforce
    from publish [OF p] obtain j where j: "j \<le> 1" "queued n1 = queued (nm_net m) @ replicate j (t, d)" "x = None \<longrightarrow> 0 < j"
      by (cases "queued n1 = queued (nm_net m) @ [(t, d)]") (auto intro: that [of 1] that [of 0])
    obtain n2 ok where f: "failover ops p (nm_producers m) t d n1 = (n2, ok)" by fastforce
    from failover_queued [OF f] obtain k where k: "k \<le> length (filter (\<lambda>q. q \<noteq> p) (nm_producers m))"
      "queued n2 = queued n1 @ replicate k (t, d)" "ok \<longrightarrow> 0 < k" "producers_of n2 = producers_of n1" "consumers_of n2 = consumers_of n1" by blast
    have "length (filter (\<lambda>q. q \<noteq> p) (nm_producers m)) < length (nm_producers m)"
      using pin by (simp add: length_filter_less)
    with k(1) j(1) have le: "j + k \<le> length (nm_producers m)" "j \<le> length (nm_producers m)" using True by auto
    have qk: "queued n2 = queued (nm_net m) @ replicate (j + k) (t, d)" using j(2) k(2) by (simp add: replicate_add)
    consider (one) "nm_net m' = n1" "r = Ret x" | (two) "nm_net m' = n2" "r = Ret None \<longrightarrow> ok"
      using pb Ret p f by (auto simp: publishWithLoadBalancing_def Let_def split: option.splits if_splits bool.splits)
    moreover have "nm_producers m' = nm_producers m \<and> nm_producer m' = nm_producer m"
      using pb Ret p f by (auto simp: publishWithLoadBalancing_def Let_def split: option.splits if_splits bool.splits)
    ultimately show ?thesis
    proof cases
      case one
      with j le publish [OF p] \<open>nm_producers m' = nm_producers m \<and> nm_producer m' = nm_producer m\<close> show ?thesis
        by (auto intro!: exI [of _ j])
    next
      case two
      with k qk le publish [OF p] \<open>nm_producers m' = nm_producers m \<and> nm_producer m' = nm_producer m\<close> show ?thesis
        by (auto intro!: exI [of _ "j + k"])
    qed
  qed
qed

end

subsection \<open>What is open\<close>

text \<open>
  The producers of the manager are open and distinct, besides those (\<open>B\<close>) that were open before it; its
  consumers run, one per key, each with a handler.
\<close>

definition producers_open :: "nat set \<Rightarrow> nat set \<Rightarrow> ('n, 'h) nsq_manager \<Rightarrow> bool" where
  "producers_open live B m \<longleftrightarrow> distinct (nm_producers m) \<and> set (nm_producers m) \<inter> B = {} \<and> live = B \<union> set (nm_producers m)"

definition consumers_open :: "nat set \<Rightarrow> ('n, 'h) nsq_manager \<Rightarrow> bool" where
  "consumers_open live m \<longleftrightarrow> dom (nm_consumers m) = dom (nm_handlers m) \<and> ran (nm_consumers m) \<subseteq> live \<and> inj_on (nm_consumers m) (dom (nm_consumers m))"

definition manager_ok :: "nat set \<Rightarrow> nat set \<Rightarrow> nat set \<Rightarrow> ('n, 'h) nsq_manager \<Rightarrow> bool" where
  "manager_ok lp lc B m \<longleftrightarrow> producers_open lp B m \<and> consumers_open lc m \<and> (\<exists>p \<in> set (nm_producers m). nm_producer m = Some p)"

context nsq_net
begin

lemma stop_all: "producers_of (fold (nq_StopProducer ops) ps n) = producers_of n - set ps \<and> queued (fold (nq_StopProducer ops) ps n) = queued n \<and>
    consumers_of (fold (nq_StopProducer ops) ps n) = consumers_of n"
  by (induction ps arbitrary: n) (auto simp: stop_producer)

lemma closed_producers:
  assumes "producers_open (producers_of (nm_net m)) B m"
  shows "producers_of (nm_net (closeProducers ops m)) = B \<and> consumers_of (nm_net (closeProducers ops m)) = consumers_of (nm_net m)"
  using assms stop_all [of "nm_producers m" "nm_net m"] by (auto simp: closeProducers_def producers_open_def)

lemma connect_cluster_open:
  assumes "connect_cluster ops addrs m = (m', r)" and "producers_open (producers_of (nm_net m)) B m"
  shows "consumers_of (nm_net m') = consumers_of (nm_net m) \<and> nm_consumers m' = nm_consumers m \<and> nm_handlers m' = nm_handlers m \<and>
    (if r = None then producers_open (producers_of (nm_net m')) B m' else producers_of (nm_net m') = B)"
  using assms
proof (induction addrs arbitrary: m)
  case (Cons a addrs)
  obtain n1 x where p: "nq_NewProducer ops a (newProducerConfig (nm_config m)) (nm_net m) = (n1, x)" by fastforce
  note np = new_producer [OF p]
  show ?case
  proof (cases x)
    case (Inl e)
    let ?m = "m\<lparr>nm_net := n1\<rparr>"
    have "producers_open (producers_of (nm_net ?m)) B ?m" using Cons.prems(2) np Inl by (simp add: producers_open_def)
    from closed_producers [OF this] Cons.prems(1) p Inl np show ?thesis by (auto simp: closeProducers_def)
  next
    case (Inr q)
    obtain n2 y where g: "nq_Ping ops q n1 = (n2, y)" by fastforce
    have q: "q \<notin> B" "q \<notin> set (nm_producers m)" "producers_of n1 = insert q (producers_of (nm_net m))" "consumers_of n1 = consumers_of (nm_net m)"
      using np Inr Cons.prems(2) by (auto simp: producers_open_def)
    show ?thesis
    proof (cases y)
      case None
      let ?m = "m\<lparr>nm_net := n2, nm_producers := nm_producers m @ [q]\<rparr>"
      have "connect_cluster ops addrs ?m = (m', r)" using Cons.prems(1) p Inr g None by simp
      moreover have "producers_open (producers_of (nm_net ?m)) B ?m" using Cons.prems(2) q ping [OF g] by (auto simp: producers_open_def)
      ultimately show ?thesis using Cons.IH [of ?m] q ping [OF g] by simp
    next
      case (Some e)
      let ?m = "m\<lparr>nm_net := nq_StopProducer ops q n2\<rparr>"
      have o: "producers_open (producers_of (nm_net ?m)) B ?m" using Cons.prems(2) q ping [OF g] by (auto simp: producers_open_def stop_producer)
      show ?thesis
      proof (cases "nc_FailoverEnabled (nm_config m)")
        case True
        then have "connect_cluster ops addrs ?m = (m', r)" using Cons.prems(1) p Inr g Some by (simp add: Let_def)
        from Cons.IH [OF this o] q ping [OF g] show ?thesis by (simp add: stop_producer)
      next
        case False
        then have "m' = closeProducers ops ?m" "r \<noteq> None" using Cons.prems(1) p Inr g Some by (auto simp: Let_def)
        with closed_producers [OF o] q ping [OF g] show ?thesis by (auto simp: stop_producer closeProducers_def)
      qed
    qed
  qed
qed auto

text \<open>A manager that is made is sound; one that is not leaves no producer open.\<close>

lemma new_manager:
  assumes "NewNSQManager ops config n = (n', r)"
  shows "consumers_of n' = consumers_of n \<and> (case r of Inl e \<Rightarrow> producers_of n' = producers_of n
    | Inr m \<Rightarrow> nm_net m = n' \<and> manager_ok (producers_of n') (consumers_of n') (producers_of n) (m :: ('n, 'h) nsq_manager))"
proof (cases config)
  case None
  with assms show ?thesis by (auto simp: NewNSQManager_def)
next
  case (Some c)
  define m0 :: "('n, 'h) nsq_manager" where "m0 = \<lparr>nm_config = normalize c, nm_producers = [], nm_producer = None, nm_consumers = Map.empty,
     nm_handlers = Map.empty, nm_mode = (if nc_ClusterMode c then ''cluster'' else ''single''), nm_currentProducer = 0, nm_net = n\<rparr>"
  define ini where "ini = (if nc_ClusterMode c then initClusterMode ops m0 else initSingleMode ops m0)"
  obtain m1 x where i: "ini = (m1, x)" by fastforce
  have res: "(n', r) = (case x of Some err \<Rightarrow> (nm_net m1, Inl (''failed to initialize NSQ: '' @ err)) | None \<Rightarrow> (nm_net m1, Inr m1))"
  proof -
    have "NewNSQManager ops config n = (case ini of (m1, Some err) \<Rightarrow> (nm_net m1, Inl (''failed to initialize NSQ: '' @ err)) | (m1, None) \<Rightarrow> (nm_net m1, Inr m1))"
      unfolding NewNSQManager_def ini_def m0_def Some Let_def by (simp only: option.case)
    with assms i show ?thesis by (simp split: option.splits)
  qed
  have o0: "producers_open (producers_of (nm_net m0)) (producers_of n) m0" by (simp add: producers_open_def m0_def)
  have "consumers_of (nm_net m1) = consumers_of n \<and>
      (if x = None then manager_ok (producers_of (nm_net m1)) (consumers_of (nm_net m1)) (producers_of n) m1 else producers_of (nm_net m1) = producers_of n)"
  proof (cases "nc_ClusterMode c")
    case True
    then have ic: "initClusterMode ops m0 = (m1, x)" using i by (simp add: ini_def)
    obtain m2 y where c2: "connect_cluster ops (nc_NSQDAddresses (nm_config m0)) m0 = (m2, y)" by fastforce
    note co = connect_cluster_open [OF c2 o0]
    show ?thesis
    proof (cases "nc_NSQDAddresses (nm_config m0) = [] \<or> y \<noteq> None \<or> nm_producers m2 = []")
      case True
      with ic c2 co show ?thesis
        by (cases y) (auto simp: initClusterMode_def m0_def producers_open_def split: if_splits)
    next
      case False
      then obtain p ps where "nm_producers m2 = p # ps" by (cases "nm_producers m2") auto
      with False ic c2 have "m1 = m2\<lparr>nm_producer := Some p\<rparr>" "x = None" "nm_producers m2 = p # ps" by (auto simp: initClusterMode_def)
      with co False show ?thesis by (auto simp: manager_ok_def producers_open_def consumers_open_def m0_def)
    qed
  next
    case False
    then have single: "initSingleMode ops m0 = (m1, x)" using i by (simp add: ini_def)
    obtain n1 y where p: "nq_NewProducer ops (nc_NSQDAddress (nm_config m0)) (newProducerConfig (nm_config m0)) (nm_net m0) = (n1, y)" by fastforce
    show ?thesis
    proof (cases y)
      case (Inl e)
      with single p new_producer [OF p] show ?thesis by (auto simp: initSingleMode_def m0_def)
    next
      case (Inr q)
      obtain n2 z where g: "nq_Ping ops q n1 = (n2, z)" by fastforce
      have q: "q \<notin> producers_of n" "producers_of n1 = insert q (producers_of n)" "consumers_of n1 = consumers_of n"
        using new_producer [OF p] Inr by (auto simp: m0_def)
      show ?thesis
      proof (cases z)
        case None
        with single p Inr g have "m1 = m0\<lparr>nm_net := n2, nm_producer := Some q, nm_producers := [q]\<rparr>" "x = None"
          by (auto simp: initSingleMode_def m0_def)
        with q ping [OF g] show ?thesis by (auto simp: manager_ok_def producers_open_def consumers_open_def m0_def)
      next
        case (Some e)
        with single p Inr g have "m1 = m0\<lparr>nm_net := nq_StopProducer ops q n2\<rparr>" "x \<noteq> None" by (auto simp: initSingleMode_def m0_def)
        with q ping [OF g] show ?thesis by (auto simp: stop_producer)
      qed
    qed
  qed
  with res show ?thesis by (cases x) auto
qed

end

lemma consumers_open_mono:
  assumes "consumers_open lc m" and "lc \<subseteq> lc'" and "nm_consumers m' = nm_consumers m" and "nm_handlers m' = nm_handlers m"
  shows "consumers_open lc' m'"
  using assms by (auto simp: consumers_open_def)

lemma consumers_open_add:
  assumes "consumers_open lc m" and "c \<notin> lc" and "nm_consumers m k = None"
    and "nm_consumers m' = (nm_consumers m)(k \<mapsto> c)" and "nm_handlers m' = (nm_handlers m)(k \<mapsto> h)"
  shows "consumers_open (insert c lc) m'"
proof -
  have "nm_consumers m j \<noteq> Some c" for j using assms(1,2) by (auto simp: consumers_open_def ran_def)
  with assms show ?thesis by (auto simp: consumers_open_def ran_def inj_on_def split: if_splits) metis+
qed

datatype 'h nsq_call = SubscribeC string string 'h | UnsubscribeC string string | PublishC string "byte list" | PingC

fun nsq_step :: "'n nsq_ops \<Rightarrow> 'h nsq_call \<Rightarrow> ('n, 'h) nsq_manager \<Rightarrow> ('n, 'h) nsq_manager" where
  "nsq_step ops (SubscribeC t ch h) m = fst (Subscribe ops t ch h m)"
| "nsq_step ops (UnsubscribeC t ch) m = fst (Unsubscribe ops t ch m)"
| "nsq_step ops (PublishC t d) m = fst (Publish ops t d m)"
| "nsq_step ops PingC m = fst (Ping ops m)"

definition nsq_run :: "'n nsq_ops \<Rightarrow> 'h nsq_call list \<Rightarrow> ('n, 'h) nsq_manager \<Rightarrow> ('n, 'h) nsq_manager" where
  "nsq_run ops calls m = fold (nsq_step ops) calls m"

context nsq_net
begin

abbreviation "sound B m \<equiv> manager_ok (producers_of (nm_net m)) (consumers_of (nm_net m)) B m"

lemma connect_lookups_keeps: "connect_lookups ops fo c as n = (n', r) \<Longrightarrow> producers_of n' = producers_of n \<and> consumers_of n' = consumers_of n \<and> queued n' = queued n"
proof (induction as arbitrary: n)
  case (Cons a as)
  obtain n1 x where c: "nq_Connect ops c a n = (n1, x)" by fastforce
  show ?case
  proof (cases "x \<noteq> None \<and> \<not> fo")
    case True
    with Cons.prems c connect [OF c] show ?thesis by auto
  next
    case False
    with Cons.prems c have "connect_lookups ops fo c as n1 = (n', r)" by (auto split: option.splits)
    from Cons.IH [OF this] connect [OF c] show ?thesis by simp
  qed
qed simp

lemma subscribed:
  assumes "Subscribe ops t ch h m = (m', r)"
  shows "producers_of (nm_net m') = producers_of (nm_net m) \<and> nm_producers m' = nm_producers m \<and> nm_producer m' = nm_producer m \<and>
    (nm_consumers m' = nm_consumers m \<and> nm_handlers m' = nm_handlers m \<and> r \<noteq> None \<and>
       (consumers_of (nm_net m') = consumers_of (nm_net m) \<or> (\<exists>c. c \<notin> consumers_of (nm_net m) \<and> consumers_of (nm_net m') = insert c (consumers_of (nm_net m)))) \<or>
     (\<exists>c. r = None \<and> nm_consumers m (sub_key t ch) = None \<and> c \<notin> consumers_of (nm_net m) \<and> consumers_of (nm_net m') = insert c (consumers_of (nm_net m)) \<and>
        nm_consumers m' = (nm_consumers m)(sub_key t ch \<mapsto> c) \<and> nm_handlers m' = (nm_handlers m)(sub_key t ch \<mapsto> h)))"
proof (cases "nm_consumers m (sub_key t ch)")
  case (Some c)
  with assms show ?thesis by (auto simp: Subscribe_def Let_def)
next
  case None
  obtain n1 x where c: "nq_NewConsumer ops t ch (newConsumerConfig (nm_config m)) (nm_net m) = (n1, x)" by fastforce
  show ?thesis
  proof (cases x)
    case (Inl e)
    with assms None c new_consumer [OF c] show ?thesis by (auto simp: Subscribe_def Let_def)
  next
    case (Inr q)
    define con where "con = (if nm_mode m = ''cluster'' \<and> nc_NSQLookupDAddresses (nm_config m) \<noteq> []
      then connect_lookups ops (nc_FailoverEnabled (nm_config m)) q (nc_NSQLookupDAddresses (nm_config m)) n1
      else apsnd (map_option (\<lambda>err. ''failed to connect to NSQLookupd: '' @ err)) (nq_Connect ops q (nc_NSQLookupDAddress (nm_config m)) n1))"
    obtain n2 y where y: "con = (n2, y)" by fastforce
    have "producers_of n2 = producers_of n1 \<and> consumers_of n2 = consumers_of n1"
    proof (cases "nm_mode m = ''cluster'' \<and> nc_NSQLookupDAddresses (nm_config m) \<noteq> []")
      case True
      with y connect_lookups_keeps show ?thesis by (simp add: con_def)
    next
      case False
      obtain n3 z where "nq_Connect ops q (nc_NSQLookupDAddress (nm_config m)) n1 = (n3, z)" by fastforce
      with False y connect [OF this] show ?thesis unfolding con_def by (auto simp only: if_False apsnd_conv)
    qed
    moreover have "Subscribe ops t ch h m = (case con of (n2, Some err) \<Rightarrow> (m\<lparr>nm_net := n2\<rparr>, Some err)
        | (n2, None) \<Rightarrow> (m\<lparr>nm_net := n2, nm_consumers := (nm_consumers m)(sub_key t ch \<mapsto> q), nm_handlers := (nm_handlers m)(sub_key t ch \<mapsto> h)\<rparr>, None))"
      using None c Inr unfolding Subscribe_def con_def Let_def by simp
    ultimately show ?thesis using assms y None new_consumer [OF c] Inr by (cases y) auto
  qed
qed

lemma publish_frame:
  "nm_consumers (fst (Publish ops t d m)) = nm_consumers m \<and> nm_handlers (fst (Publish ops t d m)) = nm_handlers m"
  by (simp add: Publish_def publish_main_def publishWithLoadBalancing_def Let_def split: option.split outcome.split prod.split bool.split)

lemma ping_any_keeps: "ping_any ops ps e n = (n', r) \<Longrightarrow> producers_of n' = producers_of n \<and> consumers_of n' = consumers_of n"
proof (induction ps arbitrary: n e)
  case (Cons p ps)
  obtain n1 x where g: "nq_Ping ops p n = (n1, x)" by fastforce
  with Cons ping [OF g] show ?case by (cases x) auto
qed simp

lemma sound_step:
  assumes "sound B m"
  shows "sound B (nsq_step ops call m)"
proof (cases call)
  case (SubscribeC t ch h)
  obtain m' r where s: "Subscribe ops t ch h m = (m', r)" by fastforce
  note su = subscribed [OF s]
  have p: "producers_open (producers_of (nm_net m')) B m'" "\<exists>p \<in> set (nm_producers m'). nm_producer m' = Some p"
    using su assms by (simp_all add: manager_ok_def producers_open_def)
  have "consumers_open (consumers_of (nm_net m)) m" using assms by (simp add: manager_ok_def)
  then have "consumers_open (consumers_of (nm_net m')) m'"
    using su consumers_open_mono [of _ m _ m'] consumers_open_add [of _ m _ "sub_key t ch" m'] by (metis subset_insertI subset_refl)
  with p have "sound B m'" by (simp add: manager_ok_def)
  with SubscribeC s show ?thesis by simp
next
  case (UnsubscribeC t ch)
  show ?thesis
  proof (cases "nm_consumers m (sub_key t ch)")
    case None
    with UnsubscribeC assms show ?thesis by (simp add: Unsubscribe_def Let_def)
  next
    case (Some c)
    have "c' \<noteq> c" if "nm_consumers m k = Some c'" "k \<noteq> sub_key t ch" for k c'
    proof
      assume "c' = c"
      moreover have "inj_on (nm_consumers m) (dom (nm_consumers m))" using assms unfolding manager_ok_def consumers_open_def by blast
      ultimately have "k = sub_key t ch" using that(1) Some by (metis domI inj_onD)
      with that(2) show False by simp
    qed
    with Some have "consumers_open (consumers_of (nm_net m) - {c})
        (m\<lparr>nm_net := nq_StopConsumer ops c (nm_net m), nm_consumers := (nm_consumers m)(sub_key t ch := None), nm_handlers := (nm_handlers m)(sub_key t ch := None)\<rparr>)"
      using assms by (auto simp: manager_ok_def consumers_open_def inj_on_def ran_def)
    with Some UnsubscribeC assms show ?thesis
      by (simp add: Unsubscribe_def Let_def manager_ok_def producers_open_def stop_consumer)
  qed
next
  case (PublishC t d)
  obtain m' r where p: "Publish ops t d m = (m', r)" by fastforce
  have "nm_consumers m' = nm_consumers m \<and> nm_handlers m' = nm_handlers m"
    using publish_frame [of t d m] p by simp
  then have "consumers_open (consumers_of (nm_net m')) m'"
    using publish_queued [OF p] assms consumers_open_mono [of "consumers_of (nm_net m)" m "consumers_of (nm_net m')" m'] by (simp add: manager_ok_def)
  with publish_queued [OF p] assms PublishC p show ?thesis by (simp add: manager_ok_def producers_open_def)
next
  case PingC
  obtain n' r where g: "ping_any ops (nm_producers m) None (nm_net m) = (n', r)" by fastforce
  have "consumers_open (consumers_of n') (m\<lparr>nm_net := n'\<rparr>)"
    using ping_any_keeps [OF g] assms consumers_open_mono [of "consumers_of (nm_net m)" m "consumers_of n'" "m\<lparr>nm_net := n'\<rparr>"] by (simp add: manager_ok_def)
  with ping_any_keeps [OF g] PingC assms g show ?thesis by (simp add: Ping_def manager_ok_def producers_open_def)
qed

lemma sound_run: "sound B m \<Longrightarrow> sound B (nsq_run ops calls m)"
  unfolding nsq_run_def by (induction calls arbitrary: m) (simp_all add: sound_step)

lemma stopped_consumers:
  "producers_of (fold (\<lambda>key n. case f key of None \<Rightarrow> n | Some c \<Rightarrow> nq_StopConsumer ops c n) ks n) = producers_of n \<and>
   consumers_of (fold (\<lambda>key n. case f key of None \<Rightarrow> n | Some c \<Rightarrow> nq_StopConsumer ops c n) ks n) = consumers_of n - {c. \<exists>k \<in> set ks. f k = Some c}"
proof (induction ks arbitrary: n)
  case (Cons k ks)
  then show ?case by (cases "f k") (auto simp: stop_consumer)
qed simp

end

subsection \<open>A network in memory\<close>

text \<open>Daemons that are down do not answer a ping and take no message.\<close>

record mem_nsq =
  mq_queued :: "(string \<times> byte list) list"
  mq_producers :: "(nat \<times> string) list"
  mq_consumers :: "nat list"
  mq_down :: "string list"

definition fresh :: "nat list \<Rightarrow> nat" where
  "fresh xs = Suc (foldr max xs 0)"

lemma fresh_notin: "fresh xs \<notin> set xs"
proof
  assume "fresh xs \<in> set xs"
  moreover have "x \<in> set xs \<Longrightarrow> x \<le> foldr max xs 0" for x by (induction xs) auto
  ultimately show False by (fastforce simp: fresh_def)
qed

definition mem_up :: "mem_nsq \<Rightarrow> nat \<Rightarrow> bool" where
  "mem_up n p = (case map_of (mq_producers n) p of None \<Rightarrow> False | Some a \<Rightarrow> a \<notin> set (mq_down n))"

definition mem_nsq_ops :: "mem_nsq nsq_ops" where
  "mem_nsq_ops = \<lparr>
     nq_NewProducer = (\<lambda>a cc n. let p = fresh (map fst (mq_producers n)) in (n\<lparr>mq_producers := (p, a) # mq_producers n\<rparr>, Inr p)),
     nq_Ping = (\<lambda>p n. (n, if mem_up n p then None else Some ''down'')),
     nq_Publish = (\<lambda>p t d n. if mem_up n p then (n\<lparr>mq_queued := mq_queued n @ [(t, d)]\<rparr>, None) else (n, Some ''down'')),
     nq_DeferredPublish = (\<lambda>p t delay d n. if mem_up n p then (n\<lparr>mq_queued := mq_queued n @ [(t, d)]\<rparr>, None) else (n, Some ''down'')),
     nq_StopProducer = (\<lambda>p n. n\<lparr>mq_producers := filter (\<lambda>(q, a). q \<noteq> p) (mq_producers n)\<rparr>),
     nq_NewConsumer = (\<lambda>t ch cc n. let c = fresh (mq_consumers n) in (n\<lparr>mq_consumers := c # mq_consumers n\<rparr>, Inr c)),
     nq_Connect = (\<lambda>c a n. (n, if a \<in> set (mq_down n) then Some ''down'' else None)),
     nq_StopConsumer = (\<lambda>c n. n\<lparr>mq_consumers := filter (\<lambda>d. d \<noteq> c) (mq_consumers n)\<rparr>)\<rparr>"

interpretation mem_nsq: nsq_net mem_nsq_ops mq_queued "\<lambda>n. fst ` set (mq_producers n)" "\<lambda>n. set (mq_consumers n)"
proof (unfold_locales, goal_cases)
  case (1 a cc n n' r1)
  then show ?case using fresh_notin [of "map fst (mq_producers n)"] by (auto simp: mem_nsq_ops_def Let_def)
next
  case (5 t ch cc n n' r4)
  then show ?case using fresh_notin [of "mq_consumers n"] by (auto simp: mem_nsq_ops_def Let_def)
qed (auto simp: mem_nsq_ops_def image_iff split: if_splits)

definition demo_cluster :: nsq_config where
  "demo_cluster = \<lparr>nc_NSQDAddress = [], nc_NSQLookupDAddress = ''l'', nc_ClusterMode = True, nc_NSQDAddresses = [''a'', ''x'', ''b''],
     nc_NSQLookupDAddresses = [], nc_MaxInFlight = 0, nc_DialTimeout = 0, nc_ReadTimeout = 0, nc_WriteTimeout = 0, nc_MessageTimeout = 0,
     nc_LoadBalancing = True, nc_FailoverEnabled = True, nc_HealthCheckInterval = 0, nc_ProducerPoolSize = 0\<rparr>"

definition demo_net :: mem_nsq where
  "demo_net = \<lparr>mq_queued = [], mq_producers = [], mq_consumers = [], mq_down = [''x'']\<rparr>"

definition demo_manager :: "(mem_nsq, unit) nsq_manager" where
  "demo_manager = projr (snd (NewNSQManager mem_nsq_ops (Some demo_cluster) demo_net))"

lemma demo_made: "NewNSQManager mem_nsq_ops (Some demo_cluster) demo_net = (nm_net demo_manager, Inr demo_manager)"
proof -
  have "\<not> isl (snd (NewNSQManager mem_nsq_ops (Some demo_cluster) demo_net :: mem_nsq \<times> (string + (mem_nsq, unit) nsq_manager)))" by code_simp
  then have "snd (NewNSQManager mem_nsq_ops (Some demo_cluster) demo_net) = Inr demo_manager" by (simp add: demo_manager_def)
  then obtain n' where e: "NewNSQManager mem_nsq_ops (Some demo_cluster) demo_net = (n', Inr demo_manager)" by (metis prod.collapse)
  from mem_nsq.new_manager [OF this] e show ?thesis by simp
qed

lemma demo_producers: "length (nm_producers demo_manager) = 2" "nm_producer demo_manager = Some (hd (nm_producers demo_manager))"
  by code_simp+

lemma demo_sound: "manager_ok (fst ` set (mq_producers (nm_net demo_manager))) (set (mq_consumers (nm_net demo_manager))) {} demo_manager"
proof -
  have "fst ` set (mq_producers demo_net) = {}" by (simp add: demo_net_def)
  moreover have "mem_nsq.sound (fst ` set (mq_producers demo_net)) demo_manager"
    using mem_nsq.new_manager [OF demo_made, unfolded sum.case] by blast
  ultimately show ?thesis by (simp only:)
qed

subsection \<open>Properties\<close>



text \<open>
  a publication that reports success has queued the message at least once, and one that fails may have
  queued it too: in all it was queued under its topic at most once per producer, and nothing else was.
\<close>

theorem publish_at_least_once:
  assumes "nsq_net ops queued producers_of consumers_of" and "Publish ops topic data m = (m', r)"
  shows "\<exists>k \<le> max 1 (length (nm_producers m)). queued (nm_net m') = queued (nm_net m) @ replicate k (topic, data) \<and>
    (r = Ret None \<longrightarrow> 0 < k)"
  using nsq_net.publish_queued [OF assms] by blast

lemma publish_at_least_once_witness:
  "\<exists>k. 0 < k \<and> mq_queued (nm_net (fst (Publish mem_nsq_ops ''t'' [1] demo_manager))) = replicate k (''t'', [1])"
proof -
  have "snd (Publish mem_nsq_ops ''t'' [1] demo_manager) = Ret None" by code_simp
  moreover have "mq_queued (nm_net demo_manager) = []" by code_simp
  ultimately show ?thesis
    using publish_at_least_once [OF mem_nsq.nsq_net_axioms, of "''t''" "[1]" demo_manager, OF prod.collapse [symmetric]] by auto
qed

text \<open>
  closing the manager of a cluster stops all its consumers but of its producers only the main one:
  the others stay open.
\<close>

theorem close_leaves_producers_open:
  assumes "nsq_net ops queued producers_of consumers_of" and "manager_ok (producers_of (nm_net m)) (consumers_of (nm_net m)) B m"
    and "nm_producers m = p # q # ps" and "nm_producer m = Some p" and "set order = dom (nm_consumers m)"
  shows "\<exists>m'. Close ops order m = Ret m' \<and> producers_of (nm_net m') = B \<union> set (q # ps) \<and>
    consumers_of (nm_net m') = consumers_of (nm_net m) - ran (nm_consumers m)"
proof -
  note st = nsq_net.stopped_consumers [OF assms(1), of "nm_consumers m" order "nm_net m"]
  have "{c. \<exists>k \<in> set order. nm_consumers m k = Some c} = ran (nm_consumers m)" using assms(5) by (auto simp: ran_def)
  moreover have "producers_of (nm_net m) - {p} = B \<union> set (q # ps)"
    using assms(2,3) by (auto simp: manager_ok_def producers_open_def)
  ultimately show ?thesis using st assms(4) by (simp add: Close_def Let_def nsq_net.stop_producer [OF assms(1)])
qed

lemma close_leaves_producers_open_witness:
  "\<exists>m' p. Close mem_nsq_ops [] demo_manager = Ret m' \<and> p \<in> fst ` set (mq_producers (nm_net m'))"
proof -
  from demo_producers(1) obtain p q ps where ps: "nm_producers demo_manager = p # q # ps"
    by (metis One_nat_def Suc_1 length_Suc_conv)
  moreover have "manager_ok (fst ` set (mq_producers (nm_net demo_manager))) (set (mq_consumers (nm_net demo_manager))) {} demo_manager"
    by (rule demo_sound)
  moreover have "dom (nm_consumers demo_manager) = {}"
  proof -
    have "ran (nm_consumers demo_manager) \<subseteq> {}"
      using demo_sound mem_nsq.new_manager [OF demo_made] by (auto simp: manager_ok_def consumers_open_def demo_net_def)
    then show ?thesis unfolding ran_def dom_def by auto
  qed
  ultimately show ?thesis
    using close_leaves_producers_open [OF mem_nsq.nsq_net_axioms, of demo_manager "{}" p q ps "[]"] demo_producers(2) by auto
qed

text \<open>
  C19: a system message that is published without an error is queued at least once, and a node that takes it
  from the queue runs its handler of the command with exactly this message when the message is for that
  node or for all, and does nothing otherwise; a message for all is one without a target.
\<close>

theorem system_message_reaches_target:
  assumes "nsq_net ops queued producers_of consumers_of" and "\<And>msg d. mj_system js msg = Inr d \<Longrightarrow> mj_un_system js d = Inr msg"
    and "PublishSystemMessage ops js now msgType target command args mb = (mb', Ret None)"
  shows "\<exists>data k. 0 < k \<and> queued (nm_net (mb_nsq mb')) = queued (nm_net (mb_nsq mb)) @ replicate k (''system_messages'', data) \<and>
    System_HandleMessage js nodeID hs data s =
      (if target = [] \<or> target = nodeID
       then (case hs command of None \<Rightarrow> (s, Some None) | Some h \<Rightarrow> h (NewSystemMessage now msgType target command args) s)
       else (s, Some None))"
proof -
  obtain data where d: "mj_system js (NewSystemMessage now msgType target command args) = Inr data"
    using assms(3) by (cases "mj_system js (NewSystemMessage now msgType target command args)")
      (auto simp: PublishSystemMessage_def broker_publish_def PublishJSON_def)
  obtain m r where p: "Publish ops ''system_messages'' data (mb_nsq mb) = (m, r)" by fastforce
  have "r = Ret None" "mb_nsq mb' = m"
    using assms(3) d p by (auto simp: PublishSystemMessage_def broker_publish_def PublishJSON_def)
  with nsq_net.publish_queued [OF assms(1) p] obtain k where "0 < k" "queued (nm_net (mb_nsq mb')) = queued (nm_net (mb_nsq mb)) @ replicate k (''system_messages'', data)" by blast
  moreover have "System_HandleMessage js nodeID hs data s =
      (if target = [] \<or> target = nodeID
       then (case hs command of None \<Rightarrow> (s, Some None) | Some h \<Rightarrow> h (NewSystemMessage now msgType target command args) s)
       else (s, Some None))"
    using assms(2) [OF d] by (simp add: System_HandleMessage_def NewSystemMessage_def split: option.split)
  ultimately show ?thesis by blast
qed

definition demo_json :: "unit mq_json" where
  "demo_json = \<lparr>mj_game = (\<lambda>_. Inl ''no''), mj_chat = (\<lambda>_. Inl ''no''),
     mj_system = (\<lambda>m. if m = NewSystemMessage unix_epoch ''unicast'' ''n1'' ''shutdown'' [] then Inr [1] else Inl ''no''),
     mj_un_game = (\<lambda>_. Inl ''no''), mj_un_chat = (\<lambda>_. Inl ''no''),
     mj_un_system = (\<lambda>d. if d = [1] then Inr (NewSystemMessage unix_epoch ''unicast'' ''n1'' ''shutdown'' []) else Inl ''no'')\<rparr>"

lemma system_message_reaches_target_witness:
  "\<exists>data. System_HandleMessage demo_json ''n1'' [''shutdown'' \<mapsto> \<lambda>m s. (sy_Target m, Some None)] data ''up'' = (''n1'', Some None) \<and>
     (\<exists>k. 0 < k \<and> mq_queued (nm_net (mb_nsq (fst (PublishSystemMessage mem_nsq_ops demo_json unix_epoch ''unicast'' ''n1'' ''shutdown'' []
        (NewMessageBroker demo_manager ''c''))))) = replicate k (''system_messages'', data))"
proof -
  let ?p = "PublishSystemMessage mem_nsq_ops demo_json unix_epoch ''unicast'' ''n1'' ''shutdown'' [] (NewMessageBroker demo_manager ''c'')"
  have "snd ?p = Ret None"
  proof -
    have "snd (Publish mem_nsq_ops ''system_messages'' [1] demo_manager) = Ret None" by code_simp
    then show ?thesis
      by (simp add: PublishSystemMessage_def broker_publish_def PublishJSON_def demo_json_def NewMessageBroker_def split_beta)
  qed
  then have p: "?p = (fst ?p, Ret None)" by (metis prod.collapse)
  have "mq_queued (nm_net (mb_nsq (NewMessageBroker demo_manager ''c''))) = []" by (simp add: NewMessageBroker_def) code_simp
  moreover have "mj_system demo_json msg = Inr d \<Longrightarrow> mj_un_system demo_json d = Inr msg" for msg d
    by (auto simp: demo_json_def split: if_splits)
  moreover note system_message_reaches_target [OF mem_nsq.nsq_net_axioms _ p, where nodeID = "''n1''" and hs = "[''shutdown'' \<mapsto> \<lambda>m s. (sy_Target m, Some None)]" and s = "''up''"]
  ultimately show ?thesis by (auto simp: NewSystemMessage_def)
qed

end
