(* ===== verification/Gateway.thy ===== *)
theory Gateway
  imports TcpServer Redis Discovery RpcPool Protocol
begin

text \<open>
  \<^verbatim>\<open>internal/server/gateway_server.go\<close>: the message handler between the client connections of
  \<open>TcpServer\<close> and the servers behind, over the service discovery, the sessions in Redis and one pool of
  RPC connections per server address; and the RPC service of the gateway. A handler is called with a
  connection that has its object in the store. The protobuf codec is a parameter. What happens outside
  during one message is the record \<open>gateway_env\<close>: the clock, what the pool's \<^verbatim>\<open>Get\<close> meets, what the RPC
  call returns, whether the client is lost meanwhile. A request pointer is never nil: \<^verbatim>\<open>HandleMessage\<close>
  passes its own variable. The actor of the gateway only logs; logging is left out.
\<close>

subsection \<open>State\<close>

record ('e, 'b, 'c) gateway_deps =
  gd_registry :: "'e registry_deps"
  gd_select :: "'b balancer"
  gd_redis :: "'c redis_ops"
  gd_nodeID :: string
  gd_PoolSize :: int
  gd_unmarshal_request :: "byte list \<Rightarrow> string + base_request"
  gd_unmarshal_login :: "byte list \<Rightarrow> string + login_request"
  gd_unmarshal_reply :: "byte list \<Rightarrow> string + login_response"
  gd_marshal_reply :: "login_response \<Rightarrow> string + byte list"
  gd_marshal_response :: "base_response \<Rightarrow> string + byte list"

record ('e, 'b, 'c) gateway =
  gw_tcp :: tcp_server
  gw_discovery :: "('e, 'b) service_discovery"
  gw_redis :: 'c
  gw_pools :: "string \<Rightarrow> rpc_pool option"

record gateway_env =
  ge_now :: time
  ge_arrivals :: "arrival list"
  ge_dial :: bool
  ge_call :: "login_request \<Rightarrow> string + byte list"
  ge_lost :: bool

datatype handler_error = HandlerText string | HandlerConn conn_error

definition NewGatewayMessageHandler :: "tcp_server \<Rightarrow> ('e, 'b) service_discovery \<Rightarrow> 'c \<Rightarrow> ('e, 'b, 'c) gateway" where
  "NewGatewayMessageHandler tcp disc redis = \<lparr>gw_tcp = tcp, gw_discovery = disc, gw_redis = redis, gw_pools = Map.empty\<rparr>"

definition on_conn :: "u64 \<Rightarrow> (connection \<Rightarrow> connection) \<Rightarrow> ('e, 'b, 'c) gateway \<Rightarrow> ('e, 'b, 'c) gateway" where
  "on_conn i f g = g\<lparr>gw_tcp := update_conn i f (gw_tcp g)\<rparr>"

subsection \<open>Responses\<close>

text \<open>The body is what \<^verbatim>\<open>proto.Marshal\<close> makes of the data, if there is any. The length goes before the response.\<close>

definition sendResponse :: "('e, 'b, 'c) gateway_deps \<Rightarrow> time \<Rightarrow> u64 \<Rightarrow> base_request \<Rightarrow> int \<Rightarrow> string \<Rightarrow> (string + byte list) option \<Rightarrow>
    ('e, 'b, 'c) gateway \<Rightarrow> ('e, 'b, 'c) gateway \<times> handler_error option outcome" where
  "sendResponse deps now i request code msg data g =
     (case (case data of None \<Rightarrow> Inr [] | Some r \<Rightarrow> r) of
        Inl err \<Rightarrow> (g, Ret (Some (HandlerText (''failed to marshal response data: '' @ err))))
      | Inr body \<Rightarrow>
          (case gd_marshal_response deps \<lparr>bp_Header = br_Header request, bp_Code = code, bp_Msg = msg, bp_Data = body\<rparr> of
             Inl err \<Rightarrow> (g, Ret (Some (HandlerText (''failed to marshal response: '' @ err))))
           | Inr bytes \<Rightarrow>
               (let (tcp, r) = write_to now (put_be32 (of_nat (length bytes)) @ bytes) i (gw_tcp g)
                in (g\<lparr>gw_tcp := tcp\<rparr>, case r of Panic \<Rightarrow> Panic | Ret e \<Rightarrow> Ret (map_option HandlerConn e)))))"

definition sendError :: "('e, 'b, 'c) gateway_deps \<Rightarrow> time \<Rightarrow> u64 \<Rightarrow> base_request \<Rightarrow> int \<Rightarrow> string \<Rightarrow>
    ('e, 'b, 'c) gateway \<Rightarrow> ('e, 'b, 'c) gateway \<times> handler_error option outcome" where
  "sendError deps now i request code msg g = sendResponse deps now i request code msg None g"

definition rejectSession :: "('e, 'b, 'c) gateway_deps \<Rightarrow> time \<Rightarrow> u64 \<Rightarrow> base_request \<Rightarrow> int \<Rightarrow> string \<Rightarrow>
    ('e, 'b, 'c) gateway \<Rightarrow> ('e, 'b, 'c) gateway \<times> handler_error option outcome" where
  "rejectSession deps now i request code msg g =
     (case sendError deps now i request code msg g of
        (g1, Ret None) \<Rightarrow> (g1, Ret (Some (HandlerText msg)))
      | (g1, r) \<Rightarrow> (g1, r))"

subsection \<open>Sessions\<close>

definition validateSession :: "('e, 'b, 'c) gateway_deps \<Rightarrow> time \<Rightarrow> u64 \<Rightarrow> connection \<Rightarrow> base_request \<Rightarrow>
    ('e, 'b, 'c) gateway \<Rightarrow> ('e, 'b, 'c) gateway \<times> handler_error option outcome" where
  "validateSession deps now i c request g =
     (case br_Header request of
        None \<Rightarrow> rejectSession deps now i request (- 10000) ''invalid request'' g
      | Some h \<Rightarrow>
          if cn_UserID c = 0 \<or> cn_SessionID c = [] then rejectSession deps now i request (- 10001) ''unauthenticated'' g
          else if mh_UserId h = 0 \<or> mh_SessionId h = [] then rejectSession deps now i request (- 10001) ''missing session'' g
          else if mh_UserId h \<noteq> cn_UserID c \<or> mh_SessionId h \<noteq> cn_SessionID c then rejectSession deps now i request (- 10002) ''session mismatch'' g
          else
            case GetSessionContext (gd_redis deps) (mh_SessionId h) now (gw_redis g) of
              (r1, Inl _) \<Rightarrow> rejectSession deps now i request (- 10003) ''invalid session'' (g\<lparr>gw_redis := r1\<rparr>)
            | (r1, Inr userID) \<Rightarrow>
                if userID \<noteq> mh_UserId h then rejectSession deps now i request (- 10002) ''session mismatch'' (g\<lparr>gw_redis := r1\<rparr>)
                else (let (r2, _) = RefreshSessionContext (gd_redis deps) (mh_SessionId h) now r1 in (g\<lparr>gw_redis := r2\<rparr>, Ret None)))"

subsection \<open>Login\<close>

definition pool_key :: "string \<Rightarrow> int \<Rightarrow> string" where
  "pool_key address port = address @ '':'' @ fmt_int port"

definition set_pool :: "string \<Rightarrow> rpc_pool \<Rightarrow> ('e, 'b, 'c) gateway \<Rightarrow> ('e, 'b, 'c) gateway" where
  "set_pool key p g = g\<lparr>gw_pools := (gw_pools g)(key \<mapsto> p)\<rparr>"

text \<open>The pool of an address, made when it is first asked for.\<close>

definition rpcPool :: "('e, 'b, 'c) gateway_deps \<Rightarrow> string \<Rightarrow> ('e, 'b, 'c) gateway \<Rightarrow> rpc_pool outcome" where
  "rpcPool deps key g =
     (case gw_pools g key of
        Some p \<Rightarrow> Ret p
      | None \<Rightarrow> NewRPCConnectionPool (if gd_PoolSize deps \<le> 0 then 8 else gd_PoolSize deps))"

text \<open>What follows a client from the pool: the call, and the identity of the connection.\<close>

definition login_call :: "('e, 'b, 'c) gateway_deps \<Rightarrow> gateway_env \<Rightarrow> u64 \<Rightarrow> base_request \<Rightarrow> login_request \<Rightarrow>
    ('e, 'b, 'c) gateway \<Rightarrow> ('e, 'b, 'c) gateway \<times> handler_error option outcome" where
  "login_call deps env i request loginReq g =
     (case ge_call env loginReq of
        Inl _ \<Rightarrow> sendError deps (ge_now env) i request (- 3) ''login failed'' g
      | Inr responseData \<Rightarrow>
          (case gd_unmarshal_reply deps responseData of
             Inl _ \<Rightarrow> sendError deps (ge_now env) i request (- 4) ''invalid login response'' g
           | Inr loginResp \<Rightarrow>
               if lr_UserId loginResp = 0 \<or> lr_Token loginResp = []
               then sendError deps (ge_now env) i request (- 5) ''invalid login response'' g
               else
                 (let g1 = on_conn i (\<lambda>c. c\<lparr>cn_UserID := lr_UserId loginResp, cn_SessionID := lr_Token loginResp\<rparr>) g;
                      (r, _) = SetUserOnlineContext (gd_redis deps) (lr_UserId loginResp) (gd_nodeID deps) (ge_now env) (gw_redis g1)
                  in sendResponse deps (ge_now env) i request 0 ''login success'' (Some (gd_marshal_reply deps loginResp)) (g1\<lparr>gw_redis := r\<rparr>))))"

text \<open>The client goes back to its pool when the handler returns.\<close>

definition handleLogin :: "('e, 'b, 'c) gateway_deps \<Rightarrow> gateway_env \<Rightarrow> u64 \<Rightarrow> base_request \<Rightarrow>
    ('e, 'b, 'c) gateway \<Rightarrow> ('e, 'b, 'c) gateway \<times> handler_error option outcome" where
  "handleLogin deps env i request g =
     (case gd_unmarshal_login deps (br_Data request) of
        Inl err \<Rightarrow> (g, Ret (Some (HandlerText (''failed to unmarshal login request: '' @ err))))
      | Inr loginReq \<Rightarrow>
          (case Discovery_GetService (gd_registry deps) (gd_select deps) ''login'' (gw_discovery g) of
             Panic \<Rightarrow> (g, Panic)
           | Ret (sd, None) \<Rightarrow> sendError deps (ge_now env) i request (- 1) ''login service not available'' (g\<lparr>gw_discovery := sd\<rparr>)
           | Ret (sd, Some svc) \<Rightarrow>
               (let g1 = g\<lparr>gw_discovery := sd\<rparr>; key = pool_key (si_Address svc) (si_Port svc) in
                case rpcPool deps key g1 of
                  Panic \<Rightarrow> (g1, Panic)
                | Ret pool \<Rightarrow>
                    (case RpcPool.Get pool (ge_arrivals env) (ge_dial env) of
                       (pool1, Panic) \<Rightarrow> (set_pool key pool1 g1, Panic)
                     | (pool1, Ret (Inl _)) \<Rightarrow> sendError deps (ge_now env) i request (- 2) ''login service unavailable'' (set_pool key pool1 g1)
                     | (pool1, Ret (Inr client)) \<Rightarrow>
                         (let (g2, r) = login_call deps env i request loginReq (set_pool key pool1 g1);
                              pool2 = (if ge_lost env then pool1\<lparr>rp_alive := (rp_alive pool1)(client := False)\<rparr> else pool1)
                          in case RpcPool.Put (Some client) pool2 of
                               Panic \<Rightarrow> (set_pool key pool2 g2, Panic)
                             | Ret pool3 \<Rightarrow> (set_pool key pool3 g2, r))))))"

subsection \<open>The other messages\<close>

definition handleHeartbeat :: "('e, 'b, 'c) gateway_deps \<Rightarrow> time \<Rightarrow> u64 \<Rightarrow> base_request \<Rightarrow>
    ('e, 'b, 'c) gateway \<Rightarrow> ('e, 'b, 'c) gateway \<times> handler_error option outcome" where
  "handleHeartbeat deps now i request g =
     sendResponse deps now i request 0 ''pong'' None (on_conn i (\<lambda>c. c\<lparr>cn_LastActivity := now\<rparr>) g)"

definition handleLogout :: "('e, 'b, 'c) gateway_deps \<Rightarrow> time \<Rightarrow> u64 \<Rightarrow> connection \<Rightarrow>
    ('e, 'b, 'c) gateway \<Rightarrow> ('e, 'b, 'c) gateway \<times> handler_error option outcome" where
  "handleLogout deps now i c g =
     (let g1 = (if cn_UserID c \<noteq> 0 then g\<lparr>gw_redis := fst (SetUserOffline (gd_redis deps) (cn_UserID c) now (gw_redis g))\<rparr> else g)
      in (on_conn i CloseConn g1, Ret None))"

definition target_service :: "u32 \<Rightarrow> string option" where
  "target_service msgID =
     (if 2000 \<le> msgID \<and> msgID < 3000 then Some ''lobby''
      else if 3000 \<le> msgID \<and> msgID < 4000 then Some ''game''
      else if 4000 \<le> msgID \<and> msgID < 5000 then Some ''friend''
      else if 5000 \<le> msgID \<and> msgID < 6000 then Some ''chat''
      else if 6000 \<le> msgID \<and> msgID < 7000 then Some ''mail''
      else None)"

definition forwardMessage :: "('e, 'b, 'c) gateway_deps \<Rightarrow> time \<Rightarrow> u64 \<Rightarrow> u32 \<Rightarrow> base_request \<Rightarrow>
    ('e, 'b, 'c) gateway \<Rightarrow> ('e, 'b, 'c) gateway \<times> handler_error option outcome" where
  "forwardMessage deps now i msgID request g =
     (case target_service msgID of
        None \<Rightarrow> sendError deps now i request (- 1) ''unknown message type'' g
      | Some targetService \<Rightarrow>
          (case Discovery_GetService (gd_registry deps) (gd_select deps) targetService (gw_discovery g) of
             Panic \<Rightarrow> (g, Panic)
           | Ret (sd, None) \<Rightarrow> sendError deps now i request (- 2) (targetService @ '' service not available'') (g\<lparr>gw_discovery := sd\<rparr>)
           | Ret (sd, Some _) \<Rightarrow> sendError deps now i request (- 3) ''message forwarding not implemented'' (g\<lparr>gw_discovery := sd\<rparr>)))"

definition after_session :: "('e, 'b, 'c) gateway_deps \<Rightarrow> time \<Rightarrow> u64 \<Rightarrow> connection \<Rightarrow> base_request \<Rightarrow>
    (('e, 'b, 'c) gateway \<Rightarrow> ('e, 'b, 'c) gateway \<times> handler_error option outcome) \<Rightarrow>
    ('e, 'b, 'c) gateway \<Rightarrow> ('e, 'b, 'c) gateway \<times> handler_error option outcome" where
  "after_session deps now i c request k g =
     (case validateSession deps now i c request g of (g1, Ret None) \<Rightarrow> k g1 | (g1, r) \<Rightarrow> (g1, r))"

definition routeMessage :: "('e, 'b, 'c) gateway_deps \<Rightarrow> gateway_env \<Rightarrow> u64 \<Rightarrow> connection \<Rightarrow> u32 \<Rightarrow> base_request \<Rightarrow>
    ('e, 'b, 'c) gateway \<Rightarrow> ('e, 'b, 'c) gateway \<times> handler_error option outcome" where
  "routeMessage deps env i c msgID request g =
     (if msgID = 1001 then handleLogin deps env i request g
      else if msgID = 1002 then after_session deps (ge_now env) i c request (handleHeartbeat deps (ge_now env) i request) g
      else if msgID = 1003 then after_session deps (ge_now env) i c request (handleLogout deps (ge_now env) i c) g
      else after_session deps (ge_now env) i c request (forwardMessage deps (ge_now env) i msgID request) g)"

definition HandleMessage :: "('e, 'b, 'c) gateway_deps \<Rightarrow> gateway_env \<Rightarrow> u64 \<Rightarrow> byte list \<Rightarrow>
    ('e, 'b, 'c) gateway \<Rightarrow> ('e, 'b, 'c) gateway \<times> handler_error option outcome" where
  "HandleMessage deps env i data g =
     (case ts_objs (gw_tcp g) i of
        None \<Rightarrow> (g, Ret None)
      | Some c \<Rightarrow>
          if length data < 4 then (g, Ret (Some (HandlerText ''message too short'')))
          else case gd_unmarshal_request deps (drop 4 data) of
            Inl err \<Rightarrow> (g, Ret (Some (HandlerText (''failed to unmarshal request: '' @ err))))
          | Inr request \<Rightarrow> routeMessage deps env i c (get_be32 data) request g)"

text \<open>\<^verbatim>\<open>Close\<close> closes the pools one by one; the order is the one in which the map is ranged over.\<close>

fun close_pools :: "string list \<Rightarrow> ('e, 'b, 'c) gateway \<Rightarrow> ('e, 'b, 'c) gateway \<times> unit outcome" where
  "close_pools [] g = (g, Ret ())"
| "close_pools (key # keys) g =
     (case gw_pools g key of
        None \<Rightarrow> close_pools keys g
      | Some p \<Rightarrow> (case RpcPool.Close p of Panic \<Rightarrow> (g, Panic) | Ret _ \<Rightarrow> close_pools keys (g\<lparr>gw_pools := (gw_pools g)(key := None)\<rparr>)))"

subsection \<open>The RPC service of the gateway\<close>

definition Gateway_GetConnectionCount :: "base_request \<Rightarrow> ('e, 'b, 'c) gateway \<Rightarrow> base_response" where
  "Gateway_GetConnectionCount req g = reply req 0 (''connection count: '' @ fmt_int (GetConnectionCount (gw_tcp g)))"

definition Gateway_SendToUser :: "base_request \<Rightarrow> base_response" where
  "Gateway_SendToUser req = reply req 0 ''message sent''"

definition Gateway_BroadcastMessage :: "time \<Rightarrow> base_request \<Rightarrow> ('e, 'b, 'c) gateway \<Rightarrow> ('e, 'b, 'c) gateway \<times> base_response" where
  "Gateway_BroadcastMessage now req g = (g\<lparr>gw_tcp := Broadcast now (br_Data req) (gw_tcp g)\<rparr>, reply req 0 ''message broadcasted'')"

definition Gateway_KickUser :: "base_request \<Rightarrow> base_response" where
  "Gateway_KickUser req = reply req 0 ''user kicked''"

subsection \<open>What a handler may do to a connection\<close>

text \<open>Writing changes the socket and the time of the last activity of one connection, nothing else.\<close>

definition talked :: "connection \<Rightarrow> connection \<Rightarrow> bool" where
  "talked c c' \<longleftrightarrow> c' = c\<lparr>cn_Conn := cn_Conn c', cn_LastActivity := cn_LastActivity c'\<rparr>"

lemma talked_refl [simp, intro]: "talked c c"
  by (simp add: talked_def)

lemma talked_trans: "talked a b \<Longrightarrow> talked b c \<Longrightarrow> talked a c"
  unfolding talked_def by (cases a, cases b, cases c) simp

lemma talked_ids: "talked c c' \<Longrightarrow> cn_UserID c' = cn_UserID c \<and> cn_SessionID c' = cn_SessionID c \<and> cn_ID c' = cn_ID c \<and> cn_closed c' = cn_closed c"
  unfolding talked_def by (cases c, cases c') simp

lemma sock_facts:
  "writeFull sock_write x d \<noteq> (x', Panic)"
  "writeFull sock_write x d = (x', Ret None) \<Longrightarrow> so_sent x' = so_sent x @ d"
  "sock_set_deadline x t = (x', e) \<Longrightarrow> so_sent x' = so_sent x"
  using tcp_sock.writeFull_no_panic [of x d] tcp_sock.writeFull_ok [of x d x'] tcp_sock.deadline_out [of sock_set_deadline x t x' e]
  by (simp_all add: sock_ops_def)

lemma write_conn:
  assumes "Write now d c = (c', r)"
  shows "talked c c' \<and> r \<noteq> Panic \<and> (r = Ret None \<longrightarrow>
    (cn_maxWriteSize c = 0 \<or> (of_nat (length d) :: u32) \<le> cn_maxWriteSize c) \<and> so_sent (cn_Conn c') = so_sent (cn_Conn c) @ d)"
  using assms sock_facts unfolding Write_def WriteWithTimeout_def Let_def talked_def
  by (auto simp: not_less split: if_splits prod.splits option.splits outcome.splits)

lemma sendResponse_write:
  assumes "sendResponse deps now i request code msg data g = (g', r)"
  shows "\<exists>f. g' = on_conn i f g \<and> (\<forall>c. talked c (f c)) \<and> r \<noteq> Panic \<and>
    (r = Ret None \<longrightarrow> ts_objs (gw_tcp g) i \<noteq> None \<and> (\<exists>body bytes. (case data of None \<Rightarrow> Inr [] | Some x \<Rightarrow> x) = Inr body \<and>
      gd_marshal_response deps \<lparr>bp_Header = br_Header request, bp_Code = code, bp_Msg = msg, bp_Data = body\<rparr> = Inr bytes \<and>
      (\<forall>c. ts_objs (gw_tcp g) i = Some c \<longrightarrow>
        (cn_maxWriteSize c = 0 \<or> (of_nat (4 + length bytes) :: u32) \<le> cn_maxWriteSize c) \<and>
        so_sent (cn_Conn (f c)) = so_sent (cn_Conn c) @ encode_frame bytes)))"
proof -
  have same: "g = on_conn i (\<lambda>c. c) g"
    by (simp add: on_conn_def update_conn_def option.map_ident)
  show ?thesis
  proof (cases "case data of None \<Rightarrow> Inr [] | Some x \<Rightarrow> x")
    case (Inl e)
    with assms same show ?thesis by (auto simp: sendResponse_def)
  next
    case body: (Inr body)
    show ?thesis
    proof (cases "gd_marshal_response deps \<lparr>bp_Header = br_Header request, bp_Code = code, bp_Msg = msg, bp_Data = body\<rparr>")
      case (Inl e)
      with assms same body show ?thesis by (auto simp: sendResponse_def)
    next
      case bytes: (Inr bytes)
      show ?thesis
      proof (cases "ts_objs (gw_tcp g) i")
        case None
        with assms same body bytes show ?thesis by (auto simp: sendResponse_def write_to_def)
      next
        case (Some c)
        obtain c' q where w: "Write now (put_be32 (of_nat (length bytes)) @ bytes) c = (c', q)" by fastforce
        let ?f = "\<lambda>x. fst (Write now (put_be32 (of_nat (length bytes)) @ bytes) x)"
        have "g' = on_conn i ?f g" "r = (case q of Panic \<Rightarrow> Panic | Ret e \<Rightarrow> Ret (map_option HandlerConn e))"
          using assms body bytes Some w by (auto simp: sendResponse_def write_to_def on_conn_def update_conn_def)
        moreover have "talked x (?f x)" for x
          using write_conn [of now "put_be32 (of_nat (length bytes)) @ bytes" x] by (metis prod.collapse)
        ultimately show ?thesis using write_conn [OF w] body bytes Some w
          by (intro exI [of _ ?f]) (auto simp: encode_frame_def split: outcome.splits)
      qed
    qed
  qed
qed

lemma sendError_talks: "sendError deps now i request code msg g = (g', r) \<Longrightarrow> \<exists>f. g' = on_conn i f g \<and> (\<forall>c. talked c (f c)) \<and> r \<noteq> Panic"
  unfolding sendError_def using sendResponse_write by blast

lemma rejectSession_talks:
  assumes "rejectSession deps now i request code msg g = (g', r)"
  shows "\<exists>f. g' = on_conn i f g \<and> (\<forall>c. talked c (f c)) \<and> (\<exists>e. r = Ret (Some e))"
proof -
  obtain g1 q where s: "sendError deps now i request code msg g = (g1, q)" by fastforce
  from sendError_talks [OF s] obtain f where "g1 = on_conn i f g" "\<forall>c. talked c (f c)" "q \<noteq> Panic" by blast
  moreover from s assms this(3) have "g' = g1 \<and> (\<exists>e. r = Ret (Some e))"
    by (cases q) (auto simp: rejectSession_def split: option.splits)
  ultimately show ?thesis by blast
qed

lemma on_conn_simps [simp]:
  "gw_discovery (on_conn i f g) = gw_discovery g" "gw_redis (on_conn i f g) = gw_redis g" "gw_pools (on_conn i f g) = gw_pools g"
  "gw_tcp (on_conn i f g) = update_conn i f (gw_tcp g)"
  by (simp_all add: on_conn_def)

subsection \<open>Sessions\<close>

text \<open>The request carries the identity of its connection, and the session of that identity is live.\<close>

definition session_held :: "connection \<Rightarrow> base_request \<Rightarrow> time \<Rightarrow> (string \<Rightarrow> (u64 \<times> time) option) \<Rightarrow> bool" where
  "session_held c request now sess \<longleftrightarrow> cn_UserID c \<noteq> 0 \<and> (case br_Header request of
      None \<Rightarrow> False
    | Some h \<Rightarrow> mh_UserId h = cn_UserID c \<and> mh_SessionId h = cn_SessionID c \<and>
        (case sess (cn_SessionID c) of None \<Rightarrow> False | Some (u, t) \<Rightarrow> u = cn_UserID c \<and> now \<le> t))"

locale gateway_on =
  redis_store "gd_redis deps" entries valid for deps :: "('e, 'b, 'c) gateway_deps" and entries and valid
begin

abbreviation "sess g \<equiv> sessions (entries (gw_redis g))"
abbreviation "redis_ok g \<equiv> valid (gw_redis g) \<and> sessions_wf (entries (gw_redis g))"

lemma got_session:
  assumes "redis_ok g" and "GetSessionContext (gd_redis deps) sid now (gw_redis g) = (r1, x)"
  shows "valid r1 \<and> sessions_wf (entries r1) \<and> sessions (entries r1) = sess g \<and> (\<forall>u. x = Inr u \<longrightarrow> (\<exists>t. sess g sid = Some (u, t) \<and> now \<le> t))"
  using get_session [of "gw_redis g" sid now r1 x] assms by (simp add: caches_def)

lemma refreshed_session:
  assumes "valid r1 \<and> sessions_wf (entries r1)" and "RefreshSessionContext (gd_redis deps) sid now r1 = (r2, e)"
  shows "valid r2 \<and> sessions_wf (entries r2) \<and> (sessions (entries r2) = extended now sid (sessions (entries r1)) \<or> sessions (entries r2) = sessions (entries r1))"
  using refresh_session [of r1 sid now r2 e] assms by (auto simp: caches_def done_or_failed_def)

lemma set_online:
  assumes "valid r \<and> sessions_wf (entries r)" and "SetUserOnlineContext (gd_redis deps) uid node now r = (r', e)"
  shows "valid r' \<and> sessions_wf (entries r') \<and> sessions (entries r') = sessions (entries r)"
proof -
  have "0 \<le> 1800 * second" by (simp add: second_def)
  moreover have "online_key uid \<noteq> session_key sid" for sid by (rule other_keys(2) [symmetric])
  ultimately show ?thesis using set_other [of r "1800 * second" "online_key uid" "ArgString node" now r' e] assms
    by (simp add: SetUserOnlineContext_def)
qed

lemma set_offline:
  assumes "valid r \<and> sessions_wf (entries r)" and "SetUserOffline (gd_redis deps) uid now r = (r', e)"
  shows "valid r' \<and> sessions_wf (entries r') \<and> sessions (entries r') = sessions (entries r)"
  using offline [of r uid now r' e] assms by (simp add: caches_def)

end

context gateway_on
begin

text \<open>
  A session check leaves everything but the connection's socket and the session store; it succeeds only
  when the session is held, and then extends it at most.
\<close>

lemma validated:
  assumes "redis_ok g" and "validateSession deps now i c request g = (g', r)"
  shows "redis_ok g' \<and> (\<exists>f. gw_tcp g' = update_conn i f (gw_tcp g) \<and> (\<forall>c. talked c (f c))) \<and>
    gw_discovery g' = gw_discovery g \<and> gw_pools g' = gw_pools g \<and>
    (case r of Panic \<Rightarrow> False | Ret (Some _) \<Rightarrow> sess g' = sess g
     | Ret None \<Rightarrow> session_held c request now (sess g) \<and> gw_tcp g' = gw_tcp g \<and>
         (sess g' = sess g \<or> sess g' = extended now (cn_SessionID c) (sess g)))"
proof -
  have rej: ?thesis if "rejectSession deps now i request code msg (g\<lparr>gw_redis := r1\<rparr>) = (g', r)" and "valid r1 \<and> sessions_wf (entries r1)"
    "sessions (entries r1) = sess g" for code msg r1
    using rejectSession_talks [OF that(1)] that(2,3) by auto
  have rej0: ?thesis if "rejectSession deps now i request code msg g = (g', r)" for code msg
    using rej [of code msg "gw_redis g"] that assms(1) by simp
  show ?thesis
  proof (cases "br_Header request")
    case None
    with assms(2) rej0 show ?thesis by (simp add: validateSession_def)
  next
    case (Some h)
    show ?thesis
    proof (cases "cn_UserID c = 0 \<or> cn_SessionID c = [] \<or> mh_UserId h = 0 \<or> mh_SessionId h = [] \<or>
        mh_UserId h \<noteq> cn_UserID c \<or> mh_SessionId h \<noteq> cn_SessionID c")
      case True
      with assms(2) Some rej0 show ?thesis by (auto simp: validateSession_def split: if_splits)
    next
      case same: False
      obtain r1 x where x: "GetSessionContext (gd_redis deps) (cn_SessionID c) now (gw_redis g) = (r1, x)" by fastforce
      note got = got_session [OF assms(1) x]
      show ?thesis
      proof (cases "x = Inr (cn_UserID c)")
        case False
        with assms(2) Some same x got rej show ?thesis
          by (cases x) (auto simp: validateSession_def split: if_splits)
      next
        case True
        obtain r2 e where y: "RefreshSessionContext (gd_redis deps) (cn_SessionID c) now r1 = (r2, e)" by fastforce
        have "g' = g\<lparr>gw_redis := r2\<rparr>" "r = Ret None"
          using assms(2) Some same x y True by (auto simp: validateSession_def)
        moreover have "gw_tcp g = update_conn i (\<lambda>c. c) (gw_tcp g)" by (simp add: update_conn_def option.map_ident)
        moreover have "session_held c request now (sess g)" using got True Some same by (auto simp: session_held_def)
        ultimately show ?thesis using refreshed_session [OF _ y] got by auto
      qed
    qed
  qed
qed

lemma after_refused: "validateSession deps now i c request g = (g1, Ret (Some e)) \<Longrightarrow> after_session deps now i c request k g = (g1, Ret (Some e))"
  by (simp add: after_session_def)

text \<open>A message that needs a session and does not hold it is answered with an error and does nothing else.\<close>

lemma refused:
  assumes "redis_ok g" and "ts_objs (gw_tcp g) i = Some c" and "get_be32 data \<noteq> 1001" and "HandleMessage deps env i data g = (g', r)"
    and "\<And>request. gd_unmarshal_request deps (drop 4 data) = Inr request \<Longrightarrow> \<not> session_held c request (ge_now env) (sess g)"
  shows "(\<exists>e. r = Ret (Some e)) \<and> gw_discovery g' = gw_discovery g \<and> gw_pools g' = gw_pools g \<and> sess g' = sess g \<and>
    (\<exists>f. gw_tcp g' = update_conn i f (gw_tcp g) \<and> (\<forall>c. talked c (f c)))"
proof -
  have id: "gw_tcp g = update_conn i (\<lambda>c. c) (gw_tcp g)" by (simp add: update_conn_def option.map_ident)
  show ?thesis
  proof (cases "length data < 4 \<or> (\<exists>err. gd_unmarshal_request deps (drop 4 data) = Inl err)")
    case True
    with assms(2,4) have "g' = g \<and> (\<exists>e. r = Ret (Some e))" by (cases "length data < 4") (auto simp: HandleMessage_def)
    with id show ?thesis by auto
  next
    case False
    then obtain request where q: "gd_unmarshal_request deps (drop 4 data) = Inr request" "\<not> length data < 4"
      by (cases "gd_unmarshal_request deps (drop 4 data)") auto
    obtain g1 x where v: "validateSession deps (ge_now env) i c request g = (g1, x)" by fastforce
    from validated [OF assms(1) v] assms(5) [OF q(1)] obtain e where "x = Ret (Some e)"
      by (cases x) (auto split: option.splits)
    moreover from this v have "routeMessage deps env i c (get_be32 data) request g = (g1, x)"
      using assms(3) by (simp add: routeMessage_def after_refused)
    then have "g' = g1 \<and> r = x" using assms(2,4) q by (simp add: HandleMessage_def)
    ultimately show ?thesis using validated [OF assms(1) v] by auto
  qed
qed

end

subsection \<open>The identity of a connection\<close>

text \<open>What answers of the login service a message may bind its connection to.\<close>

definition login_answers :: "('e, 'b, 'c) gateway_deps \<Rightarrow> gateway_env \<Rightarrow> u64 \<Rightarrow> byte list \<Rightarrow> (u64 \<times> u64 \<times> string) set" where
  "login_answers deps env i data = {(i, lr_UserId resp, lr_Token resp) | request lq d resp.
     get_be32 data = 1001 \<and> gd_unmarshal_request deps (drop 4 data) = Inr request \<and> gd_unmarshal_login deps (br_Data request) = Inr lq \<and>
     ge_call env lq = Inr d \<and> gd_unmarshal_reply deps d = Inr resp \<and> lr_UserId resp \<noteq> 0 \<and> lr_Token resp \<noteq> []}"

definition ids_from :: "(u64 \<times> u64 \<times> string) set \<Rightarrow> tcp_server \<Rightarrow> tcp_server \<Rightarrow> bool" where
  "ids_from A s s' \<longleftrightarrow> (\<forall>j c'. ts_objs s' j = Some c' \<longrightarrow>
     cn_UserID c' = 0 \<and> cn_SessionID c' = [] \<or> (j, cn_UserID c', cn_SessionID c') \<in> A \<or>
     (\<exists>c. ts_objs s j = Some c \<and> cn_UserID c' = cn_UserID c \<and> cn_SessionID c' = cn_SessionID c))"

lemma ids_refl [simp]: "ids_from A s s"
  by (auto simp: ids_from_def)

lemma ids_trans: "ids_from A s s' \<Longrightarrow> ids_from A s' s'' \<Longrightarrow> ids_from A s s''"
  unfolding ids_from_def by metis

lemma ids_fold: "(\<And>x s. ids_from A s (f x s)) \<Longrightarrow> ids_from A s (fold f xs s)"
  by (induction xs arbitrary: s) (auto intro: ids_trans)

lemma ids_update:
  "(\<And>c. cn_UserID (f c) = 0 \<and> cn_SessionID (f c) = [] \<or> (i, cn_UserID (f c), cn_SessionID (f c)) \<in> A \<or>
      cn_UserID (f c) = cn_UserID c \<and> cn_SessionID (f c) = cn_SessionID c) \<Longrightarrow> ids_from A s (update_conn i f s)"
  unfolding ids_from_def by (auto split: if_splits)

lemma ids_talked: "(\<And>c. talked c (f c)) \<Longrightarrow> ids_from A s (update_conn i f s)"
  by (rule ids_update) (use talked_ids in blast)

lemma ids_write: "ids_from A s (fst (write_to now d i s))"
proof (cases "ts_objs s i")
  case (Some c)
  have "talked c (fst (Write now d c))" for c using write_conn [of now d c] by (metis prod.collapse)
  then have "cn_UserID (fst (Write now d c)) = cn_UserID c \<and> cn_SessionID (fst (Write now d c)) = cn_SessionID c" for c
    using talked_ids by blast
  with Some show ?thesis by (auto simp: ids_from_def write_to_def split: prod.splits if_splits) (metis fst_conv)+
qed (simp add: write_to_def)

fun login_event :: "tcp_event \<Rightarrow> bool" where
  "login_event (LoginE i u sid) = True"
| "login_event _ = False"

lemma ids_tcp_step: "\<not> login_event ev \<Longrightarrow> ids_from A s (tcp_step ev s)"
proof (cases ev)
  case (AcceptE now sk)
  then show ?thesis by (auto simp: ids_from_def accept_conn_def NewConnection_def Let_def)
next
  case (BroadcastE now d)
  have "ids_from A s (broadcast_one now d i s)" for i s
    using ids_write by (auto simp: broadcast_one_def split: option.splits)
  with BroadcastE show ?thesis by (simp add: Broadcast_def ids_fold)
next
  case (SendE now u d)
  then show ?thesis using ids_write by (auto simp: SendToUser_def split: option.splits)
next
  case (EndE i)
  have "ids_from A s (update_conn i CloseConn s)" by (rule ids_update) (simp add: CloseConn_def)
  moreover have "ids_from A s1 (update_conn i ResetConn (s1\<lparr>ts_conns := xs\<rparr>))" for s1 xs
    by (auto simp: ids_from_def ResetConn_def split: if_splits)
  moreover have "ids_from A s1 s2 \<Longrightarrow> ids_from A s1 (s2\<lparr>ts_connPool := p\<rparr>)" for s1 s2 p by (simp add: ids_from_def)
  ultimately show ?thesis using EndE by (simp add: end_connection_def Let_def) (meson ids_trans)
next
  case StopE
  have "ids_from A (s\<lparr>ts_running := False\<rparr>) (fold (\<lambda>i. update_conn i CloseConn) (ts_conns s) (s\<lparr>ts_running := False\<rparr>))"
    by (intro ids_fold ids_update) (simp add: CloseConn_def)
  with StopE show ?thesis by (simp add: Stop_def ids_from_def)
qed (auto simp: heartbeat_def begin_connection_def CloseConn_def intro!: ids_fold ids_update)

subsection \<open>Runs\<close>

text \<open>
  Messages, what the connection layer does between them, calls of the RPC service, and what other
  processes do to Redis and to the services known.
\<close>

datatype ('e, 'b, 'c) gateway_event =
    MessageE gateway_env u64 "byte list" | TcpE tcp_event | BroadcastRpcE time base_request
  | RedisE 'c | DiscoveryE "('e, 'b) service_discovery"

fun gateway_step :: "('e, 'b, 'c) gateway_deps \<Rightarrow> ('e, 'b, 'c) gateway_event \<Rightarrow> ('e, 'b, 'c) gateway \<Rightarrow> ('e, 'b, 'c) gateway" where
  "gateway_step deps (MessageE env i data) g = fst (HandleMessage deps env i data g)"
| "gateway_step deps (TcpE ev) g = g\<lparr>gw_tcp := tcp_step ev (gw_tcp g)\<rparr>"
| "gateway_step deps (BroadcastRpcE now req) g = fst (Gateway_BroadcastMessage now req g)"
| "gateway_step deps (RedisE c) g = g\<lparr>gw_redis := c\<rparr>"
| "gateway_step deps (DiscoveryE sd) g = g\<lparr>gw_discovery := sd\<rparr>"

definition gateway_run :: "('e, 'b, 'c) gateway_deps \<Rightarrow> ('e, 'b, 'c) gateway_event list \<Rightarrow> ('e, 'b, 'c) gateway \<Rightarrow> ('e, 'b, 'c) gateway" where
  "gateway_run deps evs g = fold (gateway_step deps) evs g"

fun event_ok :: "('c \<Rightarrow> entries) \<Rightarrow> ('c \<Rightarrow> bool) \<Rightarrow> ('e, 'b, 'c) gateway_event \<Rightarrow> bool" where
  "event_ok entries valid (TcpE ev) \<longleftrightarrow> \<not> login_event ev"
| "event_ok entries valid (RedisE c) \<longleftrightarrow> valid c \<and> sessions_wf (entries c)"
| "event_ok entries valid _ \<longleftrightarrow> True"

fun event_answers :: "('e, 'b, 'c) gateway_deps \<Rightarrow> ('e, 'b, 'c) gateway_event \<Rightarrow> (u64 \<times> u64 \<times> string) set" where
  "event_answers deps (MessageE env i data) = login_answers deps env i data"
| "event_answers deps _ = {}"

definition run_answers :: "('e, 'b, 'c) gateway_deps \<Rightarrow> ('e, 'b, 'c) gateway_event list \<Rightarrow> (u64 \<times> u64 \<times> string) set" where
  "run_answers deps evs = (\<Union>ev \<in> set evs. event_answers deps ev)"

context gateway_on
begin

definition kept :: "(u64 \<times> u64 \<times> string) set \<Rightarrow> ('e, 'b, 'c) gateway \<Rightarrow> ('e, 'b, 'c) gateway \<Rightarrow> bool" where
  "kept A g g' \<longleftrightarrow> (redis_ok g \<longrightarrow> redis_ok g') \<and> ids_from A (gw_tcp g) (gw_tcp g')"

lemma kept_trans: "kept A g g1 \<Longrightarrow> kept A g1 g2 \<Longrightarrow> kept A g g2"
  unfolding kept_def using ids_trans by blast

lemma kept_same: "gw_tcp g' = gw_tcp g \<Longrightarrow> gw_redis g' = gw_redis g \<Longrightarrow> kept A g g'"
  by (simp add: kept_def)

lemma kept_cong: "gw_tcp h = gw_tcp g \<Longrightarrow> gw_redis h = gw_redis g \<Longrightarrow> kept A h g' \<Longrightarrow> kept A g g'"
  by (simp add: kept_def)

lemma kept_cong2: "gw_tcp h = gw_tcp g' \<Longrightarrow> gw_redis h = gw_redis g' \<Longrightarrow> kept A g h \<Longrightarrow> kept A g g'"
  by (simp add: kept_def)

lemma kept_send: "sendResponse deps now i request code msg data g = (g', r) \<Longrightarrow> kept A g g'"
  using sendResponse_write [of deps now i request code msg data g g' r] by (auto simp: kept_def intro!: ids_talked)

lemma kept_error: "sendError deps now i request code msg g = (g', r) \<Longrightarrow> kept A g g'"
  unfolding sendError_def by (rule kept_send)

lemma kept_validate:
  assumes "redis_ok g" and "validateSession deps now i c request g = (g', r)"
  shows "kept A g g'"
proof -
  from validated [OF assms] obtain f where f: "redis_ok g'" "gw_tcp g' = update_conn i f (gw_tcp g)" "\<forall>c. talked c (f c)" by blast
  moreover have "ids_from A (gw_tcp g) (update_conn i f (gw_tcp g))" by (rule ids_talked) (use f(3) in blast)
  ultimately show ?thesis by (simp add: kept_def)
qed

lemma kept_login_call:
  assumes "login_call deps env i request lq g = (g', r)" and "redis_ok g"
    and "gd_unmarshal_request deps (drop 4 data) = Inr request" and "gd_unmarshal_login deps (br_Data request) = Inr lq" and "get_be32 data = 1001"
  shows "kept (login_answers deps env i data) g g'"
proof (cases "\<exists>d resp. ge_call env lq = Inr d \<and> gd_unmarshal_reply deps d = Inr resp \<and> lr_UserId resp \<noteq> 0 \<and> lr_Token resp \<noteq> []")
  case False
  then have "\<exists>code msg. sendError deps (ge_now env) i request code msg g = (g', r)"
    using assms(1) by (auto simp: login_call_def split: sum.splits if_splits)
  then show ?thesis using kept_error by blast
next
  case True
  then obtain d resp where d: "ge_call env lq = Inr d" "gd_unmarshal_reply deps d = Inr resp" "lr_UserId resp \<noteq> 0" "lr_Token resp \<noteq> []" by blast
  let ?g1 = "on_conn i (\<lambda>c. c\<lparr>cn_UserID := lr_UserId resp, cn_SessionID := lr_Token resp\<rparr>) g"
  obtain r1 e where o: "SetUserOnlineContext (gd_redis deps) (lr_UserId resp) (gd_nodeID deps) (ge_now env) (gw_redis g) = (r1, e)" by fastforce
  have s: "sendResponse deps (ge_now env) i request 0 ''login success'' (Some (gd_marshal_reply deps resp)) (?g1\<lparr>gw_redis := r1\<rparr>) = (g', r)"
    using assms(1) d o by (simp add: login_call_def)
  have "(i, lr_UserId resp, lr_Token resp) \<in> login_answers deps env i data"
    using d assms(3-5) unfolding login_answers_def by blast
  then have "ids_from (login_answers deps env i data) (gw_tcp g) (gw_tcp ?g1)" by (auto intro!: ids_update)
  with set_online [OF assms(2) o] have "kept (login_answers deps env i data) g (?g1\<lparr>gw_redis := r1\<rparr>)" by (simp add: kept_def)
  with kept_send [OF s] show ?thesis by (blast intro: kept_trans)
qed

end

context gateway_on
begin

lemma set_pool_simps [simp]: "gw_tcp (set_pool k p g) = gw_tcp g" "gw_redis (set_pool k p g) = gw_redis g"
  by (simp_all add: set_pool_def)

lemma kept_login:
  assumes "redis_ok g" and "gd_unmarshal_request deps (drop 4 data) = Inr request" and "get_be32 data = 1001"
    and "handleLogin deps env i request g = (g', r)"
  shows "kept (login_answers deps env i data) g g'"
proof -
  note a = assms(4) [unfolded handleLogin_def]
  consider (same) "gw_tcp g' = gw_tcp g" "gw_redis g' = gw_redis g"
    | (err) h code msg where "gw_tcp h = gw_tcp g" "gw_redis h = gw_redis g" "sendError deps (ge_now env) i request code msg h = (g', r)"
    | (call) lq h g2 x where "gd_unmarshal_login deps (br_Data request) = Inr lq" "gw_tcp h = gw_tcp g" "gw_redis h = gw_redis g"
        "login_call deps env i request lq h = (g2, x)" "gw_tcp g2 = gw_tcp g'" "gw_redis g2 = gw_redis g'"
  proof (cases "gd_unmarshal_login deps (br_Data request)")
    case (Inl e)
    with a same show ?thesis by auto
  next
    case lq: (Inr lq)
    show ?thesis
    proof (cases "Discovery_GetService (gd_registry deps) (gd_select deps) ''login'' (gw_discovery g)")
      case Panic
      with a lq same show ?thesis by auto
    next
      case (Ret y)
      obtain sd so where y: "y = (sd, so)" by fastforce
      show ?thesis
      proof (cases so)
        case None
        with a lq Ret y show ?thesis by (intro err [of "g\<lparr>gw_discovery := sd\<rparr>"]) auto
      next
        case (Some svc)
        let ?g1 = "g\<lparr>gw_discovery := sd\<rparr>" and ?k = "pool_key (si_Address svc) (si_Port svc)"
        show ?thesis
        proof (cases "rpcPool deps ?k ?g1")
          case Panic
          with a lq Ret y Some same show ?thesis by (auto simp: Let_def)
        next
          case pool: (Ret pool)
          obtain pool1 q where q: "RpcPool.Get pool (ge_arrivals env) (ge_dial env) = (pool1, q)" by fastforce
          note b = a [unfolded lq Ret y Some, simplified, unfolded Let_def pool, simplified, unfolded q, simplified]
          show ?thesis
          proof (cases q)
            case Panic
            with b same show ?thesis by auto
          next
            case get: (Ret z)
            show ?thesis
            proof (cases z)
              case (Inl e)
              with b get show ?thesis by (intro err [of "set_pool ?k pool1 ?g1"]) auto
            next
              case (Inr client)
              obtain g2 x where c: "login_call deps env i request lq (set_pool ?k pool1 ?g1) = (g2, x)" by fastforce
              with b get Inr have "gw_tcp g2 = gw_tcp g' \<and> gw_redis g2 = gw_redis g'"
                by (auto split: outcome.splits)
              with lq c show ?thesis by (intro call [of lq "set_pool ?k pool1 ?g1" g2 x]) auto
            qed
          qed
        qed
      qed
    qed
  qed
  then show ?thesis
  proof cases
    case same
    then show ?thesis by (rule kept_same)
  next
    case err
    show ?thesis by (rule kept_cong [OF err(1,2) kept_error [OF err(3)]])
  next
    case call
    have "redis_ok h" using assms(1) call(3) by simp
    from kept_cong2 [OF call(5,6) kept_cong [OF call(2,3) kept_login_call [OF call(4) this assms(2) call(1) assms(3)]]]
    show ?thesis .
  qed
qed

lemma kept_close: "kept A g (on_conn i CloseConn g)"
  by (auto simp: kept_def CloseConn_def intro!: ids_update)

lemma kept_after:
  assumes "redis_ok g" and "after_session deps now i c request k g = (g', r)"
    and "\<And>g1. redis_ok g1 \<Longrightarrow> kept A g1 (fst (k g1))"
  shows "kept A g g'"
proof -
  obtain g1 q where v: "validateSession deps now i c request g = (g1, q)" by fastforce
  have k1: "kept A g g1" by (rule kept_validate [OF assms(1) v])
  from validated [OF assms(1) v] have ok: "redis_ok g1" by blast
  show ?thesis
  proof (cases "q = Ret None")
    case True
    with assms(2) v have "g' = fst (k g1)" by (simp add: after_session_def)
    with kept_trans [OF k1 assms(3) [OF ok]] show ?thesis by simp
  next
    case False
    with assms(2) v have "g' = g1" by (cases q) (auto simp: after_session_def split: option.splits)
    with k1 show ?thesis by simp
  qed
qed

lemma kept_heartbeat: "kept A g (fst (handleHeartbeat deps now i request g))"
proof -
  have "kept A g (on_conn i (\<lambda>c. c\<lparr>cn_LastActivity := now\<rparr>) g)" by (auto simp: kept_def intro!: ids_update)
  moreover have "kept A (on_conn i (\<lambda>c. c\<lparr>cn_LastActivity := now\<rparr>) g) (fst (handleHeartbeat deps now i request g))"
    unfolding handleHeartbeat_def by (rule kept_send) (rule prod.collapse [symmetric])
  ultimately show ?thesis by (rule kept_trans)
qed

lemma kept_logout: "redis_ok g \<Longrightarrow> kept A g (fst (handleLogout deps now i c g))"
proof -
  assume ok: "redis_ok g"
  let ?g1 = "if cn_UserID c \<noteq> 0 then g\<lparr>gw_redis := fst (SetUserOffline (gd_redis deps) (cn_UserID c) now (gw_redis g))\<rparr> else g"
  have "kept A g ?g1" using set_offline [OF ok prod.collapse [symmetric]] by (auto simp: kept_def)
  from kept_trans [OF this kept_close] show ?thesis by (simp add: handleLogout_def Let_def)
qed

lemma kept_forward: "kept A g (fst (forwardMessage deps now i msgID request g))"
proof -
  consider "fst (forwardMessage deps now i msgID request g) = g"
    | h code msg where "gw_tcp h = gw_tcp g" "gw_redis h = gw_redis g"
        "fst (forwardMessage deps now i msgID request g) = fst (sendError deps now i request code msg h)"
  proof (cases "target_service msgID")
    case None
    then show ?thesis by (intro that(2) [of g]) (simp_all add: forwardMessage_def)
  next
    case (Some t)
    show ?thesis
    proof (cases "Discovery_GetService (gd_registry deps) (gd_select deps) t (gw_discovery g)")
      case Panic
      with Some show ?thesis by (intro that(1)) (simp add: forwardMessage_def)
    next
      case (Ret y)
      with Some show ?thesis
        by (cases y; cases "snd y") (auto simp: forwardMessage_def intro: that(2) [of "g\<lparr>gw_discovery := fst y\<rparr>"])
    qed
  qed
  then show ?thesis
  proof cases
    case 2
    from kept_cong [OF 2(1,2) kept_error [OF prod.collapse [symmetric]]] 2(3) show ?thesis by simp
  qed (simp add: kept_same)
qed

lemma kept_message:
  assumes "redis_ok g"
  shows "kept (login_answers deps env i data) g (fst (HandleMessage deps env i data g))"
proof (cases "ts_objs (gw_tcp g) i")
  case None
  then show ?thesis by (simp add: HandleMessage_def kept_same)
next
  case (Some c)
  show ?thesis
  proof (cases "length data < 4 \<or> (\<exists>err. gd_unmarshal_request deps (drop 4 data) = Inl err)")
    case True
    with Some have "fst (HandleMessage deps env i data g) = g" by (cases "length data < 4") (auto simp: HandleMessage_def)
    then show ?thesis by (simp add: kept_same)
  next
    case False
    then obtain request where q: "gd_unmarshal_request deps (drop 4 data) = Inr request" "\<not> length data < 4"
      by (cases "gd_unmarshal_request deps (drop 4 data)") auto
    then have h: "HandleMessage deps env i data g = routeMessage deps env i c (get_be32 data) request g" using Some by (simp add: HandleMessage_def)
    show ?thesis
    proof (cases "get_be32 data = 1001")
      case True
      then show ?thesis unfolding h routeMessage_def
        by (simp, intro kept_login [OF assms q(1) True prod.collapse [symmetric]])
    next
      case False
      then show ?thesis unfolding h routeMessage_def
        by (auto intro!: kept_after [OF assms prod.collapse [symmetric]] kept_heartbeat kept_logout kept_forward)
    qed
  qed
qed

end

context gateway_on
begin

lemma kept_event:
  assumes "redis_ok g" and "event_ok entries valid ev"
  shows "kept (event_answers deps ev) g (gateway_step deps ev g)"
proof (cases ev)
  case (MessageE env i data)
  then show ?thesis using kept_message [OF assms(1)] by simp
next
  case (TcpE e)
  with assms show ?thesis by (simp add: kept_def ids_tcp_step)
next
  case (BroadcastRpcE now req)
  have "ids_from {} (gw_tcp g) (tcp_step (BroadcastE now (br_Data req)) (gw_tcp g))" by (rule ids_tcp_step) simp
  with BroadcastRpcE assms show ?thesis by (simp add: kept_def Gateway_BroadcastMessage_def)
qed (use assms in \<open>simp_all add: kept_def\<close>)

lemma ids_mono: "ids_from A s s' \<Longrightarrow> A \<subseteq> B \<Longrightarrow> ids_from B s s'"
  unfolding ids_from_def by blast

lemma kept_run:
  "redis_ok g \<Longrightarrow> list_all (event_ok entries valid) evs \<Longrightarrow>
   redis_ok (gateway_run deps evs g) \<and> ids_from (run_answers deps evs) (gw_tcp g) (gw_tcp (gateway_run deps evs g))"
proof (induction evs arbitrary: g)
  case (Cons ev evs)
  let ?g1 = "gateway_step deps ev g"
  have k: "kept (event_answers deps ev) g ?g1" using kept_event Cons.prems by simp
  then have ok: "redis_ok ?g1" using Cons.prems(1) by (simp add: kept_def)
  have "ids_from (run_answers deps (ev # evs)) (gw_tcp g) (gw_tcp ?g1)"
    by (rule ids_mono [of "event_answers deps ev"]) (use k in \<open>auto simp: kept_def run_answers_def\<close>)
  moreover have "ids_from (run_answers deps (ev # evs)) (gw_tcp ?g1) (gw_tcp (gateway_run deps evs ?g1))"
    by (rule ids_mono [of "run_answers deps evs"]) (use Cons.IH [OF ok] Cons.prems(2) in \<open>auto simp: run_answers_def\<close>)
  ultimately show ?case using Cons.IH [OF ok] Cons.prems(2) ids_trans by (auto simp: gateway_run_def)
qed (simp add: gateway_run_def run_answers_def)

lemma bound_identity:
  assumes "redis_ok g0" and "ts_objs (gw_tcp g0) = Map.empty" and "list_all (event_ok entries valid) evs"
    and "ts_objs (gw_tcp (gateway_run deps evs g0)) i = Some c"
  shows "cn_UserID c = 0 \<and> cn_SessionID c = [] \<or> (i, cn_UserID c, cn_SessionID c) \<in> run_answers deps evs"
  using kept_run [OF assms(1,3)] assms(2,4) unfolding ids_from_def by fastforce

lemma message_held:
  assumes "redis_ok g" and "ts_objs (gw_tcp g) i = Some c" and "get_be32 data \<noteq> 1001" and "snd (HandleMessage deps env i data g) = Ret None"
  shows "\<exists>request. gd_unmarshal_request deps (drop 4 data) = Inr request \<and> session_held c request (ge_now env) (sess g)"
  using refused [OF assms(1,2,3) prod.collapse [symmetric], of env] assms(4) by auto

end

subsection \<open>An instance\<close>

definition demo_reply :: login_response where
  "demo_reply = \<lparr>lr_UserId = 7, lr_Token = ''t'', lr_Nickname = [], lr_Level = 1, lr_Exp = 0, lr_Gold = 0, lr_Diamond = 0\<rparr>"

text \<open>A request names its user by its first byte, with the session \<^verbatim>\<open>t\<close>.\<close>

definition demo_gateway :: "(mem_etcd, unit, mem_redis) gateway_deps" where
  "demo_gateway = \<lparr>gd_registry = demo_deps, gd_select = weighted_balancer, gd_redis = mem_redis_ops, gd_nodeID = ''g'', gd_PoolSize = 0,
     gd_unmarshal_request = (\<lambda>d. Inr \<lparr>br_Header = Some \<lparr>mh_MsgId = 0, mh_Seq = 0, mh_UserId = ucast (hd (d @ [0])), mh_Timestamp = 0,
        mh_SessionId = ''t''\<rparr>, br_Data = d\<rparr>),
     gd_unmarshal_login = (\<lambda>d. Inr \<lparr>lq_Username = ''u'', lq_Password = ''p''\<rparr>), gd_unmarshal_reply = (\<lambda>d. Inr demo_reply),
     gd_marshal_reply = (\<lambda>r. Inr [1]), gd_marshal_response = (\<lambda>r. Inr (1 # bp_Data r))\<rparr>"

lemma demo_redis: "redis_store (gd_redis demo_gateway) map_of (\<lambda>_. True)"
  using mem_redis.redis_store_axioms by (simp add: demo_gateway_def)

interpretation demo_gateway: gateway_on demo_gateway map_of "\<lambda>_. True"
  by (rule gateway_on.intro [OF demo_redis])

definition demo_reqs :: "(mem_etcd, unit, mem_redis) gateway_event list" where
  "demo_reqs =
     [TcpE (AcceptE 5 demo_sock), TcpE (BeginE 1),
      DiscoveryE \<lparr>sd_registry = demo_registry, sd_lb = (), sd_cache = [''login'' \<mapsto> [demo_service]]\<rparr>,
      RedisE [(session_key ''t'', RStr (json_of_u64 7), Some 100)],
      MessageE \<lparr>ge_now = 6, ge_arrivals = [], ge_dial = True, ge_call = (\<lambda>_. Inr []), ge_lost = False\<rparr> 1 [0, 0, 3, 233]]"

definition demo_env :: gateway_env where
  "demo_env = \<lparr>ge_now = 9, ge_arrivals = [], ge_dial = True, ge_call = (\<lambda>_. Inl ''down''), ge_lost = False\<rparr>"

definition demo_start :: "(mem_etcd, unit, mem_redis) gateway" where
  "demo_start = NewGatewayMessageHandler
     \<lparr>ts_objs = Map.empty, ts_conns = [], ts_connCounter = 0, ts_running = True, ts_maxConns = 2, ts_maxFrameSize = 16,
      ts_readTimeout = 3, ts_writeTimeout = 4, ts_connPool = \<lparr>gp_pool = [], gp_maxSize = 2, gp_created = 0, gp_gotten = 0, gp_put = 0\<rparr>\<rparr>
     \<lparr>sd_registry = demo_registry, sd_lb = (), sd_cache = Map.empty\<rparr> []"

definition demo_bound :: "(mem_etcd, unit, mem_redis) gateway" where
  "demo_bound = gateway_run demo_gateway demo_reqs demo_start"

lemma demo_events: "list_all (event_ok map_of (\<lambda>_. True)) demo_reqs"
  by (auto simp: demo_reqs_def sessions_wf_def session_entry_def split: if_splits)

lemma demo_bound_conn: "\<exists>c. ts_objs (gw_tcp demo_bound) 1 = Some c \<and> cn_UserID c = 7 \<and> cn_SessionID c = ''t'' \<and> cn_maxWriteSize c = 16 + FrameHeaderSize"
proof -
  have "(case ts_objs (gw_tcp demo_bound) 1 of None \<Rightarrow> False
      | Some c \<Rightarrow> cn_UserID c = 7 \<and> cn_SessionID c = ''t'' \<and> cn_maxWriteSize c = 16 + FrameHeaderSize)" by code_simp
  then show ?thesis by (auto split: option.splits)
qed

lemma held_accepted:
  assumes "br_Header request = Some h" and "mh_UserId h = cn_UserID c" and "mh_SessionId h = cn_SessionID c"
    and "cn_UserID c \<noteq> 0" and "cn_SessionID c \<noteq> []"
    and "GetSessionContext (gd_redis deps) (cn_SessionID c) now (gw_redis g) = (r1, Inr (cn_UserID c))"
  shows "validateSession deps now i c request g = (g\<lparr>gw_redis := fst (RefreshSessionContext (gd_redis deps) (cn_SessionID c) now r1)\<rparr>, Ret None)"
  using assms by (simp add: validateSession_def split_beta Let_def)

lemma demo_gateway_session: "GetSessionContext mem_redis_ops ''t'' 9 (gw_redis demo_bound) = (gw_redis demo_bound, Inr 7)"
proof -
  have "map_of (gw_redis demo_bound) (session_key ''t'') = Some (RStr (json_of_u64 7), Some 100)" by code_simp
  then show ?thesis
    by (simp add: GetSessionContext_def GetStringContext_def mem_redis_ops_def live_def)
qed

lemma demo_pong: "snd (HandleMessage demo_gateway demo_env 1 [0, 0, 3, 234, 7] demo_bound) = Ret None"
proof -
  from demo_bound_conn obtain c where c: "ts_objs (gw_tcp demo_bound) 1 = Some c" "cn_UserID c = 7" "cn_SessionID c = ''t''" by blast
  let ?q = "\<lparr>br_Header = Some \<lparr>mh_MsgId = 0, mh_Seq = 0, mh_UserId = 7, mh_Timestamp = 0, mh_SessionId = ''t''\<rparr>, br_Data = [7]\<rparr>"
  have v: "validateSession demo_gateway 9 1 c ?q demo_bound =
      (demo_bound\<lparr>gw_redis := fst (RefreshSessionContext (gd_redis demo_gateway) (cn_SessionID c) 9 (gw_redis demo_bound))\<rparr>, Ret None)"
    by (rule held_accepted [OF base_request.select_convs(1)]) (use c demo_gateway_session in \<open>simp_all add: demo_gateway_def\<close>)
  have "snd (handleHeartbeat demo_gateway 9 1 ?q demo_bound) = Ret None" by code_simp
  moreover have "snd (handleHeartbeat demo_gateway 9 1 ?q (g\<lparr>gw_redis := x\<rparr>)) = snd (handleHeartbeat demo_gateway 9 1 ?q g)" for g x
    by (simp add: handleHeartbeat_def sendResponse_def split_beta Let_def split: sum.split)
  moreover have "get_be32 [0, 0, 3, 234, 7] = 1002" by code_simp
  moreover have "gd_unmarshal_request demo_gateway [7] = Inr ?q" by (simp add: demo_gateway_def)
  ultimately show ?thesis using c(1) v
    by (simp add: HandleMessage_def routeMessage_def after_session_def demo_env_def)
qed

subsection \<open>Properties\<close>

text \<open>
  C16: whoever the gateway serves was authenticated. After any run of a fresh gateway, with connections
  coming and going and other processes changing Redis and the services, a message other than a login that is
  handled without an error comes from a connection whose user and token were given to this very connection
  by an answer of the login service, carries that user and token in its header, and the session of the
  token in Redis is live and belongs to that user.
\<close>

theorem gateway_user_authenticated:
  assumes "redis_store (gd_redis deps) entries valid" and "valid (gw_redis g0) \<and> sessions_wf (entries (gw_redis g0))"
    and "ts_objs (gw_tcp g0) = Map.empty" and "list_all (event_ok entries valid) evs" and "g = gateway_run deps evs g0"
    and "ts_objs (gw_tcp g) i = Some c" and "get_be32 data \<noteq> 1001" and "snd (HandleMessage deps env i data g) = Ret None"
  shows "(i, cn_UserID c, cn_SessionID c) \<in> run_answers deps evs \<and>
    (\<exists>request t. gd_unmarshal_request deps (drop 4 data) = Inr request \<and>
       GetUserId (br_Header request) = cn_UserID c \<and> GetSessionId (br_Header request) = cn_SessionID c \<and>
       sessions (entries (gw_redis g)) (cn_SessionID c) = Some (cn_UserID c, t) \<and> ge_now env \<le> t)"
proof -
  note on = gateway_on.intro [OF assms(1)]
  have ok: "valid (gw_redis g) \<and> sessions_wf (entries (gw_redis g))"
    using gateway_on.kept_run [OF on assms(2,4)] assms(5) by simp
  from gateway_on.message_held [OF on ok assms(6-8)] obtain request where
    r: "gd_unmarshal_request deps (drop 4 data) = Inr request" "session_held c request (ge_now env) (sessions (entries (gw_redis g)))" by blast
  then have "cn_UserID c \<noteq> 0" by (simp add: session_held_def)
  with gateway_on.bound_identity [OF on assms(2-4), of i c] assms(5,6) have "(i, cn_UserID c, cn_SessionID c) \<in> run_answers deps evs" by simp
  with r show ?thesis by (auto simp: session_held_def split: option.splits)
qed

lemma gateway_user_authenticated_witness:
  "(1, 7, ''t'') \<in> run_answers demo_gateway demo_reqs \<and> (\<exists>t. sessions (map_of (gw_redis demo_bound)) ''t'' = Some (7, t) \<and> 9 \<le> t)"
proof -
  from demo_bound_conn obtain c where c: "ts_objs (gw_tcp demo_bound) 1 = Some c" "cn_UserID c = 7" "cn_SessionID c = ''t''" by blast
  have "gw_redis demo_start = []" "ts_objs (gw_tcp demo_start) = Map.empty"
    by (simp_all add: demo_start_def NewGatewayMessageHandler_def)
  moreover have "get_be32 [0, 0, 3, 234, 7] \<noteq> 1001" by code_simp
  ultimately show ?thesis
    using gateway_user_authenticated [OF demo_redis _ _ demo_events demo_bound_def c(1) _ demo_pong] c(2,3)
    by (auto simp: sessions_wf_def demo_env_def)
qed

text \<open>
  a message other than a login whose connection, header and session do not belong together in this
  way is refused with an error, and beyond the answer written to its connection nothing happens: the
  other connections, the sessions, the services and the pools are as before, and the connection keeps its
  identity and stays as open as it was.
\<close>

theorem gateway_refuses_quietly:
  assumes "redis_store (gd_redis deps) entries valid" and "valid (gw_redis g) \<and> sessions_wf (entries (gw_redis g))"
    and "ts_objs (gw_tcp g) i = Some c" and "get_be32 data \<noteq> 1001"
    and "\<And>request. gd_unmarshal_request deps (drop 4 data) = Inr request \<Longrightarrow>
      \<not> session_held c request (ge_now env) (sessions (entries (gw_redis g)))"
    and "HandleMessage deps env i data g = (g', r)"
  shows "(\<exists>e. r = Ret (Some e)) \<and> sessions (entries (gw_redis g')) = sessions (entries (gw_redis g)) \<and>
    gw_discovery g' = gw_discovery g \<and> gw_pools g' = gw_pools g \<and> ts_conns (gw_tcp g') = ts_conns (gw_tcp g) \<and>
    (\<forall>j. j \<noteq> i \<longrightarrow> ts_objs (gw_tcp g') j = ts_objs (gw_tcp g) j) \<and>
    (\<exists>c'. ts_objs (gw_tcp g') i = Some c' \<and> cn_UserID c' = cn_UserID c \<and> cn_SessionID c' = cn_SessionID c \<and> cn_closed c' = cn_closed c)"
proof -
  from gateway_on.refused [OF gateway_on.intro [OF assms(1)] assms(2-4,6,5)]
  obtain f where "gw_tcp g' = update_conn i f (gw_tcp g)" "\<forall>c. talked c (f c)"
    and rest: "\<exists>e. r = Ret (Some e)" "gw_discovery g' = gw_discovery g" "gw_pools g' = gw_pools g"
      "sessions (entries (gw_redis g')) = sessions (entries (gw_redis g))" by blast
  with talked_ids assms(3) show ?thesis by fastforce
qed

lemma gateway_refuses_quietly_witness:
  "\<exists>e. snd (HandleMessage demo_gateway demo_env 1 [0, 0, 3, 234, 8] demo_bound) = Ret (Some e)"
proof -
  from demo_bound_conn obtain c where c: "ts_objs (gw_tcp demo_bound) 1 = Some c" "cn_UserID c = 7" by blast
  have "get_be32 [0, 0, 3, 234, 8] \<noteq> 1001" by code_simp
  moreover have "True \<and> sessions_wf (map_of (gw_redis demo_bound))"
    using demo_gateway.kept_run [OF _ demo_events, of demo_start]
    by (simp add: demo_bound_def demo_start_def NewGatewayMessageHandler_def sessions_wf_def)
  moreover have "\<not> session_held c request 9 s" if "gd_unmarshal_request demo_gateway [8] = Inr request" for request s
    using that c(2) by (auto simp: demo_gateway_def session_held_def)
  ultimately show ?thesis
    using gateway_refuses_quietly [OF demo_redis, of demo_bound 1 c "[0, 0, 3, 234, 8]" demo_env] c(1)
    by (simp add: demo_env_def) (metis prod.collapse)
qed

text \<open>
  every answer is one frame: when \<^verbatim>\<open>sendResponse\<close> succeeds on a connection with the write limit the
  server gives it, exactly the length and the marshalled response with the header, code and text were
  appended to the stream, and a client that reads with the same frame limit gets this response back and the
  rest of the stream after it.
\<close>

theorem response_is_one_frame:
  assumes "sendResponse deps now i request code msg data g = (g', Ret None)" and "ts_objs (gw_tcp g) i = Some c"
    and "cn_maxWriteSize c = mx + FrameHeaderSize" and "0 < mx" and "unat mx < 2 ^ 32 - 4"
    and "\<And>body bytes. data = None \<and> body = [] \<or> data = Some (Inr body) \<Longrightarrow>
      gd_marshal_response deps \<lparr>bp_Header = br_Header request, bp_Code = code, bp_Msg = msg, bp_Data = body\<rparr> = Inr bytes \<Longrightarrow>
      bytes \<noteq> [] \<and> length bytes < 2 ^ 32 - 4"
    and "\<And>e. rd_set_deadline r \<noteq> Some (Some e)" and "fo_MaxFrameSize opts = mx" and "ts_objs (gw_tcp g') i = Some c'"
    and "so_sent (cn_Conn c) @ rd_in r = so_sent (cn_Conn c') @ rest"
  shows "\<exists>body bytes r'. gd_marshal_response deps \<lparr>bp_Header = br_Header request, bp_Code = code, bp_Msg = msg, bp_Data = body\<rparr> = Inr bytes \<and>
    (data = None \<and> body = [] \<or> data = Some (Inr body)) \<and> so_sent (cn_Conn c') = so_sent (cn_Conn c) @ encode_frame bytes \<and>
    ReadFrameWithOptions now' r opts = (r', Inr bytes) \<and> rd_in r' = rest"
proof -
  from sendResponse_write [OF assms(1)] assms(2) obtain f body bytes where
    f: "g' = on_conn i f g" "(case data of None \<Rightarrow> Inr [] | Some x \<Rightarrow> x) = Inr body"
      "gd_marshal_response deps \<lparr>bp_Header = br_Header request, bp_Code = code, bp_Msg = msg, bp_Data = body\<rparr> = Inr bytes"
      "cn_maxWriteSize c = 0 \<or> (of_nat (4 + length bytes) :: u32) \<le> cn_maxWriteSize c"
      "so_sent (cn_Conn (f c)) = so_sent (cn_Conn c) @ encode_frame bytes" by auto
  have c': "c' = f c" using f(1) assms(2,9) by simp
  have in_r: "rd_in r = encode_frame bytes @ rest" using assms(10) f(5) c' by simp
  have "data = None \<and> body = [] \<or> data = Some (Inr body)" using f(2) by (cases data) auto
  note b = assms(6) [OF this f(3)]
  have mx4: "unat (mx + FrameHeaderSize) = unat mx + 4"
    using assms(5) by (subst unat_plus_simple [THEN iffD1]) (simp_all add: FrameHeaderSize_def word_le_nat_alt unat_word_ariths)
  have "unat (of_nat (4 + length bytes) :: u32) = 4 + length bytes" using b by (subst unat_of_nat) simp
  then have "length bytes \<le> unat mx" using f(4) mx4 assms(3) by (auto simp: word_le_nat_alt)
  moreover have "unat (of_nat (length bytes) :: u32) = length bytes" using b by (subst unat_of_nat) simp
  moreover have "maxFrameSize opts = mx" using assms(4,8) by (auto simp: maxFrameSize_def)
  ultimately have "(of_nat (length bytes) :: u32) \<le> maxFrameSize opts" by (simp add: word_le_nat_alt)
  from read_encoded_frame [OF in_r _ _ this, of now'] b assms(7) obtain r' where
    "ReadFrameWithOptions now' r opts = (r', Inr bytes)" "rd_in r' = rest" by auto
  with f c' show ?thesis by (auto split: option.splits)
qed

lemma response_is_one_frame_witness:
  "\<exists>bytes r'. ReadFrameWithOptions 0 (demo_reader [0, 0, 0, 1, 1, 9]) \<lparr>fo_MaxFrameSize = 16, fo_ReadTimeout = 0, fo_WriteTimeout = 0\<rparr> =
     (r', Inr bytes) \<and> rd_in r' = [9]"
proof -
  let ?q = "\<lparr>br_Header = None, br_Data = []\<rparr>"
  let ?g = "fst (sendResponse demo_gateway 9 1 ?q 0 ''pong'' None demo_bound)"
  from demo_bound_conn obtain c where c: "ts_objs (gw_tcp demo_bound) 1 = Some c" "cn_maxWriteSize c = 16 + FrameHeaderSize" by blast
  have r: "sendResponse demo_gateway 9 1 ?q 0 ''pong'' None demo_bound = (?g, Ret None)"
  proof -
    have "snd (sendResponse demo_gateway 9 1 ?q 0 ''pong'' None demo_bound) = Ret None" by code_simp
    then show ?thesis by (metis prod.collapse)
  qed
  obtain c' where c': "ts_objs (gw_tcp ?g) 1 = Some c'"
  proof -
    have "ts_objs (gw_tcp ?g) 1 \<noteq> None" using sendResponse_write [OF r] c(1) by auto
    then show ?thesis using that by blast
  qed
  have e: "encode_frame [1] = [0, 0, 0, 1, 1]" by code_simp
  from sendResponse_write [OF r] c(1) c' have "so_sent (cn_Conn c') = so_sent (cn_Conn c) @ [0, 0, 0, 1, 1]"
    by (auto simp: demo_gateway_def e)
  then have "so_sent (cn_Conn c) @ rd_in (demo_reader [0, 0, 0, 1, 1, 9]) = so_sent (cn_Conn c') @ [9]" by (simp add: demo_reader_def)
  note frame = response_is_one_frame [OF r c(1,2) _ _ _ _ _ c' this, where opts = "\<lparr>fo_MaxFrameSize = 16, fo_ReadTimeout = 0, fo_WriteTimeout = 0\<rparr>" and now' = 0]
  show ?thesis
    by (rule exE [OF frame]) (auto simp: demo_gateway_def demo_reader_def)
qed

text \<open>Logging out at the gateway closes the connection, but the session of its token lives on.\<close>

lemma logout_keeps_session:
  assumes "redis_store (gd_redis deps) entries valid" and "valid (gw_redis g) \<and> sessions_wf (entries (gw_redis g))"
  shows "sessions (entries (gw_redis (fst (handleLogout deps now i c g)))) = sessions (entries (gw_redis g))"
  using gateway_on.set_offline [OF gateway_on.intro [OF assms(1)] assms(2), of "cn_UserID c" now]
  by (cases "SetUserOffline (gd_redis deps) (cn_UserID c) now (gw_redis g)") (auto simp: handleLogout_def Let_def)

end
