(* ===== verification/BaseServer.thy ===== *)
theory BaseServer
  imports Discovery Protocol
begin

text \<open>
  The skeleton every server of \<^verbatim>\<open>internal/server\<close> is built on: the choice of components
  (\<^verbatim>\<open>component_options.go\<close>), their order of construction (\<^verbatim>\<open>component_init.go\<close>) and of stopping
  (\<^verbatim>\<open>component_lifecycle.go\<close>), the life of a server (\<^verbatim>\<open>server.go\<close>), the overrides of its configuration
  (\<^verbatim>\<open>config.go\<close>) and the health answers (\<^verbatim>\<open>system_service.go\<close>). The registry is the one of \<open>Discovery\<close>;
  the other components are what a factory opens and closes in a state \<open>'w\<close> of the process, and the locale
  \<open>component_host\<close> states what is expected of it. Logging and the reading of the YAML file are left out.
\<close>

subsection \<open>Options\<close>

record component_options =
  co_ActorSystem :: bool
  co_RPCServer :: bool
  co_RPCClient :: bool
  co_Redis :: bool
  co_MongoDB :: bool
  co_NSQ :: bool
  co_MessageBroker :: bool
  co_Registry :: bool
  co_ServiceDiscovery :: bool

fun join_str :: "string \<Rightarrow> string list \<Rightarrow> string" where
  "join_str sep [] = []"
| "join_str sep [x] = x"
| "join_str sep (x # xs) = x @ sep @ join_str sep xs"

definition problems :: "component_options \<Rightarrow> string list" where
  "problems opts =
     (if co_MessageBroker opts \<and> \<not> co_NSQ opts then [''message broker requires nsq''] else []) @
     (if co_ServiceDiscovery opts \<and> \<not> co_Registry opts then [''service discovery requires registry''] else []) @
     (if co_RPCClient opts then [''rpc client component is not implemented''] else [])"

definition Validate :: "component_options \<Rightarrow> string option" where
  "Validate opts = (if problems opts \<noteq> [] then Some (''invalid component options: '' @ join_str ''; '' (problems opts)) else None)"

definition EnabledNames :: "component_options \<Rightarrow> string list" where
  "EnabledNames opts =
     (if co_ActorSystem opts then [''actor_system''] else []) @ (if co_RPCServer opts then [''rpc_server''] else []) @
     (if co_RPCClient opts then [''rpc_client''] else []) @ (if co_Redis opts then [''redis''] else []) @
     (if co_MongoDB opts then [''mongodb''] else []) @ (if co_NSQ opts then [''nsq''] else []) @
     (if co_MessageBroker opts then [''message_broker''] else []) @ (if co_Registry opts then [''registry''] else []) @
     (if co_ServiceDiscovery opts then [''service_discovery''] else [])"

definition no_components :: component_options where
  "no_components = \<lparr>co_ActorSystem = False, co_RPCServer = False, co_RPCClient = False, co_Redis = False, co_MongoDB = False,
     co_NSQ = False, co_MessageBroker = False, co_Registry = False, co_ServiceDiscovery = False\<rparr>"

definition EnhancedGameComponents :: component_options where
  "EnhancedGameComponents = no_components\<lparr>co_RPCServer := True, co_NSQ := True, co_MessageBroker := True, co_Registry := True, co_ServiceDiscovery := True\<rparr>"

definition MongoServiceComponents :: component_options where
  "MongoServiceComponents = no_components\<lparr>co_RPCServer := True, co_MongoDB := True, co_NSQ := True, co_MessageBroker := True,
     co_Registry := True, co_ServiceDiscovery := True\<rparr>"

definition GatewayComponents :: component_options where
  "GatewayComponents = no_components\<lparr>co_ActorSystem := True, co_RPCServer := True, co_Redis := True, co_NSQ := True, co_MessageBroker := True,
     co_Registry := True, co_ServiceDiscovery := True\<rparr>"

definition LoginComponents :: component_options where
  "LoginComponents = no_components\<lparr>co_ActorSystem := True, co_RPCServer := True, co_Redis := True, co_MongoDB := True, co_NSQ := True,
     co_MessageBroker := True, co_Registry := True, co_ServiceDiscovery := True\<rparr>"

definition DefaultComponentOptions :: component_options where
  "DefaultComponentOptions = no_components\<lparr>co_ActorSystem := True, co_RPCServer := True, co_Redis := True, co_MongoDB := True, co_NSQ := True,
     co_MessageBroker := True, co_Registry := True, co_ServiceDiscovery := True\<rparr>"

definition CenterComponents :: component_options where
  "CenterComponents = no_components\<lparr>co_RPCServer := True, co_NSQ := True, co_MessageBroker := True, co_Registry := True\<rparr>"

text \<open>The server that is made for a node type.\<close>

datatype server_kind = GatewayS | LoginS | LobbyS | GameS | EnhancedGameS | FriendS | ChatS | MailS | GMS | CenterS

definition server_kinds :: "(string \<times> server_kind) list" where
  "server_kinds = [(''gateway'', GatewayS), (''login'', LoginS), (''lobby'', LobbyS), (''game'', GameS), (''enhanced_game'', EnhancedGameS),
     (''friend'', FriendS), (''chat'', ChatS), (''mail'', MailS), (''gm'', GMS), (''center'', CenterS)]"

subsection \<open>Configuration\<close>

record server_config =
  sc_TCPPort :: int
  sc_RPCPort :: int
  sc_HTTPPort :: int
  sc_MaxConnections :: int
  sc_ReadTimeout :: int
  sc_WriteTimeout :: int
  sc_MaxPacketSize :: int
  sc_AdvertiseAddress :: string
  sc_AdvertiseAddressEnv :: string
  sc_RedisAddr :: string
  sc_MongoURI :: string
  sc_MongoUsername :: string
  sc_MongoAuthSource :: string
  sc_MongoPasswordEnv :: string
  sc_NSQDAddress :: string
  sc_NSQLookupDAddress :: string
  sc_ETCDEndpoints :: "string list"
  sc_TokenSecret :: string
  sc_TokenSecretEnv :: string
  sc_TokenExpiryHours :: int

definition splitCSV :: "string \<Rightarrow> string list" where
  "splitCSV value = filter (\<lambda>part. part \<noteq> []) (map TrimSpace (split_on CHR '','' value))"

definition override :: "string \<Rightarrow> string \<Rightarrow> string" where
  "override value old = (if value \<noteq> [] then value else old)"

definition override_int :: "string \<Rightarrow> int \<Rightarrow> int" where
  "override_int value old = (if value \<noteq> [] then (case parse_int64 value of Some port \<Rightarrow> port | None \<Rightarrow> old) else old)"

definition applyEnvOverrides :: "(string \<Rightarrow> string) \<Rightarrow> server_config \<Rightarrow> server_config" where
  "applyEnvOverrides env c = c\<lparr>
     sc_TCPPort := override_int (env ''TRIBEWAY_NETWORK_TCP_PORT'') (sc_TCPPort c),
     sc_RPCPort := override_int (env ''TRIBEWAY_NETWORK_RPC_PORT'') (sc_RPCPort c),
     sc_HTTPPort := override_int (env ''TRIBEWAY_NETWORK_HTTP_PORT'') (sc_HTTPPort c),
     sc_RedisAddr := override (env ''TRIBEWAY_REDIS_ADDR'') (sc_RedisAddr c),
     sc_MongoURI := override (env ''TRIBEWAY_MONGODB_URI'') (sc_MongoURI c),
     sc_MongoUsername := override (env ''TRIBEWAY_MONGODB_USERNAME'') (sc_MongoUsername c),
     sc_MongoAuthSource := override (env ''TRIBEWAY_MONGODB_AUTH_SOURCE'') (sc_MongoAuthSource c),
     sc_MongoPasswordEnv := override (env ''TRIBEWAY_MONGODB_PASSWORD_ENV'') (sc_MongoPasswordEnv c),
     sc_NSQDAddress := override (env ''TRIBEWAY_NSQD_ADDRESS'') (sc_NSQDAddress c),
     sc_NSQLookupDAddress := override (env ''TRIBEWAY_NSQLOOKUPD_ADDRESS'') (sc_NSQLookupDAddress c),
     sc_ETCDEndpoints := (if env ''TRIBEWAY_ETCD_ENDPOINTS'' \<noteq> [] then splitCSV (env ''TRIBEWAY_ETCD_ENDPOINTS'') else sc_ETCDEndpoints c)\<rparr>"

definition maxPacketSize :: "server_config \<Rightarrow> u32" where
  "maxPacketSize c = (if sc_MaxPacketSize c \<le> 0 then 1024 * 1024 else of_int (sc_MaxPacketSize c))"

definition authTokenSecret :: "(string \<Rightarrow> string) \<Rightarrow> server_config \<Rightarrow> string + byte list" where
  "authTokenSecret env c =
     (let envName = (if sc_TokenSecretEnv c = [] then ''TRIBEWAY_TOKEN_SECRET'' else sc_TokenSecretEnv c)
      in if env envName \<noteq> [] then Inr (string_bytes (env envName))
         else if sc_TokenSecret c \<noteq> [] then Inr (string_bytes (sc_TokenSecret c))
         else Inl (''auth token secret is required; set '' @ envName @ '' or security.auth.token_secret''))"

definition authTokenExpiry :: "server_config \<Rightarrow> duration" where
  "authTokenExpiry c = wrap_i64 ((if sc_TokenExpiryHours c \<le> 0 then 2 else sc_TokenExpiryHours c) * (3600 * second))"

text \<open>The interfaces of the machine: whether each is up and a loopback, and its addresses with the IPv4 form, if any.\<close>

record net_address =
  na_loopback :: bool
  na_ipv4 :: "string option"

record net_interface =
  ni_up :: bool
  ni_loopback :: bool
  ni_addrs :: "net_address list option"

fun first_address :: "net_address list \<Rightarrow> string option" where
  "first_address [] = None"
| "first_address (a # as) = (if na_loopback a then first_address as else case na_ipv4 a of Some ip \<Rightarrow> Some ip | None \<Rightarrow> first_address as)"

fun first_interface :: "net_interface list \<Rightarrow> string option" where
  "first_interface [] = None"
| "first_interface (i # is) =
     (if \<not> ni_up i \<or> ni_loopback i then first_interface is
      else case ni_addrs i of
        None \<Rightarrow> first_interface is
      | Some addrs \<Rightarrow> (case first_address addrs of Some ip \<Rightarrow> Some ip | None \<Rightarrow> first_interface is))"

definition firstNonLoopbackIPv4 :: "net_interface list option \<Rightarrow> string" where
  "firstNonLoopbackIPv4 ifaces = (case ifaces of None \<Rightarrow> [] | Some is \<Rightarrow> (case first_interface is of Some ip \<Rightarrow> ip | None \<Rightarrow> []))"

definition advertiseAddress :: "(string \<Rightarrow> string) \<Rightarrow> net_interface list option \<Rightarrow> server_config \<Rightarrow> string" where
  "advertiseAddress env ifaces c =
     (let envName = (if sc_AdvertiseAddressEnv c = [] then ''TRIBEWAY_ADVERTISE_ADDRESS'' else sc_AdvertiseAddressEnv c);
          a = TrimSpace (env envName); b = TrimSpace (sc_AdvertiseAddress c); d = firstNonLoopbackIPv4 ifaces
      in if a \<noteq> [] then a else if b \<noteq> [] \<and> b \<noteq> ''0.0.0.0'' then b else if d \<noteq> [] then d else ''127.0.0.1'')"

subsection \<open>Components\<close>

text \<open>
  The components besides the registry. \<open>'w\<close> is the state of the process; the watch and the ticker of the
  service discovery are part of it.
\<close>

datatype component = ActorSystemC | RedisC | MongoC | NsqC | BrokerC | DiscoveryC | RpcServerC | TcpServerC

record ('e, 'w) component_factory =
  fa_new :: "component \<Rightarrow> 'w \<Rightarrow> 'w \<times> string option"
  fa_registry :: "'w \<Rightarrow> 'w \<times> (string + 'e registry)"
  fa_rpc_start :: "'w \<Rightarrow> 'w \<times> string option"
  fa_stop :: "component \<Rightarrow> 'w \<Rightarrow> 'w \<times> string option"
  fa_ping :: "component \<Rightarrow> 'w \<Rightarrow> 'w \<times> string option"

text \<open>A component that is made is open until it is stopped; a registry is made unlocked.\<close>

locale component_host =
  fixes fa :: "('e, 'w) component_factory" and opened :: "'w \<Rightarrow> component set"
  assumes new: "fa_new fa c w = (w', r1) \<Longrightarrow> opened w' = (if r1 = None then insert c (opened w) else opened w)"
    and registry: "fa_registry fa w = (w', r2) \<Longrightarrow> opened w' = opened w \<and> (\<forall>reg. r2 = Inr reg \<longrightarrow> \<not> rg_locked reg)"
    and rpc_start: "fa_rpc_start fa w = (w', r3) \<Longrightarrow> opened w' = opened w"
    and stop: "fa_stop fa c w = (w', r4) \<Longrightarrow> opened w' = opened w - {c}"
    and ping: "fa_ping fa c w = (w', r5) \<Longrightarrow> opened w' = opened w"

text \<open>The goroutine that reports the load: not started, at its ticker, inside \<^verbatim>\<open>UpdateLoad\<close> for ever, gone.\<close>

datatype loop_state = LoopNone | LoopWaiting | LoopBlocked | LoopEnded

record ('e, 'w) base_server =
  bs_nodeType :: string
  bs_nodeID :: string
  bs_status :: string
  bs_has :: "component \<Rightarrow> bool"
  bs_registry :: "'e registry option"
  bs_world :: 'w
  bs_cancelled :: bool
  bs_loop :: loop_state

record ('e, 'w) base_deps =
  bd_factory :: "('e, 'w) component_factory"
  bd_registry :: "'e registry_deps"
  bd_address :: string
  bd_port :: int

subsection \<open>Construction\<close>

text \<open>The initialisers, \<open>None\<close> for the registry, with the text before an error of theirs.\<close>

definition componentInitializers :: "(string \<times> component option \<times> (component_options \<Rightarrow> bool) \<times> string) list" where
  "componentInitializers =
     [(''actor_system'', Some ActorSystemC, co_ActorSystem, []), (''redis'', Some RedisC, co_Redis, ''failed to init redis: ''),
      (''mongodb'', Some MongoC, co_MongoDB, ''failed to init mongodb: ''), (''nsq'', Some NsqC, co_NSQ, ''failed to init nsq: ''),
      (''message_broker'', Some BrokerC, co_MessageBroker, []), (''registry'', None, co_Registry, ''failed to init etcd registry: ''),
      (''service_discovery'', Some DiscoveryC, co_ServiceDiscovery, []), (''rpc_server'', Some RpcServerC, co_RPCServer, [])]"

definition init_one :: "('e, 'w) base_deps \<Rightarrow> component option \<Rightarrow> string \<Rightarrow> ('e, 'w) base_server \<Rightarrow> ('e, 'w) base_server \<times> string option" where
  "init_one deps c prefix s =
     (case c of
        Some k \<Rightarrow>
          (case fa_new (bd_factory deps) k (bs_world s) of
             (w, Some err) \<Rightarrow> (s\<lparr>bs_world := w\<rparr>, Some (prefix @ err))
           | (w, None) \<Rightarrow> (s\<lparr>bs_world := w, bs_has := (bs_has s)(k := True)\<rparr>, None))
      | None \<Rightarrow>
          (case fa_registry (bd_factory deps) (bs_world s) of
             (w, Inl err) \<Rightarrow> (s\<lparr>bs_world := w\<rparr>, Some (prefix @ err))
           | (w, Inr reg) \<Rightarrow> (s\<lparr>bs_world := w, bs_registry := Some reg\<rparr>, None)))"

fun init_all :: "('e, 'w) base_deps \<Rightarrow> component_options \<Rightarrow> (string \<times> component option \<times> (component_options \<Rightarrow> bool) \<times> string) list \<Rightarrow>
    ('e, 'w) base_server \<Rightarrow> ('e, 'w) base_server \<times> string option" where
  "init_all deps opts [] s = (s, None)"
| "init_all deps opts ((name, c, enabled, prefix) # rest) s =
     (if \<not> enabled opts then init_all deps opts rest s
      else case init_one deps c prefix s of
        (s1, Some err) \<Rightarrow> (s1, Some (''component '' @ name @ '': '' @ err))
      | (s1, None) \<Rightarrow> init_all deps opts rest s1)"

definition initComponents :: "('e, 'w) base_deps \<Rightarrow> component_options \<Rightarrow> ('e, 'w) base_server \<Rightarrow> ('e, 'w) base_server \<times> string option" where
  "initComponents deps opts s = (case Validate opts of Some err \<Rightarrow> (s, Some err) | None \<Rightarrow> init_all deps opts componentInitializers s)"

subsection \<open>Stopping\<close>

definition componentStoppers :: "(string \<times> component option) list" where
  "componentStoppers = [(''tcp_server'', Some TcpServerC), (''rpc_server'', Some RpcServerC), (''actor_system'', Some ActorSystemC),
     (''nsq'', Some NsqC), (''registry'', None), (''redis'', Some RedisC), (''mongodb'', Some MongoC)]"

text \<open>A result \<open>None\<close> is a call that never returns.\<close>

definition stop_one :: "('e, 'w) base_deps \<Rightarrow> component option \<Rightarrow> ('e, 'w) base_server \<Rightarrow> (('e, 'w) base_server \<times> string option) option" where
  "stop_one deps c s =
     (case c of
        Some k \<Rightarrow>
          if \<not> bs_has s k then Some (s, None)
          else (let (w, r) = fa_stop (bd_factory deps) k (bs_world s) in Some (s\<lparr>bs_world := w\<rparr>, r))
      | None \<Rightarrow>
          (case bs_registry s of
             None \<Rightarrow> Some (s, None)
           | Some reg \<Rightarrow>
               (case Unregister (bd_registry deps) (bs_nodeID s) reg of
                  (reg1, None) \<Rightarrow> None
                | (reg1, Some _) \<Rightarrow> (let (reg2, r) = Close (bd_registry deps) reg1 in Some (s\<lparr>bs_registry := Some reg2\<rparr>, r)))))"

fun stop_all :: "('e, 'w) base_deps \<Rightarrow> (string \<times> component option) list \<Rightarrow> string option \<Rightarrow> ('e, 'w) base_server \<Rightarrow>
    (('e, 'w) base_server \<times> string option) option" where
  "stop_all deps [] firstErr s = Some (s, firstErr)"
| "stop_all deps ((name, c) # rest) firstErr s =
     (case stop_one deps c s of
        None \<Rightarrow> None
      | Some (s1, None) \<Rightarrow> stop_all deps rest firstErr s1
      | Some (s1, Some err) \<Rightarrow>
          stop_all deps rest (case firstErr of None \<Rightarrow> Some (''component '' @ name @ '': '' @ err) | Some e \<Rightarrow> Some e) s1)"

definition stopComponents :: "('e, 'w) base_deps \<Rightarrow> ('e, 'w) base_server \<Rightarrow> (('e, 'w) base_server \<times> string option) option" where
  "stopComponents deps s = stop_all deps componentStoppers None s"

definition NewBaseServerWithFactory :: "('e, 'w) base_deps \<Rightarrow> string \<Rightarrow> string \<Rightarrow> string option \<Rightarrow> component_options \<Rightarrow> 'w \<Rightarrow>
    ('w \<times> (string + ('e, 'w) base_server)) option" where
  "NewBaseServerWithFactory deps nodeType nodeID configErr opts w =
     (case configErr of
        Some err \<Rightarrow> Some (w, Inl (''failed to load config: '' @ err))
      | None \<Rightarrow>
          (let s0 = \<lparr>bs_nodeType = nodeType, bs_nodeID = nodeID, bs_status = ''initializing'', bs_has = (\<lambda>_. False), bs_registry = None,
                 bs_world = w, bs_cancelled = False, bs_loop = LoopNone\<rparr>
           in case initComponents deps opts s0 of
                (s, None) \<Rightarrow> Some (bs_world s, Inr s)
              | (s, Some err) \<Rightarrow>
                  (case stopComponents deps (s\<lparr>bs_cancelled := True\<rparr>) of
                     None \<Rightarrow> None
                   | Some (s1, _) \<Rightarrow> Some (bs_world s1, Inl (''failed to init components: '' @ err)))))"

text \<open>\<^verbatim>\<open>cleanupBaseServerUnlessConstructed\<close>, which the constructors of the servers defer.\<close>

definition cleanup_unless :: "('e, 'w) base_deps \<Rightarrow> bool \<Rightarrow> ('e, 'w) base_server \<Rightarrow> ('e, 'w) base_server option" where
  "cleanup_unless deps constructed s =
     (if constructed then Some s else map_option fst (stopComponents deps (s\<lparr>bs_cancelled := True\<rparr>)))"

subsection \<open>Starting and stopping\<close>

text \<open>Waiting for the goroutine, which a cancelled context ends unless it is blocked.\<close>

definition wg_wait :: "('e, 'w) base_server \<Rightarrow> ('e, 'w) base_server option" where
  "wg_wait s = (case bs_loop s of
      LoopBlocked \<Rightarrow> None
    | LoopWaiting \<Rightarrow> if bs_cancelled s then Some (s\<lparr>bs_loop := LoopEnded\<rparr>) else None
    | _ \<Rightarrow> Some s)"

definition roll_back :: "('e, 'w) base_deps \<Rightarrow> string \<Rightarrow> ('e, 'w) base_server \<Rightarrow> (('e, 'w) base_server \<times> string option) option" where
  "roll_back deps err s =
     (case stopComponents deps (s\<lparr>bs_cancelled := True\<rparr>) of
        None \<Rightarrow> None
      | Some (s1, _) \<Rightarrow> (case wg_wait s1 of None \<Rightarrow> None | Some s2 \<Rightarrow> Some (s2\<lparr>bs_status := ''stopped''\<rparr>, Some err)))"

definition own_info :: "('e, 'w) base_deps \<Rightarrow> time \<Rightarrow> ('e, 'w) base_server \<Rightarrow> service_info" where
  "own_info deps now s = \<lparr>si_NodeID = bs_nodeID s, si_NodeType = bs_nodeType s, si_Address = bd_address deps, si_Port = bd_port deps,
     si_Load = 0, si_Status = ''online'', si_Metadata = [], si_UpdateTime = time_unix now\<rparr>"

definition Start :: "('e, 'w) base_deps \<Rightarrow> time \<Rightarrow> ('e, 'w) base_server \<Rightarrow> (('e, 'w) base_server \<times> string option) option" where
  "Start deps now s =
     (if bs_status s \<noteq> ''initializing'' then Some (s, Some ''server already started'')
      else
        case (if bs_has s RpcServerC then fa_rpc_start (bd_factory deps) (bs_world s) else (bs_world s, None)) of
          (w, Some err) \<Rightarrow> roll_back deps (''failed to start rpc server: '' @ err) (s\<lparr>bs_world := w\<rparr>)
        | (w, None) \<Rightarrow>
            (let s1 = s\<lparr>bs_world := w\<rparr> in
             case bs_registry s1 of
               None \<Rightarrow> Some (s1\<lparr>bs_status := ''running''\<rparr>, None)
             | Some reg \<Rightarrow>
                 (case Register (bd_registry deps) now (own_info deps now s1) reg of
                    (reg1, None) \<Rightarrow> None
                  | (reg1, Some (Some err)) \<Rightarrow> roll_back deps (''failed to register service: '' @ err) (s1\<lparr>bs_registry := Some reg1\<rparr>)
                  | (reg1, Some None) \<Rightarrow> Some (s1\<lparr>bs_registry := Some reg1, bs_loop := LoopWaiting, bs_status := ''running''\<rparr>, None))))"

definition Stop :: "('e, 'w) base_deps \<Rightarrow> ('e, 'w) base_server \<Rightarrow> (('e, 'w) base_server \<times> string option) option" where
  "Stop deps s =
     (if bs_status s \<noteq> ''running'' then Some (s, None)
      else case stopComponents deps (s\<lparr>bs_status := ''stopping'', bs_cancelled := True\<rparr>) of
        None \<Rightarrow> None
      | Some (s1, r) \<Rightarrow> (case wg_wait s1 of None \<Rightarrow> None | Some s2 \<Rightarrow> Some (s2\<lparr>bs_status := ''stopped''\<rparr>, r)))"

text \<open>The counts are those of the components that are there.\<close>

definition calculateLoad :: "int option \<Rightarrow> int option \<Rightarrow> int option \<Rightarrow> int" where
  "calculateLoad connections actors rpcConnections =
     (let add = (\<lambda>load n. case n of None \<Rightarrow> load | Some k \<Rightarrow> wrap_i64 (load + k))
      in add (add (add 0 connections) actors) rpcConnections)"

text \<open>One tick of \<^verbatim>\<open>loadUpdateLoop\<close>.\<close>

definition load_tick :: "('e, 'w) base_deps \<Rightarrow> time \<Rightarrow> int \<Rightarrow> ('e, 'w) base_server \<Rightarrow> ('e, 'w) base_server" where
  "load_tick deps now load s =
     (if bs_loop s \<noteq> LoopWaiting then s
      else case bs_registry s of
        None \<Rightarrow> s
      | Some reg \<Rightarrow>
          (case UpdateLoad (bd_registry deps) now (bs_nodeID s) load reg of
             (reg1, None) \<Rightarrow> s\<lparr>bs_registry := Some reg1, bs_loop := LoopBlocked\<rparr>
           | (reg1, Some _) \<Rightarrow> s\<lparr>bs_registry := Some reg1\<rparr>))"

subsection \<open>What is open\<close>

definition has_set :: "('e, 'w) base_server \<Rightarrow> component set" where
  "has_set s = {c. bs_has s c}"

definition unlocked :: "('e, 'w) base_server \<Rightarrow> bool" where
  "unlocked s \<longleftrightarrow> (case bs_registry s of None \<Rightarrow> True | Some reg \<Rightarrow> \<not> rg_locked reg)"

text \<open>Two states that differ in the components, the registry and the process only.\<close>

definition same_life :: "('e, 'w) base_server \<Rightarrow> ('e, 'w) base_server \<Rightarrow> bool" where
  "same_life s s' \<longleftrightarrow> bs_nodeType s' = bs_nodeType s \<and> bs_nodeID s' = bs_nodeID s \<and> bs_status s' = bs_status s \<and>
     bs_cancelled s' = bs_cancelled s \<and> bs_loop s' = bs_loop s"

lemma same_life_trans: "same_life s s1 \<Longrightarrow> same_life s1 s2 \<Longrightarrow> same_life s s2"
  by (simp add: same_life_def)

fun option_of :: "component_options \<Rightarrow> component \<Rightarrow> bool" where
  "option_of opts ActorSystemC = co_ActorSystem opts"
| "option_of opts RedisC = co_Redis opts"
| "option_of opts MongoC = co_MongoDB opts"
| "option_of opts NsqC = co_NSQ opts"
| "option_of opts BrokerC = co_MessageBroker opts"
| "option_of opts DiscoveryC = co_ServiceDiscovery opts"
| "option_of opts RpcServerC = co_RPCServer opts"
| "option_of opts TcpServerC = False"

definition enabled_set :: "component_options \<Rightarrow> component set" where
  "enabled_set opts = {c. option_of opts c}"

definition enabled_in :: "component_options \<Rightarrow> (string \<times> component option \<times> (component_options \<Rightarrow> bool) \<times> string) list \<Rightarrow> component option set" where
  "enabled_in opts l = set (map (\<lambda>(n, c, e, p). c) (filter (\<lambda>(n, c, e, p). e opts) l))"

locale server_on = component_host "bd_factory deps" opened for deps :: "('e, 'w) base_deps" and opened
begin

lemma initialised:
  assumes "init_one deps c prefix s = (s', r)" and "opened (bs_world s) = has_set s" and "unlocked s"
  shows "opened (bs_world s') = has_set s' \<and> unlocked s' \<and> same_life s s' \<and>
    (r = None \<longrightarrow> has_set s' = has_set s \<union> set_option c \<and> (bs_registry s' \<noteq> None \<longleftrightarrow> bs_registry s \<noteq> None \<or> c = None))"
proof (cases c)
  case (Some k)
  obtain w x where n: "fa_new (bd_factory deps) k (bs_world s) = (w, x)" by fastforce
  with assms Some new [OF n] show ?thesis by (cases x) (auto simp: init_one_def has_set_def unlocked_def same_life_def)
next
  case None
  obtain w x where n: "fa_registry (bd_factory deps) (bs_world s) = (w, x)" by fastforce
  with assms None registry [OF n] show ?thesis by (cases x) (auto simp: init_one_def has_set_def unlocked_def same_life_def)
qed

lemma initialised_all:
  assumes "init_all deps opts l s = (s', r)" and "opened (bs_world s) = has_set s" and "unlocked s"
  shows "opened (bs_world s') = has_set s' \<and> unlocked s' \<and> same_life s s' \<and>
    (r = None \<longrightarrow> has_set s' = has_set s \<union> {k. Some k \<in> enabled_in opts l} \<and>
       (bs_registry s' \<noteq> None \<longleftrightarrow> bs_registry s \<noteq> None \<or> None \<in> enabled_in opts l))"
  using assms
proof (induction l arbitrary: s)
  case (Cons x l)
  obtain name c e prefix where x: "x = (name, c, e, prefix)" by (metis prod_cases4)
  show ?case
  proof (cases "e opts")
    case False
    with Cons x show ?thesis by (simp add: enabled_in_def)
  next
    case True
    obtain s1 y where i: "init_one deps c prefix s = (s1, y)" by fastforce
    note i1 = initialised [OF i Cons.prems(2,3)]
    show ?thesis
    proof (cases y)
      case None
      with Cons.prems(1) x True i have "init_all deps opts l s1 = (s', r)" by simp
      moreover have "enabled_in opts (x # l) = insert c (enabled_in opts l)" using x True by (simp add: enabled_in_def)
      ultimately show ?thesis using Cons.IH [of s1] i1 None same_life_trans [of s s1 s'] by (cases c) auto
    next
      case (Some err)
      with Cons.prems(1) x True i i1 show ?thesis by auto
    qed
  qed
qed (simp add: same_life_def enabled_in_def)

lemma stopped_one:
  assumes "unlocked s"
  shows "\<exists>s' r. stop_one deps c s = Some (s', r) \<and> same_life s s' \<and> bs_has s' = bs_has s \<and> unlocked s' \<and>
    opened (bs_world s') = opened (bs_world s) - (set_option c \<inter> has_set s)"
proof (cases c)
  case (Some k)
  obtain w x where "fa_stop (bd_factory deps) k (bs_world s) = (w, x)" by fastforce
  with Some assms stop [OF this] show ?thesis by (auto simp: stop_one_def same_life_def has_set_def unlocked_def)
next
  case None
  show ?thesis
  proof (cases "bs_registry s")
    case None
    with \<open>c = None\<close> assms show ?thesis by (simp add: stop_one_def same_life_def)
  next
    case (Some reg)
    with assms have u: "\<not> rg_locked reg" by (simp add: unlocked_def)
    obtain reg1 x where un: "Unregister (bd_registry deps) (bs_nodeID s) reg = (reg1, x)" by fastforce
    with u have x: "x \<noteq> None \<and> \<not> rg_locked reg1"
      by (auto simp: Unregister_def split: option.splits prod.splits)
    obtain reg2 y where cl: "Close (bd_registry deps) reg1 = (reg2, y)" by fastforce
    with x have "\<not> rg_locked reg2" by (auto simp: Close_def Let_def split: prod.splits)
    with None Some un x cl show ?thesis by (auto simp: stop_one_def same_life_def unlocked_def)
  qed
qed

lemma stopped_all:
  "unlocked s \<Longrightarrow> \<exists>s' r. stop_all deps l e s = Some (s', r) \<and> same_life s s' \<and> bs_has s' = bs_has s \<and> unlocked s' \<and>
    opened (bs_world s') = opened (bs_world s) - {k. Some k \<in> snd ` set l \<and> bs_has s k}"
proof (induction l arbitrary: s e)
  case (Cons x l)
  obtain name c where x: "x = (name, c)" by fastforce
  from stopped_one [OF Cons.prems, of c] obtain s1 y where s1: "stop_one deps c s = Some (s1, y)" "same_life s s1" "bs_has s1 = bs_has s" "unlocked s1"
    "opened (bs_world s1) = opened (bs_world s) - (set_option c \<inter> has_set s)" by blast
  let ?e = "case y of None \<Rightarrow> e | Some err \<Rightarrow> (case e of None \<Rightarrow> Some (''component '' @ name @ '': '' @ err) | Some e' \<Rightarrow> Some e')"
  have st: "stop_all deps (x # l) e s = stop_all deps l ?e s1" using x s1(1) by (cases y) simp_all
  from Cons.IH [OF s1(4), of ?e] obtain s2 z where s2: "stop_all deps l ?e s1 = Some (s2, z)" "same_life s1 s2" "bs_has s2 = bs_has s1" "unlocked s2"
    "opened (bs_world s2) = opened (bs_world s1) - {k. Some k \<in> snd ` set l \<and> bs_has s1 k}" by blast
  have "opened (bs_world s2) = opened (bs_world s) - {k. Some k \<in> snd ` set (x # l) \<and> bs_has s k}"
    using s1(3,5) s2(5) x by (auto simp: has_set_def)
  with st s1 s2 same_life_trans show ?case by (metis)
qed (simp add: same_life_def)

lemma all_components_stop:
  assumes "unlocked s"
  shows "\<exists>s' r. stopComponents deps s = Some (s', r) \<and> same_life s s' \<and> bs_has s' = bs_has s \<and> unlocked s' \<and>
    opened (bs_world s') = opened (bs_world s) - (has_set s - {BrokerC, DiscoveryC})"
proof -
  have "{k. Some k \<in> snd ` set componentStoppers \<and> bs_has s k} = has_set s - {BrokerC, DiscoveryC}"
  proof -
    have "Some k \<in> snd ` set componentStoppers \<longleftrightarrow> k \<notin> {BrokerC, DiscoveryC}" for k by (cases k) (simp_all add: componentStoppers_def)
    then show ?thesis by (auto simp: has_set_def)
  qed
  with stopped_all [OF assms, of componentStoppers None] show ?thesis unfolding stopComponents_def by (simp only:)
qed

lemma components_built:
  assumes "initComponents deps opts s = (s', r)" and "opened (bs_world s) = has_set s" and "unlocked s"
  shows "opened (bs_world s') = has_set s' \<and> unlocked s' \<and> same_life s s' \<and>
    (r = None \<longrightarrow> has_set s' = has_set s \<union> enabled_set opts \<and> (bs_registry s' \<noteq> None \<longleftrightarrow> bs_registry s \<noteq> None \<or> co_Registry opts))"
proof (cases "Validate opts")
  case (Some e)
  then have "s' = s" "r = Some e" using assms(1) by (simp_all add: initComponents_def)
  with assms(2,3) show ?thesis by (simp add: same_life_def)
next
  case None
  then have i: "init_all deps opts componentInitializers s = (s', r)" using assms(1) by (simp add: initComponents_def)
  have "Some k \<in> enabled_in opts componentInitializers \<longleftrightarrow> option_of opts k" for k
    by (cases k) (auto simp: componentInitializers_def enabled_in_def)
  moreover have "None \<in> enabled_in opts componentInitializers \<longleftrightarrow> co_Registry opts"
    by (auto simp: componentInitializers_def enabled_in_def)
  ultimately show ?thesis using initialised_all [OF i assms(2,3)] by (simp add: enabled_set_def)
qed

end

subsection \<open>The life of a server\<close>

datatype life_call = StartL time | StopL | TickL time int

fun life_step :: "('e, 'w) base_deps \<Rightarrow> life_call \<Rightarrow> ('e, 'w) base_server \<Rightarrow> ('e, 'w) base_server option" where
  "life_step deps (StartL now) s = map_option fst (Start deps now s)"
| "life_step deps StopL s = map_option fst (Stop deps s)"
| "life_step deps (TickL now load) s = Some (load_tick deps now load s)"

fun life_run :: "('e, 'w) base_deps \<Rightarrow> life_call list \<Rightarrow> ('e, 'w) base_server \<Rightarrow> ('e, 'w) base_server option" where
  "life_run deps [] s = Some s"
| "life_run deps (c # cs) s = (case life_step deps c s of None \<Rightarrow> None | Some s1 \<Rightarrow> life_run deps cs s1)"

fun is_tick :: "life_call \<Rightarrow> bool" where
  "is_tick (TickL now load) = True"
| "is_tick _ = False"

text \<open>The states a server goes through: not started, running, with its goroutine blocked, stopped.\<close>

definition registered_here :: "('e, 'w) base_server \<Rightarrow> bool" where
  "registered_here s \<longleftrightarrow> (case bs_registry s of None \<Rightarrow> False | Some reg \<Rightarrow> rg_services reg (bs_nodeID s) \<noteq> None)"

definition life_ok :: "component_options \<Rightarrow> component set \<Rightarrow> ('e, 'w) base_server \<Rightarrow> bool" where
  "life_ok opts live s \<longleftrightarrow> has_set s = enabled_set opts \<and> (bs_registry s \<noteq> None \<longleftrightarrow> co_Registry opts) \<and>
     (if bs_status s = ''stopped''
      then live = enabled_set opts \<inter> {BrokerC, DiscoveryC} \<and> unlocked s \<and> bs_loop s \<in> {LoopNone, LoopEnded}
      else live = enabled_set opts \<and>
        (if bs_status s = ''initializing'' then unlocked s \<and> bs_loop s = LoopNone
         else bs_status s = ''running'' \<and>
           (if co_Registry opts then bs_loop s = LoopBlocked \<and> \<not> unlocked s \<or> bs_loop s = LoopWaiting \<and> unlocked s \<and> registered_here s
            else bs_loop s = LoopNone)))"

lemma register_unlocked:
  assumes "Register rd now info reg = (reg1, x)" and "\<not> rg_locked reg"
  shows "x \<noteq> None \<and> \<not> rg_locked reg1 \<and> (x = Some None \<longrightarrow> rg_services reg1 (si_NodeID info) \<noteq> None)"
  using assms by (auto simp: Register_def Let_def split: sum.splits prod.splits option.splits)

lemma tick_blocks:
  assumes "bs_loop s = LoopWaiting" and "unlocked s" and "registered_here s"
  shows "\<exists>reg. load_tick deps now load s = s\<lparr>bs_registry := Some reg, bs_loop := LoopBlocked\<rparr> \<and> rg_locked reg"
proof -
  from assms obtain reg info where r: "bs_registry s = Some reg" "\<not> rg_locked reg" "rg_services reg (bs_nodeID s) = Some info"
    by (auto simp: unlocked_def registered_here_def split: option.splits)
  obtain reg1 x where u: "UpdateLoad (bd_registry deps) now (bs_nodeID s) load reg = (reg1, x)" by fastforce
  with r have "x = None \<and> rg_locked reg1" by (auto simp: UpdateLoad_def Register_def Let_def)
  with r u assms(1) show ?thesis by (intro exI [of _ reg1]) (simp add: load_tick_def)
qed

lemma registry_kept:
  "stop_all deps l e s = Some (s', r) \<Longrightarrow> bs_registry s' \<noteq> None \<longleftrightarrow> bs_registry s \<noteq> None"
proof (induction l arbitrary: s e)
  case (Cons x l)
  obtain name c where x: "x = (name, c)" by fastforce
  with Cons.prems obtain s1 y where s1: "stop_one deps c s = Some (s1, y)" by (auto split: option.splits)
  then have "bs_registry s1 \<noteq> None \<longleftrightarrow> bs_registry s \<noteq> None"
    by (auto simp: stop_one_def Let_def split: option.splits if_splits prod.splits)
  moreover have "\<exists>e'. stop_all deps l e' s1 = Some (s', r)" using Cons.prems x s1 by (cases y) auto
  ultimately show ?case using Cons.IH by blast
qed simp

lemma locked_stop:
  "\<not> unlocked s \<Longrightarrow> (n, None) \<in> set l \<Longrightarrow> stop_all deps l e s = None"
proof (induction l arbitrary: s e)
  case (Cons x l)
  obtain name c where x: "x = (name, c)" by fastforce
  from Cons.prems(1) obtain reg where r: "bs_registry s = Some reg" "rg_locked reg" by (auto simp: unlocked_def split: option.splits)
  show ?case
  proof (cases c)
    case None
    then have "stop_one deps c s = None" using r by (simp add: stop_one_def Unregister_def)
    with x show ?thesis by simp
  next
    case (Some k)
    then have "\<exists>s1 y. stop_one deps c s = Some (s1, y) \<and> \<not> unlocked s1"
      using r by (cases "fa_stop (bd_factory deps) k (bs_world s)") (simp add: stop_one_def unlocked_def)
    then obtain s1 y where s1: "stop_one deps c s = Some (s1, y)" "\<not> unlocked s1" by blast
    have "(n, None) \<in> set l" using Cons.prems(2) x Some by auto
    with Cons.IH [OF s1(2)] x s1(1) show ?thesis by (cases y) simp_all
  qed
qed simp

lemma locked_stop_hangs: "\<not> unlocked s \<Longrightarrow> bs_status s = ''running'' \<Longrightarrow> Stop deps s = None"
  using locked_stop [of "s\<lparr>bs_status := ''stopping'', bs_cancelled := True\<rparr>" "''registry''" componentStoppers deps None]
  by (simp add: Stop_def stopComponents_def unlocked_def componentStoppers_def)

lemma tick_when_blocked: "bs_loop s \<noteq> LoopWaiting \<Longrightarrow> load_tick deps now load s = s"
  by (simp add: load_tick_def)

text \<open>The states in which the goroutine is not blocked.\<close>

definition life_free :: "component_options \<Rightarrow> component set \<Rightarrow> ('e, 'w) base_server \<Rightarrow> bool" where
  "life_free opts live s \<longleftrightarrow> life_ok opts live s \<and> bs_loop s \<noteq> LoopBlocked \<and> unlocked s"

context server_on
begin

abbreviation "live s \<equiv> opened (bs_world s)"

lemma rolled_back:
  assumes "unlocked s" and "bs_loop s = LoopNone"
  shows "\<exists>s'. roll_back deps err s = Some (s', Some err) \<and> bs_status s' = ''stopped'' \<and> has_set s' = has_set s \<and> unlocked s' \<and> bs_loop s' = LoopNone \<and>
    (bs_registry s' \<noteq> None \<longleftrightarrow> bs_registry s \<noteq> None) \<and> live s' = live s - (has_set s - {BrokerC, DiscoveryC})"
proof -
  have "unlocked (s\<lparr>bs_cancelled := True\<rparr>)" using assms(1) by (simp add: unlocked_def)
  from all_components_stop [OF this] obtain s1 r where s1: "stopComponents deps (s\<lparr>bs_cancelled := True\<rparr>) = Some (s1, r)"
    "same_life (s\<lparr>bs_cancelled := True\<rparr>) s1" "bs_has s1 = bs_has s" "unlocked s1" "live s1 = live s - (has_set s - {BrokerC, DiscoveryC})"
    by (auto simp: has_set_def)
  then have "roll_back deps err s = Some (s1\<lparr>bs_status := ''stopped''\<rparr>, Some err)"
    using assms(2) by (simp add: roll_back_def wg_wait_def same_life_def)
  moreover have "bs_registry s1 \<noteq> None \<longleftrightarrow> bs_registry s \<noteq> None"
    using registry_kept [OF s1(1) [unfolded stopComponents_def]] by simp
  ultimately show ?thesis using s1 assms(2) by (auto simp: has_set_def unlocked_def same_life_def)
qed

lemma minus_stoppable: "E - (E - {BrokerC, DiscoveryC}) = E \<inter> {BrokerC, DiscoveryC}"
  by auto

lemma started:
  assumes "life_ok opts (live s) s" and "bs_status s = ''initializing''"
  shows "\<exists>s' r. Start deps now s = Some (s', r) \<and> life_ok opts (live s') s' \<and> bs_loop s' \<noteq> LoopBlocked \<and> unlocked s' \<and>
    bs_status s' = (if r = None then ''running'' else ''stopped'')"
proof -
  have ok: "has_set s = enabled_set opts" "bs_registry s \<noteq> None \<longleftrightarrow> co_Registry opts" "live s = enabled_set opts" "unlocked s" "bs_loop s = LoopNone"
    using assms by (simp_all add: life_ok_def)
  obtain w x where rpc: "(if bs_has s RpcServerC then fa_rpc_start (bd_factory deps) (bs_world s) else (bs_world s, None)) = (w, x)" by fastforce
  then have w: "opened w = live s" using rpc_start by (auto split: if_splits)
  have undo: "\<exists>s' r. roll_back deps err t = Some (s', r) \<and> life_ok opts (live s') s' \<and> bs_loop s' \<noteq> LoopBlocked \<and> unlocked s' \<and>
    bs_status s' = (if r = None then ''running'' else ''stopped'')"
    if "unlocked t" "bs_loop t = LoopNone" "has_set t = enabled_set opts" "bs_registry t \<noteq> None \<longleftrightarrow> co_Registry opts" "live t = enabled_set opts" for t err
  proof -
    from rolled_back [OF that(1,2), of err] obtain s' where s': "roll_back deps err t = Some (s', Some err)" "bs_status s' = ''stopped''"
      "has_set s' = has_set t" "unlocked s'" "bs_loop s' = LoopNone" "bs_registry s' \<noteq> None \<longleftrightarrow> bs_registry t \<noteq> None"
      "live s' = live t - (has_set t - {BrokerC, DiscoveryC})" by blast
    then have "life_ok opts (live s') s'" using that by (simp add: life_ok_def minus_stoppable)
    with s' show ?thesis by simp
  qed
  show ?thesis
  proof (cases x)
    case (Some err)
    have "Start deps now s = roll_back deps (''failed to start rpc server: '' @ err) (s\<lparr>bs_world := w\<rparr>)"
      using assms(2) rpc Some by (simp add: Start_def)
    with undo [of "s\<lparr>bs_world := w\<rparr>"] ok w show ?thesis by (simp add: has_set_def unlocked_def)
  next
    case None
    let ?s1 = "s\<lparr>bs_world := w\<rparr>"
    show ?thesis
    proof (cases "bs_registry s")
      case no_reg: None
      then have "Start deps now s = Some (?s1\<lparr>bs_status := ''running''\<rparr>, None)" using assms(2) rpc None by (simp add: Start_def)
      with ok w no_reg show ?thesis by (simp add: life_ok_def has_set_def unlocked_def)
    next
      case (Some reg)
      obtain reg1 y where g: "Register (bd_registry deps) now (own_info deps now ?s1) reg = (reg1, y)" by fastforce
      have "\<not> rg_locked reg" using ok(4) Some by (simp add: unlocked_def)
      note ru = register_unlocked [OF g this]
      show ?thesis
      proof (cases "y = Some None")
        case True
        then have st: "Start deps now s = Some (?s1\<lparr>bs_registry := Some reg1, bs_loop := LoopWaiting, bs_status := ''running''\<rparr>, None)"
          using assms(2) rpc None Some g by (simp add: Start_def)
        have "rg_services reg1 (bs_nodeID s) \<noteq> None" "\<not> rg_locked reg1" using ru True by (simp_all add: own_info_def)
        with st ok w Some show ?thesis
          by (auto simp: life_ok_def has_set_def unlocked_def registered_here_def)
      next
        case False
        with ru obtain err where "y = Some (Some err)" by (cases y; cases "the y") auto
        then have st: "Start deps now s = roll_back deps (''failed to register service: '' @ err) (?s1\<lparr>bs_registry := Some reg1\<rparr>)"
          using assms(2) rpc None Some g by (simp add: Start_def)
        show ?thesis unfolding st by (rule undo) (use ok w Some ru in \<open>simp_all add: has_set_def unlocked_def\<close>)
      qed
    qed
  qed
qed

lemma stopped:
  assumes "life_ok opts (live s) s" and "bs_loop s \<noteq> LoopBlocked" and "unlocked s"
  shows "\<exists>s' r. Stop deps s = Some (s', r) \<and> life_ok opts (live s') s' \<and> (bs_status s = ''running'' \<longrightarrow> bs_status s' = ''stopped'') \<and>
    bs_loop s' \<noteq> LoopBlocked \<and> unlocked s'"
proof (cases "bs_status s = ''running''")
  case False
  with assms show ?thesis by (simp add: Stop_def)
next
  case True
  let ?s0 = "s\<lparr>bs_status := ''stopping'', bs_cancelled := True\<rparr>"
  have ok: "has_set s = enabled_set opts" "bs_registry s \<noteq> None \<longleftrightarrow> co_Registry opts" "live s = enabled_set opts"
    "bs_loop s \<in> {LoopNone, LoopWaiting}"
    using assms True by (auto simp: life_ok_def split: if_splits)
  have "unlocked ?s0" using assms(3) by (simp add: unlocked_def)
  from all_components_stop [OF this] obtain s1 r where s1: "stopComponents deps ?s0 = Some (s1, r)" "same_life ?s0 s1" "bs_has s1 = bs_has s" "unlocked s1"
    "live s1 = live s - (has_set s - {BrokerC, DiscoveryC})"
    by (auto simp: has_set_def)
  define s2 where "s2 = (if bs_loop s = LoopWaiting then s1\<lparr>bs_loop := LoopEnded\<rparr> else s1)"
  have "wg_wait s1 = Some s2" using s1(2) ok(4) by (auto simp: wg_wait_def same_life_def s2_def)
  then have st: "Stop deps s = Some (s2\<lparr>bs_status := ''stopped''\<rparr>, r)" using True s1(1) by (simp add: Stop_def)
  have "bs_registry s1 \<noteq> None \<longleftrightarrow> bs_registry s \<noteq> None"
    using registry_kept [OF s1(1) [unfolded stopComponents_def]] by simp
  then show ?thesis unfolding st using s1 ok
    by (auto simp: life_ok_def s2_def has_set_def unlocked_def same_life_def minus_stoppable)
qed

lemma free_step:
  assumes "life_free opts (live s) s" and "\<not> is_tick c"
  shows "\<exists>s'. life_step deps c s = Some s' \<and> life_free opts (live s') s'"
proof (cases c)
  case (StartL now)
  show ?thesis
  proof (cases "bs_status s = ''initializing''")
    case True
    with started [of opts s now] assms(1) StartL show ?thesis by (auto simp: life_free_def)
  qed (use assms(1) StartL in \<open>simp add: Start_def\<close>)
next
  case StopL
  with stopped [of opts s] assms(1) show ?thesis by (auto simp: life_free_def)
qed (use assms(2) in simp)

lemma free_run:
  "life_free opts (live s) s \<Longrightarrow> list_all (\<lambda>c. \<not> is_tick c) cs \<Longrightarrow> \<exists>s'. life_run deps cs s = Some s' \<and> life_free opts (live s') s'"
proof (induction cs arbitrary: s)
  case (Cons c cs)
  from free_step [OF Cons.prems(1), of c] Cons.prems(2) obtain s1 where s1: "life_step deps c s = Some s1" "life_free opts (live s1) s1" by auto
  with Cons.IH [OF s1(2)] Cons.prems(2) show ?case by simp
qed simp

lemma ok_tick:
  assumes "life_ok opts (live s) s"
  shows "life_ok opts (live (load_tick deps now load s)) (load_tick deps now load s)"
proof (cases "bs_loop s = LoopWaiting")
  case False
  with assms show ?thesis by (simp add: tick_when_blocked)
next
  case True
  with assms have ok: "bs_status s = ''running''" "co_Registry opts" "unlocked s" "registered_here s" "has_set s = enabled_set opts" "live s = enabled_set opts"
    by (auto simp: life_ok_def split: if_splits)
  from tick_blocks [OF True ok(3,4), of deps now load] obtain reg where
    "load_tick deps now load s = s\<lparr>bs_registry := Some reg, bs_loop := LoopBlocked\<rparr>" "rg_locked reg" by blast
  then show ?thesis using ok by (simp add: life_ok_def has_set_def unlocked_def)
qed

lemma ok_step:
  assumes "life_ok opts (live s) s" and "life_step deps c s = Some s'"
  shows "life_ok opts (live s') s'"
proof (cases "is_tick c")
  case True
  with assms ok_tick show ?thesis by (cases c) auto
next
  case False
  show ?thesis
  proof (cases "unlocked s")
    case u: True
    then have "bs_loop s \<noteq> LoopBlocked" using assms(1) by (auto simp: life_ok_def split: if_splits)
    with free_step [of opts s c] u assms False show ?thesis by (auto simp: life_free_def)
  next
    case u: False
    then have st: "bs_status s = ''running''" using assms(1) by (auto simp: life_ok_def split: if_splits)
    with locked_stop_hangs [OF u, of deps] False assms show ?thesis by (cases c) (auto simp: Start_def)
  qed
qed

lemma ok_run: "life_ok opts (live s) s \<Longrightarrow> life_run deps cs s = Some s' \<Longrightarrow> life_ok opts (live s') s'"
proof (induction cs arbitrary: s)
  case (Cons c cs)
  then show ?case using ok_step [of opts s c] by (auto split: option.splits)
qed simp

lemma constructed:
  assumes "opened w = {}"
  shows "\<exists>w' r. NewBaseServerWithFactory deps nodeType nodeID cfg opts w = Some (w', r) \<and>
    (case r of Inr s \<Rightarrow> w' = bs_world s \<and> life_free opts (live s) s \<and> bs_status s = ''initializing'' \<and> bs_nodeID s = nodeID \<and> bs_nodeType s = nodeType
     | Inl _ \<Rightarrow> opened w' \<subseteq> {BrokerC, DiscoveryC})"
proof (cases cfg)
  case (Some e)
  with assms show ?thesis by (simp add: NewBaseServerWithFactory_def)
next
  case None
  let ?s0 = "\<lparr>bs_nodeType = nodeType, bs_nodeID = nodeID, bs_status = ''initializing'', bs_has = (\<lambda>_. False), bs_registry = None,
     bs_world = w, bs_cancelled = False, bs_loop = LoopNone\<rparr>"
  obtain s r where i: "initComponents deps opts ?s0 = (s, r)" by fastforce
  note b = components_built [OF i]
  have b1: "live s = has_set s" "unlocked s" "same_life ?s0 s" and b2: "r = None \<Longrightarrow> has_set s = enabled_set opts \<and> (bs_registry s \<noteq> None \<longleftrightarrow> co_Registry opts)"
    using b assms by (simp_all add: has_set_def unlocked_def)
  show ?thesis
  proof (cases r)
    case r: None
    then have "NewBaseServerWithFactory deps nodeType nodeID cfg opts w = Some (bs_world s, Inr s)"
      using None i by (simp add: NewBaseServerWithFactory_def)
    with b1 b2 [OF r] show ?thesis by (simp add: life_free_def life_ok_def same_life_def)
  next
    case (Some err)
    have "unlocked (s\<lparr>bs_cancelled := True\<rparr>)" using b1(2) by (simp add: unlocked_def)
    from all_components_stop [OF this] obtain s1 y where s1: "stopComponents deps (s\<lparr>bs_cancelled := True\<rparr>) = Some (s1, y)"
      "live s1 = live s - (has_set s - {BrokerC, DiscoveryC})" by (auto simp: has_set_def)
    then have "NewBaseServerWithFactory deps nodeType nodeID cfg opts w = Some (bs_world s1, Inl (''failed to init components: '' @ err))"
      using None i Some by (simp add: NewBaseServerWithFactory_def)
    with s1(2) b1(1) show ?thesis by auto
  qed
qed

end

subsection \<open>A host in memory\<close>

record demo_host =
  dh_open :: "component set"
  dh_failing :: "component set"

definition demo_factory :: "(mem_etcd, demo_host) component_factory" where
  "demo_factory = \<lparr>fa_new = (\<lambda>c w. if c \<in> dh_failing w then (w, Some ''down'') else (w\<lparr>dh_open := insert c (dh_open w)\<rparr>, None)),
     fa_registry = (\<lambda>w. (w, Inr demo_registry)), fa_rpc_start = (\<lambda>w. (w, None)),
     fa_stop = (\<lambda>c w. (w\<lparr>dh_open := dh_open w - {c}\<rparr>, None)), fa_ping = (\<lambda>c w. (w, if c \<in> dh_failing w then Some ''down'' else None))\<rparr>"

definition demo_base :: "(mem_etcd, demo_host) base_deps" where
  "demo_base = \<lparr>bd_factory = demo_factory, bd_registry = demo_deps, bd_address = ''a'', bd_port = 1\<rparr>"

interpretation demo_components: component_host demo_factory dh_open
  by unfold_locales (auto simp: demo_factory_def demo_registry_def split: if_splits)

interpretation demo_life: server_on demo_base dh_open
  using demo_components.component_host_axioms by (intro server_on.intro) (simp add: demo_base_def)

subsection \<open>Properties\<close>

text \<open>
  construction is all or nothing: with nothing open before, \<^verbatim>\<open>NewBaseServer\<close> always returns; on success
  exactly the components of the options are open and a registry is there exactly when they ask for one, and
  on failure every component that was opened is closed again, but for the message broker and the service
  discovery, which have no stopper.
\<close>

theorem construction_all_or_nothing:
  assumes "component_host (bd_factory deps) opened" and "opened w = {}"
  shows "\<exists>w' r. NewBaseServerWithFactory deps nodeType nodeID cfg opts w = Some (w', r) \<and>
    (case r of Inr s \<Rightarrow> w' = bs_world s \<and> opened w' = enabled_set opts \<and> (bs_registry s \<noteq> None \<longleftrightarrow> co_Registry opts)
     | Inl _ \<Rightarrow> opened w' \<subseteq> {BrokerC, DiscoveryC})"
proof -
  from server_on.constructed [OF server_on.intro [OF assms(1)] assms(2), of nodeType nodeID cfg opts] obtain w' r where
    n: "NewBaseServerWithFactory deps nodeType nodeID cfg opts w = Some (w', r)" and
    r: "case r of Inr s \<Rightarrow> w' = bs_world s \<and> life_free opts (opened (bs_world s)) s \<and> bs_status s = ''initializing'' \<and>
       bs_nodeID s = nodeID \<and> bs_nodeType s = nodeType | Inl _ \<Rightarrow> opened w' \<subseteq> {BrokerC, DiscoveryC}" by blast
  show ?thesis
  proof (cases r)
    case (Inr s)
    with r have "w' = bs_world s \<and> opened w' = enabled_set opts \<and> (bs_registry s \<noteq> None \<longleftrightarrow> co_Registry opts)"
      by (simp add: life_free_def life_ok_def)
    with n Inr show ?thesis by auto
  qed (use n r in auto)
qed

definition demo_down :: demo_host where
  "demo_down = \<lparr>dh_open = {}, dh_failing = {NsqC}\<rparr>"

theorem construction_all_or_nothing_witness:
  "\<exists>w' e. NewBaseServerWithFactory demo_base ''login'' ''n'' None LoginComponents demo_down = Some (w', Inl e) \<and> dh_open w' \<subseteq> {BrokerC, DiscoveryC}"
proof -
  have "\<not> (\<exists>w' s. NewBaseServerWithFactory demo_base ''login'' ''n'' None LoginComponents demo_down = Some (w', Inr s))"
    by (simp add: NewBaseServerWithFactory_def initComponents_def Validate_def problems_def LoginComponents_def no_components_def
        componentInitializers_def init_one_def demo_base_def demo_factory_def demo_down_def split: option.splits prod.splits)
  moreover have "dh_open demo_down = {}" by (simp add: demo_down_def)
  from construction_all_or_nothing [OF demo_life.component_host_axioms this, of "''login''" "''n''" None LoginComponents]
  obtain w' r where "NewBaseServerWithFactory demo_base ''login'' ''n'' None LoginComponents demo_down = Some (w', r)"
    "case r of Inr s \<Rightarrow> w' = bs_world s \<and> dh_open w' = enabled_set LoginComponents \<and> (bs_registry s \<noteq> None \<longleftrightarrow> co_Registry LoginComponents)
       | Inl _ \<Rightarrow> dh_open w' \<subseteq> {BrokerC, DiscoveryC}" by blast
  ultimately show ?thesis by (cases r) auto
qed


definition demo_up :: demo_host where
  "demo_up = \<lparr>dh_open = {}, dh_failing = {}\<rparr>"

definition demo_server :: "(mem_etcd, demo_host) base_server" where
  "demo_server = \<lparr>bs_nodeType = ''game'', bs_nodeID = ''g1'', bs_status = ''initializing'',
     bs_has = (\<lambda>c. c \<in> {NsqC, BrokerC, DiscoveryC, RpcServerC}), bs_registry = Some demo_registry,
     bs_world = \<lparr>dh_open = {NsqC, BrokerC, DiscoveryC, RpcServerC}, dh_failing = {}\<rparr>, bs_cancelled = False, bs_loop = LoopNone\<rparr>"

lemma demo_constructed:
  "NewBaseServerWithFactory demo_base ''game'' ''g1'' None EnhancedGameComponents demo_up = Some (bs_world demo_server, Inr demo_server)"
  by (auto simp: NewBaseServerWithFactory_def initComponents_def Validate_def problems_def EnhancedGameComponents_def no_components_def
      componentInitializers_def init_one_def demo_base_def demo_factory_def demo_up_def demo_server_def fun_eq_iff)


text \<open>
  a server with a registry that has started cannot be stopped any more once its load has been reported
  for the first time: the report never returns, and \<^verbatim>\<open>Stop\<close> then waits for the mutex of the registry.
\<close>

theorem stop_after_tick_hangs:
  assumes "component_host (bd_factory deps) opened" and "opened w = {}"
    and "NewBaseServerWithFactory deps nodeType nodeID cfg opts w = Some (w', Inr s)" and "co_Registry opts"
    and "Start deps now s = Some (s1, None)"
  shows "\<exists>s2. life_run deps (TickL t load # map (\<lambda>(t', l). TickL t' l) ticks) s1 = Some s2 \<and> bs_loop s2 = LoopBlocked \<and> Stop deps s2 = None"
proof -
  note so = server_on.intro [OF assms(1)]
  from server_on.constructed [OF so assms(2), of nodeType nodeID cfg opts] assms(3)
  have f: "life_ok opts (opened (bs_world s)) s" "bs_status s = ''initializing''" by (simp_all add: life_free_def)
  from server_on.started [OF so f, of now] assms(5)
  have "life_ok opts (opened (bs_world s1)) s1" "bs_loop s1 \<noteq> LoopBlocked" "bs_status s1 = ''running''" by simp_all
  with assms(4) have "bs_loop s1 = LoopWaiting" "unlocked s1" "registered_here s1" by (auto simp: life_ok_def)
  from tick_blocks [OF this, of deps t load] obtain reg where
    l: "load_tick deps t load s1 = s1\<lparr>bs_registry := Some reg, bs_loop := LoopBlocked\<rparr>" "rg_locked reg" by blast
  have "life_run deps (map (\<lambda>(t', l). TickL t' l) ticks) s2 = Some s2" if "bs_loop s2 = LoopBlocked" for s2
    using that by (induction ticks) (auto simp: tick_when_blocked)
  moreover have "Stop deps (s1\<lparr>bs_registry := Some reg, bs_loop := LoopBlocked\<rparr>) = None"
    by (rule locked_stop_hangs) (use l(2) \<open>bs_status s1 = ''running''\<close> in \<open>simp_all add: unlocked_def\<close>)
  ultimately show ?thesis using l(1) by (intro exI [of _ "s1\<lparr>bs_registry := Some reg, bs_loop := LoopBlocked\<rparr>"]) simp
qed

theorem stop_after_tick_hangs_witness:
  "\<exists>s1 s2. Start demo_base unix_epoch demo_server = Some (s1, None) \<and> life_run demo_base [TickL 30 5] s1 = Some s2 \<and> Stop demo_base s2 = None"
proof -
  obtain s1 where s1: "Start demo_base unix_epoch demo_server = Some (s1, None)"
    by (auto simp: Start_def demo_server_def demo_base_def demo_factory_def own_info_def demo_registry_simps)
  have "co_Registry EnhancedGameComponents" by (simp add: EnhancedGameComponents_def)
  from stop_after_tick_hangs [OF demo_life.component_host_axioms _ demo_constructed this s1, of 30 5 "[]"] s1
  show ?thesis by (auto simp: demo_up_def)
qed

text \<open>The choices of components the servers make are consistent.\<close>

lemma presets_valid:
  "Validate EnhancedGameComponents = None" "Validate MongoServiceComponents = None" "Validate GatewayComponents = None"
  "Validate LoginComponents = None" "Validate DefaultComponentOptions = None" "Validate CenterComponents = None"
  by (simp_all add: Validate_def problems_def no_components_def EnhancedGameComponents_def MongoServiceComponents_def GatewayComponents_def
      LoginComponents_def DefaultComponentOptions_def CenterComponents_def)

end
