(* ===== verification/Servers.thy ===== *)
theory Servers
  imports BaseServer
begin

text \<open>
  The constructors of the servers of \<^verbatim>\<open>internal/server\<close>: each builds a base server with the components of its
  type, registers its services on it and, when a step fails, closes what it has opened. What a step does to
  the process (registering an RPC service, subscribing to the system messages, spawning an actor, the
  managers of the enhanced server) is a parameter; the locale \<open>server_host\<close> states that it leaves the
  components of the base server open.
\<close>

record 'w server_host =
  sh_register :: "string \<Rightarrow> 'w \<Rightarrow> 'w \<times> string option"
  sh_subscribe :: "'w \<Rightarrow> 'w \<times> string option"
  sh_spawn :: "string \<Rightarrow> 'w \<Rightarrow> 'w \<times> string option"
  sh_manager :: "string \<Rightarrow> 'w \<Rightarrow> 'w \<times> string option"

locale server_host = component_host "bd_factory deps" opened for deps :: "('e, 'w) base_deps" and opened +
  fixes host :: "'w server_host"
  assumes register: "sh_register host name w = (w', r1) \<Longrightarrow> opened w' = opened w"
    and subscribe: "sh_subscribe host w = (w', r2) \<Longrightarrow> opened w' = opened w"
    and spawn: "sh_spawn host actor w = (w', r3) \<Longrightarrow> opened w' = opened w"
    and manager: "sh_manager host name w = (w', r4) \<Longrightarrow> opened w' = opened w"

subsection \<open>Steps\<close>

text \<open>A step of a constructor may fail with a text, or panic on a component that is not there.\<close>

type_synonym ('e, 'w) step = "('e, 'w) base_server \<Rightarrow> ('e, 'w) base_server \<times> string option outcome"

definition call_on :: "component \<Rightarrow> string \<Rightarrow> ('w \<Rightarrow> 'w \<times> string option) \<Rightarrow> ('e, 'w) step" where
  "call_on c prefix f s =
     (if \<not> bs_has s c then (s, Panic)
      else (let (w, r) = f (bs_world s) in (s\<lparr>bs_world := w\<rparr>, Ret (map_option (\<lambda>err. prefix @ err) r))))"

definition RegisterCommonServices :: "'w server_host \<Rightarrow> ('e, 'w) base_server \<Rightarrow> ('e, 'w) base_server \<times> string option" where
  "RegisterCommonServices host s =
     (if \<not> bs_has s RpcServerC then (s, None)
      else case sh_register host ''SystemService'' (bs_world s) of
        (w, Some err) \<Rightarrow> (s\<lparr>bs_world := w\<rparr>, Some (''failed to register system service: '' @ err))
      | (w, None) \<Rightarrow>
          if \<not> bs_has s BrokerC then (s\<lparr>bs_world := w\<rparr>, None)
          else (case sh_subscribe host w of
                  (w2, Some err) \<Rightarrow> (s\<lparr>bs_world := w2\<rparr>, Some (''failed to subscribe system messages: '' @ err))
                | (w2, None) \<Rightarrow> (s\<lparr>bs_world := w2\<rparr>, None)))"

definition common_step :: "'w server_host \<Rightarrow> ('e, 'w) step" where
  "common_step host s =
     (let (s1, r) = RegisterCommonServices host s in (s1, Ret (map_option (\<lambda>err. ''failed to register common services: '' @ err) r)))"

fun run_steps :: "('e, 'w) step list \<Rightarrow> ('e, 'w) step" where
  "run_steps [] s = (s, Ret None)"
| "run_steps (f # fs) s = (case f s of (s1, Ret None) \<Rightarrow> run_steps fs s1 | (s1, r) \<Rightarrow> (s1, r))"

text \<open>The body of a constructor, with the deferred clean-up, which also runs on a panic.\<close>

definition construct :: "('e, 'w) base_deps \<Rightarrow> string \<Rightarrow> string \<Rightarrow> string option \<Rightarrow> component_options \<Rightarrow> ('e, 'w) step list \<Rightarrow> 'w \<Rightarrow>
    ('w \<times> (string + ('e, 'w) base_server) outcome) option" where
  "construct deps nodeType nodeID cfg opts steps w =
     (case NewBaseServerWithFactory deps nodeType nodeID cfg opts w of
        None \<Rightarrow> None
      | Some (w1, Inl err) \<Rightarrow> Some (w1, Ret (Inl (''failed to create base server: '' @ err)))
      | Some (w1, Inr s) \<Rightarrow>
          (let (s1, r) = run_steps steps s in
           case cleanup_unless deps (r = Ret None) s1 of
             None \<Rightarrow> None
           | Some s2 \<Rightarrow> Some (bs_world s2, case r of Panic \<Rightarrow> Panic | Ret (Some err) \<Rightarrow> Ret (Inl err) | Ret None \<Rightarrow> Ret (Inr s2))))"

definition service_step :: "'w server_host \<Rightarrow> string \<Rightarrow> string \<Rightarrow> ('e, 'w) step" where
  "service_step host name text = call_on RpcServerC (''failed to register '' @ text @ '' service: '') (sh_register host name)"

definition actor_step :: "'w server_host \<Rightarrow> string \<Rightarrow> ('e, 'w) step" where
  "actor_step host name = call_on ActorSystemC (''failed to spawn '' @ name @ '' actor: '') (sh_spawn host name)"

text \<open>The TCP server of the gateway is made here and started later.\<close>

definition tcp_step :: "('e, 'w) step" where
  "tcp_step s = (s\<lparr>bs_has := (bs_has s)(TcpServerC := True)\<rparr>, Ret None)"

definition token_step :: "(string \<Rightarrow> string) \<Rightarrow> server_config \<Rightarrow> ('e, 'w) step" where
  "token_step env config s =
     (s, Ret (case authTokenSecret env config of Inl err \<Rightarrow> Some (''failed to load token secret: '' @ err) | Inr secret \<Rightarrow> None))"

text \<open>
  The managers of the enhanced server: of the security, monitoring and hot reload managers an error fails
  the constructor, errors of the languages, the card module and the configuration file are only logged.
\<close>

definition manager_call :: "'w server_host \<Rightarrow> string \<Rightarrow> string \<Rightarrow> ('e, 'w) step" where
  "manager_call host name text s =
     (let (w, r) = sh_manager host name (bs_world s)
      in (s\<lparr>bs_world := w\<rparr>, Ret (map_option (\<lambda>err. ''failed to init enhanced components: failed to init '' @ text @ '' manager: '' @ err) r)))"

definition manager_try :: "'w server_host \<Rightarrow> string \<Rightarrow> ('e, 'w) step" where
  "manager_try host name s = (s\<lparr>bs_world := fst (sh_manager host name (bs_world s))\<rparr>, Ret None)"


subsection \<open>Constructors\<close>














subsection \<open>What steps keep\<close>

definition kept :: "('w \<Rightarrow> component set) \<Rightarrow> ('e, 'w) base_server \<Rightarrow> ('e, 'w) base_server \<Rightarrow> bool" where
  "kept opened s s' \<longleftrightarrow> opened (bs_world s') = opened (bs_world s) \<and> bs_registry s' = bs_registry s \<and> same_life s s' \<and>
     has_set s \<subseteq> has_set s' \<and> has_set s' \<subseteq> insert TcpServerC (has_set s)"

lemma kept_refl [simp]: "kept opened s s"
  by (auto simp: kept_def same_life_def)

lemma same_kept_trans: "kept opened s s1 \<Longrightarrow> kept opened s1 s2 \<Longrightarrow> kept opened s s2"
  unfolding kept_def using same_life_trans [of s s1 s2] by auto

lemma kept_world: "opened w = opened (bs_world s) \<Longrightarrow> kept opened s (s\<lparr>bs_world := w\<rparr>)"
  by (auto simp: kept_def same_life_def has_set_def)

text \<open>A step that keeps the server and does not panic where the components \<open>C\<close> are.\<close>

definition safe_step :: "('w \<Rightarrow> component set) \<Rightarrow> component set \<Rightarrow> ('e, 'w) step \<Rightarrow> bool" where
  "safe_step opened C f \<longleftrightarrow> (\<forall>s s' r. f s = (s', r) \<longrightarrow> kept opened s s' \<and> (C \<subseteq> has_set s \<longrightarrow> r \<noteq> Panic))"

lemma safe_stepI: "(\<And>s s' r. f s = (s', r) \<Longrightarrow> kept opened s s' \<and> (C \<subseteq> has_set s \<longrightarrow> r \<noteq> Panic)) \<Longrightarrow> safe_step opened C f"
  by (simp add: safe_step_def)

lemma safe_steps: "list_all (safe_step opened C) fs \<Longrightarrow> safe_step opened C (run_steps fs)"
proof (induction fs)
  case (Cons f fs)
  show ?case
  proof (rule safe_stepI)
    fix s s' r assume run: "run_steps (f # fs) s = (s', r)"
    obtain s1 y where f: "f s = (s1, y)" by fastforce
    with Cons.prems have k: "kept opened s s1" "C \<subseteq> has_set s \<longrightarrow> y \<noteq> Panic" by (auto simp: safe_step_def)
    show "kept opened s s' \<and> (C \<subseteq> has_set s \<longrightarrow> r \<noteq> Panic)"
    proof (cases "y = Ret None")
      case True
      with run f have rest: "run_steps fs s1 = (s', r)" by simp
      have "safe_step opened C (run_steps fs)" using Cons by simp
      from this [unfolded safe_step_def, rule_format, OF rest] have "kept opened s1 s'" "C \<subseteq> has_set s1 \<longrightarrow> r \<noteq> Panic" by blast+
      with k same_kept_trans [of opened s s1 s'] show ?thesis by (auto simp: kept_def)
    next
      case False
      with run f have "s' = s1" "r = y" by (auto split: outcome.splits option.splits)
      with k show ?thesis by simp
    qed
  qed
qed (auto simp: safe_step_def)

lemma safe_call:
  assumes "\<And>w w' r. f w = (w', r) \<Longrightarrow> opened w' = opened w" and "c \<in> C"
  shows "safe_step opened C (call_on c prefix f)"
proof (rule safe_stepI)
  fix s s' r
  assume call: "call_on c prefix f s = (s', r)"
  obtain w x where f: "f (bs_world s) = (w, x)" by fastforce
  show "kept opened s s' \<and> (C \<subseteq> has_set s \<longrightarrow> r \<noteq> Panic)"
  proof (cases "bs_has s c")
    case True
    with call f have "s' = s\<lparr>bs_world := w\<rparr>" "r \<noteq> Panic" by (auto simp: call_on_def)
    with kept_world [of opened w s] assms(1) [OF f] show ?thesis by simp
  next
    case False
    with call assms(2) show ?thesis by (auto simp: call_on_def has_set_def)
  qed
qed

context server_host
begin

lemma safe_service: "RpcServerC \<in> C \<Longrightarrow> safe_step opened C (service_step host name text)"
  unfolding service_step_def by (rule safe_call) (rule register)

lemma safe_actor: "ActorSystemC \<in> C \<Longrightarrow> safe_step opened C (actor_step host name)"
  unfolding actor_step_def by (rule safe_call) (rule spawn)

lemma safe_common: "safe_step opened C (common_step host)"
proof (rule safe_stepI)
  fix s s' r
  assume c: "common_step host s = (s', r)"
  obtain w1 x1 where r: "sh_register host ''SystemService'' (bs_world s) = (w1, x1)" by fastforce
  obtain w2 x2 where u: "sh_subscribe host w1 = (w2, x2)" by fastforce
  note o = register [OF r] subscribe [OF u]
  have "s' = s \<or> s' = s\<lparr>bs_world := w1\<rparr> \<or> s' = s\<lparr>bs_world := w2\<rparr>"
    using c r u by (cases x1; cases x2) (auto simp: common_step_def RegisterCommonServices_def split: if_splits)
  moreover have "r \<noteq> Panic" using c by (auto simp: common_step_def split: prod.splits)
  ultimately show "kept opened s s' \<and> (C \<subseteq> has_set s \<longrightarrow> r \<noteq> Panic)" using o kept_world [of opened _ s] by auto
qed

lemma safe_manager: "safe_step opened C (manager_call host name text)" "safe_step opened C (manager_try host name)"
proof -
  have "kept opened s (s\<lparr>bs_world := fst (sh_manager host name (bs_world s))\<rparr>)" for s
    by (rule kept_world) (metis manager prod.collapse)
  then show "safe_step opened C (manager_call host name text)" "safe_step opened C (manager_try host name)"
    by (auto simp: safe_step_def manager_call_def manager_try_def split_beta)
qed

lemma safe_tcp: "safe_step opened C tcp_step"
  by (auto simp: safe_step_def tcp_step_def kept_def same_life_def has_set_def)

lemma safe_token: "safe_step opened C (token_step env config)"
  by (simp add: safe_step_def token_step_def)

lemma construct_safe:
  assumes "list_all (safe_step opened C) steps" and "C \<subseteq> enabled_set opts" and "opened w = {}"
  shows "\<exists>w' r. construct deps nodeType nodeID cfg opts steps w = Some (w', Ret r) \<and>
    (case r of Inr s \<Rightarrow> w' = bs_world s \<and> opened w' = enabled_set opts \<and> bs_status s = ''initializing'' \<and> bs_nodeID s = nodeID \<and>
         bs_nodeType s = nodeType \<and> enabled_set opts \<subseteq> has_set s \<and> (bs_registry s \<noteq> None \<longleftrightarrow> co_Registry opts)
     | Inl _ \<Rightarrow> opened w' \<subseteq> {BrokerC, DiscoveryC})"
proof -
  have so: "server_on deps opened" by (rule server_on.intro) (rule component_host_axioms)
  from server_on.constructed [OF so assms(3), of nodeType nodeID cfg opts] obtain w1 r1 where
    n: "NewBaseServerWithFactory deps nodeType nodeID cfg opts w = Some (w1, r1)" and
    r1: "case r1 of Inr s \<Rightarrow> w1 = bs_world s \<and> life_free opts (opened (bs_world s)) s \<and> bs_status s = ''initializing'' \<and>
       bs_nodeID s = nodeID \<and> bs_nodeType s = nodeType | Inl _ \<Rightarrow> opened w1 \<subseteq> {BrokerC, DiscoveryC}" by blast
  show ?thesis
  proof (cases r1)
    case (Inl e)
    with n r1 show ?thesis by (simp add: construct_def)
  next
    case (Inr s)
    with r1 have s: "opened (bs_world s) = enabled_set opts" "has_set s = enabled_set opts" "unlocked s" "bs_status s = ''initializing''"
      "bs_nodeID s = nodeID" "bs_nodeType s = nodeType" "bs_registry s \<noteq> None \<longleftrightarrow> co_Registry opts"
      by (simp_all add: life_free_def life_ok_def)
    obtain s1 r where run: "run_steps steps s = (s1, r)" by fastforce
    with safe_steps [OF assms(1)] s(2) assms(2) have k: "kept opened s s1" and np: "r \<noteq> Panic" by (auto simp: safe_step_def)
    show ?thesis
    proof (cases "r = Ret None")
      case True
      then have "construct deps nodeType nodeID cfg opts steps w = Some (bs_world s1, Ret (Inr s1))"
        using n Inr run by (simp add: construct_def cleanup_unless_def)
      with k s show ?thesis by (auto simp: kept_def same_life_def)
    next
      case False
      with np obtain err where err: "r = Ret (Some err)" by (cases r) auto
      have "unlocked (s1\<lparr>bs_cancelled := True\<rparr>)" using s(3) k by (simp add: kept_def unlocked_def)
      from server_on.all_components_stop [OF so this] obtain s2 y where s2: "stopComponents deps (s1\<lparr>bs_cancelled := True\<rparr>) = Some (s2, y)"
        "opened (bs_world s2) = opened (bs_world s1) - (has_set s1 - {BrokerC, DiscoveryC})" by (auto simp: has_set_def)
      then have "construct deps nodeType nodeID cfg opts steps w = Some (bs_world s2, Ret (Inl err))"
        using n Inr run err by (simp add: construct_def cleanup_unless_def)
      with s2(2) k s(1,2) show ?thesis by (auto simp: kept_def)
    qed
  qed
qed

end

subsection \<open>Properties\<close>









end
