(* ===== verification/SystemRpc.thy ===== *)
theory SystemRpc
  imports Servers Nsq
begin

text \<open>
  \<^verbatim>\<open>server/system_service.go\<close>: what every server answers about itself (information, statistics, health), and
  the commands it takes as RPC calls and as system messages of the broker. A server with its pending
  shutdowns is the state; a handler that never returns has no answer. JSON and protobuf codecs, the
  statistics of the runtime and the counts of the components are parameters.
\<close>

record ('e, 'w) node =
  no_server :: "('e, 'w) base_server"
  no_stops :: nat

record node_info =
  ni_NodeId :: string
  ni_NodeType :: string
  ni_Address :: string
  ni_Port :: int
  ni_Online :: bool
  ni_Load :: int
  ni_UpdateTime :: u32

record runtime_stats =
  ru_Alloc :: u64
  ru_TotalAlloc :: u64
  ru_Sys :: u64
  ru_NumGC :: u32
  ru_Goroutines :: int

record server_stats =
  st_NodeID :: string
  st_NodeType :: string
  st_Status :: string
  st_Load :: int
  st_Runtime :: runtime_stats
  st_Connections :: int
  st_ActorCount :: int
  st_RPCConnections :: int

record health_status =
  he_Status :: string
  he_NodeID :: string
  he_NodeType :: string
  he_Dependencies :: "string \<Rightarrow> string option"
  he_Timestamp :: int

record ('e, 'w) system_deps =
  ss_base :: "('e, 'w) base_deps"
  ss_connections :: "'w \<Rightarrow> int"
  ss_actors :: "'w \<Rightarrow> int"
  ss_rpc_connections :: "'w \<Rightarrow> int"
  ss_actor_stats :: "'w \<Rightarrow> string + byte list"
  ss_marshal_info :: "node_info \<Rightarrow> string + byte list"
  ss_marshal_stats :: "server_stats \<Rightarrow> string + byte list"
  ss_marshal_health :: "health_status \<Rightarrow> string + byte list"
  ss_marshal_response :: "base_response \<Rightarrow> string + byte list"

definition node_load :: "('e, 'w) system_deps \<Rightarrow> ('e, 'w) base_server \<Rightarrow> int" where
  "node_load deps s = calculateLoad
     (if bs_has s TcpServerC then Some (ss_connections deps (bs_world s)) else None)
     (if bs_has s ActorSystemC then Some (ss_actors deps (bs_world s)) else None)
     (if bs_has s RpcServerC then Some (ss_rpc_connections deps (bs_world s)) else None)"

definition ok_response :: "base_request \<Rightarrow> int \<Rightarrow> string \<Rightarrow> byte list \<Rightarrow> base_response" where
  "ok_response req code msg data = \<lparr>bp_Header = br_Header req, bp_Code = code, bp_Msg = msg, bp_Data = data\<rparr>"

subsection \<open>Information\<close>

definition GetServerInfo :: "('e, 'w) system_deps \<Rightarrow> time \<Rightarrow> base_request \<Rightarrow> ('e, 'w) node \<Rightarrow> string + base_response" where
  "GetServerInfo deps now req n =
     (let s = no_server n in
      case ss_marshal_info deps \<lparr>ni_NodeId = bs_nodeID s, ni_NodeType = bs_nodeType s, ni_Address = bd_address (ss_base deps),
             ni_Port = wrap_i32 (bd_port (ss_base deps)), ni_Online = (bs_status s = ''running''), ni_Load = wrap_i32 (node_load deps s),
             ni_UpdateTime = of_int (time_unix now)\<rparr> of
        Inl err \<Rightarrow> Inl (''failed to marshal server info: '' @ err)
      | Inr data \<Rightarrow> Inr (ok_response req 0 ''success'' data))"

definition GetServerStats :: "('e, 'w) system_deps \<Rightarrow> runtime_stats \<Rightarrow> base_request \<Rightarrow> ('e, 'w) node \<Rightarrow> string + base_response" where
  "GetServerStats deps rt req n =
     (let s = no_server n; w = bs_world s in
      case ss_marshal_stats deps \<lparr>st_NodeID = bs_nodeID s, st_NodeType = bs_nodeType s, st_Status = bs_status s, st_Load = node_load deps s,
             st_Runtime = rt, st_Connections = (if bs_has s TcpServerC then ss_connections deps w else 0),
             st_ActorCount = (if bs_has s ActorSystemC then ss_actors deps w else 0),
             st_RPCConnections = (if bs_has s RpcServerC then ss_rpc_connections deps w else 0)\<rparr> of
        Inl err \<Rightarrow> Inl (''failed to marshal server stats: '' @ err)
      | Inr data \<Rightarrow> Inr (ok_response req 0 ''success'' data))"

definition ReloadConfig :: "base_request \<Rightarrow> base_response" where
  "ReloadConfig req = reply req 0 ''config reloaded''"

definition GetActorStats :: "('e, 'w) system_deps \<Rightarrow> base_request \<Rightarrow> ('e, 'w) node \<Rightarrow> string + base_response" where
  "GetActorStats deps req n =
     (if \<not> bs_has (no_server n) ActorSystemC then Inr (reply req (- 1) ''actor system not initialized'')
      else case ss_actor_stats deps (bs_world (no_server n)) of
        Inl err \<Rightarrow> Inl (''failed to marshal actor stats: '' @ err)
      | Inr data \<Rightarrow> Inr (ok_response req 0 ''success'' data))"

text \<open>The data of this answer is an encoded answer; the statistics are only logged.\<close>

definition GetPoolStats :: "('e, 'w) system_deps \<Rightarrow> base_request \<Rightarrow> string + base_response" where
  "GetPoolStats deps req =
     (case ss_marshal_response deps (reply req 0 ''success'') of
        Inl err \<Rightarrow> Inl (''failed to marshal pool stats: '' @ err)
      | Inr data \<Rightarrow> Inr (ok_response req 0 ''success'' data))"

subsection \<open>Health\<close>

definition pingDependency :: "string option \<Rightarrow> string" where
  "pingDependency r = (case r of Some err \<Rightarrow> ''error: '' @ err | None \<Rightarrow> ''ok'')"

text \<open>A dependency that is configured is pinged, in this order.\<close>

definition ping_if :: "('e, 'w) system_deps \<Rightarrow> component \<Rightarrow> string \<Rightarrow> ('e, 'w) base_server \<times> (string \<Rightarrow> string option) \<Rightarrow>
    ('e, 'w) base_server \<times> (string \<Rightarrow> string option)" where
  "ping_if deps c name = (\<lambda>(s, m).
     if bs_has s c
     then (let (w, r) = fa_ping (bd_factory (ss_base deps)) c (bs_world s) in (s\<lparr>bs_world := w\<rparr>, m(name \<mapsto> pingDependency r)))
     else (s, m))"

definition dependencyStatus :: "('e, 'w) system_deps \<Rightarrow> time \<Rightarrow> ('e, 'w) base_server \<Rightarrow> ('e, 'w) base_server \<times> health_status" where
  "dependencyStatus deps now s =
     (let m0 = map_of (map (\<lambda>k. (k, ''not_configured'')) [''actor_system'', ''rpc_server'', ''redis'', ''mongodb'', ''nsq'', ''registry'']);
          m1 = (if bs_has s ActorSystemC then m0(''actor_system'' \<mapsto> ''ok'') else m0);
          m2 = (if bs_has s RpcServerC then m1(''rpc_server'' \<mapsto> ''ok'') else m1);
          (s1, m3) = ping_if deps NsqC ''nsq'' (ping_if deps MongoC ''mongodb'' (ping_if deps RedisC ''redis'' (s, m2)));
          m4 = (if bs_registry s1 \<noteq> None then m3(''registry'' \<mapsto> ''ok'') else m3)
      in (s1, \<lparr>he_Status = [], he_NodeID = bs_nodeID s1, he_NodeType = bs_nodeType s1, he_Dependencies = m4, he_Timestamp = time_unix now\<rparr>))"

definition healthResponse :: "('e, 'w) system_deps \<Rightarrow> base_request \<Rightarrow> int \<Rightarrow> health_status \<Rightarrow> string + base_response" where
  "healthResponse deps req code status =
     (case ss_marshal_health deps status of
        Inl err \<Rightarrow> Inl (''failed to marshal health status: '' @ err)
      | Inr data \<Rightarrow> Inr (ok_response req code (he_Status status) data))"

definition Livez :: "('e, 'w) system_deps \<Rightarrow> time \<Rightarrow> base_request \<Rightarrow> ('e, 'w) node \<Rightarrow> string + base_response" where
  "Livez deps now req n = healthResponse deps req 0
     \<lparr>he_Status = ''alive'', he_NodeID = bs_nodeID (no_server n), he_NodeType = bs_nodeType (no_server n), he_Dependencies = Map.empty,
      he_Timestamp = time_unix now\<rparr>"

text \<open>The loop over the dependencies, in the order in which the map is ranged over.\<close>

fun check_states :: "(string \<Rightarrow> string option) \<Rightarrow> string list \<Rightarrow> bool" where
  "check_states m [] = True"
| "check_states m (k # ks) =
     (case m k of
        Some state \<Rightarrow> if state \<noteq> ''ok'' \<and> state \<noteq> ''not_configured'' then False else check_states m ks
      | None \<Rightarrow> check_states m ks)"

definition health :: "('e, 'w) system_deps \<Rightarrow> time \<Rightarrow> string \<Rightarrow> string \<Rightarrow> string list \<Rightarrow> base_request \<Rightarrow> ('e, 'w) node \<Rightarrow>
    ('e, 'w) node \<times> (string + base_response)" where
  "health deps now good bad order req n =
     (let (s, status) = dependencyStatus deps now (no_server n); ok = check_states (he_Dependencies status) order
      in (n\<lparr>no_server := s\<rparr>, healthResponse deps req (if ok then 0 else - 1) (status\<lparr>he_Status := if ok then good else bad\<rparr>)))"

definition Readyz where
  "Readyz deps now = health deps now ''ready'' ''not_ready''"

definition Dependencyz where
  "Dependencyz deps now = health deps now ''ok'' ''degraded''"

subsection \<open>Commands\<close>

text \<open>What \<^verbatim>\<open>UpdateLoad\<close> does, as a call and as a message: with a registry it may never return.\<close>

definition report_load :: "('e, 'w) system_deps \<Rightarrow> time \<Rightarrow> ('e, 'w) node \<Rightarrow> ('e, 'w) node \<times> string option option" where
  "report_load deps now n =
     (let s = no_server n in
      case bs_registry s of
        None \<Rightarrow> (n, Some (Some ''registry not initialized''))
      | Some reg \<Rightarrow>
          (let (reg1, r) = UpdateLoad (bd_registry (ss_base deps)) now (bs_nodeID s) (node_load deps s) reg
           in (n\<lparr>no_server := s\<lparr>bs_registry := Some reg1\<rparr>\<rparr>, r)))"

definition UpdateLoad_call :: "('e, 'w) system_deps \<Rightarrow> time \<Rightarrow> base_request \<Rightarrow> ('e, 'w) node \<Rightarrow> ('e, 'w) node \<times> base_response option" where
  "UpdateLoad_call deps now req n =
     (let (n1, r) = report_load deps now n
      in (n1, map_option (\<lambda>e. case e of Some err \<Rightarrow> reply req (- 1) err
                                 | None \<Rightarrow> reply req 0 (''load updated: '' @ fmt_int (node_load deps (no_server n)))) r))"

definition Shutdown :: "base_request \<Rightarrow> ('e, 'w) node \<Rightarrow> ('e, 'w) node \<times> base_response" where
  "Shutdown req n = (n\<lparr>no_stops := no_stops n + 1\<rparr>, reply req 0 ''shutdown initiated'')"

text \<open>The goroutine of a shutdown, a second later.\<close>

definition shutdown_runs :: "('e, 'w) system_deps \<Rightarrow> ('e, 'w) node \<Rightarrow> ('e, 'w) node option" where
  "shutdown_runs deps n =
     (if no_stops n = 0 then Some n
      else map_option (\<lambda>(s, _). n\<lparr>no_server := s, no_stops := no_stops n - 1\<rparr>) (Stop (ss_base deps) (no_server n)))"

subsection \<open>System messages\<close>

text \<open>The values of the arguments of a message.\<close>

datatype mq_value = MqString string | MqInt int

type_synonym 'n message_handler = "(mq_value system_message, 'n) handler_fun"

definition HandleReloadConfig :: "('e, 'w) node message_handler" where
  "HandleReloadConfig msg n = (n, Some None)"

definition HandleUpdateLoad :: "('e, 'w) system_deps \<Rightarrow> time \<Rightarrow> ('e, 'w) node message_handler" where
  "HandleUpdateLoad deps now msg n = report_load deps now n"

definition HandleShutdown :: "('e, 'w) node message_handler" where
  "HandleShutdown msg n = (n\<lparr>no_stops := no_stops n + 1\<rparr>, Some None)"

text \<open>The three kinds of hot update, and an unknown one, only log.\<close>

definition handle_kind :: "string \<Rightarrow> ('e, 'w) node message_handler" where
  "handle_kind kind msg n = (n, Some None)"

definition HandleHotUpdate :: "('e, 'w) node message_handler" where
  "HandleHotUpdate msg n =
     (case map_of (sy_Args msg) ''type'' of
        Some (MqString kind) \<Rightarrow> if kind \<in> {''config'', ''logic'', ''data''} then handle_kind kind msg n else (n, Some None)
      | _ \<Rightarrow> (n, Some None))"

definition common_handlers :: "('e, 'w) system_deps \<Rightarrow> time \<Rightarrow> (mq_value system_message, ('e, 'w) node) handlers" where
  "common_handlers deps now =
     RegisterHandler ''hot_update'' HandleHotUpdate
       (RegisterHandler ''shutdown'' HandleShutdown
          (RegisterHandler ''update_load'' (HandleUpdateLoad deps now)
             (RegisterHandler ''reload_config'' HandleReloadConfig Map.empty)))"

lemma common_handlers_simps [simp]:
  "common_handlers deps now ''shutdown'' = Some HandleShutdown"
  "common_handlers deps now ''update_load'' = Some (HandleUpdateLoad deps now)"
  "common_handlers deps now ''restart'' = None"
  by (simp_all add: common_handlers_def RegisterHandler_def)

subsection \<open>Properties\<close>

lemma check_states_all: "check_states m ks \<longleftrightarrow> (\<forall>k \<in> set ks. \<forall>v. m k = Some v \<longrightarrow> v = ''ok'' \<or> v = ''not_configured'')"
  by (induction ks) (auto split: option.splits)

lemma pinged [simp]: "pingDependency r = ''ok'' \<longleftrightarrow> r = None" "pingDependency r \<noteq> ''not_configured''"
  by (auto simp: pingDependency_def split: option.splits)

lemma ping_if_eq: "ping_if deps c name (s, m) =
    (s\<lparr>bs_world := (if bs_has s c then fst (fa_ping (bd_factory (ss_base deps)) c (bs_world s)) else bs_world s)\<rparr>,
     if bs_has s c then m(name \<mapsto> pingDependency (snd (fa_ping (bd_factory (ss_base deps)) c (bs_world s)))) else m)"
  by (simp add: ping_if_def split_beta)

lemma dependencies:
  assumes "\<And>c c' w. snd (fa_ping (bd_factory (ss_base deps)) c (fst (fa_ping (bd_factory (ss_base deps)) c' w))) = snd (fa_ping (bd_factory (ss_base deps)) c w)"
    and "dependencyStatus deps now s = (s', status)"
  shows "he_Dependencies status ''actor_system'' = Some (if bs_has s ActorSystemC then ''ok'' else ''not_configured'')"
    and "he_Dependencies status ''rpc_server'' = Some (if bs_has s RpcServerC then ''ok'' else ''not_configured'')"
    and "he_Dependencies status ''redis'' =
      Some (if bs_has s RedisC then pingDependency (snd (fa_ping (bd_factory (ss_base deps)) RedisC (bs_world s))) else ''not_configured'')"
    and "he_Dependencies status ''mongodb'' =
      Some (if bs_has s MongoC then pingDependency (snd (fa_ping (bd_factory (ss_base deps)) MongoC (bs_world s))) else ''not_configured'')"
    and "he_Dependencies status ''nsq'' =
      Some (if bs_has s NsqC then pingDependency (snd (fa_ping (bd_factory (ss_base deps)) NsqC (bs_world s))) else ''not_configured'')"
    and "he_Dependencies status ''registry'' = Some (if bs_registry s \<noteq> None then ''ok'' else ''not_configured'')"
proof -
  have st: "status = snd (dependencyStatus deps now s)" using assms(2) by simp
  note d = dependencyStatus_def Let_def ping_if_eq assms(1)
  show "he_Dependencies status ''actor_system'' = Some (if bs_has s ActorSystemC then ''ok'' else ''not_configured'')"
    unfolding st by (simp add: d)
  show "he_Dependencies status ''rpc_server'' = Some (if bs_has s RpcServerC then ''ok'' else ''not_configured'')"
    unfolding st by (simp add: d)
  show "he_Dependencies status ''redis'' =
      Some (if bs_has s RedisC then pingDependency (snd (fa_ping (bd_factory (ss_base deps)) RedisC (bs_world s))) else ''not_configured'')"
    unfolding st by (simp add: d)
  show "he_Dependencies status ''mongodb'' =
      Some (if bs_has s MongoC then pingDependency (snd (fa_ping (bd_factory (ss_base deps)) MongoC (bs_world s))) else ''not_configured'')"
    unfolding st by (simp add: d)
  show "he_Dependencies status ''nsq'' =
      Some (if bs_has s NsqC then pingDependency (snd (fa_ping (bd_factory (ss_base deps)) NsqC (bs_world s))) else ''not_configured'')"
    unfolding st by (simp add: d)
  show "he_Dependencies status ''registry'' = Some (if bs_registry s \<noteq> None then ''ok'' else ''not_configured'')"
    unfolding st by (simp add: d)
qed

text \<open>
  C31: readiness is exact: whatever order the dependencies are ranged over, \<^verbatim>\<open>Readyz\<close> answers 0 and
  \<^verbatim>\<open>ready\<close> if each of Redis, MongoDB and NSQ that is configured answers its ping, and -1 and
  \<^verbatim>\<open>not_ready\<close> otherwise, provided that one ping does not change the answer of another. The registry and
  the status of the server do not count.
\<close>

theorem readyz_exact:
  assumes "\<And>c c' w. snd (fa_ping (bd_factory (ss_base deps)) c (fst (fa_ping (bd_factory (ss_base deps)) c' w))) = snd (fa_ping (bd_factory (ss_base deps)) c w)"
    and "set order = {''actor_system'', ''rpc_server'', ''redis'', ''mongodb'', ''nsq'', ''registry''}"
    and "Readyz deps now order req n = (n', Inr resp)"
  shows "let up = (\<forall>c \<in> {RedisC, MongoC, NsqC}. bs_has (no_server n) c \<longrightarrow>
        snd (fa_ping (bd_factory (ss_base deps)) c (bs_world (no_server n))) = None)
    in bp_Code resp = (if up then 0 else - 1) \<and> bp_Msg resp = (if up then ''ready'' else ''not_ready'')"
proof -
  let ?s = "no_server n"
  obtain s status where d: "dependencyStatus deps now ?s = (s, status)" by fastforce
  have "check_states (he_Dependencies status) order \<longleftrightarrow>
      (\<forall>c \<in> {RedisC, MongoC, NsqC}. bs_has ?s c \<longrightarrow> snd (fa_ping (bd_factory (ss_base deps)) c (bs_world ?s)) = None)"
    unfolding check_states_all assms(2) using dependencies [OF assms(1) d] by simp
  moreover have "bp_Code resp = (if check_states (he_Dependencies status) order then 0 else - 1) \<and>
      bp_Msg resp = (if check_states (he_Dependencies status) order then ''ready'' else ''not_ready'')"
    using assms(3) d by (auto simp: Readyz_def health_def healthResponse_def ok_response_def split: sum.splits)
  ultimately show ?thesis by (simp add: Let_def)
qed

lemma health_answers:
  "(\<And>h. \<exists>d. ss_marshal_health deps h = Inr d) \<Longrightarrow> \<exists>n' resp. health deps now good bad order req n = (n', Inr resp)"
proof -
  assume m: "\<And>h. \<exists>d. ss_marshal_health deps h = Inr d"
  obtain s status where d: "dependencyStatus deps now (no_server n) = (s, status)" by fastforce
  let ?ok = "check_states (he_Dependencies status) order"
  obtain e where "ss_marshal_health deps (status\<lparr>he_Status := if ?ok then good else bad\<rparr>) = Inr e" using m by blast
  with d show ?thesis by (simp add: health_def healthResponse_def Let_def)
qed

definition demo_system :: "(mem_etcd, demo_host) system_deps" where
  "demo_system = \<lparr>ss_base = demo_base, ss_connections = (\<lambda>_. 0), ss_actors = (\<lambda>_. 0), ss_rpc_connections = (\<lambda>_. 1),
     ss_actor_stats = (\<lambda>_. Inr []), ss_marshal_info = (\<lambda>_. Inr []), ss_marshal_stats = (\<lambda>_. Inr []), ss_marshal_health = (\<lambda>_. Inr []),
     ss_marshal_response = (\<lambda>_. Inr [])\<rparr>"

definition demo_node :: "(mem_etcd, demo_host) node" where
  "demo_node = \<lparr>no_server = demo_server\<lparr>bs_world := \<lparr>dh_open = {}, dh_failing = {NsqC}\<rparr>\<rparr>, no_stops = 0\<rparr>"

theorem readyz_exact_witness:
  "\<exists>n' resp. Readyz demo_system 0 [''nsq'', ''redis'', ''mongodb'', ''registry'', ''actor_system'', ''rpc_server''] \<lparr>br_Header = None, br_Data = []\<rparr> demo_node
     = (n', Inr resp) \<and> bp_Code resp = - 1"
proof -
  let ?order = "[''nsq'', ''redis'', ''mongodb'', ''registry'', ''actor_system'', ''rpc_server'']"
  let ?req = "\<lparr>br_Header = None, br_Data = []\<rparr>"
  obtain n' resp where r: "Readyz demo_system 0 ?order ?req demo_node = (n', Inr resp)"
    using health_answers [of demo_system 0 "''ready''" "''not_ready''" ?order ?req demo_node] by (auto simp: Readyz_def demo_system_def)
  have "snd (fa_ping (bd_factory (ss_base demo_system)) c (fst (fa_ping (bd_factory (ss_base demo_system)) c' w))) =
      snd (fa_ping (bd_factory (ss_base demo_system)) c w)" for c c' w
    by (simp add: demo_system_def demo_base_def demo_factory_def)
  from readyz_exact [OF this _ r] have "bp_Code resp = - 1"
    by (simp add: demo_node_def demo_server_def demo_system_def demo_base_def demo_factory_def Let_def insert_commute)
  with r show ?thesis by blast
qed

text \<open>
  a shutdown command stops its node: a server that has started, whose load was not reported yet, takes
  a shutdown message meant for it or for all, and the goroutine it starts stops the server: afterwards it
  is stopped and every component with a stopper is closed.
\<close>

theorem shutdown_message_stops:
  assumes "component_host (bd_factory (ss_base deps)) opened" and "opened w = {}"
    and "NewBaseServerWithFactory (ss_base deps) nodeType nodeID cfg opts w = Some (w', Inr s0)"
    and "Start (ss_base deps) now s0 = Some (s, None)"
    and "mj_un_system js data = Inr msg" and "sy_Command msg = ''shutdown''" and "sy_Target msg \<in> {[], nodeID}"
  shows "\<exists>n1 n2. System_HandleMessage js nodeID (common_handlers deps t) data \<lparr>no_server = s, no_stops = 0\<rparr> = (n1, Some None) \<and>
    shutdown_runs deps n1 = Some n2 \<and> bs_status (no_server n2) = ''stopped'' \<and> opened (bs_world (no_server n2)) \<subseteq> {BrokerC, DiscoveryC}"
proof -
  note so = server_on.intro [OF assms(1)]
  from server_on.constructed [OF so assms(2), of nodeType nodeID cfg opts] assms(3)
  have "life_ok opts (opened (bs_world s0)) s0" "bs_status s0 = ''initializing''" by (simp_all add: life_free_def)
  from server_on.started [OF so this, of now] assms(4)
  have "life_ok opts (opened (bs_world s)) s" "bs_loop s \<noteq> LoopBlocked" "unlocked s" "bs_status s = ''running''" by simp_all
  with server_on.stopped [OF so this(1,2,3)] obtain s' r where
    st: "Stop (ss_base deps) s = Some (s', r)" "life_ok opts (opened (bs_world s')) s'" "bs_status s' = ''stopped''" by auto
  have "System_HandleMessage js nodeID (common_handlers deps t) data \<lparr>no_server = s, no_stops = 0\<rparr> = (\<lparr>no_server = s, no_stops = 1\<rparr>, Some None)"
    using assms(5,6,7) by (auto simp: System_HandleMessage_def HandleShutdown_def)
  moreover have "shutdown_runs deps \<lparr>no_server = s, no_stops = 1\<rparr> = Some \<lparr>no_server = s', no_stops = 0\<rparr>"
    using st(1) by (simp add: shutdown_runs_def)
  moreover have "opened (bs_world s') \<subseteq> {BrokerC, DiscoveryC}" using st(2,3) by (simp add: life_ok_def)
  ultimately show ?thesis using st(3) by auto
qed

definition demo_shutdown_json :: "mq_value mq_json" where
  "demo_shutdown_json = \<lparr>mj_game = (\<lambda>_. Inl ''no''), mj_chat = (\<lambda>_. Inl ''no''), mj_system = (\<lambda>_. Inr []),
     mj_un_game = (\<lambda>_. Inl ''no''), mj_un_chat = (\<lambda>_. Inl ''no''),
     mj_un_system = (\<lambda>_. Inr (NewSystemMessage 0 ''unicast'' ''g1'' ''shutdown'' []))\<rparr>"

lemma demo_started: "\<exists>s. Start demo_base unix_epoch demo_server = Some (s, None)"
  by (auto simp: Start_def demo_server_def demo_base_def demo_factory_def own_info_def demo_registry_simps)

theorem shutdown_message_stops_witness:
  "\<exists>s n1 n2. Start demo_base unix_epoch demo_server = Some (s, None) \<and>
     System_HandleMessage demo_shutdown_json ''g1'' (common_handlers demo_system 0) [] \<lparr>no_server = s, no_stops = 0\<rparr> = (n1, Some None) \<and>
     shutdown_runs demo_system n1 = Some n2 \<and> bs_status (no_server n2) = ''stopped''"
proof -
  obtain s where s: "Start demo_base unix_epoch demo_server = Some (s, None)" using demo_started by blast
  have b: "ss_base demo_system = demo_base" by (simp add: demo_system_def)
  have "mj_un_system demo_shutdown_json [] = Inr (NewSystemMessage 0 ''unicast'' ''g1'' ''shutdown'' [])" by (simp add: demo_shutdown_json_def)
  from shutdown_message_stops [where deps = demo_system, unfolded b, OF demo_life.component_host_axioms _ demo_constructed s this, of 0]
  show ?thesis using s by (auto simp: demo_up_def NewSystemMessage_def)
qed

text \<open>
  With a report of the load before it the shutdown never ends: the report does not return, and neither does
  the call of \<^verbatim>\<open>Stop\<close>.
\<close>

lemma load_report_blocks_shutdown:
  assumes "bs_registry (no_server n) = Some reg" and "\<not> rg_locked reg" and "rg_services reg (bs_nodeID (no_server n)) = Some info"
    and "bs_status (no_server n) = ''running''" and "HandleUpdateLoad deps now msg n = (n1, r)" and "HandleShutdown msg' n1 = (n2, Some None)"
  shows "r = None \<and> shutdown_runs deps n2 = None"
proof -
  obtain reg1 x where u: "UpdateLoad (bd_registry (ss_base deps)) now (bs_nodeID (no_server n)) (node_load deps (no_server n)) reg = (reg1, x)" by fastforce
  then have x: "x = None \<and> rg_locked reg1" using assms(2,3) by (auto simp: UpdateLoad_def Register_def Let_def)
  with u assms(1,5) have n1: "n1 = n\<lparr>no_server := (no_server n)\<lparr>bs_registry := Some reg1\<rparr>\<rparr>" "r = None"
    by (auto simp: HandleUpdateLoad_def report_load_def)
  then have "Stop (ss_base deps) (no_server n1) = None"
    using x assms(4) by (intro locked_stop_hangs) (simp_all add: unlocked_def)
  with n1 assms(6) show ?thesis by (auto simp: HandleShutdown_def shutdown_runs_def)
qed

end
