(* ===== verification/Center.thy ===== *)
theory Center
  imports SystemRpc
begin

text \<open>
  \<^verbatim>\<open>server/center_server.go\<close>: the view of the cluster the center server reads from the registry and the
  commands it sends to the nodes over the broker; and the answers of the chat server. The clock is read
  once per call; the numbers of the runtime are an argument. A publication may panic, then the call does.
\<close>

subsection \<open>Texts\<close>

definition ct_EmptyType :: string where
  "ct_EmptyType = utf8 [0xE6, 0xB6, 0x88, 0xE6, 0x81, 0xAF, 0xE7, 0xB1, 0xBB, 0xE5, 0x9E, 0x8B, 0xE4, 0xB8, 0x8D, 0xE8, 0x83, 0xBD, 0xE4, 0xB8,
    0xBA, 0xE7, 0xA9, 0xBA]"

definition ct_EmptyContent :: string where
  "ct_EmptyContent = utf8 [0xE6, 0xB6, 0x88, 0xE6, 0x81, 0xAF, 0xE5, 0x86, 0x85, 0xE5, 0xAE, 0xB9, 0xE4, 0xB8, 0x8D, 0xE8, 0x83, 0xBD, 0xE4, 0xB8,
    0xBA, 0xE7, 0xA9, 0xBA]"

definition ct_BroadcastSent :: string where
  "ct_BroadcastSent = utf8 [0xE5, 0xB9, 0xBF, 0xE6, 0x92, 0xAD, 0xE6, 0xB6, 0x88, 0xE6, 0x81, 0xAF, 0xE5, 0x8F, 0x91, 0xE9, 0x80, 0x81, 0xE6, 0x88,
    0x90, 0xE5, 0x8A, 0x9F]"

definition ct_EmptyService :: string where
  "ct_EmptyService = utf8 [0xE6, 0x9C, 0x8D, 0xE5, 0x8A, 0xA1, 0x49, 0x44, 0xE6, 0x88, 0x96, 0xE6, 0x9C, 0x8D, 0xE5, 0x8A, 0xA1, 0xE7, 0xB1, 0xBB,
    0xE5, 0x9E, 0x8B, 0xE4, 0xB8, 0x8D, 0xE8, 0x83, 0xBD, 0xE4, 0xB8, 0xBA, 0xE7, 0xA9, 0xBA]"

definition ct_NoTargets :: string where
  "ct_NoTargets = utf8 [0xE8, 0x8E, 0xB7, 0xE5, 0x8F, 0x96, 0xE7, 0x9B, 0xAE, 0xE6, 0xA0, 0x87, 0xE6, 0x9C, 0x8D, 0xE5, 0x8A, 0xA1, 0xE5, 0xA4,
    0xB1, 0xE8, 0xB4, 0xA5]"

definition ct_NotFound :: string where
  "ct_NotFound = utf8 [0xE6, 0x9C, 0xAA, 0xE6, 0x89, 0xBE, 0xE5, 0x88, 0xB0, 0xE7, 0x9B, 0xAE, 0xE6, 0xA0, 0x87, 0xE6, 0x9C, 0x8D, 0xE5, 0x8A,
    0xA1]"

definition ct_StopSent :: string where
  "ct_StopSent = utf8 [0xE5, 0x85, 0xB3, 0xE9, 0x97, 0xAD, 0xE5, 0x91, 0xBD, 0xE4, 0xBB, 0xA4, 0xE5, 0xB7, 0xB2, 0xE5, 0x8F, 0x91, 0xE9, 0x80,
    0x81, 0xE7, 0xBB, 0x99, 0x20]"

definition ct_RestartSent :: string where
  "ct_RestartSent = utf8 [0xE9, 0x87, 0x8D, 0xE5, 0x90, 0xAF, 0xE5, 0x91, 0xBD, 0xE4, 0xBB, 0xA4, 0xE5, 0xB7, 0xB2, 0xE5, 0x8F, 0x91, 0xE9, 0x80,
    0x81, 0xE7, 0xBB, 0x99, 0x20]"

definition ct_Services :: string where
  "ct_Services = utf8 [0x20, 0xE4, 0xB8, 0xAA, 0xE6, 0x9C, 0x8D, 0xE5, 0x8A, 0xA1]"

definition ct_AdminStop :: string where
  "ct_AdminStop = utf8 [0xE7, 0xAE, 0xA1, 0xE7, 0x90, 0x86, 0xE5, 0x91, 0x98, 0xE5, 0x85, 0xB3, 0xE9, 0x97, 0xAD]"

definition ct_AdminRestart :: string where
  "ct_AdminRestart = utf8 [0xE7, 0xAE, 0xA1, 0xE7, 0x90, 0x86, 0xE5, 0x91, 0x98, 0xE9, 0x87, 0x8D, 0xE5, 0x90, 0xAF]"

subsection \<open>State and messages\<close>

record ('e, 'n, 'h) center =
  ce_registry :: "'e registry"
  ce_broker :: "('n, 'h) message_broker"

record ('e, 'n) center_deps =
  cd_registry :: "'e registry_deps"
  cd_nsq :: "'n nsq_ops"
  cd_json :: "mq_value mq_json"

record service_entry =
  se_ServiceId :: string
  se_ServiceType :: string
  se_Address :: string
  se_Port :: int
  se_Status :: string
  se_LastHeartbeat :: u32

record service_list =
  sl_Services :: "service_entry list"
  sl_Total :: int

record 'i cluster_status =
  cl_TotalServices :: int
  cl_OnlineServices :: int
  cl_ServiceStats :: "string \<Rightarrow> int option"
  cl_SystemInfo :: 'i

record broadcast_request =
  bq_MessageType :: string
  bq_Content :: string
  bq_TargetServices :: "string list"

record operation_request =
  oq_ServiceId :: string
  oq_ServiceType :: string

definition node_types :: "string list" where
  "node_types = [''gateway'', ''login'', ''lobby'', ''game'', ''friend'', ''chat'', ''mail'', ''gm'']"

text \<open>The time since the last registration of a service, in seconds.\<close>

definition age :: "time \<Rightarrow> service_info \<Rightarrow> int" where
  "age now service = wrap_i64 (time_unix now - si_UpdateTime service)"

subsection \<open>Reading the registry\<close>

text \<open>The loop over the service types, which skips a type with an error.\<close>

fun gather :: "'e registry_deps \<Rightarrow> string list \<Rightarrow> 'e registry \<Rightarrow> 'e registry \<times> service_info list" where
  "gather deps [] reg = (reg, [])"
| "gather deps (t # ts) reg =
     (case GetServices deps t reg of
        (reg1, Inl _) \<Rightarrow> gather deps ts reg1
      | (reg1, Inr services) \<Rightarrow> (let (reg2, rest) = gather deps ts reg1 in (reg2, services @ rest)))"

definition performHealthChecks :: "'e registry_deps \<Rightarrow> 'e registry \<Rightarrow> 'e registry" where
  "performHealthChecks deps reg = fst (gather deps node_types reg)"

definition list_entry :: "time \<Rightarrow> service_info \<Rightarrow> service_entry" where
  "list_entry now service = \<lparr>se_ServiceId = si_NodeID service, se_ServiceType = si_NodeType service, se_Address = si_Address service,
     se_Port = wrap_i32 (si_Port service), se_Status = (if age now service > 60 then ''offline'' else ''online''),
     se_LastHeartbeat = of_int (si_UpdateTime service)\<rparr>"

definition GetServiceList :: "('e, 'n) center_deps \<Rightarrow> time \<Rightarrow> ('e, 'n, 'h) center \<Rightarrow> ('e, 'n, 'h) center \<times> service_list" where
  "GetServiceList deps now s =
     (let (reg, services) = gather (cd_registry deps) (node_types @ [''center'']) (ce_registry s)
      in (s\<lparr>ce_registry := reg\<rparr>, \<lparr>sl_Services = map (list_entry now) services, sl_Total = wrap_i32 (int (length services))\<rparr>))"

fun count_services :: "time \<Rightarrow> service_info list \<Rightarrow> int \<Rightarrow> int \<Rightarrow> (string \<Rightarrow> int option) \<Rightarrow> int \<times> int \<times> (string \<Rightarrow> int option)" where
  "count_services now [] n online stats = (n, online, stats)"
| "count_services now (service # services) n online stats =
     (if age now service \<le> 60
      then count_services now services (wrap_i32 (n + 1)) (wrap_i32 (online + 1))
             (stats(si_NodeType service \<mapsto> (case stats (si_NodeType service) of Some cnt \<Rightarrow> wrap_i32 (cnt + 1) | None \<Rightarrow> 1)))
      else count_services now services (wrap_i32 (n + 1)) online stats)"

definition GetClusterStatus :: "('e, 'n) center_deps \<Rightarrow> time \<Rightarrow> 'i \<Rightarrow> ('e, 'n, 'h) center \<Rightarrow> ('e, 'n, 'h) center \<times> 'i cluster_status" where
  "GetClusterStatus deps now info s =
     (let (reg, services) = gather (cd_registry deps) (node_types @ [''center'']) (ce_registry s);
          (n, online, stats) = count_services now services 0 0 Map.empty
      in (s\<lparr>ce_registry := reg\<rparr>, \<lparr>cl_TotalServices = n, cl_OnlineServices = online, cl_ServiceStats = stats, cl_SystemInfo = info\<rparr>))"

subsection \<open>Commands\<close>

definition common :: "int \<Rightarrow> string \<Rightarrow> string \<Rightarrow> common_response" where
  "common code msg data = \<lparr>cr_Code = code, cr_Message = msg, cr_Data = string_bytes data\<rparr>"

text \<open>
  The loop that sends a command to the services that are fresh enough, and counts them; an error of the
  publication is not looked at.
\<close>

fun send_fresh :: "('e, 'n) center_deps \<Rightarrow> time \<Rightarrow> int \<Rightarrow> string \<Rightarrow> (string \<times> mq_value) list \<Rightarrow> service_info list \<Rightarrow> int \<Rightarrow>
    ('n, 'h) message_broker \<Rightarrow> ('n, 'h) message_broker \<times> int outcome" where
  "send_fresh deps now limit command args [] cnt mb = (mb, Ret cnt)"
| "send_fresh deps now limit command args (service # services) cnt mb =
     (if age now service \<le> limit
      then (case SendToNode (cd_nsq deps) (cd_json deps) now (si_NodeID service) command args mb of
              (mb1, Panic) \<Rightarrow> (mb1, Panic)
            | (mb1, Ret _) \<Rightarrow> send_fresh deps now limit command args services (wrap_i64 (cnt + 1)) mb1)
      else send_fresh deps now limit command args services cnt mb)"

fun broadcast_types :: "('e, 'n) center_deps \<Rightarrow> time \<Rightarrow> string \<Rightarrow> (string \<times> mq_value) list \<Rightarrow> string list \<Rightarrow> int \<Rightarrow> ('e, 'n, 'h) center \<Rightarrow>
    ('e, 'n, 'h) center \<times> int outcome" where
  "broadcast_types deps now command args [] cnt s = (s, Ret cnt)"
| "broadcast_types deps now command args (t # ts) cnt s =
     (case GetServices (cd_registry deps) t (ce_registry s) of
        (reg, Inl _) \<Rightarrow> broadcast_types deps now command args ts cnt (s\<lparr>ce_registry := reg\<rparr>)
      | (reg, Inr services) \<Rightarrow>
          (case send_fresh deps now 60 command args services cnt (ce_broker s) of
             (mb, Panic) \<Rightarrow> (s\<lparr>ce_registry := reg, ce_broker := mb\<rparr>, Panic)
           | (mb, Ret cnt1) \<Rightarrow> broadcast_types deps now command args ts cnt1 (s\<lparr>ce_registry := reg, ce_broker := mb\<rparr>)))"

definition quoted :: "string \<Rightarrow> string" where
  "quoted s = [char_of (34 :: nat)] @ s @ [char_of (34 :: nat)]"

definition BroadcastMessage :: "('e, 'n) center_deps \<Rightarrow> time \<Rightarrow> broadcast_request \<Rightarrow> ('e, 'n, 'h) center \<Rightarrow>
    ('e, 'n, 'h) center \<times> common_response outcome" where
  "BroadcastMessage deps now req s =
     (if bq_MessageType req = [] then (s, Ret (common 1001 ct_EmptyType []))
      else if bq_Content req = [] then (s, Ret (common 1002 ct_EmptyContent []))
      else
        let args = [(''type'', MqString (bq_MessageType req)), (''content'', MqString (bq_Content req)),
               (''timestamp'', MqInt (time_unix now)), (''from'', MqString ''center_server'')];
            (s1, r) = (if bq_TargetServices req \<noteq> [] then broadcast_types deps now (bq_MessageType req) args (bq_TargetServices req) 0 s
               else case BroadcastSystemMessage (cd_nsq deps) (cd_json deps) now (bq_MessageType req) args (ce_broker s) of
                 (mb, Panic) \<Rightarrow> (s\<lparr>ce_broker := mb\<rparr>, Panic)
               | (mb, Ret _) \<Rightarrow> (s\<lparr>ce_broker := mb\<rparr>, Ret (- 1)))
        in (s1, case r of Panic \<Rightarrow> Panic
              | Ret cnt \<Rightarrow> Ret (common 0 ct_BroadcastSent
                  (''{'' @ quoted ''target_count'' @ '':'' @ fmt_int cnt @ '','' @ quoted ''message_type'' @ '':'' @ quoted (bq_MessageType req) @ ''}''))))"

text \<open>The first service with the identifier of each type.\<close>

fun find_targets :: "'e registry_deps \<Rightarrow> string \<Rightarrow> string list \<Rightarrow> 'e registry \<Rightarrow> 'e registry \<times> service_info list" where
  "find_targets deps sid [] reg = (reg, [])"
| "find_targets deps sid (t # ts) reg =
     (case GetServices deps t reg of
        (reg1, Inl _) \<Rightarrow> find_targets deps sid ts reg1
      | (reg1, Inr services) \<Rightarrow>
          (let (reg2, rest) = find_targets deps sid ts reg1
           in (reg2, (case List.find (\<lambda>service. si_NodeID service = sid) services of Some service \<Rightarrow> [service] | None \<Rightarrow> []) @ rest)))"

definition operate :: "('e, 'n) center_deps \<Rightarrow> time \<Rightarrow> string \<Rightarrow> string \<Rightarrow> string \<Rightarrow> operation_request \<Rightarrow> ('e, 'n, 'h) center \<Rightarrow>
    ('e, 'n, 'h) center \<times> common_response outcome" where
  "operate deps now command reason sent req s =
     (if oq_ServiceId req = [] \<and> oq_ServiceType req = [] then (s, Ret (common 1001 ct_EmptyService []))
      else
        let (reg, targets) = (if oq_ServiceId req \<noteq> []
               then (let (reg, xs) = find_targets (cd_registry deps) (oq_ServiceId req) node_types (ce_registry s) in (reg, Inr xs))
               else GetServices (cd_registry deps) (oq_ServiceType req) (ce_registry s));
            s1 = s\<lparr>ce_registry := reg\<rparr>
        in case targets of
             Inl _ \<Rightarrow> (s1, Ret (common 1002 ct_NoTargets []))
           | Inr services \<Rightarrow>
               if services = [] then (s1, Ret (common 1003 ct_NotFound []))
               else (case send_fresh deps now 120 command [(''reason'', MqString reason), (''timestamp'', MqInt (time_unix now))] services 0 (ce_broker s1) of
                       (mb, Panic) \<Rightarrow> (s1\<lparr>ce_broker := mb\<rparr>, Panic)
                     | (mb, Ret cnt) \<Rightarrow>
                         (s1\<lparr>ce_broker := mb\<rparr>, Ret (common 0 (sent @ fmt_int cnt @ ct_Services) (''{'' @ quoted ''target_count'' @ '':'' @ fmt_int cnt @ ''}'')))))"

definition ShutdownService where
  "ShutdownService deps now = operate deps now ''shutdown'' ct_AdminStop ct_StopSent"

definition RestartService where
  "RestartService deps now = operate deps now ''restart'' ct_AdminRestart ct_RestartSent"

subsection \<open>The chat server\<close>

definition Chat_SendMessage :: "base_request \<Rightarrow> base_response" where
  "Chat_SendMessage req = reply req 0 ''message sent''"

definition GetChatHistory :: "base_request \<Rightarrow> base_response" where
  "GetChatHistory req = reply req 0 ''success''"

definition BlockUser :: "base_request \<Rightarrow> base_response" where
  "BlockUser req = reply req 0 ''user blocked''"

definition UnblockUser :: "base_request \<Rightarrow> base_response" where
  "UnblockUser req = reply req 0 ''user unblocked''"

subsection \<open>Counting\<close>

definition stat :: "(string \<Rightarrow> int option) \<Rightarrow> string \<Rightarrow> int" where
  "stat m k = (case m k of None \<Rightarrow> 0 | Some c \<Rightarrow> c)"

lemma count_services_spec:
  assumes "count_services now xs n onl m = (n', onl', m')" and "0 \<le> onl" and "onl \<le> n" and "n + int (length xs) < 2 ^ 31"
    and "\<And>k. 0 \<le> stat m k \<and> stat m k \<le> n"
  shows "n' = n + int (length xs) \<and> onl' = onl + int (length (filter (\<lambda>x. age now x \<le> 60) xs)) \<and>
    (\<forall>k. stat m' k = stat m k + int (length (filter (\<lambda>x. age now x \<le> 60 \<and> si_NodeType x = k) xs)))"
  using assms
proof (induction xs arbitrary: n onl m)
  case (Cons x xs)
  have w: "wrap_i32 (n + 1) = n + 1" "wrap_i32 (onl + 1) = onl + 1" using Cons.prems(2-4) by simp_all
  show ?case
  proof (cases "age now x \<le> 60")
    case False
    with Cons.prems w have "count_services now xs (n + 1) onl m = (n', onl', m')" by simp
    have b: "0 \<le> stat m k \<and> stat m k \<le> n + 1" for k using Cons.prems(5) [of k] by simp
    from Cons.IH [OF \<open>count_services now xs (n + 1) onl m = (n', onl', m')\<close> _ _ _ b] Cons.prems(2-4) False show ?thesis by auto
  next
    case True
    let ?c = "case m (si_NodeType x) of Some cnt \<Rightarrow> wrap_i32 (cnt + 1) | None \<Rightarrow> 1"
    have c: "?c = stat m (si_NodeType x) + 1"
      using Cons.prems(4) Cons.prems(5) [of "si_NodeType x"] by (auto simp: stat_def split: option.splits)
    have st: "stat (m(si_NodeType x \<mapsto> ?c)) k = stat m k + (if k = si_NodeType x then 1 else 0)" for k
      using c by (auto simp: stat_def)
    have run: "count_services now xs (n + 1) (onl + 1) (m(si_NodeType x \<mapsto> ?c)) = (n', onl', m')" using Cons.prems(1) True w by simp
    have b: "0 \<le> stat (m(si_NodeType x \<mapsto> ?c)) k \<and> stat (m(si_NodeType x \<mapsto> ?c)) k \<le> n + 1" for k
      using Cons.prems(5) [of k] by (auto simp: st)
    from Cons.IH [OF run _ _ _ b] Cons.prems(2-4) True st show ?thesis by (auto simp del: fun_upd_apply)
  qed
qed simp

subsection \<open>Sending\<close>

text \<open>What a message of the center does on a node is decided by its target and command.\<close>

definition node_runs :: "'v mq_json \<Rightarrow> byte list \<Rightarrow> 'v system_message \<Rightarrow> bool" where
  "node_runs js d msg \<longleftrightarrow> mj_un_system js d = Inr msg"

lemma node_runs_handle:
  "node_runs js d msg \<Longrightarrow> System_HandleMessage js nid hs d s =
     (if sy_Target msg \<noteq> [] \<and> sy_Target msg \<noteq> nid then (s, Some None) else case hs (sy_Command msg) of None \<Rightarrow> (s, Some None) | Some h \<Rightarrow> h msg s)"
  by (simp add: node_runs_def System_HandleMessage_def)

locale commands = nsq_net "cd_nsq deps" queued producers_of consumers_of
  for deps :: "('e, 'n) center_deps" and queued and producers_of and consumers_of +
  assumes codec: "mj_system (cd_json deps) msg = Inr d \<Longrightarrow> mj_un_system (cd_json deps) d = Inr msg"
begin

abbreviation "queue_of mb \<equiv> queued (nm_net (mb_nsq mb))"

lemma published:
  assumes "PublishSystemMessage (cd_nsq deps) (cd_json deps) now ty target command args mb = (mb', r)"
  shows "\<exists>k d. queue_of mb' = queue_of mb @ replicate k (''system_messages'', d) \<and>
    (0 < k \<longrightarrow> node_runs (cd_json deps) d (NewSystemMessage now ty target command args))"
proof (cases "mj_system (cd_json deps) (NewSystemMessage now ty target command args)")
  case (Inl e)
  with assms have "mb' = mb" by (simp add: PublishSystemMessage_def broker_publish_def PublishJSON_def)
  then have "queue_of mb' = queue_of mb @ replicate 0 (''system_messages'', [])" by simp
  then show ?thesis by blast
next
  case (Inr d)
  obtain m x where p: "Publish (cd_nsq deps) ''system_messages'' d (mb_nsq mb) = (m, x)" by fastforce
  with assms Inr have "mb_nsq mb' = m" by (auto simp: PublishSystemMessage_def broker_publish_def PublishJSON_def)
  with publish_queued [OF p] codec [OF Inr] show ?thesis unfolding node_runs_def by blast
qed

text \<open>The messages of a loop: commands for services that are fresh.\<close>

definition sent_to :: "time \<Rightarrow> int \<Rightarrow> string \<Rightarrow> (string \<times> mq_value) list \<Rightarrow> service_info list \<Rightarrow> (string \<times> byte list) list \<Rightarrow> bool" where
  "sent_to now limit command args services msgs \<longleftrightarrow> (\<forall>(topic, d) \<in> set msgs. topic = ''system_messages'' \<and>
     (\<exists>x \<in> set services. age now x \<le> limit \<and> node_runs (cd_json deps) d (NewSystemMessage now ''unicast'' (si_NodeID x) command args)))"

lemma sent_fresh:
  assumes "send_fresh deps now limit command args xs cnt mb = (mb', r)"
  shows "(\<exists>msgs. queue_of mb' = queue_of mb @ msgs \<and> sent_to now limit command args xs msgs) \<and>
    (\<forall>c. r = Ret c \<longrightarrow> 0 \<le> cnt \<longrightarrow> cnt + int (length xs) < 2 ^ 63 \<longrightarrow> c = cnt + int (length (filter (\<lambda>x. age now x \<le> limit) xs)))"
  using assms
proof (induction xs arbitrary: cnt mb)
  case (Cons x xs)
  show ?case
  proof (cases "age now x \<le> limit")
    case False
    with Cons.prems have "send_fresh deps now limit command args xs cnt mb = (mb', r)" by simp
    from Cons.IH [OF this] False show ?thesis unfolding sent_to_def by fastforce
  next
    case True
    obtain mb1 y where s: "SendToNode (cd_nsq deps) (cd_json deps) now (si_NodeID x) command args mb = (mb1, y)" by fastforce
    from published [OF s [unfolded SendToNode_def]] obtain k d where
      k: "queue_of mb1 = queue_of mb @ replicate k (''system_messages'', d)" and
      d: "0 < k \<longrightarrow> node_runs (cd_json deps) d (NewSystemMessage now ''unicast'' (si_NodeID x) command args)" by blast
    have one: "sent_to now limit command args (x # xs) (replicate k (''system_messages'', d))"
      using d True by (auto simp: sent_to_def)
    show ?thesis
    proof (cases y)
      case Panic
      with Cons.prems True s have "mb' = mb1" "r = Panic" by auto
      with k one show ?thesis by auto
    next
      case (Ret e)
      with Cons.prems True s have run: "send_fresh deps now limit command args xs (wrap_i64 (cnt + 1)) mb1 = (mb', r)" by simp
      from Cons.IH [OF run] obtain msgs where m: "queue_of mb' = queue_of mb1 @ msgs" "sent_to now limit command args xs msgs"
        and c: "\<forall>c. r = Ret c \<longrightarrow> 0 \<le> wrap_i64 (cnt + 1) \<longrightarrow> wrap_i64 (cnt + 1) + int (length xs) < 2 ^ 63 \<longrightarrow>
          c = wrap_i64 (cnt + 1) + int (length (filter (\<lambda>x. age now x \<le> limit) xs))" by blast
      have "sent_to now limit command args (x # xs) (replicate k (''system_messages'', d) @ msgs)"
        using one m(2) unfolding sent_to_def by fastforce
      moreover have "queue_of mb' = queue_of mb @ replicate k (''system_messages'', d) @ msgs" using m(1) k by simp
      ultimately show ?thesis using c True by auto
    qed
  qed
qed (auto simp: sent_to_def)

text \<open>A broadcast without targets is run by every node as the command its type names.\<close>

lemma broadcast_is_command:
  assumes "BroadcastMessage deps now req s = (s', r)" and "bq_TargetServices req = []"
  shows "\<exists>k d. queue_of (ce_broker s') = queue_of (ce_broker s) @ replicate k (''system_messages'', d) \<and>
    (0 < k \<longrightarrow> (\<exists>args. node_runs (cd_json deps) d (NewSystemMessage now ''broadcast'' [] (bq_MessageType req) args)))"
proof (cases "bq_MessageType req = [] \<or> bq_Content req = []")
  case True
  with assms(1) have "s' = s" by (auto simp: BroadcastMessage_def split: if_splits)
  then have "queue_of (ce_broker s') = queue_of (ce_broker s) @ replicate 0 (''system_messages'', [])" by simp
  then show ?thesis by blast
next
  case False
  let ?args = "[(''type'', MqString (bq_MessageType req)), (''content'', MqString (bq_Content req)),
     (''timestamp'', MqInt (time_unix now)), (''from'', MqString ''center_server'')]"
  obtain mb y where p: "PublishSystemMessage (cd_nsq deps) (cd_json deps) now ''broadcast'' [] (bq_MessageType req) ?args (ce_broker s) = (mb, y)" by fastforce
  then have "ce_broker s' = mb"
    using assms False by (cases y) (auto simp: BroadcastMessage_def BroadcastSystemMessage_def Let_def)
  with published [OF p] show ?thesis by blast
qed

lemma operated:
  assumes "operate deps now command reason sent req s = (s', Ret resp)"
  shows "\<exists>xs msgs args. queue_of (ce_broker s') = queue_of (ce_broker s) @ msgs \<and> sent_to now 120 command args xs msgs"
proof -
  have none: "sent_to now 120 command args xs []" for args xs by (simp add: sent_to_def)
  have "ce_broker s' = ce_broker s \<or>
      (\<exists>xs args. fst (send_fresh deps now 120 command args xs 0 (ce_broker s)) = ce_broker s')"
    using assms by (auto simp: operate_def Let_def split: if_splits prod.splits sum.splits outcome.splits) (metis fst_conv)+
  then show ?thesis
  proof
    assume "ce_broker s' = ce_broker s"
    then have "queue_of (ce_broker s') = queue_of (ce_broker s) @ []" by simp
    with none show ?thesis by blast
  next
    assume "\<exists>xs args. fst (send_fresh deps now 120 command args xs 0 (ce_broker s)) = ce_broker s'"
    then obtain xs args r where "send_fresh deps now 120 command args xs 0 (ce_broker s) = (ce_broker s', r)" by (metis prod.collapse)
    from sent_fresh [OF this] show ?thesis by blast
  qed
qed

end

subsection \<open>Properties\<close>

text \<open>
  the two views of the cluster agree: read from the same state, \<^verbatim>\<open>GetClusterStatus\<close> counts the entries
  that \<^verbatim>\<open>GetServiceList\<close> returns, the online ones among them, and those of each service type, as long as
  there are fewer than two to the power 31.
\<close>

theorem cluster_views_agree:
  assumes "GetServiceList deps now s = (s1, l)" and "GetClusterStatus deps now info s = (s2, c)" and "length (sl_Services l) < 2 ^ 31"
  shows "s1 = s2 \<and> cl_TotalServices c = int (length (sl_Services l)) \<and> sl_Total l = cl_TotalServices c \<and>
    cl_OnlineServices c = int (length (filter (\<lambda>e. se_Status e = ''online'') (sl_Services l))) \<and>
    (\<forall>t. stat (cl_ServiceStats c) t = int (length (filter (\<lambda>e. se_Status e = ''online'' \<and> se_ServiceType e = t) (sl_Services l))))"
proof -
  obtain reg xs where g: "gather (cd_registry deps) (node_types @ [''center'']) (ce_registry s) = (reg, xs)" by fastforce
  have l: "s1 = s\<lparr>ce_registry := reg\<rparr>" "l = \<lparr>sl_Services = map (list_entry now) xs, sl_Total = wrap_i32 (int (length xs))\<rparr>"
    using assms(1) g by (auto simp: GetServiceList_def)
  then have len: "0 + int (length xs) < 2 ^ 31" using assms(3) by simp
  obtain n onl m where n: "count_services now xs 0 0 Map.empty = (n, onl, m)" by (metis prod_cases3)
  have "0 \<le> stat Map.empty k \<and> stat Map.empty k \<le> 0" for k by (simp add: stat_def)
  from count_services_spec [OF n _ _ len this]
  have m: "n = int (length xs)" "onl = int (length (filter (\<lambda>x. age now x \<le> 60) xs))"
    "\<And>k. stat m k = int (length (filter (\<lambda>x. age now x \<le> 60 \<and> si_NodeType x = k) xs))" by (simp_all add: stat_def)
  have c: "s2 = s\<lparr>ce_registry := reg\<rparr>" "cl_TotalServices c = n" "cl_OnlineServices c = onl" "cl_ServiceStats c = m"
    using assms(2) g n by (auto simp: GetClusterStatus_def)
  have e: "(\<lambda>e. se_Status e = ''online'') \<circ> list_entry now = (\<lambda>x. age now x \<le> 60)"
    "(\<lambda>e. se_Status e = ''online'' \<and> se_ServiceType e = k) \<circ> list_entry now = (\<lambda>x. age now x \<le> 60 \<and> si_NodeType x = k)" for k
    by (auto simp: list_entry_def fun_eq_iff)
  show ?thesis using l c m len by (simp add: filter_map e)
qed

lemma demo_gathers: "fst (gather demo_deps ts reg) = reg"
  by (induction ts arbitrary: reg) (auto simp: GetServices_def demo_deps_def mem_etcd_ops_def split_beta)

lemma demo_listed: "snd (gather demo_deps (node_types @ [''center'']) demo_registered) = [demo_service\<lparr>si_UpdateTime := 0\<rparr>]"
  by code_simp

definition demo_center_deps :: "(mem_etcd, mem_nsq) center_deps" where
  "demo_center_deps = \<lparr>cd_registry = demo_deps, cd_nsq = mem_nsq_ops, cd_json = demo_shutdown_json\<rparr>"

definition demo_center :: "(mem_etcd, mem_nsq, unit) center" where
  "demo_center = \<lparr>ce_registry = demo_registered, ce_broker = NewMessageBroker demo_manager ''c''\<rparr>"

theorem cluster_views_agree_witness:
  "\<exists>c. GetClusterStatus demo_center_deps (unix_epoch + 61 * second) () demo_center = (demo_center, c) \<and> cl_TotalServices c = 1 \<and> cl_OnlineServices c = 0"
proof -
  let ?now = "unix_epoch + 61 * second"
  have g: "gather demo_deps (node_types @ [''center'']) demo_registered = (demo_registered, [demo_service\<lparr>si_UpdateTime := 0\<rparr>])"
    using demo_gathers [of "node_types @ [''center'']" demo_registered] demo_listed by (metis prod.collapse)
  then obtain l where l: "GetServiceList demo_center_deps ?now demo_center = (demo_center, l)" "sl_Services l = [list_entry ?now (demo_service\<lparr>si_UpdateTime := 0\<rparr>)]"
    by (simp add: GetServiceList_def demo_center_deps_def demo_center_def)
  obtain s2 c where c: "GetClusterStatus demo_center_deps ?now () demo_center = (s2, c)" by fastforce
  have "se_Status (list_entry ?now (demo_service\<lparr>si_UpdateTime := 0\<rparr>)) = ''offline''"
    by (simp add: list_entry_def age_def time_unix_def second_def)
  with cluster_views_agree [OF l(1) c] c l(2) show ?thesis by auto
qed

text \<open>
  C32: \<^verbatim>\<open>ShutdownService\<close> for a service type asks only those who are meant: whatever it queues are shutdown
  commands, each for a service that the registry listed for the type and that has registered in the last two minutes; a node
  that takes one prepares its shutdown exactly when the command names it, and nothing else changes on any
  node.
\<close>

theorem shutdown_commands_targeted:
  assumes "commands deps queued producers_of consumers_of" and "ShutdownService deps now req s = (s', Ret resp)"
    and "oq_ServiceId req = []" and "GetServices (cd_registry deps) (oq_ServiceType req) (ce_registry s) = (reg, Inr xs)"
  shows "\<exists>msgs. queued (nm_net (mb_nsq (ce_broker s'))) = queued (nm_net (mb_nsq (ce_broker s))) @ msgs \<and>
    (\<forall>(topic, d) \<in> set msgs. topic = ''system_messages'' \<and> (\<exists>x \<in> set xs. age now x \<le> 120 \<and>
       (\<forall>nid n sys t. System_HandleMessage (cd_json deps) nid (common_handlers sys t) d n =
          (if si_NodeID x \<in> {[], nid} then n\<lparr>no_stops := no_stops n + 1\<rparr> else n, Some None))))"
proof (cases "ce_broker s' = ce_broker s")
  case True
  then show ?thesis by (intro exI [of _ "[]"]) simp
next
  case False
  let ?args = "[(''reason'', MqString ct_AdminStop), (''timestamp'', MqInt (time_unix now))]"
  have "fst (send_fresh deps now 120 ''shutdown'' ?args xs 0 (ce_broker s)) = ce_broker s'"
    using assms(2-4) False by (auto simp: ShutdownService_def operate_def Let_def split: if_splits prod.splits outcome.splits)
  then obtain r where "send_fresh deps now 120 ''shutdown'' ?args xs 0 (ce_broker s) = (ce_broker s', r)" by (metis prod.collapse)
  from commands.sent_fresh [OF assms(1) this] obtain msgs where
    m: "queued (nm_net (mb_nsq (ce_broker s'))) = queued (nm_net (mb_nsq (ce_broker s))) @ msgs" and
    t: "commands.sent_to deps now 120 ''shutdown'' ?args xs msgs" by blast
  have "topic = ''system_messages'' \<and> (\<exists>x \<in> set xs. age now x \<le> 120 \<and>
       (\<forall>nid n sys t. System_HandleMessage (cd_json deps) nid (common_handlers sys t) d n =
          (if si_NodeID x \<in> {[], nid} then n\<lparr>no_stops := no_stops n + 1\<rparr> else n, Some None)))" if "(topic, d) \<in> set msgs" for topic d
  proof -
    from t that obtain x where x: "x \<in> set xs" "age now x \<le> 120" "topic = ''system_messages''"
      "node_runs (cd_json deps) d (NewSystemMessage now ''unicast'' (si_NodeID x) ''shutdown'' ?args)"
      unfolding commands.sent_to_def [OF assms(1)] by blast
    have "System_HandleMessage (cd_json deps) nid (common_handlers sys t) d n =
        (if si_NodeID x \<in> {[], nid} then n\<lparr>no_stops := no_stops n + 1\<rparr> else n, Some None)" for nid n sys t
      using node_runs_handle [OF x(4), of nid "common_handlers sys t" n] by (simp add: NewSystemMessage_def HandleShutdown_def)
    with x show ?thesis by blast
  qed
  with m show ?thesis by blast
qed

text \<open>
  \<^verbatim>\<open>RestartService\<close> restarts nothing: whatever it queues, no node does anything when it takes it, since no
  handler is registered for the command, although the answer counts the nodes as told.
\<close>

theorem restart_has_no_effect:
  assumes "commands deps queued producers_of consumers_of" and "RestartService deps now req s = (s', Ret resp)"
  shows "\<exists>msgs. queued (nm_net (mb_nsq (ce_broker s'))) = queued (nm_net (mb_nsq (ce_broker s))) @ msgs \<and>
    (\<forall>(topic, d) \<in> set msgs. \<forall>nid n sys t. System_HandleMessage (cd_json deps) nid (common_handlers sys t) d n = (n, Some None))"
proof -
  from commands.operated [OF assms(1) assms(2) [unfolded RestartService_def]] obtain xs msgs args where
    m: "queued (nm_net (mb_nsq (ce_broker s'))) = queued (nm_net (mb_nsq (ce_broker s))) @ msgs" and
    t: "commands.sent_to deps now 120 ''restart'' args xs msgs" by blast
  have "System_HandleMessage (cd_json deps) nid (common_handlers sys t') d n = (n, Some None)" if "(topic, d) \<in> set msgs" for topic d nid n sys t'
  proof -
    from \<open>commands.sent_to deps now 120 ''restart'' args xs msgs\<close> that obtain x where "x \<in> set xs" "age now x \<le> 120" "topic = ''system_messages''"
      "node_runs (cd_json deps) d (NewSystemMessage now ''unicast'' (si_NodeID x) ''restart'' args)"
      unfolding commands.sent_to_def [OF assms(1)] by blast
    from node_runs_handle [OF this(4), of nid "common_handlers sys t'" n] show ?thesis by (simp add: NewSystemMessage_def)
  qed
  with m show ?thesis by blast
qed

subsection \<open>A center in memory\<close>

definition demo_now :: time where
  "demo_now = unix_epoch + 5 * second"

definition demo_command :: "string \<Rightarrow> string \<Rightarrow> mq_value system_message" where
  "demo_command command reason = NewSystemMessage demo_now ''unicast'' ''g1'' command [(''reason'', MqString reason), (''timestamp'', MqInt (time_unix demo_now))]"

definition demo_command_json :: "mq_value mq_json" where
  "demo_command_json = demo_shutdown_json\<lparr>
     mj_system := (\<lambda>m. if m = demo_command ''shutdown'' ct_AdminStop then Inr [1] else if m = demo_command ''restart'' ct_AdminRestart then Inr [2] else Inl ''no''),
     mj_un_system := (\<lambda>d. if d = [1] then Inr (demo_command ''shutdown'' ct_AdminStop) else if d = [2] then Inr (demo_command ''restart'' ct_AdminRestart) else Inl ''no'')\<rparr>"

definition demo_commands :: "(mem_etcd, mem_nsq) center_deps" where
  "demo_commands = \<lparr>cd_registry = demo_deps, cd_nsq = mem_nsq_ops, cd_json = demo_command_json\<rparr>"

interpretation demo_center: commands demo_commands mq_queued "\<lambda>n. fst ` set (mq_producers n)" "\<lambda>n. set (mq_consumers n)"
proof (intro commands.intro commands_axioms.intro)
  show "nsq_net (cd_nsq demo_commands) mq_queued (\<lambda>n. fst ` set (mq_producers n)) (\<lambda>n. set (mq_consumers n))"
    using mem_nsq.nsq_net_axioms by (simp add: demo_commands_def)
qed (auto simp: demo_commands_def demo_command_json_def split: if_splits)

definition demo_operation :: operation_request where
  "demo_operation = \<lparr>oq_ServiceId = [], oq_ServiceType = ''game''\<rparr>"

lemma demo_runs:
  "(case ShutdownService demo_commands demo_now demo_operation demo_center of (s', Ret r) \<Rightarrow> (mq_queued (nm_net (mb_nsq (ce_broker s'))), Some (cr_Code r))
     | (s', Panic) \<Rightarrow> ([], None)) = ([(''system_messages'', [1])], Some 0)"
  "(case RestartService demo_commands demo_now demo_operation demo_center of (s', Ret r) \<Rightarrow> (mq_queued (nm_net (mb_nsq (ce_broker s'))), Some (cr_Code r))
     | (s', Panic) \<Rightarrow> ([], None)) = ([(''system_messages'', [2])], Some 0)"
  by code_simp+

lemma demo_queue_empty: "mq_queued (nm_net (mb_nsq (ce_broker demo_center))) = []"
  by code_simp

lemma demo_run_cases:
  assumes "(case c of (s', Ret r) \<Rightarrow> (mq_queued (nm_net (mb_nsq (ce_broker s'))), Some (cr_Code r)) | (s', Panic) \<Rightarrow> ([], None)) = (q, Some k)"
  shows "\<exists>s' r. c = (s', Ret r) \<and> mq_queued (nm_net (mb_nsq (ce_broker s'))) = q \<and> cr_Code r = k"
  using assms by (auto split: prod.splits outcome.splits)

theorem shutdown_commands_targeted_witness:
  "\<exists>s' resp. ShutdownService demo_commands demo_now demo_operation demo_center = (s', Ret resp) \<and> cr_Code resp = 0 \<and>
     System_HandleMessage demo_command_json ''g1'' (common_handlers demo_system 0) [1] demo_node = (demo_node\<lparr>no_stops := 1\<rparr>, Some None)"
proof -
  from demo_run_cases [OF demo_runs(1)] obtain s' resp where
    s: "ShutdownService demo_commands demo_now demo_operation demo_center = (s', Ret resp)" "mq_queued (nm_net (mb_nsq (ce_broker s'))) = [(''system_messages'', [1])]"
    "cr_Code resp = 0" by blast
  have o: "oq_ServiceId demo_operation = []" "oq_ServiceType demo_operation = ''game''" by (simp_all add: demo_operation_def)
  obtain reg xs where g: "GetServices (cd_registry demo_commands) (oq_ServiceType demo_operation) (ce_registry demo_center) = (reg, Inr xs)"
    by (simp add: demo_operation_def demo_commands_def demo_center_def GetServices_def demo_deps_def mem_etcd_ops_def)
  have x: "xs = [demo_service\<lparr>si_UpdateTime := 0\<rparr>]"
  proof -
    have "snd (GetServices demo_deps ''game'' demo_registered) = Inr [demo_service\<lparr>si_UpdateTime := 0\<rparr>]" by code_simp
    with g show ?thesis by (simp add: demo_operation_def demo_commands_def demo_center_def)
  qed
  have "\<exists>x \<in> set xs. age demo_now x \<le> 120 \<and> (\<forall>nid (n :: (mem_etcd, demo_host) node) sys t.
      System_HandleMessage demo_command_json nid (common_handlers sys t) [1] n = (if si_NodeID x \<in> {[], nid} then n\<lparr>no_stops := no_stops n + 1\<rparr> else n, Some None))"
    using shutdown_commands_targeted [OF demo_center.commands_axioms s(1) o(1) g] unfolding s(2) demo_queue_empty by (auto simp: demo_commands_def)
  then have "System_HandleMessage demo_command_json ''g1'' (common_handlers demo_system 0) [1] demo_node = (demo_node\<lparr>no_stops := no_stops demo_node + 1\<rparr>, Some None)"
    unfolding x by (simp add: demo_service_def)
  with s show ?thesis by (simp add: demo_node_def)
qed

theorem restart_has_no_effect_witness:
  "\<exists>s' resp. RestartService demo_commands demo_now demo_operation demo_center = (s', Ret resp) \<and> cr_Code resp = 0 \<and>
     System_HandleMessage demo_command_json ''g1'' (common_handlers demo_system 0) [2] demo_node = (demo_node, Some None)"
proof -
  from demo_run_cases [OF demo_runs(2)] obtain s' resp where
    s: "RestartService demo_commands demo_now demo_operation demo_center = (s', Ret resp)" "mq_queued (nm_net (mb_nsq (ce_broker s'))) = [(''system_messages'', [2])]"
    "cr_Code resp = 0" by blast
  from restart_has_no_effect [OF demo_center.commands_axioms s(1)]
  have "System_HandleMessage demo_command_json ''g1'' (common_handlers demo_system 0) [2] demo_node = (demo_node, Some None)"
    unfolding s(2) demo_queue_empty by (auto simp: demo_commands_def)
  with s show ?thesis by blast
qed

subsection \<open>A node whose load was reported\<close>

lemma tick_keeps_keys:
  assumes "bs_registry s = Some reg" and "bs_loop s = LoopBlocked \<or> bs_loop s = LoopWaiting \<and> \<not> rg_locked reg \<and> rg_services reg (bs_nodeID s) \<noteq> None"
  shows "\<exists>reg'. bs_registry (load_tick deps now load s) = Some reg' \<and> rg_etcd reg' = rg_etcd reg \<and> rg_keyPrefix reg' = rg_keyPrefix reg \<and>
    bs_loop (load_tick deps now load s) = LoopBlocked"
  using assms by (auto simp: load_tick_def UpdateLoad_def Register_def Let_def)

lemma ticks_keep_keys:
  assumes "bs_registry s = Some reg" and "bs_loop s = LoopBlocked \<or> bs_loop s = LoopWaiting \<and> \<not> rg_locked reg \<and> rg_services reg (bs_nodeID s) \<noteq> None"
    and "life_run deps (map (\<lambda>(t, l). TickL t l) ticks) s = Some s'"
  shows "\<exists>reg'. bs_registry s' = Some reg' \<and> rg_etcd reg' = rg_etcd reg \<and> rg_keyPrefix reg' = rg_keyPrefix reg"
  using assms
proof (induction ticks arbitrary: s reg)
  case (Cons x ticks)
  obtain t l where x: "x = (t, l)" by fastforce
  from tick_keeps_keys [OF Cons.prems(1,2), of deps t l] obtain reg1 where
    r: "bs_registry (load_tick deps t l s) = Some reg1" "rg_etcd reg1 = rg_etcd reg" "rg_keyPrefix reg1 = rg_keyPrefix reg"
    "bs_loop (load_tick deps t l s) = LoopBlocked" by blast
  with Cons.IH [OF r(1)] Cons.prems(3) x show ?case by auto
qed simp

text \<open>
  C33: the cluster loses sight of its nodes: whatever reports of its load a running node makes, two minutes
  after its start the center still finds the registration of the start and no other: the node is listed as
  offline, and the commands to stop or restart the services of its type leave it out.
\<close>

theorem node_goes_stale:
  assumes "etcd_store (rd_etcd (bd_registry deps)) kvs" and "codec_ok (bd_registry deps)"
    and "bs_registry s = Some reg" and "keys_wf (bd_registry deps) reg (kvs (rg_etcd reg))"
    and "Start deps t0 s = Some (s1, None)" and "life_run deps (map (\<lambda>(t, l). TickL t l) ticks) s1 = Some s2"
    and "bs_registry s2 = Some reg2" and "kvs (rg_etcd creg) = kvs (rg_etcd reg2)" and "rg_keyPrefix creg = rg_keyPrefix reg2"
    and "GetServices (bd_registry deps) (bs_nodeType s) creg = (creg', Inr xs)"
    and "time_unix now - time_unix t0 > 120" and "time_unix now - time_unix t0 < 2 ^ 63"
  shows "(\<exists>x \<in> set xs. si_NodeID x = bs_nodeID s \<and> si_NodeType x = bs_nodeType s) \<and>
    (\<forall>x \<in> set xs. si_NodeID x = bs_nodeID s \<and> si_NodeType x = bs_nodeType s \<longrightarrow> se_Status (list_entry now x) = ''offline'' \<and> \<not> age now x \<le> 120)"
proof -
  let ?rd = "bd_registry deps"
  have ro: "registry_on ?rd kvs" by (rule registry_onI [OF assms(1,2)])
  obtain info reg1 where g: "Register ?rd t0 info reg = (reg1, Some None)" and info: "si_NodeID info = bs_nodeID s" "si_NodeType info = bs_nodeType s"
    and s1: "bs_registry s1 = Some reg1" "bs_loop s1 = LoopWaiting" "bs_nodeID s1 = bs_nodeID s"
  proof -
    obtain w x where rpc: "(if bs_has s RpcServerC then fa_rpc_start (bd_factory deps) (bs_world s) else (bs_world s, None)) = (w, x)" by fastforce
    obtain reg1 y where y: "Register ?rd t0 (own_info deps t0 (s\<lparr>bs_world := w\<rparr>)) reg = (reg1, y)" by fastforce
    have nb: "roll_back deps err u \<noteq> Some (s1, None)" for err u by (auto simp: roll_back_def split: option.splits)
    have "bs_status s = ''initializing''" using assms(5) by (auto simp: Start_def split: if_splits)
    then have "y = Some None \<and> bs_registry s1 = Some reg1 \<and> bs_loop s1 = LoopWaiting \<and> bs_nodeID s1 = bs_nodeID s"
      using assms(5) rpc y assms(3) nb by (cases x; cases y; auto simp: Start_def Let_def split: option.splits)
    with y that [of "own_info deps t0 (s\<lparr>bs_world := w\<rparr>)" reg1] show ?thesis by (simp add: own_info_def)
  qed
  from registry_on.registered [OF ro g] obtain data where
    d: "rd_unmarshal ?rd data = Inr (info\<lparr>si_UpdateTime := time_unix t0\<rparr>)" and
    k1: "kvs (rg_etcd reg1) = (kvs (rg_etcd reg))(service_key reg (si_NodeType info) (si_NodeID info) \<mapsto> (data, rg_leaseID reg))" and
    r1: "rg_services reg1 (bs_nodeID s) \<noteq> None" "rg_keyPrefix reg1 = rg_keyPrefix reg" "\<not> rg_locked reg1" using info by auto
  from ticks_keep_keys [OF s1(1) _ assms(6)] s1(2,3) r1(1,3) assms(7) have r2: "rg_etcd reg2 = rg_etcd reg1" "rg_keyPrefix reg2 = rg_keyPrefix reg" using r1(2) by auto
  note wf = registry_on.registered_wf [OF ro assms(4) g]
  let ?key = "service_key reg (bs_nodeType s) (bs_nodeID s)"
  have listed: "x \<in> set xs \<longleftrightarrow> (\<exists>k v l. has_prefix k (rg_keyPrefix reg @ bs_nodeType s @ ''/'') \<and> kvs (rg_etcd reg1) k = Some (v, l) \<and> rd_unmarshal ?rd v = Inr x)" for x
    using registry_on.get_services [OF ro assms(10)] assms(8,9) r2 by simp
  have key: "kvs (rg_etcd reg1) ?key = Some (data, rg_leaseID reg)" using k1 info by simp
  have "has_prefix ?key (rg_keyPrefix reg @ bs_nodeType s @ ''/'')" by (simp add: service_key_def has_prefix_def)
  with key d listed have own: "info\<lparr>si_UpdateTime := time_unix t0\<rparr> \<in> set xs" by blast
  have "se_Status (list_entry now x) = ''offline'' \<and> \<not> age now x \<le> 120" if x: "x \<in> set xs" "si_NodeID x = bs_nodeID s" "si_NodeType x = bs_nodeType s" for x
  proof -
    from x(1) listed obtain k v l where k: "kvs (rg_etcd reg1) k = Some (v, l)" "rd_unmarshal ?rd v = Inr x" by blast
    from wf [unfolded keys_wf_def, rule_format, OF k] have "k = ?key" using x(2,3) r1(2) by (simp add: service_key_def)
    with k key d have "x = info\<lparr>si_UpdateTime := time_unix t0\<rparr>" by simp
    then have "age now x = time_unix now - time_unix t0" using assms(11,12) by (simp add: age_def)
    with assms(11) show ?thesis by (simp add: list_entry_def)
  qed
  with own info show ?thesis by (intro conjI bexI [of _ "info\<lparr>si_UpdateTime := time_unix t0\<rparr>"]) auto
qed

theorem node_goes_stale_witness:
  "\<exists>s1 s2 reg2 creg' xs. Start demo_base unix_epoch demo_server = Some (s1, None) \<and> life_run demo_base [TickL (unix_epoch + 30 * second) 1] s1 = Some s2 \<and>
     bs_registry s2 = Some reg2 \<and> GetServices demo_deps ''game'' reg2 = (creg', Inr xs) \<and>
     (\<exists>x \<in> set xs. si_NodeID x = ''g1'' \<and> se_Status (list_entry (unix_epoch + 121 * second) x) = ''offline'')"
proof -
  obtain s1 where s1: "Start demo_base unix_epoch demo_server = Some (s1, None)" using demo_started by blast
  let ?ticks = "[(unix_epoch + 30 * second, 1)]"
  have r: "life_run demo_base (map (\<lambda>(t, l). TickL t l) ?ticks) s1 = Some (load_tick demo_base (unix_epoch + 30 * second) 1 s1)" by simp
  have "bs_registry (load_tick demo_base (unix_epoch + 30 * second) 1 s1) \<noteq> None"
    using s1 by (auto simp: Start_def demo_server_def demo_base_def demo_factory_def own_info_def demo_registry_simps load_tick_def split: option.splits prod.splits)
  then obtain reg2 where reg2: "bs_registry (load_tick demo_base (unix_epoch + 30 * second) 1 s1) = Some reg2" by blast
  obtain creg' xs where g: "GetServices demo_deps ''game'' reg2 = (creg', Inr xs)"
    by (simp add: GetServices_def demo_deps_def mem_etcd_ops_def)
  have b: "bd_registry demo_base = demo_deps" "bs_nodeType demo_server = ''game''" "bs_nodeID demo_server = ''g1''" by (simp_all add: demo_base_def demo_server_def)
  have reg: "bs_registry demo_server = Some demo_registry" by (simp add: demo_server_def)
  have "time_unix (unix_epoch + 121 * second) - time_unix unix_epoch > 120" "time_unix (unix_epoch + 121 * second) - time_unix unix_epoch < 2 ^ 63"
    by (simp_all add: time_unix_def second_def)
  from node_goes_stale [where deps = demo_base, unfolded b, OF demo_store demo_codec reg _ s1 r reg2 refl refl _ this, unfolded b, OF demo_keys_wf g]
  show ?thesis using s1 r reg2 g by (auto simp: b)
qed

end
