(* ===== verification/I18n.thy ===== *)
theory I18n
  imports GoStd
begin

text \<open>
  \<^verbatim>\<open>internal/i18n/i18n.go\<close>: languages and their localizers, the default texts, the table of translations
  that can be updated, imported and exported, the choice of a language for a client, and the localised
  errors, currencies and times. The library \<^verbatim>\<open>go-i18n\<close>, the file system and the number printers of
  \<^verbatim>\<open>x/text\<close> are parameters. The state of the bundle with its files is a type \<open>'f\<close>, a localizer is the bundle
  and the language it was made for.
\<close>

subsection \<open>Default texts\<close>

definition default_texts :: "(string \<times> string) list" where
  "default_texts = [
    (''error.invalid_username'', ''Invalid username''),
    (''error.invalid_password'', ''Invalid password''),
    (''error.user_not_found'', ''User not found''),
    (''error.user_already_exists'', ''User already exists''),
    (''error.login_failed'', ''Login failed''),
    (''error.permission_denied'', ''Permission denied''),
    (''error.server_error'', ''Server error''),
    (''error.rate_limit_exceeded'', ''Rate limit exceeded''),
    (''success.login'', ''Login successful''),
    (''success.logout'', ''Logout successful''),
    (''success.register'', ''Registration successful''),
    (''success.room_created'', ''Room created''),
    (''success.game_started'', ''Game started''),
    (''success.friend_added'', ''Friend added''),
    (''game.waiting_for_players'', ''Waiting for players''),
    (''game.game_started'', ''Game started''),
    (''game.game_ended'', ''Game ended''),
    (''game.your_turn'', ''Your turn''),
    (''game.waiting_for_opponent'', ''Waiting for opponent''),
    (''chat.message_sent'', ''Message sent''),
    (''chat.user_blocked'', ''User blocked''),
    (''chat.message_too_long'', ''Message too long''),
    (''friend.request_sent'', ''Friend request sent''),
    (''friend.request_accepted'', ''Friend request accepted''),
    (''friend.already_friends'', ''Already friends''),
    (''mail.new_mail'', ''New mail received''),
    (''mail.rewards_claimed'', ''Rewards claimed''),
    (''mail.mail_deleted'', ''Mail deleted'')]"

definition chineseMap :: "(string \<times> string) list" where
  "chineseMap = [
    (''error.invalid_username'', utf8 [0xE7, 0x94, 0xA8, 0xE6, 0x88, 0xB7, 0xE5, 0x90, 0x8D, 0xE6, 0x97, 0xA0, 0xE6, 0x95, 0x88]),
    (''error.invalid_password'', utf8 [0xE5, 0xAF, 0x86, 0xE7, 0xA0, 0x81, 0xE6, 0x97, 0xA0, 0xE6, 0x95, 0x88]),
    (''error.user_not_found'', utf8 [0xE7, 0x94, 0xA8, 0xE6, 0x88, 0xB7, 0xE4, 0xB8, 0x8D, 0xE5, 0xAD, 0x98, 0xE5, 0x9C, 0xA8]),
    (''error.user_already_exists'', utf8 [0xE7, 0x94, 0xA8, 0xE6, 0x88, 0xB7, 0xE5, 0xB7, 0xB2, 0xE5, 0xAD, 0x98, 0xE5, 0x9C, 0xA8]),
    (''error.login_failed'', utf8 [0xE7, 0x99, 0xBB, 0xE5, 0xBD, 0x95, 0xE5, 0xA4, 0xB1, 0xE8, 0xB4, 0xA5]),
    (''error.permission_denied'', utf8 [0xE6, 0x9D, 0x83, 0xE9, 0x99, 0x90, 0xE4, 0xB8, 0x8D, 0xE8, 0xB6, 0xB3]),
    (''error.server_error'', utf8 [0xE6, 0x9C, 0x8D, 0xE5, 0x8A, 0xA1, 0xE5, 0x99, 0xA8, 0xE9, 0x94, 0x99, 0xE8, 0xAF, 0xAF]),
    (''error.rate_limit_exceeded'', utf8 [0xE8, 0xAF, 0xB7, 0xE6, 0xB1, 0x82, 0xE8, 0xBF, 0x87, 0xE4, 0xBA, 0x8E, 0xE9, 0xA2, 0x91, 0xE7, 0xB9, 0x81]),
    (''success.login'', utf8 [0xE7, 0x99, 0xBB, 0xE5, 0xBD, 0x95, 0xE6, 0x88, 0x90, 0xE5, 0x8A, 0x9F]),
    (''success.logout'', utf8 [0xE7, 0x99, 0xBB, 0xE5, 0x87, 0xBA, 0xE6, 0x88, 0x90, 0xE5, 0x8A, 0x9F]),
    (''success.register'', utf8 [0xE6, 0xB3, 0xA8, 0xE5, 0x86, 0x8C, 0xE6, 0x88, 0x90, 0xE5, 0x8A, 0x9F]),
    (''success.room_created'', utf8 [0xE6, 0x88, 0xBF, 0xE9, 0x97, 0xB4, 0xE5, 0x88, 0x9B, 0xE5, 0xBB, 0xBA, 0xE6, 0x88, 0x90, 0xE5, 0x8A, 0x9F]),
    (''success.game_started'', utf8 [0xE6, 0xB8, 0xB8, 0xE6, 0x88, 0x8F, 0xE5, 0xBC, 0x80, 0xE5, 0xA7, 0x8B]),
    (''success.friend_added'', utf8 [0xE5, 0xA5, 0xBD, 0xE5, 0x8F, 0x8B, 0xE6, 0xB7, 0xBB, 0xE5, 0x8A, 0xA0, 0xE6, 0x88, 0x90, 0xE5, 0x8A, 0x9F]),
    (''game.waiting_for_players'', utf8 [0xE7, 0xAD, 0x89, 0xE5, 0xBE, 0x85, 0xE7, 0x8E, 0xA9, 0xE5, 0xAE, 0xB6, 0xE5, 0x8A, 0xA0, 0xE5, 0x85, 0xA5]),
    (''game.game_started'', utf8 [0xE6, 0xB8, 0xB8, 0xE6, 0x88, 0x8F, 0xE5, 0xBC, 0x80, 0xE5, 0xA7, 0x8B]),
    (''game.game_ended'', utf8 [0xE6, 0xB8, 0xB8, 0xE6, 0x88, 0x8F, 0xE7, 0xBB, 0x93, 0xE6, 0x9D, 0x9F]),
    (''game.your_turn'', utf8 [0xE8, 0xBD, 0xAE, 0xE5, 0x88, 0xB0, 0xE4, 0xBD, 0xA0, 0xE4, 0xBA, 0x86]),
    (''game.waiting_for_opponent'', utf8 [0xE7, 0xAD, 0x89, 0xE5, 0xBE, 0x85, 0xE5, 0xAF, 0xB9, 0xE6, 0x89, 0x8B, 0xE6, 0x93, 0x8D, 0xE4, 0xBD, 0x9C]),
    (''chat.message_sent'', utf8 [0xE6, 0xB6, 0x88, 0xE6, 0x81, 0xAF, 0xE5, 0xB7, 0xB2, 0xE5, 0x8F, 0x91, 0xE9, 0x80, 0x81]),
    (''chat.user_blocked'', utf8 [0xE7, 0x94, 0xA8, 0xE6, 0x88, 0xB7, 0xE5, 0xB7, 0xB2, 0xE5, 0xB1, 0x8F, 0xE8, 0x94, 0xBD]),
    (''chat.message_too_long'', utf8 [0xE6, 0xB6, 0x88, 0xE6, 0x81, 0xAF, 0xE8, 0xBF, 0x87, 0xE9, 0x95, 0xBF]),
    (''friend.request_sent'', utf8 [0xE5, 0xA5, 0xBD, 0xE5, 0x8F, 0x8B, 0xE8, 0xAF, 0xB7, 0xE6, 0xB1, 0x82, 0xE5, 0xB7, 0xB2, 0xE5, 0x8F, 0x91, 0xE9, 0x80, 0x81]),
    (''friend.request_accepted'', utf8 [0xE5, 0xA5, 0xBD, 0xE5, 0x8F, 0x8B, 0xE8, 0xAF, 0xB7, 0xE6, 0xB1, 0x82, 0xE5, 0xB7, 0xB2, 0xE6, 0x8E, 0xA5, 0xE5, 0x8F, 0x97]),
    (''friend.already_friends'', utf8 [0xE5, 0xB7, 0xB2, 0xE7, 0xBB, 0x8F, 0xE6, 0x98, 0xAF, 0xE5, 0xA5, 0xBD, 0xE5, 0x8F, 0x8B, 0xE4, 0xBA, 0x86]),
    (''mail.new_mail'', utf8 [0xE6, 0x94, 0xB6, 0xE5, 0x88, 0xB0, 0xE6, 0x96, 0xB0, 0xE9, 0x82, 0xAE, 0xE4, 0xBB, 0xB6]),
    (''mail.rewards_claimed'', utf8 [0xE5, 0xA5, 0x96, 0xE5, 0x8A, 0xB1, 0xE5, 0xB7, 0xB2, 0xE9, 0xA2, 0x86, 0xE5, 0x8F, 0x96]),
    (''mail.mail_deleted'', utf8 [0xE9, 0x82, 0xAE, 0xE4, 0xBB, 0xB6, 0xE5, 0xB7, 0xB2, 0xE5, 0x88, 0xA0, 0xE9, 0x99, 0xA4])]"

definition japaneseMap :: "(string \<times> string) list" where
  "japaneseMap = [
    (''error.invalid_username'', utf8 [0xE7, 0x84, 0xA1, 0xE5, 0x8A, 0xB9, 0xE3, 0x81, 0xAA, 0xE3, 0x83, 0xA6, 0xE3, 0x83, 0xBC, 0xE3, 0x82, 0xB6, 0xE3, 0x83, 0xBC, 0xE5, 0x90, 0x8D]),
    (''error.invalid_password'', utf8 [0xE7, 0x84, 0xA1, 0xE5, 0x8A, 0xB9, 0xE3, 0x81, 0xAA, 0xE3, 0x83, 0x91, 0xE3, 0x82, 0xB9, 0xE3, 0x83, 0xAF, 0xE3, 0x83, 0xBC, 0xE3, 0x83, 0x89]),
    (''error.user_not_found'', utf8 [0xE3, 0x83, 0xA6, 0xE3, 0x83, 0xBC, 0xE3, 0x82, 0xB6, 0xE3, 0x83, 0xBC, 0xE3, 0x81, 0x8C, 0xE8, 0xA6, 0x8B, 0xE3, 0x81, 0xA4, 0xE3, 0x81, 0x8B, 0xE3, 0x82, 0x8A, 0xE3, 0x81, 0xBE, 0xE3, 0x81, 0x9B, 0xE3, 0x82, 0x93]),
    (''error.login_failed'', utf8 [0xE3, 0x83, 0xAD, 0xE3, 0x82, 0xB0, 0xE3, 0x82, 0xA4, 0xE3, 0x83, 0xB3, 0xE3, 0x81, 0xAB, 0xE5, 0xA4, 0xB1, 0xE6, 0x95, 0x97, 0xE3, 0x81, 0x97, 0xE3, 0x81, 0xBE, 0xE3, 0x81, 0x97, 0xE3, 0x81, 0x9F]),
    (''success.login'', utf8 [0xE3, 0x83, 0xAD, 0xE3, 0x82, 0xB0, 0xE3, 0x82, 0xA4, 0xE3, 0x83, 0xB3, 0xE6, 0x88, 0x90, 0xE5, 0x8A, 0x9F]),
    (''game.game_started'', utf8 [0xE3, 0x82, 0xB2, 0xE3, 0x83, 0xBC, 0xE3, 0x83, 0xA0, 0xE9, 0x96, 0x8B, 0xE5, 0xA7, 0x8B]),
    (''game.your_turn'', utf8 [0xE3, 0x81, 0x82, 0xE3, 0x81, 0xAA, 0xE3, 0x81, 0x9F, 0xE3, 0x81, 0xAE, 0xE3, 0x82, 0xBF, 0xE3, 0x83, 0xBC, 0xE3, 0x83, 0xB3, 0xE3, 0x81, 0xA7, 0xE3, 0x81, 0x99])]"

definition koreanMap :: "(string \<times> string) list" where
  "koreanMap = [
    (''error.invalid_username'', utf8 [0xEC, 0x9E, 0x98, 0xEB, 0xAA, 0xBB, 0xEB, 0x90, 0x9C, 0x20, 0xEC, 0x82, 0xAC, 0xEC, 0x9A, 0xA9, 0xEC, 0x9E, 0x90, 0xEB, 0xAA, 0x85]),
    (''error.invalid_password'', utf8 [0xEC, 0x9E, 0x98, 0xEB, 0xAA, 0xBB, 0xEB, 0x90, 0x9C, 0x20, 0xEB, 0xB9, 0x84, 0xEB, 0xB0, 0x80, 0xEB, 0xB2, 0x88, 0xED, 0x98, 0xB8]),
    (''error.user_not_found'', utf8 [0xEC, 0x82, 0xAC, 0xEC, 0x9A, 0xA9, 0xEC, 0x9E, 0x90, 0xEB, 0xA5, 0xBC, 0x20, 0xEC, 0xB0, 0xBE, 0xEC, 0x9D, 0x84, 0x20, 0xEC, 0x88, 0x98, 0x20, 0xEC, 0x97, 0x86, 0xEC, 0x8A, 0xB5, 0xEB, 0x8B, 0x88, 0xEB, 0x8B, 0xA4]),
    (''error.login_failed'', utf8 [0xEB, 0xA1, 0x9C, 0xEA, 0xB7, 0xB8, 0xEC, 0x9D, 0xB8, 0x20, 0xEC, 0x8B, 0xA4, 0xED, 0x8C, 0xA8]),
    (''success.login'', utf8 [0xEB, 0xA1, 0x9C, 0xEA, 0xB7, 0xB8, 0xEC, 0x9D, 0xB8, 0x20, 0xEC, 0x84, 0xB1, 0xEA, 0xB3, 0xB5]),
    (''game.game_started'', utf8 [0xEA, 0xB2, 0x8C, 0xEC, 0x9E, 0x84, 0x20, 0xEC, 0x8B, 0x9C, 0xEC, 0x9E, 0x91]),
    (''game.your_turn'', utf8 [0xEB, 0x8B, 0xB9, 0xEC, 0x8B, 0xA0, 0xEC, 0x9D, 0x98, 0x20, 0xEC, 0xB0, 0xA8, 0xEB, 0xA1, 0x80, 0xEC, 0x9E, 0x85, 0xEB, 0x8B, 0x88, 0xEB, 0x8B, 0xA4])]"

record translation =
  tn_ID :: string
  tn_One :: string

text \<open>The text of a translation is replaced where the table of the language has its identifier.\<close>

definition add_texts :: "(string \<times> string) list \<Rightarrow> translation list \<Rightarrow> translation list" where
  "add_texts table ts = map (\<lambda>t. case map_of table (tn_ID t) of Some s \<Rightarrow> t\<lparr>tn_One := s\<rparr> | None \<Rightarrow> t) ts"

definition addChineseTranslations :: "translation list \<Rightarrow> translation list" where
  "addChineseTranslations = add_texts chineseMap"

definition addJapaneseTranslations :: "translation list \<Rightarrow> translation list" where
  "addJapaneseTranslations = add_texts japaneseMap"

definition addKoreanTranslations :: "translation list \<Rightarrow> translation list" where
  "addKoreanTranslations = add_texts koreanMap"

definition getDefaultTranslations :: "string \<Rightarrow> translation list" where
  "getDefaultTranslations langCode =
     (let ts = map (\<lambda>(i, s). \<lparr>tn_ID = i, tn_One = s\<rparr>) default_texts
      in if langCode = ''zh-CN'' then addChineseTranslations ts
         else if langCode = ''ja'' then addJapaneseTranslations ts
         else if langCode = ''ko'' then addKoreanTranslations ts
         else ts)"

subsection \<open>The manager\<close>

text \<open>
  \<open>il_load\<close> reads the file of a language into the bundle, \<open>il_create\<close> writes one with translations (its
  encoding, directory and file), \<open>il_localize\<close> finds a message of a language in the bundle.
\<close>

record ('f, 'd) i18n_lib =
  il_valid :: "string \<Rightarrow> bool"
  il_load :: "string \<Rightarrow> 'f \<Rightarrow> 'f \<times> string option"
  il_create :: "string \<Rightarrow> translation list \<Rightarrow> 'f \<Rightarrow> 'f \<times> string option"
  il_localize :: "'f \<Rightarrow> string \<Rightarrow> string \<Rightarrow> 'd option \<Rightarrow> string + string"

record 'f i18n_manager =
  im_bundle :: 'f
  im_localizers :: "string \<Rightarrow> bool"
  im_languages :: "string list"
  im_defaultLang :: string
  im_translations :: "string \<Rightarrow> (string \<Rightarrow> string option) option"

definition createDefaultLanguageFile :: "('f, 'd) i18n_lib \<Rightarrow> string \<Rightarrow> 'f i18n_manager \<Rightarrow> 'f i18n_manager \<times> string option" where
  "createDefaultLanguageFile lib langCode im =
     (let (f, r) = il_create lib langCode (getDefaultTranslations langCode) (im_bundle im) in (im\<lparr>im_bundle := f\<rparr>, r))"

definition loaded :: "string \<Rightarrow> 'f \<Rightarrow> 'f i18n_manager \<Rightarrow> 'f i18n_manager" where
  "loaded langCode f im = im\<lparr>im_bundle := f, im_localizers := (im_localizers im)(langCode := True),
     im_languages := (if langCode \<in> set (im_languages im) then im_languages im else im_languages im @ [langCode])\<rparr>"

definition LoadLanguage :: "('f, 'd) i18n_lib \<Rightarrow> string \<Rightarrow> 'f i18n_manager \<Rightarrow> 'f i18n_manager \<times> string option" where
  "LoadLanguage lib langCode im =
     (if \<not> il_valid lib langCode then (im, Some (''invalid language code: '' @ langCode))
      else case il_load lib langCode (im_bundle im) of
        (f, None) \<Rightarrow> (loaded langCode f im, None)
      | (f, Some _) \<Rightarrow>
          (case createDefaultLanguageFile lib langCode (im\<lparr>im_bundle := f\<rparr>) of
             (im1, Some err) \<Rightarrow> (im1, Some (''failed to create default language file: '' @ err))
           | (im1, None) \<Rightarrow>
               (case il_load lib langCode (im_bundle im1) of
                  (f2, Some err) \<Rightarrow> (im1\<lparr>im_bundle := f2\<rparr>, Some (''failed to load language file: '' @ err))
                | (f2, None) \<Rightarrow> (loaded langCode f2 im1, None))))"

definition NewI18nManager :: "('f, 'd) i18n_lib \<Rightarrow> string \<Rightarrow> 'f \<Rightarrow> 'f i18n_manager" where
  "NewI18nManager lib defaultLang f = fst (LoadLanguage lib defaultLang
     \<lparr>im_bundle = f, im_localizers = (\<lambda>_. False), im_languages = [], im_defaultLang = defaultLang, im_translations = Map.empty\<rparr>)"

definition Translate :: "('f, 'd) i18n_lib \<Rightarrow> string \<Rightarrow> string \<Rightarrow> 'd option \<Rightarrow> 'f i18n_manager \<Rightarrow> string" where
  "Translate lib langCode messageID data im =
     (let use = (if im_localizers im langCode then Some langCode
             else if im_localizers im (im_defaultLang im) then Some (im_defaultLang im) else None)
      in case use of
           None \<Rightarrow> messageID
         | Some l \<Rightarrow> (case il_localize lib (im_bundle im) l messageID data of Inl _ \<Rightarrow> messageID | Inr s \<Rightarrow> s))"

definition GetSupportedLanguages :: "'f i18n_manager \<Rightarrow> string list" where
  "GetSupportedLanguages im = im_languages im"

subsection \<open>The language of a client\<close>

definition before_semicolon :: "string \<Rightarrow> string" where
  "before_semicolon s = takeWhile (\<lambda>c. c \<noteq> CHR '';'') s"

definition parseAcceptLanguage :: "string \<Rightarrow> string list" where
  "parseAcceptLanguage s = filter (\<lambda>p. p \<noteq> []) (map (\<lambda>p. TrimSpace (before_semicolon (TrimSpace p))) (split_on CHR '','' s))"

fun match_supported :: "string \<Rightarrow> string list \<Rightarrow> string option" where
  "match_supported lang [] = None"
| "match_supported lang (supported # rest) =
     (if lang = supported then Some lang
      else if has_prefix lang supported \<or> has_prefix supported lang then Some supported
      else match_supported lang rest)"

fun detect_in :: "string list \<Rightarrow> string list \<Rightarrow> string option" where
  "detect_in [] supported = None"
| "detect_in (lang # langs) supported = (case match_supported lang supported of Some s \<Rightarrow> Some s | None \<Rightarrow> detect_in langs supported)"

definition DetectLanguage :: "string \<Rightarrow> 'f i18n_manager \<Rightarrow> string" where
  "DetectLanguage acceptLanguage im =
     (if acceptLanguage = [] then im_defaultLang im
      else case detect_in (parseAcceptLanguage acceptLanguage) (im_languages im) of Some s \<Rightarrow> s | None \<Rightarrow> im_defaultLang im)"

subsection \<open>The table of translations\<close>

definition reloadLocalizer :: "string \<Rightarrow> 'f i18n_manager \<Rightarrow> 'f i18n_manager" where
  "reloadLocalizer langCode im = im\<lparr>im_localizers := (im_localizers im)(langCode := True)\<rparr>"

definition table_of :: "string \<Rightarrow> 'f i18n_manager \<Rightarrow> string \<Rightarrow> string option" where
  "table_of langCode im = (case im_translations im langCode of None \<Rightarrow> Map.empty | Some m \<Rightarrow> m)"

definition UpdateTranslation :: "string \<Rightarrow> string \<Rightarrow> string \<Rightarrow> 'f i18n_manager \<Rightarrow> 'f i18n_manager" where
  "UpdateTranslation langCode messageID text im =
     reloadLocalizer langCode (im\<lparr>im_translations := (im_translations im)(langCode \<mapsto> (table_of langCode im)(messageID \<mapsto> text))\<rparr>)"

text \<open>The keys in the order in which the map is ranged over.\<close>

definition GetTranslationKeys :: "string \<Rightarrow> string list \<Rightarrow> 'f i18n_manager \<Rightarrow> string list option" where
  "GetTranslationKeys langCode order im =
     (case im_translations im langCode of None \<Rightarrow> None | Some m \<Rightarrow> Some (filter (\<lambda>k. m k \<noteq> None) order))"

definition ExportTranslations :: "string \<Rightarrow> 'f i18n_manager \<Rightarrow> string + (string \<Rightarrow> string option)" where
  "ExportTranslations langCode im =
     (case im_translations im langCode of None \<Rightarrow> Inl (''language not found: '' @ langCode) | Some m \<Rightarrow> Inr m)"

definition ImportTranslations :: "string \<Rightarrow> (string \<Rightarrow> string option) \<Rightarrow> 'f i18n_manager \<Rightarrow> 'f i18n_manager" where
  "ImportTranslations langCode new im =
     reloadLocalizer langCode (im\<lparr>im_translations := (im_translations im)(langCode \<mapsto> (table_of langCode im ++ new))\<rparr>)"

text \<open>The languages and the keys of the default language, in the order in which the maps are ranged over.\<close>

definition ValidateTranslations :: "string list \<Rightarrow> (string \<Rightarrow> string list) \<Rightarrow> 'f i18n_manager \<Rightarrow> string list" where
  "ValidateTranslations langs keys im =
     (case im_translations im (im_defaultLang im) of
        None \<Rightarrow> [''Default language '' @ im_defaultLang im @ '' not found'']
      | Some defaults \<Rightarrow>
          concat (map (\<lambda>lang.
             if lang = im_defaultLang im then []
             else concat (map (\<lambda>key. if table_of lang im key = None then [''Missing translation: '' @ key @ '' in '' @ lang] else []) (keys lang))) langs))"

subsection \<open>Errors, currencies and times\<close>

record 'd localized_error =
  le_MessageID :: string
  le_LangCode :: string
  le_data :: "'d option"

definition NewLocalizedError :: "string \<Rightarrow> string \<Rightarrow> 'd option \<Rightarrow> 'd localized_error" where
  "NewLocalizedError langCode messageID data = \<lparr>le_MessageID = messageID, le_LangCode = langCode, le_data = data\<rparr>"

definition LocalizedError_Error :: "('f, 'd) i18n_lib \<Rightarrow> 'f i18n_manager \<Rightarrow> 'd localized_error \<Rightarrow> string" where
  "LocalizedError_Error lib im le = Translate lib (le_LangCode le) (le_MessageID le) (le_data le) im"

definition currency_symbols :: "(string \<times> (string \<times> string) list) list" where
  "currency_symbols = [(''gold'', [(''en'', ''Gold''), (''zh-CN'', utf8 [0xE9, 0x87, 0x91, 0xE5, 0xB8, 0x81]), (''ja'', utf8 [0xE3, 0x82, 0xB4, 0xE3, 0x83, 0xBC, 0xE3, 0x83, 0xAB, 0xE3, 0x83, 0x89])]),
     (''diamond'', [(''en'', ''Diamond''), (''zh-CN'', utf8 [0xE9, 0x92, 0xBB, 0xE7, 0x9F, 0xB3]), (''ja'', utf8 [0xE3, 0x83, 0x80, 0xE3, 0x82, 0xA4, 0xE3, 0x83, 0xA4])])]"

definition getCurrencySymbol :: "string \<Rightarrow> string \<Rightarrow> string" where
  "getCurrencySymbol currency langCode =
     (case map_of currency_symbols currency of
        None \<Rightarrow> currency
      | Some symbols \<Rightarrow> (case map_of symbols langCode of Some s \<Rightarrow> s | None \<Rightarrow> (case map_of symbols ''en'' of Some s \<Rightarrow> s | None \<Rightarrow> [])))"

text \<open>\<open>formatted\<close> is the amount as the printer of the language writes it.\<close>

definition FormatCurrency :: "string \<Rightarrow> string \<Rightarrow> string \<Rightarrow> string" where
  "FormatCurrency langCode formatted currency =
     (if langCode = ''zh-CN'' then formatted @ getCurrencySymbol currency ''zh-CN''
      else if langCode = ''ja'' then formatted @ getCurrencySymbol currency ''ja''
      else getCurrencySymbol currency ''en'' @ '' '' @ formatted)"

definition time_formats :: "(string \<times> string) list" where
  "time_formats = [(''en'', ''2006-01-02 15:04:05''), (''zh-CN'', utf8 [0x32, 0x30, 0x30, 0x36, 0xE5, 0xB9, 0xB4, 0x30, 0x31, 0xE6, 0x9C, 0x88, 0x30, 0x32, 0xE6, 0x97, 0xA5, 0x20, 0x31, 0x35, 0x3A, 0x30, 0x34, 0x3A, 0x30, 0x35]), (''ja'', utf8 [0x32, 0x30, 0x30, 0x36, 0xE5, 0xB9, 0xB4, 0x30, 0x31, 0xE6, 0x9C, 0x88, 0x30, 0x32, 0xE6, 0x97, 0xA5, 0x20, 0x31, 0x35, 0x3A, 0x30, 0x34, 0x3A, 0x30, 0x35]), (''ko'', utf8 [0x32, 0x30, 0x30, 0x36, 0xEB, 0x85, 0x84, 0x20, 0x30, 0x31, 0xEC, 0x9B, 0x94, 0x20, 0x30, 0x32, 0xEC, 0x9D, 0xBC, 0x20, 0x31, 0x35, 0x3A, 0x30, 0x34, 0x3A, 0x30, 0x35])]"

definition time_format :: "string \<Rightarrow> string option" where
  "time_format langCode = (case map_of time_formats langCode of Some f \<Rightarrow> Some f | None \<Rightarrow> map_of time_formats ''en'')"

subsection \<open>Properties\<close>

lemma has_prefix_refl [simp]: "has_prefix s s"
  by (simp add: has_prefix_def)

definition related :: "string \<Rightarrow> string \<Rightarrow> bool" where
  "related lang supported \<longleftrightarrow> has_prefix lang supported \<or> has_prefix supported lang"

lemma match_supported_find: "match_supported lang ss = List.find (related lang) ss"
  by (induction ss) (auto simp: related_def)

lemma find_append: "List.find P (xs @ ys) = (case List.find P xs of Some x \<Rightarrow> Some x | None \<Rightarrow> List.find P ys)"
  by (induction xs) auto

lemma detect_in_candidates:
  "detect_in langs ss = (case concat (map (\<lambda>l. filter (related l) ss) langs) of [] \<Rightarrow> None | s # _ \<Rightarrow> Some s)"
proof (induction langs)
  case (Cons l langs)
  have f: "List.find (related l) ss = (case filter (related l) ss of [] \<Rightarrow> None | s # _ \<Rightarrow> Some s)"
    by (induction ss) auto
  show ?case using Cons by (cases "filter (related l) ss") (simp_all add: match_supported_find f)
qed simp

text \<open>
  the language of a client is the first pair of a language it asks for and a supported one of which one
  is a prefix of the other, in the order of the header and then of the supported languages, or the default
  language: quality values do not count, and an exact match does not come before a shorter language that is
  listed earlier.
\<close>

theorem detect_language_reference:
  "DetectLanguage header im =
     (case (if header = [] then [] else [s. l \<leftarrow> parseAcceptLanguage header, s \<leftarrow> im_languages im, related l s]) of
        [] \<Rightarrow> im_defaultLang im | s # _ \<Rightarrow> s)"
proof -
  have f: "concat (map (\<lambda>s. if related l s then [s] else []) ss) = filter (related l) ss" for l ss
    by (induction ss) auto
  define c where "c = concat (map (\<lambda>l. filter (related l) (im_languages im)) (parseAcceptLanguage header))"
  have "DetectLanguage header im = (if header = [] then im_defaultLang im else case c of [] \<Rightarrow> im_defaultLang im | s # _ \<Rightarrow> s)"
    unfolding DetectLanguage_def detect_in_candidates c_def [symmetric] by (simp split: list.split)
  then show ?thesis unfolding f c_def [symmetric] by simp
qed

lemma shorter_language_first: "detect_in [''zh-CN''] [''en'', ''zh'', ''zh-CN''] = Some ''zh''"
  by (simp add: has_prefix_def)

text \<open>What is imported or updated is exported again, and nothing of the other languages changes.\<close>

lemma import_export:
  "ExportTranslations lang (ImportTranslations lang new im) = Inr (table_of lang im ++ new)"
  "lang' \<noteq> lang \<Longrightarrow> ExportTranslations lang' (ImportTranslations lang new im) = ExportTranslations lang' im"
  "ExportTranslations lang (UpdateTranslation lang key text im) = Inr ((table_of lang im)(key \<mapsto> text))"
  by (simp_all add: ExportTranslations_def ImportTranslations_def UpdateTranslation_def reloadLocalizer_def)

lemma validate_complete:
  assumes "im_translations im (im_defaultLang im) = Some defaults" and "\<And>lang. set (keys lang) = dom defaults"
  shows "ValidateTranslations langs keys im = [] \<longleftrightarrow> (\<forall>lang \<in> set langs. dom defaults \<subseteq> dom (table_of lang im))"
proof -
  have "table_of (im_defaultLang im) im = defaults" using assms(1) by (simp add: table_of_def)
  have c: "concat (map f xs) = [] \<longleftrightarrow> (\<forall>x \<in> set xs. f x = [])" for f :: "string \<Rightarrow> string list" and xs by auto
  have "ValidateTranslations langs keys im = [] \<longleftrightarrow>
      (\<forall>lang \<in> set langs. lang = im_defaultLang im \<or> (\<forall>k \<in> set (keys lang). table_of lang im k \<noteq> None))"
    unfolding ValidateTranslations_def assms(1) option.case c by (intro ball_cong) (auto simp del: concat_eq_Nil_conv simp: c split: if_splits)
  also have "\<dots> \<longleftrightarrow> (\<forall>lang \<in> set langs. lang = im_defaultLang im \<or> dom defaults \<subseteq> dom (table_of lang im))"
    unfolding assms(2) by blast
  finally show ?thesis using \<open>table_of (im_defaultLang im) im = defaults\<close> by (metis subset_refl)
qed

datatype table_call = UpdateT string string string | ImportT string "string \<Rightarrow> string option"

fun table_step :: "table_call \<Rightarrow> 'f i18n_manager \<Rightarrow> 'f i18n_manager" where
  "table_step (UpdateT lang key text) im = UpdateTranslation lang key text im"
| "table_step (ImportT lang new) im = ImportTranslations lang new im"

text \<open>
  updates of translations are never shown: whatever is updated or imported, what \<^verbatim>\<open>Translate\<close> answers
  for a language that was loaded stays as it was, since the localizers read the files of the bundle and
  nothing reads the table but the export.
\<close>

theorem updates_not_shown:
  assumes "im_localizers im lang"
  shows "Translate lib lang key data (fold table_step calls im) = Translate lib lang key data im"
proof -
  have "im_localizers (fold table_step calls im) lang \<and> im_bundle (fold table_step calls im) = im_bundle im" using assms
  proof (induction calls arbitrary: im)
    case (Cons c calls)
    have "im_localizers (table_step c im) lang \<and> im_bundle (table_step c im) = im_bundle im"
      using Cons.prems by (cases c) (auto simp: UpdateTranslation_def ImportTranslations_def reloadLocalizer_def)
    with Cons.IH [of "table_step c im"] show ?case by simp
  qed simp
  with assms show ?thesis by (simp add: Translate_def)
qed

definition demo_lib :: "(unit, unit) i18n_lib" where
  "demo_lib = \<lparr>il_valid = (\<lambda>_. True), il_load = (\<lambda>_ f. (f, None)), il_create = (\<lambda>_ _ f. (f, None)),
     il_localize = (\<lambda>_ l k _. if k = ''success.login'' then Inr ''Login successful'' else Inl ''not found'')\<rparr>"

theorem updates_not_shown_witness:
  "Translate demo_lib ''en'' ''success.login'' None (fold table_step [UpdateT ''en'' ''success.login'' ''Welcome''] (NewI18nManager demo_lib ''en'' ())) =
     ''Login successful''"
proof -
  have "im_localizers (NewI18nManager demo_lib ''en'' ()) ''en''" by (simp add: NewI18nManager_def LoadLanguage_def loaded_def demo_lib_def)
  moreover have "Translate demo_lib ''en'' ''success.login'' None (NewI18nManager demo_lib ''en'' ()) = ''Login successful''"
    by (simp add: Translate_def demo_lib_def NewI18nManager_def LoadLanguage_def loaded_def)
  ultimately show ?thesis by (simp only: updates_not_shown)
qed

end
