(* ===== verification/Enhanced.thy ===== *)
theory Enhanced
  imports Gameplay Security I18n Protocol
begin

text \<open>
  \<^verbatim>\<open>server/enhanced_server.go\<close>: the RPC handlers of the enhanced game server over the gameplay manager, the
  security manager and the languages, with the checks of requests and their parameters, and the guard of
  its profiling endpoint. JSON, \<^verbatim>\<open>net.ParseIP\<close>, the lower-case table of Unicode and the conversion of a
  floating point number outside the range of \<^verbatim>\<open>uint64\<close> are parameters; the metrics are only counted.
\<close>

subsection \<open>Requests\<close>

datatype json_value = JNull | JString string | JNumber rat | JOther nat

type_synonym params = "(string \<times> json_value) list"

datatype reply_data =
    RoomId u64
  | ActionResult "json_value game_result"
  | RoomState "json_value game_room"
  | TokenUser
  | SecurityData int int int int
  | Metrics int
  | NoAlerts
  | ReloadDone string string

record ('f, 'd) enhanced_deps =
  eh_parseIP :: "string \<Rightarrow> byte list option"
  eh_lower :: "string \<Rightarrow> string"
  eh_to_u64 :: "rat \<Rightarrow> u64"
  eh_unmarshal :: "byte list \<Rightarrow> string + params"
  eh_marshal :: "reply_data \<Rightarrow> string + byte list"
  eh_lib :: "('f, 'd) i18n_lib"

record 'f enhanced =
  eg_gameplay :: "json_value manager"
  eg_security :: security_manager
  eg_i18n :: "'f i18n_manager"

definition float_to_u64 :: "('f, 'd) enhanced_deps \<Rightarrow> rat \<Rightarrow> u64" where
  "float_to_u64 deps x = (if 0 \<le> x \<and> x < 2 ^ 64 then of_int \<lfloor>x\<rfloor> else eh_to_u64 deps x)"

text \<open>Every client is served in English.\<close>

definition detectLanguage :: "base_request \<Rightarrow> string" where
  "detectLanguage req = ''en''"

definition createSuccessResponse :: "('f, 'd) enhanced_deps \<Rightarrow> base_request \<Rightarrow> string \<Rightarrow> reply_data option \<Rightarrow> 'f enhanced \<Rightarrow> string + base_response" where
  "createSuccessResponse deps req messageID data s =
     (let message = Translate (eh_lib deps) (detectLanguage req) messageID None (eg_i18n s)
      in case data of
           None \<Rightarrow> Inr (reply req 0 message)
         | Some d \<Rightarrow> (case eh_marshal deps d of
               Inl err \<Rightarrow> Inl (''failed to marshal response data: '' @ err)
             | Inr bytes \<Rightarrow> Inr \<lparr>bp_Header = br_Header req, bp_Code = 0, bp_Msg = message, bp_Data = bytes\<rparr>))"

definition createErrorResponse :: "('f, 'd) enhanced_deps \<Rightarrow> base_request \<Rightarrow> int \<Rightarrow> string \<Rightarrow> 'f enhanced \<Rightarrow> string + base_response" where
  "createErrorResponse deps req code messageID s =
     Inr (reply req code (Translate (eh_lib deps) (detectLanguage req) messageID None (eg_i18n s)))"

text \<open>A request without a header dereferences a nil pointer.\<close>

definition validateRequest :: "base_request \<Rightarrow> (string + session) outcome" where
  "validateRequest req =
     (case br_Header req of
        None \<Rightarrow> Panic
      | Some h \<Rightarrow> if mh_SessionId h = [] then Ret (Inl ''missing session token'')
          else Ret (Inr \<lparr>se_UserID = mh_UserId h, se_Token = [], se_CreatedAt = 0, se_LastActivity = 0, se_IP = [], se_UserAgent = [],
                 se_Permissions = [''user'']\<rparr>))"

definition hasPermission :: "session \<Rightarrow> string \<Rightarrow> bool" where
  "hasPermission session permission \<longleftrightarrow> list_ex (\<lambda>perm. perm = permission \<or> perm = ''admin'') (se_Permissions session)"

fun contains_sub :: "string \<Rightarrow> string \<Rightarrow> bool" where
  "contains_sub [] p \<longleftrightarrow> p = []"
| "contains_sub (c # cs) p \<longleftrightarrow> has_prefix (c # cs) p \<or> contains_sub cs p"

definition suspiciousPatterns :: "string list" where
  "suspiciousPatterns = [''<script'', ''</script>'', ''javascript:'', ''onload='', ''onerror='', ''SELECT'', ''INSERT'', ''UPDATE'', ''DELETE'', ''DROP'',
     ''UNION'', ''--'', ''/*'', ''*/'', [char_of (39 :: nat)], [char_of (34 :: nat)]]"

definition containsSuspiciousContent :: "('f, 'd) enhanced_deps \<Rightarrow> string \<Rightarrow> bool" where
  "containsSuspiciousContent deps content \<longleftrightarrow> list_ex (\<lambda>p. contains_sub (eh_lower deps content) (eh_lower deps p)) suspiciousPatterns"

definition param_ok :: "('f, 'd) enhanced_deps \<Rightarrow> string \<times> json_value \<Rightarrow> bool" where
  "param_ok deps kv \<longleftrightarrow> length (fst kv) \<le> 100 \<and>
     (case snd kv of
        JString str \<Rightarrow> length str \<le> 10000 \<and> \<not> containsSuspiciousContent deps str
      | JNumber num \<Rightarrow> - (10 ^ 15) \<le> num \<and> num \<le> 10 ^ 15
      | _ \<Rightarrow> True)"

text \<open>The text of the error, which depends on the order of the parameters, is not used by the callers.\<close>

definition validateAndSanitizeParams :: "('f, 'd) enhanced_deps \<Rightarrow> params \<Rightarrow> bool" where
  "validateAndSanitizeParams deps params \<longleftrightarrow> length params \<le> 50 \<and> list_all (param_ok deps) params"

definition parseRequestParams :: "('f, 'd) enhanced_deps \<Rightarrow> base_request \<Rightarrow> params option" where
  "parseRequestParams deps req =
     (if br_Data req = [] then Some []
      else case eh_unmarshal deps (br_Data req) of
        Inl _ \<Rightarrow> None
      | Inr params \<Rightarrow> if validateAndSanitizeParams deps params then Some params else None)"

subsection \<open>Room handlers\<close>

type_synonym answer = "(string + base_response) outcome"

text \<open>What every handler does first.\<close>

definition with_session :: "('f, 'd) enhanced_deps \<Rightarrow> base_request \<Rightarrow> 'f enhanced \<Rightarrow> (session \<Rightarrow> 'f enhanced \<times> answer) \<Rightarrow> 'f enhanced \<times> answer" where
  "with_session deps req s body =
     (case validateRequest req of
        Panic \<Rightarrow> (s, Panic)
      | Ret (Inl _) \<Rightarrow> (s, Ret (createErrorResponse deps req (- 1) ''security_validation_failed'' s))
      | Ret (Inr session) \<Rightarrow> body session)"

definition with_params :: "('f, 'd) enhanced_deps \<Rightarrow> base_request \<Rightarrow> 'f enhanced \<Rightarrow> (session \<Rightarrow> params \<Rightarrow> 'f enhanced \<times> answer) \<Rightarrow> 'f enhanced \<times> answer" where
  "with_params deps req s body = with_session deps req s (\<lambda>session.
     case parseRequestParams deps req of
       None \<Rightarrow> (s, Ret (createErrorResponse deps req (- 2) ''invalid_request_params'' s))
     | Some params \<Rightarrow> body session params)"

definition with_room :: "('f, 'd) enhanced_deps \<Rightarrow> base_request \<Rightarrow> 'f enhanced \<Rightarrow> (session \<Rightarrow> params \<Rightarrow> u64 \<Rightarrow> 'f enhanced \<times> answer) \<Rightarrow> 'f enhanced \<times> answer" where
  "with_room deps req s body = with_params deps req s (\<lambda>session params.
     case map_of params ''room_id'' of
       Some (JNumber x) \<Rightarrow> body session params (float_to_u64 deps x)
     | _ \<Rightarrow> (s, Ret (createErrorResponse deps req (- 3) ''missing_room_id'' s)))"

definition enhanced_config :: room_config where
  "enhanced_config = \<lparr>rc_MaxPlayers = 2, rc_MinPlayers = 2, rc_RoomPassword = [], rc_AutoStart = True, rc_TimeLimit = 30 * 60 * second\<rparr>"

definition Enhanced_CreateRoom :: "('f, 'd) enhanced_deps \<Rightarrow> time \<Rightarrow> base_request \<Rightarrow> 'f enhanced \<Rightarrow> 'f enhanced \<times> answer" where
  "Enhanced_CreateRoom deps now req s = with_session deps req s (\<lambda>session.
     case CheckIPSecurity (eh_parseIP deps) now (se_IP session) (sm_blacklist (eg_security s)) of
       (bl, Some _) \<Rightarrow> (s\<lparr>eg_security := (eg_security s)\<lparr>sm_blacklist := bl\<rparr>\<rparr>,
          Ret (createErrorResponse deps req (- 2) ''rate_limit_exceeded'' s))
     | (bl, None) \<Rightarrow>
         (let s1 = s\<lparr>eg_security := (eg_security s)\<lparr>sm_blacklist := bl\<rparr>\<rparr> in
          case CreateRoom now ''card_game'' (Some enhanced_config) (eg_gameplay s1) of
            (gm, Inl _) \<Rightarrow> (s1\<lparr>eg_gameplay := gm\<rparr>, Ret (createErrorResponse deps req (- 3) ''room_creation_failed'' s))
          | (gm, Inr room) \<Rightarrow> (s1\<lparr>eg_gameplay := gm\<rparr>, Ret (createSuccessResponse deps req ''success.room_created'' (Some (RoomId (rm_ID room))) s))))"

definition joining_player :: "session \<Rightarrow> params \<Rightarrow> player" where
  "joining_player session params = \<lparr>pl_UserID = se_UserID session,
     pl_Nickname = (case map_of params ''nickname'' of Some (JString n) \<Rightarrow> n | _ \<Rightarrow> ''Player''), pl_Level = 1, pl_Position = 0,
     pl_Status = PlayerStatusWaiting, pl_Score = 0, pl_JoinTime = 0\<rparr>"

definition Enhanced_JoinRoom :: "('f, 'd) enhanced_deps \<Rightarrow> time \<Rightarrow> base_request \<Rightarrow> 'f enhanced \<Rightarrow> 'f enhanced \<times> answer" where
  "Enhanced_JoinRoom deps now req s = with_room deps req s (\<lambda>session params roomID.
     case JoinRoom now roomID (joining_player session params) (eg_gameplay s) of
       (gm, Panic) \<Rightarrow> (s\<lparr>eg_gameplay := gm\<rparr>, Panic)
     | (gm, Ret (Some _)) \<Rightarrow> (s\<lparr>eg_gameplay := gm\<rparr>, Ret (createErrorResponse deps req (- 4) ''join_room_failed'' s))
     | (gm, Ret None) \<Rightarrow> (s\<lparr>eg_gameplay := gm\<rparr>, Ret (createSuccessResponse deps req ''success.room_joined'' (Some (RoomId roomID)) s)))"

definition Enhanced_LeaveRoom :: "('f, 'd) enhanced_deps \<Rightarrow> time \<Rightarrow> base_request \<Rightarrow> 'f enhanced \<Rightarrow> 'f enhanced \<times> answer" where
  "Enhanced_LeaveRoom deps now req s = with_room deps req s (\<lambda>session params roomID.
     case LeaveRoom now roomID (se_UserID session) (eg_gameplay s) of
       (gm, Some _) \<Rightarrow> (s\<lparr>eg_gameplay := gm\<rparr>, Ret (createErrorResponse deps req (- 4) ''leave_room_failed'' s))
     | (gm, None) \<Rightarrow> (s\<lparr>eg_gameplay := gm\<rparr>, Ret (createSuccessResponse deps req ''success.room_left'' None s)))"

definition Enhanced_GameAction :: "('f, 'd) enhanced_deps \<Rightarrow> time \<Rightarrow> base_request \<Rightarrow> 'f enhanced \<Rightarrow> 'f enhanced \<times> answer" where
  "Enhanced_GameAction deps now req s = with_room deps req s (\<lambda>session params roomID.
     case map_of params ''action_type'' of
       Some (JString actionType) \<Rightarrow>
         (let action = \<lparr>ga_Type = actionType, ga_PlayerID = se_UserID session,
                ga_Data = (case map_of params ''action_data'' of Some v \<Rightarrow> v | None \<Rightarrow> JNull), ga_Timestamp = now\<rparr>
          in case ProcessAction now roomID action (eg_gameplay s) of
               (gm, Panic) \<Rightarrow> (s\<lparr>eg_gameplay := gm\<rparr>, Panic)
             | (gm, Ret (Inl _)) \<Rightarrow> (s\<lparr>eg_gameplay := gm\<rparr>, Ret (createErrorResponse deps req (- 6) ''action_failed'' s))
             | (gm, Ret (Inr result)) \<Rightarrow>
                 (s\<lparr>eg_gameplay := gm\<rparr>, Ret (createSuccessResponse deps req ''success.action_processed'' (Some (ActionResult result)) s)))
     | _ \<Rightarrow> (s, Ret (createErrorResponse deps req (- 4) ''missing_action_type'' s)))"

definition Enhanced_GetRoomState :: "('f, 'd) enhanced_deps \<Rightarrow> base_request \<Rightarrow> 'f enhanced \<Rightarrow> 'f enhanced \<times> answer" where
  "Enhanced_GetRoomState deps req s = with_room deps req s (\<lambda>session params roomID.
     (s, Ret (case GetRoom roomID (eg_gameplay s) of
        None \<Rightarrow> createErrorResponse deps req (- 4) ''room_not_found'' s
      | Some room \<Rightarrow>
          (case GetPlayer (se_UserID session) room of
             None \<Rightarrow> createErrorResponse deps req (- 5) ''permission_denied'' s
           | Some _ \<Rightarrow> createSuccessResponse deps req ''success'' (Some (RoomState room)) s))))"

subsection \<open>Other handlers\<close>

definition Enhanced_ValidateToken :: "('f, 'd) enhanced_deps \<Rightarrow> base_request \<Rightarrow> 'f enhanced \<Rightarrow> answer" where
  "Enhanced_ValidateToken deps req s =
     (case br_Header req of
        None \<Rightarrow> Panic
      | Some h \<Rightarrow> Ret (if mh_SessionId h = [] then createErrorResponse deps req (- 1) ''error.missing_token'' s
          else createSuccessResponse deps req ''success.token_valid'' (Some TokenUser) s))"

text \<open>\<^verbatim>\<open>GetSecurityMetrics\<close> of \<^verbatim>\<open>security/security.go\<close>.\<close>

definition GetSecurityMetrics :: "time \<Rightarrow> security_manager \<Rightarrow> reply_data" where
  "GetSecurityMetrics now sm = SecurityData (int (card (dom (sm_blacklist sm)))) (int (card (dom (am_sessions (sm_auth sm)))))
     (int (card (dom (sm_rateLimit sm)))) (time_unix now)"

definition CheckSecurity :: "('f, 'd) enhanced_deps \<Rightarrow> time \<Rightarrow> base_request \<Rightarrow> 'f enhanced \<Rightarrow> answer" where
  "CheckSecurity deps now req s = Ret (createSuccessResponse deps req ''success'' (Some (GetSecurityMetrics now (eg_security s))) s)"

definition with_admin :: "('f, 'd) enhanced_deps \<Rightarrow> base_request \<Rightarrow> 'f enhanced \<Rightarrow> (session \<Rightarrow> string + base_response) \<Rightarrow> answer" where
  "with_admin deps req s body = snd (with_session deps req s (\<lambda>session.
     (s, Ret (if \<not> hasPermission session ''admin'' then createErrorResponse deps req (- 2) ''permission_denied'' s else body session))))"

definition GetMetrics :: "('f, 'd) enhanced_deps \<Rightarrow> time \<Rightarrow> base_request \<Rightarrow> 'f enhanced \<Rightarrow> answer" where
  "GetMetrics deps now req s = with_admin deps req s (\<lambda>session. createSuccessResponse deps req ''success'' (Some (Metrics (time_unix now))) s)"

definition GetAlerts :: "('f, 'd) enhanced_deps \<Rightarrow> base_request \<Rightarrow> 'f enhanced \<Rightarrow> answer" where
  "GetAlerts deps req s = with_admin deps req s (\<lambda>session. createSuccessResponse deps req ''success'' (Some NoAlerts) s)"

definition string_param :: "params \<Rightarrow> string \<Rightarrow> string \<Rightarrow> string" where
  "string_param params key fallback = (case map_of params key of Some (JString s) \<Rightarrow> s | _ \<Rightarrow> fallback)"

definition HotReload :: "('f, 'd) enhanced_deps \<Rightarrow> base_request \<Rightarrow> 'f enhanced \<Rightarrow> answer" where
  "HotReload deps req s = with_admin deps req s (\<lambda>session.
     case parseRequestParams deps req of
       None \<Rightarrow> createErrorResponse deps req (- 3) ''invalid_request_params'' s
     | Some params \<Rightarrow>
         (let updateType = string_param params ''update_type'' ''config''; moduleName = string_param params ''module_name'' ''game_config''
          in if updateType \<in> {''config'', ''script'', ''gameplay''}
             then createSuccessResponse deps req ''success.hot_reload'' (Some (ReloadDone updateType moduleName)) s
             else createErrorResponse deps req (- 7) ''unsupported_update_type'' s))"

subsection \<open>The guard of the profiling endpoint\<close>

text \<open>
  \<open>cidr c ip\<close> is whether a valid range contains the address, \<open>None\<close> for a range that cannot be read;
  \<open>split_host\<close> is \<^verbatim>\<open>net.SplitHostPort\<close>.
\<close>

definition monitoringSourceAllowed :: "(string \<Rightarrow> string option) \<Rightarrow> (string \<Rightarrow> byte list option) \<Rightarrow> (string \<Rightarrow> byte list \<Rightarrow> bool option) \<Rightarrow>
    string list \<Rightarrow> string \<Rightarrow> bool" where
  "monitoringSourceAllowed split_host parseIP cidr allowedCIDRs remoteAddr =
     (case parseIP (case split_host remoteAddr of Some host \<Rightarrow> host | None \<Rightarrow> remoteAddr) of
        None \<Rightarrow> False
      | Some ip \<Rightarrow> list_ex (\<lambda>c. cidr c ip = Some True) (if allowedCIDRs = [] then [''127.0.0.1/32'', ''::1/128''] else allowedCIDRs))"

text \<open>The status of the refusal, \<open>None\<close> when the request is served.\<close>

definition pprofAuthMiddleware :: "bool \<Rightarrow> (string \<Rightarrow> string) \<Rightarrow> string \<Rightarrow> string \<Rightarrow> string \<Rightarrow> int option" where
  "pprofAuthMiddleware source_allowed env adminTokenEnv header_token query_token =
     (if \<not> source_allowed then Some 403
      else
        let expected = env (if adminTokenEnv = [] then ''TRIBEWAY_MONITORING_ADMIN_TOKEN'' else adminTokenEnv);
            token = (if header_token = [] then query_token else header_token)
        in if expected = [] then Some 503 else if token \<noteq> expected then Some 401 else None)"

text \<open>The security middleware: \<open>input_ok\<close> is the error of the validator of the request, if any.\<close>

definition Middleware_ValidateRequest :: "(string \<Rightarrow> byte list option) \<Rightarrow> time \<Rightarrow> string option \<Rightarrow> base_request \<Rightarrow> string \<Rightarrow> security_manager \<Rightarrow>
    security_manager \<times> string option outcome" where
  "Middleware_ValidateRequest parseIP now input_error req clientIP sm =
     (case CheckIPSecurity parseIP now clientIP (sm_blacklist sm) of
        (bl, Some err) \<Rightarrow> (sm\<lparr>sm_blacklist := bl\<rparr>, Ret (Some (''IP security check failed: '' @ err)))
      | (bl, None) \<Rightarrow> (sm\<lparr>sm_blacklist := bl\<rparr>,
          if br_Header req = None then Panic else Ret (map_option (\<lambda>err. ''input validation failed: '' @ err) input_error)))"

subsection \<open>Runs\<close>

datatype enhanced_call =
    EhCreateRoom | EhJoinRoom | EhLeaveRoom | EhGameAction | EhGetRoomState | EhValidateToken | EhCheckSecurity | EhGetMetrics | EhGetAlerts | EhHotReload

text \<open>The method of an RPC call by its name, as \<^verbatim>\<open>RegisterMethods\<close> binds it.\<close>

fun enhanced_step :: "('f, 'd) enhanced_deps \<Rightarrow> enhanced_call \<times> time \<times> base_request \<Rightarrow> 'f enhanced \<Rightarrow> 'f enhanced \<times> answer" where
  "enhanced_step deps (EhCreateRoom, now, req) s = Enhanced_CreateRoom deps now req s"
| "enhanced_step deps (EhJoinRoom, now, req) s = Enhanced_JoinRoom deps now req s"
| "enhanced_step deps (EhLeaveRoom, now, req) s = Enhanced_LeaveRoom deps now req s"
| "enhanced_step deps (EhGameAction, now, req) s = Enhanced_GameAction deps now req s"
| "enhanced_step deps (EhGetRoomState, now, req) s = Enhanced_GetRoomState deps req s"
| "enhanced_step deps (EhValidateToken, now, req) s = (s, Enhanced_ValidateToken deps req s)"
| "enhanced_step deps (EhCheckSecurity, now, req) s = (s, CheckSecurity deps now req s)"
| "enhanced_step deps (EhGetMetrics, now, req) s = (s, GetMetrics deps now req s)"
| "enhanced_step deps (EhGetAlerts, now, req) s = (s, GetAlerts deps req s)"
| "enhanced_step deps (EhHotReload, now, req) s = (s, HotReload deps req s)"

definition enhanced_run :: "('f, 'd) enhanced_deps \<Rightarrow> (enhanced_call \<times> time \<times> base_request) list \<Rightarrow> 'f enhanced \<Rightarrow> 'f enhanced" where
  "enhanced_run deps cs s = fold (\<lambda>c s. fst (enhanced_step deps c s)) cs s"

text \<open>An answer of success.\<close>

definition served :: "answer \<Rightarrow> bool" where
  "served a \<longleftrightarrow> (\<exists>resp. a = Ret (Inr resp) \<and> bp_Code resp = 0)"

lemma not_served [simp]: "\<not> served Panic" "code \<noteq> 0 \<Longrightarrow> \<not> served (Ret (createErrorResponse deps req code k s))"
  by (simp_all add: served_def createErrorResponse_def)

text \<open>The session of a request is of the user its header names, with any token.\<close>

lemma sessionE:
  assumes "validateRequest req = Ret (Inr session)"
  obtains h where "br_Header req = Some h" "se_UserID session = mh_UserId h" "se_IP session = []" "\<not> hasPermission session ''admin''"
  using assms that by (auto simp: validateRequest_def hasPermission_def split: option.splits if_splits)

lemma with_session_cases:
  assumes "with_session deps req s body = (s', a)"
  obtains "s' = s" "\<not> served a" | session where "validateRequest req = Ret (Inr session)" "body session = (s', a)"
  using assms by (auto simp: with_session_def split: outcome.splits sum.splits)

lemma with_room_cases:
  assumes "with_room deps req s body = (s', a)"
  obtains "s' = s" "\<not> served a" | session params i where "validateRequest req = Ret (Inr session)" "body session params i = (s', a)"
  using assms unfolding with_room_def with_params_def
  by (elim with_session_cases) (auto split: option.splits json_value.splits)

lemma admin_refused: "\<not> served (with_admin deps req s body)"
proof -
  obtain s' a where w: "with_session deps req s (\<lambda>session.
     (s, Ret (if \<not> hasPermission session ''admin'' then createErrorResponse deps req (- 2) ''permission_denied'' s else body session))) = (s', a)" by fastforce
  from w have "\<not> served a" by (cases rule: with_session_cases) (auto elim: sessionE)
  with w show ?thesis by (simp add: with_admin_def)
qed

text \<open>Only members see the state of a room.\<close>

lemma room_state_members_only:
  assumes "Enhanced_GetRoomState deps req s = (s', a)" and "served a"
  shows "\<exists>h i room p. br_Header req = Some h \<and> GetRoom i (eg_gameplay s) = Some room \<and> GetPlayer (mh_UserId h) room = Some p"
  using assms(1) unfolding Enhanced_GetRoomState_def
proof (cases rule: with_room_cases)
  case (2 session params i)
  from 2(1) obtain h where "br_Header req = Some h" "se_UserID session = mh_UserId h" by (rule sessionE)
  with 2(2) assms(2) show ?thesis by (auto split: option.splits)
qed (use assms(2) in simp)

lemma step_without_rooms:
  assumes "eh_parseIP deps [] = None" and "gm_rooms (eg_gameplay s) = []"
  shows "gm_rooms (eg_gameplay (fst (enhanced_step deps c s))) = [] \<and>
    (served (snd (enhanced_step deps c s)) \<longrightarrow> fst c \<in> {EhValidateToken, EhCheckSecurity})"
proof -
  obtain m now req where c: "c = (m, now, req)" by (metis prod_cases3)
  obtain s' a where e: "enhanced_step deps c s = (s', a)" by fastforce
  have "gm_rooms (eg_gameplay s') = [] \<and> (served a \<longrightarrow> m \<in> {EhValidateToken, EhCheckSecurity})"
  proof (cases m)
    case EhCreateRoom
    with c e have "Enhanced_CreateRoom deps now req s = (s', a)" by simp
    then show ?thesis unfolding Enhanced_CreateRoom_def
    proof (cases rule: with_session_cases)
      case (2 session)
      from 2(1) have "se_IP session = []" by (rule sessionE)
      with 2(2) assms show ?thesis by (auto simp: CheckIPSecurity_def split: prod.splits bool.splits)
    qed (use assms in simp)
  next
    case EhJoinRoom
    with c e have "Enhanced_JoinRoom deps now req s = (s', a)" by simp
    then show ?thesis unfolding Enhanced_JoinRoom_def
      by (cases rule: with_room_cases) (use assms in \<open>auto simp: JoinRoom_def\<close>)
  next
    case EhLeaveRoom
    with c e have "Enhanced_LeaveRoom deps now req s = (s', a)" by simp
    then show ?thesis unfolding Enhanced_LeaveRoom_def
      by (cases rule: with_room_cases) (use assms in \<open>auto simp: LeaveRoom_def\<close>)
  next
    case EhGameAction
    with c e have "Enhanced_GameAction deps now req s = (s', a)" by simp
    then show ?thesis unfolding Enhanced_GameAction_def
      by (cases rule: with_room_cases) (use assms in \<open>auto simp: ProcessAction_def Let_def split: option.splits json_value.splits\<close>)
  next
    case EhGetRoomState
    with c e have "Enhanced_GetRoomState deps req s = (s', a)" by simp
    then show ?thesis unfolding Enhanced_GetRoomState_def
      by (cases rule: with_room_cases) (use assms in \<open>auto simp: GetRoom_def\<close>)
  qed (use c e assms in \<open>auto simp: GetMetrics_def GetAlerts_def HotReload_def admin_refused\<close>)
  with c e show ?thesis by simp
qed

text \<open>
  C34: the enhanced game server serves no game: after any run from a state without rooms there is still no
  room, and no request is answered with success but \<^verbatim>\<open>ValidateToken\<close>, which accepts every token, and
  \<^verbatim>\<open>CheckSecurity\<close>. \<^verbatim>\<open>CreateRoom\<close> checks the address of a session that never has one, and the empty text is no
  address; the administrator's methods ask for a permission that no session has.
\<close>

theorem enhanced_serves_nothing:
  assumes "eh_parseIP deps [] = None" and "gm_rooms (eg_gameplay s) = []"
  shows "gm_rooms (eg_gameplay (enhanced_run deps cs s)) = [] \<and>
    (served (snd (enhanced_step deps c (enhanced_run deps cs s))) \<longrightarrow> fst c \<in> {EhValidateToken, EhCheckSecurity})"
proof -
  have "gm_rooms (eg_gameplay (enhanced_run deps cs s)) = []" using assms(2)
  proof (induction cs arbitrary: s)
    case (Cons c cs)
    with step_without_rooms [OF assms(1) Cons.prems, of c] show ?case by (simp add: enhanced_run_def)
  qed (simp add: enhanced_run_def)
  with step_without_rooms [OF assms(1) this, of c] show ?thesis by simp
qed

definition demo_enhanced_deps :: "(unit, unit) enhanced_deps" where
  "demo_enhanced_deps = \<lparr>eh_parseIP = (\<lambda>s. if s = [] then None else Some [127, 0, 0, 1]), eh_lower = (\<lambda>s. s), eh_to_u64 = (\<lambda>_. 0),
     eh_unmarshal = (\<lambda>_. Inr []), eh_marshal = (\<lambda>_. Inr []), eh_lib = demo_lib\<rparr>"

definition demo_enhanced :: "unit enhanced" where
  "demo_enhanced = \<lparr>eg_gameplay = card_manager, eg_security = \<lparr>sm_key = [], sm_auth = NewAuthManager [] 0, sm_rateLimit = Map.empty,
     sm_blacklist = Map.empty, sm_antiCheat = NewAntiCheatSystem, sm_jwtSecret = []\<rparr>, eg_i18n = NewI18nManager demo_lib ''en'' ()\<rparr>"

definition demo_enhanced_request :: base_request where
  "demo_enhanced_request = \<lparr>br_Header = Some \<lparr>mh_MsgId = 0, mh_Seq = 0, mh_UserId = 7, mh_Timestamp = 0, mh_SessionId = ''any''\<rparr>, br_Data = []\<rparr>"

theorem enhanced_serves_nothing_witness:
  "\<not> served (snd (enhanced_step demo_enhanced_deps (EhCreateRoom, 0, demo_enhanced_request)
      (enhanced_run demo_enhanced_deps [(EhCreateRoom, 0, demo_enhanced_request)] demo_enhanced))) \<and>
   served (Enhanced_ValidateToken demo_enhanced_deps demo_enhanced_request demo_enhanced)"
proof -
  have "eh_parseIP demo_enhanced_deps [] = None" "gm_rooms (eg_gameplay demo_enhanced) = []"
    by (simp_all add: demo_enhanced_deps_def demo_enhanced_def card_manager_def RegisterModule_def NewGameplayManager_def NewCardGameModule_def)
  from enhanced_serves_nothing [OF this, of "[(EhCreateRoom, 0, demo_enhanced_request)]" "(EhCreateRoom, 0, demo_enhanced_request)"]
  show ?thesis
    by (auto simp: Enhanced_ValidateToken_def demo_enhanced_request_def createSuccessResponse_def demo_enhanced_deps_def served_def)
qed

end
