(* ===== verification/Audits.thy ===== *)
theory Audits
  imports Repository
begin

text \<open>
  \<^verbatim>\<open>database/audit.go\<close>: the audit log and the table of idempotent operations, whose documents the code keys
  itself by \<^verbatim>\<open>_id\<close>. The calls of the driver it uses are the record \<open>keyed_ops\<close>; the locale \<open>keyed_collection\<close>
  states their documented effects: the index on \<^verbatim>\<open>_id\<close> that every collection has, the error for a duplicate
  key, and the index of \<^verbatim>\<open>EnsureIndexes\<close> that lets the database delete an operation seven days after its last
  update.
\<close>

subsection \<open>Collections keyed by the code\<close>

datatype insert_result = Inserted | DuplicateKey string | InsertFailed string

record 'c keyed_ops =
  ko_InsertOne :: "doc \<Rightarrow> 'c \<Rightarrow> 'c \<times> insert_result"
  ko_UpdateOne :: "query \<Rightarrow> update_op list \<Rightarrow> 'c \<Rightarrow> 'c \<times> (string + nat)"
  ko_CreateIndex :: "string list \<Rightarrow> int option \<Rightarrow> 'c \<Rightarrow> 'c \<times> string option"
  ko_DropIndexes :: "'c \<Rightarrow> 'c \<times> string option"
  ko_Expire :: "time \<Rightarrow> 'c \<Rightarrow> 'c"

definition week :: duration where
  "week = 7 * 24 * 3600 * second"

definition expired :: "time \<Rightarrow> doc \<Rightarrow> bool" where
  "expired now e \<longleftrightarrow> (case get_time e ''updated_at'' of Some u \<Rightarrow> map_of e ''updated_at'' \<noteq> None \<and> u + week \<le> now | None \<Rightarrow> False)"

definition added :: "doc \<Rightarrow> doc list \<Rightarrow> doc list \<Rightarrow> bool" where
  "added d ds ds' \<longleftrightarrow> (\<exists>n. ds' = ds @ [with_id n d] \<and> (\<forall>e \<in> set ds. map_of e ''_id'' \<noteq> map_of (with_id n d) ''_id''))"

locale keyed_collection =
  fixes ops :: "'c keyed_ops" and docs :: "'c \<Rightarrow> doc list"
  assumes insert_one: "ko_InsertOne ops d c = (c', r) \<Longrightarrow> (case r of
      Inserted \<Rightarrow> added d (docs c) (docs c')
    | DuplicateKey _ \<Rightarrow> docs c' = docs c \<and> (\<exists>v. map_of d ''_id'' = Some v \<and> (\<exists>e \<in> set (docs c). map_of e ''_id'' = Some v))
    | InsertFailed _ \<Rightarrow> docs c' = docs c \<or> added d (docs c) (docs c'))"
    and update_one: "ko_UpdateOne ops q us c = (c', y) \<Longrightarrow> update_one_effect q us (docs c) (docs c') y"
    and create_index: "ko_CreateIndex ops ks ttl c = (c', x) \<Longrightarrow> docs c' = docs c"
    and expire: "\<exists>p. docs (ko_Expire ops now c) = filter p (docs c) \<and> (\<forall>e. \<not> p e \<longrightarrow> expired now e)"

subsection \<open>The repository\<close>

record audit_log =
  al_ID :: string
  al_RequestID :: string
  al_UserID :: u64
  al_Action :: string
  al_TargetID :: u64
  al_Status :: string
  al_Details :: doc
  al_CreatedAt :: time

record idempotent_operation =
  io_ID :: string
  io_Action :: string
  io_Status :: string
  io_Result :: "byte list"
  io_CreatedAt :: time
  io_UpdatedAt :: time

record 'c audit_repository =
  ar_audit :: 'c
  ar_idempotent :: 'c

definition encode_log :: "audit_log \<Rightarrow> doc" where
  "encode_log l = opt_str ''_id'' (al_ID l) @
     [(''request_id'', BStr (al_RequestID l)), (''user_id'', put_u64 (al_UserID l)), (''action'', BStr (al_Action l)),
      (''target_id'', put_u64 (al_TargetID l)), (''status'', BStr (al_Status l))] @
     (if al_Details l = [] then [] else [(''details'', BDoc (al_Details l))]) @ [(''created_at'', bson_time (al_CreatedAt l))]"

text \<open>Binary data as the list of its bytes.\<close>

definition put_bytes :: "byte list \<Rightarrow> bval" where
  "put_bytes bs = BArr (map (\<lambda>b. BInt (uint b)) bs)"

definition encode_operation :: "idempotent_operation \<Rightarrow> doc" where
  "encode_operation op = [(''_id'', BStr (io_ID op)), (''action'', BStr (io_Action op)), (''status'', BStr (io_Status op))] @
     (if io_Result op = [] then [] else [(''result'', put_bytes (io_Result op))]) @
     [(''created_at'', bson_time (io_CreatedAt op)), (''updated_at'', bson_time (io_UpdatedAt op))]"

definition insert_error :: "insert_result \<Rightarrow> string option" where
  "insert_error r = (case r of Inserted \<Rightarrow> None | DuplicateKey e \<Rightarrow> Some e | InsertFailed e \<Rightarrow> Some e)"

text \<open>\<^verbatim>\<open>Log\<close>: a nil log is refused, and the time of the caller's log is filled in.\<close>

definition Log :: "'c keyed_ops \<Rightarrow> time \<Rightarrow> audit_log option \<Rightarrow> 'c audit_repository \<Rightarrow> 'c audit_repository \<times> string option" where
  "Log ops now log r =
     (case log of
        None \<Rightarrow> (r, Some ''audit log is nil'')
      | Some l \<Rightarrow>
          (let (c, y) = ko_InsertOne ops (encode_log (if al_CreatedAt l = 0 then l\<lparr>al_CreatedAt := now\<rparr> else l)) (ar_audit r)
           in (r\<lparr>ar_audit := c\<rparr>, insert_error y)))"

definition BeginIdempotent :: "'c keyed_ops \<Rightarrow> time \<Rightarrow> string \<Rightarrow> string \<Rightarrow> 'c audit_repository \<Rightarrow> 'c audit_repository \<times> bool \<times> string option" where
  "BeginIdempotent ops now key action r =
     (let op = \<lparr>io_ID = key, io_Action = action, io_Status = ''processing'', io_Result = [], io_CreatedAt = now, io_UpdatedAt = now\<rparr>;
          (c, y) = ko_InsertOne ops (encode_operation op) (ar_idempotent r)
      in (r\<lparr>ar_idempotent := c\<rparr>,
          case y of Inserted \<Rightarrow> (True, None) | DuplicateKey _ \<Rightarrow> (False, None) | InsertFailed e \<Rightarrow> (False, Some e)))"

definition CompleteIdempotent :: "'c keyed_ops \<Rightarrow> time \<Rightarrow> string \<Rightarrow> byte list \<Rightarrow> 'c audit_repository \<Rightarrow> 'c audit_repository \<times> string option" where
  "CompleteIdempotent ops now key res r =
     (let (c, y) = ko_UpdateOne ops (QEq ''_id'' (BStr key))
            [USet [(''status'', BStr ''completed''), (''result'', put_bytes res), (''updated_at'', bson_time now)]] (ar_idempotent r)
      in (r\<lparr>ar_idempotent := c\<rparr>, case y of Inl e \<Rightarrow> Some e | Inr _ \<Rightarrow> None))"

definition EnsureIndexes :: "'c keyed_ops \<Rightarrow> 'c audit_repository \<Rightarrow> 'c audit_repository \<times> string option" where
  "EnsureIndexes ops r =
     (case ko_CreateIndex ops [''request_id'', ''action''] None (ar_audit r) of
        (c, Some err) \<Rightarrow> (r\<lparr>ar_audit := c\<rparr>, Some err)
      | (c, None) \<Rightarrow>
          (let (d, e) = ko_CreateIndex ops [''updated_at''] (Some (7 * 24 * 3600)) (ar_idempotent r)
           in (r\<lparr>ar_audit := c, ar_idempotent := d\<rparr>, e)))"

subsection \<open>Runs\<close>

datatype audit_event =
    BeginA time string string
  | CompleteA time string "byte list"
  | LogA time "audit_log option"
  | IndexA time
  | ExpireA time

fun event_time :: "audit_event \<Rightarrow> time" where
  "event_time (BeginA t k a) = t"
| "event_time (CompleteA t k b) = t"
| "event_time (LogA t l) = t"
| "event_time (IndexA t) = t"
| "event_time (ExpireA t) = t"

text \<open>A step, with the keys it has begun.\<close>

fun audit_step :: "'c keyed_ops \<Rightarrow> audit_event \<Rightarrow> 'c audit_repository \<Rightarrow> 'c audit_repository \<times> string option" where
  "audit_step ops (BeginA t key action) r = (let (r', ok, _) = BeginIdempotent ops t key action r in (r', if ok then Some key else None))"
| "audit_step ops (CompleteA t key res) r = (fst (CompleteIdempotent ops t key res r), None)"
| "audit_step ops (LogA t l) r = (fst (Log ops t l r), None)"
| "audit_step ops (IndexA t) r = (fst (EnsureIndexes ops r), None)"
| "audit_step ops (ExpireA t) r = (r\<lparr>ar_idempotent := ko_Expire ops t (ar_idempotent r)\<rparr>, None)"

fun audit_run :: "'c keyed_ops \<Rightarrow> audit_event list \<Rightarrow> 'c audit_repository \<Rightarrow> (time \<times> string) list" where
  "audit_run ops [] r = []"
| "audit_run ops (e # es) r =
     (case audit_step ops e r of
        (r', Some key) \<Rightarrow> (event_time e, key) # audit_run ops es r'
      | (r', None) \<Rightarrow> audit_run ops es r')"

text \<open>An operation is held since a time when its document is there and was updated then or later.\<close>

definition held_since :: "('c \<Rightarrow> doc list) \<Rightarrow> string \<Rightarrow> time \<Rightarrow> 'c \<Rightarrow> bool" where
  "held_since docs key t c \<longleftrightarrow> (\<exists>e \<in> set (docs c). map_of e ''_id'' = Some (BStr key) \<and> (\<exists>u \<ge> t. map_of e ''updated_at'' = Some (bson_time u)))"

lemma operation_fields [simp]:
  "map_of (encode_operation op) ''_id'' = Some (BStr (io_ID op))"
  "map_of (encode_operation op) ''updated_at'' = Some (bson_time (io_UpdatedAt op))"
  "with_id n (encode_operation op) = encode_operation op"
  by (simp_all add: encode_operation_def with_id_def)

lemma bson_time_mono: "s \<le> t \<Longrightarrow> trunc_ms s \<le> trunc_ms t" and trunc_near: "t - millisecond < trunc_ms t"
proof -
  show "s \<le> t \<Longrightarrow> trunc_ms s \<le> trunc_ms t"
    by (simp add: trunc_ms_def millisecond_def zdiv_mono1)
  have "(t - unix_epoch) mod millisecond < millisecond" by (simp add: millisecond_def)
  moreover have "(t - unix_epoch) div millisecond * millisecond + (t - unix_epoch) mod millisecond = t - unix_epoch" by (rule div_mult_mod_eq)
  ultimately show "t - millisecond < trunc_ms t" unfolding trunc_ms_def by linarith
qed

context keyed_collection
begin

lemma begins_when_free:
  assumes "BeginIdempotent ops now key action r = (r', ok, err)"
  shows "(ok \<longrightarrow> held_since docs key now (ar_idempotent r') \<and> \<not> held_since docs key t (ar_idempotent r)) \<and>
    (held_since docs key t (ar_idempotent r) \<longrightarrow> held_since docs key t (ar_idempotent r')) \<and>
    (held_since docs k t (ar_idempotent r) \<longrightarrow> held_since docs k t (ar_idempotent r'))"
proof -
  let ?op = "\<lparr>io_ID = key, io_Action = action, io_Status = ''processing'', io_Result = [], io_CreatedAt = now, io_UpdatedAt = now\<rparr>"
  obtain c y where i: "ko_InsertOne ops (encode_operation ?op) (ar_idempotent r) = (c, y)" by fastforce
  then have r': "ar_idempotent r' = c" "ok \<longleftrightarrow> y = Inserted"
    using assms by (auto simp: BeginIdempotent_def split: insert_result.splits)
  have keep: "held_since docs k t (ar_idempotent r) \<longrightarrow> held_since docs k t c" for k
    using insert_one [OF i] by (cases y) (auto simp: added_def held_since_def)
  have "held_since docs key now c \<and> \<not> held_since docs key t (ar_idempotent r)" if "y = Inserted"
    using insert_one [OF i] that by (auto simp: added_def held_since_def)
  with keep r' show ?thesis by blast
qed

lemma completes:
  assumes "CompleteIdempotent ops now key res r = (r', err)" and "t \<le> now" and "held_since docs k t (ar_idempotent r)"
  shows "held_since docs k t (ar_idempotent r')"
proof -
  let ?us = "[USet [(''status'', BStr ''completed''), (''result'', put_bytes res), (''updated_at'', bson_time now)]]"
  obtain c y where u: "ko_UpdateOne ops (QEq ''_id'' (BStr key)) ?us (ar_idempotent r) = (c, y)" by fastforce
  then have r': "ar_idempotent r' = c" using assms(1) by (auto simp: CompleteIdempotent_def)
  have "held_since docs k t c" if "one_updated (QEq ''_id'' (BStr key)) ?us (docs (ar_idempotent r)) (docs c)"
  proof -
    from that obtain pre d post where d: "docs (ar_idempotent r) = pre @ d # post" "docs c = pre @ apply_update ?us d # post"
      unfolding one_updated_def by blast
    have a: "map_of (apply_update ?us d) ''_id'' = map_of d ''_id''" "map_of (apply_update ?us d) ''updated_at'' = Some (bson_time now)"
      by simp_all
    from assms(3) d obtain e where e: "e \<in> set pre \<union> set post \<or> e = d" "map_of e ''_id'' = Some (BStr k)"
      "\<exists>u \<ge> t. map_of e ''updated_at'' = Some (bson_time u)" by (auto simp: held_since_def)
    show ?thesis
    proof (cases "e = d")
      case True
      with e(2) a assms(2) d(2) show ?thesis by (auto simp: held_since_def simp del: apply_update_Cons)
    next
      case False
      with e d(2) show ?thesis by (auto simp: held_since_def)
    qed
  qed
  moreover have "held_since docs k t c" if "docs c = docs (ar_idempotent r)" using assms(3) that by (simp add: held_since_def)
  moreover have "one_updated (QEq ''_id'' (BStr key)) ?us (docs (ar_idempotent r)) (docs c) \<or> docs c = docs (ar_idempotent r)"
    using update_one [OF u] unfolding update_one_effect_def by (cases y) (simp_all only: sum.case, blast+)
  ultimately show ?thesis using r' by blast
qed

text \<open>A held operation is held after a step, unless it has expired.\<close>

lemma held_step:
  assumes "audit_step ops e r = (r', k)" and "held_since docs key t (ar_idempotent r)" and "t \<le> event_time e"
  shows "k \<noteq> Some key \<and> (held_since docs key t (ar_idempotent r') \<or> t + week - millisecond < event_time e)"
proof (cases e)
  case (BeginA now key' action)
  obtain ok err where b: "BeginIdempotent ops now key' action r = (r', ok, err)" and k: "k = (if ok then Some key' else None)"
    using assms(1) BeginA by (auto split: prod.splits)
  from begins_when_free [OF b, where k = key and t = t] assms(2) k show ?thesis by auto
next
  case (CompleteA now key' res)
  with assms(1) have k: "k = None" and c: "CompleteIdempotent ops now key' res r = (r', snd (CompleteIdempotent ops now key' res r))" by auto
  from completes [OF c _ assms(2)] assms(3) CompleteA k show ?thesis by simp
next
  case (LogA now l)
  with assms(1) have "k = None" "ar_idempotent r' = ar_idempotent r"
    by (auto simp: Log_def split: option.splits prod.splits)
  with assms(2) show ?thesis by simp
next
  case (IndexA now)
  obtain c x where a: "ko_CreateIndex ops [''request_id'', ''action''] None (ar_audit r) = (c, x)" by fastforce
  obtain d y where i: "ko_CreateIndex ops [''updated_at''] (Some (7 * 24 * 3600)) (ar_idempotent r) = (d, y)" by fastforce
  from assms(1) IndexA a i have "k = None" "ar_idempotent r' = ar_idempotent r \<or> ar_idempotent r' = d"
    by (cases x; auto simp: EnsureIndexes_def)+
  with assms(2) create_index [OF i] show ?thesis by (auto simp: held_since_def)
next
  case (ExpireA now)
  with assms(1) have k: "k = None" and r': "ar_idempotent r' = ko_Expire ops now (ar_idempotent r)" by auto
  from assms(2) obtain d u where d: "d \<in> set (docs (ar_idempotent r))" "map_of d ''_id'' = Some (BStr key)" "t \<le> u" "map_of d ''updated_at'' = Some (bson_time u)"
    by (auto simp: held_since_def)
  from expire [of now "ar_idempotent r"] obtain p where
    p: "docs (ko_Expire ops now (ar_idempotent r)) = filter p (docs (ar_idempotent r))" "\<And>e. \<not> p e \<Longrightarrow> expired now e" by blast
  show ?thesis
  proof (cases "p d")
    case True
    with d p(1) r' k show ?thesis by (auto simp: held_since_def)
  next
    case False
    with p(2) d(4) have "trunc_ms u + week \<le> now" by (fastforce simp: expired_def)
    with bson_time_mono [OF d(3)] trunc_near [of t] ExpireA k show ?thesis by simp
  qed
qed

lemma held_run:
  assumes "held_since docs key t (ar_idempotent r)" and "\<forall>e \<in> set es. t \<le> event_time e" and "sorted (map event_time es)"
    and "(t2, key) \<in> set (audit_run ops es r)"
  shows "t + week - millisecond < t2"
  using assms
proof (induction es arbitrary: r)
  case (Cons e es)
  obtain r' k where s: "audit_step ops e r = (r', k)" by fastforce
  note h = held_step [OF s Cons.prems(1)]
  have le: "event_time e \<le> t'" if "(t', k') \<in> set (audit_run ops es r')" for t' k'
  proof -
    have "t' \<in> event_time ` set es" using that
    proof (induction es arbitrary: r')
      case (Cons a as)
      then show ?case by (auto split: prod.splits option.splits)
    qed simp
    with Cons.prems(3) show ?thesis by auto
  qed
  from h Cons.prems(2,4) s have in': "(t2, key) \<in> set (audit_run ops es r')" by (auto split: option.splits)
  from h Cons.prems(2) consider "held_since docs key t (ar_idempotent r')" | "t + week - millisecond < event_time e" by auto
  then show ?case
  proof cases
    case 1
    with Cons.IH [OF 1] Cons.prems in' show ?thesis by simp
  next
    case 2
    with le [OF in'] show ?thesis by simp
  qed
qed simp

lemma begun_apart:
  assumes "sorted (map event_time es)"
  shows "sorted_wrt (\<lambda>(t1, k1) (t2, k2). k1 = k2 \<longrightarrow> week - millisecond < t2 - t1) (audit_run ops es r)"
  using assms
proof (induction es arbitrary: r)
  case (Cons e es)
  obtain r' k where s: "audit_step ops e r = (r', k)" by fastforce
  have ih: "sorted_wrt (\<lambda>(t1, k1) (t2, k2). k1 = k2 \<longrightarrow> week - millisecond < t2 - t1) (audit_run ops es r')"
    using Cons by simp
  show ?case
  proof (cases k)
    case None
    with s ih show ?thesis by simp
  next
    case (Some key)
    with s obtain now action err where "e = BeginA now key action" "BeginIdempotent ops now key action r = (r', True, err)"
      by (cases e) (auto split: prod.splits if_splits)
    with begins_when_free have "held_since docs key now (ar_idempotent r')" by blast
    from held_run [OF this] Cons.prems \<open>e = _\<close> have "week - millisecond < t2 - now" if "(t2, key) \<in> set (audit_run ops es r')" for t2
      using that by fastforce
    with s Some ih \<open>e = _\<close> show ?thesis by auto
  qed
qed simp

end

subsection \<open>In memory\<close>



subsection \<open>Properties\<close>



text \<open>An operation that was begun and never completed blocks its key until the database deletes it.\<close>

lemma crashed_operation_blocks:
  assumes "keyed_collection ops docs" and "BeginIdempotent ops now key action r = (r1, True, err)"
    and "BeginIdempotent ops now' key action' r1 = (r2, ok, err')"
  shows "\<not> ok"
  using keyed_collection.begins_when_free [OF assms(1,2)] keyed_collection.begins_when_free [OF assms(1,3), where t = now] by blast

end
