(* ===== verification/Migrations.thy ===== *)
theory Migrations
  imports Rows Audits
begin

text \<open>
  \<^verbatim>\<open>database/migrations.go\<close>: the runner that applies and rolls back schema migrations and records which are
  applied, with the direction switch and the default migration of \<^verbatim>\<open>tools/migrate\<close>. A migration is a function on the rest of the database, the records are
  a collection over the driver of \<open>Mongo\<close>.
\<close>

subsection \<open>Migrations\<close>

record 's migration =
  mg_Version :: int
  mg_Name :: string
  mg_Up :: "('s \<Rightarrow> 's \<times> string option) option"
  mg_Down :: "('s \<Rightarrow> 's \<times> string option) option"
  mg_Description :: string

record migration_record =
  mr_Version :: int
  mr_Name :: string
  mr_AppliedAt :: time

record ('c, 's) migration_runner =
  mu_ops :: "'c mongo_ops"
  mu_index :: "'c \<Rightarrow> 'c \<times> string option"
  mu_migrations :: "'s migration list"

record ('c, 's) migration_db =
  md_records :: 'c
  md_rest :: 's

definition encode_migration :: "migration_record \<Rightarrow> doc" where
  "encode_migration r = [(''version'', BInt (mr_Version r)), (''name'', BStr (mr_Name r)), (''applied_at'', bson_time (mr_AppliedAt r))]"

definition decode_migration :: "doc \<Rightarrow> migration_record option" where
  "decode_migration d = do {
     v \<leftarrow> get_int 64 d ''version''; n \<leftarrow> get_str d ''name''; t \<leftarrow> get_time d ''applied_at'';
     Some \<lparr>mr_Version = v, mr_Name = n, mr_AppliedAt = t\<rparr> }"

text \<open>\<^verbatim>\<open>sort.Slice\<close>: the order of migrations with the same version, which the library leaves open, is kept.\<close>

definition NewMigrationRunner :: "'c mongo_ops \<Rightarrow> ('c \<Rightarrow> 'c \<times> string option) \<Rightarrow> 's migration list \<Rightarrow> ('c, 's) migration_runner" where
  "NewMigrationRunner ops idx migrations = \<lparr>mu_ops = ops, mu_index = idx, mu_migrations = sort_key mg_Version migrations\<rparr>"

definition ensureIndex :: "('c, 's) migration_runner \<Rightarrow> ('c, 's) migration_db \<Rightarrow> ('c, 's) migration_db \<times> string option" where
  "ensureIndex r db = (let (c, e) = mu_index r (md_records db) in (db\<lparr>md_records := c\<rparr>, e))"

definition appliedVersions :: "('c, 's) migration_runner \<Rightarrow> ('c, 's) migration_db \<Rightarrow> ('c, 's) migration_db \<times> (string + int set)" where
  "appliedVersions r db =
     (case mo_Find (mu_ops r) (QAnd []) all_opts (md_records db) of
        (c, Inl err) \<Rightarrow> (db\<lparr>md_records := c\<rparr>, Inl err)
      | (c, Inr ds) \<Rightarrow> (db\<lparr>md_records := c\<rparr>,
          case those (map decode_migration ds) of None \<Rightarrow> Inl ''decode'' | Some rs \<Rightarrow> Inr (mr_Version ` set rs)))"

fun up_loop :: "('c, 's) migration_runner \<Rightarrow> time \<Rightarrow> int set \<Rightarrow> 's migration list \<Rightarrow> ('c, 's) migration_db \<Rightarrow>
    ('c, 's) migration_db \<times> string option" where
  "up_loop r now applied [] db = (db, None)"
| "up_loop r now applied (m # ms) db =
     (if mg_Version m \<in> applied then up_loop r now applied ms db
      else case mg_Up m of
        None \<Rightarrow> (db, Some (''migration '' @ fmt_int (mg_Version m) @ '' has no up function''))
      | Some up \<Rightarrow>
          (case up (md_rest db) of
             (s, Some err) \<Rightarrow> (db\<lparr>md_rest := s\<rparr>, Some (''apply migration '' @ fmt_int (mg_Version m) @ '' '' @ mg_Name m @ '': '' @ err))
           | (s, None) \<Rightarrow>
               (case mo_InsertOne (mu_ops r) (encode_migration \<lparr>mr_Version = mg_Version m, mr_Name = mg_Name m, mr_AppliedAt = now\<rparr>) (md_records db) of
                  (c, Inl err) \<Rightarrow> (db\<lparr>md_rest := s, md_records := c\<rparr>, Some err)
                | (c, Inr _) \<Rightarrow> up_loop r now applied ms (db\<lparr>md_rest := s, md_records := c\<rparr>))))"

definition Up :: "('c, 's) migration_runner \<Rightarrow> time \<Rightarrow> ('c, 's) migration_db \<Rightarrow> ('c, 's) migration_db \<times> string option" where
  "Up r now db =
     (case ensureIndex r db of
        (db1, Some err) \<Rightarrow> (db1, Some err)
      | (db1, None) \<Rightarrow>
          (case appliedVersions r db1 of
             (db2, Inl err) \<Rightarrow> (db2, Some err)
           | (db2, Inr applied) \<Rightarrow> up_loop r now applied (mu_migrations r) db2))"

fun down_loop :: "('c, 's) migration_runner \<Rightarrow> int \<Rightarrow> int set \<Rightarrow> 's migration list \<Rightarrow> ('c, 's) migration_db \<Rightarrow>
    ('c, 's) migration_db \<times> string option" where
  "down_loop r target applied [] db = (db, None)"
| "down_loop r target applied (m # ms) db =
     (if mg_Version m \<le> target \<or> mg_Version m \<notin> applied then down_loop r target applied ms db
      else case mg_Down m of
        None \<Rightarrow> (db, Some (''migration '' @ fmt_int (mg_Version m) @ '' has no down function''))
      | Some down \<Rightarrow>
          (case down (md_rest db) of
             (s, Some err) \<Rightarrow> (db\<lparr>md_rest := s\<rparr>, Some (''rollback migration '' @ fmt_int (mg_Version m) @ '' '' @ mg_Name m @ '': '' @ err))
           | (s, None) \<Rightarrow>
               (case mo_DeleteOne (mu_ops r) (QEq ''version'' (BInt (mg_Version m))) (md_records db) of
                  (c, Inl err) \<Rightarrow> (db\<lparr>md_rest := s, md_records := c\<rparr>, Some err)
                | (c, Inr _) \<Rightarrow> down_loop r target applied ms (db\<lparr>md_rest := s, md_records := c\<rparr>))))"

text \<open>The loop of \<^verbatim>\<open>Down\<close> goes from the last migration to the first.\<close>

definition Down :: "('c, 's) migration_runner \<Rightarrow> int \<Rightarrow> ('c, 's) migration_db \<Rightarrow> ('c, 's) migration_db \<times> string option" where
  "Down r target db =
     (case appliedVersions r db of
        (db1, Inl err) \<Rightarrow> (db1, Some err)
      | (db1, Inr applied) \<Rightarrow> down_loop r target applied (rev (mu_migrations r)) db1)"

text \<open>The program \<^verbatim>\<open>tools/migrate\<close> after the configuration is read.\<close>

definition run_migrations :: "('c, 's) migration_runner \<Rightarrow> string \<Rightarrow> int \<Rightarrow> time \<Rightarrow> ('c, 's) migration_db \<Rightarrow> ('c, 's) migration_db \<times> string option" where
  "run_migrations r direction target now db =
     (if direction = ''up'' then Up r now db
      else if direction = ''down'' then Down r target db
      else (db, Some (''unsupported direction: '' @ direction)))"

text \<open>The one migration there is creates the indexes of the audit log.\<close>

definition defaultMigrations :: "'k keyed_ops \<Rightarrow> 'k audit_repository migration list" where
  "defaultMigrations ops = [\<lparr>mg_Version = 1, mg_Name = ''audit_and_idempotency_indexes'', mg_Up = Some (EnsureIndexes ops),
     mg_Down = Some (\<lambda>r. case ko_DropIndexes ops (ar_audit r) of
        (c, Some err) \<Rightarrow> (r\<lparr>ar_audit := c\<rparr>, Some err)
      | (c, None) \<Rightarrow> (let (d, e) = ko_DropIndexes ops (ar_idempotent r) in (r\<lparr>ar_audit := c, ar_idempotent := d\<rparr>, e))),
     mg_Description = ''create indexes for audit log and idempotent operation collections''\<rparr>]"

subsection \<open>What a run does\<close>

text \<open>A migration with its function, or nothing, applied to the rest of the database.\<close>

definition run_up :: "'s migration \<Rightarrow> 's \<Rightarrow> 's" where
  "run_up m s = (case mg_Up m of None \<Rightarrow> s | Some up \<Rightarrow> fst (up s))"

definition run_down :: "'s migration \<Rightarrow> 's \<Rightarrow> 's" where
  "run_down m s = (case mg_Down m of None \<Rightarrow> s | Some down \<Rightarrow> fst (down s))"

definition migration_row :: "doc \<Rightarrow> migration_record option" where
  "migration_row d = (if map_of d ''version'' = None then None else decode_migration d)"

definition runner_ok :: "('c, 's) migration_runner \<Rightarrow> bool" where
  "runner_ok r \<longleftrightarrow> distinct (map mg_Version (mu_migrations r)) \<and> (\<forall>m \<in> set (mu_migrations r). int_fits 64 (mg_Version m))"

definition pending :: "int set \<Rightarrow> 's migration list \<Rightarrow> 's migration list" where
  "pending applied ms = filter (\<lambda>m. mg_Version m \<notin> applied) ms"

definition stored :: "('c \<Rightarrow> doc list) \<Rightarrow> ('c, 's) migration_db \<Rightarrow> int set" where
  "stored docs db = mr_Version ` set (rows_in migration_row docs (md_records db))"

text \<open>
  The result of a run over the migrations to do: those it ran and recorded come first, and a run that ended
  with an error may have run one more without recording it.
\<close>

definition up_result :: "'s migration list \<Rightarrow> int set \<Rightarrow> 's \<Rightarrow> string option \<Rightarrow> int set \<Rightarrow> 's \<Rightarrow> bool" where
  "up_result todo V s res V' s' \<longleftrightarrow> (\<exists>ran rest. todo = ran @ rest \<and> V' = V \<union> mg_Version ` set ran \<and>
     (s' = fold run_up ran s \<or> res \<noteq> None \<and> (\<exists>m ms. rest = m # ms \<and> s' = run_up m (fold run_up ran s))) \<and> (res = None \<longrightarrow> rest = []))"

lemma up_result_simps [simp]:
  "up_result [] V s res V s" "up_result todo V s (Some err) V s" "up_result (m # ms) V s (Some err) V (run_up m s)"
  "up_result (m # ms) V s (Some err) (insert (mg_Version m) V) (run_up m s)"
  unfolding up_result_def
  by ((rule exI [of _ "[]"], fastforce)+, (rule exI [of _ "[m]"], fastforce))

lemma up_result_step: "up_result ms (insert (mg_Version m) V) (run_up m s) res V' s' \<Longrightarrow> up_result (m # ms) V s res V' s'"
  unfolding up_result_def by (elim exE conjE, rule_tac x = "m # ran" in exI, rule_tac x = rest in exI) auto

text \<open>
  The table of applied migrations: a collection with readable records and a unique index on the version, and
  the call that creates the index.
\<close>

locale migration_table = unique_collection "mu_ops r" docs valid "''version''" for r :: "('c, 's) migration_runner" and docs and valid +
  assumes index: "valid c \<Longrightarrow> mu_index r c = (c', e) \<Longrightarrow> docs c' = docs c \<and> valid c'"
begin

abbreviation "table db \<equiv> rows_valid migration_row docs valid (md_records db)"

lemma stored_by_insert:
  assumes "table db" and "int_fits 64 (mr_Version x)" and "mo_InsertOne (mu_ops r) (encode_migration x) (md_records db) = (c, y)"
  shows "rows_valid migration_row docs valid c \<and>
    (mr_Version ` set (rows_in migration_row docs c) = insert (mr_Version x) (stored docs db) \<or>
     isl y \<and> mr_Version ` set (rows_in migration_row docs c) = stored docs db)"
proof -
  have "migration_row (with_id n (encode_migration x)) = Some (x\<lparr>mr_AppliedAt := trunc_ms (mr_AppliedAt x)\<rparr>)" for n
    using assms(2) by (simp add: migration_row_def decode_migration_def encode_migration_def with_id_def)
  from rows_insert [OF assms(1,3) this] show ?thesis by (auto simp: stored_def)
qed

lemma row_version: "migration_row d = Some x \<Longrightarrow> map_of d ''version'' = Some (BInt (mr_Version x))"
  by (auto simp: migration_row_def decode_migration_def get_int_def split: if_splits bind_splits option.splits bval.splits)

lemma row_match: "migration_row d = Some x \<Longrightarrow> matches (QEq ''version'' (BInt v)) d \<longleftrightarrow> mr_Version x = v"
  by (simp add: row_version)

text \<open>The unique index holds of the records, so deleting one with a version removes the version.\<close>

lemma versions_distinct:
  assumes "table db"
  shows "distinct (map mr_Version (rows_in migration_row docs (md_records db)))"
proof -
  let ?ds = "docs (md_records db)"
  from assms have v: "valid (md_records db)" "rows_all migration_row ?ds" by (simp_all add: rows_valid_def)
  have d: "distinct (map (\<lambda>d. map_of d ''version'') ?ds)" using unique [OF v(1)] by (simp add: unique_on_def)
  have "map_of d ''version'' = Some (BInt (mr_Version (the (migration_row d))))" if "d \<in> set ?ds" for d
  proof -
    from that v(2) obtain x where x: "migration_row d = Some x" by (auto simp: rows_all_def)
    with row_version [OF x] show ?thesis by simp
  qed
  then have "map (\<lambda>d. map_of d ''version'') ?ds = map (Some \<circ> BInt) (map mr_Version (rows_in migration_row docs (md_records db)))"
    by (simp add: rows_in_def)
  with d show ?thesis by (auto simp: distinct_map inj_on_def)
qed

lemma stored_by_delete:
  assumes "table db" and "mo_DeleteOne (mu_ops r) (QEq ''version'' (BInt v)) (md_records db) = (c, y)"
  shows "rows_valid migration_row docs valid c \<and>
    (mr_Version ` set (rows_in migration_row docs c) = stored docs db - {v} \<or>
     isl y \<and> mr_Version ` set (rows_in migration_row docs c) = stored docs db)"
proof -
  let ?rs = "rows_in migration_row docs (md_records db)" and ?rs' = "rows_in migration_row docs c"
  have one: "mr_Version ` set ?rs' = stored docs db - {v}" if "one_removed (\<lambda>x. mr_Version x = v) ?rs ?rs'"
  proof -
    from that obtain pre x post where s: "?rs = pre @ x # post" "mr_Version x = v" "?rs' = pre @ post" unfolding one_removed_def by blast
    with versions_distinct [OF assms(1)] have "v \<notin> mr_Version ` set pre" "v \<notin> mr_Version ` set post" by auto
    moreover have "stored docs db = insert v (mr_Version ` set pre \<union> mr_Version ` set post)" using s by (simp add: stored_def image_Un insert_commute)
    moreover have "mr_Version ` set ?rs' = mr_Version ` set pre \<union> mr_Version ` set post" using s by auto
    ultimately show ?thesis by (simp only: Diff_insert_absorb Un_iff simp_thms)
  qed
  have none: "stored docs db - {v} = stored docs db" if "\<forall>x \<in> set ?rs. mr_Version x \<noteq> v"
  proof -
    from that have "v \<notin> stored docs db" unfolding stored_def by blast
    then show ?thesis by simp
  qed
  have same: "mr_Version ` set ?rs' = stored docs db" if "?rs' = ?rs" using that by (simp add: stored_def)
  have del: "rows_valid migration_row docs valid c \<and> (case y of
      Inr n \<Rightarrow> n = 1 \<and> one_removed (\<lambda>x. mr_Version x = v) ?rs ?rs' \<or> n = 0 \<and> (\<forall>x \<in> set ?rs. mr_Version x \<noteq> v) \<and> ?rs' = ?rs
    | Inl _ \<Rightarrow> ?rs' = ?rs \<or> one_removed (\<lambda>x. mr_Version x = v) ?rs ?rs')"
    by (rule rows_delete_one [OF assms]) (rule row_match)
  show ?thesis
  proof (cases y)
    case (Inl e)
    with del have "?rs' = ?rs \<or> one_removed (\<lambda>x. mr_Version x = v) ?rs ?rs'" by simp
    then show ?thesis
    proof
      assume eq: "?rs' = ?rs"
      show ?thesis using conjunct1 [OF del] same [OF eq] Inl by simp
    next
      assume o: "one_removed (\<lambda>x. mr_Version x = v) ?rs ?rs'"
      show ?thesis using conjunct1 [OF del] one [OF o] by simp
    qed
  next
    case (Inr n)
    with del have "one_removed (\<lambda>x. mr_Version x = v) ?rs ?rs' \<or> (\<forall>x \<in> set ?rs. mr_Version x \<noteq> v) \<and> ?rs' = ?rs" by auto
    then show ?thesis
    proof
      assume o: "one_removed (\<lambda>x. mr_Version x = v) ?rs ?rs'"
      show ?thesis using conjunct1 [OF del] one [OF o] by simp
    next
      assume n: "(\<forall>x \<in> set ?rs. mr_Version x \<noteq> v) \<and> ?rs' = ?rs"
      show ?thesis using conjunct1 [OF del] same [OF conjunct2 [OF n]] none [OF conjunct1 [OF n]] by simp
    qed
  qed
qed

lemma applied_are_stored:
  assumes "table db" and "appliedVersions r db = (db', Inr applied)"
  shows "table db' \<and> stored docs db' = stored docs db \<and> applied = stored docs db \<and> md_rest db' = md_rest db"
proof -
  obtain c y where f: "mo_Find (mu_ops r) (QAnd []) all_opts (md_records db) = (c, y)" by fastforce
  have row: "matches (QAnd []) d \<longleftrightarrow> True" for d by simp
  note find = rows_find_all [OF assms(1) f, where p = "\<lambda>_. True", OF row]
  from assms(2) f obtain ds where y: "y = Inr ds" by (cases y) (auto simp: appliedVersions_def)
  with find obtain ms where ms: "mset ms = mset (rows_in migration_row docs (md_records db))" "map migration_row ds = map Some ms" by auto
  have "map decode_migration ds = map Some ms"
  proof -
    have "\<forall>d \<in> set ds. migration_row d \<noteq> None" using ms(2) by (metis imageE list.set_map option.distinct(1) imageI)
    then have "map decode_migration ds = map migration_row ds" by (auto simp: migration_row_def)
    with ms(2) show ?thesis by simp
  qed
  with those_some have t: "those (map decode_migration ds) = Some ms" by blast
  have "set ms = set (rows_in migration_row docs (md_records db))" using ms(1) by (rule mset_eq_setD)
  with assms(2) f y t find show ?thesis by (auto simp: appliedVersions_def stored_def)
qed

lemma up_loop_effect:
  assumes "up_loop r now applied ms db = (db', res)" and "table db" and "\<forall>m \<in> set ms. int_fits 64 (mg_Version m)"
  shows "table db' \<and> up_result (pending applied ms) (stored docs db) (md_rest db) res (stored docs db') (md_rest db')"
  using assms
proof (induction ms arbitrary: db)
  case Nil
  then show ?case by (simp add: pending_def)
next
  case (Cons m ms)
  show ?case
  proof (cases "mg_Version m \<in> applied")
    case True
    with Cons show ?thesis by (simp add: pending_def)
  next
    case False
    then have p: "pending applied (m # ms) = m # pending applied ms" by (simp add: pending_def)
    show ?thesis
    proof (cases "mg_Up m")
      case None
      with False Cons.prems(1,2) show ?thesis by auto
    next
      case (Some up)
      obtain s e where up: "up (md_rest db) = (s, e)" by fastforce
      then have s: "s = run_up m (md_rest db)" by (simp add: run_up_def Some)
      let ?x = "\<lparr>mr_Version = mg_Version m, mr_Name = mg_Name m, mr_AppliedAt = now\<rparr>"
      obtain c y where i: "mo_InsertOne (mu_ops r) (encode_migration ?x) (md_records db) = (c, y)" by fastforce
      let ?db1 = "db\<lparr>md_rest := s, md_records := c\<rparr>"
      have fit: "int_fits 64 (mr_Version ?x)" using Cons.prems(3) by simp
      from stored_by_insert [OF Cons.prems(2) fit i] have t1: "table ?db1"
        "stored docs ?db1 = insert (mg_Version m) (stored docs db) \<or> isl y \<and> stored docs ?db1 = stored docs db"
        by (auto simp: stored_def)
      note run = Cons.prems(1) False Some up i
      consider err where "e = Some err" | err where "e = None" "y = Inl err" | n where "e = None" "y = Inr n" by (cases e; cases y) auto
      then show ?thesis
      proof cases
        case 1
        with run have "db' = db\<lparr>md_rest := s\<rparr>" "\<exists>err. res = Some err" by auto
        with Cons.prems(2) p s show ?thesis by (auto simp: stored_def)
      next
        case 2
        with run have "db' = ?db1" "res = Some err" by auto
        with t1 p s show ?thesis by auto
      next
        case 3
        with run have l: "up_loop r now applied ms ?db1 = (db', res)" by simp
        have "\<forall>m \<in> set ms. int_fits 64 (mg_Version m)" using Cons.prems(3) by simp
        from Cons.IH [OF l t1(1) this] t1(2) 3 s p show ?thesis by (auto intro: up_result_step)
      qed
    qed
  qed
qed

lemma up_effect:
  assumes "Up r now db = (db', res)" and "table db" and "runner_ok r"
  shows "table db' \<and> up_result (pending (stored docs db) (mu_migrations r)) (stored docs db) (md_rest db) res (stored docs db') (md_rest db')"
proof -
  obtain c e where i: "mu_index r (md_records db) = (c, e)" by fastforce
  let ?db1 = "db\<lparr>md_records := c\<rparr>"
  have "valid (md_records db)" using assms(2) by (simp add: rows_valid_def)
  from index [OF this i] assms(2) have t1: "table ?db1" "stored docs ?db1 = stored docs db" "md_rest ?db1 = md_rest db"
    by (auto simp: rows_valid_def stored_def rows_in_def)
  have stop: "?thesis" if "db' = db2" "res = Some err" "table db2" "stored docs db2 = stored docs db" "md_rest db2 = md_rest db" for db2 err
    using that by simp
  show ?thesis
  proof (cases e)
    case (Some err)
    with assms(1) i have "db' = ?db1" "res = Some err" by (simp_all add: Up_def ensureIndex_def)
    with t1 stop show ?thesis by blast
  next
    case None
    obtain db2 x where a: "appliedVersions r ?db1 = (db2, x)" by fastforce
    show ?thesis
    proof (cases x)
      case (Inl err)
      obtain c2 y where f: "mo_Find (mu_ops r) (QAnd []) all_opts c = (c2, y)" by fastforce
      from find [OF _ f] t1(1) have "docs c2 = docs c \<and> valid c2" by (simp add: rows_valid_def)
      moreover from a f have "db2 = ?db1\<lparr>md_records := c2\<rparr>" by (cases y) (auto simp: appliedVersions_def)
      ultimately have "table db2" "stored docs db2 = stored docs db" "md_rest db2 = md_rest db"
        using t1 by (auto simp: rows_valid_def stored_def rows_in_def)
      moreover from assms(1) i None a Inl have "db' = db2" "res = Some err" by (simp_all add: Up_def ensureIndex_def)
      ultimately show ?thesis using stop by blast
    next
      case (Inr applied)
      from applied_are_stored [OF t1(1) a [unfolded Inr]] t1
      have t2: "table db2" "stored docs db2 = stored docs db" "applied = stored docs db" "md_rest db2 = md_rest db" by simp_all
      from assms(1) i None a Inr have "up_loop r now applied (mu_migrations r) db2 = (db', res)" by (simp add: Up_def ensureIndex_def)
      from up_loop_effect [OF this t2(1)] assms(3) t2(2,3,4) show ?thesis by (simp add: runner_ok_def)
    qed
  qed
qed

lemma down_loop_effect:
  assumes "down_loop r target applied ms db = (db', None)" and "table db"
  shows "table db' \<and> stored docs db' = stored docs db - {v \<in> applied. target < v \<and> v \<in> mg_Version ` set ms} \<and>
    md_rest db' = fold run_down (filter (\<lambda>m. target < mg_Version m \<and> mg_Version m \<in> applied) ms) (md_rest db)"
  using assms
proof (induction ms arbitrary: db)
  case (Cons m ms)
  show ?case
  proof (cases "mg_Version m \<le> target \<or> mg_Version m \<notin> applied")
    case True
    with Cons.prems(1) have "down_loop r target applied ms db = (db', None)" by simp
    from Cons.IH [OF this Cons.prems(2)] True show ?thesis by auto
  next
    case False
    from False Cons.prems(1) obtain down s c n where d: "mg_Down m = Some down" "down (md_rest db) = (s, None)"
      "mo_DeleteOne (mu_ops r) (QEq ''version'' (BInt (mg_Version m))) (md_records db) = (c, Inr n)"
      "down_loop r target applied ms (db\<lparr>md_rest := s, md_records := c\<rparr>) = (db', None)"
      by (auto split: option.splits prod.splits sum.splits)
    let ?db1 = "db\<lparr>md_rest := s, md_records := c\<rparr>"
    from stored_by_delete [OF Cons.prems(2) d(3)] have "table ?db1" "stored docs ?db1 = stored docs db - {mg_Version m}"
      by (auto simp: stored_def)
    with Cons.IH [OF d(4)] have i: "table db'" "stored docs db' = stored docs db - {mg_Version m} - {v \<in> applied. target < v \<and> v \<in> mg_Version ` set ms}"
      "md_rest db' = fold run_down (filter (\<lambda>m. target < mg_Version m \<and> mg_Version m \<in> applied) ms) s" by simp_all
    have "s = run_down m (md_rest db)" using d by (simp add: run_down_def)
    with i(3) False have "md_rest db' = fold run_down (filter (\<lambda>m. target < mg_Version m \<and> mg_Version m \<in> applied) (m # ms)) (md_rest db)" by simp
    moreover have "stored docs db' = stored docs db - {v \<in> applied. target < v \<and> v \<in> mg_Version ` set (m # ms)}"
      unfolding i(2) using False by auto
    ultimately show ?thesis using i(1) by blast
  qed
qed simp

lemma down_effect:
  assumes "Down r target db = (db', None)" and "table db"
  shows "table db' \<and> stored docs db' = stored docs db - {v. target < v \<and> v \<in> mg_Version ` set (mu_migrations r)} \<and>
    md_rest db' = fold run_down (rev (filter (\<lambda>m. target < mg_Version m \<and> mg_Version m \<in> stored docs db) (mu_migrations r))) (md_rest db)"
proof -
  from assms(1) obtain db1 applied where a: "appliedVersions r db = (db1, Inr applied)"
    and l: "down_loop r target applied (rev (mu_migrations r)) db1 = (db', None)"
    by (auto simp: Down_def split: prod.splits sum.splits)
  from applied_are_stored [OF assms(2) a] have s: "table db1" "stored docs db1 = stored docs db" "applied = stored docs db" "md_rest db1 = md_rest db" by simp_all
  from down_loop_effect [OF l s(1)] s(2-4) show ?thesis by (auto simp: rev_filter)
qed

end

lemma run_down_up: "(\<And>m s. m \<in> set ms \<Longrightarrow> run_down m (run_up m s) = s) \<Longrightarrow> fold run_down (rev ms) (fold run_up ms s) = s"
proof (induction ms arbitrary: s)
  case (Cons m ms)
  then have "fold run_down (rev ms) (fold run_up ms (run_up m s)) = run_up m s" by simp
  with Cons.prems show ?case by simp
qed simp

lemma sorted_split: "sorted (map f xs) \<Longrightarrow> xs = filter (\<lambda>x. f x \<le> t) xs @ filter (\<lambda>x. t < f x) xs" for f :: "'a \<Rightarrow> int"
proof (induction xs)
  case (Cons x xs)
  show ?case
  proof (cases "f x \<le> t")
    case True
    with Cons show ?thesis by simp
  next
    case False
    with Cons.prems have "\<forall>y \<in> set xs. t < f y" by fastforce
    then have "filter (\<lambda>x. f x \<le> t) xs = []" "filter (\<lambda>x. t < f x) xs = xs" by (auto simp: filter_empty_conv)
    with False show ?thesis by simp
  qed
qed simp

subsection \<open>Properties\<close>

text \<open>
  migrations are applied in order, each once, and a run that fails can be resumed: \<^verbatim>\<open>Up\<close> runs a prefix of
  the migrations that are not recorded yet, in the order of their versions, and records exactly those, except
  that a migration whose function or record fails may have run without a record; it runs them all when it
  succeeds.
\<close>

theorem up_applies_pending:
  assumes "migration_table r docs valid" and "runner_ok r" and "rows_valid migration_row docs valid (md_records db)"
    and "Up r now db = (db', res)"
  shows "\<exists>ran rest. pending (stored docs db) (mu_migrations r) = ran @ rest \<and> stored docs db' = stored docs db \<union> mg_Version ` set ran \<and>
    (md_rest db' = fold run_up ran (md_rest db) \<or>
      res \<noteq> None \<and> (\<exists>m ms. rest = m # ms \<and> md_rest db' = run_up m (fold run_up ran (md_rest db)))) \<and>
    (res = None \<longrightarrow> rest = [])"
  using migration_table.up_effect [OF assms(1,4,3,2)] by (simp add: up_result_def)

text \<open>
  C35: rolling back undoes what was applied: if every migration has a function that undoes it, a database
  without records that is migrated and then rolled back to a version is as if only the migrations up to that
  version had been applied, in its content and in its records.
\<close>

theorem down_undoes_up:
  assumes "migration_table (NewMigrationRunner ops idx migrations) docs valid" and "runner_ok (NewMigrationRunner ops idx migrations)"
    and "rows_valid migration_row docs valid (md_records db)" and "stored docs db = {}"
    and "Up (NewMigrationRunner ops idx migrations) now db = (db1, None)"
    and "Down (NewMigrationRunner ops idx migrations) target db1 = (db2, None)"
    and "\<And>m s. m \<in> set migrations \<Longrightarrow> run_down m (run_up m s) = s"
  shows "md_rest db2 = fold run_up (filter (\<lambda>m. mg_Version m \<le> target) (sort_key mg_Version migrations)) (md_rest db) \<and>
    stored docs db2 = {v \<in> mg_Version ` set migrations. v \<le> target}"
proof -
  let ?ms = "sort_key mg_Version migrations"
  let ?low = "filter (\<lambda>m. mg_Version m \<le> target) ?ms" and ?high = "filter (\<lambda>m. target < mg_Version m) ?ms"
  have ms: "mu_migrations (NewMigrationRunner ops idx migrations) = ?ms" by (simp add: NewMigrationRunner_def)
  from migration_table.up_effect [OF assms(1,5,3,2)] assms(4) ms
  have up: "stored docs db1 = mg_Version ` set migrations" "md_rest db1 = fold run_up ?ms (md_rest db)"
    and t: "rows_valid migration_row docs valid (md_records db1)" by (auto simp: pending_def up_result_def)
  have "filter (\<lambda>m. target < mg_Version m \<and> mg_Version m \<in> stored docs db1) ?ms = ?high"
    by (rule filter_cong) (auto simp: up(1))
  with migration_table.down_effect [OF assms(1,6) t] ms
  have down: "stored docs db2 = stored docs db1 - {v. target < v \<and> v \<in> mg_Version ` set migrations}"
    "md_rest db2 = fold run_down (rev ?high) (md_rest db1)" by simp_all
  have "fold run_up ?ms s = fold run_up ?high (fold run_up ?low s)" for s
    using sorted_split [of mg_Version ?ms target] by (metis fold_append comp_apply sorted_sort_key)
  moreover have "fold run_down (rev ?high) (fold run_up ?high s) = s" for s
    by (rule run_down_up) (use assms(7) in auto)
  ultimately have "md_rest db2 = fold run_up ?low (md_rest db)" using down(2) up(2) by simp
  with down(1) up(1) show ?thesis by auto
qed

subsection \<open>In memory\<close>

definition demo_migration :: "int \<Rightarrow> int list migration" where
  "demo_migration v = \<lparr>mg_Version = v, mg_Name = ''m'', mg_Up = Some (\<lambda>s. (s @ [v], None)), mg_Down = Some (\<lambda>s. (butlast s, None)), mg_Description = []\<rparr>"

abbreviation "demo_runner \<equiv> NewMigrationRunner (mem_ops [''version'']) (\<lambda>c. (c, None)) [demo_migration 2, demo_migration 1]"

definition demo_migrations :: "(mem_coll, int list) migration_db" where
  "demo_migrations = \<lparr>md_records = \<lparr>mc_docs = [], mc_next = 0\<rparr>, md_rest = []\<rparr>"

interpretation demo_table: migration_table demo_runner mc_docs "\<lambda>c. uniques [''version''] (mc_docs c)"
proof (intro migration_table.intro unique_collection.intro)
  show "mongo_collection (mu_ops demo_runner) mc_docs (\<lambda>c. uniques [''version''] (mc_docs c))"
    by (simp add: NewMigrationRunner_def mem.mongo_collection_axioms)
  show "unique_collection_axioms mc_docs (\<lambda>c. uniques [''version''] (mc_docs c)) ''version''"
    by (simp add: unique_collection_axioms_def uniques_def)
  show "migration_table_axioms demo_runner mc_docs (\<lambda>c. uniques [''version''] (mc_docs c))"
    by (simp add: migration_table_axioms_def NewMigrationRunner_def)
qed

lemma demo_runner_ok: "runner_ok demo_runner"
  by (simp add: runner_ok_def NewMigrationRunner_def demo_migration_def int_fits_def)

lemma demo_table: "rows_valid migration_row mc_docs (\<lambda>c. uniques [''version''] (mc_docs c)) (md_records demo_migrations)"
  by (simp add: rows_valid_def rows_all_def uniques_def unique_on_def demo_migrations_def)

lemma demo_up: "\<exists>db1. Up demo_runner unix_epoch demo_migrations = (db1, None) \<and>
    mc_docs (md_records db1) = [with_id 0 (encode_migration \<lparr>mr_Version = 1, mr_Name = ''m'', mr_AppliedAt = unix_epoch\<rparr>),
      with_id 1 (encode_migration \<lparr>mr_Version = 2, mr_Name = ''m'', mr_AppliedAt = unix_epoch\<rparr>)]"
  by (simp add: Up_def ensureIndex_def appliedVersions_def NewMigrationRunner_def demo_migration_def demo_migrations_def mem_ops_def
      checked_def mem_sorted_def all_opts_def page_def encode_migration_def with_id_def uniques_def unique_on_def)

theorem up_applies_pending_witness:
  "\<exists>db1. Up demo_runner unix_epoch demo_migrations = (db1, None) \<and> md_rest db1 = [1, 2] \<and> stored mc_docs db1 = {1, 2}"
proof -
  from demo_up obtain db1 where u: "Up demo_runner unix_epoch demo_migrations = (db1, None)" by blast
  from up_applies_pending [OF demo_table.migration_table_axioms demo_runner_ok demo_table u] u show ?thesis
    by (auto simp: stored_def demo_migrations_def rows_in_def pending_def NewMigrationRunner_def demo_migration_def run_up_def)
qed

theorem down_undoes_up_witness:
  "\<exists>db1 db2. Up demo_runner unix_epoch demo_migrations = (db1, None) \<and> Down demo_runner 1 db1 = (db2, None) \<and> md_rest db2 = [1] \<and> stored mc_docs db2 = {1}"
proof -
  from demo_up obtain db1 where u: "Up demo_runner unix_epoch demo_migrations = (db1, None)"
    "mc_docs (md_records db1) = [with_id 0 (encode_migration \<lparr>mr_Version = 1, mr_Name = ''m'', mr_AppliedAt = unix_epoch\<rparr>),
      with_id 1 (encode_migration \<lparr>mr_Version = 2, mr_Name = ''m'', mr_AppliedAt = unix_epoch\<rparr>)]" by blast
  obtain db2 where d: "Down demo_runner 1 db1 = (db2, None)"
    using u(2) by (simp add: Down_def appliedVersions_def NewMigrationRunner_def demo_migration_def mem_ops_def mem_sorted_def all_opts_def
        page_def decode_migration_def encode_migration_def with_id_def get_int_def get_str_def)
  have inv: "run_down m (run_up m s) = s" if "m \<in> set [demo_migration 2, demo_migration 1]" for m s
    using that by (auto simp: run_down_def run_up_def demo_migration_def)
  have "stored mc_docs demo_migrations = {}" by (simp add: stored_def demo_migrations_def rows_in_def)
  from down_undoes_up [OF demo_table.migration_table_axioms demo_runner_ok demo_table this u(1) d inv] u(1) d show ?thesis
    by (auto simp: demo_migrations_def demo_migration_def run_up_def)
qed

end
