(* ===== verification/HotReload.thy ===== *)
theory HotReload
  imports GoStd
begin

text \<open>
  \<^verbatim>\<open>internal/hotreload/hot_reload.go\<close>: modules built as Go plugins and configuration files that are loaded
  again when their file changes, with callbacks. The file system, the watcher and what the callbacks do are
  parameters over a state \<open>'w\<close> of the process; \<open>'p\<close> are loaded plugins and \<open>'d\<close> parsed configurations.
  \<^verbatim>\<open>plugin.Open\<close> is modelled as documented: a path that has been opened gives the plugin it gave before.
\<close>

subsection \<open>State\<close>

record 'p hr_module =
  hm_Name :: string
  hm_Path :: string
  hm_Plugin :: "'p option"
  hm_LastModTime :: time
  hm_Version :: string
  hm_Dependencies :: "string list"

record 'd config_parser =
  pa_Parse :: "byte list \<Rightarrow> string + 'd"
  pa_Validate :: "'d \<Rightarrow> string option"

record 'd hr_config =
  hc_Path :: string
  hc_LastModTime :: time
  hc_Parser :: "'d config_parser"
  hc_Data :: "'d option"

text \<open>The values a callback is given: none, the data of a configuration, or a module.\<close>

datatype ('p, 'd) hr_value = NoValue | ConfigValue 'd | ModuleValue "'p hr_module"

type_synonym ('p, 'd, 'w) reload_callback = "string \<Rightarrow> ('p, 'd) hr_value \<Rightarrow> ('p, 'd) hr_value \<Rightarrow> 'w \<Rightarrow> 'w \<times> string option"

record ('p, 'w) hr_os =
  ho_abs :: "string \<Rightarrow> string + string"
  ho_stat :: "'w \<Rightarrow> string \<Rightarrow> string + time"
  ho_read :: "'w \<Rightarrow> string \<Rightarrow> string + byte list"
  ho_watch :: "string \<Rightarrow> 'w \<Rightarrow> 'w \<times> string option"
  ho_open :: "string \<Rightarrow> 'w \<Rightarrow> string + 'p"
  ho_close :: "'w \<Rightarrow> 'w \<times> string option"

record ('p, 'd, 'w) hr_manager =
  hr_modules :: "string \<Rightarrow> 'p hr_module option"
  hr_configs :: "string \<Rightarrow> 'd hr_config option"
  hr_callbacks :: "string \<Rightarrow> ('p, 'd, 'w) reload_callback list"
  hr_opened :: "string \<Rightarrow> 'p option"
  hr_world :: 'w
  hr_cancelled :: bool

definition NewHotReloadManager :: "'w \<times> string option \<Rightarrow> string + ('p, 'd, 'w) hr_manager" where
  "NewHotReloadManager watcher =
     (case watcher of
        (w, Some err) \<Rightarrow> Inl (''failed to create file watcher: '' @ err)
      | (w, None) \<Rightarrow> Inr \<lparr>hr_modules = Map.empty, hr_configs = Map.empty, hr_callbacks = (\<lambda>_. []), hr_opened = Map.empty, hr_world = w,
          hr_cancelled = False\<rparr>)"

subsection \<open>Loading\<close>

definition open_plugin :: "('p, 'w) hr_os \<Rightarrow> string \<Rightarrow> ('p, 'd, 'w) hr_manager \<Rightarrow> ('p, 'd, 'w) hr_manager \<times> (string + 'p)" where
  "open_plugin os path m =
     (case hr_opened m path of
        Some p \<Rightarrow> (m, Inr p)
      | None \<Rightarrow> (case ho_open os path (hr_world m) of
            Inl err \<Rightarrow> (m, Inl err)
          | Inr p \<Rightarrow> (m\<lparr>hr_opened := (hr_opened m)(path \<mapsto> p)\<rparr>, Inr p)))"

text \<open>\<^verbatim>\<open>buildPlugin\<close> builds nothing. The result is the module as it was changed, which a caller may hold.\<close>

definition buildPlugin :: "'p hr_module \<Rightarrow> string option" where
  "buildPlugin module = None"

definition loadModule :: "('p, 'w) hr_os \<Rightarrow> time \<Rightarrow> 'p hr_module \<Rightarrow> ('p, 'd, 'w) hr_manager \<Rightarrow>
    ('p, 'd, 'w) hr_manager \<times> 'p hr_module \<times> string option" where
  "loadModule os now module m =
     (case buildPlugin module of
        Some err \<Rightarrow> (m, module, Some (''failed to build plugin: '' @ err))
      | None \<Rightarrow> (case open_plugin os (hm_Path module) m of
            (m1, Inl err) \<Rightarrow> (m1, module, Some (''failed to open plugin: '' @ err))
          | (m1, Inr p) \<Rightarrow> (m1, module\<lparr>hm_Plugin := Some p, hm_Version := fmt_int (time_unix now)\<rparr>, None)))"

text \<open>The callbacks run in the order in which they were registered; their errors are logged.\<close>

definition run_callbacks :: "string \<Rightarrow> ('p, 'd) hr_value \<Rightarrow> ('p, 'd) hr_value \<Rightarrow> ('p, 'd, 'w) hr_manager \<Rightarrow> ('p, 'd, 'w) hr_manager" where
  "run_callbacks name old new m = m\<lparr>hr_world := fold (\<lambda>callback w. fst (callback name old new w)) (hr_callbacks m name) (hr_world m)\<rparr>"

definition read_config :: "('p, 'w) hr_os \<Rightarrow> 'd hr_config \<Rightarrow> 'w \<Rightarrow> string + 'd" where
  "read_config os config w =
     (case ho_read os w (hc_Path config) of
        Inl err \<Rightarrow> Inl (''failed to read config file: '' @ err)
      | Inr data \<Rightarrow>
          (case pa_Parse (hc_Parser config) data of
             Inl err \<Rightarrow> Inl (''failed to parse config: '' @ err)
           | Inr parsed \<Rightarrow>
               (case pa_Validate (hc_Parser config) parsed of
                  Some err \<Rightarrow> Inl (''config validation failed: '' @ err)
                | None \<Rightarrow> Inr parsed)))"

definition config_value :: "'d option \<Rightarrow> ('p, 'd) hr_value" where
  "config_value x = (case x of None \<Rightarrow> NoValue | Some d \<Rightarrow> ConfigValue d)"

definition loadConfig :: "('p, 'w) hr_os \<Rightarrow> 'd hr_config \<Rightarrow> ('p, 'd, 'w) hr_manager \<Rightarrow>
    ('p, 'd, 'w) hr_manager \<times> 'd hr_config \<times> string option" where
  "loadConfig os config m =
     (case read_config os config (hr_world m) of
        Inl err \<Rightarrow> (m, config, Some err)
      | Inr parsed \<Rightarrow> (run_callbacks (hc_Path config) (config_value (hc_Data config)) (ConfigValue parsed) m, config\<lparr>hc_Data := Some parsed\<rparr>, None))"

subsection \<open>Registration\<close>

definition stat_path :: "('p, 'w) hr_os \<Rightarrow> string \<Rightarrow> 'w \<Rightarrow> string + string \<times> time" where
  "stat_path os path w =
     (case ho_abs os path of
        Inl err \<Rightarrow> Inl (''failed to get absolute path: '' @ err)
      | Inr p \<Rightarrow> (case ho_stat os w p of Inl err \<Rightarrow> Inl (''failed to stat file: '' @ err) | Inr t \<Rightarrow> Inr (p, t)))"

definition watch_path :: "('p, 'w) hr_os \<Rightarrow> string \<Rightarrow> ('p, 'd, 'w) hr_manager \<Rightarrow> ('p, 'd, 'w) hr_manager \<times> string option" where
  "watch_path os p m =
     (let (w, e) = ho_watch os p (hr_world m) in (m\<lparr>hr_world := w\<rparr>, map_option (\<lambda>err. ''failed to add file to watcher: '' @ err) e))"

definition RegisterModule :: "('p, 'w) hr_os \<Rightarrow> time \<Rightarrow> string \<Rightarrow> string \<Rightarrow> string list \<Rightarrow> ('p, 'd, 'w) hr_manager \<Rightarrow>
    ('p, 'd, 'w) hr_manager \<times> string option" where
  "RegisterModule os now name path dependencies m =
     (case stat_path os path (hr_world m) of
        Inl err \<Rightarrow> (m, Some err)
      | Inr (p, t) \<Rightarrow>
          (case loadModule os now \<lparr>hm_Name = name, hm_Path = p, hm_Plugin = None, hm_LastModTime = t, hm_Version = [], hm_Dependencies = dependencies\<rparr> m of
             (m1, module, Some err) \<Rightarrow> (m1, Some (''failed to load module: '' @ err))
           | (m1, module, None) \<Rightarrow> watch_path os p (m1\<lparr>hr_modules := (hr_modules m1)(name \<mapsto> module)\<rparr>)))"

definition RegisterConfig :: "('p, 'w) hr_os \<Rightarrow> string \<Rightarrow> 'd config_parser \<Rightarrow> ('p, 'd, 'w) hr_manager \<Rightarrow>
    ('p, 'd, 'w) hr_manager \<times> string option" where
  "RegisterConfig os path parser m =
     (case stat_path os path (hr_world m) of
        Inl err \<Rightarrow> (m, Some err)
      | Inr (p, t) \<Rightarrow>
          (case loadConfig os \<lparr>hc_Path = p, hc_LastModTime = t, hc_Parser = parser, hc_Data = None\<rparr> m of
             (m1, config, Some err) \<Rightarrow> (m1, Some (''failed to load config: '' @ err))
           | (m1, config, None) \<Rightarrow> watch_path os p (m1\<lparr>hr_configs := (hr_configs m1)(p \<mapsto> config)\<rparr>)))"

definition RegisterCallback :: "string \<Rightarrow> ('p, 'd, 'w) reload_callback \<Rightarrow> ('p, 'd, 'w) hr_manager \<Rightarrow> ('p, 'd, 'w) hr_manager" where
  "RegisterCallback name callback m = m\<lparr>hr_callbacks := (hr_callbacks m)(name := hr_callbacks m name @ [callback])\<rparr>"

subsection \<open>Changes of files\<close>

definition reloadModule :: "('p, 'w) hr_os \<Rightarrow> time \<Rightarrow> string \<Rightarrow> 'p hr_module \<Rightarrow> ('p, 'd, 'w) hr_manager \<Rightarrow> ('p, 'd, 'w) hr_manager" where
  "reloadModule os now key module m =
     (case ho_stat os (hr_world m) (hm_Path module) of
        Inl _ \<Rightarrow> m
      | Inr t \<Rightarrow>
          if \<not> t > hm_LastModTime module then m
          else case loadModule os now (module\<lparr>hm_LastModTime := t\<rparr>) m of
            (m1, module1, Some _) \<Rightarrow> m1\<lparr>hr_modules := (hr_modules m1)(key \<mapsto> module1)\<rparr>
          | (m1, module1, None) \<Rightarrow> run_callbacks (hm_Name module1) NoValue (ModuleValue module1) (m1\<lparr>hr_modules := (hr_modules m1)(key \<mapsto> module1)\<rparr>))"

definition reloadConfig :: "('p, 'w) hr_os \<Rightarrow> string \<Rightarrow> 'd hr_config \<Rightarrow> ('p, 'd, 'w) hr_manager \<Rightarrow> ('p, 'd, 'w) hr_manager" where
  "reloadConfig os key config m =
     (case ho_stat os (hr_world m) (hc_Path config) of
        Inl _ \<Rightarrow> m
      | Inr t \<Rightarrow>
          if \<not> t > hc_LastModTime config then m
          else (let (m1, config1, e) = loadConfig os (config\<lparr>hc_LastModTime := t\<rparr>) m in m1\<lparr>hr_configs := (hr_configs m1)(key \<mapsto> config1)\<rparr>))"

text \<open>The modules are ranged over in the order of their names that is given.\<close>

fun module_at :: "string \<Rightarrow> string list \<Rightarrow> ('p, 'd, 'w) hr_manager \<Rightarrow> (string \<times> 'p hr_module) option" where
  "module_at p [] m = None"
| "module_at p (name # names) m =
     (case hr_modules m name of
        Some module \<Rightarrow> if hm_Path module = p then Some (name, module) else module_at p names m
      | None \<Rightarrow> module_at p names m)"

definition handleFileChange :: "('p, 'w) hr_os \<Rightarrow> time \<Rightarrow> string list \<Rightarrow> string \<Rightarrow> ('p, 'd, 'w) hr_manager \<Rightarrow> ('p, 'd, 'w) hr_manager" where
  "handleFileChange os now names path m =
     (case ho_abs os path of
        Inl _ \<Rightarrow> m
      | Inr p \<Rightarrow>
          (case module_at p names m of
             Some (name, module) \<Rightarrow> reloadModule os now name module m
           | None \<Rightarrow> (case hr_configs m p of Some config \<Rightarrow> reloadConfig os p config m | None \<Rightarrow> m)))"

text \<open>One event of the watch loop; only writes are handled, and nothing after \<^verbatim>\<open>Close\<close>.\<close>

definition watch_event :: "('p, 'w) hr_os \<Rightarrow> time \<Rightarrow> string list \<Rightarrow> bool \<Rightarrow> string \<Rightarrow> ('p, 'd, 'w) hr_manager \<Rightarrow> ('p, 'd, 'w) hr_manager" where
  "watch_event os now names is_write path m =
     (if hr_cancelled m then m else if is_write then handleFileChange os now names path m else m)"

subsection \<open>Access\<close>

definition GetModule :: "string \<Rightarrow> ('p, 'd, 'w) hr_manager \<Rightarrow> 'p hr_module option" where
  "GetModule name m = hr_modules m name"

definition GetConfig :: "string \<Rightarrow> ('p, 'd, 'w) hr_manager \<Rightarrow> 'd option option" where
  "GetConfig path m = map_option hc_Data (hr_configs m path)"

text \<open>A symbol of a plugin is a function or something else.\<close>

definition InvokeModuleFunction :: "('p \<Rightarrow> string \<Rightarrow> ('a list \<Rightarrow> 'r) option option) \<Rightarrow> string \<Rightarrow> string \<Rightarrow> 'a list \<Rightarrow> ('p, 'd, 'w) hr_manager \<Rightarrow> string + 'r" where
  "InvokeModuleFunction lookup moduleName functionName args m =
     (case GetModule moduleName m of
        None \<Rightarrow> Inl (''module not found: '' @ moduleName)
      | Some module \<Rightarrow>
          (case hm_Plugin module of
             None \<Rightarrow> Inl (''module plugin not loaded: '' @ moduleName)
           | Some p \<Rightarrow>
               (case lookup p functionName of
                  None \<Rightarrow> Inl (''function not found: '' @ moduleName @ ''.'' @ functionName)
                | Some None \<Rightarrow> Inl (''symbol is not a function: '' @ moduleName @ ''.'' @ functionName)
                | Some (Some fn) \<Rightarrow> Inr (fn args))))"

definition Close_manager :: "('p, 'w) hr_os \<Rightarrow> ('p, 'd, 'w) hr_manager \<Rightarrow> ('p, 'd, 'w) hr_manager \<times> string option" where
  "Close_manager os m = (let (w, e) = ho_close os (hr_world m) in (m\<lparr>hr_cancelled := True, hr_world := w\<rparr>, e))"

text \<open>The parsers keep the text.\<close>

definition YAMLConfigParser :: "string config_parser" where
  "YAMLConfigParser = \<lparr>pa_Parse = (\<lambda>data. Inr (map (\<lambda>b. char_of (unat b)) data)), pa_Validate = (\<lambda>_. None)\<rparr>"

definition JSONConfigParser :: "string config_parser" where
  "JSONConfigParser = \<lparr>pa_Parse = (\<lambda>data. Inr (map (\<lambda>b. char_of (unat b)) data)), pa_Validate = (\<lambda>_. None)\<rparr>"

subsection \<open>Runs\<close>

text \<open>\<open>EnvE\<close> is a change of the process from outside: a file is written, for example.\<close>

datatype ('p, 'd, 'w) hr_event =
    ModuleE time string string "string list"
  | ConfigE string "'d config_parser"
  | CallbackE string "('p, 'd, 'w) reload_callback"
  | FileE time "string list" bool string
  | EnvE "'w \<Rightarrow> 'w"
  | CloseE

fun hr_step :: "('p, 'w) hr_os \<Rightarrow> ('p, 'd, 'w) hr_event \<Rightarrow> ('p, 'd, 'w) hr_manager \<Rightarrow> ('p, 'd, 'w) hr_manager" where
  "hr_step os (ModuleE now name path dependencies) m = fst (RegisterModule os now name path dependencies m)"
| "hr_step os (ConfigE path parser) m = fst (RegisterConfig os path parser m)"
| "hr_step os (CallbackE name callback) m = RegisterCallback name callback m"
| "hr_step os (FileE now names is_write path) m = watch_event os now names is_write path m"
| "hr_step os (EnvE f) m = m\<lparr>hr_world := f (hr_world m)\<rparr>"
| "hr_step os CloseE m = fst (Close_manager os m)"

definition hr_run :: "('p, 'w) hr_os \<Rightarrow> ('p, 'd, 'w) hr_event list \<Rightarrow> ('p, 'd, 'w) hr_manager \<Rightarrow> ('p, 'd, 'w) hr_manager" where
  "hr_run os es m = fold (hr_step os) es m"

text \<open>
  A configuration has data that its parser accepted and is kept under its path; a module has a plugin, the one
  of its path.
\<close>

definition accepted :: "'d hr_config \<Rightarrow> bool" where
  "accepted c \<longleftrightarrow> (\<exists>bytes d. pa_Parse (hc_Parser c) bytes = Inr d \<and> pa_Validate (hc_Parser c) d = None \<and> hc_Data c = Some d)"

definition hr_ok :: "('p, 'd, 'w) hr_manager \<Rightarrow> bool" where
  "hr_ok m \<longleftrightarrow> (\<forall>p c. hr_configs m p = Some c \<longrightarrow> hc_Path c = p \<and> accepted c) \<and>
     (\<forall>n x. hr_modules m n = Some x \<longrightarrow> hm_Name x = n \<and> (\<exists>q. hm_Plugin x = Some q \<and> hr_opened m (hm_Path x) = Some q))"

lemma read_accepted: "read_config os c w = Inr d \<Longrightarrow> accepted (c\<lparr>hc_Data := Some d\<rparr>)"
  by (auto simp: read_config_def accepted_def split: sum.splits option.splits)

lemma run_callbacks_simps [simp]:
  "hr_modules (run_callbacks n old new m) = hr_modules m" "hr_configs (run_callbacks n old new m) = hr_configs m"
  "hr_callbacks (run_callbacks n old new m) = hr_callbacks m" "hr_opened (run_callbacks n old new m) = hr_opened m"
  "hr_cancelled (run_callbacks n old new m) = hr_cancelled m"
  by (simp_all add: run_callbacks_def)

lemma watch_path_simps [simp]:
  "hr_modules (fst (watch_path os p m)) = hr_modules m" "hr_configs (fst (watch_path os p m)) = hr_configs m"
  "hr_callbacks (fst (watch_path os p m)) = hr_callbacks m" "hr_opened (fst (watch_path os p m)) = hr_opened m"
  by (simp_all add: watch_path_def split_beta)

text \<open>What loading a module does: a path that was opened keeps its plugin.\<close>

lemma module_loaded:
  assumes "loadModule os now x m = (m1, y, e)"
  shows "hr_modules m1 = hr_modules m \<and> hr_configs m1 = hr_configs m \<and> hr_opened m \<subseteq>\<^sub>m hr_opened m1 \<and> hm_Name y = hm_Name x \<and> hm_Path y = hm_Path x \<and>
    (e = None \<longrightarrow> (\<exists>q. hm_Plugin y = Some q \<and> hr_opened m1 (hm_Path x) = Some q)) \<and> (e \<noteq> None \<longrightarrow> y = x)"
  using assms by (auto simp: loadModule_def buildPlugin_def open_plugin_def map_le_def split: option.splits sum.splits)

lemma config_loaded:
  assumes "loadConfig os x m = (m1, y, e)"
  shows "hr_modules m1 = hr_modules m \<and> hr_configs m1 = hr_configs m \<and> hr_opened m1 = hr_opened m \<and> hc_Path y = hc_Path x \<and> hc_Parser y = hc_Parser x \<and>
    (e = None \<longrightarrow> accepted y) \<and> (e \<noteq> None \<longrightarrow> y = x)"
  using assms read_accepted by (fastforce simp: loadConfig_def split: sum.splits)

lemma accepted_time [simp]: "accepted (c\<lparr>hc_LastModTime := t\<rparr>) \<longleftrightarrow> accepted c"
  by (simp add: accepted_def)

lemma opened_mono: "f \<subseteq>\<^sub>m g \<Longrightarrow> f p = Some q \<Longrightarrow> g p = Some q"
  by (metis domI map_le_def)

lemma hr_ok_module_at: "hr_ok m \<Longrightarrow> hr_modules m n = Some x \<Longrightarrow> hm_Name x = n \<and> (\<exists>q. hm_Plugin x = Some q \<and> hr_opened m (hm_Path x) = Some q)"
  unfolding hr_ok_def by blast

lemma hr_ok_config_at: "hr_ok m \<Longrightarrow> hr_configs m p = Some c \<Longrightarrow> hc_Path c = p \<and> accepted c"
  unfolding hr_ok_def by blast

lemma hr_ok_grow:
  assumes "hr_ok m" and "hr_modules m1 = hr_modules m" and "hr_configs m1 = hr_configs m" and "hr_opened m \<subseteq>\<^sub>m hr_opened m1"
  shows "hr_ok m1"
  unfolding hr_ok_def assms(2,3)
proof (intro conjI allI impI)
  fix n x assume "hr_modules m n = Some x"
  from hr_ok_module_at [OF assms(1) this] opened_mono [OF assms(4)] show "hm_Name x = n"
    and "\<exists>q. hm_Plugin x = Some q \<and> hr_opened m1 (hm_Path x) = Some q" by blast+
qed (use hr_ok_config_at [OF assms(1)] in blast)+

lemma hr_ok_module:
  "hr_ok m \<Longrightarrow> hm_Plugin y = Some q \<Longrightarrow> hr_opened m (hm_Path y) = Some q \<Longrightarrow> hm_Name y = n \<Longrightarrow> hr_ok (m\<lparr>hr_modules := (hr_modules m)(n \<mapsto> y)\<rparr>)"
  by (simp add: hr_ok_def)

lemma hr_ok_config: "hr_ok m \<Longrightarrow> accepted c \<Longrightarrow> hc_Path c = p \<Longrightarrow> hr_ok (m\<lparr>hr_configs := (hr_configs m)(p \<mapsto> c)\<rparr>)"
  by (simp add: hr_ok_def)

lemma hr_ok_same: "hr_modules m1 = hr_modules m \<Longrightarrow> hr_configs m1 = hr_configs m \<Longrightarrow> hr_opened m1 = hr_opened m \<Longrightarrow> hr_ok m1 = hr_ok m"
  by (simp add: hr_ok_def)

lemma module_at_Some: "module_at p names m = Some (n, x) \<Longrightarrow> hr_modules m n = Some x \<and> hm_Path x = p"
  by (induction names) (auto split: option.splits if_splits)

lemma watch_event_cases:
  "watch_event os now names is_write path m = m \<or>
   (\<exists>n x. hr_modules m n = Some x \<and> watch_event os now names is_write path m = reloadModule os now n x m) \<or>
   (\<exists>p c. hr_configs m p = Some c \<and> watch_event os now names is_write path m = reloadConfig os p c m)"
proof (cases "hr_cancelled m \<or> \<not> is_write")
  case False
  show ?thesis
  proof (cases "ho_abs os path")
    case (Inr p)
    show ?thesis
    proof (cases "module_at p names m")
      case None
      with Inr False show ?thesis by (cases "hr_configs m p") (simp_all add: watch_event_def handleFileChange_def, blast)
    next
      case (Some nx)
      with Inr False module_at_Some [of p names m] show ?thesis by (cases nx) (simp add: watch_event_def handleFileChange_def, blast)
    qed
  qed (simp add: watch_event_def handleFileChange_def)
qed (auto simp: watch_event_def)

lemma hr_step_ok:
  assumes "hr_ok m"
  shows "hr_ok (hr_step os e m) \<and> hr_opened m \<subseteq>\<^sub>m hr_opened (hr_step os e m)"
proof (cases e)
  case (ModuleE now name path dependencies)
  show ?thesis
  proof (cases "stat_path os path (hr_world m)")
    case (Inr pt)
    obtain p t where pt: "pt = (p, t)" by (cases pt)
    let ?x = "\<lparr>hm_Name = name, hm_Path = p, hm_Plugin = None, hm_LastModTime = t, hm_Version = [], hm_Dependencies = dependencies\<rparr> :: 'a hr_module"
    obtain m1 y e' where l: "loadModule os now ?x m = (m1, y, e')" by (metis prod_cases3)
    note ml = module_loaded [OF l]
    have m1: "hr_ok m1" by (rule hr_ok_grow [OF assms]) (use ml in simp_all)
    show ?thesis
    proof (cases e')
      case None
      with ml obtain q where "hm_Plugin y = Some q" "hr_opened m1 (hm_Path y) = Some q" "hm_Name y = name" by auto
      from hr_ok_module [OF m1 this] have "hr_ok (fst (watch_path os p (m1\<lparr>hr_modules := (hr_modules m1)(name \<mapsto> y)\<rparr>)))"
        by (simp add: hr_ok_same [of "fst (watch_path os p (m1\<lparr>hr_modules := (hr_modules m1)(name \<mapsto> y)\<rparr>))" "m1\<lparr>hr_modules := (hr_modules m1)(name \<mapsto> y)\<rparr>"])
      with None ml l Inr pt ModuleE show ?thesis by (simp add: RegisterModule_def)
    next
      case (Some err)
      with ml m1 l Inr pt ModuleE show ?thesis by (simp add: RegisterModule_def)
    qed
  qed (use assms ModuleE in \<open>simp add: RegisterModule_def\<close>)
next
  case (ConfigE path parser)
  show ?thesis
  proof (cases "stat_path os path (hr_world m)")
    case (Inr pt)
    obtain p t where pt: "pt = (p, t)" by (cases pt)
    let ?x = "\<lparr>hc_Path = p, hc_LastModTime = t, hc_Parser = parser, hc_Data = None\<rparr>"
    obtain m1 y e' where l: "loadConfig os ?x m = (m1, y, e')" by (metis prod_cases3)
    note cl = config_loaded [OF l]
    show ?thesis
    proof (cases e')
      case None
      with cl l Inr pt ConfigE assms show ?thesis by (auto simp: RegisterConfig_def hr_ok_def)
    next
      case (Some err)
      with cl l Inr pt ConfigE assms show ?thesis by (auto simp: RegisterConfig_def hr_ok_def)
    qed
  qed (use assms ConfigE in \<open>simp add: RegisterConfig_def\<close>)
next
  case (FileE now names is_write path)
  have mods: "hr_ok (reloadModule os now n x m) \<and> hr_opened m \<subseteq>\<^sub>m hr_opened (reloadModule os now n x m)" if "hr_modules m n = Some x" for n x
  proof -
    from hr_ok_module_at [OF assms that] obtain q where x: "hm_Name x = n" "hm_Plugin x = Some q" "hr_opened m (hm_Path x) = Some q" by blast
    show ?thesis
    proof (cases "ho_stat os (hr_world m) (hm_Path x)")
      case (Inr t)
      obtain m1 y e' where l: "loadModule os now (x\<lparr>hm_LastModTime := t\<rparr>) m = (m1, y, e')" by (metis prod_cases3)
      note ml = module_loaded [OF l]
      have m1: "hr_ok m1" by (rule hr_ok_grow [OF assms]) (use ml in simp_all)
      have q: "hr_opened m1 (hm_Path x) = Some q" by (rule opened_mono [where f = "hr_opened m"]) (use ml x(3) in simp_all)
      have p: "hm_Path y = hm_Path x" "hm_Name y = n" using ml x(1) by simp_all
      have "hm_Plugin y = Some q"
      proof (cases e')
        case None
        with ml obtain q' where "hm_Plugin y = Some q'" "hr_opened m1 (hm_Path x) = Some q'" by auto
        with q show ?thesis by simp
      next
        case (Some err)
        with ml have "y = x\<lparr>hm_LastModTime := t\<rparr>" by blast
        with x(2) show ?thesis by simp
      qed
      from hr_ok_module [OF m1 this _ p(2)] q p(1) have y: "hr_ok (m1\<lparr>hr_modules := (hr_modules m1)(n \<mapsto> y)\<rparr>)" by simp
      then have "hr_ok (run_callbacks k old new (m1\<lparr>hr_modules := (hr_modules m1)(n \<mapsto> y)\<rparr>))" for k old new
        by (simp add: hr_ok_same [of "run_callbacks k old new (m1\<lparr>hr_modules := (hr_modules m1)(n \<mapsto> y)\<rparr>)" "m1\<lparr>hr_modules := (hr_modules m1)(n \<mapsto> y)\<rparr>"])
      with y ml l Inr assms show ?thesis by (cases e') (simp_all add: reloadModule_def)
    qed (use assms in \<open>simp add: reloadModule_def\<close>)
  qed
  have confs: "hr_ok (reloadConfig os p c m) \<and> hr_opened m \<subseteq>\<^sub>m hr_opened (reloadConfig os p c m)" if "hr_configs m p = Some c" for p c
  proof (cases "ho_stat os (hr_world m) (hc_Path c)")
    case (Inr t)
    obtain m1 y e' where l: "loadConfig os (c\<lparr>hc_LastModTime := t\<rparr>) m = (m1, y, e')" by (metis prod_cases3)
    note cl = config_loaded [OF l]
    from hr_ok_config_at [OF assms that] have c: "hc_Path c = p" "accepted c" by simp_all
    with cl have "hc_Path y = p \<and> accepted y" by (cases e') auto
    with cl l Inr assms show ?thesis by (auto simp: reloadConfig_def hr_ok_def)
  qed (use assms in \<open>simp add: reloadConfig_def\<close>)
  let ?s = "watch_event os now names is_write path m"
  from watch_event_cases [of os now names is_write path m] have "hr_ok ?s \<and> hr_opened m \<subseteq>\<^sub>m hr_opened ?s"
  proof (elim disjE exE conjE)
    assume e: "?s = m"
    show ?thesis unfolding e using assms by simp
  next
    fix n x assume "hr_modules m n = Some x" and e: "?s = reloadModule os now n x m"
    then show ?thesis unfolding e using mods by blast
  next
    fix p c assume "hr_configs m p = Some c" and e: "?s = reloadConfig os p c m"
    then show ?thesis unfolding e using confs by blast
  qed
  with FileE show ?thesis by simp
qed (use assms in \<open>auto simp: RegisterCallback_def Close_manager_def hr_ok_def split_beta\<close>)

lemma hr_run_ok: "hr_ok m \<Longrightarrow> hr_ok (hr_run os es m) \<and> hr_opened m \<subseteq>\<^sub>m hr_opened (hr_run os es m)"
proof (induction es arbitrary: m)
  case (Cons e es)
  from hr_step_ok [OF Cons.prems] Cons.IH [of "hr_step os e m"] show ?case by (auto simp: hr_run_def intro: map_le_trans)
qed (simp add: hr_run_def)

subsection \<open>Properties\<close>

text \<open>
  a configuration is always one that its parser accepted: in every run of the manager, whatever is written
  to the files, what \<^verbatim>\<open>GetConfig\<close> returns was parsed by the parser of the configuration from some content and
  passed its validation.
\<close>

theorem configs_accepted:
  assumes "NewHotReloadManager watcher = Inr m" and "hr_configs (hr_run os es m) p = Some c"
  shows "\<exists>bytes d. GetConfig p (hr_run os es m) = Some (Some d) \<and> pa_Parse (hc_Parser c) bytes = Inr d \<and> pa_Validate (hc_Parser c) d = None"
proof -
  from assms(1) have "hr_ok m" by (auto simp: NewHotReloadManager_def hr_ok_def split: prod.splits option.splits)
  from hr_run_ok [OF this, of os es] have "hr_ok (hr_run os es m)" ..
  from hr_ok_config_at [OF this assms(2)] assms(2) show ?thesis by (auto simp: GetConfig_def accepted_def)
qed


text \<open>
  a module is never really reloaded: whatever happens to its file, as long as a module is registered under
  a path it has the plugin of the first time, since \<^verbatim>\<open>plugin.Open\<close> gives the plugin it gave before; its version
  and its callbacks say otherwise.
\<close>

theorem module_keeps_plugin:
  assumes "NewHotReloadManager watcher = Inr m0" and "GetModule name (hr_run os es m0) = Some x"
    and "GetModule name (hr_run os es' (hr_run os es m0)) = Some y" and "hm_Path y = hm_Path x"
  shows "hm_Plugin y = hm_Plugin x \<and> hm_Plugin x \<noteq> None"
proof -
  from assms(1) have "hr_ok m0" by (auto simp: NewHotReloadManager_def hr_ok_def split: prod.splits option.splits)
  then have ok: "hr_ok (hr_run os es m0)" using hr_run_ok by blast
  from hr_run_ok [OF this, of os es'] have ok': "hr_ok (hr_run os es' (hr_run os es m0))"
    "hr_opened (hr_run os es m0) \<subseteq>\<^sub>m hr_opened (hr_run os es' (hr_run os es m0))" by simp_all
  from hr_ok_module_at [OF ok assms(2) [unfolded GetModule_def]] obtain q where
    x: "hm_Plugin x = Some q" "hr_opened (hr_run os es m0) (hm_Path x) = Some q" by blast
  from hr_ok_module_at [OF ok'(1) assms(3) [unfolded GetModule_def]] obtain q' where
    "hm_Plugin y = Some q'" "hr_opened (hr_run os es' (hr_run os es m0)) (hm_Path y) = Some q'" by blast
  with opened_mono [OF ok'(2) x(2)] assms(4) x(1) show ?thesis by simp
qed

subsection \<open>Files in memory\<close>

text \<open>A file has a time and a content; opening a plugin reads the content.\<close>

definition demo_os :: "(byte list, string \<Rightarrow> (time \<times> byte list) option) hr_os" where
  "demo_os = \<lparr>ho_abs = (\<lambda>p. Inr (CHR ''/'' # p)),
     ho_stat = (\<lambda>w p. case w p of None \<Rightarrow> Inl ''no such file'' | Some (t, _) \<Rightarrow> Inr t),
     ho_read = (\<lambda>w p. case w p of None \<Rightarrow> Inl ''no such file'' | Some (_, b) \<Rightarrow> Inr b),
     ho_watch = (\<lambda>p w. (w, None)), ho_open = (\<lambda>p w. case w p of None \<Rightarrow> Inl ''no such file'' | Some (_, b) \<Rightarrow> Inr b), ho_close = (\<lambda>w. (w, None))\<rparr>"

definition demo_files :: "string \<Rightarrow> (time \<times> byte list) option" where
  "demo_files = [''/c'' \<mapsto> (1, [104, 105]), ''/m'' \<mapsto> (1, [1])]"

definition demo_parser :: "byte list config_parser" where
  "demo_parser = \<lparr>pa_Parse = Inr, pa_Validate = (\<lambda>_. None)\<rparr>"

definition demo_manager :: "(byte list, byte list, string \<Rightarrow> (time \<times> byte list) option) hr_manager" where
  "demo_manager = \<lparr>hr_modules = Map.empty, hr_configs = Map.empty, hr_callbacks = (\<lambda>_. []), hr_opened = Map.empty, hr_world = demo_files,
     hr_cancelled = False\<rparr>"

lemma demo_manager: "NewHotReloadManager (demo_files, None) = Inr demo_manager"
  by (simp add: NewHotReloadManager_def demo_manager_def)

lemmas demo_run_simps = hr_run_def demo_manager_def RegisterModule_def RegisterConfig_def stat_path_def loadModule_def buildPlugin_def
  open_plugin_def loadConfig_def read_config_def watch_path_def run_callbacks_def demo_parser_def demo_os_def demo_files_def
  GetModule_def GetConfig_def watch_event_def handleFileChange_def reloadModule_def reloadConfig_def config_value_def

theorem configs_accepted_witness:
  "\<exists>d. GetConfig ''/c'' (hr_run demo_os [ConfigE ''c'' demo_parser] demo_manager) = Some (Some d)"
proof -
  obtain c where "hr_configs (hr_run demo_os [ConfigE ''c'' demo_parser] demo_manager) ''/c'' = Some c"
    by (simp add: demo_run_simps)
  from configs_accepted [OF demo_manager this] show ?thesis by blast
qed


text \<open>The file of a module changes and is reloaded; its function is still the old one.\<close>

theorem module_keeps_plugin_witness:
  "\<exists>y. GetModule ''m'' (hr_run demo_os [EnvE (\<lambda>w. w(''/m'' \<mapsto> (2, [9]))), FileE 7 [''m''] True ''m''] (hr_run demo_os [ModuleE 1 ''m'' ''m'' []] demo_manager)) = Some y \<and>
     hm_LastModTime y = 2 \<and> hm_Plugin y = Some [1]"
proof -
  let ?es = "[ModuleE 1 ''m'' ''m'' []] :: (byte list, byte list, string \<Rightarrow> (time \<times> byte list) option) hr_event list"
  let ?es' = "[EnvE (\<lambda>w. w(''/m'' \<mapsto> (2, [9]))), FileE 7 [''m''] True ''m''] :: (byte list, byte list, string \<Rightarrow> (time \<times> byte list) option) hr_event list"
  obtain x where x: "GetModule ''m'' (hr_run demo_os ?es demo_manager) = Some x" "hm_Path x = ''/m''" "hm_Plugin x = Some [1]"
    by (simp add: demo_run_simps)
  obtain y where y: "GetModule ''m'' (hr_run demo_os ?es' (hr_run demo_os ?es demo_manager)) = Some y" "hm_Path y = ''/m''" "hm_LastModTime y = 2"
    by (simp add: demo_run_simps)
  from module_keeps_plugin [OF demo_manager x(1) y(1)] x y show ?thesis by simp
qed

end
