(* ===== verification/Monitoring.thy ===== *)
theory Monitoring
  imports GoStd Complex_Main
begin

text \<open>
  \<^verbatim>\<open>internal/monitoring/monitor.go\<close>: the guard of the management endpoints and their routes, the metrics, and
  the alert rules with their cooldown. \<^verbatim>\<open>net.ParseIP\<close>, the test of a range, the conditions of rules and the
  channels alerts are sent on are parameters; a Prometheus vector is a function from labels to values, without
  the rounding of floating point numbers.
\<close>

subsection \<open>Endpoints\<close>

record monitoring_options =
  mo_BindAddress :: string
  mo_AdminTokenEnv :: string
  mo_AllowedCIDRs :: "string list"
  mo_ProtectMetricsEndpoint :: bool









subsection \<open>Metrics\<close>

record metrics_collector =
  me_gauges :: "string \<Rightarrow> string list \<Rightarrow> rat option"
  me_counters :: "string \<Rightarrow> string list \<Rightarrow> int option"
  me_summaries :: "string \<Rightarrow> string list \<Rightarrow> rat list"
  me_custom :: "(string \<times> rat) list"

definition gauge_names :: "string list" where
  "gauge_names = [''tribeway_cpu_usage_percent'', ''tribeway_memory_usage_bytes'', ''tribeway_goroutines_total'', ''tribeway_heap_size_bytes'',
     ''tribeway_heap_objects_total'', ''tribeway_connections_total'', ''tribeway_actors_total'']"

definition counter_names :: "string list" where
  "counter_names = [''tribeway_messages_total'', ''tribeway_errors_total'']"

definition summary_names :: "string list" where
  "summary_names = [''tribeway_gc_duration_seconds'', ''tribeway_request_duration_seconds'']"

definition NewMetricsCollector :: metrics_collector where
  "NewMetricsCollector = \<lparr>me_gauges = (\<lambda>_ _. None), me_counters = (\<lambda>_ _. None), me_summaries = (\<lambda>_ _. []), me_custom = []\<rparr>"

definition set_gauge :: "string \<Rightarrow> string list \<Rightarrow> rat \<Rightarrow> metrics_collector \<Rightarrow> metrics_collector" where
  "set_gauge name labels v mc = mc\<lparr>me_gauges := (me_gauges mc)(name := (me_gauges mc name)(labels \<mapsto> v))\<rparr>"

definition inc_counter :: "string \<Rightarrow> string list \<Rightarrow> metrics_collector \<Rightarrow> metrics_collector" where
  "inc_counter name labels mc = mc\<lparr>me_counters := (me_counters mc)(name := (me_counters mc name)(labels \<mapsto>
     (case me_counters mc name labels of None \<Rightarrow> 1 | Some n \<Rightarrow> n + 1)))\<rparr>"

definition observe :: "string \<Rightarrow> string list \<Rightarrow> rat \<Rightarrow> metrics_collector \<Rightarrow> metrics_collector" where
  "observe name labels v mc = mc\<lparr>me_summaries := (me_summaries mc)(name := (me_summaries mc name)(labels := me_summaries mc name labels @ [v]))\<rparr>"

text \<open>The description of the collector and what a scrape collects.\<close>

definition Describe :: "string list" where
  "Describe = gauge_names @ counter_names @ summary_names"

definition Collect :: "metrics_collector \<Rightarrow> (string \<Rightarrow> string list \<Rightarrow> rat option) \<times> (string \<Rightarrow> string list \<Rightarrow> int option) \<times> (string \<Rightarrow> string list \<Rightarrow> rat list) \<times> rat list" where
  "Collect mc = (\<lambda>n. if n \<in> set gauge_names then me_gauges mc n else Map.empty, \<lambda>n. if n \<in> set counter_names then me_counters mc n else Map.empty,
     \<lambda>n. if n \<in> set summary_names then me_summaries mc n else (\<lambda>_. []), map snd (me_custom mc))"

text \<open>The readings of one tick: a reading that fails is \<open>None\<close>, and there is no pause before the first collection.\<close>

record system_reading =
  sr_cpu :: "rat option"
  sr_memory :: "int option"
  sr_goroutines :: int
  sr_heapSys :: int
  sr_heapObjects :: int
  sr_lastPause :: "duration option"

record monitor =
  mn_nodeID :: string
  mn_nodeType :: string
  mn_options :: monitoring_options
  mn_metrics :: metrics_collector

definition node_labels :: "monitor \<Rightarrow> string list" where
  "node_labels mm = [mn_nodeID mm, mn_nodeType mm]"

definition on_metrics :: "(metrics_collector \<Rightarrow> metrics_collector) \<Rightarrow> monitor \<Rightarrow> monitor" where
  "on_metrics f mm = mm\<lparr>mn_metrics := f (mn_metrics mm)\<rparr>"

definition updateSystemMetrics :: "system_reading \<Rightarrow> monitor \<Rightarrow> monitor" where
  "updateSystemMetrics r mm =
     (let l = node_labels mm;
          m1 = (case sr_cpu r of None \<Rightarrow> mm | Some v \<Rightarrow> on_metrics (set_gauge ''tribeway_cpu_usage_percent'' l v) mm);
          m2 = (case sr_memory r of None \<Rightarrow> m1 | Some v \<Rightarrow> on_metrics (set_gauge ''tribeway_memory_usage_bytes'' l (of_int v)) m1);
          m3 = on_metrics (set_gauge ''tribeway_goroutines_total'' l (of_int (sr_goroutines r))) m2;
          m4 = on_metrics (set_gauge ''tribeway_heap_size_bytes'' l (of_int (sr_heapSys r))) m3;
          m5 = on_metrics (set_gauge ''tribeway_heap_objects_total'' l (of_int (sr_heapObjects r))) m4
      in case sr_lastPause r of None \<Rightarrow> m5 | Some d \<Rightarrow> on_metrics (observe ''tribeway_gc_duration_seconds'' l (of_int d / 10 ^ 9)) m5)"

definition RecordMessage :: "string \<Rightarrow> monitor \<Rightarrow> monitor" where
  "RecordMessage messageType mm = on_metrics (inc_counter ''tribeway_messages_total'' (node_labels mm @ [messageType])) mm"

definition RecordError :: "string \<Rightarrow> monitor \<Rightarrow> monitor" where
  "RecordError errorType mm = on_metrics (inc_counter ''tribeway_errors_total'' (node_labels mm @ [errorType])) mm"

definition RecordRequestDuration :: "string \<Rightarrow> string \<Rightarrow> duration \<Rightarrow> monitor \<Rightarrow> monitor" where
  "RecordRequestDuration meth endpoint d mm =
     on_metrics (observe ''tribeway_request_duration_seconds'' (node_labels mm @ [meth, endpoint]) (of_int d / 10 ^ 9)) mm"

definition SetConnectionCount :: "int \<Rightarrow> monitor \<Rightarrow> monitor" where
  "SetConnectionCount n mm = on_metrics (set_gauge ''tribeway_connections_total'' (node_labels mm) (of_int n)) mm"

definition SetActorCount :: "int \<Rightarrow> monitor \<Rightarrow> monitor" where
  "SetActorCount n mm = on_metrics (set_gauge ''tribeway_actors_total'' (node_labels mm) (of_int n)) mm"

subsection \<open>Alerts\<close>

datatype alert_level = AlertLevelInfo | AlertLevelWarning | AlertLevelError | AlertLevelCritical

record 'w alert_rule =
  ar_Name :: string
  ar_Condition :: "'w \<Rightarrow> 'w \<times> bool"
  ar_Message :: string
  ar_Level :: alert_level
  ar_Cooldown :: duration
  ar_LastAlert :: time

record alert =
  at_ID :: string
  at_Rule :: string
  at_Level :: alert_level
  at_Message :: string
  at_Timestamp :: time
  at_NodeID :: string
  at_NodeType :: string

record 'w alert_manager =
  am_rules :: "'w alert_rule list"
  am_channels :: "(alert \<Rightarrow> 'w \<Rightarrow> 'w \<times> string option) list"
  am_history :: "alert list"

definition NewAlertManager :: "'w alert_manager" where
  "NewAlertManager = \<lparr>am_rules = [], am_channels = [], am_history = []\<rparr>"

definition AddRule :: "'w alert_rule \<Rightarrow> 'w alert_manager \<Rightarrow> 'w alert_manager" where
  "AddRule rule am = am\<lparr>am_rules := am_rules am @ [rule]\<rparr>"

definition AddChannel :: "(alert \<Rightarrow> 'w \<Rightarrow> 'w \<times> string option) \<Rightarrow> 'w alert_manager \<Rightarrow> 'w alert_manager" where
  "AddChannel channel am = am\<lparr>am_channels := am_channels am @ [channel]\<rparr>"

text \<open>\<^verbatim>\<open>Time.Sub\<close> stays within the range of a duration.\<close>

definition time_sub :: "time \<Rightarrow> time \<Rightarrow> duration" where
  "time_sub t u = max (- (2 ^ 63)) (min (2 ^ 63 - 1) (t - u))"

definition new_alert :: "time \<Rightarrow> string \<Rightarrow> string \<Rightarrow> 'w alert_rule \<Rightarrow> alert" where
  "new_alert now nodeID nodeType rule = \<lparr>at_ID = ar_Name rule @ ''_'' @ fmt_int (time_unix now), at_Rule = ar_Name rule, at_Level = ar_Level rule,
     at_Message = ar_Message rule, at_Timestamp = now, at_NodeID = nodeID, at_NodeType = nodeType\<rparr>"

text \<open>The loop over the rules, with the alerts it records; an error of a channel is only logged.\<close>

fun check_rules :: "time \<Rightarrow> string \<Rightarrow> string \<Rightarrow> (alert \<Rightarrow> 'w \<Rightarrow> 'w \<times> string option) list \<Rightarrow> 'w alert_rule list \<Rightarrow> 'w \<Rightarrow>
    'w \<times> 'w alert_rule list \<times> alert list" where
  "check_rules now nodeID nodeType channels [] w = (w, [], [])"
| "check_rules now nodeID nodeType channels (rule # rules) w =
     (if time_sub now (ar_LastAlert rule) < ar_Cooldown rule
      then (let (w1, rs, as) = check_rules now nodeID nodeType channels rules w in (w1, rule # rs, as))
      else case ar_Condition rule w of
        (w1, False) \<Rightarrow> (let (w2, rs, as) = check_rules now nodeID nodeType channels rules w1 in (w2, rule # rs, as))
      | (w1, True) \<Rightarrow>
          (let al = new_alert now nodeID nodeType rule;
               w2 = fold (\<lambda>channel w. fst (channel al w)) channels w1;
               (w3, rs, as) = check_rules now nodeID nodeType channels rules w2
           in (w3, rule\<lparr>ar_LastAlert := now\<rparr> # rs, al # as)))"

definition CheckRules :: "time \<Rightarrow> string \<Rightarrow> string \<Rightarrow> 'w alert_manager \<Rightarrow> 'w \<Rightarrow> 'w \<times> 'w alert_manager" where
  "CheckRules now nodeID nodeType am w =
     (let (w1, rs, as) = check_rules now nodeID nodeType (am_channels am) (am_rules am) w
      in (w1, am\<lparr>am_rules := rs, am_history := am_history am @ as\<rparr>))"

text \<open>A negative limit slices beyond the end.\<close>

definition GetRecentAlerts :: "int \<Rightarrow> 'w alert_manager \<Rightarrow> alert list outcome" where
  "GetRecentAlerts limit am =
     (let h = am_history am in if int (length h) \<le> limit then Ret h
      else if limit < 0 then Panic else Ret (drop (nat (int (length h) - limit)) h))"

definition getAlerts :: "'w alert_manager \<Rightarrow> (alert list \<times> int) outcome" where
  "getAlerts am = (case GetRecentAlerts 100 am of Panic \<Rightarrow> Panic | Ret as \<Rightarrow> Ret (as, int (length as)))"

text \<open>The ticks of \<^verbatim>\<open>checkAlerts\<close>.\<close>

definition checkAlerts :: "string \<Rightarrow> string \<Rightarrow> time list \<Rightarrow> 'w alert_manager \<Rightarrow> 'w \<Rightarrow> 'w \<times> 'w alert_manager" where
  "checkAlerts nodeID nodeType ts am w = fold (\<lambda>t (w, am). CheckRules t nodeID nodeType am w) ts (w, am)"

subsection \<open>Properties\<close>






text \<open>
  A check fires some of the rules: each of them is not cooling down, records one alert, and notes the time.
\<close>

definition fire :: "time \<Rightarrow> string set \<Rightarrow> 'w alert_rule \<Rightarrow> 'w alert_rule" where
  "fire now F r = (if ar_Name r \<in> F then r\<lparr>ar_LastAlert := now\<rparr> else r)"

lemma fire_simps [simp]: "ar_Name (fire now F r) = ar_Name r" "ar_Cooldown (fire now F r) = ar_Cooldown r"
  "ar_LastAlert (fire now F r) = (if ar_Name r \<in> F then now else ar_LastAlert r)"
  by (simp_all add: fire_def)

lemma fired_rules:
  assumes "check_rules now nodeID nodeType channels rules w = (w', rs, as)" and "distinct (map ar_Name rules)"
  shows "\<exists>F \<subseteq> ar_Name ` set rules. rs = map (fire now F) rules \<and> as = map (new_alert now nodeID nodeType) (filter (\<lambda>r. ar_Name r \<in> F) rules) \<and>
    (\<forall>r \<in> set rules. ar_Name r \<in> F \<longrightarrow> \<not> time_sub now (ar_LastAlert r) < ar_Cooldown r)"
  using assms
proof (induction rules arbitrary: w w' rs as)
  case (Cons rule rules)
  have quiet: ?case if run: "check_rules now nodeID nodeType channels rules w1 = (w', rs1, as)" and rs: "rs = rule # rs1" for w1 rs1
  proof -
    have d: "distinct (map ar_Name rules)" using Cons.prems(2) by simp
    from Cons.IH [OF run d] obtain F where F: "F \<subseteq> ar_Name ` set rules" "rs1 = map (fire now F) rules"
      "as = map (new_alert now nodeID nodeType) (filter (\<lambda>r. ar_Name r \<in> F) rules)"
      "\<forall>r \<in> set rules. ar_Name r \<in> F \<longrightarrow> \<not> time_sub now (ar_LastAlert r) < ar_Cooldown r" by blast
    have "ar_Name rule \<notin> F" using F(1) Cons.prems(2) by auto
    then have "fire now F rule = rule" by (simp add: fire_def)
    with F rs \<open>ar_Name rule \<notin> F\<close> show ?thesis by (intro exI [of _ F]) auto
  qed
  show ?case
  proof (cases "time_sub now (ar_LastAlert rule) < ar_Cooldown rule")
    case True
    obtain w2 rs1 as1 where run: "check_rules now nodeID nodeType channels rules w = (w2, rs1, as1)" by (metis prod_cases3)
    with True Cons.prems(1) have "w2 = w'" "rs = rule # rs1" "as1 = as" by simp_all
    with run show ?thesis by (intro quiet) simp_all
  next
    case False
    obtain w1 b where c: "ar_Condition rule w = (w1, b)" by fastforce
    show ?thesis
    proof (cases b)
      case False
      obtain w2 rs1 as1 where run: "check_rules now nodeID nodeType channels rules w1 = (w2, rs1, as1)" by (metis prod_cases3)
      with c False \<open>\<not> time_sub now (ar_LastAlert rule) < ar_Cooldown rule\<close> Cons.prems(1) have "w2 = w'" "rs = rule # rs1" "as1 = as" by simp_all
      with run show ?thesis by (intro quiet) simp_all
    next
      case True
      define w2 where "w2 = fold (\<lambda>channel w. fst (channel (new_alert now nodeID nodeType rule) w)) channels w1"
      obtain w3 rs1 as1 where run: "check_rules now nodeID nodeType channels rules w2 = (w3, rs1, as1)" by (metis prod_cases3)
      with c True False Cons.prems(1) have r: "rs = rule\<lparr>ar_LastAlert := now\<rparr> # rs1" "as = new_alert now nodeID nodeType rule # as1"
        by (auto simp: w2_def Let_def)
      have d: "distinct (map ar_Name rules)" using Cons.prems(2) by simp
      from Cons.IH [OF run d] obtain F where F: "F \<subseteq> ar_Name ` set rules" "rs1 = map (fire now F) rules"
        "as1 = map (new_alert now nodeID nodeType) (filter (\<lambda>r. ar_Name r \<in> F) rules)"
        "\<forall>r \<in> set rules. ar_Name r \<in> F \<longrightarrow> \<not> time_sub now (ar_LastAlert r) < ar_Cooldown r" by blast
      have n: "r \<in> set rules \<Longrightarrow> ar_Name r \<noteq> ar_Name rule" for r using Cons.prems(2) by (auto simp: image_iff)
      have "map (fire now (insert (ar_Name rule) F)) rules = map (fire now F) rules" using n by (simp add: fire_def)
      moreover have "filter (\<lambda>r. ar_Name r \<in> insert (ar_Name rule) F) rules = filter (\<lambda>r. ar_Name r \<in> F) rules"
        by (rule filter_cong) (use n in auto)
      ultimately show ?thesis using F r False n by (intro exI [of _ "insert (ar_Name rule) F"]) (auto simp: fire_def)
    qed
  qed
qed auto

text \<open>What the history says about a rule: its alerts are spaced, and none is later than its last alert.\<close>

definition spaced :: "'w alert_rule \<Rightarrow> alert list \<Rightarrow> bool" where
  "spaced r as \<longleftrightarrow> sorted_wrt (\<lambda>a b. ar_Cooldown r \<le> at_Timestamp b - at_Timestamp a) (filter (\<lambda>a. at_Rule a = ar_Name r) as) \<and>
     (\<forall>a \<in> set as. at_Rule a = ar_Name r \<longrightarrow> at_Timestamp a \<le> ar_LastAlert r)"

lemma waited: "\<not> time_sub now t < cd \<Longrightarrow> 0 \<le> cd \<Longrightarrow> cd \<le> now - t"
  by (auto simp: time_sub_def max_def min_def split: if_splits)

lemma filter_self: "distinct xs \<Longrightarrow> x \<in> set xs \<Longrightarrow> filter (\<lambda>y. y = x) xs = [x]"
  by (induction xs) (auto simp: filter_empty_conv)

lemma spaced_check:
  assumes "CheckRules now nodeID nodeType am w = (w', am')" and "distinct (map ar_Name (am_rules am))"
    and "\<forall>r \<in> set (am_rules am). 0 \<le> ar_Cooldown r \<and> spaced r (am_history am)"
  shows "map (\<lambda>r. (ar_Name r, ar_Cooldown r)) (am_rules am') = map (\<lambda>r. (ar_Name r, ar_Cooldown r)) (am_rules am) \<and>
    (\<forall>r \<in> set (am_rules am'). spaced r (am_history am'))"
proof -
  obtain w1 rs as where c: "check_rules now nodeID nodeType (am_channels am) (am_rules am) w = (w1, rs, as)" by (metis prod_cases3)
  with assms(1) have am': "am_rules am' = rs" "am_history am' = am_history am @ as" by (auto simp: CheckRules_def)
  from fired_rules [OF c assms(2)] obtain F where F: "rs = map (fire now F) (am_rules am)"
    "as = map (new_alert now nodeID nodeType) (filter (\<lambda>r. ar_Name r \<in> F) (am_rules am))"
    "\<forall>r \<in> set (am_rules am). ar_Name r \<in> F \<longrightarrow> \<not> time_sub now (ar_LastAlert r) < ar_Cooldown r" by blast
  have "spaced (fire now F r) (am_history am @ as)" if r: "r \<in> set (am_rules am)" for r
  proof -
    have inj: "s \<in> set (am_rules am) \<Longrightarrow> ar_Name s = ar_Name r \<Longrightarrow> s = r" for s
      using assms(2) r by (auto simp: distinct_map inj_on_def)
    have f: "filter (\<lambda>a. at_Rule a = ar_Name r) as = (if ar_Name r \<in> F then [new_alert now nodeID nodeType r] else [])"
    proof -
      have "filter (\<lambda>a. at_Rule a = ar_Name r) as = map (new_alert now nodeID nodeType) (filter (\<lambda>s. ar_Name s = ar_Name r \<and> ar_Name s \<in> F) (am_rules am))"
        by (simp add: F(2) filter_map comp_def new_alert_def conj_commute)
      also have "filter (\<lambda>s. ar_Name s = ar_Name r \<and> ar_Name s \<in> F) (am_rules am) = (if ar_Name r \<in> F then filter (\<lambda>s. s = r) (am_rules am) else [])"
        using inj by (auto simp: filter_empty_conv intro!: filter_cong)
      also have "filter (\<lambda>s. s = r) (am_rules am) = [r]"
        using assms(2) r by (simp add: filter_self distinct_map)
      finally show ?thesis by (simp add: if_distrib)
    qed
    have sp: "spaced r (am_history am)" "0 \<le> ar_Cooldown r" using assms(3) r by auto
    show ?thesis
    proof (cases "ar_Name r \<in> F")
      case True
      with F(3) r waited sp(2) have w: "ar_Cooldown r \<le> now - ar_LastAlert r" by blast
      have "\<forall>a \<in> set as. at_Rule a = ar_Name r \<longrightarrow> at_Timestamp a = now" by (auto simp: F(2) new_alert_def)
      moreover have "ar_Cooldown r \<le> now - at_Timestamp a \<and> at_Timestamp a \<le> now" if "a \<in> set (am_history am)" "at_Rule a = ar_Name r" for a
        using that sp w unfolding spaced_def by fastforce
      ultimately show ?thesis using sp(1) f True by (auto simp: spaced_def sorted_wrt_append new_alert_def)
    next
      case False
      with f have "\<forall>a \<in> set as. at_Rule a \<noteq> ar_Name r" by (auto simp: filter_empty_conv)
      with sp(1) f False show ?thesis by (auto simp: spaced_def)
    qed
  qed
  with F(1) am' show ?thesis by (auto simp: comp_def)
qed

text \<open>
  alerts respect the cooldown: with rules of different names, any two alerts of a rule that the checks
  record are at least its cooldown apart, whatever the conditions and the clock do.
\<close>

theorem alerts_cool_down:
  assumes "distinct (map ar_Name (am_rules am))" and "\<forall>r \<in> set (am_rules am). 0 \<le> ar_Cooldown r" and "am_history am = []"
    and "checkAlerts nodeID nodeType ts am w = (w', am')" and "r \<in> set (am_rules am)"
  shows "sorted_wrt (\<lambda>a b. ar_Cooldown r \<le> at_Timestamp b - at_Timestamp a) (filter (\<lambda>a. at_Rule a = ar_Name r) (am_history am'))"
proof -
  let ?key = "\<lambda>r. (ar_Name r, ar_Cooldown r)"
  have "map ?key (am_rules am2) = map ?key (am_rules am1) \<and> (\<forall>r \<in> set (am_rules am2). spaced r (am_history am2))"
    if "checkAlerts nodeID nodeType ts am1 w1 = (w2, am2)" and "distinct (map ar_Name (am_rules am1))"
      and "\<forall>r \<in> set (am_rules am1). 0 \<le> ar_Cooldown r \<and> spaced r (am_history am1)" for am1 am2 :: "'a alert_manager" and w1 w2
    using that
  proof (induction ts arbitrary: am1 w1)
    case (Cons t ts)
    obtain w3 am3 where c: "CheckRules t nodeID nodeType am1 w1 = (w3, am3)" by fastforce
    with Cons.prems(1) have run: "checkAlerts nodeID nodeType ts am3 w3 = (w2, am2)" by (simp add: checkAlerts_def)
    from spaced_check [OF c Cons.prems(2,3)] have k: "map ?key (am_rules am3) = map ?key (am_rules am1)" "\<forall>r \<in> set (am_rules am3). spaced r (am_history am3)"
      by simp_all
    have "map ar_Name (am_rules am3) = map ar_Name (am_rules am1)" "map ar_Cooldown (am_rules am3) = map ar_Cooldown (am_rules am1)"
      using arg_cong [OF k(1), of "map fst"] arg_cong [OF k(1), of "map snd"] by (simp_all add: comp_def)
    moreover from this(2) Cons.prems(3) have "\<forall>r \<in> set (am_rules am3). 0 \<le> ar_Cooldown r" by (metis imageE image_eqI list.set_map)
    ultimately show ?case using Cons.IH [OF run] k Cons.prems(2) by simp
  qed (simp add: checkAlerts_def)
  from this [OF assms(4,1)] assms(2,3) have "map ?key (am_rules am') = map ?key (am_rules am)" "\<forall>r \<in> set (am_rules am'). spaced r (am_history am')"
    by (simp_all add: spaced_def)
  with assms(5) obtain r' where "r' \<in> set (am_rules am')" "?key r' = ?key r" by (metis (no_types, lifting) imageE image_eqI list.set_map)
  with \<open>\<forall>r \<in> set (am_rules am'). spaced r (am_history am')\<close> show ?thesis by (auto simp: spaced_def)
qed

definition demo_rule :: "unit alert_rule" where
  "demo_rule = \<lparr>ar_Name = ''cpu'', ar_Condition = (\<lambda>w. (w, True)), ar_Message = ''high'', ar_Level = AlertLevelWarning, ar_Cooldown = 60, ar_LastAlert = 0\<rparr>"

theorem alerts_cool_down_witness:
  "\<exists>a b. am_history (snd (checkAlerts ''n'' ''game'' [100, 130, 160] (AddRule demo_rule NewAlertManager) ())) = [a, b] \<and> 60 \<le> at_Timestamp b - at_Timestamp a"
proof -
  let ?am = "AddRule demo_rule NewAlertManager"
  obtain w' am' where c: "checkAlerts ''n'' ''game'' [100, 130, 160] ?am () = (w', am')" by (metis surj_pair)
  then have h: "am_history am' = [new_alert 100 ''n'' ''game'' demo_rule, new_alert 160 ''n'' ''game'' (demo_rule\<lparr>ar_LastAlert := 100\<rparr>)]"
    by (auto simp: checkAlerts_def CheckRules_def AddRule_def NewAlertManager_def demo_rule_def time_sub_def)
  have "sorted_wrt (\<lambda>a b. ar_Cooldown demo_rule \<le> at_Timestamp b - at_Timestamp a) (filter (\<lambda>a. at_Rule a = ar_Name demo_rule) (am_history am'))"
    by (rule alerts_cool_down [OF _ _ _ c]) (simp_all add: AddRule_def NewAlertManager_def demo_rule_def)
  with c h show ?thesis by (simp add: new_alert_def demo_rule_def)
qed

text \<open>A limit that is not negative returns the last alerts; the history grows without a bound.\<close>

lemma recent_alerts: "0 \<le> limit \<Longrightarrow> GetRecentAlerts limit am = Ret (drop (length (am_history am) - nat limit) (am_history am))"
  by (auto simp: GetRecentAlerts_def Let_def nat_diff_distrib)

text \<open>Everything that is recorded is collected, and counted once.\<close>

lemma message_counted:
  "fst (snd (Collect (mn_metrics (RecordMessage ty mm)))) ''tribeway_messages_total'' [mn_nodeID mm, mn_nodeType mm, ty] =
     Some (case fst (snd (Collect (mn_metrics mm))) ''tribeway_messages_total'' [mn_nodeID mm, mn_nodeType mm, ty] of None \<Rightarrow> 1 | Some n \<Rightarrow> n + 1)"
  by (simp add: RecordMessage_def on_metrics_def inc_counter_def node_labels_def Collect_def counter_names_def split: option.split)

end
