(* ===== verification/Chats.thy ===== *)
theory Chats
  imports Rows
begin

text \<open>
  The chat repository of \<^verbatim>\<open>internal/database/mongodb.go\<close>: the messages with their two paged queries, and the
  records of who blocked whom. \<open>block_table\<close> states what blocking promises, as operations on a list of pairs,
  proved of the methods over every collection of \<open>Mongo\<close>; a run of them refines operations on a set of pairs.
\<close>

subsection \<open>The models and their documents\<close>

record chat_message =
  cm_ID :: "nat option"
  cm_MessageID :: u64
  cm_FromUserID :: u64
  cm_ToUserID :: u64
  cm_ChannelType :: int
  cm_ChannelID :: u64
  cm_MessageType :: int
  cm_Content :: string
  cm_SendTime :: u32
  cm_CreatedAt :: time

record blocked_user =
  bk_ID :: "nat option"
  bk_UserID :: u64
  bk_TargetID :: u64
  bk_BlockedAt :: time
  bk_CreatedAt :: time

record 'c chat_repository =
  ch_messages :: 'c
  ch_blocked :: 'c

definition get_u32 :: "doc \<Rightarrow> string \<Rightarrow> u32 option" where
  "get_u32 d k = (case map_of d k of
      None \<Rightarrow> Some 0
    | Some (BInt i) \<Rightarrow> if 0 \<le> i \<and> i < 2 ^ 32 then Some (of_int i) else None
    | _ \<Rightarrow> None)"

definition encode_message :: "chat_message \<Rightarrow> doc" where
  "encode_message m = opt_oid (cm_ID m) @
     [(''message_id'', put_u64 (cm_MessageID m)), (''from_user_id'', put_u64 (cm_FromUserID m)), (''to_user_id'', put_u64 (cm_ToUserID m)),
      (''channel_type'', BInt (cm_ChannelType m)), (''channel_id'', put_u64 (cm_ChannelID m)), (''message_type'', BInt (cm_MessageType m)),
      (''content'', BStr (cm_Content m)), (''send_time'', BInt (uint (cm_SendTime m))), (''created_at'', bson_time (cm_CreatedAt m))]"

definition decode_message :: "doc \<Rightarrow> chat_message option" where
  "decode_message d = do {
     oid \<leftarrow> get_oid d; mid \<leftarrow> get_u64 d ''message_id''; fro \<leftarrow> get_u64 d ''from_user_id''; to \<leftarrow> get_u64 d ''to_user_id'';
     ct \<leftarrow> get_int 32 d ''channel_type''; cid \<leftarrow> get_u64 d ''channel_id''; mt \<leftarrow> get_int 32 d ''message_type'';
     txt \<leftarrow> get_str d ''content''; st \<leftarrow> get_u32 d ''send_time''; cr \<leftarrow> get_time d ''created_at'';
     Some \<lparr>cm_ID = oid, cm_MessageID = mid, cm_FromUserID = fro, cm_ToUserID = to, cm_ChannelType = ct, cm_ChannelID = cid,
       cm_MessageType = mt, cm_Content = txt, cm_SendTime = st, cm_CreatedAt = cr\<rparr> }"

definition encode_blocked :: "blocked_user \<Rightarrow> doc" where
  "encode_blocked b = opt_oid (bk_ID b) @
     [(''user_id'', put_u64 (bk_UserID b)), (''target_id'', put_u64 (bk_TargetID b)), (''blocked_at'', bson_time (bk_BlockedAt b)),
      (''created_at'', bson_time (bk_CreatedAt b))]"

definition decode_blocked :: "doc \<Rightarrow> blocked_user option" where
  "decode_blocked d = do {
     oid \<leftarrow> get_oid d; uid \<leftarrow> get_u64 d ''user_id''; tid \<leftarrow> get_u64 d ''target_id''; bt \<leftarrow> get_time d ''blocked_at'';
     ct \<leftarrow> get_time d ''created_at'';
     Some \<lparr>bk_ID = oid, bk_UserID = uid, bk_TargetID = tid, bk_BlockedAt = bt, bk_CreatedAt = ct\<rparr> }"

definition ct_AlreadyBlocked :: string where
  "ct_AlreadyBlocked = utf8
   [0xE7, 0x94, 0xA8, 0xE6, 0x88, 0xB7, 0xE5, 0xB7, 0xB2, 0xE8, 0xA2, 0xAB, 0xE5, 0xB1, 0x8F, 0xE8, 0x94, 0xBD]"

definition ct_NoBlockRecord :: string where
  "ct_NoBlockRecord = utf8
   [0xE6, 0x9C, 0xAA, 0xE6, 0x89, 0xBE, 0xE5, 0x88, 0xB0, 0xE5, 0xB1, 0x8F, 0xE8, 0x94, 0xBD, 0xE8, 0xAE, 0xB0, 0xE5, 0xBD, 0x95]"

subsection \<open>The methods\<close>

definition on_messages :: "('c \<Rightarrow> 'c \<times> 'a) \<Rightarrow> 'c chat_repository \<Rightarrow> 'c chat_repository \<times> 'a" where
  "on_messages f r = (case f (ch_messages r) of (c, x) \<Rightarrow> (r\<lparr>ch_messages := c\<rparr>, x))"

definition on_blocked :: "('c \<Rightarrow> 'c \<times> 'a) \<Rightarrow> 'c chat_repository \<Rightarrow> 'c chat_repository \<times> 'a" where
  "on_blocked f r = (case f (ch_blocked r) of (c, x) \<Rightarrow> (r\<lparr>ch_blocked := c\<rparr>, x))"

definition NewChatRepository :: "(string \<Rightarrow> 'c) \<Rightarrow> 'c chat_repository" where
  "NewChatRepository collection = \<lparr>ch_messages = collection ''chat_messages'', ch_blocked = collection ''blocked_users''\<rparr>"

definition SaveMessage :: "'c mongo_ops \<Rightarrow> time \<Rightarrow> chat_message \<Rightarrow> 'c chat_repository \<Rightarrow> 'c chat_repository \<times> string option" where
  "SaveMessage ops now m = on_messages (\<lambda>c. apsnd raw_err (mo_InsertOne ops (encode_message (m\<lparr>cm_CreatedAt := now\<rparr>)) c))"

text \<open>
  The two queries count, then read a page, newest first; a document that cannot be decoded is left out, and so
  are those after the point where the connection fails: \<open>got\<close> is the number of documents the cursor delivers.
\<close>

definition paged :: "'c mongo_ops \<Rightarrow> nat \<Rightarrow> query \<Rightarrow> int \<Rightarrow> int \<Rightarrow> 'c \<Rightarrow> 'c \<times> (string + chat_message list \<times> int)" where
  "paged ops got q limit offset c =
     (case mo_Count ops q c of
        (c1, Inl e) \<Rightarrow> (c1, Inl e)
      | (c1, Inr n) \<Rightarrow>
          apsnd (map_sum id (\<lambda>ds. (List.map_filter decode_message (take got ds), int n)))
            (mo_Find ops q \<lparr>fo_sort_desc = Some ''send_time'', fo_skip = offset, fo_limit = limit\<rparr> c1))"

definition channel_filter :: "int \<Rightarrow> u64 \<Rightarrow> query" where
  "channel_filter channelType channelID = QAnd [QEq ''channel_type'' (BInt channelType), QEq ''channel_id'' (put_u64 channelID)]"

definition private_filter :: "u64 \<Rightarrow> u64 \<Rightarrow> query" where
  "private_filter u v = QAnd
     [QOr [QAnd [QEq ''from_user_id'' (put_u64 u), QEq ''to_user_id'' (put_u64 v)],
           QAnd [QEq ''from_user_id'' (put_u64 v), QEq ''to_user_id'' (put_u64 u)]],
      QEq ''channel_type'' (BInt 1)]"

definition GetChatHistory :: "'c mongo_ops \<Rightarrow> nat \<Rightarrow> int \<Rightarrow> u64 \<Rightarrow> int \<Rightarrow> int \<Rightarrow> 'c chat_repository \<Rightarrow>
    'c chat_repository \<times> (string + chat_message list \<times> int)" where
  "GetChatHistory ops got channelType channelID limit offset = on_messages (paged ops got (channel_filter channelType channelID) limit offset)"

definition GetPrivateMessages :: "'c mongo_ops \<Rightarrow> nat \<Rightarrow> u64 \<Rightarrow> u64 \<Rightarrow> int \<Rightarrow> int \<Rightarrow> 'c chat_repository \<Rightarrow>
    'c chat_repository \<times> (string + chat_message list \<times> int)" where
  "GetPrivateMessages ops got u v limit offset = on_messages (paged ops got (private_filter u v) limit offset)"

definition block_filter :: "u64 \<Rightarrow> u64 \<Rightarrow> query" where
  "block_filter uid target = QAnd [QEq ''user_id'' (put_u64 uid), QEq ''target_id'' (put_u64 target)]"

text \<open>\<^verbatim>\<open>BlockUser\<close> is a lookup and an insertion, two calls of the database.\<close>

definition block_check :: "'c mongo_ops \<Rightarrow> u64 \<Rightarrow> u64 \<Rightarrow> 'c \<Rightarrow> 'c \<times> string option" where
  "block_check ops uid target c =
     apsnd (\<lambda>r. case r of
        Inl e \<Rightarrow> Some e
      | Inr None \<Rightarrow> None
      | Inr (Some d) \<Rightarrow> (case decode_blocked d of None \<Rightarrow> Some ''decoding error'' | Some _ \<Rightarrow> Some ct_AlreadyBlocked))
       (mo_FindOne ops (block_filter uid target) c)"

definition block_insert :: "'c mongo_ops \<Rightarrow> time \<Rightarrow> time \<Rightarrow> u64 \<Rightarrow> u64 \<Rightarrow> 'c \<Rightarrow> 'c \<times> string option" where
  "block_insert ops t1 t2 uid target c = apsnd raw_err
     (mo_InsertOne ops (encode_blocked \<lparr>bk_ID = None, bk_UserID = uid, bk_TargetID = target, bk_BlockedAt = t1, bk_CreatedAt = t2\<rparr>) c)"

definition BlockUser :: "'c mongo_ops \<Rightarrow> time \<Rightarrow> time \<Rightarrow> u64 \<Rightarrow> u64 \<Rightarrow> 'c chat_repository \<Rightarrow> 'c chat_repository \<times> string option" where
  "BlockUser ops t1 t2 uid target = on_blocked (\<lambda>c.
     case block_check ops uid target c of (c1, Some e) \<Rightarrow> (c1, Some e) | (c1, None) \<Rightarrow> block_insert ops t1 t2 uid target c1)"

definition UnblockUser :: "'c mongo_ops \<Rightarrow> u64 \<Rightarrow> u64 \<Rightarrow> 'c chat_repository \<Rightarrow> 'c chat_repository \<times> string option" where
  "UnblockUser ops uid target = on_blocked (\<lambda>c.
     apsnd (\<lambda>r. case r of Inl e \<Rightarrow> Some e | Inr n \<Rightarrow> if n = 0 then Some ct_NoBlockRecord else None)
       (mo_DeleteOne ops (block_filter uid target) c))"

definition IsUserBlocked :: "'c mongo_ops \<Rightarrow> u64 \<Rightarrow> u64 \<Rightarrow> 'c chat_repository \<Rightarrow> 'c chat_repository \<times> (string + bool)" where
  "IsUserBlocked ops uid target = on_blocked (\<lambda>c.
     apsnd (\<lambda>r. case r of
        Inl e \<Rightarrow> Inl e
      | Inr None \<Rightarrow> Inr False
      | Inr (Some d) \<Rightarrow> (case decode_blocked d of None \<Rightarrow> Inl ''decoding error'' | Some _ \<Rightarrow> Inr True))
       (mo_FindOne ops (block_filter uid target) c))"

subsection \<open>Stored documents\<close>

definition message_row :: "doc \<Rightarrow> chat_message option" where
  "message_row d = (if \<exists>k \<in> {''from_user_id'', ''to_user_id'', ''channel_type'', ''channel_id'', ''send_time''}. map_of d k = None
     then None else decode_message d)"

definition blocked_row :: "doc \<Rightarrow> blocked_user option" where
  "blocked_row d = (if map_of d ''user_id'' = None \<or> map_of d ''target_id'' = None then None else decode_blocked d)"

definition block_pair :: "blocked_user \<Rightarrow> u64 \<times> u64" where
  "block_pair b = (bk_UserID b, bk_TargetID b)"

definition in_channel :: "int \<Rightarrow> u64 \<Rightarrow> chat_message \<Rightarrow> bool" where
  "in_channel channelType channelID m \<longleftrightarrow> cm_ChannelType m = channelType \<and> cm_ChannelID m = channelID"

definition private_between :: "u64 \<Rightarrow> u64 \<Rightarrow> chat_message \<Rightarrow> bool" where
  "private_between u v m \<longleftrightarrow> cm_ChannelType m = 1 \<and>
     (cm_FromUserID m, cm_ToUserID m) \<in> {(u, v), (v, u)}"

lemma decode_message_fields:
  "decode_message d = Some m \<longleftrightarrow>
     get_oid d = Some (cm_ID m) \<and> get_u64 d ''message_id'' = Some (cm_MessageID m) \<and> get_u64 d ''from_user_id'' = Some (cm_FromUserID m) \<and>
     get_u64 d ''to_user_id'' = Some (cm_ToUserID m) \<and> get_int 32 d ''channel_type'' = Some (cm_ChannelType m) \<and>
     get_u64 d ''channel_id'' = Some (cm_ChannelID m) \<and> get_int 32 d ''message_type'' = Some (cm_MessageType m) \<and>
     get_str d ''content'' = Some (cm_Content m) \<and> get_u32 d ''send_time'' = Some (cm_SendTime m) \<and>
     get_time d ''created_at'' = Some (cm_CreatedAt m)"
  by (auto simp: decode_message_def bind_eq_Some_conv)

lemma decode_blocked_fields:
  "decode_blocked d = Some b \<longleftrightarrow>
     get_oid d = Some (bk_ID b) \<and> get_u64 d ''user_id'' = Some (bk_UserID b) \<and> get_u64 d ''target_id'' = Some (bk_TargetID b) \<and>
     get_time d ''blocked_at'' = Some (bk_BlockedAt b) \<and> get_time d ''created_at'' = Some (bk_CreatedAt b)"
  by (auto simp: decode_blocked_def bind_eq_Some_conv)

lemma message_row_match:
  assumes "message_row d = Some m"
  shows "matches (channel_filter ct cid) d \<longleftrightarrow> in_channel ct cid m"
    and "matches (private_filter u v) d \<longleftrightarrow> private_between u v m"
proof -
  from assms have d: "decode_message d = Some m" "map_of d ''from_user_id'' \<noteq> None" "map_of d ''to_user_id'' \<noteq> None"
      "map_of d ''channel_type'' \<noteq> None" "map_of d ''channel_id'' \<noteq> None"
    by (auto simp: message_row_def split: if_splits)
  note f = d(1) [unfolded decode_message_fields]
  have m: "matches (QEq ''from_user_id'' (put_u64 i)) d \<longleftrightarrow> cm_FromUserID m = i" "matches (QEq ''to_user_id'' (put_u64 i)) d \<longleftrightarrow> cm_ToUserID m = i"
    "matches (QEq ''channel_id'' (put_u64 i)) d \<longleftrightarrow> cm_ChannelID m = i" "matches (QEq ''channel_type'' (BInt n)) d \<longleftrightarrow> cm_ChannelType m = n"
    for i n using f d(2-5) by (auto intro!: u64_match int_match simp del: matches.simps)
  show "matches (channel_filter ct cid) d \<longleftrightarrow> in_channel ct cid m" "matches (private_filter u v) d \<longleftrightarrow> private_between u v m"
    by (auto simp: channel_filter_def in_channel_def private_filter_def private_between_def m simp del: matches.simps(1))
qed

lemma blocked_row_match:
  assumes "blocked_row d = Some b"
  shows "matches (block_filter u v) d \<longleftrightarrow> block_pair b = (u, v)"
proof -
  from assms have d: "decode_blocked d = Some b" "map_of d ''user_id'' \<noteq> None" "map_of d ''target_id'' \<noteq> None"
    by (auto simp: blocked_row_def split: if_splits)
  note f = d(1) [unfolded decode_blocked_fields]
  have "matches (QEq ''user_id'' (put_u64 u)) d \<longleftrightarrow> bk_UserID b = u" "matches (QEq ''target_id'' (put_u64 v)) d \<longleftrightarrow> bk_TargetID b = v"
    using f d by (auto intro!: u64_match simp del: matches.simps)
  then show ?thesis by (simp add: block_filter_def block_pair_def del: matches.simps(1))
qed

lemma blocked_row_encode:
  "blocked_row (with_id n (encode_blocked \<lparr>bk_ID = None, bk_UserID = u, bk_TargetID = v, bk_BlockedAt = t1, bk_CreatedAt = t2\<rparr>)) =
     Some \<lparr>bk_ID = Some n, bk_UserID = u, bk_TargetID = v, bk_BlockedAt = trunc_ms t1, bk_CreatedAt = trunc_ms t2\<rparr>"
  by (simp add: blocked_row_def decode_blocked_fields encode_blocked_def with_id_def get_oid_def)

lemma message_row_time:
  assumes "message_row d = Some m"
  shows "sort_val (map_of d ''send_time'') = (1, uint (cm_SendTime m))"
proof -
  from assms have "get_u32 d ''send_time'' = Some (cm_SendTime m)" "map_of d ''send_time'' \<noteq> None"
    by (auto simp: message_row_def decode_message_fields split: if_splits)
  then obtain i where "map_of d ''send_time'' = Some (BInt i)" "0 \<le> i" "i < 2 ^ 32" "cm_SendTime m = of_int i"
    by (auto simp: get_u32_def split: option.splits bval.splits if_splits)
  then show ?thesis by (simp add: uint_word_of_int_eq take_bit_int_eq_self)
qed

subsection \<open>Blocking as a set of pairs\<close>

datatype block_event = BlockE time time u64 u64 | UnblockE u64 u64 | AskE u64 u64

datatype block_answer = Done | Refused string | Answer bool

definition as_answer :: "string option \<Rightarrow> block_answer" where
  "as_answer e = (case e of None \<Rightarrow> Done | Some err \<Rightarrow> Refused err)"

fun block_do :: "'c mongo_ops \<Rightarrow> block_event \<Rightarrow> 'c chat_repository \<Rightarrow> 'c chat_repository \<times> block_answer" where
  "block_do ops (BlockE t1 t2 u v) r = apsnd as_answer (BlockUser ops t1 t2 u v r)"
| "block_do ops (UnblockE u v) r = apsnd as_answer (UnblockUser ops u v r)"
| "block_do ops (AskE u v) r = apsnd (\<lambda>x. case x of Inl e \<Rightarrow> Refused e | Inr b \<Rightarrow> Answer b) (IsUserBlocked ops u v r)"

fun block_run :: "(block_event \<Rightarrow> 's \<Rightarrow> 's \<times> block_answer) \<Rightarrow> block_event list \<Rightarrow> 's \<Rightarrow> 's \<times> block_answer list" where
  "block_run act [] s = (s, [])"
| "block_run act (e # es) s = (let (s1, a) = act e s in apsnd ((#) a) (block_run act es s1))"

text \<open>The specification: what an answer says about the set; an error of the database leaves it open whether the change was made.\<close>

fun block_spec :: "block_event \<Rightarrow> block_answer \<Rightarrow> (u64 \<times> u64) set \<Rightarrow> (u64 \<times> u64) set \<Rightarrow> bool" where
  "block_spec (BlockE _ _ u v) Done S S' \<longleftrightarrow> (u, v) \<notin> S \<and> S' = insert (u, v) S"
| "block_spec (BlockE _ _ u v) (Refused e) S S' \<longleftrightarrow> S' = S \<or> (u, v) \<notin> S \<and> S' = insert (u, v) S"
| "block_spec (UnblockE u v) Done S S' \<longleftrightarrow> (u, v) \<in> S \<and> S' = S - {(u, v)}"
| "block_spec (UnblockE u v) (Refused e) S S' \<longleftrightarrow> S' = S \<or> (u, v) \<in> S \<and> S' = S - {(u, v)}"
| "block_spec (AskE u v) (Answer b) S S' \<longleftrightarrow> (b \<longleftrightarrow> (u, v) \<in> S) \<and> S' = S"
| "block_spec (AskE u v) (Refused e) S S' \<longleftrightarrow> S' = S"
| "block_spec _ _ _ _ \<longleftrightarrow> False"

fun block_specs :: "block_event list \<Rightarrow> block_answer list \<Rightarrow> (u64 \<times> u64) set \<Rightarrow> (u64 \<times> u64) set \<Rightarrow> bool" where
  "block_specs [] [] S S' \<longleftrightarrow> S' = S"
| "block_specs (e # es) (a # as) S S' \<longleftrightarrow> (\<exists>S1. block_spec e a S S1 \<and> block_specs es as S1 S')"
| "block_specs _ _ _ _ \<longleftrightarrow> False"

text \<open>The contract on the list of pairs, in which a pair may stand more than once.\<close>

locale block_table =
  fixes act :: "block_event \<Rightarrow> 's \<Rightarrow> 's \<times> block_answer" and pairs :: "'s \<Rightarrow> (u64 \<times> u64) list" and ok :: "'s \<Rightarrow> bool"
  assumes block: "ok s \<Longrightarrow> act (BlockE t1 t2 u v) s = (s', a1) \<Longrightarrow> ok s' \<and>
      (a1 = Done \<and> (u, v) \<notin> set (pairs s) \<and> pairs s' = pairs s @ [(u, v)] \<or>
       (\<exists>e. a1 = Refused e) \<and> (pairs s' = pairs s \<or> (u, v) \<notin> set (pairs s) \<and> pairs s' = pairs s @ [(u, v)]))"
    and unblock: "ok s \<Longrightarrow> act (UnblockE u v) s = (s', a2) \<Longrightarrow> ok s' \<and>
      (a2 = Done \<and> one_removed (\<lambda>p. p = (u, v)) (pairs s) (pairs s') \<or>
       (\<exists>e. a2 = Refused e) \<and> (pairs s' = pairs s \<or> one_removed (\<lambda>p. p = (u, v)) (pairs s) (pairs s')))"
    and ask: "ok s \<Longrightarrow> act (AskE u v) s = (s', a3) \<Longrightarrow> ok s' \<and> pairs s' = pairs s \<and>
      (a3 = Answer ((u, v) \<in> set (pairs s)) \<or> (\<exists>e. a3 = Refused e))"
begin

lemma removed_pair: "distinct ps \<Longrightarrow> one_removed (\<lambda>p. p = x) ps ps' \<Longrightarrow> x \<in> set ps \<and> set ps' = set ps - {x} \<and> distinct ps'"
  by (auto simp: one_removed_def)

lemma step_refines:
  assumes "ok s" and "distinct (pairs s)" and "act e s = (s', a)"
  shows "ok s' \<and> distinct (pairs s') \<and> block_spec e a (set (pairs s)) (set (pairs s'))"
proof (cases e)
  case (BlockE t1 t2 u v)
  with block [OF assms(1)] assms(2,3) show ?thesis by fastforce
next
  case (UnblockE u v)
  with unblock [OF assms(1)] assms(2,3) removed_pair [OF assms(2), of "(u, v)" "pairs s'"] show ?thesis by fastforce
next
  case (AskE u v)
  with ask [OF assms(1)] assms(2,3) show ?thesis by fastforce
qed

lemma run_refines:
  assumes "ok s" and "distinct (pairs s)" and "block_run act es s = (s', as)"
  shows "distinct (pairs s') \<and> block_specs es as (set (pairs s)) (set (pairs s'))"
  using assms
proof (induction es arbitrary: s as)
  case (Cons e es)
  obtain s1 a where a: "act e s = (s1, a)" by fastforce
  with Cons.prems(3) obtain as' where "block_run act es s1 = (s', as')" "as = a # as'" by (auto simp: apsnd_eq)
  with Cons.IH [OF _ _ this(1)] step_refines [OF Cons.prems(1,2) a] show ?case by auto
qed simp

end

definition blocked_pairs :: "('c \<Rightarrow> doc list) \<Rightarrow> 'c chat_repository \<Rightarrow> (u64 \<times> u64) list" where
  "blocked_pairs docs r = map block_pair (rows_in blocked_row docs (ch_blocked r))"

definition blocks_ok :: "('c \<Rightarrow> doc list) \<Rightarrow> ('c \<Rightarrow> bool) \<Rightarrow> 'c chat_repository \<Rightarrow> bool" where
  "blocks_ok docs valid r \<longleftrightarrow> rows_valid blocked_row docs valid (ch_blocked r)"

definition chat_messages :: "('c \<Rightarrow> doc list) \<Rightarrow> 'c chat_repository \<Rightarrow> chat_message list" where
  "chat_messages docs r = rows_in message_row docs (ch_messages r)"

context mongo_collection
begin

lemma one_removed_map: "one_removed (\<lambda>x. f x = y) xs xs' \<Longrightarrow> one_removed (\<lambda>p. p = y) (map f xs) (map f xs')"
  by (fastforce simp: one_removed_def)

lemma blocked_find:
  assumes "rows_valid blocked_row docs valid c" and "mo_FindOne ops (block_filter u v) c = (c', y)"
  shows "rows_valid blocked_row docs valid c' \<and> rows_in blocked_row docs c' = rows_in blocked_row docs c \<and> (case y of
      Inr None \<Rightarrow> (u, v) \<notin> block_pair ` set (rows_in blocked_row docs c)
    | Inr (Some d) \<Rightarrow> (u, v) \<in> block_pair ` set (rows_in blocked_row docs c) \<and> decode_blocked d \<noteq> None
    | Inl _ \<Rightarrow> True)"
  using rows_find_one [where p = "\<lambda>b. block_pair b = (u, v)", OF assms blocked_row_match]
  by (force simp: blocked_row_def split: sum.splits option.splits if_splits)

lemma block_law:
  assumes "blocks_ok docs valid r" and "block_do ops (BlockE t1 t2 u v) r = (r', a)"
  shows "blocks_ok docs valid r' \<and>
    (a = Done \<and> (u, v) \<notin> set (blocked_pairs docs r) \<and> blocked_pairs docs r' = blocked_pairs docs r @ [(u, v)] \<or>
     (\<exists>e. a = Refused e) \<and> (blocked_pairs docs r' = blocked_pairs docs r \<or>
       (u, v) \<notin> set (blocked_pairs docs r) \<and> blocked_pairs docs r' = blocked_pairs docs r @ [(u, v)]))"
proof -
  have ok: "rows_valid blocked_row docs valid (ch_blocked r)" using assms(1) by (simp add: blocks_ok_def)
  obtain c1 y where f: "mo_FindOne ops (block_filter u v) (ch_blocked r) = (c1, y)" by fastforce
  note found = blocked_find [OF ok f]
  show ?thesis
  proof (cases "y = Inr None")
    case True
    let ?b = "\<lparr>bk_ID = None, bk_UserID = u, bk_TargetID = v, bk_BlockedAt = t1, bk_CreatedAt = t2\<rparr>"
    obtain c2 z where i: "mo_InsertOne ops (encode_blocked ?b) c1 = (c2, z)" by fastforce
    have r': "r' = r\<lparr>ch_blocked := c2\<rparr>" "a = as_answer (raw_err z)"
      using assms(2) f i True by (simp_all add: BlockUser_def on_blocked_def block_check_def block_insert_def)
    from found True have "rows_valid blocked_row docs valid c1" by simp
    from rows_insert [OF this i blocked_row_encode] found True show ?thesis
      unfolding r' blocks_ok_def blocked_pairs_def
      by (cases z) (auto simp: as_answer_def raw_err_def block_pair_def)
  next
    case False
    with found obtain e where "block_check ops u v (ch_blocked r) = (c1, Some e)"
      using f by (auto simp: block_check_def split: sum.splits option.splits)
    then have "r' = r\<lparr>ch_blocked := c1\<rparr>" "a = Refused e"
      using assms(2) by (simp_all add: BlockUser_def on_blocked_def as_answer_def)
    with found show ?thesis by (simp add: blocks_ok_def blocked_pairs_def)
  qed
qed

lemma unblock_law:
  assumes "blocks_ok docs valid r" and "block_do ops (UnblockE u v) r = (r', a)"
  shows "blocks_ok docs valid r' \<and>
    (a = Done \<and> one_removed (\<lambda>p. p = (u, v)) (blocked_pairs docs r) (blocked_pairs docs r') \<or>
     (\<exists>e. a = Refused e) \<and> (blocked_pairs docs r' = blocked_pairs docs r \<or>
       one_removed (\<lambda>p. p = (u, v)) (blocked_pairs docs r) (blocked_pairs docs r')))"
proof -
  have ok: "rows_valid blocked_row docs valid (ch_blocked r)" using assms(1) by (simp add: blocks_ok_def)
  obtain c y where d: "mo_DeleteOne ops (block_filter u v) (ch_blocked r) = (c, y)" by fastforce
  have r': "r' = r\<lparr>ch_blocked := c\<rparr>" "a = as_answer (case y of Inl e \<Rightarrow> Some e | Inr n \<Rightarrow> if n = 0 then Some ct_NoBlockRecord else None)"
    using assms(2) d by (simp_all add: UnblockUser_def on_blocked_def)
  from rows_delete_one [where p = "\<lambda>b. block_pair b = (u, v)", OF ok d blocked_row_match] show ?thesis
    unfolding r' blocks_ok_def blocked_pairs_def by (cases y) (auto simp: as_answer_def one_removed_map)
qed

lemma ask_law:
  assumes "blocks_ok docs valid r" and "block_do ops (AskE u v) r = (r', a)"
  shows "blocks_ok docs valid r' \<and> blocked_pairs docs r' = blocked_pairs docs r \<and>
    (a = Answer ((u, v) \<in> set (blocked_pairs docs r)) \<or> (\<exists>e. a = Refused e))"
proof -
  have ok: "rows_valid blocked_row docs valid (ch_blocked r)" using assms(1) by (simp add: blocks_ok_def)
  obtain c y where f: "mo_FindOne ops (block_filter u v) (ch_blocked r) = (c, y)" by fastforce
  from blocked_find [OF ok f] assms(2) f show ?thesis
    by (auto simp: IsUserBlocked_def on_blocked_def blocks_ok_def blocked_pairs_def split: sum.splits option.splits)
qed

lemma block_table_law: "block_table (block_do ops) (blocked_pairs docs) (blocks_ok docs valid)"
  using block_law unblock_law ask_law by unfold_locales blast+

end

interpretation mem_blocks: block_table "block_do (mem_ops [])" "blocked_pairs mc_docs" "blocks_ok mc_docs (\<lambda>c. uniques [] (mc_docs c))"
  by (rule mem.block_table_law)

subsection \<open>Pages\<close>

text \<open>A page of the selected messages, newest first, with their number.\<close>

definition newest_page :: "(chat_message \<Rightarrow> bool) \<Rightarrow> int \<Rightarrow> int \<Rightarrow> nat \<Rightarrow> chat_message list \<Rightarrow> chat_message list \<times> int \<Rightarrow> bool" where
  "newest_page p limit offset got stored res \<longleftrightarrow>
     (\<exists>all. mset all = mset (filter p stored) \<and> sorted_wrt (\<lambda>a b. cm_SendTime b \<le> cm_SendTime a) all \<and>
        fst res = take got (let rest = drop (nat offset) all in if limit = 0 then rest else take (nat \<bar>limit\<bar>) rest) \<and>
        snd res = int (length (filter p stored)))"

context mongo_collection
begin

lemma in_order_times:
  assumes "\<forall>d \<in> set ds. message_row d \<noteq> None" and "in_order \<lparr>fo_sort_desc = Some ''send_time'', fo_skip = s, fo_limit = l\<rparr> ds"
  shows "sorted_wrt (\<lambda>a b. cm_SendTime b \<le> cm_SendTime a) (map (the \<circ> message_row) ds)"
proof -
  have "sorted_wrt (\<lambda>a b. sort_val (map_of b ''send_time'') \<le> sort_val (map_of a ''send_time'')) ds"
    using assms(2) by (simp add: in_order_def sorted_map sorted_wrt_rev)
  then have "sorted_wrt (\<lambda>a b. cm_SendTime (the (message_row b)) \<le> cm_SendTime (the (message_row a))) ds"
  proof (rule sorted_wrt_mono_rel [rotated])
    fix a b assume ab: "a \<in> set ds" "b \<in> set ds" "sort_val (map_of b ''send_time'') \<le> sort_val (map_of a ''send_time'')"
    with assms(1) obtain x y where "message_row a = Some x" "message_row b = Some y" by blast
    with ab(3) show "cm_SendTime (the (message_row b)) \<le> cm_SendTime (the (message_row a))"
      by (simp add: message_row_time less_eq_prod_def word_le_def)
  qed
  then show ?thesis by (simp add: sorted_wrt_map)
qed

lemma paged_cases:
  assumes "paged ops got q limit offset c = (c', Inr res)"
  obtains c1 n out where "mo_Count ops q c = (c1, Inr n)"
    and "mo_Find ops q \<lparr>fo_sort_desc = Some ''send_time'', fo_skip = offset, fo_limit = limit\<rparr> c1 = (c', Inr out)"
    and "res = (List.map_filter decode_message (take got out), int n)"
proof -
  let ?opt = "\<lparr>fo_sort_desc = Some ''send_time'', fo_skip = offset, fo_limit = limit\<rparr>"
  obtain c1 y where n: "mo_Count ops q c = (c1, y)" by fastforce
  obtain c2 z where f: "mo_Find ops q ?opt c1 = (c2, z)" by fastforce
  with assms n that [of c1] show thesis by (cases y; cases z) (auto simp: paged_def)
qed

lemma paged_law:
  assumes "rows_valid message_row docs valid c" and q: "\<And>d m. message_row d = Some m \<Longrightarrow> matches q d \<longleftrightarrow> p m"
    and "paged ops got q limit offset c = (c', Inr res)"
  shows "rows_valid message_row docs valid c' \<and> rows_in message_row docs c' = rows_in message_row docs c \<and>
    newest_page p limit offset got (rows_in message_row docs c) res"
proof -
  let ?opt = "\<lparr>fo_sort_desc = Some ''send_time'', fo_skip = offset, fo_limit = limit\<rparr>" and ?row = "the \<circ> message_row"
  have v: "valid c" "rows_all message_row (docs c)" using assms(1) by (simp_all add: rows_valid_def)
  from assms(3) obtain c1 n out where n: "mo_Count ops q c = (c1, Inr n)" and f: "mo_Find ops q ?opt c1 = (c', Inr out)"
    and res: "res = (List.map_filter decode_message (take got out), int n)"
    by (rule paged_cases)
  note cnt = count [OF v(1) n]
  then have "valid c1" "docs c1 = docs c" by simp_all
  note fnd = find [OF this(1) f]
  from fnd \<open>docs c1 = docs c\<close> obtain ms where ms: "mset ms = mset (filter (matches q) (docs c))" "in_order ?opt ms" "out = page ?opt ms"
    by (auto simp: find_effect_def)
  have sel: "map ?row (filter (matches q) ds) = filter p (map ?row ds)" if "rows_all message_row ds" for ds
    using that q by (induction ds) (auto simp: rows_all_def)
  have sub: "set ms \<subseteq> set (docs c)" using mset_eq_setD [OF ms(1)] by auto
  with v(2) have rows: "\<forall>d \<in> set ms. message_row d \<noteq> None" by (auto simp: rows_all_def)
  have "set out \<subseteq> set ms" unfolding ms(3) page_def by (auto simp: Let_def dest: in_set_takeD in_set_dropD)
  have dec: "List.map_filter decode_message ds = map ?row ds" if "\<forall>d \<in> set ds. message_row d \<noteq> None" for ds
    using that by (induction ds) (auto simp: List.map_filter_simps message_row_def split: if_splits)
  have "List.map_filter decode_message (take got out) = map ?row (take got out)"
    by (rule dec) (use rows \<open>set out \<subseteq> set ms\<close> in \<open>auto dest: in_set_takeD\<close>)
  then have "fst res = take got (page ?opt (map ?row ms))"
    by (simp add: res ms(3) page_def Let_def take_map drop_map)
  moreover have "mset (map ?row ms) = mset (filter p (rows_in message_row docs c))"
    using ms(1) sel [OF v(2)] unfolding rows_in_def by (metis mset_map)
  moreover have "n = length (filter p (rows_in message_row docs c))"
    using cnt arg_cong [OF sel [OF v(2)], of length] unfolding rows_in_def by (simp add: count_effect_def)
  ultimately have "newest_page p limit offset got (rows_in message_row docs c) res"
    using in_order_times [OF rows ms(2)] unfolding newest_page_def page_def by (intro exI [of _ "map ?row ms"]) (simp add: res Let_def)
  with fnd \<open>docs c1 = docs c\<close> v(2) show ?thesis by (simp add: rows_valid_def rows_in_def)
qed

lemma history_law:
  assumes "rows_valid message_row docs valid (ch_messages r)"
    and "on_messages (paged ops got q limit offset) r = (r', Inr res)"
    and "\<And>d m. message_row d = Some m \<Longrightarrow> matches q d \<longleftrightarrow> p m"
  shows "ch_blocked r' = ch_blocked r \<and> chat_messages docs r' = chat_messages docs r \<and> newest_page p limit offset got (chat_messages docs r) res"
proof -
  from assms(2) obtain c where "paged ops got q limit offset (ch_messages r) = (c, Inr res)" "r' = r\<lparr>ch_messages := c\<rparr>"
    by (auto simp: on_messages_def split: prod.splits)
  with paged_law [OF assms(1,3)] show ?thesis by (simp add: chat_messages_def)
qed

end

subsection \<open>Properties\<close>


definition demo_chat :: "mem_coll chat_repository" where
  "demo_chat = \<lparr>ch_messages = \<lparr>mc_docs = [], mc_next = 0\<rparr>, ch_blocked = \<lparr>mc_docs = [], mc_next = 0\<rparr>\<rparr>"



text \<open>
  Two blocks of the same pair that check before either inserts record it twice, and one lift then leaves the
  user blocked.
\<close>

lemma concurrent_blocks_stay:
  "let c0 = ch_blocked demo_chat; (c1, e1) = block_check (mem_ops []) 7 8 c0; (c2, e2) = block_check (mem_ops []) 7 8 c1;
     (c3, e3) = block_insert (mem_ops []) unix_epoch unix_epoch 7 8 c2; (c4, e4) = block_insert (mem_ops []) unix_epoch unix_epoch 7 8 c3;
     (r5, e5) = UnblockUser (mem_ops []) 7 8 (demo_chat\<lparr>ch_blocked := c4\<rparr>); (r6, x) = IsUserBlocked (mem_ops []) 7 8 r5
   in e1 = None \<and> e2 = None \<and> e3 = None \<and> e4 = None \<and> e5 = None \<and> x = Inr True"
  by code_simp

text \<open>
  the chat history is read page by page: a successful \<^verbatim>\<open>GetChatHistory\<close> gives the page of the messages of the
  channel that skips the offset and is cut at the limit, newest first, with the number of all of them, and
  \<^verbatim>\<open>GetPrivateMessages\<close> the same of the messages the two users sent each other, in either order of the users;
  both change nothing. (A connection that fails during the reading cuts the page short.)
\<close>

theorem newest_page_read:
  assumes "mongo_collection ops docs valid" and "rows_valid message_row docs valid (ch_messages r)"
  shows "(\<forall>r1 res1. GetChatHistory ops got ct cid limit offset r = (r1, Inr res1) \<longrightarrow>
      newest_page (in_channel ct cid) limit offset got (chat_messages docs r) res1 \<and>
      chat_messages docs r1 = chat_messages docs r \<and> ch_blocked r1 = ch_blocked r) \<and>
    (\<forall>r2 res2. GetPrivateMessages ops got u v limit offset r = (r2, Inr res2) \<longrightarrow>
      newest_page (private_between u v) limit offset got (chat_messages docs r) res2 \<and>
      newest_page (private_between v u) limit offset got (chat_messages docs r) res2 \<and>
      chat_messages docs r2 = chat_messages docs r \<and> ch_blocked r2 = ch_blocked r)"
proof -
  note law = mongo_collection.history_law [OF assms]
  have sym: "private_between v u = private_between u v" by (auto simp: private_between_def fun_eq_iff)
  show ?thesis
    unfolding GetChatHistory_def GetPrivateMessages_def sym
    using law [where p = "in_channel ct cid", OF _ message_row_match(1)] law [where p = "private_between u v", OF _ message_row_match(2)] by blast
qed

definition demo_message :: "u64 \<Rightarrow> u32 \<Rightarrow> chat_message" where
  "demo_message fro t = \<lparr>cm_ID = None, cm_MessageID = 1, cm_FromUserID = fro, cm_ToUserID = 15 - fro, cm_ChannelType = 1, cm_ChannelID = 0,
     cm_MessageType = 0, cm_Content = ''hi'', cm_SendTime = t, cm_CreatedAt = 0\<rparr>"

definition demo_talk :: "mem_coll chat_repository" where
  "demo_talk = fold (\<lambda>m r. fst (SaveMessage (mem_ops []) unix_epoch m r)) [demo_message 7 5, demo_message 8 9] demo_chat"

theorem newest_page_read_witness:
  "\<exists>r res. GetPrivateMessages (mem_ops []) 5 7 8 1 0 demo_talk = (r, Inr res) \<and> map cm_SendTime (fst res) = [9] \<and> snd res = 2 \<and>
     newest_page (private_between 8 7) 1 0 5 (chat_messages mc_docs demo_talk) res"
proof -
  have "list_all (\<lambda>d. message_row d \<noteq> None) (mc_docs (ch_messages demo_talk))"
    by code_simp
  then have ok: "rows_valid message_row mc_docs (\<lambda>c. uniques [] (mc_docs c)) (ch_messages demo_talk)"
    by (simp add: rows_valid_def rows_all_def uniques_def list_all_iff)
  have g: "case GetPrivateMessages (mem_ops []) 5 7 8 1 0 demo_talk of (r, Inr res) \<Rightarrow> map cm_SendTime (fst res) = [9] \<and> snd res = 2 | _ \<Rightarrow> False"
    by code_simp
  obtain r res where e: "GetPrivateMessages (mem_ops []) 5 7 8 1 0 demo_talk = (r, Inr res)" "map cm_SendTime (fst res) = [9]" "snd res = 2"
    using g by (auto split: prod.splits sum.splits)
  from newest_page_read [OF mem.mongo_collection_axioms ok, of 5 0 0 1 0 7 8] e
  have "newest_page (private_between 8 7) 1 0 5 (chat_messages mc_docs demo_talk) res" by (cases res) simp
  with e show ?thesis by (intro exI [of _ r] exI [of _ res]) simp
qed

end
