(* ===== verification/Connections.thy ===== *)
theory Connections
  imports GoStd
begin

text \<open>
  How the managers of \<^verbatim>\<open>internal/database/mongodb.go\<close> and \<^verbatim>\<open>redis.go\<close> connect: their modes, the options and
  the connection string they build, and which clients are open afterwards. The client libraries are parameters,
  the records \<open>mongo_driver\<close> and \<open>redis_driver\<close>, the environment of the process is the function \<open>getenv\<close>; the
  locales \<open>mongo_clients\<close> and \<open>redis_clients\<close> state which clients the calls of the libraries open and close.
\<close>

subsection \<open>Escaping\<close>

text \<open>\<^verbatim>\<open>url.QueryEscape\<close>.\<close>

definition query_keep :: "char \<Rightarrow> bool" where
  "query_keep c \<longleftrightarrow> (let n = of_char c :: nat in 48 \<le> n \<and> n \<le> 57 \<or> 65 \<le> n \<and> n \<le> 90 \<or> 97 \<le> n \<and> n \<le> 122) \<or> c \<in> set ''-_.~''"

definition upper_hex :: "nat \<Rightarrow> char" where "upper_hex n = ''0123456789ABCDEF'' ! n"

definition escape_char :: "char \<Rightarrow> string" where
  "escape_char c =
     (if query_keep c then [c] else if c = CHR '' '' then ''+''
      else [CHR ''%'', upper_hex (of_char c div 16), upper_hex (of_char c mod 16)])"

definition QueryEscape :: "string \<Rightarrow> string" where "QueryEscape s = concat (map escape_char s)"

text \<open>\<^verbatim>\<open>url.QueryUnescape\<close> reads a plus sign as a space, \<^verbatim>\<open>url.PathUnescape\<close> as itself; \<open>None\<close> is an error.\<close>

definition hex_val :: "char \<Rightarrow> nat option" where
  "hex_val c = (let n = of_char c :: nat in
     if 48 \<le> n \<and> n \<le> 57 then Some (n - 48) else if 65 \<le> n \<and> n \<le> 70 then Some (n - 55)
     else if 97 \<le> n \<and> n \<le> 102 then Some (n - 87) else None)"

fun unescape :: "char \<Rightarrow> string \<Rightarrow> string option" where
  "unescape sp [] = Some []"
| "unescape sp (c # cs) =
     (if c = CHR ''%'' then
        (case cs of
           a # b # ds \<Rightarrow> (case (hex_val a, hex_val b) of
               (Some x, Some y) \<Rightarrow> map_option ((#) (char_of (16 * x + y))) (unescape sp ds)
             | _ \<Rightarrow> None)
         | _ \<Rightarrow> None)
      else map_option ((#) (if c = CHR ''+'' then sp else c)) (unescape sp cs))"

definition QueryUnescape :: "string \<Rightarrow> string option" where "QueryUnescape = unescape (CHR '' '')"
definition PathUnescape :: "string \<Rightarrow> string option" where "PathUnescape = unescape (CHR ''+'')"

text \<open>\<^verbatim>\<open>strings.Join(hosts, ",")\<close>\<close>

definition host_list :: "string list \<Rightarrow> string" where "host_list hosts = join_with (CHR '','') hosts"

lemma hex_val_upper [simp]: "n < 16 \<Longrightarrow> hex_val (upper_hex n) = Some n"
proof -
  assume "n < 16"
  then have "n \<in> set [0..<16]" by simp
  moreover have "\<forall>n \<in> set [0..<16]. hex_val (upper_hex n) = Some n" by code_simp
  ultimately show ?thesis by blast
qed

lemma upper_hex_plain: "n < 16 \<Longrightarrow> upper_hex n \<notin> set '':@/?''"
proof -
  assume "n < 16"
  then have "n \<in> set [0..<16]" by simp
  moreover have "\<forall>n \<in> set [0..<16]. upper_hex n \<notin> set '':@/?''" by code_simp
  ultimately show ?thesis by blast
qed

lemma escaped_hex: "a < 16 \<Longrightarrow> b < 16 \<Longrightarrow> set [CHR ''%'', upper_hex a, upper_hex b] \<inter> set '':@/?'' = {}"
  using upper_hex_plain [of a] upper_hex_plain [of b] by simp

lemma of_char_less: "(of_char c :: nat) < 256"
  by (cases c) (simp only: of_char_Char, simp add: horner_sum_simps of_bool_def)

lemma of_char_div: "(of_char c :: nat) div 16 < 16"
  using of_char_less [of c] by (simp add: less_mult_imp_div_less)

lemma unescape_char: "unescape sp (escape_char c @ s) = map_option ((#) (if c = CHR '' '' then sp else c)) (unescape sp s)"
proof (cases "query_keep c")
  case True
  have n: "\<not> query_keep (CHR ''%'')" "\<not> query_keep (CHR ''+'')" "\<not> query_keep (CHR '' '')" by code_simp+
  with True have "c \<noteq> CHR ''%''" "c \<noteq> CHR ''+''" "c \<noteq> CHR '' ''" by auto
  with True show ?thesis by (simp add: escape_char_def)
next
  case False
  have "16 * ((of_char c :: nat) div 16) + of_char c mod 16 = of_char c" by simp
  note of_char_div [of c] this
  with False show ?thesis by (cases "c = CHR '' ''") (simp_all add: escape_char_def)
qed

lemma unescape_escape: "unescape sp (QueryEscape s) = Some (map (\<lambda>c. if c = CHR '' '' then sp else c) s)"
  by (induction s) (simp_all add: QueryEscape_def unescape_char)

lemma escaped_plain: "set (QueryEscape s) \<inter> set '':@/?'' = {}"
proof -
  have "set (escape_char c) \<inter> set '':@/?'' = {}" for c
  proof (cases "query_keep c")
    case True
    have "\<not> query_keep (CHR '':'')" "\<not> query_keep (CHR ''@'')" "\<not> query_keep (CHR ''/'')" "\<not> query_keep (CHR ''?'')" by code_simp+
    with True have "c \<notin> set '':@/?''" by auto
    with True show ?thesis by (simp add: escape_char_def)
  next
    case False
    have "(of_char c :: nat) mod 16 < 16" by (rule mod_less_divisor) simp
    from False escaped_hex [OF of_char_div [of c] this] show ?thesis by (simp only: escape_char_def if_False) simp
  qed
  then show ?thesis by (auto simp: QueryEscape_def)
qed

subsection \<open>MongoDB\<close>

record mongo_config =
  mf_URI :: string
  mf_Database :: string
  mf_ReplicaSet :: bool
  mf_ReplicaSetName :: string
  mf_Hosts :: "string list"
  mf_AuthSource :: string
  mf_Username :: string
  mf_Password :: string
  mf_PasswordEnv :: string
  mf_ShardedCluster :: bool
  mf_MongosHosts :: "string list"
  mf_ConnectTimeout :: duration
  mf_MaxPoolSize :: u64
  mf_MinPoolSize :: u64
  mf_MaxConnIdleTime :: duration
  mf_ReadPreference :: string
  mf_WriteConcern :: string
  mf_ReadConcern :: string
  mf_TLSEnabled :: bool
  mf_TLSCertFile :: string
  mf_TLSKeyFile :: string
  mf_TLSCAFile :: string

datatype read_pref = ReadPrimary | ReadPrimaryPreferred | ReadSecondary | ReadSecondaryPreferred | ReadNearest

datatype write_concern = WMajority | WNumber int

record mongo_credential =
  mc_Username :: string
  mc_Password :: string
  mc_AuthSource :: string

text \<open>The options set on \<^verbatim>\<open>options.Client()\<close>: the string given to \<^verbatim>\<open>ApplyURI\<close> and what is set after it.\<close>

record mongo_client_options =
  mo_URI :: string
  mo_ConnectTimeout :: duration
  mo_MaxPoolSize :: u64
  mo_MinPoolSize :: u64
  mo_MaxConnIdleTime :: duration
  mo_Auth :: "mongo_credential option"
  mo_ReplicaSet :: "string option"
  mo_ReadPreference :: "read_pref option"
  mo_WriteConcern :: "write_concern option"

definition mongo_password :: "(string \<Rightarrow> string) \<Rightarrow> mongo_config \<Rightarrow> string" where
  "mongo_password getenv cfg = (if mf_PasswordEnv cfg \<noteq> [] then getenv (mf_PasswordEnv cfg) else mf_Password cfg)"

definition pooled_options :: "mongo_config \<Rightarrow> string \<Rightarrow> mongo_client_options" where
  "pooled_options cfg uri = \<lparr>mo_URI = uri, mo_ConnectTimeout = mf_ConnectTimeout cfg, mo_MaxPoolSize = mf_MaxPoolSize cfg,
     mo_MinPoolSize = mf_MinPoolSize cfg, mo_MaxConnIdleTime = mf_MaxConnIdleTime cfg, mo_Auth = None, mo_ReplicaSet = None,
     mo_ReadPreference = None, mo_WriteConcern = None\<rparr>"

definition buildSingleOptions :: "(string \<Rightarrow> string) \<Rightarrow> mongo_config \<Rightarrow> string + mongo_client_options" where
  "buildSingleOptions getenv cfg =
     (let opts = pooled_options cfg (mf_URI cfg); password = mongo_password getenv cfg
      in if mf_Username cfg \<noteq> [] \<and> password \<noteq> []
         then Inr (opts\<lparr>mo_Auth := Some \<lparr>mc_Username = mf_Username cfg, mc_Password = password, mc_AuthSource = mf_AuthSource cfg\<rparr>\<rparr>)
         else Inr opts)"

definition userinfo :: "(string \<Rightarrow> string) \<Rightarrow> mongo_config \<Rightarrow> string" where
  "userinfo getenv cfg =
     (let password = mongo_password getenv cfg
      in if mf_Username cfg \<noteq> [] \<and> password \<noteq> [] then QueryEscape (mf_Username cfg) @ '':'' @ QueryEscape password @ ''@'' else [])"

definition parseReadPreference :: "string \<Rightarrow> string + read_pref" where
  "parseReadPreference pref =
     (if pref = ''primary'' then Inr ReadPrimary else if pref = ''primaryPreferred'' then Inr ReadPrimaryPreferred
      else if pref = ''secondary'' then Inr ReadSecondary else if pref = ''secondaryPreferred'' then Inr ReadSecondaryPreferred
      else if pref = ''nearest'' then Inr ReadNearest else Inl (''unknown read preference: '' @ pref))"

text \<open>\<^verbatim>\<open>strconv.Atoi\<close> reads what \<^verbatim>\<open>ParseInt\<close> reads, as \<^verbatim>\<open>int\<close> has 64 bits.\<close>

definition parseIntOrDefault :: "string \<Rightarrow> int \<Rightarrow> int" where
  "parseIntOrDefault s d = (case parse_int64 s of Some n \<Rightarrow> n | None \<Rightarrow> d)"

definition parseWriteConcern :: "string \<Rightarrow> string + write_concern" where
  "parseWriteConcern concern =
     (if concern = ''majority'' then Inr WMajority else if concern = ''1'' then Inr (WNumber 1) else if concern = ''2'' then Inr (WNumber 2)
      else if concern = ''3'' then Inr (WNumber 3)
      else let w = parseIntOrDefault concern (- 1) in if w > 0 then Inr (WNumber w) else Inl (''unknown write concern: '' @ concern))"

definition with_read_preference :: "mongo_config \<Rightarrow> mongo_client_options \<Rightarrow> string + mongo_client_options" where
  "with_read_preference cfg opts =
     (if mf_ReadPreference cfg = [] then Inr opts
      else case parseReadPreference (mf_ReadPreference cfg) of
        Inl e \<Rightarrow> Inl (''invalid read preference: '' @ e)
      | Inr p \<Rightarrow> Inr (opts\<lparr>mo_ReadPreference := Some p\<rparr>))"

definition with_write_concern :: "mongo_config \<Rightarrow> mongo_client_options \<Rightarrow> string + mongo_client_options" where
  "with_write_concern cfg opts =
     (if mf_WriteConcern cfg = [] then Inr opts
      else case parseWriteConcern (mf_WriteConcern cfg) of
        Inl e \<Rightarrow> Inl (''invalid write concern: '' @ e)
      | Inr w \<Rightarrow> Inr (opts\<lparr>mo_WriteConcern := Some w\<rparr>))"

definition buildReplicaSetOptions :: "(string \<Rightarrow> string) \<Rightarrow> mongo_config \<Rightarrow> string + mongo_client_options" where
  "buildReplicaSetOptions getenv cfg =
     (if mf_Hosts cfg = [] then Inl ''replica set hosts not configured''
      else if mf_ReplicaSetName cfg = [] then Inl ''replica set name not configured''
      else
        let uri = ''mongodb://'' @ userinfo getenv cfg @ host_list (mf_Hosts cfg) @ ''/'' @ mf_Database cfg @ ''?replicaSet='' @ mf_ReplicaSetName cfg
              @ (if mf_AuthSource cfg \<noteq> [] then ''&authSource='' @ mf_AuthSource cfg else []);
            opts = (pooled_options cfg uri)\<lparr>mo_ReplicaSet := Some (mf_ReplicaSetName cfg)\<rparr>
        in case with_read_preference cfg opts of Inl e \<Rightarrow> Inl e | Inr opts1 \<Rightarrow> with_write_concern cfg opts1)"

definition buildShardedClusterOptions :: "(string \<Rightarrow> string) \<Rightarrow> mongo_config \<Rightarrow> string + mongo_client_options" where
  "buildShardedClusterOptions getenv cfg =
     (if mf_MongosHosts cfg = [] then Inl ''mongos hosts not configured''
      else Inr (pooled_options cfg (''mongodb://'' @ userinfo getenv cfg @ host_list (mf_MongosHosts cfg) @ ''/'' @ mf_Database cfg
              @ (if mf_AuthSource cfg \<noteq> [] then ''?authSource='' @ mf_AuthSource cfg else []))))"

record ('h, 'w) mongo_driver =
  dr_Connect :: "mongo_client_options \<Rightarrow> 'w \<Rightarrow> 'w \<times> (string + 'h)"
  dr_Ping :: "'h \<Rightarrow> 'w \<Rightarrow> 'w \<times> string option"
  dr_Disconnect :: "'h \<Rightarrow> 'w \<Rightarrow> 'w \<times> string option"

datatype mongo_mode = MongoSingle | MongoReplicaSet | MongoSharded

record 'h mongo_manager =
  mg_client :: "'h option"
  mg_database :: string
  mg_config :: mongo_config
  mg_mode :: mongo_mode

definition mongo_mode_of :: "mongo_config \<Rightarrow> mongo_mode" where
  "mongo_mode_of cfg = (if mf_ShardedCluster cfg then MongoSharded else if mf_ReplicaSet cfg then MongoReplicaSet else MongoSingle)"

definition mongo_options :: "(string \<Rightarrow> string) \<Rightarrow> mongo_config \<Rightarrow> string + mongo_client_options" where
  "mongo_options getenv cfg = (case mongo_mode_of cfg of
      MongoSharded \<Rightarrow> buildShardedClusterOptions getenv cfg
    | MongoReplicaSet \<Rightarrow> buildReplicaSetOptions getenv cfg
    | MongoSingle \<Rightarrow> buildSingleOptions getenv cfg)"

definition NewMongoManager :: "('h, 'w) mongo_driver \<Rightarrow> (string \<Rightarrow> string) \<Rightarrow> mongo_config \<Rightarrow> 'w \<Rightarrow> 'w \<times> (string + 'h mongo_manager)" where
  "NewMongoManager dr getenv cfg w =
     (case mongo_options getenv cfg of
        Inl e \<Rightarrow> (w, Inl (''failed to build client options: '' @ e))
      | Inr opts \<Rightarrow>
          (case dr_Connect dr opts w of
             (w1, Inl e) \<Rightarrow> (w1, Inl (''failed to connect to mongodb: '' @ e))
           | (w1, Inr h) \<Rightarrow>
               (case dr_Ping dr h w1 of
                  (w2, Some e) \<Rightarrow> (fst (dr_Disconnect dr h w2), Inl (''failed to ping mongodb: '' @ e))
                | (w2, None) \<Rightarrow> (w2, Inr \<lparr>mg_client = Some h, mg_database = mf_Database cfg, mg_config = cfg, mg_mode = mongo_mode_of cfg\<rparr>))))"

text \<open>A nil manager and one without a client are \<open>None\<close>.\<close>

definition mongo_Ping :: "('h, 'w) mongo_driver \<Rightarrow> 'h mongo_manager option \<Rightarrow> 'w \<Rightarrow> 'w \<times> string option" where
  "mongo_Ping dr mm w = (case Option.bind mm mg_client of None \<Rightarrow> (w, Some ''mongodb client not initialized'') | Some h \<Rightarrow> dr_Ping dr h w)"

definition mongo_Close :: "('h, 'w) mongo_driver \<Rightarrow> 'h mongo_manager \<Rightarrow> 'w \<Rightarrow> ('w \<times> string option) outcome" where
  "mongo_Close dr mm w = (case mg_client mm of None \<Rightarrow> Panic | Some h \<Rightarrow> Ret (dr_Disconnect dr h w))"

subsection \<open>Redis\<close>

record redis_config =
  rf_Addr :: string
  rf_Password :: string
  rf_PasswordEnv :: string
  rf_DB :: int
  rf_ClusterMode :: bool
  rf_ClusterAddrs :: "string list"
  rf_SentinelMode :: bool
  rf_SentinelAddrs :: "string list"
  rf_SentinelMaster :: string
  rf_PoolSize :: int
  rf_MaxRetries :: int
  rf_DialTimeout :: duration
  rf_ReadTimeout :: duration
  rf_WriteTimeout :: duration
  rf_IdleTimeout :: duration
  rf_MaxRedirects :: int
  rf_ReadOnly :: bool
  rf_RouteByLatency :: bool
  rf_RouteRandomly :: bool

text \<open>The options every client is given, and those of \<^verbatim>\<open>NewClient\<close>, \<^verbatim>\<open>NewClusterClient\<close> and \<^verbatim>\<open>NewFailoverClient\<close>.\<close>

record redis_common =
  rz_Password :: string
  rz_PoolSize :: int
  rz_MaxRetries :: int
  rz_DialTimeout :: duration
  rz_ReadTimeout :: duration
  rz_WriteTimeout :: duration
  rz_IdleTimeout :: duration

datatype redis_client_options =
    ClientOptions string int redis_common
  | ClusterOptions "string list" redis_common int bool bool bool
  | FailoverOptions string "string list" int redis_common

text \<open>A client by its Go type: \<^verbatim>\<open>*redis.Client\<close>, which a failover client is too, or \<^verbatim>\<open>*redis.ClusterClient\<close>.\<close>

datatype 'h redis_handle = PlainClient 'h | ClusterClient 'h

fun handle_of :: "'h redis_handle \<Rightarrow> 'h" where
  "handle_of (PlainClient h) = h"
| "handle_of (ClusterClient h) = h"

record ('h, 'p, 'w) redis_driver =
  rv_NewClient :: "redis_client_options \<Rightarrow> 'w \<Rightarrow> 'w \<times> 'h"
  rv_Ping :: "'h \<Rightarrow> 'w \<Rightarrow> 'w \<times> string option"
  rv_Close :: "'h \<Rightarrow> 'w \<Rightarrow> 'w \<times> string option"
  rv_ClusterSlots :: "'h \<Rightarrow> 'w \<Rightarrow> 'w \<times> (string + nat)"
  rv_ClusterInfo :: "'h \<Rightarrow> 'w \<Rightarrow> 'w \<times> (string + string)"
  rv_Subscribe :: "'h \<Rightarrow> string list \<Rightarrow> 'w \<Rightarrow> 'w \<times> 'p"
  rv_PSubscribe :: "'h \<Rightarrow> string list \<Rightarrow> 'w \<Rightarrow> 'w \<times> 'p"

datatype redis_mode = RedisSingle | RedisCluster | RedisSentinel

record 'h redis_manager =
  rg_client :: "'h redis_handle option"
  rg_clusterClient :: "'h option"
  rg_sentinelClient :: "'h option"
  rg_config :: redis_config
  rg_mode :: redis_mode

definition redis_password :: "(string \<Rightarrow> string) \<Rightarrow> redis_config \<Rightarrow> string" where
  "redis_password getenv cfg = (if rf_PasswordEnv cfg \<noteq> [] then getenv (rf_PasswordEnv cfg) else rf_Password cfg)"

definition redis_common_of :: "(string \<Rightarrow> string) \<Rightarrow> redis_config \<Rightarrow> redis_common" where
  "redis_common_of getenv cfg = \<lparr>rz_Password = redis_password getenv cfg, rz_PoolSize = rf_PoolSize cfg, rz_MaxRetries = rf_MaxRetries cfg,
     rz_DialTimeout = rf_DialTimeout cfg, rz_ReadTimeout = rf_ReadTimeout cfg, rz_WriteTimeout = rf_WriteTimeout cfg,
     rz_IdleTimeout = rf_IdleTimeout cfg\<rparr>"

definition initSingleMode :: "('h, 'p, 'w) redis_driver \<Rightarrow> (string \<Rightarrow> string) \<Rightarrow> 'h redis_manager \<Rightarrow> 'w \<Rightarrow> 'w \<times> (string + 'h redis_manager)" where
  "initSingleMode rv getenv rm w = (let cfg = rg_config rm in
     case rv_NewClient rv (ClientOptions (rf_Addr cfg) (rf_DB cfg) (redis_common_of getenv cfg)) w of
       (w1, h) \<Rightarrow> (w1, Inr (rm\<lparr>rg_client := Some (PlainClient h)\<rparr>)))"

definition initClusterMode :: "('h, 'p, 'w) redis_driver \<Rightarrow> (string \<Rightarrow> string) \<Rightarrow> 'h redis_manager \<Rightarrow> 'w \<Rightarrow> 'w \<times> (string + 'h redis_manager)" where
  "initClusterMode rv getenv rm w = (let cfg = rg_config rm in
     if rf_ClusterAddrs cfg = [] then (w, Inl ''cluster addresses not configured'')
     else case rv_NewClient rv (ClusterOptions (rf_ClusterAddrs cfg) (redis_common_of getenv cfg) (rf_MaxRedirects cfg) (rf_ReadOnly cfg)
          (rf_RouteByLatency cfg) (rf_RouteRandomly cfg)) w of
       (w1, h) \<Rightarrow> (w1, Inr (rm\<lparr>rg_client := Some (ClusterClient h), rg_clusterClient := Some h\<rparr>)))"

definition initSentinelMode :: "('h, 'p, 'w) redis_driver \<Rightarrow> (string \<Rightarrow> string) \<Rightarrow> 'h redis_manager \<Rightarrow> 'w \<Rightarrow> 'w \<times> (string + 'h redis_manager)" where
  "initSentinelMode rv getenv rm w = (let cfg = rg_config rm in
     if rf_SentinelAddrs cfg = [] then (w, Inl ''sentinel addresses not configured'')
     else if rf_SentinelMaster cfg = [] then (w, Inl ''sentinel master name not configured'')
     else case rv_NewClient rv (FailoverOptions (rf_SentinelMaster cfg) (rf_SentinelAddrs cfg) (rf_DB cfg) (redis_common_of getenv cfg)) w of
       (w1, h) \<Rightarrow> (w1, Inr (rm\<lparr>rg_client := Some (PlainClient h), rg_sentinelClient := Some h\<rparr>)))"

definition init_redis :: "('h, 'p, 'w) redis_driver \<Rightarrow> (string \<Rightarrow> string) \<Rightarrow> redis_config \<Rightarrow> 'w \<Rightarrow> 'w \<times> (string + 'h redis_manager)" where
  "init_redis rv getenv cfg =
     (let rm = \<lparr>rg_client = None, rg_clusterClient = None, rg_sentinelClient = None, rg_config = cfg, rg_mode = RedisSingle\<rparr>
      in if rf_ClusterMode cfg then initClusterMode rv getenv (rm\<lparr>rg_mode := RedisCluster\<rparr>)
         else if rf_SentinelMode cfg then initSentinelMode rv getenv (rm\<lparr>rg_mode := RedisSentinel\<rparr>)
         else initSingleMode rv getenv rm)"

text \<open>\<^verbatim>\<open>Ping\<close> of a nil manager or one without a client is an error.\<close>

definition redis_Ping :: "('h, 'p, 'w) redis_driver \<Rightarrow> 'h redis_manager option \<Rightarrow> 'w \<Rightarrow> 'w \<times> string option" where
  "redis_Ping rv rm w = (case Option.bind rm rg_client of
      None \<Rightarrow> (w, Some ''redis client not initialized'')
    | Some h \<Rightarrow> rv_Ping rv (handle_of h) w)"

definition NewRedisManager :: "('h, 'p, 'w) redis_driver \<Rightarrow> (string \<Rightarrow> string) \<Rightarrow> redis_config \<Rightarrow> 'w \<Rightarrow> 'w \<times> (string + 'h redis_manager)" where
  "NewRedisManager rv getenv cfg w =
     (case init_redis rv getenv cfg w of
        (w1, Inl e) \<Rightarrow> (w1, Inl (''failed to initialize redis: '' @ e))
      | (w1, Inr rm) \<Rightarrow>
          (case redis_Ping rv (Some rm) w1 of
             (w2, Some e) \<Rightarrow> (w2, Inl (''failed to connect to redis: '' @ e))
           | (w2, None) \<Rightarrow> (w2, Inr rm)))"

text \<open>The client that \<^verbatim>\<open>Close\<close>, \<^verbatim>\<open>Subscribe\<close> and \<^verbatim>\<open>PSubscribe\<close> act on, if there is one of the mode.\<close>

definition mode_client :: "'h redis_manager \<Rightarrow> 'h option" where
  "mode_client rm = (case rg_mode rm of
      RedisCluster \<Rightarrow> rg_clusterClient rm
    | RedisSentinel \<Rightarrow> rg_sentinelClient rm
    | RedisSingle \<Rightarrow> (case rg_client rm of Some (PlainClient h) \<Rightarrow> Some h | _ \<Rightarrow> None))"

definition redis_Close :: "('h, 'p, 'w) redis_driver \<Rightarrow> 'h redis_manager \<Rightarrow> 'w \<Rightarrow> 'w \<times> string option" where
  "redis_Close rv rm w = (case mode_client rm of Some h \<Rightarrow> rv_Close rv h w | None \<Rightarrow> (w, None))"

definition Subscribe :: "('h, 'p, 'w) redis_driver \<Rightarrow> string list \<Rightarrow> 'h redis_manager \<Rightarrow> 'w \<Rightarrow> 'w \<times> 'p option" where
  "Subscribe rv channels rm w = (case mode_client rm of Some h \<Rightarrow> apsnd Some (rv_Subscribe rv h channels w) | None \<Rightarrow> (w, None))"

definition PSubscribe :: "('h, 'p, 'w) redis_driver \<Rightarrow> string list \<Rightarrow> 'h redis_manager \<Rightarrow> 'w \<Rightarrow> 'w \<times> 'p option" where
  "PSubscribe rv patterns rm w = (case mode_client rm of Some h \<Rightarrow> apsnd Some (rv_PSubscribe rv h patterns w) | None \<Rightarrow> (w, None))"

record cluster_info =
  ci_slots :: nat
  ci_nodes :: "string list"
  ci_state :: "string option"

definition GetClusterInfo :: "('h, 'p, 'w) redis_driver \<Rightarrow> 'h redis_manager \<Rightarrow> 'w \<Rightarrow> 'w \<times> (string + cluster_info)" where
  "GetClusterInfo rv rm w =
     (case (rg_mode rm, rg_clusterClient rm) of
        (RedisCluster, Some h) \<Rightarrow>
          (case rv_ClusterSlots rv h w of
             (w1, Inl e) \<Rightarrow> (w1, Inl e)
           | (w1, Inr slots) \<Rightarrow>
               apsnd (\<lambda>st. Inr \<lparr>ci_slots = slots, ci_nodes = rf_ClusterAddrs (rg_config rm), ci_state = (case st of Inl _ \<Rightarrow> None | Inr s \<Rightarrow> Some s)\<rparr>)
                 (rv_ClusterInfo rv h w1))
      | _ \<Rightarrow> (w, Inl ''not in cluster mode''))"

subsection \<open>Which clients are open\<close>

locale mongo_clients =
  fixes dr :: "('h, 'w) mongo_driver" and opened :: "'w \<Rightarrow> 'h set"
  assumes connect: "dr_Connect dr opts w = (w1, r1) \<Longrightarrow>
      (case r1 of Inl e \<Rightarrow> opened w1 = opened w | Inr h \<Rightarrow> h \<notin> opened w \<and> opened w1 = insert h (opened w))"
    and ping: "dr_Ping dr h w = (w2, e2) \<Longrightarrow> opened w2 = opened w"
    and disconnect: "dr_Disconnect dr h w = (w3, e3) \<Longrightarrow> opened w3 = opened w - {h}"
begin

lemma manager_opens:
  assumes "NewMongoManager dr getenv cfg w = (w', r)"
  shows "case r of
      Inl e \<Rightarrow> opened w' = opened w
    | Inr mm \<Rightarrow> \<exists>h. mg_client mm = Some h \<and> h \<notin> opened w \<and> opened w' = insert h (opened w) \<and> \<not> isl (mongo_options getenv cfg) \<and>
        mg_database mm = mf_Database cfg"
proof (cases "mongo_options getenv cfg")
  case (Inl e)
  with assms show ?thesis by (auto simp: NewMongoManager_def)
next
  case (Inr opts)
  obtain w1 r1 where c: "dr_Connect dr opts w = (w1, r1)" by fastforce
  show ?thesis
  proof (cases r1)
    case (Inl e)
    with connect [OF c] assms c Inr show ?thesis by (auto simp: NewMongoManager_def)
  next
    case (Inr h)
    obtain w2 e2 where p: "dr_Ping dr h w1 = (w2, e2)" by fastforce
    obtain w3 e3 where d: "dr_Disconnect dr h w2 = (w3, e3)" by fastforce
    from connect [OF c] ping [OF p] disconnect [OF d] assms c p d Inr \<open>mongo_options getenv cfg = Inr opts\<close> show ?thesis
      by (cases e2) (auto simp: NewMongoManager_def)
  qed
qed

end

locale redis_clients =
  fixes rv :: "('h, 'p, 'w) redis_driver" and opened :: "'w \<Rightarrow> 'h set"
  assumes new_client: "rv_NewClient rv opts w = (w1, h1) \<Longrightarrow> h1 \<notin> opened w \<and> opened w1 = insert h1 (opened w)"
    and ping: "rv_Ping rv h w = (w2, e2) \<Longrightarrow> opened w2 = opened w"
    and close: "rv_Close rv h w = (w3, e3) \<Longrightarrow> opened w3 = opened w - {h}"
begin

lemma init_opens:
  assumes "init_redis rv getenv cfg w = (w', r)"
  shows "case r of
      Inl e \<Rightarrow> w' = w
    | Inr rm \<Rightarrow> \<exists>h c. rg_client rm = Some c \<and> handle_of c = h \<and> mode_client rm = Some h \<and> h \<notin> opened w \<and> opened w' = insert h (opened w)"
  using assms new_client
  by (auto simp: init_redis_def initClusterMode_def initSentinelMode_def initSingleMode_def mode_client_def Let_def
      split: if_splits prod.splits)

lemma manager_opens:
  assumes "NewRedisManager rv getenv cfg w = (w', r)"
  shows "case r of
      Inl e \<Rightarrow> opened w' = opened w \<or> (\<exists>h. h \<notin> opened w \<and> opened w' = insert h (opened w))
    | Inr rm \<Rightarrow> \<exists>h. mode_client rm = Some h \<and> h \<notin> opened w \<and> opened w' = insert h (opened w)"
proof -
  obtain w1 r1 where i: "init_redis rv getenv cfg w = (w1, r1)" by fastforce
  note o = init_opens [OF i]
  show ?thesis
  proof (cases r1)
    case (Inl e)
    with o assms i show ?thesis by (auto simp: NewRedisManager_def)
  next
    case (Inr rm)
    with o obtain c where c: "rg_client rm = Some c" "mode_client rm = Some (handle_of c)" "handle_of c \<notin> opened w"
      "opened w1 = insert (handle_of c) (opened w)" by auto
    obtain w2 e2 where p: "rv_Ping rv (handle_of c) w1 = (w2, e2)" by fastforce
    with ping [OF p] assms i c Inr show ?thesis by (cases e2) (auto simp: NewRedisManager_def redis_Ping_def)
  qed
qed

end

text \<open>Libraries that number the clients and answer every call; a ping fails where the option to is set.\<close>

definition counting_mongo :: "bool \<Rightarrow> (nat, nat \<times> nat set) mongo_driver" where
  "counting_mongo up = \<lparr>dr_Connect = (\<lambda>opts (n, open1). ((Suc n, insert n (open1 \<inter> {..<n})), Inr n)),
     dr_Ping = (\<lambda>h w. (w, if up then None else Some ''no reachable servers'')), dr_Disconnect = (\<lambda>h (n, open1). ((n, open1 - {h}), None))\<rparr>"

definition counting_redis :: "bool \<Rightarrow> (nat, nat, nat \<times> nat set) redis_driver" where
  "counting_redis up = \<lparr>rv_NewClient = (\<lambda>opts (n, open1). ((Suc n, insert n (open1 \<inter> {..<n})), n)),
     rv_Ping = (\<lambda>h w. (w, if up then None else Some ''connection refused'')), rv_Close = (\<lambda>h (n, open1). ((n, open1 - {h}), None)),
     rv_ClusterSlots = (\<lambda>h w. (w, Inr 0)), rv_ClusterInfo = (\<lambda>h w. (w, Inr ''ok'')), rv_Subscribe = (\<lambda>h cs w. (w, h)),
     rv_PSubscribe = (\<lambda>h cs w. (w, h))\<rparr>"

definition counted :: "nat \<times> nat set \<Rightarrow> nat set" where "counted w = snd w \<inter> {..<fst w}"

interpretation counted_mongo: mongo_clients "counting_mongo up" counted
  by unfold_locales (auto simp: counting_mongo_def counted_def)

interpretation counted_redis: redis_clients "counting_redis up" counted
  by unfold_locales (auto simp: counting_redis_def counted_def)

subsection \<open>Properties\<close>

text \<open>
  C40: the credentials survive the connection string: for a replica set or a sharded cluster with a user name and a
  password the string after the scheme is the escaped name, a colon, the escaped password and an at sign, in
  which none of the separators occurs otherwise; so the part before the first at sign splits at its first colon
  into two fields that \<^verbatim>\<open>QueryUnescape\<close> reads back as the name and the password.
\<close>

theorem credentials_roundtrip:
  assumes "mongo_options getenv cfg = Inr opts" and "mongo_mode_of cfg \<noteq> MongoSingle"
    and "mf_Username cfg \<noteq> []" and "mongo_password getenv cfg \<noteq> []"
  shows "take 10 (mo_URI opts) = ''mongodb://'' \<and>
    (let auth = takeWhile (\<lambda>c. c \<noteq> CHR ''@'') (drop 10 (mo_URI opts));
         name = takeWhile (\<lambda>c. c \<noteq> CHR '':'') auth
     in QueryUnescape name = Some (mf_Username cfg) \<and> QueryUnescape (drop (Suc (length name)) auth) = Some (mongo_password getenv cfg))"
proof -
  let ?u = "QueryEscape (mf_Username cfg)" and ?p = "QueryEscape (mongo_password getenv cfg)"
  have uri: "\<exists>rest. mo_URI opts = ''mongodb://'' @ ?u @ '':'' @ ?p @ ''@'' @ rest"
  proof (cases "mongo_mode_of cfg")
    case MongoReplicaSet
    with assms(1,3,4) show ?thesis
      by (auto simp: mongo_options_def buildReplicaSetOptions_def userinfo_def Let_def pooled_options_def with_read_preference_def
          with_write_concern_def split: if_splits sum.splits)
  next
    case MongoSharded
    with assms(1,3,4) show ?thesis
      by (auto simp: mongo_options_def buildShardedClusterOptions_def userinfo_def Let_def pooled_options_def split: if_splits)
  qed (use assms(2) in simp)
  then obtain rest where rest: "mo_URI opts = ''mongodb://'' @ ?u @ '':'' @ ?p @ ''@'' @ rest" ..
  have no: "\<forall>c \<in> set ?u. c \<noteq> CHR ''@'' \<and> c \<noteq> CHR '':''" "\<forall>c \<in> set ?p. c \<noteq> CHR ''@''"
    using escaped_plain [of "mf_Username cfg"] escaped_plain [of "mongo_password getenv cfg"] by auto
  have d: "drop 10 (mo_URI opts) = (?u @ '':'' @ ?p) @ CHR ''@'' # rest" "take 10 (mo_URI opts) = ''mongodb://''" by (simp_all add: rest)
  have a: "takeWhile (\<lambda>c. c \<noteq> CHR ''@'') (drop 10 (mo_URI opts)) = ?u @ CHR '':'' # ?p"
    unfolding d using no by (subst takeWhile_append2) auto
  have n: "takeWhile (\<lambda>c. c \<noteq> CHR '':'') (?u @ CHR '':'' # ?p) = ?u"
    using no by (subst takeWhile_append2) auto
  have "QueryUnescape (QueryEscape s) = Some s" for s by (simp add: QueryUnescape_def unescape_escape map_idI)
  then show ?thesis unfolding a Let_def n by (simp add: d(2))
qed

definition demo_mongo :: mongo_config where
  "demo_mongo = \<lparr>mf_URI = [], mf_Database = ''game'', mf_ReplicaSet = True, mf_ReplicaSetName = ''rs0'', mf_Hosts = [''a:27017'', ''b:27017''],
     mf_AuthSource = ''admin'', mf_Username = ''ro@t'', mf_Password = ''p w:'', mf_PasswordEnv = [], mf_ShardedCluster = False,
     mf_MongosHosts = [], mf_ConnectTimeout = 0, mf_MaxPoolSize = 10, mf_MinPoolSize = 1, mf_MaxConnIdleTime = 0, mf_ReadPreference = ''nearest'',
     mf_WriteConcern = ''4'', mf_ReadConcern = [], mf_TLSEnabled = False, mf_TLSCertFile = [], mf_TLSKeyFile = [], mf_TLSCAFile = []\<rparr>"

lemma demo_escaped: "QueryEscape ''ro@t'' = ''ro%40t''" "QueryEscape ''p w:'' = ''p+w%3A''"
  by (simp_all add: QueryEscape_def escape_char_def query_keep_def upper_hex_def Let_def)

lemma demo_parsed: "parse_int64 ''4'' = Some 4" "parse_int64 ''1'' = Some 1" "parse_int64 ''2'' = Some 2" "parse_int64 ''3'' = Some 3"
  by (simp_all add: parse_int64_def parse_nat_def digit_val_def Let_def)

lemma demo_options:
  "\<exists>opts. mongo_options (\<lambda>_. []) demo_mongo = Inr opts \<and>
     mo_URI opts = ''mongodb://ro%40t:p+w%3A@a:27017,b:27017/game?replicaSet=rs0&authSource=admin''"
  by (simp add: mongo_options_def mongo_mode_of_def demo_mongo_def buildReplicaSetOptions_def userinfo_def mongo_password_def demo_escaped
      host_list_def with_read_preference_def with_write_concern_def parseReadPreference_def parseWriteConcern_def parseIntOrDefault_def
      demo_parsed pooled_options_def Let_def)

theorem credentials_roundtrip_witness:
  "\<exists>opts. mongo_options (\<lambda>_. []) demo_mongo = Inr opts \<and>
     mo_URI opts = ''mongodb://ro%40t:p+w%3A@a:27017,b:27017/game?replicaSet=rs0&authSource=admin'' \<and>
     QueryUnescape (takeWhile (\<lambda>c. c \<noteq> CHR '':'') (takeWhile (\<lambda>c. c \<noteq> CHR ''@'') (drop 10 (mo_URI opts)))) = Some ''ro@t''"
proof -
  obtain opts where o: "mongo_options (\<lambda>_. []) demo_mongo = Inr opts"
    "mo_URI opts = ''mongodb://ro%40t:p+w%3A@a:27017,b:27017/game?replicaSet=rs0&authSource=admin''" using demo_options by blast
  have "mongo_mode_of demo_mongo \<noteq> MongoSingle" "mf_Username demo_mongo = ''ro@t''" "mongo_password (\<lambda>_. []) demo_mongo \<noteq> []"
    by (simp_all add: mongo_mode_of_def mongo_password_def demo_mongo_def)
  with credentials_roundtrip [OF o(1)] o show ?thesis by (simp only: Let_def) simp
qed

text \<open>A reader that only decodes percent signs gets a plus sign for every space.\<close>

lemma percent_decoded: "PathUnescape (QueryEscape s) = Some (map (\<lambda>c. if c = CHR '' '' then CHR ''+'' else c) s)"
  by (simp add: PathUnescape_def unescape_escape)

text \<open>The cases of \<^verbatim>\<open>parseWriteConcern\<close> for small numbers are those of its default.\<close>

lemma write_concern_number:
  "parseWriteConcern concern = (if concern = ''majority'' then Inr WMajority
     else case parse_int64 concern of
       Some n \<Rightarrow> if 0 < n then Inr (WNumber n) else Inl (''unknown write concern: '' @ concern)
     | None \<Rightarrow> Inl (''unknown write concern: '' @ concern))"
proof -
  consider "concern = ''majority''" | "concern = ''1''" | "concern = ''2''" | "concern = ''3''"
    | "concern \<notin> {''majority'', ''1'', ''2'', ''3''}" by blast
  then show ?thesis
    by cases (simp_all add: parseWriteConcern_def parseIntOrDefault_def demo_parsed Let_def split: option.splits)
qed

text \<open>
  a database manager that is refused leaves nothing open: \<^verbatim>\<open>NewMongoManager\<close> opens exactly one client when it
  succeeds, which \<^verbatim>\<open>Close\<close> closes again, and none when it fails, be it in the configuration, in connecting or in
  the ping.
\<close>

theorem mongo_manager_opens_one:
  assumes "mongo_clients dr opened" and "NewMongoManager dr getenv cfg w = (w', r)"
  shows "case r of
      Inl e \<Rightarrow> opened w' = opened w
    | Inr mm \<Rightarrow> \<exists>h. opened w' = insert h (opened w) \<and> h \<notin> opened w \<and>
        (\<exists>w'' e. mongo_Close dr mm w' = Ret (w'', e) \<and> opened w'' = opened w)"
proof (cases r)
  case (Inl e)
  with mongo_clients.manager_opens [OF assms] show ?thesis by simp
next
  case (Inr mm)
  with mongo_clients.manager_opens [OF assms] obtain h where
    h: "mg_client mm = Some h" "h \<notin> opened w" "opened w' = insert h (opened w)" by auto
  obtain w'' e where d: "dr_Disconnect dr h w' = (w'', e)" by fastforce
  from mongo_clients.disconnect [OF assms(1) d] h have "opened w'' = opened w" by auto
  with Inr h d show ?thesis by (auto simp: mongo_Close_def)
qed

theorem mongo_manager_opens_one_witness:
  "(\<exists>e. snd (NewMongoManager (counting_mongo False) (\<lambda>_. []) demo_mongo (3, {1})) = Inl e) \<and>
   counted (fst (NewMongoManager (counting_mongo False) (\<lambda>_. []) demo_mongo (3, {1}))) = {1} \<and>
   counted (fst (NewMongoManager (counting_mongo True) (\<lambda>_. []) demo_mongo (3, {1}))) \<noteq> {1}"
proof -
  obtain opts where opts: "mongo_options (\<lambda>_. []) demo_mongo = Inr opts" using demo_options by blast
  let ?r = "\<lambda>up. NewMongoManager (counting_mongo up) (\<lambda>_. []) demo_mongo (3, {1})"
  have s: "isl (snd (?r False))" "\<not> isl (snd (?r True))" using opts by (simp_all add: NewMongoManager_def counting_mongo_def)
  have c: "counted (3, {1}) = {1}" by (auto simp: counted_def)
  note m = mongo_manager_opens_one [OF counted_mongo.mongo_clients_axioms prod.collapse [symmetric], where w = "(3, {1})"]
  from m [of False "\<lambda>_. []" demo_mongo] m [of True "\<lambda>_. []" demo_mongo] s c show ?thesis
    by (auto simp: isl_def split: sum.splits)
qed

text \<open>
  A Redis manager that is made can be closed, in every mode; one whose ping fails leaves its client open, as
  nothing keeps it.
\<close>

theorem redis_manager_closes:
  assumes "redis_clients rv opened" and "NewRedisManager rv getenv cfg w = (w', Inr rm)" and "redis_Close rv rm w' = (w'', e)"
  shows "opened w'' = opened w \<and> opened w' \<noteq> opened w"
proof -
  from redis_clients.manager_opens [OF assms(1,2)] obtain h where
    h: "mode_client rm = Some h" "h \<notin> opened w" "opened w' = insert h (opened w)" by auto
  with assms(3) have "rv_Close rv h w' = (w'', e)" by (simp add: redis_Close_def)
  from redis_clients.close [OF assms(1) this] h show ?thesis by auto
qed

lemma redis_failed_ping_leaks:
  assumes "redis_clients rv opened" and "init_redis rv getenv cfg w = (w1, Inr rm)" and "redis_Ping rv (Some rm) w1 = (w2, Some e)"
  shows "\<exists>h. NewRedisManager rv getenv cfg w = (w2, Inl (''failed to connect to redis: '' @ e)) \<and> h \<notin> opened w \<and> opened w2 = insert h (opened w)"
proof -
  from redis_clients.init_opens [OF assms(1,2)] obtain c where c: "rg_client rm = Some c" "handle_of c \<notin> opened w"
    "opened w1 = insert (handle_of c) (opened w)" by auto
  with assms(3) have "rv_Ping rv (handle_of c) w1 = (w2, Some e)" by (simp add: redis_Ping_def)
  from redis_clients.ping [OF assms(1) this] c assms(2,3) show ?thesis by (auto simp: NewRedisManager_def)
qed

definition demo_redis :: redis_config where
  "demo_redis = \<lparr>rf_Addr = ''localhost:6379'', rf_Password = [], rf_PasswordEnv = ''REDIS_PASSWORD'', rf_DB = 0, rf_ClusterMode = False,
     rf_ClusterAddrs = [], rf_SentinelMode = True, rf_SentinelAddrs = [''s1:26379''], rf_SentinelMaster = ''main'', rf_PoolSize = 10,
     rf_MaxRetries = 3, rf_DialTimeout = 0, rf_ReadTimeout = 0, rf_WriteTimeout = 0, rf_IdleTimeout = 0, rf_MaxRedirects = 0, rf_ReadOnly = False,
     rf_RouteByLatency = False, rf_RouteRandomly = False\<rparr>"

theorem redis_manager_closes_witness:
  "\<exists>w' rm w'' e. NewRedisManager (counting_redis True) (\<lambda>_. ''x'') demo_redis (3, {1}) = (w', Inr rm) \<and>
     redis_Close (counting_redis True) rm w' = (w'', e) \<and> counted w'' = counted (3, {1}) \<and> counted w' \<noteq> counted (3, {1})"
proof -
  obtain w' rm where n: "NewRedisManager (counting_redis True) (\<lambda>_. ''x'') demo_redis (3, {1}) = (w', Inr rm)"
    by (simp add: NewRedisManager_def init_redis_def initSentinelMode_def demo_redis_def counting_redis_def redis_Ping_def Let_def)
  obtain w'' e where c: "redis_Close (counting_redis True) rm w' = (w'', e)" by fastforce
  from redis_manager_closes [OF counted_redis.redis_clients_axioms n c] n c show ?thesis by blast
qed

end
