(* ===== verification/Spec2Isabelle.thy ===== *)
theory Spec2Isabelle
  imports Frame ObjectPool Breaker RpcClient RpcPool RpcServer TcpServer Actors Gameplay Security CardPlugin LoginTokens
    Mongo Bson Repository Rows Rooms Users Records Friends Mails Lobby Games FriendServer MailServer Redis Login Bans Gm Discovery Nsq Gateway
    BaseServer Servers SystemRpc Center I18n Enhanced Audits Migrations HotReload Monitoring Chats Connections
begin

text \<open>
  A verification library for the Tribeway game backend. Clients talk to a gateway over TCP with
  length-prefixed frames; the gateway and the servers behind it (login, lobby, game, friend, mail, chat,
  GM) call each other over an RPC protocol on the same frames, keep users, rooms, friends, mails, bans and
  game records in MongoDB and sessions, caches and locks in Redis. Each theory models one part of the
  sources under \<^verbatim>\<open>src/\<close>, with definitions under the names the sources use, and proves what makes it
  correct; \<open>PROJECT.json\<close> maps each definition to its lines and lists the properties.

  \<^bold>\<open>Shared vocabulary.\<close> \<open>Prelude\<close> has the machine types (\<^verbatim>\<open>uint64\<close> is a word, \<^verbatim>\<open>int32\<close> and \<^verbatim>\<open>int64\<close> are
  integers with the wrap-around written out where they overflow), times in nanoseconds, and the outcome of
  a call that may panic. \<open>GoStd\<close> models what is used of the standard library: decimal formatting and
  parsing, splitting, hexadecimal, big-endian words. \<open>Protocol\<close> has \<^verbatim>\<open>internal/protocol/errors.go\<close> and the
  message structs all handlers share.

  \<^bold>\<open>Network.\<close> \<open>Frame\<close> is \<^verbatim>\<open>network/frame.go\<close>: writing with partial writes, reading, the size limit, and that
  a stream of frames is read back exactly; its loop takes as fuel the number of bytes left, which suffices
  because \<^verbatim>\<open>io.Writer\<close> makes progress or fails (locale \<open>io_writer\<close>). \<open>TcpServer\<close> is \<^verbatim>\<open>network/tcp_server.go\<close>:
  connections in a store, since handlers share them, the accept limit, heartbeat, delivery to users.

  \<^bold>\<open>RPC.\<close> \<^verbatim>\<open>rpc/rpc.go\<close> in four theories: \<open>RpcServer\<close> (registration, dispatch, the loop of a connection over
  \<open>Frame\<close>), \<open>RpcClient\<close> (callers, the reading goroutine and \<^verbatim>\<open>Disconnect\<close> as interleaved events on the table
  of callbacks), \<open>Breaker\<close> (the circuit breaker, refined to a specification that counts failures, and the
  retry loop), \<open>RpcPool\<close> (the connection pool). \<open>ObjectPool\<close> is \<^verbatim>\<open>pool/object_pool.go\<close>.

  \<^bold>\<open>Actors and rules.\<close> \<open>Actors\<close> is \<^verbatim>\<open>actor/actor.go\<close>: one actor as an inductive step relation over its lock,
  mailbox and goroutine, with the invariants of every reachable state, and the actor system over the
  interface of an actor. \<open>Gameplay\<close> is the room manager and the card module of \<^verbatim>\<open>gameplay/gameplay.go\<close>,
  \<open>CardPlugin\<close> the rules of \<^verbatim>\<open>plugins/game_logic.go\<close>. \<open>Security\<close> is \<^verbatim>\<open>security/security.go\<close>.

  \<^bold>\<open>Storage.\<close> The MongoDB driver and the Redis client are parameters. \<open>Mongo\<close> states the documented effect of
  the driver's calls on the documents of a collection (locale \<open>mongo_collection\<close>; after a network error an
  effect may or may not have happened) and interprets it on a collection in memory, which the witnesses
  use. \<open>Bson\<close> is the field codec, \<open>Repository\<close> and \<open>Rows\<close> derive the two shapes of a repository: a map under a
  unique index, and a list of models without one. On them rest \<open>Users\<close>, \<open>Rooms\<close>, \<open>Records\<close>, \<open>Friends\<close>,
  \<open>Mails\<close>, \<open>Bans\<close> and \<open>Chats\<close>, the repositories of \<^verbatim>\<open>database/mongodb.go\<close>; each states its contract as a locale
  (\<open>user_store\<close>, \<open>room_store\<close>, \<open>record_store\<close>, \<open>friend_store\<close>, \<open>mail_store\<close>, \<open>ban_store\<close>, \<open>block_table\<close>), proves it for every
  collection and interprets it in memory. \<open>Redis\<close> does the same for \<^verbatim>\<open>database/redis.go\<close>: values with expiry,
  caches, sessions, locks.

  \<^bold>\<open>Servers.\<close> One theory per server of \<^verbatim>\<open>internal/server\<close>, every handler whole, over the contracts of its
  repositories: \<open>LoginTokens\<close> and \<open>Login\<close>, \<open>Lobby\<close>, \<open>Games\<close>, \<open>FriendServer\<close>, \<open>MailServer\<close>, \<open>Gm\<close>. The state is
  the collections and what the process keeps in memory; a handler maps it and a request to the next state
  and a response, with a branch for every error. The client's lemmas are proved in a locale that takes the
  stores as parameters (\<open>login_service\<close>, \<open>lobby_service\<close>, \<open>game_service\<close>, \<open>friend_service\<close>, \<open>mail_service\<close>) and
  reach the properties through the contracts proved for MongoDB. Runs are folds of handler calls; where a
  handler is several database calls the theory also has its parts, to state what interleaving them does.

  \<^bold>\<open>Gateway and infrastructure.\<close> \<open>Discovery\<close> is \<^verbatim>\<open>discovery/etcd.go\<close> over the calls of the etcd client (locale
  \<open>etcd_store\<close>, interpreted on a store in memory): registration under a lease, the watch, the balancers and
  the cache of services. \<open>Nsq\<close> is \<^verbatim>\<open>mq/nsq.go\<close> over the calls of the NSQ client (locale \<open>nsq_net\<close>): single and
  cluster mode, failover, the messages and the broker. \<open>Gateway\<close> is \<^verbatim>\<open>server/gateway_server.go\<close>, where
  \<open>TcpServer\<close>, \<open>Redis\<close>, \<open>Discovery\<close> and \<open>RpcPool\<close> meet: every message of a connection is checked against its
  session, routed by its identifier and answered by one frame.

  \<^bold>\<open>The servers as processes.\<close> \<open>BaseServer\<close> is the base server of \<^verbatim>\<open>server/server.go\<close> and \<^verbatim>\<open>component_*.go\<close>: which
  components a node has, their construction in order and the clean-up when one fails, \<^verbatim>\<open>Start\<close>, \<^verbatim>\<open>Stop\<close> and the
  load loop; the locale \<open>component_host\<close> states what making and stopping a component does. \<open>Servers\<close> has the
  constructors of the ten node types over it (locale \<open>server_host\<close>). \<open>SystemRpc\<close> is \<^verbatim>\<open>system_service.go\<close>, which every
  node serves: information, health and the system messages. \<open>Center\<close> is \<^verbatim>\<open>center_server.go\<close>: the cluster as the
  registry lists it, and commands sent over the broker to the handlers of \<open>SystemRpc\<close> (locale \<open>commands\<close>), with the
  stubs of \<^verbatim>\<open>chat_server.go\<close>. \<open>Enhanced\<close> is \<^verbatim>\<open>enhanced_server.go\<close> over \<open>Gameplay\<close>, \<open>Security\<close> and \<open>I18n\<close>, the
  languages of \<^verbatim>\<open>i18n/i18n.go\<close>.

  \<^bold>\<open>Upkeep.\<close> \<open>Audits\<close> is \<^verbatim>\<open>database/audit.go\<close>, the audit log and the operations that are begun once per key (locale
  \<open>keyed_collection\<close>, a collection whose index deletes documents after a week); \<open>Migrations\<close> is \<^verbatim>\<open>database/migrations.go\<close>
  with the choices of \<^verbatim>\<open>tools/migrate\<close>, the runner of schema migrations over a collection with a unique version
  (locale \<open>migration_table\<close>). \<open>HotReload\<close> is \<^verbatim>\<open>hotreload/hot_reload.go\<close>: modules, configuration files and what a
  change of a file does, over the calls of the operating system, the watcher and the plugin loader. \<open>Monitoring\<close> is
  \<^verbatim>\<open>monitoring/monitor.go\<close>: the guard of the management endpoints, the metrics and the alert rules with their cooldown.
  \<open>Connections\<close> is how the managers of \<^verbatim>\<open>mongodb.go\<close> and \<^verbatim>\<open>redis.go\<close> connect: modes, options, the connection
  string and which clients are left open (locales \<open>mongo_clients\<close>, \<open>redis_clients\<close>).

  \<^bold>\<open>Parameters.\<close> Protobuf and JSON codecs, HMAC, bcrypt, the AEAD cipher, time formatting, the order in which
  Go ranges over a map, the clock (one reading per call) and random bytes are arguments of the definitions.
  Hypotheses on them are named in the statements and hold of concrete instances in the witnesses. Counters
  are 64-bit words; properties that need them not to wrap say so in terms of the number of calls.

  \<^bold>\<open>Findings.\<close> Some theorems state behaviour that is hardly meant: games that never start, an enhanced server
  that serves no game, nodes the center loses sight of, a server that cannot be stopped after its first load
  report, and, among the lemmas, a registration lost with its lease, a session refreshed after logout, friends
  without a request, a mail list that is always empty. Each holds of the code as it is.

  \<^bold>\<open>Not modelled.\<close> Logging (\<^verbatim>\<open>logger\<close>) and the HTTP servers of monitoring: output only. Reading the YAML
  configuration, dialling and TLS. Generated protobuf code, the programs under \<^verbatim>\<open>cmd\<close>, \<^verbatim>\<open>tools\<close> (but for the migrations) and
  \<^verbatim>\<open>examples\<close>. The number printers of \<^verbatim>\<open>x/text\<close> and the library \<^verbatim>\<open>go-i18n\<close> are parameters.
\<close>

end
